(* ===== verification/Prelude.thy ===== *)
theory Prelude
  imports
    Main
    "HOL-Library.Sublist"
    "HOL-Library.Char_ord"
    "HOL-Library.List_Lexorder"
    "HOL-Library.Product_Lexorder"
    "HOL-Library.Mapping"
begin

text \<open>
  The shared vocabulary of the development.

  \<^item> Go strings: a string is the list of its bytes, as in Go.  The functions of the package
    \<open>strings\<close> that the sources call (\<open>TrimSpace\<close>, \<open>ToLower\<close>, \<open>HasPrefix\<close>, \<open>Split\<close>, \<open>TrimPrefix\<close>),
    \<open>encoding/hex\<close> and \<open>strconv.Atoi\<close> are defined here, with the facts the components use.
  \<^item> Database tables: a table is the list of its rows, a \<open>WHERE\<close> clause is a predicate on rows.
  \<^item> Transactions: the body of a transaction ends in \<open>Rollback\<close> (an early \<open>return\<close> with the
    deferred \<open>tx.Rollback\<close>; \<open>Abort\<close> when it returns an error) or in \<open>Commit\<close>, which carries the
    value returned after the commit (possibly an error) and the new database.  What the \<open>COMMIT\<close> itself does is the fate
    \<open>commit_fate\<close>: it may succeed, fail, or take effect while its acknowledgement is lost.
  \<^item> Time is an integer number of nanoseconds, as in \<open>time.Duration\<close>.
\<close>

named_theorems table_simps \<open>rewrite rules for table updates and selections\<close>
named_theorems go_simps \<open>rewrite rules for the Go string library\<close>

section \<open>Time\<close>

type_synonym time = int

definition seconds :: "int \<Rightarrow> time" where
  "seconds n = n * 1000000000"

definition minutes :: "int \<Rightarrow> time" where
  "minutes n = seconds (60 * n)"

section \<open>Strings\<close>

definition bytes :: "nat list \<Rightarrow> string" where
  "bytes ns = map char_of ns"

text \<open>The UTF-8 encodings of the code points for which \<open>unicode.IsSpace\<close> holds.\<close>

definition go_spaces :: "string list" where
  "go_spaces = map bytes
     ([[9], [10], [11], [12], [13], [32], [0xC2, 0x85], [0xC2, 0xA0], [0xE1, 0x9A, 0x80]]
      @ map (\<lambda>b. [0xE2, 0x80, b]) [0x80, 0x81, 0x82, 0x83, 0x84, 0x85, 0x86, 0x87, 0x88, 0x89, 0x8A,
          0xA8, 0xA9, 0xAF]
      @ [[0xE2, 0x81, 0x9F], [0xE3, 0x80, 0x80]])"

lemma go_spaces_nonempty: "p \<in> set go_spaces \<Longrightarrow> p \<noteq> []"
  by (auto simp: go_spaces_def bytes_def)

fun find_prefix :: "string list \<Rightarrow> string \<Rightarrow> string option" where
  "find_prefix [] s = None"
| "find_prefix (p # ps) s = (if prefix p s then Some p else find_prefix ps s)"

lemma find_prefix_Some: "find_prefix ps s = Some p \<Longrightarrow> p \<in> set ps \<and> prefix p s"
  by (induction ps) (auto split: if_splits)

lemma find_prefix_None_iff: "find_prefix ps s = None \<longleftrightarrow> (\<forall>p \<in> set ps. \<not> prefix p s)"
  by (induction ps) auto

text \<open>Dropping encodings of white space at the front; the list of encodings is an argument, so
  that the same loop run on the reversed string trims at the back.\<close>

function trim_front :: "string list \<Rightarrow> string \<Rightarrow> string" where
  "trim_front ps s =
     (case find_prefix ps s of
        None \<Rightarrow> s
      | Some p \<Rightarrow> if p = [] then s else trim_front ps (drop (length p) s))"
  by pat_completeness auto
termination
proof (relation "measure (\<lambda>(ps, s). length s)", goal_cases)
  case (2 ps s p)
  then have "prefix p s" by (auto dest: find_prefix_Some)
  then have "length p \<le> length s" by (rule prefix_length_le)
  with 2 show ?case by (cases p) auto
qed simp

declare trim_front.simps [simp del]

lemma trim_front_stop: "\<forall>p \<in> set ps. \<not> prefix p s \<Longrightarrow> trim_front ps s = s"
  by (subst trim_front.simps) (simp add: find_prefix_None_iff [THEN iffD2])

lemma trim_front_suffix: "suffix (trim_front ps s) s"
proof (induction ps s rule: trim_front.induct)
  case (1 ps s)
  show ?case
  proof (cases "find_prefix ps s")
    case None
    then show ?thesis by (simp add: trim_front.simps [of ps s])
  next
    case (Some p)
    show ?thesis
    proof (cases "p = []")
      case True
      with Some show ?thesis by (simp add: trim_front.simps [of ps s])
    next
      case False
      have "suffix (trim_front ps (drop (length p) s)) (drop (length p) s)"
        using 1 [OF Some False] .
      then have "suffix (trim_front ps (drop (length p) s)) s"
        by (rule suffix_order.trans) (rule suffix_drop)
      with Some False show ?thesis by (simp add: trim_front.simps [of ps s])
    qed
  qed
qed

lemma trim_front_result:
  assumes "[] \<notin> set ps"
  shows "\<forall>p \<in> set ps. \<not> prefix p (trim_front ps s)"
  using assms
proof (induction ps s rule: trim_front.induct)
  case (1 ps s)
  show ?case
  proof (cases "find_prefix ps s")
    case None
    then have "trim_front ps s = s" by (simp add: trim_front.simps [of ps s])
    with None show ?thesis by (simp add: find_prefix_None_iff)
  next
    case (Some p)
    then have "p \<noteq> []" using 1 find_prefix_Some by force
    with Some 1 show ?thesis by (simp add: trim_front.simps [of ps s])
  qed
qed

definition TrimSpace :: "string \<Rightarrow> string" where
  "TrimSpace s = rev (trim_front (map rev go_spaces) (rev (trim_front go_spaces s)))"

text \<open>A string whose bytes are all printable ASCII has no white space at either end.\<close>

definition space_byte :: "char \<Rightarrow> bool" where
  "space_byte c \<longleftrightarrow> of_char c \<le> (32::nat) \<or> 127 < (of_char c :: nat)"

lemma go_spaces_bytes: "p \<in> set go_spaces \<Longrightarrow> \<forall>c \<in> set p. space_byte c"
  by (auto simp: go_spaces_def bytes_def space_byte_def)

lemma no_space_prefix:
  assumes "\<forall>c \<in> set s. \<not> space_byte c" "\<forall>p \<in> set ps. p \<noteq> [] \<and> (\<forall>c \<in> set p. space_byte c)"
  shows "\<forall>p \<in> set ps. \<not> prefix p s"
proof
  fix p assume "p \<in> set ps"
  with assms(2) obtain c q where "p = c # q" "space_byte c" by (cases p) auto
  with assms(1) show "\<not> prefix p s" by (cases s) auto
qed

lemma TrimSpace_clean [go_simps]: "\<forall>c \<in> set s. \<not> space_byte c \<Longrightarrow> TrimSpace s = s"
proof -
  assume s: "\<forall>c \<in> set s. \<not> space_byte c"
  have 1: "\<forall>p \<in> set go_spaces. \<not> prefix p s"
    using s by (rule no_space_prefix) (auto dest: go_spaces_nonempty go_spaces_bytes)
  have 2: "\<forall>p \<in> set (map rev go_spaces). \<not> prefix p (rev s)"
    by (rule no_space_prefix) (use s in \<open>auto dest: go_spaces_nonempty go_spaces_bytes\<close>)
  show ?thesis
    using 1 2 by (simp add: TrimSpace_def trim_front_stop)
qed

lemma TrimSpace_Nil [simp]: "TrimSpace [] = []"
  by (rule TrimSpace_clean) simp

lemma TrimSpace_idem [simp]: "TrimSpace (TrimSpace s) = TrimSpace s"
proof -
  let ?f = "trim_front go_spaces s"
  let ?t = "rev (trim_front (map rev go_spaces) (rev ?f))"
  have ne: "[] \<notin> set go_spaces" "[] \<notin> set (map rev go_spaces)"
    using go_spaces_nonempty by auto
  have pre: "prefix ?t ?f"
    using trim_front_suffix [of "map rev go_spaces" "rev ?f"] by (simp add: suffix_to_prefix)
  have "\<forall>p \<in> set go_spaces. \<not> prefix p ?t"
    using trim_front_result [OF ne(1), of s] pre by (blast intro: prefix_order.trans)
  then have "trim_front go_spaces ?t = ?t" by (rule trim_front_stop)
  moreover have "trim_front (map rev go_spaces) (rev ?t) = rev ?t"
    by (rule trim_front_stop) (simp add: trim_front_result [OF ne(2), simplified])
  ultimately show ?thesis by (simp add: TrimSpace_def)
qed

text \<open>\<open>strings.ToLower\<close>, up to comparison with ASCII literals: ASCII letters are lowered, and so are
  the two other code points whose lower case is ASCII (the Kelvin sign and the dotted capital I).\<close>

definition lower_byte :: "char \<Rightarrow> char" where
  "lower_byte c =
     (let n = of_char c :: nat in if 65 \<le> n \<and> n \<le> 90 then char_of (n + 32) else c)"

fun ToLower :: "string \<Rightarrow> string" where
  "ToLower [] = []"
| "ToLower (a # b # c # s) =
     (if [a, b, c] = bytes [0xE2, 0x84, 0xAA] then CHR ''k'' # ToLower s
      else if [a, b] = bytes [0xC4, 0xB0] then CHR ''i'' # ToLower (c # s)
      else lower_byte a # ToLower (b # c # s))"
| "ToLower (a # b # s) =
     (if [a, b] = bytes [0xC4, 0xB0] then CHR ''i'' # ToLower s
      else lower_byte a # ToLower (b # s))"
| "ToLower (a # s) = lower_byte a # ToLower s"

definition ascii :: "char \<Rightarrow> bool" where
  "ascii c \<longleftrightarrow> (of_char c :: nat) < 128"

lemma ToLower_ascii [go_simps]: "\<forall>c \<in> set s. ascii c \<Longrightarrow> ToLower s = map lower_byte s"
  by (induction s rule: ToLower.induct) (auto simp: bytes_def ascii_def)

definition TrimPrefix :: "string \<Rightarrow> string \<Rightarrow> string" where
  "TrimPrefix s p = (if prefix p s then drop (length p) s else s)"

fun Split_at :: "char \<Rightarrow> string \<Rightarrow> string list" where
  "Split_at d [] = [[]]"
| "Split_at d (c # s) =
     (if c = d then [] # Split_at d s
      else case Split_at d s of [] \<Rightarrow> [[c]] | w # ws \<Rightarrow> (c # w) # ws)"

lemma Split_at_not_Nil [simp]: "Split_at d s \<noteq> []"
  by (induction s) (auto split: list.splits)

section \<open>Hexadecimal strings\<close>

definition hextable :: string where
  "hextable = ''0123456789abcdef''"

definition hex_codes :: "(char \<times> nat) list" where
  "hex_codes = zip hextable [0..<16] @ zip ''ABCDEF'' [10..<16]"

definition hex_val :: "char \<Rightarrow> nat option" where
  "hex_val c = map_of hex_codes c"

definition hex_digit :: "nat \<Rightarrow> char" where
  "hex_digit d = hextable ! d"

fun hex_DecodeString :: "string \<Rightarrow> nat list option" where
  "hex_DecodeString [] = Some []"
| "hex_DecodeString [a] = None"
| "hex_DecodeString (a # b # s) =
     (case (hex_val a, hex_val b, hex_DecodeString s) of
        (Some x, Some y, Some r) \<Rightarrow> Some ((16 * x + y) # r)
      | _ \<Rightarrow> None)"

fun hex_print :: "nat list \<Rightarrow> string" where
  "hex_print [] = []"
| "hex_print (b # bs) = hex_digit (b div 16) # hex_digit (b mod 16) # hex_print bs"

lemma hex_codes_bound: "\<forall>(c, x) \<in> set hex_codes. x < 16"
  by code_simp

lemma hex_codes_digit: "\<forall>(c, x) \<in> set hex_codes. hex_digit x = lower_byte c"
  by code_simp

lemma hex_digits_val: "\<forall>d \<in> set [0..<16]. hex_val (hex_digit d) = Some d"
  by code_simp

lemma hex_val_bound: "hex_val c = Some x \<Longrightarrow> x < 16"
  using hex_codes_bound by (auto simp: hex_val_def dest!: map_of_SomeD)

lemma hex_val_small: "hex_val c = Some x \<Longrightarrow> x div 16 = 0 \<and> x mod 16 = x"
  by (drule hex_val_bound) simp

lemma hex_digit_hex_val: "hex_val c = Some x \<Longrightarrow> hex_digit x = lower_byte c"
  using hex_codes_digit by (auto simp: hex_val_def dest!: map_of_SomeD)

lemma hex_DecodeString_length: "hex_DecodeString s = Some bs \<Longrightarrow> length s = 2 * length bs"
  by (induction s arbitrary: bs rule: hex_DecodeString.induct) (auto split: option.splits)

lemma hex_print_decode: "hex_DecodeString s = Some bs \<Longrightarrow> hex_print bs = map lower_byte s"
  by (induction s arbitrary: bs rule: hex_DecodeString.induct)
    (auto split: option.splits simp: hex_val_small hex_digit_hex_val)

lemma hex_print_append: "hex_print (xs @ ys) = hex_print xs @ hex_print ys"
  by (induction xs) auto

lemma hex_print_length [simp]: "length (hex_print bs) = 2 * length bs"
  by (induction bs) auto

lemma hex_decode_bytes: "hex_DecodeString s = Some bs \<Longrightarrow> \<forall>b \<in> set bs. b < 256"
  by (induction s arbitrary: bs rule: hex_DecodeString.induct)
    (fastforce split: option.splits dest: hex_val_bound)+

lemma hex_val_hex_digit: "d < 16 \<Longrightarrow> hex_val (hex_digit d) = Some d"
  using hex_digits_val by simp

lemma hex_decode_print: "\<forall>b \<in> set bs. b < 256 \<Longrightarrow> hex_DecodeString (hex_print bs) = Some bs"
  by (induction bs) (auto simp: hex_val_hex_digit)

lemma hex_digit_mem: "d < 16 \<Longrightarrow> hex_digit d \<in> set hextable"
  unfolding hex_digit_def by (rule nth_mem) (simp add: hextable_def)

lemma hex_print_mem:
  "\<forall>b \<in> set bs. b < 256 \<Longrightarrow> set (hex_print bs) \<subseteq> set hextable"
proof (induction bs)
  case (Cons b bs)
  then have "b div 16 < 16" "b mod 16 < 16" by auto
  from this [THEN hex_digit_mem] Cons show ?case by simp
qed simp

section \<open>Decimal numbers\<close>

definition is_digit :: "char \<Rightarrow> bool" where
  "is_digit c \<longleftrightarrow> 48 \<le> (of_char c :: nat) \<and> (of_char c :: nat) \<le> 57"

definition is_alnum :: "char \<Rightarrow> bool" where
  "is_alnum c \<longleftrightarrow> is_digit c \<or> (let n = of_char c :: nat in 65 \<le> n \<and> n \<le> 90 \<or> 97 \<le> n \<and> n \<le> 122)"

definition decimal :: "string \<Rightarrow> int" where
  "decimal s = fold (\<lambda>c n. 10 * n + int (of_char c - 48)) s 0"

definition int64_min :: int where "int64_min = - (2 ^ 63)"
definition int64_max :: int where "int64_max = 2 ^ 63 - 1"

text \<open>\<open>strconv.Atoi\<close> on a 64-bit platform: an optional sign, at least one digit, in range.\<close>

definition Atoi :: "string \<Rightarrow> int option" where
  "Atoi s =
     (let neg = prefix ''-'' s; d = (if neg \<or> prefix ''+'' s then drop 1 s else s);
          v = (if neg then - decimal d else decimal d)
      in if d = [] \<or> \<not> list_all is_digit d \<or> v < int64_min \<or> int64_max < v then None else Some v)"

text \<open>\<open>strings.EqualFold\<close>, up to comparison with an ASCII string: besides the ASCII letters, the Kelvin
  sign folds to k and the long s to s.\<close>

fun fold_key :: "string \<Rightarrow> string" where
  "fold_key [] = []"
| "fold_key (a # b # c # s) =
     (if [a, b, c] = bytes [0xE2, 0x84, 0xAA] then CHR ''k'' # fold_key s
      else if [a, b] = bytes [0xC5, 0xBF] then CHR ''s'' # fold_key (c # s)
      else lower_byte a # fold_key (b # c # s))"
| "fold_key (a # b # s) =
     (if [a, b] = bytes [0xC5, 0xBF] then CHR ''s'' # fold_key s
      else lower_byte a # fold_key (b # s))"
| "fold_key (a # s) = lower_byte a # fold_key s"

definition EqualFold :: "string \<Rightarrow> string \<Rightarrow> bool" where
  "EqualFold s t \<longleftrightarrow> fold_key s = fold_key t"

section \<open>Tables\<close>

type_synonym 'r table = "'r list"

definition select :: "('r \<Rightarrow> bool) \<Rightarrow> 'r table \<Rightarrow> 'r table" where
  "select P t = filter P t"

definition update_where :: "('r \<Rightarrow> bool) \<Rightarrow> ('r \<Rightarrow> 'r) \<Rightarrow> 'r table \<Rightarrow> 'r table" where
  "update_where P f t = map (\<lambda>r. if P r then f r else r) t"

lemma distinct_key_eq:
  "distinct (map k t) \<Longrightarrow> r \<in> set t \<Longrightarrow> s \<in> set t \<Longrightarrow> k r = k s \<Longrightarrow> r = s"
  by (induction t) (auto simp: image_iff)

definition rows_affected :: "('r \<Rightarrow> bool) \<Rightarrow> 'r table \<Rightarrow> nat" where
  "rows_affected P t = length (filter P t)"

lemma rows_affected_key:
  assumes "distinct (map k t)" "r \<in> set t" "P r" "\<And>s. P s \<Longrightarrow> k s = k r"
  shows "rows_affected P t = 1"
proof -
  have "s = r" if "s \<in> set t" "P s" for s
    using distinct_key_eq [OF assms(1) that(1) assms(2)] assms(4) [OF that(2)] by blast
  then have "set (filter P t) \<subseteq> {r}"
    unfolding set_filter by blast
  moreover have "r \<in> set (filter P t)"
    unfolding set_filter using assms(2,3) by blast
  ultimately have "set (filter P t) = {r}"
    by blast
  moreover have "distinct (filter P t)"
    using assms(1) by (simp add: distinct_map)
  ultimately have "length (filter P t) = 1"
    by (metis distinct_card card_1_singleton_iff One_nat_def)
  then show ?thesis by (simp add: rows_affected_def)
qed

text \<open>\<open>ORDER BY key LIMIT 1\<close>: the first row in table order among those of least key.\<close>

fun least_by :: "('r \<Rightarrow> 'k::linorder) \<Rightarrow> 'r table \<Rightarrow> 'r option" where
  "least_by k [] = None"
| "least_by k (r # rs) =
     (case least_by k rs of None \<Rightarrow> Some r | Some s \<Rightarrow> if k s < k r then Some s else Some r)"

lemma least_by_None [simp]: "least_by k t = None \<longleftrightarrow> t = []"
  by (cases t) (auto split: option.splits)

lemma least_by_mem: "least_by k t = Some r \<Longrightarrow> r \<in> set t"
  by (induction t arbitrary: r) (auto split: option.splits if_splits)

lemma least_by_le: "least_by k t = Some r \<Longrightarrow> s \<in> set t \<Longrightarrow> k r \<le> k s"
  by (induction t arbitrary: r) (fastforce split: option.splits if_splits)+

lemma least_by_ex: "s \<in> set t \<Longrightarrow> \<exists>r. least_by k t = Some r"
  using least_by_None [of k t] by (cases "least_by k t") auto

lemma least_by_singleton:
  assumes "x \<in> set t" "\<And>y. y \<in> set t \<Longrightarrow> y = x"
  shows "least_by k t = Some x"
  using least_by_ex [OF assms(1), of k] assms(2) least_by_mem [of k t] by blast

text \<open>\<open>ORDER BY key DESC LIMIT 1\<close>.\<close>

fun greatest_by :: "('r \<Rightarrow> 'k::linorder) \<Rightarrow> 'r table \<Rightarrow> 'r option" where
  "greatest_by k [] = None"
| "greatest_by k (r # rs) =
     (case greatest_by k rs of None \<Rightarrow> Some r | Some s \<Rightarrow> if k r < k s then Some s else Some r)"

lemma greatest_by_mem: "greatest_by k t = Some r \<Longrightarrow> r \<in> set t"
  by (induction t arbitrary: r) (auto split: option.splits if_splits)

text \<open>Reading the single row of a key.\<close>

definition lookup_row :: "('r \<Rightarrow> 'k) \<Rightarrow> 'k \<Rightarrow> 'r table \<Rightarrow> 'r option" where
  "lookup_row k v t = find (\<lambda>r. k r = v) t"

lemma find_SomeD: "find P xs = Some x \<Longrightarrow> x \<in> set xs \<and> P x"
  by (induction xs) (auto split: if_splits)

lemma lookup_row_Some: "lookup_row k v t = Some r \<Longrightarrow> r \<in> set t \<and> k r = v"
  by (auto simp: lookup_row_def find_Some_iff)

lemma lookup_row_None: "lookup_row k v t = None \<longleftrightarrow> v \<notin> k ` set t"
  by (auto simp: lookup_row_def find_None_iff)

lemma lookup_row_unique:
  assumes "distinct (map k t)" "r \<in> set t"
  shows "lookup_row k (k r) t = Some r"
proof (cases "lookup_row k (k r) t")
  case None
  with assms(2) show ?thesis by (simp add: lookup_row_None)
next
  case (Some s)
  with assms show ?thesis using distinct_key_eq lookup_row_Some by metis
qed

lemma update_where_id [table_simps]: "\<forall>r \<in> set t. \<not> P r \<Longrightarrow> update_where P f t = t"
  by (induction t) (auto simp: update_where_def)

lemma map_update_where [table_simps]:
  "(\<And>r. g (f r) = g r) \<Longrightarrow> map g (update_where P f t) = map g t"
  by (auto simp: update_where_def)

lemma set_update_where: "set (update_where P f t) = {f r | r. r \<in> set t \<and> P r} \<union> {r \<in> set t. \<not> P r}"
  by (auto simp: update_where_def)

lemma update_where_cases:
  assumes "r \<in> set (update_where P f t)"
  obtains (old) "r \<in> set t" "\<not> P r" | (new) s where "s \<in> set t" "P s" "r = f s"
  using assms by (auto simp: set_update_where)

lemma length_update_where [simp, table_simps]: "length (update_where P f t) = length t"
  by (simp add: update_where_def)

lemma update_single:
  assumes "distinct (map k t)" "e \<in> set t" "\<And>s. P s \<Longrightarrow> k s = k e" "P e"
  shows "set (update_where P f t) = insert (f e) (set t - {e})"
proof -
  have "P s \<longleftrightarrow> s = e" if "s \<in> set t" for s
    using that assms distinct_key_eq [OF assms(1) that assms(2)] by blast
  then show ?thesis using assms(2) by (auto simp: set_update_where)
qed


lemma find_update_where:
  assumes "\<And>c. Q (f c) = Q c"
  shows "find Q (update_where P f t) = map_option (\<lambda>c. if P c then f c else c) (find Q t)"
  using assms by (induction t) (auto simp: update_where_def)

lemma lookup_update_where:
  assumes "\<And>r. k (f r) = k r"
  shows "lookup_row k v (update_where P f t) = map_option (\<lambda>r. if P r then f r else r) (lookup_row k v t)"
  unfolding lookup_row_def by (rule find_update_where) (simp add: assms)

lemma find_append: "find P (xs @ ys) = (case find P xs of None \<Rightarrow> find P ys | Some x \<Rightarrow> Some x)"
  by (induction xs) auto

lemma find_unique:
  assumes "distinct (map k t)" "x \<in> set t" "P x" "\<And>y. P y \<Longrightarrow> k y = k x"
  shows "find P t = Some x"
proof (cases "find P t")
  case None
  with assms(2,3) show ?thesis by (auto simp: find_None_iff)
next
  case (Some y)
  with assms find_SomeD [OF Some] distinct_key_eq [OF assms(1)] show ?thesis by metis
qed

section \<open>JSON values\<close>

text \<open>A \<open>jsonb\<close> value in normal form: the members of an object are in the order of their keys and
  no key is repeated, so that equality of values is the equality PostgreSQL decides.\<close>

datatype json = JNull | JBool bool | JInt int | JStr string | JArr "json list"
  | JObj "(string \<times> json) list"

section \<open>Transactions\<close>

datatype ('e, 'a, 'db) outcome = Rollback "'e + 'a" | Commit "'e + 'a" 'db

abbreviation Abort :: "'e \<Rightarrow> ('e, 'a, 'db) outcome" where
  "Abort e \<equiv> Rollback (Inl e)"

datatype commit_fate = Committed | Commit_ack_lost | Commit_failed

text \<open>Running a transaction: the result the caller sees and the database afterwards.  The error
  of a failed or unacknowledged commit is the first argument.\<close>

fun run_tx :: "'e \<Rightarrow> commit_fate \<Rightarrow> ('e, 'a, 'db) outcome \<Rightarrow> 'db \<Rightarrow> ('e + 'a) \<times> 'db" where
  "run_tx ce fate (Rollback r) db = (r, db)"
| "run_tx ce Committed (Commit r db') db = (r, db')"
| "run_tx ce Commit_ack_lost (Commit r db') db = (Inl ce, db')"
| "run_tx ce Commit_failed (Commit r db') db = (Inl ce, db)"

lemma run_tx_state:
  "snd (run_tx ce fate out db) = db \<or> (\<exists>r. out = Commit r (snd (run_tx ce fate out db)))"
  by (cases "(ce, fate, out, db)" rule: run_tx.cases) auto

lemma run_tx_invariant:
  assumes "P db" "\<And>r db'. out = Commit r db' \<Longrightarrow> P db'"
  shows "P (snd (run_tx ce fate out db))"
  using assms run_tx_state [of ce fate out db] by metis

lemma run_tx_Inr:
  assumes "run_tx ce fate out db = (Inr a, db')"
  shows "out = Commit (Inr a) db' \<or> out = Rollback (Inr a) \<and> db' = db"
  using assms by (cases "(ce, fate, out, db)" rule: run_tx.cases) auto

lemma run_tx_new_row:
  assumes "x \<in> F (snd (run_tx ce fate out db))" "x \<notin> F db"
  obtains r db' where "out = Commit r db'" "x \<in> F db'"
  using assms run_tx_state [of ce fate out db] by metis

section \<open>Forward-only tables\<close>

text \<open>Several tables hold histories: a row keeps its identity, its status only moves forward, and a
  row in a final status does not change any more.  A statement that advances some rows of such a
  table relates the tables before and after by \<open>evolves\<close>.\<close>

definition evolves :: "('r \<Rightarrow> 'r \<Rightarrow> bool) \<Rightarrow> 'r table \<Rightarrow> 'r table \<Rightarrow> bool" where
  "evolves adv t t' \<longleftrightarrow> list_all2 (\<lambda>r r'. r' = r \<or> adv r r') t t'"

lemma evolves_refl [simp]: "evolves adv t t"
  by (simp add: evolves_def list_all2_same)

lemma evolves_update_where:
  "(\<And>r. r \<in> set t \<Longrightarrow> P r \<Longrightarrow> adv r (f r)) \<Longrightarrow> evolves adv t (update_where P f t)"
  by (auto simp: evolves_def update_where_def list_all2_conv_all_nth)

lemma evolves_mono: "evolves adv t t' \<Longrightarrow> (\<And>r r'. adv r r' \<Longrightarrow> adv' r r') \<Longrightarrow> evolves adv' t t'"
  unfolding evolves_def by (erule list_all2_mono) auto

lemma evolves_set:
  assumes "evolves adv t t'" "r' \<in> set t'"
  obtains r where "r \<in> set t" "r' = r \<or> adv r r'"
proof -
  from assms obtain i where "i < length t'" "r' = t' ! i" by (auto simp: in_set_conv_nth)
  with assms(1) have "t ! i \<in> set t" "r' = t ! i \<or> adv (t ! i) r'"
    by (auto simp: evolves_def list_all2_conv_all_nth)
  then show ?thesis by (rule that)
qed

lemma evolves_set_forward:
  assumes "evolves adv t t'" "r \<in> set t"
  obtains r' where "r' \<in> set t'" "r' = r \<or> adv r r'"
proof -
  from assms obtain i where "i < length t" "r = t ! i" by (auto simp: in_set_conv_nth)
  with assms(1) have "t' ! i \<in> set t'" "t' ! i = r \<or> adv r (t' ! i)"
    by (auto simp: evolves_def list_all2_conv_all_nth)
  then show ?thesis by (rule that)
qed

lemma evolves_trans:
  assumes "evolves adv t u" "evolves adv u v" "\<And>x y z. adv x y \<Longrightarrow> adv y z \<Longrightarrow> adv x z"
  shows "evolves adv t v"
  using assms(1,2) unfolding evolves_def
  by (rule list_all2_trans [rotated]) (use assms(3) in blast)

lemma evolves_append_split:
  assumes "evolves adv (t @ u) v"
  obtains t' u' where "v = t' @ u'" "evolves adv t t'" "evolves adv u u'"
proof -
  from assms have "list_all2 (\<lambda>r r'. r' = r \<or> adv r r') (t @ u) v" by (simp add: evolves_def)
  then obtain t' u' where "v = t' @ u'" "list_all2 (\<lambda>r r'. r' = r \<or> adv r r') t t'"
    "list_all2 (\<lambda>r r'. r' = r \<or> adv r r') u u'"
    unfolding list_all2_append1 by blast
  then show ?thesis using that by (simp add: evolves_def)
qed

locale forward_table =
  fixes key :: "'r \<Rightarrow> 'k" and adv :: "'r \<Rightarrow> 'r \<Rightarrow> bool" and final :: "'r \<Rightarrow> bool"
  assumes adv_key: "adv r r' \<Longrightarrow> key r' = key r"
    and adv_not_final: "adv r r' \<Longrightarrow> \<not> final r"
begin

lemma keys: "evolves adv t t' \<Longrightarrow> map key t' = map key t"
  unfolding evolves_def by (induction rule: list_all2_induct) (auto dest: adv_key)

lemma distinct_keys: "evolves adv t t' \<Longrightarrow> distinct (map key t) \<Longrightarrow> distinct (map key t')"
  by (simp add: keys)

lemma length_eq: "evolves adv t t' \<Longrightarrow> length t' = length t"
  by (auto simp: evolves_def dest: list_all2_lengthD)

lemma final_kept: "evolves adv t t' \<Longrightarrow> r \<in> set t \<Longrightarrow> final r \<Longrightarrow> r \<in> set t'"
  by (metis evolves_set_forward adv_not_final)

lemma row_of_key:
  assumes "evolves adv t t'" "distinct (map key t)" "r \<in> set t" "r' \<in> set t'" "key r' = key r"
  shows "r' = r \<or> adv r r'"
proof -
  obtain s where s: "s \<in> set t" "r' = s \<or> adv s r'"
    using assms(1,4) by (rule evolves_set)
  then have "key s = key r" using assms(5) adv_key by auto
  with s assms(2,3) show ?thesis using distinct_key_eq by metis
qed

lemma select_subset:
  assumes "evolves adv t t'" "\<And>r r'. adv r r' \<Longrightarrow> P r' \<Longrightarrow> P r"
    and "\<And>r r'. adv r r' \<Longrightarrow> g r' = g r"
    and "distinct (map g (filter P t))"
  shows "distinct (map g (filter P t'))"
proof -
  have "distinct (map g (filter P t)) \<Longrightarrow>
      distinct (map g (filter P t')) \<and> g ` set (filter P t') \<subseteq> g ` set (filter P t)"
    using assms(1) unfolding evolves_def
  proof (induction rule: list_all2_induct)
    case (Cons x xs y ys)
    have "distinct (map g (filter P xs))" using Cons.prems by (auto split: if_splits)
    note IH = Cons.IH [OF this]
    show ?case
    proof (cases "P y")
      case True
      with Cons.hyps(1) assms(2,3) have "P x" "g y = g x" by metis+
      with True IH Cons.prems show ?thesis by auto
    qed (use IH in auto)
  qed simp
  with assms(4) show ?thesis by blast
qed

end

end
