(* ===== verification/Update_Jobs.thy ===== *)
theory Update_Jobs
  imports Prelude
begin

text \<open>
  The platform-update jobs of a single VPN node: package \<open>backend/internal/agents\<close>, files
  \<open>platform_update_contract.go\<close>, \<open>compatibility.go\<close>, \<open>remote_update_lifecycle.go\<close>,
  \<open>remote_update_reconciliation.go\<close>, \<open>platform_update_repository.go\<close> and
  \<open>operation_repository.go\<close>.

  The state is the part of the database these functions read and write: the tables \<open>servers\<close>,
  \<open>agents\<close>, \<open>agent_platform_update_jobs\<close> and \<open>agent_operation_jobs\<close>.  The record is extended
  with the rollout tables in theory \<open>Rollout\<close>, so every operation here is defined on any
  extension of it.  The columns whose values a \<open>CHECK\<close> constraint restricts to a fixed list are
  datatypes.  The unique index on \<open>agent_platform_update_jobs(server_id)\<close> over the active and
  unresolved statuses is part of the model, since the Go code handles its violation.
\<close>

section \<open>Data\<close>

datatype job_status = J_pending | J_in_progress | J_mutation_dispatched
  | J_succeeded | J_failed | J_outcome_unknown

record server_row =
  s_id :: string
  s_role :: string
  s_status :: string

record agent_row =
  a_id :: string
  a_server :: string
  a_status :: string
  a_version :: string
  a_protocol :: "int option"
  a_software_update :: "json option"
  a_updated :: time
  a_token_hash :: string
  a_cred_gen :: int
  a_hb_at :: "time option"
  a_hb_gen :: "int option"

record job_row =
  j_id :: string
  j_server :: string
  j_agent :: string
  j_target :: string
  j_status :: job_status
  j_error :: "string option"
  j_created :: time
  j_updated :: time
  j_started :: "time option"
  j_dispatched :: "time option"
  j_completed :: "time option"

record op_row =
  o_id :: string
  o_server :: string
  o_agent :: string
  o_kind :: string
  o_operation :: string
  o_status :: string
  o_created :: time
  o_updated :: time
  o_started :: "time option"
  o_completed :: "time option"
  o_error :: "string option"

record jobs_db =
  servers :: "server_row table"
  agents :: "agent_row table"
  jobs :: "job_row table"
  op_jobs :: "op_row table"

text \<open>Errors: the sentinels the code tests with \<open>errors.Is\<close>, the unique violation (SQLSTATE
  23505), a commit that failed or was not acknowledged, and every other error by its text.\<close>

datatype update_error = ErrNoRows | UniqueViolation | CommitError | ErrText string
  | ErrPlatformUpdateRolloutComplete
  | ErrPlatformUpdateRolloutNotMutationRunnable string
  | ErrPlatformUpdateRolloutAdmissionFailed string
  | ErrPlatformUpdateRolloutIdempotencyConflict

section \<open>Identities and versions\<close>

definition uuid_format :: "string \<Rightarrow> string" where
  "uuid_format h = take 8 h @ ''-'' @ take 4 (drop 8 h) @ ''-'' @ take 4 (drop 12 h) @ ''-''
     @ take 4 (drop 16 h) @ ''-'' @ drop 20 h"

definition canonicalPlatformUpdateServerID :: "string \<Rightarrow> update_error + string" where
  "canonicalPlatformUpdateServerID raw =
     (let v0 = TrimSpace raw in
      if v0 = [] then Inl (ErrText ''candidate server id is required'')
      else
        let v1 = (if prefix ''urn:uuid:'' (ToLower v0) then drop 9 v0 else v0);
            v2 = (if 2 \<le> length v1 \<and> hd v1 = CHR ''{'' \<and> last v1 = CHR ''}''
                  then butlast (tl v1) else v1);
            compact = filter (\<lambda>c. c \<noteq> CHR ''-'') v2
        in if length compact \<noteq> 32 then Inl (ErrText ''candidate server id must be a UUID'')
           else case hex_DecodeString compact of
                  None \<Rightarrow> Inl (ErrText ''candidate server id must be a UUID'')
                | Some decoded \<Rightarrow> Inr (uuid_format (hex_print decoded)))"

text \<open>\<open>canonicalRouteGateVersionPattern\<close>: the regular expression, matched left to right.  Every
  repetition is over a class that does not contain what may follow it, so the greedy match is the
  only candidate.\<close>

definition version_tail_char :: "char \<Rightarrow> bool" where
  "version_tail_char c \<longleftrightarrow> is_alnum c \<or> c = CHR ''.'' \<or> c = CHR ''-''"

definition skip_digits :: "string \<Rightarrow> string option" where
  "skip_digits s = (case s of [] \<Rightarrow> None | c # _ \<Rightarrow> if is_digit c then Some (dropWhile is_digit s) else None)"

definition skip_dot :: "string \<Rightarrow> string option" where
  "skip_dot s = (case s of [] \<Rightarrow> None | c # r \<Rightarrow> if c = CHR ''.'' then Some r else None)"

definition skip_suffix :: "char \<Rightarrow> string \<Rightarrow> string option" where
  "skip_suffix m s =
     (case s of
        c # d # r \<Rightarrow> if c = m then (if is_alnum d then Some (dropWhile version_tail_char r) else None)
                    else Some s
      | [c] \<Rightarrow> if c = m then None else Some s
      | [] \<Rightarrow> Some s)"

definition canonicalRouteGateVersion :: "string \<Rightarrow> bool" where
  "canonicalRouteGateVersion s =
     (case Option.bind (skip_digits (TrimPrefix s ''v'')) (\<lambda>s1.
        Option.bind (skip_dot s1) (\<lambda>s2.
        Option.bind (skip_digits s2) (\<lambda>s3.
        Option.bind (skip_dot s3) (\<lambda>s4.
        Option.bind (skip_digits s4) (\<lambda>s5.
        Option.bind (skip_suffix (CHR ''-'') s5) (skip_suffix (CHR ''+''))))))) of
        Some [] \<Rightarrow> True
      | _ \<Rightarrow> False)"

text \<open>\<open>platformUpdateTaskPayload\<close>: \<open>json.Marshal\<close> of the two-member map.  It is applied to
  versions that match the pattern, none of whose characters is escaped.\<close>

definition platformUpdateTaskPayload :: "string \<Rightarrow> string" where
  "platformUpdateTaskPayload v = ''{\"schemaVersion\":1,\"targetVersion\":\"'' @ v @ ''\"}''"

definition validPlatformUpdateTargetVersion :: "string \<Rightarrow> bool" where
  "validPlatformUpdateTargetVersion v \<longleftrightarrow>
     v = TrimSpace v \<and> v \<noteq> [] \<and> canonicalRouteGateVersion v
     \<and> length (platformUpdateTaskPayload v) \<le> 256"

section \<open>Agent compatibility\<close>

datatype compat_status = CompatibilityCompatible | CompatibilityUpgradeRecommended
  | CompatibilityUpgradeRequired | CompatibilityUnsupported | CompatibilityUnknown

record build_info =
  b_version :: string
  b_protocol :: int
  b_min_protocol :: int
  b_recommended :: string

fun parse_parts :: "string list \<Rightarrow> int list option" where
  "parse_parts [] = Some []"
| "parse_parts (p # ps) =
     (let q = TrimSpace p in
      if q = [] then None
      else case Atoi q of
             None \<Rightarrow> None
           | Some n \<Rightarrow> if n < 0 then None else map_option ((#) n) (parse_parts ps))"

definition parseDottedVersion :: "string \<Rightarrow> int list option" where
  "parseDottedVersion v =
     (let s = TrimSpace (TrimPrefix v ''v'') in
      if s = [] \<or> ToLower s = ''dev'' \<or> ToLower s = ''unknown'' then None
      else parse_parts (Split_at (CHR ''.'') s))"

definition pad_zeros :: "nat \<Rightarrow> int list \<Rightarrow> int list" where
  "pad_zeros n xs = xs @ replicate (n - length xs) 0"

fun lex_older :: "int list \<Rightarrow> int list \<Rightarrow> bool" where
  "lex_older (a # as) (r # rs) = (if a < r then True else if r < a then False else lex_older as rs)"
| "lex_older _ _ = False"

definition olderThanRecommended :: "string \<Rightarrow> string \<Rightarrow> bool" where
  "olderThanRecommended agent rec =
     (case (parseDottedVersion agent, parseDottedVersion rec) of
        (Some as, Some rs) \<Rightarrow> lex_older (pad_zeros (length rs) as) (pad_zeros (length as) rs)
      | _ \<Rightarrow> False)"

definition EvaluateCompatibilityWithPolicy ::
  "string \<Rightarrow> int option \<Rightarrow> int \<Rightarrow> int \<Rightarrow> string \<Rightarrow> compat_status" where
  "EvaluateCompatibilityWithPolicy ver proto minp mgr rec =
     (case proto of
        None \<Rightarrow> CompatibilityUnknown
      | Some p \<Rightarrow>
          if p < minp then CompatibilityUpgradeRequired
          else if mgr < p then CompatibilityUnsupported
          else if olderThanRecommended ver rec then CompatibilityUpgradeRecommended
          else CompatibilityCompatible)"

definition EvaluateCompatibility :: "build_info \<Rightarrow> string \<Rightarrow> int option \<Rightarrow> compat_status" where
  "EvaluateCompatibility b ver proto =
     EvaluateCompatibilityWithPolicy ver proto (b_min_protocol b) (b_protocol b) (b_recommended b)"

definition compat_ok :: "compat_status \<Rightarrow> bool" where
  "compat_ok c \<longleftrightarrow> c = CompatibilityCompatible \<or> c = CompatibilityUpgradeRecommended"

section \<open>The job lifecycle\<close>

definition PlatformUpdateStatusIsTerminal :: "job_status \<Rightarrow> bool" where
  "PlatformUpdateStatusIsTerminal s \<longleftrightarrow> s \<in> {J_succeeded, J_failed, J_outcome_unknown}"

definition PlatformUpdateStatusIsActive :: "job_status \<Rightarrow> bool" where
  "PlatformUpdateStatusIsActive s \<longleftrightarrow> s \<in> {J_pending, J_in_progress, J_mutation_dispatched}"

fun ValidPlatformUpdateTransition :: "job_status \<Rightarrow> job_status \<Rightarrow> bool" where
  "ValidPlatformUpdateTransition J_pending t = (t = J_in_progress)"
| "ValidPlatformUpdateTransition J_in_progress t = (t = J_mutation_dispatched \<or> t = J_failed)"
| "ValidPlatformUpdateTransition J_mutation_dispatched t =
     (t = J_succeeded \<or> t = J_failed \<or> t = J_outcome_unknown)"
| "ValidPlatformUpdateTransition _ t = False"

text \<open>The statuses the unique index covers: active or unresolved.\<close>

definition unresolved :: "job_status \<Rightarrow> bool" where
  "unresolved s \<longleftrightarrow> s \<in> {J_pending, J_in_progress, J_mutation_dispatched, J_outcome_unknown}"

record evidence =
  e_task :: string
  e_target :: string
  e_stat :: string
  e_code :: string

definition lower_hex :: "char \<Rightarrow> bool" where
  "lower_hex c \<longleftrightarrow> c \<in> set hextable"

definition canonicalPlatformUpdateTaskID :: "string \<Rightarrow> bool" where
  "canonicalPlatformUpdateTaskID s \<longleftrightarrow>
     length s = 36
     \<and> (\<forall>i \<in> set [0..<36].
          if i \<in> {8, 13, 18, 23} then s ! i = CHR ''-''
          else if i = 14 then s ! i = CHR ''4''
          else if i = 19 then s ! i \<in> set ''89ab'' else lower_hex (s ! i))"

definition platformUpdateReceiptCode :: "string \<Rightarrow> bool" where
  "platformUpdateReceiptCode s \<longleftrightarrow>
     (let alnum_low = (\<lambda>c. is_alnum c \<and> lower_byte c = c) in
      case s of [] \<Rightarrow> False
      | c # r \<Rightarrow> alnum_low c \<and> length r \<le> 63 \<and> list_all (\<lambda>d. alnum_low d \<or> d = CHR ''_'') r)"

definition ReconcilePlatformUpdateEvidence ::
  "string \<Rightarrow> string \<Rightarrow> evidence \<Rightarrow> update_error + job_status" where
  "ReconcilePlatformUpdateEvidence task ver ev =
     (if \<not> canonicalPlatformUpdateTaskID task
      then Inl (ErrText ''expected platform update task id must be canonical UUIDv4'')
      else if \<not> canonicalRouteGateVersion ver
      then Inl (ErrText ''expected RouteGate version is not canonical'')
      else if e_task ev \<noteq> task \<or> e_target ev \<noteq> ver
      then Inl (ErrText ''platform update reconciliation identity mismatch'')
      else if e_stat ev = ''pending'' then
        (if e_code ev \<noteq> [] then Inl (ErrText ''pending platform update evidence must not carry a code'')
         else Inr J_mutation_dispatched)
      else if e_stat ev = ''succeeded'' then
        (if e_code ev \<noteq> [] then Inl (ErrText ''successful platform update evidence must not carry a code'')
         else Inr J_succeeded)
      else if e_stat ev = ''failed'' then
        (if \<not> platformUpdateReceiptCode (e_code ev)
         then Inl (ErrText ''failed platform update evidence has invalid code'')
         else Inr J_failed)
      else if e_stat ev = ''outcome_unknown'' then
        (if \<not> platformUpdateReceiptCode (e_code ev)
         then Inl (ErrText ''unknown platform update evidence has invalid code'')
         else Inr J_outcome_unknown)
      else Inl (ErrText ''unsupported platform update reconciliation status''))"

section \<open>Creating, claiming and completing jobs\<close>

definition platformUpdateCapabilityJSON :: json where
  "platformUpdateCapabilityJSON =
     JObj [(''request'', JStr ''version_only''), (''schemaVersion'', JInt 1), (''state'', JStr ''ready'')]"

definition has_unresolved_job :: "string \<Rightarrow> ('z jobs_db_scheme) \<Rightarrow> bool" where
  "has_unresolved_job srv db \<longleftrightarrow> (\<exists>j \<in> set (jobs db). j_server j = srv \<and> unresolved (j_status j))"

definition count_jobs :: "string \<Rightarrow> ('z jobs_db_scheme) \<Rightarrow> int" where
  "count_jobs srv db = int (length (select (\<lambda>j. j_server j = srv) (jobs db)))"

definition new_job :: "string \<Rightarrow> time \<Rightarrow> string \<Rightarrow> string \<Rightarrow> string \<Rightarrow> job_row" where
  "new_job nid now srv agent target =
     \<lparr>j_id = nid, j_server = srv, j_agent = agent, j_target = target, j_status = J_pending,
      j_error = None, j_created = now, j_updated = now, j_started = None, j_dispatched = None,
      j_completed = None\<rparr>"

text \<open>The agent the admission query joins: the enabled agent of the server updated last.\<close>

definition admission_agent :: "string \<Rightarrow> ('z jobs_db_scheme) \<Rightarrow> agent_row option" where
  "admission_agent srv db =
     greatest_by (\<lambda>a. (a_updated a, a_id a))
       (select (\<lambda>a. a_server a = srv \<and> a_status a \<noteq> ''disabled'') (agents db))"

text \<open>\<open>createPlatformUpdateJobTx\<close>; the first argument is the identifier \<open>gen_random_uuid()\<close> returns.
  The insert is rejected by the unique index or by the primary key.\<close>

definition createPlatformUpdateJobTx ::
  "string \<Rightarrow> time \<Rightarrow> string \<Rightarrow> string \<Rightarrow> ('z jobs_db_scheme)
     \<Rightarrow> update_error + job_row \<times> ('z jobs_db_scheme)" where
  "createPlatformUpdateJobTx nid now srv target db =
     (case lookup_row s_id srv (servers db) of
        None \<Rightarrow> Inl ErrNoRows
      | Some s \<Rightarrow>
          if s_status s = ''disabled'' \<or> s_role s \<noteq> ''vpn'' then Inl ErrNoRows
          else case admission_agent srv db of
                 None \<Rightarrow> Inl ErrNoRows
               | Some a \<Rightarrow>
                   if a_software_update a \<noteq> Some platformUpdateCapabilityJSON then Inl ErrNoRows
                   else if has_unresolved_job srv db \<or> nid \<in> j_id ` set (jobs db) then Inl UniqueViolation
                   else let j = new_job nid now srv (a_id a) target
                        in Inr (j, db\<lparr>jobs := jobs db @ [j]\<rparr>))"

definition CreatePlatformUpdateJob ::
  "commit_fate \<Rightarrow> string \<Rightarrow> time \<Rightarrow> string \<Rightarrow> string \<Rightarrow> ('z jobs_db_scheme)
     \<Rightarrow> (update_error + job_row) \<times> ('z jobs_db_scheme)" where
  "CreatePlatformUpdateJob fate nid now rawServer target db =
     (case canonicalPlatformUpdateServerID rawServer of
        Inl e \<Rightarrow> (Inl e, db)
      | Inr srv \<Rightarrow>
          if \<not> validPlatformUpdateTargetVersion target
          then (Inl (ErrText ''invalid RouteGate target version''), db)
          else run_tx CommitError fate
                 (case createPlatformUpdateJobTx nid now srv target db of
                    Inl e \<Rightarrow> Abort e
                  | Inr (j, db') \<Rightarrow> Commit (Inr j) db') db)"

record task =
  t_id :: string
  t_server :: string
  t_agent :: string
  t_kind :: string
  t_operation :: string
  t_payload :: string

definition job_task :: "string \<Rightarrow> job_row \<Rightarrow> task" where
  "job_task op j =
     \<lparr>t_id = j_id j, t_server = j_server j, t_agent = j_agent j, t_kind = ''platform_update'',
      t_operation = op, t_payload = platformUpdateTaskPayload (j_target j)\<rparr>"

definition touch_job :: "time \<Rightarrow> job_row \<Rightarrow> job_row" where
  "touch_job now j = j\<lparr>j_updated := now\<rparr>"

definition start_job :: "time \<Rightarrow> job_row \<Rightarrow> job_row" where
  "start_job now j =
     j\<lparr>j_status := J_in_progress,
       j_started := (case j_started j of None \<Rightarrow> Some now | Some t \<Rightarrow> Some t), j_updated := now\<rparr>"

text \<open>\<open>ClaimNextAgentOperationTask\<close>.  The predicate \<open>locked\<close> holds for the rows that
  \<open>FOR UPDATE SKIP LOCKED\<close> skips because another transaction has locked them.\<close>

definition reconcile_candidate ::
  "(string \<Rightarrow> bool) \<Rightarrow> time \<Rightarrow> agent_row \<Rightarrow> ('z jobs_db_scheme) \<Rightarrow> job_row option" where
  "reconcile_candidate locked now a db =
     least_by (\<lambda>j. (if j_status j = J_mutation_dispatched then 0 else (1::nat),
                    j_updated j, j_created j, j_id j))
       (select (\<lambda>j. j_server j = a_server a \<and> j_agent j = a_id a
                 \<and> j_status j \<in> {J_in_progress, J_mutation_dispatched}
                 \<and> j_updated j \<le> now - seconds 1 \<and> \<not> locked (j_id j)) (jobs db))"

definition dispatch_candidate ::
  "(string \<Rightarrow> bool) \<Rightarrow> agent_row \<Rightarrow> ('z jobs_db_scheme) \<Rightarrow> job_row option" where
  "dispatch_candidate locked a db =
     least_by (\<lambda>j. (j_created j, j_id j))
       (select (\<lambda>j. j_server j = a_server a \<and> j_agent j = a_id a \<and> j_status j = J_pending
                 \<and> \<not> locked (j_id j)) (jobs db))"

definition op_candidate ::
  "(string \<Rightarrow> bool) \<Rightarrow> agent_row \<Rightarrow> ('z jobs_db_scheme) \<Rightarrow> op_row option" where
  "op_candidate locked a db =
     least_by o_created
       (select (\<lambda>o'. o_server o' = a_server a \<and> o_agent o' = a_id a \<and> o_status o' = ''pending''
                 \<and> \<not> locked (o_id o')) (op_jobs db))"

definition start_op :: "time \<Rightarrow> op_row \<Rightarrow> op_row" where
  "start_op now r =
     r\<lparr>o_status := ''in_progress'',
       o_started := (case o_started r of None \<Rightarrow> Some now | Some t \<Rightarrow> Some t), o_updated := now\<rparr>"

definition claim_body ::
  "(string \<Rightarrow> bool) \<Rightarrow> time \<Rightarrow> string \<Rightarrow> ('z jobs_db_scheme)
     \<Rightarrow> (update_error, task option, 'z jobs_db_scheme) outcome" where
  "claim_body locked now token db =
     (case lookup_row a_token_hash token (agents db) of
        None \<Rightarrow> Abort ErrNoRows
      | Some a \<Rightarrow>
        (case reconcile_candidate locked now a db of
           Some j \<Rightarrow>
             Commit (Inr (Some (job_task ''reconcile'' j)))
               (db\<lparr>jobs := update_where (\<lambda>r. j_id r = j_id j) (touch_job now) (jobs db)\<rparr>)
         | None \<Rightarrow>
        (case dispatch_candidate locked a db of
           Some j \<Rightarrow>
             Commit (Inr (Some (job_task ''dispatch'' j)))
               (db\<lparr>jobs := update_where (\<lambda>r. j_id r = j_id j) (start_job now) (jobs db)\<rparr>)
         | None \<Rightarrow>
           if \<exists>j \<in> set (jobs db). j_server j = a_server a \<and> j_agent j = a_id a
                \<and> j_status j \<in> {J_pending, J_in_progress, J_mutation_dispatched}
           then Commit (Inr None) db
           else
        (case op_candidate locked a db of
           None \<Rightarrow> Commit (Inr None) db
         | Some r \<Rightarrow>
             Commit (Inr (Some \<lparr>t_id = o_id r, t_server = o_server r, t_agent = o_agent r,
                       t_kind = o_kind r, t_operation = o_operation r, t_payload = []\<rparr>))
               (db\<lparr>op_jobs := update_where (\<lambda>q. o_id q = o_id r) (start_op now) (op_jobs db)\<rparr>)))))"

definition ClaimNextAgentOperationTask ::
  "commit_fate \<Rightarrow> (string \<Rightarrow> bool) \<Rightarrow> time \<Rightarrow> string \<Rightarrow> ('z jobs_db_scheme)
     \<Rightarrow> (update_error + task option) \<times> ('z jobs_db_scheme)" where
  "ClaimNextAgentOperationTask fate locked now token db =
     run_tx CommitError fate (claim_body locked now token db) db"

text \<open>The completion message of an Agent.  The JSON codec is not modelled: the message carries the
  encoded size of its result payload and the evidence the strict decoder
  \<open>DecodePlatformUpdateReconciliationEvidence\<close> reads from it, if it accepts it.\<close>

record completion =
  c_token :: string
  c_job :: string
  c_status :: string
  c_message :: string
  c_payload_bytes :: nat
  c_evidence :: "evidence option"

text \<open>One guarded \<open>UPDATE ... WHERE id AND agent_id AND status\<close>; no row affected is \<open>ErrNoRows\<close>.\<close>

definition update_job ::
  "string \<Rightarrow> string \<Rightarrow> (job_row \<Rightarrow> bool) \<Rightarrow> (job_row \<Rightarrow> job_row) \<Rightarrow> ('z jobs_db_scheme)
     \<Rightarrow> (update_error + string) \<times> ('z jobs_db_scheme)" where
  "update_job job agent P f db =
     (let Q = (\<lambda>r. j_id r = job \<and> j_agent r = agent \<and> P r) in
      if \<exists>r \<in> set (jobs db). Q r
      then (Inr ''platform_update'', db\<lparr>jobs := update_where Q f (jobs db)\<rparr>)
      else (Inl ErrNoRows, db))"

definition mark_dispatched :: "time \<Rightarrow> job_row \<Rightarrow> job_row" where
  "mark_dispatched now r =
     r\<lparr>j_status := J_mutation_dispatched,
       j_dispatched := (case j_dispatched r of None \<Rightarrow> Some now | Some t \<Rightarrow> Some t),
       j_updated := now\<rparr>"

definition finish_job :: "time \<Rightarrow> job_status \<Rightarrow> string \<Rightarrow> job_row \<Rightarrow> job_row" where
  "finish_job now st code r =
     r\<lparr>j_status := st, j_error := (if code = [] then None else Some code),
       j_completed := Some now, j_updated := now\<rparr>"

definition evidence_code :: "job_status \<Rightarrow> evidence \<Rightarrow> string" where
  "evidence_code st ev = (if st = J_failed \<or> st = J_outcome_unknown then e_code ev else [])"

definition completeInProgressPlatformUpdate ::
  "time \<Rightarrow> completion \<Rightarrow> string \<Rightarrow> string \<Rightarrow> string \<Rightarrow> ('z jobs_db_scheme)
     \<Rightarrow> (update_error + string) \<times> ('z jobs_db_scheme)" where
  "completeInProgressPlatformUpdate now c agent target msg db =
     (case c_evidence c of
        None \<Rightarrow> (Inl (ErrText ''decode platform update reconciliation evidence''), db)
      | Some ev \<Rightarrow>
        if e_task ev \<noteq> c_job c \<or> e_target ev \<noteq> target
        then (Inl (ErrText ''platform update dispatch identity mismatch''), db)
        else if c_status c = ''failed'' then
          (if msg \<noteq> []
           then (Inl (ErrText ''platform update pre-dispatch failure must not contain raw error text''), db)
           else case ReconcilePlatformUpdateEvidence (c_job c) target ev of
                  Inl e \<Rightarrow> (Inl e, db)
                | Inr st \<Rightarrow>
                    if st \<noteq> J_failed
                    then (Inl (ErrText ''platform update failed dispatch envelope requires failed evidence''), db)
                    else update_job (c_job c) agent
                           (\<lambda>r. j_status r = J_in_progress \<and> j_dispatched r = None)
                           (finish_job now J_failed (e_code ev)) db)
        else if msg \<noteq> []
        then (Inl (ErrText ''platform update dispatch acknowledgement must not contain raw error text''), db)
        else if e_stat ev = ''mutation_dispatched'' then
          (if e_code ev \<noteq> []
           then (Inl (ErrText ''mutation_dispatched evidence must not carry a code''), db)
           else update_job (c_job c) agent (\<lambda>r. j_status r = J_in_progress) (mark_dispatched now) db)
        else case ReconcilePlatformUpdateEvidence (c_job c) target ev of
               Inl e \<Rightarrow> (Inl e, db)
             | Inr st \<Rightarrow>
                 if st = J_mutation_dispatched
                 then update_job (c_job c) agent (\<lambda>r. j_status r = J_in_progress) (mark_dispatched now) db
                 else if \<not> PlatformUpdateStatusIsTerminal st
                 then (Inl (ErrText ''invalid in-progress platform update reconciliation result''), db)
                 else update_job (c_job c) agent (\<lambda>r. j_status r = J_in_progress)
                        (\<lambda>r. finish_job now st (evidence_code st ev)
                               (r\<lparr>j_dispatched := (case j_dispatched r of None \<Rightarrow> Some now | Some t \<Rightarrow> Some t)\<rparr>))
                        db)"

definition completeDispatchedPlatformUpdate ::
  "time \<Rightarrow> completion \<Rightarrow> string \<Rightarrow> string \<Rightarrow> string \<Rightarrow> ('z jobs_db_scheme)
     \<Rightarrow> (update_error + string) \<times> ('z jobs_db_scheme)" where
  "completeDispatchedPlatformUpdate now c agent target msg db =
     (if c_status c \<noteq> ''succeeded'' \<or> msg \<noteq> []
      then (Inl (ErrText ''platform update reconciliation transport must succeed before evidence is accepted''), db)
      else case c_evidence c of
        None \<Rightarrow> (Inl (ErrText ''decode platform update reconciliation evidence''), db)
      | Some ev \<Rightarrow>
        (case ReconcilePlatformUpdateEvidence (c_job c) target ev of
           Inl e \<Rightarrow> (Inl e, db)
         | Inr st \<Rightarrow>
             if st = J_mutation_dispatched
             then update_job (c_job c) agent (\<lambda>r. j_status r = J_mutation_dispatched) (touch_job now) db
             else if \<not> ValidPlatformUpdateTransition J_mutation_dispatched st
             then (Inl (ErrText ''invalid platform update reconciliation transition''), db)
             else update_job (c_job c) agent (\<lambda>r. j_status r = J_mutation_dispatched)
                    (finish_job now st (evidence_code st ev)) db))"

definition complete_op ::
  "time \<Rightarrow> completion \<Rightarrow> string \<Rightarrow> string \<Rightarrow> ('z jobs_db_scheme)
     \<Rightarrow> (update_error + string) \<times> ('z jobs_db_scheme)" where
  "complete_op now c agent msg db =
     (let Q = (\<lambda>r. o_id r = c_job c \<and> o_agent r = agent \<and> o_status r = ''in_progress'') in
      case find Q (op_jobs db) of
        None \<Rightarrow> (Inl ErrNoRows, db)
      | Some r \<Rightarrow>
          (Inr (o_kind r),
           db\<lparr>op_jobs := update_where Q
                (\<lambda>r. r\<lparr>o_status := c_status c, o_error := (if msg = [] then None else Some msg),
                       o_completed := Some now, o_updated := now\<rparr>) (op_jobs db)\<rparr>))"

definition owned_job :: "string \<Rightarrow> string \<Rightarrow> job_status \<Rightarrow> ('z jobs_db_scheme) \<Rightarrow> job_row option" where
  "owned_job job agent st db =
     find (\<lambda>r. j_id r = job \<and> j_agent r = agent \<and> j_status r = st) (jobs db)"

definition CompleteAgentOperationTask ::
  "time \<Rightarrow> completion \<Rightarrow> ('z jobs_db_scheme) \<Rightarrow> (update_error + string) \<times> ('z jobs_db_scheme)" where
  "CompleteAgentOperationTask now c db =
     (if c_status c \<noteq> ''succeeded'' \<and> c_status c \<noteq> ''failed''
      then (Inl (ErrText ''invalid operation job completion status''), db)
      else if 65536 < c_payload_bytes c
      then (Inl (ErrText ''agent operation result payload exceeds bytes''), db)
      else if 2048 < length (TrimSpace (c_message c))
      then (Inl (ErrText ''agent operation error message exceeds bytes''), db)
      else
        let msg = TrimSpace (c_message c) in
        case lookup_row a_token_hash (c_token c) (agents db) of
          None \<Rightarrow> (Inl ErrNoRows, db)
        | Some a \<Rightarrow>
          (case owned_job (c_job c) (a_id a) J_in_progress db of
             Some j \<Rightarrow> completeInProgressPlatformUpdate now c (a_id a) (j_target j) msg db
           | None \<Rightarrow>
          (case owned_job (c_job c) (a_id a) J_mutation_dispatched db of
             Some j \<Rightarrow> completeDispatchedPlatformUpdate now c (a_id a) (j_target j) msg db
           | None \<Rightarrow> complete_op now c (a_id a) msg db)))"

section \<open>The abstract lifecycle of a job\<close>

text \<open>What one statement may do to one row, at time \<open>now\<close>: the abstract specification that every
  operation above is shown to implement.\<close>

inductive job_advance :: "time \<Rightarrow> job_row \<Rightarrow> job_row \<Rightarrow> bool" for now where
  touch: "PlatformUpdateStatusIsActive (j_status r) \<Longrightarrow> job_advance now r (touch_job now r)"
| claim: "j_status r = J_pending \<Longrightarrow> job_advance now r (start_job now r)"
| dispatch: "j_status r = J_in_progress \<Longrightarrow> job_advance now r (mark_dispatched now r)"
| pre_dispatch_failure: "j_status r = J_in_progress \<Longrightarrow> j_dispatched r = None \<Longrightarrow>
    job_advance now r (finish_job now J_failed code r)"
| receipt: "j_status r = J_mutation_dispatched \<Longrightarrow> PlatformUpdateStatusIsTerminal st \<Longrightarrow>
    job_advance now r (finish_job now st code r)"
| late_receipt: "j_status r = J_in_progress \<Longrightarrow> PlatformUpdateStatusIsTerminal st \<Longrightarrow>
    job_advance now r (finish_job now st code
      (r\<lparr>j_dispatched := (case j_dispatched r of None \<Rightarrow> Some now | Some t \<Rightarrow> Some t)\<rparr>))"

lemmas job_row_defs = touch_job_def start_job_def mark_dispatched_def finish_job_def

abbreviation job_key :: "job_row \<Rightarrow> string \<times> string \<times> string \<times> string \<times> time" where
  "job_key r \<equiv> (j_id r, j_server r, j_agent r, j_target r, j_created r)"

abbreviation job_final :: "job_row \<Rightarrow> bool" where
  "job_final r \<equiv> PlatformUpdateStatusIsTerminal (j_status r)"

interpretation job_table: forward_table job_key "job_advance now" job_final for now
proof
  fix r r' assume "job_advance now r r'"
  then show "job_key r' = job_key r" and "\<not> job_final r"
    by (induction rule: job_advance.induct)
      (auto simp: job_row_defs PlatformUpdateStatusIsTerminal_def PlatformUpdateStatusIsActive_def)
qed

inductive jobs_step :: "time \<Rightarrow> job_row table \<Rightarrow> job_row table \<Rightarrow> bool" for now where
  advance: "evolves (job_advance now) t t' \<Longrightarrow> jobs_step now t t'"
| admit: "\<not> (\<exists>j \<in> set t. j_server j = srv \<and> unresolved (j_status j)) \<Longrightarrow> nid \<notin> j_id ` set t \<Longrightarrow>
    jobs_step now t (t @ [new_job nid now srv agent target])"

lemma jobs_step_refl [simp]: "jobs_step now t t"
  by (rule jobs_step.advance) simp

lemma createPlatformUpdateJobTx_Inr:
  assumes "createPlatformUpdateJobTx nid now srv target db = Inr (j, db')"
  obtains a s where "lookup_row s_id srv (servers db) = Some s" "s_status s \<noteq> ''disabled''"
    "s_role s = ''vpn''" "admission_agent srv db = Some a"
    "a_software_update a = Some platformUpdateCapabilityJSON"
    "\<not> has_unresolved_job srv db" "nid \<notin> j_id ` set (jobs db)"
    "j = new_job nid now srv (a_id a) target" "db' = db\<lparr>jobs := jobs db @ [j]\<rparr>"
  using assms by (auto simp: createPlatformUpdateJobTx_def Let_def split: option.splits if_splits)

lemma createPlatformUpdateJobTx_step:
  assumes "createPlatformUpdateJobTx nid now srv target db = Inr (j, db')"
  shows "jobs_step now (jobs db) (jobs db')"
  using assms
  by (elim createPlatformUpdateJobTx_Inr) (auto simp: has_unresolved_job_def intro: jobs_step.admit)

lemma CreatePlatformUpdateJob_step:
  "jobs_step now (jobs db) (jobs (snd (CreatePlatformUpdateJob fate nid now raw target db)))"
proof -
  have "jobs_step now (jobs db) (jobs (snd (run_tx CommitError fate
      (case createPlatformUpdateJobTx nid now srv target db of
         Inl e \<Rightarrow> Abort e | Inr (j, db') \<Rightarrow> Commit (Inr j) db') db)))" for srv
    by (rule run_tx_invariant)
      (auto split: sum.splits prod.splits intro: createPlatformUpdateJobTx_step)
  then show ?thesis by (auto simp: CreatePlatformUpdateJob_def split: sum.splits)
qed

lemma candidate_row:
  "reconcile_candidate locked now a db = Some j \<Longrightarrow>
     j \<in> set (jobs db) \<and> j_status j \<in> {J_in_progress, J_mutation_dispatched}"
  "dispatch_candidate locked a db = Some j \<Longrightarrow> j \<in> set (jobs db) \<and> j_status j = J_pending"
  by (auto simp: reconcile_candidate_def dispatch_candidate_def select_def dest!: least_by_mem)

lemma update_by_id_step:
  assumes "distinct (map j_id t)" "j \<in> set t" "job_advance now j (f j)"
  shows "jobs_step now t (update_where (\<lambda>r. j_id r = j_id j) f t)"
proof (rule jobs_step.advance, rule evolves_update_where)
  fix r assume "r \<in> set t" "j_id r = j_id j"
  with assms(1,2) have "r = j" using distinct_key_eq by metis
  with assms(3) show "job_advance now r (f r)" by simp
qed

lemma claim_body_step:
  assumes "distinct (map j_id (jobs db))" "claim_body locked now token db = Commit r db'"
  shows "jobs_step now (jobs db) (jobs db')"
proof -
  have "jobs_step now (jobs db) (update_where (\<lambda>r. j_id r = j_id j) (touch_job now) (jobs db))"
    if "reconcile_candidate locked now a db = Some j" for a j
    using candidate_row(1) [OF that] assms(1)
    by (intro update_by_id_step) (auto intro!: job_advance.touch simp: PlatformUpdateStatusIsActive_def)
  moreover have "jobs_step now (jobs db) (update_where (\<lambda>r. j_id r = j_id j) (start_job now) (jobs db))"
    if "dispatch_candidate locked a db = Some j" for a j
    using candidate_row(2) [OF that] assms(1) by (intro update_by_id_step) (auto intro: job_advance.claim)
  ultimately show ?thesis
    using assms(2) by (auto simp: claim_body_def split: option.splits if_splits)
qed

lemma ClaimNextAgentOperationTask_step:
  assumes "distinct (map j_id (jobs db))"
  shows "jobs_step now (jobs db) (jobs (snd (ClaimNextAgentOperationTask fate locked now token db)))"
  unfolding ClaimNextAgentOperationTask_def
  by (rule run_tx_invariant) (auto intro: claim_body_step [OF assms])

lemma update_job_step:
  assumes "\<And>r. P r \<Longrightarrow> job_advance now r (f r)"
  shows "jobs_step now (jobs db) (jobs (snd (update_job job agent P f db)))"
  using assms by (auto simp: update_job_def Let_def intro!: jobs_step.advance evolves_update_where)

lemma update_job_steps:
  "jobs_step now (jobs db) (jobs (snd (update_job job agent
     (\<lambda>r. j_status r = J_in_progress \<and> j_dispatched r = None) (finish_job now J_failed code) db)))"
  "jobs_step now (jobs db) (jobs (snd (update_job job agent
     (\<lambda>r. j_status r = J_in_progress) (mark_dispatched now) db)))"
  "jobs_step now (jobs db) (jobs (snd (update_job job agent
     (\<lambda>r. j_status r = J_mutation_dispatched) (touch_job now) db)))"
  "PlatformUpdateStatusIsTerminal st \<Longrightarrow> jobs_step now (jobs db) (jobs (snd (update_job job agent
     (\<lambda>r. j_status r = J_mutation_dispatched) (finish_job now st code) db)))"
  "PlatformUpdateStatusIsTerminal st \<Longrightarrow> jobs_step now (jobs db) (jobs (snd (update_job job agent
     (\<lambda>r. j_status r = J_in_progress)
     (\<lambda>r. finish_job now st code
        (r\<lparr>j_dispatched := (case j_dispatched r of None \<Rightarrow> Some now | Some t \<Rightarrow> Some t)\<rparr>)) db)))"
  by (rule update_job_step; use job_advance.intros in \<open>force simp: PlatformUpdateStatusIsActive_def\<close>)+

lemma completeInProgress_step:
  "jobs_step now (jobs db) (jobs (snd (completeInProgressPlatformUpdate now c agent target msg db)))"
  unfolding completeInProgressPlatformUpdate_def
  by (simp add: update_job_steps split: option.split sum.split)

lemma ValidPlatformUpdateTransition_dispatched:
  "ValidPlatformUpdateTransition J_mutation_dispatched st \<longleftrightarrow> PlatformUpdateStatusIsTerminal st"
  by (auto simp: PlatformUpdateStatusIsTerminal_def)

lemma completeDispatched_step:
  "jobs_step now (jobs db) (jobs (snd (completeDispatchedPlatformUpdate now c agent target msg db)))"
  unfolding completeDispatchedPlatformUpdate_def ValidPlatformUpdateTransition_dispatched
  by (simp add: update_job_steps split: option.split sum.split)

lemma CompleteAgentOperationTask_step:
  "jobs_step now (jobs db) (jobs (snd (CompleteAgentOperationTask now c db)))"
  unfolding CompleteAgentOperationTask_def complete_op_def
  by (auto simp: Let_def completeInProgress_step completeDispatched_step split: option.split)

section \<open>Invariant of the job table\<close>

text \<open>The two timestamp constraints of migration 139, identity, and the interlock.\<close>

definition job_row_ok :: "job_row \<Rightarrow> bool" where
  "job_row_ok r \<longleftrightarrow>
     (if j_status r \<in> {J_pending, J_in_progress} then j_dispatched r = None
      else j_status r = J_failed \<or> j_dispatched r \<noteq> None)
     \<and> (PlatformUpdateStatusIsTerminal (j_status r) \<longleftrightarrow> j_completed r \<noteq> None)"

definition jobs_inv :: "job_row table \<Rightarrow> bool" where
  "jobs_inv t \<longleftrightarrow>
     distinct (map j_id t)
     \<and> distinct (map j_server (filter (\<lambda>r. unresolved (j_status r)) t))
     \<and> (\<forall>r \<in> set t. job_row_ok r)"

lemma job_advance_row_ok: "job_advance now r r' \<Longrightarrow> job_row_ok r \<Longrightarrow> job_row_ok r'"
  by (induction rule: job_advance.induct)
    (auto simp: job_row_ok_def job_row_defs PlatformUpdateStatusIsTerminal_def
      PlatformUpdateStatusIsActive_def split: option.splits)

lemma job_advance_unresolved:
  "job_advance now r r' \<Longrightarrow> unresolved (j_status r') \<Longrightarrow> unresolved (j_status r)"
  by (induction rule: job_advance.induct)
    (auto simp: unresolved_def job_row_defs PlatformUpdateStatusIsActive_def)

lemma job_advance_ids: "job_advance now r r' \<Longrightarrow> j_id r' = j_id r \<and> j_server r' = j_server r"
  using job_table.adv_key by auto

lemma jobs_step_ids:
  "jobs_step now t t' \<Longrightarrow> distinct (map j_id t) \<Longrightarrow> distinct (map j_id t')"
proof (induction rule: jobs_step.induct)
  case (advance t t')
  have "map j_id t' = map fst (map job_key t')" "map j_id t = map fst (map job_key t)" by simp_all
  with job_table.keys [OF advance.hyps] advance.prems show ?case by metis
qed (auto simp: new_job_def)

lemma jobs_step_inv:
  assumes "jobs_step now t t'" "jobs_inv t"
  shows "jobs_inv t'"
proof -
  have "distinct (map j_id t')" using assms jobs_step_ids by (auto simp: jobs_inv_def)
  moreover have "distinct (map j_server (filter (\<lambda>r. unresolved (j_status r)) t'))"
    using assms
  proof (induction rule: jobs_step.induct)
    case (advance t t')
    then show ?case
      by (intro job_table.select_subset [OF advance.hyps])
        (auto simp: jobs_inv_def dest: job_advance_unresolved job_advance_ids)
  qed (auto simp: jobs_inv_def new_job_def)
  moreover have "\<forall>r \<in> set t'. job_row_ok r"
    using assms
  proof (induction rule: jobs_step.induct)
    case (advance t t')
    then show ?case by (metis evolves_set job_advance_row_ok jobs_inv_def)
  qed (auto simp: jobs_inv_def new_job_def job_row_ok_def PlatformUpdateStatusIsTerminal_def)
  ultimately show ?thesis by (simp add: jobs_inv_def)
qed

section \<open>Executions\<close>

text \<open>An execution interleaves the operations of the Manager in any order, with any fate of each
  commit, and with arbitrary changes of the inventory.  Ordinary operations never have the kind
  \<open>platform_update\<close>: \<open>operationCapability\<close> refuses it.\<close>

datatype job_event =
    Ev_create commit_fate string time string string
  | Ev_claim commit_fate "string \<Rightarrow> bool" time string
  | Ev_complete time completion
  | Ev_inventory "server_row table" "agent_row table"
  | Ev_operation op_row

fun job_exec :: "job_event \<Rightarrow> ('z jobs_db_scheme) \<Rightarrow> task list \<times> ('z jobs_db_scheme)" where
  "job_exec (Ev_create fate nid now raw target) db =
     ([], snd (CreatePlatformUpdateJob fate nid now raw target db))"
| "job_exec (Ev_claim fate locked now token) db =
     (case ClaimNextAgentOperationTask fate locked now token db of
        (Inr (Some t), db') \<Rightarrow> ([t], db')
      | (_, db') \<Rightarrow> ([], db'))"
| "job_exec (Ev_complete now c) db = ([], snd (CompleteAgentOperationTask now c db))"
| "job_exec (Ev_inventory ss as) db = ([], db\<lparr>servers := ss, agents := as\<rparr>)"
| "job_exec (Ev_operation r) db =
     ([], if o_kind r = ''platform_update'' then db else db\<lparr>op_jobs := op_jobs db @ [r]\<rparr>)"

fun job_run :: "job_event list \<Rightarrow> ('z jobs_db_scheme) \<Rightarrow> task list \<times> ('z jobs_db_scheme)" where
  "job_run [] db = ([], db)"
| "job_run (e # es) db =
     (fst (job_exec e db) @ fst (job_run es (snd (job_exec e db))),
      snd (job_run es (snd (job_exec e db))))"

lemma job_exec_claim:
  "snd (job_exec (Ev_claim fate locked now token) db)
     = snd (ClaimNextAgentOperationTask fate locked now token db)"
  by (cases "ClaimNextAgentOperationTask fate locked now token db")
    (simp split: sum.split option.split)

lemma job_exec_step:
  assumes "distinct (map j_id (jobs db))"
  shows "\<exists>now. jobs_step now (jobs db) (jobs (snd (job_exec e db)))"
proof (cases e)
  case (Ev_claim fate locked now token)
  then show ?thesis
    using ClaimNextAgentOperationTask_step [OF assms, of now fate locked token]
    by (auto split: prod.split sum.split option.split intro!: exI [of _ now])
next
  case (Ev_create fate nid now raw target)
  then show ?thesis using CreatePlatformUpdateJob_step [of now db fate nid raw target] by auto
next
  case (Ev_complete now c)
  then show ?thesis using CompleteAgentOperationTask_step [of now db c] by auto
qed (auto intro!: exI [of _ "0::time"])

lemma job_exec_inv: "jobs_inv (jobs db) \<Longrightarrow> jobs_inv (jobs (snd (job_exec e db)))"
  using job_exec_step jobs_step_inv by (metis jobs_inv_def)

lemma job_run_inv: "jobs_inv (jobs db) \<Longrightarrow> jobs_inv (jobs (snd (job_run es db)))"
  by (induction es arbitrary: db) (simp_all add: job_exec_inv)

subsection \<open>A job is dispatched at most once\<close>

definition dispatch_of :: "string \<Rightarrow> task \<Rightarrow> bool" where
  "dispatch_of x t \<longleftrightarrow> t_kind t = ''platform_update'' \<and> t_operation t = ''dispatch'' \<and> t_id t = x"

definition spent :: "string \<Rightarrow> job_row table \<Rightarrow> bool" where
  "spent x t \<longleftrightarrow> (\<exists>j \<in> set t. j_id j = x) \<and> (\<forall>j \<in> set t. j_id j = x \<longrightarrow> j_status j \<noteq> J_pending)"

definition ordinary_ops :: "('z jobs_db_scheme) \<Rightarrow> bool" where
  "ordinary_ops db \<longleftrightarrow> (\<forall>r \<in> set (op_jobs db). o_kind r \<noteq> ''platform_update'')"

lemma job_advance_pending: "job_advance now r r' \<Longrightarrow> j_status r' = J_pending \<Longrightarrow> j_status r = J_pending"
  by (induction rule: job_advance.induct) (auto simp: job_row_defs PlatformUpdateStatusIsTerminal_def)

lemma jobs_step_spent: "jobs_step now t t' \<Longrightarrow> spent x t \<Longrightarrow> spent x t'"
proof (induction rule: jobs_step.induct)
  case (advance t t')
  have "j_status r' \<noteq> J_pending" if "r' \<in> set t'" "j_id r' = x" for r'
    using advance.hyps that(1)
  proof (rule evolves_set)
    fix r assume "r \<in> set t" "r' = r \<or> job_advance now r r'"
    then have "j_id r = x" "j_status r \<noteq> J_pending"
      using advance.prems that(2) job_advance_ids by (auto simp: spent_def)
    with \<open>r' = r \<or> job_advance now r r'\<close> show ?thesis using job_advance_pending by auto
  qed
  moreover obtain r where "r \<in> set t" "j_id r = x" using advance.prems by (auto simp: spent_def)
  then have "\<exists>r' \<in> set t'. j_id r' = x"
    using advance.hyps by (metis evolves_set_forward job_advance_ids)
  ultimately show ?case by (auto simp: spent_def)
qed (auto simp: spent_def image_iff new_job_def)

lemma claim_no_rollback: "claim_body locked now token db \<noteq> Rollback (Inr x)"
  by (simp add: claim_body_def split: option.split)

lemma claim_output:
  assumes "ClaimNextAgentOperationTask fate locked now token db = (Inr (Some t), db')"
    and "ordinary_ops db" "dispatch_of x t"
  shows "\<not> spent x (jobs db) \<and> spent x (jobs db')"
proof -
  from assms(1) have body: "claim_body locked now token db = Commit (Inr (Some t)) db'"
    unfolding ClaimNextAgentOperationTask_def
    by (auto dest!: run_tx_Inr simp: claim_no_rollback)
  have op: "\<not> dispatch_of x \<lparr>t_id = o_id r, t_server = o_server r, t_agent = o_agent r,
      t_kind = o_kind r, t_operation = o_operation r, t_payload = []\<rparr>"
    if "op_candidate locked a db = Some r" for a r
    using that assms(2)
    by (auto simp: op_candidate_def select_def dispatch_of_def ordinary_ops_def dest!: least_by_mem)
  have rec: "\<not> dispatch_of x (job_task ''reconcile'' j)" for j
    by (simp add: dispatch_of_def job_task_def)
  obtain a j where j: "dispatch_candidate locked a db = Some j" "t = job_task ''dispatch'' j"
    and db': "jobs db' = update_where (\<lambda>r. j_id r = j_id j) (start_job now) (jobs db)"
    using body assms(3) op rec by (auto simp: claim_body_def split: option.splits if_splits)
  from j(2) assms(3) have "j_id j = x" by (simp add: dispatch_of_def job_task_def)
  with candidate_row(2) [OF j(1)] have "\<not> spent x (jobs db)" by (auto simp: spent_def)
  have "start_job now j \<in> set (jobs db')"
    using candidate_row(2) [OF j(1)] by (auto simp: db' set_update_where)
  moreover have "j_id (start_job now r) = j_id r" "j_status (start_job now r) = J_in_progress" for r
    by (simp_all add: start_job_def)
  moreover have "j_status r \<noteq> J_pending" if "r \<in> set (jobs db')" "j_id r = x" for r
    using that(1) unfolding db'
    by (rule update_where_cases) (use that(2) \<open>j_id j = x\<close> in \<open>auto simp: start_job_def\<close>)
  ultimately have "spent x (jobs db')"
    unfolding spent_def using \<open>j_id j = x\<close> by blast
  with \<open>\<not> spent x (jobs db)\<close> show ?thesis ..
qed

lemma job_exec_dispatch:
  assumes "ordinary_ops db" "t \<in> set (fst (job_exec e db))" "dispatch_of x t"
  shows "\<not> spent x (jobs db) \<and> spent x (jobs (snd (job_exec e db))) \<and> fst (job_exec e db) = [t]"
proof (cases e)
  case (Ev_claim fate locked now token)
  obtain r db' where r: "ClaimNextAgentOperationTask fate locked now token db = (r, db')"
    by fastforce
  with assms(2) Ev_claim have "r = Inr (Some t)" by (simp split: sum.splits option.splits)
  with r Ev_claim claim_output [of fate locked now token db t db' x] assms show ?thesis by simp
qed (use assms in simp_all)

lemma ordinary_ops_cong: "op_jobs db' = op_jobs db \<Longrightarrow> ordinary_ops db' = ordinary_ops db"
  by (simp add: ordinary_ops_def)

lemma ordinary_ops_update:
  "(\<And>r. o_kind (f r) = o_kind r) \<Longrightarrow>
     ordinary_ops (db\<lparr>op_jobs := update_where P f (op_jobs db)\<rparr>) = ordinary_ops db"
  unfolding ordinary_ops_def by (auto simp: update_where_def ball_Un)

lemma claim_ops:
  "ordinary_ops db \<Longrightarrow> claim_body locked now token db = Commit r db' \<Longrightarrow> ordinary_ops db'"
  by (simp add: claim_body_def split: option.splits if_splits)
    (auto simp: ordinary_ops_update start_op_def, auto simp: ordinary_ops_def)

lemma update_job_op_jobs [simp]: "op_jobs (snd (update_job job agent P f db)) = op_jobs db"
  by (simp add: update_job_def Let_def)

lemma completeInProgress_op_jobs [simp]:
  "op_jobs (snd (completeInProgressPlatformUpdate now c agent target msg db)) = op_jobs db"
  by (simp add: completeInProgressPlatformUpdate_def split: option.split sum.split)

lemma completeDispatched_op_jobs [simp]:
  "op_jobs (snd (completeDispatchedPlatformUpdate now c agent target msg db)) = op_jobs db"
  by (simp add: completeDispatchedPlatformUpdate_def split: option.split sum.split)

lemma complete_op_ops: "ordinary_ops (snd (complete_op now c agent msg db)) = ordinary_ops db"
  by (simp add: complete_op_def Let_def ordinary_ops_update split: option.split)

lemma complete_ops: "ordinary_ops (snd (CompleteAgentOperationTask now c db)) = ordinary_ops db"
  by (simp add: CompleteAgentOperationTask_def Let_def complete_op_ops
      ordinary_ops_cong [OF completeInProgress_op_jobs] ordinary_ops_cong [OF completeDispatched_op_jobs]
      split: option.split)

lemma createTx_op_jobs:
  "createPlatformUpdateJobTx nid now srv target db = Inr (j, db') \<Longrightarrow> op_jobs db' = op_jobs db"
  by (elim createPlatformUpdateJobTx_Inr) simp

lemma create_op_jobs [simp]: "op_jobs (snd (CreatePlatformUpdateJob fate nid now raw target db)) = op_jobs db"
proof -
  have "op_jobs (snd (run_tx CommitError fate
      (case createPlatformUpdateJobTx nid now srv target db of
         Inl e \<Rightarrow> Abort e | Inr (j, db') \<Rightarrow> Commit (Inr j) db') db)) = op_jobs db" for srv
    by (rule run_tx_invariant) (auto split: sum.splits prod.splits intro: createTx_op_jobs)
  then show ?thesis by (simp add: CreatePlatformUpdateJob_def split: sum.split)
qed

lemma job_exec_ops: "ordinary_ops db \<Longrightarrow> ordinary_ops (snd (job_exec e db))"
proof (cases e)
  case (Ev_claim fate locked now token)
  assume "ordinary_ops db"
  then have "ordinary_ops (snd (ClaimNextAgentOperationTask fate locked now token db))"
    unfolding ClaimNextAgentOperationTask_def
    by (intro run_tx_invariant [where P = ordinary_ops]) (auto dest: claim_ops)
  then show ?thesis using Ev_claim by (simp only: job_exec_claim)
next
  case Ev_create
  then show "ordinary_ops db \<Longrightarrow> ?thesis" by (simp add: ordinary_ops_cong [OF create_op_jobs])
qed (simp_all add: complete_ops, simp_all add: ordinary_ops_def)

lemma job_run_spent:
  assumes "distinct (map j_id (jobs db))" "ordinary_ops db" "spent x (jobs db)"
  shows "filter (dispatch_of x) (fst (job_run es db)) = []"
  using assms
proof (induction es arbitrary: db)
  case (Cons e es)
  have "filter (dispatch_of x) (fst (job_exec e db)) = []"
    unfolding filter_empty_conv using job_exec_dispatch [OF Cons.prems(2)] Cons.prems(3) by blast
  moreover obtain now where "jobs_step now (jobs db) (jobs (snd (job_exec e db)))"
    using job_exec_step [OF Cons.prems(1)] by blast
  then have "distinct (map j_id (jobs (snd (job_exec e db))))" "spent x (jobs (snd (job_exec e db)))"
    using Cons.prems jobs_step_ids jobs_step_spent by blast+
  ultimately show ?case
    using Cons.IH [of "snd (job_exec e db)"] job_exec_ops [OF Cons.prems(2), of e] by simp
qed simp

text \<open>C1. At-most-once dispatch of a host mutation: in every execution, whatever the order of the
  operations and the fate of their commits (also when the acknowledgement of a claim is lost), the
  mutation-capable \<open>dispatch\<close> task of a platform-update job leaves the Manager at most once.\<close>

theorem dispatch_at_most_once:
  assumes "jobs_inv (jobs db)" "ordinary_ops db"
  shows "length (filter (dispatch_of x) (fst (job_run es db))) \<le> 1"
  using assms
proof (induction es arbitrary: db)
  case (Cons e es)
  let ?ts = "fst (job_exec e db)" and ?db = "snd (job_exec e db)"
  have inv: "jobs_inv (jobs ?db)" "ordinary_ops ?db"
    using Cons.prems job_exec_inv job_exec_ops by auto
  show ?case
  proof (cases "\<exists>t \<in> set ?ts. dispatch_of x t")
    case True
    then obtain t where "spent x (jobs ?db)" "?ts = [t]"
      using job_exec_dispatch [OF Cons.prems(2)] by blast
    moreover have "filter (dispatch_of x) (fst (job_run es ?db)) = []"
      using inv \<open>spent x (jobs ?db)\<close> unfolding jobs_inv_def by (intro job_run_spent) auto
    ultimately show ?thesis by simp
  next
    case False
    then have "filter (dispatch_of x) ?ts = []" by (auto simp: filter_empty_conv)
    with Cons.IH [OF inv] show ?thesis by simp
  qed
qed simp

lemma jobs_run_final:
  "distinct (map j_id (jobs db)) \<Longrightarrow> r \<in> set (jobs db) \<Longrightarrow> job_final r \<Longrightarrow> r \<in> set (jobs (snd (job_run es db)))"
proof (induction es arbitrary: db)
  case (Cons e es)
  obtain now where step: "jobs_step now (jobs db) (jobs (snd (job_exec e db)))"
    using job_exec_step [OF Cons.prems(1)] by blast
  then have "distinct (map j_id (jobs (snd (job_exec e db))))" using Cons.prems(1) by (rule jobs_step_ids)
  moreover from step Cons.prems have "r \<in> set (jobs (snd (job_exec e db)))"
    by (induction rule: jobs_step.induct) (auto intro: job_table.final_kept)
  ultimately show ?case using Cons.IH [of "snd (job_exec e db)"] Cons.prems(3) by simp
qed simp

text \<open>C9. Every execution keeps the invariant of the job table: identifiers are unique, at most one
  active or unresolved job exists per server, the timestamp constraints hold; and a job in a terminal
  status is never changed again.\<close>

theorem job_table_invariant:
  assumes "jobs_inv (jobs db)"
  shows "jobs_inv (jobs (snd (job_run es db)))
    \<and> (\<forall>r \<in> set (jobs db). PlatformUpdateStatusIsTerminal (j_status r) \<longrightarrow> r \<in> set (jobs (snd (job_run es db))))"
proof
  show "jobs_inv (jobs (snd (job_run es db)))" using assms by (rule job_run_inv)
  show "\<forall>r \<in> set (jobs db). PlatformUpdateStatusIsTerminal (j_status r) \<longrightarrow> r \<in> set (jobs (snd (job_run es db)))"
    using assms unfolding jobs_inv_def by (blast intro: jobs_run_final)
qed

subsection \<open>Evidence\<close>

lemma Reconcile_identity:
  "ReconcilePlatformUpdateEvidence task ver ev = Inr st \<Longrightarrow> e_task ev = task \<and> e_target ev = ver"
  by (auto simp: ReconcilePlatformUpdateEvidence_def split: if_splits)

text \<open>C10. A completion message for a running or dispatched platform-update job changes the database
  only if it carries evidence, decoded by the strict decoder, that names exactly this job and its
  target version; otherwise it is refused with an error.\<close>

theorem completion_needs_matching_evidence:
  assumes "lookup_row a_token_hash (c_token c) (agents db) = Some a"
    and "owned_job (c_job c) (a_id a) st db = Some j" "st = J_in_progress \<or> st = J_mutation_dispatched"
    and "\<not> (\<exists>ev. c_evidence c = Some ev \<and> e_task ev = c_job c \<and> e_target ev = j_target j)"
    and "jobs_inv (jobs db)"
  shows "\<exists>e. CompleteAgentOperationTask now c db = (Inl e, db)"
proof -
  have prog: "\<exists>e. completeInProgressPlatformUpdate now c (a_id a) (j_target j) msg db = (Inl e, db)" for msg
    using assms(4) by (auto simp: completeInProgressPlatformUpdate_def split: option.split)
  have disp: "\<exists>e. completeDispatchedPlatformUpdate now c (a_id a) (j_target j) msg db = (Inl e, db)" for msg
    using assms(4) Reconcile_identity
    by (fastforce simp: completeDispatchedPlatformUpdate_def split: option.split sum.split)
  have none: "owned_job (c_job c) (a_id a) J_in_progress db = None" if "st = J_mutation_dispatched"
  proof (rule ccontr)
    assume "owned_job (c_job c) (a_id a) J_in_progress db \<noteq> None"
    then obtain i where "i \<in> set (jobs db)" "j_id i = c_job c" "j_status i = J_in_progress"
      by (auto simp: owned_job_def dest!: find_SomeD)
    moreover have "j \<in> set (jobs db)" "j_id j = c_job c" "j_status j = J_mutation_dispatched"
      using assms(2) that by (auto simp: owned_job_def dest!: find_SomeD)
    moreover have "distinct (map j_id (jobs db))" using assms(5) by (simp add: jobs_inv_def)
    ultimately show False using distinct_key_eq [of j_id "jobs db" i j] by simp
  qed
  show ?thesis
    using assms(1-3) prog disp none by (auto simp: CompleteAgentOperationTask_def Let_def)
qed

subsection \<open>Server identities\<close>

lemma uuid_format_filter:
  assumes "set h \<subseteq> set hextable"
  shows "filter (\<lambda>c. c \<noteq> CHR ''-'') (uuid_format h) = h"
proof -
  have hx: "c \<noteq> CHR ''-''" if "c \<in> set h" for c using that assms by (auto simp: hextable_def)
  have f: "filter (\<lambda>c. c \<noteq> CHR ''-'') xs = xs" if "set xs \<subseteq> set h" for xs
    using that hx by (auto simp: filter_id_conv)
  have sub: "set (take n h) \<subseteq> set h" "set (take n (drop m h)) \<subseteq> set h" "set (drop n h) \<subseteq> set h" for n m
    by (auto dest: in_set_takeD in_set_dropD)
  have "filter (\<lambda>c. c \<noteq> CHR ''-'') (uuid_format h)
      = take 8 h @ take 4 (drop 8 h) @ take 4 (drop 12 h) @ take 4 (drop 16 h) @ drop 20 h"
    unfolding uuid_format_def by (simp add: f sub)
  also have "\<dots> = take (8 + (4 + (4 + 4))) h @ drop 20 h"
    by (simp only: take_add drop_drop append_assoc) (simp add: add.commute)
  finally show ?thesis by simp
qed

lemma uuid_format_chars: "set (uuid_format h) \<subseteq> insert (CHR ''-'') (set h)"
  by (auto simp: uuid_format_def dest: in_set_takeD in_set_dropD)

lemma hextable_clean: "\<forall>c \<in> set (CHR ''-'' # hextable). \<not> space_byte c \<and> ascii c"
  by code_simp

lemma canonical_of_hex:
  assumes "\<forall>b \<in> set bs. b < 256" "length bs = 16"
  shows "canonicalPlatformUpdateServerID (uuid_format (hex_print bs)) = Inr (uuid_format (hex_print bs))"
proof -
  let ?h = "hex_print bs" and ?u = "uuid_format (hex_print bs)"
  have h: "set ?h \<subseteq> set hextable" using assms(1) by (rule hex_print_mem)
  then have chars: "set ?u \<subseteq> set (CHR ''-'' # hextable)" using uuid_format_chars [of ?h] by auto
  then have trim: "TrimSpace ?u = ?u" using hextable_clean by (intro TrimSpace_clean) blast
  obtain b bs' where bs: "bs = b # bs'" using assms(2) by (cases bs) auto
  then obtain r where r: "?u = hex_digit (b div 16) # r" by (simp add: uuid_format_def)
  have "hex_digit (b div 16) \<in> set hextable" using assms(1) bs by (intro hex_digit_mem) auto
  then have hd: "hd ?u \<in> set hextable" using r by simp
  then have brace: "hd ?u \<noteq> CHR ''{''" by (auto simp: hextable_def)
  have "ToLower ?u = map lower_byte ?u"
    using chars hextable_clean by (intro ToLower_ascii) blast
  moreover have "lower_byte (hd ?u) \<noteq> CHR ''u''"
  proof -
    have "\<forall>c \<in> set hextable. lower_byte c \<noteq> CHR ''u''" by code_simp
    with hd show ?thesis by blast
  qed
  ultimately have urn: "\<not> prefix ''urn:uuid:'' (ToLower ?u)" using r by simp
  have "length ?h = 32" using assms(2) by simp
  then show ?thesis
    using trim brace urn r uuid_format_filter [OF h] hex_decode_print [OF assms(1)]
    by (simp add: canonicalPlatformUpdateServerID_def Let_def)
qed

lemma canonical_shape:
  assumes "canonicalPlatformUpdateServerID raw = Inr u"
  obtains bs where "u = uuid_format (hex_print bs)" "length bs = 16" "\<forall>b \<in> set bs. b < 256"
proof -
  from assms obtain s bs where bs: "hex_DecodeString s = Some bs" "length s = 32"
    and u: "u = uuid_format (hex_print bs)"
    by (auto simp: canonicalPlatformUpdateServerID_def Let_def split: if_splits option.splits)
  then have "length bs = 16" using hex_DecodeString_length by fastforce
  with u hex_decode_bytes [OF bs(1)] show thesis by (intro that) auto
qed

lemma canonical_fixed:
  "canonicalPlatformUpdateServerID raw = Inr u \<Longrightarrow> canonicalPlatformUpdateServerID u = Inr u"
  by (elim canonical_shape) (simp add: canonical_of_hex)

text \<open>\<open>canonicalPlatformUpdateServerID\<close> returns a normal form: its results are fixed points, so
  two spellings of one UUID compare equal exactly when their canonical forms do.\<close>

theorem canonical_server_id_idempotent:
  assumes "canonicalPlatformUpdateServerID raw = Inr u"
  shows "canonicalPlatformUpdateServerID u = Inr u \<and> length u = 36"
proof
  show "canonicalPlatformUpdateServerID u = Inr u" using assms by (rule canonical_fixed)
  from assms obtain bs where "u = uuid_format (hex_print bs)" "length bs = 16" by (rule canonical_shape)
  then show "length u = 36" by (simp add: uuid_format_def)
qed

subsection \<open>Concrete instances\<close>

definition ex_server :: server_row where
  "ex_server = \<lparr>s_id = ''11111111-1111-4111-8111-111111111111'', s_role = ''vpn'', s_status = ''active''\<rparr>"

definition ex_agent :: agent_row where
  "ex_agent = \<lparr>a_id = ''a1'', a_server = s_id ex_server, a_status = ''online'', a_version = ''1.2.0'',
     a_protocol = Some 1, a_software_update = Some platformUpdateCapabilityJSON, a_updated = 0,
     a_token_hash = ''h1'', a_cred_gen = 1, a_hb_at = None, a_hb_gen = None\<rparr>"

definition ex_job_id :: string where
  "ex_job_id = ''22222222-2222-4222-8222-222222222222''"

definition ex_job :: job_row where
  "ex_job = new_job ex_job_id 0 (s_id ex_server) ''a1'' ''1.2.0''"

definition ex_db :: jobs_db where
  "ex_db = \<lparr>servers = [ex_server], agents = [ex_agent], jobs = [ex_job], op_jobs = []\<rparr>"

lemmas ex_defs = ex_db_def ex_server_def ex_agent_def ex_job_id_def ex_job_def new_job_def

lemmas job_op_defs = ClaimNextAgentOperationTask_def claim_body_def reconcile_candidate_def
  dispatch_candidate_def op_candidate_def lookup_row_def select_def update_where_def
  start_job_def touch_job_def job_task_def seconds_def

lemma ex_db_inv: "jobs_inv (jobs ex_db)" "ordinary_ops ex_db"
  by (simp_all add: jobs_inv_def job_row_ok_def ex_defs PlatformUpdateStatusIsTerminal_def ordinary_ops_def)

lemma ex_claim:
  "ClaimNextAgentOperationTask Committed (\<lambda>_. False) 1 ''h1'' ex_db
     = (Inr (Some (job_task ''dispatch'' ex_job)), ex_db\<lparr>jobs := [start_job 1 ex_job]\<rparr>)"
  by (simp add: job_op_defs ex_defs)

lemma ex_dispatch_of: "dispatch_of ex_job_id (job_task ''dispatch'' ex_job)"
  by (simp add: dispatch_of_def job_task_def ex_job_def new_job_def)

text \<open>The job is dispatched once; the second claim, one nanosecond later, yields nothing.\<close>

theorem dispatch_at_most_once_witness:
  "jobs_inv (jobs ex_db) \<and> ordinary_ops ex_db
   \<and> length (filter (dispatch_of ex_job_id) (fst (job_run [Ev_claim Committed (\<lambda>_. False) 1 ''h1'',
        Ev_claim Committed (\<lambda>_. False) 2 ''h1''] ex_db))) = 1"
proof -
  let ?es = "[Ev_claim Committed (\<lambda>_. False) 1 ''h1'', Ev_claim Committed (\<lambda>_. False) 2 ''h1'']"
  have "job_task ''dispatch'' ex_job \<in> set (filter (dispatch_of ex_job_id) (fst (job_run ?es ex_db)))"
    using ex_dispatch_of by (simp add: ex_claim)
  then have "0 < length (filter (dispatch_of ex_job_id) (fst (job_run ?es ex_db)))"
    by (rule length_pos_if_in_set)
  with dispatch_at_most_once [OF ex_db_inv, of ex_job_id ?es]
  have "length (filter (dispatch_of ex_job_id) (fst (job_run ?es ex_db))) = 1" by linarith
  with ex_db_inv show ?thesis by blast
qed

theorem job_table_invariant_witness:
  "jobs_inv (jobs (snd (job_run [Ev_claim Committed (\<lambda>_. False) 1 ''h1''] ex_db)))
   \<and> jobs (snd (job_run [Ev_claim Committed (\<lambda>_. False) 1 ''h1''] ex_db)) = [start_job 1 ex_job]"
  using job_table_invariant [OF ex_db_inv(1), of "[Ev_claim Committed (\<lambda>_. False) 1 ''h1'']"]
  by (simp add: ex_claim)

definition ex_started :: jobs_db where
  "ex_started = ex_db\<lparr>jobs := [start_job 1 ex_job]\<rparr>"

definition ex_completion :: "string \<Rightarrow> completion" where
  "ex_completion task =
     \<lparr>c_token = ''h1'', c_job = ex_job_id, c_status = ''succeeded'', c_message = [], c_payload_bytes = 100,
      c_evidence = Some \<lparr>e_task = task, e_target = ''1.2.0'', e_stat = ''succeeded'', e_code = []\<rparr>\<rparr>"

lemma ex_started_inv: "jobs_inv (jobs ex_started)"
  by (simp add: ex_started_def jobs_inv_def job_row_ok_def ex_defs start_job_def
      PlatformUpdateStatusIsTerminal_def)

lemma ex_started_owned:
  "lookup_row a_token_hash ''h1'' (agents ex_started) = Some ex_agent"
  "owned_job ex_job_id ''a1'' J_in_progress ex_started = Some (start_job 1 ex_job)"
  by (simp_all add: ex_started_def lookup_row_def owned_job_def ex_defs start_job_def)

lemma ex_agent_id: "a_id ex_agent = ''a1''" and ex_other_task: "''other'' \<noteq> ex_job_id"
  by (simp_all add: ex_agent_def ex_job_id_def)

theorem completion_needs_matching_evidence_witness:
  "\<exists>e. CompleteAgentOperationTask 2 (ex_completion ''other'') ex_started = (Inl e, ex_started)"
  by (rule completion_needs_matching_evidence [where a = ex_agent and st = J_in_progress
        and j = "start_job 1 ex_job"])
    (simp_all add: ex_completion_def ex_started_inv ex_started_owned [simplified] ex_agent_id ex_other_task)

theorem canonical_server_id_idempotent_witness:
  "canonicalPlatformUpdateServerID ''{11111111-1111-4111-8111-1111111111AB}''
     = Inr ''11111111-1111-4111-8111-1111111111ab''
   \<and> canonicalPlatformUpdateServerID ''11111111-1111-4111-8111-1111111111ab''
     = Inr ''11111111-1111-4111-8111-1111111111ab''"
proof -
  have "canonicalPlatformUpdateServerID ''{11111111-1111-4111-8111-1111111111AB}''
     = Inr ''11111111-1111-4111-8111-1111111111ab''" by code_simp
  from this and canonical_server_id_idempotent [OF this, THEN conjunct1] show ?thesis by (rule conjI)
qed

text \<open>C13. The lifecycle contract \<open>ValidPlatformUpdateTransition\<close> is not the one the repository
  implements: it has no transition from \<open>in_progress\<close> to \<open>succeeded\<close>, yet a receipt that
  arrives after the dispatch acknowledgement was lost takes a job there directly.\<close>

theorem lifecycle_contract_bypassed:
  "\<not> ValidPlatformUpdateTransition J_in_progress J_succeeded
   \<and> map j_status (jobs ex_started) = [J_in_progress]
   \<and> map j_status (jobs (snd (CompleteAgentOperationTask 2 (ex_completion ex_job_id) ex_started)))
       = [J_succeeded]"
proof -
  have pats: "canonicalPlatformUpdateTaskID ex_job_id" "canonicalRouteGateVersion ''1.2.0''"
    by code_simp+
  have "ReconcilePlatformUpdateEvidence ex_job_id ''1.2.0''
      \<lparr>e_task = ex_job_id, e_target = ''1.2.0'', e_stat = ''succeeded'', e_code = []\<rparr> = Inr J_succeeded"
    using pats by (simp add: ReconcilePlatformUpdateEvidence_def)
  moreover have "j_target (start_job 1 ex_job) = ''1.2.0''" "a_id ex_agent = ''a1''"
    by (simp_all add: ex_defs start_job_def)
  ultimately have "CompleteAgentOperationTask 2 (ex_completion ex_job_id) ex_started =
      update_job ex_job_id ''a1'' (\<lambda>r. j_status r = J_in_progress)
        (\<lambda>r. finish_job 2 J_succeeded []
           (r\<lparr>j_dispatched := (case j_dispatched r of None \<Rightarrow> Some 2 | Some t \<Rightarrow> Some t)\<rparr>)) ex_started"
    using ex_started_owned
    by (simp add: CompleteAgentOperationTask_def completeInProgressPlatformUpdate_def ex_completion_def
        evidence_code_def PlatformUpdateStatusIsTerminal_def)
  then show ?thesis
    by (simp add: update_job_def update_where_def finish_job_def ex_started_def start_job_def ex_defs)
qed

end
