(* ===== verification/Rollout.thy ===== *)
theory Rollout
  imports Update_Jobs
begin

text \<open>
  Ordered, proof-gated rollouts of a RouteGate version over VPN nodes: package
  \<open>backend/internal/agents\<close>, files \<open>platform_update_rollout.go\<close> (statuses and transitions),
  \<open>platform_update_rollout_planner.go\<close>, \<open>platform_update_rollout_repository.go\<close> (the persisted
  plan), \<open>platform_update_rollout_execution.go\<close> (admission of the next node),
  \<open>platform_update_rollout_health.go\<close> (post-update proof) and \<open>platform_update_rollout_step.go\<close>
  (the controller that composes them).

  Every operation is one serialised transaction: the code takes the global admission mutex, or the
  per-server locks, before it reads.  Reads that happen in an earlier transaction take the database
  of that moment as a separate argument.
\<close>

section \<open>Data\<close>

datatype rollout_status = R_pending | R_running | R_succeeded | R_failed | R_outcome_unknown

datatype entry_status = E_queued | E_waiting | E_updating | E_healthy | E_failed
  | E_outcome_unknown | E_skipped

definition validatePlatformUpdateRolloutTransition :: "rollout_status \<Rightarrow> rollout_status \<Rightarrow> bool" where
  "validatePlatformUpdateRolloutTransition f t =
     (case f of
        R_pending \<Rightarrow> t = R_running \<or> t = R_failed
      | R_running \<Rightarrow> t = R_succeeded \<or> t = R_failed \<or> t = R_outcome_unknown
      | _ \<Rightarrow> False)"

definition validatePlatformUpdateRolloutEntryTransition :: "entry_status \<Rightarrow> entry_status \<Rightarrow> bool" where
  "validatePlatformUpdateRolloutEntryTransition f t =
     (case f of
        E_queued \<Rightarrow> t = E_waiting \<or> t = E_updating \<or> t = E_skipped
      | E_waiting \<Rightarrow> t = E_updating \<or> t = E_skipped
      | E_updating \<Rightarrow> t = E_healthy \<or> t = E_failed \<or> t = E_outcome_unknown
      | _ \<Rightarrow> False)"

definition rolloutStopsForEntryStatus :: "entry_status \<Rightarrow> bool" where
  "rolloutStopsForEntryStatus s \<longleftrightarrow> s = E_failed \<or> s = E_outcome_unknown"

definition rolloutMayAdvancePastEntry :: "entry_status \<Rightarrow> bool" where
  "rolloutMayAdvancePastEntry s \<longleftrightarrow> s = E_healthy \<or> s = E_skipped"

datatype blocker = ManagerVersionMismatch | NotVPNRole | ServerDisabled | AgentMissing
  | AgentDisabled | UpdateCapability | ActiveUpdate | ProtocolIncompatible

record candidate =
  ca_server :: string
  ca_role :: string
  ca_server_disabled :: bool
  ca_agent_registered :: bool
  ca_agent_disabled :: bool
  ca_capability_ready :: bool
  ca_active_update :: bool
  ca_protocol_compatible :: bool

record plan_entry =
  p_server :: string
  p_eligible :: bool
  p_blockers :: "blocker list"
  p_observed :: int

record plan =
  pl_target :: string
  pl_entries :: "plan_entry list"

record rollout_row =
  r_id :: string
  r_target :: string
  r_status :: rollout_status
  r_error :: "string option"
  r_started :: "time option"
  r_completed :: "time option"
  r_key :: "string option"
  r_hash :: string

record entry_row =
  en_id :: string
  en_rollout :: string
  en_server :: string
  en_target :: string
  en_position :: nat
  en_job :: "string option"
  en_status :: entry_status
  en_blocker :: "string option"
  en_planning :: "blocker list"
  en_observed :: "int option"
  en_completed :: "time option"

record rollout_db = jobs_db +
  rollouts :: "rollout_row table"
  entries :: "entry_row table"

section \<open>Planning\<close>

definition candidate_blockers :: "string \<Rightarrow> string \<Rightarrow> candidate \<Rightarrow> blocker list" where
  "candidate_blockers mgr target c =
     (if mgr \<noteq> target then [ManagerVersionMismatch] else [])
     @ (if ca_role c \<noteq> ''vpn'' then [NotVPNRole] else [])
     @ (if ca_server_disabled c then [ServerDisabled] else [])
     @ (if \<not> ca_agent_registered c then [AgentMissing]
        else if ca_agent_disabled c then [AgentDisabled] else [])
     @ (if \<not> ca_capability_ready c then [UpdateCapability] else [])
     @ (if ca_active_update c then [ActiveUpdate] else [])
     @ (if \<not> ca_protocol_compatible c then [ProtocolIncompatible] else [])"

fun plan_entries ::
  "string \<Rightarrow> string \<Rightarrow> string list \<Rightarrow> candidate list \<Rightarrow> update_error + plan_entry list" where
  "plan_entries mgr target seen [] = Inr []"
| "plan_entries mgr target seen (c # cs) =
     (case canonicalPlatformUpdateServerID (ca_server c) of
        Inl e \<Rightarrow> Inl e
      | Inr srv \<Rightarrow>
          if srv \<in> set seen then Inl (ErrText ''duplicate rollout candidate server id'')
          else
            let bs = candidate_blockers mgr target c in
            case plan_entries mgr target (srv # seen) cs of
              Inl e \<Rightarrow> Inl e
            | Inr ps \<Rightarrow> Inr (\<lparr>p_server = srv, p_eligible = (bs = []), p_blockers = bs, p_observed = 0\<rparr> # ps))"

definition PlanPlatformUpdateRollout ::
  "string \<Rightarrow> string \<Rightarrow> candidate list \<Rightarrow> update_error + plan" where
  "PlanPlatformUpdateRollout mgr target cs =
     (if \<not> validPlatformUpdateTargetVersion target then Inl (ErrText ''invalid target version'')
      else if cs = [] then Inl (ErrText ''at least one rollout candidate is required'')
      else case plan_entries mgr target [] cs of
             Inl e \<Rightarrow> Inl e
           | Inr ps \<Rightarrow> Inr \<lparr>pl_target = target, pl_entries = ps\<rparr>)"

section \<open>Persisting the plan\<close>

text \<open>The agent the snapshot reads: the one updated last, disabled or not.  When the first read
  finds none, the second read, after the server row is locked, may see an agent that registered in
  between: \<open>late\<close>.\<close>

definition snapshot_agent ::
  "(string \<Rightarrow> agent_row option) \<Rightarrow> string \<Rightarrow> ('z jobs_db_scheme) \<Rightarrow> agent_row option" where
  "snapshot_agent late srv db =
     (case greatest_by (\<lambda>a. (a_updated a, a_id a)) (select (\<lambda>a. a_server a = srv) (agents db)) of
        Some a \<Rightarrow> Some a
      | None \<Rightarrow> late srv)"

definition agent_blockers :: "build_info \<Rightarrow> agent_row option \<Rightarrow> blocker list" where
  "agent_blockers b ao =
     (case ao of
        None \<Rightarrow> [AgentMissing, UpdateCapability, ProtocolIncompatible]
      | Some a \<Rightarrow>
          (if a_status a = ''disabled'' then [AgentDisabled] else [])
          @ (if a_software_update a \<noteq> Some platformUpdateCapabilityJSON then [UpdateCapability] else [])
          @ (if \<not> compat_ok (EvaluateCompatibility b (a_version a) (a_protocol a))
             then [ProtocolIncompatible] else []))"

definition revalidatePlatformUpdateRolloutEntry ::
  "build_info \<Rightarrow> (string \<Rightarrow> agent_row option) \<Rightarrow> ('z jobs_db_scheme) \<Rightarrow> string \<Rightarrow> string
     \<Rightarrow> update_error + plan_entry" where
  "revalidatePlatformUpdateRolloutEntry b late db target srv =
     (case lookup_row s_id srv (servers db) of
        None \<Rightarrow> Inl ErrNoRows
      | Some s \<Rightarrow>
          let bs = (if b_version b \<noteq> target then [ManagerVersionMismatch] else [])
                 @ agent_blockers b (snapshot_agent late srv db)
                 @ (if s_role s \<noteq> ''vpn'' then [NotVPNRole] else [])
                 @ (if s_status s = ''disabled'' then [ServerDisabled] else [])
                 @ (if has_unresolved_job srv db then [ActiveUpdate] else [])
          in Inr \<lparr>p_server = srv, p_eligible = (bs = []), p_blockers = bs, p_observed = count_jobs srv db\<rparr>)"

fun revalidate_all ::
  "build_info \<Rightarrow> (string \<Rightarrow> agent_row option) \<Rightarrow> ('z jobs_db_scheme) \<Rightarrow> string \<Rightarrow> string list
     \<Rightarrow> update_error + plan_entry list" where
  "revalidate_all b late db target [] = Inr []"
| "revalidate_all b late db target (srv # srvs) =
     (case revalidatePlatformUpdateRolloutEntry b late db target srv of
        Inl e \<Rightarrow> Inl e
      | Inr p \<Rightarrow>
          (case revalidate_all b late db target srvs of Inl e \<Rightarrow> Inl e | Inr ps \<Rightarrow> Inr (p # ps)))"

fun check_plan_servers :: "string list \<Rightarrow> plan_entry list \<Rightarrow> update_error + unit" where
  "check_plan_servers seen [] = Inr ()"
| "check_plan_servers seen (p # ps) =
     (if canonicalPlatformUpdateServerID (p_server p) \<noteq> Inr (p_server p)
      then Inl (ErrText ''rollout plan contains non-canonical server id'')
      else if p_server p \<in> set seen then Inl (ErrText ''duplicate rollout plan server id'')
      else check_plan_servers (p_server p # seen) ps)"

definition lookupPlatformUpdateRolloutCreation ::
  "string \<Rightarrow> rollout_db \<Rightarrow> (string \<times> string) option" where
  "lookupPlatformUpdateRolloutCreation key db =
     map_option (\<lambda>r. (r_id r, r_hash r)) (lookup_row r_key (Some key) (rollouts db))"

definition replay_creation :: "string \<times> string \<Rightarrow> string \<Rightarrow> update_error + string \<times> bool" where
  "replay_creation existing hash =
     (if snd existing \<noteq> hash then Inl ErrPlatformUpdateRolloutIdempotencyConflict
      else Inr (fst existing, True))"

definition snapshot_row :: "(nat \<Rightarrow> string) \<Rightarrow> time \<Rightarrow> string \<Rightarrow> string \<Rightarrow> nat \<times> plan_entry \<Rightarrow> entry_row" where
  "snapshot_row eid now rid target = (\<lambda>(pos, p).
     \<lparr>en_id = eid pos, en_rollout = rid, en_server = p_server p, en_target = target,
      en_position = pos, en_job = None, en_status = (if p_eligible p then E_queued else E_skipped),
      en_blocker = None, en_planning = p_blockers p, en_observed = Some (p_observed p),
      en_completed = (if p_eligible p then None else Some now)\<rparr>)"

definition snapshot_rows :: "(nat \<Rightarrow> string) \<Rightarrow> time \<Rightarrow> string \<Rightarrow> string \<Rightarrow> plan_entry list \<Rightarrow> entry_row table" where
  "snapshot_rows eid now rid target ps =
     map (snapshot_row eid now rid target) (sort_key (\<lambda>x. p_server (snd x)) (enumerate 0 ps))"

definition new_rollout :: "string \<Rightarrow> string \<Rightarrow> string \<Rightarrow> string \<Rightarrow> rollout_row" where
  "new_rollout rid target key hash =
     \<lparr>r_id = rid, r_target = target, r_status = R_pending, r_error = None, r_started = None,
      r_completed = None, r_key = (if key = [] then None else Some key), r_hash = hash\<rparr>"

text \<open>The transaction of \<open>persistPlatformUpdateRolloutPlan\<close>.  Rows are inserted in the order of the
  server identifiers, each with the position the caller asked for.  \<open>rid\<close> and \<open>eid\<close> are the
  identifiers \<open>gen_random_uuid()\<close> returns; a collision violates a primary key.\<close>

definition persist_body ::
  "build_info \<Rightarrow> (string \<Rightarrow> agent_row option) \<Rightarrow> time \<Rightarrow> string \<Rightarrow> (nat \<Rightarrow> string) \<Rightarrow> plan
     \<Rightarrow> string \<Rightarrow> string \<Rightarrow> rollout_db \<Rightarrow> (update_error, string \<times> bool, rollout_db) outcome" where
  "persist_body b late now rid eid pl key hash db =
     (case revalidate_all b late db (pl_target pl) (map p_server (pl_entries pl)) of
        Inl e \<Rightarrow> Abort e
      | Inr ps \<Rightarrow>
          if key \<noteq> [] \<and> lookupPlatformUpdateRolloutCreation key db \<noteq> None
          then Rollback (replay_creation (the (lookupPlatformUpdateRolloutCreation key db)) hash)
          else
            let rows = snapshot_rows eid now rid (pl_target pl) ps
            in if rid \<in> r_id ` set (rollouts db) \<or> \<not> distinct (map en_id (rows @ entries db))
               then Abort UniqueViolation
               else Commit (Inr (rid, False))
                      (db\<lparr>rollouts := rollouts db @ [new_rollout rid (pl_target pl) key hash],
                          entries := entries db @ rows\<rparr>))"

text \<open>\<open>db0\<close> is the database the first lookup of the idempotency key reads.\<close>

definition persistPlatformUpdateRolloutPlan ::
  "commit_fate \<Rightarrow> build_info \<Rightarrow> (string \<Rightarrow> agent_row option) \<Rightarrow> time \<Rightarrow> string \<Rightarrow> (nat \<Rightarrow> string)
     \<Rightarrow> plan \<Rightarrow> string \<Rightarrow> string \<Rightarrow> rollout_db \<Rightarrow> rollout_db
     \<Rightarrow> (update_error + string \<times> bool) \<times> rollout_db" where
  "persistPlatformUpdateRolloutPlan fate b late now rid eid pl key hash db0 db =
     (if \<not> validPlatformUpdateTargetVersion (pl_target pl)
      then (Inl (ErrText ''invalid target version''), db)
      else if pl_entries pl = []
      then (Inl (ErrText ''at least one rollout plan entry is required''), db)
      else case check_plan_servers [] (pl_entries pl) of
        Inl e \<Rightarrow> (Inl e, db)
      | Inr _ \<Rightarrow>
          if key \<noteq> [] \<and> lookupPlatformUpdateRolloutCreation key db0 \<noteq> None
          then (replay_creation (the (lookupPlatformUpdateRolloutCreation key db0)) hash, db)
          else run_tx CommitError fate (persist_body b late now rid eid pl key hash db) db)"

section \<open>Admission of the next node\<close>

definition entries_of :: "string \<Rightarrow> rollout_db \<Rightarrow> entry_row table" where
  "entries_of rid db = select (\<lambda>e. en_rollout e = rid) (entries db)"

definition rollout_unfinished :: "string \<Rightarrow> rollout_db \<Rightarrow> bool" where
  "rollout_unfinished rid db \<longleftrightarrow> (\<exists>e \<in> set (entries_of rid db). en_status e \<notin> {E_healthy, E_skipped})"

definition completePlatformUpdateRolloutIfFinishedTx :: "time \<Rightarrow> string \<Rightarrow> rollout_db \<Rightarrow> rollout_db" where
  "completePlatformUpdateRolloutIfFinishedTx now rid db =
     (if rollout_unfinished rid db then db
      else db\<lparr>rollouts := update_where (\<lambda>r. r_id r = rid \<and> r_status r = R_running)
             (\<lambda>r. r\<lparr>r_status := R_succeeded, r_error := None, r_completed := Some now\<rparr>) (rollouts db)\<rparr>)"

definition start_rollout :: "time \<Rightarrow> string \<Rightarrow> rollout_db \<Rightarrow> rollout_db" where
  "start_rollout now rid db =
     db\<lparr>rollouts := update_where (\<lambda>r. r_id r = rid \<and> r_status r = R_pending)
          (\<lambda>r. r\<lparr>r_status := R_running, r_started := Some now\<rparr>) (rollouts db)\<rparr>"

definition rollout_status_of :: "string \<Rightarrow> rollout_db \<Rightarrow> rollout_status option" where
  "rollout_status_of rid db = map_option r_status (lookup_row r_id rid (rollouts db))"

definition completePlatformUpdateRolloutWithoutMutationTx ::
  "time \<Rightarrow> string \<Rightarrow> rollout_status \<Rightarrow> rollout_db \<Rightarrow> update_error + bool \<times> rollout_db" where
  "completePlatformUpdateRolloutWithoutMutationTx now rid st db =
     (if rollout_unfinished rid db then Inr (False, db)
      else
        let db1 = (if st = R_pending then start_rollout now rid db else db);
            db2 = completePlatformUpdateRolloutIfFinishedTx now rid db1
        in if st = R_pending \<and> rollout_status_of rid db \<noteq> Some R_pending
           then Inl (ErrText ''no-op rollout start lost durable ownership'')
           else case rollout_status_of rid db2 of
             None \<Rightarrow> Inl ErrNoRows
           | Some cur \<Rightarrow>
               if cur \<noteq> R_succeeded then Inl (ErrText ''finished no-op rollout did not terminalize'')
               else Inr (True, db2))"

definition failPlatformUpdateRolloutTx :: "time \<Rightarrow> string \<Rightarrow> string \<Rightarrow> rollout_db \<Rightarrow> rollout_db" where
  "failPlatformUpdateRolloutTx now rid code db =
     db\<lparr>rollouts := update_where (\<lambda>r. r_id r = rid \<and> r_status r \<in> {R_pending, R_running})
          (\<lambda>r. r\<lparr>r_status := R_failed, r_error := Some code,
                 r_started := (case r_started r of None \<Rightarrow> Some now | Some t \<Rightarrow> Some t),
                 r_completed := Some now\<rparr>) (rollouts db)\<rparr>"

definition isPlatformUpdateAdmissionRejection :: "update_error \<Rightarrow> bool" where
  "isPlatformUpdateAdmissionRejection e \<longleftrightarrow> e = ErrNoRows \<or> e = UniqueViolation"

text \<open>The replay query: the updating entry of the rollout, joined with its job.\<close>

definition updating_entry :: "string \<Rightarrow> rollout_db \<Rightarrow> entry_row option" where
  "updating_entry rid db = least_by en_position (select (\<lambda>e. en_status e = E_updating) (entries_of rid db))"

definition bound_job :: "entry_row \<Rightarrow> rollout_db \<Rightarrow> job_row option" where
  "bound_job e db = Option.bind (en_job e) (\<lambda>j. lookup_row j_id j (jobs db))"

definition replay_job :: "string \<Rightarrow> rollout_db \<Rightarrow> job_row option" where
  "replay_job rid db =
     Option.bind
       (least_by en_position
          (select (\<lambda>e. en_status e = E_updating \<and> bound_job e db \<noteq> None) (entries_of rid db)))
       (\<lambda>e. bound_job e db)"

definition prior_unproven :: "rollout_db \<Rightarrow> entry_row \<Rightarrow> bool" where
  "prior_unproven db e \<longleftrightarrow>
     (\<exists>p \<in> set (entries_of (en_rollout e) db).
        en_position p < en_position e \<and> en_status p \<notin> {E_healthy, E_skipped})"

definition next_entry :: "string \<Rightarrow> rollout_db \<Rightarrow> entry_row option" where
  "next_entry rid db =
     least_by en_position
       (select (\<lambda>e. en_status e \<in> {E_queued, E_waiting} \<and> en_job e = None \<and> \<not> prior_unproven db e)
          (entries_of rid db))"

definition unbound_entry :: "string \<Rightarrow> entry_row \<Rightarrow> bool" where
  "unbound_entry eid e \<longleftrightarrow> en_id e = eid \<and> en_status e \<in> {E_queued, E_waiting} \<and> en_job e = None"

definition bind_entry :: "string \<Rightarrow> string \<Rightarrow> rollout_db \<Rightarrow> rollout_db" where
  "bind_entry eid jid db =
     db\<lparr>entries := update_where (unbound_entry eid)
          (\<lambda>e. e\<lparr>en_status := E_updating, en_job := Some jid\<rparr>) (entries db)\<rparr>"

definition admission_failed ::
  "time \<Rightarrow> string \<Rightarrow> string \<Rightarrow> string \<Rightarrow> rollout_db \<Rightarrow> (update_error, 'a, rollout_db) outcome" where
  "admission_failed now rid code reason db =
     Commit (Inl (ErrPlatformUpdateRolloutAdmissionFailed reason)) (failPlatformUpdateRolloutTx now rid code db)"

text \<open>From the selected entry on: the history watermark, the single-node admission inside a
  savepoint, and the binding of the job.\<close>

definition admit_entry ::
  "time \<Rightarrow> string \<Rightarrow> string \<Rightarrow> string \<Rightarrow> entry_row \<Rightarrow> rollout_db
     \<Rightarrow> (update_error, job_row \<times> bool, rollout_db) outcome" where
  "admit_entry now nid rid target e db =
     (if canonicalPlatformUpdateServerID (en_server e) \<noteq> Inr (en_server e)
      then Abort (ErrText ''persisted rollout server identity is not canonical'')
      else if \<not> validPlatformUpdateTargetVersion target
      then Abort (ErrText ''persisted rollout target version is invalid'')
      else if en_observed e \<noteq> Some (count_jobs (en_server e) db)
      then admission_failed now rid ''admission_rejected'' ''rollout update history changed after snapshot'' db
      else case createPlatformUpdateJobTx nid now (en_server e) target db of
        Inl er \<Rightarrow>
          if \<not> isPlatformUpdateAdmissionRejection er then Abort er
          else admission_failed now rid ''admission_rejected''
                 ''current single-node admission rejected rollout entry'' db
      | Inr (job, db1) \<Rightarrow>
          if rows_affected (unbound_entry (en_id e)) (entries db1) \<noteq> 1
          then Abort (ErrText ''rollout entry admission lost durable ownership'')
          else Commit (Inr (job, False)) (bind_entry (en_id e) (j_id job) db1))"

definition admit_next ::
  "time \<Rightarrow> string \<Rightarrow> string \<Rightarrow> string \<Rightarrow> rollout_db
     \<Rightarrow> (update_error, job_row \<times> bool, rollout_db) outcome" where
  "admit_next now nid rid target db =
     (if \<exists>e \<in> set (entries_of rid db). en_status e \<in> {E_failed, E_outcome_unknown}
      then Abort (ErrText ''rollout contains a terminal stop entry'')
      else case next_entry rid db of
        None \<Rightarrow>
          (case completePlatformUpdateRolloutWithoutMutationTx now rid R_running db of
             Inl e \<Rightarrow> Abort e
           | Inr (True, db1) \<Rightarrow> Commit (Inl ErrPlatformUpdateRolloutComplete) db1
           | Inr (False, _) \<Rightarrow>
               Abort (ErrText ''rollout has no admissible next entry; post-update health has not been proven''))
      | Some e \<Rightarrow> admit_entry now nid rid target e db)"

definition admit_body ::
  "build_info \<Rightarrow> time \<Rightarrow> string \<Rightarrow> string \<Rightarrow> rollout_db
     \<Rightarrow> (update_error, job_row \<times> bool, rollout_db) outcome" where
  "admit_body b now nid rid db =
     (case lookup_row r_id rid (rollouts db) of
        None \<Rightarrow> Abort ErrNoRows
      | Some r \<Rightarrow>
          if r_status r \<notin> {R_pending, R_running}
          then Abort (ErrPlatformUpdateRolloutNotMutationRunnable [])
          else case (if r_status r = R_running then replay_job rid db else None) of
            Some job \<Rightarrow> Commit (Inr (job, True)) db
          | None \<Rightarrow>
            (case completePlatformUpdateRolloutWithoutMutationTx now rid (r_status r) db of
               Inl e \<Rightarrow> Abort e
             | Inr (True, db1) \<Rightarrow> Commit (Inl ErrPlatformUpdateRolloutComplete) db1
             | Inr (False, _) \<Rightarrow>
                 if b_version b \<noteq> r_target r
                 then admission_failed now rid ''manager_version_mismatch''
                        ''rollout target no longer matches current Manager version'' db
                 else admit_next now nid rid (r_target r)
                        (if r_status r = R_pending then start_rollout now rid db else db)))"

definition admitPlatformUpdateRolloutMutation ::
  "commit_fate \<Rightarrow> build_info \<Rightarrow> time \<Rightarrow> string \<Rightarrow> string \<Rightarrow> rollout_db
     \<Rightarrow> (update_error + job_row \<times> bool) \<times> rollout_db" where
  "admitPlatformUpdateRolloutMutation fate b now nid raw db =
     (case canonicalPlatformUpdateServerID raw of
        Inl e \<Rightarrow> (Inl e, db)
      | Inr rid \<Rightarrow> run_tx CommitError fate (admit_body b now nid rid db) db)"

section \<open>Post-update health\<close>

record health_result =
  h_rollout :: rollout_status
  h_entry :: "entry_status option"
  h_waiting :: string
  h_server :: string
  h_job :: string
  h_error :: string
  h_blocker :: string

definition health_wait :: "string \<Rightarrow> string \<Rightarrow> string \<Rightarrow> health_result" where
  "health_wait reason srv job =
     \<lparr>h_rollout = R_running, h_entry = Some E_updating, h_waiting = reason, h_server = srv,
      h_job = job, h_error = [], h_blocker = []\<rparr>"

definition updating_row :: "string \<Rightarrow> entry_row \<Rightarrow> bool" where
  "updating_row eid e \<longleftrightarrow> en_id e = eid \<and> en_status e = E_updating"

definition running_row :: "string \<Rightarrow> rollout_row \<Rightarrow> bool" where
  "running_row rid r \<longleftrightarrow> r_id r = rid \<and> r_status r = R_running"

definition stop_entry :: "time \<Rightarrow> string \<Rightarrow> entry_status \<Rightarrow> string \<Rightarrow> rollout_db \<Rightarrow> rollout_db" where
  "stop_entry now eid st code db =
     db\<lparr>entries := update_where (updating_row eid)
          (\<lambda>e. e\<lparr>en_status := st, en_blocker := Some code, en_completed := Some now\<rparr>) (entries db)\<rparr>"

definition stop_rollout :: "time \<Rightarrow> string \<Rightarrow> rollout_status \<Rightarrow> string \<Rightarrow> rollout_db \<Rightarrow> rollout_db" where
  "stop_rollout now rid st code db =
     db\<lparr>rollouts := update_where (running_row rid)
          (\<lambda>r. r\<lparr>r_status := st, r_error := Some code, r_completed := Some now\<rparr>) (rollouts db)\<rparr>"

definition terminalizePlatformUpdateRolloutHealthTx ::
  "time \<Rightarrow> string \<Rightarrow> entry_row \<Rightarrow> string \<Rightarrow> bool \<Rightarrow> string \<Rightarrow> rollout_db
     \<Rightarrow> (update_error, health_result, rollout_db) outcome" where
  "terminalizePlatformUpdateRolloutHealthTx now rid e job unknown code db =
     (let es = (if unknown then E_outcome_unknown else E_failed);
          rs = (if unknown then R_outcome_unknown else R_failed)
      in if rows_affected (updating_row (en_id e)) (entries db) \<noteq> 1
         then Abort (ErrText ''rollout terminal health transition lost durable ownership'')
         else if rows_affected (running_row rid) (rollouts db) \<noteq> 1
         then Abort (ErrText ''rollout terminalization lost durable ownership'')
         else Commit (Inr \<lparr>h_rollout = rs, h_entry = Some es, h_waiting = [], h_server = en_server e,
                      h_job = job, h_error = code, h_blocker = code\<rparr>)
           (stop_rollout now rid rs code (stop_entry now (en_id e) es code db)))"

definition mark_healthy :: "time \<Rightarrow> string \<Rightarrow> rollout_db \<Rightarrow> rollout_db" where
  "mark_healthy now eid db =
     db\<lparr>entries := update_where (updating_row eid)
          (\<lambda>e. e\<lparr>en_status := E_healthy, en_blocker := None, en_completed := Some now\<rparr>) (entries db)\<rparr>"

text \<open>The heartbeat condition and the agent condition of the proof, negated as the code writes them.\<close>

definition heartbeat_unproven :: "time \<Rightarrow> agent_row \<Rightarrow> time \<Rightarrow> bool" where
  "heartbeat_unproven proofNow a completed =
     (case (a_hb_at a, a_hb_gen a) of
        (Some at', Some gen) \<Rightarrow>
          gen \<noteq> a_cred_gen a \<or> \<not> completed < at' \<or> proofNow < at' \<or> minutes 2 < proofNow - at'
      | _ \<Rightarrow> True)"

definition agent_unproven :: "build_info \<Rightarrow> agent_row \<Rightarrow> string \<Rightarrow> bool" where
  "agent_unproven b a target \<longleftrightarrow>
     a_status a \<noteq> ''online'' \<or> a_version a \<noteq> target
     \<or> \<not> compat_ok (EvaluateCompatibility b (a_version a) (a_protocol a))"

text \<open>The row trigger \<open>enforce_platform_update_rollout_entry_transition\<close> of migration 000143 proves the health
  of a row once more when it becomes healthy, at the time \<open>proof_now\<close> the trigger reads, for the protocol
  versions from 1 to 1.  The result is the exception it raises.\<close>

definition healthy_write_refused :: "time \<Rightarrow> entry_row \<Rightarrow> rollout_db \<Rightarrow> string option" where
  "healthy_write_refused proof_now e db =
     (if en_job e = None \<or> en_observed e = None
      then Some ''healthy proof requires immutable bound job and history watermark''
      else if \<not> list_ex (\<lambda>r. r_id r = en_rollout e \<and> r_target r = en_target e \<and> r_status r = R_running) (rollouts db)
      then Some ''healthy proof requires running parent''
      else case find (\<lambda>j. Some (j_id j) = en_job e \<and> j_server j = en_server e \<and> j_target j = en_target e) (jobs db) of
        None \<Rightarrow> Some ''healthy proof requires succeeded exact bound job''
      | Some j \<Rightarrow>
        (case (j_status j, j_completed j) of
           (J_succeeded, Some completed) \<Rightarrow>
             if map_option (\<lambda>n. n + 1) (en_observed e) \<noteq> Some (count_jobs (en_server e) db)
             then Some ''healthy proof invalidated by intervening update history''
             else if has_unresolved_job (en_server e) db
             then Some ''healthy proof blocked by unresolved update outcome''
             else (case find (\<lambda>a. a_id a = j_agent j \<and> a_server a = en_server e) (agents db) of
                None \<Rightarrow> Some ''healthy proof requires current bound Agent''
              | Some a \<Rightarrow>
                  if heartbeat_unproven proof_now a completed
                  then Some ''healthy proof requires fresh post-completion authenticated heartbeat''
                  else if a_status a \<noteq> ''online'' \<or> a_version a \<noteq> en_target e
                  then Some ''healthy proof requires online Agent at target version''
                  else (case a_protocol a of
                     None \<Rightarrow> Some ''healthy proof requires Manager-compatible Agent protocol''
                   | Some p \<Rightarrow>
                       if p < 1 \<or> 1 < p then Some ''healthy proof requires Manager-compatible Agent protocol'' else None))
         | _ \<Rightarrow> Some ''healthy proof requires succeeded exact bound job''))"

text \<open>The decision after the bound job was read as succeeded.  \<open>now\<close> is the time the transaction proves the
  health at, \<open>wr\<close> the time the trigger and the last writes read; it is the trigger's time that becomes the
  completion time of the row.\<close>

definition prove_health ::
  "build_info \<Rightarrow> time \<Rightarrow> time \<Rightarrow> rollout_row \<Rightarrow> entry_row \<Rightarrow> job_row \<Rightarrow> agent_row \<Rightarrow> rollout_db
     \<Rightarrow> (update_error, health_result, rollout_db) outcome" where
  "prove_health b now wr r e j a db =
     (case j_completed j of
        None \<Rightarrow> Abort (ErrText ''succeeded rollout job has no completion timestamp'')
      | Some completed \<Rightarrow>
          if map_option (\<lambda>n. n + 1) (en_observed e) \<noteq> Some (count_jobs (en_server e) db)
          then terminalizePlatformUpdateRolloutHealthTx now (r_id r) e (j_id j) False ''intervening_update_history'' db
          else if has_unresolved_job (en_server e) db
          then Commit (Inr (health_wait ''job_not_terminal'' (en_server e) (j_id j))) db
          else if heartbeat_unproven now a completed
          then Commit (Inr (health_wait ''heartbeat_not_proven'' (en_server e) (j_id j))) db
          else if agent_unproven b a (r_target r)
          then Commit (Inr (health_wait ''agent_not_currently_healthy'' (en_server e) (j_id j))) db
          else if rows_affected (updating_row (en_id e)) (entries db) \<noteq> 1
          then Abort (ErrText ''rollout health proof lost durable ownership'')
          else (case healthy_write_refused wr e db of
            Some raised \<Rightarrow> Abort (ErrText raised)
          | None \<Rightarrow>
            let db1 = completePlatformUpdateRolloutIfFinishedTx wr (r_id r) (mark_healthy wr (en_id e) db)
            in case rollout_status_of (r_id r) db1 of
                 None \<Rightarrow> Abort ErrNoRows
               | Some st \<Rightarrow>
                   Commit (Inr \<lparr>h_rollout = st, h_entry = Some E_healthy, h_waiting = [],
                            h_server = en_server e, h_job = j_id j, h_error = [], h_blocker = []\<rparr>) db1))"

definition reconcile_entry ::
  "build_info \<Rightarrow> time \<Rightarrow> time \<Rightarrow> rollout_row \<Rightarrow> entry_row \<Rightarrow> rollout_db
     \<Rightarrow> (update_error, health_result, rollout_db) outcome" where
  "reconcile_entry b now wr r e db =
     (if canonicalPlatformUpdateServerID (en_server e) \<noteq> Inr (en_server e)
      then Abort (ErrText ''persisted rollout server identity is not canonical'')
      else case find (\<lambda>j. Some (j_id j) = en_job e \<and> j_server j = en_server e \<and> j_target j = r_target r)
                  (jobs db) of
        None \<Rightarrow> Abort (ErrText ''read bound rollout job identity'')
      | Some j \<Rightarrow>
        (case find (\<lambda>a. a_id a = j_agent j \<and> a_server a = en_server e) (agents db) of
           None \<Rightarrow> Abort (ErrText ''lock current rollout Agent'')
         | Some a \<Rightarrow>
           (case j_status j of
              J_failed \<Rightarrow>
                terminalizePlatformUpdateRolloutHealthTx now (r_id r) e (j_id j) False ''node_update_failed'' db
            | J_outcome_unknown \<Rightarrow>
                terminalizePlatformUpdateRolloutHealthTx now (r_id r) e (j_id j) True ''node_update_outcome_unknown'' db
            | J_succeeded \<Rightarrow> prove_health b now wr r e j a db
            | _ \<Rightarrow> Commit (Inr (health_wait ''job_not_terminal'' (en_server e) (j_id j))) db)))"

definition reconcile_body ::
  "build_info \<Rightarrow> time \<Rightarrow> time \<Rightarrow> string \<Rightarrow> rollout_db \<Rightarrow> (update_error, health_result, rollout_db) outcome" where
  "reconcile_body b now wr rid db =
     (case lookup_row r_id rid (rollouts db) of
        None \<Rightarrow> Abort ErrNoRows
      | Some r \<Rightarrow>
          if r_status r \<noteq> R_running
          then Commit (Inr \<lparr>h_rollout = r_status r, h_entry = None, h_waiting = [], h_server = [], h_job = [],
                       h_error = (case r_error r of None \<Rightarrow> [] | Some c \<Rightarrow> c),
                       h_blocker =
                         (case least_by en_position
                                 (select (\<lambda>e. en_status e \<in> {E_failed, E_outcome_unknown}) (entries_of rid db)) of
                            None \<Rightarrow> []
                          | Some e \<Rightarrow> (case en_blocker e of None \<Rightarrow> [] | Some c \<Rightarrow> c))\<rparr>) db
          else case updating_entry rid db of
            None \<Rightarrow>
              (let db1 = completePlatformUpdateRolloutIfFinishedTx now rid db in
               case rollout_status_of rid db1 of
                 None \<Rightarrow> Abort ErrNoRows
               | Some st \<Rightarrow>
                   Commit (Inr \<lparr>h_rollout = st, h_entry = None, h_waiting = [], h_server = [], h_job = [],
                            h_error = [], h_blocker = []\<rparr>) db1)
          | Some e \<Rightarrow> reconcile_entry b now wr r e db)"

definition ReconcilePlatformUpdateRolloutHealth ::
  "commit_fate \<Rightarrow> build_info \<Rightarrow> time \<Rightarrow> time \<Rightarrow> string \<Rightarrow> rollout_db
     \<Rightarrow> (update_error + health_result) \<times> rollout_db" where
  "ReconcilePlatformUpdateRolloutHealth fate b now wr raw db =
     (case canonicalPlatformUpdateServerID raw of
        Inl e \<Rightarrow> (Inl e, db)
      | Inr rid \<Rightarrow> run_tx CommitError fate (reconcile_body b now wr rid db) db)"

section \<open>The controller\<close>

datatype step_action = MutationAdmitted | MutationInProgress | WaitingHealth | NodeHealthy
  | RolloutSucceeded | RolloutFailed | OutcomeUnknown | NoChange

record step_result =
  sr_rollout :: string
  sr_status :: rollout_status
  sr_server :: string
  sr_job :: string
  sr_action :: step_action
  sr_waiting :: string
  sr_error :: string
  sr_blocker :: string

record step_state =
  ss_status :: rollout_status
  ss_server :: string
  ss_job :: string
  ss_error :: string
  ss_blocker :: string

definition coalesce :: "string option \<Rightarrow> string" where
  "coalesce o' = (case o' of None \<Rightarrow> [] | Some v \<Rightarrow> v)"

definition inspectPlatformUpdateRolloutStepState :: "string \<Rightarrow> rollout_db \<Rightarrow> update_error + step_state" where
  "inspectPlatformUpdateRolloutStepState rid db =
     (case lookup_row r_id rid (rollouts db) of
        None \<Rightarrow> Inl ErrNoRows
      | Some r \<Rightarrow>
          let eo = least_by en_position
                     (select (\<lambda>e. en_status e \<in> {E_updating, E_failed, E_outcome_unknown}) (entries_of rid db))
          in Inr \<lparr>ss_status = r_status r, ss_server = coalesce (map_option en_server eo),
                  ss_job = coalesce (Option.bind eo en_job), ss_error = coalesce (r_error r),
                  ss_blocker = coalesce (Option.bind eo en_blocker)\<rparr>)"

definition terminalPlatformUpdateRolloutStepResult :: "string \<Rightarrow> step_state \<Rightarrow> step_result option" where
  "terminalPlatformUpdateRolloutStepResult rid s =
     (let res = (\<lambda>a. Some \<lparr>sr_rollout = rid, sr_status = ss_status s, sr_server = ss_server s,
                   sr_job = ss_job s, sr_action = a, sr_waiting = [], sr_error = ss_error s,
                   sr_blocker = ss_blocker s\<rparr>)
      in case ss_status s of
           R_succeeded \<Rightarrow> res RolloutSucceeded
         | R_failed \<Rightarrow> res RolloutFailed
         | R_outcome_unknown \<Rightarrow> res OutcomeUnknown
         | _ \<Rightarrow> None)"

definition platformUpdateRolloutStepActionFromHealth :: "health_result \<Rightarrow> step_action" where
  "platformUpdateRolloutStepActionFromHealth h =
     (case h_rollout h of
        R_succeeded \<Rightarrow> RolloutSucceeded
      | R_failed \<Rightarrow> RolloutFailed
      | R_outcome_unknown \<Rightarrow> OutcomeUnknown
      | _ \<Rightarrow>
          (case h_entry h of
             Some E_healthy \<Rightarrow> NodeHealthy
           | Some E_failed \<Rightarrow> RolloutFailed
           | Some E_outcome_unknown \<Rightarrow> OutcomeUnknown
           | Some E_updating \<Rightarrow> WaitingHealth
           | _ \<Rightarrow> NoChange))"

definition shouldNormalizePlatformUpdateRolloutAdmissionError :: "update_error \<Rightarrow> bool" where
  "shouldNormalizePlatformUpdateRolloutAdmissionError e =
     (case e of
        ErrPlatformUpdateRolloutComplete \<Rightarrow> True
      | ErrPlatformUpdateRolloutNotMutationRunnable _ \<Rightarrow> True
      | ErrPlatformUpdateRolloutAdmissionFailed _ \<Rightarrow> True
      | _ \<Rightarrow> False)"

definition normalizePlatformUpdateRolloutTerminalRace :: "string \<Rightarrow> rollout_db \<Rightarrow> step_result option" where
  "normalizePlatformUpdateRolloutTerminalRace rid db =
     (case inspectPlatformUpdateRolloutStepState rid db of
        Inl _ \<Rightarrow> None
      | Inr s \<Rightarrow> terminalPlatformUpdateRolloutStepResult rid s)"

definition health_step_result :: "string \<Rightarrow> health_result \<Rightarrow> step_result" where
  "health_step_result rid h =
     \<lparr>sr_rollout = rid, sr_status = h_rollout h, sr_server = h_server h, sr_job = h_job h,
      sr_action = platformUpdateRolloutStepActionFromHealth h, sr_waiting = h_waiting h,
      sr_error = h_error h, sr_blocker = h_blocker h\<rparr>"

text \<open>\<open>AdvancePlatformUpdateRollout\<close>: \<open>db0\<close> is the database of the first inspection, \<open>db\<close> the one in
  which the health or admission transaction runs (other invocations may commit in between), and the
  terminal-race inspection reads the database after that transaction.\<close>

definition AdvancePlatformUpdateRollout ::
  "commit_fate \<Rightarrow> build_info \<Rightarrow> time \<Rightarrow> time \<Rightarrow> string \<Rightarrow> string \<Rightarrow> rollout_db \<Rightarrow> rollout_db
     \<Rightarrow> (update_error + step_result) \<times> rollout_db" where
  "AdvancePlatformUpdateRollout fate b now wr nid raw db0 db =
     (case canonicalPlatformUpdateServerID raw of
        Inl e \<Rightarrow> (Inl e, db)
      | Inr rid \<Rightarrow>
        (case inspectPlatformUpdateRolloutStepState rid db0 of
           Inl e \<Rightarrow> (Inl e, db)
         | Inr s \<Rightarrow>
           (case terminalPlatformUpdateRolloutStepResult rid s of
              Some res \<Rightarrow> (Inr res, db)
            | None \<Rightarrow>
                if ss_status s = R_running \<and> ss_job s \<noteq> []
                then (case ReconcilePlatformUpdateRolloutHealth fate b now wr rid db of
                        (Inl e, db') \<Rightarrow> (Inl e, db')
                      | (Inr h, db') \<Rightarrow> (Inr (health_step_result rid h), db'))
                else (case admitPlatformUpdateRolloutMutation fate b now nid rid db of
                        (Inr (job, replayed), db') \<Rightarrow>
                          (Inr \<lparr>sr_rollout = rid, sr_status = R_running, sr_server = j_server job,
                             sr_job = j_id job,
                             sr_action = (if replayed then MutationInProgress else MutationAdmitted),
                             sr_waiting = [], sr_error = [], sr_blocker = []\<rparr>, db')
                      | (Inl e, db') \<Rightarrow>
                          (if shouldNormalizePlatformUpdateRolloutAdmissionError e
                           then (case normalizePlatformUpdateRolloutTerminalRace rid db' of
                                   Some res \<Rightarrow> (Inr res, db')
                                 | None \<Rightarrow> (Inl e, db'))
                           else (Inl e, db'))))))"

end
