(* ===== verification/Rollout_Safety.thy ===== *)
theory Rollout_Safety
  imports Rollout
begin

text \<open>
  What the rollout machinery of \<open>Rollout\<close> guarantees: executions, the invariant of the rollout
  tables and its preservation statement by statement, the transition contracts as forward-only
  tables, and the properties: order and single mutation, write-once history, health only on proof,
  soundness and idempotence of admission, planning, idempotent creation and progress.
\<close>

section \<open>Executions\<close>

text \<open>An execution of the Manager: creations, controller steps and operations on single jobs in any
  order, with any fate of each commit and any change of the inventory.  A creation and a controller
  step read earlier states of the database before their transaction: \<open>db0\<close> is any of them.\<close>

lemma job_frames [simp]:
  "jobs_db.more (snd (update_job job agent P f db)) = jobs_db.more db"
  "jobs_db.more (snd (complete_op now c agent msg db)) = jobs_db.more db"
  by (simp_all add: update_job_def complete_op_def Let_def split: option.split)

lemma complete_frames [simp]:
  "jobs_db.more (snd (completeInProgressPlatformUpdate now c agent target msg db)) = jobs_db.more db"
  "jobs_db.more (snd (completeDispatchedPlatformUpdate now c agent target msg db)) = jobs_db.more db"
  unfolding completeInProgressPlatformUpdate_def completeDispatchedPlatformUpdate_def
  by (simp_all split: option.split sum.split)

lemma complete_frame [simp]:
  "jobs_db.more (snd (CompleteAgentOperationTask now c db)) = jobs_db.more db"
  by (simp add: CompleteAgentOperationTask_def Let_def split: option.split)

lemma createTx_frame:
  "createPlatformUpdateJobTx nid now srv target db = Inr (j, db') \<Longrightarrow> jobs_db.more db' = jobs_db.more db"
  by (elim createPlatformUpdateJobTx_Inr) simp

lemma claim_frame:
  "claim_body locked now token db = Commit r db' \<Longrightarrow> jobs_db.more db' = jobs_db.more db"
  by (auto simp: claim_body_def split: option.splits if_splits)

lemma job_exec_frame: "jobs_db.more (snd (job_exec e db)) = jobs_db.more db"
proof (cases e)
  case (Ev_create fate nid now raw target)
  have "jobs_db.more (snd (run_tx CommitError fate
      (case createPlatformUpdateJobTx nid now srv target db of
         Inl e \<Rightarrow> Abort e | Inr (j, db') \<Rightarrow> Commit (Inr j) db') db)) = jobs_db.more db" for srv
    by (rule run_tx_invariant) (auto split: sum.splits prod.splits intro: createTx_frame)
  with Ev_create show ?thesis by (simp add: CreatePlatformUpdateJob_def split: sum.split)
next
  case (Ev_claim fate locked now token)
  have "jobs_db.more (snd (ClaimNextAgentOperationTask fate locked now token db)) = jobs_db.more db"
    unfolding ClaimNextAgentOperationTask_def by (rule run_tx_invariant) (auto dest: claim_frame)
  with Ev_claim show ?thesis by (simp only: job_exec_claim)
qed simp_all

lemma rollouts_more:
  assumes "jobs_db.more db' = jobs_db.more (db :: rollout_db)"
  shows "rollouts db' = rollouts db" "entries db' = entries db"
  using assms by (cases db, cases db', simp)+


datatype rollout_event =
    Ev_job job_event
  | Ev_persist commit_fate build_info "string \<Rightarrow> agent_row option" time string "nat \<Rightarrow> string"
      plan string string rollout_db
  | Ev_admit commit_fate build_info time string string
  | Ev_health commit_fate build_info time time string
  | Ev_advance commit_fate build_info time time string string rollout_db

fun rollout_exec :: "rollout_event \<Rightarrow> rollout_db \<Rightarrow> rollout_db" where
  "rollout_exec (Ev_job e) db = snd (job_exec e db)"
| "rollout_exec (Ev_persist fate b late now rid eid pl key hash db0) db =
     snd (persistPlatformUpdateRolloutPlan fate b late now rid eid pl key hash db0 db)"
| "rollout_exec (Ev_admit fate b now nid raw) db =
     snd (admitPlatformUpdateRolloutMutation fate b now nid raw db)"
| "rollout_exec (Ev_health fate b now wr raw) db =
     snd (ReconcilePlatformUpdateRolloutHealth fate b now wr raw db)"
| "rollout_exec (Ev_advance fate b now wr nid raw db0) db =
     snd (AdvancePlatformUpdateRollout fate b now wr nid raw db0 db)"

definition rollout_run :: "rollout_event list \<Rightarrow> rollout_db \<Rightarrow> rollout_db" where
  "rollout_run es db = fold rollout_exec es db"

section \<open>Invariant of the rollout tables\<close>

text \<open>The entry and the rollout it belongs to: the statuses an entry may have in each status of its
  rollout, and the constraint of migration 145 on the job reference.\<close>

definition entry_ok :: "rollout_row \<Rightarrow> entry_row \<Rightarrow> bool" where
  "entry_ok r e \<longleftrightarrow>
     en_target e = r_target r
     \<and> (en_job e = None \<longleftrightarrow> en_status e \<in> {E_queued, E_waiting, E_skipped})
     \<and> (case r_status r of
          R_pending \<Rightarrow> en_status e \<in> {E_queued, E_skipped}
        | R_running \<Rightarrow> en_status e \<notin> {E_failed, E_outcome_unknown}
        | R_succeeded \<Rightarrow> en_status e \<in> {E_healthy, E_skipped}
        | R_failed \<Rightarrow> en_status e \<notin> {E_updating, E_outcome_unknown}
        | R_outcome_unknown \<Rightarrow> en_status e \<notin> {E_updating, E_failed})"

definition started :: "entry_row \<Rightarrow> bool" where
  "started e \<longleftrightarrow> en_status e \<in> {E_updating, E_healthy, E_failed, E_outcome_unknown}"

definition in_order :: "entry_row table \<Rightarrow> bool" where
  "in_order t \<longleftrightarrow>
     (\<forall>e \<in> set t. \<forall>f \<in> set t. en_rollout e = en_rollout f \<and> en_position e < en_position f \<and> started f
        \<longrightarrow> en_status e \<in> {E_healthy, E_skipped})"

definition binds :: "job_row \<Rightarrow> entry_row \<Rightarrow> bool" where
  "binds j e \<longleftrightarrow> en_job e = Some (j_id j) \<and> j_server j = en_server e \<and> j_target j = en_target e"

definition linked :: "rollout_row table \<Rightarrow> entry_row table \<Rightarrow> bool" where
  "linked R E \<longleftrightarrow>
     (\<forall>e \<in> set E. (\<exists>r \<in> set R. r_id r = en_rollout e) \<and> (\<forall>r \<in> set R. r_id r = en_rollout e \<longrightarrow> entry_ok r e))"

definition bound :: "job_row table \<Rightarrow> entry_row table \<Rightarrow> bool" where
  "bound J E \<longleftrightarrow>
     (\<forall>e \<in> set E. en_job e \<noteq> None \<longrightarrow> (\<exists>j \<in> set J. binds j e))
     \<and> inj_on en_job {e \<in> set E. en_job e \<noteq> None}"

definition rollout_inv :: "rollout_db \<Rightarrow> bool" where
  "rollout_inv db \<longleftrightarrow>
     jobs_inv (jobs db)
     \<and> distinct (map r_id (rollouts db)) \<and> distinct (map en_id (entries db))
     \<and> distinct (map (\<lambda>e. (en_rollout e, en_position e)) (entries db))
     \<and> linked (rollouts db) (entries db) \<and> in_order (entries db) \<and> bound (jobs db) (entries db)"

lemma rollout_invD:
  assumes "rollout_inv db"
  shows "jobs_inv (jobs db)" "distinct (map r_id (rollouts db))" "distinct (map en_id (entries db))"
    "distinct (map (\<lambda>e. (en_rollout e, en_position e)) (entries db))"
    "linked (rollouts db) (entries db)" "in_order (entries db)" "bound (jobs db) (entries db)"
  using assms unfolding rollout_inv_def by blast+

lemma linkedD: "linked R E \<Longrightarrow> e \<in> set E \<Longrightarrow> r \<in> set R \<Longrightarrow> r_id r = en_rollout e \<Longrightarrow> entry_ok r e"
  by (simp add: linked_def)

lemma jobs_step_binds:
  assumes "jobs_step now t t'" "j \<in> set t" "binds j e"
  shows "\<exists>j' \<in> set t'. binds j' e"
  using assms
proof (induction rule: jobs_step.induct)
  case (advance t t')
  from advance.hyps advance.prems(1) obtain j' where j': "j' \<in> set t'" "j' = j \<or> job_advance now j j'"
    by (rule evolves_set_forward)
  then have "job_key j' = job_key j" using job_table.adv_key by blast
  with advance.prems(2) j'(1) show ?case by (auto simp: binds_def intro!: bexI [of _ j'])
qed auto

lemma jobs_step_bound: "jobs_step now t t' \<Longrightarrow> bound t E \<Longrightarrow> bound t' E"
  unfolding bound_def by (blast intro: jobs_step_binds)

lemma rollout_inv_jobs:
  assumes "rollout_inv db" "jobs_step now (jobs db) (jobs db')"
    "rollouts db' = rollouts db" "entries db' = entries db"
  shows "rollout_inv db'"
  using rollout_invD [OF assms(1)] jobs_step_inv [OF assms(2)] jobs_step_bound [OF assms(2)] assms(3,4)
  by (simp add: rollout_inv_def)

lemma rollout_inv_job_event:
  assumes "rollout_inv db"
  shows "rollout_inv (snd (job_exec e db))"
proof -
  have "distinct (map j_id (jobs db))"
    using rollout_invD(1) [OF assms] by (simp add: jobs_inv_def)
  then obtain now where "jobs_step now (jobs db) (jobs (snd (job_exec e db)))"
    using job_exec_step by blast
  with assms show ?thesis
    by (rule rollout_inv_jobs) (simp_all add: rollouts_more [OF job_exec_frame])
qed

text \<open>A change of rollout rows only.\<close>

lemma linked_rollouts:
  assumes "linked R E" "\<And>r. r_id (f r) = r_id r"
    and "\<And>r e. r \<in> set R \<Longrightarrow> P r \<Longrightarrow> e \<in> set E \<Longrightarrow> r_id r = en_rollout e \<Longrightarrow>
        entry_ok r e \<Longrightarrow> entry_ok (f r) e"
  shows "linked (update_where P f R) E"
  unfolding linked_def
proof (intro ballI conjI impI)
  fix e assume e: "e \<in> set E"
  with assms(1) obtain r where "r \<in> set R" "r_id r = en_rollout e" by (auto simp: linked_def)
  then show "\<exists>r \<in> set (update_where P f R). r_id r = en_rollout e"
    using assms(2) by (intro bexI [of _ "if P r then f r else r"]) (auto simp: update_where_def)
  fix r' assume r': "r' \<in> set (update_where P f R)" "r_id r' = en_rollout e"
  from r'(1) show "entry_ok r' e"
  proof (cases rule: update_where_cases)
    case old
    with assms(1) e r'(2) show ?thesis by (blast intro: linkedD)
  next
    case (new s)
    with r'(2) assms(2) have "r_id s = en_rollout e" by simp
    with new assms(1) e assms(3) [of s e] show ?thesis by (blast intro: linkedD)
  qed
qed

lemma rollout_inv_rollouts:
  assumes "rollout_inv db" "\<And>r. r_id (f r) = r_id r"
    and "\<And>r e. r \<in> set (rollouts db) \<Longrightarrow> P r \<Longrightarrow> e \<in> set (entries db) \<Longrightarrow> r_id r = en_rollout e \<Longrightarrow>
        entry_ok r e \<Longrightarrow> entry_ok (f r) e"
  shows "rollout_inv (db\<lparr>rollouts := update_where P f (rollouts db)\<rparr>)"
proof -
  have "map r_id (update_where P f (rollouts db)) = map r_id (rollouts db)"
    using assms(2) by (rule map_update_where)
  moreover have "linked (update_where P f (rollouts db)) (entries db)"
    using rollout_invD(5) [OF assms(1)] assms(2,3) by (rule linked_rollouts)
  ultimately show ?thesis using rollout_invD [OF assms(1)] by (simp add: rollout_inv_def)
qed

text \<open>A change of the entry \<open>e\<close> only.\<close>

lemma in_order_insert:
  assumes "in_order t" "e \<in> set t" "set t' = insert e' (set t - {e})"
    and "en_rollout e' = en_rollout e" "en_position e' = en_position e"
    and "started e' \<Longrightarrow> (\<forall>p \<in> set t. en_rollout p = en_rollout e \<and> en_position p < en_position e
           \<longrightarrow> en_status p \<in> {E_healthy, E_skipped})"
    and "en_status e' \<notin> {E_healthy, E_skipped} \<Longrightarrow> en_status e \<notin> {E_healthy, E_skipped}"
  shows "in_order t'"
  unfolding in_order_def
proof (intro ballI impI)
  fix p q
  assume p: "p \<in> set t'" and q: "q \<in> set t'"
    and pq: "en_rollout p = en_rollout q \<and> en_position p < en_position q \<and> started q"
  have old: "en_status x \<in> {E_healthy, E_skipped}"
    if "x \<in> set t" "q \<in> set t" "en_rollout x = en_rollout q" "en_position x < en_position q" for x
    using assms(1) that pq unfolding in_order_def by blast
  consider "p = e'" "q = e'" | "p = e'" "q \<in> set t" | "p \<in> set t" "q = e'" | "p \<in> set t" "q \<in> set t"
    using p q assms(3) by blast
  then show "en_status p \<in> {E_healthy, E_skipped}"
  proof cases
    case 2
    with old [of e] pq assms(2,4,5,7) show ?thesis by auto
  next
    case 3
    with pq assms(4,5,6) show ?thesis by auto
  qed (use old pq in auto)
qed

lemma rollout_inv_both:
  assumes inv: "rollout_inv db" and e: "e \<in> set (entries db)" "P e" "\<And>s. P s \<Longrightarrow> en_id s = en_id e"
    and f: "\<And>x. en_id (f x) = en_id x" "\<And>x. en_rollout (f x) = en_rollout x"
      "\<And>x. en_position (f x) = en_position x"
    and R: "map r_id R = map r_id (rollouts db)"
    and ok: "\<And>r. r \<in> set R \<Longrightarrow> r_id r = en_rollout e \<Longrightarrow> entry_ok r (f e)"
      "\<And>r s. r \<in> set R \<Longrightarrow> s \<in> set (entries db) \<Longrightarrow> s \<noteq> e \<Longrightarrow> r_id r = en_rollout s \<Longrightarrow> entry_ok r s"
    and ord: "started (f e) \<Longrightarrow> (\<forall>p \<in> set (entries db). en_rollout p = en_rollout e \<and>
        en_position p < en_position e \<longrightarrow> en_status p \<in> {E_healthy, E_skipped})"
      "en_status (f e) \<notin> {E_healthy, E_skipped} \<Longrightarrow> en_status e \<notin> {E_healthy, E_skipped}"
    and job: "bound (jobs db) (update_where P f (entries db))"
  shows "rollout_inv (db\<lparr>entries := update_where P f (entries db), rollouts := R\<rparr>)"
proof -
  note D = rollout_invD [OF inv]
  let ?E = "update_where P f (entries db)"
  have set: "set ?E = insert (f e) (set (entries db) - {e})"
    using D(3) e(1,3,2) by (rule update_single)
  have "map en_id ?E = map en_id (entries db)"
    and "map (\<lambda>e. (en_rollout e, en_position e)) ?E = map (\<lambda>e. (en_rollout e, en_position e)) (entries db)"
    using f by (simp_all add: map_update_where)
  moreover have "r_id ` set R = r_id ` set (rollouts db)" using R by (metis set_map)
  then have ex: "\<exists>r \<in> set R. r_id r = en_rollout s" if "s \<in> set (entries db)" for s
    using D(5) that unfolding linked_def by (metis imageE imageI)
  have "linked R ?E"
    unfolding linked_def set
  proof (intro ballI conjI impI)
    fix s assume "s \<in> insert (f e) (set (entries db) - {e})"
    then consider "s = f e" | "s \<in> set (entries db)" "s \<noteq> e" by blast
    note cases = this
    show "\<exists>r \<in> set R. r_id r = en_rollout s"
      using cases by cases (use ex [OF e(1)] ex f(2) in auto)
    show "entry_ok r s" if "r \<in> set R" "r_id r = en_rollout s" for r
      using cases by cases (use ok that f(2) in auto)
  qed
  moreover have "in_order ?E"
    by (rule in_order_insert [OF D(6) e(1) set]) (use f ord in auto)
  ultimately show ?thesis using D R job by (simp add: rollout_inv_def)
qed

lemma entries_of_iff [simp]: "e \<in> set (entries_of rid db) \<longleftrightarrow> e \<in> set (entries db) \<and> en_rollout e = rid"
  by (auto simp: entries_of_def select_def)

lemma start_rollout_inv: "rollout_inv db \<Longrightarrow> rollout_inv (start_rollout now rid db)"
  unfolding start_rollout_def by (rule rollout_inv_rollouts) (auto simp: entry_ok_def)

lemma complete_rollout_inv:
  "rollout_inv db \<Longrightarrow> rollout_inv (completePlatformUpdateRolloutIfFinishedTx now rid db)"
  unfolding completePlatformUpdateRolloutIfFinishedTx_def rollout_unfinished_def
  by (auto intro!: rollout_inv_rollouts simp: entry_ok_def)

lemma fail_rollout_inv:
  assumes "rollout_inv db" "\<And>e. e \<in> set (entries_of rid db) \<Longrightarrow> en_status e \<noteq> E_updating"
  shows "rollout_inv (failPlatformUpdateRolloutTx now rid code db)"
  unfolding failPlatformUpdateRolloutTx_def using assms(1)
  by (rule rollout_inv_rollouts)
    (use assms(2) in \<open>auto simp: entry_ok_def split: rollout_status.splits\<close>)

lemma updating_unique:
  assumes "rollout_inv db" "e \<in> set (entries db)" "f \<in> set (entries db)" "en_rollout e = en_rollout f"
    "en_status e = E_updating" "en_status f = E_updating"
  shows "e = f"
proof -
  note D = rollout_invD [OF assms(1)]
  have "\<not> en_position e < en_position f" "\<not> en_position f < en_position e"
    using D(6) assms(2-) unfolding in_order_def started_def by fastforce+
  then have "(en_rollout e, en_position e) = (en_rollout f, en_position f)"
    using assms(4) by simp
  then show ?thesis using distinct_key_eq [OF D(4) assms(2,3)] by simp
qed

lemma rollout_row_unique:
  "rollout_inv db \<Longrightarrow> r \<in> set (rollouts db) \<Longrightarrow> s \<in> set (rollouts db) \<Longrightarrow> r_id r = r_id s \<Longrightarrow> r = s"
  by (drule rollout_invD(2)) (rule distinct_key_eq)

lemma bound_unique:
  "bound J E \<Longrightarrow> e \<in> set E \<Longrightarrow> s \<in> set E \<Longrightarrow> en_job s = en_job e \<Longrightarrow> en_job e \<noteq> None \<Longrightarrow> s = e"
  unfolding bound_def inj_on_def by auto

lemma priors_proven:
  "rollout_inv db \<Longrightarrow> e \<in> set (entries db) \<Longrightarrow> started e \<Longrightarrow>
     \<forall>p \<in> set (entries db). en_rollout p = en_rollout e \<and> en_position p < en_position e
       \<longrightarrow> en_status p \<in> {E_healthy, E_skipped}"
  using rollout_invD(6) unfolding in_order_def by blast

lemma bound_update_same:
  assumes "bound J E" "\<And>x. en_job (f x) = en_job x" "\<And>x. en_server (f x) = en_server x"
    "\<And>x. en_target (f x) = en_target x"
  shows "bound J (update_where P f E)"
proof -
  define g where "g = (\<lambda>x. if P x then f x else x)"
  have job: "en_job (g x) = en_job x" and binds: "binds j (g x) = binds j x" for j x
    using assms by (simp_all add: binds_def g_def)
  have map: "update_where P f E = map g E" by (simp add: update_where_def g_def)
  have "{e \<in> set (map g E). en_job e \<noteq> None} = g ` {e \<in> set E. en_job e \<noteq> None}"
    by (auto simp: job)
  moreover have "inj_on (en_job \<circ> g) {e \<in> set E. en_job e \<noteq> None}"
    using assms(1) job by (simp add: bound_def comp_def)
  ultimately have "inj_on en_job {e \<in> set (map g E). en_job e \<noteq> None}"
    by (metis inj_on_imageI)
  moreover have "\<forall>e \<in> set (map g E). en_job e \<noteq> None \<longrightarrow> (\<exists>j \<in> set J. binds j e)"
    using assms(1) by (simp add: bound_def job binds)
  ultimately show ?thesis unfolding bound_def map by blast
qed

lemma mark_healthy_inv:
  assumes "rollout_inv db" "e \<in> set (entries db)" "en_status e = E_updating"
  shows "rollout_inv (mark_healthy now (en_id e) db)"
proof -
  have ok: "entry_ok r s" if "r \<in> set (rollouts db)" "s \<in> set (entries db)" "r_id r = en_rollout s" for r s
    using linkedD [OF rollout_invD(5) [OF assms(1)]] that by blast
  have "rollout_inv (db\<lparr>entries := update_where (updating_row (en_id e))
      (\<lambda>e. e\<lparr>en_status := E_healthy, en_blocker := None, en_completed := Some now\<rparr>) (entries db),
      rollouts := rollouts db\<rparr>)"
    using assms(1,2)
  proof (rule rollout_inv_both)
    show "entry_ok r (e\<lparr>en_status := E_healthy, en_blocker := None, en_completed := Some now\<rparr>)"
      if "r \<in> set (rollouts db)" "r_id r = en_rollout e" for r
      using ok [OF that(1) assms(2) that(2)] assms(3) by (auto simp: entry_ok_def split: rollout_status.splits)
  qed (use assms ok priors_proven [OF assms(1,2)] in
      \<open>auto simp: updating_row_def started_def intro!: bound_update_same [OF rollout_invD(7)]\<close>)
  then show ?thesis by (simp add: mark_healthy_def)
qed


lemma stop_inv:
  assumes "rollout_inv db" "e \<in> set (entries db)" "en_status e = E_updating" "en_rollout e = rid"
    "(es, rs) \<in> {(E_failed, R_failed), (E_outcome_unknown, R_outcome_unknown)}"
  shows "rollout_inv (stop_rollout now rid rs code (stop_entry now (en_id e) es code db))"
proof -
  let ?f = "\<lambda>e. e\<lparr>en_status := es, en_blocker := Some code, en_completed := Some now\<rparr>"
    and ?g = "\<lambda>r. r\<lparr>r_status := rs, r_error := Some code, r_completed := Some now\<rparr>"
  let ?R = "update_where (running_row rid) ?g (rollouts db)"
  have ok: "entry_ok r s" if "r \<in> set (rollouts db)" "s \<in> set (entries db)" "r_id r = en_rollout s" for r s
    using linkedD [OF rollout_invD(5) [OF assms(1)]] that by blast
  have running: "r_status r = R_running" if "r \<in> set (rollouts db)" "r_id r = rid" for r
    using ok [OF that(1) assms(2)] that assms(3,4) by (auto simp: entry_ok_def split: rollout_status.splits)
  have rows: "r_id r = rid \<and> (\<exists>s \<in> set (rollouts db). r = ?g s \<and> running_row rid s)
      \<or> r_id r \<noteq> rid \<and> r \<in> set (rollouts db)" if "r \<in> set ?R" for r
    using that by (rule update_where_cases) (use running in \<open>auto simp: running_row_def\<close>)
  have "rollout_inv (db\<lparr>entries := update_where (updating_row (en_id e)) ?f (entries db), rollouts := ?R\<rparr>)"
    using assms(1,2)
  proof (rule rollout_inv_both)
    show "entry_ok r (?f e)" if r: "r \<in> set ?R" "r_id r = en_rollout e" for r
    proof -
      obtain q where q: "q \<in> set (rollouts db)" "r = ?g q" "running_row rid q"
        using rows [OF r(1)] assms(4) r(2) by metis
      moreover from q assms(4) have "entry_ok q e" by (intro ok assms(2)) (simp_all add: running_row_def)
      ultimately show ?thesis using assms(3,5) by (auto simp: entry_ok_def running_row_def)
    qed
    show "entry_ok r s" if s: "r \<in> set ?R" "s \<in> set (entries db)" "s \<noteq> e" "r_id r = en_rollout s" for r s
    proof (cases "en_rollout s = rid")
      case True
      with s have "en_status s \<noteq> E_updating"
        using updating_unique [OF assms(1) s(2) assms(2)] assms(3,4) by auto
      moreover obtain q where q: "q \<in> set (rollouts db)" "r = ?g q" "running_row rid q"
        using rows [OF s(1)] True s(4) by metis
      moreover from q True have "entry_ok q s" by (intro ok s(2)) (simp_all add: running_row_def)
      ultimately show ?thesis using assms(5) by (auto simp: entry_ok_def running_row_def)
    qed (use rows [OF s(1)] s ok in auto)
  qed (use assms priors_proven [OF assms(1,2)] in
      \<open>auto simp: updating_row_def started_def map_update_where intro!: bound_update_same [OF rollout_invD(7)]\<close>)
  then show ?thesis by (simp add: stop_rollout_def stop_entry_def)
qed

lemma bound_insert:
  assumes "bound J E" "e \<in> set E" "en_job e = None" "set E' = insert e' (set E - {e})"
    "j \<in> set J" "binds j e'" "\<And>s. s \<in> set E \<Longrightarrow> en_job s \<noteq> Some (j_id j)"
  shows "bound J E'"
proof -
  have job: "en_job e' = Some (j_id j)" using assms(6) by (simp add: binds_def)
  have "{s \<in> set E'. en_job s \<noteq> None} = insert e' {s \<in> set E. en_job s \<noteq> None}"
    unfolding assms(4) using assms(3) job by blast
  moreover have "en_job e' \<notin> en_job ` {s \<in> set E. en_job s \<noteq> None}"
    unfolding job using assms(7) by (metis (no_types, lifting) imageE mem_Collect_eq)
  then have "inj_on en_job (insert e' {s \<in> set E. en_job s \<noteq> None})"
    using assms(1) unfolding bound_def inj_on_insert by blast
  ultimately have "inj_on en_job {s \<in> set E'. en_job s \<noteq> None}" by simp
  moreover have "\<exists>j \<in> set J. binds j s" if "s \<in> set E'" "en_job s \<noteq> None" for s
    using that(1) [unfolded assms(4)] that(2) assms(1,5,6) unfolding bound_def by blast
  ultimately show ?thesis unfolding bound_def by blast
qed

lemma bind_inv:
  assumes inv: "rollout_inv db" and e: "e \<in> set (entries db)" "unbound_entry (en_id e) e" "\<not> prior_unproven db e"
    and r: "r \<in> set (rollouts db)" "r_id r = en_rollout e" "r_status r = R_running" "r_target r = j_target j"
    and j: "j \<in> set (jobs db)" "j_server j = en_server e" "\<And>s. s \<in> set (entries db) \<Longrightarrow> en_job s \<noteq> Some (j_id j)"
  shows "rollout_inv (bind_entry (en_id e) (j_id j) db)"
proof -
  let ?f = "\<lambda>e. e\<lparr>en_status := E_updating, en_job := Some (j_id j)\<rparr>"
  let ?E = "update_where (unbound_entry (en_id e)) ?f (entries db)"
  note D = rollout_invD [OF inv]
  have ok: "entry_ok r s" if "r \<in> set (rollouts db)" "s \<in> set (entries db)" "r_id r = en_rollout s" for r s
    using linkedD [OF D(5)] that by blast
  have set: "set ?E = insert (?f e) (set (entries db) - {e})"
    using D(3) e(1) _ e(2) by (rule update_single) (simp add: unbound_entry_def)
  have "binds j (?f e)"
    using ok [OF r(1) e(1) r(2)] r(4) j(2) by (simp add: binds_def entry_ok_def)
  then have bound: "bound (jobs db) ?E"
    using e(2) by (intro bound_insert [OF D(7) e(1) _ set j(1)]) (auto simp: unbound_entry_def j(3))
  have "rollout_inv (db\<lparr>entries := ?E, rollouts := rollouts db\<rparr>)"
    using inv e(1,2)
  proof (rule rollout_inv_both)
    show "entry_ok r' (?f e)" if "r' \<in> set (rollouts db)" "r_id r' = en_rollout e" for r'
      using ok [OF that(1) e(1) that(2)] rollout_row_unique [OF inv that(1) r(1)] that r
      by (auto simp: entry_ok_def)
    show "bound (jobs db) ?E" by (rule bound)
  qed (use ok e(2,3) in \<open>auto simp: unbound_entry_def prior_unproven_def started_def\<close>)
  then show ?thesis by (simp add: bind_entry_def)
qed


text \<open>Creation appends a pending rollout and its queued or skipped entries.\<close>

lemma snapshot_row_simps [simp]:
  "en_rollout (snapshot_row eid now rid target x) = rid"
  "en_target (snapshot_row eid now rid target x) = target"
  "en_job (snapshot_row eid now rid target x) = None"
  "en_position (snapshot_row eid now rid target x) = fst x"
  "en_server (snapshot_row eid now rid target x) = p_server (snd x)"
  "en_status (snapshot_row eid now rid target x) = (if p_eligible (snd x) then E_queued else E_skipped)"
  by (simp_all add: snapshot_row_def split: prod.split)

lemma create_inv:
  assumes "rollout_inv db" "r_id r \<notin> r_id ` set (rollouts db)" "r_status r = R_pending"
    and "distinct (map en_id (rows @ entries db))" "distinct (map en_position rows)"
    and rows: "\<And>e. e \<in> set rows \<Longrightarrow> en_rollout e = r_id r \<and> en_target e = r_target r \<and> en_job e = None
        \<and> en_status e \<in> {E_queued, E_skipped}"
  shows "rollout_inv (db\<lparr>rollouts := rollouts db @ [r], entries := entries db @ rows\<rparr>)"
proof -
  note D = rollout_invD [OF assms(1)]
  have other: "en_rollout e \<noteq> r_id r" if "e \<in> set (entries db)" for e
    using D(5) that assms(2) unfolding linked_def by (metis imageI)
  have fresh: "r_id s \<noteq> r_id r" if "s \<in> set (rollouts db)" for s
    using that assms(2) by (metis imageI)
  have "distinct (map r_id (rollouts db @ [r]))" using D(2) assms(2) by simp
  moreover have "distinct (map en_id (entries db @ rows))" using assms(4) by auto
  moreover have "inj_on (\<lambda>e. (en_rollout e, en_position e)) (set rows)" "distinct rows"
    using assms(5) by (auto simp: distinct_map inj_on_def)
  then have "distinct (map (\<lambda>e. (en_rollout e, en_position e)) (entries db @ rows))"
    using D(4) other rows by (auto simp: distinct_map)
  moreover have "entry_ok r e" if "e \<in> set rows" for e
    using rows [OF that] assms(3) by (auto simp: entry_ok_def)
  then have "linked (rollouts db @ [r]) (entries db @ rows)"
    using D(5) other rows fresh unfolding linked_def by auto
  moreover have "in_order (entries db @ rows)"
    using D(6) other rows unfolding in_order_def started_def by fastforce
  moreover have "{e \<in> set (entries db @ rows). en_job e \<noteq> None} = {e \<in> set (entries db). en_job e \<noteq> None}"
    using rows by auto
  then have "bound (jobs db) (entries db @ rows)"
    using D(7) unfolding bound_def by auto
  ultimately show ?thesis using D(1) by (simp add: rollout_inv_def)
qed

lemma persist_body_Commit:
  assumes "persist_body b late now rid eid pl key hash db = Commit res db'"
  obtains ps where
    "revalidate_all b late db (pl_target pl) (map p_server (pl_entries pl)) = Inr ps"
    "key \<noteq> [] \<Longrightarrow> lookupPlatformUpdateRolloutCreation key db = None"
    "rid \<notin> r_id ` set (rollouts db)"
    "distinct (map en_id (snapshot_rows eid now rid (pl_target pl) ps @ entries db))"
    "res = Inr (rid, False)"
    "db' = db\<lparr>rollouts := rollouts db @ [new_rollout rid (pl_target pl) key hash],
           entries := entries db @ snapshot_rows eid now rid (pl_target pl) ps\<rparr>"
proof (cases "revalidate_all b late db (pl_target pl) (map p_server (pl_entries pl))")
  case (Inr ps)
  then show thesis
    using assms that [of ps]
    by (simp add: persist_body_def Let_def split: if_splits del: map_append) (metis not_None_eq surj_pair)
qed (use assms in \<open>simp add: persist_body_def\<close>)

lemma snapshot_rows_positions: "distinct (map en_position (snapshot_rows eid now rid target ps))"
  by (simp add: snapshot_rows_def comp_def distinct_map inj_on_def) (auto simp: in_set_enumerate_eq)

lemma persist_body_inv:
  assumes "rollout_inv db" "persist_body b late now rid eid pl key hash db = Commit res db'"
  shows "rollout_inv db'"
  using assms(2)
proof (rule persist_body_Commit)
  fix ps
  assume *: "rid \<notin> r_id ` set (rollouts db)"
    "distinct (map en_id (snapshot_rows eid now rid (pl_target pl) ps @ entries db))"
    "db' = db\<lparr>rollouts := rollouts db @ [new_rollout rid (pl_target pl) key hash],
       entries := entries db @ snapshot_rows eid now rid (pl_target pl) ps\<rparr>"
  show ?thesis unfolding *(3)
    by (rule create_inv [OF assms(1) _ _ *(2) snapshot_rows_positions])
      (use *(1) in \<open>auto simp: new_rollout_def snapshot_rows_def split: if_splits\<close>)
qed

lemma persist_inv:
  "rollout_inv db \<Longrightarrow>
     rollout_inv (snd (persistPlatformUpdateRolloutPlan fate b late now rid eid pl key hash db0 db))"
  unfolding persistPlatformUpdateRolloutPlan_def
  by (simp add: run_tx_invariant [where P = rollout_inv, OF _ persist_body_inv] split: sum.split)


text \<open>Admission.\<close>

lemma next_entry_Some:
  assumes "next_entry rid db = Some e"
  shows "e \<in> set (entries db)" "en_rollout e = rid" "unbound_entry (en_id e) e" "\<not> prior_unproven db e"
  using least_by_mem [OF assms [unfolded next_entry_def]] by (auto simp: select_def unbound_entry_def)

lemma no_updating_without_replay:
  assumes "rollout_inv db" "replay_job rid db = None" "e \<in> set (entries_of rid db)"
  shows "en_status e \<noteq> E_updating"
proof
  assume upd: "en_status e = E_updating"
  obtain r where "r \<in> set (rollouts db)" "r_id r = en_rollout e"
    using rollout_invD(5) [OF assms(1)] assms(3) by (auto simp: linked_def)
  then have "entry_ok r e" using rollout_invD(5) [OF assms(1)] assms(3) by (auto intro: linkedD)
  with upd obtain j where "en_job e = Some (j_id j)" "j \<in> set (jobs db)"
    using rollout_invD(7) [OF assms(1)] assms(3) by (auto simp: entry_ok_def bound_def binds_def)
  then have "bound_job e db \<noteq> None" by (auto simp: bound_job_def lookup_row_None)
  with upd assms(3) have "e \<in> set (select (\<lambda>e. en_status e = E_updating \<and> bound_job e db \<noteq> None) (entries_of rid db))"
    by (simp add: select_def)
  from least_by_ex [OF this] obtain f where
    f: "least_by en_position (select (\<lambda>e. en_status e = E_updating \<and> bound_job e db \<noteq> None) (entries_of rid db)) = Some f"
    by blast
  with least_by_mem [OF f] assms(2) show False
    by (auto simp: replay_job_def select_def)
qed

lemma admit_entry_Commit:
  assumes "admit_entry now nid rid target e db = Commit res db'"
  obtains (failed) code where "db' = failPlatformUpdateRolloutTx now rid code db" "\<exists>er. res = Inl er"
  | (admitted) job db1 where "createPlatformUpdateJobTx nid now (en_server e) target db = Inr (job, db1)"
      "en_observed e = Some (count_jobs (en_server e) db)" "res = Inr (job, False)"
      "db' = bind_entry (en_id e) (j_id job) db1"
  using assms
  by (auto simp: admit_entry_def admission_failed_def split: if_splits sum.splits intro: that)

lemma admit_entry_inv:
  assumes inv: "rollout_inv db" and e: "next_entry rid db = Some e"
    and r: "r \<in> set (rollouts db)" "r_id r = rid" "r_status r = R_running" "r_target r = target"
    and upd: "\<And>e. e \<in> set (entries_of rid db) \<Longrightarrow> en_status e \<noteq> E_updating"
    and out: "admit_entry now nid rid target e db = Commit res db'"
  shows "rollout_inv db'"
  using out
proof (cases rule: admit_entry_Commit)
  case (failed code)
  with fail_rollout_inv [OF inv upd] show ?thesis by simp
next
  case (admitted job db1)
  note e = next_entry_Some [OF e]
  from admitted(1) obtain a :: agent_row where job: "job = new_job nid now (en_server e) (a_id a) target"
    and nid: "nid \<notin> j_id ` set (jobs db)" and db1: "db1 = db\<lparr>jobs := jobs db @ [job]\<rparr>"
    by (rule createPlatformUpdateJobTx_Inr) (rule that, assumption+)
  have inv1: "rollout_inv db1"
    using inv createPlatformUpdateJobTx_step [OF admitted(1)] by (rule rollout_inv_jobs) (simp_all add: db1)
  have "en_job s \<noteq> Some (j_id job)" if "s \<in> set (entries db)" for s
    using rollout_invD(7) [OF inv] that nid unfolding bound_def
    by (force simp: job new_job_def binds_def)
  with e r inv1 show ?thesis
    unfolding admitted(4)
    by (intro bind_inv [where r = r]) (simp_all add: db1 job new_job_def prior_unproven_def entries_of_def)
qed


lemma complete_without_mutation_inv:
  assumes "rollout_inv db" "completePlatformUpdateRolloutWithoutMutationTx now rid st db = Inr (d, db')"
  shows "rollout_inv db'"
  using assms start_rollout_inv complete_rollout_inv
  by (auto simp: completePlatformUpdateRolloutWithoutMutationTx_def Let_def split: if_splits option.splits)

lemma admit_next_inv:
  assumes inv: "rollout_inv db"
    and r: "r \<in> set (rollouts db)" "r_id r = rid" "r_status r = R_running" "r_target r = target"
    and upd: "\<And>e. e \<in> set (entries_of rid db) \<Longrightarrow> en_status e \<noteq> E_updating"
    and out: "admit_next now nid rid target db = Commit res db'"
  shows "rollout_inv db'"
proof (cases "next_entry rid db")
  case None
  with out obtain d where "completePlatformUpdateRolloutWithoutMutationTx now rid R_running db = Inr (d, db')"
    by (auto simp: admit_next_def split: if_splits sum.splits bool.splits)
  with inv show ?thesis by (rule complete_without_mutation_inv)
next
  case (Some e)
  with out have "admit_entry now nid rid target e db = Commit res db'"
    by (simp add: admit_next_def split: if_splits)
  with admit_entry_inv [OF inv Some r upd] show ?thesis by blast
qed

lemma start_rollout_simps [simp]:
  "entries (start_rollout now rid db) = entries db" "jobs (start_rollout now rid db) = jobs db"
  "servers (start_rollout now rid db) = servers db" "agents (start_rollout now rid db) = agents db"
  "entries_of x (start_rollout now rid db) = entries_of x db"
  by (simp_all add: start_rollout_def entries_of_def)

lemma admit_body_Commit:
  assumes "admit_body b now nid rid db = Commit res db'"
  obtains r where "lookup_row r_id rid (rollouts db) = Some r" "r_status r \<in> {R_pending, R_running}"
    and "(\<exists>job. r_status r = R_running \<and> replay_job rid db = Some job \<and> res = Inr (job, True) \<and> db' = db)
      \<or> (r_status r = R_running \<longrightarrow> replay_job rid db = None)
        \<and> ((completePlatformUpdateRolloutWithoutMutationTx now rid (r_status r) db = Inr (True, db')
              \<and> res = Inl ErrPlatformUpdateRolloutComplete)
          \<or> (b_version b \<noteq> r_target r
              \<and> db' = failPlatformUpdateRolloutTx now rid ''manager_version_mismatch'' db \<and> (\<exists>er. res = Inl er))
          \<or> (b_version b = r_target r \<and> admit_next now nid rid (r_target r)
              (if r_status r = R_pending then start_rollout now rid db else db) = Commit res db'))"
proof (cases "lookup_row r_id rid (rollouts db)")
  case (Some r)
  show thesis
  proof (rule that [OF Some], goal_cases)
    case 2
    show ?case using assms Some
      by (cases "r_status r = R_running"; cases "replay_job rid db")
        (auto simp: admit_body_def admission_failed_def split: if_splits sum.splits bool.splits)
  qed (use assms Some in \<open>auto simp: admit_body_def split: if_splits\<close>)
qed (use assms in \<open>simp add: admit_body_def\<close>)


lemma start_rollout_running:
  assumes "rollout_inv db" "lookup_row r_id rid (rollouts db) = Some r" "r_status r \<in> {R_pending, R_running}"
  obtains r' where "r' \<in> set (rollouts (if r_status r = R_pending then start_rollout now rid db else db))"
    "r_id r' = rid" "r_status r' = R_running" "r_target r' = r_target r"
proof (cases "r_status r = R_pending")
  case True
  show ?thesis
    by (rule that [of "r\<lparr>r_status := R_running, r_started := Some now\<rparr>"])
      (use True lookup_row_Some [OF assms(2)] in \<open>auto simp: start_rollout_def update_where_def\<close>)
qed (use assms lookup_row_Some [OF assms(2)] that in auto)

lemma pending_no_updating:
  assumes "rollout_inv db" "lookup_row r_id rid (rollouts db) = Some r" "r_status r = R_pending"
    "e \<in> set (entries_of rid db)"
  shows "en_status e \<in> {E_queued, E_skipped}"
  using linkedD [OF rollout_invD(5) [OF assms(1)], of e r] lookup_row_Some [OF assms(2)] assms(3,4)
  by (auto simp: entry_ok_def)

lemma admit_body_inv:
  assumes inv: "rollout_inv db" and out: "admit_body b now nid rid db = Commit res db'"
  shows "rollout_inv db'"
  using out
proof (rule admit_body_Commit)
  fix r :: rollout_row
  let ?db = "if r_status r = R_pending then start_rollout now rid db else db"
  assume r: "lookup_row r_id rid (rollouts db) = Some r" "r_status r \<in> {R_pending, R_running}"
    and alt: "(\<exists>job. r_status r = R_running \<and> replay_job rid db = Some job \<and> res = Inr (job, True) \<and> db' = db)
      \<or> (r_status r = R_running \<longrightarrow> replay_job rid db = None)
        \<and> ((completePlatformUpdateRolloutWithoutMutationTx now rid (r_status r) db = Inr (True, db')
              \<and> res = Inl ErrPlatformUpdateRolloutComplete)
          \<or> (b_version b \<noteq> r_target r
              \<and> db' = failPlatformUpdateRolloutTx now rid ''manager_version_mismatch'' db \<and> (\<exists>er. res = Inl er))
          \<or> (b_version b = r_target r \<and> admit_next now nid rid (r_target r) ?db = Commit res db'))"
  have upd: "en_status e \<noteq> E_updating"
    if "e \<in> set (entries_of rid db)" "r_status r = R_running \<longrightarrow> replay_job rid db = None" for e
    using that r(2) no_updating_without_replay [OF inv _ that(1)] pending_no_updating [OF inv r(1) _ that(1)] by auto
  have inv': "rollout_inv ?db" using inv start_rollout_inv by simp
  obtain r' where r': "r' \<in> set (rollouts ?db)" "r_id r' = rid" "r_status r' = R_running" "r_target r' = r_target r"
    using start_rollout_running [OF inv r] by blast
  have "entries_of rid ?db = entries_of rid db" by simp
  with alt show ?thesis
    using inv upd complete_without_mutation_inv [OF inv] fail_rollout_inv [OF inv]
      admit_next_inv [OF inv' r'] by metis
qed

lemma admit_inv:
  "rollout_inv db \<Longrightarrow> rollout_inv (snd (admitPlatformUpdateRolloutMutation fate b now nid raw db))"
  unfolding admitPlatformUpdateRolloutMutation_def
  by (simp add: run_tx_invariant [where P = rollout_inv, OF _ admit_body_inv] split: sum.split)

text \<open>Health.\<close>

definition stopped :: "time \<Rightarrow> string \<Rightarrow> entry_row \<Rightarrow> rollout_db \<Rightarrow> rollout_db \<Rightarrow> bool" where
  "stopped now rid e db db' \<longleftrightarrow>
     (\<exists>es rs code. (es, rs) \<in> {(E_failed, R_failed), (E_outcome_unknown, R_outcome_unknown)}
        \<and> db' = stop_rollout now rid rs code (stop_entry now (en_id e) es code db))"

lemma terminalize_Commit:
  "terminalizePlatformUpdateRolloutHealthTx now rid e job unknown code db = Commit res db' \<Longrightarrow>
     stopped now rid e db db'"
  by (auto simp: terminalizePlatformUpdateRolloutHealthTx_def Let_def stopped_def split: if_splits)

definition health_proven :: "build_info \<Rightarrow> time \<Rightarrow> rollout_row \<Rightarrow> entry_row \<Rightarrow> job_row \<Rightarrow> agent_row \<Rightarrow> rollout_db \<Rightarrow> bool" where
  "health_proven b now r e j a db \<longleftrightarrow>
     j_status j = J_succeeded
     \<and> (\<exists>n. en_observed e = Some n \<and> count_jobs (en_server e) db = n + 1)
     \<and> \<not> has_unresolved_job (en_server e) db
     \<and> (\<exists>c h. j_completed j = Some c \<and> a_hb_at a = Some h \<and> c < h \<and> h \<le> now \<and> now - h \<le> minutes 2)
     \<and> a_hb_gen a = Some (a_cred_gen a)
     \<and> a_status a = ''online'' \<and> a_version a = r_target r
     \<and> compat_ok (EvaluateCompatibility b (a_version a) (a_protocol a))"

lemma prove_health_Commit:
  assumes "prove_health b now wr r e j a db = Commit res db'" "j_status j = J_succeeded"
  shows "db' = db
    \<or> stopped now (r_id r) e db db'
    \<or> health_proven b now r e j a db
      \<and> db' = completePlatformUpdateRolloutIfFinishedTx wr (r_id r) (mark_healthy wr (en_id e) db)"
proof (cases "j_completed j")
  case (Some c)
  have "health_proven b now r e j a db"
    if "map_option (\<lambda>n. n + 1) (en_observed e) = Some (count_jobs (en_server e) db)"
      "\<not> has_unresolved_job (en_server e) db" "\<not> heartbeat_unproven now a c" "\<not> agent_unproven b a (r_target r)"
    using that Some assms(2)
    by (auto simp: health_proven_def heartbeat_unproven_def agent_unproven_def split: option.splits)
  with assms(1) Some show ?thesis
    by (auto simp: prove_health_def Let_def split: if_splits option.splits dest!: terminalize_Commit)
qed (use assms in \<open>simp add: prove_health_def\<close>)


definition health_evidence :: "build_info \<Rightarrow> time \<Rightarrow> entry_row \<Rightarrow> rollout_db \<Rightarrow> bool" where
  "health_evidence b now e db \<longleftrightarrow>
     (\<exists>r \<in> set (rollouts db). \<exists>j \<in> set (jobs db). \<exists>a \<in> set (agents db).
        r_id r = en_rollout e \<and> r_status r = R_running
        \<and> en_job e = Some (j_id j) \<and> j_server j = en_server e \<and> j_target j = r_target r
        \<and> a_id a = j_agent j \<and> a_server a = en_server e \<and> health_proven b now r e j a db)"

lemma reconcile_entry_Commit:
  assumes "reconcile_entry b now wr r e db = Commit res db'" "r \<in> set (rollouts db)" "r_id r = en_rollout e"
    "r_status r = R_running"
  shows "db' = db \<or> stopped now (r_id r) e db db'
    \<or> health_evidence b now e db
      \<and> db' = completePlatformUpdateRolloutIfFinishedTx wr (r_id r) (mark_healthy wr (en_id e) db)"
proof -
  let ?J = "find (\<lambda>j. Some (j_id j) = en_job e \<and> j_server j = en_server e \<and> j_target j = r_target r) (jobs db)"
  from assms(1) obtain j where j: "?J = Some j"
    by (auto simp: reconcile_entry_def split: if_splits option.splits)
  from assms(1) j obtain a where a: "find (\<lambda>a. a_id a = j_agent j \<and> a_server a = en_server e) (agents db) = Some a"
    by (auto simp: reconcile_entry_def split: if_splits option.splits)
  show ?thesis
  proof (cases "j_status j")
    case J_succeeded
    with assms(1) j a have "prove_health b now wr r e j a db = Commit res db'"
      by (simp add: reconcile_entry_def split: if_splits)
    from prove_health_Commit [OF this J_succeeded] find_SomeD [OF j] find_SomeD [OF a] assms(2-)
    show ?thesis unfolding health_evidence_def by metis
  qed (use assms(1) j a in \<open>auto simp: reconcile_entry_def split: if_splits dest!: terminalize_Commit\<close>)
qed

lemma updating_entry_Some:
  "updating_entry rid db = Some e \<Longrightarrow> e \<in> set (entries db) \<and> en_rollout e = rid \<and> en_status e = E_updating"
  by (auto simp: updating_entry_def select_def dest!: least_by_mem)

lemma reconcile_body_Commit:
  assumes "reconcile_body b now wr rid db = Commit res db'"
  shows "db' = db \<or> db' = completePlatformUpdateRolloutIfFinishedTx now rid db
    \<or> (\<exists>e. updating_entry rid db = Some e \<and>
        (stopped now rid e db db' \<or> health_evidence b now e db
         \<and> db' = completePlatformUpdateRolloutIfFinishedTx wr rid (mark_healthy wr (en_id e) db)))"
proof (cases "lookup_row r_id rid (rollouts db)")
  case (Some r)
  note r = lookup_row_Some [OF Some]
  show ?thesis
  proof (cases "r_status r = R_running")
    case True
    show ?thesis
    proof (cases "updating_entry rid db")
      case (Some e)
      with assms True \<open>lookup_row r_id rid (rollouts db) = Some r\<close> have "reconcile_entry b now wr r e db = Commit res db'"
        by (simp add: reconcile_body_def)
      from reconcile_entry_Commit [OF this] r True updating_entry_Some [OF Some] Some show ?thesis by auto
    qed (use assms Some True in \<open>auto simp: reconcile_body_def Let_def split: option.splits\<close>)
  qed (use assms Some in \<open>simp add: reconcile_body_def\<close>)
qed (use assms in \<open>simp add: reconcile_body_def\<close>)

lemma reconcile_body_inv:
  assumes inv: "rollout_inv db" and out: "reconcile_body b now wr rid db = Commit res db'"
  shows "rollout_inv db'"
proof -
  have "rollout_inv db'" if "updating_entry rid db = Some e" "stopped now rid e db db'" for e
    using that(2) updating_entry_Some [OF that(1)] stop_inv [OF inv] unfolding stopped_def by blast
  moreover have "rollout_inv (mark_healthy wr (en_id e) db)" if "updating_entry rid db = Some e" for e
    using updating_entry_Some [OF that] mark_healthy_inv [OF inv] by blast
  ultimately show ?thesis
    using reconcile_body_Commit [OF out] inv complete_rollout_inv by blast
qed

lemma health_inv:
  "rollout_inv db \<Longrightarrow> rollout_inv (snd (ReconcilePlatformUpdateRolloutHealth fate b now wr raw db))"
  unfolding ReconcilePlatformUpdateRolloutHealth_def
  by (simp add: run_tx_invariant [where P = rollout_inv, OF _ reconcile_body_inv] split: sum.split)


lemma advance_db:
  "\<exists>rid. snd (AdvancePlatformUpdateRollout fate b now wr nid raw db0 db)
     \<in> {db, snd (ReconcilePlatformUpdateRolloutHealth fate b now wr rid db),
        snd (admitPlatformUpdateRolloutMutation fate b now nid rid db)}"
proof (cases "canonicalPlatformUpdateServerID raw")
  case (Inr rid)
  then show ?thesis
    unfolding AdvancePlatformUpdateRollout_def
    by (intro exI [of _ rid]) (simp split: sum.split option.split prod.split)
qed (simp add: AdvancePlatformUpdateRollout_def)

lemma rollout_exec_inv: "rollout_inv db \<Longrightarrow> rollout_inv (rollout_exec e db)"
proof (cases e)
  case (Ev_advance fate b now wr nid raw db0)
  then show "rollout_inv db \<Longrightarrow> ?thesis"
    using advance_db [of fate b now wr nid raw db0 db] admit_inv health_inv by auto
qed (simp_all add: rollout_inv_job_event persist_inv admit_inv health_inv)

lemma rollout_run_inv: "rollout_inv db \<Longrightarrow> rollout_inv (rollout_run es db)"
  unfolding rollout_run_def by (induction es arbitrary: db) (simp_all add: rollout_exec_inv)

lemma rollout_inv_initial: "jobs_inv (jobs db) \<Longrightarrow> rollouts db = [] \<Longrightarrow> entries db = [] \<Longrightarrow> rollout_inv db"
  by (simp add: rollout_inv_def linked_def in_order_def bound_def)

section \<open>The transition contracts\<close>

text \<open>Every statement that changes the status of a rollout or of an entry follows the transition
  tables of \<open>platform_update_rollout.go\<close>; one transaction may make several transitions.\<close>

definition rollout_advance :: "rollout_row \<Rightarrow> rollout_row \<Rightarrow> bool" where
  "rollout_advance r r' \<longleftrightarrow>
     r_id r' = r_id r \<and> r_target r' = r_target r \<and> r_key r' = r_key r \<and> r_hash r' = r_hash r
     \<and> validatePlatformUpdateRolloutTransition\<^sup>+\<^sup>+ (r_status r) (r_status r')"

definition entry_advance :: "entry_row \<Rightarrow> entry_row \<Rightarrow> bool" where
  "entry_advance e e' \<longleftrightarrow>
     en_id e' = en_id e \<and> en_rollout e' = en_rollout e \<and> en_server e' = en_server e
     \<and> en_target e' = en_target e \<and> en_position e' = en_position e \<and> en_observed e' = en_observed e
     \<and> en_planning e' = en_planning e \<and> (en_job e \<noteq> None \<longrightarrow> en_job e' = en_job e)
     \<and> validatePlatformUpdateRolloutEntryTransition\<^sup>+\<^sup>+ (en_status e) (en_status e')"

abbreviation rollout_final :: "rollout_row \<Rightarrow> bool" where
  "rollout_final r \<equiv> r_status r \<in> {R_succeeded, R_failed, R_outcome_unknown}"

abbreviation entry_final :: "entry_row \<Rightarrow> bool" where
  "entry_final e \<equiv> en_status e \<in> {E_healthy, E_failed, E_outcome_unknown, E_skipped}"

lemma rollout_status_final:
  "validatePlatformUpdateRolloutTransition\<^sup>+\<^sup>+ s t \<Longrightarrow> s \<notin> {R_succeeded, R_failed, R_outcome_unknown}"
  by (erule converse_tranclpE) (auto simp: validatePlatformUpdateRolloutTransition_def)

lemma entry_status_final:
  "validatePlatformUpdateRolloutEntryTransition\<^sup>+\<^sup>+ s t \<Longrightarrow>
     s \<notin> {E_healthy, E_failed, E_outcome_unknown, E_skipped}"
  by (erule converse_tranclpE) (auto simp: validatePlatformUpdateRolloutEntryTransition_def)

interpretation rollout_table: forward_table "\<lambda>r. (r_id r, r_target r, r_key r, r_hash r)" rollout_advance rollout_final
  by unfold_locales (auto simp: rollout_advance_def dest!: rollout_status_final)

interpretation entry_table: forward_table "\<lambda>e. (en_id e, en_rollout e, en_server e, en_position e)"
  entry_advance entry_final
  by unfold_locales (auto simp: entry_advance_def dest!: entry_status_final)

lemma rollout_advance_trans: "rollout_advance r s \<Longrightarrow> rollout_advance s t \<Longrightarrow> rollout_advance r t"
  unfolding rollout_advance_def by (auto intro: tranclp_trans)

lemma entry_advance_trans: "entry_advance r s \<Longrightarrow> entry_advance s t \<Longrightarrow> entry_advance r t"
  unfolding entry_advance_def by (auto intro: tranclp_trans)

text \<open>Old rows advance, new rows are appended.\<close>

definition history :: "rollout_db \<Rightarrow> rollout_db \<Rightarrow> bool" where
  "history db db' \<longleftrightarrow>
     (\<exists>R R' E E'. rollouts db' = R @ R' \<and> evolves rollout_advance (rollouts db) R
        \<and> entries db' = E @ E' \<and> evolves entry_advance (entries db) E)"

lemma historyI:
  "rollouts db' = R @ R' \<Longrightarrow> evolves rollout_advance (rollouts db) R \<Longrightarrow> entries db' = E @ E' \<Longrightarrow>
     evolves entry_advance (entries db) E \<Longrightarrow> history db db'"
  unfolding history_def by blast

lemma history_refl [simp]: "history db db"
  by (rule historyI [where R' = "[]" and E' = "[]"]) auto


lemma history_trans:
  assumes "history a b" "history b c"
  shows "history a c"
proof -
  from assms(1) obtain R R' E E' where 1: "rollouts b = R @ R'" "evolves rollout_advance (rollouts a) R"
    "entries b = E @ E'" "evolves entry_advance (entries a) E" unfolding history_def by blast
  from assms(2) obtain S S' F F' where 2: "rollouts c = S @ S'" "evolves rollout_advance (R @ R') S"
    "entries c = F @ F'" "evolves entry_advance (E @ E') F" unfolding history_def 1 by blast
  from 2(2) obtain S1 S2 where S: "S = S1 @ S2" "evolves rollout_advance R S1" by (rule evolves_append_split)
  from 2(4) obtain F1 F2 where F: "F = F1 @ F2" "evolves entry_advance E F1" by (rule evolves_append_split)
  have "evolves rollout_advance (rollouts a) S1" "evolves entry_advance (entries a) F1"
    using evolves_trans [OF 1(2) S(2)] evolves_trans [OF 1(4) F(2)] rollout_advance_trans entry_advance_trans
    by blast+
  with 2(1,3) S(1) F(1) show ?thesis unfolding history_def by auto
qed

lemma history_same: "rollouts db' = rollouts db \<Longrightarrow> entries db' = entries db \<Longrightarrow> history db db'"
  by (rule historyI [where R' = "[]" and E' = "[]"]) auto

lemma history_rollouts:
  assumes "\<And>r. P r \<Longrightarrow> rollout_advance r (f r)"
  shows "history db (db\<lparr>rollouts := update_where P f (rollouts db)\<rparr>)"
  using assms by (intro historyI [where R' = "[]" and E' = "[]"]) (auto intro: evolves_update_where)

lemma history_entries:
  assumes "\<And>e. P e \<Longrightarrow> entry_advance e (f e)"
  shows "history db (db\<lparr>entries := update_where P f (entries db)\<rparr>)"
  using assms by (intro historyI [where R' = "[]" and E' = "[]"]) (auto intro: evolves_update_where)

lemma history_statements:
  "history db (start_rollout now rid db)"
  "history db (completePlatformUpdateRolloutIfFinishedTx now rid db)"
  "history db (failPlatformUpdateRolloutTx now rid code db)"
  "history db (bind_entry eid jid db)"
  "history db (mark_healthy now eid db)"
  "es \<in> {E_failed, E_outcome_unknown} \<Longrightarrow> history db (stop_entry now eid es code db)"
  "rs \<in> {R_failed, R_outcome_unknown} \<Longrightarrow> history db (stop_rollout now rid rs code db)"
  unfolding start_rollout_def completePlatformUpdateRolloutIfFinishedTx_def failPlatformUpdateRolloutTx_def
    bind_entry_def mark_healthy_def stop_entry_def stop_rollout_def
  by (auto intro!: history_rollouts history_entries
      simp: tranclp.r_into_trancl rollout_advance_def entry_advance_def validatePlatformUpdateRolloutTransition_def
        validatePlatformUpdateRolloutEntryTransition_def unbound_entry_def updating_row_def running_row_def)


lemma complete_without_mutation_history:
  assumes "completePlatformUpdateRolloutWithoutMutationTx now rid st db = Inr (d, db')"
  shows "history db db'"
proof -
  have "history db (completePlatformUpdateRolloutIfFinishedTx now rid (start_rollout now rid db))"
    using history_statements(1,2) history_trans by blast
  with assms history_statements(2) show ?thesis
    by (auto simp: completePlatformUpdateRolloutWithoutMutationTx_def Let_def split: if_splits option.splits)
qed

lemma admit_entry_history:
  assumes "admit_entry now nid rid target e db = Commit res db'"
  shows "history db db'"
  using assms
proof (cases rule: admit_entry_Commit)
  case (admitted job db1)
  have "history db db1"
    using rollouts_more [OF createTx_frame [OF admitted(1)]] by (intro history_same) auto
  then show ?thesis unfolding admitted(4) using history_statements(4) history_trans by blast
qed (simp add: history_statements)

lemma admit_next_history:
  assumes "admit_next now nid rid target db = Commit res db'"
  shows "history db db'"
proof (cases "next_entry rid db")
  case None
  with assms obtain d where "completePlatformUpdateRolloutWithoutMutationTx now rid R_running db = Inr (d, db')"
    by (auto simp: admit_next_def split: if_splits sum.splits bool.splits)
  then show ?thesis by (rule complete_without_mutation_history)
next
  case (Some e)
  with assms have "admit_entry now nid rid target e db = Commit res db'"
    by (simp add: admit_next_def split: if_splits)
  then show ?thesis by (rule admit_entry_history)
qed

lemma admit_body_history:
  assumes "admit_body b now nid rid db = Commit res db'"
  shows "history db db'"
proof -
  have "history db db'"
    if "admit_next now nid rid target (if p then start_rollout now rid db else db) = Commit res db'" for target p
    using admit_next_history [OF that] history_trans [OF history_statements(1)] by (cases p) auto
  then show ?thesis using assms
    by (elim admit_body_Commit disjE exE conjE)
      (simp_all add: complete_without_mutation_history history_statements(3))
qed

lemma stopped_history: "stopped now rid e db db' \<Longrightarrow> history db db'"
  unfolding stopped_def by (elim exE conjE) (auto intro!: history_trans [OF history_statements(6) history_statements(7)])

lemma reconcile_body_history:
  assumes "reconcile_body b now wr rid db = Commit res db'"
  shows "history db db'"
  using reconcile_body_Commit [OF assms]
  by (elim disjE exE conjE)
    (simp_all add: stopped_history history_statements(2) history_trans [OF history_statements(5) history_statements(2)])

lemma persist_body_history:
  assumes "persist_body b late now rid eid pl key hash db = Commit res db'"
  shows "history db db'"
  using assms by (elim persist_body_Commit) (rule historyI, auto)

lemma rollout_exec_history: "history db (rollout_exec e db)"
proof -
  have admit: "history db (snd (admitPlatformUpdateRolloutMutation fate b now nid raw db))" for fate b now nid raw
    unfolding admitPlatformUpdateRolloutMutation_def
    by (simp add: run_tx_invariant [where P = "history db", OF _ admit_body_history] split: sum.split)
  have health: "history db (snd (ReconcilePlatformUpdateRolloutHealth fate b now wr raw db))" for fate b now wr raw
    unfolding ReconcilePlatformUpdateRolloutHealth_def
    by (simp add: run_tx_invariant [where P = "history db", OF _ reconcile_body_history] split: sum.split)
  show ?thesis
  proof (cases e)
    case (Ev_advance fate b now wr nid raw db0)
    then show ?thesis using advance_db [of fate b now wr nid raw db0 db] admit health by auto
  next
    case (Ev_persist fate b late now rid eid pl key hash db0)
    then show ?thesis
      by (simp add: persistPlatformUpdateRolloutPlan_def run_tx_invariant [where P = "history db", OF _ persist_body_history] split: sum.split)
  qed (auto simp: admit health intro: history_same rollouts_more [OF job_exec_frame])
qed

lemma rollout_run_history: "history db (rollout_run es db)"
  unfolding rollout_run_def
  by (induction es arbitrary: db) (simp, metis fold_simps(2) history_trans rollout_exec_history)

section \<open>Properties\<close>

text \<open>C2. One node at a time, in the planned order, and never past an unproven node: from a Manager
  without rollouts, after any interleaving of creations, admissions, health checks, controller steps,
  single-job operations and inventory changes, with any commit lost or unacknowledged, an entry of a
  rollout that has started (is updating, healthy, failed or of unknown outcome) has only healthy or
  skipped entries before it; two updating entries of a rollout are the same entry; the rollout of an
  updating entry is running; and the job bound to an entry exists, is for its server and its target
  version, and is bound to no other entry.\<close>

theorem rollout_one_at_a_time:
  assumes "jobs_inv (jobs db)" "rollouts db = []" "entries db = []"
    and "db' = rollout_run es db" "e \<in> set (entries db')" "f \<in> set (entries db')"
  shows "(en_rollout e = en_rollout f \<and> en_position e < en_position f
      \<and> en_status f \<in> {E_updating, E_healthy, E_failed, E_outcome_unknown}
      \<longrightarrow> en_status e \<in> {E_healthy, E_skipped})
    \<and> (en_rollout e = en_rollout f \<and> en_status e = E_updating \<and> en_status f = E_updating \<longrightarrow> e = f)
    \<and> (en_status e = E_updating \<longrightarrow> (\<exists>r \<in> set (rollouts db'). r_id r = en_rollout e \<and> r_status r = R_running))
    \<and> (en_job e \<noteq> None \<longrightarrow> (\<exists>j \<in> set (jobs db'). en_job e = Some (j_id j) \<and> j_server j = en_server e
        \<and> j_target j = en_target e) \<and> (en_job f = en_job e \<longrightarrow> f = e))"
proof -
  have inv: "rollout_inv db'"
    unfolding assms(4) by (intro rollout_run_inv rollout_inv_initial assms(1-3))
  note D = rollout_invD [OF inv]
  have "en_rollout e = en_rollout f \<and> en_position e < en_position f
      \<and> en_status f \<in> {E_updating, E_healthy, E_failed, E_outcome_unknown}
      \<longrightarrow> en_status e \<in> {E_healthy, E_skipped}"
    using D(6) assms(5,6) unfolding in_order_def started_def by blast
  moreover have "en_rollout e = en_rollout f \<and> en_status e = E_updating \<and> en_status f = E_updating \<longrightarrow> e = f"
    using updating_unique [OF inv assms(5,6)] by blast
  moreover obtain r where r: "r \<in> set (rollouts db')" "r_id r = en_rollout e"
    using D(5) assms(5) unfolding linked_def by blast
  moreover from r linkedD [OF D(5) assms(5)] have "entry_ok r e" by blast
  then have "en_status e = E_updating \<longrightarrow> r_status r = R_running"
    by (auto simp: entry_ok_def split: rollout_status.splits)
  moreover have "en_job e \<noteq> None \<longrightarrow> (\<exists>j \<in> set (jobs db'). en_job e = Some (j_id j) \<and> j_server j = en_server e
      \<and> j_target j = en_target e) \<and> (en_job f = en_job e \<longrightarrow> f = e)"
    using D(7) bound_unique [OF D(7) assms(5,6)] assms(5) unfolding bound_def binds_def by blast
  ultimately show ?thesis by blast
qed


text \<open>C6. History is written once and follows the transition tables: in every execution a rollout
  and an entry stay in their tables under the same identity (identifier, target, idempotency key and
  fingerprint; rollout, server, position and observed history), every change of status is a sequence
  of permitted transitions, a bound job is never rebound, and a row in a terminal status is never
  changed again.\<close>

theorem rollout_history_forward:
  assumes "db' = rollout_run es db"
  shows "(\<forall>r \<in> set (rollouts db). \<exists>r' \<in> set (rollouts db').
        r_id r' = r_id r \<and> r_target r' = r_target r \<and> r_key r' = r_key r \<and> r_hash r' = r_hash r
        \<and> validatePlatformUpdateRolloutTransition\<^sup>*\<^sup>* (r_status r) (r_status r')
        \<and> (r_status r \<in> {R_succeeded, R_failed, R_outcome_unknown} \<longrightarrow> r' = r))
    \<and> (\<forall>e \<in> set (entries db). \<exists>e' \<in> set (entries db').
        en_id e' = en_id e \<and> en_rollout e' = en_rollout e \<and> en_server e' = en_server e
        \<and> en_position e' = en_position e \<and> en_observed e' = en_observed e
        \<and> (en_job e \<noteq> None \<longrightarrow> en_job e' = en_job e)
        \<and> validatePlatformUpdateRolloutEntryTransition\<^sup>*\<^sup>* (en_status e) (en_status e')
        \<and> (en_status e \<in> {E_healthy, E_failed, E_outcome_unknown, E_skipped} \<longrightarrow> e' = e))"
proof -
  from rollout_run_history [of db es] obtain R R' E E' where
    h: "rollouts db' = R @ R'" "evolves rollout_advance (rollouts db) R"
      "entries db' = E @ E'" "evolves entry_advance (entries db) E"
    unfolding history_def assms by blast
  show ?thesis
  proof (intro conjI ballI, goal_cases)
    case (1 r)
    obtain r' where "r' \<in> set R" "r' = r \<or> rollout_advance r r'"
      using h(2) 1 by (rule evolves_set_forward)
    then show ?case
      using rollout_table.adv_not_final [of r r'] unfolding h rollout_advance_def
      by (intro bexI [of _ r']) (auto dest: tranclp_into_rtranclp)
  next
    case (2 e)
    obtain e' where "e' \<in> set E" "e' = e \<or> entry_advance e e'"
      using h(4) 2 by (rule evolves_set_forward)
    then show ?case
      using entry_table.adv_not_final [of e e'] unfolding h entry_advance_def
      by (intro bexI [of _ e']) (auto dest: tranclp_into_rtranclp)
  qed
qed

definition healthy_rows :: "rollout_db \<Rightarrow> entry_row set" where
  "healthy_rows db = {e \<in> set (entries db). en_status e = E_healthy}"

lemma healthy_rows_update:
  "(\<And>e. P e \<Longrightarrow> en_status (f e) \<noteq> E_healthy) \<Longrightarrow>
     healthy_rows (db\<lparr>entries := update_where P f (entries db)\<rparr>) \<subseteq> healthy_rows db"
  by (auto simp: healthy_rows_def set_update_where)

lemma healthy_rows_cong: "entries db' = entries db \<Longrightarrow> healthy_rows db' = healthy_rows db"
  by (simp add: healthy_rows_def)

lemma rollout_statement_entries [simp]:
  "entries (completePlatformUpdateRolloutIfFinishedTx now rid db) = entries db"
  "entries (failPlatformUpdateRolloutTx now rid code db) = entries db"
  "entries (stop_rollout now rid rs code db) = entries db"
  by (simp_all add: completePlatformUpdateRolloutIfFinishedTx_def failPlatformUpdateRolloutTx_def stop_rollout_def)

lemma complete_without_mutation_entries:
  "completePlatformUpdateRolloutWithoutMutationTx now rid st db = Inr (d, db') \<Longrightarrow> entries db' = entries db"
  by (auto simp: completePlatformUpdateRolloutWithoutMutationTx_def Let_def split: if_splits option.splits)

lemma admit_next_healthy_rows:
  assumes "admit_next now nid rid target db = Commit res db'"
  shows "healthy_rows db' \<subseteq> healthy_rows db"
proof (cases "next_entry rid db")
  case None
  with assms obtain d where "completePlatformUpdateRolloutWithoutMutationTx now rid R_running db = Inr (d, db')"
    by (auto simp: admit_next_def split: if_splits sum.splits bool.splits)
  then show ?thesis by (simp add: healthy_rows_cong [OF complete_without_mutation_entries])
next
  case (Some e)
  with assms have "admit_entry now nid rid target e db = Commit res db'"
    by (simp add: admit_next_def split: if_splits)
  then show ?thesis
  proof (cases rule: admit_entry_Commit)
    case (admitted job db1)
    have "healthy_rows (bind_entry (en_id e) (j_id job) db1) \<subseteq> healthy_rows db1"
      unfolding bind_entry_def by (rule healthy_rows_update) simp
    then show ?thesis
      unfolding admitted(4) using rollouts_more(2) [OF createTx_frame [OF admitted(1)]] healthy_rows_cong by metis
  qed (simp add: healthy_rows_def)
qed

lemma admit_body_healthy_rows:
  assumes "admit_body b now nid rid db = Commit res db'"
  shows "healthy_rows db' \<subseteq> healthy_rows db"
proof -
  have "healthy_rows db' \<subseteq> healthy_rows db"
    if "admit_next now nid rid target (if p then start_rollout now rid db else db) = Commit res db'" for target p
    using admit_next_healthy_rows [OF that] by (cases p) (auto simp: healthy_rows_def)
  then show ?thesis using assms
    by (elim admit_body_Commit disjE exE conjE)
      (simp_all add: healthy_rows_cong [OF complete_without_mutation_entries], simp add: healthy_rows_def)
qed

lemma reconcile_body_healthy_rows:
  assumes "reconcile_body b now wr rid db = Commit res db'" "e' \<in> healthy_rows db'" "e' \<notin> healthy_rows db"
  shows "\<exists>e \<in> set (entries db). en_id e = en_id e' \<and> en_rollout e = rid \<and> en_status e = E_updating
    \<and> health_evidence b now e db"
proof -
  have "healthy_rows db' \<subseteq> healthy_rows db" if "stopped now rid e db db'" for e
    using that unfolding stopped_def stop_entry_def
    by (elim exE conjE) (auto simp: healthy_rows_def set_update_where)
  with assms reconcile_body_Commit [OF assms(1)] obtain e where
    e: "updating_entry rid db = Some e" "health_evidence b now e db"
      "db' = completePlatformUpdateRolloutIfFinishedTx wr rid (mark_healthy wr (en_id e) db)"
    by (auto simp: healthy_rows_def)
  then have "en_id e' = en_id e"
    using assms(2,3) by (auto simp: healthy_rows_def mark_healthy_def set_update_where updating_row_def)
  with e updating_entry_Some [OF e(1)] show ?thesis by auto
qed


lemma health_healthy_rows:
  assumes "e' \<in> healthy_rows (snd (ReconcilePlatformUpdateRolloutHealth fate b now wr raw db))" "e' \<notin> healthy_rows db"
  shows "\<exists>e \<in> set (entries db). en_id e = en_id e' \<and> en_status e = E_updating \<and> health_evidence b now e db"
proof (cases "canonicalPlatformUpdateServerID raw")
  case (Inr rid)
  with assms(1) have "e' \<in> healthy_rows (snd (run_tx CommitError fate (reconcile_body b now wr rid db) db))"
    by (simp add: ReconcilePlatformUpdateRolloutHealth_def)
  then obtain r db' where "reconcile_body b now wr rid db = Commit r db'" "e' \<in> healthy_rows db'"
    using assms(2) by (rule run_tx_new_row)
  from reconcile_body_healthy_rows [OF this assms(2)] show ?thesis by blast
qed (use assms in \<open>simp add: ReconcilePlatformUpdateRolloutHealth_def\<close>)

lemma admit_healthy_rows:
  "healthy_rows (snd (admitPlatformUpdateRolloutMutation fate b now nid raw db)) \<subseteq> healthy_rows db"
  unfolding admitPlatformUpdateRolloutMutation_def
  by (simp add: run_tx_invariant [where P = "\<lambda>d. healthy_rows d \<subseteq> healthy_rows db", OF _ admit_body_healthy_rows]
      split: sum.split)

lemma persist_body_healthy_rows:
  assumes "persist_body b late now rid eid pl key hash db = Commit res db'"
  shows "healthy_rows db' \<subseteq> healthy_rows db"
  using assms by (elim persist_body_Commit) (auto simp: healthy_rows_def snapshot_rows_def split: if_splits)

lemma persist_healthy_rows:
  "healthy_rows (snd (persistPlatformUpdateRolloutPlan fate b late now rid eid pl key hash db0 db)) \<subseteq> healthy_rows db"
  by (simp add: persistPlatformUpdateRolloutPlan_def
      run_tx_invariant [where P = "\<lambda>d. healthy_rows d \<subseteq> healthy_rows db", OF _ persist_body_healthy_rows]
      split: sum.split)

text \<open>C3. A node is declared healthy only on proof: when one event of the Manager makes an entry
  healthy, the event is a health check or a controller step, the entry was updating in a running
  rollout, its bound job for that server and the target version succeeded, no other update job was
  created for the server since the plan (the count of jobs is the observed count plus one) and none is
  unresolved, and the job's Agent is online with the target version and a compatible protocol and sent
  a heartbeat with its current credentials after the completion, at most two minutes ago.\<close>

theorem healthy_requires_proof:
  assumes "rollout_inv db" "e \<in> set (entries db)" "en_status e \<noteq> E_healthy"
    and "e' \<in> set (entries (rollout_exec ev db))" "en_id e' = en_id e" "en_status e' = E_healthy"
  shows "\<exists>b now. ((\<exists>fate wr raw. ev = Ev_health fate b now wr raw) \<or> (\<exists>fate wr nid raw db0. ev = Ev_advance fate b now wr nid raw db0))
    \<and> en_status e = E_updating
    \<and> (\<exists>r \<in> set (rollouts db). \<exists>j \<in> set (jobs db). \<exists>a \<in> set (agents db).
        r_id r = en_rollout e \<and> r_status r = R_running
        \<and> en_job e = Some (j_id j) \<and> j_server j = en_server e \<and> j_target j = r_target r
        \<and> a_id a = j_agent j \<and> a_server a = en_server e
        \<and> j_status j = J_succeeded
        \<and> (\<exists>n. en_observed e = Some n \<and> count_jobs (en_server e) db = n + 1)
        \<and> \<not> has_unresolved_job (en_server e) db
        \<and> (\<exists>c h. j_completed j = Some c \<and> a_hb_at a = Some h \<and> c < h \<and> h \<le> now \<and> now - h \<le> minutes 2)
        \<and> a_hb_gen a = Some (a_cred_gen a) \<and> a_status a = ''online'' \<and> a_version a = r_target r
        \<and> compat_ok (EvaluateCompatibility b (a_version a) (a_protocol a)))"
proof -
  have new: "e' \<in> healthy_rows (rollout_exec ev db)" using assms(4,6) by (simp add: healthy_rows_def)
  have old: "e' \<notin> healthy_rows db"
    using distinct_key_eq [OF rollout_invD(3) [OF assms(1)], of e' e] assms(2,3,5)
    by (auto simp: healthy_rows_def)
  have "\<exists>b now. ((\<exists>fate wr raw. ev = Ev_health fate b now wr raw) \<or> (\<exists>fate wr nid raw db0. ev = Ev_advance fate b now wr nid raw db0))
    \<and> (\<exists>x \<in> set (entries db). en_id x = en_id e' \<and> en_status x = E_updating \<and> health_evidence b now x db)"
  proof (cases ev)
    case (Ev_health fate b now wr raw)
    with new old health_healthy_rows show ?thesis by auto
  next
    case (Ev_advance fate b now wr nid raw db0)
    obtain rid where "rollout_exec ev db \<in> {db, snd (ReconcilePlatformUpdateRolloutHealth fate b now wr rid db),
        snd (admitPlatformUpdateRolloutMutation fate b now nid rid db)}"
      using advance_db [of fate b now wr nid raw db0 db] Ev_advance by auto
    with new old admit_healthy_rows [of fate b now nid rid db] have
      "e' \<in> healthy_rows (snd (ReconcilePlatformUpdateRolloutHealth fate b now wr rid db))" by auto
    from health_healthy_rows [OF this old] Ev_advance show ?thesis by blast
  next
    case (Ev_job j)
    with new old show ?thesis
      by (simp add: healthy_rows_cong [OF rollouts_more(2) [OF job_exec_frame]])
  qed (use new old in \<open>auto dest: subsetD [OF admit_healthy_rows] subsetD [OF persist_healthy_rows]\<close>)
  then obtain b now x where ev: "(\<exists>fate wr raw. ev = Ev_health fate b now wr raw) \<or> (\<exists>fate wr nid raw db0. ev = Ev_advance fate b now wr nid raw db0)"
    and x: "x \<in> set (entries db)" "en_id x = en_id e" "en_status x = E_updating" "health_evidence b now x db"
    using assms(5) by auto
  then have "x = e" using distinct_key_eq [OF rollout_invD(3) [OF assms(1)] x(1) assms(2)] by blast
  with ev x show ?thesis unfolding health_evidence_def health_proven_def by blast
qed


lemma complete_without_mutation_False:
  "completePlatformUpdateRolloutWithoutMutationTx now rid st db = Inr (False, db') \<Longrightarrow> rollout_unfinished rid db"
  by (auto simp: completePlatformUpdateRolloutWithoutMutationTx_def Let_def split: if_splits option.splits)

lemma admit_entry_no_rollback: "admit_entry now nid rid target e db \<noteq> Rollback (Inr x)"
  by (simp add: admit_entry_def admission_failed_def split: sum.split)

lemma admit_next_no_rollback: "admit_next now nid rid target db \<noteq> Rollback (Inr x)"
  by (simp add: admit_next_def admit_entry_no_rollback split: option.split sum.split bool.split)

lemma admit_body_no_rollback: "admit_body b now nid rid db \<noteq> Rollback (Inr x)"
  by (simp add: admit_body_def admission_failed_def admit_next_no_rollback split: option.split sum.split bool.split)

lemma admit_next_Inr:
  assumes "admit_next now nid rid target db = Commit (Inr (job, rep)) db'"
  obtains e db1 where "next_entry rid db = Some e" "rep = False"
    "createPlatformUpdateJobTx nid now (en_server e) target db = Inr (job, db1)"
    "en_observed e = Some (count_jobs (en_server e) db)" "db' = bind_entry (en_id e) (j_id job) db1"
proof (cases "next_entry rid db")
  case (Some e)
  with assms have "admit_entry now nid rid target e db = Commit (Inr (job, rep)) db'"
    by (simp add: admit_next_def split: if_splits)
  then show ?thesis by (cases rule: admit_entry_Commit) (auto intro: that [OF Some])
qed (use assms in \<open>auto simp: admit_next_def split: if_splits sum.splits bool.splits\<close>)

lemma admit_body_Inr:
  assumes "admit_body b now nid rid db = Commit (Inr (job, False)) db'"
  obtains r where "lookup_row r_id rid (rollouts db) = Some r" "r_status r \<in> {R_pending, R_running}"
    "r_status r = R_running \<longrightarrow> replay_job rid db = None" "b_version b = r_target r"
    "admit_next now nid rid (r_target r) (if r_status r = R_pending then start_rollout now rid db else db)
       = Commit (Inr (job, False)) db'"
  using assms by (elim admit_body_Commit) auto

lemma admit_Inr:
  assumes "admitPlatformUpdateRolloutMutation fate b now nid raw db = (Inr x, db')"
  obtains rid where "canonicalPlatformUpdateServerID raw = Inr rid" "admit_body b now nid rid db = Commit (Inr x) db'"
  using assms unfolding admitPlatformUpdateRolloutMutation_def
  by (auto split: sum.splits dest!: run_tx_Inr simp: admit_body_no_rollback)

lemma start_rollout_reads [simp]:
  "prior_unproven (start_rollout now rid db) e = prior_unproven db e"
  "next_entry x (start_rollout now rid db) = next_entry x db"
  "count_jobs srv (start_rollout now rid db) = count_jobs srv db"
  by (simp_all add: prior_unproven_def next_entry_def count_jobs_def)


lemma bind_entry_set:
  assumes "rollout_inv db" "e \<in> set (entries db)" "unbound_entry (en_id e) e"
  shows "set (entries (bind_entry (en_id e) jid db))
    = insert (e\<lparr>en_status := E_updating, en_job := Some jid\<rparr>) (set (entries db) - {e})"
proof -
  have "set (update_where (unbound_entry (en_id e)) (\<lambda>e. e\<lparr>en_status := E_updating, en_job := Some jid\<rparr>) (entries db))
    = insert (e\<lparr>en_status := E_updating, en_job := Some jid\<rparr>) (set (entries db) - {e})"
    using rollout_invD(3) [OF assms(1)] assms(2) _ assms(3)
    by (rule update_single) (simp add: unbound_entry_def)
  then show ?thesis by (simp add: bind_entry_def)
qed

lemma admit_next_stops:
  "admit_next now nid rid target db = Commit (Inr x) db' \<Longrightarrow> e \<in> set (entries_of rid db) \<Longrightarrow>
     en_status e \<notin> {E_failed, E_outcome_unknown}"
  by (auto simp: admit_next_def split: if_splits)

lemma admit_body_admitted:
  assumes inv: "rollout_inv db" and body: "admit_body b now nid rid db = Commit (Inr (job, False)) db'"
  obtains r e a s where "r \<in> set (rollouts db)" "r_id r = rid" "r_status r \<in> {R_pending, R_running}"
    "r_target r = b_version b" "e \<in> set (entries db)" "en_rollout e = rid" "unbound_entry (en_id e) e"
    "\<And>p. p \<in> set (entries db) \<Longrightarrow> en_rollout p = rid \<Longrightarrow> en_status p \<notin> {E_updating, E_failed, E_outcome_unknown}"
    "\<not> prior_unproven db e" "en_observed e = Some (count_jobs (en_server e) db)"
    "\<not> has_unresolved_job (en_server e) db"
    "s \<in> set (servers db)" "s_id s = en_server e" "s_status s \<noteq> ''disabled''" "s_role s = ''vpn''"
    "a \<in> set (agents db)" "a_server a = en_server e" "a_software_update a = Some platformUpdateCapabilityJSON"
    "job = new_job nid now (en_server e) (a_id a) (r_target r)" "jobs db' = jobs db @ [job]"
    "set (entries db') = insert (e\<lparr>en_status := E_updating, en_job := Some (j_id job)\<rparr>) (set (entries db) - {e})"
proof -
  from body obtain r where r: "lookup_row r_id rid (rollouts db) = Some r" "r_status r \<in> {R_pending, R_running}"
    "r_status r = R_running \<longrightarrow> replay_job rid db = None" "b_version b = r_target r"
    and nxt: "admit_next now nid rid (r_target r) (if r_status r = R_pending then start_rollout now rid db else db)
       = Commit (Inr (job, False)) db'"
    by (rule admit_body_Inr)
  let ?db = "if r_status r = R_pending then start_rollout now rid db else db"
  have reads: "entries ?db = entries db" "entries_of rid ?db = entries_of rid db" "servers ?db = servers db"
    "agents ?db = agents db" "jobs ?db = jobs db" "next_entry rid ?db = next_entry rid db" by simp_all
  have same: "has_unresolved_job x ?db = has_unresolved_job x db" "count_jobs x ?db = count_jobs x db" for x
    by (simp_all add: has_unresolved_job_def count_jobs_def)
  from nxt obtain e db1 where e: "next_entry rid ?db = Some e"
    and cr: "createPlatformUpdateJobTx nid now (en_server e) (r_target r) ?db = Inr (job, db1)"
    and obs: "en_observed e = Some (count_jobs (en_server e) ?db)"
    and db': "db' = bind_entry (en_id e) (j_id job) db1"
    by (rule admit_next_Inr)
  from cr obtain a :: agent_row and s :: server_row where
    s: "lookup_row s_id (en_server e) (servers ?db) = Some s" "s_status s \<noteq> ''disabled''" "s_role s = ''vpn''"
    and a: "admission_agent (en_server e) ?db = Some a" "a_software_update a = Some platformUpdateCapabilityJSON"
    and free: "\<not> has_unresolved_job (en_server e) ?db"
    and job: "job = new_job nid now (en_server e) (a_id a) (r_target r)"
    and db1: "db1 = ?db\<lparr>jobs := jobs ?db @ [job]\<rparr>"
    by (rule createPlatformUpdateJobTx_Inr)
  note e' = next_entry_Some [OF e [unfolded reads(6)]]
  have inv1: "rollout_inv db1"
    using rollout_inv_jobs [OF _ createPlatformUpdateJobTx_step [OF cr]] start_rollout_inv inv db1 by simp
  have "entries db1 = entries db" by (simp add: db1)
  with bind_entry_set [OF inv1] e'(1,3) have set: "set (entries db') =
      insert (e\<lparr>en_status := E_updating, en_job := Some (j_id job)\<rparr>) (set (entries db) - {e})"
    by (simp add: db')
  have quiet: "en_status p \<notin> {E_updating, E_failed, E_outcome_unknown}"
    if "p \<in> set (entries db)" "en_rollout p = rid" for p
    using admit_next_stops [OF nxt, of p] no_updating_without_replay [OF inv, of rid p]
      pending_no_updating [OF inv r(1), of p] that r(2,3) reads(2) by auto
  have agent: "a \<in> set (agents db)" "a_server a = en_server e"
    using a(1) reads(4) by (auto simp: admission_agent_def select_def dest!: greatest_by_mem)
  have jobs: "jobs db' = jobs db @ [job]" by (simp add: db' db1 bind_entry_def)
  show thesis
    by (rule that [of r e s a])
      (use lookup_row_Some [OF r(1)] lookup_row_Some [OF s(1) [unfolded reads(3)]] r s a e' quiet agent job jobs set
        free [unfolded same] obs [unfolded same] in simp_all)
qed

text \<open>C4. What an admission guarantees.  When the next node of a rollout is admitted, the rollout was
  pending or running, its target is the version of the Manager, the entry was unbound, every earlier
  entry is healthy or skipped, no entry is updating or stopped, no update job was created for the
  server since the plan and none is unresolved, the server is an enabled VPN node whose Agent has the
  update capability; and exactly one job was added, for that server and Agent and for the target,
  and exactly that entry was bound to it.\<close>

theorem admission_sound:
  assumes "rollout_inv db"
    and "admitPlatformUpdateRolloutMutation fate b now nid raw db = (Inr (job, False), db')"
  shows "\<exists>r \<in> set (rollouts db). \<exists>e \<in> set (entries db). \<exists>a \<in> set (agents db). \<exists>s \<in> set (servers db).
    canonicalPlatformUpdateServerID raw = Inr (r_id r) \<and> r_status r \<in> {R_pending, R_running}
    \<and> r_target r = b_version b \<and> en_rollout e = r_id r \<and> en_status e \<in> {E_queued, E_waiting} \<and> en_job e = None
    \<and> (\<forall>p \<in> set (entries db). en_rollout p = r_id r \<longrightarrow>
         en_status p \<notin> {E_updating, E_failed, E_outcome_unknown}
         \<and> (en_position p < en_position e \<longrightarrow> en_status p \<in> {E_healthy, E_skipped}))
    \<and> en_observed e = Some (count_jobs (en_server e) db) \<and> \<not> has_unresolved_job (en_server e) db
    \<and> s_id s = en_server e \<and> s_status s \<noteq> ''disabled'' \<and> s_role s = ''vpn''
    \<and> a_server a = en_server e \<and> a_software_update a = Some platformUpdateCapabilityJSON
    \<and> job = new_job nid now (en_server e) (a_id a) (r_target r) \<and> jobs db' = jobs db @ [job]
    \<and> set (entries db') = insert (e\<lparr>en_status := E_updating, en_job := Some (j_id job)\<rparr>) (set (entries db) - {e})"
proof -
  from assms(2) obtain rid where rid: "canonicalPlatformUpdateServerID raw = Inr rid"
    and body: "admit_body b now nid rid db = Commit (Inr (job, False)) db'"
    by (rule admit_Inr)
  show ?thesis
    using assms(1) body
  proof (rule admit_body_admitted, goal_cases)
    case (1 r e a s)
    then show ?case
      unfolding prior_unproven_def unbound_entry_def rid
      by (intro bexI [of _ r] bexI [of _ e] bexI [of _ a] bexI [of _ s] conjI ballI impI) auto
  qed
qed

text \<open>C5. Admission is idempotent under lost acknowledgements: once an admission committed, whether
  its caller saw the result or a commit error, a retry with any clock, identifier and Manager build
  returns the same job as replayed (or reports a commit error of its own) and changes nothing; in
  particular it creates no second job.\<close>

theorem admission_replay:
  assumes "rollout_inv db" "canonicalPlatformUpdateServerID raw = Inr rid"
    and "admit_body b now nid rid db = Commit (Inr (job, False)) db'"
  shows "snd (admitPlatformUpdateRolloutMutation Commit_ack_lost b now nid raw db) = db'
    \<and> admitPlatformUpdateRolloutMutation fate b2 now2 nid2 raw db'
      = (if fate = Committed then Inr (job, True) else Inl CommitError, db')"
proof -
  from assms(1,3) obtain e where re: "e \<in> set (entries db)" "en_rollout e = rid"
    "\<And>p. p \<in> set (entries db) \<Longrightarrow> en_rollout p = rid \<Longrightarrow> en_status p \<notin> {E_updating, E_failed, E_outcome_unknown}"
    and jobs: "jobs db' = jobs db @ [job]"
    and set: "set (entries db') = insert (e\<lparr>en_status := E_updating, en_job := Some (j_id job)\<rparr>) (set (entries db) - {e})"
    by (rule admit_body_admitted) (rule that, assumption+)
  let ?e = "e\<lparr>en_status := E_updating, en_job := Some (j_id job)\<rparr>"
  have inv: "rollout_inv db'" using assms(1,3) by (rule admit_body_inv)
  have job: "bound_job ?e db' = Some job"
    using rollout_invD(1) [OF inv] jobs lookup_row_unique [of j_id "jobs db'" job]
    by (simp add: bound_job_def jobs_inv_def)
  have "least_by en_position (select (\<lambda>e. en_status e = E_updating \<and> bound_job e db' \<noteq> None) (entries_of rid db')) = Some ?e"
    by (rule least_by_singleton) (use re set job in \<open>auto simp: select_def\<close>)
  then have replay: "replay_job rid db' = Some job" by (simp add: replay_job_def job)
  obtain r' where r': "r' \<in> set (rollouts db')" "r_id r' = rid"
    using rollout_invD(5) [OF inv] set re(2) unfolding linked_def by auto
  have "entry_ok r' ?e"
    using linkedD [OF rollout_invD(5) [OF inv], of ?e r'] set r' re(2) by simp
  then have "r_status r' = R_running" by (auto simp: entry_ok_def split: rollout_status.splits)
  moreover have "lookup_row r_id rid (rollouts db') = Some r'"
    using lookup_row_unique [OF rollout_invD(2) [OF inv] r'(1)] r'(2) by simp
  ultimately have "admit_body b2 now2 nid2 rid db' = Commit (Inr (job, True)) db'"
    using replay by (simp add: admit_body_def)
  with assms(2,3) show ?thesis
    by (cases fate) (simp_all add: admitPlatformUpdateRolloutMutation_def)
qed


lemma plan_entries_Inr:
  assumes "plan_entries mgr target seen cs = Inr ps"
  shows "map (\<lambda>c. canonicalPlatformUpdateServerID (ca_server c)) cs = map (\<lambda>p. Inr (p_server p)) ps
    \<and> distinct (map p_server ps) \<and> set (map p_server ps) \<inter> set seen = {}
    \<and> map p_blockers ps = map (candidate_blockers mgr target) cs
    \<and> (\<forall>p \<in> set ps. p_eligible p \<longleftrightarrow> p_blockers p = [])"
  using assms
proof (induction cs arbitrary: seen ps)
  case (Cons c cs)
  from Cons.prems obtain srv qs where c: "canonicalPlatformUpdateServerID (ca_server c) = Inr srv" "srv \<notin> set seen"
    "plan_entries mgr target (srv # seen) cs = Inr qs"
    "ps = \<lparr>p_server = srv, p_eligible = (candidate_blockers mgr target c = []),
       p_blockers = candidate_blockers mgr target c, p_observed = 0\<rparr> # qs"
    by (auto simp: Let_def split: sum.splits if_splits)
  from Cons.IH [OF c(3)] c(1,2,4) show ?case by auto
qed simp

lemma candidate_blockers_empty:
  "candidate_blockers mgr target c = [] \<longleftrightarrow>
     mgr = target \<and> ca_role c = ''vpn'' \<and> \<not> ca_server_disabled c \<and> ca_agent_registered c
     \<and> \<not> ca_agent_disabled c \<and> ca_capability_ready c \<and> \<not> ca_active_update c \<and> ca_protocol_compatible c"
  by (auto simp: candidate_blockers_def)

text \<open>The plan is the caller's order: nothing is dropped, reordered or duplicated, an entry is
  eligible exactly when the candidate passes every condition, and an ineligible entry carries at least
  one blocker.\<close>

theorem plan_faithful:
  assumes "PlanPlatformUpdateRollout mgr target cs = Inr pl"
  shows "validPlatformUpdateTargetVersion target \<and> pl_target pl = target \<and> cs \<noteq> []
    \<and> map (\<lambda>c. canonicalPlatformUpdateServerID (ca_server c)) cs = map (\<lambda>p. Inr (p_server p)) (pl_entries pl)
    \<and> distinct (map p_server (pl_entries pl))
    \<and> map p_eligible (pl_entries pl) = map (\<lambda>c. mgr = target \<and> ca_role c = ''vpn''
        \<and> \<not> ca_server_disabled c \<and> ca_agent_registered c \<and> \<not> ca_agent_disabled c \<and> ca_capability_ready c
        \<and> \<not> ca_active_update c \<and> ca_protocol_compatible c) cs
    \<and> (\<forall>p \<in> set (pl_entries pl). p_eligible p \<longleftrightarrow> p_blockers p = [])"
proof -
  from assms have valid: "validPlatformUpdateTargetVersion target" "pl_target pl = target" "cs \<noteq> []"
    and "plan_entries mgr target [] cs = Inr (pl_entries pl)"
    by (auto simp: PlanPlatformUpdateRollout_def split: if_splits sum.splits)
  note plan = plan_entries_Inr [OF this(4)]
  then have "map p_eligible (pl_entries pl) = map (\<lambda>p. p_blockers p = []) (pl_entries pl)" by simp
  also have "\<dots> = map (\<lambda>bs. bs = []) (map p_blockers (pl_entries pl))" by simp
  also have "\<dots> = map (\<lambda>c. candidate_blockers mgr target c = []) cs" using plan by simp
  finally show ?thesis using plan valid by (simp add: candidate_blockers_empty)
qed

lemma evolves_lookup:
  assumes "evolves rollout_advance t t'" "lookup_row r_key k (t @ u) = Some r"
  shows "\<exists>r'. lookup_row r_key k (t' @ u) = Some r' \<and> r_id r' = r_id r \<and> r_hash r' = r_hash r"
  using assms unfolding evolves_def lookup_row_def
  by (induction rule: list_all2_induct) (auto simp: rollout_advance_def split: if_splits)

lemma lookup_history:
  assumes "history db db'" "lookupPlatformUpdateRolloutCreation key db = Some x"
  shows "lookupPlatformUpdateRolloutCreation key db' = Some x"
proof -
  from assms(2) obtain r where r: "lookup_row r_key (Some key) (rollouts db) = Some r" "x = (r_id r, r_hash r)"
    by (auto simp: lookupPlatformUpdateRolloutCreation_def)
  from assms(1) obtain R R' where R: "rollouts db' = R @ R'" "evolves rollout_advance (rollouts db) R"
    unfolding history_def by blast
  from r(1) have "lookup_row r_key (Some key) (rollouts db @ R') = Some r"
    by (simp add: lookup_row_def find_append)
  from evolves_lookup [OF R(2) this] r(2) show ?thesis
    by (auto simp: lookupPlatformUpdateRolloutCreation_def R(1))
qed


text \<open>C11. Creation is idempotent: once a creation with a key committed (even when its acknowledgement
  was lost), then after any further execution a well-formed creation with the same key returns the
  same rollout as replayed when its fingerprint is the same, and a conflict otherwise; it changes
  nothing.\<close>

theorem creation_idempotent:
  assumes "persist_body b late now rid eid pl key hash db = Commit res db1" "key \<noteq> []"
    and "db2 = rollout_run es db1"
    and "validPlatformUpdateTargetVersion (pl_target pl2)" "pl_entries pl2 \<noteq> []"
      "check_plan_servers [] (pl_entries pl2) = Inr ()"
  shows "persistPlatformUpdateRolloutPlan fate b2 late2 now2 rid2 eid2 pl2 key hash2 db2 db2
    = (if hash2 = hash then Inr (rid, True) else Inl ErrPlatformUpdateRolloutIdempotencyConflict, db2)"
proof -
  have "lookupPlatformUpdateRolloutCreation key db1 = Some (rid, hash)"
    using assms(1)
  proof (rule persist_body_Commit, goal_cases)
    case (1 ps)
    then show ?case using assms(2)
      by (simp add: lookupPlatformUpdateRolloutCreation_def lookup_row_def find_append new_rollout_def)
  qed
  then have "lookupPlatformUpdateRolloutCreation key db2 = Some (rid, hash)"
    unfolding assms(3) using lookup_history [OF rollout_run_history] by blast
  then show ?thesis
    using assms(2,4-6) by (simp add: persistPlatformUpdateRolloutPlan_def replay_creation_def)
qed

lemma updating_entry_unique:
  assumes "rollout_inv db" "e \<in> set (entries db)" "en_rollout e = rid" "en_status e = E_updating"
  shows "updating_entry rid db = Some e"
  unfolding updating_entry_def
proof (rule least_by_singleton)
  show "e \<in> set (select (\<lambda>e. en_status e = E_updating) (entries_of rid db))"
    using assms(2-) by (simp add: select_def)
  fix y assume "y \<in> set (select (\<lambda>e. en_status e = E_updating) (entries_of rid db))"
  then have "y \<in> set (entries db)" "en_rollout y = en_rollout e" "en_status y = E_updating"
    using assms(3) by (simp_all add: select_def)
  then show "y = e" using updating_unique [OF assms(1) _ assms(2)] assms(4) by blast
qed

lemma prove_health_proven:
  assumes "health_proven b now r e j a db" "updating_row (en_id e) e"
    "distinct (map en_id (entries db))" "e \<in> set (entries db)"
  shows "prove_health b now wr r e j a db =
    (case healthy_write_refused wr e db of
       Some raised \<Rightarrow> Abort (ErrText raised)
     | None \<Rightarrow>
         (let db1 = completePlatformUpdateRolloutIfFinishedTx wr (r_id r) (mark_healthy wr (en_id e) db)
          in case rollout_status_of (r_id r) db1 of
               None \<Rightarrow> Abort ErrNoRows
             | Some st \<Rightarrow> Commit (Inr \<lparr>h_rollout = st, h_entry = Some E_healthy, h_waiting = [], h_server = en_server e,
                 h_job = j_id j, h_error = [], h_blocker = []\<rparr>) db1))"
proof -
  have "rows_affected (updating_row (en_id e)) (entries db) = 1"
    using assms(3,4,2) by (rule rows_affected_key) (simp add: updating_row_def)
  moreover from assms(1) obtain c where "j_completed j = Some c" "\<not> heartbeat_unproven now a c"
    "\<not> agent_unproven b a (r_target r)"
    by (auto simp: health_proven_def heartbeat_unproven_def agent_unproven_def)
  ultimately show ?thesis
    using assms(1) by (auto simp: prove_health_def health_proven_def Let_def)
qed

lemma mark_healthy_row:
  assumes "rollout_inv db" "e \<in> set (entries db)" "en_status e = E_updating"
  shows "set (entries (mark_healthy now (en_id e) db))
    = insert (e\<lparr>en_status := E_healthy, en_blocker := None, en_completed := Some now\<rparr>) (set (entries db) - {e})"
proof -
  have "set (update_where (updating_row (en_id e))
      (\<lambda>e. e\<lparr>en_status := E_healthy, en_blocker := None, en_completed := Some now\<rparr>) (entries db))
    = insert (e\<lparr>en_status := E_healthy, en_blocker := None, en_completed := Some now\<rparr>) (set (entries db) - {e})"
    using rollout_invD(3) [OF assms(1)] assms(2)
    by (rule update_single) (use assms(3) in \<open>simp_all add: updating_row_def\<close>)
  then show ?thesis by (simp add: mark_healthy_def)
qed

lemma rollout_status_of_row:
  "rollout_inv db \<Longrightarrow> r \<in> set (rollouts db) \<Longrightarrow> rollout_status_of (r_id r) db = Some (r_status r)"
  using lookup_row_unique rollout_invD(2) by (fastforce simp: rollout_status_of_def)

lemma complete_status:
  assumes "rollout_inv db" "r \<in> set (rollouts db)" "r_status r = R_running"
  shows "rollout_status_of (r_id r) (completePlatformUpdateRolloutIfFinishedTx now (r_id r) db)
    = Some (if rollout_unfinished (r_id r) db then R_running else R_succeeded)"
proof (cases "rollout_unfinished (r_id r) db")
  case False
  let ?r = "r\<lparr>r_status := R_succeeded, r_error := None, r_completed := Some now\<rparr>"
  let ?db = "completePlatformUpdateRolloutIfFinishedTx now (r_id r) db"
  have "?r \<in> set (rollouts ?db)"
    using False assms(2,3) by (auto simp: completePlatformUpdateRolloutIfFinishedTx_def set_update_where)
  from rollout_status_of_row [OF complete_rollout_inv [OF assms(1)] this] False show ?thesis by simp
qed (use rollout_status_of_row [OF assms(1,2)] assms(3) in \<open>simp add: completePlatformUpdateRolloutIfFinishedTx_def\<close>)

text \<open>The rows of the evidence are the rows the code and the trigger look up.\<close>

definition evidence_rows :: "rollout_db \<Rightarrow> entry_row \<Rightarrow> rollout_row \<Rightarrow> job_row \<Rightarrow> agent_row \<Rightarrow> bool" where
  "evidence_rows db e r j a \<longleftrightarrow>
     r \<in> set (rollouts db) \<and> lookup_row r_id (en_rollout e) (rollouts db) = Some r \<and> r_id r = en_rollout e
     \<and> r_status r = R_running \<and> en_target e = r_target r \<and> en_job e = Some (j_id j)
     \<and> find (\<lambda>j. Some (j_id j) = en_job e \<and> j_server j = en_server e \<and> j_target j = r_target r) (jobs db) = Some j
     \<and> find (\<lambda>a. a_id a = j_agent j \<and> a_server a = en_server e) (agents db) = Some a"

lemma evidence_looked_up:
  assumes inv: "rollout_inv db" and e: "e \<in> set (entries db)" "distinct (map a_id (agents db))"
    and ev: "health_evidence b now e db"
  obtains r j a where "evidence_rows db e r j a" "health_proven b now r e j a db"
proof -
  from ev obtain r j a where r: "r \<in> set (rollouts db)" "r_id r = en_rollout e" "r_status r = R_running"
    and j: "j \<in> set (jobs db)" "en_job e = Some (j_id j)" "j_server j = en_server e" "j_target j = r_target r"
    and a: "a \<in> set (agents db)" "a_id a = j_agent j" "a_server a = en_server e"
    and p: "health_proven b now r e j a db"
    unfolding health_evidence_def by blast
  have look: "lookup_row r_id (en_rollout e) (rollouts db) = Some r"
    using lookup_row_unique [OF rollout_invD(2) [OF inv] r(1)] r(2) by simp
  have J: "find (\<lambda>j. Some (j_id j) = en_job e \<and> j_server j = en_server e \<and> j_target j = r_target r) (jobs db) = Some j"
    using j rollout_invD(1) [OF inv] by (intro find_unique [where k = j_id]) (auto simp: jobs_inv_def)
  have A: "find (\<lambda>a. a_id a = j_agent j \<and> a_server a = en_server e) (agents db) = Some a"
    using a e(2) by (intro find_unique [where k = a_id]) auto
  have "en_target e = r_target r"
    using linkedD [OF rollout_invD(5) [OF inv] e(1) r(1)] r(2) by (simp add: entry_ok_def)
  with r look J A j(2) have "evidence_rows db e r j a" by (simp add: evidence_rows_def)
  then show thesis using p by (rule that)
qed

lemma evidence_rows_unique:
  "evidence_rows db e r j a \<Longrightarrow> evidence_rows db e r' j' a' \<Longrightarrow> r' = r \<and> j' = j \<and> a' = a"
  by (auto simp: evidence_rows_def)

lemma compat_protocol_one:
  "b_min_protocol b = 1 \<Longrightarrow> b_protocol b = 1 \<Longrightarrow> compat_ok (EvaluateCompatibility b v p) \<longleftrightarrow> p = Some 1"
  by (auto simp: compat_ok_def EvaluateCompatibility_def EvaluateCompatibilityWithPolicy_def split: option.splits)

text \<open>The trigger lets a row through exactly when the evidence holds at the time it reads.\<close>

lemma write_refused_rows:
  assumes "evidence_rows db e r j a" "b_min_protocol b = 1" "b_protocol b = 1"
  shows "healthy_write_refused wr e db = None \<longleftrightarrow> health_proven b wr r e j a db"
proof -
  have parent: "list_ex (\<lambda>x. r_id x = en_rollout e \<and> r_target x = r_target r \<and> r_status x = R_running) (rollouts db)"
    using assms(1) by (auto simp: evidence_rows_def list_ex_iff)
  have agent: "en_target e = r_target r" and job: "en_job e \<noteq> None"
    and J: "find (\<lambda>j. Some (j_id j) = en_job e \<and> j_server j = en_server e \<and> j_target j = r_target r) (jobs db) = Some j"
    and A: "find (\<lambda>a. a_id a = j_agent j \<and> a_server a = en_server e) (agents db) = Some a"
    using assms(1) unfolding evidence_rows_def by blast+
  note look = agent job J A
  show ?thesis
  proof (cases "\<exists>n c. en_observed e = Some n \<and> j_completed j = Some c \<and> j_status j = J_succeeded")
    case True
    then obtain n c where c: "en_observed e = Some n" "j_completed j = Some c" "j_status j = J_succeeded" by blast
    have heart: "heartbeat_unproven wr a c \<longleftrightarrow> \<not> (
        (\<exists>h. a_hb_at a = Some h \<and> c < h \<and> h \<le> wr \<and> wr - h \<le> minutes 2) \<and> a_hb_gen a = Some (a_cred_gen a))"
      by (auto simp: heartbeat_unproven_def split: option.splits)
    then show ?thesis
      by (simp add: healthy_write_refused_def health_proven_def compat_protocol_one [OF assms(2,3)] parent look c
          heart split: option.split) auto
  next
    case False
    then show ?thesis
      by (auto simp: healthy_write_refused_def health_proven_def look split: option.splits job_status.splits)
  qed
qed

lemma write_refused_evidence:
  assumes inv: "rollout_inv db" and e: "e \<in> set (entries db)" "distinct (map a_id (agents db))"
    and b: "b_min_protocol b = 1" "b_protocol b = 1" and rows: "evidence_rows db e r j a"
  shows "healthy_write_refused wr e db = None \<longleftrightarrow> health_evidence b wr e db"
proof
  assume "healthy_write_refused wr e db = None"
  with write_refused_rows [OF rows b] have "health_proven b wr r e j a db" by simp
  moreover have "j \<in> set (jobs db) \<and> j_server j = en_server e \<and> j_target j = r_target r"
    "a \<in> set (agents db) \<and> a_id a = j_agent j \<and> a_server a = en_server e"
    using rows find_SomeD unfolding evidence_rows_def by fast+
  ultimately show "health_evidence b wr e db"
    using rows unfolding health_evidence_def evidence_rows_def by blast
next
  assume "health_evidence b wr e db"
  from evidence_looked_up [OF inv e this] obtain r' j' a' where "evidence_rows db e r' j' a'" "health_proven b wr r' e j' a' db" .
  then show "healthy_write_refused wr e db = None"
    using evidence_rows_unique [OF rows] write_refused_rows [OF rows b] by blast
qed

lemma reconcile_rows:
  assumes inv: "rollout_inv db" and e: "e \<in> set (entries db)" "en_status e = E_updating"
    "canonicalPlatformUpdateServerID (en_server e) = Inr (en_server e)"
    and rows: "evidence_rows db e r j a" "j_status j = J_succeeded"
  shows "reconcile_body b now wr (en_rollout e) db = prove_health b now wr r e j a db"
proof -
  have look: "lookup_row r_id (en_rollout e) (rollouts db) = Some r" "r_status r = R_running"
    and J: "find (\<lambda>j. Some (j_id j) = en_job e \<and> j_server j = en_server e \<and> j_target j = r_target r) (jobs db) = Some j"
    and A: "find (\<lambda>a. a_id a = j_agent j \<and> a_server a = en_server e) (agents db) = Some a"
    using rows(1) unfolding evidence_rows_def by blast+
  show ?thesis
    by (simp add: reconcile_body_def reconcile_entry_def look J A rows(2) updating_entry_unique [OF inv e(1) refl e(2)] e(3))
qed

lemma reconcile_entry_proven:
  assumes inv: "rollout_inv db" and e: "e \<in> set (entries db)" "en_status e = E_updating"
    "canonicalPlatformUpdateServerID (en_server e) = Inr (en_server e)"
    and rows: "evidence_rows db e r j a" "health_proven b now r e j a db" and wr: "healthy_write_refused wr e db = None"
    and st: "st = (if rollout_unfinished (en_rollout e) (mark_healthy wr (en_id e) db) then R_running else R_succeeded)"
  shows "reconcile_body b now wr (en_rollout e) db = Commit (Inr \<lparr>h_rollout = st, h_entry = Some E_healthy,
       h_waiting = [], h_server = en_server e, h_job = j_id j, h_error = [], h_blocker = []\<rparr>)
       (completePlatformUpdateRolloutIfFinishedTx wr (en_rollout e) (mark_healthy wr (en_id e) db))"
proof -
  have r: "r \<in> set (rollouts (mark_healthy wr (en_id e) db))" "r_status r = R_running" "r_id r = en_rollout e"
    using rows(1) by (simp_all add: mark_healthy_def evidence_rows_def)
  have "j_status j = J_succeeded" using rows(2) by (simp add: health_proven_def)
  note p = prove_health_proven [OF rows(2) _ rollout_invD(3) [OF inv] e(1), of wr]
  show ?thesis
    using complete_status [OF mark_healthy_inv [OF inv e(1,2)] r(1,2), of wr] p e(2) wr r(3) st
    unfolding reconcile_rows [OF inv e rows(1) \<open>j_status j = J_succeeded\<close>] by (simp add: updating_row_def Let_def)
qed

lemma inspect_updating:
  assumes inv: "rollout_inv db" and e: "e \<in> set (entries db)" "en_status e = E_updating" "en_job e = Some jid"
    and r: "r \<in> set (rollouts db)" "r_id r = en_rollout e" "r_status r = R_running"
  obtains s where "inspectPlatformUpdateRolloutStepState (en_rollout e) db = Inr s"
    "ss_status s = R_running" "ss_job s = jid"
proof -
  let ?P = "\<lambda>e. en_status e \<in> {E_updating, E_failed, E_outcome_unknown}"
  have look: "lookup_row r_id (en_rollout e) (rollouts db) = Some r"
    using lookup_row_unique [OF rollout_invD(2) [OF inv] r(1)] r(2) by simp
  have "least_by en_position (select ?P (entries_of (en_rollout e) db)) = Some e"
  proof (rule least_by_singleton)
    show "e \<in> set (select ?P (entries_of (en_rollout e) db))" using e by (simp add: select_def)
    fix y assume "y \<in> set (select ?P (entries_of (en_rollout e) db))"
    then have y: "y \<in> set (entries db)" "en_rollout y = en_rollout e" "?P y" by (auto simp: select_def)
    then have "entry_ok r y" using linkedD [OF rollout_invD(5) [OF inv] _ r(1)] r(2) by simp
    with y(3) r(3) have "en_status y = E_updating" by (auto simp: entry_ok_def)
    then show "y = e" using updating_unique [OF inv y(1) e(1) y(2) _ e(2)] by blast
  qed
  with look r(3) e(3) that show thesis
    by (simp add: inspectPlatformUpdateRolloutStepState_def Let_def coalesce_def)
qed

text \<open>C12. The controller makes progress.  When the health of the updating node is proven at the time the
  controller checks it, one controller step whose transaction commits does the following.  If the database
  finds the same evidence at the later time its trigger reads (the protocol versions of the Manager being the
  1 to 1 of \<open>buildinfo\<close> that the trigger repeats), the step marks the entry healthy as of that time, changes no
  other entry, and reports the node healthy, or the rollout succeeded exactly when every other entry is
  healthy or skipped.  If the evidence has expired by then, the write is refused: the step returns an error
  and the database is unchanged.\<close>

theorem controller_progress:
  assumes inv: "rollout_inv db" and raw: "canonicalPlatformUpdateServerID raw = Inr (en_rollout e)"
    and e: "e \<in> set (entries db)" "en_status e = E_updating" "en_job e = Some jid" "jid \<noteq> []"
      "canonicalPlatformUpdateServerID (en_server e) = Inr (en_server e)"
    and build: "b_min_protocol b = 1" "b_protocol b = 1"
    and ev: "health_evidence b now e db" "distinct (map a_id (agents db))"
  shows "if health_evidence b wr e db
    then \<exists>res db'. AdvancePlatformUpdateRollout Committed b now wr nid raw db db = (Inr res, db')
      \<and> sr_server res = en_server e \<and> sr_job res = jid
      \<and> set (entries db') = insert (e\<lparr>en_status := E_healthy, en_blocker := None, en_completed := Some wr\<rparr>)
          (set (entries db) - {e})
      \<and> sr_action res = (if \<forall>p \<in> set (entries db). en_rollout p = en_rollout e \<and> p \<noteq> e \<longrightarrow> en_status p \<in> {E_healthy, E_skipped}
          then RolloutSucceeded else NodeHealthy)
    else \<exists>raised. AdvancePlatformUpdateRollout Committed b now wr nid raw db db = (Inl (ErrText raised), db)"
proof -
  from evidence_looked_up [OF inv e(1) ev(2,1)] obtain r j a where
    rows: "evidence_rows db e r j a" "health_proven b now r e j a db" .
  then have r: "r \<in> set (rollouts db)" "r_id r = en_rollout e" "r_status r = R_running" and j: "j_id j = jid"
    and js: "j_status j = J_succeeded"
    using e(3) by (simp_all add: evidence_rows_def health_proven_def)
  from inspect_updating [OF inv e(1-3) r] obtain s where s:
    "inspectPlatformUpdateRolloutStepState (en_rollout e) db = Inr s" "ss_status s = R_running" "ss_job s = jid" .
  note step = AdvancePlatformUpdateRollout_def terminalPlatformUpdateRolloutStepResult_def
    ReconcilePlatformUpdateRolloutHealth_def health_step_result_def platformUpdateRolloutStepActionFromHealth_def
  note trigger = write_refused_evidence [OF inv e(1) ev(2) build rows(1), of wr]
  show ?thesis
  proof (cases "health_evidence b wr e db")
    case True
    have set: "set (entries (completePlatformUpdateRolloutIfFinishedTx wr (en_rollout e) (mark_healthy wr (en_id e) db)))
        = insert (e\<lparr>en_status := E_healthy, en_blocker := None, en_completed := Some wr\<rparr>) (set (entries db) - {e})"
      using mark_healthy_row [OF inv e(1,2)] by simp
    have "rollout_unfinished (en_rollout e) (mark_healthy wr (en_id e) db) \<longleftrightarrow>
        \<not> (\<forall>p \<in> set (entries db). en_rollout p = en_rollout e \<and> p \<noteq> e \<longrightarrow> en_status p \<in> {E_healthy, E_skipped})"
      using mark_healthy_row [OF inv e(1,2)] by (auto simp: rollout_unfinished_def)
    with reconcile_entry_proven [OF inv e(1,2,5) rows trigger [THEN iffD2, OF True] refl] True s j e(4) raw canonical_fixed [OF raw] set
    show ?thesis by (simp add: step)
  next
    case False
    then obtain raised where "healthy_write_refused wr e db = Some raised" using trigger by auto
    then have "reconcile_body b now wr (en_rollout e) db = Abort (ErrText raised)"
      using prove_health_proven [OF rows(2) _ rollout_invD(3) [OF inv] e(1), of wr] e(2)
      unfolding reconcile_rows [OF inv e(1,2,5) rows(1) js] by (simp add: updating_row_def)
    with False s e(4) raw canonical_fixed [OF raw] show ?thesis by (simp add: step)
  qed
qed


subsection \<open>Concrete instances\<close>

definition rx_srv :: string where "rx_srv = uuid_format (hex_print (replicate 16 17))"
definition rx_rid :: string where "rx_rid = uuid_format (hex_print (replicate 16 34))"
definition rx_ver :: string where "rx_ver = ''v1.2.3''"
definition rx_build :: build_info where
  "rx_build = \<lparr>b_version = rx_ver, b_protocol = 1, b_min_protocol = 1, b_recommended = rx_ver\<rparr>"
definition rx_server :: server_row where
  "rx_server = \<lparr>s_id = rx_srv, s_role = ''vpn'', s_status = ''online''\<rparr>"
definition rx_agent :: "string \<Rightarrow> time option \<Rightarrow> agent_row" where
  "rx_agent ver hb = \<lparr>a_id = ''a1'', a_server = rx_srv, a_status = ''online'', a_version = ver,
     a_protocol = Some 1, a_software_update = Some platformUpdateCapabilityJSON, a_updated = 0,
     a_token_hash = ''t'', a_cred_gen = 1, a_hb_at = hb, a_hb_gen = Some 1\<rparr>"
definition rx_candidate :: candidate where
  "rx_candidate = \<lparr>ca_server = rx_srv, ca_role = ''vpn'', ca_server_disabled = False,
     ca_agent_registered = True, ca_agent_disabled = False, ca_capability_ready = True,
     ca_active_update = False, ca_protocol_compatible = True\<rparr>"
definition rx_plan :: plan where
  "rx_plan = \<lparr>pl_target = rx_ver, pl_entries =
     [\<lparr>p_server = rx_srv, p_eligible = True, p_blockers = [], p_observed = 0\<rparr>]\<rparr>"
definition rx_empty :: rollout_db where
  "rx_empty = \<lparr>servers = [rx_server], agents = [rx_agent rx_ver None], jobs = [], op_jobs = [], rollouts = [], entries = []\<rparr>"
definition rx_entry :: entry_row where
  "rx_entry = \<lparr>en_id = ''e0'', en_rollout = rx_rid, en_server = rx_srv, en_target = rx_ver, en_position = 0,
     en_job = None, en_status = E_queued, en_blocker = None, en_planning = [], en_observed = Some 0,
     en_completed = None\<rparr>"
definition rx_planned :: rollout_db where
  "rx_planned = rx_empty\<lparr>rollouts := [new_rollout rx_rid rx_ver ''k'' ''h''], entries := [rx_entry]\<rparr>"
definition rx_job :: job_row where "rx_job = new_job ''j1'' 5 rx_srv ''a1'' rx_ver"
definition rx_bound :: entry_row where
  "rx_bound = rx_entry\<lparr>en_status := E_updating, en_job := Some ''j1''\<rparr>"
definition rx_running :: rollout_row where
  "rx_running = (new_rollout rx_rid rx_ver ''k'' ''h'')\<lparr>r_status := R_running, r_started := Some 5\<rparr>"
definition rx_admitted :: rollout_db where
  "rx_admitted = rx_empty\<lparr>jobs := [rx_job], rollouts := [rx_running], entries := [rx_bound]\<rparr>"
definition rx_done :: job_row where
  "rx_done = rx_job\<lparr>j_status := J_succeeded, j_started := Some 6, j_dispatched := Some 7, j_completed := Some 8\<rparr>"
definition rx_updated :: rollout_db where
  "rx_updated = rx_admitted\<lparr>jobs := [rx_done], agents := [rx_agent rx_ver (Some 9)]\<rparr>"

lemma rx_closed [simp]:
  "canonicalPlatformUpdateServerID rx_srv = Inr rx_srv"
  "canonicalPlatformUpdateServerID rx_rid = Inr rx_rid"
  unfolding rx_srv_def rx_rid_def by (rule canonical_of_hex; simp)+

lemma rx_version [simp]: "validPlatformUpdateTargetVersion rx_ver"
  by code_simp

lemma olderThanRecommended_irrefl [simp]: "olderThanRecommended v v = False"
proof -
  have "lex_older xs xs = False" for xs by (induction xs) auto
  then show ?thesis by (simp add: olderThanRecommended_def split: option.split)
qed

lemmas rx_defs = rx_empty_def rx_server_def rx_agent_def rx_build_def rx_plan_def rx_entry_def rx_planned_def
  rx_job_def rx_bound_def rx_running_def rx_admitted_def rx_done_def rx_updated_def new_rollout_def new_job_def

lemma rx_compat: "compat_ok (EvaluateCompatibility rx_build rx_ver (Some 1))"
  by (simp add: compat_ok_def EvaluateCompatibility_def EvaluateCompatibilityWithPolicy_def rx_build_def)

lemma rx_persist:
  "persist_body rx_build (\<lambda>_. None) 3 rx_rid (\<lambda>i. ''e0'') rx_plan ''k'' ''h'' rx_empty
     = Commit (Inr (rx_rid, False)) rx_planned"
  using rx_compat
  by (simp add: persist_body_def revalidatePlatformUpdateRolloutEntry_def lookup_row_def snapshot_agent_def
      agent_blockers_def select_def has_unresolved_job_def count_jobs_def lookupPlatformUpdateRolloutCreation_def
      snapshot_rows_def snapshot_row_def rx_defs Let_def)

lemma rx_admit:
  "admit_body rx_build 5 ''j1'' rx_rid rx_planned = Commit (Inr (rx_job, False)) rx_admitted"
  by (simp add: admit_body_def lookup_row_def completePlatformUpdateRolloutWithoutMutationTx_def
      rollout_unfinished_def entries_of_def select_def start_rollout_def update_where_def admit_next_def
      next_entry_def prior_unproven_def admit_entry_def count_jobs_def createPlatformUpdateJobTx_def
      admission_agent_def has_unresolved_job_def rows_affected_def unbound_entry_def bind_entry_def
      Let_def rx_defs)

lemma rx_inv: "rollout_inv rx_planned" "rollout_inv rx_admitted" "rollout_inv rx_updated"
  by (simp_all add: rollout_inv_def jobs_inv_def linked_def in_order_def bound_def binds_def entry_ok_def
      job_row_ok_def PlatformUpdateStatusIsTerminal_def started_def inj_on_def rx_defs)

lemma rx_evidence:
  "health_evidence rx_build 10 rx_bound rx_updated" "health_evidence rx_build 11 rx_bound rx_updated"
  "\<not> health_evidence rx_build (minutes 3) rx_bound rx_updated"
  using rx_compat
  by (simp_all add: health_evidence_def health_proven_def count_jobs_def select_def has_unresolved_job_def
      unresolved_def minutes_def seconds_def rx_defs)

definition rx_run :: "rollout_event list" where
  "rx_run = [Ev_persist Committed rx_build (\<lambda>_. None) 3 rx_rid (\<lambda>i. ''e0'') rx_plan ''k'' ''h'' rx_empty,
     Ev_admit Commit_ack_lost rx_build 5 ''j1'' rx_rid]"

lemma rx_run: "rollout_run rx_run rx_empty = rx_admitted"
proof -
  have "persistPlatformUpdateRolloutPlan Committed rx_build (\<lambda>_. None) 3 rx_rid (\<lambda>i. ''e0'') rx_plan ''k'' ''h'' rx_empty rx_empty
      = (Inr (rx_rid, False), rx_planned)"
  proof -
    have "pl_target rx_plan = rx_ver" "pl_entries rx_plan \<noteq> []" "check_plan_servers [] (pl_entries rx_plan) = Inr ()"
      by (simp_all add: rx_plan_def)
    moreover have "lookupPlatformUpdateRolloutCreation ''k'' rx_empty = None"
      by (simp add: lookupPlatformUpdateRolloutCreation_def rx_empty_def lookup_row_def)
    ultimately show ?thesis by (simp add: persistPlatformUpdateRolloutPlan_def rx_persist)
  qed
  then show ?thesis
    by (simp add: rollout_run_def rx_run_def admitPlatformUpdateRolloutMutation_def rx_admit)
qed


theorem rollout_one_at_a_time_witness:
  "rx_bound \<in> set (entries (rollout_run rx_run rx_empty))
   \<and> (\<exists>r \<in> set (rollouts (rollout_run rx_run rx_empty)). r_id r = rx_rid \<and> r_status r = R_running)"
proof -
  have start: "jobs_inv (jobs rx_empty)" "rollouts rx_empty = []" "entries rx_empty = []"
    by (simp_all add: rx_empty_def jobs_inv_def)
  have e: "rx_bound \<in> set (entries (rollout_run rx_run rx_empty))"
    by (simp add: rx_run rx_admitted_def)
  moreover have "en_status rx_bound = E_updating" "en_rollout rx_bound = rx_rid"
    by (simp_all add: rx_bound_def rx_entry_def)
  ultimately show ?thesis using rollout_one_at_a_time [OF start refl e e] by auto
qed

theorem rollout_history_forward_witness:
  "\<exists>e' \<in> set (entries (rollout_run [Ev_health Committed rx_build 10 11 rx_rid] rx_updated)).
     en_id e' = ''e0'' \<and> en_job e' = Some ''j1''
     \<and> validatePlatformUpdateRolloutEntryTransition\<^sup>*\<^sup>* E_updating (en_status e')"
proof -
  have "rx_bound \<in> set (entries rx_updated)" by (simp add: rx_updated_def rx_admitted_def)
  from conjunct2 [OF rollout_history_forward
      [OF refl, where db = rx_updated and es = "[Ev_health Committed rx_build 10 11 rx_rid]"], THEN bspec, OF this]
  show ?thesis by (auto simp: rx_bound_def rx_entry_def)
qed

definition rx_healthy :: entry_row where
  "rx_healthy = rx_bound\<lparr>en_status := E_healthy, en_completed := Some 11\<rparr>"

lemma rx_health:
  "entries (rollout_exec (Ev_health Committed rx_build 10 11 rx_rid) rx_updated) = [rx_healthy]"
  using rx_compat
  by (simp add: ReconcilePlatformUpdateRolloutHealth_def reconcile_body_def lookup_row_def updating_entry_def
      entries_of_def select_def reconcile_entry_def prove_health_def count_jobs_def has_unresolved_job_def
      unresolved_def heartbeat_unproven_def agent_unproven_def minutes_def seconds_def rows_affected_def
      updating_row_def mark_healthy_def healthy_write_refused_def update_where_def completePlatformUpdateRolloutIfFinishedTx_def
      rollout_unfinished_def rollout_status_of_def Let_def rx_healthy_def rx_defs)

theorem healthy_requires_proof_witness:
  "\<exists>j \<in> set (jobs rx_updated). en_job rx_bound = Some (j_id j) \<and> j_status j = J_succeeded"
proof -
  have "rx_bound \<in> set (entries rx_updated)" "en_status rx_bound \<noteq> E_healthy"
    "rx_healthy \<in> set (entries (rollout_exec (Ev_health Committed rx_build 10 11 rx_rid) rx_updated))"
    "en_id rx_healthy = en_id rx_bound" "en_status rx_healthy = E_healthy"
    unfolding rx_health by (simp_all add: rx_updated_def rx_admitted_def rx_bound_def rx_entry_def rx_healthy_def)
  from healthy_requires_proof [OF rx_inv(3) this] show ?thesis by blast
qed

theorem admission_sound_witness: "\<exists>r \<in> set (rollouts rx_planned). r_target r = b_version rx_build"
proof -
  have "admitPlatformUpdateRolloutMutation Committed rx_build 5 ''j1'' rx_rid rx_planned = (Inr (rx_job, False), rx_admitted)"
    by (simp add: admitPlatformUpdateRolloutMutation_def rx_admit)
  from admission_sound [OF rx_inv(1) this] show ?thesis by blast
qed

theorem admission_replay_witness:
  "admitPlatformUpdateRolloutMutation Committed rx_build 99 ''other'' rx_rid rx_admitted = (Inr (rx_job, True), rx_admitted)"
  using admission_replay [OF rx_inv(1) rx_closed(2) rx_admit, of Committed rx_build 99 "''other''"] by simp

theorem plan_faithful_witness:
  "PlanPlatformUpdateRollout rx_ver rx_ver [rx_candidate] = Inr rx_plan \<and> map p_eligible (pl_entries rx_plan) = [True]"
proof -
  have plan: "PlanPlatformUpdateRollout rx_ver rx_ver [rx_candidate] = Inr rx_plan"
    by (simp add: PlanPlatformUpdateRollout_def candidate_blockers_def rx_candidate_def rx_plan_def)
  with plan_faithful [OF plan] show ?thesis by (simp add: rx_candidate_def)
qed

theorem creation_idempotent_witness:
  "persistPlatformUpdateRolloutPlan Committed rx_build (\<lambda>_. None) 50 ''other'' (\<lambda>i. ''x'') rx_plan ''k'' ''h''
     rx_planned rx_planned = (Inr (rx_rid, True), rx_planned)"
  using creation_idempotent [OF rx_persist, where es = "[]" and ?pl2.0 = rx_plan and ?hash2.0 = "''h''"]
  by (simp add: rollout_run_def rx_plan_def)

theorem controller_progress_witness:
  "(\<exists>res db'. AdvancePlatformUpdateRollout Committed rx_build 10 11 ''n'' rx_rid rx_updated rx_updated = (Inr res, db')
     \<and> sr_action res = RolloutSucceeded)
   \<and> (\<exists>raised. AdvancePlatformUpdateRollout Committed rx_build 10 (minutes 3) ''n'' rx_rid rx_updated rx_updated
        = (Inl (ErrText raised), rx_updated))"
proof -
  have *: "rx_bound \<in> set (entries rx_updated)" "en_status rx_bound = E_updating" "en_job rx_bound = Some ''j1''"
    "''j1'' \<noteq> []" "canonicalPlatformUpdateServerID (en_server rx_bound) = Inr (en_server rx_bound)"
    "canonicalPlatformUpdateServerID rx_rid = Inr (en_rollout rx_bound)" "distinct (map a_id (agents rx_updated))"
    "\<forall>p \<in> set (entries rx_updated). p = rx_bound" "b_min_protocol rx_build = 1" "b_protocol rx_build = 1"
    by (simp_all add: rx_updated_def rx_admitted_def rx_bound_def rx_entry_def rx_build_def)
  note step = controller_progress [OF rx_inv(3) *(6) *(1-5) *(9,10) rx_evidence(1) *(7)]
  have "\<exists>res db'. AdvancePlatformUpdateRollout Committed rx_build 10 11 ''n'' rx_rid rx_updated rx_updated = (Inr res, db')
     \<and> sr_action res = RolloutSucceeded"
    using step [of 11 "''n''"] rx_evidence(2) *(8) by fastforce
  then show ?thesis using step [of "minutes 3" "''n''"] rx_evidence(3) by simp
qed

end
