(* ===== verification/Traffic.thy ===== *)
theory Traffic
  imports Prelude
begin

text \<open>
  Traffic accounting, end to end.  The Agent (\<open>agent/internal/traffic\<close>: \<open>collector.go\<close>,
  \<open>tracker.go\<close>, \<open>outbox.go\<close>, and \<open>reportTrafficUsage\<close> of \<open>agent/internal/heartbeat/runner.go\<close>)
  turns cumulative counters into deltas, keeps one immutable pending batch in a file and sends it
  until it is acknowledged.  The Manager (\<open>backend/internal/traffic\<close>: \<open>handler.go\<close>,
  \<open>repository.go\<close>, \<open>report_stream.go\<close>, \<open>model.go\<close>) records the events of a batch once, keyed by
  stream and sequence, and re-evaluates the limits of the accounts.

  Parameters: \<open>pg_uuid\<close>, PostgreSQL's cast of a text to a UUID (its canonical text, or an error);
  \<open>digest\<close>, the SHA-256 of the JSON encoding of the events; \<open>size_of\<close>, the encoded size of the
  outbox.  The JSON codec itself, gRPC and the file system below \<open>rename\<close> are not modelled.
\<close>

section \<open>Counters and deltas\<close>

record snapshot =
  sn_account :: string
  sn_rx :: int
  sn_tx :: int
  sn_at :: time
  sn_meta :: json

record usage_event =
  ue_account :: string
  ue_rx :: int
  ue_tx :: int
  ue_at :: time
  ue_meta :: json

text \<open>64-bit signed arithmetic wraps.\<close>

definition wrap64 :: "int \<Rightarrow> int" where
  "wrap64 x = (x + 2 ^ 63) mod 2 ^ 64 - 2 ^ 63"

lemma wrap64_id [simp]: "int64_min \<le> x \<Longrightarrow> x \<le> int64_max \<Longrightarrow> wrap64 x = x"
  by (simp add: wrap64_def int64_min_def int64_max_def)

definition zero_time :: time where
  "zero_time = seconds (- 62135596800)"

definition with_source :: "string \<Rightarrow> json \<Rightarrow> json" where
  "with_source src m =
     (case m of
        JObj kvs \<Rightarrow> if ''source'' \<in> fst ` set kvs then m else JObj (insort_key fst (''source'', JStr src) kvs)
      | _ \<Rightarrow> JObj [(''source'', JStr src)])"

definition normalizeSnapshot :: "snapshot \<Rightarrow> time \<Rightarrow> snapshot option" where
  "normalizeSnapshot s now =
     (let acct = TrimSpace (sn_account s) in
      if acct = [] then None
      else if sn_rx s < 0 \<or> sn_tx s < 0 then None
      else Some \<lparr>sn_account = acct, sn_rx = sn_rx s, sn_tx = sn_tx s,
                 sn_at = (if sn_at s = zero_time then now else sn_at s),
                 sn_meta = with_source ''routegate_agent_file_collector'' (sn_meta s)\<rparr>)"

fun normalize_all :: "time \<Rightarrow> snapshot list \<Rightarrow> snapshot list option" where
  "normalize_all now [] = Some []"
| "normalize_all now (s # ss) =
     (case normalizeSnapshot s now of
        None \<Rightarrow> None
      | Some s' \<Rightarrow> map_option ((#) s') (normalize_all now ss))"

type_synonym baseline = "string \<rightharpoonup> snapshot"

fun BuildUsageEvents :: "baseline \<Rightarrow> snapshot list \<Rightarrow> usage_event list \<times> baseline" where
  "BuildUsageEvents base [] = ([], base)"
| "BuildUsageEvents base (s # ss) =
     (let base' = base(sn_account s \<mapsto> s); (es, out) = BuildUsageEvents base' ss in
      case base (sn_account s) of
        None \<Rightarrow> (es, out)
      | Some p \<Rightarrow>
          let rx = wrap64 (sn_rx s - sn_rx p); tx = wrap64 (sn_tx s - sn_tx p) in
          if rx < 0 \<or> tx < 0 then (es, out)
          else if rx = 0 \<and> tx = 0 then (es, out)
          else (\<lparr>ue_account = sn_account s, ue_rx = rx, ue_tx = tx, ue_at = sn_at s, ue_meta = sn_meta s\<rparr> # es, out))"

section \<open>sing-box counters\<close>

text \<open>\<open>strings.Split(name, ">>>")\<close>.\<close>

fun split_arrows :: "string \<Rightarrow> string \<Rightarrow> string list" where
  "split_arrows acc [] = [rev acc]"
| "split_arrows acc (c # s) =
     (if prefix ''>>>'' (c # s) then rev acc # split_arrows [] (drop 2 s) else split_arrows (c # acc) s)"

datatype direction = Uplink | Downlink

definition parse_stat :: "string list \<Rightarrow> string \<Rightarrow> (string \<times> direction) option" where
  "parse_stat users name =
     (case split_arrows [] name of
        [p0, user, p2, dir] \<Rightarrow>
          if p0 \<noteq> ''user'' \<or> p2 \<noteq> ''traffic'' \<or> user \<notin> set users then None
          else if dir = ''uplink'' then Some (user, Uplink)
          else if dir = ''downlink'' then Some (user, Downlink) else None
      | _ \<Rightarrow> None)"

definition stat_name :: "string \<Rightarrow> string \<Rightarrow> string" where
  "stat_name user dir = ''user>>>'' @ user @ ''>>>traffic>>>'' @ dir"

text \<open>\<open>accountSnapshots\<close>: the names seen, and the counters by user and direction.\<close>

fun collect_stats :: "string list \<Rightarrow> (string \<times> int) list \<Rightarrow> string list \<Rightarrow> ((string \<times> direction) \<rightharpoonup> int)
    \<Rightarrow> (string list \<times> ((string \<times> direction) \<rightharpoonup> int)) option" where
  "collect_stats users [] seen vals = Some (seen, vals)"
| "collect_stats users ((name, v) # ss) seen vals =
     (case parse_stat users name of
        None \<Rightarrow> collect_stats users ss seen vals
      | Some ud \<Rightarrow>
          if v < 0 \<or> name \<in> set seen then None
          else collect_stats users ss (name # seen) (vals(ud \<mapsto> v)))"

definition counter :: "((string \<times> direction) \<rightharpoonup> int) \<Rightarrow> string \<times> direction \<Rightarrow> int" where
  "counter vals ud = (case vals ud of None \<Rightarrow> 0 | Some v \<Rightarrow> v)"

definition accountSnapshots :: "string list \<Rightarrow> (string \<times> int) list \<Rightarrow> time \<Rightarrow> snapshot list option" where
  "accountSnapshots users stats now =
     (case collect_stats users stats [] Map.empty of
        None \<Rightarrow> None
      | Some (seen, vals) \<Rightarrow>
          Some (map (\<lambda>u. \<lparr>sn_account = u, sn_rx = counter vals (u, Uplink), sn_tx = counter vals (u, Downlink),
                          sn_at = now, sn_meta = JObj [(''source'', JStr ''sing-box-v2ray-api'')]\<rparr>)
                 (sort (filter (\<lambda>u. stat_name u ''uplink'' \<in> set seen \<and> stat_name u ''downlink'' \<in> set seen)
                    (remdups (map fst (List.map_filter (\<lambda>(n, v). parse_stat users n) stats)))))))"

section \<open>The outbox\<close>

record outbox =
  ob_agent :: string
  ob_stream :: string
  ob_seq :: int
  ob_last :: baseline
  ob_pending :: "usage_event list"

text \<open>\<open>save\<close> writes a temporary file, renames it and syncs the directory: it succeeds, fails before
  the rename, or fails after it (the file is the new one, the caller sees an error).\<close>

datatype save_fate = Saved | Save_failed | Save_unsynced

definition save :: "save_fate \<Rightarrow> outbox \<Rightarrow> outbox option \<Rightarrow> bool \<times> outbox option" where
  "save fate o' file =
     (case fate of
        Saved \<Rightarrow> (True, Some o')
      | Save_failed \<Rightarrow> (False, file)
      | Save_unsynced \<Rightarrow> (False, Some o'))"

definition OpenOutbox :: "(outbox \<Rightarrow> nat) \<Rightarrow> string \<Rightarrow> string \<Rightarrow> outbox option \<Rightarrow> outbox option" where
  "OpenOutbox size_of fresh agent file =
     (case file of
        None \<Rightarrow> Some \<lparr>ob_agent = agent, ob_stream = fresh, ob_seq = 1, ob_last = Map.empty, ob_pending = []\<rparr>
      | Some o' \<Rightarrow>
          if 16777216 < size_of o' then None
          else if ob_agent o' \<noteq> agent \<or> ob_seq o' < 1 \<or> ob_stream o' = [] \<or> 1000 < length (ob_pending o')
          then None else Some o')"

text \<open>Memory and file after the call, and whether it returned without error.\<close>

definition Prepare :: "save_fate \<Rightarrow> snapshot list \<Rightarrow> outbox \<Rightarrow> outbox option \<Rightarrow> bool \<times> outbox \<times> outbox option" where
  "Prepare fate ss o' file =
     (if ob_pending o' \<noteq> [] then (True, o', file)
      else
        let (events, last) = BuildUsageEvents (ob_last o') ss in
        if 1000 < length events then (False, o', file)
        else
          let next = o'\<lparr>ob_last := last, ob_pending := events\<rparr> in
          case save fate next file of
            (True, file') \<Rightarrow> (True, next, file')
          | (False, file') \<Rightarrow> (False, o', file'))"

definition Acknowledge :: "save_fate \<Rightarrow> outbox \<Rightarrow> outbox option \<Rightarrow> bool \<times> outbox \<times> outbox option" where
  "Acknowledge fate o' file =
     (if ob_pending o' = [] then (True, o', file)
      else
        let next = o'\<lparr>ob_pending := [], ob_seq := wrap64 (ob_seq o' + 1)\<rparr> in
        case save fate next file of
          (True, file') \<Rightarrow> (True, next, file')
        | (False, file') \<Rightarrow> (False, o', file'))"


section \<open>The Manager's tables\<close>

datatype traffic_error = ErrUnauthorizedAgent | ErrAgentServerRequired | ErrVPNAccountNotFound
  | ErrReportSequenceConflict | DatabaseError

record tagent_row =
  g_id :: string
  g_server :: "string option"
  g_token :: string
  g_status :: string
  g_seen :: time

record account_row =
  ac_id :: string
  ac_server :: string

record checkpoint_row =
  cp_agent :: string
  cp_stream :: string
  cp_seq :: int
  cp_hash :: string

record usage_row =
  u_server :: string
  u_agent :: string
  u_account :: string
  u_rx :: int
  u_tx :: int
  u_at :: time
  u_meta :: json

datatype enforcement = NotEnforced | WithinLimit | OverLimit

record limit_row =
  l_account :: string
  l_monthly :: "int option"
  l_hard :: bool
  l_speed :: "int option"
  l_reset :: int
  l_exceeded :: "time option"
  l_status :: enforcement
  l_enforced_at :: "time option"

record traffic_db =
  t_agents :: "tagent_row table"
  t_accounts :: "account_row table"
  checkpoints :: "checkpoint_row table"
  usage :: "usage_row table"
  limits :: "limit_row table"

section \<open>Limits\<close>

text \<open>\<open>evaluateTrafficLimitEnforcement\<close>: status, time of excess, whether enforced.\<close>

definition evaluateTrafficLimitEnforcement ::
  "limit_row \<Rightarrow> int \<Rightarrow> time \<Rightarrow> enforcement \<times> time option \<times> bool" where
  "evaluateTrafficLimitEnforcement l tot at' =
     (case l_monthly l of
        None \<Rightarrow> (NotEnforced, None, False)
      | Some m \<Rightarrow>
          if m \<le> 0 \<or> \<not> l_hard l then (NotEnforced, None, False)
          else if tot < m then (WithinLimit, None, False)
          else (OverLimit,
                (if l_exceeded l = None \<and> at' \<noteq> zero_time then Some at' else l_exceeded l), True))"

text \<open>The two \<open>CASE\<close> expressions of \<open>evaluateAccountLimitTx\<close>.\<close>

definition next_status :: "limit_row \<Rightarrow> int \<Rightarrow> enforcement" where
  "next_status l tot =
     (if l_hard l \<and> l_monthly l \<noteq> None \<and> 0 < the (l_monthly l) \<and> the (l_monthly l) \<le> tot then OverLimit
      else if l_hard l \<and> l_monthly l \<noteq> None \<and> 0 < the (l_monthly l) then WithinLimit
      else NotEnforced)"

definition next_exceeded :: "time \<Rightarrow> limit_row \<Rightarrow> int \<Rightarrow> time option" where
  "next_exceeded now l tot =
     (if l_hard l \<and> l_monthly l \<noteq> None \<and> 0 < the (l_monthly l) \<and> the (l_monthly l) \<le> tot
      then (case l_exceeded l of None \<Rightarrow> Some now | Some t \<Rightarrow> Some t) else None)"

definition account_total :: "string \<Rightarrow> usage_row table \<Rightarrow> int" where
  "account_total a t = sum_list (map (\<lambda>r. u_rx r + u_tx r) (select (\<lambda>r. u_account r = a) t))"

definition reevaluate :: "time \<Rightarrow> int \<Rightarrow> limit_row \<Rightarrow> limit_row" where
  "reevaluate now tot l =
     (if l_exceeded l \<noteq> next_exceeded now l tot \<or> l_status l \<noteq> next_status l tot
      then l\<lparr>l_exceeded := next_exceeded now l tot, l_status := next_status l tot, l_enforced_at := Some now\<rparr>
      else l)"

text \<open>The statement fails when the account is not a UUID, or when the total of an account that has a
  limit does not fit \<open>bigint\<close>.\<close>

definition evaluateAccountLimitTx ::
  "(string \<Rightarrow> string option) \<Rightarrow> time \<Rightarrow> string \<Rightarrow> traffic_db \<Rightarrow> traffic_error + traffic_db" where
  "evaluateAccountLimitTx pg_uuid now acct db =
     (case pg_uuid acct of
        None \<Rightarrow> Inl DatabaseError
      | Some u \<Rightarrow>
          if int64_max < account_total u (usage db) \<and> u \<in> l_account ` set (limits db) then Inl DatabaseError
          else Inr (db\<lparr>limits := update_where (\<lambda>l. l_account l = u)
                        (reevaluate now (account_total u (usage db))) (limits db)\<rparr>))"

fun evaluate_all ::
  "(string \<Rightarrow> string option) \<Rightarrow> time \<Rightarrow> string list \<Rightarrow> traffic_db \<Rightarrow> traffic_error + traffic_db" where
  "evaluate_all pg_uuid now [] db = Inr db"
| "evaluate_all pg_uuid now (a # as) db =
     (case evaluateAccountLimitTx pg_uuid now a db of
        Inl e \<Rightarrow> Inl e
      | Inr db' \<Rightarrow> evaluate_all pg_uuid now as db')"

record limit_input =
  li_monthly :: "int option"
  li_hard :: bool
  li_speed :: "int option"
  li_reset :: int

definition validateLimitInput :: "limit_input \<Rightarrow> bool" where
  "validateLimitInput i \<longleftrightarrow>
     \<not> (case li_monthly i of None \<Rightarrow> False | Some m \<Rightarrow> m < 0)
     \<and> \<not> (case li_speed i of None \<Rightarrow> False | Some v \<Rightarrow> v \<le> 0)
     \<and> 1 \<le> li_reset i \<and> li_reset i \<le> 28"

text \<open>\<open>INSERT ... ON CONFLICT DO UPDATE\<close>; a new row has no excess and is not enforced.  The table
  checks of migration 20 refuse what \<open>validateLimitInput\<close> refuses.\<close>

definition upsert_limit :: "string \<Rightarrow> limit_input \<Rightarrow> limit_row table \<Rightarrow> limit_row table" where
  "upsert_limit u i t =
     (if u \<in> l_account ` set t
      then update_where (\<lambda>l. l_account l = u)
             (\<lambda>l. l\<lparr>l_monthly := li_monthly i, l_hard := li_hard i, l_speed := li_speed i, l_reset := li_reset i\<rparr>) t
      else t @ [\<lparr>l_account = u, l_monthly = li_monthly i, l_hard = li_hard i, l_speed = li_speed i,
                 l_reset = li_reset i, l_exceeded = None, l_status = NotEnforced, l_enforced_at = None\<rparr>])"

definition upsert_body ::
  "(string \<Rightarrow> string option) \<Rightarrow> time \<Rightarrow> string \<Rightarrow> limit_input \<Rightarrow> traffic_db
     \<Rightarrow> (traffic_error, limit_row, traffic_db) outcome" where
  "upsert_body pg_uuid now acct i0 db =
     (let i = (if li_reset i0 = 0 then i0\<lparr>li_reset := 1\<rparr> else i0) in
      case pg_uuid acct of
        None \<Rightarrow> Abort DatabaseError
      | Some u \<Rightarrow>
          if u \<notin> ac_id ` set (t_accounts db) then Abort ErrVPNAccountNotFound
          else if \<not> validateLimitInput i then Abort DatabaseError
          else case evaluateAccountLimitTx pg_uuid now acct (db\<lparr>limits := upsert_limit u i (limits db)\<rparr>) of
            Inl e \<Rightarrow> Abort e
          | Inr db' \<Rightarrow>
              (case lookup_row l_account u (limits db') of
                 None \<Rightarrow> Abort DatabaseError
               | Some l \<Rightarrow> Commit (Inr l) db'))"

definition UpsertLimit ::
  "commit_fate \<Rightarrow> (string \<Rightarrow> string option) \<Rightarrow> time \<Rightarrow> string \<Rightarrow> limit_input \<Rightarrow> traffic_db
     \<Rightarrow> (traffic_error + limit_row) \<times> traffic_db" where
  "UpsertLimit fate pg_uuid now acct i db =
     run_tx DatabaseError fate (upsert_body pg_uuid now acct i db) db"


section \<open>Reports\<close>

record usage_report =
  rp_agent :: string
  rp_server :: string
  rp_accepted :: nat

definition reportingAgentByTokenHash :: "string \<Rightarrow> traffic_db \<Rightarrow> traffic_error + string \<times> string" where
  "reportingAgentByTokenHash token db =
     (case find (\<lambda>g. g_token g = token \<and> g_status g \<noteq> ''disabled'') (t_agents db) of
        None \<Rightarrow> Inl ErrUnauthorizedAgent
      | Some g \<Rightarrow>
          (case g_server g of
             None \<Rightarrow> Inl ErrAgentServerRequired
           | Some srv \<Rightarrow> if srv = [] then Inl ErrAgentServerRequired else Inr (g_id g, srv)))"

text \<open>The \<open>INSERT ... SELECT\<close> of one event, with the checks and the generated column of migration 20.\<close>

definition usage_row_of :: "string \<Rightarrow> string \<Rightarrow> string \<Rightarrow> usage_event \<Rightarrow> usage_row" where
  "usage_row_of agent srv u e =
     \<lparr>u_server = srv, u_agent = agent, u_account = u, u_rx = ue_rx e, u_tx = ue_tx e, u_at = ue_at e,
      u_meta = (if ue_meta e = JNull then JObj [] else ue_meta e)\<rparr>"

definition insert_event ::
  "(string \<Rightarrow> string option) \<Rightarrow> string \<Rightarrow> string \<Rightarrow> usage_event \<Rightarrow> traffic_db \<Rightarrow> traffic_error + traffic_db" where
  "insert_event pg_uuid agent srv e db =
     (case pg_uuid (ue_account e) of
        None \<Rightarrow> Inl DatabaseError
      | Some u \<Rightarrow>
          if \<not> (\<exists>a \<in> set (t_accounts db). ac_id a = u \<and> ac_server a = srv) then Inl ErrVPNAccountNotFound
          else if ue_rx e < 0 \<or> ue_tx e < 0 \<or> int64_max < ue_rx e + ue_tx e then Inl DatabaseError
          else Inr (db\<lparr>usage := usage db @ [usage_row_of agent srv u e]\<rparr>))"

fun insert_events ::
  "(string \<Rightarrow> string option) \<Rightarrow> string \<Rightarrow> string \<Rightarrow> usage_event list \<Rightarrow> traffic_db \<Rightarrow> traffic_error + traffic_db" where
  "insert_events pg_uuid agent srv [] db = Inr db"
| "insert_events pg_uuid agent srv (e # es) db =
     (case insert_event pg_uuid agent srv e db of
        Inl er \<Rightarrow> Inl er
      | Inr db' \<Rightarrow> insert_events pg_uuid agent srv es db')"

definition touch_agent :: "time \<Rightarrow> string \<Rightarrow> traffic_db \<Rightarrow> traffic_db" where
  "touch_agent now agent db =
     db\<lparr>t_agents := update_where (\<lambda>g. g_id g = agent) (\<lambda>g. g\<lparr>g_seen := now, g_status := ''online''\<rparr>) (t_agents db)\<rparr>"

definition stream_key :: "string \<Rightarrow> string \<Rightarrow> checkpoint_row \<Rightarrow> bool" where
  "stream_key agent stream c \<longleftrightarrow> cp_agent c = agent \<and> cp_stream c = stream"

text \<open>\<open>INSERT ... ON CONFLICT DO NOTHING\<close> and the \<open>SELECT ... FOR UPDATE\<close> after it.\<close>

definition ensure_checkpoint :: "string \<Rightarrow> string \<Rightarrow> checkpoint_row table \<Rightarrow> checkpoint_row table" where
  "ensure_checkpoint agent stream t =
     (if \<exists>c \<in> set t. stream_key agent stream c then t
      else t @ [\<lparr>cp_agent = agent, cp_stream = stream, cp_seq = 0, cp_hash = []\<rparr>])"

text \<open>Everything after the checkpoint was passed: the events, the limits, the Agent's presence.  The
  limits are evaluated account by account, in the order of a Go map, which is unspecified;
  \<open>evaluation_order_irrelevant\<close> in \<open>Traffic_Safety\<close> shows that the order does not matter.\<close>

definition record_events ::
  "(string \<Rightarrow> string option) \<Rightarrow> time \<Rightarrow> string \<Rightarrow> string \<Rightarrow> usage_event list \<Rightarrow> traffic_db \<Rightarrow> traffic_error + traffic_db" where
  "record_events pg_uuid now agent srv es db =
     (case insert_events pg_uuid agent srv es db of
        Inl e \<Rightarrow> Inl e
      | Inr db1 \<Rightarrow>
          (case evaluate_all pg_uuid now (remdups (map ue_account es)) db1 of
             Inl e \<Rightarrow> Inl e
           | Inr db2 \<Rightarrow> Inr (touch_agent now agent db2)))"

definition report_body ::
  "(string \<Rightarrow> string option) \<Rightarrow> (usage_event list \<Rightarrow> string) \<Rightarrow> time \<Rightarrow> string \<times> string \<Rightarrow> usage_event list
     \<Rightarrow> string \<Rightarrow> int \<Rightarrow> traffic_db \<Rightarrow> (traffic_error, usage_report, traffic_db) outcome" where
  "report_body pg_uuid digest now ag es stream seq db =
     (let agent = fst ag; srv = snd ag;
          ok = Inr \<lparr>rp_agent = agent, rp_server = srv, rp_accepted = length es\<rparr> in
      if stream = []
      then (case record_events pg_uuid now agent srv es db of Inl e \<Rightarrow> Abort e | Inr db' \<Rightarrow> Commit ok db')
      else case pg_uuid stream of
        None \<Rightarrow> Abort DatabaseError
      | Some sid \<Rightarrow>
          let db0 = db\<lparr>checkpoints := ensure_checkpoint agent sid (checkpoints db)\<rparr> in
          (case find (stream_key agent sid) (checkpoints db0) of
             None \<Rightarrow> Abort DatabaseError
           | Some c \<Rightarrow>
               if seq = cp_seq c \<and> cp_hash c = digest es then Rollback ok
               else if seq \<noteq> wrap64 (cp_seq c + 1) \<or> seq < 1 then Abort ErrReportSequenceConflict
               else case record_events pg_uuid now agent srv es db0 of
                      Inl e \<Rightarrow> Abort e
                    | Inr db' \<Rightarrow>
                        Commit ok (db'\<lparr>checkpoints := update_where (stream_key agent sid)
                          (\<lambda>c. c\<lparr>cp_seq := seq, cp_hash := digest es\<rparr>) (checkpoints db')\<rparr>)))"

definition ReportUsageBatch ::
  "commit_fate \<Rightarrow> (string \<Rightarrow> string option) \<Rightarrow> (usage_event list \<Rightarrow> string) \<Rightarrow> time \<Rightarrow> string
     \<Rightarrow> usage_event list \<Rightarrow> string \<Rightarrow> int \<Rightarrow> traffic_db \<Rightarrow> (traffic_error + usage_report) \<times> traffic_db" where
  "ReportUsageBatch fate pg_uuid digest now token es stream seq db =
     (case reportingAgentByTokenHash token db of
        Inl e \<Rightarrow> (Inl e, db)
      | Inr ag \<Rightarrow> run_tx DatabaseError fate (report_body pg_uuid digest now ag es stream seq db) db)"

section \<open>The HTTP handler\<close>

definition hex_ok :: "string \<Rightarrow> bool" where "hex_ok s \<longleftrightarrow> hex_DecodeString s \<noteq> None"

definition validReportStream :: "string \<Rightarrow> bool" where
  "validReportStream v \<longleftrightarrow>
     length v = 36 \<and> v ! 8 = CHR ''-'' \<and> v ! 13 = CHR ''-'' \<and> v ! 18 = CHR ''-'' \<and> v ! 23 = CHR ''-''
     \<and> hex_ok (take 8 v @ take 4 (drop 9 v) @ take 4 (drop 14 v) @ take 4 (drop 19 v) @ drop 24 v)"

record event_request =
  q_account :: string
  q_rx :: int
  q_tx :: int
  q_at :: "time option"
  q_meta :: json

record report_request =
  rq_token :: "string option"
  rq_events :: "event_request list"
  rq_stream :: string
  rq_seq :: int
  rq_batches :: bool

datatype report_response = Accepted usage_report | Refused nat string

fun event_inputs :: "time \<Rightarrow> event_request list \<Rightarrow> usage_event list option" where
  "event_inputs now [] = Some []"
| "event_inputs now (q # qs) =
     (let acct = TrimSpace (q_account q) in
      if acct = [] then None
      else if q_rx q < 0 \<or> q_tx q < 0 then None
      else map_option ((#) \<lparr>ue_account = acct, ue_rx = q_rx q, ue_tx = q_tx q,
                           ue_at = (case q_at q of None \<Rightarrow> now | Some t \<Rightarrow> t), ue_meta = q_meta q\<rparr>)
             (event_inputs now qs))"

definition report_status :: "traffic_error + usage_report \<Rightarrow> report_response" where
  "report_status r =
     (case r of
        Inr rp \<Rightarrow> Accepted rp
      | Inl ErrReportSequenceConflict \<Rightarrow> Refused 409 ''traffic_sequence_conflict''
      | Inl ErrUnauthorizedAgent \<Rightarrow> Refused 401 ''unauthorized''
      | Inl ErrAgentServerRequired \<Rightarrow> Refused 403 ''agent_server_required''
      | Inl ErrVPNAccountNotFound \<Rightarrow> Refused 400 ''invalid_request''
      | Inl DatabaseError \<Rightarrow> Refused 500 ''database_error'')"

text \<open>\<open>hash_token\<close> is \<open>agents.HashToken\<close>; the bearer token is \<open>None\<close> when the header has none.\<close>

definition ReportUsage ::
  "commit_fate \<Rightarrow> (string \<Rightarrow> string option) \<Rightarrow> (usage_event list \<Rightarrow> string) \<Rightarrow> (string \<Rightarrow> string) \<Rightarrow> time
     \<Rightarrow> report_request \<Rightarrow> traffic_db \<Rightarrow> report_response \<times> traffic_db" where
  "ReportUsage fate pg_uuid digest hash_token now rq db =
     (case rq_token rq of
        None \<Rightarrow> (Refused 401 ''unauthorized'', db)
      | Some token \<Rightarrow>
          if rq_events rq = [] then (Refused 400 ''invalid_request'', db)
          else if rq_batches rq \<and> rq_stream rq = [] then (Refused 400 ''invalid_request'', db)
          else if 1000 < length (rq_events rq) then (Refused 400 ''invalid_request'', db)
          else case event_inputs now (rq_events rq) of
            None \<Rightarrow> (Refused 400 ''invalid_request'', db)
          | Some es \<Rightarrow>
              if rq_stream rq \<noteq> [] \<or> rq_seq rq \<noteq> 0 then
                if \<not> validReportStream (rq_stream rq) \<or> rq_seq rq < 1
                then (Refused 400 ''invalid_request'', db)
                else if \<exists>q \<in> set (rq_events rq). q_at q = None \<or> q_at q = Some zero_time
                then (Refused 400 ''invalid_request'', db)
                else (case ReportUsageBatch fate pg_uuid digest now (hash_token token) es (rq_stream rq) (rq_seq rq) db of
                        (r, db') \<Rightarrow> (report_status r, db'))
              else (case ReportUsageBatch fate pg_uuid digest now (hash_token token) es [] 0 db of
                      (r, db') \<Rightarrow> (report_status r, db')))"


section \<open>Summaries\<close>

text \<open>\<open>GetUsageSummary\<close> and \<open>buildLimitState\<close>; the floating-point \<open>UsedPercent\<close> is left out.  The
  sums are \<open>bigint\<close>, the addition of the two is Go's.\<close>

definition in_period :: "string \<Rightarrow> time \<Rightarrow> time \<Rightarrow> usage_row \<Rightarrow> bool" where
  "in_period a from' to r \<longleftrightarrow> u_account r = a \<and> from' \<le> u_at r \<and> u_at r < to"

definition period_sum :: "(usage_row \<Rightarrow> int) \<Rightarrow> string \<Rightarrow> time \<Rightarrow> time \<Rightarrow> usage_row table \<Rightarrow> int" where
  "period_sum f a from' to t = sum_list (map f (select (in_period a from' to) t))"

record limit_state =
  ls_monthly :: "int option"
  ls_hard :: bool
  ls_speed :: "int option"
  ls_reset :: int
  ls_remaining :: "int option"
  ls_reached :: bool
  ls_enforced :: bool
  ls_exceeded :: "time option"
  ls_status :: enforcement

definition buildLimitState :: "limit_row \<Rightarrow> int \<Rightarrow> limit_state" where
  "buildLimitState l tot =
     (let capped = (case l_monthly l of None \<Rightarrow> False | Some m \<Rightarrow> 0 < m);
          m = (case l_monthly l of None \<Rightarrow> 0 | Some m \<Rightarrow> m);
          left = wrap64 (m - tot) in
      \<lparr>ls_monthly = l_monthly l, ls_hard = l_hard l, ls_speed = l_speed l, ls_reset = l_reset l,
       ls_remaining = (if capped then Some (if left < 0 then 0 else left) else None),
       ls_reached = (capped \<and> m \<le> tot), ls_enforced = (l_status l = OverLimit),
       ls_exceeded = l_exceeded l, ls_status = l_status l\<rparr>)"

record usage_summary =
  us_account :: string
  us_rx :: int
  us_tx :: int
  us_total :: int
  us_limit :: "limit_state option"

definition GetUsageSummary ::
  "(string \<Rightarrow> string option) \<Rightarrow> string \<Rightarrow> time \<Rightarrow> time \<Rightarrow> traffic_db \<Rightarrow> traffic_error + usage_summary" where
  "GetUsageSummary pg_uuid acct from' to db =
     (case pg_uuid acct of
        None \<Rightarrow> Inl DatabaseError
      | Some u \<Rightarrow>
          if u \<notin> ac_id ` set (t_accounts db) then Inl ErrVPNAccountNotFound
          else
            let rx = period_sum u_rx u from' to (usage db); tx = period_sum u_tx u from' to (usage db) in
            if int64_max < rx \<or> int64_max < tx then Inl DatabaseError
            else Inr \<lparr>us_account = u, us_rx = rx, us_tx = tx, us_total = wrap64 (rx + tx),
                      us_limit = map_option (\<lambda>l. buildLimitState l (wrap64 (rx + tx)))
                                   (lookup_row l_account u (limits db))\<rparr>)"

section \<open>One reporting round of the Agent\<close>

record runner =
  rn_reported :: "time option"
  rn_box :: "outbox option"
  rn_file :: "outbox option"

record runner_config =
  cf_enabled :: bool
  cf_interval :: time
  cf_agent :: string
  cf_token :: string

text \<open>What may happen to one HTTP exchange.\<close>

datatype net_fate = Delivered | Request_lost | Response_lost

definition batch_request :: "string \<Rightarrow> outbox \<Rightarrow> report_request" where
  "batch_request token o' =
     \<lparr>rq_token = Some token,
      rq_events = map (\<lambda>e. \<lparr>q_account = ue_account e, q_rx = ue_rx e, q_tx = ue_tx e, q_at = Some (ue_at e),
                           q_meta = ue_meta e\<rparr>) (ob_pending o'),
      rq_stream = ob_stream o', rq_seq = ob_seq o', rq_batches = True\<rparr>"

definition exchange ::
  "net_fate \<Rightarrow> (report_request \<Rightarrow> 'db \<Rightarrow> report_response \<times> 'db) \<Rightarrow> report_request \<Rightarrow> 'db
     \<Rightarrow> usage_report option \<times> 'db" where
  "exchange net server rq db =
     (case net of
        Request_lost \<Rightarrow> (None, db)
      | Response_lost \<Rightarrow> (None, snd (server rq db))
      | Delivered \<Rightarrow> (case server rq db of (Accepted rp, db') \<Rightarrow> (Some rp, db') | (Refused _ _, db') \<Rightarrow> (None, db')))"

text \<open>From the open outbox on: collect and prepare when nothing is pending, send, acknowledge.\<close>

definition deliver ::
  "string \<Rightarrow> save_fate \<Rightarrow> net_fate \<Rightarrow> (report_request \<Rightarrow> 'db \<Rightarrow> report_response \<times> 'db)
     \<Rightarrow> outbox \<Rightarrow> outbox option \<Rightarrow> 'db \<Rightarrow> bool \<times> outbox \<times> outbox option \<times> 'db" where
  "deliver token sf net server o' file db =
     (if ob_pending o' = [] then (True, o', file, db)
      else case exchange net server (batch_request token o') db of
        (None, db') \<Rightarrow> (False, o', file, db')
      | (Some rp, db') \<Rightarrow>
          if rp_accepted rp \<noteq> length (ob_pending o') then (False, o', file, db')
          else (case Acknowledge sf o' file of (ok, o'', file') \<Rightarrow> (ok, o'', file', db')))"

definition reportTrafficUsage ::
  "runner_config \<Rightarrow> (outbox \<Rightarrow> nat) \<Rightarrow> string \<Rightarrow> time \<Rightarrow> snapshot list option \<Rightarrow> save_fate \<Rightarrow> save_fate
     \<Rightarrow> net_fate \<Rightarrow> (report_request \<Rightarrow> 'db \<Rightarrow> report_response \<times> 'db) \<Rightarrow> runner \<Rightarrow> 'db \<Rightarrow> bool \<times> runner \<times> 'db" where
  "reportTrafficUsage cf size_of fresh now collected sf1 sf2 net server rn db =
     (if \<not> cf_enabled cf then (True, rn, db)
      else if (case rn_reported rn of None \<Rightarrow> False | Some t \<Rightarrow> now - t < cf_interval cf) then (True, rn, db)
      else
        let rn1 = rn\<lparr>rn_reported := Some now\<rparr> in
        case (case rn_box rn of Some o' \<Rightarrow> Some o' | None \<Rightarrow> OpenOutbox size_of fresh (cf_agent cf) (rn_file rn)) of
          None \<Rightarrow> (False, rn1, db)
        | Some o' \<Rightarrow>
            if ob_pending o' \<noteq> [] then
              (case deliver (cf_token cf) sf2 net server o' (rn_file rn) db of
                 (ok, o2, file, db') \<Rightarrow> (ok, rn1\<lparr>rn_box := Some o2, rn_file := file\<rparr>, db'))
            else
              (case collected of
                 None \<Rightarrow> (False, rn1\<lparr>rn_box := Some o'\<rparr>, db)
               | Some ss \<Rightarrow>
                   (case Prepare sf1 ss o' (rn_file rn) of
                      (False, o1, file) \<Rightarrow> (False, rn1\<lparr>rn_box := Some o1, rn_file := file\<rparr>, db)
                    | (True, o1, file) \<Rightarrow>
                        (case deliver (cf_token cf) sf2 net server o1 file db of
                           (ok, o2, file', db') \<Rightarrow> (ok, rn1\<lparr>rn_box := Some o2, rn_file := file'\<rparr>, db')))))"

end
