(* ===== verification/Traffic_Safety.thy ===== *)
theory Traffic_Safety
  imports Traffic
begin

text \<open>
  The properties of traffic accounting.  The locale \<open>report_server\<close> is what the Agent relies on: a
  server that bills a batch exactly when it advances its sequence, whatever fails in between; the
  conservation of traffic is proved in it once and for all and \<open>manager\<close> interprets it on the handler and
  the repository of the Manager.  Then: the evaluation of limits (its order, its agreement with the Go
  function, the invariant \<open>limits_current\<close>), replays and refused reports, summaries, and the counters read
  from sing-box.
\<close>

section \<open>Telescoping deltas\<close>

definition bill :: "(usage_event \<Rightarrow> int) \<Rightarrow> string \<Rightarrow> usage_event list \<Rightarrow> int" where
  "bill f a es = sum_list (map f (filter (\<lambda>e. ue_account e = a) es))"

lemma bill_simps [simp]:
  "bill f a [] = 0" "bill f a (es @ es') = bill f a es + bill f a es'"
  "bill f a (e # es) = (if ue_account e = a then f e else 0) + bill f a es"
  by (simp_all add: bill_def)

text \<open>Cumulative counters of an account do not decrease and fit the machine type.\<close>

definition counter_le :: "snapshot \<Rightarrow> snapshot \<Rightarrow> bool" where
  "counter_le s t \<longleftrightarrow> (sn_account s = sn_account t \<longrightarrow> sn_rx s \<le> sn_rx t \<and> sn_tx s \<le> sn_tx t)"

definition counter_ok :: "snapshot \<Rightarrow> bool" where
  "counter_ok s \<longleftrightarrow> 0 \<le> sn_rx s \<and> sn_rx s \<le> int64_max \<and> 0 \<le> sn_tx s \<and> sn_tx s \<le> int64_max"

definition monotone_counters :: "snapshot list \<Rightarrow> bool" where
  "monotone_counters ss \<longleftrightarrow> sorted_wrt counter_le ss \<and> (\<forall>s \<in> set ss. counter_ok s)"

definition dimension :: "(usage_event \<Rightarrow> int) \<Rightarrow> (snapshot \<Rightarrow> int) \<Rightarrow> bool" where
  "dimension f g \<longleftrightarrow> f = ue_rx \<and> g = sn_rx \<or> f = ue_tx \<and> g = sn_tx"

lemma dimensions: "dimension ue_rx sn_rx" "dimension ue_tx sn_tx"
  by (simp_all add: dimension_def)

text \<open>An amount, received and sent, that is the difference of two readings, or nothing.\<close>

definition spans :: "((usage_event \<Rightarrow> int) \<Rightarrow> int) \<Rightarrow> snapshot \<Rightarrow> snapshot \<Rightarrow> bool" where
  "spans v b s \<longleftrightarrow> v ue_rx = sn_rx s - sn_rx b \<and> v ue_tx = sn_tx s - sn_tx b"

definition nothing :: "((usage_event \<Rightarrow> int) \<Rightarrow> int) \<Rightarrow> bool" where
  "nothing v \<longleftrightarrow> v ue_rx = 0 \<and> v ue_tx = 0"

lemma wrap64_diff:
  "0 \<le> x \<Longrightarrow> x \<le> int64_max \<Longrightarrow> 0 \<le> y \<Longrightarrow> y \<le> int64_max \<Longrightarrow> wrap64 (x - y) = x - y"
  by (rule wrap64_id) (simp_all add: int64_min_def int64_max_def)

lemma BuildUsageEvents_Cons_bill:
  assumes "dimension f g" "counter_ok s" "\<And>p. base (sn_account s) = Some p \<Longrightarrow> counter_ok p \<and> counter_le p s \<and> sn_account p = sn_account s"
  shows "bill f a (fst (BuildUsageEvents base (s # ss)))
    = bill f a (fst (BuildUsageEvents (base(sn_account s \<mapsto> s)) ss))
      + (if sn_account s = a then case base a of None \<Rightarrow> 0 | Some p \<Rightarrow> g s - g p else 0)"
proof (cases "base (sn_account s)")
  case (Some p)
  then have "wrap64 (sn_rx s - sn_rx p) = sn_rx s - sn_rx p" "wrap64 (sn_tx s - sn_tx p) = sn_tx s - sn_tx p"
    "sn_rx p \<le> sn_rx s" "sn_tx p \<le> sn_tx s"
    using assms(2,3) by (auto simp: counter_ok_def counter_le_def wrap64_diff)
  with Some assms(1) show ?thesis
    by (auto simp: Let_def dimension_def split: prod.split)
qed (auto simp: Let_def split: prod.split)

lemma BuildUsageEvents_last:
  "snd (BuildUsageEvents base (s # ss)) = snd (BuildUsageEvents (base(sn_account s \<mapsto> s)) ss)"
  by (simp add: Let_def split: prod.split option.split)

definition covers :: "snapshot list \<Rightarrow> baseline \<Rightarrow> bool" where
  "covers obs base \<longleftrightarrow> (\<forall>a p. base a = Some p \<longrightarrow> p \<in> set obs \<and> sn_account p = a)"

lemma covers_update: "covers obs base \<Longrightarrow> covers (obs @ [s]) (base(sn_account s \<mapsto> s))"
  by (auto simp: covers_def)

lemma monotone_counters_append:
  "monotone_counters (obs @ ss) \<Longrightarrow> p \<in> set obs \<Longrightarrow> s \<in> set ss \<Longrightarrow> counter_le p s \<and> counter_ok p \<and> counter_ok s"
  by (auto simp: monotone_counters_def sorted_wrt_append)

lemma BuildUsageEvents_covers:
  "covers obs base \<Longrightarrow> covers (obs @ ss) (snd (BuildUsageEvents base ss))"
proof (induction ss arbitrary: obs base)
  case (Cons s ss)
  have "covers ((obs @ [s]) @ ss) (snd (BuildUsageEvents (base(sn_account s \<mapsto> s)) ss))"
    using Cons.prems by (intro Cons.IH covers_update)
  then show ?case by (simp only: BuildUsageEvents_last append_assoc append_Cons append_Nil)
qed simp

lemma BuildUsageEvents_accounts:
  "e \<in> set (fst (BuildUsageEvents base ss)) \<Longrightarrow> ue_account e \<in> sn_account ` set ss"
proof (induction ss arbitrary: base)
  case (Cons s ss)
  define base' where "base' = base(sn_account s \<mapsto> s)"
  obtain es out where es: "BuildUsageEvents base' ss = (es, out)" by fastforce
  then have "e \<in> set es \<Longrightarrow> ue_account e \<in> sn_account ` set ss"
    using Cons.IH [of base'] by simp
  with Cons.prems es show ?case
    by (auto simp: Let_def base'_def [symmetric] split: option.splits if_splits)
qed simp

text \<open>The deltas of a batch telescope: for an account with a baseline they sum to the difference of
  its new and its old baseline; a first reading becomes the baseline and is not billed.\<close>

lemma BuildUsageEvents_bill:
  assumes "covers obs base" "monotone_counters (obs @ ss)"
  shows "case snd (BuildUsageEvents base ss) a of
      None \<Rightarrow> base a = None \<and> nothing (\<lambda>f. bill f a (fst (BuildUsageEvents base ss)))
    | Some s \<Rightarrow> \<exists>b \<in> set (obs @ ss). sn_account b = a \<and> (base a \<noteq> None \<longrightarrow> base a = Some b)
        \<and> spans (\<lambda>f. bill f a (fst (BuildUsageEvents base ss))) b s"
  using assms
proof (induction ss arbitrary: obs base)
  case Nil
  then show ?case by (auto simp: covers_def nothing_def spans_def split: option.split)
next
  case (Cons s ss)
  have mono: "monotone_counters ((obs @ [s]) @ ss)" using Cons.prems(2) by simp
  define base' where "base' = base(sn_account s \<mapsto> s)"
  have cov: "covers (obs @ [s]) base'"
    unfolding base'_def using Cons.prems(1) by (rule covers_update)
  note IH = Cons.IH [OF cov mono]
  have s: "counter_ok s" using Cons.prems(2) by (simp add: monotone_counters_def)
  have p: "counter_ok p \<and> counter_le p s \<and> sn_account p = sn_account s" if "base (sn_account s) = Some p" for p
    using Cons.prems(1) that monotone_counters_append [OF Cons.prems(2), of p s] by (auto simp: covers_def)
  have step: "bill f a (fst (BuildUsageEvents base (s # ss))) = bill f a (fst (BuildUsageEvents base' ss))
      + (if sn_account s = a then case base a of None \<Rightarrow> 0 | Some p \<Rightarrow> g s - g p else 0)" if "dimension f g" for f g
    using BuildUsageEvents_Cons_bill [OF that s p, of base, folded base'_def] .
  note steps = step [OF dimensions(1)] step [OF dimensions(2)]
  have last: "snd (BuildUsageEvents base (s # ss)) = snd (BuildUsageEvents base' ss)"
    unfolding base'_def by (rule BuildUsageEvents_last)
  show ?case
  proof (cases "sn_account s = a")
    case True
    then have "base' a = Some s" by (simp add: base'_def)
    with IH obtain t where t: "snd (BuildUsageEvents base' ss) a = Some t"
      "spans (\<lambda>f. bill f a (fst (BuildUsageEvents base' ss))) s t"
      by (auto split: option.splits)
    show ?thesis
    proof (cases "base a")
      case None
      with t True steps show ?thesis unfolding last
        by (auto simp: spans_def simp del: BuildUsageEvents.simps)
    next
      case (Some q)
      then have "q \<in> set obs" "sn_account q = a" using Cons.prems(1) by (auto simp: covers_def)
      with Some t True steps show ?thesis unfolding last
        by (auto simp: spans_def simp del: BuildUsageEvents.simps)
    qed
  next
    case False
    then have "base' a = base a" by (simp add: base'_def)
    with IH steps False show ?thesis unfolding last
      by (auto simp: spans_def nothing_def simp del: BuildUsageEvents.simps split: option.splits)
  qed
qed

section \<open>Delivery over an unreliable channel\<close>

text \<open>The life of one Agent and its Manager: reporting rounds with any fate of the exchange and of the
  two writes of the file, restarts of the Agent, and other activity of the Manager.\<close>

datatype ('p, 'ev) system_event =
    Tick time "snapshot list option" save_fate save_fate net_fate 'p
  | Restart
  | Other 'ev

fun system_step ::
  "runner_config \<Rightarrow> (outbox \<Rightarrow> nat) \<Rightarrow> string \<Rightarrow> ('p \<Rightarrow> report_request \<Rightarrow> 'db \<Rightarrow> report_response \<times> 'db)
     \<Rightarrow> ('ev \<Rightarrow> 'db \<Rightarrow> 'db) \<Rightarrow> ('p, 'ev) system_event \<Rightarrow> runner \<times> 'db \<Rightarrow> runner \<times> 'db" where
  "system_step cf size_of fresh server other (Tick now collected sf1 sf2 net p) (rn, db) =
     snd (reportTrafficUsage cf size_of fresh now collected sf1 sf2 net (server p) rn db)"
| "system_step cf size_of fresh server other Restart (rn, db) = (rn\<lparr>rn_box := None, rn_reported := None\<rparr>, db)"
| "system_step cf size_of fresh server other (Other ev) (rn, db) = (rn, other ev db)"

fun collected_by :: "('p, 'ev) system_event \<Rightarrow> snapshot list" where
  "collected_by (Tick now (Some ss) sf1 sf2 net p) = ss"
| "collected_by _ = []"

text \<open>A round that reads the counters (it is due, the outbox opens and has nothing pending) and returns without
  error.\<close>

definition reads_counters :: "runner_config \<Rightarrow> (outbox \<Rightarrow> nat) \<Rightarrow> string \<Rightarrow> time \<Rightarrow> runner \<Rightarrow> bool" where
  "reads_counters cf size_of fresh now rn \<longleftrightarrow>
     cf_enabled cf \<and> (case rn_reported rn of None \<Rightarrow> True | Some t \<Rightarrow> cf_interval cf \<le> now - t)
     \<and> (case (case rn_box rn of Some o' \<Rightarrow> Some o' | None \<Rightarrow> OpenOutbox size_of fresh (cf_agent cf) (rn_file rn)) of
          None \<Rightarrow> False | Some o' \<Rightarrow> ob_pending o' = [])"

fun acknowledged ::
  "runner_config \<Rightarrow> (outbox \<Rightarrow> nat) \<Rightarrow> string \<Rightarrow> ('p \<Rightarrow> report_request \<Rightarrow> 'db \<Rightarrow> report_response \<times> 'db)
     \<Rightarrow> ('p, 'ev) system_event \<Rightarrow> runner \<times> 'db \<Rightarrow> bool" where
  "acknowledged cf size_of fresh server (Tick now collected sf1 sf2 net p) (rn, db) \<longleftrightarrow>
     reads_counters cf size_of fresh now rn
     \<and> fst (reportTrafficUsage cf size_of fresh now collected sf1 sf2 net (server p) rn db)"
| "acknowledged cf size_of fresh server _ st \<longleftrightarrow> False"

definition last_reading :: "string \<Rightarrow> snapshot list \<Rightarrow> snapshot option" where
  "last_reading a ss = (case rev (filter (\<lambda>s. sn_account s = a) ss) of [] \<Rightarrow> None | s # _ \<Rightarrow> Some s)"

lemma BuildUsageEvents_base:
  "snd (BuildUsageEvents base ss) a = (case last_reading a ss of None \<Rightarrow> base a | Some s \<Rightarrow> Some s)"
proof (induction ss arbitrary: base)
  case (Cons s ss)
  show ?case
    unfolding BuildUsageEvents_last Cons.IH by (auto simp: last_reading_def split: list.split option.split)
qed (simp add: last_reading_def)

lemma acknowledged_box:
  assumes "acknowledged cf size_of fresh server ev st" "last_reading a (collected_by ev) = Some s"
  shows "\<exists>o'. rn_box (fst (system_step cf size_of fresh server other ev st)) = Some o'
    \<and> rn_file (fst (system_step cf size_of fresh server other ev st)) = Some o'
    \<and> ob_pending o' = [] \<and> ob_last o' a = Some s"
proof -
  obtain rn db where st: "st = (rn, db)" by fastforce
  from assms(1) st obtain now collected sf1 sf2 net p where ev: "ev = Tick now collected sf1 sf2 net p" by (cases ev) auto
  have due: "reads_counters cf size_of fresh now rn"
    and done': "fst (reportTrafficUsage cf size_of fresh now collected sf1 sf2 net (server p) rn db)"
    using assms(1) by (simp_all add: st ev)
  from assms(2) ev obtain ss where ss: "collected = Some ss" "last_reading a ss = Some s"
    by (cases collected) (auto simp: last_reading_def)
  from due obtain o0 where o0: "(case rn_box rn of Some o' \<Rightarrow> Some o' | None \<Rightarrow> OpenOutbox size_of fresh (cf_agent cf) (rn_file rn)) = Some o0"
    "ob_pending o0 = []" by (auto simp: reads_counters_def split: option.splits)
  have on: "cf_enabled cf" "\<not> (case rn_reported rn of None \<Rightarrow> False | Some t \<Rightarrow> now - t < cf_interval cf)"
    using due by (auto simp: reads_counters_def split: option.splits)
  obtain ok1 o1 f1 where prep: "Prepare sf1 ss o0 (rn_file rn) = (ok1, o1, f1)" by (metis prod_cases3)
  obtain ok2 o2 f2 db2 where del: "deliver (cf_token cf) sf2 net (server p) o1 f1 db = (ok2, o2, f2, db2)" by (metis prod_cases4)
  note round = reportTrafficUsage_def Let_def on o0 ss(1) prep del
  have ok1: "ok1" using done' by (cases ok1) (simp_all add: round)
  then have ok2: "ok2" using done' by (simp add: round)
  obtain es last' where b: "BuildUsageEvents (ob_last o0) ss = (es, last')" by fastforce
  have p: "o1 = o0\<lparr>ob_last := last', ob_pending := es\<rparr>" "f1 = Some o1"
    using prep ok1 o0(2) b by (auto simp: Prepare_def save_def Let_def split: if_splits save_fate.splits)
  have "last' a = Some s" using BuildUsageEvents_base [of "ob_last o0" ss a] b ss(2) by simp
  then have last: "ob_last o1 a = Some s" by (simp add: p(1))
  have "f2 = Some o2 \<and> ob_pending o2 = [] \<and> ob_last o2 = ob_last o1"
    using del ok2 p(2) by (auto simp: deliver_def Acknowledge_def save_def Let_def split: if_splits option.splits prod.splits save_fate.splits)
  moreover have "fst (system_step cf size_of fresh server other ev st) = rn\<lparr>rn_reported := Some now, rn_box := Some o2, rn_file := f2\<rparr>"
    using ok1 by (simp add: st ev round)
  ultimately show ?thesis using last by simp
qed

text \<open>What the Agent relies on: the server bills a batch when its sequence is the next one, exactly
  then advances its sequence, and accepts nothing else but a repetition of the last sequence.  Other
  activity of the server leaves the stream alone.\<close>

locale report_server =
  fixes server :: "'p \<Rightarrow> report_request \<Rightarrow> 'db \<Rightarrow> report_response \<times> 'db"
    and other :: "'ev \<Rightarrow> 'db \<Rightarrow> 'db"
    and inv :: "'db \<Rightarrow> bool" and seq :: "'db \<Rightarrow> int" and billed :: "'db \<Rightarrow> usage_event list"
    and stored :: "usage_event \<Rightarrow> usage_event" and name_ok :: "string \<Rightarrow> bool"
    and token :: string and stream :: string
  assumes server_inv: "inv db \<Longrightarrow> ob_stream o' = stream \<Longrightarrow> inv (snd (server p (batch_request token o') db))"
    and server_once: "inv db \<Longrightarrow> ob_stream o' = stream \<Longrightarrow> server p (batch_request token o') db = (r, db') \<Longrightarrow>
      seq db' = seq db \<and> billed db' = billed db \<and> ((\<exists>rp. r = Accepted rp) \<longrightarrow> ob_seq o' = seq db)
      \<or> ob_seq o' = wrap64 (seq db + 1) \<and> seq db' = ob_seq o'
        \<and> billed db' = billed db @ map stored (ob_pending o')"
    and seq_next: "inv db \<Longrightarrow> wrap64 (seq db + 1) \<noteq> seq db"
    and other_inv: "inv db \<Longrightarrow> inv (other ev db)"
    and other_same: "inv db \<Longrightarrow> seq (other ev db) = seq db \<and> billed (other ev db) = billed db"
    and stored_amounts: "ue_rx (stored e) = ue_rx e" "ue_tx (stored e) = ue_tx e"
    and stored_name: "name_ok (ue_account e) \<Longrightarrow> ue_account (stored e) = ue_account e"
begin

definition open_value :: "(usage_event \<Rightarrow> int) \<Rightarrow> string \<Rightarrow> 'db \<Rightarrow> outbox \<Rightarrow> int" where
  "open_value f a db o' =
     bill f a (billed db) + (if ob_seq o' = seq db then 0 else bill f a (ob_pending o'))"

text \<open>Where the accounting of an account starts: at a given reading, or at one of the readings taken.\<close>

definition starts :: "(string \<Rightarrow> snapshot option) \<Rightarrow> snapshot list \<Rightarrow> string \<Rightarrow> snapshot \<Rightarrow> bool" where
  "starts pin obs a b \<longleftrightarrow> (case pin a of Some p \<Rightarrow> b = p | None \<Rightarrow> b \<in> set obs \<and> sn_account b = a)"

lemma starts_mono: "starts pin obs a b \<Longrightarrow> starts pin (obs @ ss) a b"
  by (auto simp: starts_def split: option.splits)

definition tracked :: "(string \<Rightarrow> snapshot option) \<Rightarrow> snapshot list \<Rightarrow> 'db \<Rightarrow> outbox \<Rightarrow> bool" where
  "tracked pin obs db o' \<longleftrightarrow>
     (\<forall>a. case ob_last o' a of
        None \<Rightarrow> pin a = None \<and> nothing (\<lambda>f. open_value f a db o')
      | Some s \<Rightarrow> \<exists>b. starts pin obs a b \<and> spans (\<lambda>f. open_value f a db o') b s)"

definition good :: "(string \<Rightarrow> snapshot option) \<Rightarrow> snapshot list \<Rightarrow> 'db \<Rightarrow> outbox \<Rightarrow> bool" where
  "good pin obs db o' \<longleftrightarrow>
     ob_stream o' = stream \<and> (ob_seq o' = seq db \<or> ob_seq o' = wrap64 (seq db + 1))
     \<and> (ob_pending o' = [] \<longrightarrow> ob_seq o' \<noteq> seq db)
     \<and> (\<forall>e \<in> set (ob_pending o'). name_ok (ue_account e))
     \<and> covers obs (ob_last o') \<and> tracked pin obs db o'"

text \<open>The invariant of memory, file and server, before and after the delivery of a pending batch.\<close>

definition boxes_ok :: "(string \<Rightarrow> snapshot option) \<Rightarrow> snapshot list \<Rightarrow> 'db \<Rightarrow> outbox \<Rightarrow> outbox option \<Rightarrow> bool" where
  "boxes_ok pin obs db o' file \<longleftrightarrow>
     inv db \<and> good pin obs db o' \<and> (\<forall>d. file = Some d \<longrightarrow> good pin obs db d)
     \<and> (ob_pending o' \<noteq> [] \<and> ob_seq o' \<noteq> seq db \<longrightarrow> file = Some o')
     \<and> (file = None \<longrightarrow> seq db = 0 \<and> billed db = [] \<and> pin = Map.empty)"

definition settled :: "(string \<Rightarrow> snapshot option) \<Rightarrow> snapshot list \<Rightarrow> runner \<times> 'db \<Rightarrow> bool" where
  "settled pin obs st \<longleftrightarrow>
     (case rn_box (fst st) of
        Some o' \<Rightarrow> boxes_ok pin obs (snd st) o' (rn_file (fst st))
      | None \<Rightarrow> inv (snd st) \<and> (\<forall>d. rn_file (fst st) = Some d \<longrightarrow> good pin obs (snd st) d)
          \<and> (rn_file (fst st) = None \<longrightarrow> seq (snd st) = 0 \<and> billed (snd st) = [] \<and> pin = Map.empty))"

lemma goodD:
  assumes "good pin obs db o'"
  shows "ob_stream o' = stream" "ob_seq o' = seq db \<or> ob_seq o' = wrap64 (seq db + 1)"
    "ob_pending o' = [] \<Longrightarrow> ob_seq o' \<noteq> seq db" "\<forall>e \<in> set (ob_pending o'). name_ok (ue_account e)"
    "covers obs (ob_last o')" "tracked pin obs db o'"
  using assms unfolding good_def by blast+

lemma boxes_okD:
  assumes "boxes_ok pin obs db o' file"
  shows "inv db" "good pin obs db o'" "file = Some d \<Longrightarrow> good pin obs db d"
    "ob_pending o' \<noteq> [] \<Longrightarrow> ob_seq o' \<noteq> seq db \<Longrightarrow> file = Some o'"
    "file = None \<Longrightarrow> seq db = 0 \<and> billed db = [] \<and> pin = Map.empty"
  using assms unfolding boxes_ok_def by blast+

lemma trackedD:
  "tracked pin obs db o' \<Longrightarrow>
     (case ob_last o' a of
        None \<Rightarrow> pin a = None \<and> nothing (\<lambda>f. open_value f a db o')
      | Some s \<Rightarrow> \<exists>b. starts pin obs a b \<and> spans (\<lambda>f. open_value f a db o') b s)"
  by (simp add: tracked_def)

lemma tracked_cong:
  assumes "ob_last o2 = ob_last o1"
    and "\<And>a. open_value ue_rx a db2 o2 = open_value ue_rx a db1 o1"
      "\<And>a. open_value ue_tx a db2 o2 = open_value ue_tx a db1 o1"
  shows "tracked pin obs db1 o1 \<Longrightarrow> tracked pin obs db2 o2"
  unfolding tracked_def nothing_def spans_def assms .

lemma bill_stored:
  assumes "\<forall>e \<in> set es. name_ok (ue_account e)" "dimension f g"
  shows "bill f a (map stored es) = bill f a es"
  using assms(1) by (induction es) (use assms(2) in \<open>auto simp: stored_name stored_amounts dimension_def\<close>)

lemma tracked_mono: "tracked pin obs db o' \<Longrightarrow> tracked pin (obs @ ss) db o'"
  unfolding tracked_def using starts_mono by (fastforce split: option.splits)

lemma covers_mono: "covers obs base \<Longrightarrow> covers (obs @ ss) base"
  by (auto simp: covers_def)

lemma good_mono: "good pin obs db o' \<Longrightarrow> good pin (obs @ ss) db o'"
  by (auto simp: good_def intro: tracked_mono covers_mono)

lemma good_prepare:
  assumes "good pin obs db o'" "ob_pending o' = []" "monotone_counters (obs @ ss)" "\<forall>s \<in> set ss. name_ok (sn_account s)"
    and "BuildUsageEvents (ob_last o') ss = (es, last')"
  shows "good pin (obs @ ss) db (o'\<lparr>ob_last := last', ob_pending := es\<rparr>)"
proof -
  have seq: "ob_seq o' \<noteq> seq db" and cov: "covers obs (ob_last o')" and tr: "tracked pin obs db o'"
    using assms(1,2) by (auto simp: good_def)
  have "tracked pin (obs @ ss) db (o'\<lparr>ob_last := last', ob_pending := es\<rparr>)"
    unfolding tracked_def
  proof (intro allI)
    fix a
    from BuildUsageEvents_bill [OF cov assms(3), of a, unfolded assms(5) fst_conv snd_conv]
    have new: "case last' a of None \<Rightarrow> ob_last o' a = None \<and> nothing (\<lambda>f. bill f a es)
      | Some s \<Rightarrow> \<exists>b \<in> set (obs @ ss). sn_account b = a \<and> (ob_last o' a \<noteq> None \<longrightarrow> ob_last o' a = Some b)
          \<and> spans (\<lambda>f. bill f a es) b s" .
    have old: "case ob_last o' a of None \<Rightarrow> pin a = None \<and> nothing (\<lambda>f. bill f a (billed db))
      | Some s \<Rightarrow> \<exists>b. starts pin obs a b \<and> spans (\<lambda>f. bill f a (billed db)) b s"
      using trackedD [OF tr, of a] assms(2) seq by (auto simp: open_value_def split: option.splits)
    show "case ob_last (o'\<lparr>ob_last := last', ob_pending := es\<rparr>) a of
        None \<Rightarrow> pin a = None \<and> nothing (\<lambda>f. open_value f a db (o'\<lparr>ob_last := last', ob_pending := es\<rparr>))
      | Some s \<Rightarrow> \<exists>b. starts pin (obs @ ss) a b
          \<and> spans (\<lambda>f. open_value f a db (o'\<lparr>ob_last := last', ob_pending := es\<rparr>)) b s"
    proof (cases "last' a")
      case None
      with new old seq show ?thesis by (simp add: open_value_def nothing_def)
    next
      case (Some s)
      with new obtain b where b: "b \<in> set (obs @ ss)" "sn_account b = a" "spans (\<lambda>f. bill f a es) b s"
        "ob_last o' a \<noteq> None \<longrightarrow> ob_last o' a = Some b" by auto
      show ?thesis
      proof (cases "ob_last o' a")
        case None
        with old b Some seq show ?thesis by (auto simp: open_value_def nothing_def spans_def starts_def)
      next
        case (Some q)
        with b old obtain c where "starts pin (obs @ ss) a c" "spans (\<lambda>f. bill f a (billed db)) c b"
          using starts_mono [of pin obs a] by auto
        with b(3) \<open>last' a = Some s\<close> seq show ?thesis by (auto simp: open_value_def spans_def)
      qed
    qed
  qed
  moreover have "covers (obs @ ss) last'" using BuildUsageEvents_covers [OF cov, of ss] assms(5) by simp
  moreover have "\<forall>e \<in> set es. name_ok (ue_account e)"
    using BuildUsageEvents_accounts [of _ "ob_last o'" ss] assms(4,5) by fastforce
  ultimately show ?thesis using assms(1) seq by (simp add: good_def)
qed

lemma good_acknowledge:
  assumes "inv db" "good pin obs db o'" "ob_seq o' = seq db"
  shows "good pin obs db (o'\<lparr>ob_pending := [], ob_seq := wrap64 (ob_seq o' + 1)\<rparr>)"
proof -
  have "tracked pin obs db (o'\<lparr>ob_pending := [], ob_seq := wrap64 (ob_seq o' + 1)\<rparr>)"
    using goodD(6) [OF assms(2)]
    by (rule tracked_cong [rotated 3]) (use assms(3) in \<open>simp_all add: open_value_def\<close>)
  with goodD [OF assms(2)] assms(3) seq_next [OF assms(1)] show ?thesis by (simp add: good_def)
qed

lemma good_commit:
  assumes "inv db" "good pin obs db o'" "ob_pending o' \<noteq> []" "ob_seq o' = wrap64 (seq db + 1)"
    and "seq db' = ob_seq o'" "billed db' = billed db @ map stored (ob_pending o')"
  shows "good pin obs db' o'"
proof -
  have names: "\<forall>e \<in> set (ob_pending o'). name_ok (ue_account e)" using assms(2) by (simp add: good_def)
  have "open_value f a db' o' = open_value f a db o'" if "dimension f g" for f g a
    using assms(4-6) seq_next [OF assms(1)] bill_stored [OF names that] by (simp add: open_value_def)
  from this [of ue_rx sn_rx] this [of ue_tx sn_tx]
  have "open_value ue_rx a db' o' = open_value ue_rx a db o'" "open_value ue_tx a db' o' = open_value ue_tx a db o'" for a
    by (simp_all add: dimension_def)
  then have "tracked pin obs db' o'" using assms(2) tracked_cong [OF refl, of db' o' db pin obs] by (simp add: good_def)
  with assms(2,3,5) show ?thesis by (simp add: good_def)
qed

lemma good_same: "seq db' = seq db \<Longrightarrow> billed db' = billed db \<Longrightarrow> good pin obs db' o' = good pin obs db o'"
  using tracked_cong [of o' o' db' db pin obs] tracked_cong [of o' o' db db' pin obs]
  by (auto simp: good_def open_value_def)

text \<open>One exchange: either nothing of the stream changed, or the pending batch was billed.\<close>

lemma exchange_cases:
  assumes "inv db" "ob_stream o' = stream" "exchange net (server p) (batch_request token o') db = (res, db')"
  shows "inv db' \<and> (seq db' = seq db \<and> billed db' = billed db \<and> (res \<noteq> None \<longrightarrow> ob_seq o' = seq db)
    \<or> ob_seq o' = wrap64 (seq db + 1) \<and> seq db' = ob_seq o'
      \<and> billed db' = billed db @ map stored (ob_pending o'))"
proof (cases net)
  case Request_lost
  with assms show ?thesis by (simp add: exchange_def)
next
  case Response_lost
  obtain r db1 where "server p (batch_request token o') db = (r, db1)" by fastforce
  with Response_lost assms server_once [OF assms(1,2) this] server_inv [OF assms(1,2), of p] show ?thesis
    by (auto simp: exchange_def)
next
  case Delivered
  obtain r db1 where r: "server p (batch_request token o') db = (r, db1)" by fastforce
  with Delivered assms server_once [OF assms(1,2) this] server_inv [OF assms(1,2), of p] show ?thesis
    by (cases r) (auto simp: exchange_def)
qed

lemma exchange_boxes:
  assumes "boxes_ok pin obs db o' file" "ob_pending o' \<noteq> []"
    and "exchange net (server p) (batch_request token o') db = (res, db')"
  shows "boxes_ok pin obs db' o' file \<and> (res \<noteq> None \<longrightarrow> ob_seq o' = seq db')"
proof -
  note g = boxes_okD(1,2) [OF assms(1)] goodD(1) [OF boxes_okD(2) [OF assms(1)]]
  from exchange_cases [OF g(1,3) assms(3)] show ?thesis
  proof (elim conjE disjE, goal_cases)
    case 1
    have same: "good pin obs db' x = good pin obs db x" for x using 1(2,3) by (rule good_same)
    show ?case using assms(1) 1 unfolding boxes_ok_def same 1(2,3) by blast
  next
    case 2
    have "file = Some o'" using assms(1,2) 2(2) seq_next [OF g(1)] by (simp add: boxes_ok_def)
    moreover have "good pin obs db' o'" using g(1,2) assms(2) 2(2-4) by (rule good_commit)
    ultimately show ?case using 2 by (simp add: boxes_ok_def)
  qed
qed

lemma acknowledge_boxes:
  assumes "boxes_ok pin obs db o' file" "ob_seq o' = seq db" "Acknowledge sf o' file = (ok, o2, file2)"
  shows "boxes_ok pin obs db o2 file2"
proof (cases "ob_pending o' = []")
  case False
  define n where "n = o'\<lparr>ob_pending := [], ob_seq := wrap64 (ob_seq o' + 1)\<rparr>"
  have n: "good pin obs db n" "ob_pending n = []"
    using good_acknowledge [OF boxes_okD(1,2) [OF assms(1)] assms(2)] by (simp_all add: n_def)
  have "o2 = n \<and> file2 = Some n \<or> o2 = o' \<and> file2 = file \<or> o2 = o' \<and> file2 = Some n"
    using assms(3) False by (cases sf) (auto simp: Acknowledge_def save_def Let_def n_def)
  then show ?thesis
    using n assms(1,2) boxes_okD(1,2) [OF assms(1)] by (elim disjE conjE) (simp_all add: boxes_ok_def)
qed (use assms in \<open>simp add: Acknowledge_def\<close>)

lemma deliver_boxes:
  assumes "boxes_ok pin obs db o' file" "deliver token sf net (server p) o' file db = (ok, o2, file2, db2)"
  shows "boxes_ok pin obs db2 o2 file2"
proof (cases "ob_pending o' = []")
  case False
  obtain res db' where ex: "exchange net (server p) (batch_request token o') db = (res, db')" by fastforce
  note box = exchange_boxes [OF assms(1) False ex]
  show ?thesis
  proof (cases res)
    case None
    with assms(2) False ex box show ?thesis by (auto simp: deliver_def)
  next
    case (Some rp)
    with assms(2) False ex box show ?thesis
      by (auto simp: deliver_def split: if_splits prod.splits intro: acknowledge_boxes)
  qed
qed (use assms in \<open>simp add: deliver_def\<close>)

lemma prepare_boxes:
  assumes "boxes_ok pin obs db o' file" "monotone_counters (obs @ ss)" "\<forall>s \<in> set ss. name_ok (sn_account s)"
    and "Prepare sf ss o' file = (ok, o1, file1)"
  shows "boxes_ok pin (obs @ ss) db o1 file1"
proof -
  have mono: "boxes_ok pin (obs @ ss) db o' file" using assms(1) good_mono by (auto simp: boxes_ok_def)
  show ?thesis
  proof (cases "ob_pending o' = []")
    case True
    obtain es last' where b: "BuildUsageEvents (ob_last o') ss = (es, last')" by fastforce
    have "good pin obs db o'" using assms(1) by (simp add: boxes_ok_def)
    define n where "n = o'\<lparr>ob_last := last', ob_pending := es\<rparr>"
    have n: "good pin (obs @ ss) db n" unfolding n_def using \<open>good pin obs db o'\<close> True assms(2,3) b by (rule good_prepare)
    have "o1 = n \<and> file1 = Some n \<or> o1 = o' \<and> file1 = file \<or> o1 = o' \<and> file1 = Some n"
      using assms(4) True b by (cases sf) (auto simp: Prepare_def save_def Let_def n_def split: if_splits)
    then show ?thesis
      using n mono True boxes_okD(1,2) [OF mono] by (elim disjE conjE) (simp_all add: boxes_ok_def)
  qed (use mono assms(4) in \<open>simp add: Prepare_def\<close>)
qed

lemma good_empty:
  assumes "inv db" "seq db = 0" "billed db = []" "pin = Map.empty"
  shows "good pin obs db \<lparr>ob_agent = ag, ob_stream = stream, ob_seq = 1, ob_last = Map.empty, ob_pending = []\<rparr>"
  using assms by (simp add: good_def covers_def tracked_def open_value_def nothing_def int64_min_def int64_max_def)

lemma settled_open:
  assumes "settled pin obs (rn, db)"
    and "(case rn_box rn of Some o' \<Rightarrow> Some o' | None \<Rightarrow> OpenOutbox size_of stream ag (rn_file rn)) = Some o'"
  shows "boxes_ok pin obs db o' (rn_file rn)"
proof (cases "rn_box rn")
  case None
  with assms have op: "OpenOutbox size_of stream ag (rn_file rn) = Some o'" and
    s: "inv db" "\<And>d. rn_file rn = Some d \<Longrightarrow> good pin obs db d" "rn_file rn = None \<Longrightarrow> seq db = 0 \<and> billed db = [] \<and> pin = Map.empty"
    by (auto simp: settled_def)
  show ?thesis
  proof (cases "rn_file rn")
    case None
    with op s good_empty [OF s(1)] show ?thesis by (auto simp: OpenOutbox_def boxes_ok_def)
  next
    case (Some d)
    with op s show ?thesis by (auto simp: OpenOutbox_def boxes_ok_def split: if_splits)
  qed
qed (use assms in \<open>simp add: settled_def\<close>)

lemma settled_boxes:
  "boxes_ok pin obs db o' file \<Longrightarrow> rn_box rn = Some o' \<Longrightarrow> rn_file rn = file \<Longrightarrow> settled pin obs (rn, db)"
  by (simp add: settled_def)

lemma boxes_mono: "boxes_ok pin obs db o' file \<Longrightarrow> boxes_ok pin (obs @ ss) db o' file"
  using good_mono unfolding boxes_ok_def by blast

lemma settled_mono: "settled pin obs st \<Longrightarrow> settled pin (obs @ ss) st"
  using boxes_mono good_mono unfolding settled_def by (auto split: option.splits)

lemma settled_reported: "settled pin obs (rn\<lparr>rn_reported := t\<rparr>, db) = settled pin obs (rn, db)"
  by (simp add: settled_def split: option.split)

lemma settled_tick:
  assumes "settled pin obs (rn, db)" "cf_token cf = token"
    and "\<And>ss. collected = Some ss \<Longrightarrow> obs' = obs @ ss \<and> monotone_counters (obs @ ss) \<and> (\<forall>s \<in> set ss. name_ok (sn_account s))"
    and "collected = None \<Longrightarrow> obs' = obs"
  shows "settled pin obs' (snd (reportTrafficUsage cf size_of stream now collected sf1 sf2 net (server p) rn db))"
proof -
  have obs': "settled pin obs' (rn\<lparr>rn_reported := t\<rparr>, db)" for t
    using settled_mono [OF assms(1)] assms(1,3,4) by (cases collected) (auto simp: settled_reported)
  have del: "settled pin obs' (rn\<lparr>rn_reported := Some now, rn_box := Some o2, rn_file := f2\<rparr>, db2)"
    if "boxes_ok pin obs' db o' f" "deliver token sf2 net (server p) o' f db = (ok, o2, f2, db2)" for o' f ok o2 f2 db2
    using deliver_boxes [OF that] by (rule settled_boxes) simp_all
  let ?open = "case rn_box rn of Some o' \<Rightarrow> Some o' | None \<Rightarrow> OpenOutbox size_of stream (cf_agent cf) (rn_file rn)"
  show ?thesis
  proof (cases "?open")
    case None
    then show ?thesis using obs' [of "rn_reported rn"] obs' [of "Some now"]
      by (auto simp: reportTrafficUsage_def Let_def split: option.splits)
  next
    case (Some o')
    note box = settled_open [OF assms(1) Some]
    have box': "boxes_ok pin obs' db o' (rn_file rn)"
      using box boxes_mono [OF box] assms(3,4) by (cases collected) auto
    have prep: "boxes_ok pin obs' db o1 f1" if "collected = Some ss" "Prepare sf1 ss o' (rn_file rn) = (ok, o1, f1)" for ss ok o1 f1
      using prepare_boxes [OF box _ _ that(2)] assms(3) [OF that(1)] by simp
    have same: "settled pin obs' (rn\<lparr>rn_reported := Some now, rn_box := Some o'\<rparr>, db)"
      using box' by (rule settled_boxes) simp_all
    have failed: "settled pin obs' (rn\<lparr>rn_reported := Some now, rn_box := Some o1, rn_file := f1\<rparr>, db)"
      if "boxes_ok pin obs' db o1 f1" for o1 f1
      using that by (rule settled_boxes) simp_all
    show ?thesis
      unfolding reportTrafficUsage_def Let_def Some
      using obs' [of "rn_reported rn"] del [OF box'] del [OF prep] failed [OF prep] same assms(2)
      by (auto split: option.split prod.split bool.split)
  qed
qed

lemma settled_other: "settled pin obs (rn, db) \<Longrightarrow> settled pin obs (rn, other ev db)"
  using other_inv [of db ev] other_same [of db ev] good_same [of "other ev db" db pin obs]
  by (auto simp: settled_def boxes_ok_def split: option.splits)

lemma settled_restart: "settled pin obs (rn, db) \<Longrightarrow> settled pin obs (rn\<lparr>rn_box := None, rn_reported := None\<rparr>, db)"
  by (auto simp: settled_def boxes_ok_def split: option.splits)

lemma settled_step:
  assumes "settled pin obs st" "cf_token cf = token" "monotone_counters (obs @ collected_by ev)"
    "\<forall>s \<in> set (collected_by ev). name_ok (sn_account s)"
  shows "settled pin (obs @ collected_by ev) (system_step cf size_of stream server other ev st)"
proof (cases st)
  case (Pair rn db)
  show ?thesis
  proof (cases ev)
    case (Tick now collected sf1 sf2 net p)
    show ?thesis
      unfolding Tick Pair system_step.simps
      by (rule settled_tick [of pin obs]) (use assms Pair Tick in auto)
  qed (use assms Pair settled_other settled_restart in auto)
qed

lemma settled_run:
  assumes "settled pin obs st" "cf_token cf = token" "monotone_counters (obs @ concat (map collected_by evs))"
    "\<forall>s \<in> set (concat (map collected_by evs)). name_ok (sn_account s)"
  shows "settled pin (obs @ concat (map collected_by evs)) (fold (system_step cf size_of stream server other) evs st)"
  using assms
proof (induction evs arbitrary: obs st)
  case (Cons ev evs)
  have "monotone_counters (obs @ collected_by ev)"
    using Cons.prems(3) by (auto simp: monotone_counters_def sorted_wrt_append)
  then have "settled pin (obs @ collected_by ev) (system_step cf size_of stream server other ev st)"
    using Cons.prems by (intro settled_step) auto
  from Cons.IH [OF this Cons.prems(2)] Cons.prems(3,4) show ?case by simp
qed simp

text \<open>What an outbox without a pending batch says: the bytes billed for an account are the difference
  between its current baseline and the reading its accounting starts at.\<close>

lemma conservation:
  assumes "settled pin obs (rn, db)" "rn_box rn = Some o'" "ob_pending o' = []" "ob_last o' a = Some s"
  shows "\<exists>b. starts pin obs a b \<and> spans (\<lambda>f. bill f a (billed db)) b s"
proof -
  have g: "good pin obs db o'" using assms(1,2) by (auto simp: settled_def boxes_ok_def)
  then have "open_value f a db o' = bill f a (billed db)" for f
    using assms(3) by (simp add: open_value_def)
  with trackedD [OF goodD(6) [OF g], of a] assms(4) show ?thesis by simp
qed

text \<open>From a moment with nothing pending and the outbox on disk, the accounting of an account can be taken to
  start at its baseline, the bytes billed until then counted in.\<close>

definition anchor :: "string \<Rightarrow> 'db \<Rightarrow> snapshot \<Rightarrow> snapshot" where
  "anchor a db s = s\<lparr>sn_rx := sn_rx s - bill ue_rx a (billed db), sn_tx := sn_tx s - bill ue_tx a (billed db)\<rparr>"

lemma settled_anchor:
  assumes "settled Map.empty obs (rn, db)" "rn_box rn = Some o'" "rn_file rn = Some o'" "ob_pending o' = []"
    and "ob_last o' a = Some s"
  shows "settled [a \<mapsto> anchor a db s] obs (rn, db)"
proof -
  have g: "inv db" "good Map.empty obs db o'" using assms(1-3) by (auto simp: settled_def boxes_ok_def)
  have v: "open_value f x db o' = bill f x (billed db)" for f x
    using goodD(3) [OF g(2)] assms(4) by (simp add: open_value_def)
  have "tracked [a \<mapsto> anchor a db s] obs db o'"
    unfolding tracked_def
  proof (intro allI)
    fix x
    show "case ob_last o' x of
        None \<Rightarrow> [a \<mapsto> anchor a db s] x = None \<and> nothing (\<lambda>f. open_value f x db o')
      | Some t \<Rightarrow> \<exists>b. starts [a \<mapsto> anchor a db s] obs x b \<and> spans (\<lambda>f. open_value f x db o') b t"
    proof (cases "x = a")
      case True
      then show ?thesis using assms(5) by (simp add: starts_def spans_def v anchor_def)
    next
      case False
      then show ?thesis using trackedD [OF goodD(6) [OF g(2)], of x] by (auto simp: starts_def split: option.splits)
    qed
  qed
  then have "good [a \<mapsto> anchor a db s] obs db o'" using goodD [OF g(2)] by (simp add: good_def)
  then show ?thesis using g(1) assms(2-4) by (simp add: settled_def boxes_ok_def)
qed

text \<open>Between two rounds that read the counters of an account and were acknowledged, the server bills exactly the
  difference of the two readings.\<close>

lemma billed_between:
  assumes start: "settled Map.empty [] st0" "cf_token cf = token"
    and runs: "st = fold (system_step cf size_of stream server other) evs1 st0"
      "st' = fold (system_step cf size_of stream server other) (r1 # evs2) st"
    and rounds: "acknowledged cf size_of stream server r1 st" "acknowledged cf size_of stream server r2 st'"
    and readings: "last_reading a (collected_by r1) = Some s1" "last_reading a (collected_by r2) = Some s2"
    and obs: "monotone_counters (concat (map collected_by (evs1 @ r1 # evs2 @ [r2])))"
      "\<forall>s \<in> set (concat (map collected_by (evs1 @ r1 # evs2 @ [r2]))). name_ok (sn_account s)"
    and "dimension f g"
  shows "bill f a (billed (snd (system_step cf size_of stream server other r2 st')))
      = bill f a (billed (snd (system_step cf size_of stream server other r1 st))) + (g s2 - g s1)"
    and "filter (\<lambda>s. sn_account s = a) (concat (map collected_by (evs1 @ [r1]))) = [s1] \<Longrightarrow>
      bill f a (billed (snd (system_step cf size_of stream server other r1 st))) = 0"
proof -
  let ?obs1 = "concat (map collected_by (evs1 @ [r1]))"
  let ?obs2 = "concat (map collected_by (evs2 @ [r2]))"
  obtain rn1 db1 where st1: "system_step cf size_of stream server other r1 st = (rn1, db1)" by fastforce
  have all: "?obs1 @ ?obs2 = concat (map collected_by (evs1 @ r1 # evs2 @ [r2]))" by simp
  have obs1: "monotone_counters ([] @ ?obs1)" "\<forall>s \<in> set ?obs1. name_ok (sn_account s)"
    using obs unfolding all [symmetric] by (auto simp: monotone_counters_def sorted_wrt_append)
  have run1: "fold (system_step cf size_of stream server other) (evs1 @ [r1]) st0 = (rn1, db1)" using runs(1) st1 by simp
  have set1: "settled Map.empty ?obs1 (rn1, db1)"
    using settled_run [OF start obs1, of size_of] run1 by simp
  from acknowledged_box [OF rounds(1) readings(1), of other] obtain o1 where
    o1: "rn_box rn1 = Some o1" "rn_file rn1 = Some o1" "ob_pending o1 = []" "ob_last o1 a = Some s1" using st1 by auto
  have set1': "settled [a \<mapsto> anchor a db1 s1] ?obs1 (rn1, db1)" by (rule settled_anchor [OF set1 o1])
  obtain rn2 db2 where st2: "system_step cf size_of stream server other r2 st' = (rn2, db2)" by fastforce
  have run2: "fold (system_step cf size_of stream server other) (evs2 @ [r2]) (rn1, db1) = (rn2, db2)"
    using runs(2) st1 st2 by simp
  have obs2: "monotone_counters (?obs1 @ ?obs2)" "\<forall>s \<in> set ?obs2. name_ok (sn_account s)"
    using obs unfolding all [symmetric] by auto
  have set2: "settled [a \<mapsto> anchor a db1 s1] (?obs1 @ ?obs2) (rn2, db2)"
    using settled_run [OF set1' start(2) obs2, of size_of] run2 by simp
  from acknowledged_box [OF rounds(2) readings(2), of other] obtain o2 where
    o2: "rn_box rn2 = Some o2" "ob_pending o2 = []" "ob_last o2 a = Some s2" using st2 by auto
  from conservation [OF set2 o2] obtain b where
    b: "starts [a \<mapsto> anchor a db1 s1] (?obs1 @ ?obs2) a b" "spans (\<lambda>f. bill f a (billed db2)) b s2" by blast
  then show "bill f a (billed (snd (system_step cf size_of stream server other r2 st')))
      = bill f a (billed (snd (system_step cf size_of stream server other r1 st))) + (g s2 - g s1)"
    using assms(11) by (auto simp: st1 st2 starts_def spans_def anchor_def dimension_def)
  assume first: "filter (\<lambda>s. sn_account s = a) ?obs1 = [s1]"
  from conservation [OF set1 o1(1,3,4)] obtain b where
    b: "b \<in> set ?obs1" "sn_account b = a" "spans (\<lambda>f. bill f a (billed db1)) b s1" by (auto simp: starts_def)
  then have "b \<in> set (filter (\<lambda>s. sn_account s = a) ?obs1)" by simp
  then have "b = s1" unfolding first by simp
  then show "bill f a (billed (snd (system_step cf size_of stream server other r1 st))) = 0"
    using b(3) assms(11) by (auto simp: st1 spans_def dimension_def)
qed

end

section \<open>The Manager implements the interface\<close>

definition checkpoint_seq :: "string \<Rightarrow> string \<Rightarrow> checkpoint_row table \<Rightarrow> int" where
  "checkpoint_seq agent sid t = (case find (stream_key agent sid) t of None \<Rightarrow> 0 | Some c \<Rightarrow> cp_seq c)"

definition row_event :: "usage_row \<Rightarrow> usage_event" where
  "row_event r = \<lparr>ue_account = u_account r, ue_rx = u_rx r, ue_tx = u_tx r, ue_at = u_at r, ue_meta = u_meta r\<rparr>"

definition billed_events :: "string \<Rightarrow> traffic_db \<Rightarrow> usage_event list" where
  "billed_events agent db = map row_event (select (\<lambda>r. u_agent r = agent) (usage db))"

definition stored_event :: "(string \<Rightarrow> string option) \<Rightarrow> usage_event \<Rightarrow> usage_event" where
  "stored_event pg_uuid e =
     e\<lparr>ue_account := the (pg_uuid (TrimSpace (ue_account e))),
       ue_meta := (if ue_meta e = JNull then JObj [] else ue_meta e)\<rparr>"

definition canonical_name :: "(string \<Rightarrow> string option) \<Rightarrow> string \<Rightarrow> bool" where
  "canonical_name pg_uuid a \<longleftrightarrow> pg_uuid (TrimSpace a) = Some a"

definition traffic_inv :: "string \<Rightarrow> string \<Rightarrow> traffic_db \<Rightarrow> bool" where
  "traffic_inv agent token db \<longleftrightarrow>
     (\<forall>g \<in> set (t_agents db). g_token g = token \<longrightarrow> g_id g = agent)
     \<and> (\<forall>c \<in> set (checkpoints db). 0 \<le> cp_seq c \<and> cp_seq c \<le> int64_max)"

lemma insert_events_Inr:
  "insert_events pg_uuid agent srv es db = Inr db' \<Longrightarrow>
     db' = db\<lparr>usage := usage db @ map (\<lambda>e. usage_row_of agent srv (the (pg_uuid (ue_account e))) e) es\<rparr>"
proof (induction es arbitrary: db)
  case (Cons e es)
  from Cons.prems obtain db1 where 1: "insert_event pg_uuid agent srv e db = Inr db1"
    and 2: "insert_events pg_uuid agent srv es db1 = Inr db'" by (auto split: sum.splits)
  from 1 have "db1 = db\<lparr>usage := usage db @ [usage_row_of agent srv (the (pg_uuid (ue_account e))) e]\<rparr>"
    by (auto simp: insert_event_def split: option.splits if_splits)
  with Cons.IH [OF 2] show ?case by simp
qed simp

lemma evaluate_Inr:
  "evaluateAccountLimitTx pg_uuid now a db = Inr db' \<Longrightarrow>
     usage db' = usage db \<and> checkpoints db' = checkpoints db \<and> t_agents db' = t_agents db \<and> t_accounts db' = t_accounts db"
  by (auto simp: evaluateAccountLimitTx_def split: option.splits if_splits)

lemma evaluate_all_Inr:
  "evaluate_all pg_uuid now as db = Inr db' \<Longrightarrow>
     usage db' = usage db \<and> checkpoints db' = checkpoints db \<and> t_agents db' = t_agents db \<and> t_accounts db' = t_accounts db"
proof (induction as arbitrary: db)
  case (Cons a as)
  from Cons.prems obtain db1 where "evaluateAccountLimitTx pg_uuid now a db = Inr db1"
    "evaluate_all pg_uuid now as db1 = Inr db'" by (auto split: sum.splits)
  with Cons.IH [of db1] evaluate_Inr [of pg_uuid now a db db1] show ?case by simp
qed simp

lemma record_events_Inr:
  assumes "record_events pg_uuid now agent srv es db = Inr db'"
  shows "usage db' = usage db @ map (\<lambda>e. usage_row_of agent srv (the (pg_uuid (ue_account e))) e) es"
    "checkpoints db' = checkpoints db"
    "t_agents db' = update_where (\<lambda>g. g_id g = agent) (\<lambda>g. g\<lparr>g_seen := now, g_status := ''online''\<rparr>) (t_agents db)"
proof -
  from assms obtain db1 db2 where 1: "insert_events pg_uuid agent srv es db = Inr db1"
    and 2: "evaluate_all pg_uuid now (remdups (map ue_account es)) db1 = Inr db2" and "db' = touch_agent now agent db2"
    by (auto simp: record_events_def split: sum.splits)
  with insert_events_Inr [OF 1] evaluate_all_Inr [OF 2]
  show "usage db' = usage db @ map (\<lambda>e. usage_row_of agent srv (the (pg_uuid (ue_account e))) e) es"
    "checkpoints db' = checkpoints db"
    "t_agents db' = update_where (\<lambda>g. g_id g = agent) (\<lambda>g. g\<lparr>g_seen := now, g_status := ''online''\<rparr>) (t_agents db)"
    by (simp_all add: touch_agent_def)
qed

lemma checkpoint_seq_ensure [simp]:
  "checkpoint_seq agent sid (ensure_checkpoint agent' sid' t) = checkpoint_seq agent sid t"
  by (auto simp: checkpoint_seq_def ensure_checkpoint_def find_append stream_key_def split: option.split)

lemma checkpoint_seq_update:
  assumes "find (stream_key agent sid) t \<noteq> None"
  shows "checkpoint_seq agent' sid' (update_where (stream_key agent sid) (\<lambda>c. c\<lparr>cp_seq := n, cp_hash := h\<rparr>) t)
    = (if agent' = agent \<and> sid' = sid then n else checkpoint_seq agent' sid' t)"
proof -
  have upd: "find (stream_key agent' sid') (update_where (stream_key agent sid) (\<lambda>c. c\<lparr>cp_seq := n, cp_hash := h\<rparr>) t)
    = map_option (\<lambda>c. if stream_key agent sid c then c\<lparr>cp_seq := n, cp_hash := h\<rparr> else c) (find (stream_key agent' sid') t)"
    by (rule find_update_where) (simp add: stream_key_def)
  show ?thesis
  proof (cases "find (stream_key agent' sid') t")
    case None
    with assms have "\<not> (agent' = agent \<and> sid' = sid)" by auto
    with None show ?thesis unfolding checkpoint_seq_def upd by auto
  next
    case (Some c)
    then have "stream_key agent' sid' c" by (auto dest: find_SomeD)
    then have "stream_key agent sid c \<longleftrightarrow> agent' = agent \<and> sid' = sid" by (auto simp: stream_key_def)
    with Some show ?thesis unfolding checkpoint_seq_def upd by simp
  qed
qed

text \<open>A transaction of a report that commits.\<close>

lemma report_body_Commit:
  assumes "report_body pg_uuid digest now (agent, srv) es stream n db = Commit r db'" "stream \<noteq> []"
  obtains sid where "pg_uuid stream = Some sid" "n = wrap64 (checkpoint_seq agent sid (checkpoints db) + 1)" "1 \<le> n"
    "usage db' = usage db @ map (\<lambda>e. usage_row_of agent srv (the (pg_uuid (ue_account e))) e) es"
    "checkpoints db' = update_where (stream_key agent sid) (\<lambda>c. c\<lparr>cp_seq := n, cp_hash := digest es\<rparr>)
       (ensure_checkpoint agent sid (checkpoints db))"
    "t_agents db' = update_where (\<lambda>g. g_id g = agent) (\<lambda>g. g\<lparr>g_seen := now, g_status := ''online''\<rparr>) (t_agents db)"
    "r = Inr \<lparr>rp_agent = agent, rp_server = srv, rp_accepted = length es\<rparr>"
proof -
  from assms obtain sid where sid: "pg_uuid stream = Some sid"
    by (auto simp: report_body_def Let_def split: option.splits)
  let ?t = "ensure_checkpoint agent sid (checkpoints db)"
  from assms sid obtain c where c: "find (stream_key agent sid) ?t = Some c"
    by (auto simp: report_body_def Let_def split: option.splits)
  have seq: "checkpoint_seq agent sid (checkpoints db) = cp_seq c"
    using checkpoint_seq_ensure [of agent sid agent sid "checkpoints db"] c by (simp add: checkpoint_seq_def)
  from assms sid c obtain db1 where n: "n = wrap64 (cp_seq c + 1)" "1 \<le> n"
    and rec: "record_events pg_uuid now agent srv es (db\<lparr>checkpoints := ?t\<rparr>) = Inr db1"
    and db': "db' = db1\<lparr>checkpoints := update_where (stream_key agent sid)
      (\<lambda>c. c\<lparr>cp_seq := n, cp_hash := digest es\<rparr>) (checkpoints db1)\<rparr>"
    and r: "r = Inr \<lparr>rp_agent = agent, rp_server = srv, rp_accepted = length es\<rparr>"
    by (auto simp: report_body_def Let_def split: if_splits sum.splits)
  from record_events_Inr [OF rec] n sid seq r show thesis
    by (intro that [of sid]) (simp_all add: db')
qed

lemma report_body_Rollback:
  assumes "report_body pg_uuid digest now (agent, srv) es stream n db = Rollback (Inr r)" "stream \<noteq> []"
  obtains sid where "pg_uuid stream = Some sid" "n = checkpoint_seq agent sid (checkpoints db)"
proof -
  from assms obtain sid where sid: "pg_uuid stream = Some sid"
    by (auto simp: report_body_def Let_def split: option.splits)
  let ?t = "ensure_checkpoint agent sid (checkpoints db)"
  from assms sid obtain c where c: "find (stream_key agent sid) ?t = Some c"
    by (auto simp: report_body_def Let_def split: option.splits)
  have "checkpoint_seq agent sid (checkpoints db) = cp_seq c"
    using checkpoint_seq_ensure [of agent sid agent sid "checkpoints db"] c by (simp add: checkpoint_seq_def)
  with assms sid c show thesis
    by (intro that [of sid]) (auto simp: report_body_def Let_def split: if_splits sum.splits)
qed


definition clean_event :: "usage_event \<Rightarrow> usage_event" where
  "clean_event e = e\<lparr>ue_account := TrimSpace (ue_account e)\<rparr>"

lemma event_inputs_batch:
  "event_inputs now (map (\<lambda>e. \<lparr>q_account = ue_account e, q_rx = ue_rx e, q_tx = ue_tx e, q_at = Some (ue_at e),
     q_meta = ue_meta e\<rparr>) es) = Some out \<Longrightarrow> out = map clean_event es"
  by (induction es arbitrary: out) (auto simp: Let_def clean_event_def split: if_splits)

lemma row_event_stored:
  "row_event (usage_row_of agent srv (the (pg_uuid (ue_account (clean_event e)))) (clean_event e)) = stored_event pg_uuid e"
  by (simp add: row_event_def usage_row_of_def clean_event_def stored_event_def)

lemma billed_events_append:
  "usage db' = usage db @ map (\<lambda>e. usage_row_of agent srv (u e) e) es \<Longrightarrow>
     billed_events agent db' = billed_events agent db @ map (\<lambda>e. row_event (usage_row_of agent srv (u e) e)) es"
  by (simp add: billed_events_def select_def usage_row_of_def comp_def)

lemma billed_events_other:
  "usage db' = usage db @ map (\<lambda>e. usage_row_of agent' srv (u e) e) es \<Longrightarrow> agent' \<noteq> agent \<Longrightarrow>
     billed_events agent db' = billed_events agent db"
  by (simp add: billed_events_def select_def usage_row_of_def)

text \<open>A batch request either leaves the tables alone or commits the batch.\<close>

lemma ReportUsage_batch_cases:
  assumes "ReportUsage fate pg_uuid digest hash_token now (batch_request token o') db = (r, db')"
  obtains (refused) st msg where "r = Refused st msg" "db' = db"
  | (called) agent srv q where "reportingAgentByTokenHash (hash_token token) db = Inr (agent, srv)"
      "ob_stream o' \<noteq> []"
      "run_tx DatabaseError fate (report_body pg_uuid digest now (agent, srv) (map clean_event (ob_pending o'))
         (ob_stream o') (ob_seq o') db) db = (q, db')" "r = report_status q"
proof -
  let ?rq = "batch_request token o'"
  show thesis
  proof (cases "\<exists>st msg. r = Refused st msg \<and> db' = db")
    case False
    with assms obtain es where es: "event_inputs now (rq_events ?rq) = Some es" and str: "ob_stream o' \<noteq> []"
      and call: "(case ReportUsageBatch fate pg_uuid digest now (hash_token token) es (ob_stream o') (ob_seq o') db of
        (q, db') \<Rightarrow> (report_status q, db')) = (r, db')"
      by (auto simp: ReportUsage_def batch_request_def split: if_splits option.splits)
    have "es = map clean_event (ob_pending o')"
      using event_inputs_batch [of now "ob_pending o'" es] es by (simp add: batch_request_def)
    note call' = call [unfolded this]
    show thesis
    proof (cases "reportingAgentByTokenHash (hash_token token) db")
      case (Inl e)
      with call' False show thesis
        by (cases e) (auto simp: ReportUsageBatch_def report_status_def)
    next
      case (Inr ag)
      obtain agent srv where ag: "ag = (agent, srv)" by (cases ag)
      obtain q db1 where q: "run_tx DatabaseError fate (report_body pg_uuid digest now (agent, srv)
        (map clean_event (ob_pending o')) (ob_stream o') (ob_seq o') db) db = (q, db1)" by fastforce
      with call' Inr ag have "r = report_status q" "db' = db1" by (simp_all add: ReportUsageBatch_def)
      with q Inr ag str show thesis by (intro called [of agent srv q]) simp_all
    qed
  qed (use refused in blast)
qed


definition stream_seq :: "(string \<Rightarrow> string option) \<Rightarrow> string \<Rightarrow> string \<Rightarrow> traffic_db \<Rightarrow> int" where
  "stream_seq pg_uuid agent stream db =
     (case pg_uuid stream of None \<Rightarrow> 0 | Some sid \<Rightarrow> checkpoint_seq agent sid (checkpoints db))"

lemma reporting_agent_id:
  "traffic_inv agent tok db \<Longrightarrow> reportingAgentByTokenHash tok db = Inr (a, srv) \<Longrightarrow> a = agent"
  by (auto simp: reportingAgentByTokenHash_def traffic_inv_def dest!: find_SomeD split: option.splits if_splits)

lemma ensured_find: "find (stream_key agent sid) (ensure_checkpoint agent sid t) \<noteq> None"
proof -
  have "\<exists>c \<in> set (ensure_checkpoint agent sid t). stream_key agent sid c"
    by (auto simp: ensure_checkpoint_def) (simp add: stream_key_def)
  then show ?thesis by (auto simp: find_None_iff)
qed

lemma traffic_inv_report:
  assumes "traffic_inv agent tok db" "report_body pg_uuid digest now (a, srv) es stream n db = Commit r db'"
  shows "traffic_inv agent tok db'"
proof (cases "stream = []")
  case True
  with assms(2) obtain db1 where "record_events pg_uuid now a srv es db = Inr db1" "db' = db1"
    by (auto simp: report_body_def Let_def split: sum.splits)
  with record_events_Inr [of pg_uuid now a srv es db db1] assms(1) show ?thesis
    by (auto simp: traffic_inv_def set_update_where)
next
  case False
  with assms(2) obtain sid where n: "n = wrap64 (checkpoint_seq a sid (checkpoints db) + 1)" "1 \<le> n"
    and cp: "checkpoints db' = update_where (stream_key a sid) (\<lambda>c. c\<lparr>cp_seq := n, cp_hash := digest es\<rparr>)
      (ensure_checkpoint a sid (checkpoints db))"
    and ag: "t_agents db' = update_where (\<lambda>g. g_id g = a) (\<lambda>g. g\<lparr>g_seen := now, g_status := ''online''\<rparr>) (t_agents db)"
    by (rule report_body_Commit)
  have "n \<le> int64_max" using n(1) by (simp add: wrap64_def int64_max_def)
  with n(2) assms(1) show ?thesis
    by (auto simp: traffic_inv_def cp ag set_update_where ensure_checkpoint_def int64_max_def)
qed

lemma report_batch_once:
  assumes inv: "traffic_inv agent (hash_token token) db"
    and rep: "ReportUsage fate pg_uuid digest hash_token now (batch_request token o') db = (r, db')"
  shows "stream_seq pg_uuid agent (ob_stream o') db' = stream_seq pg_uuid agent (ob_stream o') db
      \<and> billed_events agent db' = billed_events agent db
      \<and> ((\<exists>rp. r = Accepted rp) \<longrightarrow> ob_seq o' = stream_seq pg_uuid agent (ob_stream o') db)
    \<or> ob_seq o' = wrap64 (stream_seq pg_uuid agent (ob_stream o') db + 1)
      \<and> stream_seq pg_uuid agent (ob_stream o') db' = ob_seq o'
      \<and> billed_events agent db' = billed_events agent db @ map (stored_event pg_uuid) (ob_pending o')"
  using rep
proof (cases rule: ReportUsage_batch_cases)
  case (called a srv q)
  let ?es = "map clean_event (ob_pending o')"
  let ?out = "report_body pg_uuid digest now (a, srv) ?es (ob_stream o') (ob_seq o') db"
  have a: "a = agent" using reporting_agent_id [OF inv called(1)] .
  show ?thesis
  proof (cases ?out)
    case (Rollback x)
    with called(3) have x: "q = x" "db' = db" by simp_all
    have "ob_seq o' = stream_seq pg_uuid agent (ob_stream o') db" if "r = Accepted rp" for rp
    proof -
      from that called(4) x obtain y where "x = Inr y"
        by (cases x) (auto simp: report_status_def split: traffic_error.splits)
      with Rollback [unfolded a] called(2) obtain sid where
        "pg_uuid (ob_stream o') = Some sid" "ob_seq o' = checkpoint_seq agent sid (checkpoints db)"
        by (auto elim: report_body_Rollback)
      then show ?thesis by (simp add: stream_seq_def)
    qed
    with x show ?thesis by auto
  next
    case (Commit x db1)
    from Commit [unfolded a] called(2) obtain sid where
      sid: "pg_uuid (ob_stream o') = Some sid" "ob_seq o' = wrap64 (checkpoint_seq agent sid (checkpoints db) + 1)"
      and us: "usage db1 = usage db @ map (\<lambda>e. usage_row_of agent srv (the (pg_uuid (ue_account e))) e) ?es"
      and cp: "checkpoints db1 = update_where (stream_key agent sid) (\<lambda>c. c\<lparr>cp_seq := ob_seq o', cp_hash := digest ?es\<rparr>)
         (ensure_checkpoint agent sid (checkpoints db))"
      by (rule report_body_Commit)
    have "billed_events agent db1 = billed_events agent db @ map (stored_event pg_uuid) (ob_pending o')"
      using billed_events_append [OF us] by (simp add: row_event_stored comp_def)
    moreover have "stream_seq pg_uuid agent (ob_stream o') db1 = ob_seq o'"
      using checkpoint_seq_update [OF ensured_find, of agent sid] by (simp add: stream_seq_def sid(1) cp)
    moreover have "db' = db1 \<or> db' = db \<and> (\<nexists>rp. r = Accepted rp)"
      using called(3,4) Commit by (cases fate) (auto simp: report_status_def)
    ultimately show ?thesis using sid by (auto simp: stream_seq_def)
  qed
qed simp


text \<open>Other activity of the Manager: limits, reports of other Agents, changes of the inventory that keep
  the Agent's token with the Agent.\<close>

datatype manager_event =
    M_limit commit_fate time string limit_input
  | M_report commit_fate time string "usage_event list" string int
  | M_inventory "tagent_row table" "account_row table"

fun manager_step ::
  "(string \<Rightarrow> string option) \<Rightarrow> (usage_event list \<Rightarrow> string) \<Rightarrow> string \<Rightarrow> string \<Rightarrow> manager_event \<Rightarrow> traffic_db \<Rightarrow> traffic_db" where
  "manager_step pg_uuid digest agent tok (M_limit fate now acct i) db = snd (UpsertLimit fate pg_uuid now acct i db)"
| "manager_step pg_uuid digest agent tok (M_report fate now tok' es stream n) db =
     (if \<exists>srv. reportingAgentByTokenHash tok' db = Inr (agent, srv) then db
      else snd (ReportUsageBatch fate pg_uuid digest now tok' es stream n db))"
| "manager_step pg_uuid digest agent tok (M_inventory as acs) db =
     (if \<forall>g \<in> set as. g_token g = tok \<longrightarrow> g_id g = agent then db\<lparr>t_agents := as, t_accounts := acs\<rparr> else db)"

lemma upsert_body_frame:
  "upsert_body pg_uuid now acct i db = Commit r db' \<Longrightarrow>
     usage db' = usage db \<and> checkpoints db' = checkpoints db \<and> t_agents db' = t_agents db"
  by (auto simp: upsert_body_def Let_def split: option.splits if_splits sum.splits dest!: evaluate_Inr)

lemma UpsertLimit_frame:
  "usage (snd (UpsertLimit fate pg_uuid now acct i db)) = usage db
     \<and> checkpoints (snd (UpsertLimit fate pg_uuid now acct i db)) = checkpoints db
     \<and> t_agents (snd (UpsertLimit fate pg_uuid now acct i db)) = t_agents db"
  unfolding UpsertLimit_def
  by (rule run_tx_invariant [where P = "\<lambda>d. usage d = usage db \<and> checkpoints d = checkpoints db \<and> t_agents d = t_agents db"])
    (auto dest: upsert_body_frame)

lemma report_body_other:
  assumes "report_body pg_uuid digest now (a, srv) es stream n db = Commit r db'" "a \<noteq> agent"
  shows "billed_events agent db' = billed_events agent db
    \<and> checkpoint_seq agent sid (checkpoints db') = checkpoint_seq agent sid (checkpoints db)"
proof (cases "stream = []")
  case True
  with assms(1) obtain db1 where "record_events pg_uuid now a srv es db = Inr db1" "db' = db1"
    by (auto simp: report_body_def Let_def split: sum.splits)
  with record_events_Inr [of pg_uuid now a srv es db db1] billed_events_other assms(2) show ?thesis by auto
next
  case False
  with assms(1) obtain sid' where
    us: "usage db' = usage db @ map (\<lambda>e. usage_row_of a srv (the (pg_uuid (ue_account e))) e) es"
    and cp: "checkpoints db' = update_where (stream_key a sid') (\<lambda>c. c\<lparr>cp_seq := n, cp_hash := digest es\<rparr>)
      (ensure_checkpoint a sid' (checkpoints db))"
    by (rule report_body_Commit)
  from billed_events_other [OF us assms(2)] checkpoint_seq_update [OF ensured_find, of agent sid] assms(2)
  show ?thesis by (simp add: cp)
qed

lemma ReportUsageBatch_other:
  assumes "\<nexists>srv. reportingAgentByTokenHash tok' db = Inr (agent, srv)"
  shows "billed_events agent (snd (ReportUsageBatch fate pg_uuid digest now tok' es stream n db)) = billed_events agent db
    \<and> (\<forall>sid. checkpoint_seq agent sid (checkpoints (snd (ReportUsageBatch fate pg_uuid digest now tok' es stream n db)))
         = checkpoint_seq agent sid (checkpoints db))"
proof (cases "reportingAgentByTokenHash tok' db")
  case (Inr ag)
  obtain a srv where ag: "ag = (a, srv)" by (cases ag)
  with assms Inr have a: "a \<noteq> agent" by auto
  have "billed_events agent (snd (run_tx DatabaseError fate (report_body pg_uuid digest now (a, srv) es stream n db) db)) = billed_events agent db
    \<and> (\<forall>sid. checkpoint_seq agent sid (checkpoints (snd (run_tx DatabaseError fate (report_body pg_uuid digest now (a, srv) es stream n db) db)))
         = checkpoint_seq agent sid (checkpoints db))"
    by (rule run_tx_invariant [where P = "\<lambda>d. billed_events agent d = billed_events agent db
        \<and> (\<forall>sid. checkpoint_seq agent sid (checkpoints d) = checkpoint_seq agent sid (checkpoints db))"])
      (use report_body_other [OF _ a] in auto)
  with Inr ag show ?thesis by (simp add: ReportUsageBatch_def)
qed (simp add: ReportUsageBatch_def)

lemma traffic_inv_batch:
  "traffic_inv agent tok db \<Longrightarrow> traffic_inv agent tok (snd (ReportUsageBatch fate pg_uuid digest now tok' es stream n db))"
  by (cases "reportingAgentByTokenHash tok' db")
    (auto simp: ReportUsageBatch_def intro!: run_tx_invariant [where P = "traffic_inv agent tok"] dest: traffic_inv_report)

lemma traffic_inv_ReportUsage:
  assumes "traffic_inv agent tok db"
  shows "traffic_inv agent tok (snd (ReportUsage fate pg_uuid digest hash_token now rq db))"
  using assms traffic_inv_batch [OF assms]
  by (auto simp: ReportUsage_def split: option.split prod.split) (metis snd_conv)+

lemma wrap64_Suc_neq: "wrap64 (x + 1) \<noteq> x"
proof
  let ?y = "x + 1 + 2 ^ 63" and ?m = "2 ^ 64 :: int"
  assume "wrap64 (x + 1) = x"
  then have "?y mod ?m = x + 2 ^ 63" by (simp add: wrap64_def)
  moreover have "?m * (?y div ?m) + ?y mod ?m = ?y" by (rule mult_div_mod_eq)
  ultimately have "?m * (?y div ?m) = 1" by linarith
  then show False by (simp add: zmult_eq_1_iff)
qed

interpretation manager: report_server
  "\<lambda>(fate, now). ReportUsage fate pg_uuid digest hash_token now"
  "manager_step pg_uuid digest agent (hash_token token)"
  "traffic_inv agent (hash_token token)" "stream_seq pg_uuid agent stream" "billed_events agent"
  "stored_event pg_uuid" "canonical_name pg_uuid" token stream
  for pg_uuid digest hash_token agent token stream
proof (unfold_locales, goal_cases)
  case (1 db o' p)
  then show ?case by (auto simp: traffic_inv_ReportUsage split: prod.split)
next
  case (2 db o' p r db')
  obtain fate now where p: "p = (fate, now)" by (cases p)
  with 2(3) have "ReportUsage fate pg_uuid digest hash_token now (batch_request token o') db = (r, db')" by simp
  from report_batch_once [OF 2(1) this] 2(2) show ?case by simp
next
  case (3 db)
  show ?case by (rule wrap64_Suc_neq)
next
  case (4 db ev)
  then show ?case
    by (cases ev) (auto simp: traffic_inv_batch, auto simp: traffic_inv_def UpsertLimit_frame)
next
  case (5 db ev)
  show ?case
  proof (cases ev)
    case (M_report fate now tok' es str n)
    then show ?thesis using ReportUsageBatch_other [of tok' db agent]
      by (auto simp: stream_seq_def split: option.split)
  qed (auto simp: stream_seq_def billed_events_def UpsertLimit_frame split: option.split)
qed (simp_all add: stored_event_def canonical_name_def)


section \<open>Properties\<close>

definition usage_of :: "(usage_row \<Rightarrow> int) \<Rightarrow> string \<Rightarrow> string \<Rightarrow> traffic_db \<Rightarrow> int" where
  "usage_of f agent a db = sum_list (map f (filter (\<lambda>r. u_agent r = agent \<and> u_account r = a) (usage db)))"

lemma bill_billed_events:
  "bill ue_rx a (billed_events agent db) = usage_of u_rx agent a db"
  "bill ue_tx a (billed_events agent db) = usage_of u_tx agent a db"
proof -
  have "filter (\<lambda>e. ue_account e = a) (map row_event (filter (\<lambda>r. u_agent r = agent) t))
      = map row_event (filter (\<lambda>r. u_agent r = agent \<and> u_account r = a) t)" for t
    by (induction t) (auto simp: row_event_def)
  then show "bill ue_rx a (billed_events agent db) = usage_of u_rx agent a db"
    "bill ue_tx a (billed_events agent db) = usage_of u_tx agent a db"
    by (simp_all add: bill_def billed_events_def select_def usage_of_def comp_def row_event_def)
qed

definition manager_server ::
  "(string \<Rightarrow> string option) \<Rightarrow> (usage_event list \<Rightarrow> string) \<Rightarrow> (string \<Rightarrow> string) \<Rightarrow> commit_fate \<times> time
     \<Rightarrow> report_request \<Rightarrow> traffic_db \<Rightarrow> report_response \<times> traffic_db" where
  "manager_server pg_uuid digest hash_token = (\<lambda>(fate, now). ReportUsage fate pg_uuid digest hash_token now)"

definition accounting_step ::
  "(string \<Rightarrow> string option) \<Rightarrow> (usage_event list \<Rightarrow> string) \<Rightarrow> (string \<Rightarrow> string) \<Rightarrow> string \<Rightarrow> runner_config
     \<Rightarrow> (outbox \<Rightarrow> nat) \<Rightarrow> string \<Rightarrow> (commit_fate \<times> time, manager_event) system_event \<Rightarrow> runner \<times> traffic_db \<Rightarrow> runner \<times> traffic_db" where
  "accounting_step pg_uuid digest hash_token agent cf size_of stream =
     system_step cf size_of stream (manager_server pg_uuid digest hash_token)
       (manager_step pg_uuid digest agent (hash_token (cf_token cf)))"

text \<open>C14. Conservation of traffic from the counters of a VPN core to the Manager's tables.  Take an Agent
  without an outbox and a Manager without usage of it, and any history: requests, responses, commits and
  writes of the outbox file fail, the Agent restarts, the Manager does other work.  Take in it two rounds in
  which the Agent reads the counters of an account and the round returns without error.  Then the Manager
  records between the ends of the two rounds exactly the difference of the two readings, received and sent
  alike: nothing is lost and nothing is counted twice, whatever happened in between.  And if the first of the
  two readings is the first of that account at all, nothing was recorded before.  The counters do not run
  backwards and the account names are canonical UUIDs.\<close>

theorem traffic_conservation:
  fixes hash_token :: "string \<Rightarrow> string" and cf :: runner_config
  assumes "traffic_inv agent (hash_token (cf_token cf)) db0" "usage db0 = []"
    "stream_seq pg_uuid agent stream db0 = 0" "rn_box rn0 = None" "rn_file rn0 = None"
    and tick: "tick = accounting_step pg_uuid digest hash_token agent cf size_of stream"
    and "before = fold tick evs1 (rn0, db0)"
      "acknowledged cf size_of stream (manager_server pg_uuid digest hash_token) r1 before"
    and "later = fold tick evs2 (tick r1 before)"
      "acknowledged cf size_of stream (manager_server pg_uuid digest hash_token) r2 later"
    and "last_reading a (collected_by r1) = Some s1" "last_reading a (collected_by r2) = Some s2"
    and "monotone_counters (concat (map collected_by (evs1 @ r1 # evs2 @ [r2])))"
    and "\<forall>s \<in> set (concat (map collected_by (evs1 @ r1 # evs2 @ [r2]))). canonical_name pg_uuid (sn_account s)"
  shows "usage_of u_rx agent a (snd (tick r2 later)) = usage_of u_rx agent a (snd (tick r1 before)) + (sn_rx s2 - sn_rx s1)
    \<and> usage_of u_tx agent a (snd (tick r2 later)) = usage_of u_tx agent a (snd (tick r1 before)) + (sn_tx s2 - sn_tx s1)
    \<and> (filter (\<lambda>s. sn_account s = a) (concat (map collected_by (evs1 @ [r1]))) = [s1] \<longrightarrow>
         usage_of u_rx agent a (snd (tick r1 before)) = 0 \<and> usage_of u_tx agent a (snd (tick r1 before)) = 0)"
proof -
  have start: "manager.settled agent hash_token (cf_token cf) pg_uuid stream Map.empty [] (rn0, db0)"
    using assms(1-5) by (simp add: manager.settled_def billed_events_def select_def)
  have run: "before = fold (system_step cf size_of stream (manager_server pg_uuid digest hash_token)
       (manager_step pg_uuid digest agent (hash_token (cf_token cf)))) evs1 (rn0, db0)"
    "later = fold (system_step cf size_of stream (manager_server pg_uuid digest hash_token)
       (manager_step pg_uuid digest agent (hash_token (cf_token cf)))) (r1 # evs2) before"
    using assms(7,9) by (simp_all add: tick accounting_step_def)
  note between = manager.billed_between [where pg_uuid = pg_uuid and digest = digest and hash_token = hash_token
      and agent = agent and token = "cf_token cf" and stream = stream and cf = cf and size_of = size_of and a = a,
      folded manager_server_def, OF start refl run assms(8,10,11-14)]
  show ?thesis
    using between(1) [OF dimensions(1)] between(1) [OF dimensions(2)] between(2) [OF dimensions(1)] between(2) [OF dimensions(2)]
    unfolding tick accounting_step_def by (simp add: bill_billed_events)
qed

lemma reevaluate_idem: "reevaluate now tot (reevaluate now tot l) = reevaluate now tot l"
  by (auto simp: reevaluate_def next_status_def next_exceeded_def split: option.splits)

lemma reevaluate_account [simp]: "l_account (reevaluate now tot l) = l_account l"
  by (simp add: reevaluate_def)

definition unevaluable :: "(string \<Rightarrow> string option) \<Rightarrow> traffic_db \<Rightarrow> string \<Rightarrow> bool" where
  "unevaluable pg_uuid db a \<longleftrightarrow>
     (case pg_uuid a of
        None \<Rightarrow> True
      | Some u \<Rightarrow> int64_max < account_total u (usage db) \<and> u \<in> l_account ` set (limits db))"

text \<open>The evaluation of several accounts in one formula, in which their order does not occur.\<close>

lemma evaluate_all_eq:
  "evaluate_all pg_uuid now as db =
     (if \<exists>a \<in> set as. unevaluable pg_uuid db a then Inl DatabaseError
      else Inr (db\<lparr>limits := map (\<lambda>l. if Some (l_account l) \<in> pg_uuid ` set as
                 then reevaluate now (account_total (l_account l) (usage db)) l else l) (limits db)\<rparr>))"
proof (induction as arbitrary: db)
  case (Cons a as)
  show ?case
  proof (cases "unevaluable pg_uuid db a")
    case True
    then show ?thesis by (auto simp: unevaluable_def evaluateAccountLimitTx_def split: option.splits)
  next
    case False
    then obtain u where u: "pg_uuid a = Some u" by (auto simp: unevaluable_def split: option.splits)
    define db1 where "db1 = db\<lparr>limits := update_where (\<lambda>l. l_account l = u) (reevaluate now (account_total u (usage db))) (limits db)\<rparr>"
    have ev: "evaluateAccountLimitTx pg_uuid now a db = Inr db1"
      using False u by (auto simp: evaluateAccountLimitTx_def unevaluable_def db1_def)
    have db1: "usage db1 = usage db" "db1\<lparr>limits := x\<rparr> = db\<lparr>limits := x\<rparr>"
      "limits db1 = update_where (\<lambda>l. l_account l = u) (reevaluate now (account_total u (usage db))) (limits db)" for x
      by (simp_all add: db1_def)
    have "map l_account (limits db1) = map l_account (limits db)"
      unfolding db1(3) by (rule map_update_where) simp
    then have "l_account ` set (limits db1) = l_account ` set (limits db)" by (metis set_map)
    then have un: "unevaluable pg_uuid db1 x = unevaluable pg_uuid db x" for x
      by (simp add: unevaluable_def db1(1) split: option.split)
    have "map (\<lambda>l. if Some (l_account l) \<in> pg_uuid ` set as
          then reevaluate now (account_total (l_account l) (usage db)) l else l) (limits db1)
      = map (\<lambda>l. if Some (l_account l) \<in> pg_uuid ` set (a # as)
          then reevaluate now (account_total (l_account l) (usage db)) l else l) (limits db)"
      unfolding db1(3) update_where_def map_map
      by (rule map_cong) (auto simp: u reevaluate_idem)
    note same = this
    have "evaluate_all pg_uuid now (a # as) db = evaluate_all pg_uuid now as db1" by (simp add: ev)
    also have "\<dots> = (if \<exists>x \<in> set as. unevaluable pg_uuid db x then Inl DatabaseError
        else Inr (db\<lparr>limits := map (\<lambda>l. if Some (l_account l) \<in> pg_uuid ` set (a # as)
          then reevaluate now (account_total (l_account l) (usage db)) l else l) (limits db)\<rparr>))"
      unfolding Cons.IH [of db1] un db1(1,2) same ..
    finally show ?thesis using False by simp
  qed
qed simp


text \<open>The accounts a report touches are re-evaluated in the order of a Go map, which the language
  leaves open; the outcome, error or new limits, does not depend on that order nor on repetitions.\<close>

theorem evaluation_order_irrelevant:
  assumes "set as = set bs"
  shows "evaluate_all pg_uuid now as db = evaluate_all pg_uuid now bs db"
  unfolding evaluate_all_eq assms ..

text \<open>C15. The SQL evaluation of a limit and the Go function \<open>evaluateTrafficLimitEnforcement\<close> agree:
  same status and same time of excess.\<close>

theorem enforcement_equivalence:
  assumes "now \<noteq> zero_time"
  shows "evaluateTrafficLimitEnforcement l tot now
    = (next_status l tot, next_exceeded now l tot, next_status l tot = OverLimit)"
  using assms
  by (auto simp: evaluateTrafficLimitEnforcement_def next_status_def next_exceeded_def split: option.split)

definition row_current :: "limit_row \<Rightarrow> int \<Rightarrow> bool" where
  "row_current l tot \<longleftrightarrow> l_status l = next_status l tot \<and> (l_exceeded l \<noteq> None \<longleftrightarrow> l_status l = OverLimit)"

definition limits_current :: "traffic_db \<Rightarrow> bool" where
  "limits_current db \<longleftrightarrow>
     (\<forall>l \<in> set (limits db). row_current l (account_total (l_account l) (usage db)))"

lemma reevaluate_current: "row_current (reevaluate now tot l) tot"
  by (auto simp: row_current_def reevaluate_def next_status_def next_exceeded_def split: option.splits)

lemma account_total_append:
  "account_total a (t @ t') = account_total a t + account_total a t'"
  by (simp add: account_total_def select_def)

lemma record_events_current:
  assumes "limits_current db" "record_events pg_uuid now agent srv es db = Inr db'"
  shows "limits_current db'"
proof -
  from assms(2) obtain db1 db2 where 1: "insert_events pg_uuid agent srv es db = Inr db1"
    and 2: "evaluate_all pg_uuid now (remdups (map ue_account es)) db1 = Inr db2" and db': "db' = touch_agent now agent db2"
    by (auto simp: record_events_def split: sum.splits)
  let ?row = "\<lambda>e. usage_row_of agent srv (the (pg_uuid (ue_account e))) e"
  have db1: "usage db1 = usage db @ map ?row es" "limits db1 = limits db"
    using insert_events_Inr [OF 1] by simp_all
  from 2 have ok: "pg_uuid (ue_account e) \<noteq> None" if "e \<in> set es" for e
    using that by (auto simp: evaluate_all_eq unevaluable_def split: if_splits option.splits)
  have other: "account_total a (usage db1) = account_total a (usage db)" if "Some a \<notin> pg_uuid ` set (map ue_account es)" for a
  proof -
    have "filter (\<lambda>r. u_account r = a) (map ?row es) = []"
      using that ok by (auto simp: filter_empty_conv usage_row_of_def image_iff)
    then show ?thesis unfolding db1(1) account_total_append by (simp add: account_total_def select_def)
  qed
  from 2 have "db2 = db1\<lparr>limits := map (\<lambda>l. if Some (l_account l) \<in> pg_uuid ` set (map ue_account es)
      then reevaluate now (account_total (l_account l) (usage db1)) l else l) (limits db1)\<rparr>"
    by (auto simp: evaluate_all_eq split: if_splits)
  then have "usage db2 = usage db1" "limits db2 = map (\<lambda>l. if Some (l_account l) \<in> pg_uuid ` set (map ue_account es)
      then reevaluate now (account_total (l_account l) (usage db1)) l else l) (limits db)" by (simp_all add: db1(2))
  then show ?thesis
    using assms(1) other
    by (auto simp: limits_current_def db' touch_agent_def reevaluate_current)
qed

lemma limits_current_cong: "limits db' = limits db \<Longrightarrow> usage db' = usage db \<Longrightarrow> limits_current db' = limits_current db"
  by (simp add: limits_current_def)

lemma report_body_current:
  assumes "limits_current db" "report_body pg_uuid digest now ag es stream n db = Commit r db'"
  shows "limits_current db'"
proof -
  obtain agent srv where ag: "ag = (agent, srv)" by (cases ag)
  show ?thesis
  proof (cases "stream = []")
    case True
    with assms(2) have "record_events pg_uuid now agent srv es db = Inr db'"
      by (auto simp: report_body_def ag Let_def split: sum.splits)
    then show ?thesis by (rule record_events_current [OF assms(1)])
  next
    case False
    then obtain cps db1 cps' where 1: "record_events pg_uuid now agent srv es (db\<lparr>checkpoints := cps\<rparr>) = Inr db1"
      and 2: "db' = db1\<lparr>checkpoints := cps'\<rparr>"
      using assms(2) by (auto simp: report_body_def ag Let_def split: sum.splits option.splits if_splits)
    have "limits_current (db\<lparr>checkpoints := cps\<rparr>)" using assms(1) by (simp add: limits_current_def)
    from record_events_current [OF this 1] show ?thesis by (simp add: 2 limits_current_def)
  qed
qed

lemma upsert_body_current:
  assumes "limits_current db" "upsert_body pg_uuid now a i db = Commit r db'"
  shows "limits_current db'"
proof -
  from assms(2) obtain u j where u: "pg_uuid a = Some u"
    and ev: "evaluateAccountLimitTx pg_uuid now a (db\<lparr>limits := upsert_limit u j (limits db)\<rparr>) = Inr db'"
    by (auto simp: upsert_body_def Let_def split: option.splits sum.splits if_splits)
  then have db': "usage db' = usage db"
    "limits db' = update_where (\<lambda>l. l_account l = u) (reevaluate now (account_total u (usage db))) (upsert_limit u j (limits db))"
    by (auto simp: evaluateAccountLimitTx_def split: if_splits)
  have "l \<in> set (limits db) \<or> l_account l = u" if "l \<in> set (upsert_limit u j (limits db))" for l
    using that by (auto simp: upsert_limit_def set_update_where split: if_splits)
  then show ?thesis using assms(1)
    by (auto simp: limits_current_def db' set_update_where reevaluate_current)
qed

text \<open>C16. The enforcement state of every limit is current: its status is the one its cap and the
  recorded bytes of its account require, and the time of excess is set exactly when the account is over
  its limit.  Reports and changes of limits keep this, whatever happens to their commits.\<close>

theorem limits_stay_current:
  assumes "limits_current db"
  shows "limits_current (snd (ReportUsageBatch fate pg_uuid digest now token es stream n db))
    \<and> limits_current (snd (UpsertLimit fate pg_uuid now a i db))"
proof
  show "limits_current (snd (ReportUsageBatch fate pg_uuid digest now token es stream n db))"
  proof (cases "reportingAgentByTokenHash token db")
    case (Inr ag)
    show ?thesis unfolding ReportUsageBatch_def Inr sum.case
      using assms report_body_current [OF assms] by (rule run_tx_invariant)
  qed (simp add: ReportUsageBatch_def assms)
  show "limits_current (snd (UpsertLimit fate pg_uuid now a i db))"
    unfolding UpsertLimit_def using assms upsert_body_current [OF assms] by (rule run_tx_invariant)
qed

lemma find_touch_agent:
  assumes "find (\<lambda>g. g_token g = token \<and> g_status g \<noteq> ''disabled'') t = Some g" "distinct (map g_id t)"
  shows "find (\<lambda>g. g_token g = token \<and> g_status g \<noteq> ''disabled'')
      (update_where (\<lambda>g'. g_id g' = g_id g) (\<lambda>g. g\<lparr>g_seen := now, g_status := ''online''\<rparr>) t)
    = Some (g\<lparr>g_seen := now, g_status := ''online''\<rparr>)"
  using assms
proof (induction t)
  case (Cons h t)
  show ?case
  proof (cases "h = g")
    case True
    with Cons.prems show ?thesis using find_SomeD [OF Cons.prems(1)] by (simp add: update_where_def)
  next
    case False
    with Cons.prems have f: "find (\<lambda>g. g_token g = token \<and> g_status g \<noteq> ''disabled'') t = Some g"
      by (simp split: if_splits)
    then have "g \<in> set t" by (auto dest: find_SomeD)
    with Cons.prems(2) have "g_id h \<noteq> g_id g" by auto
    with Cons.IH [OF f] Cons.prems False show ?thesis by (auto simp: update_where_def split: if_splits)
  qed
qed simp

lemma reporting_agent_again:
  assumes "reportingAgentByTokenHash token db = Inr (agent, srv)" "distinct (map g_id (t_agents db))"
    "t_agents db' = update_where (\<lambda>g. g_id g = agent) (\<lambda>g. g\<lparr>g_seen := now, g_status := ''online''\<rparr>) (t_agents db)"
  shows "reportingAgentByTokenHash token db' = Inr (agent, srv)"
proof -
  from assms(1) obtain g where g: "find (\<lambda>g. g_token g = token \<and> g_status g \<noteq> ''disabled'') (t_agents db) = Some g"
    "g_id g = agent" "g_server g = Some srv" "srv \<noteq> []"
    by (auto simp: reportingAgentByTokenHash_def split: option.splits if_splits)
  from find_touch_agent [OF g(1) assms(2), of now] show ?thesis
    by (simp add: reportingAgentByTokenHash_def assms(3) g)
qed

lemma report_body_again:
  assumes "report_body pg_uuid digest now (agent, srv) es stream n db = Commit r db'" "stream \<noteq> []"
  shows "report_body pg_uuid digest now' (agent, srv) es stream n db'
    = Rollback (Inr \<lparr>rp_agent = agent, rp_server = srv, rp_accepted = length es\<rparr>)"
proof -
  from report_body_Commit [OF assms] obtain sid where sid: "pg_uuid stream = Some sid"
    and cp: "checkpoints db' = update_where (stream_key agent sid) (\<lambda>c. c\<lparr>cp_seq := n, cp_hash := digest es\<rparr>)
       (ensure_checkpoint agent sid (checkpoints db))" by metis
  let ?t = "ensure_checkpoint agent sid (checkpoints db)"
  have "\<exists>c \<in> set ?t. stream_key agent sid c" by (auto simp: ensure_checkpoint_def stream_key_def)
  then obtain c where c: "find (stream_key agent sid) ?t = Some c" by (metis find_None_iff2 not_None_eq)
  have "find (stream_key agent sid) (checkpoints db')
    = map_option (\<lambda>c. if stream_key agent sid c then c\<lparr>cp_seq := n, cp_hash := digest es\<rparr> else c) (find (stream_key agent sid) ?t)"
    unfolding cp by (rule find_update_where) (simp add: stream_key_def)
  then have f: "find (stream_key agent sid) (checkpoints db') = Some (c\<lparr>cp_seq := n, cp_hash := digest es\<rparr>)"
    using c find_SomeD [OF c] by simp
  then have "ensure_checkpoint agent sid (checkpoints db') = checkpoints db'"
    by (auto simp: ensure_checkpoint_def dest: find_SomeD)
  with f sid assms(2) show ?thesis by (simp add: report_body_def)
qed

lemma report_body_same:
  assumes "report_body pg_uuid digest now (agent, srv) es stream n db = Rollback (Inr r)" "stream \<noteq> []"
  shows "report_body pg_uuid digest now' (agent, srv) es stream n db
    = Rollback (Inr \<lparr>rp_agent = agent, rp_server = srv, rp_accepted = length es\<rparr>)"
proof -
  from assms obtain sid where sid: "pg_uuid stream = Some sid"
    by (auto simp: report_body_def Let_def split: option.splits)
  from assms sid obtain c where c: "find (stream_key agent sid) (ensure_checkpoint agent sid (checkpoints db)) = Some c"
    by (auto simp: report_body_def Let_def split: option.splits)
  with assms sid have "n = cp_seq c \<and> cp_hash c = digest es"
    by (simp add: report_body_def Let_def split: if_splits sum.splits)
  with assms(2) sid c show ?thesis by (simp add: report_body_def)
qed

text \<open>C17. A batch is applied once: after a report that was accepted, or that committed although its
  sender saw an error, the same batch is answered as accepted and changes nothing, whatever becomes of
  the second transaction.\<close>

theorem report_replay:
  assumes "distinct (map g_id (t_agents db))" "stream \<noteq> []"
    and first: "ReportUsageBatch fate pg_uuid digest now token es stream n db = (r, db')" "(\<exists>rp. r = Inr rp) \<or> db' \<noteq> db"
  shows "\<exists>rp. ReportUsageBatch fate' pg_uuid digest now' token es stream n db' = (Inr rp, db') \<and> rp_accepted rp = length es"
proof -
  from first obtain agent srv where ag: "reportingAgentByTokenHash token db = Inr (agent, srv)"
    by (auto simp: ReportUsageBatch_def split: sum.splits)
  define out where "out = report_body pg_uuid digest now (agent, srv) es stream n db"
  from first(1) ag have run: "run_tx DatabaseError fate out db = (r, db')" by (simp add: ReportUsageBatch_def out_def)
  let ?ok = "\<lparr>rp_agent = agent, rp_server = srv, rp_accepted = length es\<rparr>"
  consider (commit) r' where "out = Commit r' db'" | (same) rp where "out = Rollback (Inr rp)" "db' = db"
    using run first(2) run_tx_Inr [of DatabaseError fate out db] run_tx_state [of DatabaseError fate out db] by fastforce
  then show ?thesis
  proof cases
    case commit
    from report_body_Commit [OF commit [unfolded out_def] assms(2)]
    have "t_agents db' = update_where (\<lambda>g. g_id g = agent) (\<lambda>g. g\<lparr>g_seen := now, g_status := ''online''\<rparr>) (t_agents db)"
      by metis
    from reporting_agent_again [OF ag assms(1) this] report_body_again [OF commit [unfolded out_def] assms(2), of now']
    show ?thesis by (simp add: ReportUsageBatch_def)
  next
    case same
    from report_body_same [OF same(1) [unfolded out_def] assms(2), of now'] ag show ?thesis by (simp add: ReportUsageBatch_def same(2))
  qed
qed

text \<open>A report the handler refuses with a client error (unauthorized, no server, malformed, unknown
  account, sequence conflict) leaves the tables as they were.\<close>

theorem refused_report_no_effect:
  assumes "ReportUsage fate pg_uuid digest hash_token now rq db = (Refused code err, db')" "code < 500"
  shows "db' = db"
proof -
  have batch: "db2 = db" if "ReportUsageBatch fate pg_uuid digest now token es stream n db = (r, db2)"
    "report_status r = Refused code err" for token es stream n r db2
  proof (cases "reportingAgentByTokenHash token db")
    case (Inr ag)
    with that(1) have "run_tx DatabaseError fate (report_body pg_uuid digest now ag es stream n db) db = (r, db2)"
      by (simp add: ReportUsageBatch_def)
    moreover have "r \<noteq> Inl DatabaseError" "\<nexists>rp. r = Inr rp" using that(2) assms(2) by (auto simp: report_status_def)
    moreover have "\<exists>rp. r' = Inr rp" if "report_body pg_uuid digest now ag es stream n db = Commit r' d" for r' d
      using that by (auto simp: report_body_def Let_def split: option.splits if_splits sum.splits)
    ultimately show ?thesis
      by (cases "(DatabaseError, fate, report_body pg_uuid digest now ag es stream n db, db)" rule: run_tx.cases) auto
  qed (use that(1) in \<open>simp add: ReportUsageBatch_def\<close>)
  show ?thesis using assms(1)
    by (auto simp: ReportUsage_def split: option.splits if_splits prod.splits dest: batch)
qed

lemma period_sum_split:
  assumes "t0 \<le> t1" "t1 \<le> t2"
  shows "period_sum f a t0 t2 t = period_sum f a t0 t1 t + period_sum f a t1 t2 t"
  using assms by (induction t) (auto simp: period_sum_def select_def in_period_def)

lemma period_sum_nonneg: "\<forall>r \<in> set t. 0 \<le> f r \<Longrightarrow> 0 \<le> period_sum f a t0 t1 t"
  by (induction t) (auto simp: period_sum_def select_def)

lemma GetUsageSummary_Inr:
  assumes "GetUsageSummary pg_uuid a t0 t1 db = Inr s"
  obtains u where "pg_uuid a = Some u" "us_account s = u"
    "us_rx s = period_sum u_rx u t0 t1 (usage db)" "us_tx s = period_sum u_tx u t0 t1 (usage db)"
    "us_total s = wrap64 (us_rx s + us_tx s)" "us_rx s \<le> int64_max" "us_tx s \<le> int64_max"
    "us_limit s = map_option (\<lambda>l. buildLimitState l (us_total s)) (lookup_row l_account u (limits db))"
  using assms that by (auto simp: GetUsageSummary_def Let_def split: option.splits if_splits)

text \<open>The summary of a period: its parts are additive over adjacent periods, and when the total
  fits 64 bits, the remaining bytes of a capped account lie between zero and the cap and are zero exactly
  when the limit counts as reached.\<close>

theorem summary_bounds:
  assumes "\<forall>r \<in> set (usage db). 0 \<le> u_rx r \<and> 0 \<le> u_tx r" "t0 \<le> t1" "t1 \<le> t2"
    and "GetUsageSummary pg_uuid a t0 t2 db = Inr s" "us_rx s + us_tx s \<le> int64_max"
  shows "\<exists>s1 s2. GetUsageSummary pg_uuid a t0 t1 db = Inr s1 \<and> GetUsageSummary pg_uuid a t1 t2 db = Inr s2
      \<and> us_rx s = us_rx s1 + us_rx s2 \<and> us_tx s = us_tx s1 + us_tx s2 \<and> us_total s = us_total s1 + us_total s2
      \<and> (\<forall>ls m. us_limit s = Some ls \<and> ls_monthly ls = Some m \<and> 0 < m \<and> m \<le> int64_max \<longrightarrow>
           (\<exists>r. ls_remaining ls = Some r \<and> 0 \<le> r \<and> r \<le> m \<and> r = max 0 (m - us_total s) \<and> (ls_reached ls \<longleftrightarrow> r = 0)))"
proof -
  from assms(4) obtain u where u: "pg_uuid a = Some u" "us_rx s = period_sum u_rx u t0 t2 (usage db)"
    "us_tx s = period_sum u_tx u t0 t2 (usage db)" "us_total s = wrap64 (us_rx s + us_tx s)"
    "us_limit s = map_option (\<lambda>l. buildLimitState l (us_total s)) (lookup_row l_account u (limits db))"
    by (rule GetUsageSummary_Inr)
  define rx where "rx t t' = period_sum u_rx u t t' (usage db)" for t t'
  define tx where "tx t t' = period_sum u_tx u t t' (usage db)" for t t'
  have nn: "0 \<le> rx t t'" "0 \<le> tx t t'" for t t'
    unfolding rx_def tx_def using assms(1) by (simp_all add: period_sum_nonneg)
  have add: "us_rx s = rx t0 t1 + rx t1 t2" "us_tx s = tx t0 t1 + tx t1 t2"
    unfolding u rx_def tx_def by (rule period_sum_split [OF assms(2,3)])+
  have acc: "u \<in> ac_id ` set (t_accounts db)"
    using assms(4) u(1) by (auto simp: GetUsageSummary_def split: if_splits)
  have w: "wrap64 x = x" if "0 \<le> x" "x \<le> int64_max" for x
    using that by (intro wrap64_id) (simp_all add: int64_min_def int64_max_def)
  have tot: "us_total s = us_rx s + us_tx s" "0 \<le> us_total s"
    using nn [of t0 t1] nn [of t1 t2] assms(5) unfolding u(4) by (simp_all add: w add)
  have part: "\<exists>s'. GetUsageSummary pg_uuid a t t' db = Inr s' \<and> us_rx s' = rx t t' \<and> us_tx s' = tx t t'
      \<and> us_total s' = rx t t' + tx t t'" if "rx t t' + tx t t' \<le> int64_max" for t t'
    using that nn [of t t'] acc u(1)
    by (simp add: GetUsageSummary_def Let_def rx_def [symmetric] tx_def [symmetric] w)
  have left: "\<exists>r. ls_remaining ls = Some r \<and> 0 \<le> r \<and> r \<le> m \<and> r = max 0 (m - us_total s) \<and> (ls_reached ls \<longleftrightarrow> r = 0)"
    if "us_limit s = Some ls" "ls_monthly ls = Some m" "0 < m" "m \<le> int64_max" for ls m
  proof -
    have "us_total s \<le> int64_max" using tot assms(5) by simp
    then have "wrap64 (m - us_total s) = m - us_total s"
      using that tot(2) by (intro wrap64_id) (simp_all add: int64_min_def int64_max_def)
    with that u(5) tot(2) show ?thesis by (auto simp: buildLimitState_def Let_def)
  qed
  have "rx t0 t1 + tx t0 t1 \<le> int64_max" "rx t1 t2 + tx t1 t2 \<le> int64_max"
    using nn [of t0 t1] nn [of t1 t2] assms(5) by (simp_all add: add)
  from part [OF this(1)] part [OF this(2)] obtain s1 s2 where
    "GetUsageSummary pg_uuid a t0 t1 db = Inr s1" "us_rx s1 = rx t0 t1" "us_tx s1 = tx t0 t1" "us_total s1 = rx t0 t1 + tx t0 t1"
    "GetUsageSummary pg_uuid a t1 t2 db = Inr s2" "us_rx s2 = rx t1 t2" "us_tx s2 = tx t1 t2" "us_total s2 = rx t1 t2 + tx t1 t2"
    by blast
  with left show ?thesis by (intro exI [of _ s1] exI [of _ s2]) (simp_all add: tot(1) add)
qed

section \<open>Counters of sing-box\<close>

definition dir_name :: "direction \<Rightarrow> string" where
  "dir_name d = (case d of Uplink \<Rightarrow> ''uplink'' | Downlink \<Rightarrow> ''downlink'')"

fun join_arrows :: "string list \<Rightarrow> string" where
  "join_arrows [] = []"
| "join_arrows [p] = p"
| "join_arrows (p # ps) = p @ ''>>>'' @ join_arrows ps"

lemma join_arrows_Cons: "ps \<noteq> [] \<Longrightarrow> join_arrows (p # ps) = p @ ''>>>'' @ join_arrows ps"
  by (cases ps) simp_all

lemma split_arrows_not_Nil [simp]: "split_arrows acc s \<noteq> []"
  by (induction acc s rule: split_arrows.induct) auto

lemma join_split_arrows: "join_arrows (split_arrows acc s) = rev acc @ s"
proof (induction acc s rule: split_arrows.induct)
  case (2 acc c s)
  show ?case
  proof (cases "prefix ''>>>'' (c # s)")
    case True
    then have "c # s = ''>>>'' @ drop 2 s" by (auto simp: prefix_def)
    then have "rev acc @ c # s = rev acc @ ''>>>'' @ drop 2 s" by simp
    with 2(1) [OF True] True show ?thesis by (simp only: split_arrows.simps if_True join_arrows_Cons split_arrows_not_Nil not_False_eq_True rev.simps append_Nil)
  next
    case False
    with 2(2) [OF False] show ?thesis by (simp only: split_arrows.simps if_False) simp
  qed
qed simp

lemma parse_stat_name: "parse_stat users n = Some (u, d) \<Longrightarrow> n = stat_name u (dir_name d) \<and> u \<in> set users"
  using join_split_arrows [of "[]" n]
  by (auto simp: parse_stat_def stat_name_def dir_name_def split: list.splits if_splits)

lemma stat_name_inj: "stat_name u (dir_name d) = stat_name u' (dir_name d') \<Longrightarrow> u = u' \<and> d = d'"
  by (drule arg_cong [where f = rev], cases d; cases d') (simp_all add: stat_name_def dir_name_def)

lemma collect_stats_sound:
  assumes "collect_stats users ss seen vals = Some (seen', vals')"
    "\<forall>u d v. vals (u, d) = Some v \<longrightarrow> (stat_name u (dir_name d), v) \<in> S \<and> 0 \<le> v" "set ss \<subseteq> S"
    "\<forall>n \<in> set seen. \<exists>u d. parse_stat users n = Some (u, d) \<and> vals (u, d) \<noteq> None"
  shows "(\<forall>u d v. vals' (u, d) = Some v \<longrightarrow> (stat_name u (dir_name d), v) \<in> S \<and> 0 \<le> v)
    \<and> (\<forall>n \<in> set seen'. \<exists>u d. parse_stat users n = Some (u, d) \<and> vals' (u, d) \<noteq> None)"
  using assms
proof (induction users ss seen vals rule: collect_stats.induct)
  case (2 users name v ss seen vals)
  show ?case
  proof (cases "parse_stat users name")
    case None
    with 2 show ?thesis by simp
  next
    case (Some ud)
    obtain u d where ud: "ud = (u, d)" by (cases ud)
    have c: "\<not> (v < 0 \<or> name \<in> set seen)" using 2(3) Some by (auto split: if_splits)
    show ?thesis
    proof (rule "2.IH"(2) [OF Some c])
      show "collect_stats users ss (name # seen) (vals(ud \<mapsto> v)) = Some (seen', vals')"
        using 2(3) Some c by simp
      show "\<forall>u d w. (vals(ud \<mapsto> v)) (u, d) = Some w \<longrightarrow> (stat_name u (dir_name d), w) \<in> S \<and> 0 \<le> w"
        using 2(4,5) c parse_stat_name Some ud by auto
      show "\<forall>n \<in> set (name # seen). \<exists>u d. parse_stat users n = Some (u, d) \<and> (vals(ud \<mapsto> v)) (u, d) \<noteq> None"
      proof
        fix n assume "n \<in> set (name # seen)"
        then consider "n = name" | u' d' where "parse_stat users n = Some (u', d')" "vals (u', d') \<noteq> None"
          using 2(6) by auto
        then show "\<exists>u d. parse_stat users n = Some (u, d) \<and> (vals(ud \<mapsto> v)) (u, d) \<noteq> None"
          using Some ud by cases auto
      qed
    qed (use 2(5) in auto)
  qed
qed simp

text \<open>The snapshots taken from sing-box list each account once, in order, only accounts that are
  configured, and their counters are readings of the two statistics of that account: never a counter
  of another user, nor a reading that is missing one direction.\<close>

theorem accountSnapshots_faithful:
  assumes "accountSnapshots users stats now = Some ss"
  shows "sorted_wrt (<) (map sn_account ss)
    \<and> (\<forall>s \<in> set ss. sn_account s \<in> set users \<and> 0 \<le> sn_rx s \<and> 0 \<le> sn_tx s \<and> sn_at s = now
        \<and> (stat_name (sn_account s) ''uplink'', sn_rx s) \<in> set stats
        \<and> (stat_name (sn_account s) ''downlink'', sn_tx s) \<in> set stats)"
proof -
  from assms obtain seen vals where c: "collect_stats users stats [] Map.empty = Some (seen, vals)"
    by (auto simp: accountSnapshots_def split: option.splits)
  define us where "us = sort (filter (\<lambda>u. stat_name u ''uplink'' \<in> set seen \<and> stat_name u ''downlink'' \<in> set seen)
                    (remdups (map fst (List.map_filter (\<lambda>(n, v). parse_stat users n) stats))))"
  from assms c have ss: "ss = map (\<lambda>u. \<lparr>sn_account = u, sn_rx = counter vals (u, Uplink), sn_tx = counter vals (u, Downlink),
                          sn_at = now, sn_meta = JObj [(''source'', JStr ''sing-box-v2ray-api'')]\<rparr>) us"
    by (simp add: accountSnapshots_def us_def)
  have inv: "(\<forall>u d v. vals (u, d) = Some v \<longrightarrow> (stat_name u (dir_name d), v) \<in> set stats \<and> 0 \<le> v)
    \<and> (\<forall>n \<in> set seen. \<exists>u d. parse_stat users n = Some (u, d) \<and> vals (u, d) \<noteq> None)"
    by (rule collect_stats_sound [OF c]) auto
  have val: "u \<in> set users \<and> 0 \<le> counter vals (u, d) \<and> (stat_name u (dir_name d), counter vals (u, d)) \<in> set stats"
    if "u \<in> set us" for u d
  proof -
    have "stat_name u (dir_name d) \<in> set seen" using that by (cases d) (auto simp: us_def dir_name_def)
    then obtain u' d' v where p: "parse_stat users (stat_name u (dir_name d)) = Some (u', d')" "vals (u', d') = Some v"
      using inv by blast
    then have "u' = u \<and> d' = d" "u' \<in> set users" using parse_stat_name [OF p(1)] stat_name_inj by metis+
    with p inv show ?thesis by (auto simp: counter_def)
  qed
  have "sorted us" "distinct us" by (simp_all add: us_def)
  moreover have "map sn_account ss = us" by (simp add: ss comp_def)
  ultimately show ?thesis
    using val [where d = Uplink] val [where d = Downlink]
    by (auto simp: ss dir_name_def strict_sorted_iff)
qed

section \<open>Witnesses\<close>

definition wx_stream :: string where
  "wx_stream = (let z = hex_print (replicate 16 0) in
     take 8 z @ ''-'' @ take 4 (drop 8 z) @ ''-'' @ take 4 (drop 12 z) @ ''-'' @ take 4 (drop 16 z) @ ''-'' @ drop 20 z)"

definition wx_db :: traffic_db where
  "wx_db = \<lparr>t_agents = [\<lparr>g_id = ''g'', g_server = Some ''s'', g_token = ''t'', g_status = ''online'', g_seen = 0\<rparr>],
     t_accounts = [\<lparr>ac_id = ''a'', ac_server = ''s''\<rparr>], checkpoints = [], usage = [],
     limits = [\<lparr>l_account = ''a'', l_monthly = Some 7, l_hard = True, l_speed = None, l_reset = 1,
       l_exceeded = None, l_status = WithinLimit, l_enforced_at = None\<rparr>]\<rparr>"

definition wx_event :: usage_event where
  "wx_event = \<lparr>ue_account = ''a'', ue_rx = 5, ue_tx = 3, ue_at = 20, ue_meta = JNull\<rparr>"

definition wx_snap :: "int \<Rightarrow> int \<Rightarrow> snapshot" where
  "wx_snap n t = \<lparr>sn_account = ''a'', sn_rx = 5 * n, sn_tx = 3 * n, sn_at = t, sn_meta = JNull\<rparr>"

lemma hex_print_zeros: "hex_print (replicate n 0) = replicate (2 * n) CHR ''0''"
  by (induction n) (simp_all add: hex_digit_def hextable_def)

lemma wx_stream_valid [simp]: "validReportStream wx_stream" "wx_stream \<noteq> []"
proof -
  have "hex_DecodeString (replicate 32 CHR ''0'') \<noteq> None"
    using hex_decode_print [of "replicate 16 0"] by (simp add: hex_print_zeros)
  then show "validReportStream wx_stream"
    by (simp add: validReportStream_def hex_ok_def wx_stream_def hex_print_zeros Let_def nth_append
        replicate_add [symmetric])
qed (simp add: wx_stream_def Let_def)

lemma TrimSpace_a [simp]: "TrimSpace ''a'' = ''a''"
  by (rule TrimSpace_clean) (simp add: space_byte_def)

theorem evaluation_order_irrelevant_witness:
  "evaluate_all Some 9 [''a'', ''b'', ''a''] wx_db = evaluate_all Some 9 [''b'', ''a''] wx_db"
  by (rule evaluation_order_irrelevant) auto

theorem enforcement_equivalence_witness:
  "evaluateTrafficLimitEnforcement (hd (limits wx_db)) 8 9 = (OverLimit, Some 9, True)"
proof -
  have "(9 :: int) \<noteq> zero_time" by (simp add: zero_time_def seconds_def)
  from enforcement_equivalence [OF this] show ?thesis
    by (simp add: wx_db_def next_status_def next_exceeded_def)
qed

lemmas wx_report_simps = ReportUsageBatch_def reportingAgentByTokenHash_def report_body_def ensure_checkpoint_def
  stream_key_def record_events_def insert_event_def evaluateAccountLimitTx_def touch_agent_def
  account_total_def select_def update_where_def reevaluate_def next_status_def next_exceeded_def usage_row_of_def
  wx_db_def wx_event_def int64_max_def wrap64_def Let_def

theorem limits_stay_current_witness:
  "limits_current (snd (ReportUsageBatch Committed Some (\<lambda>_. []) 9 ''t'' [wx_event] wx_stream 1 wx_db))
   \<and> map l_status (limits (snd (ReportUsageBatch Committed Some (\<lambda>_. []) 9 ''t'' [wx_event] wx_stream 1 wx_db))) = [OverLimit]"
proof
  have "limits_current wx_db"
    by (simp add: limits_current_def wx_db_def row_current_def next_status_def account_total_def select_def)
  from limits_stay_current [OF this]
  show "limits_current (snd (ReportUsageBatch Committed Some (\<lambda>_. []) 9 ''t'' [wx_event] wx_stream 1 wx_db))" by blast
  show "map l_status (limits (snd (ReportUsageBatch Committed Some (\<lambda>_. []) 9 ''t'' [wx_event] wx_stream 1 wx_db))) = [OverLimit]"
    by (simp add: wx_report_simps)
qed

theorem report_replay_witness:
  "\<exists>rp. ReportUsageBatch Commit_failed Some (\<lambda>_. []) 11 ''t'' [wx_event] wx_stream 1
      (snd (ReportUsageBatch Commit_ack_lost Some (\<lambda>_. []) 9 ''t'' [wx_event] wx_stream 1 wx_db))
    = (Inr rp, snd (ReportUsageBatch Commit_ack_lost Some (\<lambda>_. []) 9 ''t'' [wx_event] wx_stream 1 wx_db)) \<and> rp_accepted rp = 1"
proof -
  have "usage (snd (ReportUsageBatch Commit_ack_lost Some (\<lambda>_. []) 9 ''t'' [wx_event] wx_stream 1 wx_db)) \<noteq> usage wx_db"
    by (simp add: wx_report_simps)
  then have ne: "snd (ReportUsageBatch Commit_ack_lost Some (\<lambda>_. []) 9 ''t'' [wx_event] wx_stream 1 wx_db) \<noteq> wx_db" by metis
  have "distinct (map g_id (t_agents wx_db))" by (simp add: wx_db_def)
  from report_replay [OF this wx_stream_valid(2) surjective_pairing disjI2 [OF ne]] show ?thesis by simp
qed

theorem refused_report_no_effect_witness:
  "snd (ReportUsage Committed Some (\<lambda>_. []) (\<lambda>t. t) 9 \<lparr>rq_token = Some ''t'', rq_events = [], rq_stream = [], rq_seq = 0, rq_batches = False\<rparr> wx_db) = wx_db"
proof -
  have "ReportUsage Committed Some (\<lambda>_. []) (\<lambda>t. t) 9 \<lparr>rq_token = Some ''t'', rq_events = [], rq_stream = [], rq_seq = 0, rq_batches = False\<rparr> wx_db
    = (Refused 400 ''invalid_request'', wx_db)" by (simp add: ReportUsage_def)
  from refused_report_no_effect [OF this] this show ?thesis by simp
qed

theorem summary_bounds_witness:
  "\<exists>s1 s2. GetUsageSummary Some ''a'' 0 10 (wx_db\<lparr>usage := [usage_row_of ''g'' ''s'' ''a'' wx_event]\<rparr>) = Inr s1
     \<and> GetUsageSummary Some ''a'' 10 30 (wx_db\<lparr>usage := [usage_row_of ''g'' ''s'' ''a'' wx_event]\<rparr>) = Inr s2
     \<and> 5 = us_rx s1 + us_rx s2 \<and> 8 = us_total s1 + us_total s2"
proof -
  let ?db = "wx_db\<lparr>usage := [usage_row_of ''g'' ''s'' ''a'' wx_event]\<rparr>"
  obtain s where s: "GetUsageSummary Some ''a'' 0 30 ?db = Inr s" "us_rx s = 5" "us_tx s = 3" "us_total s = 8"
    by (simp add: GetUsageSummary_def wx_db_def wx_event_def usage_row_of_def period_sum_def select_def in_period_def
        int64_max_def int64_min_def)
  have "\<exists>s1 s2. GetUsageSummary Some ''a'' 0 10 ?db = Inr s1 \<and> GetUsageSummary Some ''a'' 10 30 ?db = Inr s2
      \<and> us_rx s = us_rx s1 + us_rx s2 \<and> us_tx s = us_tx s1 + us_tx s2 \<and> us_total s = us_total s1 + us_total s2
      \<and> (\<forall>ls m. us_limit s = Some ls \<and> ls_monthly ls = Some m \<and> 0 < m \<and> m \<le> int64_max \<longrightarrow>
           (\<exists>r. ls_remaining ls = Some r \<and> 0 \<le> r \<and> r \<le> m \<and> r = max 0 (m - us_total s) \<and> (ls_reached ls \<longleftrightarrow> r = 0)))"
    by (rule summary_bounds [OF _ _ _ s(1)]) (simp_all add: s wx_event_def usage_row_of_def int64_max_def)
  with s show ?thesis by auto
qed

theorem accountSnapshots_faithful_witness:
  "\<exists>ss. accountSnapshots [''a''] [(stat_name ''a'' ''uplink'', 4), (stat_name ''a'' ''downlink'', 6)] 1 = Some ss
     \<and> sorted_wrt (<) (map sn_account ss)"
proof -
  obtain ss where ss: "accountSnapshots [''a''] [(stat_name ''a'' ''uplink'', 4), (stat_name ''a'' ''downlink'', 6)] 1 = Some ss"
    by (simp add: accountSnapshots_def stat_name_def parse_stat_def)
  from accountSnapshots_faithful [OF ss] ss show ?thesis by blast
qed

text \<open>Two readings; the answer to the batch is lost, the Agent restarts and sends it again.\<close>

definition wx_config :: runner_config where
  "wx_config = \<lparr>cf_enabled = True, cf_interval = 0, cf_agent = ''g'', cf_token = ''t''\<rparr>"

definition wx_read :: "int \<Rightarrow> time \<Rightarrow> (commit_fate \<times> time, manager_event) system_event" where
  "wx_read n t = Tick t (Some [wx_snap n t]) Saved Saved Delivered (Committed, t)"

definition wx_between :: "(commit_fate \<times> time, manager_event) system_event list" where
  "wx_between = [Tick 2 (Some [wx_snap 2 2]) Saved Saved Response_lost (Committed, 2), Restart,
     Tick 3 (Some [wx_snap 2 3]) Saved Saved Delivered (Committed, 3)]"

definition wx_step :: "(commit_fate \<times> time, manager_event) system_event \<Rightarrow> runner \<times> traffic_db \<Rightarrow> runner \<times> traffic_db" where
  "wx_step = accounting_step Some (\<lambda>_. []) (\<lambda>t. t) ''g'' wx_config (\<lambda>_. 0) wx_stream"

definition wx_start :: "runner \<times> traffic_db" where
  "wx_start = (\<lparr>rn_reported = None, rn_box = None, rn_file = None\<rparr>, wx_db)"

lemma wx_times [simp]: "1 \<noteq> zero_time" "2 \<noteq> zero_time" "3 \<noteq> zero_time" "4 \<noteq> zero_time" "20 \<noteq> zero_time"
  by (simp_all add: zero_time_def seconds_def)

lemmas wx_step_simps = wx_step_def accounting_step_def manager_server_def wx_read_def wx_between_def wx_start_def wx_config_def
  reportTrafficUsage_def reads_counters_def OpenOutbox_def Prepare_def save_def deliver_def exchange_def batch_request_def
  ReportUsage_def Acknowledge_def report_status_def wx_snap_def wx_report_simps

lemma wx_rounds:
  "acknowledged wx_config (\<lambda>_. 0) wx_stream (manager_server Some (\<lambda>_. []) (\<lambda>t. t)) (wx_read 1 1) wx_start"
  "acknowledged wx_config (\<lambda>_. 0) wx_stream (manager_server Some (\<lambda>_. []) (\<lambda>t. t)) (wx_read 3 4)
     (fold wx_step wx_between (wx_step (wx_read 1 1) wx_start))"
  by (simp_all add: wx_step_simps)

theorem traffic_conservation_witness:
  "usage_of u_rx ''g'' ''a'' (snd (fold wx_step (wx_read 1 1 # wx_between @ [wx_read 3 4]) wx_start)) = 10
   \<and> usage_of u_tx ''g'' ''a'' (snd (fold wx_step (wx_read 1 1 # wx_between @ [wx_read 3 4]) wx_start)) = 6"
proof -
  have inv: "traffic_inv ''g'' ((\<lambda>t. t) (cf_token wx_config)) wx_db" "usage wx_db = []" "stream_seq Some ''g'' wx_stream wx_db = 0"
    by (simp_all add: traffic_inv_def wx_db_def stream_seq_def checkpoint_seq_def wx_config_def)
  have obs: "concat (map collected_by ([] @ wx_read 1 1 # wx_between @ [wx_read 3 4])) = [wx_snap 1 1, wx_snap 2 2, wx_snap 2 3, wx_snap 3 4]"
    by (simp add: wx_read_def wx_between_def)
  have ok: "monotone_counters [wx_snap 1 1, wx_snap 2 2, wx_snap 2 3, wx_snap 3 4]"
    "\<forall>s \<in> set [wx_snap 1 1, wx_snap 2 2, wx_snap 2 3, wx_snap 3 4]. canonical_name Some (sn_account s)"
    by (simp_all add: monotone_counters_def counter_le_def counter_ok_def wx_snap_def int64_max_def canonical_name_def)
  have read: "last_reading ''a'' (collected_by (wx_read 1 1)) = Some (wx_snap 1 1)"
    "last_reading ''a'' (collected_by (wx_read 3 4)) = Some (wx_snap 3 4)"
    by (simp_all add: last_reading_def wx_read_def wx_snap_def)
  have first: "wx_start = fold wx_step [] (\<lparr>rn_reported = None, rn_box = None, rn_file = None\<rparr>, wx_db)" by (simp add: wx_start_def)
  show ?thesis
    using traffic_conservation [OF inv _ _ wx_step_def first wx_rounds(1) refl wx_rounds(2) read ok [folded obs]]
    by (simp add: wx_read_def wx_snap_def)
qed

end
