(* ===== verification/Netip.thy ===== *)
theory Netip
  imports Prelude "HOL-Library.Word"
begin

text \<open>
  The part of the standard library package \<open>net/netip\<close> that the WireGuard address pool uses: addresses,
  prefixes, their parsers and the printer of IPv4 addresses.
\<close>

unbundle bit_operations_syntax

datatype addr = V4 "32 word" | V6 "128 word" string

section \<open>Parsing\<close>

definition parse_octet :: "string \<Rightarrow> nat option" where
  "parse_octet s =
     (if s = [] \<or> \<not> list_all is_digit s \<or> (1 < length s \<and> hd s = CHR ''0'') \<or> 255 < decimal s then None
      else Some (nat (decimal s)))"

definition octets :: "nat \<Rightarrow> nat \<Rightarrow> nat \<Rightarrow> nat \<Rightarrow> 32 word" where
  "octets a b c d = word_of_nat (((a * 256 + b) * 256 + c) * 256 + d)"

definition parseIPv4 :: "string \<Rightarrow> 32 word option" where
  "parseIPv4 s =
     (case map parse_octet (Split_at CHR ''.'' s) of
        [Some a, Some b, Some c, Some d] \<Rightarrow> Some (octets a b c d)
      | _ \<Rightarrow> None)"

text \<open>The 16-bit groups of an IPv6 address, where the ellipsis stands, and the rest of the text.\<close>

definition finish6 :: "nat list \<Rightarrow> nat option \<Rightarrow> string \<Rightarrow> nat list option" where
  "finish6 gs ell s =
     (if s \<noteq> [] then None
      else if length gs < 8
      then (case ell of None \<Rightarrow> None | Some k \<Rightarrow> Some (take k gs @ replicate (8 - length gs) 0 @ drop k gs))
      else if ell \<noteq> None then None else Some gs)"

definition hex_number :: "string \<Rightarrow> nat" where
  "hex_number s = foldl (\<lambda>a c. 16 * a + (case hex_val c of None \<Rightarrow> 0 | Some x \<Rightarrow> x)) 0 s"

function groups6 :: "nat list \<Rightarrow> nat option \<Rightarrow> string \<Rightarrow> nat list option" where
  "groups6 gs ell s =
     (if 8 \<le> length gs then finish6 gs ell s
      else
        let ds = takeWhile (\<lambda>c. hex_val c \<noteq> None) s; r = dropWhile (\<lambda>c. hex_val c \<noteq> None) s in
        if ds = [] \<or> 4 < length ds then None
        else if r \<noteq> [] \<and> hd r = CHR ''.'' then
          if (ell = None \<and> length gs \<noteq> 6) \<or> 6 < length gs then None
          else (case parseIPv4 s of
                  None \<Rightarrow> None
                | Some w \<Rightarrow> finish6 (gs @ [unat w div 65536, unat w mod 65536]) ell [])
        else
          let gs' = gs @ [hex_number ds] in
          if r = [] then finish6 gs' ell []
          else if hd r \<noteq> CHR '':'' \<or> tl r = [] then None
          else if hd (tl r) = CHR '':'' then
            if ell \<noteq> None then None
            else if tl (tl r) = [] then finish6 gs' (Some (length gs')) []
            else groups6 gs' (Some (length gs')) (tl (tl r))
          else groups6 gs' ell (tl r))"
  by pat_completeness auto
termination by (relation "measure (\<lambda>(gs, _, _). 8 - length gs)") auto

definition parseIPv6 :: "string \<Rightarrow> addr option" where
  "parseIPv6 s0 =
     (let s = takeWhile (\<lambda>c. c \<noteq> CHR ''%'') s0; z = dropWhile (\<lambda>c. c \<noteq> CHR ''%'') s0; zone = tl z;
          address = (\<lambda>gs. V6 (word_of_nat (foldl (\<lambda>a g. a * 65536 + g) 0 gs)) zone) in
      if z \<noteq> [] \<and> zone = [] then None
      else if prefix ''::'' s then
        if drop 2 s = [] then Some (V6 0 zone) else map_option address (groups6 [] (Some 0) (drop 2 s))
      else map_option address (groups6 [] None s))"

definition ParseAddr :: "string \<Rightarrow> addr option" where
  "ParseAddr s =
     (case find (\<lambda>c. c \<in> {CHR ''.'', CHR '':'', CHR ''%''}) s of
        None \<Rightarrow> None
      | Some c \<Rightarrow> if c = CHR ''.'' then map_option V4 (parseIPv4 s) else if c = CHR '':'' then parseIPv6 s else None)"

text \<open>\<open>strings.LastIndexByte(s, '/')\<close>.\<close>

definition cut_last :: "char \<Rightarrow> string \<Rightarrow> (string \<times> string) option" where
  "cut_last d s =
     (if d \<in> set s then Some (rev (tl (dropWhile (\<lambda>c. c \<noteq> d) (rev s))), rev (takeWhile (\<lambda>c. c \<noteq> d) (rev s))) else None)"

definition ParsePrefix :: "string \<Rightarrow> (addr \<times> nat) option" where
  "ParsePrefix s =
     (case cut_last CHR ''/'' s of
        None \<Rightarrow> None
      | Some (a, b) \<Rightarrow>
          (case ParseAddr a of
             None \<Rightarrow> None
           | Some ip \<Rightarrow>
               if (case ip of V4 _ \<Rightarrow> False | V6 _ zone \<Rightarrow> zone \<noteq> []) then None
               else if 1 < length b \<and> (hd b < CHR ''1'' \<or> CHR ''9'' < hd b) then None
               else (case Atoi b of
                       None \<Rightarrow> None
                     | Some n \<Rightarrow>
                         if n < 0 \<or> (case ip of V4 _ \<Rightarrow> 32 | V6 _ _ \<Rightarrow> 128) < n then None else Some (ip, nat n))))"

definition Unmap :: "addr \<Rightarrow> addr" where
  "Unmap a = (case a of V4 w \<Rightarrow> V4 w
     | V6 w zone \<Rightarrow> if drop_bit 32 w = 0xFFFF then V4 (ucast w) else a)"

section \<open>IPv4 prefixes and printing\<close>

definition host_mask :: "nat \<Rightarrow> 32 word" where
  "host_mask bits = mask (32 - bits)"

definition Masked :: "32 word \<Rightarrow> nat \<Rightarrow> 32 word" where
  "Masked w bits = w AND NOT (host_mask bits)"

definition Contains :: "32 word \<Rightarrow> nat \<Rightarrow> addr \<Rightarrow> bool" where
  "Contains net bits a = (case a of V4 w \<Rightarrow> drop_bit (32 - bits) (w XOR net) = 0 | V6 _ _ \<Rightarrow> False)"

definition digit :: "nat \<Rightarrow> char" where
  "digit n = char_of (48 + n)"

definition show_octet :: "nat \<Rightarrow> string" where
  "show_octet n =
     (if 100 \<le> n then [digit (n div 100), digit (n div 10 mod 10), digit (n mod 10)]
      else if 10 \<le> n then [digit (n div 10), digit (n mod 10)] else [digit n])"

definition String4 :: "32 word \<Rightarrow> string" where
  "String4 w =
     (let n = unat w in
      show_octet (n div 16777216) @ ''.'' @ show_octet (n div 65536 mod 256) @ ''.''
      @ show_octet (n div 256 mod 256) @ ''.'' @ show_octet (n mod 256))"

section \<open>Round trip\<close>

lemma of_char_digit [simp]: "n < 10 \<Longrightarrow> of_char (digit n) = 48 + n"
  by (simp add: digit_def)

lemma is_digit_digit [simp]: "n < 10 \<Longrightarrow> is_digit (digit n)"
  by (simp add: is_digit_def)

lemma digit_zero [simp]: "n < 10 \<Longrightarrow> digit n = CHR ''0'' \<longleftrightarrow> n = 0"
  by (subst of_char_eq_iff [symmetric, where 'a = nat]) simp

lemma show_octet_digits: "n < 256 \<Longrightarrow> list_all is_digit (show_octet n)"
  by (simp add: show_octet_def)

lemma decimal_digits: "10 * (10 * (n div 100) + n div 10 mod 10) + n mod 10 = (n :: nat)"
proof -
  have "n div 100 = n div 10 div 10" by (simp add: div_mult2_eq [symmetric])
  then show ?thesis by simp
qed

lemma decimal_show_octet: "n < 256 \<Longrightarrow> decimal (show_octet n) = int n"
proof -
  have "10 * int (n div 10) + int (n mod 10) = int n"
    by (metis mult_div_mod_eq of_nat_add of_nat_mult of_nat_numeral)
  then show "n < 256 \<Longrightarrow> decimal (show_octet n) = int n"
    using arg_cong [OF decimal_digits [of n], of int] by (simp add: show_octet_def decimal_def)
qed

lemma parse_show_octet: "n < 256 \<Longrightarrow> parse_octet (show_octet n) = Some n"
  by (auto simp: parse_octet_def decimal_show_octet show_octet_digits) (auto simp: show_octet_def split: if_splits)

lemma digits_not_dot: "list_all is_digit s \<Longrightarrow> CHR ''.'' \<notin> set s \<and> CHR '':'' \<notin> set s \<and> CHR ''%'' \<notin> set s \<and> CHR ''/'' \<notin> set s"
  by (auto simp: list_all_iff is_digit_def)

lemma Split_at_clean: "d \<notin> set s \<Longrightarrow> Split_at d s = [s]"
  by (induction s) auto

lemma Split_at_append: "d \<notin> set s \<Longrightarrow> Split_at d (s @ d # t) = s # Split_at d t"
  by (induction s) auto

lemma unat_bound: "unat (w :: 32 word) < 2 ^ 32"
  using unsigned_less [of w, where 'a = nat] by simp

lemma octets_unat: "octets (unat w div 16777216) (unat w div 65536 mod 256) (unat w div 256 mod 256) (unat w mod 256) = w"
proof -
  have "((n div 16777216 * 256 + n div 65536 mod 256) * 256 + n div 256 mod 256) * 256 + n mod 256 = n" for n :: nat
  proof -
    have "n div 16777216 = n div 65536 div 256" "n div 65536 = n div 256 div 256" by (simp_all add: div_mult2_eq [symmetric])
    then show ?thesis by simp
  qed
  then show ?thesis by (simp add: octets_def)
qed

lemma parseIPv4_String4: "parseIPv4 (String4 w) = Some w"
proof -
  note unat_bound [of w]
  then have o: "unat w div 16777216 < 256" by simp
  then have d: "list_all is_digit (show_octet (unat w div 16777216))" "list_all is_digit (show_octet (unat w div 65536 mod 256))"
    "list_all is_digit (show_octet (unat w div 256 mod 256))" "list_all is_digit (show_octet (unat w mod 256))"
    by (simp_all add: show_octet_digits)
  show ?thesis
    using o d [THEN digits_not_dot]
    by (simp add: parseIPv4_def String4_def Let_def Split_at_append Split_at_clean parse_show_octet octets_unat)
qed

lemma String4_chars: "c \<in> set (String4 w) \<Longrightarrow> is_digit c \<or> c = CHR ''.''"
proof -
  note unat_bound [of w]
  then have "unat w div 16777216 < 256" by simp
  then have "list_all (\<lambda>c. is_digit c \<or> c = CHR ''.'') (String4 w)"
    by (simp add: String4_def Let_def list_all_append list.pred_mono_strong [OF show_octet_digits])
  then show "c \<in> set (String4 w) \<Longrightarrow> is_digit c \<or> c = CHR ''.''" by (auto simp: list_all_iff)
qed

lemma TrimSpace_String4 [simp]: "TrimSpace (String4 w) = String4 w"
  by (rule TrimSpace_clean) (auto dest!: String4_chars simp: is_digit_def space_byte_def)

lemma String4_not_Nil [simp]: "String4 w \<noteq> []"
  by (simp add: String4_def Let_def)

lemma cut_last_append: "d \<notin> set t \<Longrightarrow> cut_last d (s @ d # t) = Some (s, t)"
  by (auto simp: cut_last_def dropWhile_append takeWhile_append split: if_splits)

lemma parse_octet_slash: "CHR ''/'' \<in> set s \<Longrightarrow> parse_octet s = None"
  by (auto simp: parse_octet_def list_all_iff dest!: bspec [of _ _ "CHR ''/''"]) (simp_all add: is_digit_def)

lemma Split_at_set: "c \<in> set s \<Longrightarrow> c \<noteq> d \<Longrightarrow> \<exists>w \<in> set (Split_at d s). c \<in> set w"
  by (induction s) (auto split: list.splits)

lemma parseIPv4_slash: "CHR ''/'' \<in> set s \<Longrightarrow> parseIPv4 s = None"
proof -
  assume "CHR ''/'' \<in> set s"
  then obtain w where "w \<in> set (Split_at CHR ''.'' s)" "CHR ''/'' \<in> set w"
    using Split_at_set [of "CHR ''/''" s "CHR ''.''"] by auto
  then have "None \<in> set (map parse_octet (Split_at CHR ''.'' s))" by (metis image_eqI parse_octet_slash set_map)
  then show ?thesis by (auto simp: parseIPv4_def split: list.split option.split)
qed

text \<open>An IPv4 address with a prefix length is read by \<open>ParsePrefix\<close> only.\<close>

lemma String4_find: "find (\<lambda>c. c \<in> {CHR ''.'', CHR '':'', CHR ''%''}) (String4 w @ t) = Some CHR ''.''"
proof -
  note unat_bound [of w]
  then have "list_all is_digit (show_octet (unat w div 16777216))" by (intro show_octet_digits) simp
  then have "find (\<lambda>c. c \<in> {CHR ''.'', CHR '':'', CHR ''%''}) (show_octet (unat w div 16777216)) = None"
    using digits_not_dot by (auto simp: find_None_iff)
  then show ?thesis by (simp only: String4_def Let_def find_append option.case append_assoc) simp
qed

lemma ParseAddr_String4: "ParseAddr (String4 w) = Some (V4 w)"
  using String4_find [of w "[]"] by (simp add: ParseAddr_def parseIPv4_String4)

lemma ParseAddr_slash: "ParseAddr (String4 w @ CHR ''/'' # t) = None"
  using String4_find [of w] by (simp add: ParseAddr_def parseIPv4_slash)

lemma nonzero_digit: "is_digit c \<Longrightarrow> c \<noteq> CHR ''0'' \<Longrightarrow> \<not> (c < CHR ''1'' \<or> CHR ''9'' < c)"
proof -
  have "c = CHR ''0''" if "of_char c = (48 :: nat)"
    using that by (subst of_char_eq_iff [symmetric, where 'a = nat]) simp
  then show "is_digit c \<Longrightarrow> c \<noteq> CHR ''0'' \<Longrightarrow> \<not> (c < CHR ''1'' \<or> CHR ''9'' < c)"
    by (auto simp: less_char_def is_digit_def)
qed

lemma ParsePrefix_String4:
  "list_all is_digit b \<Longrightarrow> b \<noteq> [] \<Longrightarrow> (1 < length b \<longrightarrow> hd b \<noteq> CHR ''0'') \<Longrightarrow> decimal b \<le> 32 \<Longrightarrow>
     ParsePrefix (String4 w @ CHR ''/'' # b) = Some (V4 w, nat (decimal b))"
proof -
  assume b: "list_all is_digit b" "b \<noteq> []" "1 < length b \<longrightarrow> hd b \<noteq> CHR ''0''" "decimal b \<le> 32"
  then have no: "\<not> prefix ''-'' b" "\<not> prefix ''+'' b" "CHR ''/'' \<notin> set b"
    by (cases b; auto simp: is_digit_def list_all_iff)+
  have "0 \<le> decimal b"
  proof -
    have "0 \<le> n \<Longrightarrow> 0 \<le> fold (\<lambda>c n. 10 * n + int (of_char c - 48)) b n" for n
      by (induction b arbitrary: n) auto
    then show ?thesis by (simp add: decimal_def)
  qed
  with b no have a: "Atoi b = Some (decimal b)" by (simp add: Atoi_def int64_min_def int64_max_def)
  have "is_digit (hd b)" using b(1,2) by (cases b) auto
  then have "\<not> (1 < length b \<and> (hd b < CHR ''1'' \<or> CHR ''9'' < hd b))"
    using b(3) nonzero_digit by blast
  then show ?thesis using a \<open>0 \<le> decimal b\<close> b(4) no(3)
    by (simp add: ParsePrefix_def cut_last_append ParseAddr_String4)
qed

end
