(* ===== verification/Wireguard.thy ===== *)
theory Wireguard
  imports Netip
begin

text \<open>
  The WireGuard address pool and peer credentials (\<open>backend/internal/wireguard\<close>: \<open>credentials.go\<close>,
  \<open>repository.go\<close>, \<open>account_credentials.go\<close>).

  Parameters: \<open>pg_inet\<close>, PostgreSQL's cast of a text to \<open>inet\<close> and back to text; \<open>gen\<close>, the key pair
  \<open>GenerateKeypair\<close> draws for an account; \<open>decode64\<close>, \<open>encode64\<close> and \<open>x25519\<close>, base64 and the public key of
  a Curve25519 private key.
\<close>

section \<open>The address pool\<close>

datatype wg_error = InvalidServerAddress | PoolExhausted | KeyGenerationFailed | InvalidPrivateKey
  | WgNoRows | WgDatabaseError

text \<open>The shift is on \<open>uint32\<close>: for a prefix of length 0 it gives 0, and the mask is all ones.\<close>

definition lastAddress :: "32 word \<Rightarrow> nat \<Rightarrow> 32 word" where
  "lastAddress net bits = Masked net bits OR (push_bit (32 - bits) 1 - 1)"

text \<open>A stored address: an address, or the address of a prefix.\<close>

definition parse_peer :: "string \<Rightarrow> addr option" where
  "parse_peer s =
     (case ParseAddr (TrimSpace s) of
        Some a \<Rightarrow> Some (Unmap a)
      | None \<Rightarrow> (case ParsePrefix (TrimSpace s) of Some (a, _) \<Rightarrow> Some (Unmap a) | None \<Rightarrow> None))"

lemma unat_next: "c < l \<Longrightarrow> unat (c + 1) = unat c + 1" for c l :: "32 word"
  using unat_bound [of l] by (auto simp: word_less_nat_alt unat_word_ariths)

function next_peer :: "addr list \<Rightarrow> 32 word \<Rightarrow> 32 word \<Rightarrow> 32 word option" where
  "next_peer used last' c =
     (if c < last' then (if V4 c \<notin> set used then Some c else next_peer used last' (c + 1)) else None)"
  by pat_completeness auto
termination
proof (relation "measure (\<lambda>(_, l, c). unat l - unat c)")
  fix used and last' c :: "32 word"
  assume "c < last'"
  then have "unat (c + 1) = unat c + 1" "unat c < unat last'"
    using unat_next by (auto simp: word_less_nat_alt)
  then show "((used, last', c + 1), used, last', c) \<in> measure (\<lambda>(_, l, c). unat l - unat c)" by simp
qed simp

definition NextPeerAddress :: "string \<Rightarrow> string list \<Rightarrow> wg_error + string" where
  "NextPeerAddress server used =
     (case ParsePrefix (TrimSpace server) of
        Some (V4 ip, bits) \<Rightarrow>
          if 30 < bits then Inl InvalidServerAddress
          else
            let net = Masked ip bits in
            (case next_peer (V4 net # V4 ip # List.map_filter parse_peer used) (lastAddress net bits) (net + 1) of
               Some a \<Rightarrow> Inr (String4 a)
             | None \<Rightarrow> Inl PoolExhausted)
      | _ \<Rightarrow> Inl InvalidServerAddress)"

definition PeerAddressInServerPrefix :: "string \<Rightarrow> string \<Rightarrow> bool" where
  "PeerAddressInServerPrefix server peer =
     (case ParsePrefix (TrimSpace server) of
        Some (V4 ip, bits) \<Rightarrow>
          (case parse_peer peer of
             None \<Rightarrow> False
           | Some a \<Rightarrow>
               let net = Masked ip bits in
               Contains net bits a \<and> a \<noteq> V4 net \<and> a \<noteq> V4 (lastAddress net bits) \<and> a \<noteq> V4 ip)
      | _ \<Rightarrow> False)"

section \<open>Peer credentials\<close>

record wg_server =
  ws_id :: string
  ws_address :: string
  ws_protocol :: string

text \<open>\<open>wa_address\<close> is the text of the \<open>inet\<close> column, \<open>wa_client\<close> the protocol of the client profile.\<close>

record wg_account =
  wa_id :: string
  wa_server :: "string option"
  wa_private :: "string option"
  wa_public :: "string option"
  wa_address :: "string option"
  wa_client :: "string option"
  wa_created :: time

record wg_db =
  wg_servers :: "wg_server table"
  wg_accounts :: "wg_account table"

definition coalesce :: "string option \<Rightarrow> string" where
  "coalesce v = (case v of None \<Rightarrow> [] | Some s \<Rightarrow> s)"

definition PublicKeyFromPrivate ::
  "(string \<Rightarrow> nat list option) \<Rightarrow> (nat list \<Rightarrow> string) \<Rightarrow> (nat list \<Rightarrow> nat list) \<Rightarrow> string \<Rightarrow> string option" where
  "PublicKeyFromPrivate decode64 encode64 x25519 v =
     (case decode64 (TrimSpace v) of
        None \<Rightarrow> None
      | Some k \<Rightarrow> if length k \<noteq> 32 then None else Some (encode64 (x25519 k)))"

text \<open>The unique indexes of migration 125: public keys, and addresses within a server.\<close>

definition public_conflict :: "string \<Rightarrow> string \<Rightarrow> wg_account table \<Rightarrow> bool" where
  "public_conflict acct pub t \<longleftrightarrow> (\<exists>a \<in> set t. wa_id a \<noteq> acct \<and> wa_public a = Some pub)"

definition address_conflict :: "string \<Rightarrow> string \<Rightarrow> wg_account table \<Rightarrow> bool" where
  "address_conflict acct ad t \<longleftrightarrow>
     (\<exists>a \<in> set t. wa_id a = acct \<and> wa_server a \<noteq> None
        \<and> (\<exists>b \<in> set t. wa_id b \<noteq> acct \<and> wa_server b = wa_server a \<and> wa_address b = Some ad))"

definition update_peer ::
  "(string \<Rightarrow> string option) \<Rightarrow> string \<Rightarrow> string \<times> string \<Rightarrow> string \<Rightarrow> wg_account table \<Rightarrow> wg_error + wg_account table" where
  "update_peer pg_inet acct keys ad t =
     (case pg_inet ad of
        None \<Rightarrow> Inl WgDatabaseError
      | Some ad' \<Rightarrow>
          if public_conflict acct (snd keys) t \<or> address_conflict acct ad' t then Inl WgDatabaseError
          else Inr (update_where (\<lambda>a. wa_id a = acct)
                 (\<lambda>a. a\<lparr>wa_private := Some (fst keys), wa_public := Some (snd keys), wa_address := Some ad'\<rparr>) t))"

text \<open>The key pair of an account: generated, completed or kept.\<close>

definition peer_keys ::
  "(string \<Rightarrow> (string \<times> string) option) \<Rightarrow> (string \<Rightarrow> string option) \<Rightarrow> wg_account \<Rightarrow> wg_error + string \<times> string" where
  "peer_keys gen public_of a =
     (let priv = TrimSpace (coalesce (wa_private a)); pub = TrimSpace (coalesce (wa_public a)) in
      if priv = [] then (case gen (wa_id a) of None \<Rightarrow> Inl KeyGenerationFailed | Some kp \<Rightarrow> Inr kp)
      else if pub = [] then (case public_of priv of None \<Rightarrow> Inl InvalidPrivateKey | Some k \<Rightarrow> Inr (priv, k))
      else Inr (priv, pub))"

definition kept_address :: "string \<Rightarrow> wg_account \<Rightarrow> string" where
  "kept_address server a =
     (let ad = TrimSpace (coalesce (wa_address a)) in if PeerAddressInServerPrefix server ad then ad else [])"

fun ensure_peers ::
  "(string \<Rightarrow> string option) \<Rightarrow> (string \<Rightarrow> (string \<times> string) option) \<Rightarrow> (string \<Rightarrow> string option) \<Rightarrow> string
     \<Rightarrow> wg_account list \<Rightarrow> string list \<Rightarrow> wg_account table \<Rightarrow> wg_error + wg_account table" where
  "ensure_peers pg_inet gen public_of server [] used t = Inr t"
| "ensure_peers pg_inet gen public_of server (p # ps) used t =
     (case peer_keys gen public_of p of
        Inl e \<Rightarrow> Inl e
      | Inr keys \<Rightarrow>
          (case (if kept_address server p = [] then NextPeerAddress server used else Inr (kept_address server p)) of
             Inl e \<Rightarrow> Inl e
           | Inr ad \<Rightarrow>
               let used' = (if kept_address server p = [] then used @ [ad] else used) in
               if fst keys = coalesce (wa_private p) \<and> snd keys = coalesce (wa_public p) \<and> ad = coalesce (wa_address p)
               then ensure_peers pg_inet gen public_of server ps used' t
               else (case update_peer pg_inet (wa_id p) keys ad t of
                       Inl e \<Rightarrow> Inl e
                     | Inr t' \<Rightarrow> ensure_peers pg_inet gen public_of server ps used' t')))"

text \<open>\<open>COALESCE(NULLIF(cp.protocol, 'auto'), s.vpn_protocol, 'vless') = 'wireguard'\<close>.\<close>

definition wireguard_peer :: "wg_server \<Rightarrow> wg_account \<Rightarrow> bool" where
  "wireguard_peer s a \<longleftrightarrow>
     wa_server a = Some (ws_id s)
     \<and> (case wa_client a of
          None \<Rightarrow> ws_protocol s = ''wireguard''
        | Some p \<Rightarrow> if p = ''auto'' then ws_protocol s = ''wireguard'' else p = ''wireguard'')"

definition used_addresses :: "string \<Rightarrow> wg_account list \<Rightarrow> string list" where
  "used_addresses server as =
     filter (\<lambda>ad. ad \<noteq> [] \<and> PeerAddressInServerPrefix server ad) (map (\<lambda>a. coalesce (wa_address a)) as)"

definition by_creation :: "wg_account table \<Rightarrow> wg_account list" where
  "by_creation = sort_key (\<lambda>a. (wa_created a, wa_id a))"

definition server_body ::
  "(string \<Rightarrow> string option) \<Rightarrow> (string \<Rightarrow> (string \<times> string) option) \<Rightarrow> (string \<Rightarrow> string option) \<Rightarrow> string
     \<Rightarrow> wg_db \<Rightarrow> (wg_error, unit, wg_db) outcome" where
  "server_body pg_inet gen public_of sid db =
     (case lookup_row ws_id sid (wg_servers db) of
        None \<Rightarrow> Abort WgNoRows
      | Some s \<Rightarrow>
          let peers = by_creation (select (wireguard_peer s) (wg_accounts db)) in
          (case ensure_peers pg_inet gen public_of (ws_address s) peers (used_addresses (ws_address s) peers) (wg_accounts db) of
             Inl e \<Rightarrow> Abort e
           | Inr t \<Rightarrow> Commit (Inr ()) (db\<lparr>wg_accounts := t\<rparr>)))"

definition EnsureServerPeerCredentials ::
  "commit_fate \<Rightarrow> (string \<Rightarrow> string option) \<Rightarrow> (string \<Rightarrow> string option) \<Rightarrow> (string \<Rightarrow> (string \<times> string) option)
     \<Rightarrow> (string \<Rightarrow> string option) \<Rightarrow> string \<Rightarrow> wg_db \<Rightarrow> (wg_error + unit) \<times> wg_db" where
  "EnsureServerPeerCredentials fate pg_uuid pg_inet gen public_of sid db =
     (if TrimSpace sid = [] then (Inr (), db)
      else case pg_uuid (TrimSpace sid) of
        None \<Rightarrow> (Inl WgDatabaseError, db)
      | Some u \<Rightarrow> run_tx WgDatabaseError fate (server_body pg_inet gen public_of u db) db)"

definition account_body ::
  "(string \<Rightarrow> string option) \<Rightarrow> (string \<Rightarrow> (string \<times> string) option) \<Rightarrow> (string \<Rightarrow> string option) \<Rightarrow> string \<Rightarrow> string
     \<Rightarrow> wg_db \<Rightarrow> (wg_error, unit, wg_db) outcome" where
  "account_body pg_inet gen public_of sid acct db =
     (case lookup_row ws_id sid (wg_servers db) of
        None \<Rightarrow> Abort WgNoRows
      | Some s \<Rightarrow>
          (case find (\<lambda>a. wa_id a = acct \<and> wa_server a = Some sid) (wg_accounts db) of
             None \<Rightarrow> Abort WgNoRows
           | Some a \<Rightarrow>
               let used = used_addresses (ws_address s)
                     (by_creation (select (\<lambda>b. wa_server b = Some sid \<and> wa_id b \<noteq> acct) (wg_accounts db))) in
               (case peer_keys gen public_of a of
                  Inl e \<Rightarrow> Abort e
                | Inr keys \<Rightarrow>
                    (case (if kept_address (ws_address s) a = [] then NextPeerAddress (ws_address s) used
                           else Inr (kept_address (ws_address s) a)) of
                       Inl e \<Rightarrow> Abort e
                     | Inr ad \<Rightarrow>
                         (case update_peer pg_inet acct keys ad (wg_accounts db) of
                            Inl e \<Rightarrow> Abort e
                          | Inr t \<Rightarrow> Commit (Inr ()) (db\<lparr>wg_accounts := t\<rparr>))))))"

definition EnsureAccountPeerCredentials ::
  "commit_fate \<Rightarrow> (string \<Rightarrow> string option) \<Rightarrow> (string \<Rightarrow> string option) \<Rightarrow> (string \<Rightarrow> (string \<times> string) option)
     \<Rightarrow> (string \<Rightarrow> string option) \<Rightarrow> string \<Rightarrow> string \<Rightarrow> wg_db \<Rightarrow> (wg_error + unit) \<times> wg_db" where
  "EnsureAccountPeerCredentials fate pg_uuid pg_inet gen public_of sid acct db =
     (if TrimSpace sid = [] \<or> TrimSpace acct = [] then (Inr (), db)
      else case pg_uuid (TrimSpace sid) of
        None \<Rightarrow> (Inl WgDatabaseError, db)
      | Some u \<Rightarrow>
          (case pg_uuid (TrimSpace acct) of
             None \<Rightarrow> (Inl WgDatabaseError, db)
           | Some v \<Rightarrow> run_tx WgDatabaseError fate (account_body pg_inet gen public_of u v db) db))"

section \<open>The pool is exact\<close>

lemma parse_peer_String4 [simp]: "parse_peer (String4 a) = Some (V4 a)"
  by (simp add: parse_peer_def ParseAddr_String4 Unmap_def)

lemma parse_peer_Nil [simp]: "parse_peer [] = None"
  by (simp add: parse_peer_def ParseAddr_def ParsePrefix_def cut_last_def)

declare next_peer.simps [simp del]

lemma next_peer_Some:
  "next_peer used l c = Some a \<Longrightarrow> c \<le> a \<and> a < l \<and> V4 a \<notin> set used \<and> (\<forall>b. c \<le> b \<and> b < a \<longrightarrow> V4 b \<in> set used)"
proof (induction used l c rule: next_peer.induct)
  case (1 used l c)
  show ?case
  proof (cases "V4 c \<in> set used \<and> c < l")
    case True
    then have IH: "c + 1 \<le> a \<and> a < l \<and> V4 a \<notin> set used \<and> (\<forall>b. c + 1 \<le> b \<and> b < a \<longrightarrow> V4 b \<in> set used)"
      using 1 by (simp add: next_peer.simps [of used l c])
    have "unat (c + 1) = unat c + 1" using True unat_next by blast
    then have "b = c \<or> c + 1 \<le> b" if "c \<le> b" for b
      using that by (auto simp: word_le_nat_alt) (metis le_antisym not_less_eq_eq word_unat_eq_iff)
    moreover have "c \<le> a" using IH \<open>unat (c + 1) = unat c + 1\<close> by (simp add: word_le_nat_alt)
    ultimately show ?thesis using IH True by blast
  qed (use 1 in \<open>auto simp: next_peer.simps [of used l c] split: if_splits\<close>)
qed

lemma next_peer_None: "next_peer used l c = None \<Longrightarrow> c \<le> b \<Longrightarrow> b < l \<Longrightarrow> V4 b \<in> set used"
proof (induction used l c rule: next_peer.induct)
  case (1 used l c)
  then have c: "c < l" by simp
  with 1(2) have used: "V4 c \<in> set used" and n: "next_peer used l (c + 1) = None"
    by (simp_all add: next_peer.simps [of used l c] split: if_splits)
  show ?case
  proof (cases "b = c")
    case False
    then have "c + 1 \<le> b" using 1(3) unat_next [OF c]
      by (auto simp: word_le_nat_alt) (metis le_antisym not_less_eq_eq word_unat_eq_iff)
    with 1(1) [OF c _ n] used 1(4) show ?thesis by simp
  qed (simp add: used)
qed

text \<open>A prefix is an interval of addresses.\<close>

lemma Masked_idem [simp]: "Masked (Masked w bits) bits = Masked w bits"
  by (simp add: Masked_def and.assoc)

lemma Masked_sub: "Masked w bits = w - take_bit (32 - bits) w"
proof -
  have "Masked w bits = push_bit (32 - bits) (drop_bit (32 - bits) w)"
    by (rule bit_eqI) (auto simp: Masked_def host_mask_def bit_simps)
  then show ?thesis using bits_ident [of "32 - bits" w] by (metis add_diff_cancel_right')
qed

lemma unat_Masked: "unat (Masked w bits) = unat w div 2 ^ (32 - bits) * 2 ^ (32 - bits)"
proof -
  have t: "unat (take_bit (32 - bits) w) = unat w mod 2 ^ (32 - bits)"
    by (simp add: unsigned_take_bit_eq take_bit_eq_mod [where 'a = nat])
  then have "take_bit (32 - bits) w \<le> w" by (simp add: word_le_nat_alt)
  then show ?thesis unfolding Masked_sub by (simp add: unat_sub t minus_mod_eq_div_mult)
qed

lemma lastAddress_add: "lastAddress (Masked w bits) bits = Masked w bits + mask (32 - bits)"
proof -
  have "push_bit (32 - bits) 1 - 1 = (mask (32 - bits) :: 32 word)"
    by (simp add: mask_eq_exp_minus_1 push_bit_eq_mult)
  moreover have "Masked w bits AND mask (32 - bits) = 0"
    by (simp add: Masked_def host_mask_def and.assoc)
  ultimately show ?thesis by (simp add: lastAddress_def disjunctive_add_eq_or)
qed

lemma unat_last:
  assumes "bits \<le> 32"
  shows "unat (lastAddress (Masked w bits) bits) = unat (Masked w bits) + (2 ^ (32 - bits) - 1)"
proof -
  define h where "h = 32 - bits"
  have h: "h \<le> 32" by (simp add: h_def)
  have m: "unat (mask h :: 32 word) = 2 ^ h - 1"
  proof -
    have "mask h = take_bit h (- 1 :: 32 word)" by (rule mask_eq_take_bit_minus_one)
    then have "unat (mask h :: 32 word) = take_bit h (unat (- 1 :: 32 word))" by (simp only: unsigned_take_bit_eq)
    also have "\<dots> = take_bit h (mask 32 :: nat)" by (simp add: unsigned_minus_1_eq_mask)
    also have "\<dots> = mask h" using h by (intro bit_eqI) (auto simp: bit_simps)
    finally show ?thesis by (simp add: mask_eq_exp_minus_1)
  qed
  have "unat w div 2 ^ h < 2 ^ (32 - h)"
    using unat_bound [of w] h by (intro less_mult_imp_div_less) (simp add: power_add [symmetric])
  then have "(unat w div 2 ^ h + 1) * 2 ^ h \<le> 2 ^ (32 - h) * (2 ^ h :: nat)" by (intro mult_right_mono) simp_all
  then have "unat w div 2 ^ h * 2 ^ h + 2 ^ h \<le> (2 ^ 32 :: nat)"
    using h by (simp add: power_add [symmetric] algebra_simps)
  then have "unat (Masked w bits) + (2 ^ h - 1) < 2 ^ 32"
    unfolding unat_Masked h_def [symmetric] using one_le_power [of "2 :: nat" h] by linarith
  then show ?thesis unfolding lastAddress_add h_def [symmetric]
    by (simp add: unat_word_ariths m)
qed

lemma Contains_interval:
  assumes "bits \<le> 32"
  shows "Contains (Masked w bits) bits (V4 a) \<longleftrightarrow> Masked w bits \<le> a \<and> a \<le> lastAddress (Masked w bits) bits"
proof -
  define k where "k = (2 ^ (32 - bits) :: nat)"
  have k: "0 < k" by (simp add: k_def)
  have "Contains (Masked w bits) bits (V4 a) \<longleftrightarrow> drop_bit (32 - bits) a = drop_bit (32 - bits) (Masked w bits)"
    by (auto simp: Contains_def drop_bit_xor bit_eq_iff [where 'a = "32 word"] bit_simps)
  also have "\<dots> \<longleftrightarrow> unat a div k = unat w div k"
    by (simp add: word_unat_eq_iff unat_drop_bit_eq drop_bit_eq_div [where 'a = nat] unat_Masked k_def)
  also have "\<dots> \<longleftrightarrow> unat w div k * k \<le> unat a \<and> unat a \<le> unat w div k * k + (k - 1)"
  proof -
    have "x div k = q \<longleftrightarrow> q * k \<le> x \<and> x \<le> q * k + (k - 1)" for x q
    proof
      assume "x div k = q"
      then have "x = q * k + x mod k" "x mod k < k" using k by auto
      then show "q * k \<le> x \<and> x \<le> q * k + (k - 1)" by linarith
    next
      assume "q * k \<le> x \<and> x \<le> q * k + (k - 1)"
      with k show "x div k = q" by (intro div_nat_eqI) (auto simp: algebra_simps)
    qed
    then show ?thesis .
  qed
  finally show ?thesis
    unfolding word_le_nat_alt unat_last [OF assms] unat_Masked k_def .
qed

text \<open>An address a peer may be given: the server's prefix admits it and nobody uses it.\<close>

definition free_peer :: "string \<Rightarrow> string list \<Rightarrow> 32 word \<Rightarrow> bool" where
  "free_peer server used a \<longleftrightarrow>
     PeerAddressInServerPrefix server (String4 a) \<and> V4 a \<notin> set (List.map_filter parse_peer used)"

lemma ParsePrefix_bits: "ParsePrefix s = Some (V4 ip, bits) \<Longrightarrow> bits \<le> 32"
  by (auto simp: ParsePrefix_def split: option.splits if_splits prod.splits)

lemma free_peer_interval:
  assumes "ParsePrefix (TrimSpace server) = Some (V4 ip, bits)"
  defines "net \<equiv> Masked ip bits"
  shows "free_peer server used a \<longleftrightarrow> net < a \<and> a < lastAddress net bits \<and> V4 a \<notin> set (V4 net # V4 ip # List.map_filter parse_peer used)"
  using Contains_interval [OF ParsePrefix_bits [OF assms(1)], of ip a] assms(1)
  by (auto simp: free_peer_def PeerAddressInServerPrefix_def Let_def net_def [symmetric] less_le)

lemma free_peer_narrow:
  assumes "ParsePrefix (TrimSpace server) = Some (V4 ip, bits)" "30 < bits"
  shows "\<not> free_peer server used a"
proof
  define net where "net = Masked ip bits"
  have b: "bits \<le> 32" by (rule ParsePrefix_bits [OF assms(1)])
  have "(2 :: nat) ^ (32 - bits) \<le> 2 ^ 1" using assms(2) by (intro power_increasing) auto
  then have "unat (lastAddress net bits) \<le> unat net + 1"
    unfolding net_def unat_last [OF b] by simp
  moreover assume "free_peer server used a"
  ultimately show False
    unfolding free_peer_interval [OF assms(1)] net_def [symmetric] by (auto simp: word_less_nat_alt)
qed

lemma next_start:
  assumes "bits \<le> 30" and that: "net = Masked ip bits"
  shows "net + 1 \<le> a \<longleftrightarrow> net < a"
proof -
  have b: "bits \<le> 32" using assms by simp
  have "(2 :: nat) ^ 2 \<le> 2 ^ (32 - bits)" using assms by (intro power_increasing) auto
  then have "unat net < unat (lastAddress net bits)"
    unfolding that unat_last [OF b] by simp
  then have "net < lastAddress net bits" by (simp add: word_less_nat_alt)
  from unat_next [OF this] show ?thesis by (auto simp: word_le_nat_alt word_less_nat_alt)
qed

lemma NextPeerAddress_Inr:
  assumes "NextPeerAddress server used = Inr s"
  obtains a where "s = String4 a" "free_peer server used a" "\<And>b. b < a \<Longrightarrow> \<not> free_peer server used b"
proof -
  from assms obtain ip bits a where p: "ParsePrefix (TrimSpace server) = Some (V4 ip, bits)" and b: "bits \<le> 30"
    and n: "next_peer (V4 (Masked ip bits) # V4 ip # List.map_filter parse_peer used) (lastAddress (Masked ip bits) bits) (Masked ip bits + 1) = Some a"
    and s: "s = String4 a"
    by (auto simp: NextPeerAddress_def Let_def split: option.splits prod.splits addr.splits if_splits)
  show thesis
  proof (rule that [OF s])
    show "free_peer server used a"
      using next_peer_Some [OF n] next_start [OF b refl] by (auto simp: free_peer_interval [OF p])
    show "\<not> free_peer server used c" if "c < a" for c
      using next_peer_Some [OF n] next_start [OF b refl] that by (auto simp: free_peer_interval [OF p])
  qed
qed

lemma NextPeerAddress_Inl:
  assumes "NextPeerAddress server used = Inl e"
  shows "\<not> free_peer server used a"
proof (cases "\<exists>ip bits. ParsePrefix (TrimSpace server) = Some (V4 ip, bits)")
  case True
  then obtain ip bits where p: "ParsePrefix (TrimSpace server) = Some (V4 ip, bits)" by blast
  show ?thesis
  proof (cases "30 < bits")
    case False
    then have b: "bits \<le> 30" by simp
    have "next_peer (V4 (Masked ip bits) # V4 ip # List.map_filter parse_peer used) (lastAddress (Masked ip bits) bits) (Masked ip bits + 1) = None"
      using assms p False by (auto simp: NextPeerAddress_def Let_def split: option.splits)
    from next_peer_None [OF this, of a] show ?thesis
      unfolding free_peer_interval [OF p] next_start [OF b refl] by blast
  qed (rule free_peer_narrow [OF p])
qed (auto simp: free_peer_def PeerAddressInServerPrefix_def split: option.splits prod.splits addr.splits)

text \<open>C18. The address pool is exact: \<open>NextPeerAddress\<close> returns the lowest address that the sibling
  check \<open>PeerAddressInServerPrefix\<close> admits and that no stored address denotes, and it reports an error
  exactly when there is no such address.  The scan ends and no address wraps around.\<close>

theorem next_peer_address_exact:
  "(\<forall>s. NextPeerAddress server used = Inr s \<longleftrightarrow>
      (\<exists>a. s = String4 a \<and> free_peer server used a \<and> (\<forall>b < a. \<not> free_peer server used b)))
   \<and> ((\<exists>e. NextPeerAddress server used = Inl e) \<longleftrightarrow> \<not> (\<exists>a. free_peer server used a))"
proof (cases "NextPeerAddress server used")
  case (Inl e)
  then show ?thesis using NextPeerAddress_Inl by auto
next
  case (Inr s)
  from NextPeerAddress_Inr [OF this] obtain a where a: "s = String4 a" "free_peer server used a"
    "\<And>b. b < a \<Longrightarrow> \<not> free_peer server used b" by blast
  have "b = a" if "free_peer server used b" "\<forall>c < b. \<not> free_peer server used c" for b
    by (rule linorder_cases [of a b]) (use that a in auto)
  then have "(\<exists>b. s' = String4 b \<and> free_peer server used b \<and> (\<forall>c < b. \<not> free_peer server used c)) \<longleftrightarrow> s' = s" for s'
    using a by blast
  with a(2) Inr show ?thesis by auto
qed

section \<open>Credentials are completed, kept and stable\<close>

text \<open>What is relied on of PostgreSQL and of the key generator.\<close>

definition clean :: "string \<Rightarrow> bool" where
  "clean s \<longleftrightarrow> s \<noteq> [] \<and> TrimSpace s = s"

definition credential_env ::
  "(string \<Rightarrow> string option) \<Rightarrow> (string \<Rightarrow> (string \<times> string) option) \<Rightarrow> (string \<Rightarrow> string option) \<Rightarrow> bool" where
  "credential_env pg_inet gen public_of \<longleftrightarrow>
     (\<forall>w. pg_inet (String4 w) = Some (String4 w @ ''/32''))
     \<and> (\<forall>s s'. pg_inet s = Some s' \<longrightarrow> clean s' \<and> pg_inet s' = Some s')
     \<and> (\<forall>i k p. gen i = Some (k, p) \<longrightarrow> clean k \<and> clean p)
     \<and> (\<forall>k p. public_of k = Some p \<longrightarrow> clean p)"

definition stored_inet :: "(string \<Rightarrow> string option) \<Rightarrow> wg_account table \<Rightarrow> bool" where
  "stored_inet pg_inet t \<longleftrightarrow> (\<forall>a \<in> set t. \<forall>ad. wa_address a = Some ad \<longrightarrow> clean ad \<and> pg_inet ad = Some ad)"

definition complete :: "string \<Rightarrow> wg_account \<Rightarrow> bool" where
  "complete server a \<longleftrightarrow>
     (\<exists>k p ad. wa_private a = Some k \<and> wa_public a = Some p \<and> wa_address a = Some ad
        \<and> clean k \<and> clean p \<and> clean ad \<and> PeerAddressInServerPrefix server ad)"

text \<open>What a run may do to one account: only the credentials change, and what was usable stays.  A stored private
  key is kept, with its public key when one is stored and with the derived one otherwise; without a private key
  both keys are new and come from one generated pair.\<close>

definition keys_completed ::
  "(string \<Rightarrow> (string \<times> string) option) \<Rightarrow> (string \<Rightarrow> string option) \<Rightarrow> wg_account \<Rightarrow> string \<Rightarrow> string \<Rightarrow> bool" where
  "keys_completed gen public_of a k p \<longleftrightarrow>
     (let stored = TrimSpace (coalesce (wa_private a)); pub = TrimSpace (coalesce (wa_public a)) in
      if stored = [] then gen (wa_id a) = Some (k, p)
      else k = stored \<and> (if pub = [] then public_of k = Some p else p = pub))"

definition completes ::
  "(string \<Rightarrow> (string \<times> string) option) \<Rightarrow> (string \<Rightarrow> string option) \<Rightarrow> string \<Rightarrow> wg_account \<Rightarrow> wg_account \<Rightarrow> bool" where
  "completes gen public_of server a a' \<longleftrightarrow>
     complete server a'
     \<and> a' = a\<lparr>wa_private := wa_private a', wa_public := wa_public a', wa_address := wa_address a'\<rparr>
     \<and> (kept_address server a \<noteq> [] \<longrightarrow> wa_address a' = wa_address a)
     \<and> keys_completed gen public_of a (coalesce (wa_private a')) (coalesce (wa_public a'))"

lemma slash32:
  "TrimSpace (String4 w @ ''/32'') = String4 w @ ''/32''" "parse_peer (String4 w @ ''/32'') = Some (V4 w)"
proof -
  show t: "TrimSpace (String4 w @ ''/32'') = String4 w @ ''/32''"
    by (rule TrimSpace_clean) (auto dest!: String4_chars simp: is_digit_def space_byte_def)
  have "ParsePrefix (String4 w @ CHR ''/'' # ''32'') = Some (V4 w, nat (decimal ''32''))"
    by (rule ParsePrefix_String4) (simp_all add: is_digit_def decimal_def)
  then show "parse_peer (String4 w @ ''/32'') = Some (V4 w)"
    by (simp add: parse_peer_def t ParseAddr_slash Unmap_def)
qed

lemma InServerPrefix_slash32:
  "PeerAddressInServerPrefix server (String4 w @ ''/32'') = PeerAddressInServerPrefix server (String4 w)"
  by (simp only: PeerAddressInServerPrefix_def slash32 parse_peer_String4)

lemma clean_slash32 [simp]: "clean (String4 w @ ''/32'')"
  by (simp add: clean_def slash32)

lemma complete_keys: "complete server a \<Longrightarrow> \<exists>k p. wa_private a = Some k \<and> wa_public a = Some p \<and> peer_keys gen public_of a = Inr (k, p)"
  by (auto simp: complete_def peer_keys_def coalesce_def clean_def)

lemma complete_address: "complete server a \<Longrightarrow> \<exists>ad. wa_address a = Some ad \<and> kept_address server a = ad \<and> ad \<noteq> []"
  by (auto simp: complete_def kept_address_def coalesce_def clean_def)

lemma peer_keys_clean:
  assumes "credential_env pg_inet gen public_of" "peer_keys gen public_of a = Inr (k, p)"
  shows "clean k \<and> clean p \<and> keys_completed gen public_of a k p"
proof -
  have g: "clean k' \<and> clean p'" if "gen (wa_id a) = Some (k', p')" for k' p'
    using assms(1) that unfolding credential_env_def by blast
  have q: "clean p'" if "public_of k' = Some p'" for k' p'
    using assms(1) that unfolding credential_env_def by blast
  show ?thesis using assms(2) g q
    by (auto simp: peer_keys_def keys_completed_def clean_def Let_def split: option.splits if_splits)
qed

text \<open>One peer.\<close>

lemma peer_step:
  assumes env: "credential_env pg_inet gen public_of" "stored_inet pg_inet t" "p \<in> set t"
    and keys: "peer_keys gen public_of p = Inr (k, q)"
    and ad: "(if kept_address server p = [] then NextPeerAddress server used else Inr (kept_address server p)) = Inr ad"
  obtains ad' where "pg_inet ad = Some ad'"
    "completes gen public_of server p (p\<lparr>wa_private := Some k, wa_public := Some q, wa_address := Some ad'\<rparr>)"
    "k = coalesce (wa_private p) \<Longrightarrow> q = coalesce (wa_public p) \<Longrightarrow> ad = coalesce (wa_address p) \<Longrightarrow> completes gen public_of server p p"
proof -
  note kq = peer_keys_clean [OF env(1) keys]
  show thesis
  proof (cases "kept_address server p = []")
    case True
    with ad have "NextPeerAddress server used = Inr ad" by simp
    then obtain w where w: "ad = String4 w" "free_peer server used w" by (rule NextPeerAddress_Inr)
    then have pre: "PeerAddressInServerPrefix server (String4 w)" by (simp add: free_peer_def)
    have no: "ad \<noteq> coalesce (wa_address p)"
      using True pre w(1) TrimSpace_String4 [of w] by (auto simp: kept_address_def Let_def simp del: TrimSpace_String4)
    show thesis
      using env(1) w(1) kq pre True no
      by (intro that [of "String4 w @ ''/32''"])
        (auto simp: credential_env_def completes_def complete_def coalesce_def InServerPrefix_slash32)
  next
    case False
    then obtain ad0 where ad0: "wa_address p = Some ad0" "clean ad0" "pg_inet ad0 = Some ad0"
      using env(2,3) by (cases "wa_address p") (auto simp: kept_address_def coalesce_def stored_inet_def Let_def PeerAddressInServerPrefix_def parse_peer_def ParseAddr_def ParsePrefix_def cut_last_def split: option.splits if_splits prod.splits)
    then have "kept_address server p = ad0" "PeerAddressInServerPrefix server ad0"
      using False by (auto simp: kept_address_def coalesce_def clean_def Let_def split: if_splits)
    with ad0 ad False kq show thesis
      by (intro that [of ad0]) (auto simp: completes_def complete_def coalesce_def clean_def split: option.splits)
  qed
qed

text \<open>A table in which exactly the accounts \<open>ps\<close> have been completed.\<close>

definition completed ::
  "(string \<Rightarrow> (string \<times> string) option) \<Rightarrow> (string \<Rightarrow> string option) \<Rightarrow> string \<Rightarrow> wg_account list \<Rightarrow> wg_account table \<Rightarrow> wg_account table \<Rightarrow> bool" where
  "completed gen public_of server ps t t' \<longleftrightarrow>
     list_all2 (\<lambda>a a'. if a \<in> set ps then completes gen public_of server a a' else a' = a) t t'"

lemma completed_self:
  "\<forall>p \<in> set ps. completes gen public_of server p p \<Longrightarrow> completed gen public_of server ps t t"
  by (auto simp: completed_def list_all2_conv_all_nth)

lemma completes_id: "completes gen public_of server a a' \<Longrightarrow> wa_id a' = wa_id a"
  unfolding completes_def by (elim conjE) (drule arg_cong [of _ _ wa_id], simp)

lemma completed_ids: "completed gen public_of server ps t t' \<Longrightarrow> map wa_id t' = map wa_id t"
  unfolding completed_def
  by (rule nth_equalityI) (auto simp: list_all2_conv_all_nth dest!: spec completes_id split: if_splits)

lemma update_completed:
  assumes "completes gen public_of server p p'" "p \<in> set t" "distinct (map wa_id t)"
    "t' = update_where (\<lambda>a. wa_id a = wa_id p) (\<lambda>a. a\<lparr>wa_private := wa_private p', wa_public := wa_public p', wa_address := wa_address p'\<rparr>) t"
  shows "completed gen public_of server [p] t t'"
proof -
  have "a = p" if "a \<in> set t" "wa_id a = wa_id p" for a
    using distinct_key_eq [OF assms(3)] that assms(2) by blast
  then show ?thesis using assms(1)
    by (auto simp: completed_def assms(4) update_where_def list_all2_conv_all_nth completes_def dest!: nth_mem)
qed

lemma completed_step:
  assumes "completed gen public_of server [p] t t1" "completed gen public_of server ps t1 t2" "p \<notin> set ps" "\<forall>q \<in> set ps. q \<in> set t"
    "distinct (map wa_id t)"
  shows "completed gen public_of server (p # ps) t t2"
proof -
  have len: "length t = length t1" "length t1 = length t2"
    using assms(1,2) by (auto simp: completed_def dest: list_all2_lengthD)
  show ?thesis unfolding completed_def list_all2_conv_all_nth
  proof (intro conjI allI impI)
    fix i assume i: "i < length t"
    have 1: "if t ! i = p then completes gen public_of server p (t1 ! i) else t1 ! i = t ! i"
      using assms(1) i by (auto simp: completed_def list_all2_conv_all_nth split: if_splits)
    have 2: "if t1 ! i \<in> set ps then completes gen public_of server (t1 ! i) (t2 ! i) else t2 ! i = t1 ! i"
      using assms(2) i len by (auto simp: completed_def list_all2_conv_all_nth)
    have "t1 ! i \<notin> set ps" if "t ! i = p"
    proof
      assume q: "t1 ! i \<in> set ps"
      have "wa_id (t1 ! i) = wa_id p" using 1 that by (auto simp: completes_def dest!: arg_cong [of _ _ wa_id])
      moreover have "t1 ! i \<in> set t" using q assms(4) by blast
      moreover have "p \<in> set t" using that i by (metis nth_mem)
      ultimately have "t1 ! i = p" using distinct_key_eq [OF assms(5)] by blast
      with q assms(3) show False by simp
    qed
    with 1 2 show "if t ! i \<in> set (p # ps) then completes gen public_of server (t ! i) (t2 ! i) else t2 ! i = t ! i"
      by (auto split: if_splits)
  qed (use len in simp)
qed

lemma completed_others: "completed gen public_of server [p] t t' \<Longrightarrow> q \<in> set t \<Longrightarrow> q \<noteq> p \<Longrightarrow> q \<in> set t'"
  by (auto simp: completed_def list_all2_conv_all_nth in_set_conv_nth split: if_splits)

lemma stored_inet_update:
  assumes "stored_inet pg_inet t" "credential_env pg_inet gen public_of" "pg_inet ad = Some ad'"
  shows "stored_inet pg_inet (update_where P (\<lambda>a. a\<lparr>wa_private := x, wa_public := y, wa_address := Some ad'\<rparr>) t)"
proof -
  have "clean ad' \<and> pg_inet ad' = Some ad'" using assms(2,3) unfolding credential_env_def by blast
  with assms(1) show ?thesis by (auto simp: stored_inet_def set_update_where)
qed

lemma ensure_peers_completed:
  assumes "ensure_peers pg_inet gen public_of server ps used t = Inr t'" "credential_env pg_inet gen public_of"
    "stored_inet pg_inet t" "set ps \<subseteq> set t" "distinct ps" "distinct (map wa_id t)"
  shows "completed gen public_of server ps t t' \<and> stored_inet pg_inet t'"
  using assms
proof (induction ps arbitrary: used t)
  case Nil
  then show ?case by (simp add: completed_self)
next
  case (Cons p ps)
  note run = Cons.prems(1) and env = Cons.prems(2) and inet = Cons.prems(3)
  have p: "p \<in> set t" using Cons.prems(4) by simp
  from run obtain k q ad where keys: "peer_keys gen public_of p = Inr (k, q)"
    and ad: "(if kept_address server p = [] then NextPeerAddress server used else Inr (kept_address server p)) = Inr ad"
    by (fastforce split: sum.splits)
  define used' where "used' = (if kept_address server p = [] then used @ [ad] else used)"
  from peer_step [OF env inet p keys ad] obtain ad' where ad': "pg_inet ad = Some ad'"
    and c: "completes gen public_of server p (p\<lparr>wa_private := Some k, wa_public := Some q, wa_address := Some ad'\<rparr>)"
    and skip: "k = coalesce (wa_private p) \<Longrightarrow> q = coalesce (wa_public p) \<Longrightarrow> ad = coalesce (wa_address p) \<Longrightarrow> completes gen public_of server p p"
    by metis
  obtain t1 where 1: "ensure_peers pg_inet gen public_of server ps used' t1 = Inr t'"
    and comp: "completed gen public_of server [p] t t1" and inet1: "stored_inet pg_inet t1"
  proof (cases "k = coalesce (wa_private p) \<and> q = coalesce (wa_public p) \<and> ad = coalesce (wa_address p)")
    case True
    with run keys ad have "ensure_peers pg_inet gen public_of server ps used' t = Inr t'"
      by (simp add: used'_def split: if_splits)
    with that inet True skip show thesis by (simp add: completed_self)
  next
    case False
    define t1 where "t1 = update_where (\<lambda>a. wa_id a = wa_id p)
        (\<lambda>a. a\<lparr>wa_private := Some k, wa_public := Some q, wa_address := Some ad'\<rparr>) t"
    from run keys ad ad' False have "ensure_peers pg_inet gen public_of server ps used' t1 = Inr t'"
      by (simp add: used'_def update_peer_def t1_def split: if_splits)
    moreover have "completed gen public_of server [p] t t1"
      by (rule update_completed [OF c p Cons.prems(6)]) (simp add: t1_def)
    moreover have "stored_inet pg_inet t1" unfolding t1_def by (rule stored_inet_update [OF inet env ad'])
    ultimately show thesis by (rule that)
  qed
  have "set ps \<subseteq> set t1" using completed_others [OF comp] Cons.prems(4,5) by auto
  moreover have "distinct (map wa_id t1)" using completed_ids [OF comp] Cons.prems(6) by simp
  ultimately have IH: "completed gen public_of server ps t1 t' \<and> stored_inet pg_inet t'"
    using Cons.IH [OF 1 env inet1] Cons.prems(5) by simp
  moreover have "completed gen public_of server (p # ps) t t'"
    using completed_step [OF comp] IH Cons.prems(4-6) by auto
  ultimately show ?case by blast
qed

lemma ensure_peers_stable:
  "\<forall>p \<in> set ps. complete server p \<Longrightarrow> ensure_peers pg_inet gen public_of server ps used t = Inr t"
proof (induction ps arbitrary: used)
  case (Cons p ps)
  from Cons.prems complete_keys [of server p gen public_of] complete_address [of server p]
  obtain k q ad where "wa_private p = Some k" "wa_public p = Some q" "peer_keys gen public_of p = Inr (k, q)"
    "wa_address p = Some ad" "kept_address server p = ad" "ad \<noteq> []" by auto
  with Cons show ?case by (simp add: coalesce_def)
qed simp

lemma by_creation_set [simp]: "set (by_creation t) = set t" "distinct (by_creation t) = distinct t"
  by (simp_all add: by_creation_def)

lemma server_body_Commit:
  assumes "server_body pg_inet gen public_of sid db = Commit r db'" "lookup_row ws_id sid (wg_servers db) = Some s"
    "credential_env pg_inet gen public_of" "stored_inet pg_inet (wg_accounts db)" "distinct (map wa_id (wg_accounts db))"
  shows "completed gen public_of (ws_address s) (select (wireguard_peer s) (wg_accounts db)) (wg_accounts db) (wg_accounts db')"
    "wg_servers db' = wg_servers db"
proof -
  let ?ps = "by_creation (select (wireguard_peer s) (wg_accounts db))"
  from assms(1,2) obtain t where t: "ensure_peers pg_inet gen public_of (ws_address s) ?ps (used_addresses (ws_address s) ?ps) (wg_accounts db) = Inr t"
    and db': "db' = db\<lparr>wg_accounts := t\<rparr>"
    by (auto simp: server_body_def Let_def split: sum.splits)
  have "completed gen public_of (ws_address s) ?ps (wg_accounts db) t \<and> stored_inet pg_inet t"
    by (rule ensure_peers_completed [OF t assms(3,4) _ _ assms(5)])
      (use assms(5) in \<open>auto simp: select_def distinct_map\<close>)
  then show "completed gen public_of (ws_address s) (select (wireguard_peer s) (wg_accounts db)) (wg_accounts db) (wg_accounts db')"
    "wg_servers db' = wg_servers db"
    by (simp_all add: db' completed_def)
qed

lemma completes_peer: "completes gen public_of server a a' \<Longrightarrow> wireguard_peer s a' = wireguard_peer s a"
proof -
  assume "completes gen public_of server a a'"
  then have "a' = a\<lparr>wa_private := wa_private a', wa_public := wa_public a', wa_address := wa_address a'\<rparr>"
    by (simp add: completes_def)
  from arg_cong [OF this, of wa_server] arg_cong [OF this, of wa_client] show ?thesis
    by (simp add: wireguard_peer_def)
qed

text \<open>C19. After \<open>EnsureServerPeerCredentials\<close> succeeds, every WireGuard account of the server has a key pair
  and an address of the server's pool.  Usable credentials are kept: an address of the pool stays, a stored
  private key stays, and so does the public key stored with it; a missing public key is the one that belongs to
  the private key, and without a private key both keys are those of one generated pair, so that a public key
  that was not stored with its private key always belongs to it.  Every other account is unchanged, and running
  it again changes nothing.\<close>

theorem ensure_server_credentials:
  assumes "credential_env pg_inet gen public_of" "stored_inet pg_inet (wg_accounts db)" "distinct (map wa_id (wg_accounts db))"
    and "pg_uuid (TrimSpace sid) = Some u" "TrimSpace sid \<noteq> []" "lookup_row ws_id u (wg_servers db) = Some s"
    and pairs: "\<forall>i k p. gen i = Some (k, p) \<longrightarrow> public_of k = Some p"
    and "EnsureServerPeerCredentials fate pg_uuid pg_inet gen public_of sid db = (Inr (), db')"
  shows "list_all2 (\<lambda>a a'. if wireguard_peer s a
       then completes gen public_of (ws_address s) a a'
         \<and> (TrimSpace (coalesce (wa_private a)) = [] \<or> TrimSpace (coalesce (wa_public a)) = [] \<longrightarrow>
              public_of (coalesce (wa_private a')) = Some (coalesce (wa_public a')))
       else a' = a) (wg_accounts db) (wg_accounts db')
    \<and> snd (EnsureServerPeerCredentials fate' pg_uuid pg_inet gen' public_of sid db') = db'"
proof -
  from assms(4,5,8) have run: "run_tx WgDatabaseError fate (server_body pg_inet gen public_of u db) db = (Inr (), db')"
    by (simp add: EnsureServerPeerCredentials_def)
  have "server_body pg_inet gen public_of u db \<noteq> Rollback (Inr ())"
    by (auto simp: server_body_def Let_def split: option.splits sum.splits)
  with run_tx_Inr [OF run] have body: "server_body pg_inet gen public_of u db = Commit (Inr ()) db'" by auto
  note fin = server_body_Commit [OF body assms(6,1-3)]
  have all: "list_all2 (\<lambda>a a'. if wireguard_peer s a then completes gen public_of (ws_address s) a a' else a' = a) (wg_accounts db) (wg_accounts db')"
    using fin(1) unfolding completed_def list_all2_conv_all_nth by (auto simp: select_def)
  have "complete (ws_address s) a'" if "a' \<in> set (select (wireguard_peer s) (wg_accounts db'))" for a'
    using that all completes_peer
    by (fastforce simp: select_def in_set_conv_nth list_all2_conv_all_nth completes_def split: if_splits)
  then have "server_body pg_inet gen' public_of u db' = Commit (Inr ()) db'"
    using assms(6) fin(2) by (simp add: server_body_def Let_def ensure_peers_stable)
  then have "snd (run_tx WgDatabaseError fate' (server_body pg_inet gen' public_of u db') db') = db'"
    by (cases fate') simp_all
  moreover have "public_of (coalesce (wa_private a')) = Some (coalesce (wa_public a'))"
    if "completes gen public_of (ws_address s) a a'" "TrimSpace (coalesce (wa_private a)) = [] \<or> TrimSpace (coalesce (wa_public a)) = []"
    for a a'
    using that pairs by (auto simp: completes_def keys_completed_def Let_def split: if_splits)
  moreover from this have "list_all2 (\<lambda>a a'. if wireguard_peer s a
       then completes gen public_of (ws_address s) a a'
         \<and> (TrimSpace (coalesce (wa_private a)) = [] \<or> TrimSpace (coalesce (wa_public a)) = [] \<longrightarrow>
              public_of (coalesce (wa_private a')) = Some (coalesce (wa_public a')))
       else a' = a) (wg_accounts db) (wg_accounts db')"
    using all by (rule_tac list_all2_mono [OF all]) (simp split: if_splits)
  ultimately show ?thesis using assms(4,5) by (simp add: EnsureServerPeerCredentials_def)
qed

text \<open>C20. Preparing one account never collides with the address of another: if its keys are available
  and unique, the stored addresses are unique and the pool has a free address, the transaction commits.\<close>

theorem account_allocation_conflict_free:
  assumes "credential_env pg_inet gen public_of" "stored_inet pg_inet (wg_accounts db)" "distinct (map wa_id (wg_accounts db))"
    and "lookup_row ws_id sid (wg_servers db) = Some s"
    and "find (\<lambda>a. wa_id a = acct \<and> wa_server a = Some sid) (wg_accounts db) = Some a"
    and "peer_keys gen public_of a = Inr keys" "\<not> public_conflict acct (snd keys) (wg_accounts db)"
    and "\<forall>ad. wa_address a = Some ad \<longrightarrow> \<not> address_conflict acct ad (wg_accounts db)"
    and "free_peer (ws_address s) (used_addresses (ws_address s) (select (\<lambda>b. wa_server b = Some sid \<and> wa_id b \<noteq> acct) (wg_accounts db))) w"
  shows "\<exists>db'. account_body pg_inet gen public_of sid acct db = Commit (Inr ()) db'"
proof -
  let ?srv = "ws_address s" and ?others = "select (\<lambda>b. wa_server b = Some sid \<and> wa_id b \<noteq> acct) (wg_accounts db)"
  define used where "used = used_addresses ?srv (by_creation ?others)"
  have a: "a \<in> set (wg_accounts db)" "wa_id a = acct" "wa_server a = Some sid" using find_SomeD [OF assms(5)] by auto
  have same: "set used = set (used_addresses ?srv ?others)" by (simp add: used_def used_addresses_def)
  have parsed: "set (List.map_filter parse_peer xs) = {v. \<exists>x \<in> set xs. parse_peer x = Some v}" for xs
    by (induction xs) (auto simp: List.map_filter_simps split: option.splits)
  have free: "free_peer ?srv used w" using assms(9) by (simp add: free_peer_def parsed same)
  obtain ad where ad: "(if kept_address ?srv a = [] then NextPeerAddress ?srv used else Inr (kept_address ?srv a)) = Inr ad"
    using free NextPeerAddress_Inl [of ?srv used]
    by (cases "kept_address ?srv a = []"; cases "NextPeerAddress ?srv used") auto
  obtain k q where kq: "keys = (k, q)" by (cases keys)
  obtain ad' where ad': "pg_inet ad = Some ad'"
    and c: "completes gen public_of ?srv a (a\<lparr>wa_private := Some k, wa_public := Some q, wa_address := Some ad'\<rparr>)"
    using peer_step [OF assms(1,2) a(1) assms(6) [unfolded kq] ad] by metis
  have "\<not> address_conflict acct ad' (wg_accounts db)"
  proof (cases "kept_address ?srv a = []")
    case True
    with ad obtain v where v: "ad = String4 v" "free_peer ?srv used v" by (auto elim: NextPeerAddress_Inr)
    then have "ad' = String4 v @ ''/32''" using ad' assms(1) by (simp add: credential_env_def)
    then have pre: "PeerAddressInServerPrefix ?srv ad'" "ad' \<noteq> []" "parse_peer ad' = Some (V4 v)"
      using v(2) by (simp_all add: free_peer_def InServerPrefix_slash32 slash32)
    then have "ad' \<notin> set used" using v(2) unfolding free_peer_def parsed by blast
    then have "wa_address b \<noteq> Some ad'" if "b \<in> set ?others" for b
      using that pre(1,2) unfolding same by (auto simp: used_addresses_def coalesce_def image_iff)
    moreover have "wa_server a' = Some sid" if "a' \<in> set (wg_accounts db)" "wa_id a' = acct" for a'
      using distinct_key_eq [OF assms(3) that(1) a(1)] that(2) a(2,3) by simp
    ultimately show ?thesis by (auto simp: address_conflict_def select_def)
  next
    case False
    with c have "wa_address a = Some ad'" by (simp add: completes_def)
    with assms(8) show ?thesis by blast
  qed
  with assms(7) show ?thesis
    by (simp add: account_body_def Let_def used_def [symmetric] ad assms(4-6) update_peer_def ad' del: if_split)
qed

section \<open>An allocation that collides\<close>

definition wy_server :: wg_server where
  "wy_server = \<lparr>ws_id = ''s'', ws_address = String4 0x0A420001 @ ''/24'', ws_protocol = ''wireguard''\<rparr>"

text \<open>The first account had WireGuard once and now uses VLESS; it keeps its address 10.66.0.2.\<close>

definition wy_db :: wg_db where
  "wy_db = \<lparr>wg_servers = [wy_server],
     wg_accounts =
       [\<lparr>wa_id = ''a'', wa_server = Some ''s'', wa_private = Some ''ka'', wa_public = Some ''pa'',
         wa_address = Some (String4 0x0A420002 @ ''/32''), wa_client = Some ''vless'', wa_created = 1\<rparr>,
        \<lparr>wa_id = ''b'', wa_server = Some ''s'', wa_private = None, wa_public = None, wa_address = None,
         wa_client = None, wa_created = 2\<rparr>]\<rparr>"

definition wy_inet :: "string \<Rightarrow> string option" where
  "wy_inet s =
     (case parseIPv4 s of
        Some w \<Rightarrow> Some (String4 w @ ''/32'')
      | None \<Rightarrow> (case ParsePrefix s of Some (V4 w, n) \<Rightarrow> if n = 32 then Some (String4 w @ ''/32'') else None | _ \<Rightarrow> None))"

lemma wy_inet_String4 [simp]: "wy_inet (String4 w) = Some (String4 w @ ''/32'')"
  by (simp add: wy_inet_def parseIPv4_String4)

lemma wy_inet_slash32 [simp]: "wy_inet (String4 w @ ''/32'') = Some (String4 w @ ''/32'')"
proof -
  have "ParsePrefix (String4 w @ CHR ''/'' # ''32'') = Some (V4 w, nat (decimal ''32''))"
    by (rule ParsePrefix_String4) (simp_all add: is_digit_def decimal_def)
  then show ?thesis by (simp add: wy_inet_def parseIPv4_slash decimal_def)
qed

definition wy_gen :: "string \<Rightarrow> (string \<times> string) option" where
  "wy_gen i = (if i = ''b'' then Some (''kb'', ''pb'') else None)"

lemma wy_trim [simp]: "TrimSpace ''s'' = ''s''" "TrimSpace ''kb'' = ''kb''" "TrimSpace ''pb'' = ''pb''"
  by (rule TrimSpace_clean, simp add: space_byte_def)+

definition wy_public :: "string \<Rightarrow> string option" where
  "wy_public k = (if k = ''kb'' then Some ''pb'' else None)"

lemma wy_env: "credential_env wy_inet wy_gen wy_public"
proof -
  have "\<exists>w. s' = String4 w @ ''/32''" if "wy_inet s = Some s'" for s s'
    using that by (auto simp: wy_inet_def split: option.splits prod.splits addr.splits if_splits)
  then have "clean s' \<and> wy_inet s' = Some s'" if "wy_inet s = Some s'" for s s'
    using that by fastforce
  then show ?thesis by (auto simp: credential_env_def wy_gen_def wy_public_def clean_def)
qed

lemma wy_server_prefix: "ParsePrefix (TrimSpace (ws_address wy_server)) = Some (V4 0x0A420001, 24)"
proof -
  have "TrimSpace (String4 0x0A420001 @ ''/24'') = String4 0x0A420001 @ ''/24''"
    by (rule TrimSpace_clean) (auto dest!: String4_chars simp: is_digit_def space_byte_def)
  moreover have "ParsePrefix (String4 0x0A420001 @ CHR ''/'' # ''24'') = Some (V4 0x0A420001, nat (decimal ''24''))"
    by (rule ParsePrefix_String4) (simp_all add: is_digit_def decimal_def)
  ultimately show ?thesis by (simp add: wy_server_def decimal_def)
qed

lemma wy_next:
  "NextPeerAddress (ws_address wy_server) [] = Inr (String4 0x0A420002)"
  by (simp add: NextPeerAddress_def wy_server_prefix Masked_def host_mask_def lastAddress_def mask_eq_exp_minus_1
      next_peer.simps List.map_filter_simps)

lemma wy_third: "free_peer (ws_address wy_server) [String4 0x0A420002 @ ''/32''] 0x0A420003"
  by (simp add: free_peer_def PeerAddressInServerPrefix_def wy_server_prefix Masked_def host_mask_def lastAddress_def
      mask_eq_exp_minus_1 List.map_filter_simps slash32 Contains_def)

lemmas wy_simps = EnsureServerPeerCredentials_def server_body_def lookup_row_def select_def by_creation_def wireguard_peer_def
  used_addresses_def peer_keys_def kept_address_def coalesce_def update_peer_def public_conflict_def address_conflict_def

text \<open>C21. \<open>EnsureServerPeerCredentials\<close> collects the used addresses of the WireGuard accounts only, while the
  unique index covers every account of the server: an account that left WireGuard keeps its address,
  the next allocation picks that address, and the transaction fails although the pool has free
  addresses.\<close>

theorem server_allocation_collides:
  "EnsureServerPeerCredentials Committed Some wy_inet wy_gen (\<lambda>k. None) ''s'' wy_db = (Inl WgDatabaseError, wy_db)
   \<and> free_peer (ws_address wy_server) (map (\<lambda>a. coalesce (wa_address a)) (wg_accounts wy_db)) 0x0A420003"
proof
  have "\<not> PeerAddressInServerPrefix (ws_address wy_server) []"
    by (simp add: PeerAddressInServerPrefix_def wy_server_prefix)
  then show "EnsureServerPeerCredentials Committed Some wy_inet wy_gen (\<lambda>k. None) ''s'' wy_db = (Inl WgDatabaseError, wy_db)"
    using wy_next by (simp add: wy_simps wy_db_def wy_server_def wy_gen_def)
  show "free_peer (ws_address wy_server) (map (\<lambda>a. coalesce (wa_address a)) (wg_accounts wy_db)) 0x0A420003"
    using wy_third by (simp add: wy_db_def coalesce_def free_peer_def List.map_filter_simps slash32)
qed

section \<open>Witnesses\<close>

theorem next_peer_address_exact_witness:
  "\<exists>a. String4 0x0A420002 = String4 a \<and> free_peer (ws_address wy_server) [] a \<and> (\<forall>b < a. \<not> free_peer (ws_address wy_server) [] b)"
  using next_peer_address_exact [of "ws_address wy_server" "[]"] wy_next by blast

text \<open>The same server without the first account.\<close>

definition wy_db1 :: wg_db where
  "wy_db1 = wy_db\<lparr>wg_accounts := tl (wg_accounts wy_db)\<rparr>"

lemma wy_db1_facts:
  "stored_inet wy_inet (wg_accounts wy_db1)" "distinct (map wa_id (wg_accounts wy_db1))"
  "lookup_row ws_id ''s'' (wg_servers wy_db1) = Some wy_server" "\<not> PeerAddressInServerPrefix (ws_address wy_server) []"
  by (simp_all add: wy_db1_def wy_db_def stored_inet_def lookup_row_def wy_server_def [unfolded wy_server_def]
      PeerAddressInServerPrefix_def wy_server_prefix) (simp add: wy_server_def)

theorem ensure_server_credentials_witness:
  "\<exists>db'. EnsureServerPeerCredentials Committed Some wy_inet wy_gen wy_public ''s'' wy_db1 = (Inr (), db')
     \<and> map wa_address (wg_accounts db') = [Some (String4 0x0A420002 @ ''/32'')]
     \<and> snd (EnsureServerPeerCredentials Committed Some wy_inet wy_gen wy_public ''s'' db') = db'"
proof -
  define db' where "db' = wy_db1\<lparr>wg_accounts := map (\<lambda>a. a\<lparr>wa_private := Some ''kb'', wa_public := Some ''pb'',
    wa_address := Some (String4 0x0A420002 @ ''/32'')\<rparr>) (wg_accounts wy_db1)\<rparr>"
  have run: "EnsureServerPeerCredentials Committed Some wy_inet wy_gen wy_public ''s'' wy_db1 = (Inr (), db')"
    using wy_next wy_db1_facts(4)
    by (simp add: wy_simps db'_def wy_db1_def wy_db_def wy_gen_def update_where_def wy_server_def)
  have pairs: "\<forall>i k p. wy_gen i = Some (k, p) \<longrightarrow> wy_public k = Some p" by (simp add: wy_gen_def wy_public_def)
  have ad: "map wa_address (wg_accounts db') = [Some (String4 0x0A420002 @ ''/32'')]"
    by (simp add: db'_def wy_db1_def wy_db_def)
  have "snd (EnsureServerPeerCredentials Committed Some wy_inet wy_gen wy_public ''s'' db') = db'"
    using ensure_server_credentials [OF wy_env wy_db1_facts(1,2) _ _ wy_db1_facts(3) pairs run, of Committed wy_gen] by simp
  with run ad show ?thesis by (intro exI [of _ db'] conjI)
qed

theorem account_allocation_conflict_free_witness:
  "\<exists>db'. account_body wy_inet wy_gen wy_public ''s'' ''b'' wy_db = Commit (Inr ()) db'"
proof (rule account_allocation_conflict_free [OF wy_env])
  show "stored_inet wy_inet (wg_accounts wy_db)" "distinct (map wa_id (wg_accounts wy_db))"
    by (simp_all add: wy_db_def stored_inet_def)
  show "lookup_row ws_id ''s'' (wg_servers wy_db) = Some wy_server" by (simp add: wy_db_def lookup_row_def wy_server_def)
  show "find (\<lambda>a. wa_id a = ''b'' \<and> wa_server a = Some ''s'') (wg_accounts wy_db) = Some (wg_accounts wy_db ! 1)"
    "peer_keys wy_gen wy_public (wg_accounts wy_db ! 1) = Inr (''kb'', ''pb'')"
    "\<forall>ad. wa_address (wg_accounts wy_db ! 1) = Some ad \<longrightarrow> \<not> address_conflict ''b'' ad (wg_accounts wy_db)"
    "\<not> public_conflict ''b'' (snd (''kb'', ''pb'')) (wg_accounts wy_db)"
    by (simp_all add: wy_db_def peer_keys_def coalesce_def wy_gen_def public_conflict_def)
  have "PeerAddressInServerPrefix (ws_address wy_server) (String4 0x0A420002)"
    using NextPeerAddress_Inr [OF wy_next] by (metis free_peer_def wy_next parse_peer_String4 option.inject)
  then have "used_addresses (ws_address wy_server) (select (\<lambda>b. wa_server b = Some ''s'' \<and> wa_id b \<noteq> ''b'') (wg_accounts wy_db))
    = [String4 0x0A420002 @ ''/32'']"
    by (simp add: used_addresses_def select_def wy_db_def coalesce_def InServerPrefix_slash32)
  with wy_third show "free_peer (ws_address wy_server) (used_addresses (ws_address wy_server)
      (select (\<lambda>b. wa_server b = Some ''s'' \<and> wa_id b \<noteq> ''b'') (wg_accounts wy_db))) 0x0A420003" by simp
qed

end
