(* ===== verification/Node_Groups.thy ===== *)
theory Node_Groups
  imports Complex_Main Wireguard "HOL-Library.Multiset"
begin

text \<open>
  Node groups and automatic selection: \<open>backend/internal/nodegroups\<close> (\<open>candidate.go\<close>, \<open>selector.go\<close>,
  \<open>protocol_candidates.go\<close>, \<open>repository.go\<close>) and \<open>backend/internal/vpnaccounts/automatic_selection.go\<close>,
  with the deployment roles of \<open>backend/internal/platform/contracts.go\<close>.

  Parameters: \<open>hash64\<close>, the first eight bytes of SHA-256; \<open>scorer\<close>, the floating-point expression
  \<open>-log(unit)/weight\<close> of \<open>weightedRendezvousScore\<close> (never NaN, hence in a linear order); \<open>name_key\<close>,
  \<open>lower(name)\<close> in the order of the database; \<open>start\<close>, the operation \<open>transfers.StartInTransaction\<close>.  The load
  average is a rational number: every finite double is one, and the rounding of the quotient does not
  change its comparison with 1.
\<close>

section \<open>Deployment roles and protocols\<close>

datatype role = Role_management | Role_vpn | Role_hybrid

definition ParseDeploymentRole :: "string \<Rightarrow> role \<Rightarrow> role option" where
  "ParseDeploymentRole v d =
     (let r = ToLower (TrimSpace v) in
      if r = [] then Some d
      else if r = ''management'' then Some Role_management
      else if r = ''vpn'' then Some Role_vpn
      else if r = ''hybrid'' then Some Role_hybrid else None)"

definition EffectiveDeploymentRole :: "string \<Rightarrow> role option" where
  "EffectiveDeploymentRole v = ParseDeploymentRole v Role_vpn"

definition HostsVPNPlane :: "role \<Rightarrow> bool" where
  "HostsVPNPlane r \<longleftrightarrow> r = Role_vpn \<or> r = Role_hybrid"

definition ProtocolSupportsDeploymentRole :: "string \<Rightarrow> role option \<Rightarrow> bool" where
  "ProtocolSupportsDeploymentRole protocol r =
     (case r of
        None \<Rightarrow> False
      | Some r' \<Rightarrow> HostsVPNPlane r'
          \<and> ToLower (TrimSpace protocol) \<in> {''vless'', ''wireguard'', ''hysteria2'', ''shadowsocks'', ''mtproto''})"

definition protocolCore :: "string \<Rightarrow> string" where
  "protocolCore protocol =
     (let p = ToLower (TrimSpace protocol) in
      if p = ''vless'' \<or> p = ''shadowsocks'' then ''sing-box''
      else if p = ''wireguard'' then ''wireguard''
      else if p = ''hysteria2'' then ''hysteria''
      else if p = ''mtproto'' then ''mtg'' else [])"

section \<open>Candidates\<close>

datatype cand_health = Unset_health | Ready | Degraded | Unavailable

datatype signal = Member_disabled | Not_vpn_node | Node_not_active | Agent_missing | Agent_not_online
  | Heartbeat_stale | Topology_unsupported | Protocol_unsupported | Runtime_not_reported
  | Runtime_not_running | High_load

record group_candidate =
  gc_server :: string
  gc_name :: string
  gc_protocol :: string
  gc_priority :: int
  gc_weight :: int
  gc_enabled :: bool
  gc_node :: string
  gc_agent :: string
  gc_seen :: "time option"
  gc_load1 :: "rat option"
  gc_cpus :: "int option"
  gc_load_per_cpu :: "rat option"
  gc_supported :: bool
  gc_topology :: "bool option"
  gc_runtime :: string
  gc_eligible :: bool
  gc_health :: cand_health
  gc_signals :: "signal list"

definition candidate_signals :: "group_candidate \<Rightarrow> string \<Rightarrow> time \<Rightarrow> signal list" where
  "candidate_signals c dep now =
     (if \<not> gc_enabled c then [Member_disabled] else [])
     @ (if dep \<noteq> ''vpn'' \<and> dep \<noteq> ''hybrid'' then [Not_vpn_node] else [])
     @ (if gc_node c \<noteq> ''active'' then [Node_not_active] else [])
     @ (if gc_agent c = [] then [Agent_missing] else if gc_agent c \<noteq> ''online'' then [Agent_not_online] else [])
     @ (if (case gc_seen c of None \<Rightarrow> True | Some t \<Rightarrow> minutes 2 < now - t) then [Heartbeat_stale] else [])
     @ (if gc_topology c = Some False then [Topology_unsupported] else [])
     @ (if \<not> gc_supported c then [Protocol_unsupported] else [])
     @ (if gc_runtime c = [] then [Runtime_not_reported]
        else if gc_runtime c \<noteq> ''running'' then [Runtime_not_running] else [])"

definition evaluateCandidate :: "group_candidate \<Rightarrow> string \<Rightarrow> time \<Rightarrow> group_candidate" where
  "evaluateCandidate c0 dep now =
     (let c = c0\<lparr>gc_signals := candidate_signals c0 dep now, gc_eligible := (candidate_signals c0 dep now = [])\<rparr> in
      if \<not> gc_eligible c then c\<lparr>gc_health := Unavailable\<rparr>
      else
        let c1 = c\<lparr>gc_health := Ready\<rparr> in
        case (gc_load1 c, gc_cpus c) of
          (Some l, Some n) \<Rightarrow>
            if 0 < n then
              let c2 = c1\<lparr>gc_load_per_cpu := Some (l / of_int n)\<rparr> in
              if 1 \<le> l / of_int n then c2\<lparr>gc_health := Degraded, gc_signals := gc_signals c2 @ [High_load]\<rparr> else c2
            else c1
        | _ \<Rightarrow> c1)"

section \<open>Selection\<close>

datatype reason = Reason_priority | Reason_weighted | Reason_ready | Reason_degraded
  | Reason_group_required | Reason_no_eligible

definition weightedRendezvousScore ::
  "(string \<Rightarrow> nat) \<Rightarrow> (nat \<Rightarrow> int \<Rightarrow> 's::linorder) \<Rightarrow> string \<Rightarrow> string \<Rightarrow> int \<Rightarrow> 's" where
  "weightedRendezvousScore hash64 scorer account server weight =
     scorer (hash64 (account @ [char_of (0 :: nat)] @ server)) (if weight < 1 then 1 else weight)"

text \<open>The scan for the best score, and the sort by priority and server.\<close>

fun best_scan :: "(group_candidate \<Rightarrow> 's::linorder) \<Rightarrow> group_candidate \<Rightarrow> 's \<Rightarrow> group_candidate list \<Rightarrow> group_candidate" where
  "best_scan score selected best [] = selected"
| "best_scan score selected best (c # cs) =
     (if score c < best \<or> (score c = best \<and> gc_server c < gc_server selected)
      then best_scan score c (score c) cs else best_scan score selected best cs)"

definition SelectCandidate ::
  "(string \<Rightarrow> nat) \<Rightarrow> (nat \<Rightarrow> int \<Rightarrow> 's::linorder) \<Rightarrow> string \<Rightarrow> string \<Rightarrow> group_candidate list \<Rightarrow> bool
     \<Rightarrow> (group_candidate \<times> reason list) option" where
  "SelectCandidate hash64 scorer account strategy cs allowDegraded =
     (let ready = filter (\<lambda>c. gc_eligible c \<and> gc_health c = Ready) cs;
          degraded = filter (\<lambda>c. gc_eligible c \<and> gc_health c = Degraded) cs;
          (pool, r) = (if ready = [] \<and> allowDegraded then (degraded, Reason_degraded) else (ready, Reason_ready)) in
      case pool of
        [] \<Rightarrow> None
      | first # others \<Rightarrow>
          if strategy = ''weighted'' then
            let score = (\<lambda>c. weightedRendezvousScore hash64 scorer account (gc_server c) (gc_weight c)) in
            Some (best_scan score first (score first) others, [r, Reason_weighted])
          else Some (hd (sort_key (\<lambda>c. (gc_priority c, gc_server c)) pool), [r, Reason_priority]))"

section \<open>Tables\<close>

text \<open>The capabilities of an Agent as \<open>capabilityEvidence\<close> decodes them; \<open>None\<close> when the JSON does not decode.\<close>

record caps =
  cap_schema :: int
  cap_adapters :: "string list"
  cap_cores :: "(string \<times> string) list"

record ng_server =
  sv_id :: string
  sv_name :: string
  sv_protocol :: string
  sv_status :: string
  sv_role :: string
  sv_wireguard :: string
  sv_deployed :: "string list"

record ng_agent =
  na_server :: string
  na_status :: string
  na_seen :: "time option"
  na_caps :: "caps option"
  na_load1 :: "rat option"
  na_cpus :: "int option"

record ng_group =
  gr_id :: string
  gr_name :: string
  gr_description :: "string option"
  gr_strategy :: string

record ng_member =
  m_group :: string
  m_server :: string
  m_priority :: int
  m_weight :: int
  m_enabled :: bool

record ng_account =
  va_id :: string
  va_status :: string
  va_server :: "string option"
  va_wireguard :: "string option"
  va_group :: "string option"
  va_client :: "string option"
  va_updated :: time

record ng_policy =
  po_account :: string
  po_enabled :: bool
  po_degraded :: bool
  po_cooldown :: int
  po_last_at :: "time option"
  po_last_server :: "string option"

record sel_db =
  ng_servers :: "ng_server table"
  ng_agents :: "ng_agent table"
  ng_groups :: "ng_group table"
  ng_members :: "ng_member table"
  ng_accounts :: "ng_account table"
  ng_policies :: "ng_policy table"

datatype sel_error = Sel_NoRows | ErrNodeGroupNameExists | ErrNodeGroupAssigned | ErrServerNotVPNNode
  | ErrSelectionDisabled | ErrSelectionCooldown | ErrSelectionNoTarget | ErrSelectionStatus
  | ErrSelectionChanged | ErrSelectionGroup | Sel_Pool wg_error | Sel_Transfer string | Sel_DatabaseError

section \<open>Reading the candidates of a group\<close>

definition capabilityEvidence :: "caps option \<Rightarrow> string \<Rightarrow> bool \<times> string" where
  "capabilityEvidence data protocol =
     (case data of
        None \<Rightarrow> (False, [])
      | Some p \<Rightarrow>
          if cap_schema p \<noteq> 1 then (False, [])
          else
            (\<exists>a \<in> set (cap_adapters p). EqualFold (TrimSpace a) (TrimSpace protocol),
             (case find (\<lambda>(ty, st). EqualFold (TrimSpace ty) (protocolCore protocol)) (cap_cores p) of
                None \<Rightarrow> []
              | Some (ty, st) \<Rightarrow> ToLower (TrimSpace st))))"

definition candidate_row :: "(string \<Rightarrow> string) \<Rightarrow> ('z sel_db_scheme) \<Rightarrow> ng_member \<Rightarrow> ng_server \<Rightarrow> group_candidate" where
  "candidate_row protocol_of db m s =
     (let a = lookup_row na_server (sv_id s) (ng_agents db);
          protocol = protocol_of (sv_protocol s);
          ev = capabilityEvidence (case a of None \<Rightarrow> Some \<lparr>cap_schema = 0, cap_adapters = [], cap_cores = []\<rparr> | Some r \<Rightarrow> na_caps r) protocol in
      \<lparr>gc_server = sv_id s, gc_name = sv_name s, gc_protocol = protocol,
       gc_priority = m_priority m, gc_weight = m_weight m, gc_enabled = m_enabled m, gc_node = sv_status s,
       gc_agent = (case a of None \<Rightarrow> [] | Some r \<Rightarrow> na_status r),
       gc_seen = (case a of None \<Rightarrow> None | Some r \<Rightarrow> na_seen r),
       gc_load1 = (case a of None \<Rightarrow> None | Some r \<Rightarrow> na_load1 r),
       gc_cpus = (case a of None \<Rightarrow> None | Some r \<Rightarrow> na_cpus r),
       gc_load_per_cpu = None, gc_supported = fst ev, gc_topology = None, gc_runtime = snd ev,
       gc_eligible = False, gc_health = Unset_health, gc_signals = []\<rparr>)"

text \<open>The join of the members of a group with their servers, in the order of the query.\<close>

definition group_rows :: "(string \<Rightarrow> string) \<Rightarrow> string \<Rightarrow> ('z sel_db_scheme) \<Rightarrow> (ng_member \<times> ng_server) list" where
  "group_rows name_key gid db =
     sort_key (\<lambda>(m, s). (m_priority m, name_key (sv_name s), sv_id s))
       (concat (map (\<lambda>m. map (Pair m) (select (\<lambda>s. sv_id s = m_server m) (ng_servers db)))
          (select (\<lambda>m. m_group m = gid) (ng_members db))))"

definition Candidates ::
  "(string \<Rightarrow> string) \<Rightarrow> string \<Rightarrow> time \<Rightarrow> ('z sel_db_scheme) \<Rightarrow> sel_error + string \<times> group_candidate list" where
  "Candidates name_key gid now db =
     (case lookup_row gr_id gid (ng_groups db) of
        None \<Rightarrow> Inl Sel_NoRows
      | Some g \<Rightarrow>
          Inr (gr_strategy g,
               map (\<lambda>(m, s). evaluateCandidate (candidate_row (\<lambda>p. p) db m s) (sv_role s) now) (group_rows name_key gid db)))"

definition CandidatesForProtocol ::
  "(string \<Rightarrow> string) \<Rightarrow> string \<Rightarrow> string \<Rightarrow> time \<Rightarrow> ('z sel_db_scheme) \<Rightarrow> sel_error + string \<times> group_candidate list" where
  "CandidatesForProtocol name_key gid protocol0 now db =
     (let protocol = ToLower (TrimSpace protocol0) in
      if protocol = [] \<or> protocol = ''auto'' then Candidates name_key gid now db
      else case lookup_row gr_id gid (ng_groups db) of
        None \<Rightarrow> Inl Sel_NoRows
      | Some g \<Rightarrow>
          Inr (gr_strategy g,
               map (\<lambda>(m, s). evaluateCandidate
                     ((candidate_row (\<lambda>_. protocol) db m s)\<lparr>gc_topology :=
                        Some (ProtocolSupportsDeploymentRole protocol (EffectiveDeploymentRole (sv_role s)))\<rparr>)
                     (sv_role s) now) (group_rows name_key gid db)))"

section \<open>Groups and members\<close>

text \<open>\<open>name_ci\<close> is the expression of the unique index, \<open>lower(btrim(name))\<close>; \<open>row_ok\<close> the table checks on name
  and description.\<close>

definition group_write ::
  "(string \<Rightarrow> string) \<Rightarrow> (ng_group \<Rightarrow> bool) \<Rightarrow> ng_group \<Rightarrow> ('z sel_db_scheme) \<Rightarrow> sel_error option" where
  "group_write name_ci row_ok g db =
     (if \<not> row_ok g \<or> gr_strategy g \<notin> {''priority'', ''weighted''} then Some Sel_DatabaseError
      else if \<exists>h \<in> set (ng_groups db). gr_id h \<noteq> gr_id g \<and> name_ci (gr_name h) = name_ci (gr_name g)
      then Some ErrNodeGroupNameExists else None)"

definition null_if_empty :: "string \<Rightarrow> string option" where
  "null_if_empty s = (if s = [] then None else Some s)"

definition CreateNodeGroup ::
  "(string \<Rightarrow> string) \<Rightarrow> (ng_group \<Rightarrow> bool) \<Rightarrow> string \<Rightarrow> string \<Rightarrow> string \<Rightarrow> string \<Rightarrow> ('z sel_db_scheme)
     \<Rightarrow> (sel_error + ng_group) \<times> ('z sel_db_scheme)" where
  "CreateNodeGroup name_ci row_ok fresh name desc strategy db =
     (let g = \<lparr>gr_id = fresh, gr_name = name, gr_description = null_if_empty desc, gr_strategy = strategy\<rparr> in
      case group_write name_ci row_ok g db of
        Some e \<Rightarrow> (Inl e, db)
      | None \<Rightarrow> (Inr g, db\<lparr>ng_groups := ng_groups db @ [g]\<rparr>))"

definition UpdateNodeGroup ::
  "(string \<Rightarrow> string) \<Rightarrow> (ng_group \<Rightarrow> bool) \<Rightarrow> (string \<Rightarrow> string option) \<Rightarrow> string \<Rightarrow> string option \<Rightarrow> string option
     \<Rightarrow> string option \<Rightarrow> ('z sel_db_scheme) \<Rightarrow> (sel_error + ng_group) \<times> ('z sel_db_scheme)" where
  "UpdateNodeGroup name_ci row_ok pg_uuid gid0 name desc strategy db =
     (case pg_uuid gid0 of
        None \<Rightarrow> (Inl Sel_DatabaseError, db)
      | Some gid \<Rightarrow>
          (case lookup_row gr_id gid (ng_groups db) of
             None \<Rightarrow> (Inl Sel_NoRows, db)
           | Some g0 \<Rightarrow>
               let g = g0\<lparr>gr_name := (case name of None \<Rightarrow> gr_name g0 | Some n \<Rightarrow> n),
                          gr_description := (case desc of None \<Rightarrow> gr_description g0 | Some d \<Rightarrow> null_if_empty d),
                          gr_strategy := (case strategy of None \<Rightarrow> gr_strategy g0 | Some v \<Rightarrow> v)\<rparr> in
               (case group_write name_ci row_ok g db of
                  Some e \<Rightarrow> (Inl e, db)
                | None \<Rightarrow> (Inr g, db\<lparr>ng_groups := update_where (\<lambda>h. gr_id h = gid) (\<lambda>_. g) (ng_groups db)\<rparr>))))"

text \<open>Members of a deleted group go with it; a group assigned to an account cannot be deleted.\<close>

definition DeleteNodeGroup ::
  "(string \<Rightarrow> string option) \<Rightarrow> string \<Rightarrow> ('z sel_db_scheme) \<Rightarrow> (sel_error + unit) \<times> ('z sel_db_scheme)" where
  "DeleteNodeGroup pg_uuid gid0 db =
     (case pg_uuid gid0 of
        None \<Rightarrow> (Inl Sel_DatabaseError, db)
      | Some gid \<Rightarrow>
          if gid \<notin> gr_id ` set (ng_groups db) then (Inl Sel_NoRows, db)
          else if \<exists>a \<in> set (ng_accounts db). va_group a = Some gid then (Inl ErrNodeGroupAssigned, db)
          else (Inr (), db\<lparr>ng_groups := filter (\<lambda>g. gr_id g \<noteq> gid) (ng_groups db),
                           ng_members := filter (\<lambda>m. m_group m \<noteq> gid) (ng_members db)\<rparr>))"

definition UpsertMember ::
  "(string \<Rightarrow> string option) \<Rightarrow> string \<Rightarrow> string \<Rightarrow> int \<Rightarrow> int \<Rightarrow> bool \<Rightarrow> ('z sel_db_scheme)
     \<Rightarrow> (sel_error + ng_member) \<times> ('z sel_db_scheme)" where
  "UpsertMember pg_uuid gid0 sid0 priority weight enabled db =
     (case pg_uuid sid0 of
        None \<Rightarrow> (Inl Sel_DatabaseError, db)
      | Some sid \<Rightarrow>
          (case lookup_row sv_id sid (ng_servers db) of
             None \<Rightarrow> (Inl Sel_NoRows, db)
           | Some s \<Rightarrow>
               if sv_role s \<noteq> ''vpn'' \<and> sv_role s \<noteq> ''hybrid'' then (Inl ErrServerNotVPNNode, db)
               else (case pg_uuid gid0 of
                       None \<Rightarrow> (Inl Sel_DatabaseError, db)
                     | Some gid \<Rightarrow>
                         if gid \<notin> gr_id ` set (ng_groups db) then (Inl Sel_NoRows, db)
                         else if priority < 0 \<or> 10000 < priority \<or> weight < 1 \<or> 1000 < weight then (Inl Sel_DatabaseError, db)
                         else
                           let row = \<lparr>m_group = gid, m_server = sid, m_priority = priority, m_weight = weight, m_enabled = enabled\<rparr>;
                               here = (\<lambda>m. m_group m = gid \<and> m_server m = sid) in
                           (Inr row,
                            db\<lparr>ng_members := (if \<exists>m \<in> set (ng_members db). here m then update_where here (\<lambda>_. row) (ng_members db)
                                               else ng_members db @ [row])\<rparr>))))"

definition DeleteMember ::
  "(string \<Rightarrow> string option) \<Rightarrow> string \<Rightarrow> string \<Rightarrow> ('z sel_db_scheme) \<Rightarrow> (sel_error + unit) \<times> ('z sel_db_scheme)" where
  "DeleteMember pg_uuid gid0 sid0 db =
     (case (pg_uuid gid0, pg_uuid sid0) of
        (Some gid, Some sid) \<Rightarrow>
          let here = (\<lambda>m. m_group m = gid \<and> m_server m = sid) in
          if \<not> (\<exists>m \<in> set (ng_members db). here m) then (Inl Sel_NoRows, db)
          else (Inr (), db\<lparr>ng_members := filter (\<lambda>m. \<not> here m) (ng_members db)\<rparr>)
      | _ \<Rightarrow> (Inl Sel_DatabaseError, db))"

section \<open>Automatic selection\<close>

datatype selection_status = Selected | Current | No_eligible | Group_required | Cooldown

record decision =
  de_account :: string
  de_group :: string
  de_strategy :: string
  de_status :: selection_status
  de_current :: string
  de_selected :: "group_candidate option"
  de_reasons :: "reason list"
  de_eligible :: nat
  de_at :: time
  de_blocked :: "time option"
  de_can_apply :: bool

record selection_context =
  sc_account :: string
  sc_status :: string
  sc_current :: string
  sc_group :: string
  sc_preference :: string
  sc_enabled :: bool
  sc_degraded :: bool
  sc_cooldown :: int
  sc_last_at :: "time option"

text \<open>\<open>automaticSelectionContext\<close> and \<open>lockedAutomaticSelectionContext\<close> read the same columns.\<close>

definition automaticSelectionContext :: "string \<Rightarrow> ('z sel_db_scheme) \<Rightarrow> selection_context option" where
  "automaticSelectionContext acct db =
     (case lookup_row va_id acct (ng_accounts db) of
        None \<Rightarrow> None
      | Some a \<Rightarrow>
          let p = lookup_row po_account acct (ng_policies db) in
          Some \<lparr>sc_account = va_id a, sc_status = va_status a, sc_current = coalesce (va_server a),
                sc_group = coalesce (va_group a),
                sc_preference = (case va_client a of None \<Rightarrow> ''auto'' | Some c \<Rightarrow> c),
                sc_enabled = (case p of None \<Rightarrow> False | Some r \<Rightarrow> po_enabled r),
                sc_degraded = (case p of None \<Rightarrow> False | Some r \<Rightarrow> po_degraded r),
                sc_cooldown = (case p of None \<Rightarrow> 300 | Some r \<Rightarrow> po_cooldown r),
                sc_last_at = (case p of None \<Rightarrow> None | Some r \<Rightarrow> po_last_at r)\<rparr>)"

definition automaticSelectionRequiredProtocol :: "string \<Rightarrow> string" where
  "automaticSelectionRequiredProtocol pref =
     (let p = ToLower (TrimSpace pref) in if p = [] \<or> p = ''auto'' then [] else p)"

definition admissible :: "bool \<Rightarrow> group_candidate \<Rightarrow> bool" where
  "admissible degraded c \<longleftrightarrow> gc_eligible c \<and> (gc_health c = Ready \<or> (degraded \<and> gc_health c = Degraded))"

definition evaluateAutomaticSelectionAt ::
  "(string \<Rightarrow> string) \<Rightarrow> (string \<Rightarrow> nat) \<Rightarrow> (nat \<Rightarrow> int \<Rightarrow> 's::linorder) \<Rightarrow> selection_context \<Rightarrow> time
     \<Rightarrow> ('z sel_db_scheme) \<Rightarrow> sel_error + decision" where
  "evaluateAutomaticSelectionAt name_key hash64 scorer sc now db =
     (let d = \<lparr>de_account = sc_account sc, de_group = sc_group sc, de_strategy = [], de_status = Group_required,
               de_current = sc_current sc, de_selected = None, de_reasons = [Reason_group_required], de_eligible = 0, de_at = now,
               de_blocked = None, de_can_apply = False\<rparr> in
      if sc_group sc = [] then Inr d
      else case CandidatesForProtocol name_key (sc_group sc) (automaticSelectionRequiredProtocol (sc_preference sc)) now db of
        Inl e \<Rightarrow> Inl e
      | Inr (strategy, cs) \<Rightarrow>
          let ok = filter (admissible (sc_degraded sc)) cs;
              currentEligible = (\<exists>c \<in> set ok. gc_server c = sc_current sc);
              d1 = d\<lparr>de_strategy := strategy, de_eligible := length ok\<rparr> in
          (case SelectCandidate hash64 scorer (sc_account sc) strategy cs (sc_degraded sc) of
             None \<Rightarrow> Inr (d1\<lparr>de_status := No_eligible, de_reasons := [Reason_no_eligible]\<rparr>)
           | Some (c, reasons) \<Rightarrow>
               let d2 = d1\<lparr>de_selected := Some c, de_reasons := reasons\<rparr> in
               if gc_server c = sc_current sc then Inr (d2\<lparr>de_status := Current\<rparr>)
               else
                 case (if currentEligible then sc_last_at sc else None) of
                   Some t \<Rightarrow>
                     if now < t + seconds (sc_cooldown sc)
                     then Inr (d2\<lparr>de_status := Cooldown, de_blocked := Some (t + seconds (sc_cooldown sc))\<rparr>)
                     else Inr (d2\<lparr>de_status := Selected,
                                  de_can_apply := (sc_enabled sc \<and> sc_status sc \<in> {''created'', ''active''})\<rparr>)
                 | None \<Rightarrow>
                     Inr (d2\<lparr>de_status := Selected,
                             de_can_apply := (sc_enabled sc \<and> sc_status sc \<in> {''created'', ''active''})\<rparr>)))"

definition orderedUniqueServerIDs :: "string list \<Rightarrow> string list" where
  "orderedUniqueServerIDs vs = rev (remdups (rev (filter (\<lambda>v. v \<noteq> []) vs)))"

definition UpdateAutomaticSelectionPolicy ::
  "commit_fate \<Rightarrow> (string \<Rightarrow> string option) \<Rightarrow> string \<Rightarrow> bool \<Rightarrow> bool \<Rightarrow> int \<Rightarrow> ('z sel_db_scheme)
     \<Rightarrow> (sel_error + unit) \<times> ('z sel_db_scheme)" where
  "UpdateAutomaticSelectionPolicy fate pg_uuid acct0 enabled degraded cooldown db =
     (if cooldown < 60 \<or> 86400 < cooldown then (Inl ErrSelectionCooldown, db)
      else case pg_uuid acct0 of
        None \<Rightarrow> (Inl Sel_DatabaseError, db)
      | Some acct \<Rightarrow>
          run_tx Sel_DatabaseError fate
            (case lookup_row va_id acct (ng_accounts db) of
               None \<Rightarrow> Abort Sel_NoRows
             | Some a \<Rightarrow>
                 if enabled \<and> va_group a = None then Abort ErrSelectionGroup
                 else Commit (Inr ())
                   (db\<lparr>ng_policies :=
                      (if acct \<in> po_account ` set (ng_policies db)
                       then update_where (\<lambda>p. po_account p = acct)
                              (\<lambda>p. p\<lparr>po_enabled := enabled, po_degraded := degraded, po_cooldown := cooldown\<rparr>) (ng_policies db)
                       else ng_policies db @ [\<lparr>po_account = acct, po_enabled = enabled, po_degraded = degraded,
                              po_cooldown = cooldown, po_last_at = None, po_last_server = None\<rparr>])\<rparr>)) db)"

section \<open>Applying a selection\<close>

definition allocateAutomaticSelectionWireGuardAddress :: "string \<Rightarrow> ('z sel_db_scheme) \<Rightarrow> sel_error + string" where
  "allocateAutomaticSelectionWireGuardAddress sid db =
     (case lookup_row sv_id sid (ng_servers db) of
        None \<Rightarrow> Inl Sel_NoRows
      | Some s \<Rightarrow>
          (case NextPeerAddress (sv_wireguard s)
                  (List.map_filter va_wireguard (select (\<lambda>a. va_server a = Some sid) (ng_accounts db))) of
             Inl e \<Rightarrow> Inl (Sel_Pool e)
           | Inr ad \<Rightarrow> Inr ad))"

record 'tr apply_response =
  ar_decision :: decision
  ar_transfer :: "'tr option"
  ar_previous :: string
  ar_selected :: string
  ar_changed :: bool
  ar_affected :: "string list"
  ar_deploy :: bool

definition record_selection :: "string \<Rightarrow> time \<Rightarrow> string \<Rightarrow> ('z sel_db_scheme) \<Rightarrow> ('z sel_db_scheme)" where
  "record_selection acct at' sid db =
     db\<lparr>ng_policies := update_where (\<lambda>p. po_account p = acct)
          (\<lambda>p. p\<lparr>po_last_at := Some at', po_last_server := Some sid\<rparr>) (ng_policies db)\<rparr>"

text \<open>The unique index on the addresses of a server.\<close>

definition assign_account ::
  "(string \<Rightarrow> string option) \<Rightarrow> string \<Rightarrow> string \<Rightarrow> time \<Rightarrow> string \<Rightarrow> ('z sel_db_scheme) \<Rightarrow> sel_error + ('z sel_db_scheme)" where
  "assign_account pg_inet acct sid at' ad db =
     (case (if ad = [] then Some None else map_option Some (pg_inet ad)) of
        None \<Rightarrow> Inl Sel_DatabaseError
      | Some col \<Rightarrow>
          if col \<noteq> None \<and> (\<exists>b \<in> set (ng_accounts db). va_id b \<noteq> acct \<and> va_server b = Some sid \<and> va_wireguard b = col)
          then Inl Sel_DatabaseError
          else Inr (db\<lparr>ng_accounts := update_where (\<lambda>a. va_id a = acct)
                 (\<lambda>a. a\<lparr>va_server := Some sid, va_wireguard := col, va_updated := at'\<rparr>) (ng_accounts db)\<rparr>))"

text \<open>\<open>accountID\<close> is the identifier as the request spells it, which the deployed accounts of a configuration are
  searched for and which \<open>start\<close> is given; \<open>acct\<close> is the same identifier after the cast to \<open>uuid\<close>.  The time
  \<open>now()\<close> of the transaction and the time of the evaluation are one value.\<close>

definition apply_body ::
  "(string \<Rightarrow> string option) \<Rightarrow> (string \<Rightarrow> string) \<Rightarrow> (string \<Rightarrow> nat) \<Rightarrow> (nat \<Rightarrow> int \<Rightarrow> 's::linorder)
     \<Rightarrow> (string \<Rightarrow> string \<Rightarrow> ('z sel_db_scheme) \<Rightarrow> sel_error + 'tr \<times> ('z sel_db_scheme))
     \<Rightarrow> time \<Rightarrow> string \<Rightarrow> string \<Rightarrow> string \<Rightarrow> ('z sel_db_scheme) \<Rightarrow> (sel_error, 'tr apply_response, 'z sel_db_scheme) outcome" where
  "apply_body pg_inet name_key hash64 scorer start now accountID acct expected db =
     (case automaticSelectionContext acct db of
        None \<Rightarrow> Abort Sel_NoRows
      | Some sc \<Rightarrow>
          if sc_current sc \<noteq> expected then Abort ErrSelectionChanged
          else if \<not> sc_enabled sc then Abort ErrSelectionDisabled
          else if sc_status sc \<noteq> ''created'' \<and> sc_status sc \<noteq> ''active'' then Abort ErrSelectionStatus
          else case evaluateAutomaticSelectionAt name_key hash64 scorer sc now db of
            Inl e \<Rightarrow> Abort e
          | Inr d \<Rightarrow>
              if de_status d = Cooldown then Abort ErrSelectionCooldown
              else if de_status d = Group_required then Abort ErrSelectionGroup
              else case de_selected d of
                None \<Rightarrow> Abort ErrSelectionNoTarget
              | Some c \<Rightarrow>
                  let r = \<lparr>ar_decision = d, ar_transfer = None, ar_previous = sc_current sc, ar_selected = gc_server c,
                           ar_changed = False, ar_affected = [gc_server c], ar_deploy = False\<rparr>;
                      affected = orderedUniqueServerIDs [gc_server c, sc_current sc] in
                  if de_status d = Current then Rollback (Inr r)
                  else if \<exists>s \<in> set (ng_servers db). sv_id s = sc_current sc \<and> accountID \<in> set (sv_deployed s) then
                    (case start accountID (gc_server c) db of
                       Inl e \<Rightarrow> Abort e
                     | Inr (tr, db') \<Rightarrow>
                         Commit (Inr (r\<lparr>ar_transfer := Some tr, ar_affected := affected\<rparr>))
                           (record_selection acct now (gc_server c) db'))
                  else
                    (case (if gc_protocol c = ''wireguard''
                           then allocateAutomaticSelectionWireGuardAddress (gc_server c) db else Inr []) of
                       Inl e \<Rightarrow> Abort e
                     | Inr ad \<Rightarrow>
                         (case assign_account pg_inet acct (gc_server c) now ad db of
                            Inl e \<Rightarrow> Abort e
                          | Inr db' \<Rightarrow>
                              Commit (Inr (r\<lparr>ar_changed := True, ar_deploy := True, ar_affected := affected\<rparr>))
                                (record_selection acct now (gc_server c) db'))))"

text \<open>\<open>expected\<close> is the assignment read before the transaction began.\<close>

definition ApplyAutomaticSelection ::
  "commit_fate \<Rightarrow> (string \<Rightarrow> string option) \<Rightarrow> (string \<Rightarrow> string option) \<Rightarrow> (string \<Rightarrow> string) \<Rightarrow> (string \<Rightarrow> nat)
     \<Rightarrow> (nat \<Rightarrow> int \<Rightarrow> 's::linorder) \<Rightarrow> (string \<Rightarrow> string \<Rightarrow> ('z sel_db_scheme) \<Rightarrow> sel_error + 'tr \<times> ('z sel_db_scheme))
     \<Rightarrow> time \<Rightarrow> string \<Rightarrow> ('z sel_db_scheme) \<Rightarrow> ('z sel_db_scheme) \<Rightarrow> (sel_error + 'tr apply_response) \<times> ('z sel_db_scheme)" where
  "ApplyAutomaticSelection fate pg_uuid pg_inet name_key hash64 scorer start now acct0 before db =
     (case pg_uuid acct0 of
        None \<Rightarrow> (Inl Sel_DatabaseError, db)
      | Some acct \<Rightarrow>
          (case lookup_row va_id acct (ng_accounts before) of
             None \<Rightarrow> (Inl Sel_NoRows, db)
           | Some a \<Rightarrow>
               run_tx Sel_DatabaseError fate
                 (apply_body pg_inet name_key hash64 scorer start now acct0 acct (coalesce (va_server a)) db) db))"

end
