(* ===== verification/Selection.thy ===== *)
theory Selection
  imports Node_Groups
begin

text \<open>
  The properties of node groups and automatic selection: what is selected and how stable it is, that an
  account moves only to a node whose tables show it serving, the cooldown, and the invariant of the
  group tables.
\<close>

section \<open>The selected candidate\<close>

text \<open>The order in which the strategies prefer candidates.\<close>

definition no_worse ::
  "(string \<Rightarrow> nat) \<Rightarrow> (nat \<Rightarrow> int \<Rightarrow> 's::linorder) \<Rightarrow> string \<Rightarrow> string \<Rightarrow> group_candidate \<Rightarrow> group_candidate \<Rightarrow> bool" where
  "no_worse hash64 scorer account strategy c d =
     (if strategy = ''weighted''
      then (weightedRendezvousScore hash64 scorer account (gc_server c) (gc_weight c), gc_server c)
         \<le> (weightedRendezvousScore hash64 scorer account (gc_server d) (gc_weight d), gc_server d)
      else (gc_priority c, gc_server c) \<le> (gc_priority d, gc_server d))"

text \<open>The best admissible candidate: a ready one if there is any, else a degraded one.\<close>

definition winner ::
  "(string \<Rightarrow> nat) \<Rightarrow> (nat \<Rightarrow> int \<Rightarrow> 's::linorder) \<Rightarrow> string \<Rightarrow> string \<Rightarrow> bool \<Rightarrow> group_candidate set \<Rightarrow> group_candidate \<Rightarrow> bool" where
  "winner hash64 scorer account strategy degraded C c \<longleftrightarrow>
     c \<in> C \<and> admissible degraded c
     \<and> (gc_health c = Degraded \<longrightarrow> (\<forall>d \<in> C. \<not> admissible False d))
     \<and> (\<forall>d \<in> C. admissible degraded d \<and> gc_health d = gc_health c \<longrightarrow> no_worse hash64 scorer account strategy c d)"

lemma best_scan_least:
  "best_scan score s (score s) cs \<in> set (s # cs)
   \<and> (\<forall>d \<in> set (s # cs). (score (best_scan score s (score s) cs), gc_server (best_scan score s (score s) cs)) \<le> (score d, gc_server d))"
proof (induction cs arbitrary: s)
  case (Cons c cs)
  show ?case
  proof (cases "score c < score s \<or> (score c = score s \<and> gc_server c < gc_server s)")
    case True
    then have "(score c, gc_server c) \<le> (score s, gc_server s)" by (auto simp: less_eq_prod_def)
    with True Cons.IH [of c] show ?thesis by (auto dest: order_trans)
  next
    case False
    then have "(score s, gc_server s) \<le> (score c, gc_server c)" by (auto simp: less_eq_prod_def)
    with False Cons.IH [of s] show ?thesis by (auto dest: order_trans)
  qed
qed simp

lemma hd_sort_key_least:
  assumes "xs \<noteq> []"
  shows "hd (sort_key f xs) \<in> set xs \<and> (\<forall>y \<in> set xs. f (hd (sort_key f xs)) \<le> f y)"
proof -
  obtain z zs where z: "sort_key f xs = z # zs" using assms by (cases "sort_key f xs") (metis length_sort length_0_conv, blast)
  have "sorted (map f (z # zs))" unfolding z [symmetric] by simp
  moreover have "set xs = set (z # zs)" unfolding z [symmetric] by simp
  ultimately show ?thesis unfolding z by auto
qed

text \<open>The pool the strategies choose from.\<close>

definition pool :: "group_candidate list \<Rightarrow> bool \<Rightarrow> group_candidate list" where
  "pool cs deg = (if filter (admissible False) cs = [] \<and> deg then filter (admissible True) cs else filter (admissible False) cs)"

definition reasons_of :: "string \<Rightarrow> group_candidate \<Rightarrow> reason list" where
  "reasons_of strategy c =
     [if gc_health c = Degraded then Reason_degraded else Reason_ready,
      if strategy = ''weighted'' then Reason_weighted else Reason_priority]"

lemma SelectCandidate_pool:
  "SelectCandidate hash64 scorer account strategy cs deg =
     (let r = (if filter (admissible False) cs = [] \<and> deg then Reason_degraded else Reason_ready) in
      case pool cs deg of
        [] \<Rightarrow> None
      | first # others \<Rightarrow>
          if strategy = ''weighted'' then
            let score = (\<lambda>c. weightedRendezvousScore hash64 scorer account (gc_server c) (gc_weight c)) in
            Some (best_scan score first (score first) others, [r, Reason_weighted])
          else Some (hd (sort_key (\<lambda>c. (gc_priority c, gc_server c)) (pool cs deg)), [r, Reason_priority]))"
proof -
  have r: "filter (\<lambda>c. gc_eligible c \<and> gc_health c = Ready) cs = filter (admissible False) cs"
    by (rule filter_cong) (auto simp: admissible_def)
  have d: "filter (\<lambda>c. gc_eligible c \<and> gc_health c = Degraded) cs = filter (admissible True) cs"
    if "filter (admissible False) cs = []"
    using that by (intro filter_cong) (auto simp: admissible_def filter_empty_conv)
  show ?thesis
    unfolding SelectCandidate_def r pool_def Let_def using d by (cases "filter (admissible False) cs = [] \<and> deg") auto
qed

lemma pool_health:
  assumes "c \<in> set (pool cs deg)"
  shows "gc_health c = Degraded \<longleftrightarrow> filter (admissible False) cs = [] \<and> deg"
    "c \<in> set cs" "admissible deg c"
  using assms by (auto simp: pool_def admissible_def filter_empty_conv split: if_splits)

lemma SelectCandidate_cases:
  "case SelectCandidate hash64 scorer account strategy cs deg of
      None \<Rightarrow> pool cs deg = []
    | Some (c, rs) \<Rightarrow> c \<in> set (pool cs deg) \<and> (\<forall>d \<in> set (pool cs deg). no_worse hash64 scorer account strategy c d)
        \<and> rs = reasons_of strategy c"
proof (cases "pool cs deg")
  case Nil
  then show ?thesis by (simp add: SelectCandidate_pool Let_def)
next
  case (Cons f os)
  show ?thesis
  proof (cases "strategy = ''weighted''")
    case True
    define score where "score = (\<lambda>c :: group_candidate. weightedRendezvousScore hash64 scorer account (gc_server c) (gc_weight c))"
    from best_scan_least [of score f os] have b: "best_scan score f (score f) os \<in> set (pool cs deg)"
      "\<forall>d \<in> set (pool cs deg). no_worse hash64 scorer account strategy (best_scan score f (score f) os) d"
      unfolding Cons by (auto simp: no_worse_def True score_def)
    with Cons True pool_health(1) [OF b(1)] show ?thesis
      by (simp add: SelectCandidate_pool Let_def score_def [symmetric] reasons_of_def)
  next
    case False
    define h where "h = hd (sort_key (\<lambda>c. (gc_priority c, gc_server c)) (pool cs deg))"
    have "h \<in> set (pool cs deg) \<and> (\<forall>d \<in> set (pool cs deg). (gc_priority h, gc_server h) \<le> (gc_priority d, gc_server d))"
      unfolding h_def by (rule hd_sort_key_least) (simp add: Cons)
    then have b: "h \<in> set (pool cs deg)" "\<forall>d \<in> set (pool cs deg). no_worse hash64 scorer account strategy h d"
      by (auto simp: no_worse_def False)
    have "SelectCandidate hash64 scorer account strategy cs deg
        = Some (h, [if filter (admissible False) cs = [] \<and> deg then Reason_degraded else Reason_ready, Reason_priority])"
      using False Cons by (simp add: SelectCandidate_pool Let_def h_def)
    with b False pool_health(1) [OF b(1)] show ?thesis by (simp add: reasons_of_def)
  qed
qed

lemma pool_winner:
  "winner hash64 scorer account strategy deg (set cs) c \<longleftrightarrow>
     c \<in> set (pool cs deg) \<and> (\<forall>d \<in> set (pool cs deg). no_worse hash64 scorer account strategy c d)"
  by (auto simp: winner_def pool_def admissible_def filter_empty_conv split: if_splits)

lemma pool_Nil: "pool cs deg = [] \<longleftrightarrow> (\<forall>c \<in> set cs. \<not> admissible deg c)"
  by (cases deg) (auto simp: pool_def filter_empty_conv admissible_def)

lemma SelectCandidate_Some:
  "SelectCandidate hash64 scorer account strategy cs deg = Some (c, rs) \<Longrightarrow>
     winner hash64 scorer account strategy deg (set cs) c \<and> rs = reasons_of strategy c"
  using SelectCandidate_cases [of cs deg hash64 scorer account strategy] by (simp add: pool_winner)

lemma SelectCandidate_None:
  "SelectCandidate hash64 scorer account strategy cs deg = None \<longleftrightarrow> (\<forall>c \<in> set cs. \<not> admissible deg c)"
proof -
  have "SelectCandidate hash64 scorer account strategy cs deg = None \<longleftrightarrow> pool cs deg = []"
    by (cases "pool cs deg") (simp_all add: SelectCandidate_pool Let_def)
  then show ?thesis by (simp add: pool_Nil)
qed

lemma winner_unique:
  assumes "inj_on gc_server C" "winner hash64 scorer account strategy deg C c" "winner hash64 scorer account strategy deg C d"
  shows "c = d"
proof -
  have "gc_health c = gc_health d"
    using assms(2,3) by (cases "gc_health c"; cases "gc_health d") (auto simp: winner_def admissible_def)
  then have "no_worse hash64 scorer account strategy c d" "no_worse hash64 scorer account strategy d c"
    using assms(2,3) by (auto simp: winner_def)
  then have "gc_server c = gc_server d" by (auto simp: no_worse_def split: if_splits)
  with assms show ?thesis by (auto simp: winner_def dest: inj_onD)
qed

lemma winner_subset:
  "winner hash64 scorer account strategy deg C c \<Longrightarrow> C' \<subseteq> C \<Longrightarrow> c \<in> C' \<Longrightarrow> winner hash64 scorer account strategy deg C' c"
  by (auto simp: winner_def)

lemma SelectCandidate_winner:
  assumes "inj_on gc_server (set cs)"
  shows "SelectCandidate hash64 scorer account strategy cs deg = Some (c, rs) \<longleftrightarrow>
    winner hash64 scorer account strategy deg (set cs) c \<and> rs = reasons_of strategy c"
proof
  assume w: "winner hash64 scorer account strategy deg (set cs) c \<and> rs = reasons_of strategy c"
  then have "SelectCandidate hash64 scorer account strategy cs deg \<noteq> None"
    by (auto simp: SelectCandidate_None winner_def)
  then obtain d ds where d: "SelectCandidate hash64 scorer account strategy cs deg = Some (d, ds)" by auto
  with w SelectCandidate_Some [OF d] winner_unique [OF assms] show "SelectCandidate hash64 scorer account strategy cs deg = Some (c, rs)"
    by metis
qed (rule SelectCandidate_Some)

text \<open>C25. What \<open>SelectCandidate\<close> returns: nothing exactly when no candidate is admissible; otherwise an
  admissible candidate, a degraded one only when degraded nodes are allowed and no node is ready, and
  among the candidates of its health none precedes it in the order of the strategy (the rendezvous
  score, or the priority, then the server).\<close>

theorem select_candidate_spec:
  "case SelectCandidate hash64 scorer account strategy cs deg of
     None \<Rightarrow> \<forall>c \<in> set cs. \<not> admissible deg c
   | Some (c, rs) \<Rightarrow> winner hash64 scorer account strategy deg (set cs) c \<and> rs = reasons_of strategy c"
proof (cases "SelectCandidate hash64 scorer account strategy cs deg")
  case None
  then show ?thesis using SelectCandidate_None [of hash64 scorer account strategy cs deg] by simp
next
  case (Some r)
  then show ?thesis using SelectCandidate_Some [of hash64 scorer account strategy cs deg "fst r" "snd r"] by (cases r) simp
qed

text \<open>C24. Selection is stable: it does not depend on the order of the candidates, the removal of any
  other candidate leaves it unchanged, and a new candidate is either selected itself or changes
  nothing.\<close>

theorem selection_stable:
  assumes "inj_on gc_server (insert n (set cs))" "SelectCandidate hash64 scorer account strategy cs deg = Some (c, rs)"
  shows "(\<forall>cs'. set cs' \<subseteq> set cs \<and> c \<in> set cs' \<longrightarrow> SelectCandidate hash64 scorer account strategy cs' deg = Some (c, rs))
    \<and> SelectCandidate hash64 scorer account strategy (n # cs) deg \<in> {Some (c, rs), Some (n, reasons_of strategy n)}"
proof -
  have inj: "inj_on gc_server (set cs)" using assms(1) by (rule inj_on_subset) auto
  have w: "winner hash64 scorer account strategy deg (set cs) c" "rs = reasons_of strategy c"
    using SelectCandidate_Some [OF assms(2)] by auto
  have sub: "SelectCandidate hash64 scorer account strategy cs' deg = Some (c, rs)" if "set cs' \<subseteq> set cs" "c \<in> set cs'" for cs'
    using SelectCandidate_winner [OF inj_on_subset [OF inj that(1)]] winner_subset [OF w(1) that] w(2) by blast
  have "admissible deg c" "c \<in> set cs" using w(1) by (auto simp: winner_def)
  then have "SelectCandidate hash64 scorer account strategy (n # cs) deg \<noteq> None" by (auto simp: SelectCandidate_None)
  then obtain d ds where d: "SelectCandidate hash64 scorer account strategy (n # cs) deg = Some (d, ds)" by auto
  then have wd: "winner hash64 scorer account strategy deg (insert n (set cs)) d" "ds = reasons_of strategy d"
    using SelectCandidate_Some [OF d] by auto
  have "d = c" if "d \<noteq> n"
  proof -
    have "d \<in> set cs" using wd(1) that by (auto simp: winner_def)
    then have "winner hash64 scorer account strategy deg (set cs) d" using winner_subset [OF wd(1)] by blast
    from winner_unique [OF inj this w(1)] show ?thesis .
  qed
  with d wd(2) w(2) sub show ?thesis by auto
qed

section \<open>Eligible nodes serve the protocol\<close>

text \<open>What the tables say of a node that may take an account: a member of the group that is enabled, an
  active VPN node, its Agent online and seen within two minutes, reporting an adapter for the protocol
  and a running core for it.\<close>

definition serving :: "('z sel_db_scheme) \<Rightarrow> time \<Rightarrow> string \<Rightarrow> string \<Rightarrow> string \<Rightarrow> bool" where
  "serving db now gid sid protocol \<longleftrightarrow>
     (\<exists>m \<in> set (ng_members db). \<exists>s \<in> set (ng_servers db). \<exists>a \<in> set (ng_agents db). \<exists>t p.
        m_group m = gid \<and> m_server m = sid \<and> m_enabled m
        \<and> sv_id s = sid \<and> sv_role s \<in> {''vpn'', ''hybrid''} \<and> sv_status s = ''active''
        \<and> na_server a = sid \<and> na_status a = ''online'' \<and> na_seen a = Some t \<and> now - t \<le> minutes 2
        \<and> na_caps a = Some p \<and> cap_schema p = 1
        \<and> (\<exists>x \<in> set (cap_adapters p). EqualFold (TrimSpace x) (TrimSpace protocol))
        \<and> (\<exists>(ty, st) \<in> set (cap_cores p). EqualFold (TrimSpace ty) (protocolCore protocol) \<and> ToLower (TrimSpace st) = ''running''))"

lemma evaluateCandidate_keeps:
  "gc_server (evaluateCandidate c dep now) = gc_server c" "gc_protocol (evaluateCandidate c dep now) = gc_protocol c"
  "gc_priority (evaluateCandidate c dep now) = gc_priority c" "gc_weight (evaluateCandidate c dep now) = gc_weight c"
  "gc_eligible (evaluateCandidate c dep now) \<longleftrightarrow> candidate_signals c dep now = []"
  by (auto simp: evaluateCandidate_def Let_def split: option.split)

lemma no_signals:
  assumes "candidate_signals c dep now = []"
  shows "gc_enabled c" "dep \<in> {''vpn'', ''hybrid''}" "gc_node c = ''active''" "gc_agent c = ''online''"
    "\<exists>t. gc_seen c = Some t \<and> now - t \<le> minutes 2" "gc_supported c" "gc_runtime c = ''running''"
  using assms by (auto simp: candidate_signals_def split: if_splits option.splits)

lemma capability_running:
  assumes "capabilityEvidence d protocol = (True, ''running'')"
  shows "\<exists>p. d = Some p \<and> cap_schema p = 1 \<and> (\<exists>x \<in> set (cap_adapters p). EqualFold (TrimSpace x) (TrimSpace protocol))
    \<and> (\<exists>(ty, st) \<in> set (cap_cores p). EqualFold (TrimSpace ty) (protocolCore protocol) \<and> ToLower (TrimSpace st) = ''running'')"
  using assms by (auto simp: capabilityEvidence_def split: option.splits if_splits dest!: find_SomeD)

lemma eligible_serving:
  assumes "candidate_signals ((candidate_row f db m s)\<lparr>gc_topology := x\<rparr>) (sv_role s) now = []"
    and "m \<in> set (ng_members db)" "s \<in> set (ng_servers db)" "sv_id s = m_server m"
  shows "serving db now (m_group m) (sv_id s) (f (sv_protocol s))"
proof -
  note sig = no_signals [OF assms(1)]
  from sig(4) obtain a where a: "lookup_row na_server (sv_id s) (ng_agents db) = Some a"
    by (auto simp: candidate_row_def Let_def split: option.splits)
  have "capabilityEvidence (na_caps a) (f (sv_protocol s)) = (True, ''running'')"
    using sig(6,7) by (simp add: candidate_row_def Let_def a prod_eq_iff)
  from capability_running [OF this] obtain p where p: "na_caps a = Some p" "cap_schema p = 1"
    "\<exists>x \<in> set (cap_adapters p). EqualFold (TrimSpace x) (TrimSpace (f (sv_protocol s)))"
    "\<exists>(ty, st) \<in> set (cap_cores p). EqualFold (TrimSpace ty) (protocolCore (f (sv_protocol s))) \<and> ToLower (TrimSpace st) = ''running''"
    by blast
  from sig(5) obtain t where t: "na_seen a = Some t" "now - t \<le> minutes 2"
    by (auto simp: candidate_row_def Let_def a)
  have "m_enabled m" "sv_role s \<in> {''vpn'', ''hybrid''}" "sv_status s = ''active''" "na_status a = ''online''"
    using sig(1-4) by (simp_all add: candidate_row_def Let_def a)
  with assms(2-4) lookup_row_Some [OF a] p t show ?thesis
    unfolding serving_def by (intro bexI [of _ m] bexI [of _ s] bexI [of _ a] exI [of _ t] exI [of _ p]) auto
qed

lemma group_rows_mem:
  "(m, s) \<in> set (group_rows name_key gid db) \<longleftrightarrow>
     m \<in> set (ng_members db) \<and> m_group m = gid \<and> s \<in> set (ng_servers db) \<and> sv_id s = m_server m"
  by (auto simp: group_rows_def select_def)

text \<open>The protocol a candidate is judged by: the required one, or the node's own.\<close>

lemma candidates_serving:
  assumes "CandidatesForProtocol name_key gid protocol now db = Inr (strategy, cs)" "c \<in> set cs" "gc_eligible c"
  shows "serving db now gid (gc_server c) (gc_protocol c)
    \<and> (\<exists>s \<in> set (ng_servers db). sv_id s = gc_server c
         \<and> gc_protocol c = (let q = ToLower (TrimSpace protocol) in if q = [] \<or> q = ''auto'' then sv_protocol s else q))"
proof (cases "ToLower (TrimSpace protocol) = [] \<or> ToLower (TrimSpace protocol) = ''auto''")
  case True
  with assms(1,2) obtain m s where ms: "(m, s) \<in> set (group_rows name_key gid db)"
    and c: "c = evaluateCandidate (candidate_row (\<lambda>p. p) db m s) (sv_role s) now"
    by (auto simp: CandidatesForProtocol_def Candidates_def split: option.splits)
  have same: "candidate_row (\<lambda>p. p) db m s = (candidate_row (\<lambda>p. p) db m s)\<lparr>gc_topology := None\<rparr>"
    by (simp add: candidate_row_def Let_def)
  have "candidate_signals ((candidate_row (\<lambda>p. p) db m s)\<lparr>gc_topology := None\<rparr>) (sv_role s) now = []"
    using assms(3) unfolding c evaluateCandidate_keeps same [symmetric] .
  from eligible_serving [OF this] ms show ?thesis
    by (auto simp: c evaluateCandidate_keeps group_rows_mem True)
      (auto simp: candidate_row_def Let_def True)
next
  case False
  define q where "q = ToLower (TrimSpace protocol)"
  from False assms(1,2) obtain m s x where ms: "(m, s) \<in> set (group_rows name_key gid db)"
    and c: "c = evaluateCandidate ((candidate_row (\<lambda>_. q) db m s)\<lparr>gc_topology := x\<rparr>) (sv_role s) now"
    by (auto simp: CandidatesForProtocol_def q_def Let_def split: option.splits if_splits)
  have "candidate_signals ((candidate_row (\<lambda>_. q) db m s)\<lparr>gc_topology := x\<rparr>) (sv_role s) now = []"
    using assms(3) unfolding c evaluateCandidate_keeps .
  from eligible_serving [OF this] ms show ?thesis
    using False by (auto simp: c evaluateCandidate_keeps group_rows_mem q_def)
      (auto simp: candidate_row_def Let_def)
qed

text \<open>The protocol an account is to be served with on a node: the one its client profile names, and the node's own
  when it names none.\<close>

definition wanted_protocol :: "string \<Rightarrow> string \<Rightarrow> string" where
  "wanted_protocol preference node =
     (let q = ToLower (TrimSpace (automaticSelectionRequiredProtocol preference)) in if q = [] \<or> q = ''auto'' then node else q)"

lemma evaluate_selected:
  assumes "evaluateAutomaticSelectionAt name_key hash64 scorer sc now db = Inr d" "de_selected d = Some c"
  shows "serving db now (sc_group sc) (gc_server c) (gc_protocol c)
    \<and> (\<exists>s \<in> set (ng_servers db). sv_id s = gc_server c \<and> gc_protocol c = wanted_protocol (sc_preference sc) (sv_protocol s))
    \<and> admissible (sc_degraded sc) c
    \<and> (de_status d = Current \<longleftrightarrow> gc_server c = sc_current sc) \<and> de_at d = now"
proof -
  from assms obtain strategy cs rs where cs: "CandidatesForProtocol name_key (sc_group sc) (automaticSelectionRequiredProtocol (sc_preference sc)) now db = Inr (strategy, cs)"
    and sel: "SelectCandidate hash64 scorer (sc_account sc) strategy cs (sc_degraded sc) = Some (c, rs)"
    and st: "de_status d = Current \<longleftrightarrow> gc_server c = sc_current sc" "de_at d = now"
    by (auto simp: evaluateAutomaticSelectionAt_def Let_def split: if_splits sum.splits option.splits prod.splits)
  from SelectCandidate_Some [OF sel] have "c \<in> set cs" "admissible (sc_degraded sc) c" by (auto simp: winner_def)
  with candidates_serving [OF cs, of c] st show ?thesis by (simp add: admissible_def wanted_protocol_def)
qed

section \<open>Applying a selection\<close>

lemma context_Some:
  assumes "automaticSelectionContext acct db = Some sc"
  obtains a where "lookup_row va_id acct (ng_accounts db) = Some a" "sc_account sc = va_id a" "sc_status sc = va_status a"
    "sc_current sc = coalesce (va_server a)" "sc_group sc = coalesce (va_group a)"
    "sc_preference sc = (case va_client a of None \<Rightarrow> ''auto'' | Some c \<Rightarrow> c)"
    "sc_enabled sc \<longleftrightarrow> (\<exists>p. lookup_row po_account acct (ng_policies db) = Some p \<and> po_enabled p)"
  using assms that by (auto simp: automaticSelectionContext_def Let_def split: option.splits)

lemma apply_body_Commit:
  assumes "apply_body pg_inet name_key hash64 scorer start now accountID acct expected db = Commit r db'"
  obtains sc d c where "automaticSelectionContext acct db = Some sc" "sc_enabled sc" "sc_status sc \<in> {''created'', ''active''}"
    "sc_current sc = expected" "evaluateAutomaticSelectionAt name_key hash64 scorer sc now db = Inr d" "de_selected d = Some c"
    "de_status d \<noteq> Current" "de_status d \<noteq> Cooldown"
    "(\<exists>tr d'. start accountID (gc_server c) db = Inr (tr, d') \<and> db' = record_selection acct now (gc_server c) d')
     \<or> (\<exists>ad d'. (if gc_protocol c = ''wireguard'' then allocateAutomaticSelectionWireGuardAddress (gc_server c) db else Inr []) = Inr ad
          \<and> assign_account pg_inet acct (gc_server c) now ad db = Inr d' \<and> db' = record_selection acct now (gc_server c) d')"
proof -
  from assms obtain sc where sc: "automaticSelectionContext acct db = Some sc"
    by (auto simp: apply_body_def split: option.splits)
  with assms have g: "sc_current sc = expected" "sc_enabled sc" "sc_status sc \<in> {''created'', ''active''}"
    by (auto simp: apply_body_def split: if_splits)
  with assms sc obtain d where d: "evaluateAutomaticSelectionAt name_key hash64 scorer sc now db = Inr d"
    by (auto simp: apply_body_def split: sum.splits if_splits)
  with assms sc g obtain c where c: "de_selected d = Some c" "de_status d \<noteq> Cooldown" "de_status d \<noteq> Current"
    by (auto simp: apply_body_def Let_def split: option.splits if_splits)
  have "(\<exists>tr d'. start accountID (gc_server c) db = Inr (tr, d') \<and> db' = record_selection acct now (gc_server c) d')
     \<or> (\<exists>ad d'. (if gc_protocol c = ''wireguard'' then allocateAutomaticSelectionWireGuardAddress (gc_server c) db else Inr []) = Inr ad
          \<and> assign_account pg_inet acct (gc_server c) now ad db = Inr d' \<and> db' = record_selection acct now (gc_server c) d')"
  proof (cases "\<exists>s \<in> set (ng_servers db). sv_id s = sc_current sc \<and> accountID \<in> set (sv_deployed s)")
    case True
    with assms sc g d c show ?thesis
      by (auto simp: apply_body_def Let_def split: sum.splits if_splits)
  next
    case False
    define w where "w = (if gc_protocol c = ''wireguard'' then allocateAutomaticSelectionWireGuardAddress (gc_server c) db else Inr [])"
    from False assms sc g d c show ?thesis
      by (auto simp: apply_body_def Let_def w_def [symmetric] split: sum.splits if_splits)
  qed
  with that sc g d c show thesis by blast
qed

lemma allocated_free:
  assumes "allocateAutomaticSelectionWireGuardAddress sid db = Inr ad"
  shows "\<exists>s w. lookup_row sv_id sid (ng_servers db) = Some s \<and> ad = String4 w
    \<and> free_peer (sv_wireguard s) (List.map_filter va_wireguard (select (\<lambda>a. va_server a = Some sid) (ng_accounts db))) w"
  using assms
  by (auto simp: allocateAutomaticSelectionWireGuardAddress_def split: option.splits sum.splits elim!: NextPeerAddress_Inr)

lemma ApplyAutomaticSelection_changes:
  assumes "ApplyAutomaticSelection fate pg_uuid pg_inet name_key hash64 scorer start now acct0 before db = (r, db')" "db' \<noteq> db"
  obtains acct e r' where "pg_uuid acct0 = Some acct" "apply_body pg_inet name_key hash64 scorer start now acct0 acct e db = Commit r' db'"
proof -
  from assms obtain acct where acct: "pg_uuid acct0 = Some acct"
    by (auto simp: ApplyAutomaticSelection_def split: option.splits)
  with assms obtain a where a: "lookup_row va_id acct (ng_accounts before) = Some a"
    by (auto simp: ApplyAutomaticSelection_def split: option.splits)
  define out where "out = apply_body pg_inet name_key hash64 scorer start now acct0 acct (coalesce (va_server a)) db"
  have "run_tx Sel_DatabaseError fate out db = (r, db')"
    using assms(1) acct a by (simp add: ApplyAutomaticSelection_def out_def)
  then obtain r' where "out = Commit r' db'"
    using run_tx_state [of Sel_DatabaseError fate out db] assms(2) by auto
  with that acct out_def show thesis by blast
qed

text \<open>What a change of an account's node needs, whatever \<open>start\<close> does, as long as it leaves every account where it
  is.\<close>

lemma server_moves:
  assumes run: "ApplyAutomaticSelection fate pg_uuid pg_inet name_key hash64 scorer start now acct0 before db = (r, db')"
    and start: "\<And>x tr d' b. start acct0 x db = Inr (tr, d') \<Longrightarrow> b \<in> set (ng_accounts d') \<Longrightarrow>
      \<exists>a \<in> set (ng_accounts db). va_id a = va_id b \<and> va_server a = va_server b"
    and keys: "distinct (map va_id (ng_accounts db))"
    and a: "a \<in> set (ng_accounts db)" "a' \<in> set (ng_accounts db')" "va_id a' = va_id a" "va_server a' \<noteq> va_server a"
  shows "\<exists>sid protocol col.
      pg_uuid acct0 = Some (va_id a) \<and> va_status a \<in> {''created'', ''active''}
      \<and> (\<exists>p. lookup_row po_account (va_id a) (ng_policies db) = Some p \<and> po_enabled p)
      \<and> a' = a\<lparr>va_server := Some sid, va_wireguard := col, va_updated := now\<rparr>
      \<and> coalesce (va_server a) \<noteq> sid
      \<and> (\<exists>s \<in> set (ng_servers db). sv_id s = sid
           \<and> protocol = wanted_protocol (case va_client a of None \<Rightarrow> ''auto'' | Some c \<Rightarrow> c) (sv_protocol s))
      \<and> serving db now (coalesce (va_group a)) sid protocol
      \<and> (if protocol = ''wireguard''
         then \<exists>s w. lookup_row sv_id sid (ng_servers db) = Some s \<and> pg_inet (String4 w) = col \<and> col \<noteq> None
            \<and> free_peer (sv_wireguard s) (List.map_filter va_wireguard (select (\<lambda>a. va_server a = Some sid) (ng_accounts db))) w
         else col = None)"
proof -
  have same: "va_server a' = va_server a" if "b \<in> set (ng_accounts db)" "va_id b = va_id a'" "va_server b = va_server a'" for b
    using distinct_key_eq [OF keys that(1) a(1)] that(2,3) a(3) by simp
  have "db' \<noteq> db" using same [of a'] a(2,4) by auto
  with run obtain acct e r' where acct: "pg_uuid acct0 = Some acct"
    and body: "apply_body pg_inet name_key hash64 scorer start now acct0 acct e db = Commit r' db'"
    by (rule ApplyAutomaticSelection_changes)
  from apply_body_Commit [OF body] obtain sc d c where sc: "automaticSelectionContext acct db = Some sc" "sc_enabled sc"
    "sc_status sc \<in> {''created'', ''active''}" and d: "evaluateAutomaticSelectionAt name_key hash64 scorer sc now db = Inr d"
    "de_selected d = Some c" "de_status d \<noteq> Current"
    and out: "(\<exists>tr d'. start acct0 (gc_server c) db = Inr (tr, d') \<and> db' = record_selection acct now (gc_server c) d')
     \<or> (\<exists>ad d'. (if gc_protocol c = ''wireguard'' then allocateAutomaticSelectionWireGuardAddress (gc_server c) db else Inr []) = Inr ad
          \<and> assign_account pg_inet acct (gc_server c) now ad db = Inr d' \<and> db' = record_selection acct now (gc_server c) d')"
    by metis
  have staged: False if "start acct0 (gc_server c) db = Inr (tr, d')" "db' = record_selection acct now (gc_server c) d'" for tr d'
  proof -
    have "a' \<in> set (ng_accounts d')" using a(2) that(2) by (simp add: record_selection_def)
    from start [OF that(1) this] same a(4) show False by blast
  qed
  obtain ad d' where ad: "(if gc_protocol c = ''wireguard'' then allocateAutomaticSelectionWireGuardAddress (gc_server c) db else Inr []) = Inr ad"
    and d': "assign_account pg_inet acct (gc_server c) now ad db = Inr d'" "db' = record_selection acct now (gc_server c) d'"
    using out staged by blast
  from d'(1) obtain col where col: "(if ad = [] then Some None else map_option Some (pg_inet ad)) = Some col"
    and acc: "ng_accounts d' = update_where (\<lambda>a. va_id a = acct)
      (\<lambda>a. a\<lparr>va_server := Some (gc_server c), va_wireguard := col, va_updated := now\<rparr>) (ng_accounts db)"
    by (auto simp: assign_account_def split: option.splits if_splits)
  have moved: "a' = (if va_id b = acct then b\<lparr>va_server := Some (gc_server c), va_wireguard := col, va_updated := now\<rparr> else b)"
    "b = a" if "b \<in> set (ng_accounts db)"
      "a' = (if va_id b = acct then b\<lparr>va_server := Some (gc_server c), va_wireguard := col, va_updated := now\<rparr> else b)" for b
  proof -
    have "va_id b = va_id a" using that(2) a(3) by (auto split: if_splits)
    then show "b = a" using distinct_key_eq [OF keys that(1) a(1)] by simp
  qed (rule that(2))
  have "\<exists>b \<in> set (ng_accounts db). a' = (if va_id b = acct then b\<lparr>va_server := Some (gc_server c), va_wireguard := col, va_updated := now\<rparr> else b)"
    using a(2) acc d'(2) by (auto simp: record_selection_def set_update_where)
  then have row: "a' = (if va_id a = acct then a\<lparr>va_server := Some (gc_server c), va_wireguard := col, va_updated := now\<rparr> else a)"
    using moved by blast
  then have id: "va_id a = acct" using a(4) by (auto split: if_splits)
  with row have a': "a' = a\<lparr>va_server := Some (gc_server c), va_wireguard := col, va_updated := now\<rparr>" by simp
  have lk: "lookup_row va_id acct (ng_accounts db) = Some a"
    using lookup_row_unique [OF keys a(1)] id by simp
  from sc(1) lk have ctx: "sc_status sc = va_status a" "sc_current sc = coalesce (va_server a)" "sc_group sc = coalesce (va_group a)"
    "sc_preference sc = (case va_client a of None \<Rightarrow> ''auto'' | Some c \<Rightarrow> c)"
    "sc_enabled sc \<longleftrightarrow> (\<exists>p. lookup_row po_account acct (ng_policies db) = Some p \<and> po_enabled p)"
    by (auto elim!: context_Some)
  have wg: "if gc_protocol c = ''wireguard''
     then \<exists>s w. lookup_row sv_id (gc_server c) (ng_servers db) = Some s \<and> pg_inet (String4 w) = col \<and> col \<noteq> None
        \<and> free_peer (sv_wireguard s) (List.map_filter va_wireguard (select (\<lambda>a. va_server a = Some (gc_server c)) (ng_accounts db))) w
     else col = None"
  proof (cases "gc_protocol c = ''wireguard''")
    case True
    with ad obtain s w where "lookup_row sv_id (gc_server c) (ng_servers db) = Some s" "ad = String4 w"
      "free_peer (sv_wireguard s) (List.map_filter va_wireguard (select (\<lambda>a. va_server a = Some (gc_server c)) (ng_accounts db))) w"
      using allocated_free by fastforce
    with col True show ?thesis by auto
  qed (use ad col in auto)
  have target: "serving db now (coalesce (va_group a)) (gc_server c) (gc_protocol c)"
    "\<exists>s \<in> set (ng_servers db). sv_id s = gc_server c \<and> gc_protocol c = wanted_protocol (case va_client a of None \<Rightarrow> ''auto'' | Some c \<Rightarrow> c) (sv_protocol s)"
    "coalesce (va_server a) \<noteq> gc_server c"
    using evaluate_selected [OF d(1,2)] d(3) unfolding ctx by (simp_all add: eq_commute [of "gc_server c"])
  have policy: "\<exists>p. lookup_row po_account (va_id a) (ng_policies db) = Some p \<and> po_enabled p" "va_status a \<in> {''created'', ''active''}"
    using sc(2,3) unfolding ctx id by simp_all
  show ?thesis
    by (rule exI [of _ "gc_server c"], rule exI [of _ "gc_protocol c"], rule exI [of _ col])
      (use acct id a' wg target policy in \<open>simp only: HOL.simp_thms\<close>)
qed

text \<open>C23. No flapping: after automatic selection has moved or staged an account, no further application
  changes anything before the cooldown has passed, as long as the account's current server is still
  admissible for it, whatever happens to the other tables meanwhile.\<close>

theorem cooldown_respected:
  assumes "ApplyAutomaticSelection fate pg_uuid pg_inet name_key hash64 scorer start t0 acct0 before db = (Inr r, db1)"
    and start: "\<forall>x y d tr d'. start x y d = Inr (tr, d') \<longrightarrow> ng_policies d' = ng_policies d"
    and "db1 \<noteq> db" "pg_uuid acct0 = Some acct" "ng_policies db2 = ng_policies db1"
    and sc: "automaticSelectionContext acct db2 = Some sc" "t1 < t0 + seconds (sc_cooldown sc)"
    and cs: "CandidatesForProtocol name_key (sc_group sc) (automaticSelectionRequiredProtocol (sc_preference sc)) t1 db2 = Inr (strategy, cs)"
    and "c \<in> set cs" "admissible (sc_degraded sc) c" "gc_server c = sc_current sc"
  shows "snd (ApplyAutomaticSelection fate' pg_uuid pg_inet name_key hash64 scorer start t1 acct0 before' db2) = db2"
proof -
  from assms(1,3,4) obtain e r' where body: "apply_body pg_inet name_key hash64 scorer start t0 acct0 acct e db = Commit r' db1"
    by (metis ApplyAutomaticSelection_changes option.inject)
  from apply_body_Commit [OF body] obtain sc0 x where sc0: "automaticSelectionContext acct db = Some sc0" "sc_enabled sc0"
    and out: "(\<exists>tr d'. start acct0 x db = Inr (tr, d') \<and> db1 = record_selection acct t0 x d')
     \<or> (\<exists>ad d'. assign_account pg_inet acct x t0 ad db = Inr d' \<and> db1 = record_selection acct t0 x d')"
    by metis
  have pol: "ng_policies db1 = update_where (\<lambda>p. po_account p = acct) (\<lambda>p. p\<lparr>po_last_at := Some t0, po_last_server := Some x\<rparr>) (ng_policies db)"
    using out start by (auto simp: record_selection_def assign_account_def split: option.splits if_splits)
  from sc0 obtain p where p: "lookup_row po_account acct (ng_policies db) = Some p"
    by (auto elim!: context_Some)
  then have "lookup_row po_account acct (ng_policies db2) = Some (p\<lparr>po_last_at := Some t0, po_last_server := Some x\<rparr>)"
    unfolding assms(5) pol by (subst lookup_update_where) (auto dest: lookup_row_Some)
  with sc have last: "sc_last_at sc = Some t0"
    by (auto simp: automaticSelectionContext_def Let_def split: option.splits)
  show ?thesis
  proof (rule ccontr)
    assume "snd (ApplyAutomaticSelection fate' pg_uuid pg_inet name_key hash64 scorer start t1 acct0 before' db2) \<noteq> db2"
    then obtain e2 r2 db3 where body2: "apply_body pg_inet name_key hash64 scorer start t1 acct0 acct e2 db2 = Commit r2 db3"
      by (metis ApplyAutomaticSelection_changes assms(4) option.inject surjective_pairing)
    from apply_body_Commit [OF body2] sc(1) obtain d b where d: "evaluateAutomaticSelectionAt name_key hash64 scorer sc t1 db2 = Inr d"
      "de_selected d = Some b" "de_status d \<noteq> Current" "de_status d \<noteq> Cooldown" by (metis option.inject)
    have "\<exists>c \<in> set (filter (admissible (sc_degraded sc)) cs). gc_server c = sc_current sc"
      using assms(9-11) by auto
    with d cs last sc(2) show False
      by (auto simp: evaluateAutomaticSelectionAt_def Let_def split: if_splits option.splits)
  qed
qed

section \<open>Witnesses\<close>

definition wz_server :: "string \<Rightarrow> ng_server" where
  "wz_server i = \<lparr>sv_id = i, sv_name = i, sv_protocol = ''vless'', sv_status = ''active'', sv_role = ''vpn'',
     sv_wireguard = [], sv_deployed = []\<rparr>"

definition wz_agent :: "string \<Rightarrow> ng_agent" where
  "wz_agent i = \<lparr>na_server = i, na_status = ''online'', na_seen = Some 0,
     na_caps = Some \<lparr>cap_schema = 1, cap_adapters = [''vless''], cap_cores = [(''sing-box'', ''running'')]\<rparr>,
     na_load1 = None, na_cpus = None\<rparr>"

definition wz_db :: sel_db where
  "wz_db = \<lparr>ng_servers = [wz_server ''s'', wz_server ''t''], ng_agents = [wz_agent ''s'', wz_agent ''t''],
     ng_groups = [\<lparr>gr_id = ''g'', gr_name = ''g'', gr_description = None, gr_strategy = ''priority''\<rparr>],
     ng_members = [\<lparr>m_group = ''g'', m_server = ''s'', m_priority = 5, m_weight = 1, m_enabled = True\<rparr>,
                   \<lparr>m_group = ''g'', m_server = ''t'', m_priority = 4, m_weight = 1, m_enabled = True\<rparr>],
     ng_accounts = [\<lparr>va_id = ''a'', va_status = ''active'', va_server = Some ''s'', va_wireguard = None, va_group = Some ''g'',
                     va_client = None, va_updated = 0\<rparr>],
     ng_policies = [\<lparr>po_account = ''a'', po_enabled = True, po_degraded = False, po_cooldown = 300, po_last_at = None,
                     po_last_server = None\<rparr>]\<rparr>"

definition wz_start :: "string \<Rightarrow> string \<Rightarrow> sel_db \<Rightarrow> sel_error + unit \<times> sel_db" where
  "wz_start x y db = Inl (Sel_Transfer [])"

definition wz_candidate :: "string \<Rightarrow> int \<Rightarrow> group_candidate" where
  "wz_candidate i n = \<lparr>gc_server = i, gc_name = i, gc_protocol = ''vless'', gc_priority = n, gc_weight = 1, gc_enabled = True,
     gc_node = ''active'', gc_agent = ''online'', gc_seen = Some 0, gc_load1 = None, gc_cpus = None, gc_load_per_cpu = None,
     gc_supported = True, gc_topology = None, gc_runtime = ''running'', gc_eligible = True, gc_health = Ready, gc_signals = []\<rparr>"

declare ToLower.simps [simp del] fold_key.simps [simp del]

lemma wz_strings [simp]:
  "ToLower [] = []" "TrimSpace ''vless'' = ''vless''" "TrimSpace ''sing-box'' = ''sing-box''" "TrimSpace ''running'' = ''running''" "TrimSpace ''auto'' = ''auto''"
  "ToLower ''vless'' = ''vless''" "ToLower ''running'' = ''running''" "ToLower ''auto'' = ''auto''"
  by (simp add: ToLower.simps, (rule TrimSpace_clean, simp add: space_byte_def)+) (subst ToLower_ascii; simp add: ascii_def lower_byte_def)+

lemma EqualFold_refl [simp]: "EqualFold s s"
  by (simp add: EqualFold_def)

lemma wz_evidence: "capabilityEvidence (na_caps (wz_agent i)) ''vless'' = (True, ''running'')"
  by (simp add: capabilityEvidence_def wz_agent_def protocolCore_def)

lemma wz_evaluate:
  "0 \<le> now \<Longrightarrow> now \<le> 1 \<Longrightarrow> lookup_row na_server i (ng_agents db) = Some (wz_agent i) \<Longrightarrow>
     evaluateCandidate (candidate_row (\<lambda>p. p) db \<lparr>m_group = ''g'', m_server = i, m_priority = n, m_weight = 1, m_enabled = True\<rparr> (wz_server i)) ''vpn'' now
     = wz_candidate i n"
  using wz_evidence [of i]
  by (simp add: evaluateCandidate_def candidate_signals_def candidate_row_def wz_server_def wz_candidate_def Let_def
      minutes_def seconds_def) (simp add: wz_agent_def minutes_def seconds_def)

lemma wz_candidates:
  assumes "0 \<le> now" "now \<le> 1" "ng_servers db = ng_servers wz_db" "ng_agents db = ng_agents wz_db"
    "ng_groups db = ng_groups wz_db" "ng_members db = ng_members wz_db"
  shows "CandidatesForProtocol (\<lambda>n. n) ''g'' [] now db = Inr (''priority'', [wz_candidate ''t'' 4, wz_candidate ''s'' 5])"
proof -
  have rows: "group_rows (\<lambda>n. n) ''g'' db = [(\<lparr>m_group = ''g'', m_server = ''t'', m_priority = 4, m_weight = 1, m_enabled = True\<rparr>, wz_server ''t''),
      (\<lparr>m_group = ''g'', m_server = ''s'', m_priority = 5, m_weight = 1, m_enabled = True\<rparr>, wz_server ''s'')]"
    by (simp add: group_rows_def assms wz_db_def select_def wz_server_def)
  have ag: "lookup_row na_server ''s'' (ng_agents db) = Some (wz_agent ''s'')" "lookup_row na_server ''t'' (ng_agents db) = Some (wz_agent ''t'')"
    by (simp_all add: assms wz_db_def lookup_row_def wz_agent_def)
  have role: "sv_role (wz_server i) = ''vpn''" for i by (simp add: wz_server_def)
  have "lookup_row gr_id ''g'' (ng_groups db) = Some (hd (ng_groups wz_db))" "gr_strategy (hd (ng_groups wz_db)) = ''priority''"
    by (simp_all add: assms(5) wz_db_def lookup_row_def)
  then show ?thesis
    by (simp add: CandidatesForProtocol_def Candidates_def rows role wz_evaluate [OF assms(1,2) ag(1)] wz_evaluate [OF assms(1,2) ag(2)])
qed

theorem select_candidate_spec_witness:
  "\<exists>c rs. SelectCandidate (\<lambda>_. 0) (\<lambda>_ w. w) ''a'' ''priority'' [wz_candidate ''s'' 5, wz_candidate ''t'' 4] False = Some (c, rs)
     \<and> winner (\<lambda>_. 0) (\<lambda>_ w. w) ''a'' ''priority'' False {wz_candidate ''s'' 5, wz_candidate ''t'' 4} c"
proof -
  have "SelectCandidate (\<lambda>_. 0) (\<lambda>_ w. w) ''a'' ''priority'' [wz_candidate ''s'' 5, wz_candidate ''t'' 4] False \<noteq> None"
    by (simp add: SelectCandidate_None admissible_def wz_candidate_def)
  then show ?thesis
    using select_candidate_spec [of "[wz_candidate ''s'' 5, wz_candidate ''t'' 4]" False "\<lambda>_. 0" "\<lambda>_ w. w" "''a''" "''priority''"]
    by auto
qed

lemma wz_select:
  "SelectCandidate (\<lambda>_. 0) (\<lambda>_ w :: int. w) ''a'' ''priority'' [wz_candidate ''t'' 4, wz_candidate ''s'' 5] False
     = Some (wz_candidate ''t'' 4, reasons_of ''priority'' (wz_candidate ''t'' 4))"
  by (simp add: SelectCandidate_def wz_candidate_def reasons_of_def)

theorem selection_stable_witness:
  "SelectCandidate (\<lambda>_. 0) (\<lambda>_ w :: int. w) ''a'' ''priority'' [wz_candidate ''t'' 4] False
     = Some (wz_candidate ''t'' 4, reasons_of ''priority'' (wz_candidate ''t'' 4))"
proof -
  have "inj_on gc_server (insert (wz_candidate ''u'' 9) (set [wz_candidate ''t'' 4, wz_candidate ''s'' 5]))"
    by (simp add: wz_candidate_def)
  from selection_stable [OF this wz_select] show ?thesis by simp
qed

definition wz_apply :: "time \<Rightarrow> sel_db \<Rightarrow> (sel_error + unit apply_response) \<times> sel_db" where
  "wz_apply now db = ApplyAutomaticSelection Committed Some Some (\<lambda>n. n) (\<lambda>_. 0) (\<lambda>_ w :: int. w) wz_start now ''a'' wz_db db"

lemma wz_candidate_sel [simp]:
  "gc_server (wz_candidate i n) = i" "gc_protocol (wz_candidate i n) = ''vless''" "admissible deg (wz_candidate i n)"
  by (simp_all add: wz_candidate_def admissible_def)

definition wz_context :: "string \<Rightarrow> time option \<Rightarrow> selection_context" where
  "wz_context cur lst = \<lparr>sc_account = ''a'', sc_status = ''active'', sc_current = cur, sc_group = ''g'', sc_preference = ''auto'',
     sc_enabled = True, sc_degraded = False, sc_cooldown = 300, sc_last_at = lst\<rparr>"

lemma wz_context: "automaticSelectionContext ''a'' wz_db = Some (wz_context ''s'' None)"
  by (simp add: automaticSelectionContext_def lookup_row_def wz_db_def coalesce_def wz_context_def)

lemma wz_decision:
  obtains d where "evaluateAutomaticSelectionAt (\<lambda>n. n) (\<lambda>_. 0) (\<lambda>_ w :: int. w) (wz_context ''s'' None) 0 wz_db = Inr d"
    "de_status d = Selected" "de_selected d = Some (wz_candidate ''t'' 4)"
proof -
  have cs: "CandidatesForProtocol (\<lambda>n. n) ''g'' [] 0 wz_db = Inr (''priority'', [wz_candidate ''t'' 4, wz_candidate ''s'' 5])"
    by (rule wz_candidates) simp_all
  have "\<exists>d. evaluateAutomaticSelectionAt (\<lambda>n. n) (\<lambda>_. 0) (\<lambda>_ w :: int. w) (wz_context ''s'' None) 0 wz_db = Inr d
      \<and> de_status d = Selected \<and> de_selected d = Some (wz_candidate ''t'' 4)"
    by (simp add: evaluateAutomaticSelectionAt_def wz_context_def automaticSelectionRequiredProtocol_def cs wz_select Let_def)
  then show thesis using that by blast
qed

definition wz_after :: sel_db where
  "wz_after = wz_db\<lparr>
     ng_accounts := [(hd (ng_accounts wz_db))\<lparr>va_server := Some ''t'', va_wireguard := None, va_updated := 0\<rparr>],
     ng_policies := [(hd (ng_policies wz_db))\<lparr>po_last_at := Some 0, po_last_server := Some ''t''\<rparr>]\<rparr>"

lemma wz_applied: "\<exists>r. wz_apply 0 wz_db = (Inr r, wz_after)"
proof -
  obtain d where d: "evaluateAutomaticSelectionAt (\<lambda>n. n) (\<lambda>_. 0) (\<lambda>_ w :: int. w) (wz_context ''s'' None) 0 wz_db = Inr d"
    "de_status d = Selected" "de_selected d = Some (wz_candidate ''t'' 4)" by (rule wz_decision)
  have a: "lookup_row va_id ''a'' (ng_accounts wz_db) = Some (hd (ng_accounts wz_db))" "coalesce (va_server (hd (ng_accounts wz_db))) = ''s''"
    by (simp_all add: wz_db_def lookup_row_def coalesce_def)
  have "\<not> (\<exists>s \<in> set (ng_servers wz_db). sv_id s = ''s'' \<and> ''a'' \<in> set (sv_deployed s))"
    by (simp add: wz_db_def wz_server_def)
  moreover have "assign_account Some ''a'' ''t'' 0 [] wz_db
      = Inr (wz_db\<lparr>ng_accounts := [(hd (ng_accounts wz_db))\<lparr>va_server := Some ''t'', va_wireguard := None, va_updated := 0\<rparr>]\<rparr>)"
    by (simp add: assign_account_def update_where_def wz_db_def)
  moreover have "record_selection ''a'' 0 ''t'' (wz_db\<lparr>ng_accounts := x\<rparr>) = wz_db\<lparr>ng_accounts := x,
      ng_policies := [(hd (ng_policies wz_db))\<lparr>po_last_at := Some 0, po_last_server := Some ''t''\<rparr>]\<rparr>" for x
    by (simp add: record_selection_def update_where_def wz_db_def)
  ultimately show ?thesis
    by (simp add: wz_apply_def ApplyAutomaticSelection_def a apply_body_def wz_context d Let_def wz_after_def) (auto simp: wz_context_def)
qed

theorem cooldown_respected_witness: "snd (wz_apply 1 wz_after) = wz_after"
proof -
  from wz_applied obtain r where r: "ApplyAutomaticSelection Committed Some Some (\<lambda>n. n) (\<lambda>_. 0) (\<lambda>_ w :: int. w) wz_start 0 ''a'' wz_db wz_db
      = (Inr r, wz_after)" unfolding wz_apply_def by blast
  have st: "\<forall>x y d tr d'. wz_start x y d = Inr (tr, d') \<longrightarrow> ng_policies d' = ng_policies d" by (simp add: wz_start_def)
  have ne: "wz_after \<noteq> wz_db"
  proof
    assume "wz_after = wz_db"
    then have "ng_accounts wz_after = ng_accounts wz_db" by simp
    then show False by (simp add: wz_after_def wz_db_def)
  qed
  have ctx: "automaticSelectionContext ''a'' wz_after = Some (wz_context ''t'' (Some 0))"
    by (simp add: automaticSelectionContext_def lookup_row_def wz_after_def wz_db_def coalesce_def wz_context_def)
  have lt: "1 < 0 + seconds (sc_cooldown (wz_context ''t'' (Some 0)))" by (simp add: wz_context_def seconds_def)
  have cs: "CandidatesForProtocol (\<lambda>n. n) (sc_group (wz_context ''t'' (Some 0)))
      (automaticSelectionRequiredProtocol (sc_preference (wz_context ''t'' (Some 0)))) 1 wz_after
      = Inr (''priority'', [wz_candidate ''t'' 4, wz_candidate ''s'' 5])"
    using wz_candidates [of 1 wz_after] by (simp add: wz_context_def automaticSelectionRequiredProtocol_def wz_after_def)
  show ?thesis unfolding wz_apply_def
    by (rule cooldown_respected [OF r st ne _ _ ctx lt cs, of "wz_candidate ''t'' 4"]) (simp_all add: wz_context_def)
qed

section \<open>Well-formed groups\<close>

definition groups_wf :: "(string \<Rightarrow> string) \<Rightarrow> ('z sel_db_scheme) \<Rightarrow> bool" where
  "groups_wf name_ci db \<longleftrightarrow>
     distinct (map gr_id (ng_groups db)) \<and> distinct (map (\<lambda>g. name_ci (gr_name g)) (ng_groups db))
     \<and> (\<forall>g \<in> set (ng_groups db). gr_strategy g \<in> {''priority'', ''weighted''})
     \<and> distinct (map (\<lambda>m. (m_group m, m_server m)) (ng_members db))
     \<and> (\<forall>m \<in> set (ng_members db). m_group m \<in> gr_id ` set (ng_groups db)
          \<and> 0 \<le> m_priority m \<and> m_priority m \<le> 10000 \<and> 1 \<le> m_weight m \<and> m_weight m \<le> 1000)
     \<and> (\<forall>a \<in> set (ng_accounts db). \<forall>g. va_group a = Some g \<longrightarrow> g \<in> gr_id ` set (ng_groups db))"

lemma create_wf:
  assumes "groups_wf name_ci db" "fresh \<notin> gr_id ` set (ng_groups db)"
  shows "groups_wf name_ci (snd (CreateNodeGroup name_ci row_ok fresh name desc strategy db))"
proof (cases "group_write name_ci row_ok \<lparr>gr_id = fresh, gr_name = name, gr_description = null_if_empty desc, gr_strategy = strategy\<rparr> db")
  case None
  then have "\<forall>h \<in> set (ng_groups db). name_ci (gr_name h) \<noteq> name_ci name" "strategy \<in> {''priority'', ''weighted''}"
    using assms(2) by (auto simp: group_write_def split: if_splits)
  with None assms show ?thesis
    by (auto simp: CreateNodeGroup_def groups_wf_def Let_def image_iff)
qed (use assms in \<open>simp add: CreateNodeGroup_def Let_def\<close>)

lemma update_distinct:
  assumes "distinct (map k t)" "distinct (map f t)" "k g = v" "\<forall>h \<in> set t. k h \<noteq> v \<longrightarrow> f h \<noteq> f g"
  shows "distinct (map f (update_where (\<lambda>h. k h = v) (\<lambda>_. g) t))"
  using assms by (induction t) (auto simp: update_where_def image_iff)

lemma update_wf:
  assumes "groups_wf name_ci db"
  shows "groups_wf name_ci (snd (UpdateNodeGroup name_ci row_ok pg_uuid gid0 name desc strategy db))"
proof -
  define res where "res = UpdateNodeGroup name_ci row_ok pg_uuid gid0 name desc strategy db"
  consider "snd res = db"
    | gid g where "gr_id g = gid" "group_write name_ci row_ok g db = None" "gid \<in> gr_id ` set (ng_groups db)"
      "snd res = db\<lparr>ng_groups := update_where (\<lambda>h. gr_id h = gid) (\<lambda>_. g) (ng_groups db)\<rparr>"
  proof (cases "pg_uuid gid0")
    case None
    then show thesis using that(1) by (simp add: res_def UpdateNodeGroup_def)
  next
    case (Some gid)
    show thesis
    proof (cases "lookup_row gr_id gid (ng_groups db)")
      case None
      with Some show thesis using that(1) by (simp add: res_def UpdateNodeGroup_def)
    next
      case g0: (Some g0)
      define g where "g = g0\<lparr>gr_name := (case name of None \<Rightarrow> gr_name g0 | Some n \<Rightarrow> n),
        gr_description := (case desc of None \<Rightarrow> gr_description g0 | Some d \<Rightarrow> null_if_empty d),
        gr_strategy := (case strategy of None \<Rightarrow> gr_strategy g0 | Some v \<Rightarrow> v)\<rparr>"
      have r: "res = (case group_write name_ci row_ok g db of Some e \<Rightarrow> (Inl e, db)
        | None \<Rightarrow> (Inr g, db\<lparr>ng_groups := update_where (\<lambda>h. gr_id h = gid) (\<lambda>_. g) (ng_groups db)\<rparr>))"
        using Some g0 by (simp add: res_def UpdateNodeGroup_def g_def [symmetric] Let_def)
      have "gr_id g = gid" "gid \<in> gr_id ` set (ng_groups db)"
        using lookup_row_Some [OF g0] by (auto simp: g_def)
      with r show thesis using that by (cases "group_write name_ci row_ok g db") auto
    qed
  qed
  then show ?thesis
  proof cases
    case 2
    have s: "gr_strategy g \<in> {''priority'', ''weighted''}" "\<forall>h \<in> set (ng_groups db). gr_id h \<noteq> gid \<longrightarrow> name_ci (gr_name h) \<noteq> name_ci (gr_name g)"
      using 2(1,2) by (auto simp: group_write_def split: if_splits)
    have ids: "map gr_id (update_where (\<lambda>h. gr_id h = gid) (\<lambda>_. g) (ng_groups db)) = map gr_id (ng_groups db)"
      using 2(1) by (auto simp: update_where_def)
    then have "gr_id ` set (update_where (\<lambda>h. gr_id h = gid) (\<lambda>_. g) (ng_groups db)) = gr_id ` set (ng_groups db)"
      by (metis set_map)
    moreover have "distinct (map (\<lambda>g. name_ci (gr_name g)) (update_where (\<lambda>h. gr_id h = gid) (\<lambda>_. g) (ng_groups db)))"
      using assms 2(1) s(2) by (intro update_distinct) (auto simp: groups_wf_def)
    ultimately show ?thesis
      using assms ids s(1) unfolding res_def [symmetric] 2(4) by (auto simp: groups_wf_def set_update_where)
  qed (use assms res_def in simp)
qed

lemma delete_wf:
  assumes "groups_wf name_ci db"
  shows "groups_wf name_ci (snd (DeleteNodeGroup pg_uuid gid0 db))"
proof (cases "snd (DeleteNodeGroup pg_uuid gid0 db) = db")
  case False
  then obtain gid where free: "\<forall>a \<in> set (ng_accounts db). va_group a \<noteq> Some gid"
    and res: "snd (DeleteNodeGroup pg_uuid gid0 db) = db\<lparr>ng_groups := filter (\<lambda>g. gr_id g \<noteq> gid) (ng_groups db),
                           ng_members := filter (\<lambda>m. m_group m \<noteq> gid) (ng_members db)\<rparr>"
    by (auto simp: DeleteNodeGroup_def split: option.splits if_splits)
  have ids: "gr_id ` set (filter (\<lambda>g. gr_id g \<noteq> gid) (ng_groups db)) = gr_id ` set (ng_groups db) - {gid}" by auto
  show ?thesis unfolding res using assms free
    by (simp add: groups_wf_def distinct_map_filter ids del: set_filter) auto
qed (use assms in simp)

lemma delete_member_wf:
  assumes "groups_wf name_ci db"
  shows "groups_wf name_ci (snd (DeleteMember pg_uuid gid0 sid0 db))"
  using assms by (auto simp: DeleteMember_def groups_wf_def distinct_map_filter Let_def split: option.splits)

lemma upsert_wf:
  assumes "groups_wf name_ci db"
  shows "groups_wf name_ci (snd (UpsertMember pg_uuid gid0 sid0 priority weight enabled db))"
proof (cases "snd (UpsertMember pg_uuid gid0 sid0 priority weight enabled db) = db")
  case False
  then obtain gid sid where ok: "gid \<in> gr_id ` set (ng_groups db)" "0 \<le> priority" "priority \<le> 10000" "1 \<le> weight" "weight \<le> 1000"
    and res: "snd (UpsertMember pg_uuid gid0 sid0 priority weight enabled db) = db\<lparr>ng_members :=
      (if \<exists>m \<in> set (ng_members db). m_group m = gid \<and> m_server m = sid
       then update_where (\<lambda>m. m_group m = gid \<and> m_server m = sid)
              (\<lambda>_. \<lparr>m_group = gid, m_server = sid, m_priority = priority, m_weight = weight, m_enabled = enabled\<rparr>) (ng_members db)
       else ng_members db @ [\<lparr>m_group = gid, m_server = sid, m_priority = priority, m_weight = weight, m_enabled = enabled\<rparr>])\<rparr>"
    by (auto simp: UpsertMember_def Let_def split: option.splits if_splits)
  have "map (\<lambda>m. (m_group m, m_server m)) (update_where (\<lambda>m. m_group m = gid \<and> m_server m = sid)
      (\<lambda>_. \<lparr>m_group = gid, m_server = sid, m_priority = priority, m_weight = weight, m_enabled = enabled\<rparr>) (ng_members db))
    = map (\<lambda>m. (m_group m, m_server m)) (ng_members db)"
    by (auto simp: update_where_def)
  then show ?thesis unfolding res using assms ok
    by (auto simp: groups_wf_def set_update_where)
qed (use assms in simp)

text \<open>The group tables stay well-formed: unique ids and names, known strategies, one row per member
  with priority and weight in range, every member and every assigned account of an existing group.  Every
  operation on groups and members keeps this, whether it succeeds or is refused.\<close>

theorem groups_stay_wf:
  assumes "groups_wf name_ci db" "fresh \<notin> gr_id ` set (ng_groups db)"
  shows "groups_wf name_ci (snd (CreateNodeGroup name_ci row_ok fresh name desc strategy db))
    \<and> groups_wf name_ci (snd (UpdateNodeGroup name_ci row_ok pg_uuid gid name' desc' strategy' db))
    \<and> groups_wf name_ci (snd (DeleteNodeGroup pg_uuid gid db))
    \<and> groups_wf name_ci (snd (UpsertMember pg_uuid gid sid priority weight enabled db))
    \<and> groups_wf name_ci (snd (DeleteMember pg_uuid gid sid db))"
  using assms by (intro conjI create_wf update_wf delete_wf upsert_wf delete_member_wf)

theorem groups_stay_wf_witness:
  "groups_wf (\<lambda>n. n) (snd (CreateNodeGroup (\<lambda>n. n) (\<lambda>_. True) ''h'' ''h'' [] ''weighted'' wz_db))
   \<and> length (ng_groups (snd (CreateNodeGroup (\<lambda>n. n) (\<lambda>_. True) ''h'' ''h'' [] ''weighted'' wz_db))) = 2"
proof
  have "groups_wf (\<lambda>n. n) wz_db" "''h'' \<notin> gr_id ` set (ng_groups wz_db)" by (simp_all add: groups_wf_def wz_db_def)
  from groups_stay_wf [OF this] show "groups_wf (\<lambda>n. n) (snd (CreateNodeGroup (\<lambda>n. n) (\<lambda>_. True) ''h'' ''h'' [] ''weighted'' wz_db))"
    by blast
qed (simp add: CreateNodeGroup_def group_write_def wz_db_def Let_def)

end
