(* ===== verification/Effects.thy ===== *)
theory Effects
  imports Prelude
begin

text \<open>
  Sequences of statements that can fail.  An \<open>effect\<close> maps the database to a result and the database
  afterwards; a failure keeps what was written before it, as statements outside a transaction do, and
  \<open>atomically\<close> is a transaction or a savepoint, which undoes it.  The locale \<open>frame\<close> lifts a
  reflexive and transitive relation between databases from single statements to whole programs.
\<close>

type_synonym ('e, 's, 'a) effect = "'s \<Rightarrow> ('e + 'a) \<times> 's"

named_theorems effect_defs

definition ok :: "'a \<Rightarrow> ('e, 's, 'a) effect" where
  "ok x s = (Inr x, s)"

definition fail :: "'e \<Rightarrow> ('e, 's, 'a) effect" where
  "fail e s = (Inl e, s)"

definition andThen :: "('e, 's, 'a) effect \<Rightarrow> ('a \<Rightarrow> ('e, 's, 'b) effect) \<Rightarrow> ('e, 's, 'b) effect" where
  "andThen m f s = (case m s of (Inl e, s') \<Rightarrow> (Inl e, s') | (Inr x, s') \<Rightarrow> f x s')"

definition need :: "bool \<Rightarrow> 'e \<Rightarrow> ('e, 's, unit) effect" where
  "need b e = (if b then ok () else fail e)"

definition look :: "('s \<Rightarrow> 'a) \<Rightarrow> ('e, 's, 'a) effect" where
  "look g s = (Inr (g s), s)"

definition some_or :: "'e \<Rightarrow> 'a option \<Rightarrow> ('e, 's, 'a) effect" where
  "some_or e v = (case v of None \<Rightarrow> fail e | Some x \<Rightarrow> ok x)"

definition change :: "('s \<Rightarrow> 's) \<Rightarrow> ('e, 's, unit) effect" where
  "change f s = (Inr (), f s)"

definition atomically :: "('e, 's, 'a) effect \<Rightarrow> ('e, 's, 'a) effect" where
  "atomically m s = (case m s of (Inl e, _) \<Rightarrow> (Inl e, s) | (Inr x, s') \<Rightarrow> (Inr x, s'))"

text \<open>A query that must find its row, and one that is checked.\<close>

definition find_or :: "'e \<Rightarrow> ('s \<Rightarrow> 'a option) \<Rightarrow> ('e, 's, 'a) effect" where
  "find_or e g = andThen (look g) (some_or e)"

definition check :: "('s \<Rightarrow> bool) \<Rightarrow> 'e \<Rightarrow> ('e, 's, unit) effect" where
  "check P e = andThen (look P) (\<lambda>b. need b e)"

section \<open>Successful runs\<close>

lemma ok_Inr [effect_defs]: "ok x s = (Inr y, s') \<longleftrightarrow> y = x \<and> s' = s"
  by (auto simp: ok_def)

lemma fail_Inr [effect_defs]: "fail e s = (Inr y, s') \<longleftrightarrow> False"
  by (simp add: fail_def)

lemma andThen_Inr [effect_defs]:
  "andThen m f s = (Inr y, s'') \<longleftrightarrow> (\<exists>x s'. m s = (Inr x, s') \<and> f x s' = (Inr y, s''))"
  by (auto simp: andThen_def split: prod.splits sum.splits)

lemma need_Inr [effect_defs]: "need b e s = (Inr y, s') \<longleftrightarrow> b \<and> s' = s"
  by (auto simp: need_def ok_def fail_def)

lemma look_Inr [effect_defs]: "look g s = (Inr y, s') \<longleftrightarrow> y = g s \<and> s' = s"
  by (auto simp: look_def)

lemma some_or_Inr [effect_defs]: "some_or e v s = (Inr y, s') \<longleftrightarrow> v = Some y \<and> s' = s"
  by (auto simp: some_or_def ok_def fail_def split: option.splits)

lemma change_Inr [effect_defs]: "change f s = (Inr y, s') \<longleftrightarrow> s' = f s"
  by (auto simp: change_def)

lemma find_or_Inr [effect_defs]: "find_or e g s = (Inr y, s') \<longleftrightarrow> g s = Some y \<and> s' = s"
  by (auto simp: find_or_def effect_defs)

lemma check_Inr [effect_defs]: "check P e s = (Inr y, s') \<longleftrightarrow> P s \<and> s' = s"
  by (auto simp: check_def effect_defs)

lemma atomically_Inr [effect_defs]: "atomically m s = (Inr y, s') \<longleftrightarrow> m s = (Inr y, s')"
  by (auto simp: atomically_def split: prod.splits sum.splits)

lemma atomically_Inl: "atomically m s = (Inl e, s') \<Longrightarrow> s' = s"
  by (auto simp: atomically_def split: prod.splits sum.splits)

section \<open>Evaluation on the way to a failure or a result\<close>

lemma andThen_run:
  "m s = (Inr x, s') \<Longrightarrow> andThen m f s = f x s'"
  "m s = (Inl e, s') \<Longrightarrow> andThen m f s = (Inl e, s')"
  by (simp_all add: andThen_def)

lemmas effect_run = andThen_def need_def look_def some_or_def change_def atomically_def find_or_def check_def ok_def fail_def

section \<open>Frames\<close>

definition keeps :: "('s \<Rightarrow> 's \<Rightarrow> bool) \<Rightarrow> ('e, 's, 'a) effect \<Rightarrow> bool" where
  "keeps R m \<longleftrightarrow> (\<forall>s. R s (snd (m s)))"

lemma keepsD: "keeps R m \<Longrightarrow> m s = (r, s') \<Longrightarrow> R s s'"
  by (metis keeps_def snd_conv)

locale frame =
  fixes R :: "'s \<Rightarrow> 's \<Rightarrow> bool"
  assumes frame_refl: "R s s"
    and frame_trans: "R s t \<Longrightarrow> R t u \<Longrightarrow> R s u"
begin

lemma keeps_ok: "keeps R (ok x)"
  by (simp add: keeps_def ok_def frame_refl)

lemma keeps_fail: "keeps R (fail e)"
  by (simp add: keeps_def fail_def frame_refl)

lemma keeps_need: "keeps R (need b e)"
  by (simp add: keeps_def need_def ok_def fail_def frame_refl)

lemma keeps_look: "keeps R (look g)"
  by (simp add: keeps_def look_def frame_refl)

lemma keeps_some_or: "keeps R (some_or e v)"
  by (simp add: keeps_def some_or_def ok_def fail_def frame_refl split: option.splits)

lemma keeps_change: "(\<And>s. R s (f s)) \<Longrightarrow> keeps R (change f)"
  by (simp add: keeps_def change_def)

lemma keeps_andThen: "keeps R m \<Longrightarrow> (\<And>x. keeps R (f x)) \<Longrightarrow> keeps R (andThen m f)"
  unfolding keeps_def andThen_def by (auto split: prod.splits sum.splits) (metis frame_trans snd_conv)+

lemma keeps_atomically: "keeps R m \<Longrightarrow> keeps R (atomically m)"
  unfolding keeps_def atomically_def by (auto split: prod.splits sum.splits simp: frame_refl) (metis snd_conv)

lemma keeps_if: "(b \<Longrightarrow> keeps R m) \<Longrightarrow> (\<not> b \<Longrightarrow> keeps R m') \<Longrightarrow> keeps R (if b then m else m')"
  by simp

lemma keeps_option: "keeps R m \<Longrightarrow> (\<And>x. v = Some x \<Longrightarrow> keeps R (f x)) \<Longrightarrow> keeps R (case v of None \<Rightarrow> m | Some x \<Rightarrow> f x)"
  by (simp split: option.splits)

lemma keeps_find_or: "keeps R (find_or e g)"
  unfolding find_or_def by (intro keeps_andThen keeps_look keeps_some_or)

lemma keeps_check: "keeps R (check P e)"
  unfolding check_def by (intro keeps_andThen keeps_look keeps_need)

lemmas keeps_pure = keeps_ok keeps_fail keeps_need keeps_look keeps_some_or keeps_find_or keeps_check

lemmas keeps_rules = keeps_pure keeps_andThen keeps_atomically keeps_if keeps_option

end

end
