(* ===== verification/Golib.thy ===== *)
theory Golib
  imports Netip
begin

text \<open>
  More of the Go standard library, as the configuration renderer uses it: decimal printing
  (\<open>strconv.Itoa\<close>), \<open>strings.Cut\<close> and \<open>ReplaceAll\<close>, base64 (\<open>encoding/base64\<close>, standard and raw URL
  alphabets), the printer of prefixes (\<open>net/netip\<close>), values of type \<open>map[string]any\<close>, and maps from
  strings to strings.
\<close>

section \<open>Decimal numbers\<close>

fun show_nat :: "nat \<Rightarrow> string" where
  "show_nat n = (if n < 10 then [digit n] else show_nat (n div 10) @ [digit (n mod 10)])"

declare show_nat.simps [simp del]

definition Itoa :: "int \<Rightarrow> string" where
  "Itoa v = (if v < 0 then CHR ''-'' # show_nat (nat (- v)) else show_nat (nat v))"

lemma show_nat_not_Nil [simp]: "show_nat n \<noteq> []"
  by (subst show_nat.simps) simp

lemma show_nat_digits: "list_all is_digit (show_nat n)"
  by (induction n rule: show_nat.induct) (subst show_nat.simps, simp)

lemma decimal_snoc: "decimal (s @ [c]) = 10 * decimal s + int (of_char c - 48)"
  by (simp add: decimal_def)

lemma decimal_show_nat: "decimal (show_nat n) = int n"
proof (induction n rule: show_nat.induct)
  case (1 n)
  show ?case
  proof (cases "n < 10")
    case True
    then show ?thesis by (subst show_nat.simps) (simp add: decimal_def)
  next
    case False
    with 1 have "decimal (show_nat n) = 10 * int (n div 10) + int (n mod 10)"
      by (subst show_nat.simps) (simp add: decimal_snoc)
    then have "decimal (show_nat n) = int (10 * (n div 10) + n mod 10)" by (simp only: of_nat_add of_nat_mult of_nat_numeral)
    then show ?thesis by (simp only: mult_div_mod_eq)
  qed
qed

lemma digits_no_sign: "list_all is_digit s \<Longrightarrow> s \<noteq> [] \<Longrightarrow> \<not> prefix ''-'' s \<and> \<not> prefix ''+'' s"
  by (cases s) (auto simp: is_digit_def)

lemma Atoi_Itoa: "0 \<le> v \<Longrightarrow> v \<le> int64_max \<Longrightarrow> Atoi (Itoa v) = Some v"
proof -
  assume v: "0 \<le> v" "v \<le> int64_max"
  let ?s = "show_nat (nat v)"
  have s: "\<not> prefix ''-'' ?s \<and> \<not> prefix ''+'' ?s"
    by (rule digits_no_sign [OF show_nat_digits show_nat_not_Nil])
  then show ?thesis using v
    by (simp add: Atoi_def Itoa_def Let_def show_nat_digits decimal_show_nat int64_min_def)
qed

lemma Itoa_nat: "0 \<le> v \<Longrightarrow> Itoa v = show_nat (nat v)"
  by (simp add: Itoa_def)

section \<open>Strings\<close>

abbreviation newline :: char where "newline \<equiv> CHR 0x0A"
abbreviation carriage_return :: char where "carriage_return \<equiv> CHR 0x0D"

text \<open>\<open>strings.Cut(s, sep)\<close> for a separator of one byte.\<close>

fun Cut :: "char \<Rightarrow> string \<Rightarrow> (string \<times> string) option" where
  "Cut d [] = None"
| "Cut d (c # s) = (if c = d then Some ([], s) else map_option (\<lambda>(k, v). (c # k, v)) (Cut d s))"

lemma Cut_append: "d \<notin> set k \<Longrightarrow> Cut d (k @ d # v) = Some (k, v)"
  by (induction k) auto

definition ReplaceAll :: "string \<Rightarrow> char \<Rightarrow> char \<Rightarrow> string" where
  "ReplaceAll s a b = map (\<lambda>c. if c = a then b else c) s"

section \<open>Trimming\<close>

lemma trim_front_drops:
  assumes "\<forall>p \<in> set ps. \<forall>c \<in> set p. space_byte c"
  shows "\<exists>d. s = d @ trim_front ps s \<and> (\<forall>c \<in> set d. space_byte c)"
  using assms
proof (induction ps s rule: trim_front.induct)
  case (1 ps s)
  show ?case
  proof (cases "find_prefix ps s")
    case None
    then show ?thesis by (intro exI [of _ "[]"]) (simp add: trim_front.simps [of ps s])
  next
    case (Some p)
    show ?thesis
    proof (cases "p = []")
      case True
      with Some show ?thesis by (intro exI [of _ "[]"]) (simp add: trim_front.simps [of ps s])
    next
      case False
      obtain d where d: "drop (length p) s = d @ trim_front ps (drop (length p) s)" "\<forall>c \<in> set d. space_byte c"
        using 1(1) [OF Some False 1(2)] by blast
      have p: "p \<in> set ps" "prefix p s" using find_prefix_Some [OF Some] by auto
      then have "s = p @ drop (length p) s" by (auto simp: prefix_def)
      with d(1) have "s = (p @ d) @ trim_front ps s"
        using Some False by (simp add: trim_front.simps [of ps s])
      moreover have "\<forall>c \<in> set (p @ d). space_byte c" using d(2) p(1) 1(2) by auto
      ultimately show ?thesis by blast
    qed
  qed
qed

lemma go_spaces_all: "\<forall>p \<in> set go_spaces. \<forall>c \<in> set p. space_byte c"
  using go_spaces_bytes by blast

lemma rev_go_spaces_all: "\<forall>p \<in> set (map rev go_spaces). \<forall>c \<in> set p. space_byte c"
  using go_spaces_bytes by auto

lemma trim_front_first:
  assumes "s \<noteq> []" "\<not> space_byte (hd s)" "\<forall>p \<in> set ps. \<forall>c \<in> set p. space_byte c"
  shows "trim_front ps s = s"
proof -
  obtain d where d: "s = d @ trim_front ps s" "\<forall>c \<in> set d. space_byte c"
    using trim_front_drops [OF assms(3)] by blast
  then have "d = []" using assms(1,2) by (metis hd_append2 hd_in_set)
  with d(1) show ?thesis by simp
qed

text \<open>A string that begins and ends with a printable ASCII character is left alone; one that begins with
  one keeps it.\<close>

lemma TrimSpace_edges:
  assumes "s \<noteq> []" "\<not> space_byte (hd s)" "\<not> space_byte (last s)"
  shows "TrimSpace s = s"
  unfolding TrimSpace_def
  using trim_front_first [OF assms(1,2) go_spaces_all] trim_front_first [of "rev s", OF _ _ rev_go_spaces_all] assms
  by (simp add: hd_rev)

lemma TrimSpace_head:
  assumes "s \<noteq> []" "\<not> space_byte (hd s)"
  shows "TrimSpace s \<noteq> [] \<and> hd (TrimSpace s) = hd s"
proof -
  obtain d where d: "rev s = d @ trim_front (map rev go_spaces) (rev s)" "\<forall>c \<in> set d. space_byte c"
    using trim_front_drops [OF rev_go_spaces_all] by blast
  have t: "TrimSpace s = rev (trim_front (map rev go_spaces) (rev s))"
    using trim_front_first [OF assms go_spaces_all] by (simp add: TrimSpace_def)
  then have s: "s = TrimSpace s @ rev d" using d(1) by (metis rev_append rev_rev_ident)
  show ?thesis
  proof (cases "TrimSpace s")
    case Nil
    with s have "s = rev d" by simp
    with assms d(2) have False by (metis hd_in_set set_rev)
    then show ?thesis ..
  next
    case (Cons c r)
    with s show ?thesis by (metis hd_append list.distinct(1))
  qed
qed

lemma TrimSpace_sub: "set (TrimSpace s) \<subseteq> set s"
proof -
  let ?f = "trim_front go_spaces s"
  have "set (trim_front (map rev go_spaces) (rev ?f)) \<subseteq> set (rev ?f)"
    by (rule set_mono_suffix, rule trim_front_suffix)
  moreover have "set ?f \<subseteq> set s" by (rule set_mono_suffix, rule trim_front_suffix)
  ultimately show ?thesis by (auto simp: TrimSpace_def)
qed

lemma trim_front_step:
  assumes "find_prefix ps s = Some p" "p \<noteq> []"
  shows "trim_front ps s = trim_front ps (drop (length p) s)"
  using assms by (simp add: trim_front.simps [of ps s])

lemma find_prefix_char:
  assumes "[c] \<in> set ps" "\<forall>q \<in> set ps. q \<noteq> [] \<and> (hd q = c \<longrightarrow> q = [c])"
  shows "find_prefix ps (c # s) = Some [c]"
  using assms
proof (induction ps)
  case (Cons q ps)
  have q: "q \<noteq> []" "hd q = c \<longrightarrow> q = [c]" using Cons.prems(2) by simp_all
  show ?case
  proof (cases "q = [c]")
    case False
    with q have "\<not> prefix q (c # s)" by (cases q) auto
    moreover have "find_prefix ps (c # s) = Some [c]"
    proof (rule Cons.IH)
      show "[c] \<in> set ps" using Cons.prems(1) False by simp
      show "\<forall>q \<in> set ps. q \<noteq> [] \<and> (hd q = c \<longrightarrow> q = [c])" using Cons.prems(2) by simp
    qed
    ultimately show ?thesis by simp
  qed simp
qed simp

lemma space_codes:
  "\<forall>q \<in> set go_spaces. q \<noteq> [] \<and> (hd q = CHR '' '' \<longrightarrow> q = '' '')"
  "\<forall>q \<in> set (map rev go_spaces). q \<noteq> [] \<and> (hd q = newline \<longrightarrow> q = [newline])"
  "'' '' \<in> set go_spaces" "[newline] \<in> set (map rev go_spaces)"
  "\<forall>q \<in> set (map rev go_spaces). q \<noteq> [] \<and> (hd q = CHR '' '' \<longrightarrow> q = '' '')" "'' '' \<in> set (map rev go_spaces)"
  by code_simp+

lemma find_space: "find_prefix go_spaces (CHR '' '' # s) = Some '' ''"
  by (rule find_prefix_char [OF space_codes(3) space_codes(1)])

lemma TrimSpace_space: "TrimSpace (CHR '' '' # s) = TrimSpace s"
proof -
  have "trim_front go_spaces (CHR '' '' # s) = trim_front go_spaces s"
    using trim_front_step [OF find_space, of s] by simp
  then show ?thesis by (simp add: TrimSpace_def)
qed

lemma TrimSpace_end:
  assumes "s \<noteq> []" "\<not> space_byte (hd s)" "c \<in> {newline, CHR '' ''}"
  shows "TrimSpace (s @ [c]) = TrimSpace s"
proof -
  have "find_prefix (map rev go_spaces) (c # rev s) = Some [c]"
    using assms(3) find_prefix_char [OF space_codes(4) space_codes(2)] find_prefix_char [OF space_codes(6) space_codes(5)] by blast
  then have "trim_front (map rev go_spaces) (c # rev s) = trim_front (map rev go_spaces) (rev s)"
    using trim_front_step by force
  moreover have "trim_front go_spaces (s @ [c]) = s @ [c]" "trim_front go_spaces s = s"
    using assms(1,2) by (intro trim_front_first go_spaces_all; simp)+
  ultimately show ?thesis by (simp add: TrimSpace_def)
qed

text \<open>A text between two printable characters.\<close>

definition edged :: "string \<Rightarrow> bool" where
  "edged s \<longleftrightarrow> s \<noteq> [] \<and> \<not> space_byte (hd s) \<and> \<not> space_byte (last s)"

lemma edged_trim: "edged s \<Longrightarrow> TrimSpace s = s"
  by (simp add: edged_def TrimSpace_edges)

lemma edged_append: "edged s \<Longrightarrow> edged t \<Longrightarrow> edged (s @ m @ t)"
  by (simp add: edged_def)

text \<open>A line \<open>key = value\<close>.\<close>

lemma field_line:
  assumes "edged k" "CHR ''='' \<notin> set k" "edged v"
  shows "TrimSpace (k @ '' = '' @ v) = k @ '' = '' @ v"
    and "Cut CHR ''='' (k @ '' = '' @ v) = Some (k @ '' '', CHR '' '' # v)"
    and "TrimSpace (k @ '' '') = k" and "TrimSpace (CHR '' '' # v) = v"
proof -
  show "TrimSpace (k @ '' = '' @ v) = k @ '' = '' @ v"
    by (rule edged_trim, rule edged_append [OF assms(1,3)])
  show "Cut CHR ''='' (k @ '' = '' @ v) = Some (k @ '' '', CHR '' '' # v)"
    using assms(2) Cut_append [of "CHR ''=''" "k @ '' ''" "CHR '' '' # v"] by simp
  show "TrimSpace (k @ '' '') = k"
    using TrimSpace_end [of k "CHR '' ''"] assms(1) edged_trim by (simp add: edged_def)
  show "TrimSpace (CHR '' '' # v) = v"
    using assms(3) edged_trim by (simp add: TrimSpace_space)
qed

section \<open>Lines\<close>

definition unlines :: "string list \<Rightarrow> string" where
  "unlines ls = concat (map (\<lambda>l. l @ [newline]) ls)"

lemma unlines_append: "unlines (ls @ ms) = unlines ls @ unlines ms"
  by (simp add: unlines_def)

lemma Split_at_unlines:
  "\<forall>l \<in> set ls. newline \<notin> set l \<Longrightarrow> newline \<notin> set m \<Longrightarrow> Split_at newline (unlines ls @ m) = ls @ [m]"
  by (induction ls) (auto simp: unlines_def Split_at_append Split_at_clean)

section \<open>Base64\<close>

definition alphanumerics :: string where
  "alphanumerics = ''ABCDEFGHIJKLMNOPQRSTUVWXYZabcdefghijklmnopqrstuvwxyz0123456789''"

definition code64 :: "string \<Rightarrow> char \<Rightarrow> nat option" where
  "code64 extra c = map_of (zip (alphanumerics @ extra) [0..<64]) c"

definition sextets :: "(char \<Rightarrow> nat option) \<Rightarrow> string \<Rightarrow> nat list option" where
  "sextets code s = (if list_all (\<lambda>c. code c \<noteq> None) s then Some (map (\<lambda>c. the (code c)) s) else None)"

text \<open>The bytes of one group of two, three or four digits; surplus bits of a short group are ignored.\<close>

fun group_bytes :: "nat list \<Rightarrow> nat list" where
  "group_bytes [a, b] = [a * 4 + b div 16]"
| "group_bytes [a, b, c] = [a * 4 + b div 16, b mod 16 * 16 + c div 4]"
| "group_bytes [a, b, c, d] = [a * 4 + b div 16, b mod 16 * 16 + c div 4, c mod 4 * 64 + d]"
| "group_bytes _ = []"

fun padded64 :: "(char \<Rightarrow> nat option) \<Rightarrow> string \<Rightarrow> nat list option" where
  "padded64 code [] = Some []"
| "padded64 code (a # b # c # d # s) =
     (if d = CHR ''='' then
        if s \<noteq> [] then None
        else map_option group_bytes (sextets code (if c = CHR ''='' then [a, b] else [a, b, c]))
      else case (sextets code [a, b, c, d], padded64 code s) of
             (Some g, Some r) \<Rightarrow> Some (group_bytes g @ r)
           | _ \<Rightarrow> None)"
| "padded64 code _ = None"

fun unpadded64 :: "(char \<Rightarrow> nat option) \<Rightarrow> string \<Rightarrow> nat list option" where
  "unpadded64 code (a # b # c # d # s) =
     (case (sextets code [a, b, c, d], unpadded64 code s) of
        (Some g, Some r) \<Rightarrow> Some (group_bytes g @ r)
      | _ \<Rightarrow> None)"
| "unpadded64 code [a] = None"
| "unpadded64 code s = map_option group_bytes (sextets code s)"

definition drop_newlines :: "string \<Rightarrow> string" where
  "drop_newlines s = filter (\<lambda>c. c \<noteq> newline \<and> c \<noteq> carriage_return) s"

definition StdEncoding_DecodeString :: "string \<Rightarrow> nat list option" where
  "StdEncoding_DecodeString s = padded64 (code64 ''+/'') (drop_newlines s)"

definition RawURLEncoding_DecodeString :: "string \<Rightarrow> nat list option" where
  "RawURLEncoding_DecodeString s = unpadded64 (code64 ''-_'') (drop_newlines s)"

definition digit64 :: "string \<Rightarrow> nat \<Rightarrow> char" where
  "digit64 extra n = (alphanumerics @ extra) ! (n mod 64)"

fun EncodeToString64 :: "string \<Rightarrow> string \<Rightarrow> nat list \<Rightarrow> string" where
  "EncodeToString64 extra pad [] = []"
| "EncodeToString64 extra pad [x] = map (digit64 extra) [x div 4, x mod 4 * 16] @ pad @ pad"
| "EncodeToString64 extra pad [x, y] = map (digit64 extra) [x div 4, x mod 4 * 16 + y div 16, y mod 16 * 4] @ pad"
| "EncodeToString64 extra pad (x # y # z # s) =
     map (digit64 extra) [x div 4, x mod 4 * 16 + y div 16, y mod 16 * 4 + z div 64, z] @ EncodeToString64 extra pad s"

section \<open>Prefixes\<close>

definition groups_of6 :: "128 word \<Rightarrow> nat list" where
  "groups_of6 w = map (\<lambda>i. unat w div 65536 ^ (7 - i) mod 65536) [0..<8]"

definition zero_run :: "nat list \<Rightarrow> nat \<Rightarrow> nat" where
  "zero_run gs i = length (takeWhile (\<lambda>g. g = 0) (drop i gs))"

text \<open>The first longest run of at least two zero groups.\<close>

definition longest_run :: "nat list \<Rightarrow> (nat \<times> nat) option" where
  "longest_run gs = fold (\<lambda>i best. let l = zero_run gs i in
       if 2 \<le> l \<and> (case best of None \<Rightarrow> True | Some (_, m) \<Rightarrow> m < l) then Some (i, l) else best) [0..<length gs] None"

fun hex_lower :: "nat \<Rightarrow> string" where
  "hex_lower n = (if n < 16 then [hex_digit n] else hex_lower (n div 16) @ [hex_digit (n mod 16)])"

declare hex_lower.simps [simp del]

fun colons :: "string list \<Rightarrow> string" where
  "colons [] = []"
| "colons [s] = s"
| "colons (s # t # r) = s @ '':'' @ colons (t # r)"

definition String6 :: "128 word \<Rightarrow> string" where
  "String6 w =
     (if drop_bit 32 w = 0xFFFF then ''::ffff:'' @ String4 (ucast w)
      else let gs = groups_of6 w in
        case longest_run gs of
          None \<Rightarrow> colons (map hex_lower gs)
        | Some (i, l) \<Rightarrow> colons (map hex_lower (take i gs)) @ ''::'' @ colons (map hex_lower (drop (i + l) gs)))"

text \<open>\<open>Prefix.Masked().String()\<close>; the zero prefix is that of an address that does not parse.\<close>

definition masked_String :: "(addr \<times> nat) option \<Rightarrow> string" where
  "masked_String p =
     (case p of
        None \<Rightarrow> ''invalid Prefix''
      | Some (V4 w, bits) \<Rightarrow> String4 (Masked w bits) @ ''/'' @ show_nat bits
      | Some (V6 w zone, bits) \<Rightarrow> String6 (w AND NOT (mask (128 - bits))) @ ''/'' @ show_nat bits)"

section \<open>Values of type \<open>any\<close>\<close>

text \<open>A value of type \<open>map[string]any\<close> holding what \<open>encoding/json\<close> can hold is a \<open>json\<close> value; a missing
  key reads as \<open>nil\<close>.\<close>

definition member :: "json \<Rightarrow> string \<Rightarrow> json" where
  "member j k = (case j of JObj ms \<Rightarrow> (case map_of ms k of None \<Rightarrow> JNull | Some v \<Rightarrow> v) | _ \<Rightarrow> JNull)"

definition is_object :: "json \<Rightarrow> bool" where
  "is_object j = (case j of JObj _ \<Rightarrow> True | _ \<Rightarrow> False)"

definition boolValue :: "json \<Rightarrow> bool" where
  "boolValue j = (case j of JBool b \<Rightarrow> b | _ \<Rightarrow> False)"

definition stringValue :: "json \<Rightarrow> string" where
  "stringValue j = (case j of JStr s \<Rightarrow> s | _ \<Rightarrow> [])"

definition intValue :: "json \<Rightarrow> int" where
  "intValue j = (case j of JInt n \<Rightarrow> n | _ \<Rightarrow> 0)"

definition sliceLength :: "json \<Rightarrow> nat" where
  "sliceLength j = (case j of JArr xs \<Rightarrow> length xs | _ \<Rightarrow> 0)"

definition stringValueFromMap :: "json \<Rightarrow> string \<Rightarrow> string" where
  "stringValueFromMap j k = TrimSpace (stringValue (member j k))"

definition mapSlice :: "json \<Rightarrow> json list option" where
  "mapSlice j = (case j of JArr xs \<Rightarrow> if list_all is_object xs then Some xs else None | _ \<Rightarrow> None)"

section \<open>Maps from strings to strings\<close>

definition put :: "string \<Rightarrow> 'v \<Rightarrow> (string \<times> 'v) list \<Rightarrow> (string \<times> 'v) list" where
  "put k v m = (k, v) # filter (\<lambda>(k', _). k' \<noteq> k) m"

definition value_of :: "(string \<times> string) list \<Rightarrow> string \<Rightarrow> string" where
  "value_of m k = (case map_of m k of None \<Rightarrow> [] | Some v \<Rightarrow> v)"

lemma map_of_put [simp]: "map_of (put k v m) = (map_of m)(k \<mapsto> v)"
proof
  fix x show "map_of (put k v m) x = ((map_of m)(k \<mapsto> v)) x"
    by (induction m) (auto simp: put_def)
qed

lemma value_of_put: "value_of (put k v m) x = (if x = k then v else value_of m x)"
  by (simp add: value_of_def)

lemma put_not_Nil [simp]: "put k v m \<noteq> []"
  by (simp add: put_def)

lemma member_obj [simp]: "member (JObj ms) k = (case map_of ms k of None \<Rightarrow> JNull | Some v \<Rightarrow> v)"
  by (simp add: member_def)

end
