(* ===== verification/Config_Model.thy ===== *)
theory Config_Model
  imports Golib Wireguard Node_Groups
begin

text \<open>
  The configuration renderer of the Manager (\<open>backend/internal/configs\<close>): the data of a node, the rendered
  configuration, the five core adapters with their render, validate and ready operations, the composition of
  adapters, and the client settings derived from a rendered configuration.

  A rendered configuration is the Go value; \<open>encoding/json\<close> is not modelled as text, so the section of
  Hysteria2, which is JSON inside a string, holds the decoded value (\<open>h2_text\<close>).  Error and warning messages
  are constructors.  The library functions below are parameters, collected in the record \<open>lib\<close>:
  quoting (\<open>strconv\<close>), address and URL parsers (\<open>net/mail\<close>, \<open>net/url\<close>), the public key of a Curve25519
  private key, and the iteration order of a Go map.
\<close>

record lib =
  l_quote :: "string \<Rightarrow> string"
  l_unquote :: "string \<Rightarrow> string option"
  l_mail :: "string \<Rightarrow> string option"
  l_url :: "string \<Rightarrow> string option"
  l_x25519 :: "nat list \<Rightarrow> nat list"
  l_range :: "string list \<Rightarrow> string list"

section \<open>Data\<close>

record AgentConfigInfo =
  ag_id :: string
  ag_hostname :: string
  ag_os :: string
  ag_arch :: string
  ag_version :: string
  ag_status :: string
  ag_capabilities :: json

record VPNAccountConfigInfo =
  ac_id :: string
  ac_display :: string
  ac_status :: string
  ac_protocol :: string
  ac_protocols :: "string list"
  ac_uuid :: string
  ac_flow :: string
  ac_network :: string
  ac_wg_public :: string
  ac_wg_address :: string
  ac_h2_password :: string
  ac_ss_key :: string
  ac_enforcement :: string

text \<open>A rule of a profile, as stored and as rendered; the outbound is set by the renderer.\<close>

record RoutingRule =
  rr_id :: string
  rr_name :: string
  rr_priority :: int
  rr_action :: string
  rr_outbound :: string
  rr_domains :: "string list"
  rr_suffixes :: "string list"
  rr_keywords :: "string list"
  rr_cidrs :: "string list"
  rr_geosites :: "string list"
  rr_geoips :: "string list"

record RoutingProfile =
  rp_id :: string
  rp_name :: string
  rp_description :: string
  rp_default :: bool
  rp_rules :: "RoutingRule list"

record ServerConfigInfo =
  si_id :: string
  si_name :: string
  si_role :: string
  si_hostname :: string
  si_public_ip :: string
  si_private_ip :: string
  si_location :: string
  si_provider :: string
  si_status :: string
  si_vless_port :: int
  si_reality_private :: string
  si_reality_public :: string
  si_reality_short :: string
  si_reality_name :: string
  si_protocol :: string
  si_wg_port :: int
  si_wg_address :: string
  si_wg_private :: string
  si_h2_port :: int
  si_h2_domain :: string
  si_h2_email :: string
  si_h2_masquerade :: string
  si_ss_port :: int
  si_ss_key :: string
  si_mt_port :: int
  si_mt_secret :: string
  si_agent :: "AgentConfigInfo option"
  si_accounts :: "VPNAccountConfigInfo list"
  si_routing :: "RoutingProfile option"

record ConfigServer =
  cs_id :: string
  cs_name :: string
  cs_role :: string
  cs_hostname :: string
  cs_public_ip :: string
  cs_private_ip :: string
  cs_location :: string
  cs_provider :: string
  cs_status :: string

text \<open>\<open>va_protocol\<close> is not part of the JSON encoding (its tag is \<open>json:"-"\<close>).\<close>

record ConfigVPNAccount =
  va_id :: string
  va_display :: string
  va_status :: string
  va_protocol :: string
  va_protocols :: "string list"
  va_uuid :: string
  va_wg_public :: string
  va_wg_address :: string
  va_h2_user :: string
  va_ss_user :: string

record ConfigVPNCore =
  vc_core :: string
  vc_protocol :: string
  vc_transport :: string
  vc_security :: string

record ConfigMetadata =
  md_empty_users :: bool
  md_source :: string
  md_rendered_at :: time
  md_reality :: bool
  md_core :: ConfigVPNCore
  md_cores :: "ConfigVPNCore list"

text \<open>An outbound is its type and its tag.\<close>

record SingBoxConfig =
  sb_experimental :: "(string \<times> json) list"
  sb_level :: string
  sb_output :: string
  sb_inbounds :: "json list"
  sb_outbounds :: "(string \<times> string) list"
  sb_rules :: "json list"
  sb_final :: string

record hysteria2ServerConfig =
  h2_listen :: string
  h2_domains :: "string list"
  h2_email :: string
  h2_ca :: string
  h2_dir :: string
  h2_acme_type :: string
  h2_listen_host :: string
  h2_alt_port :: "int option"
  h2_auth_type :: string
  h2_userpass :: "(string \<times> string) list"
  h2_masq_type :: string
  h2_url :: string
  h2_rewrite :: bool
  h2_insecure :: bool
  h2_forwarded :: bool

datatype h2_text = H2_empty | H2_malformed | H2_several | H2 hysteria2ServerConfig

record RenderedConfig =
  rc_schema :: string
  rc_server :: ConfigServer
  rc_agent :: "AgentConfigInfo option"
  rc_accounts :: "ConfigVPNAccount list"
  rc_routing :: "RoutingProfile option"
  rc_singbox :: SingBoxConfig
  rc_wireguard :: string
  rc_hysteria2 :: h2_text
  rc_mtproto :: string
  rc_metadata :: ConfigMetadata

datatype cfg_error = Bad_schema | No_server_id | No_server_name | Bad_role | Role_without_vpn | Bad_composition
  | No_outbounds | No_final | Reality_no_inbound | Reality_no_tls | Reality_tls_disabled | Reality_no_server_name
  | Reality_missing | Reality_disabled | Reality_no_key | Reality_no_handshake | Reality_no_handshake_server
  | Reality_bad_port | Reality_no_short_id
  | Wg_peer_key | Wg_allowed_ips | Wg_bad_line | Wg_interface_field string | Wg_peer_field string | Wg_private_key
  | Wg_address | Wg_port | Wg_save_config | Wg_hooks
  | H2_role | H2_schema | H2_one_object | H2_port | H2_domain | H2_email | H2_acme | H2_listener | H2_auth
  | H2_credentials | H2_masquerade | H2_direct | H2_bridge
  | Ss_routing | Ss_many | Ss_policy | Ss_port | Ss_server_key | Ss_multiplex | Ss_no_users | Ss_credentials
  | Ss_names | Ss_keys
  | Mt_grammar | Mt_field string | Mt_duplicate string | Mt_policy | Mt_secret | Mt_bind | Mt_port

datatype cfg_warning = No_vless_accounts | No_wg_accounts | No_h2_accounts | No_ss_accounts | No_agent

text \<open>Every place that clears the flag \<open>Valid\<close> also appends an error, so the flag is that there is none.\<close>

record ValidationResult =
  vr_errors :: "cfg_error list"
  vr_warnings :: "cfg_warning list"

definition vr_valid :: "ValidationResult \<Rightarrow> bool" where
  "vr_valid r \<longleftrightarrow> vr_errors r = []"

section \<open>Protocols of accounts\<close>

definition accountProtocolOrder :: "string list" where
  "accountProtocolOrder = [''vless'', ''wireguard'', ''hysteria2'', ''shadowsocks'', ''mtproto'']"

definition normalizeAccountProtocol :: "string \<Rightarrow> string" where
  "normalizeAccountProtocol v =
     (let p = ToLower (TrimSpace v) in if p = [] \<or> p = ''auto'' then ''vless'' else p)"

definition wanted_protocols :: "string list \<Rightarrow> string list" where
  "wanted_protocols vs =
     map (\<lambda>p. if p = ''auto'' then ''vless'' else p) (filter (\<lambda>p. p \<noteq> []) (map (\<lambda>v. ToLower (TrimSpace v)) vs))"

definition orderedAccountProtocols :: "lib \<Rightarrow> string list \<Rightarrow> string list" where
  "orderedAccountProtocols L vs =
     (let w = wanted_protocols vs in
      filter (\<lambda>p. p \<in> set w) accountProtocolOrder
      @ l_range L (remdups (filter (\<lambda>p. p \<notin> set accountProtocolOrder) w)))"

definition protocolListContains :: "string list \<Rightarrow> string \<Rightarrow> bool" where
  "protocolListContains ps p \<longleftrightarrow> (\<exists>c \<in> set ps. ToLower (TrimSpace c) = ToLower (TrimSpace p))"

definition accountUsesProtocol :: "VPNAccountConfigInfo \<Rightarrow> string \<Rightarrow> bool" where
  "accountUsesProtocol a p =
     (if ac_protocols a \<noteq> [] then protocolListContains (ac_protocols a) p
      else let s = ToLower (TrimSpace (ac_protocol a)) in s = [] \<or> s = ToLower (TrimSpace p))"

definition applyResolvedAccountProtocols ::
  "(string \<rightharpoonup> string \<times> string list) \<Rightarrow> ServerConfigInfo \<Rightarrow> ServerConfigInfo" where
  "applyResolvedAccountProtocols resolved info =
     (let d = normalizeAccountProtocol (si_protocol info);
          sel = (\<lambda>a. case resolved (ac_id a) of
              None \<Rightarrow> (d, [d])
            | Some (p, ps) \<Rightarrow> if ps = [] then (d, [d]) else (p, ps))
      in info\<lparr>si_accounts :=
           map (\<lambda>a. a\<lparr>ac_protocol := fst (sel a), ac_protocols := snd (sel a)\<rparr>) (si_accounts info)\<rparr>)"

definition accountDisplayName :: "VPNAccountConfigInfo \<Rightarrow> string" where
  "accountDisplayName a = (let d = TrimSpace (ac_display a) in if d \<noteq> [] then d else ac_id a)"

text \<open>An account with no protocol credentials, as every adapter lists it.\<close>

definition account_entry :: "VPNAccountConfigInfo \<Rightarrow> ConfigVPNAccount" where
  "account_entry a = \<lparr>va_id = ac_id a, va_display = accountDisplayName a, va_status = ac_status a, va_protocol = [],
     va_protocols = [], va_uuid = [], va_wg_public = [], va_wg_address = [], va_h2_user = [], va_ss_user = []\<rparr>"

section \<open>Routing\<close>

definition cleanStrings :: "string list \<Rightarrow> string list" where
  "cleanStrings vs = filter (\<lambda>v. v \<noteq> []) (map TrimSpace vs)"

definition routingOutboundForAction :: "string \<Rightarrow> string" where
  "routingOutboundForAction action =
     (let a = TrimSpace action in if a \<in> {''direct'', ''block'', ''vpn''} then a else [])"

definition clean_rule :: "RoutingRule \<Rightarrow> RoutingRule" where
  "clean_rule r = r\<lparr>rr_outbound := routingOutboundForAction (rr_action r), rr_domains := cleanStrings (rr_domains r),
     rr_suffixes := cleanStrings (rr_suffixes r), rr_keywords := cleanStrings (rr_keywords r),
     rr_cidrs := cleanStrings (rr_cidrs r), rr_geosites := cleanStrings (rr_geosites r),
     rr_geoips := cleanStrings (rr_geoips r)\<rparr>"

definition applyServerRoutingProfile :: "RoutingProfile option \<Rightarrow> RenderedConfig \<Rightarrow> RenderedConfig" where
  "applyServerRoutingProfile profile c =
     (case profile of
        None \<Rightarrow> c
      | Some p \<Rightarrow> c\<lparr>rc_routing := Some (p\<lparr>rp_description := TrimSpace (rp_description p),
                                          rp_rules := map clean_rule (rp_rules p)\<rparr>)\<rparr>)"

definition ensureSingBoxOutbound :: "string \<times> string \<Rightarrow> SingBoxConfig \<Rightarrow> SingBoxConfig" where
  "ensureSingBoxOutbound ob b =
     (if \<exists>e \<in> set (sb_outbounds b). snd e = snd ob then b else b\<lparr>sb_outbounds := sb_outbounds b @ [ob]\<rparr>)"

definition ensureSingBoxBase :: "SingBoxConfig \<Rightarrow> SingBoxConfig" where
  "ensureSingBoxBase b0 =
     (let b1 = b0\<lparr>sb_level := if sb_level b0 = [] then ''info'' else sb_level b0,
                  sb_output := if sb_output b0 = [] then ''/var/lib/sing-box/routegate-presence.log'' else sb_output b0\<rparr>;
          b2 = ensureSingBoxOutbound (''direct'', ''direct'') b1
      in b2\<lparr>sb_final := if sb_final b2 = [] then ''direct'' else sb_final b2\<rparr>)"

definition singBoxRoutingOutboundForAction :: "string \<Rightarrow> string option" where
  "singBoxRoutingOutboundForAction action =
     (let a = TrimSpace action in
      if a = ''direct'' then Some ''direct'' else if a = ''block'' then Some ''block'' else None)"

definition string_list_member :: "string \<Rightarrow> string list \<Rightarrow> (string \<times> json) list" where
  "string_list_member k vs = (let cl = cleanStrings vs in if cl = [] then [] else [(k, JArr (map JStr cl))])"

definition singBoxRouteRule :: "RoutingRule \<Rightarrow> string \<Rightarrow> (string \<times> json) list" where
  "singBoxRouteRule r outbound =
     (let ms = string_list_member ''domain'' (rr_domains r) @ string_list_member ''domain_keyword'' (rr_keywords r)
            @ string_list_member ''domain_suffix'' (rr_suffixes r) @ string_list_member ''geoip'' (rr_geoips r)
            @ string_list_member ''geosite'' (rr_geosites r) @ string_list_member ''ip_cidr'' (rr_cidrs r)
      in if ms = [] then [] else ms @ [(''outbound'', JStr outbound)])"

definition add_route_rule :: "RoutingRule \<Rightarrow> SingBoxConfig \<Rightarrow> SingBoxConfig" where
  "add_route_rule r b =
     (case singBoxRoutingOutboundForAction (rr_action r) of
        None \<Rightarrow> b
      | Some ob \<Rightarrow>
          let ms = singBoxRouteRule r ob in
          if ms = [] then b
          else let b' = (if ob = ''block'' then ensureSingBoxOutbound (''block'', ''block'') b else b)
               in b'\<lparr>sb_rules := sb_rules b' @ [JObj ms]\<rparr>)"

definition applySingBoxRoutingProfile :: "RoutingProfile option \<Rightarrow> SingBoxConfig \<Rightarrow> SingBoxConfig" where
  "applySingBoxRoutingProfile profile b =
     (case profile of
        None \<Rightarrow> b
      | Some p \<Rightarrow> if sb_rules b \<noteq> [] then b else fold add_route_rule (rp_rules p) b)"

section \<open>Adapters\<close>

datatype adapter = SingBoxVLESS | WireGuardAdapter | Hysteria2Adapter | ShadowsocksAdapter | MTProtoAdapter

record VPNCoreAdapterDescriptor =
  de_core :: string
  de_protocol :: string
  de_transports :: "string list"
  de_securities :: "string list"

fun Descriptor :: "adapter \<Rightarrow> VPNCoreAdapterDescriptor" where
  "Descriptor SingBoxVLESS = \<lparr>de_core = ''sing-box'', de_protocol = ''vless'', de_transports = [''tcp''],
     de_securities = [''none'', ''reality'']\<rparr>"
| "Descriptor WireGuardAdapter = \<lparr>de_core = ''wireguard'', de_protocol = ''wireguard'', de_transports = [''udp''],
     de_securities = [''wireguard'']\<rparr>"
| "Descriptor Hysteria2Adapter = \<lparr>de_core = ''hysteria'', de_protocol = ''hysteria2'', de_transports = [''quic''],
     de_securities = [''tls'']\<rparr>"
| "Descriptor ShadowsocksAdapter = \<lparr>de_core = ''sing-box'', de_protocol = ''shadowsocks'', de_transports = [''tcp''],
     de_securities = [''aead-2022'']\<rparr>"
| "Descriptor MTProtoAdapter = \<lparr>de_core = ''mtg'', de_protocol = ''mtproto'', de_transports = [''tcp''],
     de_securities = [''faketls'']\<rparr>"

definition containsFold :: "string list \<Rightarrow> string \<Rightarrow> bool" where
  "containsFold vs x \<longleftrightarrow> (\<exists>v \<in> set vs. EqualFold (TrimSpace v) (TrimSpace x))"

definition Supports :: "VPNCoreAdapterDescriptor \<Rightarrow> ConfigVPNCore \<Rightarrow> bool" where
  "Supports d v \<longleftrightarrow>
     EqualFold (TrimSpace (de_core d)) (TrimSpace (vc_core v))
     \<and> EqualFold (TrimSpace (de_protocol d)) (TrimSpace (vc_protocol v))
     \<and> containsFold (de_transports d) (vc_transport v) \<and> containsFold (de_securities d) (vc_security v)"

definition defaultVPNCoreAdapterRegistry :: "adapter list" where
  "defaultVPNCoreAdapterRegistry =
     [SingBoxVLESS, WireGuardAdapter, Hysteria2Adapter, ShadowsocksAdapter, MTProtoAdapter]"

definition Resolve :: "ConfigVPNCore \<Rightarrow> adapter option" where
  "Resolve v = find (\<lambda>a. Supports (Descriptor a) v) defaultVPNCoreAdapterRegistry"

definition composition :: "string \<Rightarrow> string \<Rightarrow> string \<Rightarrow> string \<Rightarrow> ConfigVPNCore" where
  "composition core protocol transport security =
     \<lparr>vc_core = core, vc_protocol = protocol, vc_transport = transport, vc_security = security\<rparr>"

text \<open>The built-in compositions are always registered, so the panics of the sources are unreachable
  (\<open>builtin_resolves\<close> below); the adapter named after the composition stands for the panic.\<close>

definition builtin :: "adapter \<Rightarrow> ConfigVPNCore \<Rightarrow> adapter" where
  "builtin a v = (case Resolve v of None \<Rightarrow> a | Some b \<Rightarrow> b)"

definition currentVLESSAdapter :: "bool \<Rightarrow> adapter" where
  "currentVLESSAdapter reality =
     builtin SingBoxVLESS (composition ''sing-box'' ''vless'' ''tcp'' (if reality then ''reality'' else ''none''))"

definition realityRequested :: "ServerConfigInfo \<Rightarrow> bool" where
  "realityRequested i \<longleftrightarrow> TrimSpace (si_reality_private i) \<noteq> [] \<or> TrimSpace (si_reality_public i) \<noteq> []
     \<or> TrimSpace (si_reality_short i) \<noteq> [] \<or> TrimSpace (si_reality_name i) \<noteq> []"

definition selectedVPNCoreAdapter :: "ServerConfigInfo \<Rightarrow> adapter" where
  "selectedVPNCoreAdapter i =
     (if si_protocol i = ''mtproto'' then builtin MTProtoAdapter (composition ''mtg'' ''mtproto'' ''tcp'' ''faketls'')
      else if si_protocol i = ''shadowsocks''
      then builtin ShadowsocksAdapter (composition ''sing-box'' ''shadowsocks'' ''tcp'' ''aead-2022'')
      else if si_protocol i = ''hysteria2''
      then builtin Hysteria2Adapter (composition ''hysteria'' ''hysteria2'' ''quic'' ''tls'')
      else if si_protocol i = ''wireguard''
      then builtin WireGuardAdapter (composition ''wireguard'' ''wireguard'' ''udp'' ''wireguard'')
      else currentVLESSAdapter (realityRequested i))"

definition account_wants :: "string \<Rightarrow> VPNAccountConfigInfo \<Rightarrow> string list" where
  "account_wants d a =
     (if ac_status a \<noteq> ''active'' \<or> ac_enforcement a = ''over_limit'' then []
      else map normalizeAccountProtocol
        (if ac_protocols a = []
         then [let l = ToLower (TrimSpace (ac_protocol a)) in if l = [] \<or> l = ''auto'' then d else l]
         else ac_protocols a))"

definition selectedVPNCoreAdapters :: "ServerConfigInfo \<Rightarrow> adapter list" where
  "selectedVPNCoreAdapters i =
     (let d = normalizeAccountProtocol (si_protocol i);
          w = concat (map (account_wants d) (si_accounts i));
          wanted = (if w = [] then [d] else w)
      in map (\<lambda>p. selectedVPNCoreAdapter (i\<lparr>si_protocol := p\<rparr>))
           (filter (\<lambda>p. p \<in> set wanted) accountProtocolOrder))"

definition selectedAdapterSecurity :: "VPNCoreAdapterDescriptor \<Rightarrow> bool \<Rightarrow> string" where
  "selectedAdapterSecurity d reality =
     (if de_protocol d = ''vless'' then (if reality then ''reality'' else ''none'')
      else case de_securities d of [] \<Rightarrow> [] | s # _ \<Rightarrow> s)"

definition configVPNCoreFromAdapter :: "adapter \<Rightarrow> bool \<Rightarrow> ConfigVPNCore" where
  "configVPNCoreFromAdapter a reality =
     (let d = Descriptor a in
      composition (de_core d) (de_protocol d) (case de_transports d of [] \<Rightarrow> [] | t # _ \<Rightarrow> t)
        (selectedAdapterSecurity d reality))"

end
