(* ===== verification/Config_Adapters.thy ===== *)
theory Config_Adapters
  imports Config_Model
begin

text \<open>
  The five core adapters (\<open>singbox_vless_adapter.go\<close>, \<open>wireguard_adapter.go\<close>, \<open>hysteria2_adapter.go\<close>,
  \<open>shadowsocks_adapter.go\<close>, \<open>mtproto_adapter.go\<close>): what each renders for the accounts of a node, what it
  accepts of a rendered configuration, and when it is ready to be applied.
\<close>

section \<open>VLESS\<close>

definition isVPNAccountRenderable :: "VPNAccountConfigInfo \<Rightarrow> bool" where
  "isVPNAccountRenderable a \<longleftrightarrow>
     accountUsesProtocol a ''vless'' \<and> ac_status a = ''active'' \<and> TrimSpace (ac_uuid a) \<noteq> []
     \<and> ac_enforcement a \<noteq> ''over_limit''"

definition vless_user :: "VPNAccountConfigInfo \<Rightarrow> json" where
  "vless_user a =
     (let flow = TrimSpace (ac_flow a) in
      JObj ((if flow = [] then [] else [(''flow'', JStr flow)]) @ [(''name'', JStr (ac_id a)), (''uuid'', JStr (ac_uuid a))]))"

definition serverVLESSPort :: "ServerConfigInfo \<Rightarrow> int" where
  "serverVLESSPort i = (if 0 < si_vless_port i then si_vless_port i else 443)"

definition buildRealityTLS :: "ServerConfigInfo \<Rightarrow> json" where
  "buildRealityTLS i =
     (let n = TrimSpace (si_reality_name i) in
      JObj [(''enabled'', JBool True),
            (''reality'', JObj [(''enabled'', JBool True),
               (''handshake'', JObj [(''server'', JStr n), (''server_port'', JInt 443)]),
               (''private_key'', JStr (TrimSpace (si_reality_private i))),
               (''short_id'', JArr [JStr (TrimSpace (si_reality_short i))])]),
            (''server_name'', JStr n)])"

definition vless_inbound :: "ServerConfigInfo \<Rightarrow> bool \<Rightarrow> json list \<Rightarrow> json" where
  "vless_inbound i reality users =
     JObj ([(''listen'', JStr ''::''), (''listen_port'', JInt (serverVLESSPort i)), (''tag'', JStr ''vless-in'')]
           @ (if reality then [(''tls'', buildRealityTLS i)] else [])
           @ [(''type'', JStr ''vless''), (''users'', JArr users)])"

definition vless_render :: "ServerConfigInfo \<Rightarrow> RenderedConfig \<Rightarrow> RenderedConfig" where
  "vless_render i c =
     (let as = filter isVPNAccountRenderable (si_accounts i);
          b = ensureSingBoxBase (rc_singbox c);
          b' = (if as = [] then b
                else b\<lparr>sb_inbounds := sb_inbounds b @ [vless_inbound i (md_reality (rc_metadata c)) (map vless_user as)]\<rparr>)
      in c\<lparr>rc_accounts := rc_accounts c @ map (\<lambda>a. (account_entry a)\<lparr>va_uuid := ac_uuid a\<rparr>) as,
           rc_singbox := applySingBoxRoutingProfile (si_routing i) b'\<rparr>)"

definition findVLESSInbound :: "RenderedConfig \<Rightarrow> json option" where
  "findVLESSInbound c =
     find (\<lambda>ib. EqualFold (TrimSpace (stringValue (member ib ''type''))) ''vless'') (sb_inbounds (rc_singbox c))"

definition validateRealityInbound :: "json \<Rightarrow> cfg_error list" where
  "validateRealityInbound ib =
     (let tls = member ib ''tls'' in
      if \<not> is_object tls then [Reality_no_tls]
      else
        let e1 = (if boolValue (member tls ''enabled'') then [] else [Reality_tls_disabled]);
            e2 = (if TrimSpace (stringValue (member tls ''server_name'')) = [] then [Reality_no_server_name] else []);
            re = member tls ''reality'' in
        if \<not> is_object re then e1 @ e2 @ [Reality_missing]
        else
          let e3 = (if boolValue (member re ''enabled'') then [] else [Reality_disabled]);
              e4 = (if TrimSpace (stringValue (member re ''private_key'')) = [] then [Reality_no_key] else []);
              hs = member re ''handshake'';
              port = intValue (member hs ''server_port'');
              e5 = (if \<not> is_object hs then [Reality_no_handshake]
                    else (if TrimSpace (stringValue (member hs ''server'')) = [] then [Reality_no_handshake_server] else [])
                         @ (if port < 1 \<or> 65535 < port then [Reality_bad_port] else []));
              e6 = (if sliceLength (member re ''short_id'') = 0 then [Reality_no_short_id] else [])
          in e1 @ e2 @ e3 @ e4 @ e5 @ e6)"

definition vless_validate :: "RenderedConfig \<Rightarrow> ValidationResult" where
  "vless_validate c =
     \<lparr>vr_errors = (if sb_outbounds (rc_singbox c) = [] then [No_outbounds] else [])
        @ (if sb_final (rc_singbox c) = [] then [No_final] else [])
        @ (if \<not> md_reality (rc_metadata c) then []
           else case findVLESSInbound c of None \<Rightarrow> [Reality_no_inbound] | Some ib \<Rightarrow> validateRealityInbound ib),
      vr_warnings = (if findVLESSInbound c = None then [No_vless_accounts] else [])\<rparr>"

definition vless_ready :: "RenderedConfig \<Rightarrow> bool" where
  "vless_ready c =
     (case findVLESSInbound c of
        None \<Rightarrow> False
      | Some ib \<Rightarrow>
          let port = intValue (member ib ''listen_port'') in
          1 \<le> port \<and> port \<le> 65535
          \<and> (sliceLength (member ib ''users'') \<noteq> 0 \<or> (md_empty_users (rc_metadata c) \<and> rc_accounts c = []))
          \<and> (md_reality (rc_metadata c) \<longrightarrow> validateRealityInbound ib = []))"

section \<open>WireGuard\<close>

definition ValidateKey :: "string \<Rightarrow> bool" where
  "ValidateKey v = (case StdEncoding_DecodeString (TrimSpace v) of None \<Rightarrow> False | Some bs \<Rightarrow> length bs = 32)"

definition wireGuardPeerAddress :: "string \<Rightarrow> string" where
  "wireGuardPeerAddress v =
     (let v = TrimSpace v in
      case ParseAddr v of
        Some (V4 w) \<Rightarrow> String4 w
      | _ \<Rightarrow> (case ParsePrefix v of Some (V4 w, _) \<Rightarrow> String4 w | _ \<Rightarrow> []))"

definition isWireGuardAccountRenderable :: "VPNAccountConfigInfo \<Rightarrow> bool" where
  "isWireGuardAccountRenderable a \<longleftrightarrow>
     accountUsesProtocol a ''wireguard'' \<and> ac_status a = ''active'' \<and> wireGuardPeerAddress (ac_wg_address a) \<noteq> []
     \<and> ValidateKey (ac_wg_public a) \<and> ac_enforcement a \<noteq> ''over_limit''"

definition safeWireGuardComment :: "string \<Rightarrow> string" where
  "safeWireGuardComment v = TrimSpace (ReplaceAll (ReplaceAll v carriage_return CHR '' '') newline CHR '' '')"

definition wireGuardPostUp :: "string \<Rightarrow> string" where
  "wireGuardPostUp network =
     ''iptables -A FORWARD -i %i -j ACCEPT; iptables -A FORWARD -o %i -j ACCEPT; iptables -t nat -A POSTROUTING -s ''
     @ network @ '' -j MASQUERADE''"

definition wireGuardPostDown :: "string \<Rightarrow> string" where
  "wireGuardPostDown network =
     ''iptables -D FORWARD -i %i -j ACCEPT; iptables -D FORWARD -o %i -j ACCEPT; iptables -t nat -D POSTROUTING -s ''
     @ network @ '' -j MASQUERADE''"

definition peer_lines :: "VPNAccountConfigInfo \<Rightarrow> string list" where
  "peer_lines a =
     [[], ''[Peer]'', ''# routegate-account-id: '' @ safeWireGuardComment (ac_id a),
      ''# '' @ safeWireGuardComment (accountDisplayName a),
      ''PublicKey = '' @ TrimSpace (ac_wg_public a),
      ''AllowedIPs = '' @ wireGuardPeerAddress (ac_wg_address a) @ ''/32'']"

definition wg_server_address :: "ServerConfigInfo \<Rightarrow> string" where
  "wg_server_address i = (let ad = TrimSpace (si_wg_address i) in if ad = [] then ''10.66.0.1/24'' else ad)"

definition wg_server_port :: "ServerConfigInfo \<Rightarrow> int" where
  "wg_server_port i = (if si_wg_port i = 0 then 51820 else si_wg_port i)"

definition interface_lines :: "ServerConfigInfo \<Rightarrow> string list" where
  "interface_lines i =
     (let network = masked_String (ParsePrefix (wg_server_address i)) in
      [''[Interface]'', ''PrivateKey = '' @ TrimSpace (si_wg_private i), ''Address = '' @ wg_server_address i,
       ''ListenPort = '' @ Itoa (wg_server_port i), ''SaveConfig = false'',
       ''PostUp = '' @ wireGuardPostUp network, ''PostDown = '' @ wireGuardPostDown network])"

definition wireguard_render :: "ServerConfigInfo \<Rightarrow> RenderedConfig \<Rightarrow> RenderedConfig" where
  "wireguard_render i c =
     (let as = filter isWireGuardAccountRenderable (si_accounts i) in
      c\<lparr>rc_accounts := rc_accounts c @ map (\<lambda>a. (account_entry a)\<lparr>va_protocol := ''wireguard'',
            va_wg_public := TrimSpace (ac_wg_public a), va_wg_address := wireGuardPeerAddress (ac_wg_address a)\<rparr>) as,
        rc_wireguard := unlines (interface_lines i @ concat (map peer_lines as))\<rparr>)"

record wg_parse =
  wp_section :: string
  wp_interface :: "(string \<times> string) list"
  wp_peer :: "(string \<times> string) list"
  wp_peers :: "string list"

record parsedWireGuardConfig =
  pw_address :: string
  pw_port :: int
  pw_private :: string
  pw_peers :: "string list"

definition flushPeer :: "wg_parse \<Rightarrow> cfg_error + wg_parse" where
  "flushPeer st =
     (if wp_peer st = [] then Inr st
      else if \<not> ValidateKey (value_of (wp_peer st) ''PublicKey'') then Inl Wg_peer_key
      else case ParsePrefix (value_of (wp_peer st) ''AllowedIPs'') of
             Some (V4 w, bits) \<Rightarrow>
               if bits \<noteq> 32 then Inl Wg_allowed_ips
               else Inr (st\<lparr>wp_peers := wp_peers st @ [String4 w @ ''/32''], wp_peer := []\<rparr>)
           | _ \<Rightarrow> Inl Wg_allowed_ips)"

definition wg_line :: "string \<Rightarrow> wg_parse \<Rightarrow> cfg_error + wg_parse" where
  "wg_line raw st =
     (let line = TrimSpace raw in
      if line = [] \<or> prefix ''#'' line then Inr st
      else if line = ''[Interface]'' then Inr (st\<lparr>wp_section := ''Interface''\<rparr>)
      else if line = ''[Peer]''
      then (case flushPeer st of Inl e \<Rightarrow> Inl e | Inr st' \<Rightarrow> Inr (st'\<lparr>wp_section := ''Peer''\<rparr>))
      else case Cut CHR ''='' line of
             None \<Rightarrow> Inl Wg_bad_line
           | Some (k, v) \<Rightarrow>
               let k = TrimSpace k; v = TrimSpace v in
               if wp_section st = [] then Inl Wg_bad_line
               else if wp_section st = ''Interface'' then
                 if k \<in> {''PrivateKey'', ''Address'', ''ListenPort'', ''SaveConfig'', ''PostUp'', ''PostDown''}
                 then Inr (st\<lparr>wp_interface := put k v (wp_interface st)\<rparr>)
                 else Inl (Wg_interface_field k)
               else if k = ''PublicKey'' \<or> k = ''AllowedIPs''
               then Inr (st\<lparr>wp_peer := put k v (wp_peer st)\<rparr>)
               else Inl (Wg_peer_field k))"

fun wg_lines :: "string list \<Rightarrow> wg_parse \<Rightarrow> cfg_error + wg_parse" where
  "wg_lines [] st = Inr st"
| "wg_lines (l # ls) st = (case wg_line l st of Inl e \<Rightarrow> Inl e | Inr st' \<Rightarrow> wg_lines ls st')"

definition wg_finish :: "wg_parse \<Rightarrow> cfg_error + parsedWireGuardConfig" where
  "wg_finish st =
     (let iv = value_of (wp_interface st) in
      if \<not> ValidateKey (iv ''PrivateKey'') then Inl Wg_private_key
      else case ParsePrefix (iv ''Address'') of
        Some (V4 w, bits) \<Rightarrow>
          if 30 < bits then Inl Wg_address
          else (case Atoi (iv ''ListenPort'') of
                  None \<Rightarrow> Inl Wg_port
                | Some port \<Rightarrow>
                    let network = masked_String (Some (V4 w, bits)) in
                    if port < 1 \<or> 65535 < port then Inl Wg_port
                    else if iv ''SaveConfig'' \<noteq> ''false'' then Inl Wg_save_config
                    else if iv ''PostUp'' \<noteq> wireGuardPostUp network \<or> iv ''PostDown'' \<noteq> wireGuardPostDown network
                    then Inl Wg_hooks
                    else Inr \<lparr>pw_address = String4 w @ ''/'' @ show_nat bits, pw_port = port,
                              pw_private = iv ''PrivateKey'', pw_peers = wp_peers st\<rparr>)
      | _ \<Rightarrow> Inl Wg_address)"

definition parseWireGuardServerConfig :: "string \<Rightarrow> cfg_error + parsedWireGuardConfig" where
  "parseWireGuardServerConfig payload =
     (case wg_lines (Split_at newline (TrimSpace payload))
             \<lparr>wp_section = [], wp_interface = [], wp_peer = [], wp_peers = []\<rparr> of
        Inl e \<Rightarrow> Inl e
      | Inr st \<Rightarrow> (case flushPeer st of Inl e \<Rightarrow> Inl e | Inr st' \<Rightarrow> wg_finish st'))"

definition wireguard_validate :: "RenderedConfig \<Rightarrow> ValidationResult" where
  "wireguard_validate c =
     (case parseWireGuardServerConfig (rc_wireguard c) of
        Inl e \<Rightarrow> \<lparr>vr_errors = [e], vr_warnings = []\<rparr>
      | Inr p \<Rightarrow> \<lparr>vr_errors = [], vr_warnings = (if pw_peers p = [] then [No_wg_accounts] else [])\<rparr>)"

definition wireguard_ready :: "RenderedConfig \<Rightarrow> bool" where
  "wireguard_ready c = (case parseWireGuardServerConfig (rc_wireguard c) of Inl _ \<Rightarrow> False | Inr p \<Rightarrow> pw_peers p \<noteq> [])"

section \<open>Hysteria2\<close>

definition validHysteria2Password :: "string \<Rightarrow> bool" where
  "validHysteria2Password v = (case hex_DecodeString (TrimSpace v) of None \<Rightarrow> False | Some bs \<Rightarrow> length bs = 24)"

definition lower_or_digit :: "char \<Rightarrow> bool" where
  "lower_or_digit c \<longleftrightarrow> is_digit c \<or> (97 \<le> (of_char c :: nat) \<and> (of_char c :: nat) \<le> 122)"

definition lower_hex :: "char \<Rightarrow> bool" where
  "lower_hex c \<longleftrightarrow> is_digit c \<or> (97 \<le> (of_char c :: nat) \<and> (of_char c :: nat) \<le> 102)"

definition validHysteria2Username :: "string \<Rightarrow> bool" where
  "validHysteria2Username v =
     (let v = TrimSpace v in
      length v = 36
      \<and> list_all (\<lambda>(i, c). if i \<in> {8, 13, 18, 23} then c = CHR ''-'' else lower_hex c) (zip [0..<36] v))"

definition validHysteria2Domain :: "string \<Rightarrow> bool" where
  "validHysteria2Domain v =
     (let v = ToLower (TrimSpace v); labels = Split_at CHR ''.'' v in
      4 \<le> length v \<and> length v \<le> 253 \<and> 2 \<le> length labels
      \<and> list_all (\<lambda>l. l \<noteq> [] \<and> length l \<le> 63 \<and> hd l \<noteq> CHR ''-'' \<and> last l \<noteq> CHR ''-''
           \<and> list_all (\<lambda>c. lower_or_digit c \<or> c = CHR ''-'') l) labels)"

definition validHysteria2MasqueradeURL :: "lib \<Rightarrow> string \<Rightarrow> bool" where
  "validHysteria2MasqueradeURL L v \<longleftrightarrow> l_url L (TrimSpace v) = Some ''https://www.cloudflare.com/''"

definition isHysteria2AccountRenderable :: "VPNAccountConfigInfo \<Rightarrow> bool" where
  "isHysteria2AccountRenderable a \<longleftrightarrow>
     accountUsesProtocol a ''hysteria2'' \<and> ac_status a = ''active'' \<and> validHysteria2Password (ac_h2_password a)
     \<and> ac_enforcement a \<noteq> ''over_limit''"

definition account_username :: "VPNAccountConfigInfo \<Rightarrow> string" where
  "account_username a = ToLower (TrimSpace (ac_id a))"

definition h2_config :: "ServerConfigInfo \<Rightarrow> VPNAccountConfigInfo list \<Rightarrow> hysteria2ServerConfig" where
  "h2_config i as =
     (let hybrid = EffectiveDeploymentRole (si_role i) = Some Role_hybrid in
      \<lparr>h2_listen = '':'' @ Itoa (if si_h2_port i = 0 then 443 else si_h2_port i),
       h2_domains = [ToLower (TrimSpace (si_h2_domain i))], h2_email = TrimSpace (si_h2_email i),
       h2_ca = ''letsencrypt'', h2_dir = ''/var/lib/hysteria/acme'', h2_acme_type = ''http'',
       h2_listen_host = (if hybrid then ''127.0.0.1'' else []), h2_alt_port = (if hybrid then Some 9080 else None),
       h2_auth_type = ''userpass'',
       h2_userpass = fold (\<lambda>a. put (account_username a) (TrimSpace (ac_h2_password a))) as [],
       h2_masq_type = ''proxy'', h2_url = TrimSpace (si_h2_masquerade i), h2_rewrite = True, h2_insecure = False,
       h2_forwarded = False\<rparr>)"

definition hysteria2_render :: "ServerConfigInfo \<Rightarrow> RenderedConfig \<Rightarrow> RenderedConfig" where
  "hysteria2_render i c =
     (let as = filter isHysteria2AccountRenderable (si_accounts i) in
      c\<lparr>rc_accounts := rc_accounts c @ map (\<lambda>a. (account_entry a)\<lparr>va_protocol := ''hysteria2'',
            va_h2_user := account_username a\<rparr>) as,
        rc_hysteria2 := H2 (h2_config i as)\<rparr>)"

definition usesHysteria2ACMEBridge :: "hysteria2ServerConfig \<Rightarrow> bool" where
  "usesHysteria2ACMEBridge h \<longleftrightarrow> h2_listen_host h = ''127.0.0.1'' \<and> h2_alt_port h = Some 9080"

definition validHysteria2ACMEListener :: "hysteria2ServerConfig \<Rightarrow> bool" where
  "validHysteria2ACMEListener h \<longleftrightarrow> (h2_listen_host h = [] \<and> h2_alt_port h = None) \<or> usesHysteria2ACMEBridge h"

definition h2_check :: "lib \<Rightarrow> hysteria2ServerConfig \<Rightarrow> cfg_error option" where
  "h2_check L h =
     (if (case Atoi (TrimPrefix (h2_listen h) '':'') of
            None \<Rightarrow> True
          | Some p \<Rightarrow> p < 1 \<or> 65535 < p \<or> h2_listen h \<noteq> '':'' @ Itoa p) then Some H2_port
      else if \<not> (length (h2_domains h) = 1 \<and> validHysteria2Domain (hd (h2_domains h))) then Some H2_domain
      else if l_mail L (TrimSpace (h2_email h)) \<noteq> Some (TrimSpace (h2_email h)) then Some H2_email
      else if h2_ca h \<noteq> ''letsencrypt'' \<or> h2_dir h \<noteq> ''/var/lib/hysteria/acme'' \<or> h2_acme_type h \<noteq> ''http'' then Some H2_acme
      else if \<not> validHysteria2ACMEListener h then Some H2_listener
      else if h2_auth_type h \<noteq> ''userpass'' then Some H2_auth
      else if \<not> list_all (\<lambda>(u, p). validHysteria2Username u \<and> validHysteria2Password p) (h2_userpass h)
      then Some H2_credentials
      else if h2_masq_type h \<noteq> ''proxy'' \<or> \<not> validHysteria2MasqueradeURL L (h2_url h) \<or> \<not> h2_rewrite h \<or> h2_insecure h
        \<or> h2_forwarded h then Some H2_masquerade
      else None)"

definition parseHysteria2ServerConfig :: "lib \<Rightarrow> h2_text \<Rightarrow> cfg_error + hysteria2ServerConfig" where
  "parseHysteria2ServerConfig L t =
     (case t of
        H2_empty \<Rightarrow> Inl H2_schema
      | H2_malformed \<Rightarrow> Inl H2_schema
      | H2_several \<Rightarrow> Inl H2_one_object
      | H2 h \<Rightarrow> (case h2_check L h of None \<Rightarrow> Inr h | Some e \<Rightarrow> Inl e))"

definition hysteria2_validate :: "lib \<Rightarrow> RenderedConfig \<Rightarrow> ValidationResult" where
  "hysteria2_validate L c =
     (let role = EffectiveDeploymentRole (cs_role (rc_server c));
          failed = (\<lambda>e. \<lparr>vr_errors = [e], vr_warnings = []\<rparr>) in
      if role \<noteq> Some Role_vpn \<and> role \<noteq> Some Role_hybrid then failed H2_role
      else case parseHysteria2ServerConfig L (rc_hysteria2 c) of
             Inl e \<Rightarrow> failed e
           | Inr h \<Rightarrow>
               if role = Some Role_vpn \<and> (h2_listen_host h \<noteq> [] \<or> h2_alt_port h \<noteq> None) then failed H2_direct
               else if role = Some Role_hybrid \<and> \<not> usesHysteria2ACMEBridge h then failed H2_bridge
               else \<lparr>vr_errors = [], vr_warnings = (if h2_userpass h = [] then [No_h2_accounts] else [])\<rparr>)"

definition hysteria2_ready :: "lib \<Rightarrow> RenderedConfig \<Rightarrow> bool" where
  "hysteria2_ready L c =
     (case parseHysteria2ServerConfig L (rc_hysteria2 c) of Inl _ \<Rightarrow> False | Inr h \<Rightarrow> h2_userpass h \<noteq> [])"

section \<open>Shadowsocks\<close>

definition validShadowsocksKey :: "string \<Rightarrow> bool" where
  "validShadowsocksKey v = (case StdEncoding_DecodeString (TrimSpace v) of None \<Rightarrow> False | Some bs \<Rightarrow> length bs = 16)"

definition isShadowsocksAccountRenderable :: "VPNAccountConfigInfo \<Rightarrow> bool" where
  "isShadowsocksAccountRenderable a \<longleftrightarrow>
     accountUsesProtocol a ''shadowsocks'' \<and> ac_status a = ''active'' \<and> validShadowsocksKey (ac_ss_key a)
     \<and> ac_enforcement a \<noteq> ''over_limit''"

definition shadowsocks_user :: "VPNAccountConfigInfo \<Rightarrow> json" where
  "shadowsocks_user a = JObj [(''name'', JStr (account_username a)), (''password'', JStr (TrimSpace (ac_ss_key a)))]"

definition shadowsocks_inbound :: "ServerConfigInfo \<Rightarrow> json list \<Rightarrow> json" where
  "shadowsocks_inbound i users =
     JObj [(''listen'', JStr ''::''), (''listen_port'', JInt (if si_ss_port i = 0 then 8388 else si_ss_port i)),
           (''method'', JStr ''2022-blake3-aes-128-gcm''),
           (''multiplex'', JObj [(''enabled'', JBool True), (''padding'', JBool False)]),
           (''network'', JStr ''tcp''), (''password'', JStr (TrimSpace (si_ss_key i))),
           (''tag'', JStr ''shadowsocks-in''), (''type'', JStr ''shadowsocks''), (''users'', JArr users)]"

definition shadowsocks_render :: "ServerConfigInfo \<Rightarrow> RenderedConfig \<Rightarrow> RenderedConfig" where
  "shadowsocks_render i c =
     (let as = filter isShadowsocksAccountRenderable (si_accounts i);
          b = ensureSingBoxBase (rc_singbox c);
          b' = (if as = [] then b
                else b\<lparr>sb_inbounds := sb_inbounds b @ [shadowsocks_inbound i (map shadowsocks_user as)]\<rparr>)
      in c\<lparr>rc_accounts := rc_accounts c @ map (\<lambda>a. (account_entry a)\<lparr>va_protocol := ''shadowsocks'',
               va_ss_user := account_username a\<rparr>) as,
           rc_singbox := applySingBoxRoutingProfile (si_routing i) b'\<rparr>)"

definition object_size :: "json \<Rightarrow> nat" where
  "object_size j = (case j of JObj ms \<Rightarrow> length ms | _ \<Rightarrow> 0)"

fun check_ss_users :: "json list \<Rightarrow> string list \<Rightarrow> string list \<Rightarrow> cfg_error option" where
  "check_ss_users [] names keys = None"
| "check_ss_users (u # us) names keys =
     (let n = stringValueFromMap u ''name''; k = stringValueFromMap u ''password'' in
      if \<not> validHysteria2Username n \<or> \<not> validShadowsocksKey k \<or> object_size u \<noteq> 2 then Some Ss_credentials
      else if n \<in> set names then Some Ss_names
      else if k \<in> set keys then Some Ss_keys
      else check_ss_users us (n # names) (k # keys))"

definition check_ss_inbound :: "json \<Rightarrow> cfg_error option" where
  "check_ss_inbound ib =
     (let port = intValue (member ib ''listen_port''); mx = member ib ''multiplex'' in
      if stringValueFromMap ib ''tag'' \<noteq> ''shadowsocks-in'' \<or> stringValueFromMap ib ''listen'' \<noteq> ''::''
        \<or> stringValueFromMap ib ''network'' \<noteq> ''tcp'' \<or> stringValueFromMap ib ''method'' \<noteq> ''2022-blake3-aes-128-gcm''
      then Some Ss_policy
      else if port < 1 \<or> 65535 < port then Some Ss_port
      else if \<not> validShadowsocksKey (stringValueFromMap ib ''password'') then Some Ss_server_key
      else if \<not> is_object mx \<or> member mx ''enabled'' \<noteq> JBool True \<or> member mx ''padding'' \<noteq> JBool False \<or> object_size mx \<noteq> 2
      then Some Ss_multiplex
      else case mapSlice (member ib ''users'') of
             None \<Rightarrow> Some Ss_no_users
           | Some us \<Rightarrow> if us = [] then Some Ss_no_users else check_ss_users us [] [])"

definition parseShadowsocksInbound :: "RenderedConfig \<Rightarrow> cfg_error + json option" where
  "parseShadowsocksInbound c =
     (let b = rc_singbox c in
      if sb_outbounds b = [] \<or> sb_final b \<noteq> ''direct'' then Inl Ss_routing
      else case filter (\<lambda>ib. stringValueFromMap ib ''type'' = ''shadowsocks'') (sb_inbounds b) of
             [] \<Rightarrow> Inr None
           | [ib] \<Rightarrow> (case check_ss_inbound ib of None \<Rightarrow> Inr (Some ib) | Some e \<Rightarrow> Inl e)
           | _ \<Rightarrow> Inl Ss_many)"

definition shadowsocks_validate :: "RenderedConfig \<Rightarrow> ValidationResult" where
  "shadowsocks_validate c =
     (case parseShadowsocksInbound c of
        Inl e \<Rightarrow> \<lparr>vr_errors = [e], vr_warnings = []\<rparr>
      | Inr ib \<Rightarrow> \<lparr>vr_errors = [], vr_warnings = (if ib = None then [No_ss_accounts] else [])\<rparr>)"

definition shadowsocks_ready :: "RenderedConfig \<Rightarrow> bool" where
  "shadowsocks_ready c = (case parseShadowsocksInbound c of Inl _ \<Rightarrow> False | Inr ib \<Rightarrow> ib \<noteq> None)"

section \<open>MTProto\<close>

definition mtproto_lines :: "lib \<Rightarrow> ServerConfigInfo \<Rightarrow> string list" where
  "mtproto_lines L i =
     [''debug = false'', ''secret = '' @ l_quote L (ToLower (TrimSpace (si_mt_secret i))),
      ''bind-to = '' @ l_quote L (''0.0.0.0:'' @ Itoa (if si_mt_port i = 0 then 9443 else si_mt_port i)),
      ''concurrency = 8192'', ''prefer-ip = \"prefer-ipv4\"'', ''auto-update = false'']"

definition mtproto_render :: "lib \<Rightarrow> ServerConfigInfo \<Rightarrow> RenderedConfig \<Rightarrow> RenderedConfig" where
  "mtproto_render L i c = c\<lparr>rc_mtproto := unlines (mtproto_lines L i)\<rparr>"

record mtprotoServerConfig =
  mt_secret :: string
  mt_port :: int
  mt_domain :: string

definition validMTProtoSecret :: "string \<Rightarrow> bool" where
  "validMTProtoSecret v =
     (let v = ToLower (TrimSpace v) in
      length v = 70 \<and> prefix ''ee'' v
      \<and> (case hex_DecodeString v of
           None \<Rightarrow> False
         | Some bs \<Rightarrow> length bs = 35 \<and> map char_of (drop 17 bs) = ''www.cloudflare.com''))"

fun mt_lines :: "string list \<Rightarrow> (string \<times> string) list \<Rightarrow> cfg_error + (string \<times> string) list" where
  "mt_lines [] m = Inr m"
| "mt_lines (raw # ls) m =
     (let line = TrimSpace raw in
      if line = [] then mt_lines ls m
      else case Cut CHR ''='' line of
             None \<Rightarrow> Inl Mt_grammar
           | Some (k, v) \<Rightarrow>
               let k = TrimSpace k; v = TrimSpace v in
               if k \<notin> {''debug'', ''secret'', ''bind-to'', ''concurrency'', ''prefer-ip'', ''auto-update''} then Inl (Mt_field k)
               else if map_of m k \<noteq> None then Inl (Mt_duplicate k)
               else mt_lines ls (put k v m))"

definition mt_finish :: "lib \<Rightarrow> (string \<times> string) list \<Rightarrow> cfg_error + mtprotoServerConfig" where
  "mt_finish L m =
     (if length m \<noteq> 6 \<or> value_of m ''debug'' \<noteq> ''false'' \<or> value_of m ''concurrency'' \<noteq> ''8192''
        \<or> value_of m ''prefer-ip'' \<noteq> ''\"prefer-ipv4\"'' \<or> value_of m ''auto-update'' \<noteq> ''false''
      then Inl Mt_policy
      else case l_unquote L (value_of m ''secret'') of
             None \<Rightarrow> Inl Mt_secret
           | Some s \<Rightarrow>
               if \<not> validMTProtoSecret s then Inl Mt_secret
               else case l_unquote L (value_of m ''bind-to'') of
                      None \<Rightarrow> Inl Mt_bind
                    | Some b \<Rightarrow>
                        if \<not> prefix ''0.0.0.0:'' b then Inl Mt_bind
                        else case Atoi (TrimPrefix b ''0.0.0.0:'') of
                               None \<Rightarrow> Inl Mt_port
                             | Some p \<Rightarrow>
                                 if p < 1 \<or> 65535 < p \<or> b \<noteq> ''0.0.0.0:'' @ Itoa p then Inl Mt_port
                                 else Inr \<lparr>mt_secret = ToLower s, mt_port = p, mt_domain = ''www.cloudflare.com''\<rparr>)"

definition parseMTProtoServerConfig :: "lib \<Rightarrow> string \<Rightarrow> cfg_error + mtprotoServerConfig" where
  "parseMTProtoServerConfig L payload =
     (case mt_lines (Split_at newline (TrimSpace payload)) [] of Inl e \<Rightarrow> Inl e | Inr m \<Rightarrow> mt_finish L m)"

definition mtproto_validate :: "lib \<Rightarrow> RenderedConfig \<Rightarrow> ValidationResult" where
  "mtproto_validate L c =
     (case parseMTProtoServerConfig L (rc_mtproto c) of
        Inl e \<Rightarrow> \<lparr>vr_errors = [e], vr_warnings = []\<rparr>
      | Inr _ \<Rightarrow> \<lparr>vr_errors = [], vr_warnings = []\<rparr>)"

definition mtproto_ready :: "lib \<Rightarrow> RenderedConfig \<Rightarrow> bool" where
  "mtproto_ready L c = (case parseMTProtoServerConfig L (rc_mtproto c) of Inl _ \<Rightarrow> False | Inr _ \<Rightarrow> True)"

end
