(* ===== verification/Config_Render.thy ===== *)
theory Config_Render
  imports Config_Adapters
begin

text \<open>
  The composition of the adapters (\<open>service.go\<close>, \<open>multi_protocol.go\<close>, \<open>singbox_traffic.go\<close>): building and
  validating a rendered configuration, and the client settings it deploys (\<open>client_settings.go\<close>).
\<close>

section \<open>Rendering\<close>

fun adapter_Render :: "lib \<Rightarrow> ServerConfigInfo \<Rightarrow> adapter \<Rightarrow> RenderedConfig \<Rightarrow> RenderedConfig" where
  "adapter_Render L i SingBoxVLESS c = vless_render i c"
| "adapter_Render L i WireGuardAdapter c = wireguard_render i c"
| "adapter_Render L i Hysteria2Adapter c = hysteria2_render i c"
| "adapter_Render L i ShadowsocksAdapter c = shadowsocks_render i c"
| "adapter_Render L i MTProtoAdapter c = mtproto_render L i c"

definition renderedAccountProtocols :: "lib \<Rightarrow> ConfigVPNAccount \<Rightarrow> string list" where
  "renderedAccountProtocols L a =
     orderedAccountProtocols L (va_protocols a
       @ (if TrimSpace (va_protocol a) \<noteq> [] then [va_protocol a] else [])
       @ (if TrimSpace (va_uuid a) \<noteq> [] then [''vless''] else [])
       @ (if TrimSpace (va_wg_public a) \<noteq> [] \<or> TrimSpace (va_wg_address a) \<noteq> [] then [''wireguard''] else [])
       @ (if TrimSpace (va_h2_user a) \<noteq> [] then [''hysteria2''] else [])
       @ (if TrimSpace (va_ss_user a) \<noteq> [] then [''shadowsocks''] else []))"

definition first_nonempty :: "string \<Rightarrow> string \<Rightarrow> string" where
  "first_nonempty s t = (if s = [] then t else s)"

definition merge_entry :: "lib \<Rightarrow> ConfigVPNAccount \<Rightarrow> ConfigVPNAccount \<Rightarrow> ConfigVPNAccount" where
  "merge_entry L a t = t\<lparr>va_protocols := orderedAccountProtocols L (va_protocols t @ va_protocols a),
     va_uuid := first_nonempty (va_uuid t) (va_uuid a),
     va_wg_public := first_nonempty (va_wg_public t) (va_wg_public a),
     va_wg_address := first_nonempty (va_wg_address t) (va_wg_address a),
     va_h2_user := first_nonempty (va_h2_user t) (va_h2_user a),
     va_ss_user := first_nonempty (va_ss_user t) (va_ss_user a)\<rparr>"

definition merge_account :: "lib \<Rightarrow> ConfigVPNAccount \<Rightarrow> ConfigVPNAccount list \<Rightarrow> ConfigVPNAccount list" where
  "merge_account L a0 merged =
     (let a = a0\<lparr>va_protocols := renderedAccountProtocols L a0\<rparr> in
      if va_id a \<in> va_id ` set merged
      then update_where (\<lambda>t. va_id t = va_id a) (merge_entry L a) merged
      else merged @ [a])"

definition mergeRenderedVPNAccounts :: "lib \<Rightarrow> RenderedConfig \<Rightarrow> RenderedConfig" where
  "mergeRenderedVPNAccounts L c = c\<lparr>rc_accounts := fold (merge_account L) (rc_accounts c) []\<rparr>"

definition inbound_user_names :: "json \<Rightarrow> string list" where
  "inbound_user_names ib =
     (case member ib ''users'' of
        JArr us \<Rightarrow> filter (\<lambda>n. n \<noteq> []) (map (\<lambda>u. stringValue (member u ''name'')) us)
      | _ \<Rightarrow> [])"

definition traffic_supported :: "AgentConfigInfo \<Rightarrow> bool" where
  "traffic_supported ag \<longleftrightarrow>
     (let acc = member (ag_capabilities ag) ''trafficAccounting''; core = member (ag_capabilities ag) ''vpnCore'' in
      member acc ''enabled'' = JBool True \<and> member acc ''source'' = JStr ''sing-box-v2ray-api''
      \<and> member core ''v2rayAPI'' = JBool True)"

definition configureSingBoxTraffic :: "ServerConfigInfo \<Rightarrow> RenderedConfig \<Rightarrow> RenderedConfig" where
  "configureSingBoxTraffic i c =
     (case si_agent i of
        None \<Rightarrow> c
      | Some ag \<Rightarrow>
          let b = rc_singbox c; names = concat (map inbound_user_names (sb_inbounds b)) in
          if \<not> traffic_supported ag \<or> names = [] then c
          else c\<lparr>rc_singbox := b\<lparr>sb_experimental := put ''v2ray_api''
                 (JObj [(''listen'', JStr ''127.0.0.1:18085''),
                        (''stats'', JObj [(''enabled'', JBool True), (''users'', JArr (map JStr (sort (remdups names))))])])
                 (sb_experimental b)\<rparr>\<rparr>)"

definition renderSelectedVPNCoreAdapters :: "lib \<Rightarrow> ServerConfigInfo \<Rightarrow> RenderedConfig \<Rightarrow> RenderedConfig" where
  "renderSelectedVPNCoreAdapters L i c0 =
     (let as = selectedVPNCoreAdapters i; m = rc_metadata c0;
          cores = map (\<lambda>a. configVPNCoreFromAdapter a (md_reality m)) as;
          c1 = (if cores \<noteq> [md_core m] then c0\<lparr>rc_metadata := m\<lparr>md_cores := cores\<rparr>\<rparr> else c0)
      in configureSingBoxTraffic i (mergeRenderedVPNAccounts L (fold (adapter_Render L i) as c1)))"

definition role_text :: "role option \<Rightarrow> string" where
  "role_text r = (case r of None \<Rightarrow> [] | Some Role_management \<Rightarrow> ''management'' | Some Role_vpn \<Rightarrow> ''vpn''
     | Some Role_hybrid \<Rightarrow> ''hybrid'')"

definition empty_singbox :: SingBoxConfig where
  "empty_singbox = \<lparr>sb_experimental = [], sb_level = [], sb_output = [], sb_inbounds = [], sb_outbounds = [],
     sb_rules = [], sb_final = []\<rparr>"

definition config_base :: "ServerConfigInfo \<Rightarrow> time \<Rightarrow> RenderedConfig" where
  "config_base i now =
     \<lparr>rc_schema = ''routegate.config.v1'',
      rc_server = \<lparr>cs_id = si_id i, cs_name = si_name i, cs_role = role_text (EffectiveDeploymentRole (si_role i)),
        cs_hostname = si_hostname i, cs_public_ip = si_public_ip i, cs_private_ip = si_private_ip i,
        cs_location = si_location i, cs_provider = si_provider i, cs_status = si_status i\<rparr>,
      rc_agent = si_agent i, rc_accounts = [], rc_routing = None, rc_singbox = empty_singbox, rc_wireguard = [],
      rc_hysteria2 = H2_empty, rc_mtproto = [],
      rc_metadata = \<lparr>md_empty_users = False, md_source = ''routegate-manager'', md_rendered_at = now,
        md_reality = realityRequested i,
        md_core = configVPNCoreFromAdapter (selectedVPNCoreAdapter i) (realityRequested i), md_cores = []\<rparr>\<rparr>"

definition buildRenderedConfig :: "lib \<Rightarrow> ServerConfigInfo \<Rightarrow> time \<Rightarrow> RenderedConfig" where
  "buildRenderedConfig L i now =
     renderSelectedVPNCoreAdapters L i (applyServerRoutingProfile (si_routing i) (config_base i now))"

text \<open>The cleanup side of a transfer may deploy a listener without users, which refuses every credential.\<close>

definition cleanup_listener :: "ServerConfigInfo \<Rightarrow> RenderedConfig \<Rightarrow> RenderedConfig" where
  "cleanup_listener i c =
     (if rc_accounts c = [] \<and> normalizeAccountProtocol (si_protocol i) = ''vless'' \<and> findVLESSInbound c = None
      then c\<lparr>rc_singbox := (rc_singbox c)\<lparr>sb_inbounds := sb_inbounds (rc_singbox c)
                 @ [vless_inbound i (md_reality (rc_metadata c)) []]\<rparr>,
             rc_metadata := (rc_metadata c)\<lparr>md_empty_users := True\<rparr>\<rparr>
      else c)"

section \<open>Validation\<close>

definition adapterForRenderedConfig :: "RenderedConfig \<Rightarrow> adapter option" where
  "adapterForRenderedConfig c =
     (if vc_core (md_core (rc_metadata c)) = [] then Some (currentVLESSAdapter (md_reality (rc_metadata c)))
      else Resolve (md_core (rc_metadata c)))"

fun configured_adapters ::
  "RenderedConfig \<Rightarrow> ConfigVPNCore list \<Rightarrow> string list \<Rightarrow> adapter list option" where
  "configured_adapters c [] seen = Some []"
| "configured_adapters c (v # vs) seen =
     (case (if TrimSpace (vc_core v) = [] then adapterForRenderedConfig c else Resolve v) of
        None \<Rightarrow> None
      | Some a \<Rightarrow>
          let key = (if TrimSpace (vc_core v) = [] then de_core (Descriptor a) @ ''/'' @ de_protocol (Descriptor a)
                     else vc_core v @ ''/'' @ vc_protocol v) in
          if key \<in> set seen then configured_adapters c vs seen
          else map_option (\<lambda>as. a # as) (configured_adapters c vs (key # seen)))"

text \<open>The list of descriptors is never empty, so neither is the list of adapters when all resolve.\<close>

definition configuredVPNCoreAdapters :: "RenderedConfig \<Rightarrow> adapter list option" where
  "configuredVPNCoreAdapters c =
     (let m = rc_metadata c in
      case configured_adapters c (if md_cores m = [] then [md_core m] else md_cores m) [] of
        None \<Rightarrow> None
      | Some as \<Rightarrow> if as = [] then None else Some as)"

fun adapter_Validate :: "lib \<Rightarrow> RenderedConfig \<Rightarrow> adapter \<Rightarrow> ValidationResult" where
  "adapter_Validate L c SingBoxVLESS = vless_validate c"
| "adapter_Validate L c WireGuardAdapter = wireguard_validate c"
| "adapter_Validate L c Hysteria2Adapter = hysteria2_validate L c"
| "adapter_Validate L c ShadowsocksAdapter = shadowsocks_validate c"
| "adapter_Validate L c MTProtoAdapter = mtproto_validate L c"

fun adapter_Ready :: "lib \<Rightarrow> RenderedConfig \<Rightarrow> adapter \<Rightarrow> bool" where
  "adapter_Ready L c SingBoxVLESS = vless_ready c"
| "adapter_Ready L c WireGuardAdapter = wireguard_ready c"
| "adapter_Ready L c Hysteria2Adapter = hysteria2_ready L c"
| "adapter_Ready L c ShadowsocksAdapter = shadowsocks_ready c"
| "adapter_Ready L c MTProtoAdapter = mtproto_ready L c"

definition validateConfiguredVPNCoreAdapters :: "lib \<Rightarrow> RenderedConfig \<Rightarrow> ValidationResult" where
  "validateConfiguredVPNCoreAdapters L c =
     (case configuredVPNCoreAdapters c of
        None \<Rightarrow> \<lparr>vr_errors = [Bad_composition], vr_warnings = []\<rparr>
      | Some as \<Rightarrow> \<lparr>vr_errors = concat (map (\<lambda>a. vr_errors (adapter_Validate L c a)) as),
                    vr_warnings = concat (map (\<lambda>a. vr_warnings (adapter_Validate L c a)) as)\<rparr>)"

definition configuredVPNServicesReady :: "lib \<Rightarrow> RenderedConfig \<Rightarrow> bool" where
  "configuredVPNServicesReady L c =
     (case configuredVPNCoreAdapters c of None \<Rightarrow> False | Some as \<Rightarrow> list_all (adapter_Ready L c) as)"

definition server_errors :: "RenderedConfig \<Rightarrow> cfg_error list" where
  "server_errors c =
     (if rc_schema c \<noteq> ''routegate.config.v1'' then [Bad_schema] else [])
     @ (if cs_id (rc_server c) = [] then [No_server_id] else [])
     @ (if cs_name (rc_server c) = [] then [No_server_name] else [])
     @ (let r = TrimSpace (cs_role (rc_server c)) in
        if r = [] then []
        else case ParseDeploymentRole r Role_vpn of
               None \<Rightarrow> [Bad_role]
             | Some p \<Rightarrow> if HostsVPNPlane p then [] else [Role_without_vpn])"

definition ValidateRenderedConfig :: "lib \<Rightarrow> RenderedConfig \<Rightarrow> ValidationResult" where
  "ValidateRenderedConfig L c =
     (let v = validateConfiguredVPNCoreAdapters L c in
      \<lparr>vr_errors = server_errors c @ vr_errors v,
       vr_warnings = vr_warnings v @ (if rc_agent c = None then [No_agent] else [])\<rparr>)"

section \<open>Client settings\<close>

text \<open>What a configuration is after its JSON encoding has been stored and read.\<close>

definition persisted :: "RenderedConfig \<Rightarrow> RenderedConfig" where
  "persisted c = c\<lparr>rc_accounts := map (\<lambda>a. a\<lparr>va_protocol := []\<rparr>) (rc_accounts c)\<rparr>"

record AppliedAccountProtocols =
  ap_primary :: string
  ap_protocols :: "string list"

record AppliedClientSettings =
  cl_protocol :: string
  cl_vless_port :: int
  cl_vless_flow :: string
  cl_vless_network :: string
  cl_reality_public :: string
  cl_reality_short :: string
  cl_reality_name :: string
  cl_wg_port :: int
  cl_wg_address :: string
  cl_wg_public :: string
  cl_h2_port :: int
  cl_h2_domain :: string
  cl_ss_port :: int
  cl_ss_method :: string
  cl_ss_key :: string
  cl_mt_port :: int
  cl_mt_secret :: string
  cl_mt_domain :: string
  cl_accounts :: "(string \<rightharpoonup> AppliedAccountProtocols) option"

definition realityPublicKeyFromPrivate :: "lib \<Rightarrow> string \<Rightarrow> string option" where
  "realityPublicKeyFromPrivate L v =
     (case RawURLEncoding_DecodeString (TrimSpace v) of
        None \<Rightarrow> None
      | Some k \<Rightarrow> if length k \<noteq> 32 then None else Some (EncodeToString64 ''-_'' [] (l_x25519 L k)))"

text \<open>\<open>None\<close> is an error: the section is present but cannot be read.\<close>

definition vlessClientSettings :: "lib \<Rightarrow> json \<Rightarrow> AppliedClientSettings \<Rightarrow> AppliedClientSettings option" where
  "vlessClientSettings L ib s0 =
     (let port = intValue (member ib ''listen_port'') in
      if port < 1 \<or> 65535 < port then None
      else
        let flow = (case member ib ''users'' of
                      JArr (u # _) \<Rightarrow> if is_object u then TrimSpace (stringValue (member u ''flow'')) else cl_vless_flow s0
                    | _ \<Rightarrow> cl_vless_flow s0);
            s1 = s0\<lparr>cl_vless_port := port, cl_vless_network := ''tcp'', cl_vless_flow := flow\<rparr>;
            tls = member ib ''tls''; re = member tls ''reality'' in
        if \<not> is_object tls \<or> \<not> is_object re \<or> \<not> boolValue (member re ''enabled'') then Some s1
        else
          let s2 = s1\<lparr>cl_reality_name := TrimSpace (stringValue (member tls ''server_name'')),
                      cl_reality_short := (case member re ''short_id'' of
                         JArr (x # _) \<Rightarrow> TrimSpace (stringValue x) | _ \<Rightarrow> cl_reality_short s1)\<rparr> in
          case realityPublicKeyFromPrivate L (stringValue (member re ''private_key'')) of
            None \<Rightarrow> None
          | Some k \<Rightarrow> Some (s2\<lparr>cl_reality_public := k\<rparr>))"

definition inbound_settings :: "lib \<Rightarrow> json \<Rightarrow> AppliedClientSettings \<Rightarrow> AppliedClientSettings option" where
  "inbound_settings L ib s =
     (let ty = ToLower (TrimSpace (stringValue (member ib ''type''))) in
      if ty = ''vless'' then vlessClientSettings L ib s
      else if ty = ''shadowsocks'' then
        let port = intValue (member ib ''listen_port''); mt = stringValue (member ib ''method'');
            key = TrimSpace (stringValue (member ib ''password'')) in
        if port < 1 \<or> mt = [] \<or> key = [] then None
        else Some (s\<lparr>cl_ss_port := port, cl_ss_method := mt, cl_ss_key := key\<rparr>)
      else Some s)"

fun inbounds_settings :: "lib \<Rightarrow> json list \<Rightarrow> AppliedClientSettings \<Rightarrow> AppliedClientSettings option" where
  "inbounds_settings L [] s = Some s"
| "inbounds_settings L (ib # ibs) s =
     (case inbound_settings L ib s of None \<Rightarrow> None | Some s' \<Rightarrow> inbounds_settings L ibs s')"

text \<open>\<open>listed\<close> says whether the stored payload has a member \<open>vpnAccounts\<close>.\<close>

definition applied_entry ::
  "lib \<Rightarrow> bool \<Rightarrow> (string \<rightharpoonup> string) \<Rightarrow> ConfigVPNAccount \<Rightarrow> AppliedAccountProtocols" where
  "applied_entry L mt primaries a =
     (let ps = renderedAccountProtocols L a;
          requested = (case primaries (va_id a) of None \<Rightarrow> [] | Some p \<Rightarrow> p);
          primary = normalizeAccountProtocol requested in
      \<lparr>ap_primary = (if requested \<noteq> [] \<and> (protocolListContains ps primary \<or> (primary = ''mtproto'' \<and> mt)) then primary else []),
       ap_protocols = ps\<rparr>)"

definition renderedAccountDeployments ::
  "lib \<Rightarrow> bool \<Rightarrow> RenderedConfig \<Rightarrow> (string \<rightharpoonup> string) \<Rightarrow> (string \<rightharpoonup> AppliedAccountProtocols) option" where
  "renderedAccountDeployments L listed c primaries =
     (let mt = TrimSpace (rc_mtproto c) \<noteq> [];
          accounts = map_of (rev (map (\<lambda>a. (va_id a, applied_entry L mt primaries a)) (rc_accounts c))) in
      if \<not> listed \<or> (\<exists>a \<in> set (rc_accounts c). TrimSpace (va_id a) = [] \<or> renderedAccountProtocols L a = []) then None
      else Some (\<lambda>k. case accounts k of
             Some e \<Rightarrow> Some e
           | None \<Rightarrow>
               if mt \<and> TrimSpace k \<noteq> [] \<and> (case primaries k of None \<Rightarrow> False | Some p \<Rightarrow> normalizeAccountProtocol p = ''mtproto'')
               then Some \<lparr>ap_primary = ''mtproto'', ap_protocols = []\<rparr> else None))"

definition wireguard_settings :: "lib \<Rightarrow> string \<Rightarrow> AppliedClientSettings \<Rightarrow> AppliedClientSettings option" where
  "wireguard_settings L t s =
     (if TrimSpace t = [] then Some s
      else case parseWireGuardServerConfig t of
             Inl _ \<Rightarrow> None
           | Inr p \<Rightarrow>
               (case PublicKeyFromPrivate StdEncoding_DecodeString (EncodeToString64 ''+/'' ''='') (l_x25519 L) (pw_private p) of
                  None \<Rightarrow> None
                | Some k \<Rightarrow> Some (s\<lparr>cl_wg_port := pw_port p, cl_wg_address := pw_address p, cl_wg_public := k\<rparr>)))"

definition hysteria2_settings :: "lib \<Rightarrow> h2_text \<Rightarrow> AppliedClientSettings \<Rightarrow> AppliedClientSettings option" where
  "hysteria2_settings L t s =
     (if t = H2_empty then Some s
      else case parseHysteria2ServerConfig L t of
             Inl _ \<Rightarrow> None
           | Inr h \<Rightarrow>
               Some (s\<lparr>cl_h2_port := (case Atoi (TrimPrefix (h2_listen h) '':'') of None \<Rightarrow> 0 | Some p \<Rightarrow> p),
                       cl_h2_domain := hd (h2_domains h)\<rparr>))"

definition mtproto_settings :: "lib \<Rightarrow> string \<Rightarrow> AppliedClientSettings \<Rightarrow> AppliedClientSettings option" where
  "mtproto_settings L t s =
     (if TrimSpace t = [] then Some s
      else case parseMTProtoServerConfig L t of
             Inl _ \<Rightarrow> None
           | Inr p \<Rightarrow> Some (s\<lparr>cl_mt_port := mt_port p, cl_mt_secret := mt_secret p, cl_mt_domain := mt_domain p\<rparr>))"

definition clientSettingsFromRenderedJSON ::
  "lib \<Rightarrow> bool \<Rightarrow> RenderedConfig \<Rightarrow> (string \<rightharpoonup> string) \<Rightarrow> AppliedClientSettings option" where
  "clientSettingsFromRenderedJSON L listed c primaries =
     Option.bind (inbounds_settings L (sb_inbounds (rc_singbox c))
        \<lparr>cl_protocol = vc_protocol (md_core (rc_metadata c)), cl_vless_port = 0, cl_vless_flow = [], cl_vless_network = [],
         cl_reality_public = [], cl_reality_short = [], cl_reality_name = [], cl_wg_port = 0, cl_wg_address = [],
         cl_wg_public = [], cl_h2_port = 0, cl_h2_domain = [], cl_ss_port = 0, cl_ss_method = [], cl_ss_key = [],
         cl_mt_port = 0, cl_mt_secret = [], cl_mt_domain = [],
         cl_accounts = renderedAccountDeployments L listed c primaries\<rparr>)
     (\<lambda>s. Option.bind (wireguard_settings L (rc_wireguard c) s)
     (\<lambda>s. Option.bind (hysteria2_settings L (rc_hysteria2 c) s) (mtproto_settings L (rc_mtproto c))))"

end
