(* ===== verification/Config_Store.thy ===== *)
theory Config_Store
  imports Effects Config_Render
begin

text \<open>
  Configuration versions and their deployment (\<open>configs/service.go\<close>, \<open>configs/repository.go\<close>,
  \<open>configs/lifecycle*.go\<close>, the tasks of \<open>agents/repository.go\<close>): reading a node's data, rendering and storing a
  version, validating it, queueing its deployment, the Agent's claim and completion of it, and the version
  lifecycle.  The triggers of migrations 155, 157 and 159 are part of the statements that fire them.

  The database is one record of tables.  \<open>d_auth\<close> is the transaction's setting \<open>routegate.transfer_id\<close> and \<open>d_seq\<close> counts the identifiers drawn by \<open>gen_random_uuid\<close>; an identifier that is
  already taken violates the primary key.  A stored configuration is the value it decodes to, or a
  constructor that says why it does not.  Result payloads of jobs are held as the part the code decodes.
\<close>

section \<open>Tables\<close>

record server_row =
  srv_id :: string
  srv_name :: string
  srv_role :: string
  srv_hostname :: "string option"
  srv_public_ip :: "string option"
  srv_private_ip :: "string option"
  srv_location :: "string option"
  srv_provider :: "string option"
  srv_status :: string
  srv_vless_port :: int
  srv_vless_flow :: "string option"
  srv_vless_network :: string
  srv_reality_private :: "string option"
  srv_reality_public :: "string option"
  srv_reality_short :: "string option"
  srv_reality_name :: "string option"
  srv_protocol :: string
  srv_wg_port :: int
  srv_wg_address :: string
  srv_wg_private :: "string option"
  srv_h2_port :: int
  srv_h2_domain :: string
  srv_h2_email :: string
  srv_h2_masquerade :: string
  srv_ss_port :: int
  srv_ss_key :: string
  srv_mt_port :: int
  srv_mt_secret :: string
  srv_active :: "string option"
  srv_next :: int
  srv_protocol_updated :: "time option"
  srv_updated :: time

record agent_row =
  agt_id :: string
  agt_server :: string
  agt_hostname :: "string option"
  agt_os :: "string option"
  agt_arch :: "string option"
  agt_version :: "string option"
  agt_status :: string
  agt_capabilities :: "json option"
  agt_token :: string
  agt_seen :: "time option"
  agt_auth_seen :: "time option"
  agt_auth_generation :: "int option"
  agt_generation :: int

record account_row =
  acct_id :: string
  acct_server :: "string option"
  acct_display :: string
  acct_status :: string
  acct_expires :: "time option"
  acct_uuid :: "string option"
  acct_wg_private :: "string option"
  acct_wg_public :: "string option"
  acct_wg_address :: "string option"
  acct_h2_password :: string
  acct_ss_key :: string
  acct_created :: time
  acct_config_updated :: time

record client_profile =
  prf_account :: string
  prf_protocol :: string
  prf_active :: string
  prf_updated :: time

record account_protocol =
  apr_account :: string
  apr_protocol :: string
  apr_desired :: bool
  apr_explicit :: bool
  apr_active :: bool
  apr_updated :: time
  apr_activated :: "time option"

record routing_row =
  rtp_profile :: RoutingProfile
  rtp_created :: time

record routing_rule_row =
  rtr_profile :: string
  rtr_enabled :: bool
  rtr_created :: time
  rtr_rule :: RoutingRule

text \<open>A stored configuration: not a JSON object, an object that does not decode, or decoded, with the flag
  that its member \<open>vpnAccounts\<close> is present.\<close>

datatype payload = Not_an_object | Undecodable | Payload bool RenderedConfig

record ConfigVersion =
  ver_id :: string
  ver_server :: string
  ver_version :: int
  ver_hash :: string
  ver_status :: string
  ver_payload :: payload
  ver_settings :: "AppliedClientSettings option"
  ver_created :: time
  ver_applied :: "time option"
  ver_pinned :: bool

record component_report =
  cmp_core :: string
  cmp_protocol :: string
  cmp_status :: string
  cmp_port :: int

record apply_report =
  rep_stage :: string
  rep_components :: "component_report list"

record ConfigApplyJob =
  aj_id :: string
  aj_server :: string
  aj_agent :: "string option"
  aj_version :: string
  aj_action :: string
  aj_status :: string
  aj_comment :: string
  aj_hash :: string
  aj_redeploy :: bool
  aj_result :: "apply_report option"
  aj_error :: string
  aj_created :: time
  aj_updated :: time
  aj_started :: "time option"
  aj_completed :: "time option"

datatype transfer_state = Preparing | Target_applying | Target_ready | Client_refresh_pending | Source_cleaning
  | Target_cleaning | Complete | Cancelled | Rolled_back

record deviceInventory =
  inv_id :: string
  inv_name :: string
  inv_token :: string

record Transfer =
  tr_id :: string
  tr_account :: string
  tr_source :: string
  tr_target :: string
  tr_source_version :: string
  tr_target_version :: "string option"
  tr_target_job :: "string option"
  tr_cleanup_version :: "string option"
  tr_cleanup_job :: "string option"
  tr_state :: transfer_state
  tr_requested_by :: string
  tr_last_action_by :: string
  tr_last_error :: string
  tr_inventory :: "deviceInventory list"
  tr_created :: time
  tr_updated :: time
  tr_cutover :: "time option"
  tr_cleanup_ack :: "time option"
  tr_completed :: "time option"

record token_row =
  tok_id :: string
  tok_account :: string
  tok_device :: "string option"
  tok_status :: string
  tok_used :: "time option"
  tok_created :: time

record device_row =
  dev_id :: string
  dev_name :: string
  dev_status :: string

record operation_row =
  opj_server :: string
  opj_agent :: "string option"
  opj_status :: string
  opj_started :: "time option"

record cfg_db =
  d_servers :: "server_row table"
  d_agents :: "agent_row table"
  d_accounts :: "account_row table"
  d_limits :: "(string \<times> string) table"
  d_profiles :: "client_profile table"
  d_protocols :: "account_protocol table"
  d_routing :: "routing_row table"
  d_rules :: "routing_rule_row table"
  d_server_routing :: "(string \<times> string) table"
  d_versions :: "ConfigVersion table"
  d_jobs :: "ConfigApplyJob table"
  d_transfers :: "Transfer table"
  d_reservations :: "(string \<times> string) table"
  d_tokens :: "token_row table"
  d_devices :: "device_row table"
  d_operations :: "operation_row table"
  d_platform_jobs :: "(string \<times> string) table"
  d_manager_jobs :: "(string \<times> string) table"
  d_auth :: "string option"
  d_seq :: nat

text \<open>What the code takes from outside: the library of the renderer, the casts to \<open>uuid\<close> and \<open>inet\<close>, the
  function \<open>host\<close> of PostgreSQL, the drawn identifiers, the time of the transaction and the clock of the
  process, the digest of an encoded configuration, generated WireGuard keys, and the network probe.\<close>

record cfg_env =
  ce_lib :: lib
  ce_uuid :: "string \<Rightarrow> string option"
  ce_inet :: "string \<Rightarrow> string option"
  ce_host :: "string \<Rightarrow> string"
  ce_gen :: "nat \<Rightarrow> string"
  ce_now :: time
  ce_clock :: time
  ce_digest :: "RenderedConfig \<Rightarrow> string"
  ce_keygen :: "string \<Rightarrow> (string \<times> string) option"
  ce_reach :: "string \<Rightarrow> int \<Rightarrow> bool"

datatype fault = No_rows | Db_error | Raised string | Guard string | Wireguard_fault wg_error | Bad_payload
  | ErrInvalidRenderedConfig | ErrConfigVersionNotValidated | ErrConfigApplyAgentMissing | ErrConfigApplyUnsafe
  | ErrConfigHashMismatch | ErrNodeRoleNoVPN | ErrConfigVersionCurrent | ErrConfigVersionPinned
  | ErrConfigVersionDeploymentActive | ErrConfigVersionNeverApplied | ErrAgentIDRequired | Refused string

type_synonym 'a cfg = "(fault, cfg_db, 'a) effect"

definition cast_uuid :: "cfg_env \<Rightarrow> string \<Rightarrow> string cfg" where
  "cast_uuid E s = some_or Db_error (ce_uuid E s)"

definition fresh_uuid :: "cfg_env \<Rightarrow> string cfg" where
  "fresh_uuid E = andThen (look (\<lambda>db. ce_gen E (d_seq db))) (\<lambda>u.
     andThen (change (\<lambda>db. db\<lparr>d_seq := Suc (d_seq db)\<rparr>)) (\<lambda>_. ok u))"

definition open_job :: "ConfigApplyJob \<Rightarrow> bool" where
  "open_job j \<longleftrightarrow> aj_status j = ''pending'' \<or> aj_status j = ''in_progress''"

definition open_transfer :: "Transfer \<Rightarrow> bool" where
  "open_transfer t \<longleftrightarrow> tr_completed t = None"

section \<open>Triggers of migration 159\<close>

definition node_blocked :: "cfg_db \<Rightarrow> string \<Rightarrow> bool" where
  "node_blocked db node \<longleftrightarrow> (\<exists>r \<in> set (d_reservations db). fst r = node \<and> Some (snd r) \<noteq> d_auth db)"

definition transfer_node_guard :: "string option \<Rightarrow> unit cfg" where
  "transfer_node_guard node =
     (case node of
        None \<Rightarrow> ok ()
      | Some n \<Rightarrow> check (\<lambda>db. \<not> node_blocked db n) (Raised ''node_reserved_for_transfer''))"

definition version_in_use :: "cfg_db \<Rightarrow> string \<Rightarrow> bool" where
  "version_in_use db v \<longleftrightarrow>
     (\<exists>t \<in> set (d_transfers db). open_transfer t
        \<and> (tr_source_version t = v \<or> tr_target_version t = Some v \<or> tr_cleanup_version t = Some v))"

definition job_in_use :: "cfg_db \<Rightarrow> string \<Rightarrow> bool" where
  "job_in_use db j \<longleftrightarrow>
     (\<exists>t \<in> set (d_transfers db). open_transfer t \<and> (tr_target_job t = Some j \<or> tr_cleanup_job t = Some j))"

text \<open>The statements \<open>UPDATE config_versions\<close> and \<open>DELETE\<close>, with the proof guard and the foreign keys.\<close>

definition spoils_proof :: "ConfigVersion \<Rightarrow> ConfigVersion \<Rightarrow> bool" where
  "spoils_proof old new \<longleftrightarrow>
     ver_payload new \<noteq> ver_payload old \<or> ver_settings new \<noteq> ver_settings old \<or> ver_hash new \<noteq> ver_hash old
     \<or> \<not> ver_pinned new"

definition update_versions :: "(ConfigVersion \<Rightarrow> bool) \<Rightarrow> (ConfigVersion \<Rightarrow> ConfigVersion) \<Rightarrow> unit cfg" where
  "update_versions P f =
     andThen (check (\<lambda>db. \<not> (\<exists>v \<in> set (d_versions db). P v \<and> version_in_use db (ver_id v) \<and> spoils_proof v (f v)))
               (Raised ''transfer_proof_in_use''))
       (\<lambda>_. change (\<lambda>db. db\<lparr>d_versions := update_where P f (d_versions db)\<rparr>))"

definition forget_job :: "string set \<Rightarrow> string option \<Rightarrow> string option" where
  "forget_job js j = (case j of None \<Rightarrow> None | Some i \<Rightarrow> if i \<in> js then None else Some i)"

definition delete_jobs :: "(cfg_db \<Rightarrow> ConfigApplyJob \<Rightarrow> bool) \<Rightarrow> unit cfg" where
  "delete_jobs P =
     andThen (check (\<lambda>db. \<not> (\<exists>j \<in> set (d_jobs db). P db j \<and> job_in_use db (aj_id j))) (Raised ''transfer_proof_in_use''))
       (\<lambda>_. change (\<lambda>db.
          let gone = aj_id ` set (select (P db) (d_jobs db)) in
          db\<lparr>d_jobs := select (\<lambda>j. \<not> P db j) (d_jobs db),
             d_transfers := map (\<lambda>t. t\<lparr>tr_target_job := forget_job gone (tr_target_job t),
                                      tr_cleanup_job := forget_job gone (tr_cleanup_job t)\<rparr>) (d_transfers db)\<rparr>))"

definition refers_version :: "string set \<Rightarrow> Transfer \<Rightarrow> bool" where
  "refers_version vs t \<longleftrightarrow>
     tr_source_version t \<in> vs \<or> (\<exists>v \<in> vs. tr_target_version t = Some v \<or> tr_cleanup_version t = Some v)"

definition delete_versions :: "(cfg_db \<Rightarrow> ConfigVersion \<Rightarrow> bool) \<Rightarrow> nat cfg" where
  "delete_versions P =
     andThen (check (\<lambda>db. \<not> (\<exists>v \<in> set (d_versions db). P db v \<and> version_in_use db (ver_id v))) (Raised ''transfer_proof_in_use''))
       (\<lambda>_. andThen (look (\<lambda>db. ver_id ` set (select (P db) (d_versions db)))) (\<lambda>gone.
        andThen (look (\<lambda>db. rows_affected (P db) (d_versions db))) (\<lambda>n.
        andThen (delete_jobs (\<lambda>_ j. aj_version j \<in> gone)) (\<lambda>_.
        andThen (change (\<lambda>db.
          let lost = tr_id ` set (select (refers_version gone) (d_transfers db)) in
          db\<lparr>d_versions := select (\<lambda>v. ver_id v \<notin> gone) (d_versions db),
             d_transfers := select (\<lambda>t. \<not> refers_version gone t) (d_transfers db),
             d_reservations := select (\<lambda>r. snd r \<notin> lost) (d_reservations db)\<rparr>)) (\<lambda>_. ok n)))))"

section \<open>Reading a node\<close>

text \<open>Membership is additive until the cleanup side of a transfer is rendered (\<open>accountPlacementSQL\<close>).\<close>

definition staged_on :: "string \<Rightarrow> Transfer \<Rightarrow> bool" where
  "staged_on node t \<longleftrightarrow>
     node = tr_target t
       \<and> tr_state t \<in> {Preparing, Target_applying, Target_ready, Client_refresh_pending, Source_cleaning}
     \<or> node = tr_source t
       \<and> tr_state t \<in> {Preparing, Target_applying, Target_ready, Client_refresh_pending, Target_cleaning}"

definition accountPlacementSQL :: "cfg_db \<Rightarrow> string \<Rightarrow> account_row \<Rightarrow> bool" where
  "accountPlacementSQL db node a \<longleftrightarrow>
     acct_server a = Some node
     \<or> (\<exists>t \<in> set (d_transfers db). tr_account t = acct_id a \<and> open_transfer t \<and> staged_on node t)"

text \<open>\<open>EnsureServerPeerCredentials\<close> works on its own view of the tables.  Every update it makes is of an account
  of the node, so the account guard refuses exactly the first of them when the node is reserved by another
  transfer; no cast to \<open>inet\<close> succeeds then.\<close>

definition wg_view :: "cfg_db \<Rightarrow> wg_db" where
  "wg_view db =
     \<lparr>wg_servers = map (\<lambda>s. \<lparr>ws_id = srv_id s, ws_address = srv_wg_address s, ws_protocol = srv_protocol s\<rparr>) (d_servers db),
      wg_accounts = map (\<lambda>a. \<lparr>wa_id = acct_id a, wa_server = acct_server a, wa_private = acct_wg_private a,
          wa_public = acct_wg_public a, wa_address = acct_wg_address a,
          wa_client = map_option prf_protocol (lookup_row prf_account (acct_id a) (d_profiles db)),
          wa_created = acct_created a\<rparr>) (d_accounts db)\<rparr>"

definition wg_store :: "wg_db \<Rightarrow> cfg_db \<Rightarrow> cfg_db" where
  "wg_store w db = db\<lparr>d_accounts := map2 (\<lambda>a p. a\<lparr>acct_wg_private := wa_private p, acct_wg_public := wa_public p,
     acct_wg_address := wa_address p\<rparr>) (d_accounts db) (wg_accounts w)\<rparr>"

definition ensure_peer_credentials :: "cfg_env \<Rightarrow> string \<Rightarrow> unit cfg" where
  "ensure_peer_credentials E node db =
     (case server_body (if node_blocked db node then (\<lambda>_. None) else ce_inet E) (ce_keygen E)
             (PublicKeyFromPrivate StdEncoding_DecodeString (EncodeToString64 ''+/'' ''='') (l_x25519 (ce_lib E)))
             node (wg_view db) of
        Rollback (Inl e) \<Rightarrow> (Inl (Wireguard_fault e), db)
      | Rollback (Inr _) \<Rightarrow> (Inr (), db)
      | Commit (Inl e) w \<Rightarrow> (Inl (Wireguard_fault e), wg_store w db)
      | Commit (Inr _) w \<Rightarrow> (Inr (), wg_store w db))"

definition primary_preference :: "cfg_db \<Rightarrow> server_row \<Rightarrow> account_row \<Rightarrow> string" where
  "primary_preference db s a =
     (let fallback = (if srv_protocol s = ''auto'' then ''vless'' else srv_protocol s) in
      case lookup_row prf_account (acct_id a) (d_profiles db) of
        None \<Rightarrow> fallback
      | Some p \<Rightarrow> if prf_protocol p = ''auto'' then fallback else prf_protocol p)"

definition explicit_protocols :: "cfg_db \<Rightarrow> account_row \<Rightarrow> string list" where
  "explicit_protocols db a =
     sort (map apr_protocol (select (\<lambda>p. apr_account p = acct_id a \<and> apr_desired p \<and> apr_explicit p) (d_protocols db)))"

definition protocol_selection :: "lib \<Rightarrow> cfg_db \<Rightarrow> server_row \<Rightarrow> account_row \<Rightarrow> string \<times> string list" where
  "protocol_selection L db s a =
     (let primary = normalizeAccountProtocol (primary_preference db s a);
          chosen = filter (\<lambda>p. TrimSpace p \<noteq> []) (explicit_protocols db a);
          ps = orderedAccountProtocols L (if chosen = [] then [primary] else chosen)
      in (if protocolListContains ps primary then primary else (case ps of [] \<Rightarrow> primary | p # _ \<Rightarrow> p), ps))"

definition ResolveServerAccountProtocols :: "cfg_env \<Rightarrow> string \<Rightarrow> (string \<rightharpoonup> string \<times> string list) cfg" where
  "ResolveServerAccountProtocols E node =
     andThen (look (\<lambda>db. case lookup_row srv_id node (d_servers db) of
          None \<Rightarrow> []
        | Some s \<Rightarrow> map (\<lambda>a. (acct_id a, protocol_selection (ce_lib E) db s a))
                       (select (accountPlacementSQL db node) (d_accounts db)))) (\<lambda>resolved.
     andThen (if \<exists>r \<in> set resolved. protocolListContains (snd (snd r)) ''wireguard''
              then ensure_peer_credentials E node else ok ()) (\<lambda>_.
     ok (map_of resolved)))"

definition capabilities_map :: "json option \<Rightarrow> json option" where
  "capabilities_map c =
     (case c of None \<Rightarrow> Some (JObj []) | Some JNull \<Rightarrow> Some (JObj []) | Some (JObj ms) \<Rightarrow> Some (JObj ms) | _ \<Rightarrow> None)"

definition agent_info :: "agent_row \<Rightarrow> AgentConfigInfo option" where
  "agent_info a = map_option (\<lambda>c. \<lparr>ag_id = agt_id a, ag_hostname = coalesce (agt_hostname a), ag_os = coalesce (agt_os a),
     ag_arch = coalesce (agt_arch a), ag_version = coalesce (agt_version a), ag_status = agt_status a,
     ag_capabilities = c\<rparr>) (capabilities_map (agt_capabilities a))"

text \<open>\<open>None\<close> when the capabilities of the Agent do not decode.\<close>

definition scanServerConfigInfo :: "server_row \<Rightarrow> agent_row option \<Rightarrow> ServerConfigInfo option" where
  "scanServerConfigInfo s agent =
     (let info = (\<lambda>ag. \<lparr>si_id = srv_id s, si_name = srv_name s, si_role = srv_role s, si_hostname = coalesce (srv_hostname s),
            si_public_ip = coalesce (srv_public_ip s), si_private_ip = coalesce (srv_private_ip s),
            si_location = coalesce (srv_location s), si_provider = coalesce (srv_provider s), si_status = srv_status s,
            si_vless_port = (if srv_vless_port s \<le> 0 then 443 else srv_vless_port s),
            si_reality_private = coalesce (srv_reality_private s), si_reality_public = coalesce (srv_reality_public s),
            si_reality_short = coalesce (srv_reality_short s), si_reality_name = coalesce (srv_reality_name s),
            si_protocol = srv_protocol s, si_wg_port = srv_wg_port s, si_wg_address = srv_wg_address s,
            si_wg_private = coalesce (srv_wg_private s), si_h2_port = srv_h2_port s, si_h2_domain = srv_h2_domain s,
            si_h2_email = srv_h2_email s, si_h2_masquerade = srv_h2_masquerade s, si_ss_port = srv_ss_port s,
            si_ss_key = srv_ss_key s, si_mt_port = srv_mt_port s, si_mt_secret = srv_mt_secret s,
            si_agent = ag, si_accounts = [], si_routing = None\<rparr>)
      in case agent of
           None \<Rightarrow> Some (info None)
         | Some a \<Rightarrow> map_option (\<lambda>i. info (Some i)) (agent_info a))"

definition account_info :: "cfg_db \<Rightarrow> server_row \<Rightarrow> account_row \<Rightarrow> VPNAccountConfigInfo" where
  "account_info db s a =
     \<lparr>ac_id = acct_id a, ac_display = acct_display a, ac_status = acct_status a, ac_protocol = [], ac_protocols = [],
      ac_uuid = coalesce (acct_uuid a), ac_flow = coalesce (srv_vless_flow s), ac_network = srv_vless_network s,
      ac_wg_public = coalesce (acct_wg_public a), ac_wg_address = coalesce (acct_wg_address a),
      ac_h2_password = acct_h2_password a, ac_ss_key = acct_ss_key a,
      ac_enforcement = (case map_of (d_limits db) (acct_id a) of None \<Rightarrow> ''not_enforced'' | Some st \<Rightarrow> st)\<rparr>"

definition listServerVPNAccounts :: "server_row \<Rightarrow> cfg_db \<Rightarrow> VPNAccountConfigInfo list" where
  "listServerVPNAccounts s db =
     map (account_info db s) (sort_key acct_created (select (accountPlacementSQL db (srv_id s)) (d_accounts db)))"

definition listRoutingProfileRules :: "string \<Rightarrow> cfg_db \<Rightarrow> RoutingRule list" where
  "listRoutingProfileRules p db =
     map rtr_rule (sort_key (\<lambda>r. (rr_priority (rtr_rule r), rtr_created r))
       (select (\<lambda>r. rtr_profile r = p \<and> rtr_enabled r) (d_rules db)))"

definition getServerRoutingProfile :: "string \<Rightarrow> cfg_db \<Rightarrow> RoutingProfile option" where
  "getServerRoutingProfile node db =
     (let chosen = (case map_of (d_server_routing db) node of
            Some p \<Rightarrow> Some p
          | None \<Rightarrow> map_option (\<lambda>r. rp_id (rtp_profile r))
                      (least_by rtp_created (select (\<lambda>r. rp_default (rtp_profile r)) (d_routing db))))
      in case chosen of
           None \<Rightarrow> None
         | Some p \<Rightarrow> map_option (\<lambda>r. (rtp_profile r)\<lparr>rp_rules := listRoutingProfileRules p db\<rparr>)
                      (find (\<lambda>r. rp_id (rtp_profile r) = p) (d_routing db)))"

definition GetServerConfigInfo :: "cfg_env \<Rightarrow> string \<Rightarrow> ServerConfigInfo cfg" where
  "GetServerConfigInfo E node =
     andThen (find_or No_rows (\<lambda>db. lookup_row srv_id node (d_servers db))) (\<lambda>s.
     andThen (look (\<lambda>db. lookup_row agt_server node (d_agents db))) (\<lambda>agent.
     andThen (some_or Bad_payload (scanServerConfigInfo s agent)) (\<lambda>info.
     andThen (if si_protocol info = ''wireguard'' then ensure_peer_credentials E node else ok ()) (\<lambda>_.
     look (\<lambda>db. info\<lparr>si_accounts := listServerVPNAccounts s db, si_routing := getServerRoutingProfile node db\<rparr>)))))"

section \<open>Rendering and storing a version\<close>

text \<open>The configurations are compared without the time of rendering; a stored value that is not a JSON
  object is an error.\<close>

definition normalizeRenderedConfigForVersioning :: "RenderedConfig \<Rightarrow> RenderedConfig" where
  "normalizeRenderedConfigForVersioning c = c\<lparr>rc_metadata := (rc_metadata c)\<lparr>md_rendered_at := 0\<rparr>\<rparr>"

definition renderedConfigsEquivalentForVersioning :: "payload \<Rightarrow> payload \<Rightarrow> bool option" where
  "renderedConfigsEquivalentForVersioning l r =
     (case (l, r) of
        (Not_an_object, _) \<Rightarrow> None
      | (_, Not_an_object) \<Rightarrow> None
      | (Payload a c, Payload b d) \<Rightarrow>
          Some (a = b \<and> normalizeRenderedConfigForVersioning c = normalizeRenderedConfigForVersioning d)
      | _ \<Rightarrow> Some False)"

definition transfer_baseline :: "RenderedConfig \<Rightarrow> RenderedConfig" where
  "transfer_baseline c =
     (let c1 = c\<lparr>rc_agent := None, rc_metadata := (rc_metadata c)\<lparr>md_rendered_at := 0\<rparr>\<rparr> in
      if md_empty_users (rc_metadata c)
      then c1\<lparr>rc_metadata := (rc_metadata c1)\<lparr>md_empty_users := False\<rparr>,
              rc_singbox := (rc_singbox c1)\<lparr>sb_inbounds :=
                filter (\<lambda>ib. \<not> (member ib ''type'' = JStr ''vless'' \<and> member ib ''users'' = JArr []))
                  (sb_inbounds (rc_singbox c1))\<rparr>\<rparr>
      else c1)"

definition TransferBaselinesEquivalent :: "payload \<Rightarrow> payload \<Rightarrow> bool" where
  "TransferBaselinesEquivalent l r =
     (case (l, r) of
        (Payload a c, Payload b d) \<Rightarrow> a = b \<and> transfer_baseline c = transfer_baseline d
      | _ \<Rightarrow> False)"

definition hashRenderedConfig :: "cfg_env \<Rightarrow> RenderedConfig \<Rightarrow> string" where
  "hashRenderedConfig E c = ce_digest E (persisted c)"

definition clientSettingsSnapshot :: "lib \<Rightarrow> payload \<Rightarrow> (string \<rightharpoonup> string) \<Rightarrow> AppliedClientSettings option" where
  "clientSettingsSnapshot L p primaries =
     (case p of Payload listed c \<Rightarrow> clientSettingsFromRenderedJSON L listed c primaries | _ \<Rightarrow> None)"

definition newer_preference :: "cfg_db \<Rightarrow> string \<Rightarrow> time \<Rightarrow> bool" where
  "newer_preference db node t \<longleftrightarrow>
     (\<exists>a \<in> set (d_accounts db). accountPlacementSQL db node a
        \<and> ((case lookup_row prf_account (acct_id a) (d_profiles db) of None \<Rightarrow> False | Some p \<Rightarrow> t < prf_updated p)
           \<or> (\<exists>p \<in> set (d_protocols db). apr_account p = acct_id a \<and> t < apr_updated p)))
     \<or> (\<exists>s \<in> set (d_servers db). srv_id s = node
          \<and> (case srv_protocol_updated s of None \<Rightarrow> False | Some u \<Rightarrow> t < u))"

definition set_server :: "string \<Rightarrow> (server_row \<Rightarrow> server_row) \<Rightarrow> unit cfg" where
  "set_server node f = change (\<lambda>db. db\<lparr>d_servers := update_where (\<lambda>s. srv_id s = node) f (d_servers db)\<rparr>)"

definition insert_version :: "ConfigVersion \<Rightarrow> unit cfg" where
  "insert_version v =
     andThen (check (\<lambda>db. \<not> (\<exists>w \<in> set (d_versions db). ver_id w = ver_id v
                            \<or> ver_server w = ver_server v \<and> ver_version w = ver_version v)) Db_error)
       (\<lambda>_. change (\<lambda>db. db\<lparr>d_versions := d_versions db @ [v]\<rparr>))"

definition reuse_version :: "cfg_env \<Rightarrow> (string \<rightharpoonup> string) \<Rightarrow> ConfigVersion \<Rightarrow> ConfigVersion cfg" where
  "reuse_version E primaries latest =
     (case clientSettingsSnapshot (ce_lib E) (ver_payload latest) primaries of
        None \<Rightarrow> ok latest
      | Some snap \<Rightarrow>
          andThen (update_versions (\<lambda>v. ver_id v = ver_id latest \<and> ver_settings v = None) (\<lambda>v. v\<lparr>ver_settings := Some snap\<rparr>))
            (\<lambda>_. ok latest))"

definition add_version ::
  "cfg_env \<Rightarrow> string \<Rightarrow> string \<Rightarrow> string \<Rightarrow> payload \<Rightarrow> (string \<rightharpoonup> string) \<Rightarrow> int \<Rightarrow> ConfigVersion cfg" where
  "add_version E node status hash p primaries nextVersion =
     andThen (fresh_uuid E) (\<lambda>u.
       let v = \<lparr>ver_id = u, ver_server = node, ver_version = nextVersion, ver_hash = hash, ver_status = status, ver_payload = p,
                ver_settings = clientSettingsSnapshot (ce_lib E) p primaries, ver_created = ce_now E, ver_applied = None,
                ver_pinned = False\<rparr> in
       andThen (insert_version v) (\<lambda>_.
       andThen (set_server node (\<lambda>s. s\<lparr>srv_next := nextVersion + 1\<rparr>)) (\<lambda>_. ok v)))"

definition CreateConfigVersion ::
  "cfg_env \<Rightarrow> string \<Rightarrow> string \<Rightarrow> string \<Rightarrow> RenderedConfig \<Rightarrow> (string \<rightharpoonup> string) \<Rightarrow> ConfigVersion cfg" where
  "CreateConfigVersion E node status hash rendered primaries =
     (let p = Payload True (persisted rendered) in
      atomically
       (andThen (find_or No_rows (\<lambda>db. lookup_row srv_id node (d_servers db))) (\<lambda>s.
        andThen (look (\<lambda>db. greatest_by ver_version (select (\<lambda>v. ver_server v = node) (d_versions db)))) (\<lambda>latest.
        case latest of
          None \<Rightarrow> add_version E node status hash p primaries (srv_next s)
        | Some v \<Rightarrow>
            andThen (some_or Bad_payload (renderedConfigsEquivalentForVersioning (ver_payload v) p)) (\<lambda>equivalent.
            andThen (look (\<lambda>db. newer_preference db node (ver_created v))) (\<lambda>newerPreference.
            if equivalent \<and> \<not> newerPreference then reuse_version E primaries v
            else add_version E node status hash p primaries (srv_next s)))))))"

definition TransferCleanupAuthorized :: "string \<Rightarrow> string \<Rightarrow> cfg_db \<Rightarrow> bool" where
  "TransferCleanupAuthorized node tid db \<longleftrightarrow>
     (\<exists>t \<in> set (d_transfers db). tr_id t = tid \<and> (node, tid) \<in> set (d_reservations db) \<and> open_transfer t \<and> d_auth db = Some tid
        \<and> (tr_state t = Source_cleaning \<and> tr_source t = node \<or> tr_state t = Target_cleaning \<and> tr_target t = node))"

definition primary_protocols :: "ServerConfigInfo \<Rightarrow> string \<rightharpoonup> string" where
  "primary_protocols info =
     map_of (map (\<lambda>a. (ac_id a, ac_protocol a))
       (filter (\<lambda>a. \<not> (normalizeAccountProtocol (ac_protocol a) = ''mtproto''
                       \<and> (ac_status a \<noteq> ''active'' \<or> ac_enforcement a = ''over_limit''))) (si_accounts info)))"

definition render :: "cfg_env \<Rightarrow> string \<Rightarrow> bool \<Rightarrow> (ConfigVersion \<times> ValidationResult) cfg" where
  "render E node cleanup =
     andThen (ResolveServerAccountProtocols E node) (\<lambda>resolved.
     andThen (GetServerConfigInfo E node) (\<lambda>info0.
       let info = applyResolvedAccountProtocols resolved info0 in
       andThen (need (case EffectiveDeploymentRole (si_role info) of None \<Rightarrow> False | Some r \<Rightarrow> HostsVPNPlane r) ErrNodeRoleNoVPN) (\<lambda>_.
         let built = buildRenderedConfig (ce_lib E) info (ce_clock E);
             rendered = (if cleanup then cleanup_listener info built else built);
             validation = ValidateRenderedConfig (ce_lib E) rendered;
             status = (if vr_valid validation then ''validated'' else ''validation_failed'') in
         andThen (CreateConfigVersion E node status (hashRenderedConfig E rendered) rendered (primary_protocols info))
           (\<lambda>v. ok (v, validation)))))"

definition Render :: "cfg_env \<Rightarrow> string \<Rightarrow> (ConfigVersion \<times> ValidationResult) cfg" where
  "Render E node = render E node False"

definition RenderTransferCleanup :: "cfg_env \<Rightarrow> string \<Rightarrow> string \<Rightarrow> (ConfigVersion \<times> ValidationResult) cfg" where
  "RenderTransferCleanup E node tid =
     andThen (check (TransferCleanupAuthorized node tid) ErrConfigApplyUnsafe) (\<lambda>_. render E node True)"

section \<open>Validation and deployment\<close>

definition find_version :: "string \<Rightarrow> string \<Rightarrow> cfg_db \<Rightarrow> ConfigVersion option" where
  "find_version node vid db = find (\<lambda>v. ver_server v = node \<and> ver_id v = vid) (d_versions db)"

definition GetConfigVersion :: "string \<Rightarrow> string \<Rightarrow> ConfigVersion cfg" where
  "GetConfigVersion node vid = find_or No_rows (find_version node vid)"

definition MarkConfigVersionValidated :: "string \<Rightarrow> string \<Rightarrow> ConfigVersion cfg" where
  "MarkConfigVersionValidated node vid =
     andThen (update_versions (\<lambda>v. ver_server v = node \<and> ver_id v = vid) (\<lambda>v. v\<lparr>ver_status := ''validated''\<rparr>))
       (\<lambda>_. GetConfigVersion node vid)"

definition Validate :: "cfg_env \<Rightarrow> string \<Rightarrow> string \<Rightarrow> ConfigVersion cfg" where
  "Validate E node vid =
     andThen (GetConfigVersion node vid) (\<lambda>v.
       case ver_payload v of
         Payload listed c \<Rightarrow>
           andThen (need (vr_valid (ValidateRenderedConfig (ce_lib E) c)) ErrInvalidRenderedConfig)
             (\<lambda>_. MarkConfigVersionValidated node vid)
       | _ \<Rightarrow> fail Bad_payload)"

definition ensureConfigVersionSafeForApply :: "cfg_env \<Rightarrow> ConfigVersion \<Rightarrow> unit cfg" where
  "ensureConfigVersionSafeForApply E v =
     (case ver_payload v of
        Payload listed c \<Rightarrow>
          andThen (need (vr_valid (ValidateRenderedConfig (ce_lib E) c) \<and> configuredVPNServicesReady (ce_lib E) c) ErrConfigApplyUnsafe)
            (\<lambda>_. need (TrimSpace (ver_hash v) \<noteq> [] \<and> EqualFold (hashRenderedConfig E c) (TrimSpace (ver_hash v))) ErrConfigHashMismatch)
      | _ \<Rightarrow> fail ErrConfigApplyUnsafe)"

definition empty_report :: apply_report where
  "empty_report = \<lparr>rep_stage = [], rep_components = []\<rparr>"

definition CreateConfigApplyJob ::
  "cfg_env \<Rightarrow> string \<Rightarrow> string \<Rightarrow> ConfigVersion \<Rightarrow> string \<Rightarrow> bool \<Rightarrow> ConfigApplyJob cfg" where
  "CreateConfigApplyJob E node agent v comment redeploy =
     andThen (fresh_uuid E) (\<lambda>u.
       let j = \<lparr>aj_id = u, aj_server = node, aj_agent = (if agent = [] then None else Some agent), aj_version = ver_id v,
                aj_action = ''apply'', aj_status = ''pending'', aj_comment = comment, aj_hash = ver_hash v,
                aj_redeploy = redeploy, aj_result = Some empty_report, aj_error = [], aj_created = ce_now E,
                aj_updated = ce_now E, aj_started = None, aj_completed = None\<rparr> in
       andThen (transfer_node_guard (Some node)) (\<lambda>_.
       andThen (check (\<lambda>db. \<forall>k \<in> set (d_jobs db). aj_id k \<noteq> u) Db_error) (\<lambda>_.
       andThen (change (\<lambda>db. db\<lparr>d_jobs := d_jobs db @ [j]\<rparr>)) (\<lambda>_. ok j))))"

definition queue_version :: "cfg_env \<Rightarrow> string \<Rightarrow> ConfigVersion \<Rightarrow> string \<Rightarrow> bool \<Rightarrow> ConfigApplyJob cfg" where
  "queue_version E node v comment redeploy =
     andThen (ensureConfigVersionSafeForApply E v) (\<lambda>_.
     andThen (GetServerConfigInfo E node) (\<lambda>info.
     andThen (need (case EffectiveDeploymentRole (si_role info) of None \<Rightarrow> False | Some r \<Rightarrow> HostsVPNPlane r) ErrNodeRoleNoVPN) (\<lambda>_.
     andThen (some_or ErrConfigApplyAgentMissing (si_agent info)) (\<lambda>ag.
     CreateConfigApplyJob E node (ag_id ag) v (TrimSpace comment) redeploy))))"

definition Apply :: "cfg_env \<Rightarrow> string \<Rightarrow> string \<Rightarrow> string \<Rightarrow> ConfigApplyJob cfg" where
  "Apply E node vid comment =
     andThen (GetConfigVersion node vid) (\<lambda>v.
     andThen (need (ver_status v = ''validated'') ErrConfigVersionNotValidated) (\<lambda>_.
     queue_version E node v comment False))"

definition Reapply :: "cfg_env \<Rightarrow> string \<Rightarrow> string \<Rightarrow> string \<Rightarrow> ConfigApplyJob cfg" where
  "Reapply E node vid comment =
     andThen (GetConfigVersion node vid) (\<lambda>v.
     andThen (need (ver_applied v \<noteq> None) ErrConfigVersionNeverApplied) (\<lambda>_.
     queue_version E node v comment True))"

section \<open>Version lifecycle\<close>

definition GetCurrentConfigVersionID :: "string \<Rightarrow> string option cfg" where
  "GetCurrentConfigVersionID node = andThen (find_or No_rows (\<lambda>db. lookup_row srv_id node (d_servers db))) (\<lambda>s. ok (srv_active s))"

definition HasActiveConfigApplyJob :: "string \<Rightarrow> string \<Rightarrow> cfg_db \<Rightarrow> bool" where
  "HasActiveConfigApplyJob node vid db \<longleftrightarrow>
     (\<exists>j \<in> set (d_jobs db). aj_server j = node \<and> aj_version j = vid \<and> open_job j)"

definition deletable :: "cfg_db \<Rightarrow> ConfigVersion \<Rightarrow> bool" where
  "deletable db v \<longleftrightarrow>
     (\<exists>s \<in> set (d_servers db). srv_id s = ver_server v \<and> srv_active s \<noteq> Some (ver_id v)) \<and> \<not> ver_pinned v
     \<and> \<not> (\<exists>j \<in> set (d_jobs db). aj_version j = ver_id v \<and> open_job j)"

definition DeleteConfigVersion :: "string \<Rightarrow> string \<Rightarrow> bool cfg" where
  "DeleteConfigVersion node vid =
     andThen (delete_versions (\<lambda>db v. ver_server v = node \<and> ver_id v = vid \<and> deletable db v)) (\<lambda>n. ok (n = 1))"

definition DeleteVersion :: "string \<Rightarrow> string \<Rightarrow> unit cfg" where
  "DeleteVersion node vid =
     andThen (GetConfigVersion node vid) (\<lambda>v.
     andThen (GetCurrentConfigVersionID node) (\<lambda>current.
     andThen (need (current \<noteq> Some (ver_id v)) ErrConfigVersionCurrent) (\<lambda>_.
     andThen (need (\<not> ver_pinned v) ErrConfigVersionPinned) (\<lambda>_.
     andThen (check (\<lambda>db. \<not> HasActiveConfigApplyJob node vid db) ErrConfigVersionDeploymentActive) (\<lambda>_.
     andThen (atomically (DeleteConfigVersion node vid)) (\<lambda>deleted.
     need deleted ErrConfigVersionDeploymentActive))))))"

definition SetConfigVersionPinned :: "string \<Rightarrow> string \<Rightarrow> bool \<Rightarrow> ConfigVersion cfg" where
  "SetConfigVersionPinned node vid pinned =
     andThen (update_versions (\<lambda>v. ver_server v = node \<and> ver_id v = vid) (\<lambda>v. v\<lparr>ver_pinned := pinned\<rparr>))
       (\<lambda>_. GetConfigVersion node vid)"

text \<open>\<open>BackfillClientSettings\<close>: the versions are read once and filled one statement at a time; the result is the
  number of versions filled and the versions that yield no settings.\<close>

fun backfill_versions :: "(string \<times> AppliedClientSettings option) list \<Rightarrow> (nat \<times> string list) cfg" where
  "backfill_versions [] = ok (0, [])"
| "backfill_versions ((vid, None) # vs) = andThen (backfill_versions vs) (\<lambda>(k, failed). ok (k, vid # failed))"
| "backfill_versions ((vid, Some snap) # vs) =
     andThen (look (\<lambda>db. rows_affected (\<lambda>v. ver_id v = vid \<and> ver_settings v = None) (d_versions db))) (\<lambda>n.
     andThen (update_versions (\<lambda>v. ver_id v = vid \<and> ver_settings v = None) (\<lambda>v. v\<lparr>ver_settings := Some snap\<rparr>)) (\<lambda>_.
     andThen (backfill_versions vs) (\<lambda>(k, failed). ok (n + k, failed))))"

definition BackfillClientSettings :: "cfg_env \<Rightarrow> (nat \<times> string list) cfg" where
  "BackfillClientSettings E =
     andThen (look (\<lambda>db. map (\<lambda>v. (ver_id v, clientSettingsSnapshot (ce_lib E) (ver_payload v) (\<lambda>_. None)))
                (sort_key (\<lambda>v. (ver_server v, ver_version v)) (select (\<lambda>v. ver_settings v = None) (d_versions db)))))
       backfill_versions"

text \<open>The history of a node, newest first, a page of its jobs with their number, and its removal.\<close>

definition ListConfigVersions :: "string \<Rightarrow> cfg_db \<Rightarrow> ConfigVersion list" where
  "ListConfigVersions node db = sort_key (\<lambda>v. - ver_version v) (select (\<lambda>v. ver_server v = node) (d_versions db))"

definition ListConfigApplyJobs :: "string \<Rightarrow> cfg_db \<Rightarrow> ConfigApplyJob list" where
  "ListConfigApplyJobs node db = sort_key (\<lambda>j. - aj_created j) (select (\<lambda>j. aj_server j = node) (d_jobs db))"

definition GetConfigApplyJob :: "string \<Rightarrow> string \<Rightarrow> ConfigApplyJob cfg" where
  "GetConfigApplyJob node jid = find_or No_rows (\<lambda>db. find (\<lambda>j. aj_server j = node \<and> aj_id j = jid) (d_jobs db))"

definition ListConfigApplyJobsPage :: "string \<Rightarrow> nat \<Rightarrow> nat \<Rightarrow> cfg_db \<Rightarrow> ConfigApplyJob list \<times> nat" where
  "ListConfigApplyJobsPage node limit offset db =
     (take limit (drop offset (rev (sort_key (\<lambda>j. (aj_created j, aj_id j)) (select (\<lambda>j. aj_server j = node) (d_jobs db))))),
      rows_affected (\<lambda>j. aj_server j = node) (d_jobs db))"

definition finished_job :: "string \<Rightarrow> ConfigApplyJob \<Rightarrow> bool" where
  "finished_job node j \<longleftrightarrow> aj_server j = node \<and> (aj_status j = ''succeeded'' \<or> aj_status j = ''failed'')"

definition DeleteTerminalConfigApplyJobs :: "string \<Rightarrow> nat cfg" where
  "DeleteTerminalConfigApplyJobs node =
     andThen (check (\<lambda>db. \<exists>s \<in> set (d_servers db). srv_id s = node) No_rows) (\<lambda>_.
     andThen (look (\<lambda>db. rows_affected (finished_job node) (d_jobs db))) (\<lambda>n.
     andThen (delete_jobs (\<lambda>_. finished_job node)) (\<lambda>_. ok n)))"

section \<open>Tasks of the Agent\<close>

definition ClaimNextConfigTask :: "cfg_env \<Rightarrow> string \<Rightarrow> ConfigApplyJob option cfg" where
  "ClaimNextConfigTask E token =
     andThen (find_or No_rows (\<lambda>db. lookup_row agt_token token (d_agents db))) (\<lambda>ag.
     andThen (look (\<lambda>db. least_by aj_created (select (\<lambda>j. aj_server j = agt_server ag
            \<and> (aj_agent j = None \<or> aj_agent j = Some (agt_id ag)) \<and> aj_status j = ''pending'') (d_jobs db)))) (\<lambda>job.
     case job of
       None \<Rightarrow> ok None
     | Some j \<Rightarrow>
         let claimed = (\<lambda>k. k\<lparr>aj_agent := Some (agt_id ag), aj_status := ''in_progress'',
               aj_started := Some (case aj_started k of None \<Rightarrow> ce_now E | Some t \<Rightarrow> t), aj_updated := ce_now E\<rparr>) in
         andThen (look (\<lambda>db. aj_version j \<in> ver_id ` set (d_versions db))) (\<lambda>stored.
         if \<not> stored then ok None
         else andThen (change (\<lambda>db. db\<lparr>d_jobs := update_where (\<lambda>k. aj_id k = aj_id j) claimed (d_jobs db)\<rparr>))
           (\<lambda>_. ok (Some (claimed j))))))"

text \<open>Migration 155: history is pruned to five unpinned versions and a hundred finished jobs.\<close>

definition version_recency :: "cfg_db \<Rightarrow> ConfigVersion \<Rightarrow> time" where
  "version_recency db v =
     (let done = map (\<lambda>j. case aj_completed j of Some t \<Rightarrow> t | None \<Rightarrow> aj_updated j)
            (select (\<lambda>j. aj_version j = ver_id v \<and> aj_action j = ''apply'' \<and> aj_status j = ''succeeded'') (d_jobs db))
      in if done \<noteq> [] then Max (set done) else (case ver_applied v of Some t \<Rightarrow> t | None \<Rightarrow> ver_created v))"

definition version_history :: "string \<Rightarrow> cfg_db \<Rightarrow> ConfigVersion list" where
  "version_history node db =
     sort_key (\<lambda>v. (- version_recency db v, - ver_version v))
       (select (\<lambda>v. ver_server v = node \<and> ver_applied v \<noteq> None \<and> \<not> ver_pinned v
          \<and> (case lookup_row srv_id node (d_servers db) of None \<Rightarrow> True | Some s \<Rightarrow> srv_active s \<noteq> Some (ver_id v))
          \<and> \<not> (\<exists>j \<in> set (d_jobs db). aj_version j = ver_id v \<and> open_job j)) (d_versions db))"

definition prune_config_versions :: "string \<Rightarrow> unit cfg" where
  "prune_config_versions node =
     andThen (delete_versions (\<lambda>db v. v \<in> set (drop 5 (version_history node db)))) (\<lambda>_. ok ())"

definition job_history :: "string \<Rightarrow> cfg_db \<Rightarrow> ConfigApplyJob list" where
  "job_history node db =
     rev (sort_key (\<lambda>j. (case aj_completed j of Some t \<Rightarrow> t | None \<Rightarrow> aj_updated j, aj_created j, aj_id j))
       (select (\<lambda>j. aj_server j = node \<and> (aj_status j = ''succeeded'' \<or> aj_status j = ''failed'')) (d_jobs db)))"

definition prune_config_apply_jobs :: "string \<Rightarrow> unit cfg" where
  "prune_config_apply_jobs node = delete_jobs (\<lambda>db j. j \<in> set (drop 100 (job_history node db)))"

text \<open>Migration 157: a successful deployment makes the version the source of the active protocols.\<close>

definition account_deployments :: "AppliedClientSettings option \<Rightarrow> (string \<rightharpoonup> AppliedAccountProtocols) option" where
  "account_deployments s = (case s of None \<Rightarrow> None | Some c \<Rightarrow> cl_accounts c)"

definition deployed_protocols :: "(string \<rightharpoonup> AppliedAccountProtocols) \<Rightarrow> string \<Rightarrow> string list" where
  "deployed_protocols m a = (case m a of None \<Rightarrow> [] | Some e \<Rightarrow> ap_protocols e)"

definition mtproto_deployed :: "AppliedClientSettings option \<Rightarrow> bool" where
  "mtproto_deployed s \<longleftrightarrow> (case s of None \<Rightarrow> False | Some c \<Rightarrow> cl_mt_secret c \<noteq> [] \<and> 0 < cl_mt_port c)"

definition assigned_to :: "cfg_db \<Rightarrow> string \<Rightarrow> string \<Rightarrow> bool" where
  "assigned_to db node a \<longleftrightarrow> (\<exists>r \<in> set (d_accounts db). acct_id r = a \<and> acct_server r = Some node)"

text \<open>The rows \<open>INSERT \<dots> ON CONFLICT DO NOTHING\<close> adds for the listed accounts of the node.\<close>

definition seeded_protocols ::
  "cfg_db \<Rightarrow> string \<Rightarrow> (string \<rightharpoonup> AppliedAccountProtocols) \<Rightarrow> time \<Rightarrow> time \<Rightarrow> account_protocol list" where
  "seeded_protocols db node m rendered_at finished =
     (let rows = concat (map (\<lambda>a. map (\<lambda>p. \<lparr>apr_account = acct_id a, apr_protocol = p, apr_desired = True, apr_explicit = False,
            apr_active = True, apr_updated = rendered_at, apr_activated = Some finished\<rparr>) (remdups (deployed_protocols m (acct_id a))))
            (select (\<lambda>a. acct_server a = Some node) (d_accounts db)))
      in select (\<lambda>r. \<not> (\<exists>p \<in> set (d_protocols db). apr_account p = apr_account r \<and> apr_protocol p = apr_protocol r)) rows)"

definition activate :: "bool \<Rightarrow> time \<Rightarrow> account_protocol \<Rightarrow> account_protocol" where
  "activate b finished p = p\<lparr>apr_active := b,
     apr_activated := (if b then Some (case apr_activated p of None \<Rightarrow> finished | Some t \<Rightarrow> t) else None)\<rparr>"

definition active_primary :: "(string \<rightharpoonup> AppliedAccountProtocols) \<Rightarrow> bool \<Rightarrow> client_profile \<Rightarrow> string" where
  "active_primary m mt cp =
     (case m (prf_account cp) of
        None \<Rightarrow> prf_active cp
      | Some e \<Rightarrow>
          if ap_primary e \<noteq> [] then ap_primary e
          else if prf_active cp \<in> set (ap_protocols e) \<or> prf_active cp = ''mtproto'' \<and> mt then prf_active cp
          else (case ap_protocols e of [] \<Rightarrow> prf_active cp | p # _ \<Rightarrow> p))"

definition promoted_primary :: "cfg_db \<Rightarrow> string \<Rightarrow> time \<Rightarrow> client_profile \<Rightarrow> string" where
  "promoted_primary db node rendered_at cp =
     (case lookup_row srv_id node (d_servers db) of
        None \<Rightarrow> prf_active cp
      | Some s \<Rightarrow>
          if prf_updated cp \<le> rendered_at
             \<and> (prf_protocol cp \<noteq> ''auto''
                \<or> (case srv_protocol_updated s of None \<Rightarrow> srv_updated s | Some t \<Rightarrow> t) \<le> rendered_at)
          then (if prf_protocol cp \<noteq> ''auto'' then prf_protocol cp
                else if srv_protocol s = ''auto'' then ''vless'' else srv_protocol s)
          else prf_active cp)"

definition mark_protocols ::
  "string \<Rightarrow> AppliedClientSettings option \<Rightarrow> time \<Rightarrow> time \<Rightarrow> cfg_db \<Rightarrow> cfg_db" where
  "mark_protocols node settings rendered_at finished db =
     (let known = account_deployments settings;
          m = (case known of None \<Rightarrow> (\<lambda>_. None) | Some f \<Rightarrow> f);
          mt = mtproto_deployed settings;
          here = assigned_to db node;
          rows = (if known = None then d_protocols db
                  else update_where (\<lambda>p. here (apr_account p) \<and> apr_protocol p \<noteq> ''mtproto'')
                         (\<lambda>p. activate (apr_protocol p \<in> set (deployed_protocols m (apr_account p))) finished p)
                         (d_protocols db @ seeded_protocols db node m rendered_at finished));
          rows' = update_where (\<lambda>p. here (apr_account p) \<and> (known = None \<or> apr_protocol p = ''mtproto'') \<and> apr_updated p \<le> rendered_at)
                    (\<lambda>p. activate (apr_desired p \<and> (apr_protocol p \<noteq> ''mtproto'' \<or> known = None \<or> mt)) finished p) rows
      in db\<lparr>d_protocols := update_where (\<lambda>p. here (apr_account p) \<and> apr_protocol p = ''mtproto'' \<and> known \<noteq> None \<and> \<not> mt)
              (activate False finished) rows',
            d_profiles := update_where (\<lambda>cp. here (prf_account cp))
              (\<lambda>cp. cp\<lparr>prf_active := if m (prf_account cp) \<noteq> None then active_primary m mt cp
                                    else promoted_primary db node rendered_at cp\<rparr>) (d_profiles db)\<rparr>)"

definition mark_config_version_applied :: "cfg_env \<Rightarrow> ConfigApplyJob \<Rightarrow> unit cfg" where
  "mark_config_version_applied E j =
     (let finished = (case aj_completed j of None \<Rightarrow> aj_updated j | Some t \<Rightarrow> t) in
      andThen (update_versions (\<lambda>v. ver_id v = aj_version j)
        (\<lambda>v. v\<lparr>ver_status := ''applied'', ver_applied := Some (case ver_applied v of None \<Rightarrow> finished | Some t \<Rightarrow> t)\<rparr>)) (\<lambda>_.
      andThen (look (\<lambda>db. lookup_row ver_id (aj_version j) (d_versions db))) (\<lambda>row.
      case row of
        None \<Rightarrow> ok ()
      | Some v \<Rightarrow>
          andThen (check (\<lambda>db. case account_deployments (ver_settings v) of
                None \<Rightarrow> True
              | Some m \<Rightarrow> \<forall>r \<in> set (d_accounts db). acct_server r = Some (ver_server v)
                           \<longrightarrow> set (deployed_protocols m (acct_id r)) \<subseteq> set accountProtocolOrder) Db_error)
            (\<lambda>_. change (mark_protocols (ver_server v) (ver_settings v) (ver_created v) finished)))))"

definition finalize_config_apply_lifecycle :: "cfg_env \<Rightarrow> ConfigApplyJob \<Rightarrow> unit cfg" where
  "finalize_config_apply_lifecycle E j =
     (let finished = (case aj_completed j of None \<Rightarrow> aj_updated j | Some t \<Rightarrow> t) in
      andThen (if aj_status j = ''succeeded''
               then andThen (update_versions (\<lambda>v. ver_id v = aj_version j)
                      (\<lambda>v. v\<lparr>ver_status := ''applied'', ver_applied := Some (case ver_applied v of None \<Rightarrow> finished | Some t \<Rightarrow> t)\<rparr>)) (\<lambda>_.
                    andThen (set_server (aj_server j) (\<lambda>s. s\<lparr>srv_active := Some (aj_version j), srv_updated := ce_now E\<rparr>)) (\<lambda>_.
                    prune_config_versions (aj_server j)))
               else ok ())
        (\<lambda>_. prune_config_apply_jobs (aj_server j)))"

text \<open>\<open>UPDATE config_apply_jobs SET status\<close> on one row, with the triggers it fires in the order of their names.\<close>

definition finish_job :: "cfg_env \<Rightarrow> string \<Rightarrow> (ConfigApplyJob \<Rightarrow> ConfigApplyJob) \<Rightarrow> unit cfg" where
  "finish_job E jid f =
     andThen (find_or No_rows (\<lambda>db. lookup_row aj_id jid (d_jobs db))) (\<lambda>old.
       let new = f old in
       andThen (change (\<lambda>db. db\<lparr>d_jobs := update_where (\<lambda>k. aj_id k = jid) f (d_jobs db)\<rparr>)) (\<lambda>_.
       andThen (if aj_action new = ''apply'' \<and> (aj_status new = ''succeeded'' \<or> aj_status new = ''failed'')
                   \<and> aj_status old \<noteq> aj_status new
                then finalize_config_apply_lifecycle E new else ok ()) (\<lambda>_.
       if aj_action new = ''apply'' \<and> aj_status new = ''succeeded'' then mark_config_version_applied E new else ok ())))"

definition CompleteConfigTask ::
  "cfg_env \<Rightarrow> string \<Rightarrow> string \<Rightarrow> string \<Rightarrow> apply_report option \<Rightarrow> string \<Rightarrow> unit cfg" where
  "CompleteConfigTask E token jid status result message =
     andThen (find_or No_rows (\<lambda>db. find (\<lambda>j. aj_id j = jid \<and> aj_status j = ''in_progress''
          \<and> (\<exists>a \<in> set (d_agents db). agt_token a = token \<and> aj_agent j = Some (agt_id a))) (d_jobs db))) (\<lambda>j.
     finish_job E (aj_id j) (\<lambda>k. k\<lparr>aj_status := status, aj_result := result, aj_error := TrimSpace message,
       aj_completed := Some (ce_now E), aj_updated := ce_now E\<rparr>))"

fun prune_each :: "string list \<Rightarrow> unit cfg" where
  "prune_each [] = ok ()"
| "prune_each (node # nodes) = andThen (prune_config_apply_jobs node) (\<lambda>_. prune_each nodes)"

definition orphaned :: "cfg_env \<Rightarrow> string \<Rightarrow> string option \<Rightarrow> string \<Rightarrow> time option \<Rightarrow> bool" where
  "orphaned E agent owner status started \<longleftrightarrow>
     owner = Some agent \<and> status = ''in_progress''
     \<and> (case started of None \<Rightarrow> False | Some t \<Rightarrow> t < ce_now E - minutes 5)"

definition close_orphans :: "cfg_env \<Rightarrow> string \<Rightarrow> unit cfg" where
  "close_orphans E agent =
     (let lost = (\<lambda>j. orphaned E agent (aj_agent j) (aj_status j) (aj_started j)) in
      andThen (look (\<lambda>db. map aj_server (select (\<lambda>j. lost j \<and> aj_action j = ''apply'') (d_jobs db)))) (\<lambda>nodes.
      andThen (change (\<lambda>db. db\<lparr>d_jobs := update_where lost (\<lambda>j. j\<lparr>aj_status := ''failed'',
          aj_error := (if aj_error j = [] then ''Agent task completion was not confirmed before a later heartbeat.'' else aj_error j),
          aj_completed := Some (case aj_completed j of None \<Rightarrow> ce_now E | Some t \<Rightarrow> t), aj_updated := ce_now E\<rparr>) (d_jobs db)\<rparr>)) (\<lambda>_.
      andThen (prune_each nodes) (\<lambda>_.
      change (\<lambda>db. db\<lparr>d_operations := update_where (\<lambda>o'. orphaned E agent (opj_agent o') (opj_status o') (opj_started o'))
          (\<lambda>o'. o'\<lparr>opj_status := ''failed''\<rparr>) (d_operations db)\<rparr>)))))"

text \<open>The guard of \<open>servers\<close> lets a statement through that changes only the columns the Manager keeps itself.\<close>

definition activate_server :: "cfg_env \<Rightarrow> string \<Rightarrow> unit cfg" where
  "activate_server E node =
     andThen (check (\<lambda>db. \<not> (node_blocked db node \<and> (\<exists>s \<in> set (d_servers db). srv_id s = node \<and> srv_status s \<noteq> ''active'')))
               (Raised ''node_reserved_for_transfer''))
       (\<lambda>_. set_server node (\<lambda>s. s\<lparr>srv_status := ''active'', srv_updated := ce_now E\<rparr>))"

definition heartbeat_agent :: "cfg_env \<Rightarrow> bool \<Rightarrow> string option \<Rightarrow> json option \<Rightarrow> agent_row \<Rightarrow> agent_row" where
  "heartbeat_agent E bearer version caps a =
     (let v = (case version of None \<Rightarrow> [] | Some s \<Rightarrow> TrimSpace s);
          seen = (if bearer then ce_clock E else ce_now E);
          b = a\<lparr>agt_seen := Some seen, agt_status := ''online'', agt_version := (if v = [] then agt_version a else Some v),
                agt_capabilities := (if caps = None then agt_capabilities a else caps)\<rparr>
      in if bearer then b\<lparr>agt_auth_seen := Some seen, agt_auth_generation := Some (agt_generation a)\<rparr> else b)"

definition UpdateAgentHeartbeat ::
  "cfg_env \<Rightarrow> string \<Rightarrow> string \<Rightarrow> string option \<Rightarrow> json option \<Rightarrow> agent_row cfg" where
  "UpdateAgentHeartbeat E agent token version caps =
     andThen (need (\<not> (agent = [] \<and> token = [])) ErrAgentIDRequired) (\<lambda>_.
     atomically
      (andThen (if token \<noteq> [] then find_or No_rows (\<lambda>db. lookup_row agt_token token (d_agents db))
                else andThen (cast_uuid E agent) (\<lambda>u. find_or No_rows (\<lambda>db. lookup_row agt_id u (d_agents db)))) (\<lambda>a.
       let a' = heartbeat_agent E (token \<noteq> []) version caps a in
       andThen (change (\<lambda>db. db\<lparr>d_agents := update_where (\<lambda>b. agt_id b = agt_id a) (\<lambda>_. a') (d_agents db)\<rparr>)) (\<lambda>_.
       andThen (activate_server E (agt_server a)) (\<lambda>_.
       andThen (close_orphans E (agt_id a)) (\<lambda>_. ok a'))))))"

section \<open>Transactions\<close>

text \<open>A transaction ends with the setting \<open>routegate.transfer_id\<close> unset.\<close>

definition transaction :: "commit_fate \<Rightarrow> 'a cfg \<Rightarrow> 'a cfg" where
  "transaction fate m db =
     (case m db of
        (Inl e, _) \<Rightarrow> (Inl e, db)
      | (Inr x, db') \<Rightarrow>
          (case fate of
             Committed \<Rightarrow> (Inr x, db'\<lparr>d_auth := None\<rparr>)
           | Commit_ack_lost \<Rightarrow> (Inl Db_error, db'\<lparr>d_auth := None\<rparr>)
           | Commit_failed \<Rightarrow> (Inl Db_error, db)))"

lemma transaction_state:
  assumes "transaction fate m db = (r, db')"
  shows "db' = db \<or> (\<exists>x d. m db = (Inr x, d) \<and> db' = d\<lparr>d_auth := None\<rparr>)"
  using assms by (auto simp: transaction_def split: prod.splits sum.splits commit_fate.splits)

end
