(* ===== verification/Transfers.thy ===== *)
theory Transfers
  imports Config_Store
begin

text \<open>
  Staged transfers of accounts between nodes (\<open>transfers/service.go\<close>): \<open>Start\<close> reserves both nodes, renders the
  account on the target beside the source and queues the deployment; \<open>Act\<close> performs one guarded step, and a step
  that fails is rolled back to its savepoint and leaves only its error code.  A refusal (\<open>Refused\<close>) ends the request
  instead and leaves nothing.
\<close>

section \<open>Checks\<close>

definition lockNodes :: "string \<Rightarrow> string \<Rightarrow> unit cfg" where
  "lockNodes source target =
     check (\<lambda>db. rows_affected (\<lambda>s. srv_id s = source \<or> srv_id s = target) (d_servers db) = 2) (Guard ''node_not_found'')"

definition authorize :: "string \<Rightarrow> unit cfg" where
  "authorize i = change (\<lambda>db. db\<lparr>d_auth := Some i\<rparr>)"

text \<open>The operator \<open>?\<close> of \<open>jsonb\<close>.\<close>

definition json_has :: "json \<Rightarrow> string \<Rightarrow> bool" where
  "json_has j k =
     (case j of JArr xs \<Rightarrow> JStr k \<in> set xs | JObj ms \<Rightarrow> k \<in> fst ` set ms | JStr s \<Rightarrow> s = k | _ \<Rightarrow> False)"

definition json_elements :: "json \<Rightarrow> json list" where
  "json_elements j = (case j of JArr xs \<Rightarrow> xs | _ \<Rightarrow> [])"

definition vless_core_ready :: "json \<Rightarrow> bool" where
  "vless_core_ready caps \<longleftrightarrow>
     member caps ''sing-box'' = JBool True \<and> member caps ''systemctl'' = JBool True \<and> member caps ''ss'' = JBool True
     \<and> (member (member caps ''vpnCore'') ''state'' = JStr ''running''
        \<or> (\<exists>c \<in> set (json_elements (member caps ''vpnCores'')).
             member c ''type'' = JStr ''sing-box'' \<and> member c ''state'' = JStr ''running''))
     \<and> (\<exists>c \<in> set (json_elements (member (member caps ''routegate'') ''vpnCoreAdapters'')).
          member c ''core'' = JStr ''sing-box'' \<and> member c ''protocol'' = JStr ''vless''
          \<and> json_has (member c ''transports'') ''tcp'' \<and> json_has (member c ''securityModes'') ''reality'')"

definition recently :: "cfg_env \<Rightarrow> time option \<Rightarrow> bool" where
  "recently E t \<longleftrightarrow> (case t of None \<Rightarrow> False | Some x \<Rightarrow> ce_now E - seconds 90 < x)"

definition node_ready :: "cfg_env \<Rightarrow> string \<Rightarrow> cfg_db \<Rightarrow> bool" where
  "node_ready E node db \<longleftrightarrow>
     (case (lookup_row srv_id node (d_servers db), lookup_row agt_server node (d_agents db)) of
        (Some s, Some a) \<Rightarrow>
          srv_status s = ''active'' \<and> (srv_role s = ''hybrid'' \<or> srv_role s = ''vpn'') \<and> srv_protocol s = ''vless''
          \<and> srv_reality_private s \<noteq> None \<and> srv_reality_public s \<noteq> None
          \<and> agt_status a = ''online'' \<and> recently E (agt_seen a) \<and> recently E (agt_auth_seen a)
          \<and> agt_auth_generation a = Some (agt_generation a)
          \<and> (case agt_capabilities a of None \<Rightarrow> False | Some c \<Rightarrow> vless_core_ready c)
      | _ \<Rightarrow> False)"

definition nodeReady :: "cfg_env \<Rightarrow> string \<Rightarrow> unit cfg" where
  "nodeReady E node = check (node_ready E node) (Guard ''node_role_protocol_or_agent_not_ready'')"

definition account_eligible :: "cfg_env \<Rightarrow> account_row \<Rightarrow> cfg_db \<Rightarrow> bool" where
  "account_eligible E a db \<longleftrightarrow>
     acct_status a = ''active'' \<and> (case acct_expires a of None \<Rightarrow> True | Some t \<Rightarrow> ce_now E < t)
     \<and> map_of (d_limits db) (acct_id a) \<noteq> Some ''over_limit''"

definition accountEligible :: "cfg_env \<Rightarrow> string \<Rightarrow> unit cfg" where
  "accountEligible E acct =
     andThen (find_or No_rows (\<lambda>db. lookup_row acct_id acct (d_accounts db))) (\<lambda>a.
     check (account_eligible E a) (Guard ''account_not_active_or_over_limit''))"

text \<open>The account is looked up in the deployed settings under the spelling of the request.\<close>

definition deployed_vless :: "AppliedClientSettings \<Rightarrow> (string \<rightharpoonup> AppliedAccountProtocols) \<Rightarrow> string \<Rightarrow> bool" where
  "deployed_vless s m acct \<longleftrightarrow>
     (case m acct of None \<Rightarrow> False | Some e \<Rightarrow> ap_protocols e = [''vless'']) \<and> cl_reality_public s \<noteq> []"

definition membership :: "string \<Rightarrow> string option \<Rightarrow> string \<Rightarrow> bool \<Rightarrow> unit cfg" where
  "membership node version acct present =
     andThen (some_or (Guard ''applied_version_changed'') version) (\<lambda>vid.
     andThen (find_or (Guard ''applied_version_changed'') (\<lambda>db. lookup_row srv_id node (d_servers db))) (\<lambda>s.
     andThen (find_or (Guard ''applied_version_changed'') (find_version node vid)) (\<lambda>v.
     andThen (need (srv_active s = Some vid) (Guard ''applied_version_changed'')) (\<lambda>_.
     andThen (some_or (Guard ''deployed_membership_unknown'') (ver_settings v)) (\<lambda>settings.
     andThen (some_or (Guard ''deployed_membership_unknown'') (cl_accounts settings)) (\<lambda>m.
     if present then need (deployed_vless settings m acct) (Guard ''applied_account_or_protocol_missing'')
     else need (m acct = None) (Guard ''cleanup_still_contains_account'')))))))"

definition public_host :: "cfg_env \<Rightarrow> server_row \<Rightarrow> string" where
  "public_host E s = (case srv_public_ip s of Some ip \<Rightarrow> ce_host E ip | None \<Rightarrow> coalesce (srv_hostname s))"

text \<open>A missing active version makes the query's boolean \<open>NULL\<close>, which does not scan.\<close>

definition proof_row :: "cfg_env \<Rightarrow> string \<Rightarrow> string \<Rightarrow> string \<Rightarrow> cfg_db \<Rightarrow> (ConfigApplyJob \<times> ConfigVersion \<times> server_row \<times> bool) option" where
  "proof_row E node vid jid db =
     (case find (\<lambda>j. aj_id j = jid \<and> aj_server j = node \<and> aj_version j = vid \<and> aj_action j = ''apply'' \<and> aj_agent j \<noteq> None) (d_jobs db) of
        None \<Rightarrow> None
      | Some j \<Rightarrow>
          (case (lookup_row ver_id vid (d_versions db), lookup_row srv_id node (d_servers db)) of
             (Some v, Some s) \<Rightarrow>
               let settled = ver_applied v \<noteq> None \<and> aj_completed j \<noteq> None in
               if srv_active s = None \<and> settled then None else Some (j, v, s, srv_active s = Some vid \<and> settled)
           | _ \<Rightarrow> None))"

definition listener_verified :: "AppliedClientSettings \<Rightarrow> string \<Rightarrow> component_report \<Rightarrow> bool" where
  "listener_verified settings host c \<longleftrightarrow>
     cmp_core c = ''sing-box'' \<and> cmp_protocol c = ''vless'' \<and> cmp_status c = ''succeeded''
     \<and> cmp_port c = cl_vless_port settings \<and> 0 < cmp_port c \<and> host \<noteq> []"

definition appliedProof :: "cfg_env \<Rightarrow> string \<Rightarrow> string option \<Rightarrow> string option \<Rightarrow> (string \<times> int) cfg" where
  "appliedProof E node version job =
     andThen (some_or (Guard ''apply_proof_missing'') version) (\<lambda>vid.
     andThen (some_or (Guard ''apply_proof_missing'') job) (\<lambda>jid.
     andThen (find_or (Guard ''apply_proof_missing'') (proof_row E node vid jid)) (\<lambda>(j, v, s, applied).
     andThen (need (\<not> open_job j) (Guard ''apply_in_progress'')) (\<lambda>_.
     andThen (need (aj_status j = ''succeeded'' \<and> applied) (Guard ''apply_failed_or_version_changed'')) (\<lambda>_.
     andThen (some_or (Guard ''runtime_evidence_missing'') (aj_result j)) (\<lambda>report.
     andThen (some_or (Guard ''runtime_evidence_missing'') (ver_settings v)) (\<lambda>settings.
     andThen (need (rep_stage report = ''succeeded'') (Guard ''runtime_evidence_missing'')) (\<lambda>_.
     andThen (some_or (Guard ''runtime_listener_not_verified'')
        (find (listener_verified settings (public_host E s)) (rep_components report))) (\<lambda>c.
     ok (public_host E s, cmp_port c))))))))))"

definition reachable :: "cfg_env \<Rightarrow> string \<Rightarrow> int \<Rightarrow> unit cfg" where
  "reachable E host port = need (ce_reach E host port) (Guard ''public_listener_unreachable'')"

definition checkBaseline :: "cfg_env \<Rightarrow> string \<Rightarrow> unit cfg" where
  "checkBaseline E node =
     andThen (find_or No_rows (\<lambda>db. lookup_row srv_id node (d_servers db))) (\<lambda>s.
     andThen (look (\<lambda>db. case srv_active s of None \<Rightarrow> None | Some vid \<Rightarrow> lookup_row ver_id vid (d_versions db))) (\<lambda>old.
     andThen (look (\<lambda>db. rows_affected (\<lambda>a. acct_server a = Some node) (d_accounts db))) (\<lambda>n.
     andThen (need (case (srv_protocol_updated s, old) of (Some u, Some v) \<Rightarrow> u \<le> ver_created v | _ \<Rightarrow> True)
               (Guard ''node_has_pending_configuration_changes'')) (\<lambda>_.
     andThen (need (\<not> (srv_active s = None \<and> 0 < n)) (Guard ''node_has_unapplied_accounts'')) (\<lambda>_.
     andThen (Render E node) (\<lambda>(v, _).
     need (srv_active s = None
           \<or> (case old of None \<Rightarrow> False | Some w \<Rightarrow> TransferBaselinesEquivalent (ver_payload w) (ver_payload v)))
       (Guard ''node_has_pending_configuration_changes'')))))))"

section \<open>Queueing a deployment\<close>

definition terminal_state :: "transfer_state \<Rightarrow> bool" where
  "terminal_state st \<longleftrightarrow> st = Complete \<or> st = Cancelled \<or> st = Rolled_back"

definition update_transfer :: "string \<Rightarrow> (Transfer \<Rightarrow> Transfer) \<Rightarrow> unit cfg" where
  "update_transfer i f =
     andThen (check (\<lambda>db. \<forall>t \<in> set (d_transfers db). tr_id t = i
                \<longrightarrow> (tr_completed (f t) \<noteq> None \<longleftrightarrow> terminal_state (tr_state (f t)))) Db_error)
       (\<lambda>_. change (\<lambda>db. db\<lparr>d_transfers := update_where (\<lambda>t. tr_id t = i) f (d_transfers db)\<rparr>))"

definition queue :: "cfg_env \<Rightarrow> Transfer \<Rightarrow> string \<Rightarrow> bool \<Rightarrow> Transfer cfg" where
  "queue E tr node cleanup =
     andThen (if cleanup then RenderTransferCleanup E node (tr_id tr) else Render E node) (\<lambda>(rendered, validation).
     andThen (need (vr_valid validation) (Guard ''render_validation_failed'')) (\<lambda>_.
     andThen (Validate E node (ver_id rendered)) (\<lambda>validated.
     andThen (update_versions (\<lambda>v. ver_id v = ver_id validated) (\<lambda>v. v\<lparr>ver_pinned := True\<rparr>)) (\<lambda>_.
     andThen (Apply E node (ver_id validated) (''RG-140 transfer '' @ tr_id tr)) (\<lambda>job.
       let f = (\<lambda>t. if cleanup
                    then t\<lparr>tr_cleanup_version := Some (ver_id validated), tr_cleanup_job := Some (aj_id job),
                           tr_updated := ce_now E, tr_last_error := []\<rparr>
                    else t\<lparr>tr_target_version := Some (ver_id validated), tr_target_job := Some (aj_id job),
                           tr_state := Target_applying, tr_updated := ce_now E, tr_last_error := []\<rparr>) in
       andThen (update_transfer (tr_id tr) f) (\<lambda>_. ok (f tr)))))))"

section \<open>Starting a transfer\<close>

definition node_busy :: "cfg_db \<Rightarrow> string \<Rightarrow> string \<Rightarrow> bool" where
  "node_busy db source target \<longleftrightarrow>
     (\<exists>r \<in> set (d_reservations db). fst r \<in> {source, target})
     \<or> (\<exists>j \<in> set (d_jobs db). aj_server j \<in> {source, target} \<and> open_job j)
     \<or> (\<exists>o' \<in> set (d_operations db). opj_server o' \<in> {source, target} \<and> opj_status o' \<in> {''pending'', ''in_progress''})
     \<or> (\<exists>u \<in> set (d_platform_jobs db). fst u \<in> {source, target}
          \<and> snd u \<in> {''pending'', ''in_progress'', ''mutation_dispatched'', ''outcome_unknown''})
     \<or> (\<exists>m \<in> set (d_manager_jobs db). fst m = ''apply'' \<and> snd m \<in> {''pending'', ''running''})"

definition source_version_row :: "string \<Rightarrow> cfg_db \<Rightarrow> (account_row \<times> ConfigVersion) option" where
  "source_version_row acct db =
     Option.bind (lookup_row acct_id acct (d_accounts db)) (\<lambda>a.
     Option.bind (acct_server a) (\<lambda>node.
     Option.bind (lookup_row srv_id node (d_servers db)) (\<lambda>s.
     Option.bind (srv_active s) (\<lambda>vid.
     map_option (\<lambda>v. (a, v)) (lookup_row ver_id vid (d_versions db))))))"

definition only_applied_vless :: "account_row \<Rightarrow> ConfigVersion \<Rightarrow> cfg_db \<Rightarrow> bool" where
  "only_applied_vless a v db \<longleftrightarrow>
     acct_uuid a \<noteq> None \<and> acct_config_updated a \<le> ver_created v
     \<and> (case lookup_row prf_account (acct_id a) (d_profiles db) of
          None \<Rightarrow> True | Some p \<Rightarrow> prf_protocol p = ''auto'' \<or> prf_protocol p = ''vless'')
     \<and> \<not> (\<exists>p \<in> set (d_protocols db). apr_account p = acct_id a \<and> apr_explicit p
            \<and> (apr_desired p \<and> apr_protocol p \<noteq> ''vless'' \<or> ver_created v < apr_updated p))"

definition seed_profile :: "cfg_env \<Rightarrow> string \<Rightarrow> unit cfg" where
  "seed_profile E acct =
     andThen (look (\<lambda>db. lookup_row prf_account acct (d_profiles db))) (\<lambda>existing.
     if existing \<noteq> None then ok ()
     else andThen (look (\<lambda>db. Option.bind (lookup_row acct_id acct (d_accounts db)) acct_server)) (\<lambda>node.
          andThen (transfer_node_guard node) (\<lambda>_.
          change (\<lambda>db. db\<lparr>d_profiles := d_profiles db @ [\<lparr>prf_account = acct, prf_protocol = ''auto'', prf_active = ''vless'',
            prf_updated = ce_now E\<rparr>]\<rparr>))))"

definition latest_success :: "string \<Rightarrow> string \<Rightarrow> cfg_db \<Rightarrow> ConfigApplyJob option" where
  "latest_success node vid db =
     greatest_by (\<lambda>j. (aj_completed j = None, case aj_completed j of None \<Rightarrow> 0 | Some t \<Rightarrow> t))
       (select (\<lambda>j. aj_server j = node \<and> aj_version j = vid \<and> aj_status j = ''succeeded'' \<and> aj_action j = ''apply'') (d_jobs db))"

definition device_inventory :: "string \<Rightarrow> cfg_db \<Rightarrow> deviceInventory list" where
  "device_inventory acct db =
     List.map_filter (\<lambda>t.
       case Option.bind (tok_device t) (\<lambda>d. lookup_row dev_id d (d_devices db)) of
         None \<Rightarrow> Some \<lparr>inv_id = ''legacy'', inv_name = ''Account subscription'', inv_token = tok_id t\<rparr>
       | Some d \<Rightarrow> if dev_status d = ''active'' then Some \<lparr>inv_id = dev_id d, inv_name = dev_name d, inv_token = tok_id t\<rparr> else None)
       (select (\<lambda>t. tok_account t = acct \<and> tok_status t = ''active'') (d_tokens db))"

definition insert_transfer :: "cfg_env \<Rightarrow> string \<Rightarrow> string \<Rightarrow> string \<Rightarrow> string \<Rightarrow> string \<Rightarrow> Transfer cfg" where
  "insert_transfer E acct source target vid actor =
     andThen (fresh_uuid E) (\<lambda>u.
       let t = \<lparr>tr_id = u, tr_account = acct, tr_source = source, tr_target = target, tr_source_version = vid,
                tr_target_version = None, tr_target_job = None, tr_cleanup_version = None, tr_cleanup_job = None,
                tr_state = Preparing, tr_requested_by = actor, tr_last_action_by = actor, tr_last_error = [], tr_inventory = [],
                tr_created = ce_now E, tr_updated = ce_now E, tr_cutover = None, tr_cleanup_ack = None, tr_completed = None\<rparr> in
       andThen (need (source \<noteq> target) Db_error) (\<lambda>_.
       andThen (check (\<lambda>db. \<not> (\<exists>k \<in> set (d_transfers db). tr_id k = u \<or> tr_account k = acct \<and> open_transfer k)) Db_error) (\<lambda>_.
       andThen (change (\<lambda>db. db\<lparr>d_transfers := d_transfers db @ [t]\<rparr>)) (\<lambda>_. ok t))))"

definition reserve_nodes :: "string \<Rightarrow> string \<Rightarrow> string \<Rightarrow> unit cfg" where
  "reserve_nodes source target i =
     andThen (check (\<lambda>db. \<not> (\<exists>r \<in> set (d_reservations db). fst r \<in> {source, target})) Db_error)
       (\<lambda>_. change (\<lambda>db. db\<lparr>d_reservations := d_reservations db @ [(source, i), (target, i)]\<rparr>))"

text \<open>Everything \<open>Start\<close> checks before it writes the transfer: the account is deployed on the source alone, with
  evidence of the Agent, and neither node has pending changes.  The result is the deployed version.\<close>

definition start_checks :: "cfg_env \<Rightarrow> string \<Rightarrow> string \<Rightarrow> string \<Rightarrow> string \<Rightarrow> string cfg" where
  "start_checks E accountID acct source target =
     andThen (lockNodes source target) (\<lambda>_.
     andThen (check (\<lambda>db. \<not> node_busy db source target) (Guard ''node_has_conflicting_operation'')) (\<lambda>_.
     andThen (find_or (Guard ''source_not_applied'') (source_version_row acct)) (\<lambda>(a, v).
     andThen (check (only_applied_vless a v) (Guard ''only_applied_vless_accounts_supported'')) (\<lambda>_.
     andThen (nodeReady E source) (\<lambda>_.
     andThen (nodeReady E target) (\<lambda>_.
     andThen (seed_profile E acct) (\<lambda>_.
     andThen (membership source (Some (ver_id v)) accountID True) (\<lambda>_.
     andThen (find_or (Guard ''source_apply_proof_missing'') (latest_success source (ver_id v))) (\<lambda>j.
     andThen (appliedProof E source (Some (ver_id v)) (Some (aj_id j))) (\<lambda>_.
     andThen (checkBaseline E source) (\<lambda>_.
     andThen (checkBaseline E target) (\<lambda>_.
     ok (ver_id v)))))))))))))"

definition start_transfer :: "cfg_env \<Rightarrow> string \<Rightarrow> string \<Rightarrow> string \<Rightarrow> string \<Rightarrow> string \<Rightarrow> Transfer cfg" where
  "start_transfer E acct source target vid actor =
     andThen (insert_transfer E acct source target vid actor) (\<lambda>t.
     andThen (reserve_nodes source target (tr_id t)) (\<lambda>_.
     andThen (look (device_inventory acct)) (\<lambda>inv.
     andThen (update_transfer (tr_id t) (\<lambda>k. k\<lparr>tr_inventory := inv\<rparr>)) (\<lambda>_.
     andThen (authorize (tr_id t)) (\<lambda>_.
     andThen (update_versions (\<lambda>v. ver_id v = vid) (\<lambda>v. v\<lparr>ver_pinned := True\<rparr>)) (\<lambda>_.
     queue E t target False))))))"

definition StartInTransaction :: "cfg_env \<Rightarrow> string \<Rightarrow> string \<Rightarrow> string \<Rightarrow> Transfer cfg" where
  "StartInTransaction E accountID targetID actor =
     andThen (cast_uuid E accountID) (\<lambda>acct.
     andThen (find_or No_rows (\<lambda>db. lookup_row acct_id acct (d_accounts db))) (\<lambda>a.
     andThen (look (\<lambda>db. find (\<lambda>t. tr_account t = acct \<and> open_transfer t) (d_transfers db))) (\<lambda>existing.
     case existing of
       Some t \<Rightarrow> if tr_target t = targetID then ok t else fail (Guard ''account_has_active_transfer'')
     | None \<Rightarrow>
         andThen (some_or (Guard ''distinct_nodes_and_active_account_required'') (acct_server a)) (\<lambda>source.
         andThen (need (targetID \<noteq> [] \<and> source \<noteq> targetID \<and> acct_status a = ''active'')
                   (Guard ''distinct_nodes_and_active_account_required'')) (\<lambda>_.
         andThen (accountEligible E acct) (\<lambda>_.
         andThen (cast_uuid E targetID) (\<lambda>target.
         andThen (start_checks E accountID acct source target) (\<lambda>vid.
         start_transfer E acct source target vid actor))))))))"

definition Start :: "commit_fate \<Rightarrow> cfg_env \<Rightarrow> string \<Rightarrow> string \<Rightarrow> string \<Rightarrow> Transfer cfg" where
  "Start fate E accountID targetID actor = transaction fate (StartInTransaction E accountID targetID actor)"

section \<open>Steps of a transfer\<close>

text \<open>\<open>UPDATE vpn_accounts SET server_id\<close> with its triggers: the node guard for both nodes, the refusal of an
  unstaged move, and the configuration timestamp, which the move of the authorised transfer keeps.\<close>

definition deployed_on_active :: "cfg_db \<Rightarrow> string \<Rightarrow> string \<Rightarrow> bool" where
  "deployed_on_active db node acct \<longleftrightarrow>
     (\<exists>s \<in> set (d_servers db). srv_id s = node \<and> (\<exists>v \<in> set (d_versions db). srv_active s = Some (ver_id v)
        \<and> (case account_deployments (ver_settings v) of None \<Rightarrow> True | Some m \<Rightarrow> m acct \<noteq> None)))"

definition retimed :: "cfg_env \<Rightarrow> cfg_db \<Rightarrow> account_row \<Rightarrow> string option \<Rightarrow> time" where
  "retimed E db a node =
     (if acct_server a = node
         \<or> (\<exists>t \<in> set (d_transfers db). tr_account t = acct_id a \<and> d_auth db = Some (tr_id t) \<and> open_transfer t
              \<and> (node = Some (tr_source t) \<or> node = Some (tr_target t)))
      then acct_config_updated a else ce_now E)"

text \<open>The unique index of \<open>vpn_accounts\<close> on the node and the WireGuard address (migration 000125).\<close>

definition address_taken :: "cfg_db \<Rightarrow> account_row \<Rightarrow> string option \<Rightarrow> bool" where
  "address_taken db a node \<longleftrightarrow>
     node \<noteq> None \<and> acct_wg_address a \<noteq> None
     \<and> list_ex (\<lambda>b. acct_id b \<noteq> acct_id a \<and> acct_server b = node \<and> acct_wg_address b = acct_wg_address a) (d_accounts db)"

definition reassign_account :: "cfg_env \<Rightarrow> string \<Rightarrow> string option \<Rightarrow> unit cfg" where
  "reassign_account E acct node =
     andThen (look (\<lambda>db. lookup_row acct_id acct (d_accounts db))) (\<lambda>row.
     case row of
       None \<Rightarrow> ok ()
     | Some a \<Rightarrow>
         if acct_server a = node then ok ()
         else andThen (transfer_node_guard (acct_server a)) (\<lambda>_.
              andThen (transfer_node_guard node) (\<lambda>_.
              andThen (check (\<lambda>db. \<not> ((d_auth db = None \<or> d_auth db = Some []) \<and> (case acct_server a of None \<Rightarrow> False | Some n \<Rightarrow> deployed_on_active db n acct)))
                        (Raised ''staged_transfer_required'')) (\<lambda>_.
              andThen (check (\<lambda>db. \<not> address_taken db a node) Db_error) (\<lambda>_.
              change (\<lambda>db. db\<lparr>d_accounts := update_where (\<lambda>r. acct_id r = acct)
                (\<lambda>r. r\<lparr>acct_server := node, acct_config_updated := retimed E db r node\<rparr>) (d_accounts db)\<rparr>))))))"

text \<open>The evidence that the target serves the account, as \<open>verify\<close> and \<open>cutover\<close> collect it.\<close>

definition act_verify :: "cfg_env \<Rightarrow> string \<Rightarrow> Transfer \<Rightarrow> Transfer cfg" where
  "act_verify E accountID tr =
     (if tr_state tr = Target_ready \<or> tr_state tr = Client_refresh_pending then ok tr
      else if tr_state tr \<noteq> Target_applying then fail (Refused ''target_is_not_applying'')
      else
        andThen (appliedProof E (tr_target tr) (tr_target_version tr) (tr_target_job tr)) (\<lambda>(host, port).
        andThen (accountEligible E (tr_account tr)) (\<lambda>_.
        andThen (membership (tr_target tr) (tr_target_version tr) accountID True) (\<lambda>_.
        andThen (nodeReady E (tr_target tr)) (\<lambda>_.
        andThen (reachable E host port) (\<lambda>_.
        ok (tr\<lparr>tr_state := Target_ready\<rparr>)))))))"

definition act_cutover :: "cfg_env \<Rightarrow> string \<Rightarrow> string option \<Rightarrow> Transfer \<Rightarrow> Transfer cfg" where
  "act_cutover E accountID accountNode tr =
     (if tr_state tr = Client_refresh_pending then ok tr
      else if tr_state tr \<noteq> Target_ready \<or> accountNode \<noteq> Some (tr_source tr)
      then fail (Refused ''target_not_ready_or_assignment_changed'')
      else
        andThen (appliedProof E (tr_target tr) (tr_target_version tr) (tr_target_job tr)) (\<lambda>(host, port).
        andThen (accountEligible E (tr_account tr)) (\<lambda>_.
        andThen (membership (tr_target tr) (tr_target_version tr) accountID True) (\<lambda>_.
        andThen (membership (tr_source tr) (Some (tr_source_version tr)) accountID True) (\<lambda>_.
        andThen (nodeReady E (tr_target tr)) (\<lambda>_.
        andThen (reachable E host port) (\<lambda>_.
        andThen (reassign_account E (tr_account tr) (Some (tr_target tr))) (\<lambda>_.
        andThen (update_transfer (tr_id tr) (\<lambda>t. t\<lparr>tr_cutover := Some (ce_now E)\<rparr>)) (\<lambda>_.
        ok (tr\<lparr>tr_state := Client_refresh_pending\<rparr>))))))))))"

definition act_cleanup :: "cfg_env \<Rightarrow> string \<Rightarrow> string option \<Rightarrow> bool \<Rightarrow> Transfer \<Rightarrow> Transfer cfg" where
  "act_cleanup E accountID accountNode confirmed tr =
     (if tr_state tr = Source_cleaning then ok tr
      else if tr_state tr \<noteq> Client_refresh_pending \<or> \<not> confirmed \<or> accountNode \<noteq> Some (tr_target tr)
      then fail (Refused ''explicit_client_verification_required'')
      else
        andThen (membership (tr_target tr) (tr_target_version tr) accountID True) (\<lambda>_.
        andThen (appliedProof E (tr_target tr) (tr_target_version tr) (tr_target_job tr)) (\<lambda>_.
        andThen (nodeReady E (tr_target tr)) (\<lambda>_.
        andThen (update_transfer (tr_id tr) (\<lambda>t. t\<lparr>tr_state := Source_cleaning, tr_cleanup_ack := Some (ce_now E)\<rparr>)) (\<lambda>_.
        queue E (tr\<lparr>tr_state := Source_cleaning\<rparr>) (tr_source tr) True)))))"

definition source_endpoint :: "cfg_env \<Rightarrow> string \<Rightarrow> cfg_db \<Rightarrow> (string \<times> int) option" where
  "source_endpoint E node db =
     Option.bind (lookup_row srv_id node (d_servers db)) (\<lambda>s.
     Option.bind (srv_active s) (\<lambda>vid.
     Option.bind (lookup_row ver_id vid (d_versions db)) (\<lambda>v.
     map_option (\<lambda>c. (public_host E s, cl_vless_port c)) (ver_settings v))))"

definition cancelled_job :: "cfg_env \<Rightarrow> ConfigApplyJob \<Rightarrow> ConfigApplyJob" where
  "cancelled_job E k = k\<lparr>aj_status := ''failed'', aj_error := ''Cancelled before Agent claim'',
     aj_completed := Some (ce_now E), aj_updated := ce_now E\<rparr>"

definition act_rollback :: "cfg_env \<Rightarrow> string \<Rightarrow> bool \<Rightarrow> Transfer \<Rightarrow> Transfer cfg" where
  "act_rollback E accountID confirmed tr =
     (if tr_state tr = Target_cleaning then ok tr
      else if tr_state tr \<notin> {Client_refresh_pending, Target_ready, Target_applying}
      then fail (Refused ''rollback_unavailable_after_source_cleanup_started'')
      else if tr_state tr = Client_refresh_pending \<and> \<not> confirmed
      then fail (Refused ''rollback_requires_client_refresh_acknowledgement'')
      else
        andThen (some_or Db_error (tr_target_job tr)) (\<lambda>jid.
        andThen (find_or No_rows (\<lambda>db. lookup_row aj_id jid (d_jobs db))) (\<lambda>j.
        andThen (need (aj_status j \<noteq> ''in_progress'') (Refused ''wait_for_target_apply_before_rollback'')) (\<lambda>_.
        andThen (if aj_status j = ''pending'' then finish_job E jid (cancelled_job E) else ok ()) (\<lambda>_.
        andThen (membership (tr_source tr) (Some (tr_source_version tr)) accountID True) (\<lambda>_.
        andThen (nodeReady E (tr_source tr)) (\<lambda>_.
        andThen (find_or Db_error (source_endpoint E (tr_source tr))) (\<lambda>(host, port).
        andThen (reachable E host port) (\<lambda>_.
        andThen (reassign_account E (tr_account tr) (Some (tr_source tr))) (\<lambda>_.
        andThen (update_transfer (tr_id tr) (\<lambda>t. t\<lparr>tr_state := Target_cleaning\<rparr>)) (\<lambda>_.
        queue E (tr\<lparr>tr_state := Target_cleaning\<rparr>) (tr_target tr) True)))))))))))"

definition finished_state :: "Transfer \<Rightarrow> transfer_state" where
  "finished_state tr =
     (if tr_state tr = Source_cleaning then Complete else if tr_cutover tr \<noteq> None then Rolled_back else Cancelled)"

definition act_finish :: "cfg_env \<Rightarrow> string \<Rightarrow> Transfer \<Rightarrow> Transfer cfg" where
  "act_finish E accountID tr =
     (if tr_state tr \<noteq> Source_cleaning \<and> tr_state tr \<noteq> Target_cleaning then fail (Refused ''cleanup_not_started'')
      else
        let node = (if tr_state tr = Target_cleaning then tr_target tr else tr_source tr) in
        andThen (appliedProof E node (tr_cleanup_version tr) (tr_cleanup_job tr)) (\<lambda>_.
        andThen (nodeReady E node) (\<lambda>_.
        andThen (membership node (tr_cleanup_version tr) accountID False) (\<lambda>_.
        andThen (update_transfer (tr_id tr) (\<lambda>t. t\<lparr>tr_state := finished_state tr, tr_completed := Some (ce_now E)\<rparr>)) (\<lambda>_.
        andThen (change (\<lambda>db. db\<lparr>d_reservations := select (\<lambda>r. snd r \<noteq> tr_id tr) (d_reservations db)\<rparr>)) (\<lambda>_.
        ok (tr\<lparr>tr_state := finished_state tr\<rparr>)))))))"

definition act_retry :: "cfg_env \<Rightarrow> Transfer \<Rightarrow> Transfer cfg" where
  "act_retry E tr =
     (let cleaning = tr_state tr = Source_cleaning \<or> tr_state tr = Target_cleaning in
      if \<not> cleaning \<and> tr_state tr \<noteq> Target_applying then fail (Refused ''nothing_to_retry'')
      else
        andThen (some_or Db_error (if cleaning then tr_cleanup_job tr else tr_target_job tr)) (\<lambda>jid.
        andThen (find_or No_rows (\<lambda>db. lookup_row aj_id jid (d_jobs db))) (\<lambda>j.
        andThen (need (aj_status j = ''failed'') (Refused ''retry_requires_terminal_failed_job'')) (\<lambda>_.
        queue E tr (if tr_state tr = Source_cleaning then tr_source tr else tr_target tr) cleaning))))"

definition act_step :: "cfg_env \<Rightarrow> string \<Rightarrow> string option \<Rightarrow> string \<Rightarrow> bool \<Rightarrow> Transfer \<Rightarrow> Transfer cfg" where
  "act_step E accountID accountNode action confirmed tr =
     (if action = ''verify'' then act_verify E accountID tr
      else if action = ''cutover'' then act_cutover E accountID accountNode tr
      else if action = ''cleanup'' then act_cleanup E accountID accountNode confirmed tr
      else if action = ''rollback'' then act_rollback E accountID confirmed tr
      else if action = ''finish'' then act_finish E accountID tr
      else if action = ''retry'' then act_retry E tr
      else fail (Refused ''unknown_transfer_action''))"

definition error_code :: "fault \<Rightarrow> string" where
  "error_code e =
     (case e of Guard r \<Rightarrow> ''transfer safety gate blocked the action: '' @ r | _ \<Rightarrow> ''step_failed_safely'')"

text \<open>The end of a step: its state, error code and actor are recorded and the row is read back.\<close>

definition record_step :: "cfg_env \<Rightarrow> string \<Rightarrow> transfer_state \<Rightarrow> fault option \<Rightarrow> string \<Rightarrow> (Transfer \<times> fault option) cfg" where
  "record_step E i st e actor =
     andThen (update_transfer i (\<lambda>t. t\<lparr>tr_state := st, tr_last_error := (case e of None \<Rightarrow> [] | Some f \<Rightarrow> error_code f),
        tr_last_action_by := actor, tr_updated := ce_now E\<rparr>)) (\<lambda>_.
     andThen (find_or No_rows (\<lambda>db. lookup_row tr_id i (d_transfers db))) (\<lambda>fresh. ok (fresh, e)))"

definition run_step :: "cfg_env \<Rightarrow> Transfer \<Rightarrow> string \<Rightarrow> Transfer cfg \<Rightarrow> (Transfer \<times> fault option) cfg" where
  "run_step E tr actor m db =
     (case m db of
        (Inr tr', db') \<Rightarrow> record_step E (tr_id tr) (tr_state tr') None actor db'
      | (Inl (Refused r), _) \<Rightarrow> (Inl (Guard r), db)
      | (Inl e, _) \<Rightarrow> record_step E (tr_id tr) (tr_state tr) (Some e) actor db)"

definition ActInTransaction ::
  "cfg_env \<Rightarrow> string \<Rightarrow> string \<Rightarrow> string \<Rightarrow> string \<Rightarrow> bool \<Rightarrow> (Transfer \<times> fault option) cfg" where
  "ActInTransaction E accountID transferID action actor confirmed =
     andThen (cast_uuid E transferID) (\<lambda>i.
     andThen (cast_uuid E accountID) (\<lambda>acct.
     andThen (find_or No_rows (\<lambda>db. find (\<lambda>t. tr_id t = i \<and> tr_account t = acct) (d_transfers db))) (\<lambda>tr.
     andThen (find_or No_rows (\<lambda>db. lookup_row acct_id acct (d_accounts db))) (\<lambda>a.
     andThen (lockNodes (tr_source tr) (tr_target tr)) (\<lambda>_.
     if \<not> open_transfer tr then ok (tr, None)
     else andThen (authorize transferID) (\<lambda>_.
       run_step E tr actor (act_step E accountID (acct_server a) action confirmed tr)))))))"

definition Act :: "commit_fate \<Rightarrow> cfg_env \<Rightarrow> string \<Rightarrow> string \<Rightarrow> string \<Rightarrow> string \<Rightarrow> bool \<Rightarrow> (Transfer \<times> fault option) cfg" where
  "Act fate E accountID transferID action actor confirmed =
     transaction fate (ActInTransaction E accountID transferID action actor confirmed)"

section \<open>Reading a transfer\<close>

record DeviceEvidence =
  ev_id :: string
  ev_name :: string
  ev_requested :: "time option"
  ev_after_cutover :: bool
  ev_link_changed :: bool

definition after_cutover :: "Transfer \<Rightarrow> time option \<Rightarrow> bool" where
  "after_cutover tr used \<longleftrightarrow> (case (tr_cutover tr, used) of (Some c, Some u) \<Rightarrow> c \<le> u | _ \<Rightarrow> False)"

definition known_device :: "cfg_db \<Rightarrow> Transfer \<Rightarrow> string \<Rightarrow> deviceInventory \<Rightarrow> DeviceEvidence" where
  "known_device db tr acct old =
     (let tok = greatest_by tok_created (select (\<lambda>t. tok_account t = acct \<and> tok_status t = ''active''
            \<and> (case tok_device t of None \<Rightarrow> ''legacy'' | Some d \<Rightarrow> d) = inv_id old) (d_tokens db));
          token = (case tok of None \<Rightarrow> [] | Some t \<Rightarrow> tok_id t);
          used = Option.bind tok tok_used;
          moved = token \<noteq> inv_token old
      in \<lparr>ev_id = inv_id old, ev_name = inv_name old, ev_requested = used,
          ev_after_cutover = (\<not> moved \<and> after_cutover tr used), ev_link_changed = moved\<rparr>)"

definition new_devices :: "cfg_db \<Rightarrow> Transfer \<Rightarrow> string \<Rightarrow> DeviceEvidence list" where
  "new_devices db tr acct =
     List.map_filter (\<lambda>t.
       let dev = Option.bind (tok_device t) (\<lambda>d. lookup_row dev_id d (d_devices db));
           i = (case dev of None \<Rightarrow> ''legacy'' | Some d \<Rightarrow> dev_id d) in
       if (case dev of None \<Rightarrow> False | Some d \<Rightarrow> dev_status d \<noteq> ''active'') \<or> i \<in> set (map inv_id (tr_inventory tr)) then None
       else Some \<lparr>ev_id = i, ev_name = (case dev of None \<Rightarrow> ''Account subscription'' | Some d \<Rightarrow> dev_name d), ev_requested = tok_used t,
                  ev_after_cutover = after_cutover tr (tok_used t), ev_link_changed = False\<rparr>)
       (select (\<lambda>t. tok_account t = acct \<and> tok_status t = ''active'') (d_tokens db))"

definition Latest :: "cfg_env \<Rightarrow> string \<Rightarrow> (Transfer \<times> DeviceEvidence list) option cfg" where
  "Latest E accountID =
     andThen (cast_uuid E accountID) (\<lambda>acct.
     look (\<lambda>db. map_option (\<lambda>tr. (tr, map (known_device db tr acct) (tr_inventory tr) @ new_devices db tr acct))
       (greatest_by tr_created (select (\<lambda>t. tr_account t = acct) (d_transfers db)))))"

end
