(* ===== verification/Transfer_Frames.thy ===== *)
theory Transfer_Frames
  imports Transfers
begin

text \<open>
  What the operations on configurations leave alone.  \<open>same_config\<close> is the frame of rendering, validating and all
  checks: transfers, reservations, jobs, assignments and active versions are unchanged, and every stored version
  keeps the settings it has.
\<close>

definition server_keys :: "cfg_db \<Rightarrow> (string \<times> string option) list" where
  "server_keys db = map (\<lambda>s. (srv_id s, srv_active s)) (d_servers db)"

definition account_keys :: "cfg_db \<Rightarrow> (string \<times> string option) list" where
  "account_keys db = map (\<lambda>a. (acct_id a, acct_server a)) (d_accounts db)"

definition keeps_versions :: "cfg_db \<Rightarrow> cfg_db \<Rightarrow> bool" where
  "keeps_versions s s' \<longleftrightarrow>
     (\<forall>n i v. find_version n i s = Some v
        \<longrightarrow> (\<exists>v'. find_version n i s' = Some v' \<and> (ver_settings v \<noteq> None \<longrightarrow> ver_settings v' = ver_settings v)))"

definition same_config :: "cfg_db \<Rightarrow> cfg_db \<Rightarrow> bool" where
  "same_config s s' \<longleftrightarrow>
     d_transfers s' = d_transfers s \<and> d_reservations s' = d_reservations s \<and> d_auth s' = d_auth s \<and> d_jobs s' = d_jobs s
     \<and> server_keys s' = server_keys s \<and> account_keys s' = account_keys s \<and> keeps_versions s s'"

lemma keeps_versions_refl [simp]: "keeps_versions s s"
  by (simp add: keeps_versions_def)

lemma keeps_versions_trans: "keeps_versions s t \<Longrightarrow> keeps_versions t u \<Longrightarrow> keeps_versions s u"
  unfolding keeps_versions_def by metis

interpretation cf: frame same_config
proof
  show "same_config s s" for s by (simp add: same_config_def)
  show "same_config s u" if "same_config s t" "same_config t u" for s t u
    using that keeps_versions_trans [of s t u] by (simp add: same_config_def)
qed

lemma find_appendI: "find Q xs = Some x \<Longrightarrow> find Q (xs @ ys) = Some x"
  by (induction xs) auto

lemma update_versions_keeps:
  assumes "\<And>v. ver_id (f v) = ver_id v" "\<And>v. ver_server (f v) = ver_server v"
    and "\<And>v. P v \<Longrightarrow> ver_settings v \<noteq> None \<Longrightarrow> ver_settings (f v) = ver_settings v"
  shows "keeps same_config (update_versions P f)"
  unfolding update_versions_def
proof (intro cf.keeps_rules cf.keeps_change)
  fix s
  have "find (\<lambda>v. ver_server v = n \<and> ver_id v = i) (update_where P f (d_versions s))
      = map_option (\<lambda>v. if P v then f v else v) (find_version n i s)" for n i
    unfolding find_version_def by (rule find_update_where) (simp add: assms)
  then show "same_config s (s\<lparr>d_versions := update_where P f (d_versions s)\<rparr>)"
    using assms(3) by (simp add: same_config_def keeps_versions_def server_keys_def account_keys_def find_version_def)
qed

lemma fresh_uuid_keeps: "keeps same_config (fresh_uuid E)"
  unfolding fresh_uuid_def
  by (intro cf.keeps_rules cf.keeps_change) (simp add: same_config_def keeps_versions_def server_keys_def account_keys_def find_version_def)

lemma set_server_keeps:
  assumes "\<And>s. srv_id (f s) = srv_id s" "\<And>s. srv_active (f s) = srv_active s"
  shows "keeps same_config (set_server node f)"
  unfolding set_server_def
  by (intro cf.keeps_change)
    (simp add: same_config_def keeps_versions_def server_keys_def account_keys_def find_version_def update_where_def assms if_distrib cong: if_cong)

lemma insert_version_keeps: "keeps same_config (insert_version v)"
  unfolding insert_version_def
proof (intro cf.keeps_rules cf.keeps_change)
  show "same_config s (s\<lparr>d_versions := d_versions s @ [v]\<rparr>)" for s
    by (simp add: same_config_def keeps_versions_def server_keys_def account_keys_def find_version_def find_appendI)
qed

lemma seed_profile_keeps: "keeps same_config (seed_profile E acct)"
  unfolding seed_profile_def transfer_node_guard_def
proof (intro cf.keeps_rules cf.keeps_change)
  show "same_config s (s\<lparr>d_profiles := d_profiles s @ [p]\<rparr>)" for s p
    by (simp add: same_config_def keeps_versions_def server_keys_def account_keys_def find_version_def)
qed

text \<open>Completing WireGuard credentials changes only the credential columns of the accounts.\<close>

lemma update_peer_length: "update_peer pgi a k ad t = Inr t' \<Longrightarrow> length t' = length t"
  by (auto simp: update_peer_def update_where_def split: option.splits if_splits)

lemma ensure_peers_length: "ensure_peers pgi gen pub srv ps used t = Inr t' \<Longrightarrow> length t' = length t"
  by (induction pgi gen pub srv ps used t rule: ensure_peers.induct)
    (auto simp: Let_def update_peer_length split: sum.splits if_splits dest!: update_peer_length)

lemma server_body_length:
  assumes "server_body pgi gen pub sid db = Commit r w"
  shows "length (wg_accounts w) = length (wg_accounts db)"
proof (cases "lookup_row ws_id sid (wg_servers db)")
  case (Some s)
  with assms show ?thesis
    by (auto simp: server_body_def Let_def split: sum.splits dest!: ensure_peers_length)
qed (use assms in \<open>simp add: server_body_def\<close>)

lemma wg_store_same:
  assumes "length (wg_accounts w) = length (d_accounts s)"
  shows "same_config s (wg_store w s)"
proof -
  have "map (\<lambda>a. (acct_id a, acct_server a))
      (map2 (\<lambda>a p. a\<lparr>acct_wg_private := wa_private p, acct_wg_public := wa_public p, acct_wg_address := wa_address p\<rparr>) xs ys)
      = map (\<lambda>a. (acct_id a, acct_server a)) xs" if "length ys = length xs" for xs :: "account_row list" and ys :: "wg_account list"
    using that by (induction xs ys rule: list_induct2') auto
  then show ?thesis
    using assms by (simp add: same_config_def keeps_versions_def server_keys_def account_keys_def find_version_def wg_store_def)
qed

lemma ensure_peer_credentials_keeps: "keeps same_config (ensure_peer_credentials E node)"
  unfolding keeps_def
proof
  fix s
  define b where "b = server_body (if node_blocked s node then (\<lambda>_. None) else ce_inet E) (ce_keygen E)
             (PublicKeyFromPrivate StdEncoding_DecodeString (EncodeToString64 ''+/'' ''='') (l_x25519 (ce_lib E))) node (wg_view s)"
  have "length (wg_accounts w) = length (d_accounts s)" if "b = Commit r w" for r w
    using server_body_length [OF that [unfolded b_def]] by (simp add: wg_view_def)
  then show "same_config s (snd (ensure_peer_credentials E node s))"
    unfolding ensure_peer_credentials_def b_def [symmetric]
    by (auto simp: cf.frame_refl wg_store_same split: outcome.splits sum.splits)
qed

lemmas config_keeps = update_versions_keeps fresh_uuid_keeps set_server_keeps insert_version_keeps
  ensure_peer_credentials_keeps seed_profile_keeps cf.keeps_rules

section \<open>Programs within the frame\<close>

lemma resolve_keeps: "keeps same_config (ResolveServerAccountProtocols E node)"
  unfolding ResolveServerAccountProtocols_def by (intro config_keeps)

lemma info_keeps: "keeps same_config (GetServerConfigInfo E node)"
  unfolding GetServerConfigInfo_def by (intro config_keeps)

lemma reuse_version_keeps: "keeps same_config (reuse_version E primaries latest)"
  unfolding reuse_version_def by (intro config_keeps) simp_all

lemma add_version_keeps: "keeps same_config (add_version E node status hash p primaries k)"
  unfolding add_version_def Let_def by (intro config_keeps) simp_all

lemma CreateConfigVersion_keeps: "keeps same_config (CreateConfigVersion E node status hash c primaries)"
  unfolding CreateConfigVersion_def Let_def by (intro config_keeps reuse_version_keeps add_version_keeps)

lemma render_keeps: "keeps same_config (render E node cleanup)"
  unfolding render_def Let_def by (intro config_keeps resolve_keeps info_keeps CreateConfigVersion_keeps)

lemma Render_keeps: "keeps same_config (Render E node)"
  unfolding Render_def by (rule render_keeps)

lemma RenderTransferCleanup_keeps: "keeps same_config (RenderTransferCleanup E node tid)"
  unfolding RenderTransferCleanup_def by (intro config_keeps render_keeps)

lemma MarkConfigVersionValidated_keeps: "keeps same_config (MarkConfigVersionValidated node vid)"
  unfolding MarkConfigVersionValidated_def GetConfigVersion_def by (intro config_keeps) simp_all

lemma Validate_keeps: "keeps same_config (Validate E node vid)"
  unfolding Validate_def GetConfigVersion_def
  by (intro config_keeps) (auto split: payload.splits intro!: config_keeps MarkConfigVersionValidated_keeps)

lemma safe_keeps: "keeps same_config (ensureConfigVersionSafeForApply E v)"
  unfolding ensureConfigVersionSafeForApply_def by (auto split: payload.splits intro!: config_keeps)

lemma SetConfigVersionPinned_keeps: "keeps same_config (SetConfigVersionPinned node vid b)"
  unfolding SetConfigVersionPinned_def GetConfigVersion_def by (intro config_keeps) simp_all

lemma backfill_versions_keeps: "keeps same_config (backfill_versions vs)"
proof (induction vs rule: backfill_versions.induct)
  case (2 vid vs)
  then show ?case unfolding backfill_versions.simps by (intro config_keeps) (auto split: prod.splits intro: config_keeps)
next
  case (3 vid snap vs)
  then show ?case unfolding backfill_versions.simps by (intro config_keeps) (auto split: prod.splits intro: config_keeps)
qed (simp add: cf.keeps_pure)

lemma BackfillClientSettings_keeps: "keeps same_config (BackfillClientSettings E)"
  unfolding BackfillClientSettings_def by (intro config_keeps backfill_versions_keeps)

lemma membership_keeps: "keeps same_config (membership node version acct present)"
  unfolding membership_def by (intro config_keeps)

lemma appliedProof_keeps: "keeps same_config (appliedProof E node version job)"
  unfolding appliedProof_def by (intro config_keeps) (auto split: prod.splits intro!: config_keeps)

lemma accountEligible_keeps: "keeps same_config (accountEligible E acct)"
  unfolding accountEligible_def by (intro config_keeps)

lemma checkBaseline_keeps: "keeps same_config (checkBaseline E node)"
  unfolding checkBaseline_def by (intro config_keeps Render_keeps) (auto split: prod.splits intro!: config_keeps)

lemma start_checks_keeps: "keeps same_config (start_checks E accountID acct source target)"
  unfolding start_checks_def lockNodes_def nodeReady_def split_beta
  by (intro config_keeps membership_keeps appliedProof_keeps checkBaseline_keeps)

end
