(* ===== verification/Transfer_Inv.thy ===== *)
theory Transfer_Inv
  imports Transfer_Frames
begin

text \<open>
  Continuity of service during a transfer: in every state that any interleaving of requests, Agent reports and
  other sessions can reach, the account of an unfinished transfer is deployed, with VLESS, in the active version of
  the node it is assigned to.  The invariant \<open>transfer_inv\<close> is what the reservations and the guards protect.
\<close>

section \<open>The invariant\<close>

definition serves :: "cfg_db \<Rightarrow> string \<Rightarrow> string \<Rightarrow> string \<Rightarrow> bool" where
  "serves db acct node vid \<longleftrightarrow>
     map_of (server_keys db) node = Some (Some vid)
     \<and> (\<exists>v s m. find_version node vid db = Some v \<and> ver_settings v = Some s \<and> cl_accounts s = Some m \<and> deployed_vless s m acct)"

definition quiet :: "cfg_db \<Rightarrow> string \<Rightarrow> bool" where
  "quiet db node \<longleftrightarrow> (\<forall>j \<in> set (d_jobs db). open_job j \<longrightarrow> aj_server j \<noteq> node)"

definition home :: "Transfer \<Rightarrow> string" where
  "home t = (if tr_state t \<in> {Client_refresh_pending, Source_cleaning} then tr_target t else tr_source t)"

definition home_version :: "Transfer \<Rightarrow> string option" where
  "home_version t =
     (if tr_state t \<in> {Client_refresh_pending, Source_cleaning} then tr_target_version t else Some (tr_source_version t))"

definition placed :: "cfg_db \<Rightarrow> Transfer \<Rightarrow> bool" where
  "placed db t \<longleftrightarrow>
     map_of (account_keys db) (tr_account t) = Some (Some (home t))
     \<and> (\<exists>vid. home_version t = Some vid \<and> serves db (tr_account t) (home t) vid)"

definition settled :: "cfg_db \<Rightarrow> Transfer \<Rightarrow> bool" where
  "settled db t \<longleftrightarrow>
     (tr_state t \<noteq> Source_cleaning \<longrightarrow> quiet db (tr_source t))
     \<and> (tr_state t \<notin> {Target_applying, Target_cleaning} \<longrightarrow> quiet db (tr_target t))
     \<and> (tr_state t = Target_applying
          \<longrightarrow> (\<forall>j \<in> set (d_jobs db). open_job j \<and> aj_server j = tr_target t \<longrightarrow> tr_target_job t = Some (aj_id j)))"

definition reserved :: "cfg_db \<Rightarrow> Transfer \<Rightarrow> bool" where
  "reserved db t \<longleftrightarrow>
     tr_source t \<noteq> tr_target t \<and> (tr_source t, tr_id t) \<in> set (d_reservations db) \<and> (tr_target t, tr_id t) \<in> set (d_reservations db)"

definition in_course :: "Transfer \<Rightarrow> bool" where
  "in_course t \<longleftrightarrow> tr_state t \<in> {Target_applying, Target_ready, Client_refresh_pending, Source_cleaning, Target_cleaning}"

definition good :: "cfg_db \<Rightarrow> Transfer \<Rightarrow> bool" where
  "good db t \<longleftrightarrow> in_course t \<and> reserved db t \<and> placed db t \<and> settled db t"

definition well_kept :: "cfg_db \<Rightarrow> bool" where
  "well_kept db \<longleftrightarrow>
     distinct (map tr_id (d_transfers db)) \<and> distinct (map aj_id (d_jobs db)) \<and> distinct (map fst (d_reservations db))
     \<and> (\<forall>r \<in> set (d_reservations db). snd r \<in> tr_id ` set (filter open_transfer (d_transfers db)))
     \<and> distinct (map tr_account (filter open_transfer (d_transfers db)))"

definition transfer_inv :: "cfg_db \<Rightarrow> bool" where
  "transfer_inv db \<longleftrightarrow> well_kept db \<and> (\<forall>t \<in> set (filter open_transfer (d_transfers db)). good db t)"

section \<open>Steps that respect the invariant by their frame\<close>

lemma map_of_lookup: "map_of (map (\<lambda>x. (k x, v x)) xs) i = map_option v (lookup_row k i xs)"
  by (induction xs) (auto simp: lookup_row_def)

lemma serves_keeps:
  assumes "serves s acct n vid" "map_of (server_keys s') n = map_of (server_keys s) n"
    and "\<And>v. find_version n vid s = Some v \<Longrightarrow> ver_settings v \<noteq> None
           \<Longrightarrow> \<exists>v'. find_version n vid s' = Some v' \<and> ver_settings v' = ver_settings v"
  shows "serves s' acct n vid"
  using assms unfolding serves_def by fastforce

definition same_world :: "cfg_db \<Rightarrow> cfg_db \<Rightarrow> bool" where
  "same_world s s' \<longleftrightarrow> server_keys s' = server_keys s \<and> account_keys s' = account_keys s \<and> keeps_versions s s'"

lemma same_config_world: "same_config s s' \<Longrightarrow> same_world s s'"
  by (simp add: same_config_def same_world_def)

lemma same_world_trans: "same_world s t \<Longrightarrow> same_world t u \<Longrightarrow> same_world s u"
  using keeps_versions_trans [of s t u] by (simp add: same_world_def)

lemma same_world_serves: "same_world s s' \<Longrightarrow> serves s acct n vid \<Longrightarrow> serves s' acct n vid"
  by (erule serves_keeps) (simp add: same_world_def, metis same_world_def keeps_versions_def)

lemma same_world_placed: "same_world s s' \<Longrightarrow> placed s t \<Longrightarrow> placed s' t"
  using same_world_serves [of s s'] by (auto simp: placed_def same_world_def)

lemma same_config_inv:
  assumes "same_config s s'" "transfer_inv s"
  shows "transfer_inv s'"
proof -
  have "good s' t" if "good s t" for t
    using that same_world_placed [OF same_config_world [OF assms(1)]] assms(1)
    by (simp add: good_def reserved_def settled_def quiet_def same_config_def)
  with assms show ?thesis by (simp add: transfer_inv_def well_kept_def same_config_def)
qed

definition stable :: "cfg_db \<Rightarrow> cfg_db \<Rightarrow> bool" where
  "stable s s' \<longleftrightarrow> (d_auth s = None \<and> transfer_inv s \<longrightarrow> d_auth s' = None \<and> transfer_inv s')"

interpretation st: frame stable
  by unfold_locales (auto simp: stable_def)

lemma keeps_stable: "keeps same_config m \<Longrightarrow> keeps stable m"
  using same_config_inv by (auto simp: keeps_def stable_def same_config_def)

text \<open>Distinct transfers have disjoint nodes.\<close>

lemma nodes_disjoint:
  assumes "well_kept db" "reserved db t" "reserved db u" "tr_id t \<noteq> tr_id u"
    and "n \<in> {tr_source t, tr_target t}"
  shows "n \<notin> {tr_source u, tr_target u}"
proof
  assume "n \<in> {tr_source u, tr_target u}"
  with assms have "(n, tr_id t) \<in> set (d_reservations db)" "(n, tr_id u) \<in> set (d_reservations db)"
    by (auto simp: reserved_def)
  with assms(1,4) show False using eq_key_imp_eq_value by (metis well_kept_def)
qed

lemma settled_add:
  assumes "settled s t" "aj_server j \<notin> {tr_source t, tr_target t}" "d_jobs s' = d_jobs s @ [j]"
  shows "settled s' t"
  using assms by (auto simp: settled_def quiet_def)

section \<open>Queueing a job outside a transfer\<close>

lemma CreateConfigApplyJob_stable: "keeps stable (CreateConfigApplyJob E node agent v comment redeploy)"
  unfolding keeps_def stable_def
proof (intro allI conjI impI; (elim conjE)?)
  fix s
  let ?m = "CreateConfigApplyJob E node agent v comment redeploy"
  assume a: "d_auth s = None" and I: "transfer_inv s"
  then show "d_auth (snd (?m s)) = None"
    by (simp add: CreateConfigApplyJob_def effect_run fresh_uuid_def transfer_node_guard_def Let_def)
  obtain r s' where m: "?m s = (r, s')" by (cases "?m s")
  have frame: "transfer_inv (s\<lparr>d_seq := k\<rparr>)" for k
    using I by (rule same_config_inv [rotated])
      (simp add: same_config_def server_keys_def account_keys_def keeps_versions_def find_version_def)
  show "transfer_inv (snd (?m s))"
  proof (cases r)
    case (Inl e)
    with m have "s' = s\<lparr>d_seq := Suc (d_seq s)\<rparr>"
      by (auto simp: CreateConfigApplyJob_def effect_run fresh_uuid_def transfer_node_guard_def Let_def split: if_splits)
    then show ?thesis using m frame by simp
  next
    case (Inr j)
    from m have b: "\<not> node_blocked s node" and f: "aj_id j \<notin> aj_id ` set (d_jobs s)" and n: "aj_server j = node"
      and s': "s' = s\<lparr>d_seq := Suc (d_seq s), d_jobs := d_jobs s @ [j]\<rparr>"
      by (auto simp: Inr CreateConfigApplyJob_def effect_defs fresh_uuid_def transfer_node_guard_def Let_def node_blocked_def)
    have out: "n' \<noteq> node" if "(n', i) \<in> set (d_reservations s)" for n' i
      using b that a by (force simp: node_blocked_def)
    have w: "same_world s s'"
      by (simp add: s' same_world_def server_keys_def account_keys_def keeps_versions_def find_version_def)
    have "good s' t" if "good s t" for t
    proof -
      have "node \<notin> {tr_source t, tr_target t}" using that out by (auto simp: good_def reserved_def)
      moreover have "d_jobs s' = d_jobs s @ [j]" by (simp add: s')
      ultimately have "settled s' t" using that n settled_add [of s t j s'] by (simp add: good_def)
      with that same_world_placed [OF w] show ?thesis by (simp add: good_def reserved_def s')
    qed
    moreover have "well_kept s'" using I f by (simp add: transfer_inv_def well_kept_def s')
    ultimately show ?thesis using I m by (simp add: transfer_inv_def s')
  qed
qed

lemma queue_version_stable: "keeps stable (queue_version E node v comment redeploy)"
  unfolding queue_version_def
  by (intro st.keeps_rules CreateConfigApplyJob_stable keeps_stable [OF safe_keeps] keeps_stable [OF info_keeps])

lemma Apply_stable: "keeps stable (Apply E node vid comment)"
  unfolding Apply_def GetConfigVersion_def by (intro st.keeps_rules queue_version_stable)

lemma Reapply_stable: "keeps stable (Reapply E node vid comment)"
  unfolding Reapply_def GetConfigVersion_def by (intro st.keeps_rules queue_version_stable)

end
