(* ===== verification/Transfer_Jobs.thy ===== *)
theory Transfer_Jobs
  imports Transfer_Inv
begin

text \<open>
  Jobs and versions during transfers: an Agent's report, the pruning of history and the deletion of versions leave
  the proofs of unfinished transfers alone.  \<open>jobs_frame N\<close> is their frame; only the active version of node \<open>N\<close> may
  change.
\<close>

definition keeps_used_versions :: "cfg_db \<Rightarrow> cfg_db \<Rightarrow> bool" where
  "keeps_used_versions s s' \<longleftrightarrow>
     (\<forall>n i v. find_version n i s = Some v \<longrightarrow> version_in_use s i
        \<longrightarrow> (\<exists>v'. find_version n i s' = Some v' \<and> (ver_settings v \<noteq> None \<longrightarrow> ver_settings v' = ver_settings v)))"

definition jobs_shrink :: "cfg_db \<Rightarrow> cfg_db \<Rightarrow> bool" where
  "jobs_shrink s s' \<longleftrightarrow>
     (\<forall>j' \<in> set (d_jobs s'). open_job j'
        \<longrightarrow> (\<exists>j \<in> set (d_jobs s). open_job j \<and> aj_id j = aj_id j' \<and> aj_server j = aj_server j'))"

definition jobs_frame :: "string option \<Rightarrow> cfg_db \<Rightarrow> cfg_db \<Rightarrow> bool" where
  "jobs_frame N s s' \<longleftrightarrow>
     (well_kept s \<longrightarrow>
        well_kept s' \<and> d_auth s' = d_auth s \<and> filter open_transfer (d_transfers s') = filter open_transfer (d_transfers s)
        \<and> d_reservations s' = d_reservations s \<and> account_keys s' = account_keys s
        \<and> (\<forall>n. Some n \<noteq> N \<longrightarrow> map_of (server_keys s') n = map_of (server_keys s) n)
        \<and> keeps_used_versions s s' \<and> jobs_shrink s s')"

lemma version_in_use_open:
  "version_in_use db i \<longleftrightarrow>
     (\<exists>t \<in> set (filter open_transfer (d_transfers db)). tr_source_version t = i \<or> tr_target_version t = Some i \<or> tr_cleanup_version t = Some i)"
  by (auto simp: version_in_use_def)

lemma jobs_frame_trans:
  assumes "jobs_frame N s t" "jobs_frame N t u"
  shows "jobs_frame N s u"
proof -
  have "keeps_used_versions s u"
    if "keeps_used_versions s t" "keeps_used_versions t u" "filter open_transfer (d_transfers t) = filter open_transfer (d_transfers s)"
    using that unfolding keeps_used_versions_def version_in_use_open by metis
  moreover have "jobs_shrink s u" if "jobs_shrink s t" "jobs_shrink t u"
    using that unfolding jobs_shrink_def by metis
  ultimately show ?thesis using assms by (simp add: jobs_frame_def)
qed

lemma jobs_frame_refl: "jobs_frame N s s"
  by (auto simp: jobs_frame_def keeps_used_versions_def jobs_shrink_def)

interpretation jf: frame "jobs_frame N" for N
  by unfold_locales (rule jobs_frame_refl, rule jobs_frame_trans)

lemma quiet_shrink: "jobs_shrink s s' \<Longrightarrow> quiet s n \<Longrightarrow> quiet s' n"
  unfolding jobs_shrink_def quiet_def by metis

lemma settled_shrink:
  assumes "jobs_shrink s s'" "settled s t"
  shows "settled s' t"
proof -
  have "tr_target_job t = Some (aj_id j')"
    if "tr_state t = Target_applying" "j' \<in> set (d_jobs s')" "open_job j'" "aj_server j' = tr_target t" for j'
    using that assms unfolding jobs_shrink_def settled_def by metis
  with assms(2) quiet_shrink [OF assms(1)] show ?thesis by (simp add: settled_def)
qed

lemma jobs_frame_inv:
  assumes "jobs_frame N s s'" "transfer_inv s" "\<And>t. t \<in> set (d_transfers s) \<Longrightarrow> open_transfer t \<Longrightarrow> N \<noteq> Some (home t)"
  shows "transfer_inv s'"
proof -
  have f: "well_kept s'" "filter open_transfer (d_transfers s') = filter open_transfer (d_transfers s)"
    "d_reservations s' = d_reservations s" "account_keys s' = account_keys s"
    "\<And>n. Some n \<noteq> N \<Longrightarrow> map_of (server_keys s') n = map_of (server_keys s) n" "keeps_used_versions s s'" "jobs_shrink s s'"
    using assms(1,2) by (simp_all add: jobs_frame_def transfer_inv_def)
  have "good s' t" if t: "t \<in> set (filter open_transfer (d_transfers s))" "good s t" for t
  proof -
    have "serves s' (tr_account t) (home t) vid" if "home_version t = Some vid" "serves s (tr_account t) (home t) vid" for vid
    proof (rule serves_keeps [OF that(2)])
      show "map_of (server_keys s') (home t) = map_of (server_keys s) (home t)"
        using f(5) [of "home t"] assms(3) [of t] t(1) by auto
      have "version_in_use s vid" using that(1) t(1) unfolding version_in_use_open home_version_def by (auto split: if_splits)
      then show "\<exists>v'. find_version (home t) vid s' = Some v' \<and> ver_settings v' = ver_settings v"
        if "find_version (home t) vid s = Some v" "ver_settings v \<noteq> None" for v
        using that f(6) unfolding keeps_used_versions_def by metis
    qed
    then have "placed s' t" using t(2) f(4) by (auto simp: good_def placed_def)
    moreover have "settled s' t" using t(2) settled_shrink [OF f(7)] by (simp add: good_def)
    ultimately show ?thesis using t(2) f(3) by (simp add: good_def reserved_def)
  qed
  with f(1,2) assms(2) show ?thesis by (simp add: transfer_inv_def)
qed

lemma well_kept_step:
  assumes "well_kept s" "filter open_transfer (d_transfers s') = filter open_transfer (d_transfers s)"
    and "distinct (map tr_id (d_transfers s'))" "distinct (map aj_id (d_jobs s'))" "d_reservations s' = d_reservations s"
  shows "well_kept s'"
  using assms by (simp add: well_kept_def)

lemma same_config_jobs: "same_config s s' \<Longrightarrow> jobs_frame N s s'"
  unfolding same_config_def jobs_frame_def keeps_used_versions_def keeps_versions_def jobs_shrink_def
  by (auto simp: well_kept_def)

lemma keeps_jobs: "keeps same_config m \<Longrightarrow> keeps (jobs_frame N) m"
  using same_config_jobs by (auto simp: keeps_def)

section \<open>Deletions\<close>

lemma delete_jobs_keeps: "keeps (jobs_frame N) (delete_jobs P)"
  unfolding keeps_def
proof
  fix s
  define gone where "gone = aj_id ` set (select (P s) (d_jobs s))"
  define f where "f = (\<lambda>t :: Transfer. t\<lparr>tr_target_job := forget_job gone (tr_target_job t), tr_cleanup_job := forget_job gone (tr_cleanup_job t)\<rparr>)"
  define s' where "s' = s\<lparr>d_jobs := select (\<lambda>j. \<not> P s j) (d_jobs s), d_transfers := map f (d_transfers s)\<rparr>"
  show "jobs_frame N s (snd (delete_jobs P s))"
  proof (cases "\<exists>j \<in> set (d_jobs s). P s j \<and> job_in_use s (aj_id j)")
    case True
    then have "snd (delete_jobs P s) = s" by (auto simp: delete_jobs_def effect_run)
    then show ?thesis by (simp add: jf.frame_refl)
  next
    case False
    then have e: "snd (delete_jobs P s) = s'" unfolding delete_jobs_def s'_def f_def gone_def by (simp add: effect_run Let_def)
    have unused: "\<not> job_in_use s i" if "i \<in> gone" for i
      using that False by (auto simp: gone_def select_def)
    have keep: "f t = t" if "t \<in> set (d_transfers s)" "open_transfer t" for t
    proof -
      have "i \<notin> gone" if "tr_target_job t = Some i \<or> tr_cleanup_job t = Some i" for i
        using unused [of i] that \<open>t \<in> set (d_transfers s)\<close> \<open>open_transfer t\<close> by (auto simp: job_in_use_def)
      then show ?thesis by (simp add: f_def forget_job_def split: option.splits)
    qed
    have open_f: "open_transfer (f t) = open_transfer t" "tr_id (f t) = tr_id t" for t by (simp_all add: f_def open_transfer_def)
    have same: "filter open_transfer (map f ts) = filter open_transfer ts" if "set ts \<subseteq> set (d_transfers s)" for ts
      using that keep open_f by (induction ts) auto
    have ids: "map tr_id (d_transfers s') = map tr_id (d_transfers s)" using open_f by (simp add: s'_def)
    have "well_kept s'" if "well_kept s"
    proof (rule well_kept_step [OF that])
      show "filter open_transfer (d_transfers s') = filter open_transfer (d_transfers s)"
        using same [OF subset_refl] by (simp add: s'_def)
      show "distinct (map tr_id (d_transfers s'))" using that unfolding ids by (simp add: well_kept_def)
      show "distinct (map aj_id (d_jobs s'))" using that by (simp add: s'_def well_kept_def select_def distinct_map_filter)
    qed (simp add: s'_def)
    then show ?thesis
      using same [OF subset_refl]
      by (simp add: e jobs_frame_def s'_def keeps_used_versions_def jobs_shrink_def server_keys_def account_keys_def find_version_def select_def) blast
  qed
qed

text \<open>The rows that go with the versions \<open>gone\<close>: the transfers that refer to them and their reservations.\<close>

definition cascade :: "string set \<Rightarrow> cfg_db \<Rightarrow> cfg_db" where
  "cascade gone s =
     s\<lparr>d_versions := select (\<lambda>v. ver_id v \<notin> gone) (d_versions s),
       d_transfers := select (\<lambda>t. \<not> refers_version gone t) (d_transfers s),
       d_reservations := select (\<lambda>r. snd r \<notin> tr_id ` set (select (refers_version gone) (d_transfers s))) (d_reservations s)\<rparr>"

lemma delete_versions_state:
  assumes "\<not> (\<exists>v \<in> set (d_versions s). P s v \<and> version_in_use s (ver_id v))" "gone = ver_id ` set (select (P s) (d_versions s))"
    and "delete_jobs (\<lambda>_ j. aj_version j \<in> gone) s = (r, s1)"
  shows "snd (delete_versions P s) = (case r of Inl _ \<Rightarrow> s1 | Inr _ \<Rightarrow> cascade gone s1)"
  using assms unfolding delete_versions_def cascade_def by (cases r) (simp_all add: effect_run Let_def)

lemma cascade_transfers:
  assumes "\<forall>t \<in> set (filter open_transfer (d_transfers s)). \<not> refers_version gone t"
  shows "filter open_transfer (d_transfers (cascade gone s)) = filter open_transfer (d_transfers s)"
proof -
  have "filter open_transfer (filter (\<lambda>t. \<not> refers_version gone t) ts) = filter open_transfer ts"
    if "\<forall>t \<in> set (filter open_transfer ts). \<not> refers_version gone t" for ts using that by (induction ts) auto
  with assms show ?thesis by (simp add: cascade_def select_def)
qed

lemma cascade_reservations:
  assumes k: "well_kept s" and free: "\<forall>t \<in> set (filter open_transfer (d_transfers s)). \<not> refers_version gone t"
  shows "d_reservations (cascade gone s) = d_reservations s"
proof -
  have "snd r \<notin> tr_id ` set (select (refers_version gone) (d_transfers s))" if r: "r \<in> set (d_reservations s)" for r
  proof
    assume "snd r \<in> tr_id ` set (select (refers_version gone) (d_transfers s))"
    then obtain u where u: "u \<in> set (d_transfers s)" "refers_version gone u" "tr_id u = snd r" by (auto simp: select_def)
    from r k obtain t where t: "t \<in> set (filter open_transfer (d_transfers s))" "tr_id t = snd r"
      unfolding well_kept_def by (metis imageE)
    have "t = u" using k t u by (intro distinct_key_eq [of tr_id "d_transfers s"]) (simp_all add: well_kept_def)
    with free t(1) u(2) show False by simp
  qed
  then show ?thesis by (simp add: cascade_def select_def)
qed

lemma cascade_find:
  "i \<notin> gone \<Longrightarrow> find_version n i (cascade gone s) = find_version n i s"
proof -
  assume "i \<notin> gone"
  then have "find (\<lambda>v. ver_server v = n \<and> ver_id v = i) (filter (\<lambda>v. ver_id v \<notin> gone) vs)
      = find (\<lambda>v. ver_server v = n \<and> ver_id v = i) vs" for vs by (induction vs) auto
  then show ?thesis by (simp add: find_version_def cascade_def select_def)
qed

lemma cascade_frame:
  assumes f1: "jobs_frame N s s1" and unused: "\<And>i. i \<in> gone \<Longrightarrow> \<not> version_in_use s i"
  shows "jobs_frame N s (cascade gone s1)"
proof (cases "well_kept s")
  case True
  with f1 have k: "well_kept s1" "d_auth s1 = d_auth s" "filter open_transfer (d_transfers s1) = filter open_transfer (d_transfers s)"
    "d_reservations s1 = d_reservations s" "account_keys s1 = account_keys s"
    "\<And>n. Some n \<noteq> N \<Longrightarrow> map_of (server_keys s1) n = map_of (server_keys s) n" "keeps_used_versions s s1" "jobs_shrink s s1"
    by (simp_all add: jobs_frame_def)
  have free: "\<forall>t \<in> set (filter open_transfer (d_transfers s1)). \<not> refers_version gone t"
    using unused unfolding k(3) version_in_use_open refers_version_def by blast
  note open2 = cascade_transfers [OF free, unfolded k(3)] and res = cascade_reservations [OF k(1) free, unfolded k(4)]
  have "well_kept (cascade gone s1)"
  proof (rule well_kept_step [OF True open2 _ _ res])
    show "distinct (map tr_id (d_transfers (cascade gone s1)))"
      using k(1) by (simp add: cascade_def select_def well_kept_def distinct_map_filter)
    show "distinct (map aj_id (d_jobs (cascade gone s1)))" using k(1) by (simp add: cascade_def well_kept_def)
  qed
  moreover have "keeps_used_versions s (cascade gone s1)"
    using k(7) unused cascade_find [of _ gone _ s1] unfolding keeps_used_versions_def by metis
  moreover have "jobs_shrink s (cascade gone s1)" using k(8) by (simp add: jobs_shrink_def cascade_def)
  moreover have "account_keys (cascade gone s1) = account_keys s" "server_keys (cascade gone s1) = server_keys s1"
    "d_auth (cascade gone s1) = d_auth s"
    using k(2,5) by (simp_all add: cascade_def account_keys_def server_keys_def)
  ultimately show ?thesis using open2 res k(6) by (simp add: jobs_frame_def)
qed (simp add: jobs_frame_def)

lemma delete_versions_keeps: "keeps (jobs_frame N) (delete_versions P)"
  unfolding keeps_def
proof
  fix s
  define gone where "gone = ver_id ` set (select (P s) (d_versions s))"
  show "jobs_frame N s (snd (delete_versions P s))"
  proof (cases "\<exists>v \<in> set (d_versions s). P s v \<and> version_in_use s (ver_id v)")
    case True
    then have "snd (delete_versions P s) = s" by (auto simp: delete_versions_def effect_run)
    then show ?thesis by (simp add: jf.frame_refl)
  next
    case False
    obtain r s1 where d: "delete_jobs (\<lambda>_ j. aj_version j \<in> gone) s = (r, s1)" by (cases "delete_jobs (\<lambda>_ j. aj_version j \<in> gone) s")
    then have f1: "jobs_frame N s s1" using keepsD [OF delete_jobs_keeps] by blast
    have "\<not> version_in_use s i" if "i \<in> gone" for i using that False by (auto simp: gone_def select_def)
    from f1 cascade_frame [OF f1 this] delete_versions_state [where P = P, OF False gone_def d] show ?thesis
      by (simp split: sum.splits)
  qed
qed

lemma prune_config_versions_keeps: "keeps (jobs_frame N) (prune_config_versions node)"
  unfolding prune_config_versions_def by (intro jf.keeps_rules delete_versions_keeps)

lemma prune_config_apply_jobs_keeps: "keeps (jobs_frame N) (prune_config_apply_jobs node)"
  unfolding prune_config_apply_jobs_def by (rule delete_jobs_keeps)

lemma DeleteVersion_keeps: "keeps (jobs_frame N) (DeleteVersion node vid)"
  unfolding DeleteVersion_def GetConfigVersion_def GetCurrentConfigVersionID_def DeleteConfigVersion_def
  by (intro jf.keeps_rules delete_versions_keeps)

section \<open>Changing jobs\<close>

text \<open>A statement that changes only open jobs.\<close>

lemma job_update_frame:
  assumes "\<And>k. aj_id (f k) = aj_id k" "\<And>k. aj_server (f k) = aj_server k" "\<And>k. k \<in> set (d_jobs s) \<Longrightarrow> P k \<Longrightarrow> open_job k"
  shows "jobs_frame N s (s\<lparr>d_jobs := update_where P f (d_jobs s)\<rparr>)"
proof -
  let ?s = "s\<lparr>d_jobs := update_where P f (d_jobs s)\<rparr>"
  have "well_kept ?s" if "well_kept s"
    using that map_update_where [of aj_id f P "d_jobs s"] assms(1) by (simp add: well_kept_def)
  moreover have "jobs_shrink s ?s"
    unfolding jobs_shrink_def
  proof (intro ballI impI)
    fix j' assume j': "j' \<in> set (d_jobs ?s)" "open_job j'"
    then obtain k where k: "k \<in> set (d_jobs s)" "j' = (if P k then f k else k)" by (auto simp: update_where_def)
    then have "open_job k" using assms(3) j'(2) by (cases "P k") simp_all
    moreover have "aj_id k = aj_id j'" "aj_server k = aj_server j'" using k(2) assms(1,2) by simp_all
    ultimately show "\<exists>j \<in> set (d_jobs s). open_job j \<and> aj_id j = aj_id j' \<and> aj_server j = aj_server j'" using k(1) by blast
  qed
  ultimately show ?thesis
    by (auto simp: jobs_frame_def keeps_used_versions_def server_keys_def account_keys_def find_version_def)
qed

lemma set_active_keeps:
  assumes "\<And>s. srv_id (f s) = srv_id s"
  shows "keeps (jobs_frame (Some node)) (set_server node f)"
  unfolding set_server_def
proof (rule jf.keeps_change)
  fix s
  have "map_of (map (\<lambda>s. (srv_id s, srv_active s)) (update_where (\<lambda>s. srv_id s = node) f xs)) n
      = map_of (map (\<lambda>s. (srv_id s, srv_active s)) xs) n" if "n \<noteq> node" for n xs
    using that assms by (induction xs) (auto simp: update_where_def)
  then show "jobs_frame (Some node) s (s\<lparr>d_servers := update_where (\<lambda>s. srv_id s = node) f (d_servers s)\<rparr>)"
    by (auto simp: jobs_frame_def keeps_used_versions_def server_keys_def account_keys_def find_version_def jobs_shrink_def well_kept_def)
qed

lemma mark_applied_keeps: "keeps same_config (mark_config_version_applied E j)"
  unfolding mark_config_version_applied_def Let_def
proof (intro config_keeps cf.keeps_change)
  show "same_config s (mark_protocols node settings at1 at2 s)" for s node settings at1 at2
    by (simp add: mark_protocols_def Let_def same_config_def keeps_versions_def server_keys_def account_keys_def find_version_def)
qed simp_all

definition touched_node :: "ConfigApplyJob \<Rightarrow> string option" where
  "touched_node j = (if aj_status j = ''succeeded'' then Some (aj_server j) else None)"

lemma finalize_keeps: "keeps (jobs_frame (touched_node j)) (finalize_config_apply_lifecycle E j)"
  unfolding finalize_config_apply_lifecycle_def Let_def
proof (intro jf.keeps_rules prune_config_apply_jobs_keeps prune_config_versions_keeps keeps_jobs [OF update_versions_keeps])
  show "keeps (jobs_frame (touched_node j)) (set_server (aj_server j) (\<lambda>s. s\<lparr>srv_active := Some (aj_version j), srv_updated := ce_now E\<rparr>))"
    if "aj_status j = ''succeeded''" using that set_active_keeps by (simp add: touched_node_def)
qed simp_all

lemma finish_job_frame:
  assumes f: "\<And>k. aj_id (f k) = aj_id k" "\<And>k. aj_server (f k) = aj_server k"
    and old: "lookup_row aj_id jid (d_jobs s) = Some old" "open_job old" and w: "well_kept s"
  shows "jobs_frame (touched_node (f old)) s (snd (finish_job E jid f s))"
proof -
  let ?N = "touched_node (f old)" and ?s = "s\<lparr>d_jobs := update_where (\<lambda>k. aj_id k = jid) f (d_jobs s)\<rparr>"
  let ?m = "andThen (if aj_action (f old) = ''apply'' \<and> (aj_status (f old) = ''succeeded'' \<or> aj_status (f old) = ''failed'')
                   \<and> aj_status old \<noteq> aj_status (f old) then finalize_config_apply_lifecycle E (f old) else ok ())
       (\<lambda>_. if aj_action (f old) = ''apply'' \<and> aj_status (f old) = ''succeeded'' then mark_config_version_applied E (f old) else ok ())"
  have "k = old" if "k \<in> set (d_jobs s)" "aj_id k = jid" for k
    using w that lookup_row_Some [OF old(1)] distinct_key_eq [of aj_id "d_jobs s" k old] by (simp add: well_kept_def)
  then have "jobs_frame ?N s ?s" using f old(2) by (intro job_update_frame) auto
  moreover have "keeps (jobs_frame ?N) ?m"
    by (intro jf.keeps_rules finalize_keeps keeps_jobs [OF mark_applied_keeps])
  then have "jobs_frame ?N ?s (snd (?m ?s))" by (simp add: keeps_def)
  moreover have "finish_job E jid f s = ?m ?s" unfolding finish_job_def
    by (simp add: old(1) find_or_def look_def some_or_def ok_def change_def andThen_def [of "\<lambda>s. (Inr _, s)"] Let_def andThen_run)
  ultimately show ?thesis using jobs_frame_trans by metis
qed

section \<open>Requests of Agents and operators\<close>

lemma home_quiet: "good s t \<Longrightarrow> quiet s (home t)"
  by (auto simp: good_def in_course_def settled_def home_def)

lemma jobs_stable: "keeps (jobs_frame None) m \<Longrightarrow> keeps stable m"
  unfolding keeps_def stable_def by (metis jobs_frame_def jobs_frame_inv option.distinct(1) transfer_inv_def)

lemma DeleteVersion_stable: "keeps stable (DeleteVersion node vid)"
  by (rule jobs_stable) (rule DeleteVersion_keeps)

lemma DeleteTerminalConfigApplyJobs_stable: "keeps stable (DeleteTerminalConfigApplyJobs node)"
  unfolding DeleteTerminalConfigApplyJobs_def by (intro jobs_stable jf.keeps_rules delete_jobs_keeps)

lemma prune_each_keeps: "keeps (jobs_frame N) (prune_each nodes)"
  by (induction nodes) (simp_all add: jf.keeps_ok jf.keeps_andThen prune_config_apply_jobs_keeps)

lemma close_orphans_keeps: "keeps (jobs_frame N) (close_orphans E agent)"
  unfolding close_orphans_def Let_def
proof (intro jf.keeps_rules prune_each_keeps jf.keeps_change)
  show "jobs_frame N s (s\<lparr>d_jobs := update_where (\<lambda>j. orphaned E agent (aj_agent j) (aj_status j) (aj_started j))
      (\<lambda>j. j\<lparr>aj_status := ''failed'',
          aj_error := (if aj_error j = [] then ''Agent task completion was not confirmed before a later heartbeat.'' else aj_error j),
          aj_completed := Some (case aj_completed j of None \<Rightarrow> ce_now E | Some t \<Rightarrow> t), aj_updated := ce_now E\<rparr>) (d_jobs s)\<rparr>)" for s
    by (rule job_update_frame) (auto simp: orphaned_def open_job_def)
  show "jobs_frame N s (s\<lparr>d_operations := ops\<rparr>)" for s ops
    by (rule same_config_jobs) (simp add: same_config_def keeps_versions_def server_keys_def account_keys_def find_version_def)
qed

lemma UpdateAgentHeartbeat_stable: "keeps stable (UpdateAgentHeartbeat E agent token version caps)"
  unfolding UpdateAgentHeartbeat_def Let_def cast_uuid_def activate_server_def
proof (intro jobs_stable jf.keeps_rules close_orphans_keeps keeps_jobs [OF set_server_keeps] jf.keeps_change)
  show "jobs_frame None s (s\<lparr>d_agents := as\<rparr>)" for s as
    by (rule same_config_jobs) (simp add: same_config_def keeps_versions_def server_keys_def account_keys_def find_version_def)
qed simp_all

lemma ClaimNextConfigTask_stable: "keeps stable (ClaimNextConfigTask E token)"
  unfolding keeps_def stable_def
proof (intro allI impI; elim conjE)
  fix s assume I: "d_auth s = None" "transfer_inv s"
  obtain r s' where m: "ClaimNextConfigTask E token s = (r, s')" by (cases "ClaimNextConfigTask E token s")
  have "s' = s \<or> (\<exists>f j. (\<forall>k. aj_id (f k) = aj_id k \<and> aj_server (f k) = aj_server k) \<and> j \<in> set (d_jobs s) \<and> open_job j
      \<and> s' = s\<lparr>d_jobs := update_where (\<lambda>k. aj_id k = aj_id j) f (d_jobs s)\<rparr>)"
  proof (cases "lookup_row agt_token token (d_agents s)")
    case (Some ag)
    define j where "j = least_by aj_created (select (\<lambda>j. aj_server j = agt_server ag
            \<and> (aj_agent j = None \<or> aj_agent j = Some (agt_id ag)) \<and> aj_status j = ''pending'') (d_jobs s))"
    show ?thesis
    proof (cases j)
      case None
      with m Some show ?thesis by (simp add: ClaimNextConfigTask_def effect_run j_def)
    next
      case (Some k)
      then have "k \<in> set (d_jobs s)" "open_job k" using least_by_mem unfolding j_def select_def by (fastforce simp: open_job_def)+
      moreover have "s' = s \<or> s' = s\<lparr>d_jobs := update_where (\<lambda>i. aj_id i = aj_id k) (\<lambda>i. i\<lparr>aj_agent := Some (agt_id ag), aj_status := ''in_progress'',
               aj_started := Some (case aj_started i of None \<Rightarrow> ce_now E | Some t \<Rightarrow> t), aj_updated := ce_now E\<rparr>) (d_jobs s)\<rparr>"
        using m \<open>lookup_row _ _ _ = Some ag\<close> Some unfolding j_def
        by (auto simp: ClaimNextConfigTask_def effect_run Let_def split: if_splits)
      ultimately show ?thesis by (elim disjE) (auto intro!: exI [of _ k] exI [of _ "\<lambda>i. i\<lparr>aj_agent := Some (agt_id ag), aj_status := ''in_progress'',
               aj_started := Some (case aj_started i of None \<Rightarrow> ce_now E | Some t \<Rightarrow> t), aj_updated := ce_now E\<rparr>"])
    qed
  qed (use m in \<open>simp add: ClaimNextConfigTask_def effect_run\<close>)
  then have "jobs_frame None s s'"
  proof (elim disjE exE conjE)
    fix f j assume "\<forall>k. aj_id (f k) = aj_id k \<and> aj_server (f k) = aj_server k" "j \<in> set (d_jobs s)" "open_job j"
      "s' = s\<lparr>d_jobs := update_where (\<lambda>k. aj_id k = aj_id j) f (d_jobs s)\<rparr>"
    moreover have "k = j" if "k \<in> set (d_jobs s)" "aj_id k = aj_id j" for k
      using that calculation(2) I(2) distinct_key_eq [of aj_id "d_jobs s" k j] by (simp add: transfer_inv_def well_kept_def)
    ultimately show ?thesis using job_update_frame [of f s "\<lambda>k. aj_id k = aj_id j" None] by blast
  qed (simp add: jobs_frame_refl)
  with I m show "d_auth (snd (ClaimNextConfigTask E token s)) = None \<and> transfer_inv (snd (ClaimNextConfigTask E token s))"
    using jobs_frame_inv [of None s s'] by (simp add: jobs_frame_def transfer_inv_def)
qed

lemma CompleteConfigTask_stable: "keeps stable (CompleteConfigTask E token jid status result message)"
  unfolding keeps_def stable_def
proof (intro allI impI; elim conjE)
  fix s assume I: "d_auth s = None" "transfer_inv s"
  define f where "f = (\<lambda>k :: ConfigApplyJob. k\<lparr>aj_status := status, aj_result := result, aj_error := TrimSpace message,
       aj_completed := Some (ce_now E), aj_updated := ce_now E\<rparr>)"
  define row where "row = find (\<lambda>j. aj_id j = jid \<and> aj_status j = ''in_progress''
          \<and> (\<exists>a \<in> set (d_agents s). agt_token a = token \<and> aj_agent j = Some (agt_id a))) (d_jobs s)"
  let ?r = "CompleteConfigTask E token jid status result message s"
  show "d_auth (snd ?r) = None \<and> transfer_inv (snd ?r)"
  proof (cases row)
    case None
    with I show ?thesis by (simp add: CompleteConfigTask_def effect_run row_def)
  next
    case (Some j)
    then have j: "j \<in> set (d_jobs s)" "open_job j" unfolding row_def by (auto dest!: find_SomeD simp: open_job_def)
    have w: "well_kept s" using I(2) by (simp add: transfer_inv_def)
    have l: "lookup_row aj_id (aj_id j) (d_jobs s) = Some j"
      using w j(1) by (intro lookup_row_unique) (simp_all add: well_kept_def)
    have e: "?r = finish_job E (aj_id j) f s"
      using Some unfolding CompleteConfigTask_def row_def f_def by (simp add: find_or_def andThen_def look_def some_or_def ok_def)
    have fr: "jobs_frame (touched_node (f j)) s (snd ?r)"
      unfolding e by (rule finish_job_frame [OF _ _ l j(2) w]) (simp_all add: f_def)
    have "touched_node (f j) \<noteq> Some (home t)" if "t \<in> set (d_transfers s)" "open_transfer t" for t
    proof -
      have "quiet s (home t)" using I(2) that home_quiet by (simp add: transfer_inv_def)
      then have "aj_server j \<noteq> home t" using j by (auto simp: quiet_def)
      then show ?thesis by (simp add: touched_node_def f_def)
    qed
    then have "transfer_inv (snd ?r)" using jobs_frame_inv [OF fr I(2)] by blast
    with fr I w show ?thesis by (simp add: jobs_frame_def)
  qed
qed

end
