(* ===== verification/Transfer_Rows.thy ===== *)
theory Transfer_Rows
  imports Transfer_Jobs
begin

text \<open>
  What successful checks and steps of a transfer establish, and how a change of one transfer leaves the others alone.
\<close>

section \<open>What successful checks say\<close>

lemma membership_present:
  assumes "membership n version acct True s = (Inr y, s')"
  obtains vid where "version = Some vid" "serves s acct n vid" "s' = s"
proof -
  from assms obtain vid srv v st m where "version = Some vid" "lookup_row srv_id n (d_servers s) = Some srv"
    "find_version n vid s = Some v" "srv_active srv = Some vid" "ver_settings v = Some st" "cl_accounts st = Some m"
    "deployed_vless st m acct" "s' = s"
    by (auto simp: membership_def effect_defs)
  then show thesis by (intro that [of vid]) (auto simp: serves_def server_keys_def map_of_lookup)
qed

lemma appliedProof_done:
  assumes "appliedProof E n version job s = (Inr y, s')"
  obtains vid jid j where "version = Some vid" "job = Some jid" "j \<in> set (d_jobs s)" "aj_id j = jid" "\<not> open_job j" "s' = s"
proof -
  from assms obtain vid jid p where "version = Some vid" "job = Some jid" "proof_row E n vid jid s = Some p"
    "\<not> open_job (fst p)" "s' = s"
    by (auto simp: appliedProof_def effect_defs split_beta)
  moreover from this obtain j where "j \<in> set (d_jobs s)" "aj_id j = jid" "fst p = j"
    by (auto simp: proof_row_def Let_def split: option.splits if_splits dest!: find_SomeD)
  ultimately show thesis by (intro that) auto
qed

lemma update_transfer_run:
  assumes "update_transfer i f s = (Inr y, s')"
  shows "s' = s\<lparr>d_transfers := update_where (\<lambda>t. tr_id t = i) f (d_transfers s)\<rparr>"
  using assms by (auto simp: update_transfer_def effect_defs)

lemma CreateConfigApplyJob_run:
  assumes "CreateConfigApplyJob E node agent v comment redeploy s = (Inr j, s')"
  shows "aj_server j = node" "open_job j" "aj_id j \<notin> aj_id ` set (d_jobs s)" "aj_version j = ver_id v"
    "s' = s\<lparr>d_seq := Suc (d_seq s), d_jobs := d_jobs s @ [j]\<rparr>"
  using assms by (auto simp: CreateConfigApplyJob_def effect_defs fresh_uuid_def transfer_node_guard_def Let_def open_job_def)

lemma Apply_run:
  assumes "Apply E node vid comment s = (Inr j, s')"
  obtains s1 where "same_config s s1" "aj_server j = node" "open_job j" "aj_id j \<notin> aj_id ` set (d_jobs s1)"
    "s' = s1\<lparr>d_seq := Suc (d_seq s1), d_jobs := d_jobs s1 @ [j]\<rparr>"
proof -
  from assms obtain v x sa info sb and ag :: AgentConfigInfo where "ensureConfigVersionSafeForApply E v s = (Inr x, sa)"
    "GetServerConfigInfo E node sa = (Inr info, sb)"
    and c: "CreateConfigApplyJob E node (ag_id ag) v (TrimSpace comment) False sb = (Inr j, s')"
    by (auto simp: Apply_def queue_version_def GetConfigVersion_def effect_defs)
  then have "same_config s sb" using keepsD [OF safe_keeps] keepsD [OF info_keeps] cf.frame_trans by metis
  with CreateConfigApplyJob_run [OF c] show thesis by (intro that)
qed

definition queue_row :: "cfg_env \<Rightarrow> bool \<Rightarrow> string \<Rightarrow> string \<Rightarrow> Transfer \<Rightarrow> Transfer" where
  "queue_row E cleanup vid jid t =
     (if cleanup
      then t\<lparr>tr_cleanup_version := Some vid, tr_cleanup_job := Some jid, tr_updated := ce_now E, tr_last_error := []\<rparr>
      else t\<lparr>tr_target_version := Some vid, tr_target_job := Some jid, tr_state := Target_applying, tr_updated := ce_now E,
             tr_last_error := []\<rparr>)"

lemma queue_run:
  assumes "queue E tr node cleanup s = (Inr tr', s')"
  obtains j vid where "aj_server j = node" "open_job j" "aj_id j \<notin> aj_id ` set (d_jobs s)"
    "d_jobs s' = d_jobs s @ [j]" "tr' = queue_row E cleanup vid (aj_id j) tr"
    "d_transfers s' = update_where (\<lambda>t. tr_id t = tr_id tr) (queue_row E cleanup vid (aj_id j)) (d_transfers s)"
    "d_reservations s' = d_reservations s" "same_world s s'"
proof -
  let ?f = "\<lambda>v j t. if cleanup
                    then t\<lparr>tr_cleanup_version := Some (ver_id v), tr_cleanup_job := Some (aj_id j),
                           tr_updated := ce_now E, tr_last_error := []\<rparr>
                    else t\<lparr>tr_target_version := Some (ver_id v), tr_target_job := Some (aj_id j),
                           tr_state := Target_applying, tr_updated := ce_now E, tr_last_error := []\<rparr>"
  from assms obtain p s1 v s2 x s3 j s4 where
    r: "(if cleanup then RenderTransferCleanup E node (tr_id tr) else Render E node) s = (Inr p, s1)"
    and v: "Validate E node (ver_id (fst p)) s1 = (Inr v, s2)"
    and u: "update_versions (\<lambda>w. ver_id w = ver_id v) (\<lambda>v. v\<lparr>ver_pinned := True\<rparr>) s2 = (Inr x, s3)"
    and a: "Apply E node (ver_id v) (''RG-140 transfer '' @ tr_id tr) s3 = (Inr j, s4)"
    and t: "update_transfer (tr_id tr) (?f v j) s4 = (Inr (), s')"
    and tr': "tr' = ?f v j tr"
    by (auto simp: queue_def effect_defs Let_def split_beta)
  have c1: "same_config s s1"
    using r keepsD [OF Render_keeps] keepsD [OF RenderTransferCleanup_keeps] by (simp split: if_splits)
  have "keeps same_config (update_versions (\<lambda>w. ver_id w = ver_id v) (\<lambda>v. v\<lparr>ver_pinned := True\<rparr>))"
    by (rule update_versions_keeps) simp_all
  then have c3: "same_config s s3" using c1 keepsD [OF Validate_keeps v] u keepsD cf.frame_trans by metis
  obtain s5 where s5: "same_config s3 s5" "aj_server j = node" "open_job j" "aj_id j \<notin> aj_id ` set (d_jobs s5)"
    "s4 = s5\<lparr>d_seq := Suc (d_seq s5), d_jobs := d_jobs s5 @ [j]\<rparr>" by (rule Apply_run [OF a])
  have c: "same_config s s5" using c3 s5(1) cf.frame_trans by blast
  have s': "s' = s4\<lparr>d_transfers := update_where (\<lambda>t. tr_id t = tr_id tr) (?f v j) (d_transfers s4)\<rparr>"
    by (rule update_transfer_run [OF t])
  have w: "same_world s5 s'"
    by (simp add: s' s5(5) same_world_def server_keys_def account_keys_def keeps_versions_def find_version_def)
  have f: "?f v j = queue_row E cleanup (ver_id v) (aj_id j)" by (rule ext) (simp add: queue_row_def)
  show thesis
  proof (rule that [of j "ver_id v"])
    show "same_world s s'" using same_config_world [OF c] w same_world_trans by blast
  qed (use s5 c f tr' in \<open>simp_all add: s' s5(5) same_config_def fun_eq_iff\<close>)
qed

section \<open>One transfer changes, the others do not\<close>

definition act_frame :: "Transfer \<Rightarrow> cfg_db \<Rightarrow> cfg_db \<Rightarrow> bool" where
  "act_frame t s s' \<longleftrightarrow>
     server_keys s' = server_keys s \<and> keeps_used_versions s s'
     \<and> (\<forall>a. a \<noteq> tr_account t \<longrightarrow> map_of (account_keys s') a = map_of (account_keys s) a)
     \<and> distinct (map aj_id (d_jobs s'))
     \<and> (\<forall>j' \<in> set (d_jobs s'). open_job j' \<longrightarrow> aj_server j' \<in> {tr_source t, tr_target t}
          \<or> (\<exists>j \<in> set (d_jobs s). open_job j \<and> aj_id j = aj_id j' \<and> aj_server j = aj_server j'))"

lemma used_serves:
  assumes "keeps_used_versions s s'" "server_keys s' = server_keys s" "u \<in> set (d_transfers s)" "open_transfer u"
    and "serves s acct n vid" "tr_source_version u = vid \<or> tr_target_version u = Some vid"
  shows "serves s' acct n vid"
proof (rule serves_keeps [OF assms(5)])
  have "version_in_use s vid" using assms(3,4,6) by (auto simp: version_in_use_def)
  then show "\<exists>v'. find_version n vid s' = Some v' \<and> ver_settings v' = ver_settings v"
    if "find_version n vid s = Some v" "ver_settings v \<noteq> None" for v
    using that assms(1) unfolding keeps_used_versions_def by metis
qed (simp add: assms(2))

lemma others_good:
  assumes I: "transfer_inv s" and t: "t \<in> set (d_transfers s)" "open_transfer t" and f: "act_frame t s s'"
    and u: "u \<in> set (d_transfers s)" "open_transfer u" "tr_id u \<noteq> tr_id t"
    and r: "\<And>r. r \<in> set (d_reservations s) \<Longrightarrow> snd r \<noteq> tr_id t \<Longrightarrow> r \<in> set (d_reservations s')"
  shows "good s' u"
proof -
  have w: "well_kept s" and g: "good s t" "good s u" using I t u by (simp_all add: transfer_inv_def)
  have acct: "tr_account u \<noteq> tr_account t"
    using w t u distinct_key_eq [of tr_account "filter open_transfer (d_transfers s)" u t] by (auto simp: well_kept_def)
  have out: "n \<notin> {tr_source t, tr_target t}" if "n \<in> {tr_source u, tr_target u}" for n
    using nodes_disjoint [OF w _ _ u(3) that] g by (simp add: good_def)
  have "serves s' (tr_account u) (home u) vid" if "home_version u = Some vid" "serves s (tr_account u) (home u) vid" for vid
    using that f u(1,2) by (intro used_serves [of s s' u]) (auto simp: act_frame_def home_version_def split: if_splits)
  then have "placed s' u" using g(2) f acct by (auto simp: good_def placed_def act_frame_def)
  moreover have j: "\<exists>j \<in> set (d_jobs s). open_job j \<and> aj_id j = aj_id j' \<and> aj_server j = aj_server j'"
    if "j' \<in> set (d_jobs s')" "open_job j'" "aj_server j' \<in> {tr_source u, tr_target u}" for j'
    using f that out unfolding act_frame_def by blast
  have "quiet s' n" if "quiet s n" "n \<in> {tr_source u, tr_target u}" for n
    using that j unfolding quiet_def by metis
  moreover have "tr_target_job u = Some (aj_id j')"
    if "tr_state u = Target_applying" "j' \<in> set (d_jobs s')" "open_job j'" "aj_server j' = tr_target u" for j'
    using j [of j'] that g(2) by (force simp: good_def settled_def)
  ultimately show ?thesis using g(2) r u(3) by (simp add: good_def settled_def reserved_def)
qed

lemma open_update_same:
  assumes "\<And>u. u \<in> set ts \<Longrightarrow> P u \<Longrightarrow> open_transfer (f u) = open_transfer u \<and> k (f u) = k u"
  shows "map k (filter open_transfer (update_where P f ts)) = map k (filter open_transfer ts)"
  using assms by (induction ts) (auto simp: update_where_def)

lemma open_update_closed:
  assumes "\<And>u. u \<in> set ts \<Longrightarrow> P u \<Longrightarrow> \<not> open_transfer (f u)"
  shows "filter open_transfer (update_where P f ts) = filter (\<lambda>u. open_transfer u \<and> \<not> P u) ts"
  using assms by (induction ts) (auto simp: update_where_def)

lemma inv_row:
  assumes I: "transfer_inv s" and t: "t \<in> set (d_transfers s)" "open_transfer t" and fr: "act_frame t s s'"
    and ts: "d_transfers s' = update_where (\<lambda>u. tr_id u = tr_id t) f (d_transfers s)"
    and f: "\<And>u. tr_id (f u) = tr_id u" "tr_account (f t) = tr_account t"
    and row: "open_transfer (f t) \<and> d_reservations s' = d_reservations s \<and> good s' (f t)
       \<or> \<not> open_transfer (f t) \<and> d_reservations s' = select (\<lambda>r. snd r \<noteq> tr_id t) (d_reservations s)"
  shows "transfer_inv s'"
proof -
  have w: "well_kept s" using I by (simp add: transfer_inv_def)
  have only: "u = t" if "u \<in> set (d_transfers s)" "tr_id u = tr_id t" for u
    using w t that distinct_key_eq [of tr_id "d_transfers s" u t] by (simp add: well_kept_def)
  have ids: "map tr_id (d_transfers s') = map tr_id (d_transfers s)" unfolding ts by (rule map_update_where) (rule f)
  have jobs: "distinct (map aj_id (d_jobs s'))" using fr by (simp add: act_frame_def)
  have rest: "good s' u" if "u \<in> set (d_transfers s)" "open_transfer u" "tr_id u \<noteq> tr_id t" for u
    by (rule others_good [OF I t fr that]) (use row in \<open>auto simp: select_def\<close>)
  from row show ?thesis
  proof (elim disjE conjE)
    assume o: "open_transfer (f t)" "d_reservations s' = d_reservations s" "good s' (f t)"
    have same: "map k (filter open_transfer (d_transfers s')) = map k (filter open_transfer (d_transfers s))"
      if "k (f t) = k t" for k :: "Transfer \<Rightarrow> string"
      unfolding ts by (rule open_update_same) (use only that o(1) t(2) in auto)
    have "tr_id ` set (filter open_transfer (d_transfers s')) = tr_id ` set (filter open_transfer (d_transfers s))"
      using arg_cong [OF same [of tr_id, OF f(1)], of set] by simp
    then have "well_kept s'" using w jobs o(2) ids same [of tr_account, OF f(2)] unfolding well_kept_def by metis
    moreover have "good s' v" if "v \<in> set (filter open_transfer (d_transfers s'))" for v
      using that rest only o(3) unfolding ts by (auto simp: set_update_where)
    ultimately show ?thesis by (simp add: transfer_inv_def)
  next
    assume c: "\<not> open_transfer (f t)" "d_reservations s' = select (\<lambda>r. snd r \<noteq> tr_id t) (d_reservations s)"
    have op: "filter open_transfer (d_transfers s') = filter (\<lambda>u. open_transfer u \<and> tr_id u \<noteq> tr_id t) (d_transfers s)"
      unfolding ts by (rule open_update_closed) (use only c(1) in auto)
    have acc: "distinct (map tr_account (filter open_transfer (d_transfers s')))"
    proof -
      have "filter open_transfer (d_transfers s') = filter (\<lambda>u. tr_id u \<noteq> tr_id t) (filter open_transfer (d_transfers s))"
        by (simp add: op conj_commute)
      then show ?thesis using w by (simp only: well_kept_def distinct_map_filter)
    qed
    have "snd r \<in> tr_id ` set (filter open_transfer (d_transfers s'))" if "r \<in> set (d_reservations s')" for r
    proof -
      from that have "r \<in> set (d_reservations s)" "snd r \<noteq> tr_id t" by (simp_all add: c(2) select_def)
      with w obtain u where "u \<in> set (filter open_transfer (d_transfers s))" "tr_id u = snd r" unfolding well_kept_def by (metis imageE)
      with \<open>snd r \<noteq> tr_id t\<close> show ?thesis by (auto simp: op intro!: image_eqI [of _ _ u])
    qed
    then have "well_kept s'" using w jobs ids acc by (simp add: well_kept_def c(2) select_def distinct_map_filter)
    moreover have "good s' v" if "v \<in> set (filter open_transfer (d_transfers s'))" for v
      using that rest by (simp add: op)
    ultimately show ?thesis by (simp add: transfer_inv_def)
  qed
qed

end
