(* ===== verification/Transfer_Safety.thy ===== *)
theory Transfer_Safety
  imports Transfer_Rows
begin

text \<open>
  The steps of transfers keep the invariant, and the theorem of continuity over all interleavings.
\<close>

section \<open>Steps keep the invariant\<close>

lemmas good_defs = good_def in_course_def reserved_def placed_def settled_def serves_def quiet_def home_def home_version_def
  server_keys_def account_keys_def find_version_def

lemma good_elsewhere [simp]:
  "good (s\<lparr>d_transfers := x\<rparr>) t = good s t" "good (s\<lparr>d_auth := a\<rparr>) t = good s t"
  by (simp_all add: good_defs)

lemma transfer_inv_auth [simp]: "transfer_inv (s\<lparr>d_auth := a\<rparr>) = transfer_inv s"
  by (simp add: transfer_inv_def well_kept_def)

definition act_ok :: "Transfer \<Rightarrow> cfg_db \<Rightarrow> cfg_db \<Rightarrow> transfer_state \<Rightarrow> bool" where
  "act_ok t s s1 st \<longleftrightarrow>
     (\<exists>f. act_frame t s s1 \<and> d_transfers s1 = update_where (\<lambda>u. tr_id u = tr_id t) f (d_transfers s)
        \<and> (\<forall>u. tr_id (f u) = tr_id u) \<and> tr_account (f t) = tr_account t
        \<and> (tr_completed (f t) = None \<and> d_reservations s1 = d_reservations s \<and> good s1 ((f t)\<lparr>tr_state := st\<rparr>)
           \<or> tr_completed (f t) \<noteq> None \<and> d_reservations s1 = select (\<lambda>r. snd r \<noteq> tr_id t) (d_reservations s)))"

lemma update_where_twice:
  assumes "\<And>x. P (f x) = P x"
  shows "update_where P g (update_where P f xs) = update_where P (g \<circ> f) xs"
  using assms by (simp add: update_where_def)

lemma record_inv:
  assumes I: "transfer_inv s" and t: "t \<in> set (d_transfers s)" "open_transfer t" and a: "act_ok t s s1 st"
    and r: "record_step E (tr_id t) st e actor s1 = (Inr x, s2)"
  shows "transfer_inv s2"
proof -
  define g where "g = (\<lambda>t :: Transfer. t\<lparr>tr_state := st, tr_last_error := (case e of None \<Rightarrow> [] | Some f \<Rightarrow> error_code f),
        tr_last_action_by := actor, tr_updated := ce_now E\<rparr>)"
  obtain f where f: "act_frame t s s1" "d_transfers s1 = update_where (\<lambda>u. tr_id u = tr_id t) f (d_transfers s)"
    "\<And>u. tr_id (f u) = tr_id u" "tr_account (f t) = tr_account t"
    "tr_completed (f t) = None \<and> d_reservations s1 = d_reservations s \<and> good s1 ((f t)\<lparr>tr_state := st\<rparr>)
           \<or> tr_completed (f t) \<noteq> None \<and> d_reservations s1 = select (\<lambda>r. snd r \<noteq> tr_id t) (d_reservations s)"
    using a unfolding act_ok_def by blast
  have s2: "s2 = s1\<lparr>d_transfers := update_where (\<lambda>t'. tr_id t' = tr_id t) g (d_transfers s1)\<rparr>"
    using r unfolding record_step_def g_def by (auto simp: effect_defs dest!: update_transfer_run)
  show ?thesis
  proof (rule inv_row [OF I t, where f = "g \<circ> f"])
    show "act_frame t s s2"
      using f(1) by (simp add: s2 act_frame_def server_keys_def account_keys_def keeps_used_versions_def find_version_def)
    show "d_transfers s2 = update_where (\<lambda>u. tr_id u = tr_id t) (g \<circ> f) (d_transfers s)"
      by (simp add: s2 f(2,3) update_where_twice)
    have "good s1 (g u) = good s1 (u\<lparr>tr_state := st\<rparr>)" for u by (simp add: g_def good_defs)
    then show "open_transfer ((g \<circ> f) t) \<and> d_reservations s2 = d_reservations s \<and> good s2 ((g \<circ> f) t)
       \<or> \<not> open_transfer ((g \<circ> f) t) \<and> d_reservations s2 = select (\<lambda>r. snd r \<noteq> tr_id t) (d_reservations s)"
      using f(5) by (simp add: s2) (simp add: g_def open_transfer_def)
  qed (simp_all add: g_def f(3,4))
qed

lemma act_frame_refl: "well_kept s \<Longrightarrow> act_frame t s s"
  by (auto simp: act_frame_def keeps_used_versions_def well_kept_def)

lemma act_ok_stay:
  assumes "well_kept s" "open_transfer t" "good s (t\<lparr>tr_state := st\<rparr>)"
  shows "act_ok t s s st"
  unfolding act_ok_def
  by (intro exI [of _ "\<lambda>u. u"]) (use assms act_frame_refl in \<open>auto simp: update_where_def open_transfer_def\<close>)

lemma act_ok_same:
  assumes "well_kept s" "open_transfer t" "good s t"
  shows "act_ok t s s (tr_state t)"
proof -
  have "t\<lparr>tr_state := tr_state t\<rparr> = t" by (cases t) simp
  with act_ok_stay [OF assms(1,2), of "tr_state t"] assms(3) show ?thesis by simp
qed

lemma proof_quiet:
  assumes "appliedProof E n version job s = (Inr y, s')" "well_kept s" "job = tr_target_job t" "tr_state t = Target_applying"
    and "settled s t"
  shows "quiet s (tr_target t)"
  using assms(1)
proof (rule appliedProof_done)
  fix vid jid j assume j: "job = Some jid" "j \<in> set (d_jobs s)" "aj_id j = jid" "\<not> open_job j"
  have "k = j" if "k \<in> set (d_jobs s)" "aj_id k = jid" for k
    using that j assms(2) distinct_key_eq [of aj_id "d_jobs s" k j] by (simp add: well_kept_def)
  then show ?thesis using assms(3-5) j unfolding settled_def quiet_def by fastforce
qed

lemma act_verify_ok:
  assumes "act_verify E accountID t s = (Inr t', s1)" "well_kept s" "open_transfer t" "good s t"
  shows "act_ok t s s1 (tr_state t')"
proof (cases "tr_state t = Target_ready \<or> tr_state t = Client_refresh_pending")
  case True
  with assms(1) have "t' = t" "s1 = s" by (auto simp: act_verify_def effect_defs)
  then show ?thesis using act_ok_same [OF assms(2-4)] by simp
next
  case False
  with assms(1) obtain p x y where st: "tr_state t = Target_applying" and t': "t' = t\<lparr>tr_state := Target_ready\<rparr>"
    and pr: "appliedProof E (tr_target t) (tr_target_version t) (tr_target_job t) s = (Inr p, x)"
    and m: "membership (tr_target t) (tr_target_version t) accountID True x = (Inr (), y)" and s1: "s1 = y"
    by (auto simp: act_verify_def effect_defs split_beta accountEligible_def nodeReady_def reachable_def split: if_splits)
  from pr have "x = s" by (rule appliedProof_done)
  with m s1 have s: "s1 = s" by (auto elim: membership_present)
  have "quiet s (tr_target t)" using proof_quiet [OF pr assms(2) refl st] assms(4) by (simp add: good_def)
  then have "good s (t\<lparr>tr_state := Target_ready\<rparr>)"
    using assms(4) st by (simp add: good_def in_course_def reserved_def placed_def settled_def home_def home_version_def)
  then show ?thesis using act_ok_stay assms(2,3) s t' by simp
qed

lemma act_frame_then:
  assumes "act_frame t s sa" "server_keys s1 = server_keys sa" "keeps_versions sa s1"
    and "\<And>a. a \<noteq> tr_account t \<Longrightarrow> map_of (account_keys s1) a = map_of (account_keys sa) a"
    and "distinct (map aj_id (d_jobs s1))"
    and "\<And>j. j \<in> set (d_jobs s1) \<Longrightarrow> j \<in> set (d_jobs sa) \<or> aj_server j \<in> {tr_source t, tr_target t}"
  shows "act_frame t s s1"
proof -
  have "keeps_used_versions s s1"
    using assms(1,3) unfolding act_frame_def keeps_used_versions_def keeps_versions_def by metis
  moreover have "aj_server j' \<in> {tr_source t, tr_target t}
          \<or> (\<exists>j \<in> set (d_jobs s). open_job j \<and> aj_id j = aj_id j' \<and> aj_server j = aj_server j')"
    if "j' \<in> set (d_jobs s1)" "open_job j'" for j'
    using assms(6) [OF that(1)] that(2) assms(1) unfolding act_frame_def by blast
  ultimately show ?thesis using assms(1,2,4,5) by (simp add: act_frame_def)
qed

lemma assign_run:
  assumes "reassign_account E acct node s = (Inr y, s')"
  shows "d_transfers s' = d_transfers s" "d_reservations s' = d_reservations s" "d_jobs s' = d_jobs s"
    "server_keys s' = server_keys s" "keeps_versions s s'"
    "map_of (account_keys s') a = (if a = acct then map_option (\<lambda>_. node) (map_of (account_keys s) acct) else map_of (account_keys s) a)"
proof -
  define f where "f = (\<lambda>r. r\<lparr>acct_server := node, acct_config_updated := retimed E s r node\<rparr>)"
  have up: "map_of (map (\<lambda>a. (acct_id a, acct_server a)) (update_where (\<lambda>r. acct_id r = acct) f xs)) a
      = (if a = acct then map_option (\<lambda>_. node) (map_of (map (\<lambda>a. (acct_id a, acct_server a)) xs) acct)
         else map_of (map (\<lambda>a. (acct_id a, acct_server a)) xs) a)" for xs
    by (induction xs) (auto simp: update_where_def f_def)
  have "s' = s \<and> map_option (\<lambda>_. node) (map_of (account_keys s) acct) = map_of (account_keys s) acct
      \<or> s' = s\<lparr>d_accounts := update_where (\<lambda>r. acct_id r = acct) f (d_accounts s)\<rparr>"
  proof (cases "lookup_row acct_id acct (d_accounts s)")
    case None
    with assms show ?thesis by (simp add: reassign_account_def effect_defs account_keys_def map_of_lookup)
  next
    case (Some a)
    with assms show ?thesis unfolding f_def
      by (auto simp: reassign_account_def effect_defs account_keys_def map_of_lookup transfer_node_guard_def split: option.splits if_splits)
  qed
  then show "d_transfers s' = d_transfers s" "d_reservations s' = d_reservations s" "d_jobs s' = d_jobs s"
    "server_keys s' = server_keys s" "keeps_versions s s'"
    "map_of (account_keys s') a = (if a = acct then map_option (\<lambda>_. node) (map_of (account_keys s) acct) else map_of (account_keys s) a)"
    using up by (auto simp: server_keys_def account_keys_def keeps_versions_def find_version_def)
qed

lemma keeps_versions_serves:
  assumes "server_keys s' = server_keys s" "keeps_versions s s'" "serves s acct n vid"
  shows "serves s' acct n vid"
  by (rule serves_keeps [OF assms(3)]) (simp add: assms(1), metis assms(2) keeps_versions_def)

lemma act_cutover_ok:
  assumes "act_cutover E (tr_account t) node t s = (Inr t', s1)" "well_kept s" "open_transfer t" "good s t"
  shows "act_ok t s s1 (tr_state t')"
proof (cases "tr_state t = Client_refresh_pending")
  case True
  with assms(1) have "t' = t" "s1 = s" by (simp_all add: act_cutover_def effect_defs)
  then show ?thesis using act_ok_same [OF assms(2-4)] by simp
next
  case False
  with assms(1) obtain p x y z z' z'' where st: "tr_state t = Target_ready" and t': "t' = t\<lparr>tr_state := Client_refresh_pending\<rparr>"
    and pr: "appliedProof E (tr_target t) (tr_target_version t) (tr_target_job t) s = (Inr p, x)"
    and m: "membership (tr_target t) (tr_target_version t) (tr_account t) True x = (Inr (), y)"
    and m': "membership (tr_source t) (Some (tr_source_version t)) (tr_account t) True y = (Inr (), z)"
    and a: "reassign_account E (tr_account t) (Some (tr_target t)) z = (Inr (), z')"
    and u: "update_transfer (tr_id t) (\<lambda>t. t\<lparr>tr_cutover := Some (ce_now E)\<rparr>) z' = (Inr (), s1)"
    by (auto simp: act_cutover_def effect_defs split_beta accountEligible_def nodeReady_def reachable_def split: if_splits)
  from pr have x: "x = s" by (rule appliedProof_done)
  from m obtain vid where vid: "tr_target_version t = Some vid" "serves s (tr_account t) (tr_target t) vid" and y: "y = s"
    unfolding x by (rule membership_present)
  from m' have z: "z = s" unfolding y by (rule membership_present)
  note as = assign_run [OF a [unfolded z]]
  have s1: "s1 = z'\<lparr>d_transfers := update_where (\<lambda>u. tr_id u = tr_id t) (\<lambda>t. t\<lparr>tr_cutover := Some (ce_now E)\<rparr>) (d_transfers z')\<rparr>"
    by (rule update_transfer_run [OF u])
  have fr: "act_frame t s s1"
    using as assms(2) by (intro act_frame_then [OF act_frame_refl [OF assms(2)]])
      (simp_all add: s1 server_keys_def account_keys_def keeps_versions_def find_version_def well_kept_def)
  have "map_of (account_keys s) (tr_account t) \<noteq> None" using assms(4) by (simp add: good_def placed_def)
  then have "map_of (account_keys s1) (tr_account t) = Some (Some (tr_target t))"
    using as(6) [of "tr_account t"] by (auto simp: s1 account_keys_def)
  moreover have "serves s1 (tr_account t) (tr_target t) vid"
    by (rule keeps_versions_serves [OF _ _ vid(2)])
      (use as in \<open>simp_all add: s1 server_keys_def keeps_versions_def find_version_def\<close>)
  moreover have "quiet s1 n = quiet s n" for n using as(3) by (simp add: quiet_def s1)
  ultimately have "good s1 (t\<lparr>tr_state := Client_refresh_pending, tr_cutover := Some (ce_now E)\<rparr>)"
    using assms(4) st vid(1) as(2)
    by (simp add: good_def in_course_def reserved_def placed_def settled_def home_def home_version_def s1)
  then show ?thesis unfolding act_ok_def
    by (intro exI [of _ "\<lambda>t. t\<lparr>tr_cutover := Some (ce_now E)\<rparr>"])
      (use fr as(1,2) assms(3) t' in \<open>simp add: s1 open_transfer_def good_defs\<close>)
qed

lemma queue_row_simps [simp]:
  "tr_id (queue_row E c vid jid t) = tr_id t" "tr_account (queue_row E c vid jid t) = tr_account t"
  "tr_source (queue_row E c vid jid t) = tr_source t" "tr_target (queue_row E c vid jid t) = tr_target t"
  "tr_source_version (queue_row E c vid jid t) = tr_source_version t" "tr_completed (queue_row E c vid jid t) = tr_completed t"
  "tr_state (queue_row E True vid jid t) = tr_state t" "tr_target_version (queue_row E True vid jid t) = tr_target_version t"
  "tr_state (queue_row E False vid jid t) = Target_applying" "tr_target_job (queue_row E False vid jid t) = Some jid"
  by (simp_all add: queue_row_def)

lemma queue_act:
  assumes fr: "act_frame t s sa" and ts: "d_transfers sa = update_where (\<lambda>u. tr_id u = tr_id t) f (d_transfers s)"
    and f: "\<And>u. tr_id (f u) = tr_id u" "tr_account (f t) = tr_account t" "tr_completed (f t) = None"
    and r: "d_reservations sa = d_reservations s" and node: "node \<in> {tr_source t, tr_target t}"
    and q: "queue E tr node cleanup sa = (Inr t', s1)" "tr_id tr = tr_id t"
    and good: "\<And>j vid. aj_server j = node \<Longrightarrow> open_job j \<Longrightarrow> d_jobs s1 = d_jobs sa @ [j] \<Longrightarrow> same_world sa s1
       \<Longrightarrow> d_reservations s1 = d_reservations s \<Longrightarrow> t' = queue_row E cleanup vid (aj_id j) tr
       \<Longrightarrow> good s1 ((queue_row E cleanup vid (aj_id j) (f t))\<lparr>tr_state := tr_state t'\<rparr>)"
  shows "act_ok t s s1 (tr_state t')"
proof -
  obtain j vid where j: "aj_server j = node" "open_job j" "aj_id j \<notin> aj_id ` set (d_jobs sa)" "d_jobs s1 = d_jobs sa @ [j]"
    and t': "t' = queue_row E cleanup vid (aj_id j) tr"
    and ts1: "d_transfers s1 = update_where (\<lambda>u. tr_id u = tr_id t) (queue_row E cleanup vid (aj_id j)) (d_transfers sa)"
    and w: "d_reservations s1 = d_reservations sa" "same_world sa s1"
    by (rule queue_run [OF q(1)]) (simp add: q(2))
  let ?g = "queue_row E cleanup vid (aj_id j) \<circ> f"
  have "act_frame t s s1"
    using fr w j node by (intro act_frame_then [OF fr]) (auto simp: same_world_def act_frame_def)
  moreover have "d_transfers s1 = update_where (\<lambda>u. tr_id u = tr_id t) ?g (d_transfers s)"
    by (simp add: ts1 ts update_where_twice f(1))
  moreover have "good s1 ((?g t)\<lparr>tr_state := tr_state t'\<rparr>)" using good [OF j(1,2,4) w(2) _ t'] w(1) r by simp
  ultimately show ?thesis unfolding act_ok_def using f r w(1) by (intro exI [of _ ?g]) simp
qed

lemma act_cleanup_ok:
  assumes "act_cleanup E (tr_account t) node confirmed t s = (Inr t', s1)" "well_kept s" "open_transfer t" "good s t"
  shows "act_ok t s s1 (tr_state t')"
proof (cases "tr_state t = Source_cleaning")
  case True
  with assms(1) have "t' = t" "s1 = s" by (simp_all add: act_cleanup_def effect_defs)
  then show ?thesis using act_ok_same [OF assms(2-4)] by simp
next
  case False
  define f where "f = (\<lambda>t :: Transfer. t\<lparr>tr_state := Source_cleaning, tr_cleanup_ack := Some (ce_now E)\<rparr>)"
  from assms(1) False obtain x p y sa where st: "tr_state t = Client_refresh_pending"
    and m: "membership (tr_target t) (tr_target_version t) (tr_account t) True s = (Inr (), x)"
    and pr: "appliedProof E (tr_target t) (tr_target_version t) (tr_target_job t) x = (Inr p, y)"
    and u: "update_transfer (tr_id t) f y = (Inr (), sa)"
    and q: "queue E (t\<lparr>tr_state := Source_cleaning\<rparr>) (tr_source t) True sa = (Inr t', s1)"
    unfolding f_def by (auto simp: act_cleanup_def effect_defs nodeReady_def split: if_splits)
  from m have x: "x = s" by (rule membership_present)
  from pr have y: "y = s" unfolding x by (rule appliedProof_done)
  have sa: "sa = s\<lparr>d_transfers := update_where (\<lambda>u. tr_id u = tr_id t) f (d_transfers s)\<rparr>"
    using update_transfer_run [OF u] y by simp
  have w: "same_world s sa" by (simp add: sa same_world_def server_keys_def account_keys_def keeps_versions_def find_version_def)
  show ?thesis
  proof (rule queue_act [OF _ _ _ _ _ _ _ q, where f = f])
    show "act_frame t s sa" using w assms(2)
      by (intro act_frame_then [OF act_frame_refl [OF assms(2)]]) (auto simp: same_world_def sa well_kept_def)
    fix j vid assume j: "aj_server j = tr_source t" "d_jobs s1 = d_jobs sa @ [j]" "same_world sa s1" "d_reservations s1 = d_reservations s"
      and t': "t' = queue_row E True vid (aj_id j) (t\<lparr>tr_state := Source_cleaning\<rparr>)"
    have "placed s (f t)" using assms(4) st by (simp add: good_def placed_def f_def home_def home_version_def)
    then have p1: "placed s1 (f t)" using w j(3) same_world_trans same_world_placed by blast
    have "quiet s1 (tr_target t)" using assms(4) st j(1,2) by (auto simp: good_def settled_def quiet_def reserved_def sa)
    with p1 show "good s1 ((queue_row E True vid (aj_id j) (f t))\<lparr>tr_state := tr_state t'\<rparr>)"
      using assms(4) j(4) unfolding t' by (simp add: good_def in_course_def reserved_def placed_def settled_def home_def home_version_def f_def)
  qed (use assms(3) in \<open>simp_all add: sa f_def open_transfer_def\<close>)
qed

lemma act_retry_ok:
  assumes "act_retry E t s = (Inr t', s1)" "well_kept s" "open_transfer t" "good s t"
  shows "act_ok t s s1 (tr_state t')"
proof -
  let ?cleaning = "tr_state t = Source_cleaning \<or> tr_state t = Target_cleaning"
  let ?node = "if tr_state t = Source_cleaning then tr_source t else tr_target t"
  from assms(1) obtain jid k where st: "?cleaning \<or> tr_state t = Target_applying"
    and k: "(if ?cleaning then tr_cleanup_job t else tr_target_job t) = Some jid" "lookup_row aj_id jid (d_jobs s) = Some k"
      "aj_status k = ''failed''"
    and q: "queue E t ?node ?cleaning s = (Inr t', s1)"
    by (auto simp: act_retry_def Let_def effect_defs split: if_splits)
  have only: "i = k" if "i \<in> set (d_jobs s)" "aj_id i = jid" for i
    using that lookup_row_Some [OF k(2)] assms(2) distinct_key_eq [of aj_id "d_jobs s" i k] by (simp add: well_kept_def)
  have ne: "tr_source t \<noteq> tr_target t" using assms(4) by (simp add: good_def reserved_def)
  show ?thesis
  proof (rule queue_act [OF act_frame_refl [OF assms(2)] _ _ _ _ _ _ q, where f = "\<lambda>u. u"])
    fix j vid assume j: "aj_server j = ?node" "open_job j" "d_jobs s1 = d_jobs s @ [j]" "same_world s s1" "d_reservations s1 = d_reservations s"
      and t': "t' = queue_row E ?cleaning vid (aj_id j) t"
    have p: "placed s1 t" using assms(4) same_world_placed [OF j(4)] by (simp add: good_def)
    have old: "settled s t" "reserved s t" using assms(4) by (simp_all add: good_def)
    have qs: "quiet s1 n" if "quiet s n" "n \<noteq> ?node" for n using that j(1,3) by (auto simp: quiet_def)
    have same: "t\<lparr>tr_state := tr_state t\<rparr> = t" by (cases t) simp
    show "good s1 ((queue_row E ?cleaning vid (aj_id j) t)\<lparr>tr_state := tr_state t'\<rparr>)"
    proof (cases ?cleaning)
      case True
      then have "settled s1 t" using old(1) qs ne by (auto simp: settled_def)
      with True p old(2) j(5) show ?thesis unfolding t'
        by (auto simp: good_def in_course_def reserved_def placed_def settled_def home_def home_version_def)
    next
      case False
      with st have ta: "tr_state t = Target_applying" by simp
      have "quiet s (tr_target t)"
        using old(1) ta k only False unfolding settled_def quiet_def by (force simp: open_job_def)
      then have "\<forall>i \<in> set (d_jobs s1). open_job i \<and> aj_server i = tr_target t \<longrightarrow> aj_id i = aj_id j"
        using j(3) by (auto simp: quiet_def)
      moreover have "quiet s1 (tr_source t)" using old(1) ta qs ne by (simp add: settled_def)
      ultimately show ?thesis using False ta p old(2) j(5) unfolding t'
        by (simp add: good_def in_course_def reserved_def placed_def settled_def home_def home_version_def)
    qed
  qed (use assms(3) in \<open>auto simp: open_transfer_def update_where_def\<close>)
qed

text \<open>Cancelling an unclaimed job may prune history, so a rollback continues from the database after it.\<close>

lemma cancel_inv:
  assumes "transfer_inv s" "lookup_row aj_id jid (d_jobs s) = Some j" "aj_status j = ''pending''"
    and "finish_job E jid (cancelled_job E) s = (r, sa)"
  shows "transfer_inv sa \<and> filter open_transfer (d_transfers sa) = filter open_transfer (d_transfers s)"
proof -
  have "jobs_frame (touched_node (cancelled_job E j)) s (snd (finish_job E jid (cancelled_job E) s))"
    using assms(1-3) by (intro finish_job_frame) (simp_all add: cancelled_job_def open_job_def transfer_inv_def)
  then have fr: "jobs_frame None s sa" using assms(4) by (simp add: touched_node_def cancelled_job_def)
  have "transfer_inv sa" by (rule jobs_frame_inv [OF fr assms(1)]) simp
  with fr assms(1) show ?thesis unfolding jobs_frame_def transfer_inv_def by blast
qed

lemma rollback_from:
  assumes I: "transfer_inv s" "t \<in> set (d_transfers s)" "open_transfer t" "tr_state t \<noteq> Source_cleaning"
    and m: "membership (tr_source t) (Some (tr_source_version t)) (tr_account t) True s = (Inr (), x)"
    and a: "reassign_account E (tr_account t) (Some (tr_source t)) s = (Inr (), sb)"
    and u: "update_transfer (tr_id t) (\<lambda>t. t\<lparr>tr_state := Target_cleaning\<rparr>) sb = (Inr (), sc)"
    and q: "queue E (t\<lparr>tr_state := Target_cleaning\<rparr>) (tr_target t) True sc = (Inr t', s1)"
  shows "act_ok t s s1 (tr_state t')"
proof -
  have w: "well_kept s" and g: "good s t" using I by (simp_all add: transfer_inv_def)
  let ?f = "\<lambda>t :: Transfer. t\<lparr>tr_state := Target_cleaning\<rparr>"
  note as = assign_run [OF a]
  have sc: "sc = sb\<lparr>d_transfers := update_where (\<lambda>u. tr_id u = tr_id t) ?f (d_transfers sb)\<rparr>"
    by (rule update_transfer_run [OF u])
  have sv: "serves s (tr_account t) (tr_source t) (tr_source_version t)" using m by (rule membership_present) simp
  have kv: "server_keys sc = server_keys s" "keeps_versions s sc"
    using as(4,5) by (simp_all add: sc server_keys_def keeps_versions_def find_version_def)
  show ?thesis
  proof (rule queue_act [OF _ _ _ _ _ _ _ q, where f = ?f])
    show "act_frame t s sc" using kv as w
      by (intro act_frame_then [OF act_frame_refl [OF w]]) (auto simp: sc account_keys_def well_kept_def)
    fix j vid assume j: "aj_server j = tr_target t" "d_jobs s1 = d_jobs sc @ [j]" "same_world sc s1" "d_reservations s1 = d_reservations s"
      and t': "t' = queue_row E True vid (aj_id j) (t\<lparr>tr_state := Target_cleaning\<rparr>)"
    have "map_of (account_keys s) (tr_account t) \<noteq> None" using g by (simp add: good_def placed_def)
    then have "map_of (account_keys sc) (tr_account t) = Some (Some (tr_source t))"
      using as(6) [of "tr_account t"] by (auto simp: sc account_keys_def)
    moreover have "serves sc (tr_account t) (tr_source t) (tr_source_version t)"
      by (rule keeps_versions_serves [OF kv sv])
    ultimately have "placed sc (?f t)" by (simp add: placed_def home_def home_version_def)
    then have "placed s1 (?f t)" by (rule same_world_placed [OF j(3)])
    moreover have "quiet s1 (tr_source t)" using g I(4) j(1,2) as(3) by (auto simp: good_def settled_def quiet_def reserved_def sc)
    ultimately show "good s1 ((queue_row E True vid (aj_id j) (?f t))\<lparr>tr_state := tr_state t'\<rparr>)"
      using g j(4) unfolding t' by (simp add: good_def in_course_def reserved_def placed_def settled_def home_def home_version_def)
  qed (use I(3) as(1,2) in \<open>simp_all add: sc open_transfer_def\<close>)
qed

lemma act_rollback_ok:
  assumes r: "act_rollback E (tr_account t) confirmed t s = (Inr t', s1)"
    and I: "transfer_inv s" "t \<in> set (d_transfers s)" "open_transfer t"
  obtains sa where "transfer_inv sa" "t \<in> set (d_transfers sa)" "act_ok t sa s1 (tr_state t')"
proof (cases "tr_state t = Target_cleaning")
  case True
  with r have "t' = t" "s1 = s" by (simp_all add: act_rollback_def effect_defs)
  then show thesis using that [of s] act_ok_same [of s t] I by (simp add: transfer_inv_def)
next
  case False
  have st: "tr_state t \<noteq> Source_cleaning" and ok: "\<not> (tr_state t \<notin> {Client_refresh_pending, Target_ready, Target_applying})"
    "\<not> (tr_state t = Client_refresh_pending \<and> \<not> confirmed)"
    using r False by (auto simp: act_rollback_def effect_defs split: if_splits)
  from r obtain jid j sa x y sb sc where j: "lookup_row aj_id jid (d_jobs s) = Some j"
    and c: "(if aj_status j = ''pending'' then finish_job E jid (cancelled_job E) else ok ()) s = (Inr (), sa)"
    and m: "membership (tr_source t) (Some (tr_source_version t)) (tr_account t) True sa = (Inr (), x)"
    and a: "reassign_account E (tr_account t) (Some (tr_source t)) x = (Inr (), sb)"
    and u: "update_transfer (tr_id t) (\<lambda>t. t\<lparr>tr_state := Target_cleaning\<rparr>) sb = (Inr (), sc)"
    and q: "queue E (t\<lparr>tr_state := Target_cleaning\<rparr>) (tr_target t) True sc = (Inr t', s1)"
    unfolding act_rollback_def if_not_P [OF False] if_not_P [OF ok(1)] if_not_P [OF ok(2)]
    by (auto simp: effect_defs nodeReady_def reachable_def split_beta)
  have sa: "transfer_inv sa" "filter open_transfer (d_transfers sa) = filter open_transfer (d_transfers s)"
    using c cancel_inv [OF I(1) j] I(1) by (auto simp: ok_def split: if_splits)
  then have "t \<in> set (filter open_transfer (d_transfers sa))" using I by simp
  then have t: "t \<in> set (d_transfers sa)" by simp
  from m have "x = sa" by (rule membership_present)
  then show thesis using that [OF sa(1) t rollback_from [OF sa(1) t I(3) st m _ u q]] a by simp
qed

lemma act_finish_ok:
  assumes r: "act_finish E accountID t s = (Inr t', s1)" and w: "well_kept s"
  shows "act_ok t s s1 (tr_state t')"
proof -
  let ?f = "\<lambda>u :: Transfer. u\<lparr>tr_state := finished_state t, tr_completed := Some (ce_now E)\<rparr>"
  let ?n = "if tr_state t = Target_cleaning then tr_target t else tr_source t"
  from r obtain p x y sa where pr: "appliedProof E ?n (tr_cleanup_version t) (tr_cleanup_job t) s = (Inr p, x)"
    and m: "membership ?n (tr_cleanup_version t) accountID False x = (Inr (), y)"
    and u: "update_transfer (tr_id t) ?f y = (Inr (), sa)"
    and s1: "s1 = sa\<lparr>d_reservations := select (\<lambda>r. snd r \<noteq> tr_id t) (d_reservations sa)\<rparr>"
    by (auto simp: act_finish_def Let_def effect_defs nodeReady_def split: if_splits)
  from pr have "x = s" by (rule appliedProof_done)
  with m have y: "y = s" by (auto simp: membership_def effect_defs)
  have sa: "sa = s\<lparr>d_transfers := update_where (\<lambda>u. tr_id u = tr_id t) ?f (d_transfers s)\<rparr>"
    using update_transfer_run [OF u] y by simp
  have "act_frame t s s1"
    using w by (intro act_frame_then [OF act_frame_refl [OF w]])
      (auto simp: s1 sa server_keys_def account_keys_def keeps_versions_def find_version_def well_kept_def)
  then show ?thesis unfolding act_ok_def by (intro exI [of _ ?f]) (simp add: s1 sa)
qed

lemma act_step_ok:
  assumes r: "act_step E (tr_account t) node action confirmed t s = (Inr t', s1)"
    and I: "transfer_inv s" "t \<in> set (d_transfers s)" "open_transfer t"
  obtains sa where "transfer_inv sa" "t \<in> set (d_transfers sa)" "act_ok t sa s1 (tr_state t')"
proof -
  have w: "well_kept s" and g: "good s t" using I by (simp_all add: transfer_inv_def)
  consider "act_verify E (tr_account t) t s = (Inr t', s1)" | "act_cutover E (tr_account t) node t s = (Inr t', s1)"
    | "act_cleanup E (tr_account t) node confirmed t s = (Inr t', s1)" | "act_rollback E (tr_account t) confirmed t s = (Inr t', s1)"
    | "act_finish E (tr_account t) t s = (Inr t', s1)" | "act_retry E t s = (Inr t', s1)"
    using r by (auto simp: act_step_def effect_defs split: if_splits)
  then show thesis
  proof cases
    case 1
    show thesis by (rule that [OF I(1,2) act_verify_ok [OF 1 w I(3) g]])
  next
    case 2
    show thesis by (rule that [OF I(1,2) act_cutover_ok [OF 2 w I(3) g]])
  next
    case 3
    show thesis by (rule that [OF I(1,2) act_cleanup_ok [OF 3 w I(3) g]])
  next
    case 4
    then show thesis by (rule act_rollback_ok [OF _ I]) (rule that)
  next
    case 5
    show thesis by (rule that [OF I(1,2) act_finish_ok [OF 5 w]])
  next
    case 6
    show thesis by (rule that [OF I(1,2) act_retry_ok [OF 6 w I(3) g]])
  qed
qed

lemma Act_inv:
  assumes a: "ActInTransaction E accountID transferID action actor confirmed s = (Inr x, d)"
    and c: "ce_uuid E accountID = Some accountID" and I: "transfer_inv s"
  shows "transfer_inv d"
proof -
  obtain i t and acct :: account_row where t: "find (\<lambda>t. tr_id t = i \<and> tr_account t = accountID) (d_transfers s) = Some t"
    and r: "\<not> open_transfer t \<and> d = s \<or> open_transfer t
       \<and> run_step E t actor (act_step E accountID (acct_server acct) action confirmed t) (s\<lparr>d_auth := Some transferID\<rparr>) = (Inr x, d)"
    using a c by (auto simp: ActInTransaction_def cast_uuid_def lockNodes_def authorize_def effect_defs split: if_splits)
  have m: "t \<in> set (d_transfers s)" "tr_account t = accountID" using find_SomeD [OF t] by simp_all
  from r show ?thesis
  proof (elim disjE conjE)
    assume o: "open_transfer t"
    let ?s = "s\<lparr>d_auth := Some transferID\<rparr>" and ?m = "act_step E accountID (acct_server acct) action confirmed t"
    assume run: "run_step E t actor ?m ?s = (Inr x, d)"
    have I': "transfer_inv ?s" and m': "t \<in> set (d_transfers ?s)" using I m by simp_all
    obtain q s1 where q: "?m ?s = (q, s1)" by (cases "?m ?s")
    show ?thesis
    proof (cases q)
      case (Inr t')
      obtain sa where "transfer_inv sa" "t \<in> set (d_transfers sa)" "act_ok t sa s1 (tr_state t')"
        using act_step_ok [OF _ I' m' o] q [unfolded Inr] unfolding m(2) [symmetric] by metis
      moreover have "record_step E (tr_id t) (tr_state t') None actor s1 = (Inr x, d)" using run q Inr by (simp add: run_step_def)
      ultimately show ?thesis using record_inv o by blast
    next
      case (Inl e)
      have "record_step E (tr_id t) (tr_state t) (Some e) actor ?s = (Inr x, d)"
        using run q Inl by (cases e) (simp_all add: run_step_def)
      moreover have "act_ok t ?s ?s (tr_state t)" using I' m' o by (intro act_ok_same) (simp_all add: transfer_inv_def)
      ultimately show ?thesis using record_inv I' m' o by blast
    qed
  qed (simp add: I)
qed

section \<open>A new transfer\<close>

lemma start_checks_run:
  assumes "start_checks E accountID acct source target s = (Inr vid, s1)"
  shows "same_config s s1" "\<not> node_busy s source target" "serves s1 accountID source vid"
proof -
  show "same_config s s1" using keepsD [OF start_checks_keeps assms] .
  from assms show "\<not> node_busy s source target" by (auto simp: start_checks_def lockNodes_def effect_defs)
  from assms obtain y sm p sp sq jid where m: "membership source (Some vid) accountID True y = (Inr (), sm)"
    and pr: "appliedProof E source (Some vid) (Some jid) sm = (Inr p, sp)"
    and b: "checkBaseline E source sp = (Inr (), sq)" "checkBaseline E target sq = (Inr (), s1)"
    by (auto simp: start_checks_def lockNodes_def nodeReady_def effect_defs split_beta)
  from m have "serves y accountID source vid" "sm = y" by (auto elim: membership_present)
  moreover have "sp = sm" using pr by (rule appliedProof_done)
  moreover have "same_config sp s1" using b keepsD [OF checkBaseline_keeps] cf.frame_trans by metis
  ultimately show "serves s1 accountID source vid" using same_world_serves [OF same_config_world] by metis
qed

lemma update_where_fresh:
  assumes "\<forall>r \<in> set xs. k r \<noteq> k x"
  shows "update_where (\<lambda>r. k r = k x) f (xs @ [x]) = xs @ [f x]"
  using assms by (induction xs) (simp_all add: update_where_def)

lemma start_transfer_run:
  assumes "start_transfer E acct source target vid actor s = (Inr t', d)"
  obtains t j where "source \<noteq> target" "tr_account t = acct" "tr_source t = source" "tr_target t = target" "tr_source_version t = vid"
    "tr_state t = Target_applying" "tr_target_job t = Some (aj_id j)" "open_transfer t"
    "tr_id t \<notin> tr_id ` set (d_transfers s)" "acct \<notin> tr_account ` set (filter open_transfer (d_transfers s))"
    "d_transfers d = d_transfers s @ [t]" "d_reservations d = d_reservations s @ [(source, tr_id t), (target, tr_id t)]"
    "aj_server j = target" "aj_id j \<notin> aj_id ` set (d_jobs s)" "d_jobs d = d_jobs s @ [j]" "same_world s d"
    "\<not> (\<exists>r \<in> set (d_reservations s). fst r \<in> {source, target})"
proof -
  from assms obtain t sb inv sc sd se where i: "insert_transfer E acct source target vid actor s = (Inr t, sb)"
    and r: "reserve_nodes source target (tr_id t) sb = (Inr (), sc)"
    and u: "update_transfer (tr_id t) (\<lambda>k. k\<lparr>tr_inventory := inv\<rparr>) sc = (Inr (), sd)"
    and v: "update_versions (\<lambda>v. ver_id v = vid) (\<lambda>v. v\<lparr>ver_pinned := True\<rparr>) (sd\<lparr>d_auth := Some (tr_id t)\<rparr>) = (Inr (), se)"
    and q: "queue E t target False se = (Inr t', d)"
    by (auto simp: start_transfer_def authorize_def effect_defs)
  from i have t: "source \<noteq> target" "tr_account t = acct" "tr_source t = source" "tr_target t = target" "tr_source_version t = vid"
    "tr_completed t = None" "\<forall>k \<in> set (d_transfers s). tr_id k \<noteq> tr_id t" "\<forall>k \<in> set (d_transfers s). \<not> (tr_account k = acct \<and> open_transfer k)"
    and sb: "sb = s\<lparr>d_seq := Suc (d_seq s), d_transfers := d_transfers s @ [t]\<rparr>"
    by (auto simp: insert_transfer_def fresh_uuid_def effect_defs Let_def)
  from r have free: "\<not> (\<exists>r \<in> set (d_reservations s). fst r \<in> {source, target})"
    and sc: "sc = sb\<lparr>d_reservations := d_reservations s @ [(source, tr_id t), (target, tr_id t)]\<rparr>"
    by (auto simp: reserve_nodes_def effect_defs sb)
  have sd: "sd = sc\<lparr>d_transfers := d_transfers s @ [t\<lparr>tr_inventory := inv\<rparr>]\<rparr>"
    using update_transfer_run [OF u] update_where_fresh [OF t(7)] by (simp add: sc sb)
  have "keeps same_config (update_versions (\<lambda>v. ver_id v = vid) (\<lambda>v. v\<lparr>ver_pinned := True\<rparr>))"
    by (rule update_versions_keeps) simp_all
  then have se: "same_config (sd\<lparr>d_auth := Some (tr_id t)\<rparr>) se" using v by (rule keepsD)
  obtain j w where j: "aj_server j = target" "open_job j" "aj_id j \<notin> aj_id ` set (d_jobs se)" "d_jobs d = d_jobs se @ [j]"
    "d_transfers d = update_where (\<lambda>k. tr_id k = tr_id t) (queue_row E False w (aj_id j)) (d_transfers se)"
    "d_reservations d = d_reservations se" "same_world se d" by (rule queue_run [OF q])
  let ?t = "queue_row E False w (aj_id j) (t\<lparr>tr_inventory := inv\<rparr>)"
  have w: "same_world s (sd\<lparr>d_auth := Some (tr_id t)\<rparr>)"
    by (simp add: sd sc sb same_world_def server_keys_def account_keys_def keeps_versions_def find_version_def)
  have "d_transfers d = d_transfers s @ [?t]"
    using j(5) se update_where_fresh [of "d_transfers s" tr_id "t\<lparr>tr_inventory := inv\<rparr>"] t(7) by (simp add: same_config_def sd)
  moreover have "same_world s d" using w same_config_world [OF se] j(7) same_world_trans by blast
  ultimately show thesis
    by (intro that [of ?t j]) (use t free j se in \<open>auto simp: open_transfer_def same_config_def sd sc sb\<close>)
qed

lemma start_inv:
  assumes I: "transfer_inv s" and ck: "start_checks E acct acct source target s = (Inr vid, s1)"
    and acct: "map_of (account_keys s) acct = Some (Some source)"
    and st: "start_transfer E acct source target vid actor s1 = (Inr t', d)"
  shows "transfer_inv d"
proof -
  note c = start_checks_run [OF ck]
  have I1: "transfer_inv s1" by (rule same_config_inv [OF c(1) I])
  have js: "d_jobs s1 = d_jobs s" "account_keys s1 = account_keys s" using c(1) by (simp_all add: same_config_def)
  obtain t j where t: "source \<noteq> target" "tr_account t = acct" "tr_source t = source" "tr_target t = target" "tr_source_version t = vid"
    "tr_state t = Target_applying" "tr_target_job t = Some (aj_id j)" "open_transfer t"
    "tr_id t \<notin> tr_id ` set (d_transfers s1)" "acct \<notin> tr_account ` set (filter open_transfer (d_transfers s1))"
    and ts: "d_transfers d = d_transfers s1 @ [t]"
    and rs: "d_reservations d = d_reservations s1 @ [(source, tr_id t), (target, tr_id t)]"
    and j: "aj_server j = target" "aj_id j \<notin> aj_id ` set (d_jobs s1)" "d_jobs d = d_jobs s1 @ [j]"
    and w: "same_world s1 d" and free: "\<not> (\<exists>r \<in> set (d_reservations s1). fst r \<in> {source, target})"
    by (rule start_transfer_run [OF st])
  have idle: "quiet s1 source" "quiet s1 target" using c(2) unfolding quiet_def js(1) node_busy_def by blast+
  have "well_kept d"
  proof -
    have "distinct (map tr_id (d_transfers d))" "distinct (map aj_id (d_jobs d))"
      "distinct (map tr_account (filter open_transfer (d_transfers d)))"
      using I1 t j ts by (auto simp: transfer_inv_def well_kept_def)
    moreover have "distinct (map fst (d_reservations d))"
      using I1 free t(1) rs by (auto simp: transfer_inv_def well_kept_def)
    moreover have "\<forall>r \<in> set (d_reservations d). snd r \<in> tr_id ` set (filter open_transfer (d_transfers d))"
      using I1 t(8) ts rs by (auto simp: transfer_inv_def well_kept_def)
    ultimately show ?thesis by (simp add: well_kept_def)
  qed
  moreover have "good d t"
  proof -
    have "serves d acct source vid" using c(3) by (rule same_world_serves [OF w])
    moreover have "map_of (account_keys d) acct = Some (Some source)" using acct js(2) w by (simp add: same_world_def)
    moreover have "quiet d source" using idle(1) j t(1) by (auto simp: quiet_def)
    moreover have "\<forall>i \<in> set (d_jobs d). open_job i \<and> aj_server i = target \<longrightarrow> aj_id i = aj_id j"
      using idle(2) j(3) by (auto simp: quiet_def)
    ultimately show ?thesis
      using t rs by (simp add: good_def in_course_def reserved_def placed_def settled_def home_def home_version_def)
  qed
  moreover have "good d u" if "good s1 u" for u
  proof -
    have "aj_server j \<notin> {tr_source u, tr_target u}" using that free j(1) by (force simp: good_def reserved_def)
    then have "settled d u" using that settled_add [OF _ _ j(3)] by (simp add: good_def)
    with that show ?thesis using same_world_placed [OF w] rs by (simp add: good_def reserved_def)
  qed
  ultimately show ?thesis using I1 ts t(8) by (auto simp: transfer_inv_def)
qed

lemma Start_inv:
  assumes a: "StartInTransaction E accountID targetID actor s = (Inr x, d)"
    and c: "ce_uuid E accountID = Some accountID" and I: "transfer_inv s"
  shows "transfer_inv d"
proof -
  have "d = s \<or> (\<exists>a source target vid s1. lookup_row acct_id accountID (d_accounts s) = Some a \<and> acct_server a = Some source
      \<and> start_checks E accountID accountID source target s = (Inr vid, s1)
      \<and> start_transfer E accountID source target vid actor s1 = (Inr x, d))"
  proof (cases "find (\<lambda>t. tr_account t = accountID \<and> open_transfer t) (d_transfers s)")
    case None
    with a c show ?thesis
      by (simp add: StartInTransaction_def cast_uuid_def accountEligible_def effect_defs) metis
  next
    case (Some t)
    with a c show ?thesis by (auto simp: StartInTransaction_def cast_uuid_def effect_defs split: if_splits)
  qed
  then show ?thesis
    using I start_inv [OF I] by (auto simp: account_keys_def map_of_lookup)
qed

section \<open>Every interleaving\<close>

text \<open>Other sessions may change anything \<open>same_config\<close> does not mention; a move of an account by another request
  goes through the guards of \<open>vpn_accounts\<close>.  Requests about transfers spell the account's identifier
  canonically.\<close>

inductive transfer_step :: "cfg_db \<Rightarrow> cfg_db \<Rightarrow> bool" where
  step_start: "ce_uuid E a = Some a \<Longrightarrow> transfer_step db (snd (Start fate E a target actor db))"
| step_act: "ce_uuid E a = Some a \<Longrightarrow> transfer_step db (snd (Act fate E a i action actor confirmed db))"
| step_render: "transfer_step db (snd (Render E node db))"
| step_validate: "transfer_step db (snd (Validate E node vid db))"
| step_apply: "transfer_step db (snd (Apply E node vid comment db))"
| step_reapply: "transfer_step db (snd (Reapply E node vid comment db))"
| step_delete: "transfer_step db (snd (DeleteVersion node vid db))"
| step_clear: "transfer_step db (snd (DeleteTerminalConfigApplyJobs node db))"
| step_pin: "transfer_step db (snd (SetConfigVersionPinned node vid pinned db))"
| step_backfill: "transfer_step db (snd (BackfillClientSettings E db))"
| step_claim: "transfer_step db (snd (ClaimNextConfigTask E token db))"
| step_complete: "transfer_step db (snd (CompleteConfigTask E token jid status result message db))"
| step_heartbeat: "transfer_step db (snd (UpdateAgentHeartbeat E agent token version caps db))"
| step_reassign: "transfer_step db (snd (transaction fate (reassign_account E a node) db))"
| step_other: "same_config db db' \<Longrightarrow> transfer_step db db'"

lemma blocked_home:
  assumes "transfer_inv s" "d_auth s = None" "t \<in> set (d_transfers s)" "open_transfer t" "n \<in> {tr_source t, tr_target t}"
  shows "node_blocked s n"
proof -
  have "reserved s t" using assms by (simp add: transfer_inv_def good_def)
  with assms(2,5) show ?thesis by (force simp: reserved_def node_blocked_def)
qed

lemma reassign_inv:
  assumes r: "reassign_account E a node s = (Inr y, s')" and I: "transfer_inv s" "d_auth s = None"
  shows "transfer_inv s'"
proof (cases "s' = s")
  case False
  then obtain row where row: "lookup_row acct_id a (d_accounts s) = Some row" "\<not> (\<exists>n. acct_server row = Some n \<and> node_blocked s n)"
    using r by (auto simp: reassign_account_def transfer_node_guard_def effect_defs split: option.splits if_splits)
  note as = assign_run [OF r]
  have other: "tr_account t \<noteq> a" if t: "t \<in> set (d_transfers s)" "open_transfer t" for t
  proof
    assume e: "tr_account t = a"
    have "map_of (account_keys s) a = Some (Some (home t))" using I(1) t e by (auto simp: transfer_inv_def good_def placed_def)
    then have "acct_server row = Some (home t)" using row(1) by (simp add: account_keys_def map_of_lookup)
    moreover have "node_blocked s (home t)" by (rule blocked_home [OF I t]) (simp add: home_def)
    ultimately show False using row(2) by blast
  qed
  have "good s' t" if "t \<in> set (d_transfers s)" "open_transfer t" "good s t" for t
  proof -
    have "serves s' (tr_account t) (home t) vid" if "serves s (tr_account t) (home t) vid" for vid
      by (rule keeps_versions_serves [OF as(4,5) that])
    then have "placed s' t" using \<open>good s t\<close> other [OF that(1,2)] as(6) [of "tr_account t"] by (auto simp: good_def placed_def)
    then show ?thesis using that(3) as(2,3) by (simp add: good_def reserved_def settled_def quiet_def)
  qed
  then show ?thesis using I(1) as(1-3) by (simp add: transfer_inv_def well_kept_def)
qed (simp add: I)

lemma transaction_stable:
  assumes "\<And>x d. m db = (Inr x, d) \<Longrightarrow> transfer_inv d" "d_auth db = None" "transfer_inv db"
  shows "d_auth (snd (transaction fate m db)) = None \<and> transfer_inv (snd (transaction fate m db))"
proof -
  obtain r db' where "transaction fate m db = (r, db')" by (cases "transaction fate m db")
  from transaction_state [OF this] this assms show ?thesis by auto
qed

lemma transfer_step_inv:
  assumes "transfer_step db db'" "d_auth db = None" "transfer_inv db"
  shows "d_auth db' = None \<and> transfer_inv db'"
  using assms
proof (cases rule: transfer_step.cases)
  case (step_start E a fate target actor)
  then show ?thesis using assms transaction_stable Start_inv unfolding Start_def by metis
next
  case (step_act E a fate i action actor confirmed)
  then show ?thesis using assms transaction_stable Act_inv unfolding Act_def by metis
next
  case (step_reassign fate E a node)
  then show ?thesis using assms transaction_stable reassign_inv by metis
next
  case step_other
  then show ?thesis using assms same_config_inv by (metis same_config_def)
qed (use assms keeps_stable [OF Render_keeps] keeps_stable [OF Validate_keeps] Apply_stable Reapply_stable DeleteVersion_stable
    DeleteTerminalConfigApplyJobs_stable
    keeps_stable [OF SetConfigVersionPinned_keeps] keeps_stable [OF BackfillClientSettings_keeps] ClaimNextConfigTask_stable
    CompleteConfigTask_stable UpdateAgentHeartbeat_stable in \<open>simp_all add: keeps_def stable_def\<close>)

lemma transfer_steps_inv:
  assumes "transfer_step\<^sup>*\<^sup>* db0 db" "d_auth db0 = None" "transfer_inv db0"
  shows "d_auth db = None \<and> transfer_inv db"
  using assms by (induction rule: rtranclp_induct) (auto dest: transfer_step_inv)

text \<open>A database without unfinished transfers and without reservations satisfies the invariant.\<close>

lemma transfer_inv_idle:
  assumes "\<forall>t \<in> set (d_transfers db). \<not> open_transfer t" "d_reservations db = []"
    and "distinct (map tr_id (d_transfers db))" "distinct (map aj_id (d_jobs db))"
  shows "transfer_inv db"
proof -
  have "filter open_transfer (d_transfers db) = []" using assms(1) by (simp add: filter_empty_conv)
  with assms(2-4) show ?thesis by (simp add: transfer_inv_def well_kept_def)
qed

end
