(* ===== verification/Transfer_Continuity.thy ===== *)
theory Transfer_Continuity
  imports Transfer_Safety
begin

text \<open>
  The properties of account transfers and of configuration versions, with an example: an account \<open>a\<close> that is
  being moved from node \<open>s\<close> to node \<open>t\<close> and is deployed on both.
\<close>

section \<open>An example\<close>

definition xt_env :: cfg_env where
  "xt_env = \<lparr>ce_lib = \<lparr>l_quote = (\<lambda>s. s), l_unquote = Some, l_mail = Some, l_url = Some, l_x25519 = (\<lambda>k. k), l_range = (\<lambda>ps. ps)\<rparr>,
     ce_uuid = (\<lambda>u. if u = [] then None else Some u), ce_inet = Some, ce_host = (\<lambda>h. h), ce_gen = (\<lambda>n. replicate n CHR ''u''),
     ce_now = seconds 100, ce_clock = seconds 100, ce_digest = (\<lambda>c. ''digest''), ce_keygen = (\<lambda>_. None), ce_reach = (\<lambda>_ _. True)\<rparr>"

definition xt_server :: "string \<Rightarrow> string \<Rightarrow> server_row" where
  "xt_server i active = \<lparr>srv_id = i, srv_name = i, srv_role = ''vpn'', srv_hostname = None, srv_public_ip = Some ''192.0.2.1'',
     srv_private_ip = None, srv_location = None, srv_provider = None, srv_status = ''active'', srv_vless_port = 443,
     srv_vless_flow = None, srv_vless_network = ''tcp'', srv_reality_private = Some ''k'', srv_reality_public = Some ''p'',
     srv_reality_short = None, srv_reality_name = None, srv_protocol = ''vless'', srv_wg_port = 51820, srv_wg_address = ''10.66.0.1/24'',
     srv_wg_private = None, srv_h2_port = 443, srv_h2_domain = [], srv_h2_email = [], srv_h2_masquerade = [], srv_ss_port = 8388,
     srv_ss_key = [], srv_mt_port = 8443, srv_mt_secret = [], srv_active = Some active, srv_next = 2, srv_protocol_updated = None,
     srv_updated = 0\<rparr>"

definition xt_caps :: json where
  "xt_caps = JObj [(''sing-box'', JBool True), (''systemctl'', JBool True), (''ss'', JBool True),
     (''vpnCore'', JObj [(''state'', JStr ''running'')]),
     (''routegate'', JObj [(''vpnCoreAdapters'', JArr [JObj [(''core'', JStr ''sing-box''), (''protocol'', JStr ''vless''),
        (''transports'', JArr [JStr ''tcp'']), (''securityModes'', JArr [JStr ''reality''])]])])]"

definition xt_agent :: "string \<Rightarrow> agent_row" where
  "xt_agent i = \<lparr>agt_id = i, agt_server = i, agt_hostname = None, agt_os = None, agt_arch = None, agt_version = None,
     agt_status = ''online'', agt_capabilities = Some xt_caps, agt_token = ''token-'' @ i, agt_seen = Some (seconds 99),
     agt_auth_seen = Some (seconds 99), agt_auth_generation = Some 1, agt_generation = 1\<rparr>"

definition xt_account :: "string \<Rightarrow> account_row" where
  "xt_account node = \<lparr>acct_id = ''a'', acct_server = Some node, acct_display = ''A'', acct_status = ''active'', acct_expires = None,
     acct_uuid = Some ''uuid'', acct_wg_private = None, acct_wg_public = None, acct_wg_address = None, acct_h2_password = [],
     acct_ss_key = [], acct_created = 0, acct_config_updated = 0\<rparr>"

definition xt_settings :: "(string \<rightharpoonup> AppliedAccountProtocols) \<Rightarrow> AppliedClientSettings" where
  "xt_settings m = \<lparr>cl_protocol = ''vless'', cl_vless_port = 443, cl_vless_flow = [], cl_vless_network = ''tcp'',
     cl_reality_public = ''p'', cl_reality_short = [], cl_reality_name = [], cl_wg_port = 0, cl_wg_address = [], cl_wg_public = [],
     cl_h2_port = 0, cl_h2_domain = [], cl_ss_port = 0, cl_ss_method = [], cl_ss_key = [], cl_mt_port = 0, cl_mt_secret = [],
     cl_mt_domain = [], cl_accounts = Some m\<rparr>"

definition xt_version :: "string \<Rightarrow> string \<Rightarrow> (string \<rightharpoonup> AppliedAccountProtocols) \<Rightarrow> ConfigVersion" where
  "xt_version i node m = \<lparr>ver_id = i, ver_server = node, ver_version = 1, ver_hash = ''digest'', ver_status = ''applied'',
     ver_payload = Undecodable, ver_settings = Some (xt_settings m), ver_created = seconds 10, ver_applied = Some (seconds 20),
     ver_pinned = True\<rparr>"

definition xt_deployed :: "string \<rightharpoonup> AppliedAccountProtocols" where
  "xt_deployed = [''a'' \<mapsto> \<lparr>ap_primary = ''vless'', ap_protocols = [''vless'']\<rparr>]"

definition xt_job :: "string \<Rightarrow> string \<Rightarrow> string \<Rightarrow> ConfigApplyJob" where
  "xt_job i node v = \<lparr>aj_id = i, aj_server = node, aj_agent = Some node, aj_version = v, aj_action = ''apply'',
     aj_status = ''succeeded'', aj_comment = [], aj_hash = ''digest'', aj_redeploy = False,
     aj_result = Some \<lparr>rep_stage = ''succeeded'', rep_components = [\<lparr>cmp_core = ''sing-box'', cmp_protocol = ''vless'',
       cmp_status = ''succeeded'', cmp_port = 443\<rparr>]\<rparr>,
     aj_error = [], aj_created = seconds 10, aj_updated = seconds 20, aj_started = Some (seconds 15), aj_completed = Some (seconds 20)\<rparr>"

definition xt_transfer :: "transfer_state \<Rightarrow> Transfer" where
  "xt_transfer st = \<lparr>tr_id = ''x'', tr_account = ''a'', tr_source = ''s'', tr_target = ''t'', tr_source_version = ''v1'',
     tr_target_version = Some ''v2'', tr_target_job = Some ''j2'', tr_cleanup_version = Some ''v3'', tr_cleanup_job = Some ''j3'',
     tr_state = st, tr_requested_by = ''op'', tr_last_action_by = ''op'', tr_last_error = [], tr_inventory = [], tr_created = 0,
     tr_updated = 0, tr_cutover = None, tr_cleanup_ack = None, tr_completed = None\<rparr>"

definition xt_db :: "transfer_state \<Rightarrow> string \<Rightarrow> string \<Rightarrow> cfg_db" where
  "xt_db st node active = \<lparr>d_servers = [xt_server ''s'' active, xt_server ''t'' ''v2''], d_agents = [xt_agent ''s'', xt_agent ''t''],
     d_accounts = [xt_account node], d_limits = [], d_profiles = [], d_protocols = [], d_routing = [], d_rules = [],
     d_server_routing = [],
     d_versions = [xt_version ''v1'' ''s'' xt_deployed, xt_version ''v2'' ''t'' xt_deployed, xt_version ''v3'' ''s'' Map.empty],
     d_jobs = [xt_job ''j1'' ''s'' ''v1'', xt_job ''j2'' ''t'' ''v2'', xt_job ''j3'' ''s'' ''v3''],
     d_transfers = [xt_transfer st], d_reservations = [(''s'', ''x''), (''t'', ''x'')], d_tokens = [], d_devices = [],
     d_operations = [], d_platform_jobs = [], d_manager_jobs = [], d_auth = None, d_seq = 0\<rparr>"

lemmas xt_defs = xt_env_def xt_server_def xt_caps_def xt_agent_def xt_account_def xt_settings_def xt_version_def xt_deployed_def
  xt_job_def xt_transfer_def xt_db_def

lemmas xt_eval = effect_run cast_uuid_def lookup_row_def rows_affected_def lockNodes_def authorize_def
  transfer_node_guard_def node_blocked_def find_version_def membership_def appliedProof_def proof_row_def listener_verified_def
  public_host_def accountEligible_def account_eligible_def nodeReady_def node_ready_def vless_core_ready_def member_def json_has_def
  json_elements_def recently_def seconds_def deployed_vless_def reachable_def open_job_def open_transfer_def update_where_def
  select_def Let_def

lemma xt_ready_inv: "transfer_inv (xt_db Target_ready ''s'' ''v1'')"
  by (simp add: transfer_inv_def well_kept_def good_defs deployed_vless_def open_job_def open_transfer_def xt_defs)

lemma xt_cleaning_inv: "transfer_inv (xt_db Source_cleaning ''t'' ''v3'')"
  by (simp add: transfer_inv_def well_kept_def good_defs deployed_vless_def open_job_def open_transfer_def xt_defs)

lemma xt_cutover:
  "\<exists>t db. Act Committed xt_env ''a'' ''x'' ''cutover'' ''op'' False (xt_db Target_ready ''s'' ''v1'') = (Inr (t, None), db)
     \<and> t \<in> set (d_transfers db) \<and> open_transfer t \<and> tr_account t = ''a'' \<and> tr_state t = Client_refresh_pending
     \<and> map_of (account_keys db) ''a'' = Some (Some ''t'')"
  by (simp add: Act_def transaction_def ActInTransaction_def run_step_def act_step_def act_cutover_def record_step_def update_transfer_def
      reassign_account_def address_taken_def retimed_def terminal_state_def account_keys_def xt_eval xt_defs)

lemma xt_finish:
  "\<exists>t db. Act Committed xt_env ''a'' ''x'' ''finish'' ''op'' False (xt_db Source_cleaning ''t'' ''v3'') = (Inr (t, None), db)
     \<and> \<not> open_transfer t \<and> d_reservations db = []"
  by (simp add: Act_def transaction_def ActInTransaction_def run_step_def act_step_def act_finish_def record_step_def update_transfer_def
      finished_state_def terminal_state_def xt_eval xt_defs)

section \<open>Continuity of service\<close>

text \<open>C7. Service continues during a transfer.  Take any interleaving of the requests that start transfers and perform
  their steps (committed, failed, or committed with a lost acknowledgement), renders, validations, deployments,
  redeployments, deletions and pins by operators, claims, completions and heartbeats of Agents, moves of accounts by
  other requests, and changes by other sessions to anything else.  In every state it reaches, the account of an
  unfinished transfer is assigned to the source or the target, and the active version of exactly that node deploys
  VLESS for it with a Reality key.\<close>

theorem transfer_keeps_service:
  assumes "transfer_step\<^sup>*\<^sup>* db0 db" "d_auth db0 = None" "transfer_inv db0" "t \<in> set (d_transfers db)" "open_transfer t"
  shows "\<exists>a s v settings m. lookup_row acct_id (tr_account t) (d_accounts db) = Some a \<and> acct_server a = Some (srv_id s)
     \<and> srv_id s \<in> {tr_source t, tr_target t} \<and> s \<in> set (d_servers db) \<and> srv_active s = Some (ver_id v)
     \<and> v \<in> set (d_versions db) \<and> ver_server v = srv_id s \<and> ver_settings v = Some settings \<and> cl_accounts settings = Some m
     \<and> deployed_vless settings m (tr_account t)"
proof -
  have "good db t" using transfer_steps_inv [OF assms(1-3)] assms(4,5) by (simp add: transfer_inv_def)
  then obtain vid v settings m where a: "map_of (account_keys db) (tr_account t) = Some (Some (home t))"
    and s: "map_of (server_keys db) (home t) = Some (Some vid)" and v: "find_version (home t) vid db = Some v"
    and m: "ver_settings v = Some settings" "cl_accounts settings = Some m" "deployed_vless settings m (tr_account t)"
    by (auto simp: good_def placed_def serves_def)
  from a obtain a where "lookup_row acct_id (tr_account t) (d_accounts db) = Some a" "acct_server a = Some (home t)"
    by (auto simp: account_keys_def map_of_lookup)
  moreover from s obtain s where "s \<in> set (d_servers db)" "srv_id s = home t" "srv_active s = Some vid"
    by (auto simp: server_keys_def map_of_lookup dest: lookup_row_Some)
  moreover have "v \<in> set (d_versions db)" "ver_server v = home t" "ver_id v = vid"
    using v by (auto simp: find_version_def dest: find_SomeD)
  moreover have "home t \<in> {tr_source t, tr_target t}" by (simp add: home_def)
  ultimately show ?thesis using m by metis
qed

theorem transfer_keeps_service_witness:
  "\<exists>db t. transfer_step\<^sup>*\<^sup>* (xt_db Target_ready ''s'' ''v1'') db \<and> t \<in> set (d_transfers db) \<and> tr_state t = Client_refresh_pending
     \<and> (\<exists>a s v settings m. lookup_row acct_id ''a'' (d_accounts db) = Some a \<and> acct_server a = Some (srv_id s)
     \<and> s \<in> set (d_servers db) \<and> srv_active s = Some (ver_id v) \<and> v \<in> set (d_versions db) \<and> ver_server v = srv_id s
     \<and> ver_settings v = Some settings \<and> cl_accounts settings = Some m \<and> deployed_vless settings m ''a'')"
proof -
  obtain t db where c: "Act Committed xt_env ''a'' ''x'' ''cutover'' ''op'' False (xt_db Target_ready ''s'' ''v1'') = (Inr (t, None), db)"
    and t: "t \<in> set (d_transfers db)" "open_transfer t" "tr_account t = ''a''" "tr_state t = Client_refresh_pending"
    using xt_cutover by blast
  have "transfer_step (xt_db Target_ready ''s'' ''v1'')
      (snd (Act Committed xt_env ''a'' ''x'' ''cutover'' ''op'' False (xt_db Target_ready ''s'' ''v1'')))"
    by (rule step_act) (simp add: xt_env_def)
  then have reach: "transfer_step\<^sup>*\<^sup>* (xt_db Target_ready ''s'' ''v1'') db" using c by simp
  have auth: "d_auth (xt_db Target_ready ''s'' ''v1'') = None" by (simp add: xt_db_def)
  note k = transfer_keeps_service [OF reach auth xt_ready_inv t(1,2), unfolded t(3)]
  show ?thesis by (intro exI [of _ db] exI [of _ t] conjI reach t(1,4)) (use k in blast)
qed

section \<open>Who moves an account\<close>

definition same_accounts :: "cfg_db \<Rightarrow> cfg_db \<Rightarrow> bool" where
  "same_accounts s s' \<longleftrightarrow> account_keys s' = account_keys s"

interpretation af: frame same_accounts
  by unfold_locales (simp_all add: same_accounts_def)

lemma keeps_accounts: "keeps same_config m \<Longrightarrow> keeps same_accounts m"
  by (simp add: keeps_def same_config_def same_accounts_def)

lemma update_transfer_accounts: "keeps same_accounts (update_transfer i f)"
  unfolding update_transfer_def by (intro af.keeps_rules af.keeps_change) (simp add: same_accounts_def account_keys_def)

lemma CreateConfigApplyJob_accounts: "keeps same_accounts (CreateConfigApplyJob E node agent v comment redeploy)"
  unfolding CreateConfigApplyJob_def Let_def transfer_node_guard_def
  by (intro af.keeps_rules af.keeps_change keeps_accounts [OF fresh_uuid_keeps]) (simp_all add: same_accounts_def account_keys_def af.keeps_check)

lemma queue_accounts: "keeps same_accounts (queue E tr node cleanup)"
  unfolding queue_def Let_def split_beta Apply_def queue_version_def GetConfigVersion_def
  by (intro af.keeps_rules update_transfer_accounts CreateConfigApplyJob_accounts keeps_accounts [OF Render_keeps]
      keeps_accounts [OF RenderTransferCleanup_keeps] keeps_accounts [OF Validate_keeps] keeps_accounts [OF safe_keeps]
      keeps_accounts [OF info_keeps] keeps_accounts [OF update_versions_keeps]) simp_all

lemmas act_accounts = af.keeps_rules update_transfer_accounts queue_accounts keeps_accounts [OF membership_keeps]
  keeps_accounts [OF appliedProof_keeps] keeps_accounts [OF accountEligible_keeps]

lemma still_accounts:
  "keeps same_accounts (act_verify E a t)" "keeps same_accounts (act_cleanup E a n c t)" "keeps same_accounts (act_retry E t)"
  "keeps same_accounts (act_finish E a t)"
proof -
  show "keeps same_accounts (act_verify E a t)"
    unfolding act_verify_def nodeReady_def reachable_def split_beta by (intro act_accounts)
  show "keeps same_accounts (act_cleanup E a n c t)"
    unfolding act_cleanup_def nodeReady_def by (intro act_accounts)
  show "keeps same_accounts (act_retry E t)"
    unfolding act_retry_def Let_def by (intro act_accounts)
  show "keeps same_accounts (act_finish E a t)"
    unfolding act_finish_def Let_def nodeReady_def
    by (intro act_accounts af.keeps_change) (simp add: same_accounts_def account_keys_def)
qed

lemma record_accounts: "keeps same_accounts (record_step E i st e actor)"
  unfolding record_step_def by (intro act_accounts)

text \<open>The evidence that the target of a transfer serves the account: the Agent's job for exactly the staged version
  succeeded and reports the VLESS listener on the deployed port, the version is active and deploys the account, the
  node is ready, the account eligible, and the listener reachable.\<close>

definition target_proven :: "cfg_env \<Rightarrow> Transfer \<Rightarrow> cfg_db \<Rightarrow> bool" where
  "target_proven E t db \<longleftrightarrow>
     (\<exists>vid j a host port report. tr_target_version t = Some vid \<and> serves db (tr_account t) (tr_target t) vid
        \<and> tr_target_job t = Some (aj_id j) \<and> j \<in> set (d_jobs db) \<and> aj_server j = tr_target t \<and> aj_version j = vid
        \<and> aj_status j = ''succeeded'' \<and> aj_result j = Some report \<and> rep_stage report = ''succeeded''
        \<and> (\<exists>c \<in> set (rep_components report). cmp_core c = ''sing-box'' \<and> cmp_protocol c = ''vless'' \<and> cmp_status c = ''succeeded''
             \<and> cmp_port c = port)
        \<and> 0 < port \<and> ce_reach E host port \<and> node_ready E (tr_target t) db
        \<and> lookup_row acct_id (tr_account t) (d_accounts db) = Some a \<and> account_eligible E a db)"

lemma appliedProof_evidence:
  assumes "appliedProof E n version job s = (Inr (host, port), s')"
  obtains vid j report where "version = Some vid" "job = Some (aj_id j)" "j \<in> set (d_jobs s)" "aj_server j = n" "aj_version j = vid"
    "aj_status j = ''succeeded''" "aj_result j = Some report" "rep_stage report = ''succeeded''"
    "\<exists>c \<in> set (rep_components report). cmp_core c = ''sing-box'' \<and> cmp_protocol c = ''vless'' \<and> cmp_status c = ''succeeded'' \<and> cmp_port c = port"
    "0 < port" "s' = s"
proof -
  from assms obtain vid jid p report settings c where "version = Some vid" "job = Some jid" and pr: "proof_row E n vid jid s = Some p"
    and "aj_status (fst p) = ''succeeded''" "aj_result (fst p) = Some report" "rep_stage report = ''succeeded''"
    and c: "find (listener_verified settings host) (rep_components report) = Some c" "port = cmp_port c" and "s' = s"
    by (auto simp: appliedProof_def effect_defs split_beta)
  moreover from pr have "fst p \<in> set (d_jobs s)" "aj_id (fst p) = jid" "aj_server (fst p) = n" "aj_version (fst p) = vid"
    by (auto simp: proof_row_def Let_def split: option.splits if_splits dest!: find_SomeD)
  moreover have "c \<in> set (rep_components report)" "listener_verified settings host c" using find_SomeD [OF c(1)] by simp_all
  ultimately show thesis by (intro that [of vid "fst p" report]) (auto simp: listener_verified_def)
qed

lemma cutover_moves:
  assumes "act_cutover E (tr_account t) node t s = (Inr t', s1)" "account_keys s1 \<noteq> account_keys s"
  shows "tr_state t = Target_ready" "node = Some (tr_source t)" "target_proven E t s"
    "map_of (account_keys s1) b = (if b = tr_account t then map_option (\<lambda>_. Some (tr_target t)) (map_of (account_keys s) b) else map_of (account_keys s) b)"
proof -
  from assms obtain host port x y z a sb where st: "tr_state t = Target_ready" "node = Some (tr_source t)"
    and pr: "appliedProof E (tr_target t) (tr_target_version t) (tr_target_job t) s = (Inr (host, port), x)"
    and el: "lookup_row acct_id (tr_account t) (d_accounts x) = Some a" "account_eligible E a x"
    and m: "membership (tr_target t) (tr_target_version t) (tr_account t) True x = (Inr (), y)"
    and m': "membership (tr_source t) (Some (tr_source_version t)) (tr_account t) True y = (Inr (), z)"
    and rd: "node_ready E (tr_target t) z" "ce_reach E host port"
    and as: "reassign_account E (tr_account t) (Some (tr_target t)) z = (Inr (), sb)"
    and u: "update_transfer (tr_id t) (\<lambda>t. t\<lparr>tr_cutover := Some (ce_now E)\<rparr>) sb = (Inr (), s1)"
    by (auto simp: act_cutover_def effect_defs split_beta accountEligible_def nodeReady_def reachable_def split: if_splits)
  obtain vid j report where e: "tr_target_version t = Some vid" "tr_target_job t = Some (aj_id j)" "j \<in> set (d_jobs s)" "aj_server j = tr_target t"
    "aj_version j = vid" "aj_status j = ''succeeded''" "aj_result j = Some report" "rep_stage report = ''succeeded''"
    "\<exists>c \<in> set (rep_components report). cmp_core c = ''sing-box'' \<and> cmp_protocol c = ''vless'' \<and> cmp_status c = ''succeeded'' \<and> cmp_port c = port"
    "0 < port" "x = s" by (rule appliedProof_evidence [OF pr])
  have sv: "serves s (tr_account t) (tr_target t) vid" "y = s" using m e(1,11) by (auto elim: membership_present)
  have z: "z = s" using m' sv(2) by (auto elim: membership_present)
  show "tr_state t = Target_ready" "node = Some (tr_source t)" by (rule st)+
  show "target_proven E t s" unfolding target_proven_def using e sv(1) rd el z by blast
  have "account_keys s1 = account_keys sb" using update_transfer_run [OF u] by (simp add: account_keys_def)
  then show "map_of (account_keys s1) b = (if b = tr_account t then map_option (\<lambda>_. Some (tr_target t)) (map_of (account_keys s) b) else map_of (account_keys s) b)"
    using assign_run(6) [OF as, of b] z by simp
qed

lemma rollback_moves:
  assumes r: "act_rollback E (tr_account t) confirmed t s = (Inr t', s1)" and I: "transfer_inv s"
    and "account_keys s1 \<noteq> account_keys s"
  shows "tr_state t = Client_refresh_pending \<longrightarrow> confirmed" "tr_state t \<noteq> Source_cleaning"
    "map_of (account_keys s1) b = (if b = tr_account t then map_option (\<lambda>_. Some (tr_source t)) (map_of (account_keys s) b) else map_of (account_keys s) b)"
proof -
  have st: "tr_state t \<noteq> Target_cleaning" "\<not> (tr_state t \<notin> {Client_refresh_pending, Target_ready, Target_applying})"
    "\<not> (tr_state t = Client_refresh_pending \<and> \<not> confirmed)"
    using assms by (auto simp: act_rollback_def effect_defs split: if_splits)
  from r obtain jid j sa x sb sc where j: "lookup_row aj_id jid (d_jobs s) = Some j"
    and c: "(if aj_status j = ''pending'' then finish_job E jid (cancelled_job E) else ok ()) s = (Inr (), sa)"
    and m: "membership (tr_source t) (Some (tr_source_version t)) (tr_account t) True sa = (Inr (), x)"
    and a: "reassign_account E (tr_account t) (Some (tr_source t)) x = (Inr (), sb)"
    and u: "update_transfer (tr_id t) (\<lambda>t. t\<lparr>tr_state := Target_cleaning\<rparr>) sb = (Inr (), sc)"
    and q: "queue E (t\<lparr>tr_state := Target_cleaning\<rparr>) (tr_target t) True sc = (Inr t', s1)"
    unfolding act_rollback_def if_not_P [OF st(1)] if_not_P [OF st(2)] if_not_P [OF st(3)]
    by (auto simp: effect_defs nodeReady_def reachable_def split_beta)
  show "tr_state t = Client_refresh_pending \<longrightarrow> confirmed" "tr_state t \<noteq> Source_cleaning" using st by auto
  have "account_keys sa = account_keys s"
  proof (cases "aj_status j = ''pending''")
    case True
    with c have f: "finish_job E jid (cancelled_job E) s = (Inr (), sa)" by simp
    have "jobs_frame (touched_node (cancelled_job E j)) s (snd (finish_job E jid (cancelled_job E) s))"
      using I j True by (intro finish_job_frame) (simp_all add: cancelled_job_def open_job_def transfer_inv_def)
    then show ?thesis using f I by (simp add: jobs_frame_def transfer_inv_def)
  qed (use c in \<open>simp add: ok_def\<close>)
  moreover have "x = sa" using m by (auto elim: membership_present)
  moreover have "account_keys s1 = account_keys sc" using keepsD [OF queue_accounts q] by (simp add: same_accounts_def)
  moreover have "account_keys sc = account_keys sb" using update_transfer_run [OF u] by (simp add: account_keys_def)
  ultimately show "map_of (account_keys s1) b = (if b = tr_account t then map_option (\<lambda>_. Some (tr_source t)) (map_of (account_keys s) b) else map_of (account_keys s) b)"
    using assign_run(6) [OF a, of b] by simp
qed

lemma act_moves:
  assumes m: "act_step E (tr_account t) node action confirmed t s = (Inr t', s1)" and d: "account_keys s1 \<noteq> account_keys s"
  shows "action = ''cutover'' \<and> act_cutover E (tr_account t) node t s = (Inr t', s1)
    \<or> action = ''rollback'' \<and> act_rollback E (tr_account t) confirmed t s = (Inr t', s1)"
proof (rule ccontr)
  assume "\<not> ?thesis"
  with m have "act_verify E (tr_account t) t s = (Inr t', s1) \<or> act_cleanup E (tr_account t) node confirmed t s = (Inr t', s1)
      \<or> act_finish E (tr_account t) t s = (Inr t', s1) \<or> act_retry E t s = (Inr t', s1)"
    by (auto simp: act_step_def effect_defs split: if_splits)
  then have "same_accounts s s1" using still_accounts keepsD by metis
  with d show False by (simp add: same_accounts_def)
qed

lemma Act_accounts:
  assumes act: "Act fate E a i action actor confirmed db = (r, db')" and c: "ce_uuid E a = Some a"
    and d: "account_keys db' \<noteq> account_keys db"
  obtains t x t' s1 where "t \<in> set (d_transfers db)" "open_transfer t" "tr_account t = a" "lookup_row acct_id a (d_accounts db) = Some x"
    "act_step E a (acct_server x) action confirmed t (db\<lparr>d_auth := Some i\<rparr>) = (Inr t', s1)" "account_keys db' = account_keys s1"
proof -
  from act [unfolded Act_def] d obtain y e where y: "ActInTransaction E a i action actor confirmed db = (Inr y, e)"
    and e: "db' = e\<lparr>d_auth := None\<rparr>" using transaction_state [of fate _ db r db'] by blast
  obtain u t and x :: account_row where t: "find (\<lambda>t. tr_id t = u \<and> tr_account t = a) (d_transfers db) = Some t"
    and x: "lookup_row acct_id a (d_accounts db) = Some x"
    and q: "\<not> open_transfer t \<and> e = db \<or> open_transfer t
       \<and> run_step E t actor (act_step E a (acct_server x) action confirmed t) (db\<lparr>d_auth := Some i\<rparr>) = (Inr y, e)"
    using y c by (auto simp: ActInTransaction_def cast_uuid_def lockNodes_def authorize_def effect_defs split: if_splits)
  let ?s = "db\<lparr>d_auth := Some i\<rparr>"
  have ke: "account_keys e \<noteq> account_keys ?s" "account_keys db' = account_keys e" using d e by (simp_all add: account_keys_def)
  then have run: "open_transfer t" "run_step E t actor (act_step E a (acct_server x) action confirmed t) ?s = (Inr y, e)"
    using q by (auto simp: account_keys_def)
  obtain q s1 where st: "act_step E a (acct_server x) action confirmed t ?s = (q, s1)" by fastforce
  show thesis
  proof (cases q)
    case (Inl f)
    then have "record_step E (tr_id t) (tr_state t) (Some f) actor ?s = (Inr y, e)"
      using run(2) st by (cases f) (simp_all add: run_step_def)
    then show thesis using keepsD [OF record_accounts] ke(1) by (metis same_accounts_def)
  next
    case (Inr t')
    then have "record_step E (tr_id t) (tr_state t') None actor s1 = (Inr y, e)" using run(2) st by (simp add: run_step_def)
    then have "account_keys e = account_keys s1" using keepsD [OF record_accounts] by (simp add: same_accounts_def)
    then show thesis using that [of t x t' s1] find_SomeD [OF t] run(1) x st Inr ke(2) by simp
  qed
qed

text \<open>C8. A step of a transfer moves an account in two ways only.  A cutover moves it from the source to the target, out of
  the state in which the target was verified, and on evidence collected again in the same transaction: the staged
  version is active on the target and deploys the account, the Agent's job for that version succeeded and reports the
  listener, the node is ready and reachable, the account eligible.  A rollback moves it back from the target to the
  source, and only with the operator's confirmation.  No other account is moved.\<close>

theorem account_moves_with_proof:
  assumes act: "Act fate E a i action actor confirmed db = (r, db')" and c: "ce_uuid E a = Some a"
    and I: "transfer_inv db"
    and x: "lookup_row acct_id b (d_accounts db) = Some x" and x': "lookup_row acct_id b (d_accounts db') = Some x'"
    and ne: "acct_server x' \<noteq> acct_server x"
  shows "\<exists>t \<in> set (d_transfers db). open_transfer t \<and> tr_account t = b
     \<and> (action = ''cutover'' \<and> tr_state t = Target_ready \<and> acct_server x = Some (tr_source t) \<and> acct_server x' = Some (tr_target t)
          \<and> target_proven E t db
        \<or> action = ''rollback'' \<and> tr_state t = Client_refresh_pending \<and> confirmed \<and> acct_server x = Some (tr_target t)
          \<and> acct_server x' = Some (tr_source t))"
proof -
  have keys: "map_of (account_keys db) b = Some (acct_server x)" "map_of (account_keys db') b = Some (acct_server x')"
    using x x' by (simp_all add: account_keys_def map_of_lookup)
  with ne have d: "account_keys db' \<noteq> account_keys db" by auto
  obtain t y t' s1 where t: "t \<in> set (d_transfers db)" "open_transfer t" "tr_account t = a"
    and y: "lookup_row acct_id a (d_accounts db) = Some y"
    and st: "act_step E a (acct_server y) action confirmed t (db\<lparr>d_auth := Some i\<rparr>) = (Inr t', s1)"
    and k: "account_keys db' = account_keys s1" by (rule Act_accounts [OF act c d])
  let ?s = "db\<lparr>d_auth := Some i\<rparr>"
  have ks: "account_keys ?s = account_keys db" by (simp add: account_keys_def)
  have dk: "account_keys s1 \<noteq> account_keys ?s" using d k ks by simp
  have home: "map_of (account_keys db) a = Some (Some (home t))" using I t by (auto simp: transfer_inv_def good_def placed_def)
  have pv: "target_proven E t ?s = target_proven E t db"
    by (simp add: target_proven_def serves_def server_keys_def find_version_def node_ready_def account_eligible_def)
  from act_moves [OF st [folded t(3)] dk] show ?thesis
  proof (elim disjE conjE)
    assume ac: "action = ''cutover''" and cu: "act_cutover E (tr_account t) (acct_server y) t ?s = (Inr t', s1)"
    note cm = cutover_moves [OF cu dk]
    have "b = a" using cm(4) [of b] keys k ks ne t(3) by (auto split: if_splits)
    then have "acct_server x = Some (tr_source t)" "acct_server x' = Some (tr_target t)"
      using cm(2) cm(4) [of b] keys k ks t(3) x y by auto
    then show ?thesis using t \<open>b = a\<close> ac cm(1,3) pv by auto
  next
    assume ac: "action = ''rollback''" and rb: "act_rollback E (tr_account t) confirmed t ?s = (Inr t', s1)"
    have Is: "transfer_inv ?s" using I by simp
    note rm = rollback_moves [OF rb Is dk]
    have "b = a" using rm(3) [of b] keys k ks ne t(3) by (auto split: if_splits)
    then have xs: "acct_server x = Some (home t)" "acct_server x' = Some (tr_source t)"
      using home rm(3) [of b] keys k ks t(3) by auto
    with ne rm(2) have "tr_state t = Client_refresh_pending" "home t = tr_target t" by (auto simp: home_def split: if_splits)
    then show ?thesis using t \<open>b = a\<close> ac rm(1) xs by auto
  qed
qed

theorem account_moves_with_proof_witness:
  "target_proven xt_env (xt_transfer Target_ready) (xt_db Target_ready ''s'' ''v1'')"
proof -
  obtain t db where c: "Act Committed xt_env ''a'' ''x'' ''cutover'' ''op'' False (xt_db Target_ready ''s'' ''v1'') = (Inr (t, None), db)"
    and k: "map_of (account_keys db) ''a'' = Some (Some ''t'')" using xt_cutover by blast
  from k obtain x' where x': "lookup_row acct_id ''a'' (d_accounts db) = Some x'" "acct_server x' = Some ''t''"
    by (auto simp: account_keys_def map_of_lookup)
  have x: "lookup_row acct_id ''a'' (d_accounts (xt_db Target_ready ''s'' ''v1'')) = Some (xt_account ''s'')"
    by (simp add: xt_db_def xt_account_def lookup_row_def)
  have ne: "acct_server x' \<noteq> acct_server (xt_account ''s'')" using x'(2) by (simp add: xt_account_def)
  have u: "ce_uuid xt_env ''a'' = Some ''a''" by (simp add: xt_env_def)
  have ts: "d_transfers (xt_db Target_ready ''s'' ''v1'') = [xt_transfer Target_ready]" by (simp add: xt_db_def)
  from account_moves_with_proof [OF c u xt_ready_inv x x'(1) ne] show ?thesis unfolding ts by auto
qed

section \<open>The end of a transfer\<close>

definition cleaned :: "Transfer \<Rightarrow> string" where
  "cleaned t = (if tr_state t = Target_cleaning then tr_target t else tr_source t)"

definition undeployed :: "cfg_db \<Rightarrow> string \<Rightarrow> string \<Rightarrow> bool" where
  "undeployed db acct node \<longleftrightarrow>
     (\<exists>vid v settings m. map_of (server_keys db) node = Some (Some vid) \<and> find_version node vid db = Some v
        \<and> ver_settings v = Some settings \<and> cl_accounts settings = Some m \<and> m acct = None)"

text \<open>The absence check compares spellings: for an account that is deployed, it passes under another spelling of
  the identifier, which the casts of the other statements accept.\<close>

lemma absence_check_depends_on_spelling:
  "(\<exists>settings. cl_accounts settings = Some xt_deployed \<and> deployed_vless settings xt_deployed ''a'')
   \<and> fst (membership ''s'' (Some ''v1'') ''a'' False (xt_db Target_ready ''s'' ''v1'')) = Inl (Guard ''cleanup_still_contains_account'')
   \<and> fst (membership ''s'' (Some ''v1'') ''A'' False (xt_db Target_ready ''s'' ''v1'')) = Inr ()"
proof (intro conjI exI)
  show "cl_accounts (xt_settings xt_deployed) = Some xt_deployed" "deployed_vless (xt_settings xt_deployed) xt_deployed ''a''"
    by (simp_all add: xt_settings_def xt_deployed_def deployed_vless_def)
  show "fst (membership ''s'' (Some ''v1'') ''a'' False (xt_db Target_ready ''s'' ''v1'')) = Inl (Guard ''cleanup_still_contains_account'')"
    "fst (membership ''s'' (Some ''v1'') ''A'' False (xt_db Target_ready ''s'' ''v1'')) = Inr ()"
    by (simp_all add: xt_eval xt_defs)
qed

lemma membership_absent:
  assumes "membership n version acct False s = (Inr y, s')"
  shows "undeployed s acct n" "s' = s"
proof -
  from assms obtain vid srv v st m where "lookup_row srv_id n (d_servers s) = Some srv" "find_version n vid s = Some v"
    "srv_active srv = Some vid" "ver_settings v = Some st" "cl_accounts st = Some m" "m acct = None" and s: "s' = s"
    by (auto simp: membership_def effect_defs)
  then show "undeployed s acct n" by (auto simp: undeployed_def server_keys_def map_of_lookup)
  show "s' = s" by (rule s)
qed

lemma act_finish_run:
  assumes "act_finish E a t s = (Inr t', s1)"
  shows "tr_state t = Source_cleaning \<or> tr_state t = Target_cleaning" "undeployed s a (cleaned t)" "tr_state t' = finished_state t"
    "s1 = s\<lparr>d_transfers := update_where (\<lambda>u. tr_id u = tr_id t) (\<lambda>u. u\<lparr>tr_state := finished_state t, tr_completed := Some (ce_now E)\<rparr>) (d_transfers s),
           d_reservations := select (\<lambda>r. snd r \<noteq> tr_id t) (d_reservations s)\<rparr>"
proof -
  let ?f = "\<lambda>u :: Transfer. u\<lparr>tr_state := finished_state t, tr_completed := Some (ce_now E)\<rparr>"
  from assms obtain p x y sa where st: "tr_state t = Source_cleaning \<or> tr_state t = Target_cleaning" "tr_state t' = finished_state t"
    and pr: "appliedProof E (cleaned t) (tr_cleanup_version t) (tr_cleanup_job t) s = (Inr p, x)"
    and m: "membership (cleaned t) (tr_cleanup_version t) a False x = (Inr (), y)"
    and u: "update_transfer (tr_id t) ?f y = (Inr (), sa)"
    and s1: "s1 = sa\<lparr>d_reservations := select (\<lambda>r. snd r \<noteq> tr_id t) (d_reservations sa)\<rparr>"
    unfolding cleaned_def by (auto simp: act_finish_def Let_def effect_defs nodeReady_def split: if_splits)
  from pr have x: "x = s" by (rule appliedProof_done)
  note ab = membership_absent [OF m [unfolded x]]
  show "tr_state t = Source_cleaning \<or> tr_state t = Target_cleaning" "tr_state t' = finished_state t" "undeployed s a (cleaned t)"
    by (fact st ab(1))+
  show "s1 = s\<lparr>d_transfers := update_where (\<lambda>u. tr_id u = tr_id t) ?f (d_transfers s),
           d_reservations := select (\<lambda>r. snd r \<noteq> tr_id t) (d_reservations s)\<rparr>"
    using update_transfer_run [OF u] ab(2) s1 by simp
qed

text \<open>C30. A transfer that finishes leaves the account deployed on exactly one of its two nodes: the node it is assigned
  to still deploys it, the active version of the other node lists its accounts and the account is not among them, the
  transfer is in a final state, and both nodes are released.\<close>

theorem finish_leaves_one_deployment:
  assumes act: "Act fate E a i ''finish'' actor confirmed db = (Inr (t', None), db')" and c: "ce_uuid E a = Some a" "ce_uuid E i = Some (tr_id t)"
    and I: "transfer_inv db" and t: "t \<in> set (d_transfers db)" "open_transfer t" "tr_account t = a"
  shows "map_of (account_keys db') a = Some (Some (home t)) \<and> (\<exists>vid. serves db' a (home t) vid)
     \<and> undeployed db' a (cleaned t) \<and> {home t, cleaned t} = {tr_source t, tr_target t} \<and> home t \<noteq> cleaned t
     \<and> tr_id t' = tr_id t \<and> terminal_state (tr_state t') \<and> \<not> open_transfer t' \<and> tr_id t \<notin> snd ` set (d_reservations db')"
proof -
  have w: "well_kept db" and g: "good db t" using I t by (simp_all add: transfer_inv_def)
  have only: "u = t" if "u \<in> set (d_transfers db)" "tr_id u = tr_id t" for u
    using w t that distinct_key_eq [of tr_id "d_transfers db" u t] by (simp add: well_kept_def)
  have find: "find (\<lambda>u. tr_id u = tr_id t \<and> tr_account u = a) (d_transfers db) = Some t"
  proof (cases "find (\<lambda>u. tr_id u = tr_id t \<and> tr_account u = a) (d_transfers db)")
    case None
    with t show ?thesis by (auto simp: find_None_iff)
  next
    case (Some u)
    with only show ?thesis by (auto dest: find_SomeD)
  qed
  let ?s = "db\<lparr>d_auth := Some i\<rparr>"
  from act obtain e where e: "ActInTransaction E a i ''finish'' actor confirmed db = (Inr (t', None), e)" "db' = e\<lparr>d_auth := None\<rparr>"
    by (auto simp: Act_def transaction_def split: prod.splits sum.splits commit_fate.splits)
  with c t find have run: "run_step E t actor (act_finish E a t) ?s = (Inr (t', None), e)"
    by (auto simp: ActInTransaction_def cast_uuid_def lockNodes_def authorize_def effect_defs act_step_def)
  then obtain u s1 where fin: "act_finish E a t ?s = (Inr u, s1)" and rec: "record_step E (tr_id t) (tr_state u) None actor s1 = (Inr (t', None), e)"
    by (auto simp: run_step_def record_step_def effect_defs split: prod.splits sum.splits fault.splits)
  note fr = act_finish_run [OF fin]
  define f where "f = (\<lambda>u :: Transfer. u\<lparr>tr_state := finished_state t, tr_completed := Some (ce_now E)\<rparr>)"
  define h where "h = (\<lambda>v :: Transfer. v\<lparr>tr_state := tr_state u, tr_last_error := [], tr_last_action_by := actor, tr_updated := ce_now E\<rparr>)"
  have e': "e = s1\<lparr>d_transfers := update_where (\<lambda>v. tr_id v = tr_id t) h (d_transfers s1)\<rparr>"
    and t': "lookup_row tr_id (tr_id t) (d_transfers e) = Some t'"
    using rec unfolding record_step_def h_def by (auto simp: effect_defs dest!: update_transfer_run)
  have "d_transfers e = update_where (\<lambda>v. tr_id v = tr_id t) (h \<circ> f) (d_transfers db)"
    unfolding e' by (simp add: fr(4) f_def [symmetric]) (rule update_where_twice, simp add: f_def)
  then obtain v where "tr_id v = tr_id t" "v \<in> set (d_transfers db)" "t' = h (f v)" using lookup_row_Some [OF t']
    by (auto simp: set_update_where h_def f_def)
  then have tt: "t' = h (f t)" using only by metis
  have "account_keys db' = account_keys db" "server_keys db' = server_keys db" "\<And>n k. find_version n k db' = find_version n k db"
    "d_reservations db' = select (\<lambda>r. snd r \<noteq> tr_id t) (d_reservations db)"
    by (simp_all add: e(2) e' fr(4) account_keys_def server_keys_def find_version_def)
  moreover have "undeployed ?s a n = undeployed db a n" for n by (simp add: undeployed_def server_keys_def find_version_def)
  moreover have "{home t, cleaned t} = {tr_source t, tr_target t} \<and> home t \<noteq> cleaned t"
    using fr(1) g by (auto simp: home_def cleaned_def good_def reserved_def)
  moreover have "terminal_state (tr_state t')" "tr_id t' = tr_id t" "\<not> open_transfer t'"
    using fr(3) by (simp_all add: tt h_def f_def finished_state_def terminal_state_def open_transfer_def)
  ultimately show ?thesis using fr(2) g t(3) by (auto simp: good_def placed_def serves_def undeployed_def select_def)
qed

theorem finish_leaves_one_deployment_witness:
  "\<exists>t db. Act Committed xt_env ''a'' ''x'' ''finish'' ''op'' False (xt_db Source_cleaning ''t'' ''v3'') = (Inr (t, None), db)
     \<and> undeployed db ''a'' ''s'' \<and> (\<exists>vid. serves db ''a'' ''t'' vid)"
proof -
  obtain t db where c: "Act Committed xt_env ''a'' ''x'' ''finish'' ''op'' False (xt_db Source_cleaning ''t'' ''v3'') = (Inr (t, None), db)"
    using xt_finish by blast
  have "home (xt_transfer Source_cleaning) = ''t''" "cleaned (xt_transfer Source_cleaning) = ''s''"
    by (simp_all add: home_def cleaned_def xt_transfer_def)
  with finish_leaves_one_deployment [OF c, of "xt_transfer Source_cleaning"] xt_cleaning_inv
  have "undeployed db ''a'' ''s'' \<and> (\<exists>vid. serves db ''a'' ''t'' vid)"
    by (simp add: xt_env_def xt_transfer_def xt_db_def open_transfer_def)
  with c show ?thesis by blast
qed

section \<open>Reserved nodes\<close>

definition blocked_idle :: "string \<Rightarrow> cfg_db \<Rightarrow> cfg_db \<Rightarrow> bool" where
  "blocked_idle node s s' \<longleftrightarrow> (node_blocked s node \<longrightarrow> node_blocked s' node \<and> d_jobs s' = d_jobs s)"

interpretation bf: frame "blocked_idle node" for node
  by unfold_locales (simp_all add: blocked_idle_def)

lemma keeps_blocked: "keeps same_config m \<Longrightarrow> keeps (blocked_idle node) m"
  by (simp add: keeps_def same_config_def blocked_idle_def node_blocked_def)

lemma blocked_job:
  "node_blocked s node \<Longrightarrow> CreateConfigApplyJob E node agent v comment redeploy s
     = (Inl (Raised ''node_reserved_for_transfer''), s\<lparr>d_seq := Suc (d_seq s)\<rparr>)"
  by (simp add: CreateConfigApplyJob_def effect_run fresh_uuid_def transfer_node_guard_def Let_def node_blocked_def)

lemma queue_version_blocked:
  "keeps (blocked_idle node) (queue_version E node v comment redeploy)"
  "node_blocked s node \<Longrightarrow> queue_version E node v comment redeploy s \<noteq> (Inr j, s')"
proof -
  have c: "keeps (blocked_idle node) (CreateConfigApplyJob E node agent v cm redeploy)" for agent cm
    by (auto simp: keeps_def blocked_idle_def blocked_job node_blocked_def)
  show "keeps (blocked_idle node) (queue_version E node v comment redeploy)"
    unfolding queue_version_def
    by (intro bf.keeps_rules c keeps_blocked [OF safe_keeps] keeps_blocked [OF info_keeps])
  assume b: "node_blocked s node"
  show "queue_version E node v comment redeploy s \<noteq> (Inr j, s')"
  proof
    assume "queue_version E node v comment redeploy s = (Inr j, s')"
    then obtain x sa info sb and ag :: AgentConfigInfo where "ensureConfigVersionSafeForApply E v s = (Inr x, sa)"
      "GetServerConfigInfo E node sa = (Inr info, sb)"
      and q: "CreateConfigApplyJob E node (ag_id ag) v (TrimSpace comment) redeploy sb = (Inr j, s')"
      by (auto simp: queue_version_def effect_defs)
    then have "same_config s sb" using keepsD [OF safe_keeps] keepsD [OF info_keeps] cf.frame_trans by metis
    then have "node_blocked sb node" using b by (simp add: same_config_def node_blocked_def)
    with q show False by (simp add: blocked_job)
  qed
qed

lemma Apply_blocked:
  assumes "node_blocked s node"
  shows "\<exists>e. fst (Apply E node vid comment s) = Inl e" "d_jobs (snd (Apply E node vid comment s)) = d_jobs s"
    "\<exists>e. fst (Reapply E node vid comment s) = Inl e" "d_jobs (snd (Reapply E node vid comment s)) = d_jobs s"
proof -
  have "keeps (blocked_idle node) (Apply E node vid comment)" "keeps (blocked_idle node) (Reapply E node vid comment)"
    unfolding Apply_def Reapply_def GetConfigVersion_def by (intro bf.keeps_rules queue_version_blocked(1))+
  with assms show "d_jobs (snd (Apply E node vid comment s)) = d_jobs s" "d_jobs (snd (Reapply E node vid comment s)) = d_jobs s"
    by (simp_all add: keeps_def blocked_idle_def)
  have "Apply E node vid comment s \<noteq> (Inr j, s')" "Reapply E node vid comment s \<noteq> (Inr j, s')" for j s'
    using queue_version_blocked(2) [OF assms] by (auto simp: Apply_def Reapply_def GetConfigVersion_def effect_defs)
  then show "\<exists>e. fst (Apply E node vid comment s) = Inl e" "\<exists>e. fst (Reapply E node vid comment s) = Inl e"
    by (metis prod.collapse sum.exhaust)+
qed

text \<open>C31. A node of an unfinished transfer refuses all other work: deploying or redeploying any version on it fails and
  queues nothing, and a request that moves the account anywhere but where it already is fails and moves nothing.\<close>

theorem reserved_node_refuses_work:
  assumes I: "transfer_inv db" "d_auth db = None" and t: "t \<in> set (d_transfers db)" "open_transfer t" and n: "node \<in> {tr_source t, tr_target t}"
  shows "(\<exists>e. fst (Apply E node vid comment db) = Inl e) \<and> d_jobs (snd (Apply E node vid comment db)) = d_jobs db
     \<and> (\<exists>e. fst (Reapply E node vid comment db) = Inl e) \<and> d_jobs (snd (Reapply E node vid comment db)) = d_jobs db
     \<and> (dest \<noteq> Some (home t) \<longrightarrow> (\<exists>e. reassign_account E (tr_account t) dest db = (Inl e, db)))"
proof -
  have "node_blocked db node" by (rule blocked_home [OF I t n])
  note ap = Apply_blocked [OF this]
  have "\<exists>e. reassign_account E (tr_account t) dest db = (Inl e, db)" if d: "dest \<noteq> Some (home t)"
  proof -
    have "map_of (account_keys db) (tr_account t) = Some (Some (home t))" using I(1) t by (auto simp: transfer_inv_def good_def placed_def)
    then obtain a where a: "lookup_row acct_id (tr_account t) (d_accounts db) = Some a" "acct_server a = Some (home t)"
      by (auto simp: account_keys_def map_of_lookup)
    have "node_blocked db (home t)" by (rule blocked_home [OF I t]) (simp add: home_def)
    with a d show ?thesis by (auto simp: reassign_account_def effect_run transfer_node_guard_def)
  qed
  with ap show ?thesis by blast
qed

theorem reserved_node_refuses_work_witness:
  "\<exists>e. reassign_account xt_env ''a'' None (xt_db Target_ready ''s'' ''v1'') = (Inl e, xt_db Target_ready ''s'' ''v1'')"
proof -
  have "xt_transfer Target_ready \<in> set (d_transfers (xt_db Target_ready ''s'' ''v1''))" "open_transfer (xt_transfer Target_ready)"
    "d_auth (xt_db Target_ready ''s'' ''v1'') = None" "tr_account (xt_transfer Target_ready) = ''a''"
    by (simp_all add: xt_db_def xt_transfer_def open_transfer_def)
  then show ?thesis
    using reserved_node_refuses_work [OF xt_ready_inv, of "xt_transfer Target_ready" "tr_source (xt_transfer Target_ready)" xt_env "[]" "[]" None]
    by simp
qed

section \<open>Versions\<close>

definition safe_job :: "cfg_env \<Rightarrow> string \<Rightarrow> string \<Rightarrow> cfg_db \<Rightarrow> ConfigApplyJob \<Rightarrow> (ConfigVersion \<Rightarrow> bool) \<Rightarrow> bool" where
  "safe_job E node vid db j P \<longleftrightarrow>
     (\<exists>v listed c. find_version node vid db = Some v \<and> P v \<and> ver_payload v = Payload listed c
        \<and> vr_errors (ValidateRenderedConfig (ce_lib E) c) = [] \<and> configuredVPNServicesReady (ce_lib E) c
        \<and> EqualFold (hashRenderedConfig E c) (TrimSpace (ver_hash v))
        \<and> aj_version j = vid \<and> aj_server j = node \<and> aj_status j = ''pending'' \<and> aj_hash j = ver_hash v)"

lemma queue_version_jobs:
  "case queue_version E node v comment redeploy s of
     (Inl e, s') \<Rightarrow> d_jobs s' = d_jobs s
   | (Inr j, s') \<Rightarrow> d_jobs s' = d_jobs s @ [j] \<and> (\<exists>listed c. ver_payload v = Payload listed c
       \<and> vr_errors (ValidateRenderedConfig (ce_lib E) c) = [] \<and> configuredVPNServicesReady (ce_lib E) c
       \<and> EqualFold (hashRenderedConfig E c) (TrimSpace (ver_hash v))
       \<and> aj_version j = ver_id v \<and> aj_server j = node \<and> aj_status j = ''pending'' \<and> aj_hash j = ver_hash v)"
proof -
  obtain r1 s1 where a: "ensureConfigVersionSafeForApply E v s = (r1, s1)" by fastforce
  have s1: "s1 = s" using a by (auto simp: ensureConfigVersionSafeForApply_def effect_run split: payload.splits if_splits)
  have safe: "\<exists>listed c. ver_payload v = Payload listed c
       \<and> vr_errors (ValidateRenderedConfig (ce_lib E) c) = [] \<and> configuredVPNServicesReady (ce_lib E) c
       \<and> EqualFold (hashRenderedConfig E c) (TrimSpace (ver_hash v))" if "r1 = Inr x" for x
    using a that by (auto simp: ensureConfigVersionSafeForApply_def effect_defs vr_valid_def split: payload.splits)
  obtain r2 s2 where b: "GetServerConfigInfo E node s = (r2, s2)" by fastforce
  have s2: "d_jobs s2 = d_jobs s" using keepsD [OF info_keeps b] by (simp add: same_config_def)
  have job: "case CreateConfigApplyJob E node ag v cm redeploy s2 of (Inl e, s') \<Rightarrow> d_jobs s' = d_jobs s
     | (Inr j, s') \<Rightarrow> d_jobs s' = d_jobs s @ [j] \<and> aj_version j = ver_id v \<and> aj_server j = node \<and> aj_status j = ''pending'' \<and> aj_hash j = ver_hash v"
    for ag cm using s2 by (simp add: CreateConfigApplyJob_def effect_run fresh_uuid_def transfer_node_guard_def Let_def)
  show ?thesis
  proof (cases r1)
    case (Inl e)
    then show ?thesis using a s1 by (simp add: queue_version_def andThen_def)
  next
    case (Inr x)
    note r1 = Inr
    show ?thesis
    proof (cases r2)
      case (Inl e)
      then show ?thesis using a b s1 s2 r1 by (simp add: queue_version_def andThen_def)
    next
      case (Inr info)
      show ?thesis
      proof (cases "(case EffectiveDeploymentRole (si_role info) of None \<Rightarrow> False | Some r \<Rightarrow> HostsVPNPlane r) \<and> si_agent info \<noteq> None")
        case True
        then obtain ag where ag: "si_agent info = Some ag" by blast
        have "queue_version E node v comment redeploy s = CreateConfigApplyJob E node (ag_id ag) v (TrimSpace comment) redeploy s2"
          using a b s1 r1 Inr True ag by (simp add: queue_version_def andThen_def need_def some_or_def ok_def)
        then show ?thesis using job [of "ag_id ag" "TrimSpace comment"] safe [OF r1] by (auto split: prod.splits sum.splits)
      next
        case False
        then show ?thesis using a b s1 s2 r1 Inr
          by (auto simp: queue_version_def andThen_def need_def some_or_def ok_def fail_def split: option.splits prod.splits)
      qed
    qed
  qed
qed

text \<open>C32. Only a safe version is queued.  Deploying and redeploying either fail and queue nothing, or queue one pending job
  for exactly the requested version of the node, whose stored configuration decodes, passes the validation, has every
  configured service ready and still has the hash that was recorded; the version was validated, or deployed before.\<close>

theorem queued_version_is_safe:
  "(case Apply E node vid comment db of
      (Inl e, db') \<Rightarrow> d_jobs db' = d_jobs db
    | (Inr j, db') \<Rightarrow> d_jobs db' = d_jobs db @ [j] \<and> safe_job E node vid db j (\<lambda>v. ver_status v = ''validated''))
   \<and> (case Reapply E node vid comment db of
      (Inl e, db') \<Rightarrow> d_jobs db' = d_jobs db
    | (Inr j, db') \<Rightarrow> d_jobs db' = d_jobs db @ [j] \<and> safe_job E node vid db j (\<lambda>v. ver_applied v \<noteq> None))"
proof (cases "find_version node vid db")
  case None
  then show ?thesis by (simp add: Apply_def Reapply_def GetConfigVersion_def effect_run)
next
  case (Some v)
  then have "ver_id v = vid" by (auto simp: find_version_def dest: find_SomeD)
  with Some queue_version_jobs [where E = E and node = node and v = v and comment = comment and redeploy = False and s = db]
    queue_version_jobs [where E = E and node = node and v = v and comment = comment and redeploy = True and s = db] show ?thesis
    by (auto simp: Apply_def Reapply_def GetConfigVersion_def find_or_def andThen_def look_def some_or_def need_def ok_def fail_def
        safe_job_def split: prod.splits sum.splits)
qed

text \<open>A version the lifecycle must not lose: pinned, active on its node, being deployed, or the proof of an unfinished
  transfer.\<close>

definition protected :: "cfg_db \<Rightarrow> ConfigVersion \<Rightarrow> bool" where
  "protected db v \<longleftrightarrow>
     ver_pinned v \<or> version_in_use db (ver_id v) \<or> (\<exists>j \<in> set (d_jobs db). aj_version j = ver_id v \<and> open_job j)
     \<or> (\<exists>s. lookup_row srv_id (ver_server v) (d_servers db) = Some s \<and> srv_active s = Some (ver_id v))"

lemma delete_versions_spares:
  assumes d: "distinct (map ver_id (d_versions db))" and v: "v \<in> set (d_versions db)" "\<not> P db v \<or> version_in_use db (ver_id v)"
  shows "v \<in> set (d_versions (snd (delete_versions P db)))"
proof (cases "\<exists>w \<in> set (d_versions db). P db w \<and> version_in_use db (ver_id w)")
  case True
  then have "snd (delete_versions P db) = db" by (auto simp: delete_versions_def effect_run)
  with v show ?thesis by simp
next
  case False
  with v have np: "\<not> P db v" by blast
  define gone where "gone = ver_id ` set (select (P db) (d_versions db))"
  have "ver_id v \<notin> gone"
  proof
    assume "ver_id v \<in> gone"
    then obtain w where "w \<in> set (d_versions db)" "P db w" "ver_id w = ver_id v" by (auto simp: gone_def select_def)
    with np v(1) distinct_key_eq [OF d] show False by metis
  qed
  moreover obtain r s1 where j: "delete_jobs (\<lambda>_ j. aj_version j \<in> gone) db = (r, s1)" by fastforce
  moreover have "d_versions s1 = d_versions db"
    using j by (auto simp: delete_jobs_def effect_run Let_def split: if_splits)
  ultimately show ?thesis using False v(1) unfolding delete_versions_def gone_def
    by (cases r) (simp_all add: effect_run Let_def select_def)
qed

lemma DeleteVersion_versions:
  "d_versions (snd (DeleteVersion node vid db)) = d_versions db
   \<or> (\<exists>w s. find_version node vid db = Some w \<and> \<not> ver_pinned w \<and> lookup_row srv_id node (d_servers db) = Some s
        \<and> srv_active s \<noteq> Some (ver_id w)
        \<and> d_versions (snd (DeleteVersion node vid db))
          = d_versions (snd (delete_versions (\<lambda>db v. ver_server v = node \<and> ver_id v = vid \<and> deletable db v) db)))"
proof -
  let ?P = "\<lambda>db v. ver_server v = node \<and> ver_id v = vid \<and> deletable db v"
  consider "find_version node vid db = None \<or> lookup_row srv_id node (d_servers db) = None"
    | w s where "find_version node vid db = Some w" "lookup_row srv_id node (d_servers db) = Some s"
    by (metis option.exhaust)
  then show ?thesis
  proof cases
    case 1
    then show ?thesis
      by (auto simp: DeleteVersion_def GetConfigVersion_def GetCurrentConfigVersionID_def effect_run split: option.splits)
  next
    case 2
    obtain r s1 where del: "delete_versions ?P db = (r, s1)" by fastforce
    show ?thesis
    proof (cases "srv_active s \<noteq> Some (ver_id w) \<and> \<not> ver_pinned w \<and> \<not> HasActiveConfigApplyJob node vid db")
      case True
      have "d_versions (snd (DeleteVersion node vid db)) = (case r of Inl _ \<Rightarrow> d_versions db | Inr _ \<Rightarrow> d_versions s1)"
        using True 2 del by (cases r) (simp_all add: DeleteVersion_def GetConfigVersion_def GetCurrentConfigVersionID_def DeleteConfigVersion_def effect_run)
      with True 2 del show ?thesis by (cases r) auto
    next
      case False
      with 2 have "snd (DeleteVersion node vid db) = db"
        by (auto simp: DeleteVersion_def GetConfigVersion_def GetCurrentConfigVersionID_def effect_run)
      then show ?thesis by simp
    qed
  qed
qed

text \<open>C33. The version lifecycle never loses a protected version: neither a deletion requested by an operator nor the
  pruning of a node's history removes a version that is pinned, active on its node, being deployed, or the proof of an
  unfinished transfer.\<close>

theorem protected_versions_survive:
  assumes d: "distinct (map ver_id (d_versions db))" and v: "v \<in> set (d_versions db)" "protected db v"
  shows "v \<in> set (d_versions (snd (DeleteVersion node vid db))) \<and> v \<in> set (d_versions (snd (prune_config_versions node db)))"
proof
  have "v \<notin> set (drop 5 (version_history node db)) \<or> version_in_use db (ver_id v)"
  proof (rule ccontr)
    assume "\<not> ?thesis"
    then have "v \<in> set (version_history node db)" "\<not> version_in_use db (ver_id v)"
      using in_set_dropD [of v 5 "version_history node db"] by simp_all
    with v(2) show False by (auto simp: version_history_def protected_def select_def)
  qed
  then show "v \<in> set (d_versions (snd (prune_config_versions node db)))"
    using delete_versions_spares [OF d v(1), of "\<lambda>db v. v \<in> set (drop 5 (version_history node db))"]
    by (auto simp: prune_config_versions_def andThen_def ok_def split: prod.splits sum.splits)
  show "v \<in> set (d_versions (snd (DeleteVersion node vid db)))"
  proof (rule ccontr)
    let ?P = "\<lambda>db v. ver_server v = node \<and> ver_id v = vid \<and> deletable db v"
    assume gone: "v \<notin> set (d_versions (snd (DeleteVersion node vid db)))"
    then obtain w s where w: "find_version node vid db = Some w" "\<not> ver_pinned w" "lookup_row srv_id node (d_servers db) = Some s"
      "srv_active s \<noteq> Some (ver_id w)" "d_versions (snd (DeleteVersion node vid db)) = d_versions (snd (delete_versions ?P db))"
      using DeleteVersion_versions [of node vid db] v(1) by auto
    with gone delete_versions_spares [OF d v(1), of ?P]
    have p: "ver_server v = node" "ver_id v = vid" "deletable db v" "\<not> version_in_use db (ver_id v)" by auto
    have "w \<in> set (d_versions db)" "ver_id w = ver_id v" using w(1) p(2) by (auto simp: find_version_def dest: find_SomeD)
    then have "w = v" using distinct_key_eq [OF d] v(1) by metis
    with w p v(2) show False by (auto simp: protected_def deletable_def)
  qed
qed

theorem protected_versions_survive_witness:
  "xt_version ''v1'' ''s'' xt_deployed \<in> set (d_versions (snd (DeleteVersion ''s'' ''v1'' (xt_db Target_ready ''s'' ''v1''))))"
proof -
  have "distinct (map ver_id (d_versions (xt_db Target_ready ''s'' ''v1'')))"
    "xt_version ''v1'' ''s'' xt_deployed \<in> set (d_versions (xt_db Target_ready ''s'' ''v1''))"
    "protected (xt_db Target_ready ''s'' ''v1'') (xt_version ''v1'' ''s'' xt_deployed)"
    by (simp_all add: xt_db_def xt_version_def protected_def)
  then show ?thesis using protected_versions_survive [of "xt_db Target_ready ''s'' ''v1''"] by blast
qed

end
