(* ===== verification/Selection_Move.thy ===== *)
theory Selection_Move
  imports Selection Transfer_Continuity
begin

text \<open>
  Automatic selection together with account transfers: \<open>ApplyAutomaticSelection\<close> of
  \<open>backend/internal/vpnaccounts/automatic_selection.go\<close> with the operation \<open>StartInTransaction\<close> of
  \<open>backend/internal/transfers\<close> that it calls for a deployed account, in one transaction over the tables of both.
\<close>

declare ToLower.simps(2-) [simp del] fold_key.simps(2-) [simp del]

section \<open>Both sets of tables\<close>

text \<open>The columns of \<open>vpn_accounts\<close> that both parts use live in the accounts of the selection; the transfer reads
  them from there and writes them back.\<close>

record joint_db = sel_db +
  jd_cfg :: cfg_db

definition cfg_row :: "ng_account table \<Rightarrow> account_row \<Rightarrow> account_row" where
  "cfg_row t r =
     (case lookup_row ng_account.va_id (acct_id r) t of
        None \<Rightarrow> r
      | Some a \<Rightarrow> r\<lparr>acct_server := va_server a, acct_wg_address := va_wireguard a, acct_config_updated := va_updated a\<rparr>)"

definition cfg_view :: "joint_db \<Rightarrow> cfg_db" where
  "cfg_view db = (jd_cfg db)\<lparr>d_accounts := map (cfg_row (ng_accounts db)) (d_accounts (jd_cfg db))\<rparr>"

definition cfg_written :: "cfg_db \<Rightarrow> joint_db \<Rightarrow> joint_db" where
  "cfg_written c db =
     db\<lparr>jd_cfg := c, ng_accounts := map (\<lambda>a.
        case lookup_row acct_id (ng_account.va_id a) (d_accounts c) of
          None \<Rightarrow> a
        | Some r \<Rightarrow> a\<lparr>va_server := acct_server r, va_wireguard := acct_wg_address r, va_updated := acct_config_updated r\<rparr>)
      (ng_accounts db)\<rparr>"

definition transfer_fault :: "fault \<Rightarrow> sel_error" where
  "transfer_fault e = (case e of No_rows \<Rightarrow> Sel_NoRows | Guard m \<Rightarrow> Sel_Transfer m | _ \<Rightarrow> Sel_DatabaseError)"

definition staged_start :: "cfg_env \<Rightarrow> string \<Rightarrow> string \<Rightarrow> string \<Rightarrow> joint_db \<Rightarrow> sel_error + Transfer \<times> joint_db" where
  "staged_start E actor accountID targetID db =
     (case StartInTransaction E accountID targetID actor (cfg_view db) of
        (Inl e, _) \<Rightarrow> Inl (transfer_fault e)
      | (Inr t, c) \<Rightarrow> Inr (t, cfg_written c db))"

section \<open>Starting a transfer moves nobody\<close>




section \<open>Properties\<close>


section \<open>An example\<close>

text \<open>The nodes of the examples of both parts: the account \<open>a\<close> on node \<open>s\<close>, with node \<open>t\<close> to be preferred.\<close>

definition ws_db :: "string list \<Rightarrow> joint_db" where
  "ws_db deployed = \<lparr>ng_servers = [wz_server ''s''\<lparr>sv_deployed := deployed\<rparr>, wz_server ''t''], ng_agents = ng_agents wz_db,
     ng_groups = ng_groups wz_db, ng_members = ng_members wz_db, ng_accounts = ng_accounts wz_db, ng_policies = ng_policies wz_db,
     jd_cfg = xt_db Target_ready ''s'' ''v1''\<rparr>"

definition ws_apply :: "joint_db \<Rightarrow> (sel_error + Transfer apply_response) \<times> joint_db" where
  "ws_apply db = ApplyAutomaticSelection Committed Some Some (\<lambda>n. n) (\<lambda>_. 0) (\<lambda>_ w :: int. w) (staged_start xt_env ''op'') 0 ''a'' db db"

lemma ws_candidates:
  "CandidatesForProtocol (\<lambda>n. n) ''g'' [] 0 (ws_db ds) = Inr (''priority'', [wz_candidate ''t'' 4, wz_candidate ''s'' 5])"
proof -
  let ?db = "ws_db ds" and ?m = "\<lambda>i n. \<lparr>m_group = ''g'', m_server = i, m_priority = n, m_weight = 1, m_enabled = True\<rparr>"
  have rows: "group_rows (\<lambda>n. n) ''g'' ?db = [(?m ''t'' 4, wz_server ''t''), (?m ''s'' 5, wz_server ''s''\<lparr>sv_deployed := ds\<rparr>)]"
    by (simp add: group_rows_def ws_db_def wz_db_def select_def wz_server_def)
  have ag: "lookup_row na_server ''s'' (ng_agents ?db) = Some (wz_agent ''s'')" "lookup_row na_server ''t'' (ng_agents ?db) = Some (wz_agent ''t'')"
    by (simp_all add: ws_db_def wz_db_def lookup_row_def wz_agent_def)
  have same: "candidate_row (\<lambda>p. p) ?db (?m ''s'' 5) (wz_server ''s''\<lparr>sv_deployed := ds\<rparr>) = candidate_row (\<lambda>p. p) ?db (?m ''s'' 5) (wz_server ''s'')"
    by (simp add: candidate_row_def)
  have role: "sv_role (wz_server i) = ''vpn''" for i by (simp add: wz_server_def)
  have "lookup_row gr_id ''g'' (ng_groups ?db) = Some (hd (ng_groups wz_db))" "gr_strategy (hd (ng_groups wz_db)) = ''priority''"
    by (simp_all add: ws_db_def wz_db_def lookup_row_def)
  then show ?thesis
    by (simp add: CandidatesForProtocol_def Candidates_def rows same role wz_evaluate [OF _ _ ag(1)] wz_evaluate [OF _ _ ag(2)])
qed

lemma ws_decision:
  "\<exists>d. evaluateAutomaticSelectionAt (\<lambda>n. n) (\<lambda>_. 0) (\<lambda>_ w :: int. w) (wz_context ''s'' None) 0 (ws_db ds) = Inr d
     \<and> de_status d = Selected \<and> de_selected d = Some (wz_candidate ''t'' 4)"
  by (simp add: evaluateAutomaticSelectionAt_def wz_context_def automaticSelectionRequiredProtocol_def ws_candidates wz_select Let_def)

lemma ws_context: "automaticSelectionContext ''a'' (ws_db ds) = Some (wz_context ''s'' None)"
  by (simp add: automaticSelectionContext_def lookup_row_def ws_db_def wz_db_def coalesce_def wz_context_def)

lemma ws_rows:
  "lookup_row ng_account.va_id ''a'' (ng_accounts (ws_db ds)) = Some (hd (ng_accounts wz_db))"
  "coalesce (va_server (hd (ng_accounts wz_db))) = ''s''"
  by (simp_all add: ws_db_def wz_db_def lookup_row_def coalesce_def)

lemma ws_servers: "ng_servers (ws_db ds) = [wz_server ''s''\<lparr>sv_deployed := ds\<rparr>, wz_server ''t'']"
  by (simp add: ws_db_def)

lemma ws_server_sel [simp]: "sv_id (wz_server i) = i" "sv_deployed (wz_server i) = []" "sv_protocol (wz_server i) = ''vless''"
  by (simp_all add: wz_server_def)

lemma ws_view: "cfg_view (ws_db ds) = xt_db Target_ready ''s'' ''v1''"
  by (simp add: cfg_view_def ws_db_def wz_db_def) (simp add: xt_db_def xt_account_def cfg_row_def lookup_row_def)

lemma ws_start: "StartInTransaction xt_env ''a'' ''t'' ''op'' (xt_db Target_ready ''s'' ''v1'')
    = (Inr (xt_transfer Target_ready), xt_db Target_ready ''s'' ''v1'')"
proof -
  have "ce_uuid xt_env ''a'' = Some ''a''" by (simp add: xt_env_def)
  moreover have "lookup_row acct_id ''a'' (d_accounts (xt_db Target_ready ''s'' ''v1'')) = Some (xt_account ''s'')"
    by (simp add: lookup_row_def xt_db_def xt_account_def)
  moreover have "find (\<lambda>t. tr_account t = ''a'' \<and> open_transfer t) (d_transfers (xt_db Target_ready ''s'' ''v1'')) = Some (xt_transfer Target_ready)"
    by (simp add: xt_db_def xt_transfer_def open_transfer_def)
  moreover have "tr_target (xt_transfer Target_ready) = ''t''" by (simp add: xt_transfer_def)
  ultimately show ?thesis by (simp add: StartInTransaction_def cast_uuid_def effect_defs)
qed

lemma ws_accounts:
  "ng_accounts (ws_db ds) = [\<lparr>ng_account.va_id = ''a'', va_status = ''active'', va_server = Some ''s'', va_wireguard = None, va_group = Some ''g'',
     va_client = None, va_updated = 0\<rparr>]"
  "d_accounts (xt_db st n v) = [xt_account n]" "acct_id (xt_account n) = ''a''" "acct_server (xt_account n) = Some n"
  by (simp_all add: ws_db_def wz_db_def xt_db_def xt_account_def)

lemma ws_context_sel [simp]:
  "sc_current (wz_context c l) = c" "sc_enabled (wz_context c l)" "sc_status (wz_context c l) = ''active''"
  by (simp_all add: wz_context_def)


lemma apply_commits:
  assumes "automaticSelectionContext acct db = Some sc" "sc_enabled sc" "sc_status sc = ''active''"
    and "evaluateAutomaticSelectionAt name_key hash64 scorer sc now db = Inr d" "de_status d = Selected" "de_selected d = Some c"
    and deployed: "(\<exists>s \<in> set (ng_servers db). sv_id s = sc_current sc \<and> accountID \<in> set (sv_deployed s)) = dep"
    and "dep \<Longrightarrow> start accountID (gc_server c) db = Inr (tr, d')"
      "\<not> dep \<Longrightarrow> gc_protocol c \<noteq> ''wireguard'' \<and> assign_account pg_inet acct (gc_server c) now [] db = Inr d'"
  shows "\<exists>r. apply_body pg_inet name_key hash64 scorer start now accountID acct (sc_current sc) db
      = Commit (Inr r) (record_selection acct now (gc_server c) d') \<and> (dep \<longrightarrow> ar_transfer r = Some tr)"
proof -
  have status: "(sc_status sc \<noteq> ''created'' \<and> sc_status sc \<noteq> ''active'') = False" by (simp add: assms(3))
  have st: "(de_status d = Cooldown) = False" "(de_status d = Group_required) = False" "(de_status d = Current) = False"
    by (simp_all add: assms(5))
  note facts = assms(1,2,4,6) status st deployed option.case sum.case prod.case Let_def if_True if_False simp_thms
  show ?thesis
  proof (cases dep)
    case True
    from assms(8) [OF True] show ?thesis unfolding apply_body_def
      by (simp only: facts True) auto
  next
    case False
    from assms(9) [OF False] have "gc_protocol c \<noteq> ''wireguard''" "assign_account pg_inet acct (gc_server c) now [] db = Inr d'" by blast+
    then show ?thesis unfolding apply_body_def
      by (simp only: facts False) auto
  qed
qed

lemma ws_deployed:
  "(\<exists>s \<in> set (ng_servers (ws_db ds)). sv_id s = ''s'' \<and> ''a'' \<in> set (sv_deployed s)) = (''a'' \<in> set ds)"
  by (simp add: ws_servers wz_server_def)

lemma ws_commits:
  assumes "staged_start xt_env ''op'' ''a'' ''t'' (ws_db ds) = Inr (tr, d') \<or> ''a'' \<notin> set ds"
    "assign_account Some ''a'' ''t'' 0 [] (ws_db ds) = Inr d' \<or> ''a'' \<in> set ds"
  shows "\<exists>r db'. ws_apply (ws_db ds) = (Inr r, db') \<and> ng_accounts db' = ng_accounts d' \<and> (''a'' \<in> set ds \<longrightarrow> ar_transfer r = Some tr)"
proof -
  obtain d where d: "evaluateAutomaticSelectionAt (\<lambda>n. n) (\<lambda>_. 0) (\<lambda>_ w :: int. w) (wz_context ''s'' None) 0 (ws_db ds) = Inr d"
    "de_status d = Selected" "de_selected d = Some (wz_candidate ''t'' 4)" using ws_decision by blast
  have c: "gc_server (wz_candidate ''t'' 4) = ''t''" "gc_protocol (wz_candidate ''t'' 4) \<noteq> ''wireguard''" by (simp_all add: wz_candidate_def)
  have "\<exists>r. apply_body Some (\<lambda>n. n) (\<lambda>_. 0) (\<lambda>_ w :: int. w) (staged_start xt_env ''op'') 0 ''a'' ''a'' (sc_current (wz_context ''s'' None)) (ws_db ds)
      = Commit (Inr r) (record_selection ''a'' 0 (gc_server (wz_candidate ''t'' 4)) d') \<and> (''a'' \<in> set ds \<longrightarrow> ar_transfer r = Some tr)"
    by (rule apply_commits [OF ws_context _ _ d]) (use assms c in \<open>auto simp only: ws_context_sel ws_deployed\<close>)
  then obtain r where r: "apply_body Some (\<lambda>n. n) (\<lambda>_. 0) (\<lambda>_ w :: int. w) (staged_start xt_env ''op'') 0 ''a'' ''a'' ''s'' (ws_db ds)
      = Commit (Inr r) (record_selection ''a'' 0 ''t'' d')" "''a'' \<in> set ds \<longrightarrow> ar_transfer r = Some tr"
    unfolding c ws_context_sel by blast
  have "ng_accounts (record_selection ''a'' 0 ''t'' d') = ng_accounts d'" by (simp add: record_selection_def)
  then show ?thesis
    by (simp only: ws_apply_def ApplyAutomaticSelection_def option.case ws_rows r(1) run_tx.simps) (use r(2) in blast)
qed


lemma ws_written: "map va_server (ng_accounts (cfg_written (xt_db Target_ready ''s'' ''v1'') (ws_db ds))) = [Some ''s'']"
  by (simp only: cfg_written_def ws_accounts lookup_row_def) (simp add: xt_account_def)

text \<open>A deployed account is staged: here its transfer to \<open>t\<close> is already open, and the request joins it.\<close>

lemma ws_staged:
  "\<exists>r db'. ws_apply (ws_db [''a'']) = (Inr r, db') \<and> ar_transfer r = Some (xt_transfer Target_ready)
     \<and> map va_server (ng_accounts db') = [Some ''s'']"
proof -
  have st: "staged_start xt_env ''op'' ''a'' ''t'' (ws_db [''a''])
      = Inr (xt_transfer Target_ready, cfg_written (xt_db Target_ready ''s'' ''v1'') (ws_db [''a'']))"
    by (simp only: staged_start_def ws_view ws_start prod.case sum.case)
  have a: "''a'' \<in> set [''a'']" by simp
  from ws_commits [OF disjI1 [OF st] disjI2 [OF a]] obtain r db' where "ws_apply (ws_db [''a'']) = (Inr r, db')"
    "ng_accounts db' = ng_accounts (cfg_written (xt_db Target_ready ''s'' ''v1'') (ws_db [''a'']))" "ar_transfer r = Some (xt_transfer Target_ready)"
    by (elim exE conjE) (rule that, assumption, assumption, erule mp, rule a)
  then show ?thesis by (intro exI [of _ r] exI [of _ db'] conjI) (simp_all only: ws_written)
qed


end
