(* ===== verification/Config_Sections.thy ===== *)
theory Config_Sections
  imports Config_Render
begin

text \<open>
  Properties of the configuration renderer.
\<close>

section \<open>Adapters of protocols\<close>

lemma literal_trim [simp]:
  "TrimSpace ''vless'' = ''vless''" "TrimSpace ''wireguard'' = ''wireguard''" "TrimSpace ''hysteria2'' = ''hysteria2''"
  "TrimSpace ''shadowsocks'' = ''shadowsocks''" "TrimSpace ''mtproto'' = ''mtproto''" "TrimSpace ''sing-box'' = ''sing-box''"
  "TrimSpace ''hysteria'' = ''hysteria''" "TrimSpace ''mtg'' = ''mtg''" "TrimSpace ''tcp'' = ''tcp''"
  "TrimSpace ''udp'' = ''udp''" "TrimSpace ''quic'' = ''quic''" "TrimSpace ''none'' = ''none''"
  "TrimSpace ''reality'' = ''reality''" "TrimSpace ''tls'' = ''tls''" "TrimSpace ''aead-2022'' = ''aead-2022''"
  "TrimSpace ''faketls'' = ''faketls''" "TrimSpace ''direct'' = ''direct''"
  by (rule TrimSpace_clean, simp add: space_byte_def)+

declare fold_key.simps [simp del] ToLower.simps [simp del]

lemma fold_key_ascii: "\<forall>c \<in> set s. ascii c \<Longrightarrow> fold_key s = map lower_byte s"
  by (induction s rule: fold_key.induct) (auto simp: fold_key.simps bytes_def ascii_def)

lemma literal_fold [simp]:
  "fold_key ''vless'' = ''vless''" "fold_key ''wireguard'' = ''wireguard''" "fold_key ''hysteria2'' = ''hysteria2''"
  "fold_key ''shadowsocks'' = ''shadowsocks''" "fold_key ''mtproto'' = ''mtproto''" "fold_key ''sing-box'' = ''sing-box''"
  "fold_key ''hysteria'' = ''hysteria''" "fold_key ''mtg'' = ''mtg''" "fold_key ''tcp'' = ''tcp''"
  "fold_key ''udp'' = ''udp''" "fold_key ''quic'' = ''quic''" "fold_key ''none'' = ''none''"
  "fold_key ''reality'' = ''reality''" "fold_key ''tls'' = ''tls''" "fold_key ''aead-2022'' = ''aead-2022''"
  "fold_key ''faketls'' = ''faketls''"
  by (subst fold_key_ascii; simp add: ascii_def lower_byte_def)+

lemma literal_lower [simp]:
  "ToLower ''vless'' = ''vless''" "ToLower ''wireguard'' = ''wireguard''" "ToLower ''hysteria2'' = ''hysteria2''"
  "ToLower ''shadowsocks'' = ''shadowsocks''" "ToLower ''mtproto'' = ''mtproto''"
  by (subst ToLower_ascii; simp add: ascii_def lower_byte_def)+

definition adapter_of :: "string \<Rightarrow> adapter" where
  "adapter_of p = (if p = ''mtproto'' then MTProtoAdapter else if p = ''shadowsocks'' then ShadowsocksAdapter
     else if p = ''hysteria2'' then Hysteria2Adapter else if p = ''wireguard'' then WireGuardAdapter else SingBoxVLESS)"

lemmas resolve_simps = Resolve_def defaultVPNCoreAdapterRegistry_def Supports_def containsFold_def EqualFold_def composition_def

lemma Resolve_builtin [simp]:
  "Resolve (composition ''mtg'' ''mtproto'' ''tcp'' ''faketls'') = Some MTProtoAdapter"
  "Resolve (composition ''sing-box'' ''shadowsocks'' ''tcp'' ''aead-2022'') = Some ShadowsocksAdapter"
  "Resolve (composition ''hysteria'' ''hysteria2'' ''quic'' ''tls'') = Some Hysteria2Adapter"
  "Resolve (composition ''wireguard'' ''wireguard'' ''udp'' ''wireguard'') = Some WireGuardAdapter"
  "Resolve (composition ''sing-box'' ''vless'' ''tcp'' ''none'') = Some SingBoxVLESS"
  "Resolve (composition ''sing-box'' ''vless'' ''tcp'' ''reality'') = Some SingBoxVLESS"
  by (simp_all add: resolve_simps)

lemma selectedVPNCoreAdapter_of: "selectedVPNCoreAdapter i = adapter_of (si_protocol i)"
  by (simp add: selectedVPNCoreAdapter_def builtin_def currentVLESSAdapter_def adapter_of_def)

lemma selected_adapters:
  "selectedVPNCoreAdapters i =
     (let d = normalizeAccountProtocol (si_protocol i); w = concat (map (account_wants d) (si_accounts i))
      in map adapter_of (filter (\<lambda>p. p \<in> set (if w = [] then [d] else w)) accountProtocolOrder))"
  by (simp add: selectedVPNCoreAdapters_def selectedVPNCoreAdapter_of Let_def)

lemma adapter_of_inj: "inj_on adapter_of (set accountProtocolOrder)"
  by (auto simp: inj_on_def accountProtocolOrder_def adapter_of_def)

lemma selected_distinct: "distinct (selectedVPNCoreAdapters i)"
proof -
  have "distinct accountProtocolOrder" by code_simp
  then show ?thesis unfolding selected_adapters Let_def
    by (auto simp: distinct_map intro: inj_on_subset [OF adapter_of_inj])
qed

text \<open>The account may be served with the protocol: active, within its limit, and it chose the protocol.\<close>

definition entitled :: "string \<Rightarrow> VPNAccountConfigInfo \<Rightarrow> bool" where
  "entitled p a \<longleftrightarrow> ac_status a = ''active'' \<and> ac_enforcement a \<noteq> ''over_limit''
     \<and> (\<exists>q \<in> set (ac_protocols a). ToLower (TrimSpace q) = p)"

lemma uses_entitled:
  assumes "ac_protocols a \<noteq> []" "p \<in> set accountProtocolOrder"
  shows "accountUsesProtocol a p \<longleftrightarrow> (\<exists>q \<in> set (ac_protocols a). ToLower (TrimSpace q) = p)"
  using assms by (auto simp: accountUsesProtocol_def protocolListContains_def accountProtocolOrder_def)

lemma entitled_selected:
  assumes "entitled p a" "a \<in> set (si_accounts i)" "p \<in> set accountProtocolOrder"
  shows "adapter_of p \<in> set (selectedVPNCoreAdapters i)"
proof -
  let ?d = "normalizeAccountProtocol (si_protocol i)"
  define w where "w = concat (map (account_wants ?d) (si_accounts i))"
  obtain q where q: "q \<in> set (ac_protocols a)" "ToLower (TrimSpace q) = p" using assms(1) by (auto simp: entitled_def)
  have "p \<noteq> [] \<and> p \<noteq> ''auto''" using assms(3) by (auto simp: accountProtocolOrder_def)
  then have "normalizeAccountProtocol q = p" using q(2) by (simp add: normalizeAccountProtocol_def Let_def)
  then have "p \<in> set (account_wants ?d a)" using assms(1) q(1) by (auto simp: account_wants_def entitled_def)
  then have "p \<in> set w" using assms(2) by (auto simp: w_def)
  then have "p \<in> set (if w = [] then [?d] else w)" by (cases w) simp_all
  then show ?thesis using assms(3) unfolding selected_adapters Let_def w_def [symmetric] by simp
qed

section \<open>Sections of a rendered configuration\<close>

lemmas render_defs = vless_render_def wireguard_render_def hysteria2_render_def shadowsocks_render_def mtproto_render_def Let_def

lemma adapter_keeps [simp]:
  "rc_metadata (adapter_Render L i a c) = rc_metadata c" "rc_server (adapter_Render L i a c) = rc_server c"
  "rc_schema (adapter_Render L i a c) = rc_schema c" "rc_agent (adapter_Render L i a c) = rc_agent c"
  by (cases a; simp add: render_defs)+

text \<open>A section is a view of the configuration that one adapter writes and nothing else touches.\<close>

locale render_section =
  fixes view :: "RenderedConfig \<Rightarrow> 'x list" and own :: adapter and out :: "lib \<Rightarrow> ServerConfigInfo \<Rightarrow> 'x list"
  assumes own_renders:
      "view c = [] \<Longrightarrow> md_reality (rc_metadata c) = realityRequested i \<Longrightarrow> view (adapter_Render L i own c) = out L i"
    and other_keeps: "a \<noteq> own \<Longrightarrow> view (adapter_Render L i a c) = view c"
    and base_empty: "view (applyServerRoutingProfile r (config_base i now)) = []"
    and metadata_keeps: "view (c\<lparr>rc_metadata := m\<rparr>) = view c"
    and accounts_keep: "view (c\<lparr>rc_accounts := as\<rparr>) = view c"
    and traffic_keeps: "view (configureSingBoxTraffic i c) = view c"
begin

lemma fold_others: "own \<notin> set as \<Longrightarrow> view (fold (adapter_Render L i) as c) = view c"
  by (induction as arbitrary: c) (auto simp: other_keeps)

lemma fold_section:
  assumes "distinct as" "view c = []" "md_reality (rc_metadata c) = realityRequested i"
  shows "view (fold (adapter_Render L i) as c) = (if own \<in> set as then out L i else [])"
  using assms
proof (induction as arbitrary: c)
  case (Cons a as)
  show ?case
  proof (cases "a = own")
    case True
    with Cons.prems show ?thesis by (simp add: fold_others own_renders)
  next
    case False
    then have "view (adapter_Render L i a c) = []" using Cons.prems(2) by (simp add: other_keeps)
    with Cons False show ?thesis by simp
  qed
qed simp

lemma rendered: "view (buildRenderedConfig L i now) = (if own \<in> set (selectedVPNCoreAdapters i) then out L i else [])"
proof -
  let ?b = "applyServerRoutingProfile (si_routing i) (config_base i now)"
  let ?r = "if own \<in> set (selectedVPNCoreAdapters i) then out L i else []"
  have m: "md_reality (rc_metadata ?b) = realityRequested i"
    by (simp add: applyServerRoutingProfile_def config_base_def split: option.splits)
  have plain: "view (fold (adapter_Render L i) (selectedVPNCoreAdapters i) ?b) = ?r"
    by (rule fold_section [OF selected_distinct base_empty m])
  have several: "view (fold (adapter_Render L i) (selectedVPNCoreAdapters i) (?b\<lparr>rc_metadata := (rc_metadata ?b)\<lparr>md_cores := cs\<rparr>\<rparr>)) = ?r" for cs
    by (rule fold_section [OF selected_distinct]) (simp_all add: metadata_keeps base_empty m)
  show ?thesis
    by (simp add: buildRenderedConfig_def renderSelectedVPNCoreAdapters_def mergeRenderedVPNAccounts_def Let_def
        traffic_keeps accounts_keep plain several del: if_split split: if_split)
qed

end

definition runtime_users :: "string \<Rightarrow> RenderedConfig \<Rightarrow> json list" where
  "runtime_users p c =
     concat (map (\<lambda>ib. case member ib ''users'' of JArr us \<Rightarrow> us | _ \<Rightarrow> [])
       (filter (\<lambda>ib. member ib ''type'' = JStr p) (sb_inbounds (rc_singbox c))))"

definition h2_sections :: "RenderedConfig \<Rightarrow> hysteria2ServerConfig list" where
  "h2_sections c = (case rc_hysteria2 c of H2 h \<Rightarrow> [h] | _ \<Rightarrow> [])"

definition vless_inbounds :: "RenderedConfig \<Rightarrow> json list" where
  "vless_inbounds c =
     filter (\<lambda>ib. EqualFold (TrimSpace (stringValue (member ib ''type''))) ''vless'') (sb_inbounds (rc_singbox c))"

definition shadowsocks_inbounds :: "RenderedConfig \<Rightarrow> json list" where
  "shadowsocks_inbounds c = filter (\<lambda>ib. stringValueFromMap ib ''type'' = ''shadowsocks'') (sb_inbounds (rc_singbox c))"

lemma ensureOutbound_inbounds [simp]: "sb_inbounds (ensureSingBoxOutbound ob b) = sb_inbounds b"
  by (simp add: ensureSingBoxOutbound_def)

lemma ensureBase_inbounds [simp]: "sb_inbounds (ensureSingBoxBase b) = sb_inbounds b"
  by (simp add: ensureSingBoxBase_def Let_def)

lemma add_rule_inbounds [simp]: "sb_inbounds (add_route_rule r b) = sb_inbounds b"
  by (simp add: add_route_rule_def Let_def split: option.splits)

lemma fold_rules_inbounds [simp]: "sb_inbounds (fold add_route_rule rs b) = sb_inbounds b"
  by (induction rs arbitrary: b) auto

lemma routing_inbounds [simp]: "sb_inbounds (applySingBoxRoutingProfile p b) = sb_inbounds b"
  by (simp add: applySingBoxRoutingProfile_def split: option.splits)

lemma routing_profile_keeps [simp]:
  "rc_singbox (applyServerRoutingProfile r c) = rc_singbox c" "rc_wireguard (applyServerRoutingProfile r c) = rc_wireguard c"
  "rc_hysteria2 (applyServerRoutingProfile r c) = rc_hysteria2 c" "rc_mtproto (applyServerRoutingProfile r c) = rc_mtproto c"
  "rc_accounts (applyServerRoutingProfile r c) = rc_accounts c" "rc_metadata (applyServerRoutingProfile r c) = rc_metadata c"
  "rc_server (applyServerRoutingProfile r c) = rc_server c" "rc_schema (applyServerRoutingProfile r c) = rc_schema c"
  by (simp_all add: applyServerRoutingProfile_def split: option.splits)

lemma traffic_keeps_others [simp]:
  "sb_inbounds (rc_singbox (configureSingBoxTraffic i c)) = sb_inbounds (rc_singbox c)"
  "sb_outbounds (rc_singbox (configureSingBoxTraffic i c)) = sb_outbounds (rc_singbox c)"
  "sb_final (rc_singbox (configureSingBoxTraffic i c)) = sb_final (rc_singbox c)"
  "rc_wireguard (configureSingBoxTraffic i c) = rc_wireguard c" "rc_hysteria2 (configureSingBoxTraffic i c) = rc_hysteria2 c"
  "rc_mtproto (configureSingBoxTraffic i c) = rc_mtproto c" "rc_accounts (configureSingBoxTraffic i c) = rc_accounts c"
  "rc_metadata (configureSingBoxTraffic i c) = rc_metadata c" "rc_server (configureSingBoxTraffic i c) = rc_server c"
  "rc_schema (configureSingBoxTraffic i c) = rc_schema c"
  by (simp_all add: configureSingBoxTraffic_def Let_def split: option.splits)

lemma runtime_users_vless:
  "runtime_users p (vless_render i c) =
     runtime_users p c @ (if p = ''vless'' then map vless_user (filter isVPNAccountRenderable (si_accounts i)) else [])"
  by (auto simp: runtime_users_def vless_render_def vless_inbound_def Let_def)

lemma runtime_users_shadowsocks:
  "runtime_users p (shadowsocks_render i c) =
     runtime_users p c @ (if p = ''shadowsocks'' then map shadowsocks_user (filter isShadowsocksAccountRenderable (si_accounts i)) else [])"
  by (auto simp: runtime_users_def shadowsocks_render_def shadowsocks_inbound_def Let_def)

lemma runtime_users_others:
  "runtime_users p (wireguard_render i c) = runtime_users p c" "runtime_users p (hysteria2_render i c) = runtime_users p c"
  "runtime_users p (mtproto_render L i c) = runtime_users p c"
  by (simp_all add: runtime_users_def render_defs)

lemma base_sections [simp]:
  "rc_singbox (config_base i now) = empty_singbox" "rc_wireguard (config_base i now) = []"
  "rc_hysteria2 (config_base i now) = H2_empty" "rc_mtproto (config_base i now) = []"
  by (simp_all add: config_base_def)

interpretation vless: render_section "runtime_users ''vless''" SingBoxVLESS
  "\<lambda>L i. map vless_user (filter isVPNAccountRenderable (si_accounts i))"
proof
  fix a L i c assume "a \<noteq> SingBoxVLESS"
  then show "runtime_users ''vless'' (adapter_Render L i a c) = runtime_users ''vless'' c"
    by (cases a) (simp_all add: runtime_users_shadowsocks runtime_users_others)
qed (simp_all add: runtime_users_vless, simp_all add: runtime_users_def empty_singbox_def)

interpretation shadowsocks: render_section "runtime_users ''shadowsocks''" ShadowsocksAdapter
  "\<lambda>L i. map shadowsocks_user (filter isShadowsocksAccountRenderable (si_accounts i))"
proof
  fix a L i c assume "a \<noteq> ShadowsocksAdapter"
  then show "runtime_users ''shadowsocks'' (adapter_Render L i a c) = runtime_users ''shadowsocks'' c"
    by (cases a) (simp_all add: runtime_users_vless runtime_users_others)
qed (simp_all add: runtime_users_shadowsocks, simp_all add: runtime_users_def empty_singbox_def)

interpretation hysteria2: render_section h2_sections Hysteria2Adapter
  "\<lambda>L i. [h2_config i (filter isHysteria2AccountRenderable (si_accounts i))]"
proof
  fix a L i c assume "a \<noteq> Hysteria2Adapter"
  then show "h2_sections (adapter_Render L i a c) = h2_sections c"
    by (cases a) (simp_all add: h2_sections_def render_defs)
qed (simp_all add: h2_sections_def render_defs)

lemmas inbound_defs = vless_inbounds_def shadowsocks_inbounds_def vless_inbound_def shadowsocks_inbound_def stringValue_def
  stringValueFromMap_def EqualFold_def

interpretation vless_in: render_section vless_inbounds SingBoxVLESS
  "\<lambda>L i. let as = filter isVPNAccountRenderable (si_accounts i) in
     if as = [] then [] else [vless_inbound i (realityRequested i) (map vless_user as)]"
proof
  fix a L i c assume "a \<noteq> SingBoxVLESS"
  then show "vless_inbounds (adapter_Render L i a c) = vless_inbounds c"
    by (cases a) (simp_all add: render_defs inbound_defs)
qed (simp_all add: render_defs inbound_defs empty_singbox_def)

interpretation shadowsocks_in: render_section shadowsocks_inbounds ShadowsocksAdapter
  "\<lambda>L i. let as = filter isShadowsocksAccountRenderable (si_accounts i) in
     if as = [] then [] else [shadowsocks_inbound i (map shadowsocks_user as)]"
proof
  fix a L i c assume "a \<noteq> ShadowsocksAdapter"
  then show "shadowsocks_inbounds (adapter_Render L i a c) = shadowsocks_inbounds c"
    by (cases a) (simp_all add: render_defs inbound_defs)
qed (simp_all add: render_defs inbound_defs empty_singbox_def)

interpretation wireguard: render_section rc_wireguard WireGuardAdapter
  "\<lambda>L i. unlines (interface_lines i @ concat (map peer_lines (filter isWireGuardAccountRenderable (si_accounts i))))"
proof
  fix a L i c assume "a \<noteq> WireGuardAdapter"
  then show "rc_wireguard (adapter_Render L i a c) = rc_wireguard c"
    by (cases a) (simp_all add: render_defs)
qed (simp_all add: render_defs)

interpretation mtproto: render_section rc_mtproto MTProtoAdapter "\<lambda>L i. unlines (mtproto_lines L i)"
proof
  fix a L i c assume "a \<noteq> MTProtoAdapter"
  then show "rc_mtproto (adapter_Render L i a c) = rc_mtproto c"
    by (cases a) (simp_all add: render_defs)
qed (simp_all add: render_defs)

section \<open>Who is enrolled\<close>

lemma resolved_protocols: "a \<in> set (si_accounts (applyResolvedAccountProtocols r i)) \<Longrightarrow> ac_protocols a \<noteq> []"
  by (auto simp: applyResolvedAccountProtocols_def Let_def split: option.splits if_splits)

text \<open>For accounts with resolved protocols the checks of the adapters are the entitlement and a usable credential.\<close>

lemma renderable_entitled:
  assumes "ac_protocols a \<noteq> []"
  shows "isVPNAccountRenderable a \<longleftrightarrow> entitled ''vless'' a \<and> TrimSpace (ac_uuid a) \<noteq> []"
    and "isWireGuardAccountRenderable a \<longleftrightarrow> entitled ''wireguard'' a \<and> wireGuardPeerAddress (ac_wg_address a) \<noteq> [] \<and> ValidateKey (ac_wg_public a)"
    and "isHysteria2AccountRenderable a \<longleftrightarrow> entitled ''hysteria2'' a \<and> validHysteria2Password (ac_h2_password a)"
    and "isShadowsocksAccountRenderable a \<longleftrightarrow> entitled ''shadowsocks'' a \<and> validShadowsocksKey (ac_ss_key a)"
  using uses_entitled [OF assms]
  by (auto simp: isVPNAccountRenderable_def isWireGuardAccountRenderable_def isHysteria2AccountRenderable_def
      isShadowsocksAccountRenderable_def entitled_def accountProtocolOrder_def)

lemma unselected_empty:
  assumes "adapter_of p \<notin> set (selectedVPNCoreAdapters i)" "p \<in> set accountProtocolOrder"
  shows "filter (\<lambda>a. entitled p a \<and> P a) (si_accounts i) = []"
  using assms entitled_selected by (auto simp: filter_empty_conv)

lemma fold_put_keys: "fst ` set (fold (\<lambda>a. put (f a) (g a)) as m) = f ` set as \<union> fst ` set m"
proof (induction as arbitrary: m)
  case (Cons a as)
  have "fst ` set (put (f a) (g a) m) = insert (f a) (fst ` set m)" by (force simp: put_def)
  with Cons show ?case by auto
qed simp

text \<open>C26. What a node is told to serve.  For the accounts of a node with their resolved protocols, the users
  of the VLESS and of the Shadowsocks listener are exactly, in order and without repetition, the active
  accounts within their traffic limit that chose the protocol and have a usable credential; the same accounts
  are the user names of Hysteria2 and the peers of WireGuard.  Nobody else is enrolled in any section.\<close>

theorem render_enrolls_exactly:
  "let i = applyResolvedAccountProtocols resolved info; c = buildRenderedConfig L i now; as = si_accounts i;
       wg = filter (\<lambda>a. entitled ''wireguard'' a \<and> wireGuardPeerAddress (ac_wg_address a) \<noteq> [] \<and> ValidateKey (ac_wg_public a)) as in
     runtime_users ''vless'' c = map vless_user (filter (\<lambda>a. entitled ''vless'' a \<and> TrimSpace (ac_uuid a) \<noteq> []) as)
     \<and> runtime_users ''shadowsocks'' c =
         map shadowsocks_user (filter (\<lambda>a. entitled ''shadowsocks'' a \<and> validShadowsocksKey (ac_ss_key a)) as)
     \<and> fst ` (\<Union>h \<in> set (h2_sections c). set (h2_userpass h)) =
         account_username ` {a \<in> set as. entitled ''hysteria2'' a \<and> validHysteria2Password (ac_h2_password a)}
     \<and> (rc_wireguard c = [] \<and> wg = [] \<or> rc_wireguard c = unlines (interface_lines i @ concat (map peer_lines wg)))"
proof -
  define i where "i = applyResolvedAccountProtocols resolved info"
  define c where "c = buildRenderedConfig L i now"
  have ne: "ac_protocols a \<noteq> []" if "a \<in> set (si_accounts i)" for a
    using that resolved_protocols by (simp add: i_def)
  note out [simp] = renderable_entitled [OF ne, THEN filter_cong [OF refl]]
  have none: "adapter_of p \<notin> set (selectedVPNCoreAdapters i) \<Longrightarrow> p \<in> set accountProtocolOrder
      \<Longrightarrow> filter (\<lambda>a. entitled p a \<and> P a) (si_accounts i) = []" for p P
    by (rule unselected_empty)
  have p: "adapter_of ''vless'' = SingBoxVLESS" "adapter_of ''wireguard'' = WireGuardAdapter"
    "adapter_of ''hysteria2'' = Hysteria2Adapter" "adapter_of ''shadowsocks'' = ShadowsocksAdapter"
    "set accountProtocolOrder = {''vless'', ''wireguard'', ''hysteria2'', ''shadowsocks'', ''mtproto''}"
    by (simp_all add: adapter_of_def accountProtocolOrder_def)
  have "runtime_users ''vless'' c = map vless_user (filter (\<lambda>a. entitled ''vless'' a \<and> TrimSpace (ac_uuid a) \<noteq> []) (si_accounts i))"
    unfolding c_def vless.rendered out(1) using none [of "''vless''"] by (simp add: p)
  moreover have "runtime_users ''shadowsocks'' c =
      map shadowsocks_user (filter (\<lambda>a. entitled ''shadowsocks'' a \<and> validShadowsocksKey (ac_ss_key a)) (si_accounts i))"
    unfolding c_def shadowsocks.rendered out(4) using none [of "''shadowsocks''"] by (simp add: p)
  moreover have "fst ` (\<Union>h \<in> set (h2_sections c). set (h2_userpass h)) =
      account_username ` set (filter (\<lambda>a. entitled ''hysteria2'' a \<and> validHysteria2Password (ac_h2_password a)) (si_accounts i))"
    unfolding c_def hysteria2.rendered out(3) using none [of "''hysteria2''" "\<lambda>a. validHysteria2Password (ac_h2_password a)"]
    by (auto simp: p h2_config_def Let_def fold_put_keys filter_empty_conv)
  moreover have "let wg = filter (\<lambda>a. entitled ''wireguard'' a \<and> wireGuardPeerAddress (ac_wg_address a) \<noteq> []
        \<and> ValidateKey (ac_wg_public a)) (si_accounts i) in
      rc_wireguard c = [] \<and> wg = [] \<or> rc_wireguard c = unlines (interface_lines i @ concat (map peer_lines wg))"
    unfolding c_def wireguard.rendered out(2) using none [of "''wireguard''"] by (simp add: p Let_def)
  ultimately show ?thesis
    unfolding Let_def i_def [symmetric] c_def [symmetric] set_filter by blast
qed

end
