(* ===== verification/Config_Text.thy ===== *)
theory Config_Text
  imports Config_Sections
begin

text \<open>
  The two text formats of the renderer: what the WireGuard and the MTProto adapter print is what their
  parsers read.
\<close>

section \<open>WireGuard\<close>

definition printable :: "string \<Rightarrow> bool" where
  "printable s \<longleftrightarrow> s \<noteq> [] \<and> (\<forall>c \<in> set s. \<not> space_byte c)"

lemma printable_edged: "printable s \<Longrightarrow> edged s"
  by (auto simp: printable_def edged_def)

lemma newline_space: "space_byte newline"
  by (simp add: space_byte_def)

lemma printable_newline: "printable s \<Longrightarrow> newline \<notin> set s"
  using newline_space by (auto simp: printable_def)

lemma wg_interface_line:
  assumes "k \<in> {''PrivateKey'', ''Address'', ''ListenPort'', ''SaveConfig'', ''PostUp'', ''PostDown''}" "edged v"
    "wp_section st = ''Interface''"
  shows "wg_line (k @ '' = '' @ v) st = Inr (st\<lparr>wp_interface := put k v (wp_interface st)\<rparr>)"
proof -
  have k: "edged k" "CHR ''='' \<notin> set k" "\<not> prefix ''#'' (k @ '' = '' @ v)" "k @ '' = '' @ v \<noteq> ''[Interface]''" "k @ '' = '' @ v \<noteq> ''[Peer]''"
    using assms(1) by (auto simp: edged_def space_byte_def)
  show ?thesis
    using assms(1,3) k(3-) by (simp only: wg_line_def Let_def field_line [OF k(1,2) assms(2)] option.case prod.case) simp
qed

lemma wg_peer_line:
  assumes "k \<in> {''PublicKey'', ''AllowedIPs''}" "edged v" "wp_section st = ''Peer''"
  shows "wg_line (k @ '' = '' @ v) st = Inr (st\<lparr>wp_peer := put k v (wp_peer st)\<rparr>)"
proof -
  have k: "edged k" "CHR ''='' \<notin> set k" "\<not> prefix ''#'' (k @ '' = '' @ v)" "k @ '' = '' @ v \<noteq> ''[Interface]''" "k @ '' = '' @ v \<noteq> ''[Peer]''"
    using assms(1) by (auto simp: edged_def space_byte_def)
  show ?thesis
    using assms(1,3) k(3-) by (simp only: wg_line_def Let_def field_line [OF k(1,2) assms(2)] option.case prod.case) auto
qed

lemma wg_comment: "wg_line (CHR ''#'' # s) st = Inr st"
proof -
  have "TrimSpace (CHR ''#'' # s) \<noteq> [] \<and> hd (TrimSpace (CHR ''#'' # s)) = CHR ''#''"
    using TrimSpace_head [of "CHR ''#'' # s"] by (simp add: space_byte_def)
  then have "prefix ''#'' (TrimSpace (CHR ''#'' # s))" by (cases "TrimSpace (CHR ''#'' # s)") auto
  then show ?thesis by (simp add: wg_line_def)
qed

lemma wg_headings [simp]:
  "wg_line [] st = Inr st" "wg_line ''[Interface]'' st = Inr (st\<lparr>wp_section := ''Interface''\<rparr>)"
  "wg_line ''[Peer]'' st = (case flushPeer st of Inl e \<Rightarrow> Inl e | Inr st' \<Rightarrow> Inr (st'\<lparr>wp_section := ''Peer''\<rparr>))"
proof -
  have "TrimSpace ''[Interface]'' = ''[Interface]''" "TrimSpace ''[Peer]'' = ''[Peer]''"
    by (rule TrimSpace_clean, simp add: space_byte_def)+
  then show "wg_line [] st = Inr st" "wg_line ''[Interface]'' st = Inr (st\<lparr>wp_section := ''Interface''\<rparr>)"
    "wg_line ''[Peer]'' st = (case flushPeer st of Inl e \<Rightarrow> Inl e | Inr st' \<Rightarrow> Inr (st'\<lparr>wp_section := ''Peer''\<rparr>))"
    by (simp_all add: wg_line_def)
qed

lemma wg_lines_append:
  "wg_lines (ls @ ms) st = (case wg_lines ls st of Inl e \<Rightarrow> Inl e | Inr st' \<Rightarrow> wg_lines ms st')"
  by (induction ls arbitrary: st) (auto split: sum.splits)

text \<open>What a peer of the configuration needs: a valid key without white space and an IPv4 address.\<close>

definition peer_ok :: "VPNAccountConfigInfo \<Rightarrow> bool" where
  "peer_ok a \<longleftrightarrow> printable (TrimSpace (ac_wg_public a)) \<and> ValidateKey (ac_wg_public a)
     \<and> (\<exists>w. wireGuardPeerAddress (ac_wg_address a) = String4 w)"

lemma peer_address: "wireGuardPeerAddress v \<noteq> [] \<Longrightarrow> \<exists>w. wireGuardPeerAddress v = String4 w"
  by (auto simp: wireGuardPeerAddress_def Let_def split: option.splits addr.splits)

lemma ValidateKey_trim: "ValidateKey (TrimSpace k) = ValidateKey k"
  by (simp add: ValidateKey_def)

definition peer_fields :: "VPNAccountConfigInfo \<Rightarrow> (string \<times> string) list" where
  "peer_fields a = put ''AllowedIPs'' (wireGuardPeerAddress (ac_wg_address a) @ ''/32'') (put ''PublicKey'' (TrimSpace (ac_wg_public a)) [])"

lemma edged_address: "edged (String4 w @ ''/32'')"
proof -
  have "\<not> space_byte (hd (String4 w))"
    using String4_chars [of "hd (String4 w)" w] String4_not_Nil [of w] by (auto simp: is_digit_def space_byte_def)
  then show ?thesis by (simp add: edged_def space_byte_def)
qed

lemma peer_block:
  assumes "peer_ok a" "flushPeer st = Inr st'" "wp_peer st' = []"
  shows "wg_lines (peer_lines a) st = Inr (st'\<lparr>wp_section := ''Peer'', wp_peer := peer_fields a\<rparr>)"
proof -
  obtain w where w: "wireGuardPeerAddress (ac_wg_address a) = String4 w" using assms(1) by (auto simp: peer_ok_def)
  have key: "edged (TrimSpace (ac_wg_public a))" using assms(1) printable_edged by (simp add: peer_ok_def)
  note pub = wg_peer_line [of "''PublicKey''", OF _ key, simplified]
  note ips = wg_peer_line [of "''AllowedIPs''", OF _ edged_address [of w], simplified]
  show ?thesis using assms(2,3)
    by (simp add: peer_lines_def wg_comment pub ips w peer_fields_def)
qed

lemma flush_block:
  assumes "peer_ok a" "wp_peer st = peer_fields a"
  shows "flushPeer st = Inr (st\<lparr>wp_peers := wp_peers st @ [wireGuardPeerAddress (ac_wg_address a) @ ''/32''], wp_peer := []\<rparr>)"
proof -
  obtain w where w: "wireGuardPeerAddress (ac_wg_address a) = String4 w" using assms(1) by (auto simp: peer_ok_def)
  have "ParsePrefix (String4 w @ CHR ''/'' # ''32'') = Some (V4 w, nat (decimal ''32''))"
    by (rule ParsePrefix_String4) (simp_all add: is_digit_def decimal_def)
  then have p: "ParsePrefix (String4 w @ ''/32'') = Some (V4 w, 32)" by (simp add: decimal_def)
  show ?thesis using assms w
    by (simp add: flushPeer_def peer_fields_def value_of_put ValidateKey_trim peer_ok_def p)
qed

lemma peers_parse:
  assumes "\<forall>a \<in> set as. peer_ok a" "flushPeer st = Inr st'" "wp_peer st' = []" "as \<noteq> [] \<or> wp_peer st = []"
  shows "\<exists>r. wg_lines (concat (map peer_lines as)) st = Inr r
     \<and> (\<exists>r'. flushPeer r = Inr r' \<and> wp_interface r' = wp_interface st'
        \<and> wp_peers r' = wp_peers st' @ map (\<lambda>a. wireGuardPeerAddress (ac_wg_address a) @ ''/32'') as)"
  using assms
proof (induction as arbitrary: st st')
  case Nil
  then show ?case by simp
next
  case (Cons a as)
  let ?s = "st'\<lparr>wp_section := ''Peer'', wp_peer := peer_fields a\<rparr>"
  have ok: "peer_ok a" using Cons.prems(1) by simp
  have b: "wg_lines (peer_lines a) st = Inr ?s" by (rule peer_block [OF ok Cons.prems(2,3)])
  have f: "flushPeer ?s = Inr (?s\<lparr>wp_peers := wp_peers st' @ [wireGuardPeerAddress (ac_wg_address a) @ ''/32''], wp_peer := []\<rparr>)"
    using flush_block [OF ok, of ?s] by simp
  show ?case
  proof (cases "as = []")
    case True
    with b f show ?thesis by simp
  next
    case False
    from Cons.IH [OF _ f] Cons.prems(1) False b show ?thesis by (simp add: wg_lines_append)
  qed
qed

text \<open>The settings of a server whose WireGuard section the parser accepts.\<close>

definition wg_server_ok :: "ServerConfigInfo \<Rightarrow> 32 word \<Rightarrow> nat \<Rightarrow> bool" where
  "wg_server_ok i w bits \<longleftrightarrow>
     printable (TrimSpace (si_wg_private i)) \<and> ValidateKey (si_wg_private i)
     \<and> printable (wg_server_address i) \<and> ParsePrefix (wg_server_address i) = Some (V4 w, bits) \<and> bits \<le> 30
     \<and> 1 \<le> wg_server_port i \<and> wg_server_port i \<le> 65535"

lemma edged_hooks: "edged (wireGuardPostUp n)" "edged (wireGuardPostDown n)"
  by (simp_all add: edged_def wireGuardPostUp_def wireGuardPostDown_def space_byte_def)

lemma edged_digits: "list_all is_digit s \<Longrightarrow> s \<noteq> [] \<Longrightarrow> edged s"
  by (rule printable_edged) (auto simp: printable_def list_all_iff is_digit_def space_byte_def)

lemma interface_parse:
  assumes "wg_server_ok i w bits" "wp_section st = []" "wp_interface st = []"
  shows "\<exists>m. wg_lines (interface_lines i) st = Inr (st\<lparr>wp_section := ''Interface'', wp_interface := m\<rparr>)
     \<and> value_of m ''PrivateKey'' = TrimSpace (si_wg_private i) \<and> value_of m ''Address'' = wg_server_address i
     \<and> value_of m ''ListenPort'' = Itoa (wg_server_port i) \<and> value_of m ''SaveConfig'' = ''false''
     \<and> value_of m ''PostUp'' = wireGuardPostUp (masked_String (Some (V4 w, bits)))
     \<and> value_of m ''PostDown'' = wireGuardPostDown (masked_String (Some (V4 w, bits)))"
proof -
  let ?n = "masked_String (Some (V4 w, bits))"
  have e: "edged (TrimSpace (si_wg_private i))" "edged (wg_server_address i)" "edged (Itoa (wg_server_port i))" "edged ''false''"
    using assms(1) printable_edged show_nat_digits
    by (auto simp: wg_server_ok_def Itoa_nat intro: edged_digits, simp add: edged_def space_byte_def)
  have n: "ParsePrefix (wg_server_address i) = Some (V4 w, bits)" using assms(1) by (simp add: wg_server_ok_def)
  note lines = wg_interface_line [of "''PrivateKey''", OF _ e(1), simplified] wg_interface_line [of "''Address''", OF _ e(2), simplified]
    wg_interface_line [of "''ListenPort''", OF _ e(3), simplified] wg_interface_line [of "''SaveConfig''", OF _ e(4), simplified]
    wg_interface_line [of "''PostUp''", OF _ edged_hooks(1), simplified] wg_interface_line [of "''PostDown''", OF _ edged_hooks(2), simplified]
  let ?m = "put ''PostDown'' (wireGuardPostDown ?n) (put ''PostUp'' (wireGuardPostUp ?n) (put ''SaveConfig'' ''false''
    (put ''ListenPort'' (Itoa (wg_server_port i)) (put ''Address'' (wg_server_address i) (put ''PrivateKey'' (TrimSpace (si_wg_private i)) [])))))"
  have "wg_lines (interface_lines i) st = Inr (st\<lparr>wp_section := ''Interface'', wp_interface := ?m\<rparr>)"
    using assms(3) by (simp add: interface_lines_def Let_def n lines)
  moreover have "value_of ?m ''PrivateKey'' = TrimSpace (si_wg_private i) \<and> value_of ?m ''Address'' = wg_server_address i
     \<and> value_of ?m ''ListenPort'' = Itoa (wg_server_port i) \<and> value_of ?m ''SaveConfig'' = ''false''
     \<and> value_of ?m ''PostUp'' = wireGuardPostUp ?n \<and> value_of ?m ''PostDown'' = wireGuardPostDown ?n"
    by (simp add: value_of_put)
  ultimately show ?thesis by blast
qed

lemma hooks_newline: "newline \<notin> set n \<Longrightarrow> newline \<notin> set (wireGuardPostUp n) \<and> newline \<notin> set (wireGuardPostDown n)"
  by (simp add: wireGuardPostUp_def wireGuardPostDown_def)

lemma digits_newline: "list_all is_digit s \<Longrightarrow> newline \<notin> set s"
  by (auto simp: list_all_iff is_digit_def)

lemma String4_newline: "newline \<notin> set (String4 w)"
  using String4_chars [of newline w] by (auto simp: is_digit_def)

lemma masked_newline: "newline \<notin> set (masked_String (Some (V4 w, bits)))"
  using String4_newline digits_newline [OF show_nat_digits] by (simp add: masked_String_def)

lemma comment_newline: "newline \<notin> set (safeWireGuardComment v)"
proof -
  have "newline \<notin> set (ReplaceAll (ReplaceAll v carriage_return CHR '' '') newline CHR '' '')"
    by (auto simp: ReplaceAll_def)
  then show ?thesis unfolding safeWireGuardComment_def using TrimSpace_sub by blast
qed

lemma interface_newline: "wg_server_ok i w bits \<Longrightarrow> l \<in> set (interface_lines i) \<Longrightarrow> newline \<notin> set l"
  using hooks_newline [OF masked_newline, of w bits] digits_newline [OF show_nat_digits] printable_newline
  by (auto simp: interface_lines_def Let_def wg_server_ok_def Itoa_nat)

lemma peer_newline: "peer_ok a \<Longrightarrow> l \<in> set (peer_lines a) \<Longrightarrow> newline \<notin> set l"
  using comment_newline printable_newline String4_newline by (auto simp: peer_lines_def peer_ok_def)

text \<open>The trailing newline is trimmed, so the text splits into its lines.\<close>

lemma split_text:
  assumes "ls \<noteq> []" "\<forall>l \<in> set ls. newline \<notin> set l" "hd ls \<noteq> []" "\<not> space_byte (hd (hd ls))" "edged (last ls)"
  shows "Split_at newline (TrimSpace (unlines ls)) = ls"
proof -
  obtain ms m where ls: "ls = ms @ [m]" using assms(1) by (metis append_butlast_last_id)
  let ?t = "unlines ms @ m"
  have t: "unlines ls = ?t @ [newline]" by (simp add: ls unlines_def)
  have m: "m \<noteq> []" "\<not> space_byte (last m)" using assms(5) by (simp_all add: ls edged_def)
  have h: "?t \<noteq> []" "hd ?t = hd (hd ls)" using assms(3) m by (cases ms; simp add: ls unlines_def)+
  have "TrimSpace (unlines ls) = TrimSpace ?t"
    unfolding t using h assms(4) by (intro TrimSpace_end) simp_all
  also have "\<dots> = ?t" using h assms(4) m by (intro TrimSpace_edges) simp_all
  finally show ?thesis using assms(2) by (simp add: ls Split_at_unlines)
qed

lemma last_peer_line: "as \<noteq> [] \<Longrightarrow> \<forall>a \<in> set as. peer_ok a \<Longrightarrow> edged (last (concat (map peer_lines as)))"
proof (induction as rule: rev_induct)
  case (snoc a as)
  then obtain w where "wireGuardPeerAddress (ac_wg_address a) = String4 w" by (auto simp: peer_ok_def)
  then have "last (concat (map peer_lines (as @ [a]))) = ''AllowedIPs = '' @ String4 w @ ''/32''" by (simp add: peer_lines_def)
  then show ?case by (simp add: edged_def space_byte_def)
qed simp

lemma wireguard_parse:
  assumes "wg_server_ok i w bits" "\<forall>a \<in> set as. peer_ok a"
  shows "parseWireGuardServerConfig (unlines (interface_lines i @ concat (map peer_lines as))) =
     Inr \<lparr>pw_address = String4 w @ ''/'' @ show_nat bits, pw_port = wg_server_port i,
          pw_private = TrimSpace (si_wg_private i),
          pw_peers = map (\<lambda>a. wireGuardPeerAddress (ac_wg_address a) @ ''/32'') as\<rparr>"
proof -
  let ?ls = "interface_lines i @ concat (map peer_lines as)"
  let ?s0 = "\<lparr>wp_section = [], wp_interface = [], wp_peer = [], wp_peers = []\<rparr>"
  have split: "Split_at newline (TrimSpace (unlines ?ls)) = ?ls"
  proof (rule split_text)
    show "\<forall>l \<in> set ?ls. newline \<notin> set l" using interface_newline [OF assms(1)] peer_newline assms(2) by auto
    have ne: "concat (map peer_lines as) = [] \<longleftrightarrow> as = []" by (cases as) (auto simp: peer_lines_def)
    have "edged (last (interface_lines i))"
      by (simp add: interface_lines_def Let_def edged_def wireGuardPostDown_def space_byte_def)
    then show "edged (last ?ls)" using ne last_peer_line [OF _ assms(2)] by (cases "as = []") auto
  qed (simp_all add: interface_lines_def Let_def space_byte_def)
  obtain m where m: "wg_lines (interface_lines i) ?s0 = Inr (?s0\<lparr>wp_section := ''Interface'', wp_interface := m\<rparr>)"
     "value_of m ''PrivateKey'' = TrimSpace (si_wg_private i)" "value_of m ''Address'' = wg_server_address i"
     "value_of m ''ListenPort'' = Itoa (wg_server_port i)" "value_of m ''SaveConfig'' = ''false''"
     "value_of m ''PostUp'' = wireGuardPostUp (masked_String (Some (V4 w, bits)))"
     "value_of m ''PostDown'' = wireGuardPostDown (masked_String (Some (V4 w, bits)))"
    using interface_parse [OF assms(1), of ?s0] by auto
  let ?s1 = "?s0\<lparr>wp_section := ''Interface'', wp_interface := m\<rparr>"
  obtain r r' where r: "wg_lines (concat (map peer_lines as)) ?s1 = Inr r" "flushPeer r = Inr r'" "wp_interface r' = m"
     "wp_peers r' = map (\<lambda>a. wireGuardPeerAddress (ac_wg_address a) @ ''/32'') as"
    using peers_parse [OF assms(2), of ?s1 ?s1] by (auto simp: flushPeer_def)
  have ok: "ValidateKey (si_wg_private i)" "ParsePrefix (wg_server_address i) = Some (V4 w, bits)" "bits \<le> 30"
    "1 \<le> wg_server_port i" "wg_server_port i \<le> 65535" using assms(1) by (simp_all add: wg_server_ok_def)
  have port: "Atoi (Itoa (wg_server_port i)) = Some (wg_server_port i)"
    using ok by (intro Atoi_Itoa) (simp_all add: int64_max_def)
  have "wg_finish r' = Inr \<lparr>pw_address = String4 w @ ''/'' @ show_nat bits, pw_port = wg_server_port i,
          pw_private = TrimSpace (si_wg_private i), pw_peers = wp_peers r'\<rparr>"
    using ok by (simp add: wg_finish_def Let_def r(3) m ValidateKey_trim port)
  then show ?thesis
    by (simp only: parseWireGuardServerConfig_def split wg_lines_append m(1) r sum.case)
qed

lemma renderable_peer_ok:
  "isWireGuardAccountRenderable a \<Longrightarrow> printable (TrimSpace (ac_wg_public a)) \<Longrightarrow> peer_ok a"
  using peer_address by (auto simp: isWireGuardAccountRenderable_def peer_ok_def)

text \<open>C27. The WireGuard text round trip.  For a server with a valid key, IPv4 address and port, and peers whose
  public keys contain no white space, parsing the rendered text gives back the address, the port, the private
  key and one /32 peer for each renderable account, in order.  Account identifiers and display names are
  arbitrary: a name with line breaks cannot inject a section, a peer or a hook into the text.\<close>

theorem wireguard_config_roundtrip:
  assumes "wg_server_ok i w bits"
    and "\<forall>a \<in> set (si_accounts i). isWireGuardAccountRenderable a \<longrightarrow> printable (TrimSpace (ac_wg_public a))"
  shows "parseWireGuardServerConfig (rc_wireguard (wireguard_render i c)) =
     Inr \<lparr>pw_address = String4 w @ ''/'' @ show_nat bits, pw_port = wg_server_port i,
          pw_private = TrimSpace (si_wg_private i),
          pw_peers = map (\<lambda>a. wireGuardPeerAddress (ac_wg_address a) @ ''/32'')
                       (filter isWireGuardAccountRenderable (si_accounts i))\<rparr>"
proof -
  have "\<forall>a \<in> set (filter isWireGuardAccountRenderable (si_accounts i)). peer_ok a"
    using assms(2) renderable_peer_ok by auto
  from wireguard_parse [OF assms(1) this] show ?thesis by (simp add: wireguard_render_def Let_def)
qed

section \<open>MTProto\<close>

text \<open>What \<open>strconv\<close> documents: quoting is undone by unquoting, and a quoted text is printable at both ends and
  on one line.\<close>

definition quote_law :: "lib \<Rightarrow> bool" where
  "quote_law L \<longleftrightarrow> (\<forall>s. l_unquote L (l_quote L s) = Some s \<and> edged (l_quote L s) \<and> newline \<notin> set (l_quote L s))"

definition mt_server_port :: "ServerConfigInfo \<Rightarrow> int" where
  "mt_server_port i = (if si_mt_port i = 0 then 9443 else si_mt_port i)"

definition mt_server_ok :: "ServerConfigInfo \<Rightarrow> bool" where
  "mt_server_ok i \<longleftrightarrow> validMTProtoSecret (ToLower (TrimSpace (si_mt_secret i))) \<and> 1 \<le> mt_server_port i \<and> mt_server_port i \<le> 65535"

lemma mt_line:
  assumes "k \<in> {''debug'', ''secret'', ''bind-to'', ''concurrency'', ''prefer-ip'', ''auto-update''}" "edged v" "map_of m k = None"
  shows "mt_lines ((k @ '' = '' @ v) # ls) m = mt_lines ls (put k v m)"
proof -
  have k: "edged k" "CHR ''='' \<notin> set k" "k @ '' = '' @ v \<noteq> []"
    using assms(1) by (auto simp: edged_def space_byte_def)
  show ?thesis
    using assms(1,3) k(3)
    by (simp only: mt_lines.simps Let_def field_line [OF k(1,2) assms(2)] option.case prod.case) auto
qed

lemma edged_literal: "edged ''false''" "edged ''8192''" "edged ''\"prefer-ipv4\"''"
  by (simp_all add: edged_def space_byte_def)

lemma mtproto_parse:
  assumes "quote_law L" "mt_server_ok i"
  shows "parseMTProtoServerConfig L (unlines (mtproto_lines L i)) =
     Inr \<lparr>mt_secret = ToLower (ToLower (TrimSpace (si_mt_secret i))), mt_port = mt_server_port i,
          mt_domain = ''www.cloudflare.com''\<rparr>"
proof -
  define s where "s = ToLower (TrimSpace (si_mt_secret i))"
  define b where "b = ''0.0.0.0:'' @ Itoa (mt_server_port i)"
  have q: "l_unquote L (l_quote L x) = Some x" "edged (l_quote L x)" "newline \<notin> set (l_quote L x)" for x
    using assms(1) by (auto simp: quote_law_def)
  have ls: "mtproto_lines L i = [''debug'' @ '' = '' @ ''false'', ''secret'' @ '' = '' @ l_quote L s, ''bind-to'' @ '' = '' @ l_quote L b,
      ''concurrency'' @ '' = '' @ ''8192'', ''prefer-ip'' @ '' = '' @ ''\"prefer-ipv4\"'', ''auto-update'' @ '' = '' @ ''false'']"
    by (simp add: mtproto_lines_def s_def b_def mt_server_port_def)
  have split: "Split_at newline (TrimSpace (unlines (mtproto_lines L i))) = mtproto_lines L i"
    by (rule split_text) (auto simp: ls q(3) edged_def space_byte_def)
  let ?m = "put ''auto-update'' ''false'' (put ''prefer-ip'' ''\"prefer-ipv4\"'' (put ''concurrency'' ''8192''
    (put ''bind-to'' (l_quote L b) (put ''secret'' (l_quote L s) (put ''debug'' ''false'' [])))))"
  have lines: "mt_lines (mtproto_lines L i) [] = Inr ?m"
    unfolding ls by ((rule trans [OF mt_line], simp, simp only: edged_literal q(2), simp)+) simp
  have len: "length ?m = 6" by (simp add: put_def)
  have v: "value_of ?m ''debug'' = ''false''" "value_of ?m ''concurrency'' = ''8192''" "value_of ?m ''prefer-ip'' = ''\"prefer-ipv4\"''"
    "value_of ?m ''auto-update'' = ''false''" "value_of ?m ''secret'' = l_quote L s" "value_of ?m ''bind-to'' = l_quote L b"
    by (simp_all add: value_of_put)
  have ok: "validMTProtoSecret s" "1 \<le> mt_server_port i" "mt_server_port i \<le> 65535"
    using assms(2) by (simp_all add: mt_server_ok_def s_def)
  have port: "Atoi (TrimPrefix b ''0.0.0.0:'') = Some (mt_server_port i)" "prefix ''0.0.0.0:'' b"
    using ok Atoi_Itoa [of "mt_server_port i"] by (simp_all add: b_def TrimPrefix_def int64_max_def)
  have "mt_finish L ?m = Inr \<lparr>mt_secret = ToLower s, mt_port = mt_server_port i, mt_domain = ''www.cloudflare.com''\<rparr>"
    unfolding mt_finish_def v len q(1) option.case using ok port by (simp add: b_def)
  then show ?thesis by (simp only: parseMTProtoServerConfig_def split lines sum.case s_def)
qed

end
