(* ===== verification/Config_Validity.thy ===== *)
theory Config_Validity
  imports Config_Text
begin

text \<open>
  Validation and readiness of rendered configurations: a node with sound settings renders a valid
  configuration, and which accounts decide whether it can be applied.
\<close>

section \<open>Adapters of a rendered configuration\<close>

lemma fold_keeps [simp]:
  "rc_metadata (fold (adapter_Render L i) as c) = rc_metadata c" "rc_server (fold (adapter_Render L i) as c) = rc_server c"
  "rc_schema (fold (adapter_Render L i) as c) = rc_schema c" "rc_agent (fold (adapter_Render L i) as c) = rc_agent c"
  by (induction as arbitrary: c) simp_all

definition selected_cores :: "ServerConfigInfo \<Rightarrow> ConfigVPNCore list" where
  "selected_cores i = map (\<lambda>a. configVPNCoreFromAdapter a (realityRequested i)) (selectedVPNCoreAdapters i)"

lemma build_metadata:
  "md_reality (rc_metadata (buildRenderedConfig L i now)) = realityRequested i"
  "md_empty_users (rc_metadata (buildRenderedConfig L i now)) = False"
  "md_core (rc_metadata (buildRenderedConfig L i now)) = configVPNCoreFromAdapter (selectedVPNCoreAdapter i) (realityRequested i)"
  "md_cores (rc_metadata (buildRenderedConfig L i now)) =
     (if selected_cores i = [configVPNCoreFromAdapter (selectedVPNCoreAdapter i) (realityRequested i)] then [] else selected_cores i)"
  by (simp_all add: buildRenderedConfig_def renderSelectedVPNCoreAdapters_def mergeRenderedVPNAccounts_def Let_def
      config_base_def selected_cores_def)

lemma build_server:
  "rc_schema (buildRenderedConfig L i now) = ''routegate.config.v1''"
  "cs_id (rc_server (buildRenderedConfig L i now)) = si_id i" "cs_name (rc_server (buildRenderedConfig L i now)) = si_name i"
  "cs_role (rc_server (buildRenderedConfig L i now)) = role_text (EffectiveDeploymentRole (si_role i))"
  by (simp_all add: buildRenderedConfig_def renderSelectedVPNCoreAdapters_def mergeRenderedVPNAccounts_def Let_def config_base_def)

lemma Resolve_core [simp]: "Resolve (configVPNCoreFromAdapter a r) = Some a"
  by (cases a; cases r) (simp_all add: configVPNCoreFromAdapter_def selectedAdapterSecurity_def Let_def)

definition core_key :: "adapter \<Rightarrow> string" where
  "core_key a = de_core (Descriptor a) @ ''/'' @ de_protocol (Descriptor a)"

lemma core_key_inj: "core_key a = core_key b \<longleftrightarrow> a = b"
  by (cases a; cases b) (simp_all add: core_key_def)

lemma core_fields: "vc_core (configVPNCoreFromAdapter a r) @ ''/'' @ vc_protocol (configVPNCoreFromAdapter a r) = core_key a"
  "TrimSpace (vc_core (configVPNCoreFromAdapter a r)) \<noteq> []"
  by (cases a; simp add: configVPNCoreFromAdapter_def composition_def core_key_def Let_def)+

lemma configured_selected:
  "distinct as \<Longrightarrow> core_key ` set as \<inter> set seen = {} \<Longrightarrow>
     configured_adapters c (map (\<lambda>a. configVPNCoreFromAdapter a r) as) seen = Some as"
proof (induction as arbitrary: seen)
  case (Cons a as)
  then have "configured_adapters c (map (\<lambda>a. configVPNCoreFromAdapter a r) as) (core_key a # seen) = Some as"
    by (intro Cons.IH) (auto simp: core_key_inj)
  moreover have "core_key a \<notin> set seen" using Cons.prems by auto
  ultimately show ?case by (simp add: core_fields del: append.simps append_Cons)
qed simp

lemma configured_build:
  assumes "selectedVPNCoreAdapters i \<noteq> []"
  shows "configuredVPNCoreAdapters (buildRenderedConfig L i now) = Some (selectedVPNCoreAdapters i)"
proof -
  have "configured_adapters c (selected_cores i) [] = Some (selectedVPNCoreAdapters i)" for c
    unfolding selected_cores_def by (rule configured_selected [OF selected_distinct]) simp
  moreover have "selected_cores i \<noteq> []" using assms by (simp add: selected_cores_def)
  ultimately show ?thesis
    using assms by (auto simp: configuredVPNCoreAdapters_def build_metadata Let_def split: if_splits)
qed

section \<open>The sing-box base\<close>

definition based :: "SingBoxConfig \<Rightarrow> bool" where
  "based b \<longleftrightarrow> sb_outbounds b \<noteq> [] \<and> sb_final b = ''direct''"

lemma outbound_base [simp]: "sb_final (ensureSingBoxOutbound ob b) = sb_final b"
  "sb_outbounds (ensureSingBoxOutbound ob b) \<noteq> []"
  by (auto simp: ensureSingBoxOutbound_def)

lemma rules_base [simp]:
  "sb_final (applySingBoxRoutingProfile p b) = sb_final b"
  "sb_outbounds b \<noteq> [] \<Longrightarrow> sb_outbounds (applySingBoxRoutingProfile p b) \<noteq> []"
proof -
  have f: "sb_final (add_route_rule r b) = sb_final b" "sb_outbounds b \<noteq> [] \<Longrightarrow> sb_outbounds (add_route_rule r b) \<noteq> []" for r b
    by (auto simp: add_route_rule_def Let_def split: option.splits)
  have "sb_final (fold add_route_rule rs b) = sb_final b" for rs b
    by (induction rs arbitrary: b) (simp_all add: f)
  moreover have "sb_outbounds b \<noteq> [] \<Longrightarrow> sb_outbounds (fold add_route_rule rs b) \<noteq> []" for rs b
    by (induction rs arbitrary: b) (simp_all add: f)
  ultimately show "sb_final (applySingBoxRoutingProfile p b) = sb_final b"
    "sb_outbounds b \<noteq> [] \<Longrightarrow> sb_outbounds (applySingBoxRoutingProfile p b) \<noteq> []"
    by (auto simp: applySingBoxRoutingProfile_def split: option.splits)
qed

lemma ensureBase_based: "sb_final b \<in> {[], ''direct''} \<Longrightarrow> based (ensureSingBoxBase b)"
  by (auto simp: based_def ensureSingBoxBase_def Let_def)

lemma adapter_final: "sb_final (rc_singbox c) \<in> {[], ''direct''} \<Longrightarrow> sb_final (rc_singbox (adapter_Render L i a c)) \<in> {[], ''direct''}"
  using ensureBase_based [of "rc_singbox c"] by (cases a) (auto simp: render_defs based_def)

lemma adapter_based:
  assumes "sb_final (rc_singbox c) \<in> {[], ''direct''}" "a \<in> {SingBoxVLESS, ShadowsocksAdapter} \<or> based (rc_singbox c)"
  shows "based (rc_singbox (adapter_Render L i a c))"
  using assms ensureBase_based [of "rc_singbox c"] by (cases a) (auto simp: render_defs based_def)

lemma fold_based:
  assumes "sb_final (rc_singbox c) \<in> {[], ''direct''}" "SingBoxVLESS \<in> set as \<or> ShadowsocksAdapter \<in> set as \<or> based (rc_singbox c)"
  shows "based (rc_singbox (fold (adapter_Render L i) as c))"
  using assms
proof (induction as arbitrary: c)
  case (Cons a as)
  have "based (rc_singbox (fold (adapter_Render L i) as (adapter_Render L i a c)))"
  proof (rule Cons.IH)
    show "sb_final (rc_singbox (adapter_Render L i a c)) \<in> {[], ''direct''}" by (rule adapter_final [OF Cons.prems(1)])
    show "SingBoxVLESS \<in> set as \<or> ShadowsocksAdapter \<in> set as \<or> based (rc_singbox (adapter_Render L i a c))"
      using Cons.prems(2) adapter_based [OF Cons.prems(1)] by auto
  qed
  then show ?case by simp
qed simp

lemma build_based:
  assumes "SingBoxVLESS \<in> set (selectedVPNCoreAdapters i) \<or> ShadowsocksAdapter \<in> set (selectedVPNCoreAdapters i)"
  shows "based (rc_singbox (buildRenderedConfig L i now))"
proof -
  have "based (rc_singbox (fold (adapter_Render L i) (selectedVPNCoreAdapters i) c))" if "rc_singbox c = empty_singbox" for c
    by (rule fold_based) (use that assms in \<open>auto simp: empty_singbox_def\<close>)
  then show ?thesis
    by (simp add: buildRenderedConfig_def renderSelectedVPNCoreAdapters_def mergeRenderedVPNAccounts_def Let_def based_def)
qed

section \<open>Sound settings\<close>

fun renderable :: "adapter \<Rightarrow> VPNAccountConfigInfo \<Rightarrow> bool" where
  "renderable SingBoxVLESS a = isVPNAccountRenderable a"
| "renderable WireGuardAdapter a = isWireGuardAccountRenderable a"
| "renderable Hysteria2Adapter a = isHysteria2AccountRenderable a"
| "renderable ShadowsocksAdapter a = isShadowsocksAccountRenderable a"
| "renderable MTProtoAdapter a = False"

definition rendered_by :: "ServerConfigInfo \<Rightarrow> adapter \<Rightarrow> VPNAccountConfigInfo list" where
  "rendered_by i ad = filter (renderable ad) (si_accounts i)"

definition valid_username :: "VPNAccountConfigInfo \<Rightarrow> bool" where
  "valid_username a \<longleftrightarrow> validHysteria2Username (account_username a) \<and> TrimSpace (account_username a) = account_username a"

definition h2_server_port :: "ServerConfigInfo \<Rightarrow> int" where
  "h2_server_port i = (if si_h2_port i = 0 then 443 else si_h2_port i)"

fun sound :: "lib \<Rightarrow> ServerConfigInfo \<Rightarrow> adapter \<Rightarrow> bool" where
  "sound L i SingBoxVLESS \<longleftrightarrow> serverVLESSPort i \<le> 65535
     \<and> (realityRequested i \<longrightarrow> rendered_by i SingBoxVLESS \<noteq> [] \<and> TrimSpace (si_reality_name i) \<noteq> [] \<and> TrimSpace (si_reality_private i) \<noteq> [])"
| "sound L i WireGuardAdapter \<longleftrightarrow> (\<exists>w bits. wg_server_ok i w bits) \<and> (\<forall>a \<in> set (rendered_by i WireGuardAdapter). printable (TrimSpace (ac_wg_public a)))"
| "sound L i Hysteria2Adapter \<longleftrightarrow> 1 \<le> h2_server_port i \<and> h2_server_port i \<le> 65535
     \<and> validHysteria2Domain (ToLower (TrimSpace (si_h2_domain i))) \<and> l_mail L (TrimSpace (si_h2_email i)) = Some (TrimSpace (si_h2_email i))
     \<and> validHysteria2MasqueradeURL L (si_h2_masquerade i) \<and> (\<forall>a \<in> set (rendered_by i Hysteria2Adapter). valid_username a)"
| "sound L i ShadowsocksAdapter \<longleftrightarrow> 0 \<le> si_ss_port i \<and> si_ss_port i \<le> 65535 \<and> validShadowsocksKey (si_ss_key i)
     \<and> (\<forall>a \<in> set (rendered_by i ShadowsocksAdapter). valid_username a)
     \<and> distinct (map account_username (rendered_by i ShadowsocksAdapter))
     \<and> distinct (map (\<lambda>a. TrimSpace (ac_ss_key a)) (rendered_by i ShadowsocksAdapter))"
| "sound L i MTProtoAdapter \<longleftrightarrow> quote_law L \<and> mt_server_ok i"

definition sound_server :: "lib \<Rightarrow> ServerConfigInfo \<Rightarrow> bool" where
  "sound_server L i \<longleftrightarrow> si_id i \<noteq> [] \<and> si_name i \<noteq> []
     \<and> EffectiveDeploymentRole (si_role i) \<in> {Some Role_vpn, Some Role_hybrid}
     \<and> selectedVPNCoreAdapters i \<noteq> [] \<and> (\<forall>a \<in> set (selectedVPNCoreAdapters i). sound L i a)"

lemma find_filter: "find P xs = (case filter P xs of [] \<Rightarrow> None | x # _ \<Rightarrow> Some x)"
  by (induction xs) auto

lemma findVLESS_build:
  assumes "SingBoxVLESS \<in> set (selectedVPNCoreAdapters i)"
  shows "findVLESSInbound (buildRenderedConfig L i now) =
     (if rendered_by i SingBoxVLESS = [] then None
      else Some (vless_inbound i (realityRequested i) (map vless_user (rendered_by i SingBoxVLESS))))"
proof -
  have "rendered_by i SingBoxVLESS = filter isVPNAccountRenderable (si_accounts i)"
    unfolding rendered_by_def by (rule filter_cong) simp_all
  then show ?thesis
    using vless_in.rendered [of L i now] assms
    by (simp add: findVLESSInbound_def find_filter vless_inbounds_def Let_def)
qed

lemma reality_inbound:
  assumes "TrimSpace (si_reality_name i) \<noteq> []" "TrimSpace (si_reality_private i) \<noteq> []"
  shows "validateRealityInbound (vless_inbound i True us) = []"
  using assms by (simp add: validateRealityInbound_def vless_inbound_def buildRealityTLS_def Let_def is_object_def
      boolValue_def stringValue_def intValue_def sliceLength_def)

lemma vless_fields:
  "member (vless_inbound i r us) ''listen_port'' = JInt (serverVLESSPort i)" "member (vless_inbound i r us) ''users'' = JArr us"
  by (simp_all add: vless_inbound_def)

lemma vless_sound:
  assumes "SingBoxVLESS \<in> set (selectedVPNCoreAdapters i)" "sound L i SingBoxVLESS"
  shows "vr_errors (vless_validate (buildRenderedConfig L i now)) = []"
    and "vless_ready (buildRenderedConfig L i now) \<longleftrightarrow> rendered_by i SingBoxVLESS \<noteq> []"
proof -
  let ?c = "buildRenderedConfig L i now"
  have b: "based (rc_singbox ?c)" using assms(1) build_based by blast
  have re: "realityRequested i \<Longrightarrow> validateRealityInbound (vless_inbound i (realityRequested i) us) = []" for us
    using assms(2) reality_inbound by auto
  show "vr_errors (vless_validate ?c) = []"
    using b assms(2) re by (auto simp: vless_validate_def based_def build_metadata findVLESS_build [OF assms(1)])
  have "1 \<le> serverVLESSPort i" by (simp add: serverVLESSPort_def)
  then show "vless_ready ?c \<longleftrightarrow> rendered_by i SingBoxVLESS \<noteq> []"
    using assms(2) re by (simp add: vless_ready_def findVLESS_build [OF assms(1)] build_metadata vless_fields intValue_def sliceLength_def Let_def)
qed

lemma wireguard_sound:
  assumes "WireGuardAdapter \<in> set (selectedVPNCoreAdapters i)" "sound L i WireGuardAdapter"
  shows "vr_errors (wireguard_validate (buildRenderedConfig L i now)) = []"
    and "wireguard_ready (buildRenderedConfig L i now) \<longleftrightarrow> rendered_by i WireGuardAdapter \<noteq> []"
proof -
  have r: "rendered_by i WireGuardAdapter = filter isWireGuardAccountRenderable (si_accounts i)"
    unfolding rendered_by_def by (rule filter_cong) simp_all
  obtain w bits where w: "wg_server_ok i w bits" using assms(2) by auto
  have "\<forall>a \<in> set (rendered_by i WireGuardAdapter). peer_ok a"
    using assms(2) renderable_peer_ok by (auto simp: r)
  note p = wireguard_parse [OF w this]
  have t: "rc_wireguard (buildRenderedConfig L i now) = unlines (interface_lines i @ concat (map peer_lines (rendered_by i WireGuardAdapter)))"
    using wireguard.rendered [of L i now] assms(1) by (simp add: r)
  show "vr_errors (wireguard_validate (buildRenderedConfig L i now)) = []"
    "wireguard_ready (buildRenderedConfig L i now) \<longleftrightarrow> rendered_by i WireGuardAdapter \<noteq> []"
    by (simp_all add: wireguard_validate_def wireguard_ready_def t p)
qed

lemma userpass_fold:
  "(u, p) \<in> set (fold (\<lambda>a. put (f a) (g a)) as m) \<Longrightarrow> (\<exists>a \<in> set as. u = f a \<and> p = g a) \<or> (u, p) \<in> set m"
proof (induction as arbitrary: m)
  case (Cons a as)
  from Cons.IH [of "put (f a) (g a) m"] Cons.prems show ?case by (auto simp: put_def)
qed simp

lemma h2_config_check:
  assumes "sound L i Hysteria2Adapter"
  shows "h2_check L (h2_config i (rendered_by i Hysteria2Adapter)) = None"
proof -
  let ?h = "h2_config i (rendered_by i Hysteria2Adapter)"
  have s: "1 \<le> h2_server_port i" "h2_server_port i \<le> 65535" "validHysteria2Domain (ToLower (TrimSpace (si_h2_domain i)))"
    "l_mail L (TrimSpace (si_h2_email i)) = Some (TrimSpace (si_h2_email i))" "validHysteria2MasqueradeURL L (si_h2_masquerade i)"
    using assms by auto
  have "Atoi (Itoa (h2_server_port i)) = Some (h2_server_port i)" using s by (intro Atoi_Itoa) (simp_all add: int64_max_def)
  then have port: "Atoi (TrimPrefix (h2_listen ?h) '':'') = Some (h2_server_port i)" "h2_listen ?h = '':'' @ Itoa (h2_server_port i)"
    by (simp_all add: h2_config_def h2_server_port_def Let_def TrimPrefix_def)
  have users: "list_all (\<lambda>(u, p). validHysteria2Username u \<and> validHysteria2Password p) (h2_userpass ?h)"
  proof -
    have "validHysteria2Username u \<and> validHysteria2Password p" if up: "(u, p) \<in> set (h2_userpass ?h)" for u p
    proof -
      have "h2_userpass ?h = fold (\<lambda>a. put (account_username a) (TrimSpace (ac_h2_password a))) (rendered_by i Hysteria2Adapter) []"
        by (simp add: h2_config_def Let_def)
      note mem = userpass_fold [OF up [unfolded this]]
      obtain a where a: "a \<in> set (rendered_by i Hysteria2Adapter)" "u = account_username a" "p = TrimSpace (ac_h2_password a)"
        using mem by auto
      then have "valid_username a" "isHysteria2AccountRenderable a" using assms by (auto simp: rendered_by_def)
      with a show ?thesis by (simp add: valid_username_def isHysteria2AccountRenderable_def validHysteria2Password_def)
    qed
    then show ?thesis by (auto simp: list_all_iff)
  qed
  have rest: "h2_domains ?h = [ToLower (TrimSpace (si_h2_domain i))]" "h2_email ?h = TrimSpace (si_h2_email i)" "h2_ca ?h = ''letsencrypt''"
    "h2_dir ?h = ''/var/lib/hysteria/acme''" "h2_acme_type ?h = ''http''" "validHysteria2ACMEListener ?h" "h2_auth_type ?h = ''userpass''"
    "h2_masq_type ?h = ''proxy''" "h2_url ?h = TrimSpace (si_h2_masquerade i)" "h2_rewrite ?h" "\<not> h2_insecure ?h" "\<not> h2_forwarded ?h"
    by (simp_all add: h2_config_def Let_def validHysteria2ACMEListener_def usesHysteria2ACMEBridge_def)
  show ?thesis using s port users rest(6,10-12)
    by (simp add: h2_check_def rest validHysteria2MasqueradeURL_def)
qed

lemma hysteria2_sound:
  assumes "Hysteria2Adapter \<in> set (selectedVPNCoreAdapters i)" "sound L i Hysteria2Adapter"
    "EffectiveDeploymentRole (si_role i) \<in> {Some Role_vpn, Some Role_hybrid}"
    "EffectiveDeploymentRole (cs_role (rc_server (buildRenderedConfig L i now))) = EffectiveDeploymentRole (si_role i)"
  shows "vr_errors (hysteria2_validate L (buildRenderedConfig L i now)) = []"
    and "hysteria2_ready L (buildRenderedConfig L i now) \<longleftrightarrow> rendered_by i Hysteria2Adapter \<noteq> []"
proof -
  let ?h = "h2_config i (rendered_by i Hysteria2Adapter)"
  have r: "rendered_by i Hysteria2Adapter = filter isHysteria2AccountRenderable (si_accounts i)"
    unfolding rendered_by_def by (rule filter_cong) simp_all
  have "h2_sections (buildRenderedConfig L i now) = [?h]" using hysteria2.rendered [of L i now] assms(1) by (simp add: r)
  then have t: "rc_hysteria2 (buildRenderedConfig L i now) = H2 ?h"
    by (cases "rc_hysteria2 (buildRenderedConfig L i now)") (simp_all add: h2_sections_def)
  have p: "parseHysteria2ServerConfig L (rc_hysteria2 (buildRenderedConfig L i now)) = Inr ?h"
    by (simp add: t parseHysteria2ServerConfig_def h2_config_check [OF assms(2)])
  have u: "h2_userpass ?h = [] \<longleftrightarrow> rendered_by i Hysteria2Adapter = []"
  proof -
    have "fst ` set (h2_userpass ?h) = account_username ` set (rendered_by i Hysteria2Adapter)"
      by (simp add: h2_config_def Let_def fold_put_keys)
    then show ?thesis by (metis image_is_empty set_empty)
  qed
  have l: "h2_listen_host ?h = (if EffectiveDeploymentRole (si_role i) = Some Role_hybrid then ''127.0.0.1'' else [])"
    "h2_alt_port ?h = (if EffectiveDeploymentRole (si_role i) = Some Role_hybrid then Some 9080 else None)"
    by (simp_all add: h2_config_def Let_def)
  show "vr_errors (hysteria2_validate L (buildRenderedConfig L i now)) = []"
    using assms(3) by (auto simp: hysteria2_validate_def Let_def p assms(4) l usesHysteria2ACMEBridge_def)
  show "hysteria2_ready L (buildRenderedConfig L i now) \<longleftrightarrow> rendered_by i Hysteria2Adapter \<noteq> []"
    by (simp add: hysteria2_ready_def p u)
qed

lemma ss_users_check:
  assumes "\<forall>a \<in> set as. valid_username a \<and> validShadowsocksKey (ac_ss_key a)"
    and "distinct (map account_username as)" "distinct (map (\<lambda>a. TrimSpace (ac_ss_key a)) as)"
    and "account_username ` set as \<inter> set names = {}" "(\<lambda>a. TrimSpace (ac_ss_key a)) ` set as \<inter> set keys = {}"
  shows "check_ss_users (map shadowsocks_user as) names keys = None"
  using assms
proof (induction as arbitrary: names keys)
  case (Cons a as)
  have a: "validHysteria2Username (account_username a)" "TrimSpace (account_username a) = account_username a"
    "validShadowsocksKey (TrimSpace (ac_ss_key a))"
    using Cons.prems(1) by (simp_all add: valid_username_def validShadowsocksKey_def)
  have f: "stringValueFromMap (shadowsocks_user a) ''name'' = account_username a"
    "stringValueFromMap (shadowsocks_user a) ''password'' = TrimSpace (ac_ss_key a)" "object_size (shadowsocks_user a) = 2"
    by (simp_all add: shadowsocks_user_def stringValueFromMap_def stringValue_def object_size_def a(2))
  have "check_ss_users (map shadowsocks_user as) (account_username a # names) (TrimSpace (ac_ss_key a) # keys) = None"
    by (rule Cons.IH) (use Cons.prems in auto)
  then show ?case using Cons.prems(4,5) by (simp add: f a Let_def)
qed simp

lemma shadowsocks_sound:
  assumes "ShadowsocksAdapter \<in> set (selectedVPNCoreAdapters i)" "sound L i ShadowsocksAdapter"
  shows "vr_errors (shadowsocks_validate (buildRenderedConfig L i now)) = []"
    and "shadowsocks_ready (buildRenderedConfig L i now) \<longleftrightarrow> rendered_by i ShadowsocksAdapter \<noteq> []"
proof -
  let ?c = "buildRenderedConfig L i now" and ?as = "rendered_by i ShadowsocksAdapter"
  let ?ib = "shadowsocks_inbound i (map shadowsocks_user ?as)"
  have r: "?as = filter isShadowsocksAccountRenderable (si_accounts i)"
    unfolding rendered_by_def by (rule filter_cong) simp_all
  have b: "based (rc_singbox ?c)" using assms(1) build_based by blast
  have f: "filter (\<lambda>ib. stringValueFromMap ib ''type'' = ''shadowsocks'') (sb_inbounds (rc_singbox ?c)) = (if ?as = [] then [] else [?ib])"
    using shadowsocks_in.rendered [of L i now] assms(1) by (simp add: shadowsocks_inbounds_def r Let_def)
  have "check_ss_users (map shadowsocks_user ?as) [] [] = None"
    using assms(2) by (intro ss_users_check) (auto simp: r isShadowsocksAccountRenderable_def)
  moreover have "validShadowsocksKey (TrimSpace (TrimSpace (si_ss_key i)))" using assms(2) by (simp add: validShadowsocksKey_def)
  moreover have lit: "TrimSpace ''shadowsocks-in'' = ''shadowsocks-in''" "TrimSpace ''::'' = ''::''" "TrimSpace ''2022-blake3-aes-128-gcm'' = ''2022-blake3-aes-128-gcm''"
    by (rule TrimSpace_clean, simp add: space_byte_def)+
  moreover have "mapSlice (JArr (map shadowsocks_user ?as)) = Some (map shadowsocks_user ?as)"
    by (simp add: mapSlice_def list_all_iff shadowsocks_user_def is_object_def)
  ultimately have "?as \<noteq> [] \<Longrightarrow> check_ss_inbound ?ib = None"
    using assms(2) by (simp add: check_ss_inbound_def shadowsocks_inbound_def stringValueFromMap_def stringValue_def intValue_def
        is_object_def object_size_def Let_def)
  then have "parseShadowsocksInbound ?c = Inr (if ?as = [] then None else Some ?ib)"
    using b by (simp add: parseShadowsocksInbound_def f based_def Let_def)
  then show "vr_errors (shadowsocks_validate ?c) = []" "shadowsocks_ready ?c \<longleftrightarrow> ?as \<noteq> []"
    by (simp_all add: shadowsocks_validate_def shadowsocks_ready_def)
qed

lemma mtproto_sound:
  assumes "MTProtoAdapter \<in> set (selectedVPNCoreAdapters i)" "sound L i MTProtoAdapter"
  shows "vr_errors (mtproto_validate L (buildRenderedConfig L i now)) = []" and "mtproto_ready L (buildRenderedConfig L i now)"
  using mtproto.rendered [of L i now] mtproto_parse [of L i] assms
  by (simp_all add: mtproto_validate_def mtproto_ready_def)

lemma role_text_back: "EffectiveDeploymentRole (role_text (Some r)) = Some r"
  "ParseDeploymentRole (TrimSpace (role_text (Some r))) Role_vpn = Some r" "TrimSpace (role_text (Some r)) \<noteq> []"
proof -
  have t: "TrimSpace ''management'' = ''management''" "TrimSpace ''vpn'' = ''vpn''" "TrimSpace ''hybrid'' = ''hybrid''"
    by (rule TrimSpace_clean, simp add: space_byte_def)+
  have l: "ToLower ''management'' = ''management''" "ToLower ''vpn'' = ''vpn''" "ToLower ''hybrid'' = ''hybrid''"
    by (subst ToLower_ascii; simp add: ascii_def lower_byte_def)+
  show "EffectiveDeploymentRole (role_text (Some r)) = Some r"
    "ParseDeploymentRole (TrimSpace (role_text (Some r))) Role_vpn = Some r" "TrimSpace (role_text (Some r)) \<noteq> []"
    by (cases r; simp add: EffectiveDeploymentRole_def ParseDeploymentRole_def role_text_def t l)+
qed

lemma adapter_sound:
  assumes "sound_server L i" "a \<in> set (selectedVPNCoreAdapters i)"
  shows "vr_errors (adapter_Validate L (buildRenderedConfig L i now) a) = []"
    and "adapter_Ready L (buildRenderedConfig L i now) a \<longleftrightarrow> a = MTProtoAdapter \<or> rendered_by i a \<noteq> []"
proof -
  have s: "sound L i a" "EffectiveDeploymentRole (si_role i) \<in> {Some Role_vpn, Some Role_hybrid}" using assms by (auto simp: sound_server_def)
  then have role: "EffectiveDeploymentRole (cs_role (rc_server (buildRenderedConfig L i now))) = EffectiveDeploymentRole (si_role i)"
    using role_text_back(1) by (auto simp: build_server)
  have "vr_errors (adapter_Validate L (buildRenderedConfig L i now) a) = []
    \<and> (adapter_Ready L (buildRenderedConfig L i now) a \<longleftrightarrow> a = MTProtoAdapter \<or> rendered_by i a \<noteq> [])"
  proof (cases a)
    case SingBoxVLESS
    then have a: "SingBoxVLESS \<in> set (selectedVPNCoreAdapters i)" "sound L i SingBoxVLESS" using assms(2) s(1) by simp_all
    show ?thesis unfolding SingBoxVLESS adapter_Validate.simps adapter_Ready.simps using vless_sound [OF a] by simp
  next
    case WireGuardAdapter
    then have a: "WireGuardAdapter \<in> set (selectedVPNCoreAdapters i)" "sound L i WireGuardAdapter" using assms(2) s(1) by simp_all
    show ?thesis unfolding WireGuardAdapter adapter_Validate.simps adapter_Ready.simps using wireguard_sound [OF a] by simp
  next
    case Hysteria2Adapter
    then have a: "Hysteria2Adapter \<in> set (selectedVPNCoreAdapters i)" "sound L i Hysteria2Adapter" using assms(2) s(1) by simp_all
    show ?thesis unfolding Hysteria2Adapter adapter_Validate.simps adapter_Ready.simps using hysteria2_sound [OF a s(2) role] by simp
  next
    case ShadowsocksAdapter
    then have a: "ShadowsocksAdapter \<in> set (selectedVPNCoreAdapters i)" "sound L i ShadowsocksAdapter" using assms(2) s(1) by simp_all
    show ?thesis unfolding ShadowsocksAdapter adapter_Validate.simps adapter_Ready.simps using shadowsocks_sound [OF a] by simp
  next
    case MTProtoAdapter
    then have a: "MTProtoAdapter \<in> set (selectedVPNCoreAdapters i)" "sound L i MTProtoAdapter" using assms(2) s(1) by simp_all
    show ?thesis unfolding MTProtoAdapter adapter_Validate.simps adapter_Ready.simps using mtproto_sound [OF a] by simp
  qed
  then show "vr_errors (adapter_Validate L (buildRenderedConfig L i now) a) = []"
    "adapter_Ready L (buildRenderedConfig L i now) a \<longleftrightarrow> a = MTProtoAdapter \<or> rendered_by i a \<noteq> []" by blast+
qed

lemma persisted_same:
  "adapter_Validate L (persisted c) a = adapter_Validate L c a" "adapter_Ready L (persisted c) a = adapter_Ready L c a"
  "configuredVPNCoreAdapters (persisted c) = configuredVPNCoreAdapters c" "server_errors (persisted c) = server_errors c"
proof -
  have m: "rc_metadata (persisted c) = rc_metadata c" "rc_singbox (persisted c) = rc_singbox c" "rc_wireguard (persisted c) = rc_wireguard c"
    "rc_hysteria2 (persisted c) = rc_hysteria2 c" "rc_mtproto (persisted c) = rc_mtproto c" "rc_server (persisted c) = rc_server c"
    "rc_schema (persisted c) = rc_schema c" "rc_accounts (persisted c) = [] \<longleftrightarrow> rc_accounts c = []"
    by (simp_all add: persisted_def)
  have f: "findVLESSInbound (persisted c) = findVLESSInbound c" by (simp add: findVLESSInbound_def m)
  show "adapter_Validate L (persisted c) a = adapter_Validate L c a" "adapter_Ready L (persisted c) a = adapter_Ready L c a"
    by (cases a; simp only: adapter_Validate.simps adapter_Ready.simps vless_validate_def vless_ready_def wireguard_validate_def
        wireguard_ready_def hysteria2_validate_def hysteria2_ready_def shadowsocks_validate_def shadowsocks_ready_def
        parseShadowsocksInbound_def mtproto_validate_def mtproto_ready_def m f)+
  have "configured_adapters (persisted c) vs seen = configured_adapters c vs seen" for vs seen
    by (induction vs arbitrary: seen) (auto simp: adapterForRenderedConfig_def m Let_def split: option.splits)
  then show "configuredVPNCoreAdapters (persisted c) = configuredVPNCoreAdapters c" by (simp add: configuredVPNCoreAdapters_def m)
  show "server_errors (persisted c) = server_errors c" by (simp add: server_errors_def m)
qed

text \<open>C28. Which configurations pass the gates.  A node whose settings are sound for every protocol it serves
  renders a configuration that validates without error, before and after it is stored; it is ready to be
  applied exactly when every protocol it serves, other than the node-wide MTProto proxy, has an account to
  serve.\<close>

theorem sound_server_renders_valid:
  assumes "sound_server L i"
  shows "let c = persisted (buildRenderedConfig L i now) in
     vr_valid (ValidateRenderedConfig L c)
     \<and> (configuredVPNServicesReady L c \<longleftrightarrow>
          (\<forall>a \<in> set (selectedVPNCoreAdapters i). a = MTProtoAdapter \<or> rendered_by i a \<noteq> []))"
proof -
  let ?c = "buildRenderedConfig L i now"
  have s: "si_id i \<noteq> []" "si_name i \<noteq> []" "EffectiveDeploymentRole (si_role i) \<in> {Some Role_vpn, Some Role_hybrid}" "selectedVPNCoreAdapters i \<noteq> []"
    using assms by (auto simp: sound_server_def)
  have "server_errors ?c = []"
    using s role_text_back(2,3) by (auto simp: server_errors_def build_server Let_def HostsVPNPlane_def)
  moreover have "concat (map (\<lambda>a. vr_errors (adapter_Validate L ?c a)) (selectedVPNCoreAdapters i)) = []"
    using adapter_sound(1) [OF assms] by simp
  ultimately have "vr_errors (ValidateRenderedConfig L (persisted ?c)) = []"
    by (simp add: ValidateRenderedConfig_def validateConfiguredVPNCoreAdapters_def persisted_same configured_build [OF s(4)] Let_def)
  moreover have "configuredVPNServicesReady L (persisted ?c) \<longleftrightarrow>
      (\<forall>a \<in> set (selectedVPNCoreAdapters i). a = MTProtoAdapter \<or> rendered_by i a \<noteq> [])"
    using adapter_sound(2) [OF assms]
    by (simp add: configuredVPNServicesReady_def persisted_same configured_build [OF s(4)] list_all_iff)
  ultimately show ?thesis by (simp add: vr_valid_def Let_def)
qed

section \<open>An example\<close>

definition xc_key :: string where
  "xc_key = ''AAAAAAAAAAAAAAAAAAAAAAAAAAAAAAAAAAAAAAAAAAA=''"

text \<open>An account with VLESS, and one with WireGuard whose display name tries to inject a peer.\<close>

definition xc_vless :: VPNAccountConfigInfo where
  "xc_vless = \<lparr>ac_id = ''a'', ac_display = ''Ann'', ac_status = ''active'', ac_protocol = ''vless'', ac_protocols = [''vless''],
     ac_uuid = ''u'', ac_flow = [], ac_network = ''tcp'', ac_wg_public = [], ac_wg_address = [], ac_h2_password = [],
     ac_ss_key = [], ac_enforcement = ''not_enforced''\<rparr>"

definition xc_wg :: VPNAccountConfigInfo where
  "xc_wg = xc_vless\<lparr>ac_id := ''b'', ac_display := ''Eve'' @ [newline] @ ''[Peer]'' @ [newline] @ ''AllowedIPs = 0.0.0.0/0'',
     ac_protocol := ''wireguard'', ac_protocols := [''wireguard''], ac_wg_public := xc_key, ac_wg_address := String4 0x0A420002\<rparr>"

definition xc_info :: ServerConfigInfo where
  "xc_info = \<lparr>si_id = ''s'', si_name = ''node'', si_role = ''vpn'', si_hostname = [], si_public_ip = [], si_private_ip = [],
     si_location = [], si_provider = [], si_status = ''active'', si_vless_port = 443, si_reality_private = [],
     si_reality_public = [], si_reality_short = [], si_reality_name = [], si_protocol = ''vless'', si_wg_port = 0,
     si_wg_address = String4 0x0A420001 @ CHR ''/'' # ''24'', si_wg_private = xc_key, si_h2_port = 0, si_h2_domain = [], si_h2_email = [],
     si_h2_masquerade = [], si_ss_port = 0, si_ss_key = [], si_mt_port = 0, si_mt_secret = [], si_agent = None,
     si_accounts = [xc_vless, xc_wg], si_routing = None\<rparr>"

lemma xc_key_clean: "\<forall>c \<in> set xc_key. \<not> space_byte c"
  by (simp add: xc_key_def space_byte_def)

lemma xc_key_facts [simp]: "TrimSpace xc_key = xc_key" "printable xc_key" "ValidateKey xc_key"
proof -
  show t: "TrimSpace xc_key = xc_key" by (rule TrimSpace_clean [OF xc_key_clean])
  show "printable xc_key" using xc_key_clean by (simp add: printable_def xc_key_def)
  have "map_option length (StdEncoding_DecodeString xc_key) = Some 32" by code_simp
  then show "ValidateKey xc_key" by (auto simp: ValidateKey_def t split: option.splits)
qed

lemma xc_lit [simp]: "TrimSpace ''u'' = ''u''" "TrimSpace ''vpn'' = ''vpn''" "TrimSpace ''a'' = ''a''" "TrimSpace ''b'' = ''b''"
  "ToLower ''vpn'' = ''vpn''"
  by ((rule TrimSpace_clean, simp add: space_byte_def)+) (subst ToLower_ascii; simp add: ascii_def lower_byte_def)+

lemma xc_renderable:
  "isVPNAccountRenderable xc_vless" "\<not> isVPNAccountRenderable xc_wg" "isWireGuardAccountRenderable xc_wg" "\<not> isWireGuardAccountRenderable xc_vless"
  by (simp_all add: isVPNAccountRenderable_def isWireGuardAccountRenderable_def accountUsesProtocol_def protocolListContains_def
      xc_vless_def xc_wg_def wireGuardPeerAddress_def ParseAddr_String4)

lemma xc_prefix: "ParsePrefix (wg_server_address xc_info) = Some (V4 0x0A420001, 24)" "printable (wg_server_address xc_info)"
proof -
  have "\<forall>c \<in> set (String4 0x0A420001 @ CHR ''/'' # ''24''). \<not> space_byte c"
    by (auto dest!: String4_chars simp: is_digit_def space_byte_def)
  moreover from this have a: "wg_server_address xc_info = String4 0x0A420001 @ CHR ''/'' # ''24''"
    by (simp add: wg_server_address_def xc_info_def Let_def TrimSpace_clean)
  ultimately show "printable (wg_server_address xc_info)" by (simp add: printable_def)
  have "ParsePrefix (String4 0x0A420001 @ CHR ''/'' # ''24'') = Some (V4 0x0A420001, nat (decimal ''24''))"
    by (rule ParsePrefix_String4) (simp_all add: is_digit_def decimal_def)
  then show "ParsePrefix (wg_server_address xc_info) = Some (V4 0x0A420001, 24)" by (simp add: a decimal_def)
qed

lemma xc_wg_ok: "wg_server_ok xc_info 0x0A420001 24"
  using xc_prefix by (simp add: wg_server_ok_def) (simp add: xc_info_def wg_server_port_def)

lemma xc_selected: "selectedVPNCoreAdapters xc_info = [SingBoxVLESS, WireGuardAdapter]"
  by (simp add: selected_adapters accountProtocolOrder_def xc_info_def account_wants_def xc_vless_def xc_wg_def
      normalizeAccountProtocol_def Let_def adapter_of_def)

lemma xc_rendered: "rendered_by xc_info SingBoxVLESS = [xc_vless]" "rendered_by xc_info WireGuardAdapter = [xc_wg]"
  using xc_renderable by (simp_all add: rendered_by_def xc_info_def)

lemma xc_reality: "\<not> realityRequested xc_info"
  by (simp add: realityRequested_def xc_info_def)

lemma xc_sound: "sound_server EXL xc_info" for EXL
proof -
  have "sound EXL xc_info SingBoxVLESS" using xc_reality by (simp add: serverVLESSPort_def) (simp add: xc_info_def)
  moreover have "sound EXL xc_info WireGuardAdapter" using xc_wg_ok by (auto simp: xc_rendered xc_wg_def)
  moreover have "EffectiveDeploymentRole (si_role xc_info) = Some Role_vpn"
    by (simp add: EffectiveDeploymentRole_def ParseDeploymentRole_def xc_info_def)
  ultimately show ?thesis by (simp add: sound_server_def xc_selected) (simp add: xc_info_def)
qed

text \<open>A quoting by hexadecimal digits satisfies the law.\<close>

definition xc_lib :: lib where
  "xc_lib = \<lparr>l_quote = (\<lambda>s. CHR 0x22 # hex_print (map of_char s) @ [CHR 0x22]),
     l_unquote = (\<lambda>q. map_option (map char_of) (hex_DecodeString (butlast (tl q)))),
     l_mail = Some, l_url = Some, l_x25519 = (\<lambda>k. k), l_range = (\<lambda>xs. xs)\<rparr>"

lemma xc_quote: "quote_law xc_lib"
proof -
  have dec: "hex_DecodeString (hex_print (map of_char s)) = Some (map of_char s)" for s :: string
    by (rule hex_decode_print) auto
  have "newline \<notin> set hextable" by (simp add: hextable_def)
  then have "newline \<notin> set (hex_print (map of_char s))" for s :: string
    using hex_print_mem [of "map of_char s"] by auto
  then show ?thesis
    by (simp add: quote_law_def xc_lib_def dec edged_def space_byte_def comp_def)
qed

theorem wireguard_config_roundtrip_witness:
  "parseWireGuardServerConfig (rc_wireguard (wireguard_render xc_info (config_base xc_info 0))) =
     Inr \<lparr>pw_address = String4 0x0A420001 @ ''/'' @ show_nat 24, pw_port = 51820, pw_private = xc_key,
          pw_peers = [String4 0x0A420002 @ ''/32'']\<rparr>"
proof -
  have "\<forall>a \<in> set (si_accounts xc_info). isWireGuardAccountRenderable a \<longrightarrow> printable (TrimSpace (ac_wg_public a))"
    using xc_renderable by (simp add: xc_info_def) (simp add: xc_wg_def)
  from wireguard_config_roundtrip [OF xc_wg_ok this, of "config_base xc_info 0"] show ?thesis
    using xc_renderable by (simp add: xc_info_def wg_server_port_def) (simp add: xc_wg_def wireGuardPeerAddress_def ParseAddr_String4)
qed

theorem sound_server_renders_valid_witness:
  "quote_law xc_lib \<and> vr_valid (ValidateRenderedConfig xc_lib (persisted (buildRenderedConfig xc_lib xc_info 0)))
     \<and> configuredVPNServicesReady xc_lib (persisted (buildRenderedConfig xc_lib xc_info 0))"
  using sound_server_renders_valid [OF xc_sound [of xc_lib], of 0] xc_quote by (simp add: xc_selected xc_rendered Let_def)

end
