(* ===== verification/Config_Settings.thy ===== *)
theory Config_Settings
  imports Config_Validity
begin

text \<open>
  The client settings of a rendered configuration: the protocols they list for an account are those the
  configuration deploys for it.
\<close>

section \<open>Protocol lists\<close>

text \<open>The iteration of a Go map visits every key.\<close>

definition range_law :: "lib \<Rightarrow> bool" where
  "range_law L \<longleftrightarrow> (\<forall>xs. set (l_range L xs) = set xs)"

abbreviation known :: "string set" where
  "known \<equiv> set accountProtocolOrder"

lemma known_iff: "p \<in> known \<longleftrightarrow> p \<in> {''vless'', ''wireguard'', ''hysteria2'', ''shadowsocks'', ''mtproto''}"
  by (simp add: accountProtocolOrder_def)

lemma wanted_known: "set vs \<subseteq> known \<Longrightarrow> wanted_protocols vs = vs"
  unfolding wanted_protocols_def by (induction vs) (auto simp: known_iff)

lemma ordered_set: "range_law L \<Longrightarrow> set (orderedAccountProtocols L vs) = set (wanted_protocols vs)"
  by (auto simp: orderedAccountProtocols_def range_law_def Let_def)

lemma ordered_known: "range_law L \<Longrightarrow> set vs \<subseteq> known \<Longrightarrow> set (orderedAccountProtocols L vs) = set vs"
  by (simp add: ordered_set wanted_known)

definition creds :: "ConfigVPNAccount \<Rightarrow> string list" where
  "creds a = (if TrimSpace (va_uuid a) \<noteq> [] then [''vless''] else [])
     @ (if TrimSpace (va_wg_public a) \<noteq> [] \<or> TrimSpace (va_wg_address a) \<noteq> [] then [''wireguard''] else [])
     @ (if TrimSpace (va_h2_user a) \<noteq> [] then [''hysteria2''] else [])
     @ (if TrimSpace (va_ss_user a) \<noteq> [] then [''shadowsocks''] else [])"

lemma creds_known: "set (creds a) \<subseteq> known"
  by (auto simp: creds_def known_iff)

lemma creds_irrelevant [simp]: "creds (a\<lparr>va_protocol := x\<rparr>) = creds a" "creds (a\<lparr>va_protocols := ps\<rparr>) = creds a"
  by (simp_all add: creds_def)

lemma rendered_protocols:
  assumes "range_law L" "set (va_protocols a) \<subseteq> known" "va_protocol a \<in> insert [] known"
  shows "set (renderedAccountProtocols L a) = set (va_protocols a) \<union> set (creds a) \<union> (if va_protocol a = [] then {} else {va_protocol a})"
proof -
  let ?p = "if TrimSpace (va_protocol a) \<noteq> [] then [va_protocol a] else []"
  have p: "?p = (if va_protocol a = [] then [] else [va_protocol a])" "set ?p \<subseteq> known"
    using assms(3) by (auto simp: known_iff)
  have "renderedAccountProtocols L a = orderedAccountProtocols L (va_protocols a @ ?p @ creds a)"
    by (simp add: renderedAccountProtocols_def creds_def)
  moreover have "set (va_protocols a @ ?p @ creds a) \<subseteq> known"
    using assms(2) creds_known p(2) by auto
  ultimately show ?thesis using ordered_known [OF assms(1)] p(1) by auto
qed

section \<open>Merging\<close>

text \<open>An entry whose credentials are covered by its protocols.\<close>

definition covered :: "ConfigVPNAccount \<Rightarrow> bool" where
  "covered e \<longleftrightarrow> set (va_protocols e) \<subseteq> known \<and> set (creds e) \<subseteq> set (va_protocols e)"

definition raw_ok :: "ConfigVPNAccount \<Rightarrow> bool" where
  "raw_ok e \<longleftrightarrow> va_protocols e = [] \<and> va_protocol e \<in> insert [] known"

definition merged :: "lib \<Rightarrow> ConfigVPNAccount list \<Rightarrow> ConfigVPNAccount list \<Rightarrow> bool" where
  "merged L raws m \<longleftrightarrow> distinct (map va_id m) \<and> va_id ` set m = va_id ` set raws \<and> (\<forall>e \<in> set m. covered e)
     \<and> (\<forall>e \<in> set m. set (va_protocols e) = (\<Union>r \<in> {r \<in> set raws. va_id r = va_id e}. set (renderedAccountProtocols L r)))"

lemma creds_merge: "set (creds (merge_entry L a t)) \<subseteq> set (creds t) \<union> set (creds a)"
  by (auto simp: creds_def merge_entry_def first_nonempty_def split: if_splits)

lemma raw_protocols:
  assumes "range_law L" "raw_ok r"
  shows "set (renderedAccountProtocols L r) \<subseteq> known" "set (creds r) \<subseteq> set (renderedAccountProtocols L r)"
  using rendered_protocols [OF assms(1), of r] assms(2) creds_known by (auto simp: raw_ok_def)

lemma merge_step:
  assumes L: "range_law L" and r: "raw_ok r" and m: "merged L raws m"
  shows "merged L (raws @ [r]) (merge_account L r m)"
proof -
  let ?a = "r\<lparr>va_protocols := renderedAccountProtocols L r\<rparr>"
  have a: "covered ?a" "set (va_protocols ?a) = set (renderedAccountProtocols L r)"
    using raw_protocols [OF L r] by (simp_all add: covered_def)
  have m': "distinct (map va_id m)" "va_id ` set m = va_id ` set raws" "\<And>e. e \<in> set m \<Longrightarrow> covered e"
    "\<And>e. e \<in> set m \<Longrightarrow> set (va_protocols e) = (\<Union>r \<in> {r \<in> set raws. va_id r = va_id e}. set (renderedAccountProtocols L r))"
    using m by (auto simp: merged_def)
  show ?thesis
  proof (cases "va_id r \<in> va_id ` set m")
    case False
    then have "merge_account L r m = m @ [?a]" by (simp add: merge_account_def Let_def)
    moreover have none: "{q \<in> set raws. va_id q = va_id r} = {}"
      using False unfolding m'(2) by (metis (mono_tags, lifting) Collect_empty_eq image_eqI)
    moreover have "set (va_protocols e) = (\<Union>q \<in> {q \<in> set (raws @ [r]). va_id q = va_id e}. set (renderedAccountProtocols L q))"
      if "e \<in> set m" for e
    proof -
      have "va_id e \<noteq> va_id r" using that False by (metis image_eqI)
      then have "{q \<in> set (raws @ [r]). va_id q = va_id e} = {q \<in> set raws. va_id q = va_id e}" by auto
      then show ?thesis using m'(4) [OF that] by simp
    qed
    moreover have "{q \<in> set (raws @ [r]). va_id q = va_id r} = {r}" using none by auto
    ultimately show ?thesis using m' a False by (auto simp: merged_def)
  next
    case True
    let ?f = "merge_entry L ?a"
    let ?m = "update_where (\<lambda>t. va_id t = va_id r) ?f m"
    have eq: "merge_account L r m = ?m" using True by (simp add: merge_account_def Let_def)
    have id: "va_id (?f t) = va_id t" for t by (simp add: merge_entry_def)
    have ids: "map va_id ?m = map va_id m" by (rule map_update_where) (rule id)
    have prot: "set (va_protocols (?f t)) = set (va_protocols t) \<union> set (renderedAccountProtocols L r)" if "covered t" for t
      using that a by (simp add: merge_entry_def covered_def ordered_known [OF L])
    have elem: "covered e \<and> set (va_protocols e) = (\<Union>q \<in> {q \<in> set (raws @ [r]). va_id q = va_id e}. set (renderedAccountProtocols L q))"
      if "e \<in> set ?m" for e
      using that
    proof (cases rule: update_where_cases)
      case old
      then have "{q \<in> set (raws @ [r]). va_id q = va_id e} = {q \<in> set raws. va_id q = va_id e}" by auto
      with m'(3,4) [OF old(1)] show ?thesis by simp
    next
      case (new t)
      have t: "covered t" using m'(3) [OF new(1)] .
      have "set (creds e) \<subseteq> set (va_protocols e)"
        using creds_merge [of L ?a t] t a prot [OF t] by (auto simp: covered_def new(3))
      moreover have "set (va_protocols e) \<subseteq> known" using t a prot [OF t] by (auto simp: covered_def new(3))
      moreover have "{q \<in> set (raws @ [r]). va_id q = va_id e} = insert r {q \<in> set raws. va_id q = va_id t}"
        using new by (auto simp: id)
      ultimately show ?thesis using prot [OF t] m'(4) [OF new(1)] by (auto simp: covered_def new(3))
    qed
    have "va_id ` set ?m = va_id ` set m" using ids by (metis set_map)
    then show ?thesis unfolding eq merged_def using ids m'(1,2) elem True by auto
  qed
qed

lemma merged_all:
  assumes "range_law L" "\<forall>r \<in> set raws. raw_ok r"
  shows "merged L raws (fold (merge_account L) raws [])"
  using assms(2)
proof (induction raws rule: rev_induct)
  case Nil
  then show ?case by (simp add: merged_def)
next
  case (snoc r raws)
  then show ?case using merge_step [OF assms(1), of r raws] by simp
qed

section \<open>Entries of a rendered configuration\<close>

fun entries :: "ServerConfigInfo \<Rightarrow> adapter \<Rightarrow> ConfigVPNAccount list" where
  "entries i SingBoxVLESS = map (\<lambda>a. (account_entry a)\<lparr>va_uuid := ac_uuid a\<rparr>) (rendered_by i SingBoxVLESS)"
| "entries i WireGuardAdapter = map (\<lambda>a. (account_entry a)\<lparr>va_protocol := ''wireguard'',
     va_wg_public := TrimSpace (ac_wg_public a), va_wg_address := wireGuardPeerAddress (ac_wg_address a)\<rparr>) (rendered_by i WireGuardAdapter)"
| "entries i Hysteria2Adapter = map (\<lambda>a. (account_entry a)\<lparr>va_protocol := ''hysteria2'', va_h2_user := account_username a\<rparr>)
     (rendered_by i Hysteria2Adapter)"
| "entries i ShadowsocksAdapter = map (\<lambda>a. (account_entry a)\<lparr>va_protocol := ''shadowsocks'', va_ss_user := account_username a\<rparr>)
     (rendered_by i ShadowsocksAdapter)"
| "entries i MTProtoAdapter = []"

lemma renderable_eq:
  "renderable SingBoxVLESS = isVPNAccountRenderable" "renderable WireGuardAdapter = isWireGuardAccountRenderable"
  "renderable Hysteria2Adapter = isHysteria2AccountRenderable" "renderable ShadowsocksAdapter = isShadowsocksAccountRenderable"
  by (simp_all add: fun_eq_iff)

lemma adapter_entries: "rc_accounts (adapter_Render L i a c) = rc_accounts c @ entries i a"
  by (cases a) (simp_all add: render_defs rendered_by_def renderable_eq)

lemma fold_entries: "rc_accounts (fold (adapter_Render L i) as c) = rc_accounts c @ concat (map (entries i) as)"
  by (induction as arbitrary: c) (simp_all add: adapter_entries)

definition raw_entries :: "ServerConfigInfo \<Rightarrow> ConfigVPNAccount list" where
  "raw_entries i = concat (map (entries i) (selectedVPNCoreAdapters i))"

lemma build_accounts: "rc_accounts (buildRenderedConfig L i now) = fold (merge_account L) (raw_entries i) []"
proof -
  have b: "rc_accounts (applyServerRoutingProfile (si_routing i) (config_base i now)) = []" by (simp add: config_base_def)
  show ?thesis
    by (simp add: buildRenderedConfig_def renderSelectedVPNCoreAdapters_def mergeRenderedVPNAccounts_def Let_def fold_entries b raw_entries_def
        del: routing_profile_keeps)
qed

lemma entry_ok:
  assumes "range_law L" "e \<in> set (entries i ad)"
  shows "raw_ok e" "\<exists>a \<in> set (rendered_by i ad). va_id e = ac_id a" "ad \<noteq> MTProtoAdapter"
    "set (renderedAccountProtocols L e) = {de_protocol (Descriptor ad)}"
proof -
  show r: "raw_ok e" "\<exists>a \<in> set (rendered_by i ad). va_id e = ac_id a" "ad \<noteq> MTProtoAdapter"
    using assms(2) by (cases ad; auto simp: raw_ok_def account_entry_def known_iff)+
  have "set (creds e) \<union> (if va_protocol e = [] then {} else {va_protocol e}) = {de_protocol (Descriptor ad)}"
  proof (cases ad)
    case SingBoxVLESS
    then obtain a where "e = (account_entry a)\<lparr>va_uuid := ac_uuid a\<rparr>" "TrimSpace (ac_uuid a) \<noteq> []"
      using assms(2) by (auto simp: rendered_by_def isVPNAccountRenderable_def)
    then show ?thesis unfolding SingBoxVLESS by (auto simp: account_entry_def creds_def)
  next
    case WireGuardAdapter
    then obtain x y a where "e = (account_entry a)\<lparr>va_protocol := ''wireguard'', va_wg_public := x, va_wg_address := y\<rparr>"
      using assms(2) by auto
    then show ?thesis unfolding WireGuardAdapter by (auto simp: account_entry_def creds_def)
  next
    case Hysteria2Adapter
    then obtain x a where "e = (account_entry a)\<lparr>va_protocol := ''hysteria2'', va_h2_user := x\<rparr>" using assms(2) by auto
    then show ?thesis unfolding Hysteria2Adapter by (auto simp: account_entry_def creds_def)
  next
    case ShadowsocksAdapter
    then obtain x a where "e = (account_entry a)\<lparr>va_protocol := ''shadowsocks'', va_ss_user := x\<rparr>" using assms(2) by auto
    then show ?thesis unfolding ShadowsocksAdapter by (auto simp: account_entry_def creds_def)
  qed (use r(3) in simp)
  then show "set (renderedAccountProtocols L e) = {de_protocol (Descriptor ad)}"
    using rendered_protocols [OF assms(1), of e] r(1) by (auto simp: raw_ok_def)
qed

lemma entry_exists: "a \<in> set (rendered_by i ad) \<Longrightarrow> \<exists>e \<in> set (entries i ad). va_id e = ac_id a"
  by (cases ad) (auto simp: rendered_by_def account_entry_def)

lemma adapter_protocol: "p \<in> known \<Longrightarrow> de_protocol (Descriptor (adapter_of p)) = p"
  by (auto simp: adapter_of_def known_iff)

lemma protocol_adapter: "adapter_of (de_protocol (Descriptor ad)) = ad"
  by (cases ad) (simp_all add: adapter_of_def)

section \<open>Settings\<close>

text \<open>The accounts are set first and kept by the other sections.\<close>

lemma settings_accounts:
  "inbound_settings L ib s = Some s' \<Longrightarrow> cl_accounts s' = cl_accounts s"
  "wireguard_settings L t s = Some s' \<Longrightarrow> cl_accounts s' = cl_accounts s"
  "hysteria2_settings L h s = Some s' \<Longrightarrow> cl_accounts s' = cl_accounts s"
  "mtproto_settings L t s = Some s' \<Longrightarrow> cl_accounts s' = cl_accounts s"
  by (auto simp: inbound_settings_def vlessClientSettings_def wireguard_settings_def hysteria2_settings_def mtproto_settings_def Let_def
      split: if_splits option.splits sum.splits)

lemma inbounds_accounts: "inbounds_settings L ibs s = Some s' \<Longrightarrow> cl_accounts s' = cl_accounts s"
  by (induction ibs arbitrary: s) (auto split: option.splits dest: settings_accounts(1))

lemma client_accounts:
  "clientSettingsFromRenderedJSON L listed c prim = Some s \<Longrightarrow> cl_accounts s = renderedAccountDeployments L listed c prim"
  by (auto simp: clientSettingsFromRenderedJSON_def Option.bind_eq_Some_conv dest!: inbounds_accounts settings_accounts(2-4))

lemma stored_protocols:
  assumes "range_law L" "covered e"
  shows "set (renderedAccountProtocols L (e\<lparr>va_protocol := []\<rparr>)) = set (va_protocols e)"
  using rendered_protocols [OF assms(1), of "e\<lparr>va_protocol := []\<rparr>"] assms(2) by (auto simp: covered_def)

lemma deployments_lookup:
  assumes L: "range_law L" and m: "merged L raws m" and ids: "\<forall>e \<in> set m. TrimSpace (va_id e) \<noteq> [] \<and> va_protocols e \<noteq> []"
    and c: "rc_accounts c = map (\<lambda>a. a\<lparr>va_protocol := []\<rparr>) m"
  shows "\<exists>d. renderedAccountDeployments L True c prim = Some d
     \<and> (\<forall>k. (\<exists>x. d k = Some x \<and> p \<in> set (ap_protocols x)) \<longleftrightarrow> (\<exists>e \<in> set m. va_id e = k \<and> p \<in> set (va_protocols e)))"
proof -
  let ?mt = "TrimSpace (rc_mtproto c) \<noteq> []"
  let ?entry = "\<lambda>e. applied_entry L ?mt prim (e\<lparr>va_protocol := []\<rparr>)"
  let ?acc = "map_of (rev (map (\<lambda>a. (va_id a, applied_entry L ?mt prim a)) (rc_accounts c)))"
  have cov: "covered e" if "e \<in> set m" for e using m that by (auto simp: merged_def)
  have dist: "distinct (map va_id m)" using m by (auto simp: merged_def)
  have pairs: "rev (map (\<lambda>a. (va_id a, applied_entry L ?mt prim a)) (rc_accounts c)) = map (\<lambda>e. (va_id e, ?entry e)) (rev m)"
    by (simp add: c rev_map comp_def)
  have acc: "?acc k = Some x \<longleftrightarrow> (\<exists>e \<in> set m. va_id e = k \<and> x = ?entry e)" for k x
    unfolding pairs using dist
    by (subst map_of_eq_Some_iff) (auto simp: comp_def rev_map [symmetric])
  have prot: "set (ap_protocols (?entry e)) = set (va_protocols e)" if "e \<in> set m" for e
    using stored_protocols [OF L cov [OF that]] by (simp add: applied_entry_def Let_def)
  have ok: "\<not> (\<exists>a \<in> set (rc_accounts c). TrimSpace (va_id a) = [] \<or> renderedAccountProtocols L a = [])"
  proof
    assume "\<exists>a \<in> set (rc_accounts c). TrimSpace (va_id a) = [] \<or> renderedAccountProtocols L a = []"
    then obtain e where e: "e \<in> set m" "TrimSpace (va_id e) = [] \<or> renderedAccountProtocols L (e\<lparr>va_protocol := []\<rparr>) = []"
      by (auto simp: c)
    with ids stored_protocols [OF L cov [OF e(1)]] show False by (metis set_empty)
  qed
  define d where "d = (\<lambda>k. case ?acc k of Some x \<Rightarrow> Some x
     | None \<Rightarrow> if ?mt \<and> TrimSpace k \<noteq> [] \<and> (case prim k of None \<Rightarrow> False | Some q \<Rightarrow> normalizeAccountProtocol q = ''mtproto'')
               then Some \<lparr>ap_primary = ''mtproto'', ap_protocols = []\<rparr> else None)"
  have "renderedAccountDeployments L True c prim = Some d"
    using ok by (simp add: renderedAccountDeployments_def Let_def d_def)
  moreover have "(\<exists>x. d k = Some x \<and> p \<in> set (ap_protocols x)) \<longleftrightarrow> (\<exists>e \<in> set m. va_id e = k \<and> p \<in> set (va_protocols e))" for k
  proof (cases "?acc k")
    case None
    then have "\<not> (\<exists>e \<in> set m. va_id e = k)" using acc [of k] by auto
    then show ?thesis using None by (auto simp: d_def split: if_splits)
  next
    case (Some x)
    then have dk: "d k = Some x" by (simp add: d_def)
    obtain e where e: "e \<in> set m" "va_id e = k" "x = ?entry e" using Some acc [of k x] by blast
    have only: "e' = e" if "e' \<in> set m" "va_id e' = k" for e'
      using distinct_key_eq [OF dist that(1) e(1)] that(2) e(2) by simp
    have "set (ap_protocols x) = set (va_protocols e)" using prot [OF e(1)] e(3) by simp
    then have "(\<exists>y. d k = Some y \<and> p \<in> set (ap_protocols y)) \<longleftrightarrow> p \<in> set (va_protocols e)" using dk by simp
    also have "\<dots> \<longleftrightarrow> (\<exists>e \<in> set m. va_id e = k \<and> p \<in> set (va_protocols e))" using only e(1,2) by blast
    finally show ?thesis .
  qed
  ultimately show ?thesis by blast
qed

text \<open>C29. Clients are told what is deployed.  When client settings can be derived from the stored configuration
  of a node, they list a protocol for an account exactly when the configuration enrolls the account with it,
  that is, when an active account of the node within its limit chose it and has a usable credential.\<close>

theorem client_settings_match_deployment:
  assumes "range_law L" "p \<in> set accountProtocolOrder"
    and "\<forall>a \<in> set (si_accounts info). TrimSpace (ac_id a) \<noteq> []"
    and "clientSettingsFromRenderedJSON L True (persisted (buildRenderedConfig L (applyResolvedAccountProtocols r info) now)) prim = Some s"
  shows "\<exists>d. cl_accounts s = Some d
     \<and> (\<forall>k. (\<exists>x. d k = Some x \<and> p \<in> set (ap_protocols x)) \<longleftrightarrow>
          (\<exists>a \<in> set (si_accounts (applyResolvedAccountProtocols r info)). ac_id a = k \<and> entitled p a \<and> renderable (adapter_of p) a))"
proof -
  define i where "i = applyResolvedAccountProtocols r info"
  let ?m = "fold (merge_account L) (raw_entries i) []"
  have raws: "\<forall>e \<in> set (raw_entries i). raw_ok e" using entry_ok(1) [OF assms(1)] by (auto simp: raw_entries_def)
  have m: "merged L (raw_entries i) ?m" by (rule merged_all [OF assms(1) raws])
  have raw: "\<exists>ad \<in> set (selectedVPNCoreAdapters i). e \<in> set (entries i ad)" if "e \<in> set (raw_entries i)" for e
    using that by (auto simp: raw_entries_def)
  have ids: "TrimSpace (ac_id a) \<noteq> []" if "a \<in> set (si_accounts i)" for a
    using that assms(3) by (auto simp: i_def applyResolvedAccountProtocols_def Let_def)
  have prots: "p \<in> set (va_protocols e) \<longleftrightarrow> (\<exists>q \<in> set (raw_entries i). va_id q = va_id e \<and> p \<in> set (renderedAccountProtocols L q))"
    if "e \<in> set ?m" for e p
    using m that by (auto simp: merged_def)
  have ok: "\<forall>e \<in> set ?m. TrimSpace (va_id e) \<noteq> [] \<and> va_protocols e \<noteq> []"
  proof
    fix e assume e: "e \<in> set ?m"
    then have "va_id e \<in> va_id ` set (raw_entries i)" using m by (auto simp: merged_def)
    then obtain q ad where q: "q \<in> set (raw_entries i)" "va_id q = va_id e" "q \<in> set (entries i ad)" using raw by force
    obtain a where "a \<in> set (rendered_by i ad)" "va_id q = ac_id a" using entry_ok(2) [OF assms(1) q(3)] by blast
    then have "TrimSpace (va_id e) \<noteq> []" using ids q(2) by (auto simp: rendered_by_def)
    moreover have "de_protocol (Descriptor ad) \<in> set (va_protocols e)"
      using prots [OF e] q entry_ok(4) [OF assms(1) q(3)] by blast
    ultimately show "TrimSpace (va_id e) \<noteq> [] \<and> va_protocols e \<noteq> []" by auto
  qed
  have c: "rc_accounts (persisted (buildRenderedConfig L i now)) = map (\<lambda>a. a\<lparr>va_protocol := []\<rparr>) ?m"
    by (simp add: persisted_def build_accounts)
  have who: "(\<exists>e \<in> set ?m. va_id e = k \<and> p \<in> set (va_protocols e)) \<longleftrightarrow>
      (\<exists>a \<in> set (si_accounts i). ac_id a = k \<and> entitled p a \<and> renderable (adapter_of p) a)" for k
  proof
    assume "\<exists>e \<in> set ?m. va_id e = k \<and> p \<in> set (va_protocols e)"
    then obtain q ad where q: "va_id q = k" "p \<in> set (renderedAccountProtocols L q)" "q \<in> set (entries i ad)" using prots raw by metis
    then have ad: "adapter_of p = ad" using entry_ok(4) [OF assms(1) q(3)] protocol_adapter by auto
    obtain a where a: "a \<in> set (rendered_by i ad)" "k = ac_id a" using entry_ok(2) [OF assms(1) q(3)] q(1) by auto
    then have "renderable ad a" "a \<in> set (si_accounts i)" by (auto simp: rendered_by_def)
    moreover from this have "entitled p a"
      using renderable_entitled [OF resolved_protocols, of a r info] ad assms(2) entry_ok(3) [OF assms(1) q(3)]
      by (auto simp: i_def known_iff adapter_of_def)
    ultimately show "\<exists>a \<in> set (si_accounts i). ac_id a = k \<and> entitled p a \<and> renderable (adapter_of p) a" using a(2) ad by blast
  next
    assume "\<exists>a \<in> set (si_accounts i). ac_id a = k \<and> entitled p a \<and> renderable (adapter_of p) a"
    then obtain a where a: "a \<in> set (si_accounts i)" "ac_id a = k" "entitled p a" "renderable (adapter_of p) a" by blast
    have sel: "adapter_of p \<in> set (selectedVPNCoreAdapters i)" by (rule entitled_selected [OF a(3,1) assms(2)])
    obtain q where q: "q \<in> set (entries i (adapter_of p))" "va_id q = k"
      using entry_exists [of a i "adapter_of p"] a by (auto simp: rendered_by_def)
    have qr: "q \<in> set (raw_entries i)" using q(1) sel by (auto simp: raw_entries_def)
    have qp: "p \<in> set (renderedAccountProtocols L q)"
      using entry_ok(4) [OF assms(1) q(1)] adapter_protocol [OF assms(2)] by simp
    have "k \<in> va_id ` set ?m" using m qr q(2) by (auto simp: merged_def)
    then obtain e where "e \<in> set ?m" "va_id e = k" by auto
    then show "\<exists>e \<in> set ?m. va_id e = k \<and> p \<in> set (va_protocols e)" using prots qr q(2) qp by blast
  qed
  have "cl_accounts s = renderedAccountDeployments L True (persisted (buildRenderedConfig L i now)) prim"
    using client_accounts assms(4) by (simp add: i_def)
  then show ?thesis
    using deployments_lookup [OF assms(1) m ok c, of prim p] who unfolding i_def by auto
qed

section \<open>An example\<close>

definition yc_info :: ServerConfigInfo where
  "yc_info = xc_info\<lparr>si_accounts := [xc_vless]\<rparr>"

definition yc_resolved :: "string \<rightharpoonup> string \<times> string list" where
  "yc_resolved = [''a'' \<mapsto> (''vless'', [''vless''])]"

lemma yc_info_resolved: "applyResolvedAccountProtocols yc_resolved yc_info = yc_info"
  by (simp add: applyResolvedAccountProtocols_def yc_info_def xc_info_def xc_vless_def yc_resolved_def Let_def)

lemma yc_selected: "selectedVPNCoreAdapters yc_info = [SingBoxVLESS]"
  by (simp add: selected_adapters accountProtocolOrder_def yc_info_def xc_info_def account_wants_def xc_vless_def
      normalizeAccountProtocol_def Let_def adapter_of_def)

lemma yc_sections:
  "sb_inbounds (rc_singbox (buildRenderedConfig xc_lib yc_info 0)) = [vless_inbound yc_info False [vless_user xc_vless]]"
  "rc_wireguard (buildRenderedConfig xc_lib yc_info 0) = []" "rc_mtproto (buildRenderedConfig xc_lib yc_info 0) = []"
  "h2_sections (buildRenderedConfig xc_lib yc_info 0) = []" "rc_hysteria2 (buildRenderedConfig xc_lib yc_info 0) = H2_empty"
proof -
  have acc: "si_accounts yc_info = [xc_vless]" "\<not> realityRequested yc_info" using xc_reality by (simp_all add: yc_info_def realityRequested_def)
  have f: "fold (adapter_Render xc_lib yc_info) [SingBoxVLESS] c = vless_render yc_info c" for c by simp
  show "sb_inbounds (rc_singbox (buildRenderedConfig xc_lib yc_info 0)) = [vless_inbound yc_info False [vless_user xc_vless]]"
    "rc_hysteria2 (buildRenderedConfig xc_lib yc_info 0) = H2_empty"
    by (simp_all only: buildRenderedConfig_def renderSelectedVPNCoreAdapters_def yc_selected f mergeRenderedVPNAccounts_def Let_def traffic_keeps_others)
      (simp_all add: vless_render_def acc xc_renderable Let_def empty_singbox_def, simp_all add: config_base_def acc)
  show "rc_wireguard (buildRenderedConfig xc_lib yc_info 0) = []" "rc_mtproto (buildRenderedConfig xc_lib yc_info 0) = []"
    "h2_sections (buildRenderedConfig xc_lib yc_info 0) = []"
    by (simp_all add: wireguard.rendered mtproto.rendered hysteria2.rendered yc_selected)
qed

lemma yc_settings: "\<exists>s. clientSettingsFromRenderedJSON xc_lib True (persisted (buildRenderedConfig xc_lib yc_info 0)) Map.empty = Some s"
proof -
  have p: "sb_inbounds (rc_singbox (persisted c)) = sb_inbounds (rc_singbox c)" "rc_wireguard (persisted c) = rc_wireguard c"
    "rc_mtproto (persisted c) = rc_mtproto c" "rc_hysteria2 (persisted c) = rc_hysteria2 c" for c by (simp_all add: persisted_def)
  have "1 \<le> serverVLESSPort yc_info" "serverVLESSPort yc_info \<le> 65535" by (simp_all add: serverVLESSPort_def yc_info_def xc_info_def)
  then have "\<exists>s'. inbound_settings xc_lib (vless_inbound yc_info False us) s = Some s'" for us s
    by (simp add: inbound_settings_def vlessClientSettings_def vless_inbound_def intValue_def stringValue_def is_object_def Let_def)
  then show ?thesis
    by (auto simp: clientSettingsFromRenderedJSON_def p yc_sections wireguard_settings_def hysteria2_settings_def mtproto_settings_def
        split: option.splits)
qed

theorem client_settings_match_deployment_witness:
  "\<exists>s d. clientSettingsFromRenderedJSON xc_lib True (persisted (buildRenderedConfig xc_lib yc_info 0)) Map.empty = Some s
     \<and> cl_accounts s = Some d \<and> (\<exists>x. d ''a'' = Some x \<and> ''vless'' \<in> set (ap_protocols x))"
proof -
  have law: "range_law xc_lib" by (simp add: range_law_def xc_lib_def)
  obtain s where s: "clientSettingsFromRenderedJSON xc_lib True (persisted (buildRenderedConfig xc_lib yc_info 0)) Map.empty = Some s"
    using yc_settings by blast
  have ids: "\<forall>a \<in> set (si_accounts yc_info). TrimSpace (ac_id a) \<noteq> []" by (simp add: yc_info_def xc_vless_def)
  have "\<exists>d. cl_accounts s = Some d \<and> (\<forall>k. (\<exists>x. d k = Some x \<and> ''vless'' \<in> set (ap_protocols x)) \<longleftrightarrow>
      (\<exists>a \<in> set (si_accounts yc_info). ac_id a = k \<and> entitled ''vless'' a \<and> renderable (adapter_of ''vless'') a))"
    using client_settings_match_deployment [of xc_lib "''vless''" yc_info yc_resolved 0 Map.empty s, unfolded yc_info_resolved, OF law _ ids s]
    by (simp add: known_iff)
  moreover have "xc_vless \<in> set (si_accounts yc_info)" "ac_id xc_vless = ''a''" "entitled ''vless'' xc_vless" "renderable (adapter_of ''vless'') xc_vless"
    using xc_renderable by (simp_all add: yc_info_def entitled_def adapter_of_def) (simp_all add: xc_vless_def)
  ultimately show ?thesis using s by blast
qed

end
