(* ===== verification/Deliveries.thy ===== *)
theory Deliveries
  imports Effects
begin

text \<open>
  The delivery queue (\<open>delivery/model.go\<close>, \<open>service.go\<close>, \<open>repository.go\<close>, \<open>repository_history.go\<close>, \<open>worker.go\<close>, \<open>retry.go\<close>,
  \<open>safety.go\<close>, \<open>system_notification_creator.go\<close>): messages to the users and operators are rows that a worker claims,
  hands to a provider and moves to a final status.

  The worker is written against interfaces: the registry of providers, the resolver of the material and
  the template renderer are values of the environment.  \<open>dv_sends\<close> is what the providers have seen, with
  the outcome each reported.  A statement that fails, or a process that dies before it, is the flag
  \<open>de_store\<close>.  The audit log and the in-memory store of device access are not part of the model.
\<close>

section \<open>Data\<close>

datatype Status = StatusQueued | StatusSending | StatusRetrying | StatusSent | StatusDelivered | StatusFailed | StatusUncertain

definition isTerminalStatus :: "Status \<Rightarrow> bool" where
  "isTerminalStatus s \<longleftrightarrow> s \<in> {StatusSent, StatusDelivered, StatusFailed, StatusUncertain}"

datatype Outcome = OutcomeAccepted | OutcomeDelivered | OutcomeRetryableFailure | OutcomePermanentFailure | OutcomeUncertain
  | OutcomeInvalid string

datatype ErrorClass = ErrorClassTransient | ErrorClassPermanent | ErrorClassUncertain | ErrorClassInvalid string

record Delivery =
  dl_id :: string
  dl_account :: string
  dl_device :: string
  dl_token :: string
  dl_channel :: string
  dl_provider :: string
  dl_recipient :: string
  dl_template :: string
  dl_locale :: string
  dl_attach_qr :: bool
  dl_status :: Status
  dl_attempts :: int
  dl_max :: int
  dl_next :: "time option"
  dl_started :: "time option"
  dl_reference :: string
  dl_error_class :: "ErrorClass option"
  dl_error_code :: string
  dl_key :: string
  dl_creator :: string
  dl_created :: time
  dl_updated :: time
  dl_sent :: "time option"
  dl_completed :: "time option"

record CreateInput =
  in_account :: string
  in_device :: string
  in_token :: string
  in_channel :: string
  in_provider :: string
  in_recipient :: string
  in_template :: string
  in_locale :: string
  in_attach_qr :: bool
  in_max :: int
  in_key :: string
  in_creator :: string

record Message =
  ms_recipient :: string
  ms_subject :: string
  ms_text :: string
  ms_html :: string
  ms_attachments :: "string list"
  ms_template :: string
  ms_locale :: string
  ms_action :: string

record ProviderResult =
  pr_outcome :: Outcome
  pr_reference :: string
  pr_code :: string

record Provider =
  pv_channel :: string
  pv_unconfigured :: "string option"
  pv_send :: "Message \<Rightarrow> ProviderResult"

record ResolvedMaterial =
  rm_name :: string
  rm_profile :: string
  rm_url :: string
  rm_attachments :: "string list"

record Failure =
  fl_class :: ErrorClass
  fl_code :: string

record dlv_db =
  dv_rows :: "Delivery table"
  dv_sends :: "(string \<times> int \<times> Outcome) list"
  dv_seq :: nat

text \<open>\<open>de_uuid\<close> is the cast of PostgreSQL, \<open>de_ref\<close> the lookup of an identifier in the table a foreign key names.\<close>

record dlv_env =
  de_gen :: "nat \<Rightarrow> string"
  de_uuid :: "string \<Rightarrow> string option"
  de_ref :: "string \<Rightarrow> string \<Rightarrow> bool"
  de_now :: time
  de_clock :: time
  de_locked :: "string \<Rightarrow> bool"
  de_store :: bool
  de_providers :: "(string \<Rightarrow> unit + Provider option) option"
  de_resolver :: "(Delivery \<Rightarrow> Failure option + ResolvedMaterial) option"
  de_renderer :: "(string \<Rightarrow> string \<Rightarrow> ResolvedMaterial \<Rightarrow> Failure option + Message) option"

datatype dlv_fault = No_delivery | Store_error | Invalid_input | ErrIdempotencyConflict

type_synonym 'a dlv = "(dlv_fault, dlv_db, 'a) effect"

section \<open>Retry policy\<close>

record RetryPolicy =
  ry_base :: time
  ry_max :: time

definition DefaultRetryPolicy :: RetryPolicy where
  "DefaultRetryPolicy = \<lparr>ry_base = seconds 5, ry_max = minutes 5\<rparr>"

function delay_loop :: "int \<Rightarrow> int \<Rightarrow> time \<Rightarrow> time \<Rightarrow> time" where
  "delay_loop current attempt maximum delay =
     (if current < attempt \<and> delay < maximum
      then if maximum div 2 < delay then maximum else delay_loop (current + 1) attempt maximum (delay * 2)
      else delay)"
  by pat_completeness auto

termination by (relation "measure (\<lambda>(current, attempt, _, _). nat (attempt - current))") auto

declare delay_loop.simps [simp del]

definition Delay :: "RetryPolicy \<Rightarrow> int \<Rightarrow> time" where
  "Delay p attempt =
     (let base = (if ry_base p \<le> 0 then seconds 5 else ry_base p);
          maximum = (if ry_max p \<le> 0 then minutes 5 else ry_max p);
          delay = delay_loop 1 (if attempt < 1 then 1 else attempt) maximum base
      in if maximum < delay then maximum else delay)"

section \<open>Safe codes\<close>

definition safe_char :: "char \<Rightarrow> bool" where
  "safe_char c \<longleftrightarrow> (let n = of_char c :: nat in 97 \<le> n \<and> n \<le> 122 \<or> 48 \<le> n \<and> n \<le> 57) \<or> c \<in> set ''_-.''"

definition normalizeSafeCode :: "string \<Rightarrow> string" where
  "normalizeSafeCode value =
     (let v = ToLower (TrimSpace value) in
      if v = [] \<or> 64 < length v \<or> \<not> list_all safe_char v then ''provider_error'' else v)"

definition normalizeErrorClass :: "ErrorClass \<Rightarrow> ErrorClass \<Rightarrow> ErrorClass" where
  "normalizeErrorClass value fallback = (case value of ErrorClassInvalid _ \<Rightarrow> fallback | _ \<Rightarrow> value)"

definition failureFromError :: "Failure option \<Rightarrow> ErrorClass \<Rightarrow> string \<Rightarrow> Failure" where
  "failureFromError err fallbackClass fallbackCode =
     (case err of
        Some f \<Rightarrow> \<lparr>fl_class = normalizeErrorClass (fl_class f) fallbackClass, fl_code = normalizeSafeCode (fl_code f)\<rparr>
      | None \<Rightarrow> \<lparr>fl_class = fallbackClass, fl_code = normalizeSafeCode fallbackCode\<rparr>)"

section \<open>Creation\<close>

definition normalizeCreateInput :: "CreateInput \<Rightarrow> CreateInput" where
  "normalizeCreateInput i =
     (let locale = ToLower (TrimSpace (in_locale i)) in
      \<lparr>in_account = TrimSpace (in_account i), in_device = TrimSpace (in_device i), in_token = TrimSpace (in_token i),
       in_channel = TrimSpace (in_channel i), in_provider = TrimSpace (in_provider i), in_recipient = TrimSpace (in_recipient i),
       in_template = TrimSpace (in_template i), in_locale = (if locale = [] then ''en'' else locale), in_attach_qr = in_attach_qr i,
       in_max = (if in_max i = 0 then 5 else in_max i), in_key = TrimSpace (in_key i), in_creator = TrimSpace (in_creator i)\<rparr>)"

definition validTemplateKey :: "string \<Rightarrow> bool" where
  "validTemplateKey t \<longleftrightarrow> t \<in> {''vpn_access'', ''vpn_access_reissued'', ''system_notification''}"

definition validLocale :: "string \<Rightarrow> bool" where
  "validLocale l \<longleftrightarrow> l = ''en'' \<or> l = ''ru''"

definition validateCreateInput :: "CreateInput \<Rightarrow> bool" where
  "validateCreateInput i \<longleftrightarrow>
     in_channel i \<noteq> [] \<and> length (in_channel i) \<le> 64 \<and> in_provider i \<noteq> [] \<and> length (in_provider i) \<le> 64
     \<and> in_recipient i \<noteq> [] \<and> length (in_recipient i) \<le> 1024 \<and> validTemplateKey (in_template i) \<and> validLocale (in_locale i)
     \<and> 1 \<le> in_max i \<and> in_max i \<le> 20 \<and> length (in_key i) \<le> 200"

definition sameCreateRequest :: "Delivery \<Rightarrow> CreateInput \<Rightarrow> bool" where
  "sameCreateRequest d i \<longleftrightarrow>
     dl_account d = in_account i \<and> dl_device d = in_device i \<and> dl_token d = in_token i \<and> dl_channel d = in_channel i
     \<and> dl_provider d = in_provider i \<and> dl_recipient d = in_recipient i \<and> dl_template d = in_template i
     \<and> dl_locale d = in_locale i \<and> dl_attach_qr d = in_attach_qr i \<and> dl_max d = in_max i \<and> dl_creator d = in_creator i"

text \<open>\<open>NULLIF(x, '')::uuid\<close>, read back by \<open>COALESCE(\<dots>::text, '')\<close>, and the foreign key of a row that is inserted.\<close>

definition nullable_uuid :: "dlv_env \<Rightarrow> string \<Rightarrow> string dlv" where
  "nullable_uuid E x = (if x = [] then ok [] else some_or Store_error (de_uuid E x))"

definition refers :: "dlv_env \<Rightarrow> string \<Rightarrow> string \<Rightarrow> bool" where
  "refers E table_name u \<longleftrightarrow> u = [] \<or> de_ref E table_name u"

definition new_delivery :: "dlv_env \<Rightarrow> CreateInput \<Rightarrow> string \<Rightarrow> string \<Rightarrow> string \<Rightarrow> string \<Rightarrow> string \<Rightarrow> Delivery" where
  "new_delivery E i u account device token creator =
     \<lparr>dl_id = u, dl_account = account, dl_device = device, dl_token = token, dl_channel = in_channel i, dl_provider = in_provider i,
      dl_recipient = in_recipient i, dl_template = in_template i, dl_locale = in_locale i, dl_attach_qr = in_attach_qr i,
      dl_status = StatusQueued, dl_attempts = 0, dl_max = in_max i, dl_next = Some (de_now E), dl_started = None, dl_reference = [],
      dl_error_class = None, dl_error_code = [], dl_key = in_key i, dl_creator = creator, dl_created = de_now E,
      dl_updated = de_now E, dl_sent = None, dl_completed = None\<rparr>"

definition insert_delivery :: "dlv_env \<Rightarrow> CreateInput \<Rightarrow> string \<Rightarrow> string \<Rightarrow> string \<Rightarrow> string \<Rightarrow> (Delivery \<times> bool) dlv" where
  "insert_delivery E i account device token creator =
     andThen (need (refers E ''vpn_accounts'' account \<and> refers E ''vpn_account_devices'' device
                    \<and> refers E ''vpn_subscription_tokens'' token \<and> refers E ''users'' creator) Store_error) (\<lambda>_.
     andThen (look (\<lambda>db. de_gen E (dv_seq db))) (\<lambda>u.
     andThen (check (\<lambda>db. \<forall>d \<in> set (dv_rows db). dl_id d \<noteq> u) Store_error) (\<lambda>_.
       let d = new_delivery E i u account device token creator in
       andThen (change (\<lambda>db. db\<lparr>dv_rows := dv_rows db @ [d], dv_seq := Suc (dv_seq db)\<rparr>)) (\<lambda>_.
       ok (d, True)))))"

text \<open>An empty key is \<open>NULL\<close> and never conflicts.  The row is inserted only when no row has the key.\<close>

definition Repository_Create :: "dlv_env \<Rightarrow> CreateInput \<Rightarrow> (Delivery \<times> bool) dlv" where
  "Repository_Create E input =
     (let i = normalizeCreateInput input in
      atomically
       (andThen (need (de_store E) Store_error) (\<lambda>_.
        andThen (nullable_uuid E (in_account i)) (\<lambda>account.
        andThen (nullable_uuid E (in_device i)) (\<lambda>device.
        andThen (nullable_uuid E (in_token i)) (\<lambda>token.
        andThen (nullable_uuid E (in_creator i)) (\<lambda>creator.
        andThen (look (\<lambda>db. if in_key i = [] then None else lookup_row dl_key (in_key i) (dv_rows db))) (\<lambda>existing.
        case existing of
          Some d \<Rightarrow> ok (d, False)
        | None \<Rightarrow> insert_delivery E i account device token creator))))))))"

definition Service_Create :: "dlv_env \<Rightarrow> CreateInput \<Rightarrow> (Delivery \<times> bool) dlv" where
  "Service_Create E input =
     (let i = normalizeCreateInput input in
      andThen (need (validateCreateInput i) Invalid_input) (\<lambda>_.
      andThen (Repository_Create E i) (\<lambda>(d, created).
      andThen (need (created \<or> sameCreateRequest d i) ErrIdempotencyConflict) (\<lambda>_.
      ok (d, created)))))"

definition CreateSystemNotification ::
  "dlv_env \<Rightarrow> string \<Rightarrow> string \<Rightarrow> string \<Rightarrow> string \<Rightarrow> string \<Rightarrow> string dlv" where
  "CreateSystemNotification E channel provider recipient locale key =
     andThen (Service_Create E \<lparr>in_account = [], in_device = [], in_token = [], in_channel = channel, in_provider = provider,
        in_recipient = recipient, in_template = ''system_notification'', in_locale = locale, in_attach_qr = False, in_max = 5,
        in_key = key, in_creator = []\<rparr>) (\<lambda>(d, _).
     ok (dl_id d))"

section \<open>The queue\<close>

definition claimable :: "dlv_env \<Rightarrow> Delivery \<Rightarrow> bool" where
  "claimable E d \<longleftrightarrow>
     (dl_status d = StatusQueued \<or> dl_status d = StatusRetrying) \<and> dl_attempts d < dl_max d
     \<and> (case dl_next d of None \<Rightarrow> True | Some t \<Rightarrow> t \<le> de_now E) \<and> \<not> de_locked E (dl_id d)"

definition claim_order :: "Delivery \<Rightarrow> (bool \<times> time) \<times> time \<times> string" where
  "claim_order d = ((case dl_next d of None \<Rightarrow> (False, 0) | Some t \<Rightarrow> (True, t)), dl_created d, dl_id d)"

definition claimed :: "dlv_env \<Rightarrow> Delivery \<Rightarrow> Delivery" where
  "claimed E d = d\<lparr>dl_status := StatusSending, dl_attempts := dl_attempts d + 1, dl_started := Some (de_now E), dl_next := None,
     dl_error_class := None, dl_error_code := [], dl_updated := de_now E\<rparr>"

definition ClaimNext :: "dlv_env \<Rightarrow> Delivery option dlv" where
  "ClaimNext E =
     andThen (look (\<lambda>db. least_by claim_order (select (claimable E) (dv_rows db)))) (\<lambda>job.
     case job of
       None \<Rightarrow> ok None
     | Some d \<Rightarrow>
         andThen (change (\<lambda>db. db\<lparr>dv_rows := update_where (\<lambda>r. dl_id r = dl_id d) (claimed E) (dv_rows db)\<rparr>)) (\<lambda>_.
         ok (Some (claimed E d))))"

text \<open>\<open>UPDATE deliveries \<dots> WHERE id AND status IN \<dots> RETURNING\<close>; an identifier read from the table casts to itself.\<close>

definition update_delivery :: "dlv_env \<Rightarrow> string \<Rightarrow> Status set \<Rightarrow> (Delivery \<Rightarrow> Delivery) \<Rightarrow> Delivery dlv" where
  "update_delivery E i states f =
     andThen (need (de_store E) Store_error) (\<lambda>_.
     andThen (find_or No_delivery (\<lambda>db. find (\<lambda>d. dl_id d = i \<and> dl_status d \<in> states) (dv_rows db))) (\<lambda>d.
     andThen (change (\<lambda>db. db\<lparr>dv_rows := update_where (\<lambda>r. dl_id r = i \<and> dl_status r \<in> states) f (dv_rows db)\<rparr>)) (\<lambda>_.
     ok (f d))))"

definition MarkSent :: "dlv_env \<Rightarrow> string \<Rightarrow> string \<Rightarrow> Delivery dlv" where
  "MarkSent E i ref =
     update_delivery E i {StatusSending} (\<lambda>d. d\<lparr>dl_status := StatusSent, dl_reference := TrimSpace ref,
       dl_sent := Some (case dl_sent d of None \<Rightarrow> de_now E | Some t \<Rightarrow> t), dl_completed := Some (de_now E), dl_updated := de_now E\<rparr>)"

definition MarkDelivered :: "dlv_env \<Rightarrow> string \<Rightarrow> string \<Rightarrow> Delivery dlv" where
  "MarkDelivered E i ref =
     update_delivery E i {StatusSending, StatusSent} (\<lambda>d. d\<lparr>dl_status := StatusDelivered,
       dl_reference := (if TrimSpace ref = [] then dl_reference d else TrimSpace ref),
       dl_sent := Some (case dl_sent d of None \<Rightarrow> de_now E | Some t \<Rightarrow> t), dl_completed := Some (de_now E), dl_updated := de_now E\<rparr>)"

definition MarkRetrying :: "dlv_env \<Rightarrow> string \<Rightarrow> time \<Rightarrow> ErrorClass \<Rightarrow> string \<Rightarrow> Delivery dlv" where
  "MarkRetrying E i next_at class code =
     update_delivery E i {StatusSending} (\<lambda>d. d\<lparr>dl_status := StatusRetrying, dl_next := Some next_at, dl_started := None,
       dl_error_class := Some class, dl_error_code := normalizeSafeCode code, dl_completed := None, dl_updated := de_now E\<rparr>)"

definition markTerminal :: "dlv_env \<Rightarrow> string \<Rightarrow> Status \<Rightarrow> ErrorClass \<Rightarrow> string \<Rightarrow> Delivery dlv" where
  "markTerminal E i status class code =
     update_delivery E i {StatusSending} (\<lambda>d. d\<lparr>dl_status := status, dl_next := None, dl_error_class := Some class,
       dl_error_code := normalizeSafeCode code, dl_completed := Some (de_now E), dl_updated := de_now E\<rparr>)"

definition MarkFailed :: "dlv_env \<Rightarrow> string \<Rightarrow> ErrorClass \<Rightarrow> string \<Rightarrow> Delivery dlv" where
  "MarkFailed E i class code = markTerminal E i StatusFailed class code"

definition MarkUncertain :: "dlv_env \<Rightarrow> string \<Rightarrow> string \<Rightarrow> Delivery dlv" where
  "MarkUncertain E i code = markTerminal E i StatusUncertain ErrorClassUncertain code"

definition RecoverSendingAfterRestart :: "dlv_env \<Rightarrow> Delivery list dlv" where
  "RecoverSendingAfterRestart E =
     (let f = (\<lambda>d. d\<lparr>dl_status := StatusUncertain, dl_next := None, dl_error_class := Some ErrorClassUncertain,
            dl_error_code := ''manager_restart'', dl_completed := Some (de_now E), dl_updated := de_now E\<rparr>) in
      andThen (look (\<lambda>db. map f (select (\<lambda>d. dl_status d = StatusSending) (dv_rows db)))) (\<lambda>recovered.
      andThen (change (\<lambda>db. db\<lparr>dv_rows := update_where (\<lambda>d. dl_status d = StatusSending) f (dv_rows db)\<rparr>)) (\<lambda>_.
      ok recovered)))"

text \<open>The constraint bounds \<open>max_attempts\<close> by 20.\<close>

definition Requeue :: "dlv_env \<Rightarrow> string \<Rightarrow> Delivery dlv" where
  "Requeue E i =
     andThen (some_or Store_error (de_uuid E i)) (\<lambda>u.
     andThen (check (\<lambda>db. \<forall>d \<in> set (dv_rows db). dl_id d = u \<and> dl_status d \<in> {StatusFailed, StatusUncertain} \<longrightarrow> dl_attempts d < 20)
               Store_error) (\<lambda>_.
     update_delivery E u {StatusFailed, StatusUncertain} (\<lambda>d. d\<lparr>dl_status := StatusQueued, dl_max := max (dl_max d) (dl_attempts d + 1),
       dl_next := Some (de_now E), dl_started := None, dl_reference := [], dl_error_class := None, dl_error_code := [],
       dl_completed := None, dl_updated := de_now E\<rparr>)))"

section \<open>The worker\<close>

definition failBeforeSend :: "dlv_env \<Rightarrow> Delivery \<Rightarrow> Failure \<Rightarrow> unit dlv" where
  "failBeforeSend E d f =
     (let class = normalizeErrorClass (fl_class f) ErrorClassPermanent; code = normalizeSafeCode (fl_code f) in
      if class = ErrorClassTransient \<and> dl_attempts d < dl_max d
      then andThen (MarkRetrying E (dl_id d) (de_clock E + Delay DefaultRetryPolicy (dl_attempts d)) class code) (\<lambda>_. ok ())
      else andThen (MarkFailed E (dl_id d) class code) (\<lambda>_. ok ()))"

definition applyProviderResult :: "dlv_env \<Rightarrow> Delivery \<Rightarrow> ProviderResult \<Rightarrow> unit dlv" where
  "applyProviderResult E d r =
     (let code = normalizeSafeCode (pr_code r) in
      case pr_outcome r of
        OutcomeAccepted \<Rightarrow> andThen (MarkSent E (dl_id d) (TrimSpace (pr_reference r))) (\<lambda>_. ok ())
      | OutcomeDelivered \<Rightarrow> andThen (MarkDelivered E (dl_id d) (TrimSpace (pr_reference r))) (\<lambda>_. ok ())
      | OutcomeRetryableFailure \<Rightarrow>
          if dl_attempts d < dl_max d
          then andThen (MarkRetrying E (dl_id d) (de_clock E + Delay DefaultRetryPolicy (dl_attempts d)) ErrorClassTransient code) (\<lambda>_. ok ())
          else andThen (MarkFailed E (dl_id d) ErrorClassTransient code) (\<lambda>_. ok ())
      | OutcomePermanentFailure \<Rightarrow> andThen (MarkFailed E (dl_id d) ErrorClassPermanent code) (\<lambda>_. ok ())
      | OutcomeUncertain \<Rightarrow> andThen (MarkUncertain E (dl_id d) code) (\<lambda>_. ok ())
      | OutcomeInvalid _ \<Rightarrow> andThen (MarkUncertain E (dl_id d) ''invalid_provider_outcome'') (\<lambda>_. ok ()))"

definition permanent :: "string \<Rightarrow> Failure" where
  "permanent code = \<lparr>fl_class = ErrorClassPermanent, fl_code = code\<rparr>"

text \<open>The message of a claimed delivery, or the failure that ends the attempt before anything is sent.\<close>

definition prepare :: "dlv_env \<Rightarrow> Delivery \<Rightarrow> Failure + Provider \<times> Message" where
  "prepare E d =
     (case de_providers E of
        None \<Rightarrow> Inl (permanent ''provider_unavailable'')
      | Some registry \<Rightarrow>
          (case registry (dl_provider d) of
             Inl _ \<Rightarrow> Inl \<lparr>fl_class = ErrorClassTransient, fl_code = ''provider_configuration_unavailable''\<rparr>
           | Inr None \<Rightarrow> Inl (permanent ''provider_unavailable'')
           | Inr (Some p) \<Rightarrow>
               (case pv_unconfigured p of
                  Some code \<Rightarrow> Inl (permanent code)
                | None \<Rightarrow>
                    if ToLower (TrimSpace (pv_channel p)) \<noteq> ToLower (TrimSpace (dl_channel d)) then Inl (permanent ''provider_channel_mismatch'')
                    else case de_resolver E of
                           None \<Rightarrow> Inl (permanent ''material_resolver_unavailable'')
                         | Some resolve \<Rightarrow>
                             (case resolve d of
                                Inl e \<Rightarrow> Inl (failureFromError e ErrorClassPermanent ''material_resolution_failed'')
                              | Inr material \<Rightarrow>
                                  (case de_renderer E of
                                     None \<Rightarrow> Inl (permanent ''template_renderer_unavailable'')
                                   | Some render_template \<Rightarrow>
                                       (case render_template (dl_template d) (dl_locale d) material of
                                          Inl e \<Rightarrow> Inl (failureFromError e ErrorClassPermanent ''template_render_failed'')
                                        | Inr m \<Rightarrow> Inr (p, m\<lparr>ms_recipient := dl_recipient d,
                                            ms_attachments := ms_attachments m @ rm_attachments material,
                                            ms_template := dl_template d, ms_locale := dl_locale d, ms_action := rm_url material\<rparr>)))))))"

definition send_message :: "Delivery \<Rightarrow> Provider \<Rightarrow> Message \<Rightarrow> ProviderResult dlv" where
  "send_message d p m =
     andThen (change (\<lambda>db. db\<lparr>dv_sends := dv_sends db @ [(dl_id d, dl_attempts d, pr_outcome (pv_send p m))]\<rparr>)) (\<lambda>_.
     ok (pv_send p m))"

definition ProcessNext :: "dlv_env \<Rightarrow> bool dlv" where
  "ProcessNext E =
     andThen (ClaimNext E) (\<lambda>job.
     case job of
       None \<Rightarrow> ok False
     | Some d \<Rightarrow>
         (case prepare E d of
            Inl f \<Rightarrow> andThen (failBeforeSend E d f) (\<lambda>_. ok True)
          | Inr (p, m) \<Rightarrow>
              andThen (send_message d p m) (\<lambda>r.
              andThen (applyProviderResult E d r) (\<lambda>_. ok True))))"

end
