(* ===== verification/Alerts.thy ===== *)
theory Alerts
  imports Deliveries
begin

text \<open>
  Health, alerts and notifications (\<open>backend/internal/observability\<close>): telemetry of the Agents is evaluated to health checks
  (\<open>agent_health.go\<close>, \<open>health_worker.go\<close>, \<open>health_repository.go\<close>, \<open>health_aggregate.go\<close>), the alert engine turns the checks
  into alert episodes (\<open>alert_policy.go\<close>, \<open>alert_engine.go\<close>, \<open>alert_repository*.go\<close>), and every incident leaves a notification
  intent that a worker expands into one delivery per recipient (\<open>notification_*.go\<close>).

  The evidence attached to a check for display is not modelled, and the percentages are exact to a hundredth
  where the code rounds a binary64 quotient.  Every transaction and statement has a fate in the environment:
  it takes effect, fails, or takes effect while the answer is lost.
\<close>

section \<open>Data\<close>

datatype HealthState = HealthHealthy | HealthDegraded | HealthUnhealthy | HealthUnknown | HealthInvalid string

datatype Severity = SeverityWarning | SeverityCritical

datatype AlertState = AlertPending | AlertFiring | AlertResolved

definition HealthState_Valid :: "HealthState \<Rightarrow> bool" where
  "HealthState_Valid s \<longleftrightarrow> s \<in> {HealthHealthy, HealthDegraded, HealthUnhealthy, HealthUnknown}"

definition AlertState_Active :: "AlertState \<Rightarrow> bool" where
  "AlertState_Active s \<longleftrightarrow> s = AlertPending \<or> s = AlertFiring"

definition CanTransitionTo :: "AlertState \<Rightarrow> AlertState \<Rightarrow> bool" where
  "CanTransitionTo s t \<longleftrightarrow> s \<noteq> t \<and> (s = AlertPending \<and> (t = AlertFiring \<or> t = AlertResolved) \<or> s = AlertFiring \<and> t = AlertResolved)"

record ResourceRef =
  rs_type :: string
  rs_id :: string

record HealthCheck =
  hc_key :: string
  hc_resource :: ResourceRef
  hc_component :: string
  hc_state :: HealthState
  hc_required :: bool
  hc_reason :: string
  hc_summary :: string
  hc_action :: string
  hc_observed :: time
  hc_expires :: "time option"

record health_transition =
  ht_resource :: ResourceRef
  ht_key :: string
  ht_previous :: "HealthState option"
  ht_state :: HealthState
  ht_observed :: time

record AgentHostTelemetry =
  ho_memory_total :: "nat option"
  ho_memory_available :: "nat option"
  ho_root_total :: "nat option"
  ho_root_free :: "nat option"

record AgentVPNCoreTelemetry =
  vt_type :: string
  vt_installed :: bool
  vt_version :: string
  vt_state :: string

record telemetry_row =
  te_server :: string
  te_received :: time
  te_memory_total :: "int option"
  te_memory_available :: "int option"
  te_root_total :: "int option"
  te_root_free :: "int option"
  te_core :: AgentVPNCoreTelemetry

record Alert =
  al_id :: string
  al_fingerprint :: string
  al_rule :: string
  al_resource :: ResourceRef
  al_severity :: Severity
  al_state :: AlertState
  al_summary :: string
  al_reason :: string
  al_started :: time
  al_firing :: "time option"
  al_resolved :: "time option"
  al_evaluated :: time
  al_recovery :: "time option"

record alert_transition =
  at_id :: string
  at_alert :: string
  at_from :: "AlertState option"
  at_to :: AlertState
  at_from_severity :: "Severity option"
  at_severity :: Severity
  at_reason :: string
  at_occurred :: time

record NotificationIntent =
  ni_id :: string
  ni_alert :: string
  ni_transition :: string
  ni_kind :: string
  ni_severity :: Severity
  ni_rule :: string
  ni_resource :: ResourceRef
  ni_reason :: string
  ni_summary :: string
  ni_claimed :: "time option"
  ni_expanded :: "time option"
  ni_created :: time

record NotificationRecipient =
  nr_id :: string
  nr_channel :: string
  nr_provider :: string
  nr_address :: string
  nr_locale :: string
  nr_enabled :: bool
  nr_created :: time

record notification_link =
  nl_delivery :: string
  nl_intent :: string
  nl_recipient :: "string option"

record obs_db =
  o_health :: "HealthCheck table"
  o_changes :: "health_transition table"
  o_telemetry :: "telemetry_row table"
  o_alerts :: "Alert table"
  o_transitions :: "alert_transition table"
  o_intents :: "NotificationIntent table"
  o_recipients :: "NotificationRecipient table"
  o_links :: "notification_link table"
  o_deliveries :: dlv_db
  o_seq :: nat

record obs_env =
  oe_gen :: "nat \<Rightarrow> string"
  oe_now :: time
  oe_clock :: time
  oe_locked :: "string \<Rightarrow> bool"
  oe_fate :: "string \<Rightarrow> string \<Rightarrow> commit_fate"

datatype obs_fault = Database_error | Invalid_check | No_creator | Delivery_fault dlv_fault

type_synonym 'a obs = "(obs_fault, obs_db, 'a) effect"

text \<open>\<open>oe_fate\<close> gives the fate of a named transaction or statement on a row or fingerprint.  One transaction, or one statement outside a transaction, with its fate.\<close>

definition committed :: "commit_fate \<Rightarrow> 'a obs \<Rightarrow> 'a obs" where
  "committed fate m db =
     (case m db of
        (Inl e, _) \<Rightarrow> (Inl e, db)
      | (Inr x, db') \<Rightarrow>
          (case fate of
             Committed \<Rightarrow> (Inr x, db')
           | Commit_ack_lost \<Rightarrow> (Inl Database_error, db')
           | Commit_failed \<Rightarrow> (Inl Database_error, db)))"

definition fresh_id :: "obs_env \<Rightarrow> string obs" where
  "fresh_id E = andThen (look (\<lambda>db. oe_gen E (o_seq db))) (\<lambda>u. andThen (change (\<lambda>db. db\<lparr>o_seq := Suc (o_seq db)\<rparr>)) (\<lambda>_. ok u))"

section \<open>Health of the Agents\<close>

definition EffectiveState :: "HealthCheck \<Rightarrow> time \<Rightarrow> HealthState" where
  "EffectiveState h now = (case hc_expires h of Some e \<Rightarrow> if e \<le> now then HealthUnknown else hc_state h | None \<Rightarrow> hc_state h)"

definition AgentTelemetryHealthTTL :: time where
  "AgentTelemetryHealthTTL = seconds 90"

text \<open>In hundredths of a per cent point, rounded half away from zero.\<close>

definition percent :: "nat \<Rightarrow> nat \<Rightarrow> nat" where
  "percent part whole = (if whole = 0 then 0 else (20000 * part + whole) div (2 * whole))"

definition capacity :: "string \<Rightarrow> string \<Rightarrow> ResourceRef \<Rightarrow> nat option \<Rightarrow> nat option \<Rightarrow> string \<times> string \<Rightarrow> (string \<times> string) \<times> (string \<times> string) \<times> (string \<times> string)
    \<Rightarrow> string \<Rightarrow> time \<Rightarrow> time \<Rightarrow> HealthCheck" where
  "capacity key component resource whole part unavailable texts action observed expires =
     (let check = (\<lambda>st reason summary act. \<lparr>hc_key = key, hc_resource = resource, hc_component = component, hc_state = st,
            hc_required = True, hc_reason = reason, hc_summary = summary, hc_action = act, hc_observed = observed,
            hc_expires = Some expires\<rparr>);
          (critical, low, good) = texts
      in case (whole, part) of
           (Some t, Some p) \<Rightarrow>
             if t = 0 then check HealthUnknown (fst unavailable) (snd unavailable) ''check_agent_telemetry''
             else if percent p t \<le> 500 then check HealthUnhealthy (fst critical) (snd critical) action
             else if percent p t \<le> 1500 then check HealthDegraded (fst low) (snd low) action
             else check HealthHealthy (fst good) (snd good) []
         | _ \<Rightarrow> check HealthUnknown (fst unavailable) (snd unavailable) ''check_agent_telemetry'')"

definition evaluateMemoryHealth :: "ResourceRef \<Rightarrow> AgentHostTelemetry \<Rightarrow> time \<Rightarrow> time \<Rightarrow> HealthCheck" where
  "evaluateMemoryHealth resource host =
     capacity ''host.memory.capacity'' ''host'' resource (ho_memory_total host) (ho_memory_available host)
       (''memory_capacity_unavailable'', ''Memory capacity could not be evaluated.'')
       ((''memory_available_critical'', ''Available memory is critically low.''),
        (''memory_available_low'', ''Available memory is low.''),
        (''memory_capacity_ok'', ''Available memory is within the healthy range.''))
       ''investigate_memory_pressure''"

definition evaluateDiskHealth :: "ResourceRef \<Rightarrow> AgentHostTelemetry \<Rightarrow> time \<Rightarrow> time \<Rightarrow> HealthCheck" where
  "evaluateDiskHealth resource host =
     capacity ''host.disk.capacity'' ''host'' resource (ho_root_total host) (ho_root_free host)
       (''disk_capacity_unavailable'', ''Root filesystem capacity could not be evaluated.'')
       ((''disk_free_critical'', ''Root filesystem free space is critically low.''),
        (''disk_free_low'', ''Root filesystem free space is low.''),
        (''disk_capacity_ok'', ''Root filesystem capacity is within the healthy range.''))
       ''free_disk_space''"

definition core_condition :: "AgentVPNCoreTelemetry \<Rightarrow> HealthState \<times> string \<times> string \<times> string" where
  "core_condition core =
     (let state = ToLower (TrimSpace (vt_state core)) in
      if \<not> vt_installed core \<or> state = ''not_installed''
      then (HealthUnhealthy, ''vpn_core_not_installed'', ''VPN Core is not installed.'', ''install_vpn_core'')
      else if state = ''active'' then (HealthHealthy, ''vpn_core_running'', ''VPN Core service is running.'', [])
      else if state \<in> {''activating'', ''reloading''}
      then (HealthDegraded, ''vpn_core_transitioning'', ''VPN Core service is transitioning.'', ''wait_for_vpn_core'')
      else if state \<in> {''inactive'', ''deactivating'', ''failed''}
      then (HealthUnhealthy, ''vpn_core_not_running'', ''VPN Core service is not running.'', ''start_vpn_core'')
      else (HealthUnknown, ''vpn_core_state_unknown'', ''VPN Core service state is unknown.'', ''check_vpn_core_service''))"

definition evaluateVPNCoreHealth :: "ResourceRef \<Rightarrow> AgentVPNCoreTelemetry \<Rightarrow> time \<Rightarrow> time \<Rightarrow> HealthCheck" where
  "evaluateVPNCoreHealth resource core observed expires =
     (case core_condition core of
        (st, reason, summary, action) \<Rightarrow>
          \<lparr>hc_key = ''vpn_core.service'', hc_resource = resource, hc_component = ''vpn_core'', hc_state = st, hc_required = True,
           hc_reason = reason, hc_summary = summary, hc_action = action, hc_observed = observed, hc_expires = Some expires\<rparr>)"

definition EvaluateAgentTelemetry :: "ResourceRef \<Rightarrow> AgentHostTelemetry \<Rightarrow> AgentVPNCoreTelemetry \<Rightarrow> time \<Rightarrow> HealthCheck list" where
  "EvaluateAgentTelemetry resource host core received =
     (let expires = received + AgentTelemetryHealthTTL in
      [\<lparr>hc_key = ''agent.telemetry.freshness'', hc_resource = resource, hc_component = ''agent'', hc_state = HealthHealthy,
        hc_required = True, hc_reason = ''telemetry_recent'', hc_summary = ''Agent telemetry is current.'', hc_action = [],
        hc_observed = received, hc_expires = Some expires\<rparr>,
       evaluateMemoryHealth resource host received expires,
       evaluateDiskHealth resource host received expires,
       evaluateVPNCoreHealth resource core received expires])"

definition markTelemetryChecksStale :: "time \<Rightarrow> HealthCheck list \<Rightarrow> HealthCheck list" where
  "markTelemetryChecksStale now checks =
     map (\<lambda>h. h\<lparr>hc_state := HealthUnknown, hc_reason := ''telemetry_stale'', hc_summary := ''Agent telemetry is stale.'',
              hc_action := ''check_agent_connectivity'', hc_observed := now, hc_expires := None\<rparr>) checks"

definition zero_time :: time where
  "zero_time = seconds (- 62135596800)"

definition validateHealthCheck :: "HealthCheck \<Rightarrow> bool" where
  "validateHealthCheck h \<longleftrightarrow>
     TrimSpace (hc_key h) \<noteq> [] \<and> TrimSpace (rs_type (hc_resource h)) \<noteq> [] \<and> TrimSpace (rs_id (hc_resource h)) \<noteq> []
     \<and> TrimSpace (hc_component h) \<noteq> [] \<and> HealthState_Valid (hc_state h) \<and> hc_observed h \<noteq> zero_time
     \<and> (case hc_expires h of None \<Rightarrow> True | Some e \<Rightarrow> hc_observed h \<le> e)"

definition same_check :: "HealthCheck \<Rightarrow> HealthCheck \<Rightarrow> bool" where
  "same_check a b \<longleftrightarrow> hc_resource a = hc_resource b \<and> hc_key a = hc_key b"

definition apply_check :: "HealthCheck \<Rightarrow> unit obs" where
  "apply_check h =
     andThen (need (validateHealthCheck h) Invalid_check) (\<lambda>_.
     andThen (look (\<lambda>db. map_option hc_state (find (same_check h) (o_health db)))) (\<lambda>previous.
     andThen (change (\<lambda>db. db\<lparr>o_health := (if previous = None then o_health db @ [h] else update_where (same_check h) (\<lambda>_. h) (o_health db))\<rparr>)) (\<lambda>_.
     if previous = Some (hc_state h) then ok ()
     else change (\<lambda>db. db\<lparr>o_changes := o_changes db @ [\<lparr>ht_resource = hc_resource h, ht_key = hc_key h, ht_previous = previous,
            ht_state = hc_state h, ht_observed = hc_observed h\<rparr>]\<rparr>))))"

fun apply_checks :: "HealthCheck list \<Rightarrow> unit obs" where
  "apply_checks [] = ok ()"
| "apply_checks (h # hs) = andThen (apply_check h) (\<lambda>_. apply_checks hs)"

definition ApplyChecks :: "obs_env \<Rightarrow> HealthCheck list \<Rightarrow> unit obs" where
  "ApplyChecks E hs = (if hs = [] then ok () else committed (oe_fate E ''ApplyChecks'' (rs_id (hc_resource (hd hs)))) (apply_checks hs))"

definition uint64FromInt64 :: "int option \<Rightarrow> nat option" where
  "uint64FromInt64 v = (case v of None \<Rightarrow> None | Some n \<Rightarrow> if n < 0 then None else Some (nat n))"

definition telemetry_host :: "telemetry_row \<Rightarrow> AgentHostTelemetry" where
  "telemetry_host t = \<lparr>ho_memory_total = uint64FromInt64 (te_memory_total t), ho_memory_available = uint64FromInt64 (te_memory_available t),
     ho_root_total = uint64FromInt64 (te_root_total t), ho_root_free = uint64FromInt64 (te_root_free t)\<rparr>"

definition telemetry_checks :: "time \<Rightarrow> telemetry_row \<Rightarrow> HealthCheck list" where
  "telemetry_checks now t =
     (let checks = EvaluateAgentTelemetry \<lparr>rs_type = ''server'', rs_id = te_server t\<rparr> (telemetry_host t) (te_core t) (te_received t) in
      if te_received t + AgentTelemetryHealthTTL \<le> now then markTelemetryChecksStale now checks else checks)"

fun evaluate_rows :: "obs_env \<Rightarrow> time \<Rightarrow> telemetry_row list \<Rightarrow> unit obs" where
  "evaluate_rows E now [] = ok ()"
| "evaluate_rows E now (t # ts) = andThen (ApplyChecks E (telemetry_checks now t)) (\<lambda>_. evaluate_rows E now ts)"

definition HealthWorker_EvaluateOnce :: "obs_env \<Rightarrow> time \<Rightarrow> unit obs" where
  "HealthWorker_EvaluateOnce E now = andThen (look o_telemetry) (evaluate_rows E now)"

record HealthAggregate =
  ag_state :: HealthState
  ag_required :: nat
  ag_healthy :: nat
  ag_degraded :: nat
  ag_unhealthy :: nat
  ag_unknown :: nat

definition count_state :: "HealthAggregate \<Rightarrow> HealthState \<Rightarrow> HealthAggregate" where
  "count_state r st =
     (let q = r\<lparr>ag_required := Suc (ag_required r)\<rparr> in
      case st of
        HealthHealthy \<Rightarrow> q\<lparr>ag_healthy := Suc (ag_healthy q)\<rparr>
      | HealthDegraded \<Rightarrow> q\<lparr>ag_degraded := Suc (ag_degraded q)\<rparr>
      | HealthUnhealthy \<Rightarrow> q\<lparr>ag_unhealthy := Suc (ag_unhealthy q)\<rparr>
      | _ \<Rightarrow> q\<lparr>ag_unknown := Suc (ag_unknown q)\<rparr>)"

definition AggregateRequiredHealth :: "HealthCheck list \<Rightarrow> time \<Rightarrow> HealthAggregate" where
  "AggregateRequiredHealth checks now =
     (let r = foldl (\<lambda>r h. if hc_required h then count_state r (EffectiveState h now) else r)
            \<lparr>ag_state = HealthUnknown, ag_required = 0, ag_healthy = 0, ag_degraded = 0, ag_unhealthy = 0, ag_unknown = 0\<rparr> checks
      in if ag_required r = 0 then r
         else if 0 < ag_unhealthy r then r\<lparr>ag_state := HealthUnhealthy\<rparr>
         else if 0 < ag_degraded r then r\<lparr>ag_state := HealthDegraded\<rparr>
         else if 0 < ag_unknown r then r\<lparr>ag_state := HealthUnknown\<rparr>
         else r\<lparr>ag_state := HealthHealthy\<rparr>)"


section \<open>Alert policy\<close>

definition AlertCriticalFireDelay :: time where "AlertCriticalFireDelay = seconds 30"
definition AlertWarningFireDelay :: time where "AlertWarningFireDelay = minutes 2"
definition AlertRecoveryDelay :: time where "AlertRecoveryDelay = seconds 60"
definition AlertFlapWindow :: time where "AlertFlapWindow = minutes 5"
definition AlertFlapFireDelay :: time where "AlertFlapFireDelay = minutes 3"

record AlertCondition =
  ac_fingerprint :: string
  ac_rule :: string
  ac_resource :: ResourceRef
  ac_severity :: Severity
  ac_reason :: string
  ac_summary :: string
  ac_fire_after :: time

definition alertFingerprint :: "string \<Rightarrow> ResourceRef \<Rightarrow> string" where
  "alertFingerprint key resource = TrimSpace key @ '':'' @ TrimSpace (rs_type resource) @ '':'' @ TrimSpace (rs_id resource)"

definition freshness_key :: string where
  "freshness_key = ''agent.telemetry.freshness''"

text \<open>The severity and fire delay of an effective state.\<close>

definition severity_of :: "string \<Rightarrow> HealthState \<Rightarrow> (Severity \<times> time) option" where
  "severity_of key st =
     (case st of
        HealthUnhealthy \<Rightarrow> Some (SeverityCritical, AlertCriticalFireDelay)
      | HealthDegraded \<Rightarrow> Some (SeverityWarning, AlertWarningFireDelay)
      | HealthUnknown \<Rightarrow> if key \<noteq> freshness_key then None else Some (SeverityCritical, AlertCriticalFireDelay)
      | _ \<Rightarrow> None)"

text \<open>\<open>None\<close> is the condition that is not triggered.\<close>

definition EvaluateAlertCondition :: "HealthCheck \<Rightarrow> time \<Rightarrow> AlertCondition option" where
  "EvaluateAlertCondition h now =
     (let state = EffectiveState h now;
          expired = (case hc_expires h of None \<Rightarrow> False | Some e \<Rightarrow> e \<le> now)
      in if hc_key h \<noteq> freshness_key \<and> (expired \<or> hc_reason h = ''telemetry_stale'') then None
         else if hc_key h \<noteq> freshness_key \<and> state = HealthUnknown then None
         else if hc_key h = ''vpn_core.service'' \<and> hc_reason h = ''vpn_core_not_installed'' then None
         else if state = HealthHealthy then None
         else
           let reason = (if expired \<and> hc_key h = freshness_key then ''telemetry_stale'' else TrimSpace (hc_reason h));
               summary = (if expired \<and> hc_key h = freshness_key then ''Agent telemetry is stale.'' else TrimSpace (hc_summary h))
           in case severity_of (hc_key h) state of
                None \<Rightarrow> None
              | Some (severity, delay) \<Rightarrow>
                  Some \<lparr>ac_fingerprint = alertFingerprint (hc_key h) (hc_resource h), ac_rule = hc_key h, ac_resource = hc_resource h,
                    ac_severity = severity, ac_reason = (if reason = [] then ''health_condition_active'' else reason),
                    ac_summary = (if summary = [] then ''A RouteGate health condition requires attention.'' else summary),
                    ac_fire_after = delay\<rparr>)"

definition severityRank :: "Severity \<Rightarrow> nat" where
  "severityRank s = (case s of SeverityCritical \<Rightarrow> 2 | SeverityWarning \<Rightarrow> 1)"

definition effectiveFireDelay :: "time \<Rightarrow> time \<Rightarrow> time option \<Rightarrow> time" where
  "effectiveFireDelay base started previous =
     (case previous of
        None \<Rightarrow> base
      | Some p \<Rightarrow> if started < p + AlertFlapWindow \<and> base < AlertFlapFireDelay then AlertFlapFireDelay else base)"

section \<open>Alert tables\<close>

definition blank :: "string \<Rightarrow> bool" where
  "blank s \<longleftrightarrow> list_all (\<lambda>c. c = CHR '' '') s"

text \<open>The constraints of \<open>observability_alerts\<close>; the empty reason is \<open>NULL\<close>.\<close>

definition alert_ok :: "Alert \<Rightarrow> bool" where
  "alert_ok a \<longleftrightarrow>
     \<not> blank (al_fingerprint a) \<and> \<not> blank (al_rule a) \<and> \<not> blank (rs_type (al_resource a)) \<and> \<not> blank (rs_id (al_resource a))
     \<and> \<not> blank (al_summary a) \<and> (al_reason a = [] \<or> \<not> blank (al_reason a))
     \<and> al_started a \<le> al_evaluated a \<and> (\<forall>t \<in> set_option (al_firing a). al_started a \<le> t)
     \<and> (\<forall>t \<in> set_option (al_resolved a). al_started a \<le> t) \<and> (\<forall>t \<in> set_option (al_recovery a). al_started a \<le> t)
     \<and> (case al_state a of
          AlertPending \<Rightarrow> al_firing a = None \<and> al_resolved a = None
        | AlertFiring \<Rightarrow> al_firing a \<noteq> None \<and> al_resolved a = None
        | AlertResolved \<Rightarrow> al_resolved a \<noteq> None)"

text \<open>\<open>UPDATE observability_alerts \<dots>\<close>: the number of rows it matched.\<close>

definition update_alerts :: "(Alert \<Rightarrow> bool) \<Rightarrow> (Alert \<Rightarrow> Alert) \<Rightarrow> nat obs" where
  "update_alerts P f =
     andThen (look (\<lambda>db. rows_affected P (o_alerts db))) (\<lambda>n.
     andThen (check (\<lambda>db. \<forall>a \<in> set (o_alerts db). P a \<longrightarrow> alert_ok (f a)) Database_error) (\<lambda>_.
     andThen (change (\<lambda>db. db\<lparr>o_alerts := update_where P f (o_alerts db)\<rparr>)) (\<lambda>_.
     ok n)))"

definition insert_transition ::
  "obs_env \<Rightarrow> string \<Rightarrow> AlertState option \<Rightarrow> AlertState \<Rightarrow> Severity option \<Rightarrow> Severity \<Rightarrow> string \<Rightarrow> time \<Rightarrow> string obs" where
  "insert_transition E a from_state to_state from_severity to_severity reason now =
     andThen (fresh_id E) (\<lambda>u.
     andThen (check (\<lambda>db. \<forall>t \<in> set (o_transitions db). at_id t \<noteq> u) Database_error) (\<lambda>_.
     andThen (need (reason = [] \<or> \<not> blank reason) Database_error) (\<lambda>_.
     andThen (change (\<lambda>db. db\<lparr>o_transitions := o_transitions db @ [\<lparr>at_id = u, at_alert = a, at_from = from_state, at_to = to_state,
        at_from_severity = from_severity, at_severity = to_severity, at_reason = reason, at_occurred = now\<rparr>]\<rparr>)) (\<lambda>_.
     ok u))))"

definition new_intent ::
  "obs_env \<Rightarrow> string \<Rightarrow> string \<Rightarrow> string \<Rightarrow> string \<Rightarrow> Severity \<Rightarrow> string \<Rightarrow> ResourceRef \<Rightarrow> string \<Rightarrow> string \<Rightarrow> NotificationIntent" where
  "new_intent E u alert_id transition kind severity rule resource reason summary =
     \<lparr>ni_id = u, ni_alert = alert_id, ni_transition = transition, ni_kind = kind, ni_severity = severity, ni_rule = rule,
      ni_resource = resource, ni_reason = reason, ni_summary = summary, ni_claimed = None, ni_expanded = None, ni_created = oe_now E\<rparr>"

definition insertNotificationIntent ::
  "obs_env \<Rightarrow> string \<Rightarrow> string \<Rightarrow> string \<Rightarrow> Severity \<Rightarrow> string \<Rightarrow> ResourceRef \<Rightarrow> string \<Rightarrow> string \<Rightarrow> unit obs" where
  "insertNotificationIntent E alert_id transition kind severity rule resource reason summary =
     andThen (need (\<not> blank rule \<and> \<not> blank (rs_type resource) \<and> \<not> blank (rs_id resource) \<and> \<not> blank summary) Database_error) (\<lambda>_.
     andThen (look (\<lambda>db. \<exists>i \<in> set (o_intents db). ni_transition i = transition)) (\<lambda>conflict.
     if conflict then ok ()
     else
       andThen (fresh_id E) (\<lambda>u.
       andThen (check (\<lambda>db. \<forall>i \<in> set (o_intents db). ni_id i \<noteq> u) Database_error) (\<lambda>_.
       change (\<lambda>db. db\<lparr>o_intents := o_intents db @ [new_intent E u alert_id transition kind severity rule resource reason summary]\<rparr>)))))"

definition active_alert :: "string \<Rightarrow> Alert \<Rightarrow> bool" where
  "active_alert u a \<longleftrightarrow> al_id a = u \<and> AlertState_Active (al_state a)"

definition ListCurrentHealth :: "HealthCheck list obs" where
  "ListCurrentHealth = look (\<lambda>db. sort_key (\<lambda>h. (rs_type (hc_resource h), rs_id (hc_resource h), hc_key h)) (o_health db))"

definition ActiveByFingerprint :: "string \<Rightarrow> Alert option obs" where
  "ActiveByFingerprint fp = look (\<lambda>db. find (\<lambda>a. al_fingerprint a = fp \<and> AlertState_Active (al_state a)) (o_alerts db))"

definition LastResolvedAt :: "string \<Rightarrow> time option obs" where
  "LastResolvedAt fp =
     look (\<lambda>db. let ts = List.map_filter al_resolved (select (\<lambda>a. al_fingerprint a = fp \<and> al_state a = AlertResolved) (o_alerts db))
              in if ts = [] then None else Some (Max (set ts)))"

definition pending_alert :: "string \<Rightarrow> AlertCondition \<Rightarrow> time \<Rightarrow> Alert" where
  "pending_alert u c now =
     \<lparr>al_id = u, al_fingerprint = ac_fingerprint c, al_rule = ac_rule c, al_resource = ac_resource c, al_severity = ac_severity c,
      al_state = AlertPending, al_summary = ac_summary c, al_reason = ac_reason c, al_started = now, al_firing = None,
      al_resolved = None, al_evaluated = now, al_recovery = None\<rparr>"

definition CreatePending :: "obs_env \<Rightarrow> AlertCondition \<Rightarrow> time \<Rightarrow> unit obs" where
  "CreatePending E c now =
     committed (oe_fate E ''CreatePending'' (ac_fingerprint c))
      (andThen (look (\<lambda>db. \<exists>a \<in> set (o_alerts db). al_fingerprint a = ac_fingerprint c \<and> AlertState_Active (al_state a))) (\<lambda>conflict.
       if conflict then ok ()
       else
         andThen (fresh_id E) (\<lambda>u.
         andThen (check (\<lambda>db. (\<forall>a \<in> set (o_alerts db). al_id a \<noteq> u) \<and> alert_ok (pending_alert u c now)) Database_error) (\<lambda>_.
         andThen (change (\<lambda>db. db\<lparr>o_alerts := o_alerts db @ [pending_alert u c now]\<rparr>)) (\<lambda>_.
         andThen (insert_transition E u None AlertPending None (ac_severity c) (ac_reason c) now) (\<lambda>_.
         ok ()))))))"

definition Touch :: "obs_env \<Rightarrow> string \<Rightarrow> string \<Rightarrow> string \<Rightarrow> time \<Rightarrow> unit obs" where
  "Touch E u summary reason now =
     committed (oe_fate E ''Touch'' u)
      (andThen (update_alerts (active_alert u) (\<lambda>a. a\<lparr>al_summary := summary, al_reason := reason, al_evaluated := now\<rparr>)) (\<lambda>_. ok ()))"

definition StartRecovery :: "obs_env \<Rightarrow> string \<Rightarrow> time \<Rightarrow> unit obs" where
  "StartRecovery E u now =
     committed (oe_fate E ''StartRecovery'' u)
      (andThen (update_alerts (active_alert u) (\<lambda>a. a\<lparr>al_recovery := Some (case al_recovery a of None \<Rightarrow> now | Some t \<Rightarrow> t), al_evaluated := now\<rparr>)) (\<lambda>_. ok ()))"

definition ClearRecovery :: "obs_env \<Rightarrow> string \<Rightarrow> time \<Rightarrow> unit obs" where
  "ClearRecovery E u now =
     committed (oe_fate E ''ClearRecovery'' u)
      (andThen (update_alerts (active_alert u) (\<lambda>a. a\<lparr>al_recovery := None, al_evaluated := now\<rparr>)) (\<lambda>_. ok ()))"

definition reseverity :: "AlertCondition \<Rightarrow> time \<Rightarrow> Alert \<Rightarrow> Alert" where
  "reseverity c now a = a\<lparr>al_severity := ac_severity c, al_summary := ac_summary c, al_reason := ac_reason c, al_recovery := None,
     al_evaluated := now\<rparr>"

definition ChangeSeverity :: "obs_env \<Rightarrow> Alert \<Rightarrow> AlertCondition \<Rightarrow> time \<Rightarrow> unit obs" where
  "ChangeSeverity E alert c now =
     committed (oe_fate E ''ChangeSeverity'' (al_id alert))
      (andThen (update_alerts (\<lambda>a. active_alert (al_id alert) a \<and> al_severity a \<noteq> ac_severity c)
         (reseverity c now)) (\<lambda>n.
       if n = 0 then ok ()
       else
         andThen (insert_transition E (al_id alert) (Some (al_state alert)) (al_state alert) (Some (al_severity alert)) (ac_severity c)
           (ac_reason c) now) (\<lambda>transition.
         if al_state alert = AlertFiring \<and> severityRank (al_severity alert) < severityRank (ac_severity c)
         then insertNotificationIntent E (al_id alert) transition ''escalated'' (ac_severity c) (ac_rule c) (ac_resource c)
                (ac_reason c) (ac_summary c)
         else ok ())))"

definition fired :: "AlertCondition \<Rightarrow> time \<Rightarrow> Alert \<Rightarrow> Alert" where
  "fired c now a = a\<lparr>al_state := AlertFiring, al_firing := Some now, al_summary := ac_summary c, al_reason := ac_reason c,
     al_recovery := None, al_evaluated := now\<rparr>"

definition FireIfPending :: "obs_env \<Rightarrow> Alert \<Rightarrow> AlertCondition \<Rightarrow> time \<Rightarrow> unit obs" where
  "FireIfPending E alert c now =
     committed (oe_fate E ''FireIfPending'' (al_id alert))
      (andThen (update_alerts (\<lambda>a. al_id a = al_id alert \<and> al_state a = AlertPending) (fired c now)) (\<lambda>n.
       if n = 0 then ok ()
       else
         andThen (insert_transition E (al_id alert) (Some AlertPending) AlertFiring (Some (al_severity alert)) (al_severity alert)
           (ac_reason c) now) (\<lambda>transition.
         insertNotificationIntent E (al_id alert) transition ''firing'' (al_severity alert) (ac_rule c) (ac_resource c)
           (ac_reason c) (ac_summary c))))"

definition resolved :: "time \<Rightarrow> Alert \<Rightarrow> Alert" where
  "resolved now a = a\<lparr>al_state := AlertResolved, al_resolved := Some now, al_recovery := None, al_evaluated := now\<rparr>"

definition ResolveIfActive :: "obs_env \<Rightarrow> Alert \<Rightarrow> time \<Rightarrow> unit obs" where
  "ResolveIfActive E alert now =
     committed (oe_fate E ''ResolveIfActive'' (al_id alert))
      (andThen (update_alerts (active_alert (al_id alert)) (resolved now)) (\<lambda>n.
       if n = 0 then ok ()
       else
         andThen (insert_transition E (al_id alert) (Some (al_state alert)) AlertResolved (Some (al_severity alert)) (al_severity alert)
           ''health_recovered'' now) (\<lambda>transition.
         if al_state alert = AlertFiring
         then insertNotificationIntent E (al_id alert) transition ''resolved'' (al_severity alert) (al_rule alert) (al_resource alert)
                (al_reason alert) (al_summary alert)
         else ok ())))"

section \<open>The alert engine\<close>

definition recoverIfNeeded :: "obs_env \<Rightarrow> Alert option \<Rightarrow> time \<Rightarrow> unit obs" where
  "recoverIfNeeded E active now =
     (case active of
        None \<Rightarrow> ok ()
      | Some a \<Rightarrow>
          if al_state a = AlertPending then ResolveIfActive E a now
          else case al_recovery a of
                 None \<Rightarrow> StartRecovery E (al_id a) now
               | Some t \<Rightarrow> if t + AlertRecoveryDelay \<le> now then ResolveIfActive E a now else StartRecovery E (al_id a) now)"

definition severity_changed :: "Alert \<Rightarrow> AlertCondition \<Rightarrow> bool" where
  "severity_changed a c \<longleftrightarrow>
     al_state a = AlertPending \<and> ac_severity c \<noteq> al_severity a
     \<or> al_state a = AlertFiring \<and> severityRank (al_severity a) < severityRank (ac_severity c)"

text \<open>The steps of a triggered condition with an active alert: the recovery is cleared, then the severity follows, then
  the alert fires or is touched.\<close>

definition clear_recovery :: "obs_env \<Rightarrow> Alert \<Rightarrow> time \<Rightarrow> Alert obs" where
  "clear_recovery E a now =
     (if al_recovery a = None then ok a
      else andThen (ClearRecovery E (al_id a) now) (\<lambda>_. ok (a\<lparr>al_recovery := None\<rparr>)))"

definition follow_severity :: "obs_env \<Rightarrow> Alert \<Rightarrow> AlertCondition \<Rightarrow> time \<Rightarrow> Alert obs" where
  "follow_severity E a c now =
     (if severity_changed a c
      then andThen (ChangeSeverity E a c now) (\<lambda>_. ok (a\<lparr>al_severity := ac_severity c, al_summary := ac_summary c, al_reason := ac_reason c\<rparr>))
      else ok a)"

definition touch_active :: "obs_env \<Rightarrow> Alert \<Rightarrow> AlertCondition \<Rightarrow> time \<Rightarrow> unit obs" where
  "touch_active E a c now =
     (if al_state a = AlertFiring \<and> severityRank (ac_severity c) < severityRank (al_severity a)
      then Touch E (al_id a) (al_summary a) (al_reason a) now
      else Touch E (al_id a) (ac_summary c) (ac_reason c) now)"

definition fire_or_touch :: "obs_env \<Rightarrow> Alert \<Rightarrow> AlertCondition \<Rightarrow> time \<Rightarrow> unit obs" where
  "fire_or_touch E a c now =
     (if al_state a = AlertPending
      then andThen (LastResolvedAt (al_fingerprint a)) (\<lambda>previous.
           if al_started a + effectiveFireDelay (ac_fire_after c) (al_started a) previous \<le> now
           then FireIfPending E a c now
           else touch_active E a c now)
      else touch_active E a c now)"

definition evaluateCheck :: "obs_env \<Rightarrow> HealthCheck \<Rightarrow> time \<Rightarrow> unit obs" where
  "evaluateCheck E h now =
     andThen (ActiveByFingerprint (alertFingerprint (hc_key h) (hc_resource h))) (\<lambda>active.
     case EvaluateAlertCondition h now of
       None \<Rightarrow> recoverIfNeeded E active now
     | Some c \<Rightarrow>
         (case active of
            None \<Rightarrow> CreatePending E c now
          | Some a \<Rightarrow>
              andThen (clear_recovery E a now) (\<lambda>a.
              andThen (follow_severity E a c now) (\<lambda>a.
              fire_or_touch E a c now))))"

fun evaluate_checks :: "obs_env \<Rightarrow> time \<Rightarrow> HealthCheck list \<Rightarrow> unit obs" where
  "evaluate_checks E now [] = ok ()"
| "evaluate_checks E now (h # hs) =
     (if hc_required h then andThen (evaluateCheck E h now) (\<lambda>_. evaluate_checks E now hs) else evaluate_checks E now hs)"

definition EvaluateOnce :: "obs_env \<Rightarrow> time \<Rightarrow> unit obs" where
  "EvaluateOnce E now = andThen ListCurrentHealth (evaluate_checks E now)"

section \<open>Notifications\<close>

definition notificationClaimTimeout :: time where
  "notificationClaimTimeout = minutes 1"

definition intent_claimable :: "obs_env \<Rightarrow> NotificationIntent \<Rightarrow> bool" where
  "intent_claimable E i \<longleftrightarrow>
     ni_expanded i = None \<and> (case ni_claimed i of None \<Rightarrow> True | Some t \<Rightarrow> t \<le> oe_clock E - notificationClaimTimeout) \<and> \<not> oe_locked E (ni_id i)"

definition ClaimNext_intent :: "obs_env \<Rightarrow> NotificationIntent option obs" where
  "ClaimNext_intent E =
     committed (oe_fate E ''ClaimNext'' [])
      (andThen (look (\<lambda>db. least_by (\<lambda>i. (ni_created i, ni_id i)) (select (intent_claimable E) (o_intents db)))) (\<lambda>job.
       case job of
         None \<Rightarrow> ok None
       | Some i \<Rightarrow>
           andThen (change (\<lambda>db. db\<lparr>o_intents := update_where (\<lambda>j. ni_id j = ni_id i) (\<lambda>j. j\<lparr>ni_claimed := Some (oe_clock E)\<rparr>) (o_intents db)\<rparr>)) (\<lambda>_.
           ok (Some i))))"

text \<open>A stored recipient holds the locale its metadata decode to, empty when they have none.\<close>

definition notificationRecipientLocale :: "string \<Rightarrow> string" where
  "notificationRecipientLocale l = (if EqualFold (TrimSpace l) ''ru'' then ''ru'' else ''en'')"

definition ListEnabledRecipients :: "NotificationRecipient list obs" where
  "ListEnabledRecipients =
     look (\<lambda>db. map (\<lambda>r. r\<lparr>nr_locale := notificationRecipientLocale (nr_locale r)\<rparr>)
        (sort_key (\<lambda>r. (nr_provider r, nr_created r, nr_id r))
          (select (\<lambda>r. nr_enabled r \<and> (nr_provider r = ''smtp'' \<or> nr_provider r = ''telegram'')) (o_recipients db))))"

definition LinkDelivery :: "obs_env \<Rightarrow> string \<Rightarrow> string \<Rightarrow> string \<Rightarrow> unit obs" where
  "LinkDelivery E intent recipient delivery =
     committed (oe_fate E ''LinkDelivery'' delivery)
      (andThen (look (\<lambda>db. \<exists>l \<in> set (o_links db). nl_delivery l = delivery)) (\<lambda>conflict.
       if conflict then ok ()
       else
         andThen (check (\<lambda>db. (\<forall>l \<in> set (o_links db). (nl_intent l, nl_recipient l) \<noteq> (intent, Some recipient))
            \<and> (\<exists>d \<in> set (dv_rows (o_deliveries db)). dl_id d = delivery) \<and> (\<exists>i \<in> set (o_intents db). ni_id i = intent)
            \<and> (\<exists>r \<in> set (o_recipients db). nr_id r = recipient)) Database_error) (\<lambda>_.
         change (\<lambda>db. db\<lparr>o_links := o_links db @ [\<lparr>nl_delivery = delivery, nl_intent = intent, nl_recipient = Some recipient\<rparr>]\<rparr>))))"

definition MarkExpanded :: "obs_env \<Rightarrow> string \<Rightarrow> unit obs" where
  "MarkExpanded E intent =
     committed (oe_fate E ''MarkExpanded'' intent)
      (change (\<lambda>db. db\<lparr>o_intents := update_where (\<lambda>i. ni_id i = intent \<and> ni_expanded i = None)
          (\<lambda>i. i\<lparr>ni_expanded := Some (oe_clock E), ni_claimed := None\<rparr>) (o_intents db)\<rparr>))"

definition notificationDeliveryIdempotencyKey :: "string \<Rightarrow> string \<Rightarrow> string" where
  "notificationDeliveryIdempotencyKey intent recipient = ''alert-notification:'' @ TrimSpace intent @ '':'' @ TrimSpace recipient"

text \<open>The creator is an interface; the program passes the delivery service, which runs on its own table.\<close>

definition in_deliveries :: "'a dlv \<Rightarrow> 'a obs" where
  "in_deliveries m db =
     (case m (o_deliveries db) of
        (Inl e, dv) \<Rightarrow> (Inl (Delivery_fault e), db\<lparr>o_deliveries := dv\<rparr>)
      | (Inr x, dv) \<Rightarrow> (Inr x, db\<lparr>o_deliveries := dv\<rparr>))"

type_synonym SystemNotificationCreator = "string \<Rightarrow> string \<Rightarrow> string \<Rightarrow> string \<Rightarrow> string \<Rightarrow> string obs"

definition delivery_creator :: "obs_env \<Rightarrow> dlv_env \<Rightarrow> SystemNotificationCreator" where
  "delivery_creator E D channel provider address locale key =
     committed (oe_fate E ''CreateSystemNotification'' key) (in_deliveries (CreateSystemNotification D channel provider address locale key))"

definition expand_recipient :: "obs_env \<Rightarrow> SystemNotificationCreator \<Rightarrow> string \<Rightarrow> NotificationRecipient \<Rightarrow> unit obs" where
  "expand_recipient E creator intent r =
     andThen (creator (nr_channel r) (nr_provider r) (nr_address r) (nr_locale r) (notificationDeliveryIdempotencyKey intent (nr_id r))) (\<lambda>delivery.
     LinkDelivery E intent (nr_id r) delivery)"

fun expand_recipients :: "obs_env \<Rightarrow> SystemNotificationCreator \<Rightarrow> string \<Rightarrow> NotificationRecipient list \<Rightarrow> unit obs" where
  "expand_recipients E creator intent [] = ok ()"
| "expand_recipients E creator intent (r # rs) = andThen (expand_recipient E creator intent r) (\<lambda>_. expand_recipients E creator intent rs)"

definition ProcessNext_intent :: "obs_env \<Rightarrow> SystemNotificationCreator option \<Rightarrow> bool obs" where
  "ProcessNext_intent E creator =
     andThen (ClaimNext_intent E) (\<lambda>job.
     case job of
       None \<Rightarrow> ok False
     | Some i \<Rightarrow>
         andThen (some_or No_creator creator) (\<lambda>create.
         andThen ListEnabledRecipients (\<lambda>recipients.
         andThen (expand_recipients E create (ni_id i) recipients) (\<lambda>_.
         andThen (MarkExpanded E (ni_id i)) (\<lambda>_.
         ok True)))))"

end
