(* ===== verification/Alert_Steps.thy ===== *)
theory Alert_Steps
  imports Alerts
begin

text \<open>
  The steps of the alert engine: each transaction of the repository, whatever its fate, either leaves the
  tables alone or moves the active alert of the fingerprint by one \<open>row_step\<close> and appends its intents, and an
  evaluation of a check is a sequence of such steps.  The invariants are proved over the steps.
\<close>

section \<open>Statements on the alert tables\<close>

text \<open>The effect of a transaction that updates alerts and appends transitions and intents.\<close>

definition written ::
  "(Alert \<Rightarrow> bool) \<Rightarrow> (Alert \<Rightarrow> Alert) \<Rightarrow> alert_transition list \<Rightarrow> NotificationIntent list \<Rightarrow> obs_db \<Rightarrow> obs_db \<Rightarrow> bool" where
  "written P f ts is db db' \<longleftrightarrow>
     o_alerts db' = update_where P f (o_alerts db) \<and> (\<forall>a \<in> set (o_alerts db). P a \<longrightarrow> alert_ok (f a))
     \<and> o_transitions db' = o_transitions db @ ts \<and> o_intents db' = o_intents db @ is
     \<and> at_id ` set ts \<inter> at_id ` set (o_transitions db) = {} \<and> ni_transition ` set is \<subseteq> at_id ` set ts"

definition untouched :: "obs_db \<Rightarrow> obs_db \<Rightarrow> bool" where
  "untouched db db' \<longleftrightarrow> o_alerts db' = o_alerts db \<and> o_transitions db' = o_transitions db \<and> o_intents db' = o_intents db"

definition recorded :: "obs_db \<Rightarrow> bool" where
  "recorded db \<longleftrightarrow> ni_transition ` set (o_intents db) \<subseteq> at_id ` set (o_transitions db)"

lemma committed_cases:
  assumes "committed fate m db = (r, db')"
  obtains (lost) e where "r = Inl e" "db' = db" | (written) x where "m db = (Inr x, db')" "\<And>y. r = Inr y \<Longrightarrow> y = x"
  using assms by (auto simp: committed_def split: prod.splits sum.splits commit_fate.splits)

lemma fresh_id_Inr: "fresh_id E s = (Inr u, s') \<longleftrightarrow> u = oe_gen E (o_seq s) \<and> s' = s\<lparr>o_seq := Suc (o_seq s)\<rparr>"
  by (auto simp: fresh_id_def effect_defs)

lemma update_alerts_Inr:
  "update_alerts P f s = (Inr n, s') \<longleftrightarrow>
     n = rows_affected P (o_alerts s) \<and> (\<forall>a \<in> set (o_alerts s). P a \<longrightarrow> alert_ok (f a))
     \<and> s' = s\<lparr>o_alerts := update_where P f (o_alerts s)\<rparr>"
  by (auto simp: update_alerts_def effect_defs)

lemma insert_transition_Inr:
  assumes "insert_transition E a fs ts fv tv reason now s = (Inr u, s')"
  shows "u \<notin> at_id ` set (o_transitions s) \<and> o_alerts s' = o_alerts s \<and> o_intents s' = o_intents s
     \<and> (\<exists>t. o_transitions s' = o_transitions s @ [t] \<and> at_id t = u \<and> at_alert t = a \<and> at_from t = fs \<and> at_to t = ts \<and> at_occurred t = now)"
  using assms by (auto simp: insert_transition_def fresh_id_Inr effect_defs)

lemma insertNotificationIntent_Inr:
  assumes "insertNotificationIntent E a t kind sev rule res reason summary s = (Inr x, s')" "t \<notin> ni_transition ` set (o_intents s)"
  shows "o_alerts s' = o_alerts s \<and> o_transitions s' = o_transitions s
     \<and> (\<exists>u. o_intents s' = o_intents s @ [new_intent E u a t kind sev rule res reason summary])"
  using assms by (auto simp: insertNotificationIntent_def fresh_id_Inr effect_defs split: if_splits)

lemma update_where_none: "rows_affected P t = 0 \<Longrightarrow> update_where P f t = t"
  by (simp add: rows_affected_def filter_empty_conv update_where_id)

text \<open>The transactions of the repository: an update, and when it matched a row, a transition and perhaps an intent.\<close>

definition incident :: "(Alert \<Rightarrow> bool) \<Rightarrow> (Alert \<Rightarrow> Alert) \<Rightarrow> string obs \<Rightarrow> (string \<Rightarrow> unit obs) \<Rightarrow> unit obs" where
  "incident P f m k = andThen (update_alerts P f) (\<lambda>n. if n = 0 then ok () else andThen m k)"

definition appends :: "(string \<Rightarrow> NotificationIntent list \<Rightarrow> bool) \<Rightarrow> (string \<Rightarrow> unit obs) \<Rightarrow> bool" where
  "appends I k \<longleftrightarrow>
     (\<forall>u s x s'. k u s = (Inr x, s') \<longrightarrow> u \<notin> ni_transition ` set (o_intents s) \<longrightarrow>
        o_alerts s' = o_alerts s \<and> o_transitions s' = o_transitions s
        \<and> (\<exists>is. o_intents s' = o_intents s @ is \<and> ni_transition ` set is \<subseteq> {u} \<and> I u is))"

lemma appends_ok: "appends (\<lambda>_ is. is = []) (\<lambda>_. ok ())"
  by (simp add: appends_def ok_def)

lemma appends_intent:
  "appends (\<lambda>u is. \<exists>v. is = [new_intent E v a u kind sev rule res reason summary])
     (\<lambda>u. insertNotificationIntent E a u kind sev rule res reason summary)"
  unfolding appends_def
proof (intro allI impI)
  fix u s x s'
  assume r: "insertNotificationIntent E a u kind sev rule res reason summary s = (Inr x, s')" "u \<notin> ni_transition ` set (o_intents s)"
  from insertNotificationIntent_Inr [OF r] show "o_alerts s' = o_alerts s \<and> o_transitions s' = o_transitions s
        \<and> (\<exists>is. o_intents s' = o_intents s @ is \<and> ni_transition ` set is \<subseteq> {u}
             \<and> (\<exists>v. is = [new_intent E v a u kind sev rule res reason summary]))"
    by (auto simp: new_intent_def)
qed

lemma incident_run:
  assumes run: "committed fate (incident P f (insert_transition E a fs ts fv tv why now) k) db = (r, db')"
    and rec: "recorded db" and k: "appends I k"
  obtains (lost) e where "r = Inl e" "db' = db"
  | (missed) "\<forall>x \<in> set (o_alerts db). \<not> P x" "untouched db db'"
  | (hit) x t "is" where "x \<in> set (o_alerts db)" "P x" "written P f [t] is db db'" "at_alert t = a" "I (at_id t) is"
  using run
proof (cases rule: committed_cases)
  case (lost e)
  then show ?thesis by (rule that(1))
next
  case (written y)
  define s1 where "s1 = db\<lparr>o_alerts := update_where P f (o_alerts db)\<rparr>"
  have u: "\<forall>a \<in> set (o_alerts db). P a \<longrightarrow> alert_ok (f a)"
    and rest: "(if rows_affected P (o_alerts db) = 0 then ok () else andThen (insert_transition E a fs ts fv tv why now) k) s1 = (Inr y, db')"
    using written(1) unfolding incident_def andThen_Inr update_alerts_Inr s1_def by blast+
  show ?thesis
  proof (cases "rows_affected P (o_alerts db) = 0")
    case True
    then have "untouched db db'" using rest by (simp add: untouched_def s1_def update_where_none ok_def)
    moreover have "\<forall>x \<in> set (o_alerts db). \<not> P x" using True by (simp add: rows_affected_def filter_empty_conv)
    ultimately show ?thesis by (rule that(2) [rotated])
  next
    case False
    then obtain v s2 where t: "insert_transition E a fs ts fv tv why now s1 = (Inr v, s2)" "k v s2 = (Inr y, db')"
      using rest by (auto simp: effect_defs)
    obtain t' where t': "v \<notin> at_id ` set (o_transitions db)" "o_alerts s2 = o_alerts s1" "o_intents s2 = o_intents db"
      "o_transitions s2 = o_transitions db @ [t']" "at_id t' = v" "at_alert t' = a"
      using insert_transition_Inr [OF t(1)] by (auto simp: s1_def)
    then have "v \<notin> ni_transition ` set (o_intents s2)" using rec by (auto simp: recorded_def)
    with k t(2) obtain "is" where i: "o_alerts db' = o_alerts s2" "o_transitions db' = o_transitions s2"
      "o_intents db' = o_intents s2 @ is" "ni_transition ` set is \<subseteq> {v}" "I v is"
      unfolding appends_def by blast
    have "written P f [t'] is db db'" using u t' i by (simp add: written_def s1_def)
    moreover obtain x where "x \<in> set (o_alerts db)" "P x"
      using False by (auto simp: rows_affected_def filter_empty_conv)
    ultimately show ?thesis using that(3) t'(5,6) i(5) by blast
  qed
qed

lemma update_run:
  assumes "committed fate (andThen (update_alerts P f) (\<lambda>_. ok ())) db = (r, db')"
  obtains (lost) e where "r = Inl e" "db' = db" | (hit) "written P f [] [] db db'"
  using assms
proof (cases rule: committed_cases)
  case (lost e)
  then show ?thesis by (rule that(1))
next
  case (written x)
  then have "\<forall>a \<in> set (o_alerts db). P a \<longrightarrow> alert_ok (f a)" "db' = db\<lparr>o_alerts := update_where P f (o_alerts db)\<rparr>"
    by (auto simp: effect_defs update_alerts_Inr)
  then show ?thesis by (intro that(2)) (simp add: written_def)
qed

lemma FireIfPending_incident:
  "FireIfPending E alert c now =
     committed (oe_fate E ''FireIfPending'' (al_id alert))
      (incident (\<lambda>a. al_id a = al_id alert \<and> al_state a = AlertPending) (fired c now)
        (insert_transition E (al_id alert) (Some AlertPending) AlertFiring (Some (al_severity alert)) (al_severity alert) (ac_reason c) now)
        (\<lambda>t. insertNotificationIntent E (al_id alert) t ''firing'' (al_severity alert) (ac_rule c) (ac_resource c) (ac_reason c) (ac_summary c)))"
  by (simp add: FireIfPending_def incident_def)


lemma ResolveIfActive_incident:
  "ResolveIfActive E alert now =
     committed (oe_fate E ''ResolveIfActive'' (al_id alert))
      (incident (active_alert (al_id alert)) (resolved now)
        (insert_transition E (al_id alert) (Some (al_state alert)) AlertResolved (Some (al_severity alert)) (al_severity alert)
           ''health_recovered'' now)
        (\<lambda>t. if al_state alert = AlertFiring
             then insertNotificationIntent E (al_id alert) t ''resolved'' (al_severity alert) (al_rule alert) (al_resource alert)
                    (al_reason alert) (al_summary alert)
             else ok ()))"
  by (simp add: ResolveIfActive_def incident_def)

lemma ChangeSeverity_incident:
  "ChangeSeverity E alert c now =
     committed (oe_fate E ''ChangeSeverity'' (al_id alert))
      (incident (\<lambda>a. active_alert (al_id alert) a \<and> al_severity a \<noteq> ac_severity c) (reseverity c now)
        (insert_transition E (al_id alert) (Some (al_state alert)) (al_state alert) (Some (al_severity alert)) (ac_severity c)
           (ac_reason c) now)
        (\<lambda>t. if al_state alert = AlertFiring \<and> severityRank (al_severity alert) < severityRank (ac_severity c)
             then insertNotificationIntent E (al_id alert) t ''escalated'' (ac_severity c) (ac_rule c) (ac_resource c)
                    (ac_reason c) (ac_summary c)
             else ok ()))"
  by (simp add: ChangeSeverity_def incident_def)

section \<open>Steps of a row\<close>

text \<open>What one evaluation may do to the active alert of its fingerprint, given the severity it observed.\<close>

definition fire_delay :: "Severity \<Rightarrow> time" where
  "fire_delay s = (case s of SeverityCritical \<Rightarrow> AlertCriticalFireDelay | SeverityWarning \<Rightarrow> AlertWarningFireDelay)"

definition intent_of :: "NotificationIntent \<Rightarrow> Alert \<Rightarrow> string \<Rightarrow> bool" where
  "intent_of i x kind \<longleftrightarrow> ni_alert i = al_id x \<and> ni_kind i = kind"

definition flap_ok :: "Alert table \<Rightarrow> Alert \<Rightarrow> time \<Rightarrow> bool" where
  "flap_ok T x now \<longleftrightarrow>
     (\<forall>a \<in> set T. \<forall>u. al_fingerprint a = al_fingerprint x \<longrightarrow> al_state a = AlertResolved \<longrightarrow> al_resolved a = Some u
        \<longrightarrow> al_started x < u + AlertFlapWindow \<longrightarrow> al_started x + AlertFlapFireDelay \<le> now)"

inductive row_step :: "Alert table \<Rightarrow> time \<Rightarrow> Severity option \<Rightarrow> Alert \<Rightarrow> Alert \<Rightarrow> NotificationIntent list \<Rightarrow> bool" where
  cleared: "row_step T now (Some s) x (x\<lparr>al_recovery := None, al_evaluated := now\<rparr>) []"
| followed: "al_state x = AlertPending \<Longrightarrow> ac_severity c = s \<Longrightarrow> row_step T now (Some s) x (reseverity c now x) []"
| escalated: "al_state x = AlertFiring \<Longrightarrow> al_severity x = SeverityWarning \<Longrightarrow> ac_severity c = SeverityCritical \<Longrightarrow>
    intent_of i x ''escalated'' \<Longrightarrow> ni_severity i = SeverityCritical \<Longrightarrow> row_step T now (Some SeverityCritical) x (reseverity c now x) [i]"
| touched: "row_step T now (Some s) x (x\<lparr>al_summary := m, al_reason := q, al_evaluated := now\<rparr>) []"
| fires: "al_state x = AlertPending \<Longrightarrow> al_severity x = s \<Longrightarrow> al_started x + fire_delay s \<le> now \<Longrightarrow> flap_ok T x now \<Longrightarrow>
    intent_of i x ''firing'' \<Longrightarrow> ni_severity i = s \<Longrightarrow> row_step T now (Some s) x (fired c now x) [i]"
| starts: "al_state x = AlertFiring \<Longrightarrow>
    row_step T now None x (x\<lparr>al_recovery := Some (case al_recovery x of None \<Rightarrow> now | Some t \<Rightarrow> t), al_evaluated := now\<rparr>) []"
| closes: "al_state x = AlertPending \<Longrightarrow> row_step T now None x (resolved now x) []"
| recovers: "al_state x = AlertFiring \<Longrightarrow> al_recovery x = Some t \<Longrightarrow> t + AlertRecoveryDelay \<le> now \<Longrightarrow>
    intent_of i x ''resolved'' \<Longrightarrow> row_step T now None x (resolved now x) [i]"

inductive_cases row_step_cases: "row_step T now sev x y is"

definition stepped :: "Alert \<Rightarrow> Alert \<Rightarrow> NotificationIntent list \<Rightarrow> obs_db \<Rightarrow> obs_db \<Rightarrow> bool" where
  "stepped x y is db db' \<longleftrightarrow>
     x \<in> set (o_alerts db) \<and> alert_ok y \<and> o_alerts db' = update_where (\<lambda>a. a = x) (\<lambda>_. y) (o_alerts db)
     \<and> o_intents db' = o_intents db @ is \<and> recorded db'"

lemma written_stepped:
  assumes w: "written P f ts is db db'" and d: "distinct (map al_id (o_alerts db))" "recorded db"
    and x: "x \<in> set (o_alerts db)" "P x" and P: "\<And>a. P a \<Longrightarrow> al_id a = al_id x"
  shows "stepped x (f x) is db db'"
proof -
  have "P a \<longleftrightarrow> a = x" if "a \<in> set (o_alerts db)" for a
    using P x distinct_key_eq [OF d(1) that x(1)] by blast
  then have "update_where P f (o_alerts db) = update_where (\<lambda>a. a = x) (\<lambda>_. f x) (o_alerts db)"
    by (auto simp: update_where_def)
  moreover have "recorded db'" using w d(2) by (auto simp: written_def recorded_def)
  ultimately show ?thesis using w x by (simp add: written_def stepped_def)
qed

inductive alert_step :: "time \<Rightarrow> Severity option \<Rightarrow> string \<Rightarrow> obs_db \<Rightarrow> obs_db \<Rightarrow> bool" where
  created: "\<not> (\<exists>a \<in> set (o_alerts db). al_fingerprint a = ac_fingerprint c \<and> AlertState_Active (al_state a)) \<Longrightarrow>
    \<not> (\<exists>a \<in> set (o_alerts db). al_id a = u) \<Longrightarrow> alert_ok (pending_alert u c now) \<Longrightarrow>
    o_alerts db' = o_alerts db @ [pending_alert u c now] \<Longrightarrow> o_intents db' = o_intents db \<Longrightarrow> recorded db' \<Longrightarrow>
    alert_step now (Some (ac_severity c)) (ac_fingerprint c) db db'"
| moved: "row_step (o_alerts db) now sev x y is \<Longrightarrow> al_fingerprint x = fp \<Longrightarrow> AlertState_Active (al_state x) \<Longrightarrow> stepped x y is db db' \<Longrightarrow>
    alert_step now sev fp db db'"

definition active_of :: "string \<Rightarrow> Alert \<Rightarrow> bool" where
  "active_of fp a \<longleftrightarrow> al_fingerprint a = fp \<and> AlertState_Active (al_state a)"

definition alerts_wf :: "obs_db \<Rightarrow> bool" where
  "alerts_wf db \<longleftrightarrow>
     distinct (map al_id (o_alerts db)) \<and> recorded db
     \<and> (\<forall>a \<in> set (o_alerts db). \<forall>b \<in> set (o_alerts db). active_of (al_fingerprint a) b \<longrightarrow> active_of (al_fingerprint b) a \<longrightarrow> a = b)"

lemma pending_alert_simps [simp]:
  "al_id (pending_alert u c now) = u" "al_fingerprint (pending_alert u c now) = ac_fingerprint c"
  "al_state (pending_alert u c now) = AlertPending" "al_started (pending_alert u c now) = now"
  "al_firing (pending_alert u c now) = None" "al_recovery (pending_alert u c now) = None"
  by (simp_all add: pending_alert_def)

lemma row_step_keeps:
  assumes "row_step T now sev x y is"
  shows "al_id y = al_id x" "al_fingerprint y = al_fingerprint x" "al_started y = al_started x"
  using assms by (cases; simp add: reseverity_def fired_def resolved_def)+

lemma stepped_rows:
  assumes "stepped x y is db db'"
  shows "y \<in> set (o_alerts db')" "a \<in> set (o_alerts db') \<Longrightarrow> a = y \<or> a \<in> set (o_alerts db) \<and> a \<noteq> x"
  using assms by (auto simp: stepped_def update_where_def)

lemma stepped_wf:
  assumes s: "stepped x y is db db'" and y: "al_id y = al_id x" "al_fingerprint y = al_fingerprint x"
    and x: "AlertState_Active (al_state x)" and wf: "alerts_wf db"
  shows "alerts_wf db'"
proof -
  have "map al_id (update_where (\<lambda>a. a = x) (\<lambda>_. y) (o_alerts db)) = map al_id (o_alerts db)"
    using y(1) by (simp add: update_where_def)
  moreover have "a = b" if a: "a \<in> set (o_alerts db')" and b: "b \<in> set (o_alerts db')"
    and ab: "active_of (al_fingerprint a) b" "active_of (al_fingerprint b) a" for a b
  proof -
    have x': "x \<in> set (o_alerts db)" using s by (simp add: stepped_def)
    have other: "False" if "d \<in> set (o_alerts db)" "d \<noteq> x" "active_of (al_fingerprint y) d" for d
      using wf that x x' y(2) by (auto simp: alerts_wf_def active_of_def)
    have old: "a = b" if "a \<in> set (o_alerts db)" "b \<in> set (o_alerts db)"
      using wf that ab by (auto simp: alerts_wf_def)
    from stepped_rows(2) [OF s a] stepped_rows(2) [OF s b] show ?thesis
    proof (elim disjE conjE)
      assume "a = y" "b \<in> set (o_alerts db)" "b \<noteq> x"
      then show ?thesis using other [of b] ab by simp
    next
      assume "b = y" "a \<in> set (o_alerts db)" "a \<noteq> x"
      then show ?thesis using other [of a] ab by simp
    qed (simp_all add: old)
  qed
  ultimately show ?thesis using s wf by (auto simp: stepped_def alerts_wf_def)
qed

lemma alert_step_wf: "alert_step now sev fp db db' \<Longrightarrow> alerts_wf db \<Longrightarrow> alerts_wf db'"
proof (induction rule: alert_step.cases)
  case (created db c u now db')
  then show ?case by (auto simp: alerts_wf_def active_of_def)
next
  case (moved db now sev x y "is" fp db')
  then show ?case using stepped_wf row_step_keeps(1,2) by blast
qed

lemma alert_steps_wf: "(alert_step now sev fp)\<^sup>*\<^sup>* db db' \<Longrightarrow> alerts_wf db \<Longrightarrow> alerts_wf db'"
  by (induction rule: rtranclp_induct) (auto intro: alert_step_wf)

section \<open>Steps of an evaluation\<close>

text \<open>The alert the engine holds is its row up to the time of evaluation.\<close>

definition view :: "Alert \<Rightarrow> Alert \<Rightarrow> bool" where
  "view h x \<longleftrightarrow> (\<exists>t. h = x\<lparr>al_evaluated := t\<rparr>)"

lemma view_fields:
  assumes "view h x"
  shows "al_id h = al_id x" "al_fingerprint h = al_fingerprint x" "al_severity h = al_severity x" "al_state h = al_state x"
    "al_started h = al_started x" "al_recovery h = al_recovery x" "al_rule h = al_rule x" "al_firing h = al_firing x"
  using assms by (auto simp: view_def)

definition held :: "string \<Rightarrow> Alert \<Rightarrow> obs_db \<Rightarrow> bool" where
  "held fp h db \<longleftrightarrow> (\<exists>x \<in> set (o_alerts db). view h x \<and> active_of fp x)"

lemma view_clear: "view h x \<Longrightarrow> view (h\<lparr>al_recovery := None\<rparr>) (x\<lparr>al_recovery := None, al_evaluated := now\<rparr>)"
  by (cases x) (auto simp: view_def)

lemma view_follow:
  "view h x \<Longrightarrow> al_recovery h = None \<Longrightarrow>
   view (h\<lparr>al_severity := ac_severity c, al_summary := ac_summary c, al_reason := ac_reason c\<rparr>) (reseverity c now x)"
  by (cases x) (auto simp: view_def reseverity_def)

lemma stepped_held: "stepped x y is db db' \<Longrightarrow> view v y \<Longrightarrow> active_of fp y \<Longrightarrow> held fp v db'"
  using stepped_rows(1) by (auto simp: held_def)

definition settled :: "Severity option \<Rightarrow> string \<Rightarrow> obs_db \<Rightarrow> bool" where
  "settled sev fp db \<longleftrightarrow>
     (\<forall>a \<in> set (o_alerts db). active_of fp a \<longrightarrow>
        (case sev of Some _ \<Rightarrow> al_recovery a = None | None \<Rightarrow> al_state a = AlertFiring \<and> al_recovery a \<noteq> None))"

lemma row_settled:
  assumes s: "stepped x y is db db'" and wf: "alerts_wf db" and x: "active_of fp x"
    and y: "active_of fp y \<Longrightarrow> (case sev of Some _ \<Rightarrow> al_recovery y = None | None \<Rightarrow> al_state y = AlertFiring \<and> al_recovery y \<noteq> None)"
  shows "settled sev fp db'"
proof -
  have "a = y" if "a \<in> set (o_alerts db')" "active_of fp a" for a
    using stepped_rows(2) [OF s that(1)] s x that wf by (auto simp: stepped_def alerts_wf_def active_of_def)
  then show ?thesis using y by (auto simp: settled_def)
qed

lemma stepped_one:
  assumes "row_step (o_alerts db) now sev x y is" "stepped x y is db db'" "active_of fp x"
  shows "(alert_step now sev fp)\<^sup>*\<^sup>* db db'"
  using assms by (intro r_into_rtranclp moved [where x = x]) (auto simp: active_of_def)

lemma clear_run:
  assumes wf: "alerts_wf db" and h: "held fp h db" and run: "clear_recovery E h now db = (r, db')"
  shows "(alert_step now (Some s) fp)\<^sup>*\<^sup>* db db' \<and> (\<forall>v. r = Inr v \<longrightarrow> held fp v db' \<and> al_recovery v = None)"
proof (cases "al_recovery h = None")
  case True
  then show ?thesis using run h by (auto simp: clear_recovery_def ok_def)
next
  case False
  obtain x where x: "x \<in> set (o_alerts db)" "view h x" "active_of fp x" using h by (auto simp: held_def)
  obtain r1 where c: "ClearRecovery E (al_id h) now db = (r1, db')" and r: "\<And>v. r = Inr v \<Longrightarrow> v = h\<lparr>al_recovery := None\<rparr> \<and> r1 = Inr ()"
    using run False by (auto simp: clear_recovery_def andThen_def ok_def split: prod.splits sum.splits)
  from c show ?thesis unfolding ClearRecovery_def
  proof (cases rule: update_run)
    case (lost e)
    then show ?thesis using r by auto
  next
    case hit
    let ?y = "x\<lparr>al_recovery := None, al_evaluated := now\<rparr>"
    have st: "stepped x ?y [] db db'"
      by (rule written_stepped [OF hit _ _ x(1)]) (use wf x view_fields [OF x(2)] in \<open>auto simp: alerts_wf_def active_alert_def active_of_def\<close>)
    have "held fp (h\<lparr>al_recovery := None\<rparr>) db'"
      using stepped_held [OF st view_clear [OF x(2)]] x(3) by (simp add: active_of_def)
    then show ?thesis using stepped_one [OF cleared st x(3)] r by auto
  qed
qed


lemma active_of_alert: "view h x \<Longrightarrow> active_of fp x \<Longrightarrow> active_alert (al_id h) x"
  by (simp add: active_alert_def active_of_def view_fields)

lemma wf_stepped:
  assumes "written P f ts is db db'" "alerts_wf db" "x \<in> set (o_alerts db)" "P x" "view h x" "\<And>a. P a \<Longrightarrow> al_id a = al_id h"
  shows "stepped x (f x) is db db'"
  using written_stepped [OF assms(1) _ _ assms(3,4)] assms(2,5,6) by (simp add: alerts_wf_def view_fields)

lemma follow_run:
  assumes wf: "alerts_wf db" and h: "held fp h db" "al_recovery h = None" and run: "follow_severity E h c now db = (r, db')"
  shows "(alert_step now (Some (ac_severity c)) fp)\<^sup>*\<^sup>* db db'
     \<and> (\<forall>v. r = Inr v \<longrightarrow> held fp v db' \<and> al_recovery v = None \<and> (al_state v = AlertPending \<longrightarrow> al_severity v = ac_severity c))"
proof (cases "severity_changed h c")
  case False
  then show ?thesis using run h by (auto simp: follow_severity_def ok_def severity_changed_def)
next
  case True
  obtain x where x: "x \<in> set (o_alerts db)" "view h x" "active_of fp x" using h by (auto simp: held_def)
  let ?v = "h\<lparr>al_severity := ac_severity c, al_summary := ac_summary c, al_reason := ac_reason c\<rparr>"
  let ?y = "reseverity c now x"
  have y: "active_of fp ?y" using x(3) by (simp add: active_of_def reseverity_def)
  have P: "active_alert (al_id h) x \<and> al_severity x \<noteq> ac_severity c"
    using active_of_alert [OF x(2,3)] True view_fields [OF x(2)] by (auto simp: severity_changed_def)
  obtain r1 where c: "ChangeSeverity E h c now db = (r1, db')" and r: "\<And>v. r = Inr v \<Longrightarrow> v = ?v \<and> r1 = Inr ()"
    using run True by (auto simp: follow_severity_def andThen_def ok_def split: prod.splits sum.splits)
  have rec: "recorded db" using wf by (simp add: alerts_wf_def)
  have done_step: ?thesis if "stepped x ?y is db db'" "row_step (o_alerts db) now (Some (ac_severity c)) x ?y is" for "is"
  proof (intro conjI allI impI)
    show "(alert_step now (Some (ac_severity c)) fp)\<^sup>*\<^sup>* db db'" by (rule stepped_one [OF that(2,1) x(3)])
    fix v assume "r = Inr v"
    then have v: "v = ?v" using r by blast
    show "held fp v db'" unfolding v by (rule stepped_held [OF that(1) view_follow [OF x(2) h(2)] y])
    show "al_recovery v = None" "al_severity v = ac_severity c" using v h(2) by simp_all
  qed
  show ?thesis
  proof (cases "al_state h = AlertFiring")
    case True
    then have esc: "severityRank (al_severity h) < severityRank (ac_severity c)" "al_state x = AlertFiring"
      "al_severity x = SeverityWarning" "ac_severity c = SeverityCritical"
      using \<open>severity_changed h c\<close> view_fields [OF x(2)]
      by (auto simp: severity_changed_def severityRank_def split: Severity.splits)
    from c [unfolded ChangeSeverity_incident] True esc(1) have
      "committed (oe_fate E ''ChangeSeverity'' (al_id h))
        (incident (\<lambda>a. active_alert (al_id h) a \<and> al_severity a \<noteq> ac_severity c) (reseverity c now)
          (insert_transition E (al_id h) (Some (al_state h)) (al_state h) (Some (al_severity h)) (ac_severity c) (ac_reason c) now)
          (\<lambda>t. insertNotificationIntent E (al_id h) t ''escalated'' (ac_severity c) (ac_rule c) (ac_resource c) (ac_reason c) (ac_summary c)))
        db = (r1, db')" by simp
    then show ?thesis using rec appends_intent
    proof (cases rule: incident_run)
      case (lost e)
      then show ?thesis using r by auto
    next
      case missed
      then show ?thesis using P x(1) by blast
    next
      case (hit z t "is")
      then obtain v where i: "is = [new_intent E v (al_id h) (at_id t) ''escalated'' (ac_severity c) (ac_rule c) (ac_resource c)
          (ac_reason c) (ac_summary c)]" by blast
      have st: "stepped x ?y is db db'"
        by (rule wf_stepped [OF hit(3) wf x(1) P x(2)]) (simp add: active_alert_def)
      show ?thesis using esc view_fields(1) [OF x(2)]
        by (intro done_step [OF st]) (auto simp: i intent_of_def new_intent_def intro!: escalated)
    qed
  next
    case False
    then have pend: "al_state x = AlertPending" using x(3) view_fields [OF x(2)] by (auto simp: active_of_def AlertState_Active_def)
    from c [unfolded ChangeSeverity_incident] False have
      "committed (oe_fate E ''ChangeSeverity'' (al_id h))
        (incident (\<lambda>a. active_alert (al_id h) a \<and> al_severity a \<noteq> ac_severity c) (reseverity c now)
          (insert_transition E (al_id h) (Some (al_state h)) (al_state h) (Some (al_severity h)) (ac_severity c) (ac_reason c) now)
          (\<lambda>t. ok ())) db = (r1, db')" by simp
    then show ?thesis using rec appends_ok
    proof (cases rule: incident_run)
      case (lost e)
      then show ?thesis using r by auto
    next
      case missed
      then show ?thesis using P x(1) by blast
    next
      case (hit z t "is")
      have st: "stepped x ?y is db db'"
        by (rule wf_stepped [OF hit(3) wf x(1) P x(2)]) (simp add: active_alert_def)
      show ?thesis using hit(5) pend by (intro done_step [OF st]) (auto intro: followed)
    qed
  qed
qed


lemma touch_run:
  assumes wf: "alerts_wf db" and h: "held fp h db" "al_recovery h = None" and run: "touch_active E h c now db = (r, db')"
  shows "(alert_step now (Some s) fp)\<^sup>*\<^sup>* db db' \<and> (r = Inr () \<longrightarrow> settled (Some s) fp db')"
proof -
  obtain x where x: "x \<in> set (o_alerts db)" "view h x" "active_of fp x" using h by (auto simp: held_def)
  obtain m q where "Touch E (al_id h) m q now db = (r, db')" using run by (auto simp: touch_active_def split: if_splits)
  then show ?thesis unfolding Touch_def
  proof (cases rule: update_run)
    case (lost e)
    then show ?thesis by simp
  next
    case hit
    have st: "stepped x (x\<lparr>al_summary := m, al_reason := q, al_evaluated := now\<rparr>) [] db db'"
      by (rule wf_stepped [OF hit wf x(1) active_of_alert [OF x(2,3)] x(2)]) (simp add: active_alert_def)
    show ?thesis using stepped_one [OF touched st x(3)] row_settled [OF st wf x(3), of "Some s"] h(2) view_fields(6) [OF x(2)] by simp
  qed
qed

lemma set_map_filter: "set (List.map_filter f xs) = {y. \<exists>x \<in> set xs. f x = Some y}"
  by (force simp: List.map_filter_def)

lemma flap_due:
  assumes p: "LastResolvedAt (al_fingerprint x) db = (Inr previous, db)"
    and due: "al_started x + effectiveFireDelay (fire_delay s) (al_started x) previous \<le> now"
  shows "al_started x + fire_delay s \<le> now \<and> flap_ok (o_alerts db) x now"
proof -
  define us where "us = List.map_filter al_resolved (select (\<lambda>a. al_fingerprint a = al_fingerprint x \<and> al_state a = AlertResolved) (o_alerts db))"
  have previous: "previous = (if us = [] then None else Some (Max (set us)))"
    using p unfolding LastResolvedAt_def look_Inr us_def Let_def by (rule conjunct1)
  have short: "fire_delay s < AlertFlapFireDelay"
    by (cases s) (simp_all add: fire_delay_def AlertCriticalFireDelay_def AlertWarningFireDelay_def AlertFlapFireDelay_def seconds_def minutes_def)
  have "al_started x + AlertFlapFireDelay \<le> now"
    if "a \<in> set (o_alerts db)" "al_fingerprint a = al_fingerprint x" "al_state a = AlertResolved" "al_resolved a = Some u"
      "al_started x < u + AlertFlapWindow" for a u
  proof -
    have u: "u \<in> set us" using that by (auto simp: us_def set_map_filter select_def)
    then have "u \<le> Max (set us)" "previous = Some (Max (set us))" using previous by auto
    then show ?thesis using due that(5) short by (simp add: effectiveFireDelay_def)
  qed
  then show ?thesis using due short
    by (auto simp: flap_ok_def effectiveFireDelay_def split: option.splits if_splits)
qed

lemma fire_run:
  assumes wf: "alerts_wf db" and h: "held fp h db" "al_recovery h = None" "al_state h = AlertPending \<longrightarrow> al_severity h = ac_severity c"
    and delay: "ac_fire_after c = fire_delay (ac_severity c)" and run: "fire_or_touch E h c now db = (r, db')"
  shows "(alert_step now (Some (ac_severity c)) fp)\<^sup>*\<^sup>* db db' \<and> (r = Inr () \<longrightarrow> settled (Some (ac_severity c)) fp db')"
proof (cases "al_state h = AlertPending")
  case False
  then show ?thesis using run touch_run [OF wf h(1,2)] by (simp add: fire_or_touch_def)
next
  case True
  obtain x where x: "x \<in> set (o_alerts db)" "view h x" "active_of fp x" using h by (auto simp: held_def)
  obtain previous where p: "LastResolvedAt (al_fingerprint x) db = (Inr previous, db)" by (auto simp: LastResolvedAt_def look_def)
  show ?thesis
  proof (cases "al_started h + effectiveFireDelay (ac_fire_after c) (al_started h) previous \<le> now")
    case False
    then have "touch_active E h c now db = (r, db')"
      using run True p view_fields(2) [OF x(2)] by (simp add: fire_or_touch_def andThen_def)
    then show ?thesis by (rule touch_run [OF wf h(1,2)])
  next
    case due: True
    then have c: "FireIfPending E h c now db = (r, db')"
      using run True p view_fields(2) [OF x(2)] by (simp add: fire_or_touch_def andThen_def)
    have f: "al_started x + fire_delay (ac_severity c) \<le> now \<and> flap_ok (o_alerts db) x now"
      using flap_due [OF p] due delay view_fields(5) [OF x(2)] by simp
    have P: "al_id x = al_id h \<and> al_state x = AlertPending" using True view_fields [OF x(2)] by simp
    have rec: "recorded db" using wf by (simp add: alerts_wf_def)
    from c [unfolded FireIfPending_incident] rec appends_intent show ?thesis
    proof (cases rule: incident_run)
      case (lost e)
      then show ?thesis by simp
    next
      case missed
      then show ?thesis using P x(1) by blast
    next
      case (hit z t "is")
      then obtain v where i: "is = [new_intent E v (al_id h) (at_id t) ''firing'' (al_severity h) (ac_rule c) (ac_resource c)
          (ac_reason c) (ac_summary c)]" by blast
      have st: "stepped x (fired c now x) is db db'"
        by (rule wf_stepped [OF hit(3) wf x(1) P x(2)]) simp
      have "row_step (o_alerts db) now (Some (ac_severity c)) x (fired c now x) is"
        unfolding i using P f h(3) True view_fields [OF x(2)]
        by (intro fires) (auto simp: intent_of_def new_intent_def)
      then show ?thesis using stepped_one [OF _ st x(3)] row_settled [OF st wf x(3), of "Some (ac_severity c)"] by (simp add: fired_def)
    qed
  qed
qed

lemma resolve_run:
  assumes wf: "alerts_wf db" and x: "x \<in> set (o_alerts db)" "active_of fp x"
    and ok_time: "al_state x = AlertFiring \<longrightarrow> (\<exists>t. al_recovery x = Some t \<and> t + AlertRecoveryDelay \<le> now)"
    and run: "ResolveIfActive E x now db = (r, db')"
  shows "(alert_step now None fp)\<^sup>*\<^sup>* db db' \<and> (r = Inr () \<longrightarrow> settled None fp db')"
proof -
  have v: "view x x" by (auto simp: view_def intro: exI [where x = "al_evaluated x"])
  have rec: "recorded db" using wf by (simp add: alerts_wf_def)
  have P: "active_alert (al_id x) x" using active_of_alert [OF v x(2)] .
  have done_step: ?thesis if "stepped x (resolved now x) is db db'" "row_step (o_alerts db) now None x (resolved now x) is" for "is"
    using stepped_one [OF that(2,1) x(2)] row_settled [OF that(1) wf x(2), of None]
    by (simp add: resolved_def active_of_def AlertState_Active_def)
  show ?thesis
  proof (cases "al_state x = AlertFiring")
    case True
    from run [unfolded ResolveIfActive_incident] True have
      "committed (oe_fate E ''ResolveIfActive'' (al_id x))
        (incident (active_alert (al_id x)) (resolved now)
          (insert_transition E (al_id x) (Some (al_state x)) AlertResolved (Some (al_severity x)) (al_severity x) ''health_recovered'' now)
          (\<lambda>t. insertNotificationIntent E (al_id x) t ''resolved'' (al_severity x) (al_rule x) (al_resource x) (al_reason x) (al_summary x)))
        db = (r, db')" by simp
    then show ?thesis using rec appends_intent
    proof (cases rule: incident_run)
      case (lost e)
      then show ?thesis by simp
    next
      case missed
      then show ?thesis using P x(1) by blast
    next
      case (hit z t "is")
      have st: "stepped x (resolved now x) is db db'"
        by (rule wf_stepped [OF hit(3) wf x(1) P v]) (simp add: active_alert_def)
      obtain u where u: "al_recovery x = Some u" "u + AlertRecoveryDelay \<le> now" using ok_time True by blast
      from hit(5) obtain i where "is = [i]" "intent_of i x ''resolved''" by (auto simp: intent_of_def new_intent_def)
      then show ?thesis using done_step [OF st] recovers [OF True u] by simp
    qed
  next
    case False
    then have pend: "al_state x = AlertPending" using x(2) by (auto simp: active_of_def AlertState_Active_def)
    from run [unfolded ResolveIfActive_incident] False have
      "committed (oe_fate E ''ResolveIfActive'' (al_id x))
        (incident (active_alert (al_id x)) (resolved now)
          (insert_transition E (al_id x) (Some (al_state x)) AlertResolved (Some (al_severity x)) (al_severity x) ''health_recovered'' now)
          (\<lambda>t. ok ())) db = (r, db')" by simp
    then show ?thesis using rec appends_ok
    proof (cases rule: incident_run)
      case (lost e)
      then show ?thesis by simp
    next
      case missed
      then show ?thesis using P x(1) by blast
    next
      case (hit z t "is")
      have st: "stepped x (resolved now x) is db db'"
        by (rule wf_stepped [OF hit(3) wf x(1) P v]) (simp add: active_alert_def)
      show ?thesis using hit(5) done_step [OF st] closes [OF pend] by simp
    qed
  qed
qed

lemma start_run:
  assumes wf: "alerts_wf db" and x: "x \<in> set (o_alerts db)" "active_of fp x" "al_state x = AlertFiring"
    and run: "StartRecovery E (al_id x) now db = (r, db')"
  shows "(alert_step now None fp)\<^sup>*\<^sup>* db db' \<and> (r = Inr () \<longrightarrow> settled None fp db')"
  using run unfolding StartRecovery_def
proof (cases rule: update_run)
  case (lost e)
  then show ?thesis by simp
next
  case hit
  have v: "view x x" by (auto simp: view_def intro: exI [where x = "al_evaluated x"])
  have st: "stepped x (x\<lparr>al_recovery := Some (case al_recovery x of None \<Rightarrow> now | Some t \<Rightarrow> t), al_evaluated := now\<rparr>) [] db db'"
    by (rule wf_stepped [OF hit wf x(1) active_of_alert [OF v x(2)] v]) (simp add: active_alert_def)
  show ?thesis using stepped_one [OF starts [OF x(3)] st x(2)] row_settled [OF st wf x(2), of None] x(3) by simp
qed

lemma recover_run:
  assumes wf: "alerts_wf db" and a: "\<forall>x \<in> set_option active. x \<in> set (o_alerts db) \<and> active_of fp x"
    "active = None \<longrightarrow> \<not> (\<exists>x \<in> set (o_alerts db). active_of fp x)"
    and run: "recoverIfNeeded E active now db = (r, db')"
  shows "(alert_step now None fp)\<^sup>*\<^sup>* db db' \<and> (r = Inr () \<longrightarrow> settled None fp db')"
proof (cases active)
  case None
  then show ?thesis using run a(2) by (auto simp: recoverIfNeeded_def ok_def settled_def)
next
  case (Some x)
  then have x: "x \<in> set (o_alerts db)" "active_of fp x" using a(1) by auto
  show ?thesis
  proof (cases "al_state x = AlertPending")
    case True
    then have "ResolveIfActive E x now db = (r, db')" using run Some by (simp add: recoverIfNeeded_def)
    then show ?thesis using resolve_run [OF wf x] True by simp
  next
    case False
    then have fire: "al_state x = AlertFiring" using x(2) by (auto simp: active_of_def AlertState_Active_def)
    show ?thesis
    proof (cases "\<exists>t. al_recovery x = Some t \<and> t + AlertRecoveryDelay \<le> now")
      case True
      then have "ResolveIfActive E x now db = (r, db')" using run Some False by (auto simp: recoverIfNeeded_def)
      then show ?thesis using True by (intro resolve_run [OF wf x]) simp_all
    next
      case no: False
      then have "StartRecovery E (al_id x) now db = (r, db')"
        using run Some False by (auto simp: recoverIfNeeded_def split: option.splits)
      then show ?thesis using start_run [OF wf x fire] by simp
    qed
  qed
qed


lemma condition_fields:
  assumes "EvaluateAlertCondition h now = Some c"
  shows "ac_fingerprint c = alertFingerprint (hc_key h) (hc_resource h)" "ac_fire_after c = fire_delay (ac_severity c)"
  using assms
  by (auto simp: EvaluateAlertCondition_def severity_of_def fire_delay_def Let_def split: if_splits option.splits HealthState.splits)

definition severity_seen :: "HealthCheck \<Rightarrow> time \<Rightarrow> Severity option" where
  "severity_seen h now = map_option ac_severity (EvaluateAlertCondition h now)"

definition fingerprint_of :: "HealthCheck \<Rightarrow> string" where
  "fingerprint_of h = alertFingerprint (hc_key h) (hc_resource h)"

lemma create_run:
  assumes wf: "alerts_wf db" and none: "\<not> (\<exists>x \<in> set (o_alerts db). active_of (ac_fingerprint c) x)"
    and run: "CreatePending E c now db = (r, db')"
  shows "(alert_step now (Some (ac_severity c)) (ac_fingerprint c))\<^sup>*\<^sup>* db db' \<and> settled (Some (ac_severity c)) (ac_fingerprint c) db'"
  using run unfolding CreatePending_def
proof (cases rule: committed_cases)
  case (lost e)
  then show ?thesis using none by (auto simp: settled_def)
next
  case (written y)
  have no: "\<not> (\<exists>a \<in> set (o_alerts db). al_fingerprint a = ac_fingerprint c \<and> AlertState_Active (al_state a))"
    using none by (auto simp: active_of_def)
  obtain u v s2 where u: "\<not> (\<exists>a \<in> set (o_alerts db). al_id a = u)" "alert_ok (pending_alert u c now)"
    and t: "insert_transition E u None AlertPending None (ac_severity c) (ac_reason c) now
      (db\<lparr>o_seq := Suc (o_seq db), o_alerts := o_alerts db @ [pending_alert u c now]\<rparr>) = (Inr v, db')"
    using written(1) no by (auto simp: effect_defs fresh_id_Inr)
  from insert_transition_Inr [OF t] have db': "o_alerts db' = o_alerts db @ [pending_alert u c now]" "o_intents db' = o_intents db" "recorded db'"
    using wf by (auto simp: alerts_wf_def recorded_def)
  have "alert_step now (Some (ac_severity c)) (ac_fingerprint c) db db'" by (rule created [OF no u db'])
  moreover have "settled (Some (ac_severity c)) (ac_fingerprint c) db'" using none by (auto simp: settled_def db')
  ultimately show ?thesis by auto
qed

lemma active_run:
  assumes wf: "alerts_wf db" and x: "x \<in> set (o_alerts db)" "active_of fp x" and c: "ac_fire_after c = fire_delay (ac_severity c)"
    and run: "andThen (clear_recovery E x now) (\<lambda>a. andThen (follow_severity E a c now) (\<lambda>a. fire_or_touch E a c now)) db = (r, db')"
  shows "(alert_step now (Some (ac_severity c)) fp)\<^sup>*\<^sup>* db db' \<and> (r = Inr () \<longrightarrow> settled (Some (ac_severity c)) fp db')"
proof -
  let ?s = "Some (ac_severity c)"
  have "view x x" by (auto simp: view_def intro: exI [where x = "al_evaluated x"])
  then have "held fp x db" using x by (auto simp: held_def)
  obtain r1 db1 where r1: "clear_recovery E x now db = (r1, db1)" by fastforce
  note one = clear_run [OF wf \<open>held fp x db\<close> r1, of "ac_severity c"]
  show ?thesis
  proof (cases r1)
    case (Inl e)
    then show ?thesis using one run r1 by (auto simp: andThen_def)
  next
    case (Inr h)
    have wf1: "alerts_wf db1" using alert_steps_wf one wf by blast
    have h: "held fp h db1" "al_recovery h = None" using one Inr by auto
    obtain r2 db2 where r2: "follow_severity E h c now db1 = (r2, db2)" by fastforce
    note two = follow_run [OF wf1 h r2]
    have to2: "(alert_step now ?s fp)\<^sup>*\<^sup>* db db2" using one two by (meson rtranclp_trans)
    show ?thesis
    proof (cases r2)
      case (Inl e)
      then have "r = Inl e \<and> db' = db2" using run r1 r2 Inr by (simp add: andThen_def)
      then show ?thesis using to2 by simp
    next
      case Inr2: (Inr g)
      have wf2: "alerts_wf db2" using alert_steps_wf two wf1 by blast
      have "fire_or_touch E g c now db2 = (r, db')" using run r1 r2 Inr Inr2 by (simp add: andThen_def)
      then have "(alert_step now ?s fp)\<^sup>*\<^sup>* db2 db' \<and> (r = Inr () \<longrightarrow> settled ?s fp db')"
        using two Inr2 by (intro fire_run [OF wf2 _ _ _ c]) auto
      then show ?thesis using to2 by (meson rtranclp_trans)
    qed
  qed
qed

lemma evaluateCheck_run:
  assumes wf: "alerts_wf db" and run: "evaluateCheck E h now db = (r, db')"
  shows "(alert_step now (severity_seen h now) (fingerprint_of h))\<^sup>*\<^sup>* db db'
     \<and> (r = Inr () \<longrightarrow> settled (severity_seen h now) (fingerprint_of h) db')"
proof -
  let ?fp = "fingerprint_of h"
  define active where "active = find (\<lambda>a. al_fingerprint a = ?fp \<and> AlertState_Active (al_state a)) (o_alerts db)"
  have a: "\<forall>x \<in> set_option active. x \<in> set (o_alerts db) \<and> active_of ?fp x"
    "active = None \<longrightarrow> \<not> (\<exists>x \<in> set (o_alerts db). active_of ?fp x)"
    by (auto simp: active_def active_of_def find_None_iff dest: find_SomeD)
  have run': "(case EvaluateAlertCondition h now of
       None \<Rightarrow> recoverIfNeeded E active now
     | Some c \<Rightarrow>
         (case active of
            None \<Rightarrow> CreatePending E c now
          | Some a \<Rightarrow>
              andThen (clear_recovery E a now) (\<lambda>a. andThen (follow_severity E a c now) (\<lambda>a. fire_or_touch E a c now)))) db = (r, db')"
    using run unfolding active_def fingerprint_of_def by (simp add: evaluateCheck_def ActiveByFingerprint_def andThen_run look_def)
  show ?thesis
  proof (cases "EvaluateAlertCondition h now")
    case None
    then show ?thesis using run' recover_run [OF wf a] by (simp add: severity_seen_def)
  next
    case (Some c)
    then have c: "ac_fingerprint c = ?fp" "ac_fire_after c = fire_delay (ac_severity c)" "severity_seen h now = Some (ac_severity c)"
      using condition_fields by (simp_all add: fingerprint_of_def severity_seen_def)
    show ?thesis
    proof (cases active)
      case None
      then show ?thesis using run' Some create_run [OF wf, of c] a(2) c by simp
    next
      case act: (Some x)
      then have x: "x \<in> set (o_alerts db)" "active_of ?fp x" using a(1) by auto
      from run' Some act show ?thesis unfolding c(3) by (intro active_run [OF wf x c(2)]) simp
    qed
  qed
qed

end
