(* ===== verification/Delivery_Safety.thy ===== *)
theory Delivery_Safety
  imports Deliveries
begin

text \<open>
  What the delivery queue guarantees, over any sequence of requests, worker iterations, restarts and lost
  statements: a message whose sending may have succeeded is not sent again, attempts are bounded, and a
  request repeated under its key creates nothing.
\<close>

section \<open>Back-off\<close>

lemma delay_loop_power:
  assumes "0 < delay" "delay \<le> maximum"
  shows "delay_loop current attempt maximum delay = min maximum (delay * 2 ^ nat (attempt - current))"
  using assms
proof (induction current attempt maximum delay rule: delay_loop.induct)
  case (1 current attempt maximum delay)
  show ?case
  proof (cases "current < attempt \<and> delay < maximum")
    case False
    then consider "attempt \<le> current" | "delay = maximum" using 1(3) by linarith
    then show ?thesis
    proof cases
      case 1
      then show ?thesis using False \<open>delay \<le> maximum\<close> by (subst delay_loop.simps) simp
    next
      case 2
      have "maximum \<le> maximum * 2 ^ n" for n :: nat using 1(2) 2 by simp
      then show ?thesis using False 2 by (subst delay_loop.simps) (simp add: min_def)
    qed
  next
    case go: True
    then have step: "nat (attempt - current) = Suc (nat (attempt - (current + 1)))" by linarith
    show ?thesis
    proof (cases "maximum div 2 < delay")
      case True
      then have "maximum \<le> delay * 2" by linarith
      also have "delay * 2 \<le> delay * 2 * 2 ^ n" for n :: nat using 1(2) by simp
      finally show ?thesis using go True by (subst delay_loop.simps) (simp add: step min_def mult.assoc)
    next
      case False
      then have "delay * 2 \<le> maximum" by linarith
      then have "delay_loop (current + 1) attempt maximum (delay * 2) = min maximum (delay * 2 * 2 ^ nat (attempt - (current + 1)))"
        using 1(1) [OF go False] 1(2) by simp
      then show ?thesis using go False by (subst delay_loop.simps) (simp add: step mult.assoc)
    qed
  qed
qed

text \<open>C35. The back-off of the retries is exponential and capped: the loop ends and yields the base delay doubled once for
  every earlier attempt, at most the maximum; with the default policy between five seconds and five minutes.\<close>

theorem Delay_closed_form:
  "Delay p attempt =
     (let base = (if ry_base p \<le> 0 then seconds 5 else ry_base p); maximum = (if ry_max p \<le> 0 then minutes 5 else ry_max p)
      in min maximum (base * 2 ^ nat (attempt - 1)))
   \<and> seconds 5 \<le> Delay DefaultRetryPolicy attempt \<and> Delay DefaultRetryPolicy attempt \<le> minutes 5"
proof -
  have closed: "Delay q n = min maximum (base * 2 ^ nat (n - 1))"
    if "base = (if ry_base q \<le> 0 then seconds 5 else ry_base q)" "maximum = (if ry_max q \<le> 0 then minutes 5 else ry_max q)"
    for q base maximum n
  proof -
    have pos: "0 < base" "0 < maximum" using that by (auto simp: seconds_def minutes_def)
    have e: "nat ((if n < 1 then 1 else n) - 1) = nat (n - 1)" by simp
    show ?thesis
    proof (cases "base \<le> maximum")
      case True
      then show ?thesis unfolding Delay_def that [symmetric] Let_def delay_loop_power [OF pos(1) True] e by simp
    next
      case False
      then have "delay_loop 1 m maximum base = base" for m by (subst delay_loop.simps) simp
      moreover have "base \<le> base * 2 ^ nat (n - 1)" using pos by simp
      with False have "min maximum (base * 2 ^ nat (n - 1)) = maximum" by linarith
      ultimately show ?thesis using False unfolding Delay_def that [symmetric] Let_def by simp
    qed
  qed
  have "Delay DefaultRetryPolicy attempt = min (minutes 5) (seconds 5 * 2 ^ nat (attempt - 1))"
    by (rule closed) (simp_all add: DefaultRetryPolicy_def seconds_def minutes_def)
  moreover have "seconds 5 \<le> seconds 5 * 2 ^ nat (attempt - 1)" by (simp add: seconds_def)
  ultimately have "seconds 5 \<le> Delay DefaultRetryPolicy attempt" "Delay DefaultRetryPolicy attempt \<le> minutes 5"
    by (simp_all add: seconds_def minutes_def)
  then show ?thesis using closed [OF refl refl] by (simp add: Let_def)
qed

section \<open>Runs\<close>

datatype dlv_op = Op_create CreateInput | Op_process | Op_restart | Op_requeue string

definition dlv_exec :: "dlv_env \<times> dlv_op \<Rightarrow> dlv_db \<Rightarrow> dlv_db" where
  "dlv_exec ev db =
     (let E = fst ev in
      case snd ev of
        Op_create input \<Rightarrow> snd (Service_Create E input db)
      | Op_process \<Rightarrow> snd (ProcessNext E db)
      | Op_restart \<Rightarrow> snd (RecoverSendingAfterRestart E db)
      | Op_requeue i \<Rightarrow> snd (Requeue E i db))"

definition dlv_run :: "(dlv_env \<times> dlv_op) list \<Rightarrow> dlv_db \<Rightarrow> dlv_db" where
  "dlv_run evs db = fold dlv_exec evs db"

definition empty_queue :: dlv_db where
  "empty_queue = \<lparr>dv_rows = [], dv_sends = [], dv_seq = 0\<rparr>"

definition outcomes :: "string \<Rightarrow> dlv_db \<Rightarrow> Outcome list" where
  "outcomes i db = map (\<lambda>x. snd (snd x)) (filter (\<lambda>x. fst x = i) (dv_sends db))"

definition requeues :: "string \<Rightarrow> dlv_env \<times> dlv_op \<Rightarrow> bool" where
  "requeues i ev = (case snd ev of Op_requeue j \<Rightarrow> de_uuid (fst ev) j = Some i | _ \<Rightarrow> False)"

text \<open>What a row says of the attempts made for it.\<close>

definition honest :: "Delivery \<Rightarrow> Outcome list \<Rightarrow> bool" where
  "honest d outs \<longleftrightarrow>
     set (butlast outs) \<subseteq> {OutcomeRetryableFailure}
     \<and> (dl_status d \<in> {StatusQueued, StatusRetrying} \<longrightarrow> set outs \<subseteq> {OutcomeRetryableFailure})
     \<and> (dl_status d = StatusSent \<longrightarrow> outs \<noteq> [] \<and> last outs = OutcomeAccepted)
     \<and> (dl_status d = StatusDelivered \<longrightarrow> outs \<noteq> [] \<and> last outs = OutcomeDelivered)
     \<and> int (length outs) \<le> dl_attempts d \<and> dl_attempts d \<le> dl_max d \<and> dl_max d \<le> 20"

definition once :: "string \<Rightarrow> dlv_db \<Rightarrow> bool" where
  "once i db \<longleftrightarrow>
     distinct (map dl_id (dv_rows db)) \<and> fst ` set (dv_sends db) \<subseteq> dl_id ` set (dv_rows db)
     \<and> (\<forall>d \<in> set (dv_rows db). dl_id d = i \<longrightarrow> honest d (outcomes i db))"

lemma once_update:
  assumes o: "once i db" and id: "\<And>r. dl_id (f r) = dl_id r"
    and h: "\<And>r. r \<in> set (dv_rows db) \<Longrightarrow> P r \<Longrightarrow> dl_id r = i \<Longrightarrow> honest r (outcomes i db) \<Longrightarrow> honest (f r) (outcomes i db)"
  shows "once i (db\<lparr>dv_rows := update_where P f (dv_rows db)\<rparr>)"
proof -
  let ?rows = "update_where P f (dv_rows db)"
  have m: "map dl_id ?rows = map dl_id (dv_rows db)" using id by (simp add: map_update_where)
  then have "dl_id ` set ?rows = dl_id ` set (dv_rows db)" by (metis set_map)
  moreover have "honest r (outcomes i db)" if "r \<in> set ?rows" "dl_id r = i" for r
    using that o h id by (auto simp: update_where_def once_def)
  ultimately show ?thesis using o m by (simp add: once_def outcomes_def)
qed

lemma update_delivery_once:
  assumes "once i db" "\<And>r. dl_id (f r) = dl_id r"
    and "\<And>r. r \<in> set (dv_rows db) \<Longrightarrow> dl_id r = i \<Longrightarrow> k = i \<Longrightarrow> dl_status r \<in> S \<Longrightarrow> honest r (outcomes i db) \<Longrightarrow> honest (f r) (outcomes i db)"
  shows "once i (snd (update_delivery E k S f db))"
  using assms(1) once_update [OF assms(1,2), of "\<lambda>r. dl_id r = k \<and> dl_status r \<in> S"] assms(3)
  by (auto simp: update_delivery_def effect_run split: option.splits)

section \<open>Creation\<close>

definition uuid_or_null :: "dlv_env \<Rightarrow> string \<Rightarrow> string \<Rightarrow> bool" where
  "uuid_or_null E x y \<longleftrightarrow> (if x = [] then y = [] else de_uuid E x = Some y)"

lemma nullable_uuid_Inr: "nullable_uuid E x s = (Inr y, s') \<longleftrightarrow> s' = s \<and> uuid_or_null E x y"
  by (auto simp: nullable_uuid_def uuid_or_null_def effect_defs)

lemma new_delivery_simps [simp]:
  "dl_id (new_delivery E i u a d t c) = u" "dl_status (new_delivery E i u a d t c) = StatusQueued"
  "dl_attempts (new_delivery E i u a d t c) = 0" "dl_max (new_delivery E i u a d t c) = in_max i"
  by (simp_all add: new_delivery_def)

lemma insert_delivery_Inr:
  assumes "insert_delivery E i a v t c db = (Inr (d, created), db')"
  shows "created \<and> db' = db\<lparr>dv_rows := dv_rows db @ [d], dv_seq := Suc (dv_seq db)\<rparr> \<and> dl_id d \<notin> dl_id ` set (dv_rows db)
     \<and> (\<exists>u. d = new_delivery E i u a v t c)"
  using assms by (auto simp: insert_delivery_def effect_defs Let_def)

lemma Repository_Create_Inr:
  assumes "Repository_Create E input db = (Inr (d, created), db')"
  shows "created \<and> db' = db\<lparr>dv_rows := dv_rows db @ [d], dv_seq := Suc (dv_seq db)\<rparr> \<and> dl_id d \<notin> dl_id ` set (dv_rows db)
       \<and> (\<exists>u a v t c. d = new_delivery E (normalizeCreateInput input) u a v t c)
       \<and> (in_key (normalizeCreateInput input) = [] \<or> lookup_row dl_key (in_key (normalizeCreateInput input)) (dv_rows db) = None)
     \<or> \<not> created \<and> db' = db \<and> in_key (normalizeCreateInput input) \<noteq> []
       \<and> lookup_row dl_key (in_key (normalizeCreateInput input)) (dv_rows db) = Some d"
proof -
  let ?i = "normalizeCreateInput input"
  obtain a v t c where e: "(case (if in_key ?i = [] then None else lookup_row dl_key (in_key ?i) (dv_rows db)) of
      Some d \<Rightarrow> ok (d, False) | None \<Rightarrow> insert_delivery E ?i a v t c) db = (Inr (d, created), db')"
    using assms unfolding Repository_Create_def Let_def atomically_Inr andThen_Inr look_Inr need_Inr nullable_uuid_Inr by blast
  show ?thesis
  proof (cases "if in_key ?i = [] then None else lookup_row dl_key (in_key ?i) (dv_rows db)")
    case None
    with e have "insert_delivery E ?i a v t c db = (Inr (d, created), db')" by simp
    note new = insert_delivery_Inr [OF this]
    have "in_key ?i = [] \<or> lookup_row dl_key (in_key ?i) (dv_rows db) = None" using None by (auto split: if_splits)
    then show ?thesis using new by blast
  next
    case (Some w)
    with e show ?thesis by (auto simp: effect_defs split: if_splits)
  qed
qed

lemma Service_Create_state:
  "snd (Service_Create E input db) = db
   \<or> (\<exists>d. snd (Service_Create E input db) = db\<lparr>dv_rows := dv_rows db @ [d], dv_seq := Suc (dv_seq db)\<rparr>
        \<and> dl_id d \<notin> dl_id ` set (dv_rows db) \<and> dl_status d = StatusQueued \<and> dl_attempts d = 0 \<and> 1 \<le> dl_max d \<and> dl_max d \<le> 20)"
proof -
  define i where "i = normalizeCreateInput input"
  have mx: "in_max (normalizeCreateInput i) = in_max i" if "validateCreateInput i"
    using that by (simp add: normalizeCreateInput_def validateCreateInput_def Let_def)
  obtain r s where c: "Repository_Create E i db = (r, s)" by fastforce
  have st: "s = db \<or> (\<exists>d. s = db\<lparr>dv_rows := dv_rows db @ [d], dv_seq := Suc (dv_seq db)\<rparr> \<and> dl_id d \<notin> dl_id ` set (dv_rows db)
      \<and> dl_status d = StatusQueued \<and> dl_attempts d = 0 \<and> dl_max d = in_max (normalizeCreateInput i))"
  proof (cases r)
    case (Inl e)
    with c have "s = db" unfolding Repository_Create_def Let_def by (auto dest: atomically_Inl)
    then show ?thesis by simp
  next
    case (Inr x)
    with c have "Repository_Create E i db = (Inr (fst x, snd x), s)" by simp
    from Repository_Create_Inr [OF this] show ?thesis by auto
  qed
  show ?thesis
  proof (cases "validateCreateInput i")
    case True
    then have "snd (Service_Create E input db) = s"
      using c by (auto simp: Service_Create_def i_def [symmetric] effect_run Let_def split: sum.splits)
    then show ?thesis using st mx [OF True] True by (auto simp: validateCreateInput_def)
  next
    case False
    then show ?thesis by (simp add: Service_Create_def i_def [symmetric] effect_run)
  qed
qed

lemma create_once:
  assumes "once i db"
  shows "once i (snd (Service_Create E input db))"
  using Service_Create_state [of E input db]
proof (elim disjE exE conjE)
  fix d assume s: "snd (Service_Create E input db) = db\<lparr>dv_rows := dv_rows db @ [d], dv_seq := Suc (dv_seq db)\<rparr>"
    and d: "dl_id d \<notin> dl_id ` set (dv_rows db)" "dl_status d = StatusQueued" "dl_attempts d = 0" "1 \<le> dl_max d" "dl_max d \<le> 20"
  have "outcomes i db = []" if "dl_id d = i"
    using assms d(1) that by (auto simp: once_def outcomes_def filter_empty_conv)
  then show ?thesis using assms d unfolding s by (auto simp: once_def outcomes_def honest_def)
qed (simp add: assms)

section \<open>The worker\<close>

lemma snd_andThen_ok [simp]: "snd (andThen m (\<lambda>_. ok y) s) = snd (m s)"
  by (simp add: andThen_def ok_def split: prod.splits sum.splits)

lemma restart_once: "once i db \<Longrightarrow> once i (snd (RecoverSendingAfterRestart E db))"
  unfolding RecoverSendingAfterRestart_def Let_def effect_run
  by (simp, rule once_update) (auto simp: honest_def)

lemma requeue_once:
  assumes "once i db" "de_uuid E j \<noteq> Some i"
  shows "once i (snd (Requeue E j db))"
proof (cases "de_uuid E j")
  case (Some u)
  with assms have "u \<noteq> i" by simp
  then have "once i (snd (update_delivery E u S f db))" if "\<And>r. dl_id (f r) = dl_id r" for S f
    using that update_delivery_once [OF assms(1), of f u S E] by blast
  then show ?thesis using assms(1) Some by (auto simp: Requeue_def effect_run)
qed (use assms in \<open>simp add: Requeue_def effect_run\<close>)

text \<open>A claimed delivery is being sent, and everything sent for it before failed in a way that may be retried.\<close>

lemma claim_once:
  assumes o: "once i db" and c: "ClaimNext E db = (Inr (Some d), db')"
  shows "once i db'" "dl_id d = i \<Longrightarrow> set (outcomes i db') \<subseteq> {OutcomeRetryableFailure} \<and> int (length (outcomes i db')) < dl_attempts d"
    "d \<in> set (dv_rows db')" "dl_status d = StatusSending"
proof -
  obtain r where r: "least_by claim_order (select (claimable E) (dv_rows db)) = Some r" and d: "d = claimed E r"
    and db': "db' = db\<lparr>dv_rows := update_where (\<lambda>x. dl_id x = dl_id r) (claimed E) (dv_rows db)\<rparr>"
    using c by (auto simp: ClaimNext_def effect_defs split: option.splits)
  have m: "r \<in> set (dv_rows db)" "claimable E r" using least_by_mem [OF r] by (auto simp: select_def)
  have only: "x = r" if "x \<in> set (dv_rows db)" "dl_id x = dl_id r" for x
    using o that m(1) distinct_key_eq [of dl_id "dv_rows db"] by (simp add: once_def)
  have h: "honest r (outcomes i db)" if "dl_id r = i" using o m(1) that by (simp add: once_def)
  show "once i db'" unfolding db'
  proof (rule once_update [OF o])
    show "honest (claimed E x) (outcomes i db)" if "x \<in> set (dv_rows db)" "dl_id x = dl_id r" "dl_id x = i" "honest x (outcomes i db)" for x
      using only [OF that(1,2)] that(4) m(2) by (auto simp: claimed_def honest_def claimable_def)
  qed (simp add: claimed_def)
  have e: "outcomes i db' = outcomes i db" by (simp add: outcomes_def db')
  show "set (outcomes i db') \<subseteq> {OutcomeRetryableFailure} \<and> int (length (outcomes i db')) < dl_attempts d" if "dl_id d = i"
    using h m(2) that unfolding e d by (auto simp: claimed_def honest_def claimable_def)
  show "d \<in> set (dv_rows db')" using m(1) by (auto simp: db' d update_where_def claimed_def)
  show "dl_status d = StatusSending" by (simp add: d claimed_def)
qed

lemma failBeforeSend_once: "once i db \<Longrightarrow> (dl_id d = i \<Longrightarrow> set (outcomes i db) \<subseteq> {OutcomeRetryableFailure}) \<Longrightarrow> once i (snd (failBeforeSend E d f db))"
proof -
  assume o: "once i db" and a: "dl_id d = i \<Longrightarrow> set (outcomes i db) \<subseteq> {OutcomeRetryableFailure}"
  have "once i (snd (MarkRetrying E (dl_id d) t c x db))" for t c x
    unfolding MarkRetrying_def by (rule update_delivery_once [OF o]) (use a in \<open>auto simp: honest_def\<close>)
  moreover have "once i (snd (MarkFailed E (dl_id d) c x db))" for c x
    unfolding MarkFailed_def markTerminal_def by (rule update_delivery_once [OF o]) (use a in \<open>auto simp: honest_def\<close>)
  ultimately show ?thesis by (simp add: failBeforeSend_def Let_def)
qed

lemma send_once:
  assumes o: "once i db" and d: "d \<in> set (dv_rows db)" "dl_status d = StatusSending"
    and a: "dl_id d = i \<Longrightarrow> set (outcomes i db) \<subseteq> {OutcomeRetryableFailure} \<and> int (length (outcomes i db)) < dl_attempts d"
    and s: "send_message d p m db = (Inr r, db')"
  shows "once i db'" "dl_id d = i \<Longrightarrow> outcomes i db' \<noteq> [] \<and> last (outcomes i db') = pr_outcome r
    \<and> set (butlast (outcomes i db')) \<subseteq> {OutcomeRetryableFailure}"
proof -
  have r: "r = pv_send p m" and db': "db' = db\<lparr>dv_sends := dv_sends db @ [(dl_id d, dl_attempts d, pr_outcome (pv_send p m))]\<rparr>"
    using s by (auto simp: send_message_def effect_defs)
  have e: "outcomes i db' = outcomes i db @ (if dl_id d = i then [pr_outcome r] else [])" by (simp add: outcomes_def db' r)
  have "x = d" if "x \<in> set (dv_rows db)" "dl_id x = dl_id d" for x
    using o that d(1) distinct_key_eq [of dl_id "dv_rows db"] by (simp add: once_def)
  then have "honest x (outcomes i db')" if "x \<in> set (dv_rows db)" "dl_id x = i" for x
    using that o a d unfolding e by (cases "dl_id d = i") (auto simp: once_def honest_def)
  then show "once i db'" using o d(1) by (auto simp: once_def db')
  show "outcomes i db' \<noteq> [] \<and> last (outcomes i db') = pr_outcome r \<and> set (butlast (outcomes i db')) \<subseteq> {OutcomeRetryableFailure}"
    if "dl_id d = i" using a [OF that] that unfolding e by simp
qed

lemma retried_outcomes: "outs \<noteq> [] \<Longrightarrow> last outs = x \<Longrightarrow> set (butlast outs) \<subseteq> {x} \<Longrightarrow> set outs \<subseteq> {x}"
  by (metis append_butlast_last_id set_append list.set(1) list.simps(15) Un_subset_iff subset_refl)

lemma apply_once:
  assumes o: "once i db"
    and l: "dl_id d = i \<Longrightarrow> outcomes i db \<noteq> [] \<and> last (outcomes i db) = pr_outcome r \<and> set (butlast (outcomes i db)) \<subseteq> {OutcomeRetryableFailure}"
  shows "once i (snd (applyProviderResult E d r db))"
proof -
  have "pr_outcome r = OutcomeAccepted \<Longrightarrow> once i (snd (MarkSent E (dl_id d) x db))" for x
    unfolding MarkSent_def by (rule update_delivery_once [OF o]) (use l in \<open>auto simp: honest_def\<close>)
  moreover have "pr_outcome r = OutcomeDelivered \<Longrightarrow> once i (snd (MarkDelivered E (dl_id d) x db))" for x
    unfolding MarkDelivered_def by (rule update_delivery_once [OF o]) (use l in \<open>auto simp: honest_def\<close>)
  moreover have "pr_outcome r = OutcomeRetryableFailure \<Longrightarrow> once i (snd (MarkRetrying E (dl_id d) t c x db))" for t c x
    unfolding MarkRetrying_def
    by (rule update_delivery_once [OF o]) (use l retried_outcomes [of "outcomes i db"] in \<open>auto simp: honest_def\<close>)
  moreover have "once i (snd (MarkFailed E (dl_id d) c x db))" "once i (snd (MarkUncertain E (dl_id d) x db))" for c x
    unfolding MarkFailed_def MarkUncertain_def markTerminal_def
    by (rule update_delivery_once [OF o]; use l in \<open>auto simp: honest_def\<close>)+
  ultimately show ?thesis
    by (simp add: applyProviderResult_def Let_def split: Outcome.splits)
qed

lemma process_once:
  assumes o: "once i db"
  shows "once i (snd (ProcessNext E db))"
proof -
  obtain job db1 where c: "ClaimNext E db = (Inr job, db1)" by (cases "least_by claim_order (select (claimable E) (dv_rows db))") (auto simp: ClaimNext_def effect_run)
  show ?thesis
  proof (cases job)
    case None
    with c have "db1 = db" by (auto simp: ClaimNext_def effect_defs split: option.splits)
    then show ?thesis using c None o by (simp add: ProcessNext_def andThen_def ok_def)
  next
    case (Some d)
    note cl = claim_once [OF o c [unfolded Some]]
    show ?thesis
    proof (cases "prepare E d")
      case (Inl f)
      have "once i (snd (failBeforeSend E d f db1))" by (rule failBeforeSend_once [OF cl(1)]) (use cl(2) in blast)
      moreover have "ProcessNext E db = andThen (failBeforeSend E d f) (\<lambda>_. ok True) db1"
        using c Some Inl by (simp add: ProcessNext_def andThen_run)
      ultimately show ?thesis by simp
    next
      case (Inr pm)
      obtain r db2 where s: "send_message d (fst pm) (snd pm) db1 = (Inr r, db2)" by (auto simp: send_message_def effect_run)
      have "once i db2" by (rule send_once(1) [OF cl(1,3,4) _ s]) (use cl(2) in blast)
      then have "once i (snd (applyProviderResult E d r db2))"
        by (rule apply_once) (use send_once(2) [OF cl(1,3,4) _ s] cl(2) in blast)
      moreover have "ProcessNext E db = andThen (applyProviderResult E d r) (\<lambda>_. ok True) db2"
        using c Some Inr s by (cases pm) (simp add: ProcessNext_def andThen_run)
      ultimately show ?thesis by simp
    qed
  qed
qed

lemma dlv_exec_once: "once i db \<Longrightarrow> \<not> requeues i ev \<Longrightarrow> once i (dlv_exec ev db)"
  unfolding dlv_exec_def requeues_def
  by (auto simp: Let_def create_once process_once restart_once requeue_once split: dlv_op.splits)

lemma dlv_run_once: "once i db \<Longrightarrow> \<not> (\<exists>ev \<in> set evs. requeues i ev) \<Longrightarrow> once i (dlv_run evs db)"
  by (induction evs arbitrary: db) (auto simp: dlv_run_def dlv_exec_once)

text \<open>C34. A message that may have reached its recipient is not sent again on its own.  Take any sequence of requests, worker
  iterations (with any provider, and with any statement lost after the sending), restarts and requeues of other
  deliveries, starting from an empty queue.  Every sending of a delivery but the last ended in a failure the
  provider called retryable; a delivery is marked sent or delivered only when the provider said so last; and there
  are at most as many sendings as attempts, at most as many attempts as the delivery allows, and at most twenty.\<close>

theorem uncertain_sends_not_repeated:
  assumes "\<not> (\<exists>ev \<in> set evs. requeues i ev)" "d \<in> set (dv_rows (dlv_run evs empty_queue))" "dl_id d = i"
    and "outs = outcomes i (dlv_run evs empty_queue)"
  shows "set (butlast outs) \<subseteq> {OutcomeRetryableFailure}
     \<and> (dl_status d = StatusSent \<longrightarrow> outs \<noteq> [] \<and> last outs = OutcomeAccepted)
     \<and> (dl_status d = StatusDelivered \<longrightarrow> outs \<noteq> [] \<and> last outs = OutcomeDelivered)
     \<and> int (length outs) \<le> dl_attempts d \<and> dl_attempts d \<le> dl_max d \<and> dl_max d \<le> 20"
proof -
  have "once i empty_queue" by (simp add: once_def empty_queue_def)
  from dlv_run_once [OF this assms(1)] assms(2-4) have "honest d outs" by (simp add: once_def)
  then show ?thesis by (simp add: honest_def)
qed

text \<open>An example: a first sending fails in a way that may be retried, the second is accepted.\<close>

definition xd_env :: "time \<Rightarrow> Outcome \<Rightarrow> dlv_env" where
  "xd_env now out = \<lparr>de_gen = (\<lambda>n. ''u''), de_uuid = Some, de_ref = (\<lambda>_ _. False), de_now = now, de_clock = now, de_locked = (\<lambda>_. False),
     de_store = True,
     de_providers = Some (\<lambda>_. Inr (Some \<lparr>pv_channel = ''email'', pv_unconfigured = None,
        pv_send = (\<lambda>_. \<lparr>pr_outcome = out, pr_reference = [], pr_code = ''code''\<rparr>)\<rparr>)),
     de_resolver = Some (\<lambda>_. Inr \<lparr>rm_name = [], rm_profile = [], rm_url = [], rm_attachments = []\<rparr>),
     de_renderer = Some (\<lambda>_ _ _. Inr \<lparr>ms_recipient = [], ms_subject = [], ms_text = [], ms_html = [], ms_attachments = [],
        ms_template = [], ms_locale = [], ms_action = []\<rparr>)\<rparr>"
definition xd_events :: "(dlv_env \<times> dlv_op) list" where
  "xd_events =
     [(xd_env 0 OutcomeAccepted, Op_create \<lparr>in_account = [], in_device = [], in_token = [], in_channel = ''email'', in_provider = ''smtp'',
         in_recipient = ''a'', in_template = ''system_notification'', in_locale = ''en'', in_attach_qr = False, in_max = 5, in_key = ''k'',
         in_creator = []\<rparr>),
      (xd_env 0 OutcomeRetryableFailure, Op_process), (xd_env (minutes 1) OutcomeAccepted, Op_process)]"

declare ToLower.simps [simp del]

lemma xd_text [simp]:
  "TrimSpace ''email'' = ''email''" "TrimSpace ''smtp'' = ''smtp''" "TrimSpace ''a'' = ''a''" "TrimSpace ''en'' = ''en''"
  "TrimSpace ''k'' = ''k''" "TrimSpace ''system_notification'' = ''system_notification''"
  "ToLower ''email'' = ''email''" "ToLower ''en'' = ''en''"
  by (simp_all add: TrimSpace_clean space_byte_def ToLower_ascii ascii_def lower_byte_def)

definition xd_row :: Delivery where
  "xd_row = new_delivery (xd_env 0 OutcomeAccepted) \<lparr>in_account = [], in_device = [], in_token = [], in_channel = ''email'',
     in_provider = ''smtp'', in_recipient = ''a'', in_template = ''system_notification'', in_locale = ''en'', in_attach_qr = False,
     in_max = 5, in_key = ''k'', in_creator = []\<rparr> ''u'' [] [] [] []"

lemma xd_created: "dlv_exec (xd_events ! 0) empty_queue = \<lparr>dv_rows = [xd_row], dv_sends = [], dv_seq = 1\<rparr>"
  by (simp add: dlv_exec_def xd_events_def xd_env_def empty_queue_def Service_Create_def Repository_Create_def normalizeCreateInput_def
      validateCreateInput_def validTemplateKey_def validLocale_def effect_run nullable_uuid_def lookup_row_def insert_delivery_def refers_def
      xd_row_def Let_def)

lemma xd_first: "\<exists>r. dlv_exec (xd_events ! 1) \<lparr>dv_rows = [xd_row], dv_sends = [], dv_seq = 1\<rparr>
    = \<lparr>dv_rows = [r], dv_sends = [(''u'', 1, OutcomeRetryableFailure)], dv_seq = 1\<rparr> \<and> dl_id r = ''u'' \<and> dl_status r = StatusRetrying
  \<and> dl_attempts r = 1 \<and> dl_max r = 5 \<and> dl_channel r = ''email'' \<and> dl_next r = Some (Delay DefaultRetryPolicy 1)"
  by (simp add: dlv_exec_def xd_events_def xd_env_def ProcessNext_def ClaimNext_def effect_run select_def claimable_def xd_row_def new_delivery_def
      update_where_def claimed_def prepare_def send_message_def applyProviderResult_def MarkRetrying_def update_delivery_def Let_def)

lemma xd_second:
  assumes "dl_id r = ''u''" "dl_status r = StatusRetrying" "dl_attempts r = 1" "dl_max r = 5" "dl_channel r = ''email''"
    "dl_next r = Some (Delay DefaultRetryPolicy 1)"
  shows "\<exists>q. dlv_exec (xd_events ! 2) \<lparr>dv_rows = [r], dv_sends = [(''u'', 1, OutcomeRetryableFailure)], dv_seq = 1\<rparr>
      = \<lparr>dv_rows = [q], dv_sends = [(''u'', 1, OutcomeRetryableFailure), (''u'', 2, OutcomeAccepted)], dv_seq = 1\<rparr>
    \<and> dl_id q = ''u'' \<and> dl_status q = StatusSent"
proof -
  have "Delay DefaultRetryPolicy 1 \<le> minutes 1"
    by (simp add: Delay_def DefaultRetryPolicy_def delay_loop.simps seconds_def minutes_def)
  then show ?thesis using assms
    by (simp add: dlv_exec_def xd_events_def xd_env_def ProcessNext_def ClaimNext_def effect_run select_def claimable_def update_where_def
        claimed_def prepare_def send_message_def applyProviderResult_def MarkSent_def update_delivery_def Let_def)
qed

theorem uncertain_sends_not_repeated_witness:
  "\<exists>q. q \<in> set (dv_rows (dlv_run xd_events empty_queue)) \<and> dl_status q = StatusSent
     \<and> last (outcomes ''u'' (dlv_run xd_events empty_queue)) = OutcomeAccepted
     \<and> length (outcomes ''u'' (dlv_run xd_events empty_queue)) = 2"
proof -
  obtain r where r: "dlv_exec (xd_events ! 1) (dlv_exec (xd_events ! 0) empty_queue)
      = \<lparr>dv_rows = [r], dv_sends = [(''u'', 1, OutcomeRetryableFailure)], dv_seq = 1\<rparr>"
    "dl_id r = ''u''" "dl_status r = StatusRetrying" "dl_attempts r = 1" "dl_max r = 5" "dl_channel r = ''email''"
    "dl_next r = Some (Delay DefaultRetryPolicy 1)"
    using xd_first unfolding xd_created by blast
  obtain q where q: "dlv_exec (xd_events ! 2) (dlv_exec (xd_events ! 1) (dlv_exec (xd_events ! 0) empty_queue))
      = \<lparr>dv_rows = [q], dv_sends = [(''u'', 1, OutcomeRetryableFailure), (''u'', 2, OutcomeAccepted)], dv_seq = 1\<rparr>"
    "dl_id q = ''u''" "dl_status q = StatusSent"
    using xd_second [OF r(2-7)] unfolding r(1) by blast
  have e: "xd_events = [xd_events ! 0, xd_events ! 1, xd_events ! 2]" by (simp add: xd_events_def)
  have f: "dlv_run xd_events empty_queue = dlv_exec (xd_events ! 2) (dlv_exec (xd_events ! 1) (dlv_exec (xd_events ! 0) empty_queue))"
    unfolding dlv_run_def by (subst e) simp
  have run: "q \<in> set (dv_rows (dlv_run xd_events empty_queue))"
    "outcomes ''u'' (dlv_run xd_events empty_queue) = [OutcomeRetryableFailure, OutcomeAccepted]"
    unfolding f q(1) by (simp_all add: outcomes_def)
  have "\<not> (\<exists>ev \<in> set xd_events. requeues ''u'' ev)" by (simp add: xd_events_def requeues_def)
  from uncertain_sends_not_repeated [OF this run(1) q(2) refl] q(3) run show ?thesis by auto
qed

end
