(* ===== verification/Alert_Safety.thy ===== *)
theory Alert_Safety
  imports Alert_Steps Delivery_Safety
begin

text \<open>
  What the alert engine guarantees over any sequence of evaluations and other work of the Manager, whatever
  statement fails or loses its answer: an alert is explained by the evaluations that lead to it, and its
  notification intents match its history.
\<close>

section \<open>Histories\<close>

text \<open>One evaluation of a fingerprint: when, the severity the condition had if it was triggered, and whether the evaluation
  of the check returned without an error.  A history is a list of evaluations, the latest first.\<close>

record evaluation =
  ev_fingerprint :: string
  ev_now :: time
  ev_severity :: "Severity option"
  ev_ok :: bool

text \<open>\<open>since S K H\<close>: some evaluation of the history satisfies \<open>S\<close>, given what came before it, and every later one \<open>K\<close>.\<close>

primrec since :: "(evaluation \<Rightarrow> evaluation list \<Rightarrow> bool) \<Rightarrow> (evaluation \<Rightarrow> bool) \<Rightarrow> evaluation list \<Rightarrow> bool" where
  "since S K [] = False"
| "since S K (e # H) = (S e H \<or> K e \<and> since S K H)"

lemma since_iff: "since S K H \<longleftrightarrow> (\<exists>later e earlier. H = later @ e # earlier \<and> S e earlier \<and> (\<forall>x \<in> set later. K x))"
proof (induction H)
  case (Cons x H)
  show ?case
  proof
    assume "since S K (x # H)"
    then consider "S x H" | "K x" "since S K H" by auto
    then show "\<exists>later e earlier. x # H = later @ e # earlier \<and> S e earlier \<and> (\<forall>x \<in> set later. K x)"
    proof cases
      case 1
      then show ?thesis by (intro exI [where x = "[]"]) simp
    next
      case 2
      with Cons obtain l e r where "H = l @ e # r" "S e r" "\<forall>x \<in> set l. K x" by auto
      then show ?thesis using 2 by (intro exI [where x = "x # l"]) simp
    qed
  next
    assume "\<exists>later e earlier. x # H = later @ e # earlier \<and> S e earlier \<and> (\<forall>x \<in> set later. K x)"
    then obtain l e r where "x # H = l @ e # r" "S e r" "\<forall>x \<in> set l. K x" by blast
    then show "since S K (x # H)" using Cons by (cases l) auto
  qed
qed simp

text \<open>An alert that started at \<open>t0\<close> is pending: the evaluation at \<open>t0\<close> triggered, and so did all later ones, unless they
  failed.\<close>

definition pending_since :: "time \<Rightarrow> evaluation list \<Rightarrow> bool" where
  "pending_since t0 = since (\<lambda>e _. ev_now e = t0 \<and> ev_severity e \<noteq> None) (\<lambda>e. ev_ok e \<longrightarrow> ev_severity e \<noteq> None)"

text \<open>It fired at \<open>t\<close>, in an evaluation of a severity whose delay had passed.\<close>

definition fired_at :: "time \<Rightarrow> time \<Rightarrow> evaluation list \<Rightarrow> bool" where
  "fired_at t0 t =
     since (\<lambda>e H. ev_now e = t \<and> (case ev_severity e of None \<Rightarrow> False | Some s \<Rightarrow> t0 + fire_delay s \<le> t) \<and> pending_since t0 H) (\<lambda>_. True)"

text \<open>The condition cleared at \<open>s\<close>, after the firing, and did not trigger again.\<close>

definition clear_since :: "time \<Rightarrow> time \<Rightarrow> time \<Rightarrow> evaluation list \<Rightarrow> bool" where
  "clear_since t0 t s =
     since (\<lambda>e H. ev_now e = s \<and> ev_severity e = None \<and> fired_at t0 t H) (\<lambda>e. ev_ok e \<longrightarrow> ev_severity e = None)"

text \<open>It was resolved at \<open>u\<close>, a recovery delay after the condition cleared.\<close>

definition resolved_at :: "time \<Rightarrow> time \<Rightarrow> time \<Rightarrow> evaluation list \<Rightarrow> bool" where
  "resolved_at t0 t u =
     since (\<lambda>e H. ev_now e = u \<and> ev_severity e = None \<and> (\<exists>s. s + AlertRecoveryDelay \<le> u \<and> clear_since t0 t s H)) (\<lambda>_. True)"

definition history_of :: "string \<Rightarrow> evaluation list \<Rightarrow> evaluation list" where
  "history_of fp H = filter (\<lambda>e. ev_fingerprint e = fp) H"

definition explained :: "evaluation list \<Rightarrow> Alert \<Rightarrow> bool" where
  "explained H a \<longleftrightarrow>
     (let K = history_of (al_fingerprint a) H in
      case al_state a of
        AlertPending \<Rightarrow> al_firing a = None \<and> al_recovery a = None \<and> pending_since (al_started a) K
      | AlertFiring \<Rightarrow>
          (case al_firing a of None \<Rightarrow> False
           | Some t \<Rightarrow> fired_at (al_started a) t K
               \<and> (case al_recovery a of None \<Rightarrow> True | Some s \<Rightarrow> clear_since (al_started a) t s K))
      | AlertResolved \<Rightarrow>
          (case (al_firing a, al_resolved a) of
             (_, None) \<Rightarrow> False
           | (None, Some u) \<Rightarrow> True
           | (Some t, Some u) \<Rightarrow> fired_at (al_started a) t K \<and> resolved_at (al_started a) t u K))"

text \<open>An alert that starts soon after an earlier episode of its fingerprint was resolved waits longer before it fires.\<close>

definition episodes :: "Alert \<Rightarrow> Alert \<Rightarrow> bool" where
  "episodes a b \<longleftrightarrow>
     (al_fingerprint a = al_fingerprint b \<longrightarrow>
        al_state a = AlertResolved
        \<and> (\<forall>t u. al_firing b = Some t \<longrightarrow> al_resolved a = Some u \<longrightarrow> al_started b < u + AlertFlapWindow
               \<longrightarrow> al_started b + AlertFlapFireDelay \<le> t))"

definition alerts_inv :: "evaluation list \<Rightarrow> obs_db \<Rightarrow> bool" where
  "alerts_inv H db \<longleftrightarrow> alerts_wf db \<and> (\<forall>a \<in> set (o_alerts db). alert_ok a \<and> explained H a) \<and> sorted_wrt episodes (o_alerts db)"

lemma delays_positive: "0 < fire_delay s" "0 < AlertRecoveryDelay"
  by (simp_all add: fire_delay_def AlertCriticalFireDelay_def AlertWarningFireDelay_def AlertRecoveryDelay_def seconds_def minutes_def
      split: Severity.splits)

text \<open>An evaluation that fails explains as much as the history before it.\<close>

lemma explained_failed:
  assumes "explained H a" "\<not> ev_ok e"
  shows "explained (e # H) a"
  using assms
  by (auto simp: explained_def history_of_def pending_since_def fired_at_def clear_since_def resolved_at_def Let_def
      split: AlertState.splits option.splits)

text \<open>The row after a step of an evaluation is explained with that evaluation.\<close>

lemma row_step_explained:
  assumes r: "row_step T now sev x y is" and x: "explained (e # H) x" and ok: "alert_ok y"
    and e: "ev_fingerprint e = al_fingerprint x" "ev_now e = now" "ev_severity e = sev"
  shows "explained (e # H) y"
proof -
  let ?H = "history_of (al_fingerprint x) H"
  have h: "history_of (al_fingerprint x) (e # H) = e # ?H" using e(1) by (simp add: history_of_def)
  from r show ?thesis
  proof cases
    case (fires s c i)
    then have "pending_since (al_started x) (e # ?H)" using x h by (simp add: explained_def Let_def)
    then have "pending_since (al_started x) ?H"
      using e fires(6) delays_positive(1) [of s] by (auto simp: pending_since_def)
    then have "fired_at (al_started x) now (e # ?H)" using e fires by (simp add: fired_at_def)
    then show ?thesis using fires h by (simp add: explained_def fired_def)
  next
    case (starts)
    then show ?thesis using x h e
      by (auto simp: explained_def Let_def clear_since_def fired_at_def split: option.splits)
  next
    case (recovers t i)
    then obtain f where f: "al_firing x = Some f" "fired_at (al_started x) f (e # ?H)" "clear_since (al_started x) f t (e # ?H)"
      using x h by (auto simp: explained_def Let_def split: option.splits)
    then have "clear_since (al_started x) f t ?H"
      using e recovers(6) delays_positive(2) by (auto simp: clear_since_def)
    then have "resolved_at (al_started x) f now (e # ?H)" using e recovers by (auto simp: resolved_at_def)
    then show ?thesis using f h recovers by (simp add: explained_def resolved_def)
  next
    case (closes)
    then show ?thesis using x h by (simp add: explained_def resolved_def Let_def)
  next
    case (followed c s)
    then show ?thesis using x h by (simp add: explained_def reseverity_def Let_def)
  next
    case (escalated c i)
    then show ?thesis using x h by (simp add: explained_def reseverity_def Let_def split: option.splits)
  next
    case (cleared s)
    then show ?thesis using x h by (simp add: explained_def Let_def split: AlertState.splits option.splits)
  next
    case (touched s m q)
    then show ?thesis using x h by (simp add: explained_def Let_def split: AlertState.splits option.splits)
  qed
qed


lemma stepped_episodes:
  assumes st: "stepped x y is db db'" and r: "row_step (o_alerts db) now sev x y is" and x: "AlertState_Active (al_state x)"
    and inv: "alerts_inv H db"
  shows "sorted_wrt episodes (o_alerts db')"
proof -
  let ?g = "\<lambda>a. if a = x then y else a"
  have flap: "al_started y + AlertFlapFireDelay \<le> t"
    if a: "a \<in> set (o_alerts db)" "episodes a x" "al_fingerprint a = al_fingerprint y" "al_firing y = Some t" "al_resolved a = Some u"
      "al_started y < u + AlertFlapWindow" for a t u
  proof -
    have res: "al_state a = AlertResolved" using a(2,3) row_step_keeps(2) [OF r] by (simp add: episodes_def)
    from r show ?thesis
    proof cases
      case (fires s c i)
      then show ?thesis using a res by (auto simp: flap_ok_def fired_def)
    qed (use a row_step_keeps [OF r] in \<open>auto simp: episodes_def reseverity_def resolved_def\<close>)
  qed
  have mono: "episodes (?g a) (?g b)" if "a \<in> set (o_alerts db)" "b \<in> set (o_alerts db)" "episodes a b" for a b
  proof (cases "a = x")
    case True
    then have "al_fingerprint x \<noteq> al_fingerprint b" using that x by (auto simp: episodes_def AlertState_Active_def)
    then show ?thesis using True row_step_keeps(2) [OF r] by (auto simp: episodes_def)
  next
    case False
    show ?thesis
    proof (cases "b = x")
      case True
      then have ax: "episodes a x" using that by simp
      have "episodes a y"
        unfolding episodes_def
      proof (intro impI conjI allI)
        assume f: "al_fingerprint a = al_fingerprint y"
        then show "al_state a = AlertResolved" using ax row_step_keeps(2) [OF r] by (simp add: episodes_def)
        show "al_started y + AlertFlapFireDelay \<le> t"
          if "al_firing y = Some t" "al_resolved a = Some u" "al_started y < u + AlertFlapWindow" for t u
          by (rule flap [OF \<open>a \<in> set (o_alerts db)\<close> ax f that])
      qed
      then show ?thesis using True False by simp
    qed (use False that in simp)
  qed
  have "sorted_wrt episodes (o_alerts db)" using inv by (simp add: alerts_inv_def)
  then have "sorted_wrt (\<lambda>a b. episodes (?g a) (?g b)) (o_alerts db)"
    by (rule sorted_wrt_mono_rel [rotated]) (rule mono)
  then show ?thesis using st by (simp add: stepped_def update_where_def sorted_wrt_map)
qed

lemma alert_step_inv:
  assumes s: "alert_step now sev fp db db'" and inv: "alerts_inv (e # H) db"
    and e: "ev_fingerprint e = fp" "ev_now e = now" "ev_severity e = sev"
  shows "alerts_inv (e # H) db'"
  using s
proof cases
  case (created c u)
  have "explained (e # H) (pending_alert u c now)"
    using e created by (simp add: explained_def history_of_def pending_since_def)
  moreover have "sorted_wrt episodes (o_alerts db')"
    using created inv by (auto simp: alerts_inv_def sorted_wrt_append episodes_def AlertState_Active_def intro: AlertState.exhaust)
  ultimately show ?thesis using alert_step_wf [OF s] inv created by (auto simp: alerts_inv_def)
next
  case (moved x y "is")
  have "alert_ok a \<and> explained (e # H) a" if "a \<in> set (o_alerts db')" for a
    using stepped_rows(2) [OF moved(4) that]
  proof
    assume "a = y"
    then show ?thesis
      using row_step_explained [OF moved(1)] moved(2,4) inv e by (auto simp: stepped_def alerts_inv_def)
  qed (use inv in \<open>simp add: alerts_inv_def\<close>)
  then show ?thesis using alert_step_wf [OF s] stepped_episodes [OF moved(4,1,3) inv] inv by (simp add: alerts_inv_def)
qed

lemma alert_steps_inv:
  assumes "(alert_step now sev fp)\<^sup>*\<^sup>* db db'" "alerts_inv (e # H) db" "ev_fingerprint e = fp" "ev_now e = now" "ev_severity e = sev"
  shows "alerts_inv (e # H) db'"
  using assms(1) by (induction rule: rtranclp_induct) (use assms(2-5) alert_step_inv in auto)

text \<open>When the evaluation succeeded, its alert agrees with what it saw, so the history may say that it succeeded.\<close>

lemma explained_settled:
  assumes x: "explained (e\<lparr>ev_ok := False\<rparr> # H) a"
    and s: "ev_fingerprint e = al_fingerprint a \<Longrightarrow> AlertState_Active (al_state a) \<Longrightarrow>
      (case ev_severity e of Some _ \<Rightarrow> al_recovery a = None | None \<Rightarrow> al_state a = AlertFiring \<and> al_recovery a \<noteq> None)"
  shows "explained (e # H) a"
proof (cases "ev_fingerprint e = al_fingerprint a")
  case False
  then show ?thesis using x by (simp add: explained_def history_of_def)
next
  case True
  show ?thesis
  proof (cases "al_state a")
    case AlertPending
    then show ?thesis using x s True
      by (auto simp: explained_def history_of_def pending_since_def AlertState_Active_def split: option.splits)
  next
    case AlertFiring
    then show ?thesis using x s True
      by (auto simp: explained_def history_of_def fired_at_def clear_since_def AlertState_Active_def split: option.splits)
  next
    case AlertResolved
    then show ?thesis using x True
      by (auto simp: explained_def history_of_def fired_at_def resolved_at_def split: option.splits)
  qed
qed

definition evaluation_of :: "HealthCheck \<Rightarrow> time \<Rightarrow> bool \<Rightarrow> evaluation" where
  "evaluation_of h now success = \<lparr>ev_fingerprint = fingerprint_of h, ev_now = now, ev_severity = severity_seen h now, ev_ok = success\<rparr>"

lemma evaluateCheck_inv:
  assumes inv: "alerts_inv H db" and run: "evaluateCheck E h now db = (r, db')"
  shows "alerts_inv (evaluation_of h now (r = Inr ()) # H) db'"
proof -
  let ?f = "evaluation_of h now False"
  have "alerts_inv (?f # H) db" using inv explained_failed [of H] by (auto simp: alerts_inv_def evaluation_of_def)
  moreover have steps: "(alert_step now (severity_seen h now) (fingerprint_of h))\<^sup>*\<^sup>* db db'"
    "r = Inr () \<longrightarrow> settled (severity_seen h now) (fingerprint_of h) db'"
    using evaluateCheck_run [OF _ run] inv by (auto simp: alerts_inv_def)
  ultimately have f: "alerts_inv (?f # H) db'" using alert_steps_inv by (simp add: evaluation_of_def)
  show ?thesis
  proof (cases "r = Inr ()")
    case False
    then show ?thesis using f by simp
  next
    case True
    have e: "(evaluation_of h now True)\<lparr>ev_ok := False\<rparr> = ?f" by (simp add: evaluation_of_def)
    have "explained (evaluation_of h now True # H) a" if "a \<in> set (o_alerts db')" for a
    proof (rule explained_settled)
      show "explained ((evaluation_of h now True)\<lparr>ev_ok := False\<rparr> # H) a" using f that by (simp add: e alerts_inv_def)
    qed (use steps(2) True that in \<open>auto simp: settled_def active_of_def evaluation_of_def\<close>)
    then show ?thesis using f True by (auto simp: alerts_inv_def)
  qed
qed

section \<open>Runs\<close>

fun evaluations :: "obs_env \<Rightarrow> time \<Rightarrow> HealthCheck list \<Rightarrow> obs_db \<Rightarrow> evaluation list" where
  "evaluations E now [] db = []"
| "evaluations E now (h # hs) db =
     (if hc_required h
      then (case evaluateCheck E h now db of
              (Inl _, _) \<Rightarrow> [evaluation_of h now False]
            | (Inr _, db') \<Rightarrow> evaluations E now hs db' @ [evaluation_of h now True])
      else evaluations E now hs db)"

lemma evaluate_checks_inv:
  "alerts_inv H db \<Longrightarrow> alerts_inv (evaluations E now hs db @ H) (snd (evaluate_checks E now hs db))"
proof (induction hs arbitrary: H db)
  case (Cons h hs)
  obtain r db1 where r: "evaluateCheck E h now db = (r, db1)" by fastforce
  from evaluateCheck_inv [OF Cons.prems r] Cons show ?case
    by (cases r) (auto simp: r andThen_def)
qed (simp add: ok_def)


section \<open>Intents\<close>

definition intents_for :: "obs_db \<Rightarrow> Alert \<Rightarrow> string \<Rightarrow> nat" where
  "intents_for db a kind = length (filter (\<lambda>i. intent_of i a kind) (o_intents db))"

definition notified :: "obs_db \<Rightarrow> Alert \<Rightarrow> bool" where
  "notified db a \<longleftrightarrow>
     intents_for db a ''firing'' = (if al_firing a = None then 0 else 1)
     \<and> intents_for db a ''resolved'' = (if al_firing a = None \<or> al_state a \<noteq> AlertResolved then 0 else 1)
     \<and> intents_for db a ''escalated'' \<le> (if al_firing a = None \<or> al_severity a = SeverityWarning then 0 else 1)"

definition intents_inv :: "obs_db \<Rightarrow> bool" where
  "intents_inv db \<longleftrightarrow>
     alerts_wf db \<and> (\<forall>a \<in> set (o_alerts db). alert_ok a \<and> notified db a)
     \<and> (\<forall>i \<in> set (o_intents db). ni_alert i \<in> al_id ` set (o_alerts db) \<and> ni_kind i \<in> {''firing'', ''escalated'', ''resolved''})"

lemma row_step_intents:
  assumes "row_step T now sev x y is"
  shows "\<forall>i \<in> set is. ni_alert i = al_id x \<and> ni_kind i \<in> {''firing'', ''escalated'', ''resolved''}"
  using assms by cases (auto simp: intent_of_def)

lemma row_step_notified:
  assumes r: "row_step T now sev x y is" and x: "notified db x" "alert_ok x" and i: "o_intents db' = o_intents db @ is"
  shows "notified db' y"
proof -
  have n: "intents_for db' a k = intents_for db a k + length (filter (\<lambda>i. intent_of i a k) is)" for a k
    using i by (simp add: intents_for_def)
  have same: "intents_for db y k = intents_for db x k" "length (filter (\<lambda>i. intent_of i y k) is) = length (filter (\<lambda>i. intent_of i x k) is)" for k
    using row_step_keeps(1) [OF r] by (simp_all add: intents_for_def intent_of_def)
  from r show ?thesis
  proof cases
    case (fires s c i)
    then show ?thesis using x unfolding notified_def n same
      by (simp add: fired_def intent_of_def alert_ok_def)
  next
    case (escalated c i)
    then show ?thesis using x unfolding notified_def n same
      by (auto simp: reseverity_def intent_of_def alert_ok_def)
  next
    case (recovers t i)
    then show ?thesis using x unfolding notified_def n same
      by (simp add: resolved_def intent_of_def alert_ok_def)
  next
    case (followed c s)
    then show ?thesis using x unfolding notified_def n same by (simp add: reseverity_def alert_ok_def)
  next
    case (closes)
    then show ?thesis using x unfolding notified_def n same by (simp add: resolved_def alert_ok_def)
  qed (use x in \<open>unfold notified_def n same, simp_all\<close>)
qed

lemma alert_step_intents:
  assumes s: "alert_step now sev fp db db'" and inv: "intents_inv db"
  shows "intents_inv db'"
  using s
proof cases
  case (created c u)
  have "intents_for db' a k = intents_for db a k" for a k using created by (simp add: intents_for_def)
  moreover have "intents_for db (pending_alert u c now) k = 0" for k
  proof -
    have "ni_alert i \<noteq> u" if "i \<in> set (o_intents db)" for i
    proof -
      have "ni_alert i \<in> al_id ` set (o_alerts db)" using inv that by (simp add: intents_inv_def)
      then show ?thesis using created by auto
    qed
    then show ?thesis using created by (simp add: intents_for_def filter_empty_conv intent_of_def)
  qed
  ultimately show ?thesis using alert_step_wf [OF s] inv created
    by (auto simp: intents_inv_def notified_def)
next
  case (moved x y "is")
  have i: "o_intents db' = o_intents db @ is" and x: "x \<in> set (o_alerts db)" and y: "alert_ok y"
    using moved(4) by (auto simp: stepped_def)
  note new = row_step_intents [OF moved(1)]
  have "alert_ok a \<and> notified db' a" if a: "a \<in> set (o_alerts db')" for a
    using stepped_rows(2) [OF moved(4) a]
  proof
    assume "a = y"
    then show ?thesis using row_step_notified [OF moved(1) _ _ i] x y inv by (simp add: intents_inv_def)
  next
    assume o: "a \<in> set (o_alerts db) \<and> a \<noteq> x"
    then have "al_id a \<noteq> al_id x" using inv x by (auto simp: intents_inv_def alerts_wf_def dest: distinct_key_eq)
    then have "filter (\<lambda>j. intent_of j a k) is = []" for k using new by (auto simp: filter_empty_conv intent_of_def)
    then have "intents_for db' a k = intents_for db a k" for k using i by (simp add: intents_for_def)
    then show ?thesis using o inv by (simp add: intents_inv_def notified_def)
  qed
  moreover have "al_id ` set (o_alerts db') = al_id ` set (o_alerts db)"
    using moved(4) row_step_keeps(1) [OF moved(1)] by (auto simp: stepped_def update_where_def image_image image_iff)
  ultimately show ?thesis using alert_step_wf [OF s] inv i new x by (auto simp: intents_inv_def)
qed

lemma evaluateCheck_intents: "intents_inv db \<Longrightarrow> intents_inv (snd (evaluateCheck E h now db))"
proof -
  assume inv: "intents_inv db"
  obtain r db' where r: "evaluateCheck E h now db = (r, db')" by fastforce
  have "(alert_step now (severity_seen h now) (fingerprint_of h))\<^sup>*\<^sup>* db db'"
    using evaluateCheck_run [OF _ r] inv by (simp add: intents_inv_def)
  then show ?thesis unfolding r using inv by (induction rule: rtranclp_induct) (simp_all add: alert_step_intents)
qed

lemma evaluate_checks_intents: "intents_inv db \<Longrightarrow> intents_inv (snd (evaluate_checks E now hs db))"
proof (induction hs arbitrary: db)
  case (Cons h hs)
  then show ?case using evaluateCheck_intents [of db E h now]
    by (auto simp: andThen_def split: prod.splits sum.splits)
qed (simp add: ok_def)


section \<open>Other work\<close>

text \<open>Everything else leaves alerts and transitions alone, and of an intent changes only when it was claimed and expanded.\<close>

definition intent_key :: "NotificationIntent \<Rightarrow> string \<times> string \<times> string \<times> string" where
  "intent_key i = (ni_id i, ni_alert i, ni_transition i, ni_kind i)"

definition same_alerts :: "obs_db \<Rightarrow> obs_db \<Rightarrow> bool" where
  "same_alerts db db' \<longleftrightarrow>
     o_alerts db' = o_alerts db \<and> o_transitions db' = o_transitions db \<and> map intent_key (o_intents db') = map intent_key (o_intents db)"

interpretation alerts: frame same_alerts
  by unfold_locales (simp_all add: same_alerts_def)

lemma committed_keeps:
  assumes "\<And>s. R s s" "keeps R m"
  shows "keeps R (committed fate m)"
  unfolding keeps_def
proof
  fix s
  obtain r s' where r: "committed fate m s = (r, s')" by fastforce
  then show "R s (snd (committed fate m s))"
  proof (cases rule: committed_cases)
    case (written x)
    then show ?thesis using assms(2) r by (metis keepsD snd_conv)
  qed (use r assms(1) in simp)
qed

lemmas keeps_committed = committed_keeps [of same_alerts, OF alerts.frame_refl]

lemmas keeps_alerts = alerts.keeps_ok alerts.keeps_fail alerts.keeps_need alerts.keeps_look alerts.keeps_some_or alerts.keeps_andThen
  alerts.keeps_if alerts.keeps_option alerts.keeps_check keeps_committed

lemma intents_unchanged:
  assumes "map intent_key js = map intent_key is"
  shows "ni_transition ` set js = ni_transition ` set is" "ni_alert ` set js = ni_alert ` set is"
    "length (filter (\<lambda>i. intent_of i a k) js) = length (filter (\<lambda>i. intent_of i a k) is)"
    "ni_kind ` set js = ni_kind ` set is"
proof -
  have m: "map (f \<circ> intent_key) js = map (f \<circ> intent_key) is" for f :: "_ \<Rightarrow> 'b"
    using arg_cong [OF assms, of "map f"] by simp
  have s: "(f \<circ> intent_key) ` set js = (f \<circ> intent_key) ` set is" for f :: "_ \<Rightarrow> 'b"
    using arg_cong [OF m, of set] by simp
  show "ni_transition ` set js = ni_transition ` set is" using s [of "\<lambda>(_, _, t, _). t"] by (simp add: intent_key_def comp_def)
  show "ni_alert ` set js = ni_alert ` set is" using s [of "\<lambda>(_, a, _, _). a"] by (simp add: intent_key_def comp_def)
  show "ni_kind ` set js = ni_kind ` set is" using s [of "\<lambda>(_, _, _, k). k"] by (simp add: intent_key_def comp_def)
  have f: "length (filter (\<lambda>i. intent_of i a k) xs) = length (filter (\<lambda>(_, b, _, l). b = al_id a \<and> l = k) (map intent_key xs))" for xs
    by (simp add: filter_map comp_def intent_key_def intent_of_def)
  show "length (filter (\<lambda>i. intent_of i a k) js) = length (filter (\<lambda>i. intent_of i a k) is)" unfolding f assms ..
qed

lemma same_alerts_inv:
  assumes "same_alerts db db'"
  shows "alerts_inv H db \<Longrightarrow> alerts_inv H db'" "intents_inv db \<Longrightarrow> intents_inv db'"
proof -
  have a: "o_alerts db' = o_alerts db" "o_transitions db' = o_transitions db" and m: "map intent_key (o_intents db') = map intent_key (o_intents db)"
    using assms by (auto simp: same_alerts_def)
  note i = intents_unchanged [OF m]
  have wf: "alerts_wf db' = alerts_wf db" using a i(1) by (simp add: alerts_wf_def recorded_def)
  show "alerts_inv H db \<Longrightarrow> alerts_inv H db'" using a wf by (simp add: alerts_inv_def)
  have n: "notified db' x = notified db x" for x using i(3) by (simp add: notified_def intents_for_def)
  have all: "(\<forall>i \<in> set is. ni_alert i \<in> A \<and> ni_kind i \<in> K) \<longleftrightarrow> ni_alert ` set is \<subseteq> A \<and> ni_kind ` set is \<subseteq> K" for A K "is"
    by auto
  have eq: "(\<forall>i \<in> set (o_intents db'). ni_alert i \<in> A \<and> ni_kind i \<in> K) \<longleftrightarrow> (\<forall>i \<in> set (o_intents db). ni_alert i \<in> A \<and> ni_kind i \<in> K)" for A K
    unfolding all i(2,4) ..
  show "intents_inv db'" if "intents_inv db"
    using that unfolding intents_inv_def a wf n eq .
qed

lemma apply_checks_keeps: "keeps same_alerts (apply_checks hs)"
proof (induction hs)
  case (Cons h hs)
  have "keeps same_alerts (apply_check h)"
    unfolding apply_check_def by (intro keeps_alerts alerts.keeps_change) (simp_all add: same_alerts_def)
  then show ?case using Cons by (simp add: keeps_alerts)
qed (simp add: keeps_alerts)

lemma ApplyChecks_keeps: "keeps same_alerts (ApplyChecks E hs)"
  unfolding ApplyChecks_def by (intro keeps_alerts apply_checks_keeps)

lemma HealthWorker_keeps: "keeps same_alerts (HealthWorker_EvaluateOnce E now)"
proof -
  have "keeps same_alerts (evaluate_rows E now ts)" for ts
    by (induction ts) (simp_all add: keeps_alerts ApplyChecks_keeps)
  then show ?thesis unfolding HealthWorker_EvaluateOnce_def by (intro keeps_alerts)
qed

lemma claim_intent_keeps: "keeps same_alerts (ClaimNext_intent E)"
  unfolding ClaimNext_intent_def
  by (intro keeps_alerts alerts.keeps_change) (simp add: same_alerts_def update_where_def intent_key_def)

lemma LinkDelivery_keeps: "keeps same_alerts (LinkDelivery E i r d)"
  unfolding LinkDelivery_def by (intro keeps_alerts alerts.keeps_change) (simp add: same_alerts_def)

lemma MarkExpanded_keeps: "keeps same_alerts (MarkExpanded E i)"
  unfolding MarkExpanded_def by (intro keeps_alerts alerts.keeps_change) (simp add: same_alerts_def update_where_def intent_key_def)

lemma in_deliveries_keeps: "keeps same_alerts (in_deliveries m)"
  by (auto simp: keeps_def in_deliveries_def same_alerts_def split: prod.splits sum.splits)

lemma delivery_creator_keeps: "keeps same_alerts (delivery_creator E D channel provider address locale key)"
  unfolding delivery_creator_def by (intro keeps_alerts in_deliveries_keeps)

lemma keeps_some_then: "(\<And>x. v = Some x \<Longrightarrow> keeps same_alerts (f x)) \<Longrightarrow> keeps same_alerts (andThen (some_or e v) f)"
  by (cases v) (simp_all add: keeps_def andThen_def some_or_def ok_def fail_def alerts.frame_refl)

lemma ProcessNext_intent_keeps:
  assumes "\<And>create c p a l k. creator = Some create \<Longrightarrow> keeps same_alerts (create c p a l k)"
  shows "keeps same_alerts (ProcessNext_intent E creator)"
proof -
  have "keeps same_alerts (expand_recipients E create i rs)" if "creator = Some create" for create i rs
    by (induction rs) (simp_all add: expand_recipient_def keeps_alerts assms [OF that] LinkDelivery_keeps)
  then show ?thesis
    unfolding ProcessNext_intent_def ListEnabledRecipients_def
    by (intro keeps_alerts keeps_some_then claim_intent_keeps MarkExpanded_keeps)
qed


section \<open>Runs of the Manager\<close>

text \<open>The health worker, the alert engine, the notification worker (with the delivery service, if there is one), the delivery
  queue, and other sessions that store checks, telemetry and recipients.\<close>

datatype obs_op = Op_health | Op_checks "HealthCheck list" | Op_alerts | Op_notify "dlv_env option" | Op_delivery "dlv_env \<times> dlv_op"
  | Op_telemetry "telemetry_row table" | Op_recipients "NotificationRecipient table"

definition set_recipients :: "NotificationRecipient table \<Rightarrow> obs_db \<Rightarrow> obs_db" where
  "set_recipients rs db = db\<lparr>o_recipients := rs,
     o_links := map (\<lambda>l. if nl_recipient l \<in> Some ` nr_id ` set rs then l else l\<lparr>nl_recipient := None\<rparr>) (o_links db)\<rparr>"

definition obs_exec :: "obs_env \<Rightarrow> time \<Rightarrow> obs_op \<Rightarrow> obs_db \<Rightarrow> obs_db" where
  "obs_exec E now p db =
     (case p of
        Op_health \<Rightarrow> snd (HealthWorker_EvaluateOnce E now db)
      | Op_checks hs \<Rightarrow> snd (ApplyChecks E hs db)
      | Op_alerts \<Rightarrow> snd (EvaluateOnce E now db)
      | Op_notify D \<Rightarrow> snd (ProcessNext_intent E (map_option (delivery_creator E) D) db)
      | Op_delivery q \<Rightarrow> db\<lparr>o_deliveries := dlv_exec q (o_deliveries db)\<rparr>
      | Op_telemetry ts \<Rightarrow> db\<lparr>o_telemetry := ts\<rparr>
      | Op_recipients rs \<Rightarrow> set_recipients rs db)"

definition seen :: "obs_env \<Rightarrow> time \<Rightarrow> obs_op \<Rightarrow> obs_db \<Rightarrow> evaluation list" where
  "seen E now p db =
     (case p of
        Op_alerts \<Rightarrow> evaluations E now (sort_key (\<lambda>h. (rs_type (hc_resource h), rs_id (hc_resource h), hc_key h)) (o_health db)) db
      | _ \<Rightarrow> [])"

fun obs_run :: "(obs_env \<times> time \<times> obs_op) list \<Rightarrow> obs_db \<times> evaluation list \<Rightarrow> obs_db \<times> evaluation list" where
  "obs_run [] s = s"
| "obs_run ((E, now, p) # es) (db, H) = obs_run es (obs_exec E now p db, seen E now p db @ H)"

definition no_alerts :: "obs_db \<Rightarrow> bool" where
  "no_alerts db \<longleftrightarrow> o_alerts db = [] \<and> o_transitions db = [] \<and> o_intents db = []"

lemma EvaluateOnce_run:
  "snd (EvaluateOnce E now db) =
     snd (evaluate_checks E now (sort_key (\<lambda>h. (rs_type (hc_resource h), rs_id (hc_resource h), hc_key h)) (o_health db)) db)"
  by (simp add: EvaluateOnce_def ListCurrentHealth_def andThen_def look_def)

lemma obs_exec_same:
  assumes "p \<noteq> Op_alerts"
  shows "same_alerts db (obs_exec E now p db)"
proof (cases p)
  case (Op_notify D)
  have "keeps same_alerts (ProcessNext_intent E (map_option (delivery_creator E) D))"
    by (rule ProcessNext_intent_keeps) (auto intro: delivery_creator_keeps)
  then show ?thesis using Op_notify by (simp add: obs_exec_def keeps_def)
next
  case Op_health
  then show ?thesis using HealthWorker_keeps by (simp add: obs_exec_def keeps_def)
next
  case (Op_checks hs)
  then show ?thesis using ApplyChecks_keeps by (simp add: obs_exec_def keeps_def)
qed (use assms in \<open>simp_all add: obs_exec_def same_alerts_def set_recipients_def\<close>)

lemma obs_exec_inv:
  assumes "alerts_inv H db" "intents_inv db"
  shows "alerts_inv (seen E now p db @ H) (obs_exec E now p db) \<and> intents_inv (obs_exec E now p db)"
proof (cases "p = Op_alerts")
  case True
  then show ?thesis using evaluate_checks_inv [OF assms(1)] evaluate_checks_intents [OF assms(2)]
    by (simp add: obs_exec_def seen_def EvaluateOnce_run)
next
  case False
  then have "seen E now p db = []" by (cases p) (simp_all add: seen_def)
  then show ?thesis using same_alerts_inv [OF obs_exec_same [OF False]] assms by simp
qed

lemma obs_run_inv:
  "alerts_inv H db \<Longrightarrow> intents_inv db \<Longrightarrow> obs_run es (db, H) = (db', H') \<Longrightarrow> alerts_inv H' db' \<and> intents_inv db'"
proof (induction es arbitrary: db H)
  case (Cons e es)
  obtain E now p where e: "e = (E, now, p)" by (cases e)
  from obs_exec_inv [OF Cons.prems(1,2), of E now p] show ?case
    using Cons.IH [of "seen E now p db @ H" "obs_exec E now p db"] Cons.prems(3) by (simp add: e)
qed simp

lemma no_alerts_inv: "no_alerts db \<Longrightarrow> alerts_inv [] db \<and> intents_inv db"
  by (simp add: no_alerts_def alerts_inv_def intents_inv_def alerts_wf_def recorded_def)

text \<open>C36. Every alert is explained by the evaluations that the engine made.  Take any interleaving of health checks, alert
  evaluations (with any failure, rollback or lost answer of their statements), notification and delivery work.  If an
  alert fired at \<open>t\<close>, then an evaluation at its start and every successful evaluation of its fingerprint until \<open>t\<close> found
  the condition triggered, and the delay of the severity seen at \<open>t\<close> had passed: at least 30 seconds, for a warning two
  minutes, and three minutes when an earlier episode of the fingerprint was resolved less than five minutes before the
  start.  If it was then resolved at \<open>u\<close>, the condition had been clear since an evaluation after the firing and at least
  60 seconds before \<open>u\<close>, and no successful evaluation in between found it triggered.  At most one alert of a
  fingerprint is active, and it is the latest.\<close>

theorem alerts_explained_by_history:
  assumes "no_alerts db0" "obs_run es (db0, []) = (db, H)" "j < length (o_alerts db)" "b = o_alerts db ! j"
    and "K = history_of (al_fingerprint b) H"
  shows "(al_state b = AlertPending \<longrightarrow> pending_since (al_started b) K)
     \<and> (\<forall>t. al_firing b = Some t \<longrightarrow> fired_at (al_started b) t K)
     \<and> (\<forall>t u. al_firing b = Some t \<longrightarrow> al_resolved b = Some u \<longrightarrow> resolved_at (al_started b) t u K)
     \<and> (\<forall>i < j. al_fingerprint (o_alerts db ! i) = al_fingerprint b \<longrightarrow>
          (\<exists>v. al_resolved (o_alerts db ! i) = Some v
             \<and> (\<forall>t. al_firing b = Some t \<longrightarrow> al_started b < v + AlertFlapWindow \<longrightarrow> al_started b + AlertFlapFireDelay \<le> t)))"
proof -
  have inv: "alerts_inv H db" using obs_run_inv [of "[]" db0 es] no_alerts_inv [OF assms(1)] assms(2) by blast
  have b: "alert_ok b" "explained H b" using inv assms(3,4) by (auto simp: alerts_inv_def)
  have eps: "episodes (o_alerts db ! i) b" "alert_ok (o_alerts db ! i)" if "i < j" for i
    using inv assms(3,4) that by (auto simp: alerts_inv_def sorted_wrt_iff_nth_less)
  have "\<exists>v. al_resolved (o_alerts db ! i) = Some v
       \<and> (\<forall>t. al_firing b = Some t \<longrightarrow> al_started b < v + AlertFlapWindow \<longrightarrow> al_started b + AlertFlapFireDelay \<le> t)"
    if i: "i < j" and same: "al_fingerprint (o_alerts db ! i) = al_fingerprint b" for i
  proof -
    have "al_state (o_alerts db ! i) = AlertResolved" using eps(1) [OF i] same by (simp add: episodes_def)
    then obtain v where "al_resolved (o_alerts db ! i) = Some v" using eps(2) [OF i] by (auto simp: alert_ok_def)
    then show ?thesis using eps(1) [OF i] same by (auto simp: episodes_def)
  qed
  then show ?thesis using b unfolding assms(5)
    by (auto simp: explained_def alert_ok_def Let_def split: AlertState.splits option.splits)
qed

text \<open>C37. The notification intents match the incidents exactly, over every interleaving and every fate of the transactions: an
  alert that fired has one intent for its firing, one for its resolution when it was resolved and none otherwise, and
  at most one for its escalation, which only a critical incident has; an episode that never fired has none.  No intent
  is without its alert.\<close>

theorem intents_match_incidents:
  assumes "no_alerts db0" "obs_run es (db0, []) = (db, H)"
  shows "(\<forall>a \<in> set (o_alerts db).
       intents_for db a ''firing'' = (if al_firing a = None then 0 else 1)
       \<and> intents_for db a ''resolved'' = (if al_firing a = None \<or> al_state a \<noteq> AlertResolved then 0 else 1)
       \<and> intents_for db a ''escalated'' \<le> (if al_firing a = None \<or> al_severity a = SeverityWarning then 0 else 1))
     \<and> ni_alert ` set (o_intents db) \<subseteq> al_id ` set (o_alerts db)"
proof -
  have "intents_inv db" using obs_run_inv [of "[]" db0 es] no_alerts_inv [OF assms(1)] assms(2) by blast
  then show ?thesis by (auto simp: intents_inv_def notified_def)
qed


section \<open>Examples\<close>

text \<open>A node is unhealthy for 40 seconds: its alert fires after 30 seconds and is resolved when the evidence has been clear for a
  minute.\<close>

definition xo_check :: HealthCheck where
  "xo_check = \<lparr>hc_key = ''k'', hc_resource = \<lparr>rs_type = ''s'', rs_id = ''i''\<rparr>, hc_component = ''c'', hc_state = HealthUnhealthy,
     hc_required = True, hc_reason = ''r'', hc_summary = ''m'', hc_action = [], hc_observed = 0, hc_expires = Some (seconds 40)\<rparr>"

definition xo_db :: obs_db where
  "xo_db = \<lparr>o_health = [xo_check], o_changes = [], o_telemetry = [], o_alerts = [], o_transitions = [], o_intents = [],
     o_recipients = [], o_links = [], o_deliveries = empty_queue, o_seq = 0\<rparr>"

definition xo_env :: obs_env where
  "xo_env = \<lparr>oe_gen = (\<lambda>n. replicate n CHR ''a''), oe_now = 0, oe_clock = 0, oe_locked = (\<lambda>_. False), oe_fate = (\<lambda>_ _. Committed)\<rparr>"

definition xo_events :: "(obs_env \<times> time \<times> obs_op) list" where
  "xo_events = map (\<lambda>n. (xo_env, seconds n, Op_alerts)) [0, 30, 60, 120]"

lemma xo_text: "TrimSpace ''k'' = ''k''" "TrimSpace ''s'' = ''s''" "TrimSpace ''i'' = ''i''" "TrimSpace ''r'' = ''r''" "TrimSpace ''m'' = ''m''"
  by (simp_all add: TrimSpace_clean space_byte_def)

lemmas evaluation_defs = obs_exec_def seen_def EvaluateOnce_def ListCurrentHealth_def evaluateCheck_def ActiveByFingerprint_def
  EvaluateAlertCondition_def EffectiveState_def severity_of_def alertFingerprint_def freshness_key_def recoverIfNeeded_def CreatePending_def
  clear_recovery_def follow_severity_def severity_changed_def fire_or_touch_def touch_active_def FireIfPending_def ResolveIfActive_def
  StartRecovery_def LastResolvedAt_def effectiveFireDelay_def update_alerts_def insert_transition_def insertNotificationIntent_def
  fresh_id_def committed_def effect_run rows_affected_def update_where_def select_def alert_ok_def blank_def active_alert_def
  AlertState_Active_def pending_alert_def fired_def resolved_def new_intent_def evaluation_of_def severity_seen_def fingerprint_of_def

lemma xo_run:
  "\<exists>db H. obs_run xo_events (xo_db, []) = (db, H) \<and> (\<exists>a. o_alerts db = [a] \<and> al_started a = 0 \<and> al_firing a = Some (seconds 30) \<and> al_resolved a = Some (seconds 120)
     \<and> al_state a = AlertResolved \<and> al_fingerprint a = ''k:s:i'')"
  by (simp add: xo_events_def xo_db_def xo_env_def xo_check_def xo_text evaluation_defs Let_def List.map_filter_def
     AlertCriticalFireDelay_def AlertWarningFireDelay_def AlertRecoveryDelay_def seconds_def)

theorem alerts_explained_by_history_witness:
  "\<exists>db H a. obs_run xo_events (xo_db, []) = (db, H) \<and> o_alerts db = [a] \<and> fired_at 0 (seconds 30) (history_of ''k:s:i'' H)
     \<and> resolved_at 0 (seconds 30) (seconds 120) (history_of ''k:s:i'' H)"
proof -
  obtain db H a where r: "obs_run xo_events (xo_db, []) = (db, H)" "o_alerts db = [a]" "al_started a = 0" "al_firing a = Some (seconds 30)"
    "al_resolved a = Some (seconds 120)" "al_fingerprint a = ''k:s:i''"
    using xo_run by blast
  have "no_alerts xo_db" by (simp add: no_alerts_def xo_db_def)
  moreover have "0 < length (o_alerts db)" "a = o_alerts db ! 0" using r(2) by simp_all
  ultimately have e: "(\<forall>t. al_firing a = Some t \<longrightarrow> fired_at (al_started a) t (history_of (al_fingerprint a) H))"
    "(\<forall>t u. al_firing a = Some t \<longrightarrow> al_resolved a = Some u \<longrightarrow> resolved_at (al_started a) t u (history_of (al_fingerprint a) H))"
    using alerts_explained_by_history [OF _ r(1) _ _ refl] by blast+
  have "fired_at 0 (seconds 30) (history_of ''k:s:i'' H)" using e(1) r(4) unfolding r(3,6) by blast
  moreover have "resolved_at 0 (seconds 30) (seconds 120) (history_of ''k:s:i'' H)" using e(2) r(4,5) unfolding r(3,6) by blast
  ultimately show ?thesis using r(1,2) by blast
qed

theorem intents_match_incidents_witness:
  "\<exists>db H a. obs_run xo_events (xo_db, []) = (db, H) \<and> o_alerts db = [a] \<and> intents_for db a ''firing'' = 1 \<and> intents_for db a ''resolved'' = 1"
proof -
  obtain db H a where r: "obs_run xo_events (xo_db, []) = (db, H)" "o_alerts db = [a]" "al_firing a = Some (seconds 30)"
    "al_state a = AlertResolved"
    using xo_run by blast
  have "no_alerts xo_db" by (simp add: no_alerts_def xo_db_def)
  from intents_match_incidents [OF this r(1)] r show ?thesis by auto
qed

end
