(* ===== verification/Notification_Safety.thy ===== *)
theory Notification_Safety
  imports Alert_Safety Golib
begin

text \<open>
  The expansion of notification intents into deliveries.  The worker depends on an interface, a creator of
  deliveries that is idempotent by key; the locale states its contract and derives what an expansion
  guarantees, and the delivery service is shown to satisfy it.
\<close>

section \<open>The contract of a creator\<close>

text \<open>\<open>keyed s k\<close> are the requests stored under a key: channel, provider, recipient and template.\<close>

definition request_of :: "NotificationRecipient \<Rightarrow> string \<times> string \<times> string \<times> string" where
  "request_of r = (TrimSpace (nr_channel r), TrimSpace (nr_provider r), TrimSpace (nr_address r), ''system_notification'')"

lemma notification_key: "TrimSpace (notificationDeliveryIdempotencyKey i r) \<noteq> []"
  using TrimSpace_head [of "notificationDeliveryIdempotencyKey i r"]
  by (simp add: notificationDeliveryIdempotencyKey_def space_byte_def)

lemma LinkDelivery_rest:
  assumes "LinkDelivery E i r d s = (x, s')"
  shows "o_deliveries s' = o_deliveries s \<and> o_recipients s' = o_recipients s \<and> o_intents s' = o_intents s"
  using assms unfolding LinkDelivery_def
proof (cases rule: committed_cases)
  case (written y)
  then show ?thesis by (auto simp: effect_defs split: if_splits)
qed simp

lemma MarkExpanded_Inr:
  assumes "MarkExpanded E i s = (Inr x, s')"
  shows "o_deliveries s' = o_deliveries s \<and> o_intents s' = update_where (\<lambda>j. ni_id j = i \<and> ni_expanded j = None)
     (\<lambda>j. j\<lparr>ni_expanded := Some (oe_clock E), ni_claimed := None\<rparr>) (o_intents s)"
  using assms unfolding MarkExpanded_def
proof (cases rule: committed_cases)
  case (written y)
  then show ?thesis by (auto simp: effect_defs)
qed simp

lemma ClaimNext_intent_Inr:
  assumes "ClaimNext_intent E s = (Inr (Some i), s')"
  shows "i \<in> set (o_intents s) \<and> intent_claimable E i \<and> o_deliveries s' = o_deliveries s \<and> o_recipients s' = o_recipients s
     \<and> o_intents s' = update_where (\<lambda>j. ni_id j = ni_id i) (\<lambda>j. j\<lparr>ni_claimed := Some (oe_clock E)\<rparr>) (o_intents s)"
  using assms unfolding ClaimNext_intent_def
proof (cases rule: committed_cases)
  case (written y)
  moreover have "y = Some i" using written(2) by simp
  ultimately obtain j where j: "least_by (\<lambda>i. (ni_created i, ni_id i)) (select (intent_claimable E) (o_intents s)) = Some j" "j = i"
    "s' = s\<lparr>o_intents := update_where (\<lambda>k. ni_id k = ni_id j) (\<lambda>j. j\<lparr>ni_claimed := Some (oe_clock E)\<rparr>) (o_intents s)\<rparr>"
    by (auto simp: effect_defs split: option.splits)
  show ?thesis using least_by_mem [OF j(1)] j(2,3) by (auto simp: select_def)
qed simp

locale notification_creator =
  fixes create :: SystemNotificationCreator
    and valid :: "dlv_db \<Rightarrow> bool"
    and keyed :: "dlv_db \<Rightarrow> string \<Rightarrow> (string \<times> string \<times> string \<times> string) list"
  assumes creates: "create c p a l k s = (Inr d, s') \<Longrightarrow> valid (o_deliveries s) \<Longrightarrow> TrimSpace k \<noteq> [] \<Longrightarrow>
      keyed (o_deliveries s') k = [(TrimSpace c, TrimSpace p, TrimSpace a, ''system_notification'')]"
    and valid_kept: "create c p a l k s = (x, s') \<Longrightarrow> valid (o_deliveries s) \<Longrightarrow> valid (o_deliveries s')"
    and keyed_kept: "create c p a l k s = (x, s') \<Longrightarrow> valid (o_deliveries s) \<Longrightarrow> TrimSpace k' \<noteq> [] \<Longrightarrow> keyed (o_deliveries s) k' \<noteq> [] \<Longrightarrow>
      keyed (o_deliveries s') k' = keyed (o_deliveries s) k'"
    and recipients_kept: "create c p a l k s = (x, s') \<Longrightarrow> o_recipients s' = o_recipients s \<and> o_intents s' = o_intents s"
begin

lemma expand_recipient_run:
  assumes run: "expand_recipient E create i r s = (x, s')" and v: "valid (o_deliveries s)"
  shows "valid (o_deliveries s')" "o_recipients s' = o_recipients s" "o_intents s' = o_intents s"
    "TrimSpace k \<noteq> [] \<Longrightarrow> keyed (o_deliveries s) k \<noteq> [] \<Longrightarrow> keyed (o_deliveries s') k = keyed (o_deliveries s) k"
    "x = Inr y \<Longrightarrow> keyed (o_deliveries s') (notificationDeliveryIdempotencyKey i (nr_id r)) = [request_of r]"
proof -
  let ?k = "notificationDeliveryIdempotencyKey i (nr_id r)"
  obtain z s1 where c: "create (nr_channel r) (nr_provider r) (nr_address r) (nr_locale r) ?k s = (z, s1)" by fastforce
  have rest: "o_deliveries s' = o_deliveries s1 \<and> o_recipients s' = o_recipients s1 \<and> o_intents s' = o_intents s1"
    using run c by (cases z) (auto simp: expand_recipient_def andThen_def dest: LinkDelivery_rest)
  show "valid (o_deliveries s')" using rest valid_kept [OF c v] by simp
  show "o_recipients s' = o_recipients s" "o_intents s' = o_intents s" using rest recipients_kept [OF c] by simp_all
  show "TrimSpace k \<noteq> [] \<Longrightarrow> keyed (o_deliveries s) k \<noteq> [] \<Longrightarrow> keyed (o_deliveries s') k = keyed (o_deliveries s) k"
    using rest keyed_kept [OF c v] by simp
  show "x = Inr y \<Longrightarrow> keyed (o_deliveries s') ?k = [request_of r]"
    using rest run c creates [of _ _ _ _ ?k s _ s1] v notification_key
    by (cases z) (auto simp: expand_recipient_def andThen_def request_of_def)
qed

lemma expand_recipients_run:
  assumes "expand_recipients E create i rs s = (x, s')" "valid (o_deliveries s)"
  shows "valid (o_deliveries s') \<and> o_recipients s' = o_recipients s \<and> o_intents s' = o_intents s
     \<and> (\<forall>k. TrimSpace k \<noteq> [] \<longrightarrow> keyed (o_deliveries s) k \<noteq> [] \<longrightarrow> keyed (o_deliveries s') k = keyed (o_deliveries s) k)
     \<and> (x = Inr y \<longrightarrow> (\<forall>r \<in> set rs. keyed (o_deliveries s') (notificationDeliveryIdempotencyKey i (nr_id r)) = [request_of r]))"
  using assms
proof (induction rs arbitrary: s)
  case (Cons r rs)
  obtain z s1 where r: "expand_recipient E create i r s = (z, s1)" by fastforce
  note one = expand_recipient_run [OF r Cons.prems(2)]
  show ?case
  proof (cases z)
    case (Inl e)
    then show ?thesis using Cons.prems r one by (auto simp: andThen_def)
  next
    case (Inr u)
    then have "expand_recipients E create i rs s1 = (x, s')" using Cons.prems r by (simp add: andThen_def)
    note two = Cons.IH [OF this one(1)]
    have first: "keyed (o_deliveries s') (notificationDeliveryIdempotencyKey i (nr_id r)) = [request_of r]"
      using two one(5) [OF Inr] notification_key by simp
    show ?thesis using first two one(2,3,4) by auto
  qed
qed (simp add: ok_def)

lemma expansion_run:
  assumes run: "ProcessNext_intent E (Some create) s = (Inr True, s')" and v: "valid (o_deliveries s)"
  shows "\<exists>i \<in> set (o_intents s). ni_expanded i = None \<and> (\<exists>j \<in> set (o_intents s'). ni_id j = ni_id i \<and> ni_expanded j \<noteq> None)
     \<and> valid (o_deliveries s')
     \<and> (\<forall>r \<in> set (o_recipients s). nr_enabled r \<and> nr_provider r \<in> {''smtp'', ''telegram''} \<longrightarrow>
          keyed (o_deliveries s') (notificationDeliveryIdempotencyKey (ni_id i) (nr_id r)) = [request_of r])"
proof -
  obtain i s1 s2 rs u where c: "ClaimNext_intent E s = (Inr (Some i), s1)" and rs: "ListEnabledRecipients s1 = (Inr rs, s1)"
    and e: "expand_recipients E create (ni_id i) rs s1 = (Inr u, s2)" and m: "MarkExpanded E (ni_id i) s2 = (Inr (), s')"
    using run unfolding ProcessNext_intent_def andThen_Inr
    by (auto simp: effect_defs ListEnabledRecipients_def split: option.splits)
  note claim = ClaimNext_intent_Inr [OF c]
  have v1: "valid (o_deliveries s1)" using v claim by simp
  note ex = expand_recipients_run [OF e v1]
  note mark = MarkExpanded_Inr [OF m]
  have none: "ni_expanded i = None" using claim by (simp add: intent_claimable_def)
  have held: "i\<lparr>ni_claimed := Some (oe_clock E)\<rparr> \<in> set (o_intents s2)" using claim ex by (auto simp: update_where_def)
  have j: "\<exists>j \<in> set (o_intents s'). ni_id j = ni_id i \<and> ni_expanded j \<noteq> None"
  proof
    show "i\<lparr>ni_expanded := Some (oe_clock E), ni_claimed := None\<rparr> \<in> set (o_intents s')"
      using held none unfolding mark [THEN conjunct2] update_where_def set_map
      by (intro image_eqI [OF _ held]) simp
  qed simp
  have "keyed (o_deliveries s') (notificationDeliveryIdempotencyKey (ni_id i) (nr_id r)) = [request_of r]"
    if "r \<in> set (o_recipients s)" "nr_enabled r" "nr_provider r \<in> {''smtp'', ''telegram''}" for r
  proof -
    have "r\<lparr>nr_locale := notificationRecipientLocale (nr_locale r)\<rparr> \<in> set rs"
      using rs that claim by (auto simp: ListEnabledRecipients_def look_def select_def)
    then show ?thesis using ex mark by (force simp: request_of_def)
  qed
  then show ?thesis using claim none j ex mark by auto
qed

end

section \<open>The delivery service as a creator\<close>

definition stored :: "Delivery \<Rightarrow> string \<times> string \<times> string \<times> string \<times> string \<times> string" where
  "stored d = (dl_id d, dl_key d, dl_channel d, dl_provider d, dl_recipient d, dl_template d)"

definition same_requests :: "dlv_db \<Rightarrow> dlv_db \<Rightarrow> bool" where
  "same_requests db db' \<longleftrightarrow> map stored (dv_rows db') = map stored (dv_rows db)"

definition unique_keys :: "dlv_db \<Rightarrow> bool" where
  "unique_keys db \<longleftrightarrow> distinct (filter (\<lambda>k. k \<noteq> []) (map dl_key (dv_rows db)))"

definition requests :: "dlv_db \<Rightarrow> string \<Rightarrow> (string \<times> string \<times> string \<times> string) list" where
  "requests db k = map (\<lambda>d. (dl_channel d, dl_provider d, dl_recipient d, dl_template d)) (filter (\<lambda>d. dl_key d = TrimSpace k) (dv_rows db))"

lemma same_requests_eq:
  assumes "same_requests db db'"
  shows "unique_keys db' = unique_keys db" "requests db' k = requests db k"
proof -
  have k: "map dl_key rows = map (\<lambda>(_, k, _). k) (map stored rows)" for rows by (simp add: stored_def)
  show "unique_keys db' = unique_keys db" using assms unfolding unique_keys_def k same_requests_def by simp
  have r: "map (\<lambda>d. (dl_channel d, dl_provider d, dl_recipient d, dl_template d)) (filter (\<lambda>d. dl_key d = TrimSpace k) rows)
      = map (\<lambda>(_, _, x). x) (filter (\<lambda>(_, l, _). l = TrimSpace k) (map stored rows))" for rows
    by (simp add: filter_map comp_def stored_def)
  show "requests db' k = requests db k" using assms unfolding requests_def r same_requests_def by simp
qed

interpretation requests: frame same_requests
  by unfold_locales (simp_all add: same_requests_def)

text \<open>What the delivery service does for a request: it stores the request under a key that had none, or finds the same
  request under the key.\<close>

definition matches :: "Delivery \<Rightarrow> CreateInput \<Rightarrow> bool" where
  "matches d i \<longleftrightarrow>
     dl_channel d = TrimSpace (in_channel i) \<and> dl_provider d = TrimSpace (in_provider i) \<and> dl_recipient d = TrimSpace (in_recipient i)
     \<and> dl_template d = TrimSpace (in_template i)"

lemma Repository_Create_request:
  assumes "Repository_Create E (normalizeCreateInput input) db = (r, db')"
  shows "db' = db \<and> (\<forall>d. r \<noteq> Inr (d, True))
     \<or> (\<exists>d. dv_rows db' = dv_rows db @ [d] \<and> dl_key d = TrimSpace (in_key input) \<and> matches d input
          \<and> (dl_key d = [] \<or> dl_key d \<notin> dl_key ` set (dv_rows db)) \<and> r = Inr (d, True))"
proof (cases r)
  case (Inl e)
  with assms have "db' = db" unfolding Repository_Create_def Let_def by (auto dest: atomically_Inl)
  then show ?thesis using Inl by simp
next
  case (Inr x)
  obtain d c where x: "x = (d, c)" by (cases x)
  have new: "dl_key (new_delivery E i u a v t k) = in_key i" "dl_channel (new_delivery E i u a v t k) = in_channel i"
    "dl_provider (new_delivery E i u a v t k) = in_provider i" "dl_recipient (new_delivery E i u a v t k) = in_recipient i"
    "dl_template (new_delivery E i u a v t k) = in_template i" for i u a v t k
    by (simp_all add: new_delivery_def)
  from assms have "Repository_Create E (normalizeCreateInput input) db = (Inr (d, c), db')" by (simp add: Inr x)
  from Repository_Create_Inr [OF this] show ?thesis
    by (auto simp: Inr x new matches_def normalizeCreateInput_def lookup_row_None Let_def)
qed

lemma Service_Create_request:
  assumes run: "Service_Create E input db = (r, db')"
  shows "dv_rows db' = dv_rows db
     \<or> (\<exists>d. dv_rows db' = dv_rows db @ [d] \<and> dl_key d = TrimSpace (in_key input) \<and> matches d input
          \<and> (dl_key d = [] \<or> dl_key d \<notin> dl_key ` set (dv_rows db)))"
    and "r = Inr (d, c) \<Longrightarrow> TrimSpace (in_key input) \<noteq> [] \<Longrightarrow>
      d \<in> set (dv_rows db') \<and> dl_key d = TrimSpace (in_key input) \<and> matches d input"
proof -
  obtain r1 s1 where r1: "Repository_Create E (normalizeCreateInput input) db = (r1, s1)" by fastforce
  note q = Repository_Create_request [OF r1]
  show "dv_rows db' = dv_rows db
     \<or> (\<exists>d. dv_rows db' = dv_rows db @ [d] \<and> dl_key d = TrimSpace (in_key input) \<and> matches d input
          \<and> (dl_key d = [] \<or> dl_key d \<notin> dl_key ` set (dv_rows db)))"
  proof -
    have "db' = db \<or> db' = s1"
      using run r1 by (auto simp: Service_Create_def effect_run Let_def split: if_splits sum.splits prod.splits)
    then show ?thesis using q by auto
  qed
  assume r: "r = Inr (d, c)" and key: "TrimSpace (in_key input) \<noteq> []"
  then have run': "Repository_Create E (normalizeCreateInput input) db = (Inr (d, c), db')" "c \<or> sameCreateRequest d (normalizeCreateInput input)"
    using run by (auto simp: Service_Create_def effect_defs Let_def)
  show "d \<in> set (dv_rows db') \<and> dl_key d = TrimSpace (in_key input) \<and> matches d input"
  proof (cases c)
    case True
    then show ?thesis using Repository_Create_request [OF run'(1)] by auto
  next
    case False
    then have "db' = db" "lookup_row dl_key (in_key (normalizeCreateInput (normalizeCreateInput input))) (dv_rows db) = Some d"
      using Repository_Create_Inr [OF run'(1)] by blast+
    moreover have "in_key (normalizeCreateInput (normalizeCreateInput input)) = TrimSpace (in_key input)"
      by (simp add: normalizeCreateInput_def Let_def)
    ultimately have "d \<in> set (dv_rows db') \<and> dl_key d = TrimSpace (in_key input)" using lookup_row_Some by metis
    moreover have "matches d input"
      using run'(2) False by (simp add: matches_def sameCreateRequest_def normalizeCreateInput_def Let_def)
    ultimately show ?thesis by blast
  qed
qed

lemma notification_create_run:
  assumes "CreateSystemNotification E c p a l k db = (r, db')"
  shows "dv_rows db' = dv_rows db
     \<or> (\<exists>d. dv_rows db' = dv_rows db @ [d] \<and> dl_key d = TrimSpace k \<and> (dl_key d = [] \<or> dl_key d \<notin> dl_key ` set (dv_rows db)))"
    and "r = Inr u \<Longrightarrow> TrimSpace k \<noteq> [] \<Longrightarrow> \<exists>d \<in> set (dv_rows db'). dl_key d = TrimSpace k
      \<and> (dl_channel d, dl_provider d, dl_recipient d, dl_template d) = (TrimSpace c, TrimSpace p, TrimSpace a, ''system_notification'')"
proof -
  let ?i = "\<lparr>in_account = [], in_device = [], in_token = [], in_channel = c, in_provider = p, in_recipient = a,
     in_template = ''system_notification'', in_locale = l, in_attach_qr = False, in_max = 5, in_key = k, in_creator = []\<rparr>"
  obtain r1 s1 where r1: "Service_Create E ?i db = (r1, s1)" by fastforce
  have s1: "db' = s1" using assms r1 by (auto simp: CreateSystemNotification_def andThen_def ok_def split: sum.splits prod.splits)
  show "dv_rows db' = dv_rows db
     \<or> (\<exists>d. dv_rows db' = dv_rows db @ [d] \<and> dl_key d = TrimSpace k \<and> (dl_key d = [] \<or> dl_key d \<notin> dl_key ` set (dv_rows db)))"
    using Service_Create_request(1) [OF r1] s1 by auto
  assume "r = Inr u" "TrimSpace k \<noteq> []"
  moreover from this obtain d x where "r1 = Inr (d, x)" using assms r1 by (cases r1) (auto simp: CreateSystemNotification_def andThen_def)
  moreover have "TrimSpace ''system_notification'' = ''system_notification''"
    by (rule TrimSpace_edges) (simp_all add: space_byte_def)
  ultimately show "\<exists>d \<in> set (dv_rows db'). dl_key d = TrimSpace k
      \<and> (dl_channel d, dl_provider d, dl_recipient d, dl_template d) = (TrimSpace c, TrimSpace p, TrimSpace a, ''system_notification'')"
    using Service_Create_request(2) [OF r1, of d x] s1 by (intro bexI [where x = d]) (simp_all add: matches_def)
qed

lemma unique_request:
  assumes "unique_keys db" "d \<in> set (dv_rows db)" "dl_key d = TrimSpace k" "TrimSpace k \<noteq> []"
  shows "requests db k = [(dl_channel d, dl_provider d, dl_recipient d, dl_template d)]"
proof -
  have "filter (\<lambda>e. dl_key e = key) rows = [d]"
    if "distinct (filter (\<lambda>k. k \<noteq> []) (map dl_key rows))" "d \<in> set rows" "dl_key d = key" "key \<noteq> []" for rows key
    using that
  proof (induction rows)
    case (Cons e rows)
    show ?case
    proof (cases "dl_key e = key")
      case True
      then have k: "key \<notin> dl_key ` set rows" using Cons.prems by (auto simp: image_iff)
      then have "filter (\<lambda>e. dl_key e = key) rows = []" by (simp add: filter_empty_conv) (metis imageI)
      moreover have "d = e" using k Cons.prems(2,3) by auto
      ultimately show ?thesis using True by simp
    next
      case False
      then show ?thesis using Cons by (auto split: if_splits)
    qed
  qed simp
  from this [of "dv_rows db" "TrimSpace k"] show ?thesis using assms by (simp add: unique_keys_def requests_def)
qed

text \<open>An append of a request under a fresh key keeps the contract.\<close>

lemma appended_keeps:
  assumes "dv_rows db' = dv_rows db \<or> (\<exists>d. dv_rows db' = dv_rows db @ [d] \<and> (dl_key d = [] \<or> dl_key d \<notin> dl_key ` set (dv_rows db)))"
  shows "unique_keys db \<Longrightarrow> unique_keys db'"
    "TrimSpace k \<noteq> [] \<Longrightarrow> requests db k \<noteq> [] \<Longrightarrow> requests db' k = requests db k"
  using assms by (auto simp: unique_keys_def requests_def filter_empty_conv image_iff)

lemma in_deliveries_cases:
  assumes "committed fate (in_deliveries m) s = (r, s')"
  obtains (lost) e where "r = Inl e" "s' = s" | (ran) x dv where "m (o_deliveries s) = (Inr x, dv)" "s' = s\<lparr>o_deliveries := dv\<rparr>" "\<And>y. r = Inr y \<Longrightarrow> y = x"
  using assms
proof (cases rule: committed_cases)
  case (lost e)
  then show ?thesis by (rule that(1))
next
  case (written x)
  then show ?thesis using that(2) by (auto simp: in_deliveries_def split: sum.splits prod.splits)
qed

lemma delivery_creator_run:
  assumes run: "delivery_creator E D c p a l k s = (x, s')"
  shows "dv_rows (o_deliveries s') = dv_rows (o_deliveries s) \<or> (\<exists>d. dv_rows (o_deliveries s') = dv_rows (o_deliveries s) @ [d]
         \<and> (dl_key d = [] \<or> dl_key d \<notin> dl_key ` set (dv_rows (o_deliveries s))))" (is ?rows)
    and "o_recipients s' = o_recipients s \<and> o_intents s' = o_intents s"
    and "x = Inr u \<Longrightarrow> unique_keys (o_deliveries s) \<Longrightarrow> TrimSpace k \<noteq> [] \<Longrightarrow>
      requests (o_deliveries s') k = [(TrimSpace c, TrimSpace p, TrimSpace a, ''system_notification'')]"
proof -
  show rows: ?rows
    using run unfolding delivery_creator_def
  proof (cases rule: in_deliveries_cases)
    case (ran y dv)
    then show ?thesis using notification_create_run(1) [OF ran(1)] by auto
  qed simp
  show "o_recipients s' = o_recipients s \<and> o_intents s' = o_intents s"
    using run unfolding delivery_creator_def by (cases rule: in_deliveries_cases) auto
  assume x: "x = Inr u" and uniq: "unique_keys (o_deliveries s)" and k: "TrimSpace k \<noteq> []"
  have "unique_keys (o_deliveries s')" using appended_keeps(1) [OF rows] uniq .
  moreover obtain e where "e \<in> set (dv_rows (o_deliveries s'))" "dl_key e = TrimSpace k"
    "(dl_channel e, dl_provider e, dl_recipient e, dl_template e) = (TrimSpace c, TrimSpace p, TrimSpace a, ''system_notification'')"
    using run unfolding delivery_creator_def
  proof (cases rule: in_deliveries_cases)
    case (lost f)
    then show ?thesis using x by simp
  next
    case (ran y dv)
    then show ?thesis using that notification_create_run(2) [OF ran(1) refl k] by auto
  qed
  ultimately show "requests (o_deliveries s') k = [(TrimSpace c, TrimSpace p, TrimSpace a, ''system_notification'')]"
    using unique_request k by metis
qed

interpretation service: notification_creator "delivery_creator E D" unique_keys requests for E D
proof
  fix c p a l k s x s' k' d
  show "delivery_creator E D c p a l k s = (Inr d, s') \<Longrightarrow> unique_keys (o_deliveries s) \<Longrightarrow> TrimSpace k \<noteq> [] \<Longrightarrow>
      requests (o_deliveries s') k = [(TrimSpace c, TrimSpace p, TrimSpace a, ''system_notification'')]"
    using delivery_creator_run(3) by blast
  assume run: "delivery_creator E D c p a l k s = (x, s')"
  from appended_keeps(1) [OF delivery_creator_run(1) [OF run]] show "unique_keys (o_deliveries s) \<Longrightarrow> unique_keys (o_deliveries s')" .
  from appended_keeps(2) [OF delivery_creator_run(1) [OF run]] show "TrimSpace k' \<noteq> [] \<Longrightarrow> requests (o_deliveries s) k' \<noteq> [] \<Longrightarrow>
      requests (o_deliveries s') k' = requests (o_deliveries s) k'" .
  from delivery_creator_run(2) [OF run] show "o_recipients s' = o_recipients s \<and> o_intents s' = o_intents s" .
qed

section \<open>The queue keeps requests\<close>

lemma keeps_update_delivery: "(\<And>d. stored (f d) = stored d) \<Longrightarrow> keeps same_requests (update_delivery E i S f)"
  unfolding update_delivery_def
  by (intro requests.keeps_rules requests.keeps_change) (simp add: same_requests_def map_update_where)

lemmas keeps_requests = requests.keeps_rules keeps_update_delivery requests.keeps_change

lemma ProcessNext_requests: "keeps same_requests (ProcessNext E)"
proof -
  have c: "keeps same_requests (ClaimNext E)"
    unfolding ClaimNext_def by (intro keeps_requests) (simp_all add: same_requests_def map_update_where claimed_def stored_def)
  have f: "keeps same_requests (failBeforeSend E d f)" for d f
    unfolding failBeforeSend_def Let_def MarkRetrying_def MarkFailed_def markTerminal_def
    by (intro keeps_requests) (simp_all add: stored_def)
  have s: "keeps same_requests (send_message d p m)" for d p m
    unfolding send_message_def by (intro keeps_requests) (simp add: same_requests_def)
  have a: "keeps same_requests (applyProviderResult E d r)" for d r
    unfolding applyProviderResult_def Let_def MarkRetrying_def MarkFailed_def MarkUncertain_def markTerminal_def MarkSent_def MarkDelivered_def
    by (cases "pr_outcome r") (auto simp: stored_def intro!: keeps_requests)
  show ?thesis unfolding ProcessNext_def
    by (intro keeps_requests c) (auto intro!: keeps_requests f s a split: sum.splits)
qed

lemma dlv_exec_rows:
  "dv_rows (dlv_exec ev db) = dv_rows db \<or> (\<exists>d. dv_rows (dlv_exec ev db) = dv_rows db @ [d]
       \<and> (dl_key d = [] \<or> dl_key d \<notin> dl_key ` set (dv_rows db))) \<or> same_requests db (dlv_exec ev db)"
proof (cases "snd ev")
  case (Op_create input)
  then show ?thesis using Service_Create_request(1) [of "fst ev" input db] by (auto simp: dlv_exec_def Let_def prod_eq_iff)
next
  case Op_process
  then show ?thesis using ProcessNext_requests [of "fst ev"] by (simp add: dlv_exec_def keeps_def)
next
  case Op_restart
  have "keeps same_requests (RecoverSendingAfterRestart E)" for E
    unfolding RecoverSendingAfterRestart_def Let_def
    by (intro keeps_requests) (simp add: same_requests_def map_update_where stored_def)
  then show ?thesis using Op_restart by (simp add: dlv_exec_def keeps_def)
next
  case (Op_requeue j)
  have "keeps same_requests (Requeue E j)" for E
    unfolding Requeue_def by (intro keeps_requests) (simp add: stored_def)
  then show ?thesis using Op_requeue by (simp add: dlv_exec_def keeps_def)
qed


section \<open>Runs\<close>

definition same_queue :: "obs_db \<Rightarrow> obs_db \<Rightarrow> bool" where
  "same_queue db db' \<longleftrightarrow> o_deliveries db' = o_deliveries db"

interpretation queue: frame same_queue
  by unfold_locales (simp_all add: same_queue_def)

lemma keeps_queue_change: "(\<And>s. o_deliveries (f s) = o_deliveries s) \<Longrightarrow> keeps same_queue (change f)"
  by (rule queue.keeps_change) (simp add: same_queue_def)

lemma evaluateCheck_queue: "keeps same_queue (evaluateCheck E h now)"
proof -
  note rules = queue.keeps_rules committed_keeps [of same_queue, OF queue.frame_refl] keeps_queue_change
  have id: "keeps same_queue (fresh_id E)" unfolding fresh_id_def by (intro rules) simp
  have u: "keeps same_queue (update_alerts P f)" for P f unfolding update_alerts_def by (intro rules) simp
  have t: "keeps same_queue (insert_transition E a b c d e r n)" for a b c d e r n
    unfolding insert_transition_def by (intro rules id) simp
  have i: "keeps same_queue (insertNotificationIntent E a b c d e f g h)" for a b c d e f g h
    unfolding insertNotificationIntent_def by (intro rules id) simp
  have create: "keeps same_queue (CreatePending E c now)" for c
    unfolding CreatePending_def by (intro rules id t) simp
  have touch: "keeps same_queue (Touch E a m q now)" for a m q unfolding Touch_def by (intro rules u)
  have start: "keeps same_queue (StartRecovery E a now)" for a unfolding StartRecovery_def by (intro rules u)
  have clear: "keeps same_queue (ClearRecovery E a now)" for a unfolding ClearRecovery_def by (intro rules u)
  have sev: "keeps same_queue (ChangeSeverity E a c now)" for a c unfolding ChangeSeverity_def by (intro rules u t i)
  have fire: "keeps same_queue (FireIfPending E a c now)" for a c unfolding FireIfPending_def by (intro rules u t i)
  have res: "keeps same_queue (ResolveIfActive E a now)" for a unfolding ResolveIfActive_def by (intro rules u t i)
  have rec: "keeps same_queue (recoverIfNeeded E a now)" for a
    unfolding recoverIfNeeded_def by (intro rules res start)
  have act: "keeps same_queue (fire_or_touch E a c now)" for a c
    unfolding fire_or_touch_def touch_active_def LastResolvedAt_def by (intro rules fire touch)
  show ?thesis
    unfolding evaluateCheck_def ActiveByFingerprint_def clear_recovery_def follow_severity_def
    by (intro rules rec create act clear sev)
qed

lemma obs_exec_queue:
  assumes "\<And>D. p \<noteq> Op_notify D" "\<And>q. p \<noteq> Op_delivery q"
  shows "o_deliveries (obs_exec E now p db) = o_deliveries db"
proof -
  note rules = queue.keeps_rules committed_keeps [of same_queue, OF queue.frame_refl] keeps_queue_change
  have checks: "keeps same_queue (evaluate_checks E now hs)" for hs
    by (induction hs) (simp_all add: queue.keeps_rules evaluateCheck_queue)
  have "keeps same_queue (apply_check h)" for h unfolding apply_check_def by (intro rules) simp_all
  then have "keeps same_queue (apply_checks hs)" for hs by (induction hs) (simp_all add: queue.keeps_rules)
  then have apply_all: "keeps same_queue (ApplyChecks E hs)" for hs unfolding ApplyChecks_def by (intro rules)
  have "keeps same_queue (evaluate_rows E now ts)" for ts by (induction ts) (simp_all add: queue.keeps_rules apply_all)
  then have health: "keeps same_queue (HealthWorker_EvaluateOnce E now)" unfolding HealthWorker_EvaluateOnce_def by (intro rules)
  show ?thesis
  proof (cases p)
    case Op_alerts
    then show ?thesis using checks by (simp add: obs_exec_def EvaluateOnce_run keeps_def same_queue_def)
  qed (use assms health apply_all in \<open>simp_all add: obs_exec_def keeps_def same_queue_def set_recipients_def\<close>)
qed

text \<open>The contract of the requests, over every run.\<close>

definition requests_kept :: "dlv_db \<Rightarrow> dlv_db \<Rightarrow> bool" where
  "requests_kept db db' \<longleftrightarrow>
     (unique_keys db \<longrightarrow> unique_keys db' \<and> (\<forall>k. TrimSpace k \<noteq> [] \<longrightarrow> requests db k \<noteq> [] \<longrightarrow> requests db' k = requests db k))"

definition requests_safe :: "obs_db \<Rightarrow> obs_db \<Rightarrow> bool" where
  "requests_safe db db' \<longleftrightarrow> requests_kept (o_deliveries db) (o_deliveries db')"

interpretation safe: frame requests_safe
  by unfold_locales (auto simp: requests_safe_def requests_kept_def)

lemma keeps_queue_safe: "keeps same_queue m \<Longrightarrow> keeps requests_safe m"
  by (simp add: keeps_def same_queue_def requests_safe_def requests_kept_def)

lemma delivery_creator_safe: "keeps requests_safe (delivery_creator E D c p a l k)"
  unfolding keeps_def
proof
  fix s
  obtain x s' where r: "delivery_creator E D c p a l k s = (x, s')" by fastforce
  show "requests_safe s (snd (delivery_creator E D c p a l k s))"
    using appended_keeps [OF delivery_creator_run(1) [OF r]] by (simp add: r requests_safe_def requests_kept_def)
qed

lemma expansion_safe: "keeps requests_safe (ProcessNext_intent E (map_option (delivery_creator E) D))"
proof -
  note rules = queue.keeps_rules committed_keeps [of same_queue, OF queue.frame_refl] keeps_queue_change
  have claim: "keeps same_queue (ClaimNext_intent E)" unfolding ClaimNext_intent_def by (intro rules) simp
  have link: "keeps same_queue (LinkDelivery E i r d)" for i r d unfolding LinkDelivery_def by (intro rules) simp
  have mark: "keeps same_queue (MarkExpanded E i)" for i unfolding MarkExpanded_def by (intro rules) simp
  have list: "keeps same_queue ListEnabledRecipients" unfolding ListEnabledRecipients_def by (intro rules)
  have one: "keeps requests_safe (expand_recipient E (delivery_creator E X) i r)" for X i r
    unfolding expand_recipient_def by (intro safe.keeps_rules delivery_creator_safe keeps_queue_safe link)
  have expand: "keeps requests_safe (expand_recipients E (delivery_creator E X) i rs)" for X i rs
    by (induction rs) (simp_all add: safe.keeps_rules one)
  show ?thesis
  proof (cases D)
    case None
    have "andThen (some_or No_creator None) f = fail No_creator" for f :: "SystemNotificationCreator \<Rightarrow> bool obs"
      by (rule ext) (simp add: andThen_def some_or_def fail_def)
    then show ?thesis unfolding ProcessNext_intent_def None
      by simp (intro safe.keeps_rules keeps_queue_safe [OF claim])
  next
    case (Some X)
    have "andThen (some_or No_creator (Some (delivery_creator E X))) f = f (delivery_creator E X)" for f :: "_ \<Rightarrow> bool obs"
      by (rule ext) (simp add: andThen_def some_or_def ok_def)
    then show ?thesis unfolding ProcessNext_intent_def Some
      by simp (intro safe.keeps_rules expand keeps_queue_safe [OF claim] keeps_queue_safe [OF list] keeps_queue_safe [OF mark])
  qed
qed

lemma obs_exec_safe: "requests_safe db (obs_exec E now p db)"
proof (cases "\<exists>D. p = Op_notify D")
  case True
  then show ?thesis using expansion_safe by (auto simp: obs_exec_def keeps_def)
next
  case False
  show ?thesis
  proof (cases "\<exists>q. p = Op_delivery q")
    case True
    then obtain q where p: "p = Op_delivery q" by blast
    have "requests_kept (o_deliveries db) (dlv_exec q (o_deliveries db))"
      using dlv_exec_rows [of q "o_deliveries db"] appended_keeps [of "dlv_exec q (o_deliveries db)" "o_deliveries db"]
        same_requests_eq [of "o_deliveries db" "dlv_exec q (o_deliveries db)"]
      unfolding requests_kept_def by metis
    then show ?thesis by (simp add: p obs_exec_def requests_safe_def)
  next
    case no: False
    then have "o_deliveries (obs_exec E now p db) = o_deliveries db" using False by (intro obs_exec_queue) auto
    then show ?thesis by (simp add: requests_safe_def requests_kept_def)
  qed
qed

lemma obs_run_safe: "obs_run es (db, H) = (db', H') \<Longrightarrow> requests_safe db db'"
proof (induction es arbitrary: db H)
  case (Cons e es)
  obtain E now p where e: "e = (E, now, p)" by (cases e)
  show ?case using Cons.IH [of "obs_exec E now p db"] Cons.prems obs_exec_safe [of db E now p] safe.frame_trans by (auto simp: e)
qed (simp add: safe.frame_refl)

text \<open>C38. Every recipient is notified exactly once of every incident.  Take any run of the Manager from an empty queue,
  then an expansion that reports success, then any further run: it took one intent that was not expanded and marked it,
  and for every enabled recipient of a supported provider the queue holds exactly one delivery under the key of the
  intent and the recipient, addressed to that recipient, however often earlier expansions of the intent were cut short and
  whatever happens afterwards.\<close>

theorem expansion_exactly_once:
  assumes "o_deliveries db0 = empty_queue" "obs_run es (db0, []) = (db1, H1)"
    and "ProcessNext_intent E (Some (delivery_creator E D)) db1 = (Inr True, db2)" "obs_run es' (db2, H2) = (db3, H3)"
  shows "\<exists>i \<in> set (o_intents db1). ni_expanded i = None \<and> (\<exists>j \<in> set (o_intents db2). ni_id j = ni_id i \<and> ni_expanded j \<noteq> None)
     \<and> (\<forall>r \<in> set (o_recipients db1). nr_enabled r \<and> nr_provider r \<in> {''smtp'', ''telegram''} \<longrightarrow>
          requests (o_deliveries db3) (notificationDeliveryIdempotencyKey (ni_id i) (nr_id r))
            = [(TrimSpace (nr_channel r), TrimSpace (nr_provider r), TrimSpace (nr_address r), ''system_notification'')])"
proof -
  have "unique_keys (o_deliveries db0)" by (simp add: assms(1) unique_keys_def empty_queue_def)
  then have v: "unique_keys (o_deliveries db1)" using obs_run_safe [OF assms(2)] by (simp add: requests_safe_def requests_kept_def)
  obtain i where i: "i \<in> set (o_intents db1)" "ni_expanded i = None" "\<exists>j \<in> set (o_intents db2). ni_id j = ni_id i \<and> ni_expanded j \<noteq> None"
    "unique_keys (o_deliveries db2)"
    "\<forall>r \<in> set (o_recipients db1). nr_enabled r \<and> nr_provider r \<in> {''smtp'', ''telegram''} \<longrightarrow>
       requests (o_deliveries db2) (notificationDeliveryIdempotencyKey (ni_id i) (nr_id r)) = [request_of r]"
    using service.expansion_run [OF assms(3) v] by blast
  have "requests (o_deliveries db3) (notificationDeliveryIdempotencyKey (ni_id i) (nr_id r)) = [request_of r]"
    if "r \<in> set (o_recipients db1)" "nr_enabled r" "nr_provider r \<in> {''smtp'', ''telegram''}" for r
  proof -
    have "requests (o_deliveries db2) (notificationDeliveryIdempotencyKey (ni_id i) (nr_id r)) = [request_of r]" using i(5) that by blast
    then show ?thesis using obs_run_safe [OF assms(4)] i(4) notification_key by (simp add: requests_safe_def requests_kept_def)
  qed
  then show ?thesis using i(1,2,3) unfolding request_of_def by blast
qed

text \<open>An example: one intent and one recipient.\<close>

definition xn_recipient :: NotificationRecipient where
  "xn_recipient = \<lparr>nr_id = ''r'', nr_channel = ''email'', nr_provider = ''smtp'', nr_address = ''a'', nr_locale = [], nr_enabled = True, nr_created = 0\<rparr>"

definition xn_db :: obs_db where
  "xn_db = xo_db\<lparr>o_intents := [\<lparr>ni_id = ''n'', ni_alert = ''b'', ni_transition = ''t'', ni_kind = ''firing'', ni_severity = SeverityCritical,
     ni_rule = ''k'', ni_resource = \<lparr>rs_type = ''s'', rs_id = ''i''\<rparr>, ni_reason = [], ni_summary = ''m'', ni_claimed = None, ni_expanded = None,
     ni_created = 0\<rparr>], o_recipients := [xn_recipient]\<rparr>"

declare ToLower.simps [simp del]

lemma xn_text: "TrimSpace ''alert-notification:n:r'' = ''alert-notification:n:r''" "TrimSpace ''n'' = ''n''" "TrimSpace ''r'' = ''r''"
  by (simp_all add: TrimSpace_edges space_byte_def)

lemma xn_expanded:
  "\<exists>db. ProcessNext_intent xo_env (Some (delivery_creator xo_env (xd_env 0 OutcomeAccepted))) xn_db = (Inr True, db)"
  by (simp add: ProcessNext_intent_def ClaimNext_intent_def ListEnabledRecipients_def xn_db_def xo_db_def xo_env_def xd_env_def xn_recipient_def
    committed_def effect_run select_def intent_claimable_def update_where_def expand_recipient_def delivery_creator_def in_deliveries_def
    CreateSystemNotification_def Service_Create_def normalizeCreateInput_def validateCreateInput_def Repository_Create_def insert_delivery_def
    nullable_uuid_def refers_def new_delivery_def lookup_row_def empty_queue_def LinkDelivery_def MarkExpanded_def
    notificationDeliveryIdempotencyKey_def notificationRecipientLocale_def EqualFold_def xn_text validTemplateKey_def validLocale_def Let_def)

theorem expansion_exactly_once_witness:
  "\<exists>db. ProcessNext_intent xo_env (Some (delivery_creator xo_env (xd_env 0 OutcomeAccepted))) xn_db = (Inr True, db)
     \<and> requests (o_deliveries db) ''alert-notification:n:r'' = [(''email'', ''smtp'', ''a'', ''system_notification'')]"
proof -
  obtain db where r: "ProcessNext_intent xo_env (Some (delivery_creator xo_env (xd_env 0 OutcomeAccepted))) xn_db = (Inr True, db)"
    using xn_expanded by blast
  have "o_deliveries xn_db = empty_queue" by (simp add: xn_db_def xo_db_def)
  moreover have "obs_run [] (xn_db, []) = (xn_db, [])" "obs_run [] (db, []) = (db, [])" by simp_all
  ultimately obtain i where "i \<in> set (o_intents xn_db)"
    "\<forall>r \<in> set (o_recipients xn_db). nr_enabled r \<and> nr_provider r \<in> {''smtp'', ''telegram''} \<longrightarrow>
       requests (o_deliveries db) (notificationDeliveryIdempotencyKey (ni_id i) (nr_id r))
         = [(TrimSpace (nr_channel r), TrimSpace (nr_provider r), TrimSpace (nr_address r), ''system_notification'')]"
    using expansion_exactly_once [OF _ _ r] by blast
  then show ?thesis using r by (simp add: xn_db_def xn_recipient_def notificationDeliveryIdempotencyKey_def xn_text)
qed

end
