(* ===== verification/Agent_Node.thy ===== *)
theory Agent_Node
  imports Golib Effects
begin

text \<open>
  The node under the Agent: paths (\<open>path/filepath\<close>), the file system calls of \<open>os\<close>, external commands
  (\<open>os/exec\<close>) and \<open>systemctl\<close> (\<open>agent/internal/tasks/service.go\<close>, \<open>applier.go\<close>).

  A file system is a map from paths to contents; directories, permissions and links are not represented.
  Every call may fail, at the choice of the environment \<open>host_env\<close> (a missing directory, a permission, a full
  disk), and a failed write leaves whatever the environment says.  Commands are functions of the node chosen by
  the environment, and every command and every dial takes the time the environment says.  The context of the
  Agent is not cancelled while a task runs.
\<close>

section \<open>Paths\<close>

fun clean_parts :: "bool \<Rightarrow> string list \<Rightarrow> string list \<Rightarrow> string list" where
  "clean_parts rooted [] out = rev out"
| "clean_parts rooted (p # ps) out =
     (if p = [] \<or> p = ''.'' then clean_parts rooted ps out
      else if p \<noteq> ''..'' then clean_parts rooted ps (p # out)
      else case out of
             [] \<Rightarrow> clean_parts rooted ps (if rooted then [] else [''..''])
           | q # qs \<Rightarrow> clean_parts rooted ps (if q = ''..'' then ''..'' # out else qs))"

fun strings_Join :: "string list \<Rightarrow> string \<Rightarrow> string" where
  "strings_Join [] sep = []"
| "strings_Join [s] sep = s"
| "strings_Join (s # ss) sep = s @ sep @ strings_Join ss sep"

definition filepath_Clean :: "string \<Rightarrow> string" where
  "filepath_Clean p =
     (if p = [] then ''.''
      else let rooted = hd p = CHR ''/'';
               q = strings_Join (clean_parts rooted (Split_at CHR ''/'' p) []) ''/'' in
           if rooted then CHR ''/'' # q else if q = [] then ''.'' else q)"

definition filepath_Join :: "string \<Rightarrow> string \<Rightarrow> string" where
  "filepath_Join dir name =
     (if dir \<noteq> [] then filepath_Clean (dir @ ''/'' @ name) else if name \<noteq> [] then filepath_Clean name else [])"

section \<open>The node and its environment\<close>

datatype agent_error =
    Io_error
  | Not_exist
  | Invalid string
  | Timed_out string
  | Command_failed string string
  | Unreachable string int
  | Because string agent_error
  | Rolled_back string agent_error string
  | Undelivered agent_error

text \<open>The report of one runtime and of the task, as the Manager receives it.\<close>

record component_status =
  cm_core :: string
  cm_protocol :: string
  cm_status :: string
  cm_staged :: string
  cm_active :: string
  cm_backup :: string
  cm_validation :: string
  cm_restart :: string
  cm_health :: string
  cm_persistence :: string
  cm_address :: string
  cm_port :: int

record task_report =
  tr_task :: string
  tr_error :: "agent_error option"
  tr_stage :: string
  tr_failed_stage :: string
  tr_version :: string
  tr_hash :: string
  tr_components :: "component_status list"

record host =
  hs_files :: "string \<Rightarrow> string option"
  hs_calls :: nat
  hs_now :: nat
  hs_reports :: "task_report list"

datatype exit_state = Exited | Exit_failed | Exe_not_found | Deadline_passed

datatype torn = Untouched | Holds string

datatype tls_result = Tls_ok | Tls_no_such_name | Tls_lookup_failed | Tls_timeout | Tls_failed string

record host_env =
  he_fault :: "nat \<Rightarrow> bool"
  he_torn :: "nat \<Rightarrow> torn"
  he_temp :: "nat \<Rightarrow> string"
  he_run :: "string \<Rightarrow> string list \<Rightarrow> host \<Rightarrow> (exit_state \<times> string \<times> nat) \<times> host"
  he_dial :: "string \<Rightarrow> host \<Rightarrow> bool \<times> nat"
  he_tls :: "string \<times> int \<times> string \<Rightarrow> host \<Rightarrow> tls_result \<times> nat"
  he_late_tick :: "nat \<Rightarrow> bool"
  he_posted :: "nat \<Rightarrow> bool"

type_synonym 'a sys = "(agent_error, host, 'a) effect"

definition called :: "host \<Rightarrow> host" where
  "called n = n\<lparr>hs_calls := Suc (hs_calls n)\<rparr>"

definition set_file :: "string \<Rightarrow> string option \<Rightarrow> host \<Rightarrow> host" where
  "set_file p v n = n\<lparr>hs_files := (hs_files n)(p := v)\<rparr>"

definition tear :: "host_env \<Rightarrow> string \<Rightarrow> host \<Rightarrow> host" where
  "tear E p n = (case he_torn E (hs_calls n) of Untouched \<Rightarrow> n | Holds s \<Rightarrow> set_file p (Some s) n)"

section \<open>System calls\<close>

text \<open>A call without an effect on the represented state (\<open>MkdirAll\<close>, \<open>Chmod\<close>, \<open>Close\<close>).\<close>

definition sys_call :: "host_env \<Rightarrow> unit sys" where
  "sys_call E n = (if he_fault E (hs_calls n) then Inl Io_error else Inr (), called n)"

definition sys_write :: "host_env \<Rightarrow> string \<Rightarrow> (host \<Rightarrow> string) \<Rightarrow> unit sys" where
  "sys_write E p content n =
     (if he_fault E (hs_calls n) then (Inl Io_error, called (tear E p n))
      else (Inr (), called (set_file p (Some (content n)) n)))"

definition os_WriteFile :: "host_env \<Rightarrow> string \<Rightarrow> string \<Rightarrow> unit sys" where
  "os_WriteFile E p s = sys_write E p (\<lambda>_. s)"

definition os_ReadFile :: "host_env \<Rightarrow> string \<Rightarrow> string sys" where
  "os_ReadFile E p = andThen (sys_call E) (\<lambda>_. find_or Not_exist (\<lambda>n. hs_files n p))"

definition os_Rename :: "host_env \<Rightarrow> string \<Rightarrow> string \<Rightarrow> unit sys" where
  "os_Rename E a b = andThen (os_ReadFile E a) (\<lambda>s. change (\<lambda>n. set_file b (Some s) (set_file a None n)))"

definition os_Remove :: "host_env \<Rightarrow> string \<Rightarrow> unit sys" where
  "os_Remove E p = andThen (os_ReadFile E p) (\<lambda>_. change (set_file p None))"

text \<open>\<open>os.Stat\<close> where only existence matters: the file is there, it is not, or the call fails.\<close>

datatype stat_result = Present | Absent | Stat_failed

definition os_Stat :: "host_env \<Rightarrow> string \<Rightarrow> host \<Rightarrow> stat_result \<times> host" where
  "os_Stat E p n =
     (if he_fault E (hs_calls n) then Stat_failed else if hs_files n p = None then Absent else Present, called n)"

text \<open>A call whose error the code inspects or drops, and a step whose failure removes a temporary file.\<close>

definition attempt :: "'a sys \<Rightarrow> host \<Rightarrow> (agent_error + 'a) \<times> host" where
  "attempt m n = m n"

definition or_remove :: "host_env \<Rightarrow> string \<Rightarrow> 'a sys \<Rightarrow> 'a sys" where
  "or_remove E tmp m n =
     (case m n of
        (Inl e, n') \<Rightarrow> (Inl e, snd (attempt (os_Remove E tmp) n'))
      | (Inr x, n') \<Rightarrow> (Inr x, n'))"

definition wrapping :: "(agent_error \<Rightarrow> agent_error) \<Rightarrow> 'a sys \<Rightarrow> 'a sys" where
  "wrapping f m n = (case m n of (Inl e, n') \<Rightarrow> (Inl (f e), n') | (Inr x, n') \<Rightarrow> (Inr x, n'))"

text \<open>The copy goes to \<open>dst.tmp\<close>; the destination changes only in the final rename.\<close>

definition copy_and_close :: "host_env \<Rightarrow> string \<Rightarrow> string \<Rightarrow> unit sys" where
  "copy_and_close E src tmp n =
     (let (copied, n) = attempt (sys_write E tmp (\<lambda>n. case hs_files n src of None \<Rightarrow> [] | Some s \<Rightarrow> s)) n;
          (closed, n) = attempt (sys_call E) n
      in (case copied of Inl e \<Rightarrow> Inl e | Inr _ \<Rightarrow> closed, n))"

definition copyFileAtomic :: "host_env \<Rightarrow> string \<Rightarrow> string \<Rightarrow> unit sys" where
  "copyFileAtomic E src dst =
     andThen (os_ReadFile E src) (\<lambda>_.
     andThen (sys_write E (dst @ ''.tmp'') (\<lambda>_. [])) (\<lambda>_.
     or_remove E (dst @ ''.tmp'')
       (andThen (copy_and_close E src (dst @ ''.tmp'')) (\<lambda>_.
        andThen (sys_call E) (\<lambda>_.
        os_Rename E (dst @ ''.tmp'') dst)))))"

section \<open>Commands and services\<close>

definition run_command :: "host_env \<Rightarrow> string \<Rightarrow> string list \<Rightarrow> host \<Rightarrow> (exit_state \<times> string) \<times> host" where
  "run_command E name args n =
     (case he_run E name args n of
        ((x, out, d), n') \<Rightarrow> ((x, out), n'\<lparr>hs_now := hs_now n + d, hs_calls := Suc (hs_calls n)\<rparr>))"

record ServiceResult =
  sv_operation :: string
  sv_command :: string
  sv_output :: string

definition no_service :: ServiceResult where
  "no_service = \<lparr>sv_operation = [], sv_command = [], sv_output = []\<rparr>"

text \<open>Operations that report a result together with an error return both.\<close>

type_synonym 'a reported = "host \<Rightarrow> ('a \<times> agent_error option) \<times> host"

definition runSystemctl :: "host_env \<Rightarrow> string \<Rightarrow> string \<Rightarrow> string \<Rightarrow> string list \<Rightarrow> ServiceResult reported" where
  "runSystemctl E service operation action extra n =
     (if TrimSpace service = [] then ((no_service\<lparr>sv_operation := operation\<rparr>, Some (Invalid ''service name is required'')), n)
      else
        let args = action # extra @ [service];
            ((x, out), n) = run_command E ''systemctl'' args n;
            result = \<lparr>sv_operation = operation, sv_command = ''systemctl '' @ strings_Join args '' '', sv_output = TrimSpace out\<rparr>
        in ((result,
             case x of
               Exited \<Rightarrow> None
             | Deadline_passed \<Rightarrow> Some (Timed_out (''systemctl '' @ action))
             | _ \<Rightarrow> Some (Command_failed (''systemctl '' @ action) (sv_output result))), n))"

definition service_operations :: "string list" where
  "service_operations = [''start'', ''stop'', ''restart'', ''enable'']"

definition Service_Execute :: "host_env \<Rightarrow> string \<Rightarrow> string \<Rightarrow> ServiceResult reported" where
  "Service_Execute E service operation n =
     (if operation \<in> set service_operations then runSystemctl E service operation operation [] n
      else ((no_service\<lparr>sv_operation := operation\<rparr>, Some (Invalid (''unsupported service operation '' @ operation))), n))"

definition Service_Stop :: "host_env \<Rightarrow> string \<Rightarrow> ServiceResult reported" where
  "Service_Stop E service = Service_Execute E service ''stop''"

definition Service_Enable :: "host_env \<Rightarrow> string \<Rightarrow> ServiceResult reported" where
  "Service_Enable E service = Service_Execute E service ''enable''"

definition Service_Restart :: "host_env \<Rightarrow> string \<Rightarrow> ServiceResult reported" where
  "Service_Restart E service n =
     (case Service_Enable E service n of
        ((r, Some e), n) \<Rightarrow> ((r, Some (Because ''enable service before restart'' e)), n)
      | ((r, None), n) \<Rightarrow>
          (case Service_Execute E service ''restart'' n of
             ((s, e), n) \<Rightarrow>
               ((s\<lparr>sv_command := sv_command r @ '' && '' @ sv_command s,
                   sv_output := (if sv_output r = [] then sv_output s
                                 else if sv_output s = [] then sv_output r
                                 else sv_output r @ [newline] @ sv_output s)\<rparr>, e), n)))"

definition Service_IsActive :: "host_env \<Rightarrow> string \<Rightarrow> ServiceResult reported" where
  "Service_IsActive E service = runSystemctl E service [] ''is-active'' [''--quiet'']"

definition Service_IsEnabled :: "host_env \<Rightarrow> string \<Rightarrow> ServiceResult reported" where
  "Service_IsEnabled E service = runSystemctl E service [] ''is-enabled'' [''--quiet'']"

end
