(* ===== verification/Agent_Adapters.thy ===== *)
theory Agent_Adapters
  imports Agent_Node Config_Adapters
begin

text \<open>
  What the five VPN core adapters of the Agent (\<open>agent/internal/tasks\<close>) read and stage: the decoding of a task, the
  stagers, and the parsers of the text formats.

  The rendered configuration of a task is the JSON value its bytes stand for, and a struct is read from it as
  \<open>encoding/json\<close> does: names are compared without case, \<open>null\<close> changes nothing, another type is an error.  Numbers are the integers.
  The record \<open>agent_lib\<close> holds the library functions: the text of \<open>json.Indent\<close>, the parser of a file, and the
  strict decoder of a Hysteria2 configuration, besides the functions of \<open>lib\<close>.
\<close>

record agent_lib =
  al_indent :: "json \<Rightarrow> string"
  al_json :: "string \<Rightarrow> json option"
  al_h2 :: "string \<Rightarrow> h2_text"
  al_lib :: lib

section \<open>Structs in JSON\<close>

definition as_struct :: "json \<Rightarrow> (string \<times> json) list option" where
  "as_struct j = (case j of JNull \<Rightarrow> Some [] | JObj ms \<Rightarrow> Some ms | _ \<Rightarrow> None)"

definition values_named :: "string \<Rightarrow> (string \<times> json) list \<Rightarrow> json list" where
  "values_named k ms = map snd (filter (\<lambda>(q, _). EqualFold q k) ms)"

definition is_string :: "json \<Rightarrow> bool" where
  "is_string j = (case j of JStr _ \<Rightarrow> True | _ \<Rightarrow> False)"

definition string_field :: "string \<Rightarrow> (string \<times> json) list \<Rightarrow> string option" where
  "string_field k ms =
     (let vs = filter (\<lambda>v. v \<noteq> JNull) (values_named k ms) in
      if \<not> list_all is_string vs then None else Some (if vs = [] then [] else stringValue (last vs)))"

definition int_field :: "string \<Rightarrow> (string \<times> json) list \<Rightarrow> int option" where
  "int_field k ms =
     (let vs = filter (\<lambda>v. v \<noteq> JNull) (values_named k ms) in
      if \<not> list_all (\<lambda>v. case v of JInt i \<Rightarrow> - (2 ^ 63) \<le> i \<and> i < 2 ^ 63 | _ \<Rightarrow> False) vs then None
      else Some (if vs = [] then 0 else intValue (last vs)))"

definition bool_field :: "string \<Rightarrow> (string \<times> json) list \<Rightarrow> bool option" where
  "bool_field k ms =
     (let vs = filter (\<lambda>v. v \<noteq> JNull) (values_named k ms) in
      if \<not> list_all (\<lambda>v. case v of JBool _ \<Rightarrow> True | _ \<Rightarrow> False) vs then None
      else Some (vs \<noteq> [] \<and> boolValue (last vs)))"

text \<open>Repeated objects are merged into one struct; a pointer is \<open>nil\<close> after a \<open>null\<close>.\<close>

fun merge_structs :: "json list \<Rightarrow> (string \<times> json) list option" where
  "merge_structs [] = Some []"
| "merge_structs (j # js) =
     (case (as_struct j, merge_structs js) of (Some ms, Some ns) \<Rightarrow> Some (ms @ ns) | _ \<Rightarrow> None)"

definition struct_field :: "string \<Rightarrow> (string \<times> json) list \<Rightarrow> (string \<times> json) list option" where
  "struct_field k ms = merge_structs (values_named k ms)"

definition pointer_field :: "string \<Rightarrow> (string \<times> json) list \<Rightarrow> (string \<times> json) list option option" where
  "pointer_field k ms =
     (let vs = values_named k ms in
      if merge_structs vs = None then None
      else let tail = takeWhile (\<lambda>v. v \<noteq> JNull) (rev vs) in
           Some (if tail = [] then None else merge_structs (rev tail)))"

definition slice_field :: "string \<Rightarrow> (string \<times> json) list \<Rightarrow> json list option" where
  "slice_field k ms =
     (let vs = values_named k ms in
      if \<not> list_all (\<lambda>v. case v of JNull \<Rightarrow> True | JArr _ \<Rightarrow> True | _ \<Rightarrow> False) vs then None
      else Some (if vs = [] then [] else case last vs of JArr xs \<Rightarrow> xs | _ \<Rightarrow> []))"

text \<open>A \<open>json.RawMessage\<close> takes any value, \<open>null\<close> included; without the member it is empty.\<close>

definition raw_field :: "string \<Rightarrow> (string \<times> json) list \<Rightarrow> json option" where
  "raw_field k ms = (let vs = values_named k ms in if vs = [] then None else Some (last vs))"

section \<open>Tasks\<close>

record ConfigTask =
  ct_id :: string
  ct_kind :: string
  ct_server :: string
  ct_agent :: string
  ct_version :: string
  ct_action :: string
  ct_operation :: string
  ct_status :: string
  ct_rendered :: "json option"
  ct_hash :: string

definition EffectiveKind :: "ConfigTask \<Rightarrow> string" where
  "EffectiveKind t = (if ct_kind t = [] then ''config_apply'' else ct_kind t)"

record StageResult =
  sr_path :: string
  sr_hash :: string
  sr_version :: string

definition decoded :: "json option \<Rightarrow> (string \<times> json) list option" where
  "decoded raw = Option.bind raw as_struct"

definition extractSingBoxConfig :: "json \<Rightarrow> agent_error + json" where
  "extractSingBoxConfig j =
     (case as_struct j of
        None \<Rightarrow> Inl (Invalid ''decode rendered config envelope'')
      | Some ms \<Rightarrow>
          (case string_field ''schemaVersion'' ms of
             None \<Rightarrow> Inl (Invalid ''decode rendered config envelope'')
           | Some v \<Rightarrow>
               if v = [] then Inr j
               else case raw_field ''singBox'' ms of
                      None \<Rightarrow> Inl (Invalid ''rendered config envelope must contain valid singBox JSON'')
                    | Some b \<Rightarrow> Inr b))"

text \<open>The staged file is written under a temporary name and renamed.\<close>

definition commit_staged :: "host_env \<Rightarrow> string \<Rightarrow> string \<Rightarrow> ConfigTask \<Rightarrow> StageResult sys" where
  "commit_staged E path content t =
     andThen (wrapping (Because ''create config staging dir'') (sys_call E)) (\<lambda>_.
     andThen (wrapping (Because ''write staged config'') (os_WriteFile E (path @ ''.tmp'') content)) (\<lambda>_.
     andThen (wrapping (Because ''commit staged config'') (or_remove E (path @ ''.tmp'') (os_Rename E (path @ ''.tmp'') path))) (\<lambda>_.
     ok \<lparr>sr_path = path, sr_hash = ct_hash t, sr_version = ct_version t\<rparr>)))"

definition Stager_Stage :: "host_env \<Rightarrow> agent_lib \<Rightarrow> string \<Rightarrow> ConfigTask \<Rightarrow> StageResult sys" where
  "Stager_Stage E L dir t =
     (if EffectiveKind t \<noteq> ''config_apply'' then fail (Invalid ''task kind cannot be staged as config'')
      else if ct_id t = [] then fail (Invalid ''task id is required'')
      else if ct_version t = [] then fail (Invalid ''config version id is required'')
      else case ct_rendered t of
             None \<Rightarrow> fail (Invalid ''rendered config must be valid JSON'')
           | Some j \<Rightarrow>
               (case extractSingBoxConfig j of
                  Inl e \<Rightarrow> fail e
                | Inr b \<Rightarrow> commit_staged E (filepath_Join dir (ct_version t @ ''.json'')) (al_indent L b @ [newline]) t))"

text \<open>The text sections of the envelope: schema, section, parser.\<close>

definition stage_section ::
  "host_env \<Rightarrow> string \<Rightarrow> (string \<Rightarrow> bool) \<Rightarrow> string \<Rightarrow> string \<Rightarrow> ConfigTask \<Rightarrow> StageResult sys" where
  "stage_section E section parses dir ext t =
     (if EffectiveKind t \<noteq> ''config_apply'' \<or> ct_id t = [] \<or> ct_version t = []
      then fail (Invalid ''valid config apply task identifiers are required'')
      else case Option.bind (decoded (ct_rendered t))
                  (\<lambda>ms. case (string_field ''schemaVersion'' ms, string_field section ms) of
                          (Some v, Some s) \<Rightarrow> Some (v, s) | _ \<Rightarrow> None) of
             None \<Rightarrow> fail (Invalid ''decode rendered config envelope'')
           | Some (v, s) \<Rightarrow>
               if v \<noteq> ''routegate.config.v1'' \<or> TrimSpace s = []
               then fail (Invalid ''rendered config envelope must contain the section'')
               else if \<not> parses s then fail (Invalid ''section does not parse'')
               else commit_staged E (filepath_Join dir (ct_version t @ ext)) (TrimSpace s @ [newline]) t)"

section \<open>Parsers of the text formats\<close>

record agent_wg =
  aw_section :: string
  aw_interface :: "(string \<times> string) list"
  aw_peer :: "(string \<times> string) list"
  aw_peers :: nat

definition validateWireGuardKey :: "string \<Rightarrow> bool" where
  "validateWireGuardKey v = (case StdEncoding_DecodeString (TrimSpace v) of None \<Rightarrow> False | Some bs \<Rightarrow> length bs = 32)"

definition agent_flushPeer :: "agent_wg \<Rightarrow> agent_wg option" where
  "agent_flushPeer st =
     (if aw_peer st = [] then Some st
      else if \<not> validateWireGuardKey (value_of (aw_peer st) ''PublicKey'') then None
      else case ParsePrefix (value_of (aw_peer st) ''AllowedIPs'') of
             Some (V4 w, bits) \<Rightarrow> if bits \<noteq> 32 then None else Some (st\<lparr>aw_peers := Suc (aw_peers st), aw_peer := []\<rparr>)
           | _ \<Rightarrow> None)"

definition agent_wg_line :: "string \<Rightarrow> agent_wg \<Rightarrow> agent_wg option" where
  "agent_wg_line raw st =
     (let line = TrimSpace raw in
      if line = [] \<or> prefix ''#'' line then Some st
      else if line = ''[Interface]'' then Some (st\<lparr>aw_section := ''Interface''\<rparr>)
      else if line = ''[Peer]'' then map_option (aw_section_update (\<lambda>_. ''Peer'')) (agent_flushPeer st)
      else case Cut CHR ''='' line of
             None \<Rightarrow> None
           | Some (k, v) \<Rightarrow>
               if aw_section st = [] then None
               else let k = TrimSpace k; v = TrimSpace v in
               if CHR 0x0D \<in> set v \<or> newline \<in> set v then None
               else if aw_section st = ''Interface'' then
                 if k \<in> {''PrivateKey'', ''Address'', ''ListenPort'', ''SaveConfig'', ''PostUp'', ''PostDown''}
                 then Some (st\<lparr>aw_interface := put k v (aw_interface st)\<rparr>) else None
               else if k \<noteq> ''PublicKey'' \<and> k \<noteq> ''AllowedIPs'' then None
               else Some (st\<lparr>aw_peer := put k v (aw_peer st)\<rparr>))"

fun agent_wg_lines :: "string list \<Rightarrow> agent_wg \<Rightarrow> agent_wg option" where
  "agent_wg_lines [] st = Some st"
| "agent_wg_lines (l # ls) st = Option.bind (agent_wg_line l st) (agent_wg_lines ls)"

definition agent_hook :: "string \<Rightarrow> string \<Rightarrow> string" where
  "agent_hook flag network =
     ''iptables -'' @ flag @ '' FORWARD -i %i -j ACCEPT; iptables -'' @ flag @ '' FORWARD -o %i -j ACCEPT; iptables -t nat -''
       @ flag @ '' POSTROUTING -s '' @ network @ '' -j MASQUERADE''"

record agent_wg_config =
  agw_address :: string
  agw_port :: int
  agw_peers :: nat

definition agent_wg_finish :: "agent_wg \<Rightarrow> agent_wg_config option" where
  "agent_wg_finish st =
     (let iv = value_of (aw_interface st) in
      if \<not> validateWireGuardKey (iv ''PrivateKey'') then None
      else case ParsePrefix (iv ''Address'') of
        Some (V4 w, bits) \<Rightarrow>
          if 30 < bits then None
          else (case Atoi (iv ''ListenPort'') of
                  None \<Rightarrow> None
                | Some port \<Rightarrow>
                    let network = masked_String (Some (V4 w, bits)) in
                    if port < 1 \<or> 65535 < port \<or> iv ''SaveConfig'' \<noteq> ''false'' then None
                    else if iv ''PostUp'' \<noteq> agent_hook ''A'' network \<or> iv ''PostDown'' \<noteq> agent_hook ''D'' network then None
                    else Some \<lparr>agw_address = String4 w @ ''/'' @ show_nat bits, agw_port = port, agw_peers = aw_peers st\<rparr>)
      | _ \<Rightarrow> None)"

definition parseWireGuardConfig :: "string \<Rightarrow> agent_wg_config option" where
  "parseWireGuardConfig payload =
     Option.bind (agent_wg_lines (Split_at newline (TrimSpace payload))
         \<lparr>aw_section = [], aw_interface = [], aw_peer = [], aw_peers = 0\<rparr>)
       (\<lambda>st. Option.bind (agent_flushPeer st) agent_wg_finish)"

record agent_mt_config =
  amt_secret :: string
  amt_port :: int

definition agent_mt_secret :: "string \<Rightarrow> bool" where
  "agent_mt_secret v =
     (let v = ToLower (TrimSpace v) in
      case hex_DecodeString v of
        None \<Rightarrow> False
      | Some bs \<Rightarrow> length v = 70 \<and> prefix ''ee'' v \<and> length bs = 35 \<and> map char_of (drop 17 bs) = ''www.cloudflare.com'')"

fun agent_mt_lines :: "string list \<Rightarrow> (string \<times> string) list \<Rightarrow> (string \<times> string) list option" where
  "agent_mt_lines [] m = Some m"
| "agent_mt_lines (raw # ls) m =
     (let line = TrimSpace raw in
      if line = [] then agent_mt_lines ls m
      else case Cut CHR ''='' line of
             None \<Rightarrow> None
           | Some (k, v) \<Rightarrow>
               let k = TrimSpace k; v = TrimSpace v in
               if k \<notin> {''debug'', ''secret'', ''bind-to'', ''concurrency'', ''prefer-ip'', ''auto-update''} then None
               else if map_of m k \<noteq> None then None
               else agent_mt_lines ls (put k v m))"

definition agent_mt_finish :: "lib \<Rightarrow> (string \<times> string) list \<Rightarrow> agent_mt_config option" where
  "agent_mt_finish L m =
     (if length m \<noteq> 6 \<or> value_of m ''debug'' \<noteq> ''false'' \<or> value_of m ''concurrency'' \<noteq> ''8192''
        \<or> value_of m ''prefer-ip'' \<noteq> ''\"prefer-ipv4\"'' \<or> value_of m ''auto-update'' \<noteq> ''false''
      then None
      else case (l_unquote L (value_of m ''secret''), l_unquote L (value_of m ''bind-to'')) of
             (Some s, Some b) \<Rightarrow>
               if \<not> agent_mt_secret s \<or> \<not> prefix ''0.0.0.0:'' b then None
               else (case Atoi (TrimPrefix b ''0.0.0.0:'') of
                       None \<Rightarrow> None
                     | Some p \<Rightarrow> if p < 1 \<or> 65535 < p \<or> b \<noteq> ''0.0.0.0:'' @ Itoa p then None
                                 else Some \<lparr>amt_secret = ToLower s, amt_port = p\<rparr>)
           | _ \<Rightarrow> None)"

definition parseMTProtoConfig :: "lib \<Rightarrow> string \<Rightarrow> agent_mt_config option" where
  "parseMTProtoConfig L payload =
     Option.bind (agent_mt_lines (Split_at newline (TrimSpace payload)) []) (agent_mt_finish L)"

text \<open>The Agent repeats the checks of the Manager and refuses an empty list of users.\<close>

definition agent_h2_check :: "lib \<Rightarrow> hysteria2ServerConfig \<Rightarrow> bool" where
  "agent_h2_check L h \<longleftrightarrow>
     (case Atoi (TrimPrefix (h2_listen h) '':'') of
        None \<Rightarrow> False
      | Some p \<Rightarrow> 1 \<le> p \<and> p \<le> 65535 \<and> h2_listen h = '':'' @ Itoa p)
     \<and> length (h2_domains h) = 1 \<and> validHysteria2Domain (hd (h2_domains h))
     \<and> l_mail L (TrimSpace (h2_email h)) = Some (TrimSpace (h2_email h))
     \<and> h2_ca h = ''letsencrypt'' \<and> h2_dir h = ''/var/lib/hysteria/acme'' \<and> h2_acme_type h = ''http''
     \<and> ((h2_listen_host h = [] \<and> h2_alt_port h = None) \<or> (h2_listen_host h = ''127.0.0.1'' \<and> h2_alt_port h = Some 9080))
     \<and> h2_auth_type h = ''userpass'' \<and> h2_userpass h \<noteq> []
     \<and> list_all (\<lambda>(u, p). validHysteria2Username u \<and> validHysteria2Password p) (h2_userpass h)
     \<and> h2_masq_type h = ''proxy'' \<and> validHysteria2MasqueradeURL L (h2_url h) \<and> h2_rewrite h \<and> \<not> h2_insecure h \<and> \<not> h2_forwarded h"

definition parseHysteria2Config :: "agent_lib \<Rightarrow> string \<Rightarrow> hysteria2ServerConfig option" where
  "parseHysteria2Config L payload =
     (case al_h2 L (TrimSpace payload) of H2 h \<Rightarrow> if agent_h2_check (al_lib L) h then Some h else None | _ \<Rightarrow> None)"

end
