(* ===== verification/Agent_Cores.thy ===== *)
theory Agent_Cores
  imports Agent_Adapters
begin

text \<open>
  Validation and listener checks of the Agent (\<open>validator.go\<close>, \<open>reality_handshake.go\<close>, \<open>listener_health.go\<close>
  and the methods of the adapters).  The two polling loops end because the clock reaches their deadline; times are
  milliseconds.
\<close>

section \<open>Validation\<close>

record ValidationReport =
  vd_command :: string
  vd_output :: string

definition no_validation :: ValidationReport where
  "no_validation = \<lparr>vd_command = [], vd_output = []\<rparr>"

definition Validator_Check :: "host_env \<Rightarrow> string \<Rightarrow> string \<Rightarrow> ValidationReport reported" where
  "Validator_Check E binary path n =
     (if TrimSpace path = [] then ((no_validation, Some (Invalid ''config path is required'')), n)
      else
        let args = [''check'', ''-c'', path];
            ((x, out), n) = run_command E binary args n;
            result = \<lparr>vd_command = binary @ '' '' @ strings_Join args '' '', vd_output = TrimSpace out\<rparr>
        in ((result,
             case x of
               Exited \<Rightarrow> None
             | Deadline_passed \<Rightarrow> Some (Timed_out ''sing-box check'')
             | Exe_not_found \<Rightarrow>
                 Some (if vd_output result = [] then Invalid (''binary not found: '' @ binary)
                       else Command_failed ''sing-box check'' (vd_output result))
             | Exit_failed \<Rightarrow> Some (Command_failed ''sing-box check'' (vd_output result))), n))"

definition reality_target :: "(string \<times> json) list \<Rightarrow> (string \<times> int \<times> string) option option" where
  "reality_target ms =
     Option.bind (pointer_field ''tls'' ms) (\<lambda>tls.
     case tls of None \<Rightarrow> Some None
     | Some ts \<Rightarrow>
         Option.bind (string_field ''server_name'' ts) (\<lambda>name.
         Option.bind (pointer_field ''reality'' ts) (\<lambda>reality.
         case reality of None \<Rightarrow> Some None
         | Some rs \<Rightarrow>
             Option.bind (bool_field ''enabled'' rs) (\<lambda>enabled.
             Option.bind (struct_field ''handshake'' rs) (\<lambda>hs.
             Option.bind (string_field ''server'' hs) (\<lambda>server.
             Option.bind (int_field ''server_port'' hs) (\<lambda>port.
             Some (if \<not> enabled \<or> TrimSpace server = [] then None
                   else Some (TrimSpace server, if port = 0 then 443 else port,
                              if TrimSpace name = [] then TrimSpace server else TrimSpace name)))))))))"

fun collect_targets :: "json list \<Rightarrow> (string \<times> int \<times> string) list option" where
  "collect_targets [] = Some []"
| "collect_targets (j # js) =
     Option.bind (Option.bind (as_struct j) reality_target) (\<lambda>t.
     Option.bind (collect_targets js) (\<lambda>ts. Some (case t of None \<Rightarrow> ts | Some x \<Rightarrow> x # ts)))"

definition realityHandshakeTargets :: "agent_lib \<Rightarrow> string \<Rightarrow> (string \<times> int \<times> string) list option" where
  "realityHandshakeTargets L payload =
     Option.bind (decoded (al_json L payload)) (\<lambda>ms. Option.bind (slice_field ''inbounds'' ms) collect_targets)"

fun describeRealityHandshakeError :: "tls_result \<Rightarrow> string" where
  "describeRealityHandshakeError Tls_no_such_name = ''DNS name does not exist (NXDOMAIN)''"
| "describeRealityHandshakeError Tls_lookup_failed = ''DNS lookup failed''"
| "describeRealityHandshakeError Tls_timeout = ''TCP or TLS handshake timed out''"
| "describeRealityHandshakeError (Tls_failed s) = TrimSpace s"
| "describeRealityHandshakeError Tls_ok = []"

definition tick :: "nat \<Rightarrow> host \<Rightarrow> host" where
  "tick d n = n\<lparr>hs_now := hs_now n + d, hs_calls := Suc (hs_calls n)\<rparr>"

fun dial_targets :: "host_env \<Rightarrow> (string \<times> int \<times> string) list \<Rightarrow> host \<Rightarrow> agent_error option \<times> host" where
  "dial_targets E [] n = (None, n)"
| "dial_targets E (t # ts) n =
     (case he_tls E t n of
        (Tls_ok, d) \<Rightarrow> dial_targets E ts (tick d n)
      | (e, d) \<Rightarrow> (Some (Because (describeRealityHandshakeError e) (Unreachable (fst t) (fst (snd t)))), tick d n))"

definition CheckRealityHandshakeTargets :: "host_env \<Rightarrow> agent_lib \<Rightarrow> string \<Rightarrow> host \<Rightarrow> agent_error option \<times> host" where
  "CheckRealityHandshakeTargets E L path n =
     (case os_ReadFile E (TrimSpace path) n of
        (Inl e, n) \<Rightarrow> (Some (Because ''read staged sing-box config'' e), n)
      | (Inr payload, n) \<Rightarrow>
          (case realityHandshakeTargets L payload of
             None \<Rightarrow> (Some (Invalid ''decode staged sing-box config''), n)
           | Some ts \<Rightarrow> dial_targets E ts n))"

definition singbox_Validate :: "host_env \<Rightarrow> agent_lib \<Rightarrow> string \<Rightarrow> string \<Rightarrow> ValidationReport reported" where
  "singbox_Validate E L binary path n =
     (case Validator_Check E binary path n of
        ((result, Some e), n) \<Rightarrow> ((result, Some e), n)
      | ((result, None), n) \<Rightarrow> (case CheckRealityHandshakeTargets E L path n of (e, n) \<Rightarrow> ((result, e), n)))"

text \<open>The private copy of a WireGuard configuration is checked under the name of the interface.\<close>

definition validation_copy :: "host_env \<Rightarrow> host \<Rightarrow> string" where
  "validation_copy E n = filepath_Join (he_temp E (hs_calls n)) ''routegate-wg0.conf''"

definition wireguard_Validate :: "host_env \<Rightarrow> string \<Rightarrow> string \<Rightarrow> ValidationReport reported" where
  "wireguard_Validate E wgQuick path n =
     (case os_ReadFile E (TrimSpace path) n of
        (Inl e, n) \<Rightarrow> ((no_validation, Some (Because ''read staged WireGuard config'' e)), n)
      | (Inr payload, n) \<Rightarrow>
          if parseWireGuardConfig payload = None
          then ((no_validation, Some (Invalid ''staged WireGuard config does not parse'')), n)
          else let copy = validation_copy E n in
          (case sys_call E n of
             (Inl e, n) \<Rightarrow> ((no_validation, Some (Because ''create WireGuard validation dir'' e)), n)
           | (Inr _, n) \<Rightarrow>
               (case os_WriteFile E copy payload n of
                  (Inl e, n) \<Rightarrow>
                    ((no_validation, Some (Because ''write WireGuard validation config'' e)), snd (attempt (os_Remove E copy) n))
                | (Inr _, n) \<Rightarrow>
                    let ((x, _), n) = run_command E wgQuick [''strip'', copy] n
                    in (((no_validation\<lparr>vd_command := wgQuick @ '' strip <staged-wireguard-config>''\<rparr>),
                         case x of
                           Exited \<Rightarrow> None
                         | Deadline_passed \<Rightarrow> Some (Timed_out ''wg-quick validation'')
                         | _ \<Rightarrow> Some (Invalid ''wg-quick rejected the staged WireGuard config'')),
                        snd (attempt (os_Remove E copy) n)))))"

text \<open>Hysteria2 and MTProto: the parser, then the version of the binary.\<close>

definition version_Validate :: "host_env \<Rightarrow> (string \<Rightarrow> bool) \<Rightarrow> string \<Rightarrow> string \<Rightarrow> string \<Rightarrow> ValidationReport reported" where
  "version_Validate E parses binary flag path n =
     (case os_ReadFile E (TrimSpace path) n of
        (Inl e, n) \<Rightarrow> ((no_validation, Some (Because ''read staged config'' e)), n)
      | (Inr payload, n) \<Rightarrow>
          if \<not> parses payload then ((no_validation, Some (Invalid ''staged config does not parse'')), n)
          else let ((x, out), n) = run_command E binary [flag] n
               in ((\<lparr>vd_command = binary @ '' '' @ flag, vd_output = TrimSpace out\<rparr>,
                    case x of
                      Exited \<Rightarrow> None
                    | Deadline_passed \<Rightarrow> Some (Timed_out ''binary validation'')
                    | _ \<Rightarrow> Some (Invalid ''binary is unavailable or failed its version check'')), n))"

section \<open>Listeners\<close>

record ListenerHealthResult =
  lh_address :: string
  lh_port :: int

definition no_listener :: ListenerHealthResult where
  "no_listener = \<lparr>lh_address = [], lh_port = 0\<rparr>"

text \<open>A dial under a deadline: it is refused once the deadline has passed.\<close>

definition dial_before :: "host_env \<Rightarrow> nat \<Rightarrow> string \<Rightarrow> host \<Rightarrow> bool \<times> host" where
  "dial_before E deadline address n =
     (if deadline \<le> hs_now n then (False, n) else case he_dial E address n of (b, d) \<Rightarrow> (b, tick d n))"

definition dial_round :: "host_env \<Rightarrow> int \<Rightarrow> nat \<Rightarrow> host \<Rightarrow> string option \<times> host" where
  "dial_round E port deadline n =
     (let v4 = ''127.0.0.1:'' @ Itoa port; v6 = ''[::1]:'' @ Itoa port in
      case dial_before E deadline v4 n of
        (True, n) \<Rightarrow> (Some v4, n)
      | (False, n) \<Rightarrow>
          if deadline \<le> hs_now n then (None, n)
          else case dial_before E deadline v6 n of (True, n) \<Rightarrow> (Some v6, n) | (False, n) \<Rightarrow> (None, n))"

definition positive_or :: "nat \<Rightarrow> nat \<Rightarrow> nat" where
  "positive_or d n = (if n = 0 then d else n)"

lemma dial_round_time: "dial_round E port deadline n = (r, n') \<Longrightarrow> hs_now n \<le> hs_now n'"
  by (auto simp: dial_round_def dial_before_def tick_def Let_def split: prod.splits if_splits bool.splits)

lemma positive_or_pos: "0 < d \<Longrightarrow> 0 < positive_or d n"
  by (simp add: positive_or_def)

function tcp_loop :: "host_env \<Rightarrow> int \<Rightarrow> nat \<Rightarrow> nat \<Rightarrow> host \<Rightarrow> string option \<times> host" where
  "tcp_loop E port deadline interval n =
     (case dial_round E port deadline n of
        (Some address, n') \<Rightarrow> (Some address, n')
      | (None, n') \<Rightarrow>
          if deadline \<le> hs_now n' then (None, n')
          else tcp_loop E port deadline interval (n'\<lparr>hs_now := min deadline (hs_now n' + positive_or 100 interval)\<rparr>))"
  by pat_completeness auto
termination
proof (relation "measure (\<lambda>(E, port, deadline, interval, n). deadline - hs_now n)", goal_cases)
  case (2 E port deadline interval n a n')
  have "hs_now n \<le> hs_now n'" by (rule dial_round_time [of E port deadline n None]) (use 2 in simp)
  moreover have "0 < positive_or 100 interval" by (rule positive_or_pos) simp
  ultimately show ?case using 2 by (auto simp: min_def)
qed simp

declare tcp_loop.simps [simp del]

definition checkTCPListenerPort :: "host_env \<Rightarrow> int \<Rightarrow> string \<Rightarrow> nat \<Rightarrow> nat \<Rightarrow> ListenerHealthResult reported" where
  "checkTCPListenerPort E port label timeout interval n =
     (case tcp_loop E port (hs_now n + positive_or 3000 timeout) interval n of
        (Some address, n) \<Rightarrow> ((\<lparr>lh_address = address, lh_port = port\<rparr>, None), n)
      | (None, n) \<Rightarrow> ((\<lparr>lh_address = [], lh_port = port\<rparr>, Some (Unreachable label port)), n))"

text \<open>An inbound as a \<open>map[string]any\<close>: exact names, the last member wins.\<close>

definition map_entry :: "string \<Rightarrow> (string \<times> json) list \<Rightarrow> json" where
  "map_entry k ms = (case map_of (rev ms) k of None \<Rightarrow> JNull | Some v \<Rightarrow> v)"

definition listenerPort :: "json \<Rightarrow> int" where
  "listenerPort v = intValue v"

fun all_structs :: "json list \<Rightarrow> (string \<times> json) list list option" where
  "all_structs [] = Some []"
| "all_structs (j # js) = Option.bind (as_struct j) (\<lambda>ms. map_option (Cons ms) (all_structs js))"

definition active_inbounds :: "agent_lib \<Rightarrow> string \<Rightarrow> (string \<times> json) list list option" where
  "active_inbounds L payload =
     Option.bind (decoded (al_json L payload)) (\<lambda>ms. Option.bind (slice_field ''inbounds'' ms) all_structs)"

fun check_inbounds :: "host_env \<Rightarrow> (string \<times> json) list list \<Rightarrow> nat \<Rightarrow> host \<Rightarrow> agent_error option \<times> host" where
  "check_inbounds E [] checked n =
     (if checked = 0 then Some (Invalid ''active sing-box config contains no managed TCP listener'') else None, n)"
| "check_inbounds E (ms # mss) checked n =
     (let typeName = ToLower (TrimSpace (stringValue (map_entry ''type'' ms)));
          port = listenerPort (map_entry ''listen_port'' ms) in
      if typeName \<notin> {''vless'', ''shadowsocks''} then check_inbounds E mss checked n
      else if port < 1 \<or> 65535 < port then (Some (Invalid (''no valid listen_port: '' @ typeName)), n)
      else case checkTCPListenerPort E port typeName 3000 100 n of
             ((_, Some e), n) \<Rightarrow> (Some e, n)
           | ((_, None), n) \<Rightarrow> check_inbounds E mss (Suc checked) n)"

definition read_active :: "host_env \<Rightarrow> agent_lib \<Rightarrow> string \<Rightarrow> host \<Rightarrow> (agent_error + (string \<times> json) list list) \<times> host" where
  "read_active E L path n =
     (case os_ReadFile E (TrimSpace path) n of
        (Inl e, n) \<Rightarrow> (Inl (Because ''read active sing-box config'' e), n)
      | (Inr payload, n) \<Rightarrow>
          ((case active_inbounds L payload of
              None \<Rightarrow> Inl (Invalid ''decode active sing-box config'') | Some mss \<Rightarrow> Inr mss), n))"

definition CheckSingBoxTCPListeners :: "host_env \<Rightarrow> agent_lib \<Rightarrow> string \<Rightarrow> host \<Rightarrow> agent_error option \<times> host" where
  "CheckSingBoxTCPListeners E L path n =
     (case read_active E L path n of (Inl e, n) \<Rightarrow> (Some e, n) | (Inr mss, n) \<Rightarrow> check_inbounds E mss 0 n)"

definition checkSingBoxTCPListener ::
  "host_env \<Rightarrow> agent_lib \<Rightarrow> string \<Rightarrow> string \<Rightarrow> nat \<Rightarrow> nat \<Rightarrow> ListenerHealthResult reported" where
  "checkSingBoxTCPListener E L path inboundType timeout interval n =
     (let wanted = ToLower (TrimSpace inboundType) in
      if wanted = [] then ((no_listener, Some (Invalid ''sing-box inbound type is required'')), n)
      else case read_active E L path n of
             (Inl e, n) \<Rightarrow> ((no_listener, Some e), n)
           | (Inr mss, n) \<Rightarrow>
               let port = (case find (\<lambda>ms. EqualFold (TrimSpace (stringValue (map_entry ''type'' ms))) wanted) mss of
                             None \<Rightarrow> 0 | Some ms \<Rightarrow> listenerPort (map_entry ''listen_port'' ms)) in
               if port < 1 \<or> 65535 < port then ((no_listener, Some (Invalid (''no valid listen_port: '' @ wanted))), n)
               else checkTCPListenerPort E port wanted timeout interval n)"

definition singbox_CheckHealth :: "host_env \<Rightarrow> agent_lib \<Rightarrow> string \<Rightarrow> string \<Rightarrow> ListenerHealthResult reported" where
  "singbox_CheckHealth E L inboundType path n =
     (case CheckSingBoxTCPListeners E L path n of
        (Some e, n) \<Rightarrow> ((no_listener, Some e), n)
      | (None, n) \<Rightarrow> checkSingBoxTCPListener E L path inboundType 3000 100 n)"

definition wireguard_CheckHealth :: "host_env \<Rightarrow> string \<Rightarrow> string \<Rightarrow> ListenerHealthResult reported" where
  "wireguard_CheckHealth E wg interface n =
     (let ((x, out), n) = run_command E wg [''show'', interface, ''listen-port''] n;
          result = \<lparr>lh_address = interface, lh_port = 0\<rparr> in
      if x \<noteq> Exited then ((result, Some (Invalid ''WireGuard interface health check failed'')), n)
      else case Atoi (TrimSpace out) of
             None \<Rightarrow> ((result, Some (Invalid ''no valid listen port'')), n)
           | Some p \<Rightarrow> if p < 1 \<or> 65535 < p then ((result, Some (Invalid ''no valid listen port'')), n)
                       else ((result\<lparr>lh_port := p\<rparr>, None), n))"

definition mtproto_CheckHealth :: "host_env \<Rightarrow> agent_lib \<Rightarrow> string \<Rightarrow> ListenerHealthResult reported" where
  "mtproto_CheckHealth E L path n =
     (case os_ReadFile E (TrimSpace path) n of
        (Inl e, n) \<Rightarrow> ((no_listener, Some (Invalid ''read active MTProto config failed'')), n)
      | (Inr payload, n) \<Rightarrow>
          (case parseMTProtoConfig (al_lib L) payload of
             None \<Rightarrow> ((no_listener, Some (Invalid ''MTProto config does not parse'')), n)
           | Some c \<Rightarrow> checkTCPListenerPort E (amt_port c) ''MTProto'' 3000 100 n))"

text \<open>A command under a deadline is not started once the deadline has passed.\<close>

definition run_before :: "host_env \<Rightarrow> nat \<Rightarrow> string \<Rightarrow> string list \<Rightarrow> host \<Rightarrow> (exit_state \<times> string) \<times> host" where
  "run_before E deadline name args n =
     (if deadline \<le> hs_now n then ((Deadline_passed, []), n) else run_command E name args n)"

lemma run_before_time: "run_before E deadline name args n = (r, n') \<Longrightarrow> hs_now n \<le> hs_now n'"
  by (auto simp: run_before_def run_command_def split: prod.splits if_splits)

definition mentions_listener :: "int \<Rightarrow> string \<Rightarrow> bool" where
  "mentions_listener port out \<longleftrightarrow>
     (\<exists>line \<in> set (Split_at newline out). sublist ('':'' @ Itoa port) line \<and> sublist ''hysteria'' (ToLower line))"

text \<open>The ticker fires at \<open>next_tick\<close> and keeps one unread tick; when both the ticker and the deadline are
  ready, \<open>select\<close> takes either.\<close>

definition following_tick :: "nat \<Rightarrow> nat \<Rightarrow> nat \<Rightarrow> nat" where
  "following_tick period next_tick now = next_tick + period * ((now - next_tick) div period + 1)"

datatype h2_step = H2_done "agent_error option" host | H2_again nat host

definition h2_failure :: "exit_state \<Rightarrow> agent_error option" where
  "h2_failure x = Some (Invalid (if x \<noteq> Exited then ''Hysteria2 UDP listener health check failed''
     else ''Hysteria2 process did not report the configured UDP listener''))"

definition h2_poll :: "host_env \<Rightarrow> string \<Rightarrow> int \<Rightarrow> nat \<Rightarrow> nat \<Rightarrow> host \<Rightarrow> h2_step" where
  "h2_poll E ss port deadline next_tick n =
     (let ((x, out), n') = run_before E deadline ss [''-H'', ''-lunp''] n;
          now = hs_now n' in
      if x = Exited \<and> mentions_listener port out then H2_done None n'
      else if deadline \<le> now \<and> (now < next_tick \<or> \<not> he_late_tick E (hs_calls n')) then H2_done (h2_failure x) n'
      else if next_tick \<le> now then H2_again (following_tick 500 next_tick now) n'
      else if deadline < next_tick \<or> (deadline = next_tick \<and> \<not> he_late_tick E (hs_calls n'))
      then H2_done (h2_failure x) (n'\<lparr>hs_now := deadline\<rparr>)
      else H2_again (next_tick + 500) (n'\<lparr>hs_now := next_tick\<rparr>))"

definition h2_left :: "nat \<Rightarrow> nat \<Rightarrow> host \<Rightarrow> nat" where
  "h2_left deadline next_tick n = 2 * (deadline - hs_now n) + (if next_tick \<le> hs_now n then 1 else 0)"

lemma following_tick_later: "t \<le> now \<Longrightarrow> now < following_tick 500 t now"
  using dividend_less_times_div [of 500 "now - t"] by (simp add: following_tick_def)

lemma h2_poll_again:
  assumes "h2_poll E ss port deadline next_tick n = H2_again t n''" "run_before E deadline ss [''-H'', ''-lunp''] n = ((x, out), n')"
  shows "if next_tick \<le> hs_now n' then t = following_tick 500 next_tick (hs_now n') \<and> n'' = n'
    else hs_now n' < deadline \<and> next_tick \<le> deadline \<and> t = next_tick + 500 \<and> n'' = n'\<lparr>hs_now := next_tick\<rparr>"
proof (cases "next_tick \<le> hs_now n'")
  case True
  then show ?thesis using assms(1) unfolding h2_poll_def assms(2) Let_def prod.case by (auto split: if_split_asm)
next
  case False
  then show ?thesis using assms(1) unfolding h2_poll_def assms(2) Let_def prod.case by (simp split: if_split_asm)
qed

lemma h2_poll_decreases:
  assumes again: "h2_poll E ss port deadline next_tick n = H2_again t n''"
  shows "h2_left deadline t n'' < h2_left deadline next_tick n"
proof -
  obtain x out n' where run: "run_before E deadline ss [''-H'', ''-lunp''] n = ((x, out), n')" by (metis prod.exhaust)
  have le: "hs_now n \<le> hs_now n'" by (rule run_before_time [OF run])
  have still: "hs_now n' = hs_now n" if "deadline \<le> hs_now n" using run that by (simp add: run_before_def)
  note next_step = h2_poll_again [OF again run]
  show ?thesis
  proof (cases "next_tick \<le> hs_now n'")
    case True
    then have t: "n'' = n'" "hs_now n' < t" using next_step following_tick_later [OF True] by simp_all
    show ?thesis
    proof (cases "hs_now n' = hs_now n")
      case False
      then have "hs_now n < deadline" "hs_now n < hs_now n'" using still le by (auto simp: not_le [symmetric])
      then show ?thesis using t by (simp add: h2_left_def)
    qed (use t True in \<open>simp add: h2_left_def\<close>)
  next
    case False
    then show ?thesis using next_step le by (auto simp: h2_left_def)
  qed
qed

function h2_loop :: "host_env \<Rightarrow> string \<Rightarrow> int \<Rightarrow> nat \<Rightarrow> nat \<Rightarrow> host \<Rightarrow> agent_error option \<times> host" where
  "h2_loop E ss port deadline next_tick n =
     (case h2_poll E ss port deadline next_tick n of
        H2_done e n' \<Rightarrow> (e, n')
      | H2_again t n' \<Rightarrow> h2_loop E ss port deadline t n')"
  by pat_completeness auto
termination
  by (relation "measure (\<lambda>(E, ss, port, deadline, next_tick, n). h2_left deadline next_tick n)")
     (auto intro: h2_poll_decreases)

declare h2_loop.simps [simp del]

definition hysteria2_CheckHealth :: "host_env \<Rightarrow> agent_lib \<Rightarrow> string \<Rightarrow> string \<Rightarrow> ListenerHealthResult reported" where
  "hysteria2_CheckHealth E L ss path n =
     (case os_ReadFile E (TrimSpace path) n of
        (Inl e, n) \<Rightarrow> ((no_listener, Some (Invalid ''read active Hysteria2 config failed'')), n)
      | (Inr payload, n) \<Rightarrow>
          (case parseHysteria2Config L payload of
             None \<Rightarrow> ((no_listener, Some (Invalid ''Hysteria2 config does not parse'')), n)
           | Some h \<Rightarrow>
               let port = (case Atoi (TrimPrefix (h2_listen h) '':'') of None \<Rightarrow> 0 | Some p \<Rightarrow> p) in
               (case h2_loop E ss port (hs_now n + 30000) (hs_now n + 500) n of
                  (e, n) \<Rightarrow> ((\<lparr>lh_address = ''udp'', lh_port = port\<rparr>, e), n))))"

end
