(* ===== verification/Agent_Apply.thy ===== *)
theory Agent_Apply
  imports Agent_Cores
begin

text \<open>
  Applying a configuration on a node (\<open>agent/internal/heartbeat/multi_config_apply.go\<close>,
  \<open>agent/internal/tasks/applier.go\<close>, \<open>vpn_core_adapter.go\<close>): the interface \<open>VPNCoreAdapter\<close> with its five
  implementations, the adapters of the task, staging and validation of
  every runtime, promotion of the staged files with a backup of what was active, restart and health checks, and
  the rollback in reverse order when any of it fails.
\<close>

section \<open>The interface of the adapters\<close>

record VPNCoreAdapter =
  ca_descriptor :: VPNCoreAdapterDescriptor
  ca_Stage :: "ConfigTask \<Rightarrow> StageResult sys"
  ca_Validate :: "string \<Rightarrow> ValidationReport reported"
  ca_Restart :: "ServiceResult reported"
  ca_Stop :: "ServiceResult reported"
  ca_IsActive :: "ServiceResult reported"
  ca_IsEnabled :: "ServiceResult reported"
  ca_CheckHealth :: "string \<Rightarrow> ListenerHealthResult reported"

definition ManagedVPNCoreAdapters :: "VPNCoreAdapterDescriptor list" where
  "ManagedVPNCoreAdapters =
     [\<lparr>de_core = ''sing-box'', de_protocol = ''vless'', de_transports = [''tcp''], de_securities = [''none'', ''reality'']\<rparr>,
      \<lparr>de_core = ''wireguard'', de_protocol = ''wireguard'', de_transports = [''udp''], de_securities = [''wireguard'']\<rparr>,
      \<lparr>de_core = ''hysteria'', de_protocol = ''hysteria2'', de_transports = [''quic''], de_securities = [''tls'']\<rparr>,
      \<lparr>de_core = ''sing-box'', de_protocol = ''shadowsocks'', de_transports = [''tcp''], de_securities = [''aead-2022'']\<rparr>,
      \<lparr>de_core = ''mtg'', de_protocol = ''mtproto'', de_transports = [''tcp''], de_securities = [''faketls'']\<rparr>]"

record AgentConfig =
  gc_staging :: string
  gc_active :: string
  gc_backup :: string
  gc_sing_box :: string
  gc_service :: string
  gc_service_control :: bool
  gc_wg_staging :: string
  gc_wg_active :: string
  gc_wg_backup :: string
  gc_wg_quick :: string
  gc_wg :: string
  gc_wg_service :: string
  gc_wg_interface :: string
  gc_h2_staging :: string
  gc_h2_active :: string
  gc_h2_backup :: string
  gc_hysteria :: string
  gc_h2_service :: string
  gc_ss :: string
  gc_mt_staging :: string
  gc_mt_active :: string
  gc_mt_backup :: string
  gc_mtg :: string
  gc_mt_service :: string

definition defaultTaskValue :: "string \<Rightarrow> string \<Rightarrow> string" where
  "defaultTaskValue v fallback = (if TrimSpace v = [] then fallback else TrimSpace v)"

definition service_name :: "string \<Rightarrow> string" where
  "service_name s = (if TrimSpace s = [] then ''sing-box'' else s)"

definition core_adapter ::
  "host_env \<Rightarrow> nat \<Rightarrow> string \<Rightarrow> (ConfigTask \<Rightarrow> StageResult sys) \<Rightarrow> (string \<Rightarrow> ValidationReport reported)
     \<Rightarrow> (string \<Rightarrow> ListenerHealthResult reported) \<Rightarrow> VPNCoreAdapter" where
  "core_adapter E i service stage validate health =
     \<lparr>ca_descriptor = ManagedVPNCoreAdapters ! i, ca_Stage = stage, ca_Validate = validate,
      ca_Restart = Service_Restart E service, ca_Stop = Service_Stop E service,
      ca_IsActive = Service_IsActive E service, ca_IsEnabled = Service_IsEnabled E service, ca_CheckHealth = health\<rparr>"

definition singbox_adapter :: "host_env \<Rightarrow> agent_lib \<Rightarrow> AgentConfig \<Rightarrow> nat \<Rightarrow> string \<Rightarrow> VPNCoreAdapter" where
  "singbox_adapter E L C i inboundType =
     core_adapter E i (service_name (gc_service C)) (Stager_Stage E L (gc_staging C))
       (singbox_Validate E L (if TrimSpace (gc_sing_box C) = [] then ''sing-box'' else gc_sing_box C))
       (singbox_CheckHealth E L inboundType)"

definition NewSingBoxVLESSAdapter :: "host_env \<Rightarrow> agent_lib \<Rightarrow> AgentConfig \<Rightarrow> VPNCoreAdapter" where
  "NewSingBoxVLESSAdapter E L C = singbox_adapter E L C 0 ''vless''"

definition NewSingBoxShadowsocksAdapter :: "host_env \<Rightarrow> agent_lib \<Rightarrow> AgentConfig \<Rightarrow> VPNCoreAdapter" where
  "NewSingBoxShadowsocksAdapter E L C = singbox_adapter E L C 3 ''shadowsocks''"

definition managed_path :: "string \<Rightarrow> string \<Rightarrow> string \<Rightarrow> string" where
  "managed_path v short full = (let v = TrimSpace v in if v = [] \<or> v = short then full else v)"

definition NewWireGuardAdapter :: "host_env \<Rightarrow> AgentConfig \<Rightarrow> VPNCoreAdapter" where
  "NewWireGuardAdapter E C =
     core_adapter E 1 (service_name (defaultTaskValue (gc_wg_service C) ''wg-quick@routegate-wg0''))
       (stage_section E ''wireGuard'' (\<lambda>s. parseWireGuardConfig s \<noteq> None) (TrimSpace (gc_wg_staging C)) ''.conf'')
       (wireguard_Validate E (managed_path (gc_wg_quick C) ''wg-quick'' ''/usr/bin/wg-quick''))
       (\<lambda>_. wireguard_CheckHealth E (managed_path (gc_wg C) ''wg'' ''/usr/bin/wg'')
          (defaultTaskValue (gc_wg_interface C) ''routegate-wg0''))"

definition NewHysteria2Adapter :: "host_env \<Rightarrow> agent_lib \<Rightarrow> AgentConfig \<Rightarrow> VPNCoreAdapter" where
  "NewHysteria2Adapter E L C =
     core_adapter E 2 (service_name (defaultTaskValue (gc_h2_service C) ''hysteria-server''))
       (stage_section E ''hysteria2'' (\<lambda>s. parseHysteria2Config L s \<noteq> None) (TrimSpace (gc_h2_staging C)) ''.json'')
       (version_Validate E (\<lambda>s. parseHysteria2Config L s \<noteq> None) (defaultTaskValue (gc_hysteria C) ''hysteria'') ''version'')
       (hysteria2_CheckHealth E L (defaultTaskValue (gc_ss C) ''ss''))"

definition NewMTProtoAdapter :: "host_env \<Rightarrow> agent_lib \<Rightarrow> AgentConfig \<Rightarrow> VPNCoreAdapter" where
  "NewMTProtoAdapter E L C =
     core_adapter E 4 (service_name (defaultTaskValue (gc_mt_service C) ''routegate-mtproto''))
       (stage_section E ''mtproto'' (\<lambda>s. parseMTProtoConfig (al_lib L) s \<noteq> None) (TrimSpace (gc_mt_staging C)) ''.toml'')
       (version_Validate E (\<lambda>s. parseMTProtoConfig (al_lib L) s \<noteq> None)
          (managed_path (gc_mtg C) ''mtg'' ''/usr/local/bin/mtg'') ''--version'')
       (mtproto_CheckHealth E L)"

definition adapterStorage :: "AgentConfig \<Rightarrow> string \<Rightarrow> string \<times> string" where
  "adapterStorage C core =
     (if core = ''wireguard'' then (gc_wg_active C, gc_wg_backup C)
      else if core = ''hysteria'' then (gc_h2_active C, gc_h2_backup C)
      else if core = ''mtg'' then (gc_mt_active C, gc_mt_backup C)
      else (gc_active C, gc_backup C))"

section \<open>The adapters of a task\<close>

record renderedVPNCoreDescriptor =
  rv_core :: string
  rv_protocol :: string
  rv_transport :: string
  rv_security :: string

definition decode_core :: "(string \<times> json) list \<Rightarrow> renderedVPNCoreDescriptor option" where
  "decode_core ms =
     Option.bind (string_field ''core'' ms) (\<lambda>c.
     Option.bind (string_field ''protocol'' ms) (\<lambda>p.
     Option.bind (string_field ''transport'' ms) (\<lambda>t.
     map_option (\<lambda>s. \<lparr>rv_core = c, rv_protocol = p, rv_transport = t, rv_security = s\<rparr>) (string_field ''security'' ms))))"

fun decode_cores :: "(string \<times> json) list list \<Rightarrow> renderedVPNCoreDescriptor list option" where
  "decode_cores [] = Some []"
| "decode_cores (ms # mss) = Option.bind (decode_core ms) (\<lambda>d. map_option (Cons d) (decode_cores mss))"

definition decode_descriptors :: "json option \<Rightarrow> renderedVPNCoreDescriptor list option" where
  "decode_descriptors raw =
     Option.bind (decoded raw) (\<lambda>ms.
     Option.bind (struct_field ''metadata'' ms) (\<lambda>md.
     Option.bind (Option.bind (struct_field ''vpnCore'' md) decode_core) (\<lambda>single.
     Option.bind (Option.bind (Option.bind (slice_field ''vpnCores'' md) all_structs) decode_cores) (\<lambda>several.
     Some (if several = [] then [single] else several)))))"

definition manages :: "renderedVPNCoreDescriptor \<Rightarrow> VPNCoreAdapter \<Rightarrow> bool" where
  "manages d a \<longleftrightarrow>
     (let m = ca_descriptor a in
      de_core m = rv_core d \<and> de_protocol m = rv_protocol d \<and> rv_transport d \<in> set (de_transports m)
      \<and> rv_security d \<in> set (de_securities m))"

text \<open>One adapter per core: VLESS and Shadowsocks share the file and the service of sing-box.\<close>

fun select_adapters ::
  "VPNCoreAdapter option \<Rightarrow> VPNCoreAdapter list \<Rightarrow> renderedVPNCoreDescriptor list \<Rightarrow> string list
     \<Rightarrow> agent_error + VPNCoreAdapter list" where
  "select_adapters vless candidates [] seen = Inr []"
| "select_adapters vless candidates (d # ds) seen =
     (case (if TrimSpace (rv_core d) = [] then vless else find (manages d) candidates) of
        None \<Rightarrow> Inl (Invalid (if TrimSpace (rv_core d) = [] then ''VLESS VPN Core adapter is unavailable''
                              else ''rendered config selects an unsupported VPN Core adapter''))
      | Some a \<Rightarrow>
          let core = de_core (ca_descriptor a) in
          if core \<in> set seen then select_adapters vless candidates ds seen
          else (case select_adapters vless candidates ds (core # seen) of Inl e \<Rightarrow> Inl e | Inr as \<Rightarrow> Inr (a # as)))"

definition SelectVPNCoreAdapters ::
  "ConfigTask \<Rightarrow> VPNCoreAdapter option \<Rightarrow> VPNCoreAdapter option list \<Rightarrow> agent_error + VPNCoreAdapter list" where
  "SelectVPNCoreAdapters t vless others =
     (case decode_descriptors (ct_rendered t) of
        None \<Rightarrow> Inl (Invalid ''rendered config must be valid JSON'')
      | Some ds \<Rightarrow>
          (case select_adapters vless (List.map_filter id (vless # others)) ds [] of
             Inl e \<Rightarrow> Inl e
           | Inr as \<Rightarrow> if as = [] then Inl (Invalid ''rendered config contains no managed VPN Core adapters'') else Inr as))"

section \<open>Promotion and rollback of a file\<close>

record ApplyResult =
  ar_staged :: string
  ar_active :: string
  ar_backup :: string
  ar_version :: string

definition no_apply :: ApplyResult where
  "no_apply = \<lparr>ar_staged = [], ar_active = [], ar_backup = [], ar_version = []\<rparr>"

definition stat_or :: "host_env \<Rightarrow> string \<Rightarrow> stat_result sys" where
  "stat_or E p n = (case os_Stat E p n of (r, n) \<Rightarrow> (Inr r, n))"

definition previous_path :: "string \<Rightarrow> string \<Rightarrow> string" where
  "previous_path backupDir version = filepath_Join backupDir (version @ ''.previous.json'')"

definition backup_active :: "host_env \<Rightarrow> string \<Rightarrow> string \<Rightarrow> string \<Rightarrow> string sys" where
  "backup_active E activePath backupDir version =
     andThen (stat_or E activePath) (\<lambda>s.
     case s of
       Present \<Rightarrow>
         andThen (wrapping (Because ''backup active config'') (copyFileAtomic E activePath (previous_path backupDir version)))
           (\<lambda>_. ok (previous_path backupDir version))
     | Absent \<Rightarrow> ok []
     | Stat_failed \<Rightarrow> fail (Because ''inspect active config'' Io_error))"

definition Applier_Apply :: "host_env \<Rightarrow> string \<Rightarrow> string \<Rightarrow> string \<Rightarrow> string \<Rightarrow> ApplyResult sys" where
  "Applier_Apply E activePath backupDir stagedPath version =
     (let stagedPath = TrimSpace stagedPath; version = TrimSpace version in
      andThen (need (stagedPath \<noteq> []) (Invalid ''staged config path is required'')) (\<lambda>_.
      andThen (need (version \<noteq> []) (Invalid ''config version id is required'')) (\<lambda>_.
      andThen (need (TrimSpace activePath \<noteq> []) (Invalid ''active config path is required'')) (\<lambda>_.
      andThen (need (TrimSpace backupDir \<noteq> []) (Invalid ''config backup dir is required'')) (\<lambda>_.
      andThen (stat_or E stagedPath) (\<lambda>s.
      andThen (need (s = Present) (Because ''read staged config'' (if s = Absent then Not_exist else Io_error))) (\<lambda>_.
      andThen (wrapping (Because ''create active config dir'') (sys_call E)) (\<lambda>_.
      andThen (wrapping (Because ''create config backup dir'') (sys_call E)) (\<lambda>_.
      andThen (backup_active E activePath backupDir version) (\<lambda>backup.
      andThen (wrapping (Because ''promote staged config'') (copyFileAtomic E stagedPath activePath)) (\<lambda>_.
      ok \<lparr>ar_staged = stagedPath, ar_active = activePath, ar_backup = backup, ar_version = version\<rparr>)))))))))))"

definition Applier_Rollback :: "host_env \<Rightarrow> string \<Rightarrow> string \<Rightarrow> unit sys" where
  "Applier_Rollback E activePath backupPath =
     (let backupPath = TrimSpace backupPath in
      andThen (need (backupPath \<noteq> []) (Invalid ''backup config path is required'')) (\<lambda>_.
      andThen (need (TrimSpace activePath \<noteq> []) (Invalid ''active config path is required'')) (\<lambda>_.
      andThen (stat_or E backupPath) (\<lambda>s.
      andThen (need (s = Present) (Because ''read backup config'' (if s = Absent then Not_exist else Io_error))) (\<lambda>_.
      andThen (wrapping (Because ''create active config dir'') (sys_call E)) (\<lambda>_.
      wrapping (Because ''restore backup config'') (copyFileAtomic E backupPath activePath)))))))"

definition remove_if_there :: "host_env \<Rightarrow> string \<Rightarrow> unit sys" where
  "remove_if_there E p n =
     (case os_Remove E p n of
        (Inl e, n') \<Rightarrow> (if e = Not_exist then Inr () else Inl (Because ''remove newly-created active config'' e), n')
      | (Inr _, n') \<Rightarrow> (Inr (), n'))"

definition Applier_RollbackApply :: "host_env \<Rightarrow> string \<Rightarrow> ApplyResult \<Rightarrow> unit sys" where
  "Applier_RollbackApply E activePath r =
     (if TrimSpace (ar_backup r) \<noteq> [] then Applier_Rollback E activePath (ar_backup r)
      else let path = (if TrimSpace (ar_active r) = [] then TrimSpace activePath else TrimSpace (ar_active r)) in
           andThen (need (path \<noteq> []) (Invalid ''active config path is required'')) (\<lambda>_. remove_if_there E path))"

section \<open>The apply task\<close>

record prepared =
  pr_adapter :: VPNCoreAdapter
  pr_active :: string
  pr_backup_dir :: string
  pr_stage :: StageResult
  pr_validation :: ValidationReport
  pr_apply :: ApplyResult
  pr_restart :: ServiceResult
  pr_health :: ServiceResult
  pr_persistence :: ServiceResult
  pr_listener :: ListenerHealthResult

definition newly_prepared :: "AgentConfig \<Rightarrow> VPNCoreAdapter \<Rightarrow> StageResult \<Rightarrow> ValidationReport \<Rightarrow> prepared" where
  "newly_prepared C a stage validation =
     (let (active, backupDir) = adapterStorage C (de_core (ca_descriptor a)) in
      \<lparr>pr_adapter = a, pr_active = active, pr_backup_dir = backupDir, pr_stage = stage, pr_validation = validation,
       pr_apply = no_apply, pr_restart = no_service, pr_health = no_service, pr_persistence = no_service,
       pr_listener = no_listener\<rparr>)"

text \<open>How a task ends: the stage that failed with its cause, or the status of the report.\<close>

type_synonym ending = "((string \<times> agent_error) + string) \<times> prepared list"

fun prepare_runtimes ::
  "AgentConfig \<Rightarrow> ConfigTask \<Rightarrow> VPNCoreAdapter list \<Rightarrow> prepared list \<Rightarrow> host
     \<Rightarrow> ((string \<times> agent_error) option \<times> prepared list) \<times> host" where
  "prepare_runtimes C t [] ready n = ((None, ready), n)"
| "prepare_runtimes C t (a # as) ready n =
     (case ca_Stage a t n of
        (Inl e, n) \<Rightarrow> ((Some (''stage'', e), ready), n)
      | (Inr stage, n) \<Rightarrow>
          (case ca_Validate a (sr_path stage) n of
             ((v, Some e), n) \<Rightarrow> ((Some (''validate'', e), ready @ [newly_prepared C a stage v]), n)
           | ((v, None), n) \<Rightarrow> prepare_runtimes C t as (ready @ [newly_prepared C a stage v]) n))"

text \<open>Rollback in reverse order; it goes on after a failure and remembers it.\<close>

fun rollback_each :: "host_env \<Rightarrow> prepared list \<Rightarrow> string \<Rightarrow> host \<Rightarrow> string \<times> host" where
  "rollback_each E [] status n = (status, n)"
| "rollback_each E (p # ps) status n =
     (if ar_active (pr_apply p) = [] then rollback_each E ps status n
      else case Applier_RollbackApply E (pr_active p) (pr_apply p) n of
             (Inl e, n) \<Rightarrow> rollback_each E ps ''failed'' n
           | (Inr _, n) \<Rightarrow>
               (case (if ar_backup (pr_apply p) \<noteq> [] then ca_Restart (pr_adapter p) else ca_Stop (pr_adapter p)) n of
                  ((_, e), n) \<Rightarrow> rollback_each E ps (if e = None then status else ''failed'') n))"

definition rollbackPreparedRuntimes :: "host_env \<Rightarrow> prepared list \<Rightarrow> host \<Rightarrow> string \<times> host" where
  "rollbackPreparedRuntimes E ps n = (if ps = [] then (''skipped'', n) else rollback_each E (rev ps) ''succeeded'' n)"

text \<open>\<open>applied\<close> are the runtimes promoted so far.\<close>

fun apply_runtimes ::
  "host_env \<Rightarrow> prepared list \<Rightarrow> prepared list \<Rightarrow> host \<Rightarrow> ((string \<times> agent_error) option \<times> prepared list) \<times> host" where
  "apply_runtimes E applied [] n = ((None, applied), n)"
| "apply_runtimes E applied (p # ps) n =
     (case Applier_Apply E (pr_active p) (pr_backup_dir p) (sr_path (pr_stage p)) (sr_version (pr_stage p)) n of
        (Inl e, n) \<Rightarrow>
          (case rollbackPreparedRuntimes E applied n of
             (rollback, n) \<Rightarrow>
               ((Some (''apply'', Rolled_back ''apply VPN runtime config'' e rollback), applied @ p # ps), n))
      | (Inr r, n) \<Rightarrow> apply_runtimes E (applied @ [p\<lparr>pr_apply := r\<rparr>]) ps n)"

text \<open>Restart and checks of one runtime: the stage that failed, what it was doing, and the cause.\<close>

definition activate_runtime :: "prepared \<Rightarrow> host \<Rightarrow> ((string \<times> string \<times> agent_error) option \<times> prepared) \<times> host" where
  "activate_runtime p n =
     (let a = pr_adapter p in
      case ca_Restart a n of
        ((r, Some e), n) \<Rightarrow> ((Some (''restart'', ''restart VPN runtime'', e), p\<lparr>pr_restart := r\<rparr>), n)
      | ((r, None), n) \<Rightarrow>
      let p = p\<lparr>pr_restart := r\<rparr> in
      (case ca_IsActive a n of
        ((h, Some e), n) \<Rightarrow> ((Some (''healthcheck'', ''VPN runtime active check'', e), p\<lparr>pr_health := h\<rparr>), n)
      | ((h, None), n) \<Rightarrow>
      let p = p\<lparr>pr_health := h\<rparr> in
      (case ca_IsEnabled a n of
        ((s, Some e), n) \<Rightarrow> ((Some (''persistence'', ''VPN runtime persistence check'', e), p\<lparr>pr_persistence := s\<rparr>), n)
      | ((s, None), n) \<Rightarrow>
      let p = p\<lparr>pr_persistence := s\<rparr> in
      (case ca_CheckHealth a (ar_active (pr_apply p)) n of
        ((l, Some e), n) \<Rightarrow> ((Some (''listener'', ''VPN runtime listener healthcheck'', e), p\<lparr>pr_listener := l\<rparr>), n)
      | ((l, None), n) \<Rightarrow> ((None, p\<lparr>pr_listener := l\<rparr>), n)))))"

fun activate_runtimes ::
  "host_env \<Rightarrow> prepared list \<Rightarrow> prepared list \<Rightarrow> host \<Rightarrow> ((string \<times> agent_error) option \<times> prepared list) \<times> host" where
  "activate_runtimes E active [] n = ((None, active), n)"
| "activate_runtimes E active (p # ps) n =
     (case activate_runtime p n of
        ((Some (stage, doing, e), p'), n) \<Rightarrow>
          (case rollbackPreparedRuntimes E (active @ p' # ps) n of
             (rollback, n) \<Rightarrow> ((Some (stage, Rolled_back doing e rollback), active @ p' # ps), n))
      | ((None, p'), n) \<Rightarrow> activate_runtimes E (active @ [p']) ps n)"

definition promote_runtimes :: "host_env \<Rightarrow> AgentConfig \<Rightarrow> prepared list \<Rightarrow> host \<Rightarrow> ending \<times> host" where
  "promote_runtimes E C ps n =
     (case apply_runtimes E [] ps n of
        ((Some e, ps), n) \<Rightarrow> ((Inl e, ps), n)
      | ((None, ps), n) \<Rightarrow>
          if \<not> gc_service_control C then ((Inr ''skipped_service_control_disabled'', ps), n)
          else (case activate_runtimes E [] ps n of
                  ((Some e, ps), n) \<Rightarrow> ((Inl e, ps), n)
                | ((None, ps), n) \<Rightarrow> ((Inr ''succeeded'', ps), n)))"

definition apply_config ::
  "host_env \<Rightarrow> AgentConfig \<Rightarrow> ConfigTask \<Rightarrow> VPNCoreAdapter list \<Rightarrow> host \<Rightarrow> ending \<times> host" where
  "apply_config E C t adapters n =
     (case prepare_runtimes C t adapters [] n of
        ((Some e, ps), n) \<Rightarrow> ((Inl e, ps), n)
      | ((None, ps), n) \<Rightarrow> promote_runtimes E C ps n)"

section \<open>Reports\<close>

definition component_of :: "string \<Rightarrow> prepared \<Rightarrow> component_status" where
  "component_of status p =
     \<lparr>cm_core = de_core (ca_descriptor (pr_adapter p)), cm_protocol = de_protocol (ca_descriptor (pr_adapter p)),
      cm_status = status, cm_staged = sr_path (pr_stage p), cm_active = ar_active (pr_apply p),
      cm_backup = ar_backup (pr_apply p), cm_validation = vd_command (pr_validation p),
      cm_restart = sv_command (pr_restart p), cm_health = sv_command (pr_health p),
      cm_persistence = sv_command (pr_persistence p), cm_address = lh_address (pr_listener p),
      cm_port = lh_port (pr_listener p)\<rparr>"

definition multiConfigApplyReport :: "ConfigTask \<Rightarrow> prepared list \<Rightarrow> string \<Rightarrow> task_report" where
  "multiConfigApplyReport t ps status =
     \<lparr>tr_task = ct_id t, tr_error = None, tr_stage = status, tr_failed_stage = [], tr_version = [], tr_hash = [],
      tr_components = map (component_of status) ps\<rparr>"

text \<open>\<open>hs_reports\<close> are the reports handed to the client (\<open>client.go\<close>), which repeats the request until it is answered or gives up;
  \<open>he_posted\<close> says how that ends.\<close>

definition post_report :: "host_env \<Rightarrow> task_report \<Rightarrow> host \<Rightarrow> bool \<times> host" where
  "post_report E r n = (he_posted E (hs_calls n), called (n\<lparr>hs_reports := hs_reports n @ [r]\<rparr>))"

definition completeConfigApplyFailure ::
  "host_env \<Rightarrow> ConfigTask \<Rightarrow> agent_error \<Rightarrow> prepared list \<Rightarrow> string \<Rightarrow> host \<Rightarrow> agent_error option \<times> host" where
  "completeConfigApplyFailure E t cause ps stage n =
     (case post_report E ((multiConfigApplyReport t ps ''failed'')
         \<lparr>tr_error := Some cause, tr_failed_stage := stage, tr_version := ct_version t, tr_hash := ct_hash t\<rparr>) n of
        (posted, n) \<Rightarrow> (Some (if posted then cause else Undelivered cause), n))"

definition processConfigApplyTask ::
  "host_env \<Rightarrow> agent_lib \<Rightarrow> AgentConfig \<Rightarrow> ConfigTask \<Rightarrow> host \<Rightarrow> agent_error option \<times> host" where
  "processConfigApplyTask E L C t n =
     (case SelectVPNCoreAdapters t (Some (NewSingBoxVLESSAdapter E L C))
         [Some (NewWireGuardAdapter E C), Some (NewHysteria2Adapter E L C), Some (NewSingBoxShadowsocksAdapter E L C),
          Some (NewMTProtoAdapter E L C)] of
        Inl e \<Rightarrow> completeConfigApplyFailure E t e [] ''select'' n
      | Inr adapters \<Rightarrow>
          (case apply_config E C t adapters n of
             ((Inl (stage, cause), ps), n) \<Rightarrow> completeConfigApplyFailure E t cause ps stage n
           | ((Inr status, ps), n) \<Rightarrow>
               (case post_report E (multiConfigApplyReport t ps status) n of
                  (posted, n) \<Rightarrow> (if posted then None else Some (Undelivered Io_error), n))))"

end
