(* ===== verification/Agent_Files.thy ===== *)
theory Agent_Files
  imports Agent_Apply
begin

text \<open>
  What the file operations of the Agent change: an atomic copy replaces its destination or leaves it, a promotion
  keeps what was active in the backup, and a rollback brings it back.
\<close>

section \<open>Frames\<close>

definition untouched :: "string set \<Rightarrow> host \<Rightarrow> host \<Rightarrow> bool" where
  "untouched P n n' \<longleftrightarrow> (\<forall>p. p \<notin> P \<longrightarrow> hs_files n' p = hs_files n p) \<and> hs_reports n' = hs_reports n"

lemma untouched_refl: "untouched P n n"
  by (simp add: untouched_def)

lemma untouched_trans: "untouched P n n' \<Longrightarrow> untouched Q n' n'' \<Longrightarrow> P \<subseteq> R \<Longrightarrow> Q \<subseteq> R \<Longrightarrow> untouched R n n''"
  unfolding untouched_def by (metis subsetD)

lemma untouched_mono: "untouched P n n' \<Longrightarrow> P \<subseteq> Q \<Longrightarrow> untouched Q n n'"
  by (auto simp: untouched_def)

lemma untouchedD: "untouched P n n' \<Longrightarrow> p \<notin> P \<Longrightarrow> hs_files n' p = hs_files n p"
  by (simp add: untouched_def)

lemma untouched_reports: "untouched P n n' \<Longrightarrow> hs_reports n' = hs_reports n"
  by (simp add: untouched_def)

interpretation untouched: frame "untouched P"
  by unfold_locales (auto simp: untouched_def)

lemma called_fields [simp]: "hs_files (called n) = hs_files n" "hs_reports (called n) = hs_reports n"
  by (simp_all add: called_def)

lemma set_file_fields [simp]:
  "hs_files (set_file p v n) = (hs_files n)(p := v)" "hs_reports (set_file p v n) = hs_reports n" "hs_calls (set_file p v n) = hs_calls n"
  by (simp_all add: set_file_def)

lemma tear_untouched: "p \<in> P \<Longrightarrow> untouched P n (tear E p n)"
  by (auto simp: tear_def untouched_def split: torn.splits)

lemma sys_call_Inr: "sys_call E n = (Inr x, n') \<Longrightarrow> hs_files n' = hs_files n"
  by (auto simp: sys_call_def)

lemma keeps_sys_call: "keeps (untouched P) (sys_call E)"
  by (auto simp: keeps_def sys_call_def untouched_def)

lemma keeps_ReadFile: "keeps (untouched P) (os_ReadFile E p)"
  unfolding os_ReadFile_def find_or_def
  by (intro untouched.keeps_andThen keeps_sys_call untouched.keeps_look untouched.keeps_some_or)

lemma ReadFile_Inr: "os_ReadFile E p n = (Inr s, n') \<Longrightarrow> hs_files n p = Some s \<and> hs_files n' = hs_files n"
  by (auto simp: os_ReadFile_def effect_defs sys_call_def split: if_splits)

lemma keeps_sys_write: "p \<in> P \<Longrightarrow> keeps (untouched P) (sys_write E p f)"
  unfolding keeps_def sys_write_def
  by (auto simp: untouched_def tear_def split: torn.splits)

lemma sys_write_Inr: "sys_write E p f n = (Inr x, n') \<Longrightarrow> hs_files n' = (hs_files n)(p \<mapsto> f n)"
  by (auto simp: sys_write_def split: if_splits)

lemma keeps_Rename: "a \<in> P \<Longrightarrow> b \<in> P \<Longrightarrow> keeps (untouched P) (os_Rename E a b)"
  unfolding os_Rename_def
  by (intro untouched.keeps_andThen keeps_ReadFile untouched.keeps_change) (auto simp: untouched_def)

lemma Rename_Inr:
  "os_Rename E a b n = (Inr x, n') \<Longrightarrow> \<exists>s. hs_files n a = Some s \<and> hs_files n' = (hs_files n)(a := None, b \<mapsto> s)"
  by (auto simp: os_Rename_def effect_defs dest!: ReadFile_Inr)

lemma Rename_Inl: "os_Rename E a b n = (Inl e, n') \<Longrightarrow> untouched P n n'"
  using keepsD [OF keeps_ReadFile] by (auto simp: os_Rename_def andThen_def change_def split: prod.splits sum.splits)

lemma keeps_Remove: "p \<in> P \<Longrightarrow> keeps (untouched P) (os_Remove E p)"
  unfolding os_Remove_def
  by (intro untouched.keeps_andThen keeps_ReadFile untouched.keeps_change) (auto simp: untouched_def)

lemma Remove_Inr: "os_Remove E p n = (Inr x, n') \<Longrightarrow> hs_files n' = (hs_files n)(p := None)"
  by (auto simp: os_Remove_def effect_defs dest!: ReadFile_Inr)

lemma Remove_Not_exist: "os_Remove E p n = (Inl Not_exist, n') \<Longrightarrow> hs_files n p = None \<and> hs_files n' = hs_files n"
  by (auto simp: os_Remove_def os_ReadFile_def sys_call_def effect_run split: if_splits option.splits prod.splits sum.splits)

lemma keeps_wrapping: "keeps R m \<Longrightarrow> keeps R (wrapping f m)"
  unfolding keeps_def wrapping_def by (auto split: prod.splits sum.splits) (metis snd_conv)+

lemma wrapping_Inr: "wrapping f m n = (Inr x, n') \<longleftrightarrow> m n = (Inr x, n')"
  by (auto simp: wrapping_def split: prod.splits sum.splits)

lemma wrapping_Inl: "wrapping f m n = (Inl e, n') \<Longrightarrow> \<exists>e'. m n = (Inl e', n')"
  by (auto simp: wrapping_def split: prod.splits sum.splits)

lemma keeps_or_remove: "keeps (untouched P) m \<Longrightarrow> tmp \<in> P \<Longrightarrow> keeps (untouched P) (or_remove E tmp m)"
  unfolding keeps_def or_remove_def attempt_def
  by (auto split: prod.splits sum.splits) (metis untouched.frame_trans keeps_Remove keeps_def snd_conv)+

lemma or_remove_Inr: "or_remove E tmp m n = (Inr x, n') \<longleftrightarrow> m n = (Inr x, n')"
  by (auto simp: or_remove_def split: prod.splits sum.splits)

lemma or_remove_Inl: "or_remove E tmp m n = (Inl e, n') \<Longrightarrow> \<exists>n1. m n = (Inl e, n1) \<and> n' = snd (os_Remove E tmp n1)"
  by (auto simp: or_remove_def attempt_def split: prod.splits sum.splits)

lemma keeps_stat_or: "keeps (untouched P) (stat_or E p)"
  by (auto simp: keeps_def stat_or_def os_Stat_def untouched_def split: prod.splits)

lemma stat_or_Inr:
  "stat_or E p n = (Inr s, n') \<Longrightarrow> hs_files n' = hs_files n \<and> (s = Present \<longrightarrow> hs_files n p \<noteq> None) \<and> (s = Absent \<longrightarrow> hs_files n p = None)"
  by (auto simp: stat_or_def os_Stat_def split: prod.splits if_splits)

section \<open>Atomic copies\<close>

lemma tmp_other [simp]: "p @ ''.tmp'' \<noteq> p" "p \<noteq> p @ ''.tmp''"
  by simp_all

lemma keeps_copy_and_close: "tmp \<in> P \<Longrightarrow> keeps (untouched P) (copy_and_close E src tmp)"
  unfolding keeps_def copy_and_close_def attempt_def
  using keeps_sys_write [of tmp P E] keeps_sys_call [of P E]
  by (auto simp: keeps_def Let_def split: prod.splits) (metis untouched.frame_trans snd_conv)

lemma copy_and_close_Inr:
  "copy_and_close E src tmp n = (Inr x, n') \<Longrightarrow>
     hs_files n' = (hs_files n)(tmp \<mapsto> (case hs_files n src of None \<Rightarrow> [] | Some s \<Rightarrow> s))"
  unfolding copy_and_close_def attempt_def
  by (auto simp: Let_def split: prod.splits sum.splits dest!: sys_write_Inr sys_call_Inr)

text \<open>A failed copy leaves the destination alone; a finished one makes it equal to the source.\<close>

lemma copy_tail:
  assumes "andThen (copy_and_close E src tmp) (\<lambda>_. andThen (sys_call E) (\<lambda>_. os_Rename E tmp dst)) n = (r, n')"
    and "tmp \<noteq> dst"
  shows "untouched {tmp, dst} n n'" "r = Inl e \<Longrightarrow> untouched {tmp} n n'"
    "r = Inr x \<Longrightarrow> hs_files n' dst = Some (case hs_files n src of None \<Rightarrow> [] | Some s \<Rightarrow> s)"
proof -
  have "keeps (untouched {tmp, dst}) (andThen (copy_and_close E src tmp) (\<lambda>_. andThen (sys_call E) (\<lambda>_. os_Rename E tmp dst)))"
    by (intro untouched.keeps_andThen keeps_copy_and_close keeps_sys_call keeps_Rename) simp_all
  then show "untouched {tmp, dst} n n'" using assms(1) by (rule keepsD)
  obtain c n1 where c: "copy_and_close E src tmp n = (c, n1)" by fastforce
  obtain d n2 where d: "sys_call E n1 = (d, n2)" by fastforce
  have u: "untouched {tmp} n n1" "untouched {tmp} n1 n2"
    using keepsD [OF keeps_copy_and_close c] keepsD [OF keeps_sys_call d] by simp_all
  show "untouched {tmp} n n'" if "r = Inl e"
  proof (cases c)
    case (Inl e1)
    then show ?thesis using assms(1) c u(1) by (simp add: andThen_def)
  next
    case (Inr x1)
    show ?thesis
    proof (cases d)
      case (Inl e2)
      then show ?thesis using assms(1) c d Inr untouched.frame_trans [OF u] by (simp add: andThen_def)
    next
      case (Inr x2)
      then have "os_Rename E tmp dst n2 = (Inl e, n')" using assms(1) c d \<open>c = Inr x1\<close> that by (simp add: andThen_def)
      then show ?thesis using untouched.frame_trans [OF untouched.frame_trans [OF u] Rename_Inl] by simp
    qed
  qed
  show "hs_files n' dst = Some (case hs_files n src of None \<Rightarrow> [] | Some s \<Rightarrow> s)" if "r = Inr x"
    using assms that by (auto simp: andThen_Inr dest!: copy_and_close_Inr sys_call_Inr Rename_Inr)
qed

lemma copyFileAtomic_spec:
  assumes "copyFileAtomic E src dst n = (r, n')" "src \<noteq> dst @ ''.tmp''"
  shows "untouched {dst, dst @ ''.tmp''} n n'" "r = Inl e \<Longrightarrow> untouched {dst @ ''.tmp''} n n'"
    "r = Inr x \<Longrightarrow> hs_files n' dst = hs_files n src \<and> hs_files n src \<noteq> None"
proof -
  let ?tmp = "dst @ ''.tmp''"
  let ?tail = "andThen (copy_and_close E src ?tmp) (\<lambda>_. andThen (sys_call E) (\<lambda>_. os_Rename E ?tmp dst))"
  have tail: "keeps (untouched {dst, ?tmp}) ?tail"
    by (intro untouched.keeps_andThen keeps_copy_and_close keeps_sys_call keeps_Rename) simp_all
  have "keeps (untouched {dst, ?tmp}) (copyFileAtomic E src dst)"
    unfolding copyFileAtomic_def
    by (intro untouched.keeps_andThen keeps_ReadFile keeps_sys_write keeps_or_remove tail) simp_all
  then show "untouched {dst, ?tmp} n n'" using assms(1) by (rule keepsD)
  obtain a n1 where a: "os_ReadFile E src n = (a, n1)" by fastforce
  obtain b n2 where b: "sys_write E ?tmp (\<lambda>_. []) n1 = (b, n2)" by fastforce
  have u: "untouched {?tmp} n n1" "untouched {?tmp} n1 n2"
    using keepsD [OF keeps_ReadFile a] keepsD [OF keeps_sys_write b] by simp_all
  show "untouched {?tmp} n n'" if "r = Inl e"
  proof (cases a)
    case (Inl e1)
    then show ?thesis using assms(1) a u(1) by (simp add: copyFileAtomic_def andThen_def)
  next
    case (Inr x1)
    show ?thesis
    proof (cases b)
      case (Inl e2)
      then show ?thesis using assms(1) a b Inr untouched.frame_trans [OF u] by (simp add: copyFileAtomic_def andThen_def)
    next
      case (Inr x2)
      then have "or_remove E ?tmp ?tail n2 = (Inl e, n')"
        using assms(1) a b \<open>a = Inr x1\<close> that by (simp add: copyFileAtomic_def andThen_run)
      then obtain n3 where t: "?tail n2 = (Inl e, n3)" and n': "n' = snd (os_Remove E ?tmp n3)" using or_remove_Inl by blast
      have "untouched {?tmp} n2 n3" using copy_tail(2) [OF t] by simp
      moreover have "untouched {?tmp} n3 n'" unfolding n' using keeps_Remove [of ?tmp "{?tmp}" E] by (simp add: keeps_def)
      ultimately show ?thesis using untouched.frame_trans [OF untouched.frame_trans [OF u] untouched.frame_trans] by blast
    qed
  qed
  show "hs_files n' dst = hs_files n src \<and> hs_files n src \<noteq> None" if x: "r = Inr x"
  proof -
    obtain s n1 n2 where h: "os_ReadFile E src n = (Inr s, n1)" "sys_write E ?tmp (\<lambda>_. []) n1 = (Inr (), n2)" "?tail n2 = (Inr x, n')"
      using assms(1) x by (auto simp: copyFileAtomic_def andThen_Inr or_remove_Inr)
    have "hs_files n2 src = Some s" using ReadFile_Inr [OF h(1)] sys_write_Inr [OF h(2)] assms(2) by simp
    then show ?thesis using copy_tail(3) [OF h(3)] ReadFile_Inr [OF h(1)] by simp
  qed
qed

text \<open>A program that leaves everything outside \<open>P\<close> alone when it fails.\<close>

definition fails_within :: "string set \<Rightarrow> 'a sys \<Rightarrow> bool" where
  "fails_within P m \<longleftrightarrow> (\<forall>n e n'. m n = (Inl e, n') \<longrightarrow> untouched P n n')"

lemma fails_withinD: "fails_within P m \<Longrightarrow> m n = (Inl e, n') \<Longrightarrow> untouched P n n'"
  by (simp add: fails_within_def)

lemma fails_keeps: "keeps (untouched P) m \<Longrightarrow> fails_within P m"
  by (auto simp: fails_within_def dest: keepsD)

lemma fails_andThen: "keeps (untouched P) m \<Longrightarrow> (\<And>x. fails_within P (f x)) \<Longrightarrow> fails_within P (andThen m f)"
  unfolding fails_within_def andThen_def
  by (auto split: prod.splits sum.splits dest: keepsD) (metis keepsD untouched.frame_trans)

lemma fails_then_ok: "fails_within P m \<Longrightarrow> fails_within P (andThen m (\<lambda>x. ok (g x)))"
  by (auto simp: fails_within_def andThen_def ok_def split: prod.splits sum.splits)

lemma fails_wrapping: "fails_within P m \<Longrightarrow> fails_within P (wrapping f m)"
  by (auto simp: fails_within_def dest!: wrapping_Inl)

lemma fails_copy: "src \<noteq> dst @ ''.tmp'' \<Longrightarrow> dst @ ''.tmp'' \<in> P \<Longrightarrow> fails_within P (copyFileAtomic E src dst)"
  unfolding fails_within_def using copyFileAtomic_spec(2) [of E src dst] untouched_mono by fastforce

lemma keeps_copy:
  "src \<noteq> dst @ ''.tmp'' \<Longrightarrow> dst \<in> P \<Longrightarrow> dst @ ''.tmp'' \<in> P \<Longrightarrow> keeps (untouched P) (copyFileAtomic E src dst)"
  unfolding keeps_def
proof
  fix n assume h: "src \<noteq> dst @ ''.tmp''" "dst \<in> P" "dst @ ''.tmp'' \<in> P"
  obtain r n' where c: "copyFileAtomic E src dst n = (r, n')" by fastforce
  show "untouched P n (snd (copyFileAtomic E src dst n))"
    using untouched_mono [OF copyFileAtomic_spec(1) [OF c h(1)], of P] c h(2,3) by simp
qed

section \<open>Promotion\<close>

lemma keeps_backup_active:
  assumes "active \<noteq> previous_path dir v @ ''.tmp''"
  shows "keeps (untouched {previous_path dir v, previous_path dir v @ ''.tmp''}) (backup_active E active dir v)"
proof -
  let ?b = "previous_path dir v"
  have copy: "keeps (untouched {?b, ?b @ ''.tmp''}) (andThen (wrapping f (copyFileAtomic E active ?b)) (\<lambda>_. ok ?b))" for f
    by (intro untouched.keeps_andThen keeps_wrapping keeps_copy untouched.keeps_ok assms) simp_all
  show ?thesis unfolding backup_active_def
  proof (rule untouched.keeps_andThen [OF keeps_stat_or])
    fix s
    show "keeps (untouched {?b, ?b @ ''.tmp''}) (case s of
       Present \<Rightarrow> andThen (wrapping (Because ''backup active config'') (copyFileAtomic E active ?b)) (\<lambda>_. ok ?b)
     | Absent \<Rightarrow> ok [] | Stat_failed \<Rightarrow> fail (Because ''inspect active config'' Io_error))"
      using copy by (cases s) (simp_all add: untouched.keeps_ok untouched.keeps_fail)
  qed
qed

lemma backup_active_Inr:
  assumes "backup_active E active dir v n = (Inr b, n')" "active \<noteq> previous_path dir v @ ''.tmp''"
  shows "(b = [] \<and> hs_files n active = None) \<or> (b = previous_path dir v \<and> hs_files n' b = hs_files n active \<and> hs_files n active \<noteq> None)"
proof -
  obtain s n1 where s: "stat_or E active n = (Inr s, n1)"
    using assms(1) by (auto simp: backup_active_def andThen_Inr)
  note stat = stat_or_Inr [OF s]
  show ?thesis
  proof (cases s)
    case Present
    then have "copyFileAtomic E active (previous_path dir v) n1 = (Inr (), n')" "b = previous_path dir v"
      using assms(1) s by (auto simp: backup_active_def andThen_run andThen_Inr wrapping_Inr ok_Inr)
    then show ?thesis using copyFileAtomic_spec(3) [OF _ assms(2)] stat by fastforce
  next
    case Absent
    then show ?thesis using assms(1) s stat by (simp add: backup_active_def andThen_run ok_Inr)
  next
    case Stat_failed
    then show ?thesis using assms(1) s by (simp add: backup_active_def andThen_run fail_def)
  qed
qed

text \<open>The paths of one runtime are different files.\<close>

definition own_paths :: "string \<Rightarrow> string \<Rightarrow> string \<Rightarrow> bool" where
  "own_paths active backup staged \<longleftrightarrow>
     distinct [active, active @ ''.tmp'', backup, backup @ ''.tmp'', staged]
     \<and> TrimSpace active = active \<and> TrimSpace backup = backup \<and> TrimSpace staged = staged \<and> active \<noteq> [] \<and> backup \<noteq> []"

lemma Apply_spec:
  assumes run: "Applier_Apply E active dir staged version n = (r, n')"
    and paths: "own_paths active (previous_path dir (TrimSpace version)) staged"
  shows "untouched {active, active @ ''.tmp'', previous_path dir (TrimSpace version), previous_path dir (TrimSpace version) @ ''.tmp''} n n'"
    "r = Inl e \<Longrightarrow> hs_files n' active = hs_files n active"
    "r = Inr x \<Longrightarrow> hs_files n' active = hs_files n staged \<and> hs_files n staged \<noteq> None \<and> ar_active x = active
       \<and> ((ar_backup x = [] \<and> hs_files n active = None)
          \<or> (ar_backup x = previous_path dir (TrimSpace version)
             \<and> hs_files n' (ar_backup x) = hs_files n active \<and> hs_files n active \<noteq> None))"
proof -
  let ?b = "previous_path dir (TrimSpace version)"
  have clean: "TrimSpace staged = staged" "active \<noteq> ?b @ ''.tmp''" "staged \<noteq> active @ ''.tmp''"
    using paths by (auto simp: own_paths_def)
  have b: "keeps (untouched P) (backup_active E active dir (TrimSpace version))" if "{?b, ?b @ ''.tmp''} \<subseteq> P" for P
    using keeps_backup_active [OF clean(2)] untouched_mono [OF _ that] by (auto simp: keeps_def)
  have "keeps (untouched {active, active @ ''.tmp'', ?b, ?b @ ''.tmp''}) (Applier_Apply E active dir staged version)"
    unfolding Applier_Apply_def Let_def clean(1)
    by (intro untouched.keeps_andThen untouched.keeps_need keeps_stat_or keeps_wrapping keeps_sys_call b keeps_copy
        untouched.keeps_ok clean(3)) auto
  then show "untouched {active, active @ ''.tmp'', ?b, ?b @ ''.tmp''} n n'" using run by (rule keepsD)
  show "hs_files n' active = hs_files n active" if "r = Inl e"
  proof -
    have "fails_within {active @ ''.tmp'', ?b, ?b @ ''.tmp''} (Applier_Apply E active dir staged version)"
      unfolding Applier_Apply_def Let_def clean(1)
      by (intro fails_andThen fails_then_ok fails_wrapping fails_copy untouched.keeps_need keeps_stat_or keeps_wrapping
          keeps_sys_call b clean(3)) auto
    from fails_withinD [OF this run [unfolded that]] show ?thesis
      by (rule untouchedD) (use paths in \<open>auto simp: own_paths_def\<close>)
  qed
  show "hs_files n' active = hs_files n staged \<and> hs_files n staged \<noteq> None \<and> ar_active x = active
       \<and> ((ar_backup x = [] \<and> hs_files n active = None)
          \<or> (ar_backup x = ?b \<and> hs_files n' (ar_backup x) = hs_files n active \<and> hs_files n active \<noteq> None))" if x: "r = Inr x"
  proof -
    obtain s n1 n2 n3 backup n4 where h: "stat_or E staged n = (Inr s, n1)" "sys_call E n1 = (Inr (), n2)"
        "sys_call E n2 = (Inr (), n3)" "backup_active E active dir (TrimSpace version) n3 = (Inr backup, n4)"
        "copyFileAtomic E staged active n4 = (Inr (), n')" "ar_active x = active" "ar_backup x = backup"
      using run [unfolded x] unfolding Applier_Apply_def Let_def clean(1) andThen_Inr need_Inr wrapping_Inr ok_Inr by force
    have same: "hs_files n3 = hs_files n" using stat_or_Inr [OF h(1)] sys_call_Inr [OF h(2)] sys_call_Inr [OF h(3)] by simp
    have u4: "untouched {?b, ?b @ ''.tmp''} n3 n4" by (rule keepsD [OF keeps_backup_active [OF clean(2)] h(4)])
    have "hs_files n4 staged = hs_files n staged" using untouchedD [OF u4, of staged] same paths by (auto simp: own_paths_def)
    moreover note copyFileAtomic_spec(3) [OF h(5) clean(3) refl]
    moreover have "hs_files n' ?b = hs_files n4 ?b"
      by (rule untouchedD [OF copyFileAtomic_spec(1) [OF h(5) clean(3)]]) (use paths in \<open>auto simp: own_paths_def\<close>)
    moreover note backup_active_Inr [OF h(4) clean(2)]
    ultimately show ?thesis using h(6,7) same by auto
  qed
qed

section \<open>Rollback\<close>

lemma keeps_remove_if_there: "keeps (untouched {p}) (remove_if_there E p)"
  using keeps_Remove [of p "{p}" E] by (auto simp: keeps_def remove_if_there_def split: prod.splits sum.splits) (metis snd_conv)+

lemma remove_if_there_Inr: "remove_if_there E p n = (Inr x, n') \<Longrightarrow> hs_files n' p = None"
  by (auto simp: remove_if_there_def split: prod.splits sum.splits if_splits dest: Remove_Inr Remove_Not_exist)

text \<open>Undoing a promotion brings back the backup, or removes the file when there was none.\<close>

lemma RollbackApply_spec:
  assumes run: "Applier_RollbackApply E active r n = (res, n')"
    and paths: "own_paths active backup staged" and r: "ar_active r = active" "ar_backup r = [] \<or> ar_backup r = backup"
  shows "untouched {active, active @ ''.tmp''} n n'"
    "res = Inr x \<Longrightarrow> hs_files n' active = (if ar_backup r = [] then None else hs_files n backup)"
proof -
  have clean: "TrimSpace active = active" "TrimSpace backup = backup" "active \<noteq> []" "backup \<noteq> []" "backup \<noteq> active @ ''.tmp''"
    using paths by (auto simp: own_paths_def)
  have "untouched {active, active @ ''.tmp''} n n'
      \<and> (res = Inr x \<longrightarrow> hs_files n' active = (if ar_backup r = [] then None else hs_files n backup))"
  proof (cases "ar_backup r = []")
    case True
    then have m: "remove_if_there E active n = (res, n')"
      using run r clean by (simp add: Applier_RollbackApply_def TrimSpace_Nil andThen_run need_def ok_def)
    have "untouched {active, active @ ''.tmp''} n n'"
      using keepsD [OF keeps_remove_if_there m] by (rule untouched_mono) simp
    then show ?thesis using True remove_if_there_Inr m by auto
  next
    case False
    then have b: "ar_backup r = backup" using r(2) by simp
    have m: "Applier_Rollback E active backup n = (res, n')" using run clean b by (simp add: Applier_RollbackApply_def)
    have "keeps (untouched {active, active @ ''.tmp''}) (Applier_Rollback E active backup)"
      unfolding Applier_Rollback_def Let_def clean(2)
      by (intro untouched.keeps_andThen untouched.keeps_need keeps_stat_or keeps_wrapping keeps_sys_call keeps_copy clean(5)) auto
    then have "untouched {active, active @ ''.tmp''} n n'" using m by (rule keepsD)
    moreover have "hs_files n' active = hs_files n backup" if done_ok: "res = Inr x"
    proof -
      obtain s n1 n2 where h: "stat_or E backup n = (Inr s, n1)" "sys_call E n1 = (Inr (), n2)" "copyFileAtomic E backup active n2 = (Inr x, n')"
        using m [unfolded done_ok] unfolding Applier_Rollback_def Let_def clean(2) andThen_Inr need_Inr wrapping_Inr by force
      then show ?thesis
        using copyFileAtomic_spec(3) [OF h(3) clean(5) refl] stat_or_Inr [OF h(1)] sys_call_Inr [OF h(2)] by simp
    qed
    ultimately show ?thesis using False by simp
  qed
  then show "untouched {active, active @ ''.tmp''} n n'"
    "res = Inr x \<Longrightarrow> hs_files n' active = (if ar_backup r = [] then None else hs_files n backup)" by simp_all
qed

end
