(* ===== verification/Agent_Safety.thy ===== *)
theory Agent_Safety
  imports Agent_Files
begin

text \<open>
  A configuration is applied to all runtimes of a node or to none: the laws an adapter owes the Agent, the proof
  from these laws, and the five adapters as an instance.
\<close>

section \<open>The files of a node\<close>

definition core_names :: "string list" where
  "core_names = [''sing-box'', ''wireguard'', ''hysteria'', ''mtg'']"

definition active_path :: "AgentConfig \<Rightarrow> string \<Rightarrow> string" where
  "active_path C c = fst (adapterStorage C c)"

definition kept_path :: "AgentConfig \<Rightarrow> ConfigTask \<Rightarrow> string \<Rightarrow> string" where
  "kept_path C t c = previous_path (snd (adapterStorage C c)) (TrimSpace (ct_version t))"

definition footprint :: "AgentConfig \<Rightarrow> (string \<Rightarrow> ConfigTask \<Rightarrow> string) \<Rightarrow> ConfigTask \<Rightarrow> string \<Rightarrow> string list" where
  "footprint C staged t c =
     [active_path C c, active_path C c @ ''.tmp'', kept_path C t c, kept_path C t c @ ''.tmp'', staged c t, staged c t @ ''.tmp'']"

text \<open>The configured directories keep the files of the cores apart from each other and from the files \<open>S\<close> that others
  write, and no path begins or ends with white space.\<close>

definition layout_ok :: "string set \<Rightarrow> AgentConfig \<Rightarrow> (string \<Rightarrow> ConfigTask \<Rightarrow> string) \<Rightarrow> ConfigTask \<Rightarrow> bool" where
  "layout_ok S C staged t \<longleftrightarrow>
     distinct (concat (map (footprint C staged t) core_names))
     \<and> list_all (\<lambda>p. TrimSpace p = p \<and> p \<noteq> [] \<and> p \<notin> S) (concat (map (footprint C staged t) core_names))"

lemma layout_own:
  assumes "layout_ok S C staged t" "c \<in> set core_names"
  shows "own_paths (active_path C c) (kept_path C t c) (staged c t)" "distinct (footprint C staged t c)"
proof -
  have d: "distinct (footprint C staged t c)"
    using assms by (auto simp: layout_ok_def distinct_concat_iff)
  have "\<forall>p \<in> set (footprint C staged t c). TrimSpace p = p \<and> p \<noteq> []"
    using assms by (auto simp: layout_ok_def list_all_iff)
  with d show "own_paths (active_path C c) (kept_path C t c) (staged c t)" "distinct (footprint C staged t c)"
    by (auto simp: footprint_def own_paths_def)
qed

lemma layout_clear:
  assumes "layout_ok S C staged t" "c \<in> set core_names" "p \<in> set (footprint C staged t c)"
  shows "p \<notin> S"
  using assms by (auto simp: layout_ok_def list_all_iff)

lemma layout_apart:
  assumes "layout_ok S C staged t" "c \<in> set core_names" "d \<in> set core_names" "c \<noteq> d"
  shows "set (footprint C staged t c) \<inter> set (footprint C staged t d) = {}"
proof -
  let ?fs = "map (footprint C staged t) core_names"
  have dc: "distinct (concat ?fs)" using assms(1) by (simp add: layout_ok_def)
  have "removeAll [] ?fs = ?fs" by (rule removeAll_id) (auto simp: footprint_def)
  with dc have "distinct ?fs" by (metis distinct_concat_iff)
  then have "footprint C staged t c \<noteq> footprint C staged t d"
    using assms(2-4) by (auto simp: distinct_map inj_on_def)
  then show ?thesis using dc assms(2,3) by (simp add: distinct_concat_iff)
qed

section \<open>What is known of a prepared runtime\<close>

abbreviation core_of :: "VPNCoreAdapter \<Rightarrow> string" where
  "core_of a \<equiv> de_core (ca_descriptor a)"

abbreviation pr_core :: "prepared \<Rightarrow> string" where
  "pr_core p \<equiv> core_of (pr_adapter p)"

definition undoable :: "AgentConfig \<Rightarrow> ConfigTask \<Rightarrow> host \<Rightarrow> host \<Rightarrow> prepared \<Rightarrow> bool" where
  "undoable C t n0 n p \<longleftrightarrow>
     ar_active (pr_apply p) = pr_active p
     \<and> ((ar_backup (pr_apply p) = [] \<and> hs_files n0 (pr_active p) = None)
        \<or> (ar_backup (pr_apply p) = kept_path C t (pr_core p) \<and> ar_backup (pr_apply p) \<noteq> []
           \<and> hs_files n (ar_backup (pr_apply p)) = hs_files n0 (pr_active p)))"

definition promoted :: "host \<Rightarrow> prepared \<Rightarrow> bool" where
  "promoted n p \<longleftrightarrow> hs_files n (pr_active p) = hs_files n (sr_path (pr_stage p)) \<and> hs_files n (pr_active p) \<noteq> None"

definition rollback_of :: "agent_error \<Rightarrow> string option" where
  "rollback_of e = (case e of Rolled_back _ _ r \<Rightarrow> Some r | _ \<Rightarrow> None)"

text \<open>A runtime prepared for the task by one of the adapters.\<close>

definition fits ::
  "VPNCoreAdapter set \<Rightarrow> (string \<Rightarrow> ConfigTask \<Rightarrow> string) \<Rightarrow> AgentConfig \<Rightarrow> ConfigTask \<Rightarrow> prepared \<Rightarrow> bool" where
  "fits adapters staged C t p \<longleftrightarrow> pr_adapter p \<in> adapters \<and> pr_active p = active_path C (pr_core p)
     \<and> pr_backup_dir p = snd (adapterStorage C (pr_core p)) \<and> sr_path (pr_stage p) = staged (pr_core p) t
     \<and> sr_version (pr_stage p) = ct_version t"

section \<open>The contract of an adapter\<close>

locale managed_cores =
  fixes adapters :: "VPNCoreAdapter set" and staged :: "string \<Rightarrow> ConfigTask \<Rightarrow> string" and scratch :: "string set"
  assumes core_named: "a \<in> adapters \<Longrightarrow> core_of a \<in> set core_names"
    and stage_frame: "a \<in> adapters \<Longrightarrow> ca_Stage a t n = (r, n') \<Longrightarrow> untouched {staged (core_of a) t, staged (core_of a) t @ ''.tmp''} n n'"
    and stage_done: "a \<in> adapters \<Longrightarrow> ca_Stage a t n = (Inr s, n') \<Longrightarrow>
        sr_path s = staged (core_of a) t \<and> hs_files n' (staged (core_of a) t) \<noteq> None \<and> sr_version s = ct_version t"
    and validate_frame: "a \<in> adapters \<Longrightarrow> ca_Validate a path n = (v, n') \<Longrightarrow> untouched scratch n n'"
    and service_frame: "a \<in> adapters \<Longrightarrow> m \<in> {ca_Restart a, ca_Stop a, ca_IsActive a, ca_IsEnabled a} \<Longrightarrow> m n = (sv, n') \<Longrightarrow> untouched scratch n n'"
    and health_frame: "a \<in> adapters \<Longrightarrow> ca_CheckHealth a path n = (l, n') \<Longrightarrow> untouched scratch n n'"
begin

lemma fits_own:
  assumes "layout_ok scratch C staged t" "fits adapters staged C t p"
  shows "own_paths (pr_active p) (kept_path C t (pr_core p)) (sr_path (pr_stage p))"
    "kept_path C t (pr_core p) = previous_path (pr_backup_dir p) (TrimSpace (sr_version (pr_stage p)))"
  using layout_own(1) [OF assms(1) core_named] assms(2) by (auto simp: fits_def kept_path_def)

lemma fits_clear:
  "layout_ok scratch C staged t \<Longrightarrow> fits adapters staged C t p \<Longrightarrow> x \<in> set (footprint C staged t (pr_core p)) \<Longrightarrow> x \<notin> scratch"
  by (rule layout_clear [of scratch C staged t "pr_core p"]) (simp_all add: fits_def core_named)

lemma fits_apart:
  assumes "layout_ok scratch C staged t" "fits adapters staged C t p" "fits adapters staged C t q" "pr_core p \<noteq> pr_core q"
  shows "set (footprint C staged t (pr_core p)) \<inter> set (footprint C staged t (pr_core q)) = {}"
  using layout_apart [OF assms(1) core_named core_named assms(4)] assms(2,3) by (simp add: fits_def)

lemma fits_paths:
  "fits adapters staged C t p \<Longrightarrow> set (footprint C staged t (pr_core p)) =
     {pr_active p, pr_active p @ ''.tmp'', kept_path C t (pr_core p), kept_path C t (pr_core p) @ ''.tmp'',
      sr_path (pr_stage p), sr_path (pr_stage p) @ ''.tmp''}"
  by (simp add: fits_def footprint_def)

lemma rollback_each_spec:
  assumes "layout_ok scratch C staged t" "\<forall>p \<in> set ps. fits adapters staged C t p" "distinct (map pr_core ps)"
    and "\<forall>p \<in> set ps. ar_active (pr_apply p) = [] \<or> undoable C t n0 n p"
    and "rollback_each E ps st n = (st', n')"
  shows "untouched (scratch \<union> (\<Union>p \<in> set ps. {pr_active p, pr_active p @ ''.tmp''})) n n'
    \<and> (st' \<noteq> ''failed'' \<longrightarrow> st \<noteq> ''failed''
         \<and> (\<forall>p \<in> set ps. ar_active (pr_apply p) \<noteq> [] \<longrightarrow> hs_files n' (pr_active p) = hs_files n0 (pr_active p)))"
  using assms(2-)
proof (induction ps arbitrary: st n)
  case Nil
  then show ?case by (simp add: untouched_refl)
next
  case (Cons p ps)
  let ?P = "scratch \<union> (\<Union>q \<in> set ps. {pr_active q, pr_active q @ ''.tmp''})"
  let ?A = "scratch \<union> {pr_active p, pr_active p @ ''.tmp''}"
  show ?case
  proof (cases "ar_active (pr_apply p) = []")
    case True
    then have "rollback_each E ps st n = (st', n')" using Cons.prems(4) by simp
    then have ih: "untouched ?P n n'" "st' \<noteq> ''failed'' \<longrightarrow> st \<noteq> ''failed''
         \<and> (\<forall>p \<in> set ps. ar_active (pr_apply p) \<noteq> [] \<longrightarrow> hs_files n' (pr_active p) = hs_files n0 (pr_active p))"
      using Cons.IH [of n st] Cons.prems(1-3) by auto
    have "untouched (scratch \<union> (\<Union>q \<in> set (p # ps). {pr_active q, pr_active q @ ''.tmp''})) n n'"
      by (rule untouched_mono [OF ih(1)]) auto
    with ih(2) True show ?thesis by auto
  next
    case False
    have fit: "fits adapters staged C t p" and un: "undoable C t n0 n p" using Cons.prems(1,3) False by auto
    have own: "own_paths (pr_active p) (kept_path C t (pr_core p)) (sr_path (pr_stage p))" by (rule fits_own [OF assms(1) fit])
    have un': "ar_active (pr_apply p) = pr_active p"
        "ar_backup (pr_apply p) = [] \<or> ar_backup (pr_apply p) = kept_path C t (pr_core p)"
      using un by (auto simp: undoable_def)
    obtain res n1 where res: "Applier_RollbackApply E (pr_active p) (pr_apply p) n = (res, n1)" by fastforce
    note undo = RollbackApply_spec [OF res own un']
    define m where "m = (if ar_backup (pr_apply p) \<noteq> [] then ca_Restart (pr_adapter p) else ca_Stop (pr_adapter p))"
    obtain sv e n2 where m2: "m n1 = ((sv, e), n2)" by (metis prod.exhaust)
    have u2: "untouched scratch n1 n2"
      by (rule service_frame [of "pr_adapter p" m, OF _ _ m2]) (use fit in \<open>auto simp: m_def fits_def\<close>)
    define n3 where "n3 = (case res of Inl _ \<Rightarrow> n1 | Inr _ \<Rightarrow> n2)"
    define st3 where "st3 = (if (\<exists>x. res = Inr x) \<and> e = None then st else ''failed'')"
    have "untouched ?A n n1" "untouched ?A n n2"
      by (rule untouched_mono [OF undo(1)], blast) (rule untouched_trans [OF undo(1) u2], blast+)
    then have u3: "untouched ?A n n3" by (simp add: n3_def split: sum.split)
    have rest: "rollback_each E ps st3 n3 = (st', n')"
      using Cons.prems(4) False res m2 unfolding n3_def st3_def m_def [symmetric] rollback_each.simps
      by (auto simp: m_def split: sum.splits if_splits)
    have apart: "{pr_active p, pr_active p @ ''.tmp''} \<inter> {pr_active q, pr_active q @ ''.tmp'', kept_path C t (pr_core q)} = {}"
        "kept_path C t (pr_core q) \<notin> scratch" if "q \<in> set ps" for q
    proof -
      have q: "fits adapters staged C t q" "pr_core p \<noteq> pr_core q" using Cons.prems(1,2) that by auto
      then show "{pr_active p, pr_active p @ ''.tmp''} \<inter> {pr_active q, pr_active q @ ''.tmp'', kept_path C t (pr_core q)} = {}"
        using fits_apart [OF assms(1) fit] fits_paths [OF fit] fits_paths by fastforce
      show "kept_path C t (pr_core q) \<notin> scratch" by (rule fits_clear [OF assms(1) q(1)]) (simp add: fits_paths [OF q(1)])
    qed
    have free: "pr_active p \<notin> scratch" by (rule fits_clear [OF assms(1) fit]) (simp add: fits_paths [OF fit])
    have keep: "\<forall>q \<in> set ps. ar_active (pr_apply q) = [] \<or> undoable C t n0 n3 q"
    proof
      fix q assume q: "q \<in> set ps"
      have "hs_files n3 (kept_path C t (pr_core q)) = hs_files n (kept_path C t (pr_core q))"
        by (rule untouchedD [OF u3]) (use apart [OF q] in auto)
      moreover have "ar_active (pr_apply q) = [] \<or> undoable C t n0 n q" using Cons.prems(3) q by simp
      ultimately show "ar_active (pr_apply q) = [] \<or> undoable C t n0 n3 q" by (auto simp: undoable_def)
    qed
    have ih: "untouched ?P n3 n'" "st' \<noteq> ''failed'' \<Longrightarrow> st3 \<noteq> ''failed''"
      "st' \<noteq> ''failed'' \<Longrightarrow> q \<in> set ps \<Longrightarrow> ar_active (pr_apply q) \<noteq> [] \<Longrightarrow> hs_files n' (pr_active q) = hs_files n0 (pr_active q)" for q
      using Cons.IH [OF _ _ keep rest] Cons.prems(1,2) by auto
    have "untouched (scratch \<union> (\<Union>q \<in> set (p # ps). {pr_active q, pr_active q @ ''.tmp''})) n n'"
      by (rule untouched_trans [OF u3 ih(1)]) auto
    moreover have "hs_files n' (pr_active p) = hs_files n0 (pr_active p)" if good: "st' \<noteq> ''failed''"
    proof -
      obtain x where x: "res = Inr x" using ih(2) [OF good] by (auto simp: st3_def split: if_splits)
      have "hs_files n' (pr_active p) = hs_files n3 (pr_active p)"
        by (rule untouchedD [OF ih(1)]) (use apart(1) free in blast)
      also have "\<dots> = hs_files n1 (pr_active p)" using untouchedD [OF u2 free] x by (simp add: n3_def)
      also have "\<dots> = hs_files n0 (pr_active p)" using undo(2) [OF x] un by (auto simp: undoable_def)
      finally show ?thesis .
    qed
    moreover have "st \<noteq> ''failed''" if "st' \<noteq> ''failed''" using ih(2) [OF that] by (auto simp: st3_def split: if_splits)
    ultimately show ?thesis using ih(3) by auto
  qed
qed

text \<open>A rollback that does not fail restores every runtime that can be undone.\<close>

lemma rollback_spec:
  assumes "layout_ok scratch C staged t" "\<forall>p \<in> set ps. fits adapters staged C t p" "distinct (map pr_core ps)"
    and "\<forall>p \<in> set ps. undoable C t n0 n p" "rollbackPreparedRuntimes E ps n = (st', n')"
  shows "untouched (scratch \<union> (\<Union>p \<in> set ps. set (footprint C staged t (pr_core p)))) n n'"
    "st' \<noteq> ''failed'' \<Longrightarrow> p \<in> set ps \<Longrightarrow> hs_files n' (pr_active p) = hs_files n0 (pr_active p)"
proof -
  have active: "ar_active (pr_apply p) \<noteq> []" if "p \<in> set ps" for p
    using assms(2,4) that fits_own(1) [OF assms(1)] by (auto simp: undoable_def own_paths_def)
  have "untouched (scratch \<union> (\<Union>p \<in> set ps. {pr_active p, pr_active p @ ''.tmp''})) n n'
      \<and> (st' \<noteq> ''failed'' \<longrightarrow> (\<forall>p \<in> set ps. hs_files n' (pr_active p) = hs_files n0 (pr_active p)))"
  proof (cases "ps = []")
    case True
    then show ?thesis using assms(5) by (simp add: rollbackPreparedRuntimes_def untouched_refl)
  next
    case False
    then have run: "rollback_each E (rev ps) ''succeeded'' n = (st', n')" using assms(5) by (simp add: rollbackPreparedRuntimes_def)
    have ready: "\<forall>p \<in> set (rev ps). fits adapters staged C t p" "distinct (map pr_core (rev ps))"
      "\<forall>p \<in> set (rev ps). ar_active (pr_apply p) = [] \<or> undoable C t n0 n p"
      using assms(2-4) by (simp_all add: rev_map [symmetric])
    note each = rollback_each_spec [OF assms(1) ready run]
    show ?thesis
    proof (intro conjI impI ballI)
      show "untouched (scratch \<union> (\<Union>p \<in> set ps. {pr_active p, pr_active p @ ''.tmp''})) n n'" using conjunct1 [OF each] by (simp only: set_rev)
      fix p assume "st' \<noteq> ''failed''" "p \<in> set ps"
      then show "hs_files n' (pr_active p) = hs_files n0 (pr_active p)" using conjunct2 [OF each] active [of p] by simp
    qed
  qed
  then have u: "untouched (scratch \<union> (\<Union>p \<in> set ps. {pr_active p, pr_active p @ ''.tmp''})) n n'"
    and r: "st' \<noteq> ''failed'' \<longrightarrow> (\<forall>p \<in> set ps. hs_files n' (pr_active p) = hs_files n0 (pr_active p))" by auto
  show "untouched (scratch \<union> (\<Union>p \<in> set ps. set (footprint C staged t (pr_core p)))) n n'"
  proof (rule untouched_mono [OF u], rule Un_mono [OF subset_refl], rule UN_mono [OF subset_refl])
    fix p assume "p \<in> set ps"
    then have "fits adapters staged C t p" using assms(2) by simp
    from fits_paths [OF this] show "{pr_active p, pr_active p @ ''.tmp''} \<subseteq> set (footprint C staged t (pr_core p))" by auto
  qed
  show "st' \<noteq> ''failed'' \<Longrightarrow> p \<in> set ps \<Longrightarrow> hs_files n' (pr_active p) = hs_files n0 (pr_active p)" using r by blast
qed

lemma fits_update [simp]:
  "fits adapters staged C t (p\<lparr>pr_apply := r\<rparr>) = fits adapters staged C t p"
  by (simp add: fits_def)

lemma apply_runtimes_spec:
  assumes "layout_ok scratch C staged t" "\<forall>p \<in> set (applied @ ps). fits adapters staged C t p" "distinct (map pr_core (applied @ ps))"
    and "\<forall>p \<in> set applied. undoable C t n0 n p \<and> promoted n p"
    and "\<forall>p \<in> set ps. hs_files n (pr_active p) = hs_files n0 (pr_active p)"
    and "apply_runtimes E applied ps n = ((res, qs), n')"
  shows "untouched (scratch \<union> (\<Union>p \<in> set (applied @ ps). set (footprint C staged t (pr_core p)))) n n'
    \<and> (case res of
         None \<Rightarrow> (\<forall>q \<in> set qs. fits adapters staged C t q \<and> undoable C t n0 n' q \<and> promoted n' q)
                 \<and> map pr_core qs = map pr_core (applied @ ps)
       | Some (_, e) \<Rightarrow> rollback_of e \<noteq> Some ''failed'' \<longrightarrow>
           (\<forall>p \<in> set (applied @ ps). hs_files n' (pr_active p) = hs_files n0 (pr_active p)))"
  using assms(2-)
proof (induction ps arbitrary: applied n)
  case Nil
  then show ?case by (auto simp: untouched_refl)
next
  case (Cons p ps)
  let ?F = "\<lambda>p. set (footprint C staged t (pr_core p))"
  have fit: "fits adapters staged C t p" using Cons.prems(1) by simp
  note own = fits_own [OF assms(1) fit]
  obtain r n1 where r: "Applier_Apply E (pr_active p) (pr_backup_dir p) (sr_path (pr_stage p)) (sr_version (pr_stage p)) n = (r, n1)"
    by fastforce
  note applying = Apply_spec [OF r own(1) [unfolded own(2)], folded own(2)]
  have u1: "untouched (?F p) n n1" by (rule untouched_mono [OF applying(1)]) (use fits_paths [OF fit] in auto)
  have other: "hs_files n1 x = hs_files n x" if "x \<in> ?F q" "q \<in> set applied \<union> set ps" for x q
  proof -
    have "pr_core p \<notin> pr_core ` (set applied \<union> set ps)" using Cons.prems(2) by auto
    then have "pr_core q \<noteq> pr_core p" using imageI [OF that(2), of pr_core] by metis
    moreover have "fits adapters staged C t q" using Cons.prems(1) that(2) by auto
    ultimately have "x \<notin> ?F p" using fits_apart [OF assms(1) fit, of q] that(1) by auto
    then show ?thesis by (rule untouchedD [OF u1])
  qed
  have act: "pr_active q \<in> ?F q" "kept_path C t (pr_core q) \<in> ?F q" "sr_path (pr_stage q) \<in> ?F q"
    if "fits adapters staged C t q" for q using fits_paths [OF that] by auto
  have before: "undoable C t n0 n1 q" "promoted n1 q" if q: "q \<in> set applied" for q
  proof -
    have "fits adapters staged C t q" using Cons.prems(1) q by simp
    note same = other [OF act(1) [OF this] UnI1 [OF q]] other [OF act(2) [OF this] UnI1 [OF q]] other [OF act(3) [OF this] UnI1 [OF q]]
    have "undoable C t n0 n q" "promoted n q" using Cons.prems(3) q by auto
    then show "undoable C t n0 n1 q" "promoted n1 q"
      using same unfolding undoable_def promoted_def by (metis, metis)
  qed
  show ?case
  proof (cases r)
    case (Inl e)
    obtain st n2 where roll: "rollbackPreparedRuntimes E applied n1 = (st, n2)" by fastforce
    have fin: "res = Some (''apply'', Rolled_back ''apply VPN runtime config'' e st)" "n' = n2"
      using Cons.prems(5) r Inl roll by auto
    have restored: "untouched (scratch \<union> (\<Union>q \<in> set applied. ?F q)) n1 n2"
      "st \<noteq> ''failed'' \<Longrightarrow> q \<in> set applied \<Longrightarrow> hs_files n2 (pr_active q) = hs_files n0 (pr_active q)" for q
      using rollback_spec [OF assms(1) _ _ _ roll, of n0] Cons.prems(1,2) before by auto
    have rest: "hs_files n2 (pr_active q) = hs_files n0 (pr_active q)" if q: "q \<in> set (p # ps)" for q
    proof -
      have fq: "fits adapters staged C t q" using Cons.prems(1) q by auto
      have "pr_active q \<notin> scratch \<union> (\<Union>a \<in> set applied. ?F a)"
      proof
        assume "pr_active q \<in> scratch \<union> (\<Union>a \<in> set applied. ?F a)"
        then have "pr_active q \<in> (\<Union>a \<in> set applied. ?F a)" using fits_clear [OF assms(1) fq act(1) [OF fq]] by blast
        then obtain a where a: "a \<in> set applied" "pr_active q \<in> ?F a" by auto
        have "pr_core ` set applied \<inter> pr_core ` set (p # ps) = {}" using Cons.prems(2) by auto
        then have "pr_core a \<noteq> pr_core q" using a(1) q by blast
        moreover have "fits adapters staged C t a" using Cons.prems(1) a(1) by simp
        ultimately show False using fits_apart [OF assms(1) _ fq, of a] a(2) act(1) [OF fq] by auto
      qed
      then have "hs_files n2 (pr_active q) = hs_files n1 (pr_active q)" by (rule untouchedD [OF restored(1)])
      also have "\<dots> = hs_files n (pr_active q)"
        using applying(2) [OF Inl] other [OF act(1) [OF fq]] q by auto
      finally show ?thesis using Cons.prems(4) q by metis
    qed
    have "untouched (scratch \<union> (\<Union>q \<in> set (applied @ p # ps). ?F q)) n n2" by (rule untouched_trans [OF u1 restored(1)]) auto
    moreover have "st \<noteq> ''failed'' \<longrightarrow> (\<forall>q \<in> set (applied @ p # ps). hs_files n2 (pr_active q) = hs_files n0 (pr_active q))"
      using restored(2) rest by auto
    ultimately show ?thesis by (simp add: fin rollback_of_def)
  next
    case (Inr x)
    let ?p = "p\<lparr>pr_apply := x\<rparr>"
    have "hs_files n (pr_active p) = hs_files n0 (pr_active p)" using Cons.prems(4) by simp
    moreover have "hs_files n1 (sr_path (pr_stage p)) = hs_files n (sr_path (pr_stage p))"
      by (rule untouchedD [OF applying(1)]) (use own(1) in \<open>auto simp: own_paths_def\<close>)
    ultimately have new: "undoable C t n0 n1 ?p" "promoted n1 ?p"
      using applying(3) [OF Inr] own(1) by (auto simp: undoable_def promoted_def own_paths_def)
    have next_run: "apply_runtimes E (applied @ [?p]) ps n1 = ((res, qs), n')" using Cons.prems(5) r Inr by simp
    have still: "\<forall>q \<in> set ps. hs_files n1 (pr_active q) = hs_files n0 (pr_active q)"
    proof
      fix q assume q: "q \<in> set ps"
      then have "fits adapters staged C t q" using Cons.prems(1) by simp
      from other [OF act(1) [OF this] UnI2 [OF q]] show "hs_files n1 (pr_active q) = hs_files n0 (pr_active q)"
        using Cons.prems(4) q by (metis list.set_intros(2))
    qed
    have fit_all: "\<forall>q \<in> set ((applied @ [?p]) @ ps). fits adapters staged C t q" using Cons.prems(1) by auto
    have dist: "distinct (map pr_core ((applied @ [?p]) @ ps))" using Cons.prems(2) by simp
    have good: "\<forall>q \<in> set (applied @ [?p]). undoable C t n0 n1 q \<and> promoted n1 q" using before new by auto
    note ih = Cons.IH [OF fit_all dist good still next_run]
    have "untouched (scratch \<union> (\<Union>q \<in> set (applied @ p # ps). ?F q)) n n'"
      by (rule untouched_trans [OF u1 conjunct1 [OF ih]]) auto
    then show ?thesis using ih by (auto split: option.splits)
  qed
qed

text \<open>Restarts and checks change no file; a failure among them undoes every promotion.\<close>

lemma activate_runtime_spec:
  assumes "activate_runtime p n = ((res, q), n')" "pr_adapter p \<in> adapters"
  shows "untouched scratch n n'" "pr_adapter q = pr_adapter p" "pr_active q = pr_active p" "pr_stage q = pr_stage p"
    "pr_apply q = pr_apply p" "pr_backup_dir q = pr_backup_dir p"
proof -
  let ?a = "pr_adapter p"
  obtain r e1 n1 where a: "ca_Restart ?a n = ((r, e1), n1)" by (metis prod.exhaust)
  obtain h e2 n2 where b: "ca_IsActive ?a n1 = ((h, e2), n2)" by (metis prod.exhaust)
  obtain s e3 n3 where c: "ca_IsEnabled ?a n2 = ((s, e3), n3)" by (metis prod.exhaust)
  obtain l e4 n4 where d: "ca_CheckHealth ?a (ar_active (pr_apply p)) n3 = ((l, e4), n4)" by (metis prod.exhaust)
  have u: "untouched scratch n n1" "untouched scratch n1 n2" "untouched scratch n2 n3" "untouched scratch n3 n4"
    using service_frame [OF assms(2), of "ca_Restart ?a", OF _ a] service_frame [OF assms(2), of "ca_IsActive ?a", OF _ b]
      service_frame [OF assms(2), of "ca_IsEnabled ?a", OF _ c] health_frame [OF assms(2) d] by simp_all
  note us = u untouched.frame_trans [OF u(1,2)] untouched.frame_trans [OF untouched.frame_trans [OF u(1,2)] u(3)]
    untouched.frame_trans [OF untouched.frame_trans [OF untouched.frame_trans [OF u(1,2)] u(3)] u(4)]
  show "untouched scratch n n'"
    using assms(1) us unfolding activate_runtime_def Let_def a b c d prod.case
    by (cases e1; cases e2; cases e3; cases e4) (auto simp: b c d)
  show "pr_adapter q = pr_adapter p" "pr_active q = pr_active p" "pr_stage q = pr_stage p"
    "pr_apply q = pr_apply p" "pr_backup_dir q = pr_backup_dir p"
    using assms(1) unfolding activate_runtime_def Let_def a prod.case
    by (cases e1; cases e2; cases e3; cases e4; auto simp: b c d)+
qed

lemma same_fields_fits:
  assumes "pr_adapter q = pr_adapter p" "pr_active q = pr_active p" "pr_stage q = pr_stage p"
    "pr_apply q = pr_apply p" "pr_backup_dir q = pr_backup_dir p"
  shows "fits adapters staged C t q = fits adapters staged C t p" "undoable C t n0 n q = undoable C t n0 n p"
    "promoted n q = promoted n p"
  using assms by (simp_all add: fits_def undoable_def promoted_def)

lemma untouched_all:
  assumes "untouched scratch n n'" "layout_ok scratch C staged t" "fits adapters staged C t p"
  shows "undoable C t n0 n' p = undoable C t n0 n p" "promoted n' p = promoted n p"
proof -
  have same: "hs_files n' x = hs_files n x" if "x \<in> {pr_active p, kept_path C t (pr_core p), sr_path (pr_stage p)}" for x
    by (rule untouchedD [OF assms(1)], rule fits_clear [OF assms(2,3)]) (use that in \<open>auto simp: fits_paths [OF assms(3)]\<close>)
  then show "promoted n' p = promoted n p" by (simp add: promoted_def)
  show "undoable C t n0 n' p = undoable C t n0 n p"
    by (cases "ar_backup (pr_apply p) = kept_path C t (pr_core p)") (simp_all add: undoable_def same)
qed

lemma activate_runtimes_spec:
  assumes "layout_ok scratch C staged t" "\<forall>p \<in> set (active @ ps). fits adapters staged C t p" "distinct (map pr_core (active @ ps))"
    and "\<forall>p \<in> set (active @ ps). undoable C t n0 n p \<and> promoted n p"
    and "activate_runtimes E active ps n = ((res, qs), n')"
  shows "untouched (scratch \<union> (\<Union>p \<in> set (active @ ps). set (footprint C staged t (pr_core p)))) n n'
    \<and> (case res of
         None \<Rightarrow> (\<forall>q \<in> set qs. fits adapters staged C t q \<and> promoted n' q) \<and> map pr_core qs = map pr_core (active @ ps)
       | Some (_, e) \<Rightarrow> rollback_of e \<noteq> Some ''failed'' \<longrightarrow>
           (\<forall>p \<in> set (active @ ps). hs_files n' (pr_active p) = hs_files n0 (pr_active p)))"
  using assms(2-)
proof (induction ps arbitrary: active n)
  case Nil
  then show ?case by (auto simp: untouched_refl)
next
  case (Cons p ps)
  obtain r q n1 where a: "activate_runtime p n = ((r, q), n1)" by (metis prod.exhaust)
  have "pr_adapter p \<in> adapters" using Cons.prems(1) by (simp add: fits_def)
  note act = activate_runtime_spec [OF a this]
  note same = same_fields_fits [OF act(2-6)]
  have facts: "\<forall>x \<in> set (active @ q # ps). fits adapters staged C t x" "distinct (map pr_core (active @ q # ps))"
    "\<forall>x \<in> set (active @ q # ps). undoable C t n0 n1 x \<and> promoted n1 x"
    using Cons.prems(1-3) same act(2) untouched_all [OF act(1) assms(1)] by auto
  show ?case
  proof (cases r)
    case None
    then have next_run: "activate_runtimes E (active @ [q]) ps n1 = ((res, qs), n')" using Cons.prems(4) a by simp
    have split: "active @ q # ps = (active @ [q]) @ ps" by simp
    note ih = Cons.IH [OF facts(1) [unfolded split] facts(2) [unfolded split] facts(3) [unfolded split] next_run]
    have "untouched (scratch \<union> (\<Union>x \<in> set ((active @ [q]) @ ps). set (footprint C staged t (pr_core x)))) n n'"
      by (rule untouched_trans [OF act(1) conjunct1 [OF ih]]) simp_all
    then have "untouched (scratch \<union> (\<Union>x \<in> set (active @ p # ps). set (footprint C staged t (pr_core x)))) n n'" using act(2) by simp
    then show ?thesis using ih act(2,3) by (auto split: option.splits)
  next
    case (Some f)
    obtain stage doing e where f: "f = (stage, doing, e)" by (metis prod.exhaust)
    obtain st n2 where roll: "rollbackPreparedRuntimes E (active @ q # ps) n1 = (st, n2)" by fastforce
    have fin: "res = Some (stage, Rolled_back doing e st)" "n' = n2" using Cons.prems(4) a Some f roll by auto
    have un: "\<forall>x \<in> set (active @ q # ps). undoable C t n0 n1 x" using facts(3) by blast
    note restored = rollback_spec [OF assms(1) facts(1,2) un roll]
    have "untouched (scratch \<union> (\<Union>x \<in> set (active @ q # ps). set (footprint C staged t (pr_core x)))) n n2"
      by (rule untouched_trans [OF act(1) restored(1)]) simp_all
    then have "untouched (scratch \<union> (\<Union>x \<in> set (active @ p # ps). set (footprint C staged t (pr_core x)))) n n2" using act(2) by simp
    moreover have "\<forall>x \<in> set (active @ p # ps). hs_files n2 (pr_active x) = hs_files n0 (pr_active x)" if "st \<noteq> ''failed''"
      using restored(2) [OF that] act(3) by (metis UnE UnI1 UnI2 list.set_intros set_ConsD set_append)
    ultimately show ?thesis by (simp add: fin rollback_of_def)
  qed
qed

text \<open>Staging and validation write only the staged files.\<close>

lemma prepare_runtimes_spec:
  assumes "layout_ok scratch C staged t" "set as \<subseteq> adapters" "distinct (map pr_core ready @ map core_of as)"
    and "\<forall>p \<in> set ready. fits adapters staged C t p \<and> pr_apply p = no_apply \<and> hs_files n (sr_path (pr_stage p)) \<noteq> None"
    and "prepare_runtimes C t as ready n = ((res, qs), n')"
  shows "untouched (scratch \<union> (\<Union>c \<in> set core_names. {staged c t, staged c t @ ''.tmp''})) n n'
    \<and> (res = None \<longrightarrow>
         (\<forall>q \<in> set qs. fits adapters staged C t q \<and> pr_apply q = no_apply \<and> hs_files n' (sr_path (pr_stage q)) \<noteq> None)
         \<and> map pr_core qs = map pr_core ready @ map core_of as)"
  using assms(2-5)
proof (induction as arbitrary: ready n)
  case Nil
  then show ?case by (auto simp: untouched_refl)
next
  case (Cons a as)
  let ?S = "scratch \<union> (\<Union>c \<in> set core_names. {staged c t, staged c t @ ''.tmp''})"
  have a: "a \<in> adapters" using Cons.prems(1) by simp
  note named = core_named [OF a]
  obtain r n1 where r: "ca_Stage a t n = (r, n1)" by fastforce
  note u1 = stage_frame [OF a r]
  have w1: "untouched ?S n n1" by (rule untouched_mono [OF u1]) (use named in auto)
  show ?case
  proof (cases r)
    case (Inl e)
    then show ?thesis using Cons.prems(4) r w1 by auto
  next
    case (Inr s)
    obtain v e n2 where v: "ca_Validate a (sr_path s) n1 = ((v, e), n2)" by (metis prod.exhaust)
    note u2 = validate_frame [OF a v]
    have w2: "untouched ?S n n2" by (rule untouched_trans [OF w1 u2]) auto
    show ?thesis
    proof (cases e)
      case (Some x)
      then show ?thesis using Cons.prems(4) r Inr v w2 by auto
    next
      case None
      let ?p = "newly_prepared C a s v"
      have next_run: "prepare_runtimes C t as (ready @ [?p]) n2 = ((res, qs), n')" using Cons.prems(4) r Inr v None by simp
      note made = stage_done [OF a r [unfolded Inr]]
      have p: "pr_core ?p = core_of a" "fits adapters staged C t ?p" "pr_apply ?p = no_apply" "sr_path (pr_stage ?p) = staged (core_of a) t"
        using a made by (auto simp: newly_prepared_def fits_def active_path_def split: prod.splits)
      have kept: "hs_files n2 (staged c t) = hs_files n1 (staged c t)" if "c \<in> set core_names" for c
        by (rule untouchedD [OF u2]) (rule layout_clear [OF assms(1) that], simp add: footprint_def)
      have there: "hs_files n2 (sr_path (pr_stage q)) \<noteq> None" if q: "q \<in> set (ready @ [?p])" for q
      proof (cases "q = ?p")
        case True
        then show ?thesis using p(4) kept [OF named] made by simp
      next
        case False
        then have q: "q \<in> set ready" using q by simp
        have fq: "fits adapters staged C t q" using Cons.prems(3) q by simp
        have c: "pr_core q \<in> set core_names" "sr_path (pr_stage q) = staged (pr_core q) t"
          using fq core_named by (auto simp: fits_def)
        have "pr_core q \<noteq> core_of a" using Cons.prems(2) q by force
        then have "staged (pr_core q) t \<notin> {staged (core_of a) t, staged (core_of a) t @ ''.tmp''}"
          using layout_apart [OF assms(1) c(1) named] by (auto simp: footprint_def)
        then have "hs_files n1 (staged (pr_core q) t) = hs_files n (staged (pr_core q) t)" by (rule untouchedD [OF u1])
        then show ?thesis using kept [OF c(1)] c(2) Cons.prems(3) q by metis
      qed
      have facts: "set as \<subseteq> adapters" "distinct (map pr_core (ready @ [?p]) @ map core_of as)"
        "\<forall>q \<in> set (ready @ [?p]). fits adapters staged C t q \<and> pr_apply q = no_apply \<and> hs_files n2 (sr_path (pr_stage q)) \<noteq> None"
        using Cons.prems(1-3) p there by auto
      note ih = Cons.IH [OF facts next_run]
      have "untouched ?S n n'" by (rule untouched_trans [OF w2 conjunct1 [OF ih]]) auto
      then show ?thesis using ih p(1) by simp
    qed
  qed
qed

lemma unselected_same:
  assumes "layout_ok scratch C staged t" "\<forall>p \<in> set ps. fits adapters staged C t p" "c \<in> set core_names" "c \<notin> pr_core ` set ps"
    and "untouched (scratch \<union> (\<Union>p \<in> set ps. set (footprint C staged t (pr_core p)))) n n'"
  shows "hs_files n' (active_path C c) = hs_files n (active_path C c)"
proof (rule untouchedD [OF assms(5)], rule notI)
  assume "active_path C c \<in> scratch \<union> (\<Union>p \<in> set ps. set (footprint C staged t (pr_core p)))"
  moreover have "active_path C c \<notin> scratch" by (rule layout_clear [OF assms(1,3)]) (simp add: footprint_def)
  ultimately obtain p where p: "p \<in> set ps" "active_path C c \<in> set (footprint C staged t (pr_core p))" by auto
  have "pr_core p \<in> set core_names" using assms(2) p(1) core_named by (simp add: fits_def)
  moreover have "pr_core p \<noteq> c" using assms(4) p(1) by auto
  ultimately have "set (footprint C staged t (pr_core p)) \<inter> set (footprint C staged t c) = {}"
    by (intro layout_apart [OF assms(1) _ assms(3)])
  moreover have "active_path C c \<in> set (footprint C staged t c)" by (simp add: footprint_def)
  ultimately show False using p(2) by blast
qed

lemma restored_all:
  assumes "layout_ok scratch C staged t" "\<forall>p \<in> set ps. fits adapters staged C t p" "c \<in> set core_names"
    and "untouched (scratch \<union> (\<Union>p \<in> set ps. set (footprint C staged t (pr_core p)))) n n'"
    and "\<forall>p \<in> set ps. hs_files n' (pr_active p) = hs_files n (pr_active p)"
  shows "hs_files n' (active_path C c) = hs_files n (active_path C c)"
proof (cases "c \<in> pr_core ` set ps")
  case True
  then obtain p where "p \<in> set ps" "c = pr_core p" by auto
  then show ?thesis using assms(2,5) by (auto simp: fits_def)
next
  case False
  then show ?thesis by (rule unselected_same [OF assms(1-3) _ assms(4)])
qed

lemma promote_runtimes_spec:
  assumes "layout_ok scratch C staged t" "\<forall>p \<in> set ps. fits adapters staged C t p" "distinct (map pr_core ps)"
    and "promote_runtimes E C ps n = ((r, qs), n')"
  shows "untouched (scratch \<union> (\<Union>p \<in> set ps. set (footprint C staged t (pr_core p)))) n n'
    \<and> (case r of
         Inl (_, e) \<Rightarrow> rollback_of e \<noteq> Some ''failed'' \<longrightarrow> (\<forall>p \<in> set ps. hs_files n' (pr_active p) = hs_files n (pr_active p))
       | Inr _ \<Rightarrow> map pr_core qs = map pr_core ps \<and> (\<forall>q \<in> set qs. fits adapters staged C t q \<and> promoted n' q))"
proof -
  let ?U = "\<lambda>ps. scratch \<union> (\<Union>p \<in> set ps. set (footprint C staged t (pr_core p)))"
  have all: "?U ps = scratch \<union> (\<Union>c \<in> set (map pr_core ps). set (footprint C staged t c))" for ps by simp
  obtain e2 ps2 n2 where b: "apply_runtimes E [] ps n = ((e2, ps2), n2)" by (metis prod.exhaust)
  have ready: "\<forall>p \<in> set ([] @ ps). fits adapters staged C t p" "distinct (map pr_core ([] @ ps))"
    "\<forall>p \<in> set ([] :: prepared list). undoable C t n n p \<and> promoted n p" "\<forall>p \<in> set ps. hs_files n (pr_active p) = hs_files n (pr_active p)"
    using assms(2,3) by simp_all
  note applied = apply_runtimes_spec [OF assms(1) ready b, simplified]
  show ?thesis
  proof (cases e2)
    case (Some f)
    then show ?thesis using assms(4) b applied by (auto simp: promote_runtimes_def split: prod.splits)
  next
    case None
    have cores: "map pr_core ps2 = map pr_core ps" using applied None by simp
    have names: "?U ps2 = ?U ps" by (simp only: all cores)
    have next_ready: "\<forall>q \<in> set ([] @ ps2). fits adapters staged C t q" "distinct (map pr_core ([] @ ps2))"
      "\<forall>q \<in> set ([] @ ps2). undoable C t n n2 q \<and> promoted n2 q"
      using applied None cores assms(3) by simp_all
    show ?thesis
    proof (cases "gc_service_control C")
      case False
      then have "r = Inr ''skipped_service_control_disabled''" "qs = ps2" "n' = n2"
        using assms(4) b None by (auto simp: promote_runtimes_def)
      then show ?thesis using applied next_ready cores by simp
    next
      case True
      obtain e3 ps3 n3 where c: "activate_runtimes E [] ps2 n2 = ((e3, ps3), n3)" by (metis prod.exhaust)
      note live = activate_runtimes_spec [OF assms(1) next_ready c, simplified]
      have u: "untouched (?U ps) n n3"
        by (rule untouched_trans [OF conjunct1 [OF applied] conjunct1 [OF live] subset_refl equalityD1 [OF names]])
      show ?thesis
      proof (cases e3)
        case (Some f)
        obtain stage e where f: "f = (stage, e)" by (metis prod.exhaust)
        have fin: "r = Inl (stage, e)" "n' = n3" using assms(4) b None True c Some f by (auto simp: promote_runtimes_def)
        have "hs_files n3 (pr_active p) = hs_files n (pr_active p)" if h: "rollback_of e \<noteq> Some ''failed''" "p \<in> set ps" for p
        proof -
          have "pr_core ` set ps2 = pr_core ` set ps" using arg_cong [OF cores, of set] by simp
          then have "pr_core p \<in> pr_core ` set ps2" using h(2) by simp
          then obtain q where q: "q \<in> set ps2" "pr_core q = pr_core p" by auto
          have "fits adapters staged C t p" "fits adapters staged C t q" using assms(2) h(2) next_ready(1) q(1) by simp_all
          then have "pr_active q = pr_active p" using q(2) by (simp add: fits_def)
          moreover have "\<forall>q \<in> set ps2. hs_files n3 (pr_active q) = hs_files n (pr_active q)"
            using conjunct2 [OF live] Some f h(1) by simp
          ultimately show ?thesis using q(1) by metis
        qed
        then show ?thesis using u by (simp add: fin)
      next
        case none3: None
        then have "r = Inr ''succeeded''" "qs = ps3" "n' = n3" using assms(4) b None True c by (auto simp: promote_runtimes_def)
        then show ?thesis using live none3 cores u by simp
      qed
    qed
  qed
qed

lemma prepared_same:
  assumes "layout_ok scratch C staged t" "c \<in> set core_names"
    and "untouched (scratch \<union> (\<Union>d \<in> set core_names. {staged d t, staged d t @ ''.tmp''})) n n'"
  shows "hs_files n' (active_path C c) = hs_files n (active_path C c)"
proof (rule untouchedD [OF assms(3)], rule notI)
  assume "active_path C c \<in> scratch \<union> (\<Union>d \<in> set core_names. {staged d t, staged d t @ ''.tmp''})"
  moreover have "active_path C c \<notin> scratch" by (rule layout_clear [OF assms(1,2)]) (simp add: footprint_def)
  ultimately obtain d where d: "d \<in> set core_names" "active_path C c \<in> {staged d t, staged d t @ ''.tmp''}" by auto
  show False
  proof (cases "d = c")
    case True
    then show False using layout_own(2) [OF assms(1,2)] d(2) by (auto simp: footprint_def)
  next
    case False
    from layout_apart [OF assms(1) d(1) assms(2) this] show False using d(2) by (auto simp: footprint_def)
  qed
qed

lemma apply_config_spec:
  assumes "layout_ok scratch C staged t" "set as \<subseteq> adapters" "distinct (map core_of as)"
    and "apply_config E C t as n = ((r, ps), n')"
  shows "hs_reports n' = hs_reports n
    \<and> (case r of
         Inl (_, e) \<Rightarrow> rollback_of e \<noteq> Some ''failed'' \<longrightarrow>
           (\<forall>c \<in> set core_names. hs_files n' (active_path C c) = hs_files n (active_path C c))
       | Inr _ \<Rightarrow> map pr_core ps = map core_of as \<and> (\<forall>p \<in> set ps. fits adapters staged C t p \<and> promoted n' p)
           \<and> (\<forall>c \<in> set core_names. c \<notin> core_of ` set as \<longrightarrow> hs_files n' (active_path C c) = hs_files n (active_path C c)))"
proof -
  obtain e1 ps1 n1 where a: "prepare_runtimes C t as [] n = ((e1, ps1), n1)" by (metis prod.exhaust)
  have start: "distinct (map pr_core [] @ map core_of as)"
    "\<forall>p \<in> set []. fits adapters staged C t p \<and> pr_apply p = no_apply \<and> hs_files n (sr_path (pr_stage p)) \<noteq> None"
    using assms(3) by simp_all
  note prep = prepare_runtimes_spec [OF assms(1,2) start a]
  note same = prepared_same [OF assms(1) _ conjunct1 [OF prep]]
  note rep1 = untouched_reports [OF conjunct1 [OF prep]]
  show ?thesis
  proof (cases e1)
    case (Some f)
    then show ?thesis using assms(4) a rep1 same by (auto simp: apply_config_def)
  next
    case None
    then have ready: "\<forall>q \<in> set ps1. fits adapters staged C t q" "map pr_core ps1 = map core_of as" using prep by auto
    then have dist: "distinct (map pr_core ps1)" using assms(3) by simp
    have run: "promote_runtimes E C ps1 n1 = ((r, ps), n')" using assms(4) a None by (simp add: apply_config_def)
    note moved = promote_runtimes_spec [OF assms(1) ready(1) dist run]
    note rep2 = untouched_reports [OF conjunct1 [OF moved]]
    have "c \<notin> pr_core ` set ps1" if "c \<notin> core_of ` set as" for c using that arg_cong [OF ready(2), of set] by simp
    then have other: "hs_files n' (active_path C c) = hs_files n (active_path C c)"
      if "c \<in> set core_names" "c \<notin> core_of ` set as" for c
      using unselected_same [OF assms(1) ready(1) that(1) _ conjunct1 [OF moved]] same [OF that(1)] that(2) by simp
    show ?thesis
    proof (cases r)
      case (Inl f)
      then show ?thesis using moved restored_all [OF assms(1) ready(1) _ conjunct1 [OF moved]] same
        by (simp add: rep1 rep2 split: prod.splits)
    next
      case (Inr status)
      then show ?thesis using moved other ready(2) by (simp add: rep1 rep2)
    qed
  qed
qed

end

end
