(* ===== verification/Agent_Contract.thy ===== *)
theory Agent_Contract
  imports Agent_Safety
begin

text \<open>
  The five adapters of the Agent keep the contract of \<open>managed_cores\<close>, so a configuration is applied to every
  runtime of the node or to none of them.
\<close>

section \<open>Frames of the operations of an adapter\<close>

text \<open>What the documentation of the tools promises: \<open>systemctl\<close>, \<open>sing-box check\<close>, \<open>wg-quick strip\<close>, the version
  flags, \<open>wg show\<close> and \<open>ss\<close>, and the services they start, write only files of their own, \<open>T\<close>, and send no report.\<close>

definition quiet :: "string set \<Rightarrow> host_env \<Rightarrow> bool" where
  "quiet T E \<longleftrightarrow> (\<forall>name args n. untouched T n (snd (he_run E name args n)))"

lemma run_untouched: "quiet P E \<Longrightarrow> run_command E name args n = (r, n') \<Longrightarrow> untouched P n n'"
  by (auto simp: quiet_def run_command_def untouched_def split: prod.splits) (metis snd_conv)+

lemma tick_untouched: "untouched P n (tick d n)"
  by (simp add: tick_def untouched_def)

lemma now_untouched: "untouched P n n' \<Longrightarrow> untouched P n (n'\<lparr>hs_now := x\<rparr>)"
  by (simp add: untouched_def)

lemma read_untouched: "os_ReadFile E p n = (r, n') \<Longrightarrow> untouched P n n'"
  by (rule keepsD [OF keeps_ReadFile])

lemma systemctl_untouched:
  assumes "quiet P E" "runSystemctl E service operation action extra n = (r, n')"
  shows "untouched P n n'"
  using assms(2) run_untouched [OF assms(1)] unfolding runSystemctl_def Let_def
  by (auto simp: untouched_refl split: if_splits prod.splits)

lemma Execute_untouched: "quiet P E \<Longrightarrow> Service_Execute E service operation n = (r, n') \<Longrightarrow> untouched P n n'"
  by (auto simp: Service_Execute_def untouched_refl split: if_splits dest: systemctl_untouched)

lemma Restart_untouched:
  assumes "quiet P E" "Service_Restart E service n = (r, n')"
  shows "untouched P n n'"
proof -
  obtain s e n1 where a: "Service_Execute E service ''enable'' n = ((s, e), n1)" by (metis prod.exhaust)
  obtain s2 e2 n2 where b: "Service_Execute E service ''restart'' n1 = ((s2, e2), n2)" by (metis prod.exhaust)
  note u = Execute_untouched [OF assms(1) a] Execute_untouched [OF assms(1) b]
  show ?thesis
    using assms(2) a b u(1) untouched.frame_trans [OF u]
    by (cases e) (auto simp: Service_Restart_def Service_Enable_def)
qed

lemma service_untouched:
  assumes "quiet P E" "m \<in> {Service_Restart E service, Service_Stop E service, Service_IsActive E service, Service_IsEnabled E service}"
    "m n = (r, n')"
  shows "untouched P n n'"
proof -
  consider "m = Service_Restart E service" | "m = Service_Execute E service ''stop''" | "\<exists>x y. m = runSystemctl E service [] x y"
    using assms(2) by (auto simp: Service_Stop_def Service_IsActive_def Service_IsEnabled_def)
  then show ?thesis
  proof cases
    case 1
    then show ?thesis using Restart_untouched [OF assms(1)] assms(3) by simp
  next
    case 2
    then show ?thesis using Execute_untouched [OF assms(1)] assms(3) by simp
  next
    case 3
    then obtain x y where "runSystemctl E service [] x y n = (r, n')" using assms(3) by auto
    then show ?thesis by (rule systemctl_untouched [OF assms(1)])
  qed
qed

lemma dial_targets_untouched: "dial_targets E ts n = (r, n') \<Longrightarrow> untouched P n n'"
proof (induction ts arbitrary: n)
  case (Cons t ts)
  obtain x d where x: "he_tls E t n = (x, d)" by fastforce
  show ?case
  proof (cases x)
    case Tls_ok
    then have "dial_targets E ts (tick d n) = (r, n')" using Cons.prems x by simp
    then show ?thesis using untouched.frame_trans [OF tick_untouched Cons.IH] by blast
  qed (use Cons.prems x tick_untouched in auto)
qed (simp add: untouched_refl)

lemma Check_untouched: "quiet P E \<Longrightarrow> Validator_Check E binary path n = (r, n') \<Longrightarrow> untouched P n n'"
  unfolding Validator_Check_def Let_def
  by (auto simp: untouched_refl split: if_splits prod.splits dest: run_untouched)

lemma reality_untouched: "CheckRealityHandshakeTargets E L path n = (r, n') \<Longrightarrow> untouched P n n'"
  unfolding CheckRealityHandshakeTargets_def
  by (auto split: prod.splits sum.splits option.splits dest: read_untouched)
     (metis dial_targets_untouched read_untouched untouched.frame_trans)

lemma singbox_Validate_untouched:
  assumes "quiet P E" "singbox_Validate E L binary path n = (r, n')"
  shows "untouched P n n'"
proof -
  obtain v e n1 where a: "Validator_Check E binary path n = ((v, e), n1)" by (metis prod.exhaust)
  obtain e2 n2 where b: "CheckRealityHandshakeTargets E L path n1 = (e2, n2)" by fastforce
  show ?thesis
    using assms(2) a b Check_untouched [OF assms(1) a] untouched.frame_trans [OF Check_untouched [OF assms(1) a] reality_untouched [OF b]]
    by (cases e) (auto simp: singbox_Validate_def)
qed

definition private_copies :: "host_env \<Rightarrow> string set" where
  "private_copies E = {filepath_Join (he_temp E k) ''routegate-wg0.conf'' | k. True}"

lemma version_Validate_untouched:
  assumes "quiet P E" "version_Validate E parses binary flag path n = (r, n')"
  shows "untouched P n n'"
proof -
  obtain a n1 where a: "os_ReadFile E (TrimSpace path) n = (a, n1)" by fastforce
  obtain x out n2 where b: "run_command E binary [flag] n1 = ((x, out), n2)" by (metis prod.exhaust)
  show ?thesis
    using assms(2) a b read_untouched [OF a, of P] untouched.frame_trans [OF read_untouched [OF a] run_untouched [OF assms(1) b]]
    by (cases a) (auto simp: version_Validate_def split: if_splits)
qed

lemma wireguard_Validate_untouched:
  assumes "quiet P E" "wireguard_Validate E wgQuick path n = (r, n')"
  shows "untouched (P \<union> private_copies E) n n'"
proof -
  let ?P = "P \<union> private_copies E"
  obtain a n1 where a: "os_ReadFile E (TrimSpace path) n = (a, n1)" by fastforce
  let ?copy = "validation_copy E n1"
  obtain b n2 where b: "sys_call E n1 = (b, n2)" by fastforce
  obtain c n3 where c: "os_WriteFile E ?copy (case a of Inr s \<Rightarrow> s | _ \<Rightarrow> []) n2 = (c, n3)" by fastforce
  obtain x out n4 where d: "run_command E wgQuick [''strip'', ?copy] n3 = ((x, out), n4)" by (metis prod.exhaust)
  have copy: "?copy \<in> ?P" by (auto simp: private_copies_def validation_copy_def)
  have u: "untouched ?P n n1" "untouched ?P n1 n2" "untouched ?P n2 n3" "untouched ?P n3 n4"
    using read_untouched [OF a] keepsD [OF keeps_sys_call b]
      keepsD [OF keeps_sys_write [OF copy] c [unfolded os_WriteFile_def]] untouched_mono [OF run_untouched [OF assms(1) d]] by simp_all
  have remove: "untouched ?P m (snd (os_Remove E ?copy m))" for m
    using keeps_Remove [OF copy, of E] by (simp add: keeps_def)
  note t2 = untouched.frame_trans [OF u(1,2)]
  note t3 = untouched.frame_trans [OF t2 u(3)]
  note t4 = untouched.frame_trans [OF t3 u(4)]
  show ?thesis
    using assms(2) a b c d u(1) t2 untouched.frame_trans [OF t3 remove] untouched.frame_trans [OF t4 remove]
    unfolding wireguard_Validate_def Let_def attempt_def
    by (cases a; cases b; cases c) (auto split: if_splits)
qed

section \<open>Listener checks\<close>

lemma dial_round_untouched: "dial_round E port deadline n = (r, n') \<Longrightarrow> untouched P n n'"
  by (auto simp: dial_round_def dial_before_def tick_def untouched_def Let_def split: prod.splits if_splits bool.splits)

lemma tcp_loop_untouched: "tcp_loop E port deadline interval n = (r, n') \<Longrightarrow> untouched P n n'"
proof (induction E port deadline interval n rule: tcp_loop.induct)
  case (1 E port deadline interval n)
  obtain a n1 where a: "dial_round E port deadline n = (a, n1)" by fastforce
  note u = dial_round_untouched [OF a]
  show ?case
  proof (cases "a = None \<and> hs_now n1 < deadline")
    case True
    let ?m = "n1\<lparr>hs_now := min deadline (hs_now n1 + positive_or 100 interval)\<rparr>"
    have "tcp_loop E port deadline interval ?m = (r, n')" using "1.prems" a True by (simp add: tcp_loop.simps [of E port deadline interval n])
    then have "untouched P ?m n'" using "1.IH" a True by simp
    then show ?thesis using untouched.frame_trans [OF now_untouched [OF u]] by blast
  next
    case False
    then have "n' = n1" using "1.prems" a by (cases a) (auto simp: tcp_loop.simps [of E port deadline interval n])
    then show ?thesis using u by simp
  qed
qed

lemma tcp_check_untouched: "checkTCPListenerPort E port label timeout interval n = (r, n') \<Longrightarrow> untouched P n n'"
  by (auto simp: checkTCPListenerPort_def split: prod.splits option.splits dest: tcp_loop_untouched)

lemma check_inbounds_untouched: "check_inbounds E mss k n = (r, n') \<Longrightarrow> untouched P n n'"
proof (induction mss arbitrary: k n)
  case (Cons ms mss)
  let ?type = "ToLower (TrimSpace (stringValue (map_entry ''type'' ms)))"
  let ?port = "listenerPort (map_entry ''listen_port'' ms)"
  obtain l e n1 where c: "checkTCPListenerPort E ?port ?type 3000 100 n = ((l, e), n1)" by (metis prod.exhaust)
  consider "check_inbounds E mss k n = (r, n')" | "n' = n" | "check_inbounds E mss (Suc k) n1 = (r, n')" | "n' = n1"
    using Cons.prems c by (cases e) (auto simp: Let_def split: if_splits)
  then show ?case
    using Cons.IH tcp_check_untouched [OF c] untouched_refl untouched.frame_trans by cases blast+
qed (auto simp: untouched_refl)

lemma read_active_untouched: "read_active E L path n = (r, n') \<Longrightarrow> untouched P n n'"
  by (auto simp: read_active_def split: prod.splits sum.splits dest: read_untouched)

lemma singbox_health_untouched:
  assumes "singbox_CheckHealth E L inboundType path n = (r, n')"
  shows "untouched P n n'"
proof -
  obtain a n1 where a: "read_active E L path n = (a, n1)" by fastforce
  obtain e n2 where b: "CheckSingBoxTCPListeners E L path n = (e, n2)" by fastforce
  have u2: "untouched P n n2"
    using b a read_active_untouched [OF a] untouched.frame_trans [OF read_active_untouched [OF a] check_inbounds_untouched]
    by (cases a) (auto simp: CheckSingBoxTCPListeners_def)
  obtain c n3 where c: "read_active E L path n2 = (c, n3)" by fastforce
  note u3 = untouched.frame_trans [OF u2 read_active_untouched [OF c]]
  note u4 = untouched.frame_trans [OF u3 tcp_check_untouched]
  have "untouched P n n4" if "checkSingBoxTCPListener E L path inboundType 3000 100 n2 = (r4, n4)" for r4 n4
    using that u2 u3 c u4
    by (cases c) (auto simp: checkSingBoxTCPListener_def Let_def split: if_splits)
  then show ?thesis using assms b u2 by (cases e) (auto simp: singbox_CheckHealth_def)
qed

lemma wireguard_health_untouched: "quiet P E \<Longrightarrow> wireguard_CheckHealth E wg interface n = (r, n') \<Longrightarrow> untouched P n n'"
  unfolding wireguard_CheckHealth_def Let_def
  by (auto split: prod.splits if_splits option.splits dest: run_untouched)

lemma mtproto_health_untouched:
  assumes "mtproto_CheckHealth E L path n = (r, n')"
  shows "untouched P n n'"
proof -
  obtain a n1 where a: "os_ReadFile E (TrimSpace path) n = (a, n1)" by fastforce
  note u = read_untouched [OF a]
  show ?thesis
    using assms a u untouched.frame_trans [OF u tcp_check_untouched]
    by (cases a) (auto simp: mtproto_CheckHealth_def split: option.splits)
qed

lemma h2_poll_untouched:
  assumes "quiet P E"
  shows "(case h2_poll E ss port deadline t n of H2_done e n' \<Rightarrow> untouched P n n' | H2_again t' n' \<Rightarrow> untouched P n n')"
proof -
  obtain x out n1 where a: "run_before E deadline ss [''-H'', ''-lunp''] n = ((x, out), n1)" by (metis prod.exhaust)
  have "untouched P n n1" using a run_untouched [OF assms] by (auto simp: run_before_def untouched_refl split: if_splits)
  then show ?thesis using now_untouched unfolding h2_poll_def a Let_def prod.case by simp
qed

lemma h2_loop_untouched: "quiet P E \<Longrightarrow> h2_loop E ss port deadline t n = (r, n') \<Longrightarrow> untouched P n n'"
proof (induction E ss port deadline t n rule: h2_loop.induct)
  case (1 E ss port deadline t n)
  note poll = h2_poll_untouched [OF "1.prems"(1), where ss = ss and port = port and deadline = deadline and t = t and n = n]
  show ?case
  proof (cases "h2_poll E ss port deadline t n")
    case (H2_done e m)
    then show ?thesis using "1.prems"(2) poll by (simp add: h2_loop.simps [of E ss port deadline t n])
  next
    case (H2_again t' m)
    then have "h2_loop E ss port deadline t' m = (r, n')" using "1.prems"(2) by (simp add: h2_loop.simps [of E ss port deadline t n])
    then have "untouched P m n'" using "1.IH" [OF H2_again "1.prems"(1)] by simp
    then show ?thesis using poll H2_again untouched.frame_trans by auto
  qed
qed

lemma hysteria2_health_untouched:
  assumes "quiet P E" "hysteria2_CheckHealth E L ss path n = (r, n')"
  shows "untouched P n n'"
proof -
  obtain a n1 where a: "os_ReadFile E (TrimSpace path) n = (a, n1)" by fastforce
  note u = read_untouched [OF a]
  show ?thesis
    using assms(2) a u untouched.frame_trans [OF u h2_loop_untouched [OF assms(1)]]
    by (cases a) (auto simp: hysteria2_CheckHealth_def Let_def split: option.splits prod.splits)
qed

section \<open>Staging\<close>

definition staged_path :: "AgentConfig \<Rightarrow> string \<Rightarrow> ConfigTask \<Rightarrow> string" where
  "staged_path C c t =
     (if c = ''wireguard'' then filepath_Join (TrimSpace (gc_wg_staging C)) (ct_version t @ ''.conf'')
      else if c = ''hysteria'' then filepath_Join (TrimSpace (gc_h2_staging C)) (ct_version t @ ''.json'')
      else if c = ''mtg'' then filepath_Join (TrimSpace (gc_mt_staging C)) (ct_version t @ ''.toml'')
      else filepath_Join (gc_staging C) (ct_version t @ ''.json''))"

lemma keeps_commit: "keeps (untouched {path, path @ ''.tmp''}) (commit_staged E path content t)"
  unfolding commit_staged_def os_WriteFile_def
  by (intro untouched.keeps_andThen keeps_wrapping keeps_sys_call keeps_sys_write keeps_or_remove keeps_Rename untouched.keeps_ok)
     simp_all

lemma commit_Inr:
  assumes "commit_staged E path content t n = (Inr s, n')"
  shows "sr_path s = path \<and> hs_files n' path \<noteq> None \<and> sr_version s = ct_version t"
proof -
  obtain n1 where "os_Rename E (path @ ''.tmp'') path n1 = (Inr (), n')" "s = \<lparr>sr_path = path, sr_hash = ct_hash t, sr_version = ct_version t\<rparr>"
    using assms unfolding commit_staged_def andThen_Inr wrapping_Inr or_remove_Inr ok_Inr by force
  then show ?thesis by (auto dest!: Rename_Inr)
qed

lemma Stager_stage:
  assumes "Stager_Stage E L dir t n = (r, n')"
  shows "untouched {filepath_Join dir (ct_version t @ ''.json''), filepath_Join dir (ct_version t @ ''.json'') @ ''.tmp''} n n'"
    "r = Inr s \<Longrightarrow> sr_path s = filepath_Join dir (ct_version t @ ''.json'') \<and> hs_files n' (filepath_Join dir (ct_version t @ ''.json'')) \<noteq> None \<and> sr_version s = ct_version t"
  using assms keepsD [OF keeps_commit] commit_Inr
  by (auto simp: Stager_Stage_def fail_def untouched_refl split: if_splits option.splits sum.splits)

lemma section_stage:
  assumes "stage_section E section parses dir ext t n = (r, n')"
  shows "untouched {filepath_Join dir (ct_version t @ ext), filepath_Join dir (ct_version t @ ext) @ ''.tmp''} n n'"
    "r = Inr s \<Longrightarrow> sr_path s = filepath_Join dir (ct_version t @ ext) \<and> hs_files n' (filepath_Join dir (ct_version t @ ext)) \<noteq> None \<and> sr_version s = ct_version t"
  using assms keepsD [OF keeps_commit] commit_Inr
  by (auto simp: stage_section_def fail_def untouched_refl split: if_splits option.splits prod.splits)

section \<open>The adapters of the Agent\<close>

definition agent_adapters :: "host_env \<Rightarrow> agent_lib \<Rightarrow> AgentConfig \<Rightarrow> VPNCoreAdapter list" where
  "agent_adapters E L C =
     [NewSingBoxVLESSAdapter E L C, NewWireGuardAdapter E C, NewHysteria2Adapter E L C, NewSingBoxShadowsocksAdapter E L C,
      NewMTProtoAdapter E L C]"

lemmas adapter_defs = NewSingBoxVLESSAdapter_def NewWireGuardAdapter_def NewHysteria2Adapter_def NewSingBoxShadowsocksAdapter_def
  NewMTProtoAdapter_def singbox_adapter_def core_adapter_def

lemma adapter_cores:
  "core_of (NewSingBoxVLESSAdapter E L C) = ''sing-box''" "core_of (NewWireGuardAdapter E C) = ''wireguard''"
  "core_of (NewHysteria2Adapter E L C) = ''hysteria''" "core_of (NewSingBoxShadowsocksAdapter E L C) = ''sing-box''"
  "core_of (NewMTProtoAdapter E L C) = ''mtg''"
  by (simp_all add: adapter_defs ManagedVPNCoreAdapters_def)

lemma agent_adapter_cases:
  assumes "a \<in> set (agent_adapters E L C)"
  obtains "a = NewSingBoxVLESSAdapter E L C" | "a = NewWireGuardAdapter E C" | "a = NewHysteria2Adapter E L C"
    | "a = NewSingBoxShadowsocksAdapter E L C" | "a = NewMTProtoAdapter E L C"
  using assms by (auto simp: agent_adapters_def)

lemma agent_stage:
  assumes "a \<in> set (agent_adapters E L C)" "ca_Stage a t n = (r, n')"
  shows "untouched {staged_path C (core_of a) t, staged_path C (core_of a) t @ ''.tmp''} n n'"
    "r = Inr s \<Longrightarrow> sr_path s = staged_path C (core_of a) t \<and> hs_files n' (staged_path C (core_of a) t) \<noteq> None \<and> sr_version s = ct_version t"
proof -
  have "untouched {staged_path C (core_of a) t, staged_path C (core_of a) t @ ''.tmp''} n n'
      \<and> (\<forall>s. r = Inr s \<longrightarrow> sr_path s = staged_path C (core_of a) t \<and> hs_files n' (staged_path C (core_of a) t) \<noteq> None \<and> sr_version s = ct_version t)"
    using assms(1)
  proof (cases rule: agent_adapter_cases)
    case 1
    have run: "Stager_Stage E L (gc_staging C) t n = (r, n')" using assms(2) 1 by (simp add: adapter_defs)
    show ?thesis using Stager_stage [OF run] by (simp add: 1 adapter_cores staged_path_def)
  next
    case 2
    have run: "stage_section E ''wireGuard'' (\<lambda>s. parseWireGuardConfig s \<noteq> None) (TrimSpace (gc_wg_staging C)) ''.conf'' t n = (r, n')" using assms(2) 2 by (simp add: adapter_defs)
    show ?thesis using section_stage [OF run] by (simp add: 2 adapter_cores staged_path_def)
  next
    case 3
    have run: "stage_section E ''hysteria2'' (\<lambda>s. parseHysteria2Config L s \<noteq> None) (TrimSpace (gc_h2_staging C)) ''.json'' t n = (r, n')" using assms(2) 3 by (simp add: adapter_defs)
    show ?thesis using section_stage [OF run] by (simp add: 3 adapter_cores staged_path_def)
  next
    case 4
    have run: "Stager_Stage E L (gc_staging C) t n = (r, n')" using assms(2) 4 by (simp add: adapter_defs)
    show ?thesis using Stager_stage [OF run] by (simp add: 4 adapter_cores staged_path_def)
  next
    case 5
    have run: "stage_section E ''mtproto'' (\<lambda>s. parseMTProtoConfig (al_lib L) s \<noteq> None) (TrimSpace (gc_mt_staging C)) ''.toml'' t n = (r, n')" using assms(2) 5 by (simp add: adapter_defs)
    show ?thesis using section_stage [OF run] by (simp add: 5 adapter_cores staged_path_def)
  qed
  then show "untouched {staged_path C (core_of a) t, staged_path C (core_of a) t @ ''.tmp''} n n'"
    "r = Inr s \<Longrightarrow> sr_path s = staged_path C (core_of a) t \<and> hs_files n' (staged_path C (core_of a) t) \<noteq> None \<and> sr_version s = ct_version t"
    by auto
qed

lemma agent_validate:
  assumes "quiet P E" "a \<in> set (agent_adapters E L C)" "ca_Validate a path n = (v, n')"
  shows "untouched (P \<union> private_copies E) n n'"
  using assms(2)
proof (cases rule: agent_adapter_cases)
  case 2
  then show ?thesis using assms(3) wireguard_Validate_untouched [OF assms(1)] by (simp add: adapter_defs)
qed (use assms(3) untouched_mono [OF singbox_Validate_untouched [OF assms(1)] Un_upper1]
    untouched_mono [OF version_Validate_untouched [OF assms(1)] Un_upper1] in \<open>simp_all add: adapter_defs\<close>)

lemma agent_service:
  assumes "quiet P E" "a \<in> set (agent_adapters E L C)" "m \<in> {ca_Restart a, ca_Stop a, ca_IsActive a, ca_IsEnabled a}" "m n = (sv, n')"
  shows "untouched P n n'"
proof -
  have "\<exists>service. m \<in> {Service_Restart E service, Service_Stop E service, Service_IsActive E service, Service_IsEnabled E service}"
    using assms(2)
    by (cases rule: agent_adapter_cases) (use assms(3) in \<open>simp_all add: adapter_defs, blast+\<close>)
  then obtain service where "m \<in> {Service_Restart E service, Service_Stop E service, Service_IsActive E service, Service_IsEnabled E service}"
    by blast
  then show ?thesis using assms(4) by (rule service_untouched [OF assms(1)])
qed

lemma agent_health:
  assumes "quiet P E" "a \<in> set (agent_adapters E L C)" "ca_CheckHealth a path n = (l, n')"
  shows "untouched P n n'"
  using assms(2)
  by (cases rule: agent_adapter_cases)
     (use assms(3) singbox_health_untouched wireguard_health_untouched [OF assms(1)] hysteria2_health_untouched [OF assms(1)]
        mtproto_health_untouched in \<open>simp_all add: adapter_defs\<close>)

lemma agent_core_named: "a \<in> set (agent_adapters E L C) \<Longrightarrow> core_of a \<in> set core_names"
  by (elim agent_adapter_cases) (simp_all add: adapter_cores core_names_def)

interpretation agent: managed_cores "{a. quiet T E \<and> a \<in> set (agent_adapters E L C)}" "staged_path C" "T \<union> private_copies E"
  for T :: "string set" and E :: host_env and L :: agent_lib and C :: AgentConfig
proof (unfold_locales, goal_cases)
  case (1 a)
  then show ?case using agent_core_named by blast
next
  case (2 a t n r n')
  then show ?case using agent_stage(1) by blast
next
  case (3 a t n s n')
  then show ?case using agent_stage(2) by blast
next
  case (4 a path n v n')
  then show ?case using agent_validate by blast
next
  case (5 a m n sv n')
  then have "untouched T n n'" using agent_service by blast
  then show ?case by (rule untouched_mono) simp
next
  case (6 a path n l n')
  then have "untouched T n n'" using agent_health by blast
  then show ?case by (rule untouched_mono) simp
qed

section \<open>The task\<close>

lemma select_adapters_sound:
  "select_adapters vless candidates ds seen = Inr as \<Longrightarrow>
     set as \<subseteq> set_option vless \<union> set candidates \<and> distinct (map core_of as) \<and> core_of ` set as \<inter> set seen = {}"
proof (induction ds arbitrary: seen as)
  case (Cons d ds)
  obtain a where a: "(if TrimSpace (rv_core d) = [] then vless else find (manages d) candidates) = Some a"
    using Cons.prems by (auto split: option.splits)
  have mem: "a \<in> set_option vless \<union> set candidates" using a by (auto split: if_splits dest: find_SomeD)
  show ?case
  proof (cases "core_of a \<in> set seen")
    case True
    then show ?thesis using Cons.prems Cons.IH a by simp
  next
    case False
    then obtain as' where as': "select_adapters vless candidates ds (core_of a # seen) = Inr as'" "as = a # as'"
      using Cons.prems a by (auto split: sum.splits)
    then show ?thesis using Cons.IH [OF as'(1)] mem False by auto
  qed
qed simp

definition selected_adapters_of :: "host_env \<Rightarrow> agent_lib \<Rightarrow> AgentConfig \<Rightarrow> ConfigTask \<Rightarrow> agent_error + VPNCoreAdapter list" where
  "selected_adapters_of E L C t =
     SelectVPNCoreAdapters t (Some (NewSingBoxVLESSAdapter E L C))
       [Some (NewWireGuardAdapter E C), Some (NewHysteria2Adapter E L C), Some (NewSingBoxShadowsocksAdapter E L C),
        Some (NewMTProtoAdapter E L C)]"

lemma selected_sound:
  assumes "selected_adapters_of E L C t = Inr as"
  shows "set as \<subseteq> set (agent_adapters E L C)" "distinct (map core_of as)"
proof -
  obtain ds where "select_adapters (Some (NewSingBoxVLESSAdapter E L C)) (agent_adapters E L C) ds [] = Inr as"
    using assms by (auto simp: selected_adapters_of_def SelectVPNCoreAdapters_def agent_adapters_def map_filter_simps
        split: option.splits sum.splits if_splits)
  from select_adapters_sound [OF this] show "set as \<subseteq> set (agent_adapters E L C)" "distinct (map core_of as)"
    by (auto simp: agent_adapters_def)
qed

lemma post_report_fields:
  "hs_files (snd (post_report E r n)) = hs_files n" "hs_reports (snd (post_report E r n)) = hs_reports n @ [r]"
  by (simp_all add: post_report_def)

lemma failure_report:
  assumes "completeConfigApplyFailure E t cause ps stage n = (res, n')"
  shows "\<exists>rep. hs_reports n' = hs_reports n @ [rep] \<and> tr_task rep = ct_id t \<and> tr_error rep = Some cause \<and> hs_files n' = hs_files n"
  using assms by (auto simp: completeConfigApplyFailure_def post_report_def multiConfigApplyReport_def)

text \<open>C39. A configuration task ends with one report, handed to the client that posts it.  If it reports success, the active file of every runtime it
  lists is the file that was staged for it and no other runtime changed.  If it reports a failure, every active
  file of the node is what it was before the task, unless the report says that the rollback failed too.  This holds
  for every fault of the file system, of a command, of a check, and of the report itself, as long as the tools and
  services write none of the files the Agent manages and the configured paths do not overlap.\<close>

theorem apply_all_or_nothing:
  assumes "quiet T E" "layout_ok (T \<union> private_copies E) C (staged_path C) t"
    and run: "processConfigApplyTask E L C t n = (res, n')"
  shows "\<exists>rep. hs_reports n' = hs_reports n @ [rep] \<and> tr_task rep = ct_id t
    \<and> (case tr_error rep of
         None \<Rightarrow>
           (\<forall>m \<in> set (tr_components rep). hs_files n' (active_path C (cm_core m)) = hs_files n' (cm_staged m) \<and> hs_files n' (cm_staged m) \<noteq> None)
           \<and> (\<forall>c \<in> set core_names. c \<notin> cm_core ` set (tr_components rep) \<longrightarrow> hs_files n' (active_path C c) = hs_files n (active_path C c))
       | Some e \<Rightarrow> rollback_of e \<noteq> Some ''failed'' \<longrightarrow>
           (\<forall>c \<in> set core_names. hs_files n' (active_path C c) = hs_files n (active_path C c)))"
proof (cases "selected_adapters_of E L C t")
  case (Inl e)
  then have "completeConfigApplyFailure E t e [] ''select'' n = (res, n')"
    using run by (simp add: processConfigApplyTask_def selected_adapters_of_def)
  from failure_report [OF this] show ?thesis by force
next
  case (Inr as)
  obtain r ps n1 where a: "apply_config E C t as n = ((r, ps), n1)" by (metis prod.exhaust)
  have sub: "set as \<subseteq> {a. quiet T E \<and> a \<in> set (agent_adapters E L C)}" using selected_sound(1) [OF Inr] assms(1) by auto
  note spec = agent.apply_config_spec [OF assms(2) sub selected_sound(2) [OF Inr] a]
  show ?thesis
  proof (cases r)
    case (Inl f)
    obtain stage cause where f: "f = (stage, cause)" by fastforce
    have "completeConfigApplyFailure E t cause ps stage n1 = (res, n')"
      using run Inr Inl a f by (simp add: processConfigApplyTask_def selected_adapters_of_def)
    from failure_report [OF this] show ?thesis using spec Inl f by auto
  next
    case Ok: (Inr status)
    let ?rep = "multiConfigApplyReport t ps status"
    have n': "n' = snd (post_report E ?rep n1)"
      using run Inr Ok a by (auto simp: processConfigApplyTask_def selected_adapters_of_def split: prod.splits)
    have cores: "cm_core ` set (tr_components ?rep) = core_of ` set as"
      using arg_cong [OF conjunct1 [OF conjunct2 [OF spec, unfolded Ok sum.case]], of set]
      by (simp add: multiConfigApplyReport_def component_of_def image_image)
    have each: "hs_files n1 (active_path C (cm_core m)) = hs_files n1 (cm_staged m) \<and> hs_files n1 (cm_staged m) \<noteq> None"
      if "m \<in> set (tr_components ?rep)" for m
      using that spec Ok by (auto simp: multiConfigApplyReport_def component_of_def fits_def promoted_def)
    have same: "hs_files n' = hs_files n1" "hs_reports n' = hs_reports n @ [?rep]"
      using spec by (simp_all add: n' post_report_fields)
    have others: "\<forall>c \<in> set core_names. c \<notin> core_of ` set as \<longrightarrow> hs_files n1 (active_path C c) = hs_files n (active_path C c)"
      using spec Ok by simp
    have rep: "tr_error ?rep = None" "tr_task ?rep = ct_id t" by (simp_all add: multiConfigApplyReport_def)
    show ?thesis
      using each others by (intro exI [of _ ?rep]) (simp only: same rep cores option.case, blast)
  qed
qed

section \<open>A node with the default paths\<close>

definition xa_env :: host_env where
  "xa_env = \<lparr>he_fault = (\<lambda>k. k = 7), he_torn = (\<lambda>_. Untouched), he_temp = (\<lambda>_. ''/tmp/routegate-wg-validate-1''),
     he_run = (\<lambda>name args n. ((Exited, [], 20),
       if name = ''systemctl'' \<and> hd args = ''enable'' then set_file (''/etc/systemd/system/'' @ last args) (Some []) n else n)), he_dial = (\<lambda>_ _. (True, 1)), he_tls = (\<lambda>_ _. (Tls_ok, 5)),
     he_late_tick = (\<lambda>_. False), he_posted = (\<lambda>_. True)\<rparr>"

definition xa_lib :: agent_lib where
  "xa_lib = \<lparr>al_indent = (\<lambda>_. ''{}''), al_json = (\<lambda>_. Some (JObj [])), al_h2 = (\<lambda>_. H2_malformed),
     al_lib = \<lparr>l_quote = id, l_unquote = Some, l_mail = Some, l_url = Some, l_x25519 = id, l_range = id\<rparr>\<rparr>"

definition xa_config :: AgentConfig where
  "xa_config =
     \<lparr>gc_staging = ''/var/lib/routegate-agent/configs'', gc_active = ''/etc/sing-box/config.json'',
      gc_backup = ''/var/lib/routegate-agent/backups'', gc_sing_box = ''sing-box'', gc_service = ''sing-box'',
      gc_service_control = True,
      gc_wg_staging = ''/var/lib/routegate-agent/wireguard-configs'', gc_wg_active = ''/etc/wireguard/routegate-wg0.conf'',
      gc_wg_backup = ''/var/lib/routegate-agent/wireguard-backups'', gc_wg_quick = ''wg-quick'', gc_wg = ''wg'',
      gc_wg_service = ''wg-quick@routegate-wg0'', gc_wg_interface = ''routegate-wg0'',
      gc_h2_staging = ''/var/lib/routegate-agent/hysteria2-configs'', gc_h2_active = ''/etc/hysteria/config.json'',
      gc_h2_backup = ''/var/lib/routegate-agent/hysteria2-backups'', gc_hysteria = ''hysteria'',
      gc_h2_service = ''hysteria-server'', gc_ss = ''ss'',
      gc_mt_staging = ''/var/lib/routegate-agent/mtproto-configs'', gc_mt_active = ''/etc/routegate-mtproto/config.toml'',
      gc_mt_backup = ''/var/lib/routegate-agent/mtproto-backups'', gc_mtg = ''mtg'', gc_mt_service = ''routegate-mtproto''\<rparr>"

definition xa_task :: ConfigTask where
  "xa_task = \<lparr>ct_id = ''job'', ct_kind = [], ct_server = ''s'', ct_agent = ''a'', ct_version = ''v1'', ct_action = [],
     ct_operation = [], ct_status = ''queued'', ct_rendered = Some (JObj []), ct_hash = ''h''\<rparr>"

definition xa_host :: host where
  "xa_host = \<lparr>hs_files = [''/etc/sing-box/config.json'' \<mapsto> ''old''], hs_calls = 0, hs_now = 0, hs_reports = []\<rparr>"

lemma xa_trim:
  "TrimSpace ''v1'' = ''v1''" "TrimSpace ''/var/lib/routegate-agent/wireguard-configs'' = ''/var/lib/routegate-agent/wireguard-configs''"
  "TrimSpace ''/var/lib/routegate-agent/hysteria2-configs'' = ''/var/lib/routegate-agent/hysteria2-configs''"
  "TrimSpace ''/var/lib/routegate-agent/mtproto-configs'' = ''/var/lib/routegate-agent/mtproto-configs''"
  by (rule TrimSpace_edges; simp add: space_byte_def)+

lemma xa_footprint:
  "footprint xa_config (staged_path xa_config) xa_task ''sing-box'' =
     [''/etc/sing-box/config.json'', ''/etc/sing-box/config.json.tmp'',
      ''/var/lib/routegate-agent/backups/v1.previous.json'', ''/var/lib/routegate-agent/backups/v1.previous.json.tmp'',
      ''/var/lib/routegate-agent/configs/v1.json'', ''/var/lib/routegate-agent/configs/v1.json.tmp'']"
  "footprint xa_config (staged_path xa_config) xa_task ''wireguard'' =
     [''/etc/wireguard/routegate-wg0.conf'', ''/etc/wireguard/routegate-wg0.conf.tmp'',
      ''/var/lib/routegate-agent/wireguard-backups/v1.previous.json'', ''/var/lib/routegate-agent/wireguard-backups/v1.previous.json.tmp'',
      ''/var/lib/routegate-agent/wireguard-configs/v1.conf'', ''/var/lib/routegate-agent/wireguard-configs/v1.conf.tmp'']"
  "footprint xa_config (staged_path xa_config) xa_task ''hysteria'' =
     [''/etc/hysteria/config.json'', ''/etc/hysteria/config.json.tmp'',
      ''/var/lib/routegate-agent/hysteria2-backups/v1.previous.json'', ''/var/lib/routegate-agent/hysteria2-backups/v1.previous.json.tmp'',
      ''/var/lib/routegate-agent/hysteria2-configs/v1.json'', ''/var/lib/routegate-agent/hysteria2-configs/v1.json.tmp'']"
  "footprint xa_config (staged_path xa_config) xa_task ''mtg'' =
     [''/etc/routegate-mtproto/config.toml'', ''/etc/routegate-mtproto/config.toml.tmp'',
      ''/var/lib/routegate-agent/mtproto-backups/v1.previous.json'', ''/var/lib/routegate-agent/mtproto-backups/v1.previous.json.tmp'',
      ''/var/lib/routegate-agent/mtproto-configs/v1.toml'', ''/var/lib/routegate-agent/mtproto-configs/v1.toml.tmp'']"
  by (simp_all add: footprint_def active_path_def kept_path_def adapterStorage_def staged_path_def previous_path_def xa_config_def
      xa_task_def xa_trim filepath_Join_def filepath_Clean_def Let_def)

definition xa_units :: "string set" where
  "xa_units = {''/etc/systemd/system/'' @ unit | unit. True}"

lemma xa_quiet: "quiet xa_units xa_env"
  by (auto simp: quiet_def xa_env_def untouched_def xa_units_def)

lemma xa_copies: "private_copies xa_env = {''/tmp/routegate-wg-validate-1/routegate-wg0.conf''}"
  by (auto simp: private_copies_def xa_env_def filepath_Join_def filepath_Clean_def Let_def)

lemma xa_layout: "layout_ok (xa_units \<union> private_copies xa_env) xa_config (staged_path xa_config) xa_task"
proof -
  let ?ps = "concat (map (footprint xa_config (staged_path xa_config) xa_task) core_names)"
  have "distinct ?ps" by (simp add: core_names_def xa_footprint)
  moreover have "TrimSpace p = p \<and> p \<noteq> [] \<and> p \<notin> xa_units \<union> private_copies xa_env" if "p \<in> set ?ps" for p
  proof -
    have "p \<noteq> [] \<and> \<not> space_byte (hd p) \<and> \<not> space_byte (last p)" "p \<notin> xa_units \<union> private_copies xa_env"
      using that by (auto simp: core_names_def xa_footprint space_byte_def xa_units_def xa_copies)
    then show ?thesis using TrimSpace_edges by blast
  qed
  ultimately show ?thesis by (auto simp: layout_ok_def list_all_iff)
qed

lemma apply_all_or_nothing_witness:
  "\<exists>rep. hs_reports (snd (processConfigApplyTask xa_env xa_lib xa_config xa_task xa_host)) = [rep] \<and> tr_task rep = ''job''
     \<and> (\<forall>e. tr_error rep = Some e \<longrightarrow> rollback_of e \<noteq> Some ''failed'' \<longrightarrow>
          hs_files (snd (processConfigApplyTask xa_env xa_lib xa_config xa_task xa_host)) ''/etc/sing-box/config.json'' = Some ''old'')"
proof -
  from apply_all_or_nothing [OF xa_quiet xa_layout prod.collapse [symmetric], of xa_lib xa_host]
  show ?thesis by (auto simp: xa_task_def xa_host_def core_names_def active_path_def adapterStorage_def xa_config_def)
qed

end
