(* ===== verification/Agent_Accepts.thy ===== *)
theory Agent_Accepts
  imports Agent_Contract Config_Validity
begin

text \<open>
  The Manager and the Agent together: the configuration the Manager renders for a node with sound settings is
  accepted by the Agent, whose parsers and whose choice of adapters are separate code.
\<close>

section \<open>The parsers of the Manager and of the Agent\<close>

declare ToLower.simps [simp del] fold_key.simps [simp del]

lemma Split_at_parts: "x \<in> set (Split_at d s) \<Longrightarrow> set x \<subseteq> set s - {d}"
proof (induction d s arbitrary: x rule: Split_at.induct)
  case (2 d c s)
  then show ?case by (fastforce split: list.splits if_splits)
qed simp

lemma Cut_value: "Cut d s = Some (k, v) \<Longrightarrow> set v \<subseteq> set s"
  by (induction d s arbitrary: k v rule: Cut.induct) (auto split: if_splits)

lemma hooks_same: "agent_hook ''A'' n = wireGuardPostUp n" "agent_hook ''D'' n = wireGuardPostDown n"
  by (simp_all add: agent_hook_def wireGuardPostUp_def wireGuardPostDown_def)

lemma keys_same: "validateWireGuardKey = ValidateKey"
  by (simp add: fun_eq_iff validateWireGuardKey_def ValidateKey_def)

text \<open>What the state of the Agent's parser says about the state of the Manager's.\<close>

definition same_parse :: "wg_parse \<Rightarrow> agent_wg \<Rightarrow> bool" where
  "same_parse m a \<longleftrightarrow> aw_section a = wp_section m \<and> aw_interface a = wp_interface m \<and> aw_peer a = wp_peer m
     \<and> aw_peers a = length (wp_peers m)"

definition agrees :: "cfg_error + wg_parse \<Rightarrow> agent_wg option \<Rightarrow> bool" where
  "agrees x y \<longleftrightarrow> (case x of Inl _ \<Rightarrow> y = None | Inr m \<Rightarrow> (\<exists>a. y = Some a \<and> same_parse m a))"

lemma flush_agrees: "same_parse m a \<Longrightarrow> agrees (flushPeer m) (agent_flushPeer a)"
  by (auto simp: same_parse_def agrees_def flushPeer_def agent_flushPeer_def keys_same split: option.splits prod.splits addr.splits)

lemma line_agrees:
  assumes "same_parse m a" "CHR 0x0D \<notin> set raw" "newline \<notin> set raw"
  shows "agrees (wg_line raw m) (agent_wg_line raw a)"
proof -
  have clean: "CHR 0x0D \<notin> set (TrimSpace v) \<and> newline \<notin> set (TrimSpace v)" if "Cut CHR ''='' (TrimSpace raw) = Some (k, v)" for k v
    using TrimSpace_sub [of v] Cut_value [OF that] TrimSpace_sub [of raw] assms(2,3) by blast
  have s: "aw_section a = wp_section m" using assms(1) by (simp add: same_parse_def)
  show ?thesis
  proof (cases "TrimSpace raw = ''[Peer]''")
    case True
    then show ?thesis using flush_agrees [OF assms(1)]
      by (auto simp: wg_line_def agent_wg_line_def agrees_def same_parse_def split: sum.splits)
  next
    case False
    then show ?thesis
      using assms(1) clean by (auto simp: wg_line_def agent_wg_line_def agrees_def same_parse_def Let_def split: option.splits)
  qed
qed

lemma lines_agree:
  assumes "\<forall>l \<in> set ls. CHR 0x0D \<notin> set l \<and> newline \<notin> set l" "same_parse m a"
  shows "agrees (wg_lines ls m) (agent_wg_lines ls a)"
  using assms
proof (induction ls arbitrary: m a)
  case Nil
  then show ?case by (simp add: agrees_def)
next
  case (Cons l ls)
  then have l: "agrees (wg_line l m) (agent_wg_line l a)" by (intro line_agrees) auto
  show ?case
  proof (cases "wg_line l m")
    case (Inl e)
    then show ?thesis using l by (simp add: agrees_def)
  next
    case (Inr m')
    then obtain a' where "agent_wg_line l a = Some a'" "same_parse m' a'" using l by (auto simp: agrees_def)
    then show ?thesis using Cons Inr by simp
  qed
qed

lemma finish_agrees: "same_parse m a \<Longrightarrow> agent_wg_finish a = None \<longleftrightarrow> (\<exists>e. wg_finish m = Inl e)"
  by (auto simp: same_parse_def agent_wg_finish_def wg_finish_def keys_same hooks_same Let_def split: option.splits prod.splits addr.splits)

text \<open>Without carriage returns the two WireGuard parsers accept the same texts.\<close>

lemma wireguard_parsers_agree:
  assumes "CHR 0x0D \<notin> set payload"
  shows "parseWireGuardConfig payload = None \<longleftrightarrow> (\<exists>e. parseWireGuardServerConfig payload = Inl e)"
proof -
  let ?ls = "Split_at newline (TrimSpace payload)"
  let ?m = "\<lparr>wp_section = [], wp_interface = [], wp_peer = [], wp_peers = []\<rparr>"
  let ?a = "\<lparr>aw_section = [], aw_interface = [], aw_peer = [], aw_peers = 0\<rparr>"
  have "\<forall>l \<in> set ?ls. CHR 0x0D \<notin> set l \<and> newline \<notin> set l"
    using Split_at_parts [of _ newline "TrimSpace payload"] TrimSpace_sub [of payload] assms by blast
  then have l: "agrees (wg_lines ?ls ?m) (agent_wg_lines ?ls ?a)" by (rule lines_agree) (simp add: same_parse_def)
  show ?thesis
  proof (cases "wg_lines ?ls ?m")
    case (Inl e)
    then show ?thesis using l by (simp add: agrees_def parseWireGuardConfig_def parseWireGuardServerConfig_def)
  next
    case (Inr m)
    then obtain a where a: "agent_wg_lines ?ls ?a = Some a" "same_parse m a" using l by (auto simp: agrees_def)
    note f = flush_agrees [OF a(2)]
    show ?thesis
    proof (cases "flushPeer m")
      case (Inl e)
      then show ?thesis using f a Inr by (simp add: agrees_def parseWireGuardConfig_def parseWireGuardServerConfig_def)
    next
      case (Inr m')
      then obtain a' where a': "agent_flushPeer a = Some a'" "same_parse m' a'" using f by (auto simp: agrees_def)
      show ?thesis
        using finish_agrees [OF a'(2)] a a' Inr \<open>wg_lines ?ls ?m = Inr m\<close>
        by (simp add: parseWireGuardConfig_def parseWireGuardServerConfig_def)
    qed
  qed
qed

lemma mt_secret_same: "agent_mt_secret = validMTProtoSecret"
  by (auto simp: fun_eq_iff agent_mt_secret_def validMTProtoSecret_def Let_def split: option.splits)

lemma mt_lines_agree: "agent_mt_lines ls m = (case mt_lines ls m of Inl _ \<Rightarrow> None | Inr r \<Rightarrow> Some r)"
  by (induction ls arbitrary: m) (auto simp: Let_def split: option.splits)

lemma mt_finish_agrees: "agent_mt_finish L m = None \<longleftrightarrow> (\<exists>e. mt_finish L m = Inl e)"
  by (auto simp: agent_mt_finish_def mt_finish_def mt_secret_same Let_def split: option.splits)

lemma mtproto_parsers_agree: "parseMTProtoConfig L payload = None \<longleftrightarrow> (\<exists>e. parseMTProtoServerConfig L payload = Inl e)"
  using mt_finish_agrees by (auto simp: parseMTProtoConfig_def parseMTProtoServerConfig_def mt_lines_agree split: sum.splits)

lemma hysteria2_checks_agree: "agent_h2_check L h \<longleftrightarrow> h2_check L h = None \<and> h2_userpass h \<noteq> []"
  unfolding agent_h2_check_def h2_check_def validHysteria2ACMEListener_def usesHysteria2ACMEBridge_def
  by (cases "Atoi (TrimPrefix (h2_listen h) '':'')") (auto simp: not_less split: if_splits)

section \<open>The configuration on the wire\<close>

text \<open>What \<open>encoding/json\<close> makes of the parts the Agent reads or ignores: the sing-box section, the text of a
  Hysteria2 configuration, and the other members.\<close>

record wire =
  wi_singbox :: "SingBoxConfig \<Rightarrow> json"
  wi_h2 :: "hysteria2ServerConfig \<Rightarrow> string"
  wi_other :: "string \<Rightarrow> RenderedConfig \<Rightarrow> json"

text \<open>Decoding what was encoded gives it back, and the text of an object is not blank.\<close>

definition wire_law :: "wire \<Rightarrow> agent_lib \<Rightarrow> RenderedConfig \<Rightarrow> bool" where
  "wire_law W A c \<longleftrightarrow>
     (case rc_hysteria2 c of H2 h \<Rightarrow> al_h2 A (TrimSpace (wi_h2 W h)) = H2 h \<and> TrimSpace (wi_h2 W h) \<noteq> [] | _ \<Rightarrow> True)"

definition core_json :: "ConfigVPNCore \<Rightarrow> json" where
  "core_json v = JObj [(''core'', JStr (vc_core v)), (''protocol'', JStr (vc_protocol v)), (''transport'', JStr (vc_transport v)),
     (''security'', JStr (vc_security v))]"

definition metadata_json :: "wire \<Rightarrow> RenderedConfig \<Rightarrow> json" where
  "metadata_json W c =
     (let m = rc_metadata c in
      JObj ((if md_empty_users m then [(''transferEmptyUsers'', JBool True)] else [])
        @ [(''source'', JStr (md_source m)), (''renderedAt'', wi_other W ''renderedAt'' c), (''realityEnabled'', JBool (md_reality m)),
           (''vpnCore'', core_json (md_core m))]
        @ (if md_cores m = [] then [] else [(''vpnCores'', JArr (map core_json (md_cores m)))])))"

definition h2_value :: "wire \<Rightarrow> h2_text \<Rightarrow> string" where
  "h2_value W t = (case t of H2 h \<Rightarrow> wi_h2 W h | _ \<Rightarrow> [])"

definition text_member :: "string \<Rightarrow> string \<Rightarrow> (string \<times> json) list" where
  "text_member k s = (if s = [] then [] else [(k, JStr s)])"

definition rendered_members :: "wire \<Rightarrow> RenderedConfig \<Rightarrow> (string \<times> json) list" where
  "rendered_members W c =
     [(''schemaVersion'', JStr (rc_schema c)), (''server'', wi_other W ''server'' c)]
     @ (if rc_agent c = None then [] else [(''agent'', wi_other W ''agent'' c)])
     @ [(''vpnAccounts'', wi_other W ''vpnAccounts'' c)]
     @ (if rc_routing c = None then [] else [(''routingProfile'', wi_other W ''routingProfile'' c)])
     @ [(''singBox'', wi_singbox W (rc_singbox c))]
     @ text_member ''wireGuard'' (rc_wireguard c) @ text_member ''hysteria2'' (h2_value W (rc_hysteria2 c))
     @ text_member ''mtproto'' (rc_mtproto c) @ [(''metadata'', metadata_json W c)]"

lemma wire_names [simp]:
  "fold_key ''schemaVersion'' = ''schemaversion''" "fold_key ''server'' = ''server''" "fold_key ''agent'' = ''agent''"
  "fold_key ''vpnAccounts'' = ''vpnaccounts''" "fold_key ''routingProfile'' = ''routingprofile''" "fold_key ''singBox'' = ''singbox''"
  "fold_key ''wireGuard'' = ''wireguard''" "fold_key ''metadata'' = ''metadata''" "fold_key ''transferEmptyUsers'' = ''transferemptyusers''"
  "fold_key ''source'' = ''source''" "fold_key ''renderedAt'' = ''renderedat''" "fold_key ''realityEnabled'' = ''realityenabled''"
  "fold_key ''vpnCore'' = ''vpncore''" "fold_key ''vpnCores'' = ''vpncores''" "fold_key ''core'' = ''core''"
  "fold_key ''protocol'' = ''protocol''" "fold_key ''transport'' = ''transport''" "fold_key ''security'' = ''security''"
  by (subst fold_key_ascii, simp add: ascii_def, code_simp)+

lemma rendered_fields:
  "string_field ''schemaVersion'' (rendered_members W c) = Some (rc_schema c)"
  "raw_field ''singBox'' (rendered_members W c) = Some (wi_singbox W (rc_singbox c))"
  "string_field ''wireGuard'' (rendered_members W c) = Some (rc_wireguard c)"
  "string_field ''hysteria2'' (rendered_members W c) = Some (h2_value W (rc_hysteria2 c))"
  "string_field ''mtproto'' (rendered_members W c) = Some (rc_mtproto c)"
  "values_named ''metadata'' (rendered_members W c) = [metadata_json W c]"
  by (simp_all add: string_field_def raw_field_def values_named_def rendered_members_def text_member_def EqualFold_def
      is_string_def stringValue_def)

lemma core_decoded:
  "Option.bind (as_struct (core_json v)) decode_core =
     Some \<lparr>rv_core = vc_core v, rv_protocol = vc_protocol v, rv_transport = vc_transport v, rv_security = vc_security v\<rparr>"
  by (simp add: as_struct_def core_json_def decode_core_def string_field_def values_named_def EqualFold_def is_string_def
      stringValue_def)

definition descriptor_of :: "ConfigVPNCore \<Rightarrow> renderedVPNCoreDescriptor" where
  "descriptor_of v = \<lparr>rv_core = vc_core v, rv_protocol = vc_protocol v, rv_transport = vc_transport v, rv_security = vc_security v\<rparr>"

lemma cores_decoded: "Option.bind (all_structs (map core_json vs)) decode_cores = Some (map descriptor_of vs)"
proof (induction vs)
  case (Cons v vs)
  obtain ms where ms: "as_struct (core_json v) = Some ms" by (simp add: as_struct_def core_json_def)
  obtain mss where mss: "all_structs (map core_json vs) = Some mss" using Cons by (cases "all_structs (map core_json vs)") auto
  show ?case using Cons core_decoded [of v] ms mss by (simp add: descriptor_of_def)
qed simp

lemma metadata_fields:
  "as_struct (metadata_json W c) = Some ms \<Longrightarrow> merge_structs (values_named ''vpnCore'' ms) = as_struct (core_json (md_core (rc_metadata c)))"
  "as_struct (metadata_json W c) = Some ms \<Longrightarrow> slice_field ''vpnCores'' ms = Some (map core_json (md_cores (rc_metadata c)))"
  by (cases "md_empty_users (rc_metadata c)"; cases "md_cores (rc_metadata c)";
      auto simp: metadata_json_def as_struct_def values_named_def slice_field_def EqualFold_def Let_def core_json_def)+

lemma descriptors_rendered:
  "decode_descriptors (Some (JObj (rendered_members W c))) =
     Some (let m = rc_metadata c in if md_cores m = [] then [descriptor_of (md_core m)] else map descriptor_of (md_cores m))"
proof -
  obtain ms where ms: "as_struct (metadata_json W c) = Some ms" by (auto simp: metadata_json_def as_struct_def Let_def)
  note f = metadata_fields [OF ms]
  have md: "struct_field ''metadata'' (rendered_members W c) = Some ms"
    by (simp add: struct_field_def rendered_fields ms)
  have single: "Option.bind (struct_field ''vpnCore'' ms) decode_core = Some (descriptor_of (md_core (rc_metadata c)))"
    by (simp add: struct_field_def f core_decoded descriptor_of_def)
  have several: "Option.bind (Option.bind (slice_field ''vpnCores'' ms) all_structs) decode_cores
      = Some (map descriptor_of (md_cores (rc_metadata c)))"
    by (simp add: f cores_decoded)
  show ?thesis
    by (simp only: decode_descriptors_def decoded_def as_struct_def Let_def md single several Option.bind.simps json.case) simp
qed

section \<open>The adapters of the Agent for the adapters of the Manager\<close>

fun agent_adapter_of :: "host_env \<Rightarrow> agent_lib \<Rightarrow> AgentConfig \<Rightarrow> adapter \<Rightarrow> VPNCoreAdapter" where
  "agent_adapter_of E A C SingBoxVLESS = NewSingBoxVLESSAdapter E A C"
| "agent_adapter_of E A C WireGuardAdapter = NewWireGuardAdapter E C"
| "agent_adapter_of E A C Hysteria2Adapter = NewHysteria2Adapter E A C"
| "agent_adapter_of E A C ShadowsocksAdapter = NewSingBoxShadowsocksAdapter E A C"
| "agent_adapter_of E A C MTProtoAdapter = NewMTProtoAdapter E A C"

lemma adapter_descriptors:
  "ca_descriptor (NewSingBoxVLESSAdapter E A C) = ManagedVPNCoreAdapters ! 0" "ca_descriptor (NewWireGuardAdapter E C) = ManagedVPNCoreAdapters ! 1"
  "ca_descriptor (NewHysteria2Adapter E A C) = ManagedVPNCoreAdapters ! 2" "ca_descriptor (NewSingBoxShadowsocksAdapter E A C) = ManagedVPNCoreAdapters ! 3"
  "ca_descriptor (NewMTProtoAdapter E A C) = ManagedVPNCoreAdapters ! 4"
  by (simp_all add: adapter_defs)

lemma manages_rendered:
  "find (manages (descriptor_of (configVPNCoreFromAdapter a reality))) (agent_adapters E A C) = Some (agent_adapter_of E A C a)"
  by (cases a; cases reality)
     (simp_all add: agent_adapters_def manages_def adapter_descriptors ManagedVPNCoreAdapters_def descriptor_of_def
        configVPNCoreFromAdapter_def composition_def selectedAdapterSecurity_def Let_def)

lemma agent_core: "core_of (agent_adapter_of E A C a) = de_core (Descriptor a)"
  by (cases a) (simp_all add: adapter_cores)

lemma rendered_core_nonblank: "TrimSpace (rv_core (descriptor_of (configVPNCoreFromAdapter a reality))) \<noteq> []"
  using core_fields(2) by (simp add: descriptor_of_def)

lemma select_rendered:
  "\<exists>bs. select_adapters vless (agent_adapters E A C) (map (\<lambda>a. descriptor_of (configVPNCoreFromAdapter a reality)) as) seen = Inr bs
     \<and> set bs \<subseteq> agent_adapter_of E A C ` set as \<and> core_of ` set bs = (\<lambda>a. de_core (Descriptor a)) ` set as - set seen"
proof (induction as arbitrary: seen)
  case (Cons a as)
  let ?c = "de_core (Descriptor a)"
  show ?case
  proof (cases "?c \<in> set seen")
    case True
    with Cons.IH [of seen] show ?thesis by (auto simp: manages_rendered rendered_core_nonblank agent_core Let_def)
  next
    case False
    obtain bs where bs: "select_adapters vless (agent_adapters E A C) (map (\<lambda>a. descriptor_of (configVPNCoreFromAdapter a reality)) as) (?c # seen) = Inr bs"
        "set bs \<subseteq> agent_adapter_of E A C ` set as" "core_of ` set bs = (\<lambda>a. de_core (Descriptor a)) ` set as - set (?c # seen)"
      using Cons.IH [of "?c # seen"] by blast
    have "select_adapters vless (agent_adapters E A C) (map (\<lambda>a. descriptor_of (configVPNCoreFromAdapter a reality)) (a # as)) seen
        = Inr (agent_adapter_of E A C a # bs)"
      using False bs(1) by (simp add: manages_rendered rendered_core_nonblank agent_core Let_def)
    then show ?thesis using bs(2,3) False by (auto simp: agent_core)
  qed
qed simp

section \<open>The text of a WireGuard section has no carriage return\<close>

lemma unlines_set: "set (unlines ls) \<subseteq> (\<Union>l \<in> set ls. set l) \<union> {newline}"
  by (induction ls) (auto simp: unlines_def)

lemma comment_clean: "CHR 0x0D \<notin> set (safeWireGuardComment v)"
  using TrimSpace_sub [of "ReplaceAll (ReplaceAll v carriage_return CHR '' '') newline CHR '' ''"]
  by (auto simp: safeWireGuardComment_def ReplaceAll_def)

lemma digits_clean: "CHR 0x0D \<notin> set (show_nat n)"
  using show_nat_digits [of n] by (auto simp: list_all_iff is_digit_def)

lemma address_clean: "CHR 0x0D \<notin> set (String4 w)"
  using String4_chars [of "CHR 0x0D" w] by (auto simp: is_digit_def)

lemma printable_clean: "printable s \<Longrightarrow> CHR 0x0D \<notin> set s"
  by (auto simp: printable_def space_byte_def)

lemma interface_clean:
  assumes "wg_server_ok i w bits" "l \<in> set (interface_lines i)"
  shows "CHR 0x0D \<notin> set l"
proof -
  have "CHR 0x0D \<notin> set (TrimSpace (si_wg_private i))" "CHR 0x0D \<notin> set (wg_server_address i)"
    using assms(1) printable_clean by (auto simp: wg_server_ok_def)
  moreover have "CHR 0x0D \<notin> set (Itoa (wg_server_port i))"
    using assms(1) digits_clean by (simp add: wg_server_ok_def Itoa_nat)
  moreover have "CHR 0x0D \<notin> set (masked_String (Some (V4 w, bits)))"
    using digits_clean address_clean by (simp add: masked_String_def)
  ultimately show ?thesis
    using assms by (auto simp: interface_lines_def Let_def wg_server_ok_def wireGuardPostUp_def wireGuardPostDown_def)
qed

lemma peer_clean:
  assumes "peer_ok a" "l \<in> set (peer_lines a)"
  shows "CHR 0x0D \<notin> set l"
proof -
  have "CHR 0x0D \<notin> set (TrimSpace (ac_wg_public a))" using assms(1) printable_clean by (simp add: peer_ok_def)
  moreover have "CHR 0x0D \<notin> set (wireGuardPeerAddress (ac_wg_address a))"
    using assms(1) address_clean by (auto simp: peer_ok_def)
  ultimately show ?thesis using assms(2) comment_clean by (auto simp: peer_lines_def)
qed

lemma wireguard_text_clean:
  assumes "WireGuardAdapter \<in> set (selectedVPNCoreAdapters i)" "sound L i WireGuardAdapter"
  shows "CHR 0x0D \<notin> set (rc_wireguard (buildRenderedConfig L i now))"
proof -
  have r: "rendered_by i WireGuardAdapter = filter isWireGuardAccountRenderable (si_accounts i)"
    unfolding rendered_by_def by (rule filter_cong) simp_all
  obtain w bits where w: "wg_server_ok i w bits" using assms(2) by auto
  have peers: "\<forall>a \<in> set (rendered_by i WireGuardAdapter). peer_ok a"
    using assms(2) renderable_peer_ok by (auto simp: r)
  have t: "rc_wireguard (buildRenderedConfig L i now) = unlines (interface_lines i @ concat (map peer_lines (rendered_by i WireGuardAdapter)))"
    using wireguard.rendered [of L i now] assms(1) by (simp add: r)
  have "CHR 0x0D \<notin> set l" if "l \<in> set (interface_lines i @ concat (map peer_lines (rendered_by i WireGuardAdapter)))" for l
    using that interface_clean [OF w] peer_clean peers by auto
  then show ?thesis using unlines_set unfolding t by fastforce
qed

section \<open>Staging on a node without faults\<close>

lemma commit_succeeds:
  assumes "\<And>k. \<not> he_fault E k"
  shows "\<exists>s n'. commit_staged E path content t n = (Inr s, n')"
  by (simp add: commit_staged_def wrapping_def or_remove_def os_WriteFile_def sys_write_def sys_call_def os_Rename_def os_ReadFile_def
      andThen_def assms find_or_def look_def some_or_def ok_def change_def)

lemma nonblank: "TrimSpace s \<noteq> [] \<Longrightarrow> s \<noteq> []"
  by (auto simp: TrimSpace_Nil)

lemma Stager_succeeds:
  assumes "\<And>k. \<not> he_fault E k" "EffectiveKind t = ''config_apply''" "ct_id t \<noteq> []" "ct_version t \<noteq> []"
    "ct_rendered t = Some (JObj (rendered_members W c))"
  shows "\<exists>s n'. Stager_Stage E A dir t n = (Inr s, n')"
  using assms(2-) commit_succeeds [OF assms(1)]
  by (simp add: Stager_Stage_def extractSingBoxConfig_def as_struct_def rendered_fields)

lemma section_succeeds:
  assumes "\<And>k. \<not> he_fault E k" "EffectiveKind t = ''config_apply''" "ct_id t \<noteq> []" "ct_version t \<noteq> []"
    "ct_rendered t = Some (JObj (rendered_members W c))" "rc_schema c = ''routegate.config.v1''"
    and "string_field section (rendered_members W c) = Some s" "TrimSpace s \<noteq> []" "parses s"
  shows "\<exists>r n'. stage_section E section parses dir ext t n = (Inr r, n')"
  using assms(2-) commit_succeeds [OF assms(1)]
  by (simp add: stage_section_def decoded_def as_struct_def rendered_fields)

lemma blank_sections:
  "TrimSpace s = [] \<Longrightarrow> parseWireGuardConfig s = None" "TrimSpace s = [] \<Longrightarrow> parseMTProtoConfig L s = None"
  by (simp_all add: parseWireGuardConfig_def agent_wg_line_def agent_flushPeer_def agent_wg_finish_def validateWireGuardKey_def
      value_of_def StdEncoding_DecodeString_def drop_newlines_def parseMTProtoConfig_def agent_mt_finish_def Let_def)

lemma persisted_fields:
  "rc_schema (persisted c) = rc_schema c" "rc_wireguard (persisted c) = rc_wireguard c" "rc_hysteria2 (persisted c) = rc_hysteria2 c"
  "rc_mtproto (persisted c) = rc_mtproto c" "rc_metadata (persisted c) = rc_metadata c"
  by (simp_all add: persisted_def)

lemma selected_descriptors:
  assumes "selectedVPNCoreAdapters i \<noteq> []"
  shows "decode_descriptors (Some (JObj (rendered_members W (persisted (buildRenderedConfig L i now))))) =
     Some (map (\<lambda>a. descriptor_of (configVPNCoreFromAdapter a (realityRequested i))) (selectedVPNCoreAdapters i))"
  using assms by (auto simp: descriptors_rendered persisted_fields build_metadata selected_cores_def Let_def map_eq_Cons_conv)

text \<open>The stage of one adapter of the Agent, for an adapter the Manager selected and found ready.\<close>

lemma stage_rendered:
  assumes sound: "sound_server (al_lib A) i" and ready: "adapter_Ready (al_lib A) c a" and sel: "a \<in> set (selectedVPNCoreAdapters i)"
    and c: "c = buildRenderedConfig (al_lib A) i now" and law: "wire_law W A c" and fault: "\<And>k. \<not> he_fault E k"
    and t: "EffectiveKind t = ''config_apply''" "ct_id t \<noteq> []" "ct_version t \<noteq> []"
      "ct_rendered t = Some (JObj (rendered_members W (persisted c)))"
  shows "\<exists>s n'. ca_Stage (agent_adapter_of E A C a) t n = (Inr s, n')"
proof -
  have schema: "rc_schema (persisted c) = ''routegate.config.v1''" by (simp add: c persisted_fields build_server)
  note box = Stager_succeeds [OF fault t]
  note texts = section_succeeds [OF fault t schema]
  show ?thesis
  proof (cases a)
    case SingBoxVLESS
    then show ?thesis using box by (simp add: adapter_defs)
  next
    case ShadowsocksAdapter
    then show ?thesis using box by (simp add: adapter_defs)
  next
    case WireGuardAdapter
    have "CHR 0x0D \<notin> set (rc_wireguard c)"
      unfolding c by (rule wireguard_text_clean) (use sound sel WireGuardAdapter in \<open>auto simp: sound_server_def\<close>)
    then have p: "parseWireGuardConfig (rc_wireguard c) \<noteq> None"
      using ready WireGuardAdapter wireguard_parsers_agree by (auto simp: wireguard_ready_def split: sum.splits)
    then have "TrimSpace (rc_wireguard c) \<noteq> []" by (metis blank_sections(1))
    then show ?thesis
      using texts [OF rendered_fields(3), of "\<lambda>s. parseWireGuardConfig s \<noteq> None"] p WireGuardAdapter
      by (simp add: adapter_defs persisted_fields)
  next
    case Hysteria2Adapter
    obtain h where h: "rc_hysteria2 c = H2 h" "h2_check (al_lib A) h = None" "h2_userpass h \<noteq> []"
      using ready Hysteria2Adapter
      by (auto simp: hysteria2_ready_def parseHysteria2ServerConfig_def split: h2_text.splits option.splits)
    have "parseHysteria2Config A (wi_h2 W h) \<noteq> None" "TrimSpace (wi_h2 W h) \<noteq> []"
      using law h hysteria2_checks_agree by (auto simp: parseHysteria2Config_def wire_law_def)
    then show ?thesis
      using texts [OF rendered_fields(4), of "\<lambda>s. parseHysteria2Config A s \<noteq> None"] h(1) Hysteria2Adapter
      by (simp add: adapter_defs persisted_fields h2_value_def)
  next
    case MTProtoAdapter
    have p: "parseMTProtoConfig (al_lib A) (rc_mtproto c) \<noteq> None"
      using ready MTProtoAdapter mtproto_parsers_agree by (auto simp: mtproto_ready_def split: sum.splits)
    then have "TrimSpace (rc_mtproto c) \<noteq> []" by (metis blank_sections(2))
    then show ?thesis
      using texts [OF rendered_fields(5), of "\<lambda>s. parseMTProtoConfig (al_lib A) s \<noteq> None"] p MTProtoAdapter
      by (simp add: adapter_defs persisted_fields)
  qed
qed

text \<open>C40. The Manager and the Agent agree.  When the settings of a node are sound and the Manager finds the stored
  configuration ready to be applied, the Agent, given that configuration in a task, selects exactly one adapter
  for every core the Manager chose, and each of them accepts and stages its section, unless a system call fails.\<close>

theorem agent_accepts_ready_configs:
  assumes "sound_server (al_lib A) i" "c = persisted (buildRenderedConfig (al_lib A) i now)"
    and "configuredVPNServicesReady (al_lib A) c" "wire_law W A c"
    and "EffectiveKind t = ''config_apply''" "ct_id t \<noteq> []" "ct_version t \<noteq> []" "ct_rendered t = Some (JObj (rendered_members W c))"
  shows "\<exists>as. selected_adapters_of E A C t = Inr as \<and> distinct (map core_of as)
     \<and> core_of ` set as = (\<lambda>a. de_core (Descriptor a)) ` set (selectedVPNCoreAdapters i)
     \<and> ((\<forall>k. \<not> he_fault E k) \<longrightarrow> (\<forall>a \<in> set as. \<forall>n. \<exists>s n'. ca_Stage a t n = (Inr s, n')))"
proof -
  let ?b = "buildRenderedConfig (al_lib A) i now"
  let ?reality = "realityRequested i"
  have sel: "selectedVPNCoreAdapters i \<noteq> []" using assms(1) by (simp add: sound_server_def)
  obtain as where as: "select_adapters (Some (NewSingBoxVLESSAdapter E A C)) (agent_adapters E A C)
        (map (\<lambda>a. descriptor_of (configVPNCoreFromAdapter a ?reality)) (selectedVPNCoreAdapters i)) [] = Inr as"
      "set as \<subseteq> agent_adapter_of E A C ` set (selectedVPNCoreAdapters i)"
      "core_of ` set as = (\<lambda>a. de_core (Descriptor a)) ` set (selectedVPNCoreAdapters i)"
    using select_rendered [of "Some (NewSingBoxVLESSAdapter E A C)" E A C ?reality "selectedVPNCoreAdapters i" "[]"] by auto
  have "as \<noteq> []" using as(3) sel by auto
  then have run: "selected_adapters_of E A C t = Inr as"
    using as(1) assms(2,8) selected_descriptors [OF sel]
    by (simp add: selected_adapters_of_def SelectVPNCoreAdapters_def agent_adapters_def map_filter_simps)
  have ready: "adapter_Ready (al_lib A) ?b a" if "a \<in> set (selectedVPNCoreAdapters i)" for a
    using assms(2,3) that
    by (simp add: configuredVPNServicesReady_def persisted_same configured_build [OF sel] list_all_iff)
  have law: "wire_law W A ?b" using assms(2,4) by (simp add: wire_law_def persisted_fields)
  have "\<exists>s n'. ca_Stage x t n = (Inr s, n')" if fault: "\<forall>k. \<not> he_fault E k" and x: "x \<in> set as" for x n
  proof -
    obtain a where a: "a \<in> set (selectedVPNCoreAdapters i)" "x = agent_adapter_of E A C a" using as(2) x by auto
    show ?thesis unfolding a(2)
      by (rule stage_rendered [OF assms(1) ready [OF a(1)] a(1) refl law _ assms(5-7) assms(8) [unfolded assms(2)]])
         (use fault in simp)
  qed
  then show ?thesis using run selected_sound(2) [OF run] as(3) by blast
qed

section \<open>An example\<close>

definition xb_lib :: agent_lib where
  "xb_lib = xa_lib\<lparr>al_lib := xc_lib\<rparr>"

definition xb_config :: RenderedConfig where
  "xb_config = persisted (buildRenderedConfig (al_lib xb_lib) xc_info 0)"

definition xb_wire :: wire where
  "xb_wire = \<lparr>wi_singbox = (\<lambda>_. JObj []), wi_h2 = (\<lambda>_. ''{}''), wi_other = (\<lambda>_ _. JNull)\<rparr>"

definition xb_env :: host_env where
  "xb_env = xa_env\<lparr>he_fault := \<lambda>_. False\<rparr>"

definition xb_task :: ConfigTask where
  "xb_task = xa_task\<lparr>ct_rendered := Some (JObj (rendered_members xb_wire xb_config))\<rparr>"

lemma xb_ready: "configuredVPNServicesReady (al_lib xb_lib) xb_config"
proof -
  have "selectedVPNCoreAdapters xc_info \<noteq> []" by (simp add: xc_selected)
  note c = configured_build [OF this, of "al_lib xb_lib" 0]
  have "adapter_Ready (al_lib xb_lib) (buildRenderedConfig (al_lib xb_lib) xc_info 0) a" if "a \<in> set (selectedVPNCoreAdapters xc_info)" for a
    using adapter_sound(2) [OF xc_sound that] that by (auto simp: xc_selected xc_rendered)
  then show ?thesis
    using c by (simp add: configuredVPNServicesReady_def xb_config_def persisted_same list_all_iff xc_selected)
qed

lemma agent_accepts_ready_configs_witness:
  "\<exists>as. selected_adapters_of xb_env xb_lib xa_config xb_task = Inr as \<and> distinct (map core_of as)
     \<and> core_of ` set as = {''sing-box'', ''wireguard''}
     \<and> (\<forall>a \<in> set as. \<exists>s n'. ca_Stage a xb_task xa_host = (Inr s, n'))"
proof -
  have "h2_sections (buildRenderedConfig (al_lib xb_lib) xc_info 0) = []" by (simp add: hysteria2.rendered xc_selected)
  then have wire: "wire_law xb_wire xb_lib xb_config"
    by (simp add: wire_law_def xb_config_def persisted_fields h2_sections_def split: h2_text.splits)
  have task: "EffectiveKind xb_task = ''config_apply''" "ct_id xb_task \<noteq> []" "ct_version xb_task \<noteq> []"
    "ct_rendered xb_task = Some (JObj (rendered_members xb_wire xb_config))"
    by (simp_all add: xb_task_def xa_task_def EffectiveKind_def)
  have calm: "\<forall>k. \<not> he_fault xb_env k" by (simp add: xb_env_def)
  from agent_accepts_ready_configs [OF xc_sound xb_config_def xb_ready wire task, of xb_env xa_config]
  obtain as where as: "selected_adapters_of xb_env xb_lib xa_config xb_task = Inr as" "distinct (map core_of as)"
    "core_of ` set as = (\<lambda>a. de_core (Descriptor a)) ` set (selectedVPNCoreAdapters xc_info)"
    "\<forall>a \<in> set as. \<forall>n. \<exists>s n'. ca_Stage a xb_task n = (Inr s, n')"
    using calm by (elim exE conjE) (drule mp, assumption, blast)
  have "core_of ` set as = {''sing-box'', ''wireguard''}" unfolding as(3) xc_selected by simp
  then show ?thesis using as(1,2,4) by (intro exI [of _ as] conjI) simp_all
qed

end
