(* ===== verification/Spec2Isabelle.thy ===== *)
theory Spec2Isabelle
  imports Rollout_Safety Traffic_Safety Selection_Move Config_Settings Transfer_Continuity Notification_Safety Agent_Accepts
begin

text \<open>
  A verification development for RouteGate, a manager of VPN nodes.  The \<^emph>\<open>Manager\<close> (\<open>src/backend\<close>, Go)
  keeps its state in PostgreSQL and serves an HTTP API; an \<^emph>\<open>Agent\<close> (\<open>src/agent\<close>, Go) on each node polls the
  Manager for tasks, applies configurations and updates, and reports heartbeats and traffic.

  \<^bold>\<open>How the program is modelled.\<close>  A database table is the list of its rows, a row is a record with the
  columns the code uses, and a \<open>WHERE\<close> clause is a predicate.  A function that runs a transaction has a body,
  a function from the database to an \<open>outcome\<close> (\<open>Rollback\<close> with the value returned, or \<open>Commit\<close> with the value
  and the new database), run by \<open>run_tx\<close> under a \<open>commit_fate\<close>: the commit succeeds, fails, or takes effect
  while its acknowledgement is lost.  Errors are values of a sum type.  Constraints and unique indexes of
  the migrations are part of the statements that can violate them.  Strings are byte lists, as in Go; 64-bit
  integers wrap where the code adds them (\<open>wrap64\<close>), IPv4 addresses are 32-bit words.  What is not in the
  repository is a parameter: the UUID and \<open>inet\<close> casts of PostgreSQL (\<open>pg_uuid\<close>, \<open>pg_inet\<close>), hashes, key
  generation, clocks, row locks held by other sessions, the network.  Where a theorem relies on such a
  parameter it says so in a named hypothesis, and its witness gives the parameter a concrete value.

  \<^bold>\<open>The theories.\<close>

  \<^descr>[\<open>Prelude\<close>] The Go string library, hexadecimal, tables, transactions, and the locale \<open>forward_table\<close> of
    tables whose rows only move forward.
  \<^descr>[\<open>Update_Jobs\<close>] Platform-update jobs (\<open>backend/internal/agents\<close>: \<open>platform_update_repository.go\<close>,
    \<open>operation_repository.go\<close>, \<open>remote_update_lifecycle.go\<close>, \<open>remote_update_reconciliation.go\<close>,
    \<open>compatibility.go\<close>): admission, claim, completion and reconciliation.  A mutating task is dispatched
    at most once, unresolved jobs are unique per server, evidence must match, terminal jobs are final.
  \<^descr>[\<open>Rollout\<close>, \<open>Rollout_Safety\<close>] Rollouts over many nodes (\<open>platform_update_rollout*.go\<close>): planning,
    persistence, admission, the health proof and the controller step, and their invariant over arbitrary
    interleavings with the jobs: one node at a time, in order, never past an unproven node; replays of lost
    acknowledgements; progress of the controller.  A row becomes healthy under two proofs, that of the Go code
    at its time \<open>now\<close> and that of the row trigger of migration 000143 (\<open>healthy_write_refused\<close>) at the later time
    \<open>wr\<close> of the write; the trigger only knows protocol 1, and the constants of \<open>backend/internal/buildinfo\<close>
    are 1 and 1 too, which the progress theorem assumes of the otherwise arbitrary \<open>build_info\<close>.
  \<^descr>[\<open>Traffic\<close>, \<open>Traffic_Safety\<close>] Traffic accounting from the counters of a VPN core through the Agent's
    outbox file (\<open>agent/internal/traffic\<close>) and the report protocol to the Manager's tables and limits
    (\<open>backend/internal/traffic\<close>).  The locale \<open>report_server\<close> is the contract the Agent needs; \<open>manager\<close>
    interprets it on the Manager's code.  Conservation follows for every loss and restart: between two
    acknowledged rounds with nothing pending the Manager records, for every account and direction, exactly the
    difference of the last readings of the two rounds, and nothing before the first.  Its steps (\<open>accounting_step\<close>)
    read counters that never decrease and name accounts canonically.
  \<^descr>[\<open>Netip\<close>, \<open>Wireguard\<close>] Addresses and the WireGuard pool (\<open>backend/internal/wireguard\<close>): the pool is exact,
    credentials are completed and stable (usable keys are kept, a missing public key is the one of the private
    key), one account's allocation is free of conflicts; the allocation of a whole server is not.
  \<^descr>[\<open>Node_Groups\<close>, \<open>Selection\<close>, \<open>Selection_Move\<close>] Node groups and automatic selection (\<open>backend/internal/nodegroups\<close>,
    \<open>vpnaccounts/automatic_selection.go\<close>): what is selected, its stability, that accounts move only to
    nodes serving the protocol they need, the cooldown, and the invariant of the group tables.  In
    \<open>Node_Groups\<close> the transfer that stages a deployed account is a parameter; \<open>Selection_Move\<close> gives it, \<open>staged_start\<close>
    being \<open>StartInTransaction\<close> of \<open>Transfers\<close> on the tables of both parts.

  \<^descr>[\<open>Golib\<close>] What the renderer uses of Go's library: \<open>strconv.Itoa\<close>, \<open>strings.Cut\<close>, \<open>TrimSpace\<close> and
    \<open>ReplaceAll\<close>, Base64, the printing of prefixes, and decoded JSON values.
  \<^descr>[\<open>Config_Model\<close>, \<open>Config_Adapters\<close>, \<open>Config_Render\<close>] The renderer of node configurations
    (\<open>backend/internal/configs\<close>: \<open>protocol*.go\<close>, \<open>protocol_adapters*.go\<close>, \<open>multi_protocol.go\<close>, \<open>render*.go\<close>,
    \<open>client_settings.go\<close>): the data, the five protocol adapters (render, validate, readiness and the parsers
    of persisted settings), the merge of the sections, the traffic section, the validation of a rendered
    configuration and the settings handed to clients.  The record \<open>lib\<close> holds what the code takes from
    outside: Go's quoting, the mail and URL parsers, Curve25519 and the iteration order of maps.
  \<^descr>[\<open>Config_Sections\<close>, \<open>Config_Text\<close>, \<open>Config_Validity\<close>, \<open>Config_Settings\<close>] What the renderer guarantees.  The locale
    \<open>render_section\<close> states what a section promises of the accounts it enrols, with an interpretation
    for every protocol; a rendered server enrols exactly the entitled accounts; the WireGuard text parses
    back to the peers it was printed from; what is rendered for a sound server passes the validation; the
    settings handed to a client match the deployed configuration.
  \<^descr>[\<open>Effects\<close>, \<open>Config_Store\<close>] Configuration versions and their deployment (\<open>configs/service.go\<close>, \<open>repository.go\<close>,
    \<open>lifecycle*.go\<close>, \<open>history_repository.go\<close>, the tasks and heartbeats of \<open>agents/repository.go\<close>, the triggers of migrations
    155, 157 and 159): reading a node, rendering and storing a version, validation, queueing, the Agent's claim
    and report, pruning and deletion.  An operation is an effect: a function from the tables to a result or
    a fault, and the new tables, so that what a failing statement leaves behind is visible.  The locale \<open>frame\<close> carries a relation between
    the tables before and after through the structure of an effect.
  \<^descr>[\<open>Transfers\<close>] Staged transfers of accounts between nodes (\<open>transfers/service.go\<close>): \<open>Start\<close>, every action of \<open>Act\<close>, with
    its savepoint, and \<open>Latest\<close>.
  \<^descr>[\<open>Transfer_Frames\<close>, \<open>Transfer_Inv\<close>, \<open>Transfer_Jobs\<close>, \<open>Transfer_Rows\<close>, \<open>Transfer_Safety\<close>, \<open>Transfer_Continuity\<close>] What transfers
    guarantee.  The relation \<open>transfer_step\<close> is one request, one report of an Agent, or one change by another session;
    \<open>transfer_inv\<close> is its invariant, with an interpretation of \<open>frame\<close> for the operations that do not touch transfers and
    one for those that only remove finished work.  Over every interleaving the account of a transfer stays
    deployed on the node it is assigned to; it moves only with proof; a finished transfer leaves one deployment;
    reserved nodes refuse other work; only safe versions are queued; protected versions are never lost.  A
    step of \<open>transfer_step\<close> names the account in the canonical spelling of its identifier.
  \<^descr>[\<open>Deliveries\<close>, \<open>Delivery_Safety\<close>] The queue of messages (\<open>delivery\<close>: \<open>service.go\<close>, \<open>repository*.go\<close>, \<open>worker.go\<close>, \<open>retry.go\<close>):
    creation under an idempotency key, the claim, the outcomes of an attempt, retries and recovery.  The providers, templates
    and materials are values of the environment.  What may have been sent is not sent again; the back-off in closed form.
  \<^descr>[\<open>Alerts\<close>, \<open>Alert_Steps\<close>, \<open>Alert_Safety\<close>, \<open>Notification_Safety\<close>] Health, alerts and notifications (\<open>observability\<close>:
    \<open>agent_health.go\<close>, \<open>health_*.go\<close>, \<open>alert_*.go\<close>, \<open>notification_*.go\<close>): telemetry becomes health checks, checks become alert
    episodes, incidents become intents, and intents become deliveries.  Every statement has a fate, so an evaluation may stop
    anywhere.  Each transaction is one \<open>row_step\<close> of the active alert; over the histories of evaluations every alert
    is explained, and the intents match the incidents.  The locale \<open>notification_creator\<close> is the contract the expansion needs,
    interpreted on the delivery service; every recipient is notified once.

  \<^descr>[\<open>Agent_Node\<close>, \<open>Agent_Adapters\<close>, \<open>Agent_Cores\<close>, \<open>Agent_Apply\<close>] The configuration task of the Agent
    (\<open>agent/internal/heartbeat/multi_config_apply.go\<close>, \<open>agent/internal/tasks\<close>: \<open>stager.go\<close>, \<open>applier.go\<close>, \<open>validator.go\<close>,
    \<open>service.go\<close>, \<open>listener_health.go\<close>, \<open>reality_handshake.go\<close>, \<open>vpn_core_adapter.go\<close> and the adapters of the cores): selecting the
    adapters, staging, validating, promoting, restarting and checking the runtimes, and the rollback.  A node
    is its files, its clock and the reports it handed to the client; the environment \<open>host_env\<close> decides which
    call fails, what a torn write leaves, what a command prints and how long it takes.
  \<^descr>[\<open>Agent_Files\<close>, \<open>Agent_Safety\<close>, \<open>Agent_Contract\<close>, \<open>Agent_Accepts\<close>] What the Agent guarantees.  \<open>untouched\<close> interprets \<open>frame\<close> for the
    file operations; the locale \<open>managed_cores\<close> states what the apply needs of an adapter and is interpreted on the
    five adapters.  A task is applied as a whole or undone, for every fault, when the tools and services write only files of
    their own (\<open>quiet\<close>) that the Agent does not manage and the configured paths do not overlap (\<open>layout_ok\<close>, shown for
    the default paths).  What the Manager renders for a sound node and finds ready, the Agent's own parsers accept;
    there \<open>wire_law\<close> says that \<open>encoding/json\<close> decodes what it encoded.

  \<^bold>\<open>Termination and bounds.\<close>  All definitions are total.  The scan of the address pool ends because the
    distance to the last address decreases; the IPv6 parser because at most eight groups are read;
    the trimming of a string because it gets shorter; the back-off loop because the attempts left decrease; the
    health checks of the Agent because every round brings the clock closer to the deadline.  No fuel is used.

  \<^bold>\<open>Simplifications.\<close>  Identifiers that a statement casts to \<open>uuid\<close> are cast by \<open>pg_uuid\<close> or \<open>ce_uuid\<close> where the spelling
  of a request decides something; the identifiers of a job being completed (\<open>CompleteAgentOperationTask\<close>) and of a
  version being looked up (\<open>find_version\<close>) are compared as given, that is, in canonical spelling.  The times \<open>now()\<close> of the
  database and of the evaluation are one value within an automatic selection (\<open>apply_body\<close>, \<open>record_selection\<close>).
  Percentages are rounded exactly, not as floats.  The triggers of migration 000159 on \<open>vpn_accounts\<close> are part of
  \<open>reassign_account\<close>; on the direct assignment of automatic selection, whose account is not deployed, they would
  only add refusals.

  \<^bold>\<open>Not modelled.\<close>  The text of JSON documents (a rendered configuration is held as the values that are
  encoded, the Hysteria2 section decoded), HTTP plumbing, SQL isolation below whole transactions, float
  rounding, third-party cores and messaging services, directories, permissions and links of the file system, the user
  interfaces.  Diagnostics (\<open>observability/diagnostic*.go\<close>), routing profiles, the routine management of accounts, servers and
  users, and the other tasks of the Agent (services, installation, diagnostics, maintenance, its own update) are not
  modelled.
\<close>

end
